(* ===== verification/Prelude.thy ===== *)
theory Prelude
  imports Main "HOL-Library.Word" "HOL-Library.Monad_Syntax"
begin

text \<open>
  Shared vocabulary of the development: the machine integer types, bytes read from a buffer the
  way the C macros read them, bounded search over an array, and the collections that the
  component proofs pass to the simplifier.

  Numbers: \<open>u8\<close>, \<open>u16\<close> and \<open>u32\<close> are the unsigned C types of the same width. Buffers are byte
  lists; reading past the end of a buffer gives 0 and is reported separately as a fault by the
  operation that does it (see the theory Usb_World).
\<close>

unbundle bit_operations_syntax

type_synonym u8 = "8 word"
type_synonym u16 = "16 word"
type_synonym u32 = "32 word"

type_synonym ptr = nat

abbreviation (input) NULL :: ptr where
  "NULL \<equiv> 0"

named_theorems frame_simps \<open>what an update of one part of the world leaves unchanged\<close>
named_theorems parse_defs \<open>definitions of the descriptor parsers\<close>

section \<open>Bytes of a buffer\<close>

definition rd8 :: "u8 list \<Rightarrow> nat \<Rightarrow> u8" where
  "rd8 buf i = (if i < length buf then buf ! i else 0)"

text \<open>\<open>LE16\<close> and \<open>LE32\<close> of usbh\_def.h: little-endian reads at an offset.\<close>

definition LE16 :: "u8 list \<Rightarrow> nat \<Rightarrow> u16" where
  "LE16 buf i = ucast (rd8 buf i) + push_bit 8 (ucast (rd8 buf (i + 1)))"

definition LE32 :: "u8 list \<Rightarrow> nat \<Rightarrow> u32" where
  "LE32 buf i = ucast (rd8 buf i) + push_bit 8 (ucast (rd8 buf (i + 1)))
     + push_bit 16 (ucast (rd8 buf (i + 2))) + push_bit 24 (ucast (rd8 buf (i + 3)))"

definition lo8 :: "u16 \<Rightarrow> u8" where
  "lo8 x = ucast x"

definition hi8 :: "u16 \<Rightarrow> u8" where
  "hi8 x = ucast (drop_bit 8 x)"

lemma rd8_append_left [simp]: "i < length xs \<Longrightarrow> rd8 (xs @ ys) i = rd8 xs i"
  by (simp add: rd8_def nth_append)

lemma rd8_append_right [simp]: "rd8 (xs @ ys) (length xs + i) = rd8 ys i"
  by (simp add: rd8_def nth_append)

lemma rd8_Cons_0 [simp]: "rd8 (x # xs) 0 = x"
  by (simp add: rd8_def)

lemma rd8_Cons_Suc [simp]: "rd8 (x # xs) (Suc i) = rd8 xs i"
  by (simp add: rd8_def)

lemma rd8_Cons_numeral [simp]: "rd8 (x # xs) (numeral k) = rd8 xs (pred_numeral k)"
  by (simp add: numeral_eq_Suc)

lemma rd8_Nil [simp]: "rd8 [] i = 0"
  by (simp add: rd8_def)

lemma rd8_drop: "rd8 (drop n xs) i = rd8 xs (n + i)"
  by (auto simp: rd8_def)

lemma LE16_drop: "LE16 (drop n xs) i = LE16 xs (n + i)"
  by (simp add: LE16_def rd8_drop add.assoc)

lemma LE16_bytes [simp]: "ucast (lo8 x) + push_bit 8 (ucast (hi8 x)) = (x :: u16)"
proof -
  have "ucast (lo8 x) + push_bit 8 (ucast (hi8 x)) = (ucast (lo8 x) OR push_bit 8 (ucast (hi8 x)) :: u16)"
    by (rule disjunctive_add_eq_or) (rule bit_word_eqI, auto simp: lo8_def hi8_def bit_simps)
  also have "\<dots> = x"
    by (rule bit_word_eqI) (auto simp: lo8_def hi8_def bit_simps)
  finally show ?thesis .
qed

lemma LE16_Cons_Suc [simp]: "LE16 (x # xs) (Suc i) = LE16 xs i"
  by (simp add: LE16_def)

lemma LE16_Cons_numeral [simp]: "LE16 (x # xs) (numeral k) = LE16 xs (pred_numeral k)"
  by (simp add: numeral_eq_Suc)

lemma LE16_pair [simp]: "LE16 (lo8 x # hi8 x # xs) 0 = x"
  using LE16_bytes [of x] by (simp add: LE16_def)

text \<open>The bytes of a word as they lie in memory.\<close>

definition le32_bytes :: "u32 \<Rightarrow> u8 list" where
  "le32_bytes x = [ucast x, ucast (drop_bit 8 x), ucast (drop_bit 16 x), ucast (drop_bit 24 x)]"

lemma word32_of_bytes:
  "(ucast (ucast x :: u8) :: u32) + push_bit 8 (ucast (ucast (drop_bit 8 x) :: u8))
      + push_bit 16 (ucast (ucast (drop_bit 16 x) :: u8)) + push_bit 24 (ucast (ucast (drop_bit 24 x) :: u8)) = x" (is "?a + ?b + ?c + ?d = x")
proof -
  have i: "bit ?a n \<longleftrightarrow> n < 8 \<and> bit x n" "bit ?b n \<longleftrightarrow> 8 \<le> n \<and> n < 16 \<and> bit x n"
    "bit ?c n \<longleftrightarrow> 16 \<le> n \<and> n < 24 \<and> bit x n" "bit ?d n \<longleftrightarrow> 24 \<le> n \<and> n < 32 \<and> bit x n" for n
    by (auto simp: bit_simps dest: bit_imp_le_length)
  have ab: "?a + ?b = ?a OR ?b" by (rule disjunctive_add) (auto simp: i)
  have abc: "(?a OR ?b) + ?c = (?a OR ?b) OR ?c" by (rule disjunctive_add) (auto simp: i bit_or_iff)
  have abcd: "((?a OR ?b) OR ?c) + ?d = ((?a OR ?b) OR ?c) OR ?d" by (rule disjunctive_add) (auto simp: i bit_or_iff)
  have "((?a OR ?b) OR ?c) OR ?d = x"
    by (rule bit_word_eqI) (auto simp: i bit_or_iff dest: bit_imp_le_length)
  then show ?thesis by (simp only: ab abc abcd)
qed

lemma LE32_le32: "LE32 (le32_bytes x @ ys) 0 = x" "LE32 (le32_bytes z @ le32_bytes x @ ys) 4 = x"
  using word32_of_bytes [of x] by (simp_all add: LE32_def le32_bytes_def rd8_def nth_Cons')

section \<open>Bounded search\<close>

text \<open>
  The C code looks for the first index of an array that satisfies a test and returns it from
  inside the loop. \<open>first_idx P i n\<close> is that loop from index \<open>i\<close> to \<open>n\<close>: \<open>None\<close> when it runs to
  the end.
\<close>

function first_idx :: "(nat \<Rightarrow> bool) \<Rightarrow> nat \<Rightarrow> nat \<Rightarrow> nat option" where
  "first_idx P i n = (if i < n then if P i then Some i else first_idx P (Suc i) n else None)"
  by pat_completeness auto
termination
  by (relation "measure (\<lambda>(P, i, n). n - i)") auto

declare first_idx.simps [simp del]

lemma first_idx_Some:
  "first_idx P i n = Some k \<Longrightarrow> i \<le> k \<and> k < n \<and> P k \<and> (\<forall>j. i \<le> j \<and> j < k \<longrightarrow> \<not> P j)"
proof (induction P i n rule: first_idx.induct)
  case (1 P i n)
  show ?case
  proof (cases "i < n \<and> \<not> P i")
    case True
    with "1.prems" have r: "first_idx P (Suc i) n = Some k"
      by (simp add: first_idx.simps [of P i n])
    with True "1.IH" have "Suc i \<le> k \<and> k < n \<and> P k \<and> (\<forall>j. Suc i \<le> j \<and> j < k \<longrightarrow> \<not> P j)"
      by simp
    with True show ?thesis
      by (metis Suc_leD Suc_leI le_neq_implies_less)
  next
    case False
    with "1.prems" show ?thesis
      by (auto simp: first_idx.simps [of P i n] split: if_splits)
  qed
qed

lemma first_idx_None: "first_idx P i n = None \<longleftrightarrow> (\<forall>j. i \<le> j \<and> j < n \<longrightarrow> \<not> P j)"
proof (induction P i n rule: first_idx.induct)
  case (1 P i n)
  show ?case
  proof (cases "i < n \<and> \<not> P i")
    case True
    with "1.IH" have "first_idx P (Suc i) n = None \<longleftrightarrow> (\<forall>j. Suc i \<le> j \<and> j < n \<longrightarrow> \<not> P j)"
      by simp
    with True show ?thesis
      by (simp add: first_idx.simps [of P i n]) (metis Suc_leD Suc_leI le_neq_implies_less)
  next
    case False
    then show ?thesis by (auto simp: first_idx.simps [of P i n])
  qed
qed

lemma first_idx_eqI:
  assumes "i \<le> k" "k < n" "P k" and "\<And>j. i \<le> j \<Longrightarrow> j < k \<Longrightarrow> \<not> P j"
  shows "first_idx P i n = Some k"
proof (cases "first_idx P i n")
  case None
  with assms show ?thesis by (auto simp: first_idx_None)
next
  case (Some k')
  from first_idx_Some [OF this] assms have "k' = k"
    by (metis linorder_neqE_nat)
  with Some show ?thesis by simp
qed

lemma first_idx_cong: "(\<And>j. j < n \<Longrightarrow> P j = Q j) \<Longrightarrow> first_idx P i n = first_idx Q i n"
proof (induction P i n rule: first_idx.induct)
  case (1 P i n)
  then show ?case
    by (simp add: first_idx.simps [of P i n] first_idx.simps [of Q i n])
qed

section \<open>Loops over a list with a state\<close>

text \<open>\<open>for\<close> loops whose body may fail to return: \<open>None\<close> as soon as one iteration does not.\<close>

primrec fold_opt :: "('a \<Rightarrow> 's \<Rightarrow> 's option) \<Rightarrow> 'a list \<Rightarrow> 's \<Rightarrow> 's option" where
  "fold_opt f [] s = Some s"
| "fold_opt f (x # xs) s = Option.bind (f x s) (fold_opt f xs)"

lemma fold_opt_invariant:
  assumes "fold_opt f xs s = Some t" "P s" "\<And>x s t. x \<in> set xs \<Longrightarrow> P s \<Longrightarrow> f x s = Some t \<Longrightarrow> P t"
  shows "P t"
  using assms
proof (induction xs arbitrary: s)
  case (Cons x xs)
  from Cons.prems(1) obtain u where u: "f x s = Some u" "fold_opt f xs u = Some t"
    by (auto split: Option.bind_splits)
  have "P u" by (rule Cons.prems(3) [OF _ Cons.prems(2) u(1)]) simp
  show ?case
  proof (rule Cons.IH [OF u(2) \<open>P u\<close>])
    fix y a b
    assume "y \<in> set xs" "P a" "f y a = Some b"
    with Cons.prems(3) [of y a b] show "P b" by simp
  qed
qed simp

section \<open>Ranges of the machine integers\<close>

lemma u8_bound: "unat (x :: u8) < 256"
  using unsigned_less [of x] by simp

lemma u16_bound: "unat (x :: u16) < 65536"
  using unsigned_less [of x] by simp

lemma u32_bound: "unat (x :: u32) < 4294967296"
  using unsigned_less [of x] by simp

lemma unat_up:
  "unat (ucast (x :: u8) :: u32) = unat x" "unat (ucast (x :: u8) :: u16) = unat x"
  "unat (ucast (y :: u16) :: u32) = unat y"
  using u8_bound [of x] u16_bound [of y] by (simp_all add: unsigned_ucast_eq take_bit_nat_eq_self)

section \<open>Options\<close>

lemma bind_SomeI: "m = Some a \<Longrightarrow> f a = r \<Longrightarrow> Option.bind m f = r"
  by simp

lemma length_list_update_nth [simp]:
  "i < length xs \<Longrightarrow> xs[i := v] ! j = (if j = i then v else xs ! j)"
  by (auto simp: nth_list_update)

section \<open>A buffer cut into packets\<close>

text \<open>How \<open>n\<close> bytes are to be cut into packets of at most \<open>mps\<close>: offset and length of each.\<close>

function split_parts :: "nat \<Rightarrow> nat \<Rightarrow> nat \<Rightarrow> (nat \<times> nat) list" where
  "split_parts mps i n = (if mps = 0 \<or> n \<le> mps then [(i, n)] else (i, mps) # split_parts mps (i + mps) (n - mps))"
  by pat_completeness auto
termination by (relation "measure (\<lambda>(mps, i, n). n)") auto

declare split_parts.simps [simp del]

lemma split_parts_last: "mps = 0 \<or> n \<le> mps \<Longrightarrow> split_parts mps i n = [(i, n)]"
  by (subst split_parts.simps) simp

lemma split_parts_more: "mps \<noteq> 0 \<Longrightarrow> mps < n \<Longrightarrow> split_parts mps i n = (i, mps) # split_parts mps (i + mps) (n - mps)"
  by (subst split_parts.simps) simp

text \<open>The parts are adjacent, none is longer than a packet, and together they are the \<open>n\<close> bytes.\<close>

lemma split_parts_cover:
  assumes "0 < mps"
  shows "concat (map (\<lambda>(a, l). [a..<a + l]) (split_parts mps i n)) = [i..<i + n]
    \<and> (\<forall>(a, l) \<in> set (split_parts mps i n). l \<le> mps)"
  using assms
proof (induction mps i n rule: split_parts.induct)
  case (1 mps i n)
  show ?case
  proof (cases "n \<le> mps")
    case True
    then show ?thesis by (simp add: split_parts_last)
  next
    case False
    with 1 have "concat (map (\<lambda>(a, l). [a..<a + l]) (split_parts mps (i + mps) (n - mps))) = [i + mps..<i + mps + (n - mps)]"
      "\<forall>(a, l) \<in> set (split_parts mps (i + mps) (n - mps)). l \<le> mps" by simp_all
    moreover have "[i..<i + mps] @ [i + mps..<i + n] = [i..<i + n]"
      using False upt_add_eq_append [of i "i + mps" "n - mps"] by simp
    ultimately show ?thesis using False 1(2) by (simp add: split_parts_more)
  qed
qed

end
