(* ===== verification/Usb_Types.thy ===== *)
theory Usb_Types
  imports Prelude
begin

text \<open>
  The data model of the USB host library: the enumerations and structures of usbh\_def.h, the
  host channel of the HCD driver (stm32f7xx\_ll\_usb.h), and the class structures of the hub
  (usbh\_hub.h), CH340 (usbh\_ch340.h), mass storage (usbh\_msc*.h) and accessory (usbh\_aoa.h) drivers.
  Structure members keep their C names; a prefix is added where the same name occurs in two structures or
  is a constant of HOL.
\<close>

section \<open>Enumerations of usbh\_def.h\<close>

datatype USBH_StatusTypeDef =
  USBH_OK | USBH_BUSY | USBH_FAIL | USBH_NOT_SUPPORTED | USBH_UNRECOVERED_ERROR
| USBH_ERROR_SPEED_UNKNOWN

datatype HOST_StateTypeDef =
  HOST_IDLE | HOST_DEV_WAIT_FOR_ATTACHMENT | HOST_DEV_ATTACHED | HOST_DEV_DISCONNECTED
| HOST_DETECT_DEVICE_SPEED | HOST_ENUMERATION | HOST_CLASS_REQUEST | HOST_INPUT
| HOST_SET_CONFIGURATION | HOST_CHECK_CLASS | HOST_CLASS | HOST_SUSPENDED | HOST_ABORT_STATE

datatype ENUM_StateTypeDef =
  ENUM_IDLE | ENUM_GET_FULL_DEV_DESC | ENUM_SET_ADDR | ENUM_GET_CFG_DESC
| ENUM_GET_FULL_CFG_DESC | ENUM_GET_MFC_STRING_DESC | ENUM_GET_PRODUCT_STRING_DESC
| ENUM_GET_SERIALNUM_STRING_DESC

datatype CTRL_StateTypeDef =
  CTRL_IDLE | CTRL_SETUP | CTRL_SETUP_WAIT | CTRL_DATA_IN | CTRL_DATA_IN_WAIT | CTRL_DATA_OUT
| CTRL_DATA_OUT_WAIT | CTRL_STATUS_IN | CTRL_STATUS_IN_WAIT | CTRL_STATUS_OUT
| CTRL_STATUS_OUT_WAIT | CTRL_ERROR | CTRL_STALLED | CTRL_COMPLETE

datatype CMD_StateTypeDef = CMD_IDLE | CMD_SEND | CMD_WAIT

datatype USBH_URBStateTypeDef =
  USBH_URB_IDLE | USBH_URB_DONE | USBH_URB_NOTREADY | USBH_URB_NYET | USBH_URB_ERROR
| USBH_URB_STALL

datatype USBH_OSEventTypeDef =
  USBH_PORT_EVENT | USBH_URB_EVENT | USBH_CONTROL_EVENT | USBH_CLASS_EVENT
| USBH_STATE_CHANGED_EVENT

text \<open>\<open>HOST_USER_*\<close> of usbh\_core.h, the second argument of the user callback.\<close>

datatype HOST_USER =
  HOST_USER_SELECT_CONFIGURATION | HOST_USER_CLASS_ACTIVE | HOST_USER_CLASS_SELECTED
| HOST_USER_CONNECTION | HOST_USER_DISCONNECTION | HOST_USER_UNRECOVERED_ERROR

section \<open>Constants of usbh\_def.h, usbh\_conf.h and usbh\_ioreq.h\<close>

abbreviation (input) USBH_SPEED_HIGH :: u8 where "USBH_SPEED_HIGH \<equiv> 0"
abbreviation (input) USBH_SPEED_FULL :: u8 where "USBH_SPEED_FULL \<equiv> 1"
abbreviation (input) USBH_SPEED_LOW :: u8 where "USBH_SPEED_LOW \<equiv> 2"

abbreviation (input) USBH_MAX_PIPES_NBR :: nat where "USBH_MAX_PIPES_NBR \<equiv> 15"
abbreviation (input) USBH_MAX_ERROR_COUNT :: u8 where "USBH_MAX_ERROR_COUNT \<equiv> 2"
abbreviation (input) USBH_MAX_NUM_ENDPOINTS :: nat where "USBH_MAX_NUM_ENDPOINTS \<equiv> 8"
abbreviation (input) USBH_MAX_NUM_INTERFACES :: nat where "USBH_MAX_NUM_INTERFACES \<equiv> 2"
abbreviation (input) USBH_MAX_NUM_SUPPORTED_CLASS :: nat where "USBH_MAX_NUM_SUPPORTED_CLASS \<equiv> 4"
abbreviation (input) USBH_MAX_DATA_BUFFER :: nat where "USBH_MAX_DATA_BUFFER \<equiv> 0x200"
abbreviation (input) USBH_MAX_NUM_CHILD :: nat where "USBH_MAX_NUM_CHILD \<equiv> 4"
abbreviation (input) USBH_MAX_NUM_DEVICE :: nat where "USBH_MAX_NUM_DEVICE \<equiv> 8"
abbreviation (input) USBH_MAX_NUM_CLASS_DATA :: nat where "USBH_MAX_NUM_CLASS_DATA \<equiv> 4"

abbreviation (input) USB_H2D :: u8 where "USB_H2D \<equiv> 0x00"
abbreviation (input) USB_D2H :: u8 where "USB_D2H \<equiv> 0x80"
abbreviation (input) USB_REQ_DIR_MASK :: u8 where "USB_REQ_DIR_MASK \<equiv> 0x80"
abbreviation (input) USB_REQ_TYPE_STANDARD :: u8 where "USB_REQ_TYPE_STANDARD \<equiv> 0x00"
abbreviation (input) USB_REQ_TYPE_CLASS :: u8 where "USB_REQ_TYPE_CLASS \<equiv> 0x20"
abbreviation (input) USB_REQ_RECIPIENT_DEVICE :: u8 where "USB_REQ_RECIPIENT_DEVICE \<equiv> 0x00"
abbreviation (input) USB_REQ_RECIPIENT_INTERFACE :: u8 where "USB_REQ_RECIPIENT_INTERFACE \<equiv> 0x01"
abbreviation (input) USB_REQ_RECIPIENT_ENDPOINT :: u8 where "USB_REQ_RECIPIENT_ENDPOINT \<equiv> 0x02"
abbreviation (input) USB_REQ_RECIPIENT_OTHER :: u8 where "USB_REQ_RECIPIENT_OTHER \<equiv> 0x03"

abbreviation (input) USB_REQ_GET_STATUS :: u8 where "USB_REQ_GET_STATUS \<equiv> 0x00"
abbreviation (input) USB_REQ_CLEAR_FEATURE :: u8 where "USB_REQ_CLEAR_FEATURE \<equiv> 0x01"
abbreviation (input) USB_REQ_SET_FEATURE :: u8 where "USB_REQ_SET_FEATURE \<equiv> 0x03"
abbreviation (input) USB_REQ_SET_ADDRESS :: u8 where "USB_REQ_SET_ADDRESS \<equiv> 0x05"
abbreviation (input) USB_REQ_GET_DESCRIPTOR :: u8 where "USB_REQ_GET_DESCRIPTOR \<equiv> 0x06"
abbreviation (input) USB_REQ_SET_CONFIGURATION :: u8 where "USB_REQ_SET_CONFIGURATION \<equiv> 0x09"
abbreviation (input) USB_REQ_SET_INTERFACE :: u8 where "USB_REQ_SET_INTERFACE \<equiv> 0x0B"

abbreviation (input) USB_DESC_TYPE_STRING :: u8 where "USB_DESC_TYPE_STRING \<equiv> 3"
abbreviation (input) USB_DESC_TYPE_INTERFACE :: u8 where "USB_DESC_TYPE_INTERFACE \<equiv> 4"
abbreviation (input) USB_DESC_TYPE_ENDPOINT :: u8 where "USB_DESC_TYPE_ENDPOINT \<equiv> 5"
abbreviation (input) USB_DESC_DEVICE :: u16 where "USB_DESC_DEVICE \<equiv> 0x0100"
abbreviation (input) USB_DESC_CONFIGURATION :: u16 where "USB_DESC_CONFIGURATION \<equiv> 0x0200"
abbreviation (input) USB_DESC_STRING :: u16 where "USB_DESC_STRING \<equiv> 0x0300"
abbreviation (input) USB_CONFIGURATION_DESC_SIZE :: u16 where "USB_CONFIGURATION_DESC_SIZE \<equiv> 9"
abbreviation (input) USB_DEVICE_DESC_SIZE :: u16 where "USB_DEVICE_DESC_SIZE \<equiv> 18"

abbreviation (input) USBH_PID_SETUP :: u8 where "USBH_PID_SETUP \<equiv> 0"
abbreviation (input) USBH_PID_DATA :: u8 where "USBH_PID_DATA \<equiv> 1"
abbreviation (input) USBH_EP_CONTROL :: u8 where "USBH_EP_CONTROL \<equiv> 0"
abbreviation (input) USBH_EP_ISO :: u8 where "USBH_EP_ISO \<equiv> 1"
abbreviation (input) USBH_EP_BULK :: u8 where "USBH_EP_BULK \<equiv> 2"
abbreviation (input) USBH_EP_INTERRUPT :: u8 where "USBH_EP_INTERRUPT \<equiv> 3"
abbreviation (input) USBH_SETUP_PKT_SIZE :: u16 where "USBH_SETUP_PKT_SIZE \<equiv> 8"

section \<open>Descriptors\<close>

record USBH_DevDescTypeDef =
  dev_bLength :: u8
  dev_bDescriptorType :: u8
  bcdUSB :: u16
  bDeviceClass :: u8
  bDeviceSubClass :: u8
  bDeviceProtocol :: u8
  bMaxPacketSize :: u8
  idVendor :: u16
  idProduct :: u16
  bcdDevice :: u16
  iManufacturer :: u8
  iProduct :: u8
  iSerialNumber :: u8
  bNumConfigurations :: u8

record USBH_EpDescTypeDef =
  ep_bLength :: u8
  ep_bDescriptorType :: u8
  bEndpointAddress :: u8
  ep_bmAttributes :: u8
  wMaxPacketSize :: u16
  bInterval :: u8

record USBH_InterfaceDescTypeDef =
  itf_bLength :: u8
  itf_bDescriptorType :: u8
  bInterfaceNumber :: u8
  bAlternateSetting :: u8
  bNumEndpoints :: u8
  bInterfaceClass :: u8
  bInterfaceSubClass :: u8
  bInterfaceProtocol :: u8
  iInterface :: u8
  Ep_Desc :: "USBH_EpDescTypeDef list"

record USBH_CfgDescTypeDef =
  cfg_bLength :: u8
  cfg_bDescriptorType :: u8
  wTotalLength :: u16
  bNumInterfaces :: u8
  bConfigurationValue :: u8
  iConfiguration :: u8
  cfg_bmAttributes :: u8
  bMaxPower :: u8
  Itf_Desc :: "USBH_InterfaceDescTypeDef list"

text \<open>The zeroed values a \<open>memset\<close> or the start-up code leaves.\<close>

definition zero_dev_desc :: USBH_DevDescTypeDef where
  "zero_dev_desc = \<lparr>dev_bLength = 0, dev_bDescriptorType = 0, bcdUSB = 0, bDeviceClass = 0,
     bDeviceSubClass = 0, bDeviceProtocol = 0, bMaxPacketSize = 0, idVendor = 0, idProduct = 0,
     bcdDevice = 0, iManufacturer = 0, iProduct = 0, iSerialNumber = 0, bNumConfigurations = 0\<rparr>"

definition zero_ep_desc :: USBH_EpDescTypeDef where
  "zero_ep_desc = \<lparr>ep_bLength = 0, ep_bDescriptorType = 0, bEndpointAddress = 0,
     ep_bmAttributes = 0, wMaxPacketSize = 0, bInterval = 0\<rparr>"

definition zero_itf_desc :: USBH_InterfaceDescTypeDef where
  "zero_itf_desc = \<lparr>itf_bLength = 0, itf_bDescriptorType = 0, bInterfaceNumber = 0,
     bAlternateSetting = 0, bNumEndpoints = 0, bInterfaceClass = 0, bInterfaceSubClass = 0,
     bInterfaceProtocol = 0, iInterface = 0,
     Ep_Desc = replicate USBH_MAX_NUM_ENDPOINTS zero_ep_desc\<rparr>"

definition zero_cfg_desc :: USBH_CfgDescTypeDef where
  "zero_cfg_desc = \<lparr>cfg_bLength = 0, cfg_bDescriptorType = 0, wTotalLength = 0,
     bNumInterfaces = 0, bConfigurationValue = 0, iConfiguration = 0, cfg_bmAttributes = 0,
     bMaxPower = 0, Itf_Desc = replicate USBH_MAX_NUM_INTERFACES zero_itf_desc\<rparr>"

section \<open>Control transfer, device and host handle\<close>

text \<open>
  A buffer pointer is the object it points into: the set-up packet or the data buffer of a host
  handle, the interrupt buffer of a hub, the buffer of a CDC handle, the command block, the status
  block or \<open>max_lun\<close> of a mass storage handle, or with an offset the receive buffer of an application
  (\<open>BApp\<close>), the send buffer of its thread (\<open>BSend\<close>), the data words of a mass storage handle (\<open>BBot\<close>) or
  other memory (\<open>BMem\<close>). \<open>BNull\<close> is the null pointer.
\<close>

datatype buf_ptr =
  BNull | BSetup ptr | BData ptr | BHubIntr ptr | BCdcBuf ptr | BApp ptr nat | BSend ptr nat
| BCbw ptr | BCsw ptr | BMaxLun ptr | BBot ptr nat | BMem ptr nat | BAoa ptr

text \<open>\<open>p += n\<close>, for the pointers the code moves.\<close>

fun buf_add :: "buf_ptr \<Rightarrow> nat \<Rightarrow> buf_ptr" where
  "buf_add (BApp q k) n = BApp q (k + n)"
| "buf_add (BSend q k) n = BSend q (k + n)"
| "buf_add (BBot q k) n = BBot q (k + n)"
| "buf_add (BMem q k) n = BMem q (k + n)"
| "buf_add b n = b"

lemma buf_add_add [simp]: "buf_add (buf_add b i) j = buf_add b (i + j)"
  by (cases b) simp_all

lemma buf_add_0 [simp]: "buf_add b 0 = b"
  by (cases b) simp_all

record USB_Setup_TypeDef =
  bmRequestType :: u8
  bRequest :: u8
  wValue :: u16
  wIndex :: u16
  wLength :: u16

record USBH_CtrlTypeDef =
  pipe_in :: u8
  pipe_out :: u8
  pipe_size :: u8
  ctl_buff :: buf_ptr
  ctl_length :: u16
  ctl_timer :: u16
  ctl_setup :: USB_Setup_TypeDef
  ctl_state :: CTRL_StateTypeDef
  errorcount :: u8

record USBH_DeviceTypeDef =
  Data :: "u8 list"
  dev_address :: u8
  dev_speed :: u8
  is_connected :: u8
  PortEnabled :: u8
  current_interface :: u8
  DevDesc :: USBH_DevDescTypeDef
  CfgDesc :: USBH_CfgDescTypeDef

text \<open>The class drivers main.c registers; a \<open>USBH_ClassTypeDef *\<close> is a \<open>USB_Class option\<close>.\<close>

datatype USB_Class = MSC_Class | CH340_Class | HUB_Class | AOA_Class

fun ClassCode :: "USB_Class \<Rightarrow> u8" where
  "ClassCode MSC_Class = 0x08"
| "ClassCode CH340_Class = 0xff"
| "ClassCode HUB_Class = 0x09"
| "ClassCode AOA_Class = 0xff"

record USBH_HandleTypeDef =
  gState :: HOST_StateTypeDef
  EnumState :: ENUM_StateTypeDef
  RequestState :: CMD_StateTypeDef
  Control :: USBH_CtrlTypeDef
  device :: USBH_DeviceTypeDef
  pClass :: "USB_Class option list"
  pActiveClass :: "USB_Class option"
  ClassNumber :: u32
  Pipes :: ptr
  Timer :: u32
  host_id :: u8
  pData :: ptr
  pUser :: ptr
  address :: ptr
  pClassData :: "ptr list"
  app_class :: ptr
  app_data :: ptr
  is_child :: u8
  parent :: ptr
  children :: "ptr list"
  last_ctrl_status :: CTRL_StateTypeDef

definition zero_setup :: USB_Setup_TypeDef where
  "zero_setup = \<lparr>bmRequestType = 0, bRequest = 0, wValue = 0, wIndex = 0, wLength = 0\<rparr>"

definition zero_ctrl :: USBH_CtrlTypeDef where
  "zero_ctrl = \<lparr>pipe_in = 0, pipe_out = 0, pipe_size = 0, ctl_buff = BNull, ctl_length = 0,
     ctl_timer = 0, ctl_setup = zero_setup, ctl_state = CTRL_IDLE, errorcount = 0\<rparr>"

definition zero_device :: USBH_DeviceTypeDef where
  "zero_device = \<lparr>Data = replicate USBH_MAX_DATA_BUFFER 0, dev_address = 0, dev_speed = 0,
     is_connected = 0, PortEnabled = 0, current_interface = 0, DevDesc = zero_dev_desc,
     CfgDesc = zero_cfg_desc\<rparr>"

definition zero_host :: USBH_HandleTypeDef where
  "zero_host = \<lparr>gState = HOST_IDLE, EnumState = ENUM_IDLE, RequestState = CMD_IDLE,
     Control = zero_ctrl, device = zero_device,
     pClass = replicate USBH_MAX_NUM_SUPPORTED_CLASS None, pActiveClass = None, ClassNumber = 0,
     Pipes = NULL, Timer = 0, host_id = 0, pData = NULL, pUser = NULL, address = NULL,
     pClassData = replicate USBH_MAX_NUM_CLASS_DATA NULL, app_class = NULL, app_data = NULL,
     is_child = 0, parent = NULL, children = replicate USBH_MAX_NUM_CHILD NULL,
     last_ctrl_status = CTRL_IDLE\<rparr>"

section \<open>Host channels of the HCD driver\<close>

datatype HCD_HCState =
  HC_IDLE | HC_XFRC | HC_HALTED | HC_NAK | HC_NYET | HC_STALL | HC_XACTERR | HC_BBLERR
| HC_DATATGLERR

abbreviation (input) HC_PID_DATA0 :: u8 where "HC_PID_DATA0 \<equiv> 0"
abbreviation (input) HC_PID_DATA1 :: u8 where "HC_PID_DATA1 \<equiv> 2"
abbreviation (input) HC_PID_SETUP :: u8 where "HC_PID_SETUP \<equiv> 3"

record HCD_HCTypeDef =
  hc_dev_addr :: u8
  hc_ch_num :: u8
  hc_ep_num :: u8
  hc_ep_is_in :: u8
  hc_speed :: u8
  hc_do_ping :: u8
  hc_ep_type :: u8
  hc_max_packet :: u16
  hc_data_pid :: u8
  hc_xfer_buff :: buf_ptr
  hc_xfer_len :: u32
  hc_xfer_count :: u32
  hc_toggle_in :: u8
  hc_toggle_out :: u8
  hc_ErrCnt :: u32
  hc_urb_state :: USBH_URBStateTypeDef
  hc_state :: HCD_HCState

definition zero_hc :: HCD_HCTypeDef where
  "zero_hc = \<lparr>hc_dev_addr = 0, hc_ch_num = 0, hc_ep_num = 0, hc_ep_is_in = 0, hc_speed = 0,
     hc_do_ping = 0, hc_ep_type = 0, hc_max_packet = 0, hc_data_pid = 0, hc_xfer_buff = BNull,
     hc_xfer_len = 0, hc_xfer_count = 0, hc_toggle_in = 0, hc_toggle_out = 0, hc_ErrCnt = 0,
     hc_urb_state = USBH_URB_IDLE, hc_state = HC_IDLE\<rparr>"

abbreviation (input) HC_COUNT :: nat where "HC_COUNT \<equiv> 15"

section \<open>Class data\<close>

text \<open>usbh\_hub.h. Members that no statement of usbh\_hub.c reads or writes are left out.\<close>

datatype HUB_CtlStateTypeDef =
  HUB_REQ_INIT | HUB_REQ_IDLE | HUB_REQ_GET_HUB_DESC | HUB_REQ_GET_HUB_STATUS
| HUB_REQ_SET_PORT_POWER | HUB_REQ_SCAN_PORT | HUB_REQ_SCAN_PORT_WAIT | HUB_REQ_ENUM_PORT
| HUB_REQ_CLR_FEATURE

record HUB_CommItfTypedef =
  hub_NotifPipe :: u8
  hub_NotifEp :: u8
  hub_NotifEpSize :: u16
  hub_poll :: u8

record HUB_DescTypeDef =
  hd_bLength :: u8
  hd_bDescriptorType :: u8
  bNbrPorts :: u8
  wHubCharacteristics :: u16
  bPwrOn2PwrGood :: u8
  bHubContrCurrent :: u8
  DeviceRemovable :: u8
  PortPwrCtrlMask :: u8

record HUB_HandleTypeDef =
  hub_CommItf :: HUB_CommItfTypedef
  HUB_Desc :: HUB_DescTypeDef
  wHubStatus :: u16
  wHubChange :: u16
  hub_ctl_state :: HUB_CtlStateTypeDef
  port_index :: u8
  hub_intr_buf :: "u8 list"
  port_state :: u8
  sof_num :: u32

definition zero_hub :: HUB_HandleTypeDef where
  "zero_hub = \<lparr>hub_CommItf = \<lparr>hub_NotifPipe = 0, hub_NotifEp = 0, hub_NotifEpSize = 0, hub_poll = 0\<rparr>,
     HUB_Desc = \<lparr>hd_bLength = 0, hd_bDescriptorType = 0, bNbrPorts = 0, wHubCharacteristics = 0,
       bPwrOn2PwrGood = 0, bHubContrCurrent = 0, DeviceRemovable = 0, PortPwrCtrlMask = 0\<rparr>,
     wHubStatus = 0, wHubChange = 0, hub_ctl_state = HUB_REQ_INIT, port_index = 0,
     hub_intr_buf = replicate 64 0, port_state = 0, sof_num = 0\<rparr>"

text \<open>usbh\_ch340.h.\<close>

datatype CDC_DataStateTypeDef =
  CDC_IDLE | CDC_SEND_DATA | CDC_SEND_DATA_WAIT | CDC_RECEIVE_DATA | CDC_RECEIVE_DATA_WAIT

datatype CDC_StateTypeDef =
  CDC_IDLE_STATE | CDC_ATTACH_INIT_STATE | CDC_SET_LINE_CODING_STATE
| CDC_GET_LAST_LINE_CODING_STATE | CDC_TRANSFER_DATA | CDC_ERROR_STATE

datatype CH340_AttachStateTypeDef =
  CH340_READ_VENDOR_VERSION_STATE | CH340_VENDOR_SERIAL_INIT_STATE | CH340_VENDOR_WRITE_1_STATE
| CH340_VENDOR_WRITE_2_STATE | CH340_VENDOR_READ_1_STATE | CH340_VENDOR_WRITE_3_STATE
| CH340_VENDOR_MODEM_OUT_STATE | CH340_ATTACH_COMPLETE_STATE

record CDC_LineCodingTypeDef =
  dwDTERate :: u32
  bCharFormat :: u8
  bParityType :: u8
  bDataBits :: u8

text \<open>
  A \<open>CDC_LineCodingTypeDef *\<close> is null, the \<open>LineCoding\<close> member of a CDC handle, or a variable of
  the application.
\<close>

datatype lc_ptr = LcNull | LcCdc ptr | LcApp ptr

record CDC_CommItfTypedef =
  cdc_NotifPipe :: u8
  cdc_NotifEp :: u8
  cdc_NotifEpSize :: u16

record CDC_DataItfTypedef =
  cdc_InPipe :: u8
  cdc_OutPipe :: u8
  cdc_OutEp :: u8
  cdc_InEp :: u8
  cdc_OutEpSize :: u16
  cdc_InEpSize :: u16

record CDC_HandleTypeDef =
  cdc_CommItf :: CDC_CommItfTypedef
  cdc_DataItf :: CDC_DataItfTypedef
  pTxData :: buf_ptr
  pRxData :: buf_ptr
  TxDataLength :: u32
  RxDataLength :: u32
  LineCoding :: CDC_LineCodingTypeDef
  pUserLineCoding :: lc_ptr
  cdc_state :: CDC_StateTypeDef
  data_tx_state :: CDC_DataStateTypeDef
  data_rx_state :: CDC_DataStateTypeDef
  attach_state :: CH340_AttachStateTypeDef
  cdc_buf :: "u8 list"

section \<open>The CH340 application\<close>

text \<open>
  app\_ch340.h and sdram\_alloc.h. A pointer to an entry of \<open>g_sdram_map\<close> is its index; \<open>buffer_base\<close>
  is the offset into the SDRAM bank.
\<close>

datatype ApplicationTypeDef =
  CH340_APPLICATION_IDLE | CH340_APPLICATION_START | CH340_APPLICATION_READY
| CH340_APPLICATION_READY_CHECK | CH340_APPLICATION_SETTING_LINECODE | CH340_APPLICATION_RUNNING
| CH340_APPLICATION_DISCONNECT

record CDC_LOG_BUFF_STATE =
  log_sd :: "nat option"
  p_read :: u32
  p_write :: u32

record ch340_app =
  AppliEvent :: "ApplicationTypeDef list"
  Appli_state :: ApplicationTypeDef
  log_buf :: CDC_LOG_BUFF_STATE
  recv_buf :: "u8 list"
  g_stop_flag :: u8
  rx_total_num :: u32
  tx_total_num :: u32
  app_LineCoding :: CDC_LineCodingTypeDef
  DefaultLineCoding :: CDC_LineCodingTypeDef

record sdram_buffer_map =
  is_used :: u32
  buffer_base :: nat
  buffer_size :: u32

section \<open>Mass storage\<close>

text \<open>
  usbh\_msc\_bot.h, usbh\_msc\_scsi.h and usbh\_msc.h. The command block is the structure of its union,
  \<open>cbw_data\<close> in \<open>Usb_MSC\<close> are its bytes; the status block is the bytes of its union, which the code reads
  through the structure. \<open>bot_data\<close> are the bytes of \<open>uint32_t data[16]\<close>.
\<close>

datatype BOT_CMDStateTypeDef = BOT_CMD_IDLE | BOT_CMD_SEND | BOT_CMD_WAIT

datatype BOT_CSWStatusTypeDef = BOT_CSW_CMD_PASSED | BOT_CSW_CMD_FAILED | BOT_CSW_PHASE_ERROR

datatype BOT_StateTypeDef =
  BOT_SEND_CBW | BOT_SEND_CBW_WAIT | BOT_DATA_IN | BOT_DATA_IN_WAIT | BOT_DATA_OUT | BOT_DATA_OUT_WAIT
| BOT_RECEIVE_CSW | BOT_RECEIVE_CSW_WAIT | BOT_ERROR_IN | BOT_ERROR_OUT | BOT_UNRECOVERED_ERROR

record BOT_CBWTypeDef =
  cbw_Signature :: u32
  cbw_Tag :: u32
  cbw_DataTransferLength :: u32
  cbw_Flags :: u8
  cbw_LUN :: u8
  cbw_CBLength :: u8
  cbw_CB :: "u8 list"

record BOT_HandleTypeDef =
  bot_data :: "u8 list"
  bot_state :: BOT_StateTypeDef
  bot_prev_state :: BOT_StateTypeDef
  bot_cmd_state :: BOT_CMDStateTypeDef
  cbw :: BOT_CBWTypeDef
  csw :: "u8 list"
  bot_pbuf :: buf_ptr

record SCSI_CapacityTypeDef =
  block_nbr :: u32
  block_size :: u16

record SCSI_SenseTypeDef =
  sense_key :: u8
  sense_asc :: u8
  sense_ascq :: u8

record SCSI_StdInquiryDataTypeDef =
  PeripheralQualifier :: u8
  DeviceType :: u8
  RemovableMedia :: u8
  vendor_id :: "u8 list"
  product_id :: "u8 list"
  revision_id :: "u8 list"

datatype MSC_StateTypeDef =
  MSC_INIT | MSC_IDLE | MSC_TEST_UNIT_READY | MSC_READ_CAPACITY10 | MSC_READ_INQUIRY | MSC_REQUEST_SENSE
| MSC_READ | MSC_WRITE | MSC_UNRECOVERED_ERROR | MSC_PERIODIC_CHECK

datatype MSC_ErrorTypeDef = MSC_OK | MSC_NOT_READY | MSC_ERROR

datatype MSC_ReqStateTypeDef = MSC_REQ_IDLE | MSC_REQ_RESET | MSC_REQ_GET_MAX_LUN | MSC_REQ_ERROR

record MSC_LUNTypeDef =
  lun_state :: MSC_StateTypeDef
  lun_error :: MSC_ErrorTypeDef
  prev_ready_state :: USBH_StatusTypeDef
  lun_capacity :: SCSI_CapacityTypeDef
  lun_sense :: SCSI_SenseTypeDef
  lun_inquiry :: SCSI_StdInquiryDataTypeDef
  state_changed :: u8

record MSC_HandleTypeDef =
  max_lun :: u32
  msc_InPipe :: u8
  msc_OutPipe :: u8
  msc_OutEp :: u8
  msc_InEp :: u8
  msc_OutEpSize :: u16
  msc_InEpSize :: u16
  msc_state :: MSC_StateTypeDef
  msc_error :: MSC_ErrorTypeDef
  req_state :: MSC_ReqStateTypeDef
  prev_req_state :: MSC_ReqStateTypeDef
  hbot :: BOT_HandleTypeDef
  msc_unit :: "MSC_LUNTypeDef list"
  current_lun :: u16
  rw_lun :: u16
  msc_timer :: u32

section \<open>The accessory driver (usbh\_aoa.h)\<close>

datatype AOA_INFO_INDEX =
  AOA_INFO_MANU_0 | AOA_INFO_MODEL_1 | AOA_INFO_DESC_2 | AOA_INFO_VERSION_3 | AOA_INFO_URI_4 | AOA_INFO_SN_5

datatype AOA_REQ_STATE =
  AOA_GET_PROTOCOL | AOA_SET_PROTOCOL_0 | AOA_SET_PROTOCOL_1 | AOA_SET_PROTOCOL_2 | AOA_SET_PROTOCOL_3
| AOA_SET_PROTOCOL_4 | AOA_SET_PROTOCOL_5 | AOA_SET_AOA_REQ | AOA_MAX_NUM

record AOA_HandleTypeDef =
  aoa_OutPipe :: u8
  aoa_InPipe :: u8
  aoa_OutEp :: u8
  aoa_InEp :: u8
  aoa_OutEpSize :: u16
  aoa_InEpSize :: u16
  aoa_Date :: "u8 list"

text \<open>What \<open>phost->pClassData[0]\<close> or \<open>phost->pActiveClass->pData\<close> points to.\<close>

datatype class_data =
  NoData | HubData HUB_HandleTypeDef | CdcData CDC_HandleTypeDef | MscData MSC_HandleTypeDef
| AoaData AOA_HandleTypeDef

end
