(* ===== verification/Usb_World.thy ===== *)
theory Usb_World
  imports Usb_Types
begin

text \<open>
  The state every operation of the host library works on, as one record \<open>usb\<close> that the
  definitions take and return:

  \<^item> \<open>hosts\<close> is the store of host handles, addressed by pointers: the root handle
    \<open>hUSBHost\<close> of main.c and one handle per device behind a hub. \<open>words\<close> and \<open>bytes\<close> hold the
    arrays \<open>phost->Pipes\<close> and \<open>phost->address\<close> point to, so a child that copies its parent's
    pointers shares them. \<open>cdata\<close> holds what \<open>pClassData\<close> points to. \<open>alive\<close> lists the handles
    that are allocated.
  \<^item> \<open>hc\<close> is the channel array of the HCD handle, \<open>hprt_masked\<close> the port interrupt bit of
    \<open>GINTMSK\<close>, \<open>port_speed\<close> and \<open>frame_num\<close> two registers the library reads.
  \<^item> \<open>os_event\<close> is the message queue of the host task (ten entries, as \<open>osMessageQDef\<close> sizes it);
    \<open>outs\<close> lists the calls that leave the library in the order they are made.
  \<^item> \<open>faults\<close> lists, in order, every access the C program must not make: an index outside an
    array, a null or freed pointer. After such an access the C program has no defined behaviour;
    the model reads 0, drops the write and goes on, so a result counts only where no fault was
    added. No operation removes a fault.

  Interrupts and hardware are a function \<open>usb \<Rightarrow> usb\<close> that the operations take as their first
  argument (named \<open>E\<close>): it is applied where the code polls a channel or waits, and may do
  anything. The theorems state what they need of it. \<open>mallocs\<close> says which of the coming \<open>malloc\<close>
  calls fail (none when it is empty), and \<open>junk\<close> and \<open>msc_junk\<close> are the content of memory \<open>malloc\<close> returns.

  \<open>apps\<close> are the application objects \<open>app_data\<close> points to, \<open>sd_map\<close> and \<open>sd_mem\<close> the buffer table of
  sdram\_alloc.c and the bytes of the SDRAM bank, and \<open>sd_busy\<close> says that another task holds the
  mutex of the table.
\<close>

datatype fault =
  OOB_Pipes nat | OOB_Address int | OOB_Channel nat | OOB_Data nat | OOB_Children int
| OOB_Interface nat | OOB_Endpoint int | OOB_Class nat | Null_Class | Null_Hcd | Null_User
| Null_ClassData | Dead_Host ptr | Null_LineCoding | Uninitialised | Div_Zero | Null_App
| OOB_Recv nat | OOB_Sdram int | OOB_Unit nat | OOB_Buffer buf_ptr nat

text \<open>
  A transfer is logged with what it sends: the set-up packet of a set-up transfer, which the hardware
  reads out of the control structure when the transfer starts, or the buffer it works on.
\<close>

datatype payload = Packet USB_Setup_TypeDef | Buffer buf_ptr

datatype hal_call =
  HCD_Init | HCD_DeInit | HCD_Start | HCD_Stop | HCD_ResetPort
| HCD_Halt u8
| HC_Open u8 u8 u8 u8 u8 u16
| HC_StartXfer u8 u8 u8 u8 payload u16
| VBUS bool
| Delay nat
| User ptr HOST_USER
| App_New ptr
| App_Start ptr
| App_Stop ptr

record usb =
  hosts :: "ptr \<Rightarrow> USBH_HandleTypeDef"
  alive :: "ptr list"
  words :: "ptr \<Rightarrow> u32 list"
  bytes :: "ptr \<Rightarrow> u8 list"
  cdata :: "ptr \<Rightarrow> class_data"
  class_pData :: "USB_Class \<Rightarrow> ptr"
  lcs :: "ptr \<Rightarrow> CDC_LineCodingTypeDef"
  brk :: ptr
  mallocs :: "bool list"
  junk :: CDC_HandleTypeDef
  msc_junk :: MSC_HandleTypeDef
  hc :: "HCD_HCTypeDef list"
  hhcd_pData :: ptr
  port_speed :: u32
  frame_num :: u32
  hprt_masked :: bool
  os_event :: "USBH_OSEventTypeDef list"
  apps :: "ptr \<Rightarrow> ch340_app option"
  sd_map :: "sdram_buffer_map list"
  sd_mem :: "nat \<Rightarrow> u8"
  sd_busy :: bool
  outs :: "hal_call list"
  faults :: "fault list"

section \<open>Faults, outputs, messages\<close>

definition chk :: "bool \<Rightarrow> fault \<Rightarrow> usb \<Rightarrow> usb" where
  "chk ok x w = w\<lparr>faults := faults w @ (if ok then [] else [x])\<rparr>"

definition out :: "hal_call \<Rightarrow> usb \<Rightarrow> usb" where
  "out x w = w\<lparr>outs := outs w @ [x]\<rparr>"

text \<open>\<open>osMessagePut\<close> with time-out 0: a full queue drops the message.\<close>

definition osMessagePut :: "USBH_OSEventTypeDef \<Rightarrow> usb \<Rightarrow> usb" where
  "osMessagePut e w =
     w\<lparr>os_event := (if length (os_event w) < 10 then os_event w @ [e] else os_event w)\<rparr>"

section \<open>Host handles\<close>

definition upd_host :: "ptr \<Rightarrow> (USBH_HandleTypeDef \<Rightarrow> USBH_HandleTypeDef) \<Rightarrow> usb \<Rightarrow> usb" where
  "upd_host p f w = w\<lparr>hosts := (hosts w)(p := f (hosts w p))\<rparr>"

abbreviation upd_ctl :: "ptr \<Rightarrow> (USBH_CtrlTypeDef \<Rightarrow> USBH_CtrlTypeDef) \<Rightarrow> usb \<Rightarrow> usb" where
  "upd_ctl p f \<equiv> upd_host p (Control_update f)"

abbreviation upd_dev :: "ptr \<Rightarrow> (USBH_DeviceTypeDef \<Rightarrow> USBH_DeviceTypeDef) \<Rightarrow> usb \<Rightarrow> usb" where
  "upd_dev p f \<equiv> upd_host p (device_update f)"

definition chk_host :: "ptr \<Rightarrow> usb \<Rightarrow> usb" where
  "chk_host p w = chk (p \<in> set (alive w)) (Dead_Host p) w"

section \<open>The heap\<close>

definition malloc :: "usb \<Rightarrow> ptr \<times> usb" where
  "malloc w = (case mallocs w of
       False # ms \<Rightarrow> (NULL, w\<lparr>mallocs := ms\<rparr>)
     | _ \<Rightarrow> (brk w, w\<lparr>brk := Suc (brk w), mallocs := tl (mallocs w)\<rparr>))"

definition free_cdata :: "ptr \<Rightarrow> usb \<Rightarrow> usb" where
  "free_cdata q w = w\<lparr>cdata := (cdata w)(q := NoData)\<rparr>"

definition free_host :: "ptr \<Rightarrow> usb \<Rightarrow> usb" where
  "free_host p w = w\<lparr>alive := removeAll p (alive w)\<rparr>"

section \<open>Frame facts\<close>

lemmas world_defs = chk_def out_def osMessagePut_def upd_host_def chk_host_def free_cdata_def
  free_host_def

lemma upd_host_hosts [simp]: "hosts (upd_host p f w) = (hosts w)(p := f (hosts w p))"
  by (simp add: upd_host_def)

lemma upd_host_frame [simp, frame_simps]:
  "alive (upd_host p f w) = alive w" "words (upd_host p f w) = words w"
  "bytes (upd_host p f w) = bytes w" "cdata (upd_host p f w) = cdata w"
  "class_pData (upd_host p f w) = class_pData w" "lcs (upd_host p f w) = lcs w"
  "brk (upd_host p f w) = brk w" "mallocs (upd_host p f w) = mallocs w"
  "junk (upd_host p f w) = junk w" "hc (upd_host p f w) = hc w" "hhcd_pData (upd_host p f w) = hhcd_pData w"
  "port_speed (upd_host p f w) = port_speed w" "frame_num (upd_host p f w) = frame_num w"
  "hprt_masked (upd_host p f w) = hprt_masked w" "os_event (upd_host p f w) = os_event w"
  "outs (upd_host p f w) = outs w" "faults (upd_host p f w) = faults w"
  by (simp_all add: upd_host_def)

lemma chk_frame [simp, frame_simps]:
  "hosts (chk b x w) = hosts w" "alive (chk b x w) = alive w" "words (chk b x w) = words w"
  "bytes (chk b x w) = bytes w" "cdata (chk b x w) = cdata w"
  "class_pData (chk b x w) = class_pData w" "lcs (chk b x w) = lcs w" "brk (chk b x w) = brk w"
  "mallocs (chk b x w) = mallocs w" "junk (chk b x w) = junk w" "hc (chk b x w) = hc w" "hhcd_pData (chk b x w) = hhcd_pData w"
  "port_speed (chk b x w) = port_speed w" "frame_num (chk b x w) = frame_num w"
  "hprt_masked (chk b x w) = hprt_masked w" "os_event (chk b x w) = os_event w"
  "outs (chk b x w) = outs w"
  by (simp_all add: chk_def)

lemma chk_faults [simp]: "faults (chk b x w) = faults w @ (if b then [] else [x])"
  by (simp add: chk_def)

lemma chk_True [simp]: "chk True x w = w"
  by (simp add: chk_def)

lemma out_frame [simp, frame_simps]:
  "hosts (out x w) = hosts w" "alive (out x w) = alive w" "words (out x w) = words w"
  "bytes (out x w) = bytes w" "cdata (out x w) = cdata w"
  "class_pData (out x w) = class_pData w" "lcs (out x w) = lcs w" "brk (out x w) = brk w"
  "mallocs (out x w) = mallocs w" "junk (out x w) = junk w" "hc (out x w) = hc w" "hhcd_pData (out x w) = hhcd_pData w"
  "port_speed (out x w) = port_speed w" "frame_num (out x w) = frame_num w"
  "hprt_masked (out x w) = hprt_masked w" "os_event (out x w) = os_event w"
  "faults (out x w) = faults w"
  by (simp_all add: out_def)

lemma out_outs [simp]: "outs (out x w) = outs w @ [x]"
  by (simp add: out_def)

lemma osMessagePut_frame [simp, frame_simps]:
  "hosts (osMessagePut x w) = hosts w" "alive (osMessagePut x w) = alive w"
  "words (osMessagePut x w) = words w" "bytes (osMessagePut x w) = bytes w"
  "cdata (osMessagePut x w) = cdata w" "class_pData (osMessagePut x w) = class_pData w"
  "lcs (osMessagePut x w) = lcs w" "brk (osMessagePut x w) = brk w"
  "mallocs (osMessagePut x w) = mallocs w" "junk (osMessagePut x w) = junk w"
  "hc (osMessagePut x w) = hc w" "hhcd_pData (osMessagePut x w) = hhcd_pData w" "port_speed (osMessagePut x w) = port_speed w"
  "frame_num (osMessagePut x w) = frame_num w"
  "hprt_masked (osMessagePut x w) = hprt_masked w" "outs (osMessagePut x w) = outs w"
  "faults (osMessagePut x w) = faults w"
  by (simp_all add: osMessagePut_def)

lemma chk_host_frame [simp, frame_simps]:
  "hosts (chk_host x w) = hosts w" "alive (chk_host x w) = alive w"
  "words (chk_host x w) = words w" "bytes (chk_host x w) = bytes w"
  "cdata (chk_host x w) = cdata w" "brk (chk_host x w) = brk w" "hc (chk_host x w) = hc w"
  "hprt_masked (chk_host x w) = hprt_masked w" "os_event (chk_host x w) = os_event w"
  "outs (chk_host x w) = outs w"
  by (simp_all add: chk_host_def)

lemma chk_host_faults [simp]: "p \<in> set (alive w) \<Longrightarrow> chk_host p w = w"
  by (simp add: chk_host_def)

lemma malloc_fst_neq_NULL: "0 < brk w \<Longrightarrow> fst (malloc w) \<noteq> NULL \<Longrightarrow> fst (malloc w) = brk w"
  by (auto simp: malloc_def split: list.splits bool.splits)

lemma malloc_frame [simp, frame_simps]:
  "hosts (snd (malloc w)) = hosts w" "alive (snd (malloc w)) = alive w"
  "words (snd (malloc w)) = words w" "bytes (snd (malloc w)) = bytes w"
  "cdata (snd (malloc w)) = cdata w" "hc (snd (malloc w)) = hc w"
  "os_event (snd (malloc w)) = os_event w" "outs (snd (malloc w)) = outs w"
  "faults (snd (malloc w)) = faults w"
  by (auto simp: malloc_def split: list.splits bool.splits)

section \<open>After start-up\<close>

text \<open>
  The state the C start-up code leaves: static storage is zero, the root handle \<open>hUSBHost\<close> of
  main.c is the only handle, nothing is allocated and no call has been made.
\<close>

abbreviation (input) hUSBHost :: ptr where "hUSBHost \<equiv> 1"

definition zero_cdc :: CDC_HandleTypeDef where
  "zero_cdc = \<lparr>cdc_CommItf = \<lparr>cdc_NotifPipe = 0, cdc_NotifEp = 0, cdc_NotifEpSize = 0\<rparr>,
     cdc_DataItf = \<lparr>cdc_InPipe = 0, cdc_OutPipe = 0, cdc_OutEp = 0, cdc_InEp = 0,
       cdc_OutEpSize = 0, cdc_InEpSize = 0\<rparr>,
     pTxData = BNull, pRxData = BNull, TxDataLength = 0, RxDataLength = 0,
     LineCoding = \<lparr>dwDTERate = 0, bCharFormat = 0, bParityType = 0, bDataBits = 0\<rparr>,
     pUserLineCoding = LcNull, cdc_state = CDC_IDLE_STATE, data_tx_state = CDC_IDLE,
     data_rx_state = CDC_IDLE, attach_state = CH340_READ_VENDOR_VERSION_STATE, cdc_buf = []\<rparr>"

definition zero_lun :: MSC_LUNTypeDef where
  "zero_lun = \<lparr>lun_state = MSC_INIT, lun_error = MSC_OK, prev_ready_state = USBH_OK,
     lun_capacity = \<lparr>block_nbr = 0, block_size = 0\<rparr>,
     lun_sense = \<lparr>sense_key = 0, sense_asc = 0, sense_ascq = 0\<rparr>,
     lun_inquiry = \<lparr>PeripheralQualifier = 0, DeviceType = 0, RemovableMedia = 0,
       vendor_id = replicate 9 0, product_id = replicate 17 0, revision_id = replicate 5 0\<rparr>,
     state_changed = 0\<rparr>"

definition zero_msc :: MSC_HandleTypeDef where
  "zero_msc = \<lparr>max_lun = 0, msc_InPipe = 0, msc_OutPipe = 0, msc_OutEp = 0, msc_InEp = 0,
     msc_OutEpSize = 0, msc_InEpSize = 0, msc_state = MSC_INIT, msc_error = MSC_OK,
     req_state = MSC_REQ_IDLE, prev_req_state = MSC_REQ_IDLE,
     hbot = \<lparr>bot_data = replicate 64 0, bot_state = BOT_SEND_CBW, bot_prev_state = BOT_SEND_CBW,
       bot_cmd_state = BOT_CMD_IDLE,
       cbw = \<lparr>cbw_Signature = 0, cbw_Tag = 0, cbw_DataTransferLength = 0, cbw_Flags = 0, cbw_LUN = 0,
         cbw_CBLength = 0, cbw_CB = replicate 16 0\<rparr>,
       csw = replicate 13 0, bot_pbuf = BNull\<rparr>,
     msc_unit = replicate 2 zero_lun, current_lun = 0, rw_lun = 0, msc_timer = 0\<rparr>"

definition zero_aoa :: AOA_HandleTypeDef where
  "zero_aoa = \<lparr>aoa_OutPipe = 0, aoa_InPipe = 0, aoa_OutEp = 0, aoa_InEp = 0, aoa_OutEpSize = 0, aoa_InEpSize = 0,
     aoa_Date = replicate 512 0\<rparr>"

abbreviation (input) LOG_BUFF_SIZE :: nat where "LOG_BUFF_SIZE \<equiv> 0x100000"

definition g_sdram_map :: "sdram_buffer_map list" where
  "g_sdram_map = map (\<lambda>i. \<lparr>is_used = 0, buffer_base = LOG_BUFF_SIZE * i, buffer_size = 0x100000\<rparr>) [0..<5]"

definition reset_usb :: usb where
  "reset_usb = \<lparr>hosts = (\<lambda>_. zero_host), alive = [hUSBHost], words = (\<lambda>_. []), bytes = (\<lambda>_. []),
     cdata = (\<lambda>_. NoData), class_pData = (\<lambda>_. NULL), lcs = (\<lambda>_. LineCoding zero_cdc),
     brk = 2, mallocs = [], junk = zero_cdc, msc_junk = zero_msc, hc = replicate HC_COUNT zero_hc, hhcd_pData = NULL,
     port_speed = 1, frame_num = 0, hprt_masked = False, os_event = [],
     apps = (\<lambda>_. None), sd_map = g_sdram_map, sd_mem = (\<lambda>_. 0), sd_busy = False, outs = [], faults = []\<rparr>"

end
