(* ===== verification/Usb_Hcd.thy ===== *)
theory Usb_Hcd
  imports Usb_World "HOL-Library.While_Combinator"
begin

text \<open>
  The low-level driver as the host library sees it: the channel operations of the HCD driver
  (stm32f7xx\_hal\_hcd.c), its channel interrupt handlers, and the \<open>USBH_LL_*\<close> layer of usbh\_conf.c.
  The registers of the OTG core are outside the model: a call that only touches them is recorded
  in \<open>outs\<close>, and \<open>HCINT\<close> is an argument of the interrupt handlers. \<open>dma_enable\<close> is 0, as
  \<open>USBH_LL_Init\<close> sets it.
\<close>

section \<open>The channel array\<close>

definition hc_get :: "usb \<Rightarrow> u8 \<Rightarrow> HCD_HCTypeDef" where
  "hc_get w ch = (if unat ch < length (hc w) then hc w ! unat ch else zero_hc)"

definition upd_hc :: "u8 \<Rightarrow> (HCD_HCTypeDef \<Rightarrow> HCD_HCTypeDef) \<Rightarrow> usb \<Rightarrow> usb" where
  "upd_hc ch f w = w\<lparr>hc := (hc w)[unat ch := f (hc_get w ch)]\<rparr>"

definition chk_hc :: "u8 \<Rightarrow> usb \<Rightarrow> usb" where
  "chk_hc ch w = chk (unat ch < length (hc w)) (OOB_Channel (unat ch)) w"

section \<open>Channel operations\<close>

definition HAL_HCD_HC_Init :: "u8 \<Rightarrow> u8 \<Rightarrow> u8 \<Rightarrow> u8 \<Rightarrow> u8 \<Rightarrow> u16 \<Rightarrow> usb \<Rightarrow> usb" where
  "HAL_HCD_HC_Init ch_num epnum dev_addr speed ep_type mps w =
     out (HC_Open ch_num epnum dev_addr speed ep_type mps)
      (upd_hc ch_num (\<lambda>c. c\<lparr>
         hc_do_ping := 0,
         hc_dev_addr := dev_addr,
         hc_max_packet := mps,
         hc_ch_num := ch_num,
         hc_ep_type := ep_type,
         hc_ep_num := epnum AND 0x7F,
         hc_ep_is_in := (if epnum AND 0x80 = 0x80 then 1 else 0),
         hc_speed := speed\<rparr>) (chk_hc ch_num w))"

definition HAL_HCD_HC_Halt :: "u8 \<Rightarrow> usb \<Rightarrow> usb" where
  "HAL_HCD_HC_Halt ch_num w = out (HCD_Halt ch_num) w"

text \<open>
  The data PID of a request: set-up packets have their own, the others start as DATA1 and the
  switch on the endpoint type then follows the channel's toggle. A control OUT transfer of
  length 0 (the status stage) first sets the OUT toggle.
\<close>

definition toggle_pid :: "u8 \<Rightarrow> u8" where
  "toggle_pid t = (if t = 0 then HC_PID_DATA0 else HC_PID_DATA1)"

definition submit_pid :: "u8 \<Rightarrow> u8 \<Rightarrow> u8 \<Rightarrow> u16 \<Rightarrow> HCD_HCTypeDef \<Rightarrow> HCD_HCTypeDef" where
  "submit_pid direction ep_type token len c =
    (let c = c\<lparr>hc_ep_is_in := direction, hc_ep_type := ep_type\<rparr>;
         c = c\<lparr>hc_data_pid := (if token = 0 then HC_PID_SETUP else HC_PID_DATA1)\<rparr>
     in if ep_type = USBH_EP_CONTROL then
          if token = 1 \<and> direction = 0 then
            (let c = (if len = 0 then c\<lparr>hc_toggle_out := 1\<rparr> else c)
             in c\<lparr>hc_data_pid := toggle_pid (hc_toggle_out c)\<rparr>)
          else c
        else if ep_type = USBH_EP_BULK then
          if direction = 0 then c\<lparr>hc_data_pid := toggle_pid (hc_toggle_out c)\<rparr>
          else c\<lparr>hc_data_pid := toggle_pid (hc_toggle_in c)\<rparr>
        else if ep_type = USBH_EP_INTERRUPT then
          if direction = 0 then c\<lparr>hc_data_pid := toggle_pid (hc_toggle_out c)\<rparr>
          else c\<lparr>hc_data_pid := toggle_pid (hc_toggle_in c)\<rparr>
        else if ep_type = USBH_EP_ISO then c\<lparr>hc_data_pid := HC_PID_DATA0\<rparr>
        else c)"

definition payload_of :: "usb \<Rightarrow> u8 \<Rightarrow> buf_ptr \<Rightarrow> payload" where
  "payload_of w token b =
    (case b of
       BSetup q \<Rightarrow> if token = 0 then Packet (ctl_setup (Control (hosts w q))) else Buffer b
     | _ \<Rightarrow> Buffer b)"

definition HAL_HCD_HC_SubmitRequest ::
  "u8 \<Rightarrow> u8 \<Rightarrow> u8 \<Rightarrow> u8 \<Rightarrow> buf_ptr \<Rightarrow> u16 \<Rightarrow> u8 \<Rightarrow> usb \<Rightarrow> usb" where
  "HAL_HCD_HC_SubmitRequest ch_num direction ep_type token pbuff len do_ping w =
    (let w = chk_hc ch_num w;
         w = upd_hc ch_num (submit_pid direction ep_type token len) w;
         w = upd_hc ch_num (\<lambda>c. c\<lparr>
               hc_xfer_buff := pbuff,
               hc_xfer_len := ucast len,
               hc_urb_state := USBH_URB_IDLE,
               hc_xfer_count := 0,
               hc_ch_num := ch_num,
               hc_state := HC_IDLE\<rparr>) w
     in out (HC_StartXfer ch_num direction ep_type (hc_data_pid (hc_get w ch_num))
               (payload_of w token pbuff) len) w)"

definition HAL_HCD_HC_GetURBState :: "u8 \<Rightarrow> usb \<Rightarrow> USBH_URBStateTypeDef" where
  "HAL_HCD_HC_GetURBState chnum w = hc_urb_state (hc_get w chnum)"

definition HAL_HCD_HC_GetXferCount :: "u8 \<Rightarrow> usb \<Rightarrow> u32" where
  "HAL_HCD_HC_GetXferCount chnum w = hc_xfer_count (hc_get w chnum)"

section \<open>Channel interrupts\<close>

abbreviation (input) HCINT_XFRC :: u32 where "HCINT_XFRC \<equiv> 0x001"
abbreviation (input) HCINT_CHH :: u32 where "HCINT_CHH \<equiv> 0x002"
abbreviation (input) HCINT_AHBERR :: u32 where "HCINT_AHBERR \<equiv> 0x004"
abbreviation (input) HCINT_STALL :: u32 where "HCINT_STALL \<equiv> 0x008"
abbreviation (input) HCINT_NAK :: u32 where "HCINT_NAK \<equiv> 0x010"
abbreviation (input) HCINT_ACK :: u32 where "HCINT_ACK \<equiv> 0x020"
abbreviation (input) HCINT_NYET :: u32 where "HCINT_NYET \<equiv> 0x040"
abbreviation (input) HCINT_TXERR :: u32 where "HCINT_TXERR \<equiv> 0x080"
abbreviation (input) HCINT_FRMOR :: u32 where "HCINT_FRMOR \<equiv> 0x200"
abbreviation (input) HCINT_DTERR :: u32 where "HCINT_DTERR \<equiv> 0x400"

text \<open>
  One handler invocation works on the channel and the \<open>HCINT\<close> register (whose bits the code
  clears by writing them). It lists what it does to the other registers of the channel, in order
  (\<open>USB_HC_Halt\<close>, the mask of the halt interrupt, the re-activation of the channel, the odd-frame bit), and
  says whether it calls \<open>HAL_HCD_HC_NotifyURBChange_Callback\<close>.
\<close>

datatype hc_op = Op_Halt | Op_UnmaskHalt | Op_MaskHalt | Op_Reactivate | Op_OddFrame

record hc_irq =
  irq_c :: HCD_HCTypeDef
  irq_HCINT :: u32
  irq_ops :: "hc_op list"
  irq_notify :: bool

definition irq_start :: "HCD_HCTypeDef \<Rightarrow> u32 \<Rightarrow> hc_irq" where
  "irq_start c hcint = \<lparr>irq_c = c, irq_HCINT = hcint, irq_ops = [], irq_notify = False\<rparr>"

definition irq_halts :: "hc_irq \<Rightarrow> nat" where
  "irq_halts s = length (filter (\<lambda>x. x = Op_Halt) (irq_ops s))"

definition flag :: "u32 \<Rightarrow> hc_irq \<Rightarrow> bool" where
  "flag m s \<longleftrightarrow> irq_HCINT s AND m \<noteq> 0"

definition clear_int :: "u32 \<Rightarrow> hc_irq \<Rightarrow> hc_irq" where
  "clear_int m s = s\<lparr>irq_HCINT := irq_HCINT s AND NOT m\<rparr>"

definition set_state :: "HCD_HCState \<Rightarrow> hc_irq \<Rightarrow> hc_irq" where
  "set_state st s = s\<lparr>irq_c := (irq_c s)\<lparr>hc_state := st\<rparr>\<rparr>"

definition set_urb :: "USBH_URBStateTypeDef \<Rightarrow> hc_irq \<Rightarrow> hc_irq" where
  "set_urb u s = s\<lparr>irq_c := (irq_c s)\<lparr>hc_urb_state := u\<rparr>\<rparr>"

definition set_errcnt :: "u32 \<Rightarrow> hc_irq \<Rightarrow> hc_irq" where
  "set_errcnt n s = s\<lparr>irq_c := (irq_c s)\<lparr>hc_ErrCnt := n\<rparr>\<rparr>"

definition do_op :: "hc_op \<Rightarrow> hc_irq \<Rightarrow> hc_irq" where
  "do_op x s = s\<lparr>irq_ops := irq_ops s @ [x]\<rparr>"

definition halt_ch :: "hc_irq \<Rightarrow> hc_irq" where
  "halt_ch s = do_op Op_Halt s"

definition unmask_halt :: "hc_irq \<Rightarrow> hc_irq" where
  "unmask_halt s = do_op Op_UnmaskHalt s"

definition notify_urb :: "hc_irq \<Rightarrow> hc_irq" where
  "notify_urb s = s\<lparr>irq_notify := True\<rparr>"

text \<open>\<open>if (ErrCnt++ > 3)\<close>: the old count is compared, the new one is stored.\<close>

definition err_retry :: "hc_irq \<Rightarrow> hc_irq" where
  "err_retry s =
    (let n = hc_ErrCnt (irq_c s); s = set_errcnt (n + 1) s
     in if n > 3 then set_urb USBH_URB_ERROR (set_errcnt 0 s) else set_urb USBH_URB_NOTREADY s)"

definition in_first :: "hc_irq \<Rightarrow> hc_irq" where
  "in_first s =
    (if flag HCINT_AHBERR s then unmask_halt (clear_int HCINT_AHBERR s)
     else if flag HCINT_ACK s then clear_int HCINT_ACK s
     else if flag HCINT_STALL s then
       halt_ch (clear_int HCINT_STALL (clear_int HCINT_NAK (set_state HC_STALL (unmask_halt s))))
     else if flag HCINT_DTERR s then
       clear_int HCINT_DTERR (set_state HC_DATATGLERR (clear_int HCINT_NAK (halt_ch (unmask_halt s))))
     else s)"

definition in_halted :: "hc_irq \<Rightarrow> hc_irq" where
  "in_halted s =
    (let st = hc_state (irq_c s)
     in if st = HC_XFRC then set_urb USBH_URB_DONE s
        else if st = HC_STALL then set_urb USBH_URB_STALL s
        else if st = HC_XACTERR \<or> st = HC_DATATGLERR then do_op Op_Reactivate (err_retry s)
        else if st = HC_NAK then do_op Op_Reactivate (set_urb USBH_URB_NOTREADY s)
        else if hc_ep_type (irq_c s) = USBH_EP_INTERRUPT then set_urb USBH_URB_NOTREADY s
        else s)"

definition in_xfrc :: "hc_irq \<Rightarrow> hc_irq" where
  "in_xfrc s =
    (let s = clear_int HCINT_XFRC (set_errcnt 0 (set_state HC_XFRC s));
         t = hc_ep_type (irq_c s);
         s = (if t = USBH_EP_CONTROL \<or> t = USBH_EP_BULK then clear_int HCINT_NAK (halt_ch (unmask_halt s))
              else if t = USBH_EP_INTERRUPT then notify_urb (set_urb USBH_URB_DONE (do_op Op_OddFrame s))
              else s)
     in s\<lparr>irq_c := (irq_c s)\<lparr>hc_toggle_in := hc_toggle_in (irq_c s) XOR 1\<rparr>\<rparr>)"

definition in_second :: "hc_irq \<Rightarrow> hc_irq" where
  "in_second s =
    (if flag HCINT_FRMOR s then clear_int HCINT_FRMOR (halt_ch (unmask_halt s))
     else if flag HCINT_XFRC s then in_xfrc s
     else if flag HCINT_CHH s then notify_urb (clear_int HCINT_CHH (in_halted (do_op Op_MaskHalt s)))
     else if flag HCINT_TXERR s then
       clear_int HCINT_TXERR (halt_ch (set_state HC_XACTERR
         (set_errcnt (hc_ErrCnt (irq_c s) + 1) (unmask_halt s))))
     else if flag HCINT_NAK s then
       clear_int HCINT_NAK
         (let t = hc_ep_type (irq_c s)
          in if t = USBH_EP_INTERRUPT then halt_ch (unmask_halt (set_errcnt 0 s))
             else if t = USBH_EP_CONTROL \<or> t = USBH_EP_BULK then
               halt_ch (unmask_halt (set_state HC_NAK (set_errcnt 0 s)))
             else s)
     else s)"

definition HCD_HC_IN_IRQHandler :: "hc_irq \<Rightarrow> hc_irq" where
  "HCD_HC_IN_IRQHandler s = in_second (in_first s)"

definition out_halted :: "hc_irq \<Rightarrow> hc_irq" where
  "out_halted s =
    (let st = hc_state (irq_c s)
     in if st = HC_XFRC then
          (let s = set_urb USBH_URB_DONE s; t = hc_ep_type (irq_c s)
           in if t = USBH_EP_BULK \<or> t = USBH_EP_INTERRUPT
              then s\<lparr>irq_c := (irq_c s)\<lparr>hc_toggle_out := hc_toggle_out (irq_c s) XOR 1\<rparr>\<rparr>
              else s)
        else if st = HC_NAK then set_urb USBH_URB_NOTREADY s
        else if st = HC_NYET then set_urb USBH_URB_NOTREADY s
        else if st = HC_STALL then set_urb USBH_URB_STALL s
        else if st = HC_XACTERR \<or> st = HC_DATATGLERR then do_op Op_Reactivate (err_retry s)
        else s)"

definition set_ping :: "u8 \<Rightarrow> hc_irq \<Rightarrow> hc_irq" where
  "set_ping v s = s\<lparr>irq_c := (irq_c s)\<lparr>hc_do_ping := v\<rparr>\<rparr>"

definition HCD_HC_OUT_IRQHandler :: "hc_irq \<Rightarrow> hc_irq" where
  "HCD_HC_OUT_IRQHandler s =
    (if flag HCINT_AHBERR s then unmask_halt (clear_int HCINT_AHBERR s)
     else if flag HCINT_ACK s then
       (let s = clear_int HCINT_ACK s
        in if hc_do_ping (irq_c s) = 1
           then halt_ch (unmask_halt (set_urb USBH_URB_NOTREADY (set_ping 0 s))) else s)
     else if flag HCINT_NYET s then
       clear_int HCINT_NYET (halt_ch (unmask_halt (set_errcnt 0 (set_ping 1 (set_state HC_NYET s)))))
     else if flag HCINT_FRMOR s then clear_int HCINT_FRMOR (halt_ch (unmask_halt s))
     else if flag HCINT_XFRC s then
       set_state HC_XFRC (clear_int HCINT_XFRC (halt_ch (unmask_halt (set_errcnt 0 s))))
     else if flag HCINT_STALL s then
       set_state HC_STALL (halt_ch (unmask_halt (clear_int HCINT_STALL s)))
     else if flag HCINT_NAK s then
       (let s = set_state HC_NAK (set_errcnt 0 s);
            s = (if hc_do_ping (irq_c s) = 0 \<and> hc_speed (irq_c s) = USBH_SPEED_HIGH
                 then set_ping 1 s else s)
        in clear_int HCINT_NAK (halt_ch (unmask_halt s)))
     else if flag HCINT_TXERR s then
       clear_int HCINT_TXERR (set_state HC_XACTERR (halt_ch (unmask_halt s)))
     else if flag HCINT_DTERR s then
       set_state HC_DATATGLERR (clear_int HCINT_DTERR (clear_int HCINT_NAK (halt_ch (unmask_halt s))))
     else if flag HCINT_CHH s then
       notify_urb (clear_int HCINT_CHH (out_halted (do_op Op_MaskHalt s)))
     else s)"

end
