(* ===== verification/Usb_LL.thy ===== *)
theory Usb_LL
  imports Usb_Hcd
begin

text \<open>
  The \<open>USBH_LL_*\<close> functions of usbh\_conf.c, between the host library and the HCD driver. There is
  one HCD handle, \<open>hhcd\<close>; a host handle's \<open>pData\<close> is its address (\<open>HHCD\<close>) or null.
\<close>

abbreviation (input) HHCD :: ptr where "HHCD \<equiv> 1"

section \<open>Waiting and looking up the parent chain\<close>

definition USBH_Delay :: "(usb \<Rightarrow> usb) \<Rightarrow> nat \<Rightarrow> usb \<Rightarrow> usb" where
  "USBH_Delay E n w = E (out (Delay n) w)"

text \<open>
  \<open>while (phost->parent) phost = phost->parent\<close>. The handles of a chain that ends are distinct and
  allocated, so the number of allocated handles bounds the number of steps.
\<close>

primrec climb :: "nat \<Rightarrow> usb \<Rightarrow> ptr \<Rightarrow> ptr" where
  "climb 0 w p = p"
| "climb (Suc n) w p = (if parent (hosts w p) \<noteq> NULL then climb n w (parent (hosts w p)) else p)"

definition root_of :: "usb \<Rightarrow> ptr \<Rightarrow> ptr" where
  "root_of w p = climb (length (alive w)) w p"

section \<open>Operations\<close>

definition chk_hcd :: "ptr \<Rightarrow> usb \<Rightarrow> usb" where
  "chk_hcd p w = chk (pData (hosts w p) \<noteq> NULL) Null_Hcd w"

definition USBH_LL_SetTimer :: "ptr \<Rightarrow> u32 \<Rightarrow> usb \<Rightarrow> usb" where
  "USBH_LL_SetTimer p time w = upd_host p (\<lambda>h. h\<lparr>Timer := time\<rparr>) w"

definition USBH_LL_Init :: "ptr \<Rightarrow> usb \<Rightarrow> USBH_StatusTypeDef \<times> usb" where
  "USBH_LL_Init p w =
    (let w = w\<lparr>hhcd_pData := p\<rparr>;
         w = upd_host p (\<lambda>h. h\<lparr>pData := HHCD\<rparr>) w;
         w = out HCD_Init w
     in (USBH_OK, USBH_LL_SetTimer p (frame_num w) w))"

definition no_hcd :: "ptr \<Rightarrow> usb \<Rightarrow> bool" where
  "no_hcd p w \<longleftrightarrow> is_child (hosts w p) = 1 \<or> pData (hosts w p) = NULL"

definition USBH_LL_DeInit :: "ptr \<Rightarrow> usb \<Rightarrow> USBH_StatusTypeDef \<times> usb" where
  "USBH_LL_DeInit p w = (if no_hcd p w then (USBH_OK, w) else (USBH_OK, out HCD_DeInit w))"

definition USBH_LL_Start :: "ptr \<Rightarrow> usb \<Rightarrow> USBH_StatusTypeDef \<times> usb" where
  "USBH_LL_Start p w = (if no_hcd p w then (USBH_OK, w) else (USBH_OK, out HCD_Start w))"

definition USBH_LL_Stop :: "ptr \<Rightarrow> usb \<Rightarrow> USBH_StatusTypeDef \<times> usb" where
  "USBH_LL_Stop p w = (if no_hcd p w then (USBH_OK, w) else (USBH_OK, out HCD_Stop w))"

definition USBH_LL_GetSpeed :: "ptr \<Rightarrow> usb \<Rightarrow> u8" where
  "USBH_LL_GetSpeed p w =
    (if port_speed w = 0 then USBH_SPEED_HIGH
     else if port_speed w = 1 then USBH_SPEED_FULL
     else if port_speed w = 2 then USBH_SPEED_LOW
     else USBH_SPEED_FULL)"

definition USBH_LL_ResetPort :: "ptr \<Rightarrow> usb \<Rightarrow> USBH_StatusTypeDef \<times> usb" where
  "USBH_LL_ResetPort p w = (if no_hcd p w then (USBH_OK, w) else (USBH_OK, out HCD_ResetPort w))"

definition USBH_LL_GetLastXferSize :: "ptr \<Rightarrow> u8 \<Rightarrow> usb \<Rightarrow> u32" where
  "USBH_LL_GetLastXferSize p pipe w = HAL_HCD_HC_GetXferCount pipe w"

definition USBH_LL_OpenPipe ::
  "ptr \<Rightarrow> u8 \<Rightarrow> u8 \<Rightarrow> u8 \<Rightarrow> u8 \<Rightarrow> u8 \<Rightarrow> u16 \<Rightarrow> usb \<Rightarrow> USBH_StatusTypeDef \<times> usb" where
  "USBH_LL_OpenPipe p pipe epnum addr speed ep_type mps w =
     (USBH_OK, HAL_HCD_HC_Init pipe epnum addr speed ep_type mps (chk_hcd p w))"

definition USBH_LL_ClosePipe :: "ptr \<Rightarrow> u8 \<Rightarrow> usb \<Rightarrow> USBH_StatusTypeDef \<times> usb" where
  "USBH_LL_ClosePipe p pipe w = (USBH_OK, HAL_HCD_HC_Halt pipe (chk_hcd p w))"

definition USBH_LL_SubmitURB ::
  "ptr \<Rightarrow> u8 \<Rightarrow> u8 \<Rightarrow> u8 \<Rightarrow> u8 \<Rightarrow> buf_ptr \<Rightarrow> u16 \<Rightarrow> u8 \<Rightarrow> usb \<Rightarrow> USBH_StatusTypeDef \<times> usb" where
  "USBH_LL_SubmitURB p pipe direction ep_type token pbuff len do_ping w =
    (if p = NULL \<or> pData (hosts w p) = NULL \<or> is_connected (device (hosts w p)) = 0
     then (USBH_FAIL, w)
     else (USBH_OK, HAL_HCD_HC_SubmitRequest pipe direction ep_type token pbuff len do_ping w))"

definition USBH_LL_GetURBState ::
  "(usb \<Rightarrow> usb) \<Rightarrow> ptr \<Rightarrow> u8 \<Rightarrow> usb \<Rightarrow> USBH_URBStateTypeDef \<times> usb" where
  "USBH_LL_GetURBState E p pipe w =
    (let w = E w; w = chk_hc pipe (chk_hcd (root_of w p) w)
     in (HAL_HCD_HC_GetURBState pipe w, w))"

definition USBH_LL_DriverVBUS ::
  "(usb \<Rightarrow> usb) \<Rightarrow> ptr \<Rightarrow> u8 \<Rightarrow> usb \<Rightarrow> USBH_StatusTypeDef \<times> usb" where
  "USBH_LL_DriverVBUS E p state w =
    (if no_hcd p w then (USBH_OK, w)
     else (USBH_OK, USBH_Delay E 200 (out (VBUS (state \<noteq> 0)) w)))"

definition USBH_LL_SetToggle :: "ptr \<Rightarrow> u8 \<Rightarrow> u8 \<Rightarrow> usb \<Rightarrow> USBH_StatusTypeDef \<times> usb" where
  "USBH_LL_SetToggle p pipe toggle w =
    (let w = chk_hc pipe w
     in if hc_ep_is_in (hc_get w pipe) \<noteq> 0
        then (USBH_OK, upd_hc pipe (\<lambda>c. c\<lparr>hc_toggle_in := toggle\<rparr>) w)
        else (USBH_OK, upd_hc pipe (\<lambda>c. c\<lparr>hc_toggle_out := toggle\<rparr>) w))"

definition USBH_LL_GetToggle :: "ptr \<Rightarrow> u8 \<Rightarrow> usb \<Rightarrow> u8" where
  "USBH_LL_GetToggle p pipe w =
    (if hc_ep_is_in (hc_get w pipe) \<noteq> 0 then hc_toggle_in (hc_get w pipe)
     else hc_toggle_out (hc_get w pipe))"

section \<open>Channel interrupts on the host state\<close>

definition USBH_LL_NotifyURBChange :: "ptr \<Rightarrow> usb \<Rightarrow> USBH_StatusTypeDef \<times> usb" where
  "USBH_LL_NotifyURBChange p w = (USBH_OK, osMessagePut USBH_URB_EVENT w)"

definition run_irq :: "(hc_irq \<Rightarrow> hc_irq) \<Rightarrow> u8 \<Rightarrow> u32 \<Rightarrow> usb \<Rightarrow> usb" where
  "run_irq handler ch hcint w =
    (let s = handler (irq_start (hc_get w ch) hcint);
         w = upd_hc ch (\<lambda>_. irq_c s) (chk_hc ch w);
         w = w\<lparr>outs := outs w @ replicate (irq_halts s) (HCD_Halt ch)\<rparr>
     in if irq_notify s then snd (USBH_LL_NotifyURBChange (hhcd_pData w) w) else w)"

definition channel_irq :: "u8 \<Rightarrow> u32 \<Rightarrow> usb \<Rightarrow> usb" where
  "channel_irq ch hcint w =
    (if hc_ep_is_in (hc_get w ch) \<noteq> 0 then run_irq HCD_HC_IN_IRQHandler ch hcint w
     else run_irq HCD_HC_OUT_IRQHandler ch hcint w)"

section \<open>Frame facts\<close>

lemma upd_hc_frame [simp, frame_simps]:
  "hosts (upd_hc ch f w) = hosts w" "alive (upd_hc ch f w) = alive w"
  "words (upd_hc ch f w) = words w" "bytes (upd_hc ch f w) = bytes w"
  "cdata (upd_hc ch f w) = cdata w" "outs (upd_hc ch f w) = outs w"
  "faults (upd_hc ch f w) = faults w" "os_event (upd_hc ch f w) = os_event w"
  "hprt_masked (upd_hc ch f w) = hprt_masked w" "hhcd_pData (upd_hc ch f w) = hhcd_pData w"
  "length (hc (upd_hc ch f w)) = length (hc w)"
  by (simp_all add: upd_hc_def)

lemma hc_get_upd_hc [simp]:
  "unat ch < length (hc w) \<Longrightarrow>
     hc_get (upd_hc ch f w) k = (if k = ch then f (hc_get w ch) else hc_get w k)"
  by (auto simp: hc_get_def upd_hc_def unsigned_word_eqI)

lemma chk_hc_ok [simp]: "unat ch < length (hc w) \<Longrightarrow> chk_hc ch w = w"
  by (simp add: chk_hc_def)

lemma hc_get_frame [simp]:
  "hc_get (upd_host p f w) ch = hc_get w ch" "hc_get (chk b x w) ch = hc_get w ch"
  "hc_get (out y w) ch = hc_get w ch" "hc_get (osMessagePut z w) ch = hc_get w ch"
  by (simp_all add: hc_get_def)

lemma HAL_HCD_HC_SubmitRequest_frame [simp, frame_simps]:
  "hosts (HAL_HCD_HC_SubmitRequest ch d t k b n g w) = hosts w"
  "alive (HAL_HCD_HC_SubmitRequest ch d t k b n g w) = alive w"
  "words (HAL_HCD_HC_SubmitRequest ch d t k b n g w) = words w"
  "bytes (HAL_HCD_HC_SubmitRequest ch d t k b n g w) = bytes w"
  "cdata (HAL_HCD_HC_SubmitRequest ch d t k b n g w) = cdata w"
  "os_event (HAL_HCD_HC_SubmitRequest ch d t k b n g w) = os_event w"
  "length (hc (HAL_HCD_HC_SubmitRequest ch d t k b n g w)) = length (hc w)"
  by (simp_all add: HAL_HCD_HC_SubmitRequest_def Let_def chk_hc_def)

lemma USBH_LL_SubmitURB_frame [simp, frame_simps]:
  "hosts (snd (USBH_LL_SubmitURB p ch d t k b n g w)) = hosts w"
  "alive (snd (USBH_LL_SubmitURB p ch d t k b n g w)) = alive w"
  "words (snd (USBH_LL_SubmitURB p ch d t k b n g w)) = words w"
  "bytes (snd (USBH_LL_SubmitURB p ch d t k b n g w)) = bytes w"
  "cdata (snd (USBH_LL_SubmitURB p ch d t k b n g w)) = cdata w"
  "os_event (snd (USBH_LL_SubmitURB p ch d t k b n g w)) = os_event w"
  "length (hc (snd (USBH_LL_SubmitURB p ch d t k b n g w))) = length (hc w)"
  by (simp_all add: USBH_LL_SubmitURB_def)

end
