(* ===== verification/Slot_Pool.thy ===== *)
theory Slot_Pool
  imports Prelude
begin

text \<open>
  The contract three allocators of the firmware share: the host channels (usbh\_pipes.c), the
  device addresses (usbh\_core.c) and the SDRAM buffers (sdram\_alloc.c) are each a fixed table of
  \<open>n\<close> slots with a used mark; an allocation takes the lowest free slot and fails only on a full
  table, and a release clears the mark. The lemmas below follow from the contract alone.
\<close>

primrec alloc_seq :: "('a \<Rightarrow> 's \<Rightarrow> nat option \<times> 's) \<Rightarrow> 'a list \<Rightarrow> 's \<Rightarrow> nat option list \<times> 's" where
  "alloc_seq al [] s = ([], s)"
| "alloc_seq al (a # as) s =
     (let (r, s1) = al a s; (rs, s2) = alloc_seq al as s1 in (r # rs, s2))"

locale slot_pool =
  fixes n :: nat
    and ok :: "'s \<Rightarrow> bool"
    and used :: "'s \<Rightarrow> nat set"
    and alloc :: "'a \<Rightarrow> 's \<Rightarrow> nat option \<times> 's"
    and free :: "nat \<Rightarrow> 's \<Rightarrow> 's"
  assumes used_bound: "ok s \<Longrightarrow> used s \<subseteq> {..<n}"
    and alloc_slot: "ok s \<Longrightarrow> alloc a s = (Some i, s') \<Longrightarrow>
          ok s' \<and> i < n \<and> i \<notin> used s \<and> used s' = insert i (used s) \<and> (\<forall>j<i. j \<in> used s)"
    and alloc_full: "ok s \<Longrightarrow> alloc a s = (None, s') \<Longrightarrow> s' = s \<and> used s = {..<n}"
    and free_slot: "ok s \<Longrightarrow> i < n \<Longrightarrow> ok (free i s) \<and> used (free i s) = used s - {i}"
begin

lemma alloc_ok: "ok s \<Longrightarrow> ok (snd (alloc a s))"
  using alloc_slot [of s a] alloc_full [of s a]
  by (cases "alloc a s"; cases "fst (alloc a s)") auto

lemma alloc_fails_iff: "ok s \<Longrightarrow> fst (alloc a s) = None \<longleftrightarrow> used s = {..<n}"
proof
  assume o: "ok s" and "fst (alloc a s) = None"
  then have "alloc a s = (None, snd (alloc a s))" by (simp add: prod_eq_iff)
  from alloc_full [OF o this] show "used s = {..<n}" ..
next
  assume o: "ok s" and u: "used s = {..<n}"
  show "fst (alloc a s) = None"
  proof (cases "fst (alloc a s)")
    case (Some i)
    then have "alloc a s = (Some i, snd (alloc a s))" by (simp add: prod_eq_iff)
    from alloc_slot [OF o this] u show ?thesis by auto
  qed simp
qed

lemma alloc_is_least:
  assumes "ok s" "alloc a s = (Some i, s')"
  shows "i = (LEAST j. j \<notin> used s)"
proof (rule sym, rule Least_equality)
  from alloc_slot [OF assms] show "i \<notin> used s" by simp
  fix j assume "j \<notin> used s"
  with alloc_slot [OF assms] show "i \<le> j" by (meson not_le_imp_less)
qed

lemma free_alloc:
  assumes "ok s" "alloc a s = (Some i, s')"
  shows "used (free i s') = used s"
  using alloc_slot [OF assms] free_slot [of s' i] by auto

lemma realloc_freed:
  assumes "ok s" "i < n" "{..<i} \<subseteq> used s" "alloc a (free i s) = (r, s')"
  shows "r = Some i"
proof (cases r)
  case None
  with alloc_full [of "free i s" a s'] free_slot [of s i] assms show ?thesis by auto
next
  case (Some k)
  with alloc_slot [of "free i s" a k s'] free_slot [of s i] assms
  have "k \<notin> used s - {i}" "\<forall>j<k. j \<in> used s - {i}" by auto
  with assms(3) have "k = i" by (metis DiffD1 DiffE insert_iff lessThan_iff linorder_neqE_nat subsetD DiffI singletonD)
  with Some show ?thesis by simp
qed

lemma alloc_seq_fresh:
  assumes "ok s" "used s = {..<k}" "k + length as \<le> n"
  shows "fst (alloc_seq alloc as s) = map Some [k..<k + length as]
       \<and> ok (snd (alloc_seq alloc as s)) \<and> used (snd (alloc_seq alloc as s)) = {..<k + length as}"
  using assms
proof (induction as arbitrary: s k)
  case Nil
  then show ?case by simp
next
  case (Cons a as)
  obtain r s1 where a: "alloc a s = (r, s1)" by (cases "alloc a s") auto
  from Cons.prems have "r \<noteq> None" using alloc_fails_iff [of s a] a by auto
  with a obtain i where r: "alloc a s = (Some i, s1)" by auto
  from alloc_slot [OF Cons.prems(1) r] Cons.prems(2)
  have i: "ok s1" "i = k" "used s1 = {..<Suc k}"
    by (auto simp: lessThan_Suc intro: antisym)
  from Cons.IH [OF i(1) i(3)] Cons.prems(3) r i(2)
  show ?case by (auto simp: case_prod_beta Let_def upt_conv_Cons simp del: upt_Suc)
qed

lemma alloc_seq_distinct:
  assumes "ok s"
  shows "ok (snd (alloc_seq alloc as s))
       \<and> distinct (List.map_filter id (fst (alloc_seq alloc as s)))
       \<and> set (List.map_filter id (fst (alloc_seq alloc as s))) \<inter> used s = {}
       \<and> used (snd (alloc_seq alloc as s))
           = used s \<union> set (List.map_filter id (fst (alloc_seq alloc as s)))"
  using assms
proof (induction as arbitrary: s)
  case Nil
  then show ?case by (simp add: List.map_filter_def)
next
  case (Cons a as)
  obtain r s1 where a: "alloc a s = (r, s1)" by (cases "alloc a s") auto
  have o: "ok s1" using alloc_ok [OF Cons.prems, of a] a by simp
  show ?case
  proof (cases r)
    case None
    with a alloc_full [OF Cons.prems, of a s1] have "s1 = s" by simp
    with Cons.IH [OF o] a None show ?thesis
      by (simp add: case_prod_beta Let_def List.map_filter_def)
  next
    case (Some i)
    with alloc_slot [OF Cons.prems, of a i s1] a
    have "i \<notin> used s" "used s1 = insert i (used s)" by auto
    with Cons.IH [OF o] a Some show ?thesis
      by (auto simp: case_prod_beta Let_def List.map_filter_def)
  qed
qed

end

end
