(* ===== verification/Usb_Pipes.thy ===== *)
theory Usb_Pipes
  imports Usb_LL Slot_Pool
begin

text \<open>
  Host channels as the library hands them out (usbh\_pipes.c). A host handle's \<open>Pipes\<close> points to a
  table of fifteen words whose bit 15 marks a channel as taken; a hub's children point to the
  table of their root. The table is an instance of the slot pool.
\<close>

section \<open>Operations\<close>

definition pipe_word :: "ptr \<Rightarrow> usb \<Rightarrow> nat \<Rightarrow> u32" where
  "pipe_word p w i = (let a = words w (Pipes (hosts w p)) in if i < length a then a ! i else 0)"

definition set_pipe_word :: "ptr \<Rightarrow> nat \<Rightarrow> u32 \<Rightarrow> usb \<Rightarrow> usb" where
  "set_pipe_word p i v w =
    (let q = Pipes (hosts w p)
     in (chk (i < length (words w q)) (OOB_Pipes i) w)
          \<lparr>words := (words w)(q := (words w q)[i := v])\<rparr>)"

definition USBH_OpenPipe ::
  "ptr \<Rightarrow> u8 \<Rightarrow> u8 \<Rightarrow> u8 \<Rightarrow> u8 \<Rightarrow> u8 \<Rightarrow> u16 \<Rightarrow> usb \<Rightarrow> USBH_StatusTypeDef \<times> usb" where
  "USBH_OpenPipe p pipe_num epnum addr speed ep_type mps w =
     (USBH_OK, snd (USBH_LL_OpenPipe p pipe_num epnum addr speed ep_type mps w))"

definition USBH_ClosePipe :: "ptr \<Rightarrow> u8 \<Rightarrow> usb \<Rightarrow> USBH_StatusTypeDef \<times> usb" where
  "USBH_ClosePipe p pipe_num w = (USBH_OK, snd (USBH_LL_ClosePipe p pipe_num w))"

definition USBH_GetFreePipe :: "ptr \<Rightarrow> usb \<Rightarrow> u16" where
  "USBH_GetFreePipe p w =
    (case first_idx (\<lambda>i. pipe_word p w i AND 0x8000 = 0) 0 USBH_MAX_PIPES_NBR of
       Some i \<Rightarrow> of_nat i
     | None \<Rightarrow> 0xFFFF)"

definition USBH_AllocPipe :: "ptr \<Rightarrow> u8 \<Rightarrow> usb \<Rightarrow> u8 \<times> usb" where
  "USBH_AllocPipe p ep_addr w =
    (let pipe = USBH_GetFreePipe p w
     in (ucast pipe,
         if pipe \<noteq> 0xFFFF then set_pipe_word p (unat pipe) (0x8000 OR ucast ep_addr) w else w))"

definition USBH_FreePipe :: "ptr \<Rightarrow> u8 \<Rightarrow> usb \<Rightarrow> USBH_StatusTypeDef \<times> usb" where
  "USBH_FreePipe p idx w =
    (USBH_OK,
     if unat idx < USBH_MAX_PIPES_NBR
     then set_pipe_word p (unat idx) (pipe_word p w (unat idx) AND 0x7FFF) w else w)"

section \<open>The table as a slot pool\<close>

definition pipes_ok :: "ptr \<Rightarrow> usb \<Rightarrow> bool" where
  "pipes_ok p w \<longleftrightarrow> length (words w (Pipes (hosts w p))) = USBH_MAX_PIPES_NBR"

definition pipes_used :: "ptr \<Rightarrow> usb \<Rightarrow> nat set" where
  "pipes_used p w = {i. i < USBH_MAX_PIPES_NBR \<and> pipe_word p w i AND 0x8000 \<noteq> 0}"

definition alloc_pipe :: "ptr \<Rightarrow> u8 \<Rightarrow> usb \<Rightarrow> nat option \<times> usb" where
  "alloc_pipe p ep_addr w =
    (case USBH_AllocPipe p ep_addr w of
       (pipe, w') \<Rightarrow> (if pipe = 0xFF then None else Some (unat pipe), w'))"

lemma set_pipe_word_frame [simp, frame_simps]:
  "hosts (set_pipe_word p i v w) = hosts w" "alive (set_pipe_word p i v w) = alive w"
  "bytes (set_pipe_word p i v w) = bytes w" "cdata (set_pipe_word p i v w) = cdata w"
  "hc (set_pipe_word p i v w) = hc w" "outs (set_pipe_word p i v w) = outs w"
  "os_event (set_pipe_word p i v w) = os_event w"
  by (simp_all add: set_pipe_word_def Let_def)

lemma pipe_word_set:
  assumes "pipes_ok p w" "i < USBH_MAX_PIPES_NBR"
  shows "pipe_word p (set_pipe_word p i v w) j = (if j = i then v else pipe_word p w j)"
  using assms by (simp add: pipe_word_def set_pipe_word_def pipes_ok_def Let_def)

lemma pipes_ok_set [simp]: "pipes_ok p (set_pipe_word p i v w) = pipes_ok p w"
  by (simp add: pipes_ok_def set_pipe_word_def Let_def)

lemma set_pipe_word_faults:
  "pipes_ok p w \<Longrightarrow> i < USBH_MAX_PIPES_NBR \<Longrightarrow> faults (set_pipe_word p i v w) = faults w"
  by (simp add: set_pipe_word_def pipes_ok_def Let_def)

lemma mark_taken: "(0x8000 OR ucast (a :: u8)) AND (0x8000 :: u32) \<noteq> 0"
proof
  assume "(0x8000 OR ucast a) AND (0x8000 :: u32) = 0"
  then have "bit ((0x8000 OR ucast a) AND (0x8000 :: u32)) 15 = bit (0 :: u32) 15" by simp
  then show False by (simp add: bit_simps) 
qed

lemma mark_free: "(x AND 0x7FFF) AND (0x8000 :: u32) = 0"
  by (simp add: and.assoc)

lemma small_pipe [simp]:
  "i < 15 \<Longrightarrow> unat (of_nat i :: u16) = i" "i < 15 \<Longrightarrow> unat (ucast (of_nat i :: u16) :: u8) = i"
  by (simp_all add: unat_of_nat unsigned_ucast_eq take_bit_eq_mod)

lemma small_pipe_neq:
  assumes "i < 15"
  shows "(of_nat i :: u16) \<noteq> 0xFFFF" "(ucast (of_nat i :: u16) :: u8) \<noteq> 0xFF"
  using small_pipe [OF assms] assms
  by (auto dest: arg_cong [where f = unat])

lemma alloc_pipe_eq:
  "alloc_pipe p a w =
    (case first_idx (\<lambda>i. pipe_word p w i AND 0x8000 = 0) 0 USBH_MAX_PIPES_NBR of
       Some i \<Rightarrow> (Some i, set_pipe_word p i (0x8000 OR ucast a) w)
     | None \<Rightarrow> (None, w))"
proof (cases "first_idx (\<lambda>i. pipe_word p w i AND 0x8000 = 0) 0 USBH_MAX_PIPES_NBR")
  case None
  then show ?thesis by (simp add: alloc_pipe_def USBH_AllocPipe_def USBH_GetFreePipe_def)
next
  case (Some i)
  then have "i < 15" using first_idx_Some by blast
  with Some small_pipe_neq [OF this] show ?thesis
    by (simp add: alloc_pipe_def USBH_AllocPipe_def USBH_GetFreePipe_def)
qed

interpretation pipes: slot_pool USBH_MAX_PIPES_NBR "pipes_ok p" "pipes_used p" "alloc_pipe p"
    "\<lambda>i w. snd (USBH_FreePipe p (of_nat i) w)" for p
proof unfold_locales
  fix s :: usb and a s' and i :: nat
  show "pipes_used p s \<subseteq> {..<15}" by (auto simp: pipes_used_def)
  assume o: "pipes_ok p s"
  {
    assume "alloc_pipe p a s = (Some i, s')"
    then have f: "first_idx (\<lambda>i. pipe_word p s i AND 0x8000 = 0) 0 15 = Some i"
      and s': "s' = set_pipe_word p i (0x8000 OR ucast a) s"
      by (auto simp: alloc_pipe_eq split: option.splits)
    from first_idx_Some [OF f] o s' show "pipes_ok p s' \<and> i < 15 \<and> i \<notin> pipes_used p s
        \<and> pipes_used p s' = insert i (pipes_used p s) \<and> (\<forall>j<i. j \<in> pipes_used p s)"
      by (auto simp: pipes_used_def pipe_word_set mark_taken split: if_splits)
  }
  {
    assume "alloc_pipe p a s = (None, s')"
    then have "first_idx (\<lambda>i. pipe_word p s i AND 0x8000 = 0) 0 15 = None" and "s' = s"
      by (auto simp: alloc_pipe_eq split: option.splits)
    then show "s' = s \<and> pipes_used p s = {..<15}" by (auto simp: first_idx_None pipes_used_def)
  }
  {
    assume i: "i < 15"
    then have "unat (of_nat i :: u8) = i" by (simp add: unat_of_nat)
    with o i show "pipes_ok p (snd (USBH_FreePipe p (of_nat i) s))
        \<and> pipes_used p (snd (USBH_FreePipe p (of_nat i) s)) = pipes_used p s - {i}"
      by (auto simp: USBH_FreePipe_def pipes_used_def pipe_word_set mark_free split: if_splits)
  }
qed

section \<open>Properties\<close>

lemma AllocPipe_cases:
  assumes "USBH_AllocPipe p a w = (pipe, w')"
  obtains (full) "pipe = 0xFF" "alloc_pipe p a w = (None, w')"
  | (slot) "pipe \<noteq> 0xFF" "alloc_pipe p a w = (Some (unat pipe), w')"
  using assms by (cases "pipe = 0xFF") (auto simp: alloc_pipe_def)

lemma alloc_pipe_faults:
  "pipes_ok p w \<Longrightarrow> faults (snd (alloc_pipe p a w)) = faults w"
  by (auto simp: alloc_pipe_eq set_pipe_word_faults dest: first_idx_Some split: option.splits)

lemma AllocPipe_faults:
  "pipes_ok p w \<Longrightarrow> faults (snd (USBH_AllocPipe p a w)) = faults w"
  using alloc_pipe_faults [of p w a] by (simp add: alloc_pipe_def case_prod_beta)

text \<open>
  \<open>USBH_AllocPipe\<close> either takes the lowest free channel (it was free, it becomes the only new
  taken one, every lower one is taken) or returns 0xFF and changes nothing, the latter only when
  all fifteen are taken. It never touches memory outside the table.
\<close>

theorem USBH_AllocPipe_correct:
  assumes "pipes_ok p w" and "USBH_AllocPipe p a w = (pipe, w')"
  shows "(if pipe = 0xFF then w' = w \<and> pipes_used p w = {..<USBH_MAX_PIPES_NBR}
          else unat pipe = (LEAST i. i \<notin> pipes_used p w) \<and> unat pipe < USBH_MAX_PIPES_NBR
             \<and> unat pipe \<notin> pipes_used p w \<and> pipes_used p w' = insert (unat pipe) (pipes_used p w))
       \<and> pipes_ok p w' \<and> faults w' = faults w"
proof -
  from AllocPipe_faults [OF assms(1), of a] assms(2) have f: "faults w' = faults w" by simp
  from assms(2) show ?thesis
  proof (cases rule: AllocPipe_cases)
    case full
    with pipes.alloc_full [OF assms(1) full(2)] assms(1) f show ?thesis by simp
  next
    case slot
    have "unat pipe = (LEAST i. i \<notin> pipes_used p w)"
      by (rule pipes.alloc_is_least [OF assms(1) slot(2)])
    with pipes.alloc_slot [OF assms(1) slot(2)] slot(1) f show ?thesis
      by (simp only: if_False simp_thms)
  qed
qed

text \<open>
  From an empty table fifteen allocations return the channels 0 to 14 in order, the sixteenth
  returns 0xFF; and after one of the fifteen is released, the next allocation returns exactly it.
\<close>

theorem pipe_table_exhaustion:
  assumes "pipes_ok p w" and "pipes_used p w = {}" and "length as = USBH_MAX_PIPES_NBR"
    and "i < USBH_MAX_PIPES_NBR" and "alloc_seq (alloc_pipe p) as w = (rs, w15)"
  shows "rs = map Some [0..<15] \<and> fst (USBH_AllocPipe p a w15) = 0xFF
    \<and> fst (USBH_AllocPipe p a (snd (USBH_FreePipe p (of_nat i) w15))) = of_nat i"
proof (intro conjI)
  have ok: "pipes_ok p w15" and u: "pipes_used p w15 = {..<15}"
    and seq: "rs = map Some [0..<15]"
    using pipes.alloc_seq_fresh [OF assms(1), of 0 as] assms(2,3,5) by simp_all
  show "rs = map Some [0..<15]" by (rule seq)
  from pipes.alloc_fails_iff [OF ok, of a] u have "fst (alloc_pipe p a w15) = None" by simp
  then show "fst (USBH_AllocPipe p a w15) = 0xFF"
    by (simp add: alloc_pipe_def case_prod_beta split: if_splits)
  let ?w = "snd (USBH_FreePipe p (of_nat i) w15)"
  obtain r s where rs: "alloc_pipe p a ?w = (r, s)" by (cases "alloc_pipe p a ?w") auto
  from pipes.realloc_freed [OF ok assms(4) _ rs] u assms(4) have "r = Some i" by auto
  with rs assms(4) show "fst (USBH_AllocPipe p a ?w) = of_nat i"
    by (auto simp: alloc_pipe_def case_prod_beta word_unat_eq_iff unat_of_nat split: if_splits)
qed

text \<open>
  A hub's child shares the channel table of its parent: a channel one handle takes is taken for
  every handle whose \<open>Pipes\<close> pointer is the same, and no two allocations made through such
  handles, in any order, return the same channel.
\<close>

theorem pipes_shared:
  assumes "pipes_ok p w" and "Pipes (hosts w q) = Pipes (hosts w p)"
    and "USBH_AllocPipe p a w = (c1, w1)" and "c1 \<noteq> 0xFF"
    and "USBH_AllocPipe q b w1 = (c2, w2)" and "c2 \<noteq> 0xFF"
  shows "pipes_used q w1 = pipes_used p w1 \<and> c2 \<noteq> c1 \<and> Pipes (hosts w1 q) = Pipes (hosts w1 p)"
proof -
  have h: "hosts w1 = hosts w" using assms(3) by (auto simp: USBH_AllocPipe_def Let_def)
  with assms(2) have s: "pipes_used q w1 = pipes_used p w1" "pipes_ok q w1 = pipes_ok p w1"
    by (simp_all add: pipes_used_def pipe_word_def pipes_ok_def)
  from assms(3) have a1: "alloc_pipe p a w = (Some (unat c1), w1)"
    using assms(4) by (simp add: alloc_pipe_def)
  from assms(5) have a2: "alloc_pipe q b w1 = (Some (unat c2), w2)"
    using assms(6) by (simp add: alloc_pipe_def)
  from pipes.alloc_slot [OF assms(1) a1] s have "pipes_ok q w1" "unat c1 \<in> pipes_used q w1"
    by auto
  with pipes.alloc_slot [OF _ a2] have "unat c2 \<noteq> unat c1" by metis
  with s h assms(2) show ?thesis by auto
qed

section \<open>Witnesses\<close>

definition pipes_world :: usb where
  "pipes_world = reset_usb
     \<lparr>hosts := (\<lambda>_. zero_host\<lparr>Pipes := 5\<rparr>), words := (\<lambda>_. replicate 15 0)\<rparr>"

lemma pipes_world_ok [simp]: "pipes_ok p pipes_world" "pipes_used p pipes_world = {}"
  by (auto simp: pipes_world_def pipes_ok_def pipes_used_def pipe_word_def)

lemma alloc_pipes_world:
  "USBH_AllocPipe p a pipes_world = (0, set_pipe_word p 0 (0x8000 OR ucast a) pipes_world)"
proof -
  have "first_idx (\<lambda>i. pipe_word p pipes_world i AND 0x8000 = 0) 0 15 = Some 0"
    by (rule first_idx_eqI) (auto simp: pipe_word_def pipes_world_def)
  then show ?thesis by (simp add: USBH_AllocPipe_def USBH_GetFreePipe_def)
qed

theorem USBH_AllocPipe_correct_witness:
  "(LEAST i. i \<notin> pipes_used hUSBHost pipes_world) = 0
     \<and> USBH_AllocPipe hUSBHost 0x81 pipes_world
        = (0, set_pipe_word hUSBHost 0 0x8081 pipes_world)"
  using USBH_AllocPipe_correct [OF pipes_world_ok(1) alloc_pipes_world, of hUSBHost "0x81"]
    alloc_pipes_world [of hUSBHost "0x81"] by simp

theorem pipe_table_exhaustion_witness:
  "fst (alloc_seq (alloc_pipe hUSBHost) (replicate 15 0x80) pipes_world) = map Some [0..<15]"
  using pipe_table_exhaustion [OF pipes_world_ok(1) pipes_world_ok(2), of "replicate 15 0x80" 3
      hUSBHost "fst (alloc_seq (alloc_pipe hUSBHost) (replicate 15 0x80) pipes_world)"
      "snd (alloc_seq (alloc_pipe hUSBHost) (replicate 15 0x80) pipes_world)"]
  by simp

theorem pipes_shared_witness:
  "fst (USBH_AllocPipe 7 0x02 (snd (USBH_AllocPipe hUSBHost 0x81 pipes_world))) = 1"
proof -
  let ?w = "set_pipe_word hUSBHost 0 0x8081 pipes_world"
  have f: "first_idx (\<lambda>i. pipe_word 7 ?w i AND 0x8000 = 0) 0 15 = Some 1"
    by (rule first_idx_eqI)
      (auto simp: pipe_word_def set_pipe_word_def pipes_world_def Let_def)
  then have c2: "USBH_AllocPipe 7 0x02 ?w = (1, set_pipe_word 7 1 0x8002 ?w)"
    by (simp add: USBH_AllocPipe_def USBH_GetFreePipe_def)
  have c1: "USBH_AllocPipe hUSBHost 0x81 pipes_world = (0, ?w)"
    by (simp add: alloc_pipes_world)
  have "(1 :: u8) \<noteq> 0"
    using pipes_shared [OF pipes_world_ok(1) _ c1 _ c2] by (simp add: pipes_world_def)
  with c2 show ?thesis by (simp add: alloc_pipes_world)
qed

end
