(* ===== verification/Usb_IOReq.thy ===== *)
theory Usb_IOReq
  imports Usb_LL
begin

text \<open>
  The transfer requests of usbh\_ioreq.c. Each submits one URB and returns \<open>USBH_OK\<close> whatever
  \<open>USBH_LL_SubmitURB\<close> says: a transfer refused because the device is gone is not reported here.
\<close>

section \<open>Operations\<close>

definition ping_of :: "ptr \<Rightarrow> u8 \<Rightarrow> usb \<Rightarrow> u8" where
  "ping_of p do_ping w = (if dev_speed (device (hosts w p)) \<noteq> USBH_SPEED_HIGH then 0 else do_ping)"

definition USBH_CtlSendSetup :: "ptr \<Rightarrow> buf_ptr \<Rightarrow> u8 \<Rightarrow> usb \<Rightarrow> USBH_StatusTypeDef \<times> usb" where
  "USBH_CtlSendSetup p buff pipe_num w =
    (USBH_OK, snd (USBH_LL_SubmitURB p pipe_num 0 USBH_EP_CONTROL USBH_PID_SETUP buff
       USBH_SETUP_PKT_SIZE 0 w))"

definition USBH_CtlSendData ::
  "ptr \<Rightarrow> buf_ptr \<Rightarrow> u16 \<Rightarrow> u8 \<Rightarrow> u8 \<Rightarrow> usb \<Rightarrow> USBH_StatusTypeDef \<times> usb" where
  "USBH_CtlSendData p buff len pipe_num do_ping w =
    (USBH_OK, snd (USBH_LL_SubmitURB p pipe_num 0 USBH_EP_CONTROL USBH_PID_DATA buff len
       (ping_of p do_ping w) w))"

definition USBH_CtlReceiveData ::
  "ptr \<Rightarrow> buf_ptr \<Rightarrow> u16 \<Rightarrow> u8 \<Rightarrow> usb \<Rightarrow> USBH_StatusTypeDef \<times> usb" where
  "USBH_CtlReceiveData p buff len pipe_num w =
    (USBH_OK, snd (USBH_LL_SubmitURB p pipe_num 1 USBH_EP_CONTROL USBH_PID_DATA buff len 0 w))"

definition USBH_BulkSendData ::
  "ptr \<Rightarrow> buf_ptr \<Rightarrow> u16 \<Rightarrow> u8 \<Rightarrow> u8 \<Rightarrow> usb \<Rightarrow> USBH_StatusTypeDef \<times> usb" where
  "USBH_BulkSendData p buff len pipe_num do_ping w =
    (USBH_OK, snd (USBH_LL_SubmitURB p pipe_num 0 USBH_EP_BULK USBH_PID_DATA buff len
       (ping_of p do_ping w) w))"

definition USBH_BulkReceiveData ::
  "ptr \<Rightarrow> buf_ptr \<Rightarrow> u16 \<Rightarrow> u8 \<Rightarrow> usb \<Rightarrow> USBH_StatusTypeDef \<times> usb" where
  "USBH_BulkReceiveData p buff len pipe_num w =
    (USBH_OK, snd (USBH_LL_SubmitURB p pipe_num 1 USBH_EP_BULK USBH_PID_DATA buff len 0 w))"

text \<open>The length of an interrupt transfer is a \<open>uint8_t\<close>.\<close>

definition USBH_InterruptReceiveData ::
  "ptr \<Rightarrow> buf_ptr \<Rightarrow> u8 \<Rightarrow> u8 \<Rightarrow> usb \<Rightarrow> USBH_StatusTypeDef \<times> usb" where
  "USBH_InterruptReceiveData p buff len pipe_num w =
    (USBH_OK, snd (USBH_LL_SubmitURB p pipe_num 1 USBH_EP_INTERRUPT USBH_PID_DATA buff
       (ucast len) 0 w))"

definition USBH_InterruptSendData ::
  "ptr \<Rightarrow> buf_ptr \<Rightarrow> u8 \<Rightarrow> u8 \<Rightarrow> usb \<Rightarrow> USBH_StatusTypeDef \<times> usb" where
  "USBH_InterruptSendData p buff len pipe_num w =
    (USBH_OK, snd (USBH_LL_SubmitURB p pipe_num 0 USBH_EP_INTERRUPT USBH_PID_DATA buff
       (ucast len) 0 w))"

text \<open>The length of an isochronous transfer is a \<open>uint32_t\<close> cut to the URB's sixteen bits.\<close>

definition USBH_IsocReceiveData ::
  "ptr \<Rightarrow> buf_ptr \<Rightarrow> u32 \<Rightarrow> u8 \<Rightarrow> usb \<Rightarrow> USBH_StatusTypeDef \<times> usb" where
  "USBH_IsocReceiveData p buff len pipe_num w =
    (USBH_OK, snd (USBH_LL_SubmitURB p pipe_num 1 USBH_EP_ISO USBH_PID_DATA buff (ucast len) 0 w))"

definition USBH_IsocSendData ::
  "ptr \<Rightarrow> buf_ptr \<Rightarrow> u32 \<Rightarrow> u8 \<Rightarrow> usb \<Rightarrow> USBH_StatusTypeDef \<times> usb" where
  "USBH_IsocSendData p buff len pipe_num w =
    (USBH_OK, snd (USBH_LL_SubmitURB p pipe_num 0 USBH_EP_ISO USBH_PID_DATA buff (ucast len) 0 w))"

lemmas ioreq_defs = USBH_CtlSendSetup_def USBH_CtlSendData_def USBH_CtlReceiveData_def
  USBH_BulkSendData_def USBH_BulkReceiveData_def USBH_InterruptReceiveData_def
  USBH_InterruptSendData_def USBH_IsocReceiveData_def USBH_IsocSendData_def

section \<open>What reaches the bus\<close>

lemma submit_pid_of:
  "hc_data_pid (submit_pid d t k n c) =
    (if t = USBH_EP_CONTROL then
       (if k = 0 then HC_PID_SETUP
        else if k = 1 \<and> d = 0 \<and> n \<noteq> 0 \<and> hc_toggle_out c = 0 then HC_PID_DATA0 else HC_PID_DATA1)
     else if t = USBH_EP_BULK \<or> t = USBH_EP_INTERRUPT then
       toggle_pid (if d = 0 then hc_toggle_out c else hc_toggle_in c)
     else if t = USBH_EP_ISO then HC_PID_DATA0
     else if k = 0 then HC_PID_SETUP else HC_PID_DATA1)"
  by (simp add: submit_pid_def Let_def toggle_pid_def)

lemma payload_of_simps [simp]:
  "payload_of w 0 (BSetup q) = Packet (ctl_setup (Control (hosts w q)))"
  "k \<noteq> 0 \<Longrightarrow> payload_of w k b = Buffer b"
  by (simp_all add: payload_of_def split: buf_ptr.split)

lemma payload_of_frame [simp]:
  "payload_of (upd_hc ch g w) k b = payload_of w k b" "payload_of (chk c x w) k b = payload_of w k b"
  "payload_of (osMessagePut e w) k b = payload_of w k b"
  by (cases b; simp add: payload_of_def)+

lemma submit_outs:
  assumes "p \<noteq> NULL" "pData (hosts w p) \<noteq> NULL" "is_connected (device (hosts w p)) \<noteq> 0"
    and "unat ch < length (hc w)"
  shows "outs (snd (USBH_LL_SubmitURB p ch d t k b n g w)) =
     outs w @ [HC_StartXfer ch d t (hc_data_pid (submit_pid d t k n (hc_get w ch))) (payload_of w k b) n]"
    and "hc_urb_state (hc_get (snd (USBH_LL_SubmitURB p ch d t k b n g w)) ch) = USBH_URB_IDLE"
    and "faults (snd (USBH_LL_SubmitURB p ch d t k b n g w)) = faults w"
  using assms by (simp_all add: USBH_LL_SubmitURB_def HAL_HCD_HC_SubmitRequest_def Let_def)

lemma submit_refused:
  "p = NULL \<or> pData (hosts w p) = NULL \<or> is_connected (device (hosts w p)) = 0 \<Longrightarrow>
     USBH_LL_SubmitURB p ch d t k b n g w = (USBH_FAIL, w)"
  by (simp add: USBH_LL_SubmitURB_def)

section \<open>Properties\<close>

text \<open>
  The three stages of a control transfer go out with the packet identifiers the USB protocol
  asks for on every channel state: the set-up stage as SETUP, an IN data or status stage as DATA1,
  and a zero-length OUT status stage as DATA1 (whatever the toggle was); each puts the channel's URB
  back to idle. On a disconnected device nothing reaches the bus although \<open>USBH_OK\<close> is returned.
\<close>

theorem control_stage_pids:
  assumes "p \<noteq> NULL" and "pData (hosts w p) \<noteq> NULL" and "unat ch < length (hc w)"
  shows "(is_connected (device (hosts w p)) \<noteq> 0 \<longrightarrow>
      outs (snd (USBH_CtlSendSetup p b ch w))
        = outs w @ [HC_StartXfer ch 0 USBH_EP_CONTROL HC_PID_SETUP (payload_of w 0 b) 8]
    \<and> outs (snd (USBH_CtlReceiveData p b n ch w))
        = outs w @ [HC_StartXfer ch 1 USBH_EP_CONTROL HC_PID_DATA1 (Buffer b) n]
    \<and> outs (snd (USBH_CtlSendData p b 0 ch g w))
        = outs w @ [HC_StartXfer ch 0 USBH_EP_CONTROL HC_PID_DATA1 (Buffer b) 0]
    \<and> hc_urb_state (hc_get (snd (USBH_CtlSendSetup p b ch w)) ch) = USBH_URB_IDLE)
   \<and> (is_connected (device (hosts w p)) = 0 \<longrightarrow>
      USBH_CtlSendSetup p b ch w = (USBH_OK, w) \<and> USBH_CtlReceiveData p b n ch w = (USBH_OK, w)
    \<and> USBH_CtlSendData p b n ch g w = (USBH_OK, w))"
  using assms by (auto simp: ioreq_defs submit_outs submit_pid_of submit_refused)

definition ioreq_world :: usb where
  "ioreq_world = reset_usb\<lparr>hosts := (\<lambda>_. zero_host\<lparr>pData := HHCD,
     device := zero_device\<lparr>is_connected := 1\<rparr>\<rparr>)\<rparr>"

theorem control_stage_pids_witness:
  "outs (snd (USBH_CtlSendSetup hUSBHost (BSetup hUSBHost) 2 ioreq_world))
     = [HC_StartXfer 2 0 0 HC_PID_SETUP (Packet (ctl_setup (Control zero_host))) 8]"
  using control_stage_pids [of hUSBHost ioreq_world 2 "BSetup hUSBHost" 0 0]
  by (simp add: ioreq_world_def reset_usb_def)

text \<open>
  A bulk or interrupt transfer carries the data toggle of its channel and direction: an OUT
  transfer goes out as DATA0 exactly when the OUT toggle is 0, an IN transfer when the IN toggle
  is 0; submitting changes neither toggle.
\<close>

theorem bulk_pids_follow_toggle:
  assumes "p \<noteq> NULL" and "pData (hosts w p) \<noteq> NULL" and "is_connected (device (hosts w p)) \<noteq> 0"
    and "unat ch < length (hc w)"
  shows "outs (snd (USBH_BulkSendData p b n ch g w)) = outs w @ [HC_StartXfer ch 0 USBH_EP_BULK
           (if hc_toggle_out (hc_get w ch) = 0 then HC_PID_DATA0 else HC_PID_DATA1) (Buffer b) n]
    \<and> outs (snd (USBH_BulkReceiveData p b n ch w)) = outs w @ [HC_StartXfer ch 1 USBH_EP_BULK
           (if hc_toggle_in (hc_get w ch) = 0 then HC_PID_DATA0 else HC_PID_DATA1) (Buffer b) n]
    \<and> outs (snd (USBH_InterruptReceiveData p b m ch w))
        = outs w @ [HC_StartXfer ch 1 USBH_EP_INTERRUPT
           (if hc_toggle_in (hc_get w ch) = 0 then HC_PID_DATA0 else HC_PID_DATA1) (Buffer b) (ucast m)]
    \<and> hc_toggle_out (hc_get (snd (USBH_BulkSendData p b n ch g w)) ch) = hc_toggle_out (hc_get w ch)
    \<and> hc_toggle_in (hc_get (snd (USBH_BulkReceiveData p b n ch w)) ch) = hc_toggle_in (hc_get w ch)"
  using assms
  by (simp add: ioreq_defs submit_outs submit_pid_of toggle_pid_def)
    (simp add: USBH_LL_SubmitURB_def HAL_HCD_HC_SubmitRequest_def submit_pid_def Let_def)

theorem bulk_pids_follow_toggle_witness:
  "outs (snd (USBH_BulkSendData hUSBHost (BApp 9 0) 64 4 0
     (upd_hc 4 (\<lambda>c. c\<lparr>hc_toggle_out := 1\<rparr>) ioreq_world)))
     = [HC_StartXfer 4 0 USBH_EP_BULK HC_PID_DATA1 (Buffer (BApp 9 0)) 64]"
  using bulk_pids_follow_toggle [of hUSBHost
      "upd_hc 4 (\<lambda>c. c\<lparr>hc_toggle_out := 1\<rparr>) ioreq_world" 4 "BApp 9 0" 64 0]
  by (simp add: ioreq_world_def reset_usb_def)

end
