(* ===== verification/Usb_Desc.thy ===== *)
theory Usb_Desc
  imports Usb_World
begin

text \<open>
  The descriptor parsers of usbh\_ctlreq.c as functions of the buffer. A parser that walks the
  buffer is a loop the C code does not bound: it is a partial function whose value is \<open>None\<close> when
  the loop does not end. A parser returns the faults of its reads and writes with its result; \<open>off\<close>
  is the distance of the C pointer \<open>pdesc\<close> from the start of the buffer and \<open>ptr\<close> the 16-bit
  counter the code keeps beside it.
\<close>

section \<open>Device descriptor\<close>

definition USBH_ParseDevDesc ::
  "USBH_DevDescTypeDef \<Rightarrow> u8 list \<Rightarrow> u16 \<Rightarrow> USBH_DevDescTypeDef" where
  "USBH_ParseDevDesc dev_desc buf len =
    (let d = dev_desc\<lparr>
          dev_bLength := rd8 buf 0,
          dev_bDescriptorType := rd8 buf 1,
          bcdUSB := LE16 buf 2,
          bDeviceClass := rd8 buf 4,
          bDeviceSubClass := rd8 buf 5,
          bDeviceProtocol := rd8 buf 6,
          bMaxPacketSize := rd8 buf 7\<rparr>
     in if len > 8 then d\<lparr>
          idVendor := LE16 buf 8,
          idProduct := LE16 buf 10,
          bcdDevice := LE16 buf 12,
          iManufacturer := rd8 buf 14,
          iProduct := rd8 buf 15,
          iSerialNumber := rd8 buf 16,
          bNumConfigurations := rd8 buf 17\<rparr>
        else d)"

section \<open>Configuration descriptor\<close>

definition USBH_ParseInterfaceDesc ::
  "USBH_InterfaceDescTypeDef \<Rightarrow> u8 list \<Rightarrow> nat \<Rightarrow> USBH_InterfaceDescTypeDef" where
  "USBH_ParseInterfaceDesc d buf off = d\<lparr>
     itf_bLength := rd8 buf off,
     itf_bDescriptorType := rd8 buf (off + 1),
     bInterfaceNumber := rd8 buf (off + 2),
     bAlternateSetting := rd8 buf (off + 3),
     bNumEndpoints := rd8 buf (off + 4),
     bInterfaceClass := rd8 buf (off + 5),
     bInterfaceSubClass := rd8 buf (off + 6),
     bInterfaceProtocol := rd8 buf (off + 7),
     iInterface := rd8 buf (off + 8)\<rparr>"

definition USBH_ParseEPDesc :: "u8 list \<Rightarrow> nat \<Rightarrow> USBH_EpDescTypeDef" where
  "USBH_ParseEPDesc buf off = \<lparr>
     ep_bLength = rd8 buf off,
     ep_bDescriptorType = rd8 buf (off + 1),
     bEndpointAddress = rd8 buf (off + 2),
     ep_bmAttributes = rd8 buf (off + 3),
     wMaxPacketSize = LE16 buf (off + 4),
     bInterval = rd8 buf (off + 6)\<rparr>"

record cfg_scan =
  sc_off :: nat
  sc_ptr :: u16
  sc_cfg :: USBH_CfgDescTypeDef
  sc_faults :: "fault list"

definition sc_chk :: "bool \<Rightarrow> fault \<Rightarrow> cfg_scan \<Rightarrow> cfg_scan" where
  "sc_chk ok x s = s\<lparr>sc_faults := sc_faults s @ (if ok then [] else [x])\<rparr>"

text \<open>\<open>n\<close> bytes are read at the current descriptor.\<close>

definition sc_read :: "u8 list \<Rightarrow> nat \<Rightarrow> cfg_scan \<Rightarrow> cfg_scan" where
  "sc_read buf n s = sc_chk (sc_off s + n \<le> length buf) (OOB_Data (sc_off s + n)) s"

definition USBH_GetNextDesc :: "u8 list \<Rightarrow> cfg_scan \<Rightarrow> cfg_scan" where
  "USBH_GetNextDesc buf s =
    (let s = sc_read buf 1 s; l = rd8 buf (sc_off s)
     in s\<lparr>sc_ptr := sc_ptr s + ucast l, sc_off := sc_off s + unat l\<rparr>)"

definition cur_type :: "u8 list \<Rightarrow> cfg_scan \<Rightarrow> u8" where
  "cur_type buf s = rd8 buf (sc_off s + 1)"

definition cur_itf :: "nat \<Rightarrow> cfg_scan \<Rightarrow> USBH_InterfaceDescTypeDef" where
  "cur_itf i s = Itf_Desc (sc_cfg s) ! i"

definition set_itf :: "nat \<Rightarrow> USBH_InterfaceDescTypeDef \<Rightarrow> cfg_scan \<Rightarrow> cfg_scan" where
  "set_itf i d s = s\<lparr>sc_cfg := (sc_cfg s)\<lparr>Itf_Desc := (Itf_Desc (sc_cfg s))[i := d]\<rparr>\<rparr>"

text \<open>\<open>cfg_desc->Itf_Desc[if_ix].Ep_Desc[ep_ix] = ...\<close>, where \<open>ep_ix\<close> is an \<open>int8_t\<close>.\<close>

definition set_ep :: "nat \<Rightarrow> u8 \<Rightarrow> USBH_EpDescTypeDef \<Rightarrow> cfg_scan \<Rightarrow> cfg_scan" where
  "set_ep i e d s =
    (let eps = Ep_Desc (cur_itf i s)
     in if 0 \<le> sint e \<and> nat (sint e) < length eps
        then set_itf i ((cur_itf i s)\<lparr>Ep_Desc := eps[nat (sint e) := d]\<rparr>) s
        else sc_chk False (OOB_Endpoint (sint e)) s)"

definition ep_step :: "u8 list \<Rightarrow> nat \<Rightarrow> u8 \<Rightarrow> cfg_scan \<Rightarrow> u8 \<times> cfg_scan" where
  "ep_step buf i e s =
    (let s = sc_read buf 2 (USBH_GetNextDesc buf s)
     in if cur_type buf s = USB_DESC_TYPE_ENDPOINT
        then (e + 1, set_ep i e (USBH_ParseEPDesc buf (sc_off s)) (sc_read buf 7 s))
        else (e, s))"

partial_function (option) ep_loop :: "u8 list \<Rightarrow> nat \<Rightarrow> u8 \<Rightarrow> cfg_scan \<Rightarrow> cfg_scan option" where
  [code]: "ep_loop buf i e s =
    (if sint e < uint (bNumEndpoints (cur_itf i s)) \<and> sc_ptr s < wTotalLength (sc_cfg s)
     then ep_loop buf i (fst (ep_step buf i e s)) (snd (ep_step buf i e s))
     else Some s)"

partial_function (option) itf_loop :: "u8 list \<Rightarrow> nat \<Rightarrow> cfg_scan \<Rightarrow> cfg_scan option" where
  [code]: "itf_loop buf i s =
    (if i < USBH_MAX_NUM_INTERFACES \<and> sc_ptr s < wTotalLength (sc_cfg s)
     then let s = sc_read buf 2 (USBH_GetNextDesc buf s)
          in if cur_type buf s = USB_DESC_TYPE_INTERFACE
             then let s = sc_read buf 9 s;
                      s = set_itf i (USBH_ParseInterfaceDesc (cur_itf i s) buf (sc_off s)) s
                  in Option.bind (ep_loop buf i 0 s) (itf_loop buf (i + 1))
             else itf_loop buf i s
     else Some s)"

definition parse_cfg_header :: "USBH_CfgDescTypeDef \<Rightarrow> u8 list \<Rightarrow> USBH_CfgDescTypeDef" where
  "parse_cfg_header cfg_desc buf = cfg_desc\<lparr>
     cfg_bLength := rd8 buf 0,
     cfg_bDescriptorType := rd8 buf 1,
     wTotalLength := LE16 buf 2,
     bNumInterfaces := rd8 buf 4,
     bConfigurationValue := rd8 buf 5,
     iConfiguration := rd8 buf 6,
     cfg_bmAttributes := rd8 buf 7,
     bMaxPower := rd8 buf 8\<rparr>"

definition USBH_ParseCfgDesc ::
  "USBH_CfgDescTypeDef \<Rightarrow> u8 list \<Rightarrow> u16 \<Rightarrow> (USBH_CfgDescTypeDef \<times> fault list) option" where
  "USBH_ParseCfgDesc cfg_desc buf len =
    (let s = sc_read buf 9 \<lparr>sc_off = 0, sc_ptr = 9, sc_cfg = parse_cfg_header cfg_desc buf,
                sc_faults = []\<rparr>
     in if len > USB_CONFIGURATION_DESC_SIZE
        then map_option (\<lambda>s. (sc_cfg s, sc_faults s)) (itf_loop buf 0 s)
        else Some (sc_cfg s, sc_faults s))"

section \<open>String descriptor\<close>

text \<open>
  Every caller passes \<open>device.Data\<close> as both source and destination, so the copy works in place:
  \<open>mem\<close> is that buffer, \<open>src\<close> and \<open>dst\<close> are offsets into it.
\<close>

definition put8 :: "nat \<Rightarrow> u8 \<Rightarrow> u8 list \<times> fault list \<Rightarrow> u8 list \<times> fault list" where
  "put8 i v m = (if i < length (fst m) then ((fst m)[i := v], snd m)
                 else (fst m, snd m @ [OOB_Data i]))"

definition get8 :: "nat \<Rightarrow> u8 list \<times> fault list \<Rightarrow> u8 \<times> (u8 list \<times> fault list)" where
  "get8 i m = (rd8 (fst m) i, fst m, if i < length (fst m) then snd m else snd m @ [OOB_Data i])"

partial_function (option) string_loop ::
  "u16 \<Rightarrow> u16 \<Rightarrow> nat \<Rightarrow> nat \<Rightarrow> u8 list \<times> fault list \<Rightarrow> (nat \<times> u8 list \<times> fault list) option" where
  [code]: "string_loop strlength idx src dst m =
    (if idx < strlength
     then let (v, m) = get8 (src + unat idx) m
          in string_loop strlength (idx + 2) src (dst + 1) (put8 dst v m)
     else Some (dst, m))"

text \<open>\<open>psrc[0]-2\<close> is an \<open>int\<close>, so a first byte below 2 gives a negative number that is less than \<open>length\<close>.\<close>

definition string_length :: "u8 \<Rightarrow> u16 \<Rightarrow> u16" where
  "string_length b0 len = (if uint b0 - 2 \<le> uint len then word_of_int (uint b0 - 2) else len)"

definition USBH_ParseStringDesc ::
  "nat \<Rightarrow> nat \<Rightarrow> u16 \<Rightarrow> u8 list \<times> fault list \<Rightarrow> (u8 list \<times> fault list) option" where
  "USBH_ParseStringDesc psrc pdest len m =
    (let (t, m) = get8 (psrc + 1) m
     in if t = USB_DESC_TYPE_STRING then
          let (b0, m) = get8 psrc m
          in map_option (\<lambda>(dst, m). put8 dst 0 m)
               (string_loop (string_length b0 len) 0 (psrc + 2) pdest m)
        else Some m)"

lemmas [parse_defs] = USBH_ParseDevDesc_def USBH_ParseInterfaceDesc_def USBH_ParseEPDesc_def
  parse_cfg_header_def

end
