(* ===== verification/Usb_CtlReq.thy ===== *)
theory Usb_CtlReq
  imports Usb_Pipes Usb_IOReq Usb_Desc
begin

text \<open>
  Control requests (usbh\_ctlreq.c): the standard requests fill the set-up packet, \<open>USBH_CtlReq\<close>
  drives one request through its states and \<open>USBH_HandleControl\<close> is the state machine of the
  transfer itself. A caller repeats the call while it gets \<open>USBH_BUSY\<close>. The user callback is
  \<open>USBH_UserProcess\<close> of main.c.
\<close>

section \<open>The user callback of main.c\<close>

text \<open>The body of \<open>get_activeclass_app\<close> is commented out: it returns -1.\<close>

definition get_activeclass_app :: "ptr \<Rightarrow> int" where
  "get_activeclass_app p = - 1"

definition USBH_UserProcess :: "ptr \<Rightarrow> HOST_USER \<Rightarrow> usb \<Rightarrow> usb" where
  "USBH_UserProcess p event w =
    (case event of
       HOST_USER_CLASS_SELECTED \<Rightarrow> if 0 = get_activeclass_app p then out (App_New p) w else w
     | HOST_USER_CLASS_ACTIVE \<Rightarrow>
         if p \<noteq> NULL \<and> app_class (hosts w p) \<noteq> NULL then out (App_Start p) w else w
     | HOST_USER_DISCONNECTION \<Rightarrow>
         if p \<noteq> NULL \<and> app_class (hosts w p) \<noteq> NULL then out (App_Stop p) w else w
     | _ \<Rightarrow> w)"

text \<open>\<open>phost->pUser(phost, id)\<close>.\<close>

definition call_user :: "ptr \<Rightarrow> HOST_USER \<Rightarrow> usb \<Rightarrow> usb" where
  "call_user p event w =
     USBH_UserProcess p event (out (User p event) (chk (pUser (hosts w p) \<noteq> NULL) Null_User w))"

section \<open>The transfer state machine\<close>

abbreviation (input) ctl :: "ptr \<Rightarrow> usb \<Rightarrow> USBH_CtrlTypeDef" where
  "ctl p w \<equiv> Control (hosts w p)"

definition set_ctl_state :: "ptr \<Rightarrow> CTRL_StateTypeDef \<Rightarrow> usb \<Rightarrow> usb" where
  "set_ctl_state p st w = upd_ctl p (\<lambda>c. c\<lparr>ctl_state := st\<rparr>) w"

definition set_request :: "ptr \<Rightarrow> CMD_StateTypeDef \<Rightarrow> usb \<Rightarrow> usb" where
  "set_request p r w = upd_host p (\<lambda>h. h\<lparr>RequestState := r\<rparr>) w"

definition stamp_timer :: "ptr \<Rightarrow> usb \<Rightarrow> usb" where
  "stamp_timer p w = upd_host p (\<lambda>h. h\<lparr>Control := (Control h)\<lparr>ctl_timer := ucast (Timer h)\<rparr>\<rparr>) w"

abbreviation (input) control_event :: "usb \<Rightarrow> usb" where
  "control_event \<equiv> osMessagePut USBH_CONTROL_EVENT"

definition after_setup :: "USB_Setup_TypeDef \<Rightarrow> CTRL_StateTypeDef" where
  "after_setup s =
    (let direction = bmRequestType s AND USB_REQ_DIR_MASK
     in if wLength s \<noteq> 0 then
          if direction = USB_D2H then CTRL_DATA_IN else CTRL_DATA_OUT
        else
          if direction = USB_D2H then CTRL_STATUS_OUT else CTRL_STATUS_IN)"

definition USBH_HandleControl :: "(usb \<Rightarrow> usb) \<Rightarrow> ptr \<Rightarrow> usb \<Rightarrow> USBH_StatusTypeDef \<times> usb" where
  "USBH_HandleControl E p w =
    (case ctl_state (ctl p w) of
       CTRL_SETUP \<Rightarrow>
         let (_, w) = USBH_CtlSendSetup p (BSetup p) (pipe_out (ctl p w)) w
         in (USBH_BUSY, set_ctl_state p CTRL_SETUP_WAIT w)
     | CTRL_SETUP_WAIT \<Rightarrow>
         let (urb, w) = USBH_LL_GetURBState E p (pipe_out (ctl p w)) w
         in if urb = USBH_URB_DONE then
              (USBH_BUSY, control_event (set_ctl_state p (after_setup (ctl_setup (ctl p w))) w))
            else if urb = USBH_URB_ERROR then
              (USBH_BUSY, control_event (set_ctl_state p CTRL_ERROR w))
            else (USBH_BUSY, w)
     | CTRL_DATA_IN \<Rightarrow>
         let w = stamp_timer p w;
             (_, w) = USBH_CtlReceiveData p (ctl_buff (ctl p w)) (ctl_length (ctl p w))
                        (pipe_in (ctl p w)) w
         in (USBH_BUSY, set_ctl_state p CTRL_DATA_IN_WAIT w)
     | CTRL_DATA_IN_WAIT \<Rightarrow>
         let (urb, w) = USBH_LL_GetURBState E p (pipe_in (ctl p w)) w;
             w = (if urb = USBH_URB_DONE then control_event (set_ctl_state p CTRL_STATUS_OUT w) else w)
         in if urb = USBH_URB_STALL then (USBH_NOT_SUPPORTED, control_event w)
            else if urb = USBH_URB_ERROR then
              (USBH_BUSY, control_event (set_ctl_state p CTRL_ERROR w))
            else (USBH_BUSY, w)
     | CTRL_DATA_OUT \<Rightarrow>
         let (_, w) = USBH_CtlSendData p (ctl_buff (ctl p w)) (ctl_length (ctl p w))
                        (pipe_out (ctl p w)) 1 w;
             w = stamp_timer p w
         in (USBH_BUSY, set_ctl_state p CTRL_DATA_OUT_WAIT w)
     | CTRL_DATA_OUT_WAIT \<Rightarrow>
         let (urb, w) = USBH_LL_GetURBState E p (pipe_out (ctl p w)) w
         in if urb = USBH_URB_DONE then
              (USBH_BUSY, control_event (set_ctl_state p CTRL_STATUS_IN w))
            else if urb = USBH_URB_STALL then
              (USBH_NOT_SUPPORTED, control_event (set_ctl_state p CTRL_STALLED w))
            else if urb = USBH_URB_NOTREADY then
              (USBH_BUSY, control_event (set_ctl_state p CTRL_DATA_OUT w))
            else if urb = USBH_URB_ERROR then
              (USBH_FAIL, control_event (set_ctl_state p CTRL_ERROR w))
            else (USBH_BUSY, w)
     | CTRL_STATUS_IN \<Rightarrow>
         let (_, w) = USBH_CtlReceiveData p BNull 0 (pipe_in (ctl p w)) w;
             w = stamp_timer p w
         in (USBH_BUSY, set_ctl_state p CTRL_STATUS_IN_WAIT w)
     | CTRL_STATUS_IN_WAIT \<Rightarrow>
         let (urb, w) = USBH_LL_GetURBState E p (pipe_in (ctl p w)) w
         in if urb = USBH_URB_DONE then
              (USBH_OK, control_event (set_ctl_state p CTRL_COMPLETE w))
            else if urb = USBH_URB_ERROR then
              (USBH_BUSY, control_event (set_ctl_state p CTRL_ERROR w))
            else if urb = USBH_URB_STALL then (USBH_NOT_SUPPORTED, control_event w)
            else (USBH_BUSY, w)
     | CTRL_STATUS_OUT \<Rightarrow>
         let (_, w) = USBH_CtlSendData p BNull 0 (pipe_out (ctl p w)) 1 w;
             w = stamp_timer p w
         in (USBH_BUSY, set_ctl_state p CTRL_STATUS_OUT_WAIT w)
     | CTRL_STATUS_OUT_WAIT \<Rightarrow>
         let (urb, w) = USBH_LL_GetURBState E p (pipe_out (ctl p w)) w
         in if urb = USBH_URB_DONE then
              (USBH_OK, control_event (set_ctl_state p CTRL_COMPLETE w))
            else if urb = USBH_URB_NOTREADY then
              (USBH_BUSY, control_event (set_ctl_state p CTRL_STATUS_OUT w))
            else if urb = USBH_URB_ERROR then
              (USBH_BUSY, control_event (set_ctl_state p CTRL_ERROR w))
            else (USBH_BUSY, w)
     | CTRL_ERROR \<Rightarrow>
         let w = upd_ctl p (\<lambda>c. c\<lparr>errorcount := errorcount c + 1\<rparr>) w
         in if errorcount (ctl p w) \<le> USBH_MAX_ERROR_COUNT then
              let (_, w) = USBH_LL_Stop p w
              in (USBH_BUSY, set_request p CMD_SEND (set_ctl_state p CTRL_SETUP w))
            else
              (USBH_FAIL, upd_ctl p (\<lambda>c. c\<lparr>errorcount := 0\<rparr>)
                            (call_user p HOST_USER_UNRECOVERED_ERROR w))
     | _ \<Rightarrow> (USBH_BUSY, w))"

section \<open>One control request\<close>

text \<open>\<open>phost->Pipes[i]\<close> read with the table's bound.\<close>

definition read_pipe :: "ptr \<Rightarrow> u8 \<Rightarrow> usb \<Rightarrow> u32 \<times> usb" where
  "read_pipe p i w = (pipe_word p w (unat i),
     chk (unat i < length (words w (Pipes (hosts w p)))) (OOB_Pipes (unat i)) w)"

definition pipes_allocated :: "ptr \<Rightarrow> usb \<Rightarrow> bool \<times> usb" where
  "pipes_allocated p w =
    (let (a, w) = read_pipe p (pipe_in (ctl p w)) w
     in if a AND 0x8000 = 0 then (False, w)
        else let (b, w) = read_pipe p (pipe_out (ctl p w)) w in (b AND 0x8000 \<noteq> 0, w))"

definition USBH_CtlReq ::
  "(usb \<Rightarrow> usb) \<Rightarrow> ptr \<Rightarrow> buf_ptr \<Rightarrow> u16 \<Rightarrow> usb \<Rightarrow> USBH_StatusTypeDef \<times> usb" where
  "USBH_CtlReq E p buff len w =
    (let (allocated, w) = pipes_allocated p w
     in if \<not> allocated then (USBH_FAIL, set_request p CMD_SEND w)
        else case RequestState (hosts w p) of
          CMD_SEND \<Rightarrow>
            (USBH_BUSY, control_event (set_request p CMD_WAIT
               (upd_ctl p (\<lambda>c. c\<lparr>ctl_buff := buff, ctl_length := len, ctl_state := CTRL_SETUP\<rparr>) w)))
        | CMD_WAIT \<Rightarrow>
            let (status, w) = USBH_HandleControl E p w
            in if status = USBH_OK then
                 (USBH_OK, set_ctl_state p CTRL_IDLE (set_request p CMD_SEND w))
               else if status = USBH_FAIL then (USBH_FAIL, set_request p CMD_SEND w)
               else (status, w)
        | _ \<Rightarrow> (USBH_BUSY, w))"

section \<open>Standard requests\<close>

definition fill_setup :: "ptr \<Rightarrow> u8 \<Rightarrow> u8 \<Rightarrow> u16 \<Rightarrow> u16 \<Rightarrow> u16 \<Rightarrow> usb \<Rightarrow> usb" where
  "fill_setup p rt rq v ix len w =
    (if RequestState (hosts w p) = CMD_SEND
     then upd_ctl p (\<lambda>c. c\<lparr>ctl_setup := \<lparr>bmRequestType = rt, bRequest = rq, wValue = v, wIndex = ix,
                                wLength = len\<rparr>\<rparr>) w
     else w)"

definition USBH_GetDescriptor ::
  "(usb \<Rightarrow> usb) \<Rightarrow> ptr \<Rightarrow> u8 \<Rightarrow> u16 \<Rightarrow> buf_ptr \<Rightarrow> u16 \<Rightarrow> usb \<Rightarrow> USBH_StatusTypeDef \<times> usb" where
  "USBH_GetDescriptor E p req_type value_idx buff len w =
     USBH_CtlReq E p buff len
       (fill_setup p (USB_D2H OR req_type) USB_REQ_GET_DESCRIPTOR value_idx
          (if value_idx AND 0xff00 = USB_DESC_STRING then 0x0409 else 0) len w)"

definition USBH_SetAddress :: "(usb \<Rightarrow> usb) \<Rightarrow> ptr \<Rightarrow> u8 \<Rightarrow> usb \<Rightarrow> USBH_StatusTypeDef \<times> usb" where
  "USBH_SetAddress E p DeviceAddress w =
     USBH_CtlReq E p BNull 0
       (fill_setup p (USB_H2D OR USB_REQ_RECIPIENT_DEVICE OR USB_REQ_TYPE_STANDARD)
          USB_REQ_SET_ADDRESS (ucast DeviceAddress) 0 0 w)"

definition USBH_SetCfg :: "(usb \<Rightarrow> usb) \<Rightarrow> ptr \<Rightarrow> u16 \<Rightarrow> usb \<Rightarrow> USBH_StatusTypeDef \<times> usb" where
  "USBH_SetCfg E p cfg_idx w =
     USBH_CtlReq E p BNull 0
       (fill_setup p (USB_H2D OR USB_REQ_RECIPIENT_DEVICE OR USB_REQ_TYPE_STANDARD)
          USB_REQ_SET_CONFIGURATION cfg_idx 0 0 w)"

definition USBH_SetInterface ::
  "(usb \<Rightarrow> usb) \<Rightarrow> ptr \<Rightarrow> u8 \<Rightarrow> u8 \<Rightarrow> usb \<Rightarrow> USBH_StatusTypeDef \<times> usb" where
  "USBH_SetInterface E p ep_num altSetting w =
     USBH_CtlReq E p BNull 0
       (fill_setup p (USB_H2D OR USB_REQ_RECIPIENT_INTERFACE OR USB_REQ_TYPE_STANDARD)
          USB_REQ_SET_INTERFACE (ucast altSetting) (ucast ep_num) 0 w)"

definition USBH_ClrFeature :: "(usb \<Rightarrow> usb) \<Rightarrow> ptr \<Rightarrow> u8 \<Rightarrow> usb \<Rightarrow> USBH_StatusTypeDef \<times> usb" where
  "USBH_ClrFeature E p ep_num w =
     USBH_CtlReq E p BNull 0
       (fill_setup p (USB_H2D OR USB_REQ_RECIPIENT_ENDPOINT OR USB_REQ_TYPE_STANDARD)
          USB_REQ_CLEAR_FEATURE 0 (ucast ep_num) 0 w)"

section \<open>Descriptors of the device\<close>

definition USBH_Get_DevDesc :: "(usb \<Rightarrow> usb) \<Rightarrow> ptr \<Rightarrow> u8 \<Rightarrow> usb \<Rightarrow> USBH_StatusTypeDef \<times> usb" where
  "USBH_Get_DevDesc E p len w =
    (let (status, w) = USBH_GetDescriptor E p (USB_REQ_RECIPIENT_DEVICE OR USB_REQ_TYPE_STANDARD)
                         USB_DESC_DEVICE (BData p) (ucast len) w
     in if status = USBH_OK
        then (status, upd_dev p (\<lambda>d. d\<lparr>DevDesc := USBH_ParseDevDesc (DevDesc d) (Data d) (ucast len)\<rparr>) w)
        else (status, w))"

text \<open>\<open>USBH_KEEP_CFG_DESCRIPTOR\<close> is 0: the descriptor is read into \<open>device.Data\<close>.\<close>

definition USBH_Get_CfgDesc ::
  "(usb \<Rightarrow> usb) \<Rightarrow> ptr \<Rightarrow> u16 \<Rightarrow> usb \<Rightarrow> (USBH_StatusTypeDef \<times> usb) option" where
  "USBH_Get_CfgDesc E p len w =
    (let (status, w) = USBH_GetDescriptor E p (USB_REQ_RECIPIENT_DEVICE OR USB_REQ_TYPE_STANDARD)
                         USB_DESC_CONFIGURATION (BData p) len w
     in if status = USBH_OK
        then map_option (\<lambda>(c, fs). (status, (upd_dev p (\<lambda>d. d\<lparr>CfgDesc := c\<rparr>) w)
                                      \<lparr>faults := faults w @ fs\<rparr>))
               (USBH_ParseCfgDesc (CfgDesc (device (hosts w p))) (Data (device (hosts w p))) len)
        else Some (status, w))"

text \<open>The callers all pass \<open>phost->device.Data\<close> as \<open>buff\<close>.\<close>

definition USBH_Get_StringDesc ::
  "(usb \<Rightarrow> usb) \<Rightarrow> ptr \<Rightarrow> u8 \<Rightarrow> u16 \<Rightarrow> usb \<Rightarrow> (USBH_StatusTypeDef \<times> usb) option" where
  "USBH_Get_StringDesc E p string_index len w =
    (let (status, w) = USBH_GetDescriptor E p (USB_REQ_RECIPIENT_DEVICE OR USB_REQ_TYPE_STANDARD)
                         (USB_DESC_STRING OR ucast string_index) (BData p) len w
     in if status = USBH_OK
        then map_option (\<lambda>(mem, fs). (status, (upd_dev p (\<lambda>d. d\<lparr>Data := mem\<rparr>) w)\<lparr>faults := fs\<rparr>))
               (USBH_ParseStringDesc 0 0 len (Data (device (hosts w p)), faults w))
        else Some (status, w))"

text \<open>Class drivers that write the set-up packet whatever request is pending.\<close>

definition put_setup :: "ptr \<Rightarrow> u8 \<Rightarrow> u8 \<Rightarrow> u16 \<Rightarrow> u16 \<Rightarrow> u16 \<Rightarrow> usb \<Rightarrow> usb" where
  "put_setup p rt rq v ix len w =
     upd_ctl p (\<lambda>c. c\<lparr>ctl_setup := \<lparr>bmRequestType = rt, bRequest = rq, wValue = v, wIndex = ix,
                                      wLength = len\<rparr>\<rparr>) w"

end
