(* ===== verification/Usb_Core.thy ===== *)
theory Usb_Core
  imports Usb_CtlReq
begin

text \<open>
  The host core (usbh\_core.c): device addresses, initialisation, the enumeration of a device and
  the host state machine that the host task runs for the root handle and for the handles of the
  devices behind hubs. The functions of a class driver are called through a table of pointers; here
  they are the argument \<open>ops\<close>. A function that calls into a loop the code does not bound returns
  \<open>None\<close> when that loop does not end.
\<close>

record class_ops =
  cInit :: "USB_Class \<Rightarrow> ptr \<Rightarrow> usb \<Rightarrow> (USBH_StatusTypeDef \<times> usb) option"
  cDeInit :: "USB_Class \<Rightarrow> ptr \<Rightarrow> usb \<Rightarrow> (USBH_StatusTypeDef \<times> usb) option"
  cRequests :: "USB_Class \<Rightarrow> ptr \<Rightarrow> usb \<Rightarrow> (USBH_StatusTypeDef \<times> usb) option"
  cBgndProcess :: "USB_Class \<Rightarrow> ptr \<Rightarrow> usb \<Rightarrow> (USBH_StatusTypeDef \<times> usb) option"
  cSOFProcess :: "USB_Class \<Rightarrow> ptr \<Rightarrow> usb \<Rightarrow> (USBH_StatusTypeDef \<times> usb) option"

section \<open>Device addresses\<close>

definition addr_used :: "ptr \<Rightarrow> usb \<Rightarrow> nat \<Rightarrow> u8" where
  "addr_used p w i = rd8 (bytes w (address (hosts w p))) i"

definition set_addr_used :: "ptr \<Rightarrow> int \<Rightarrow> u8 \<Rightarrow> usb \<Rightarrow> usb" where
  "set_addr_used p i v w =
    (let q = address (hosts w p); ok = (0 \<le> i \<and> nat i < length (bytes w q)); w = chk ok (OOB_Address i) w
     in if ok then w\<lparr>bytes := (bytes w)(q := (bytes w q)[nat i := v])\<rparr> else w)"

definition set_dev_address :: "ptr \<Rightarrow> u8 \<Rightarrow> usb \<Rightarrow> usb" where
  "set_dev_address p a w = upd_dev p (\<lambda>d. d\<lparr>dev_address := a\<rparr>) w"

definition USBH_Get_One_Address :: "ptr \<Rightarrow> usb \<Rightarrow> u8 \<times> usb" where
  "USBH_Get_One_Address p w =
    (let a = dev_address (device (hosts w p))
     in if a \<noteq> 0 then (a, w)
        else case first_idx (\<lambda>i. addr_used p w i = 0) 0 USBH_MAX_NUM_DEVICE of
          Some i \<Rightarrow> (of_nat (i + 1), set_dev_address p (of_nat (i + 1)) (set_addr_used p (int i) 1 w))
        | None \<Rightarrow> (0, w))"

definition USBH_Free_One_Address :: "ptr \<Rightarrow> usb \<Rightarrow> u8 \<times> usb" where
  "USBH_Free_One_Address p w =
    (let a = dev_address (device (hosts w p));
         w = (if a \<noteq> 0 then set_dev_address p 0 (set_addr_used p (uint a - 1) 0 w) else w)
     in (dev_address (device (hosts w p)), w))"

section \<open>Initialisation\<close>

definition DeInitStateMachine :: "ptr \<Rightarrow> usb \<Rightarrow> USBH_StatusTypeDef \<times> usb" where
  "DeInitStateMachine p w =
    (if is_child (hosts w p) \<noteq> 0 then (USBH_OK, w)
     else
       let w = fold (\<lambda>i. set_pipe_word p i 0) [0..<USBH_MAX_PIPES_NBR] w;
           w = upd_dev p (\<lambda>d. d\<lparr>Data := replicate USBH_MAX_DATA_BUFFER 0\<rparr>) w;
           w = upd_host p (\<lambda>h. h\<lparr>gState := HOST_IDLE, EnumState := ENUM_IDLE,
                 RequestState := CMD_SEND, Timer := 0\<rparr>) w;
           w = upd_ctl p (\<lambda>c. c\<lparr>ctl_state := CTRL_SETUP, pipe_size := 0x40, errorcount := 0\<rparr>) w;
           w = set_addr_used p (uint (dev_address (device (hosts w p))) - 1) 0 w;
           w = upd_dev p (\<lambda>d. d\<lparr>dev_address := 0, dev_speed := USBH_SPEED_FULL\<rparr>) w
       in (USBH_OK, w))"

text \<open>The two tables are cleared whether or not \<open>malloc\<close> gave memory for them.\<close>

definition alloc_tables :: "ptr \<Rightarrow> usb \<Rightarrow> usb" where
  "alloc_tables p w =
    (let (q, w) = malloc w;
         w = upd_host p (\<lambda>h. h\<lparr>Pipes := q\<rparr>) w;
         (a, w) = malloc w;
         w = upd_host p (\<lambda>h. h\<lparr>address := a\<rparr>) w;
         w = chk (q \<noteq> NULL) (OOB_Pipes 0) w;
         w = (if q \<noteq> NULL then w\<lparr>words := (words w)(q := replicate USBH_MAX_PIPES_NBR 0)\<rparr> else w);
         w = chk (a \<noteq> NULL) (OOB_Address 0) w
     in if a \<noteq> NULL then w\<lparr>bytes := (bytes w)(a := replicate (4 * USBH_MAX_NUM_DEVICE) 0)\<rparr> else w)"

definition USBH_Init :: "ptr \<Rightarrow> ptr \<Rightarrow> u8 \<Rightarrow> usb \<Rightarrow> USBH_StatusTypeDef \<times> usb" where
  "USBH_Init p pUsrFunc ident w =
    (if p = NULL then (USBH_FAIL, w)
     else
       let w = upd_host p (\<lambda>h. h\<lparr>host_id := ident, pActiveClass := None, ClassNumber := 0\<rparr>) w;
           w = alloc_tables p w;
           w = snd (DeInitStateMachine p w);
           w = (if pUsrFunc \<noteq> NULL then upd_host p (\<lambda>h. h\<lparr>pUser := pUsrFunc\<rparr>) w else w);
           w = w\<lparr>os_event := []\<rparr>;
           w = snd (USBH_LL_Init p w)
       in (USBH_OK, w))"

definition USBH_DeInit :: "ptr \<Rightarrow> usb \<Rightarrow> USBH_StatusTypeDef \<times> usb" where
  "USBH_DeInit p w =
    (let w = snd (DeInitStateMachine p w)
     in if pData (hosts w p) \<noteq> NULL then
          (USBH_OK, snd (USBH_LL_Stop p
            (case pActiveClass (hosts w p) of
               Some c \<Rightarrow> w\<lparr>class_pData := (class_pData w)(c := NULL)\<rparr>
             | None \<Rightarrow> chk False Null_Class w)))
        else (USBH_OK, w))"

definition USBH_RegisterClass :: "ptr \<Rightarrow> USB_Class option \<Rightarrow> usb \<Rightarrow> USBH_StatusTypeDef \<times> usb" where
  "USBH_RegisterClass p pclass w =
    (case pclass of
       Some c \<Rightarrow>
         let n = ClassNumber (hosts w p)
         in if unat n < USBH_MAX_NUM_SUPPORTED_CLASS
            then (USBH_OK, upd_host p (\<lambda>h. h\<lparr>pClass := (pClass h)[unat n := Some c],
                                              ClassNumber := n + 1\<rparr>) w)
            else (USBH_FAIL, w)
     | None \<Rightarrow> (USBH_FAIL, w))"

section \<open>Interfaces of the configuration\<close>

definition itf_desc :: "ptr \<Rightarrow> usb \<Rightarrow> nat \<Rightarrow> USBH_InterfaceDescTypeDef" where
  "itf_desc p w i = (let t = Itf_Desc (CfgDesc (device (hosts w p)))
                     in if i < length t then t ! i else zero_itf_desc)"

definition chk_itf :: "ptr \<Rightarrow> nat \<Rightarrow> usb \<Rightarrow> usb" where
  "chk_itf p i w = chk (i < length (Itf_Desc (CfgDesc (device (hosts w p))))) (OOB_Interface i) w"

definition USBH_SelectInterface :: "ptr \<Rightarrow> u8 \<Rightarrow> usb \<Rightarrow> USBH_StatusTypeDef \<times> usb" where
  "USBH_SelectInterface p ifc w =
    (if ifc < bNumInterfaces (CfgDesc (device (hosts w p)))
     then (USBH_OK, chk_itf p (unat ifc) (upd_dev p (\<lambda>d. d\<lparr>current_interface := ifc\<rparr>) w))
     else (USBH_FAIL, w))"

definition USBH_GetActiveClass :: "ptr \<Rightarrow> usb \<Rightarrow> u8" where
  "USBH_GetActiveClass p w = bInterfaceClass (itf_desc p w 0)"

definition USBH_FindInterface :: "ptr \<Rightarrow> u8 \<Rightarrow> u8 \<Rightarrow> u8 \<Rightarrow> usb \<Rightarrow> u8" where
  "USBH_FindInterface p cls sub prot w =
    (case first_idx (\<lambda>i. let d = itf_desc p w i
            in (bInterfaceClass d = cls \<or> cls = 0xFF)
               \<and> (bInterfaceSubClass d = sub \<or> sub = 0xFF)
               \<and> (bInterfaceProtocol d = prot \<or> prot = 0xFF)) 0 USBH_MAX_NUM_INTERFACES of
       Some i \<Rightarrow> of_nat i
     | None \<Rightarrow> 0xFF)"

definition USBH_FindInterfaceIndex :: "ptr \<Rightarrow> u8 \<Rightarrow> u8 \<Rightarrow> usb \<Rightarrow> u8" where
  "USBH_FindInterfaceIndex p ifc alt w =
    (case first_idx (\<lambda>i. let d = itf_desc p w i
            in bInterfaceNumber d = ifc \<and> bAlternateSetting d = alt) 0 USBH_MAX_NUM_INTERFACES of
       Some i \<Rightarrow> of_nat i
     | None \<Rightarrow> 0xFF)"

section \<open>Start, stop, re-enumeration\<close>

definition USBH_Start :: "(usb \<Rightarrow> usb) \<Rightarrow> ptr \<Rightarrow> usb \<Rightarrow> USBH_StatusTypeDef \<times> usb" where
  "USBH_Start E p w =
    (if is_child (hosts w p) \<noteq> 0 then (USBH_OK, w)
     else (USBH_OK, snd (USBH_LL_DriverVBUS E p 1 (snd (USBH_LL_Start p w)))))"

definition free_control_pipes :: "ptr \<Rightarrow> usb \<Rightarrow> usb" where
  "free_control_pipes p w =
    (let w = snd (USBH_FreePipe p (pipe_in (ctl p w)) w)
     in snd (USBH_FreePipe p (pipe_out (ctl p w)) w))"

definition USBH_Stop :: "(usb \<Rightarrow> usb) \<Rightarrow> ptr \<Rightarrow> usb \<Rightarrow> USBH_StatusTypeDef \<times> usb" where
  "USBH_Stop E p w =
    (if is_child (hosts w p) \<noteq> 0 then (USBH_OK, w)
     else (USBH_OK, free_control_pipes p
             (snd (USBH_LL_DriverVBUS E p 0 (snd (USBH_LL_Stop p w))))))"

definition USBH_ReEnumerate :: "(usb \<Rightarrow> usb) \<Rightarrow> ptr \<Rightarrow> usb \<Rightarrow> USBH_StatusTypeDef \<times> usb" where
  "USBH_ReEnumerate E p w =
    (let w = snd (USBH_Stop E p w);
         w = USBH_Delay E 200 w;
         w = snd (DeInitStateMachine p w);
         w = snd (USBH_Start E p w)
     in (USBH_OK, osMessagePut USBH_PORT_EVENT w))"

section \<open>Enumeration of a device\<close>

definition open_control_pipes :: "ptr \<Rightarrow> usb \<Rightarrow> usb" where
  "open_control_pipes p w =
    (let h = hosts w p;
         w = snd (USBH_OpenPipe p (pipe_in (Control h)) 0x80 (dev_address (device h))
                    (dev_speed (device h)) USBH_EP_CONTROL (ucast (pipe_size (Control h))) w)
     in snd (USBH_OpenPipe p (pipe_out (Control h)) 0x00 (dev_address (device h))
               (dev_speed (device h)) USBH_EP_CONTROL (ucast (pipe_size (Control h))) w))"

definition set_enum :: "ptr \<Rightarrow> ENUM_StateTypeDef \<Rightarrow> usb \<Rightarrow> usb" where
  "set_enum p st w = upd_host p (\<lambda>h. h\<lparr>EnumState := st\<rparr>) w"

definition set_gstate :: "ptr \<Rightarrow> HOST_StateTypeDef \<Rightarrow> usb \<Rightarrow> usb" where
  "set_gstate p st w = upd_host p (\<lambda>h. h\<lparr>gState := st\<rparr>) w"

abbreviation (input) state_event :: "usb \<Rightarrow> usb" where
  "state_event \<equiv> osMessagePut USBH_STATE_CHANGED_EVENT"

definition dev_desc_of :: "ptr \<Rightarrow> usb \<Rightarrow> USBH_DevDescTypeDef" where
  "dev_desc_of p w = DevDesc (device (hosts w p))"

text \<open>
  The first eight bytes of the device descriptor. When two calls in a row find the transfer in the
  same state (and that state is not idle), the enumeration fails.
\<close>

definition enum_first :: "(usb \<Rightarrow> usb) \<Rightarrow> ptr \<Rightarrow> usb \<Rightarrow> USBH_StatusTypeDef \<times> usb" where
  "enum_first E p w =
    (let (st, w) = USBH_Get_DevDesc E p 8 w
     in if st = USBH_OK then
          let w = upd_ctl p (\<lambda>c. c\<lparr>pipe_size := bMaxPacketSize (dev_desc_of p w)\<rparr>) w;
              w = set_enum p ENUM_GET_FULL_DEV_DESC w;
              w = upd_host p (\<lambda>h. h\<lparr>last_ctrl_status := CTRL_IDLE\<rparr>) w
          in (USBH_BUSY, open_control_pipes p w)
        else if last_ctrl_status (hosts w p) \<noteq> CTRL_IDLE
                \<and> last_ctrl_status (hosts w p) = ctl_state (ctl p w) then
          (USBH_FAIL, state_event (upd_host p (\<lambda>h. h\<lparr>last_ctrl_status := CTRL_IDLE\<rparr>) w))
        else
          (USBH_BUSY, USBH_Delay E 1 (upd_host p (\<lambda>h. h\<lparr>last_ctrl_status := ctl_state (Control h)\<rparr>) w)))"

definition enum_set_addr :: "(usb \<Rightarrow> usb) \<Rightarrow> ptr \<Rightarrow> usb \<Rightarrow> USBH_StatusTypeDef \<times> usb" where
  "enum_set_addr E p w =
    (let (a, w) = USBH_Get_One_Address p w
     in if a = 0 then (USBH_FAIL, w)
        else
          let (st, w) = USBH_SetAddress E p (dev_address (device (hosts w p))) w
          in if st = USBH_OK
             then (USBH_BUSY, open_control_pipes p (set_enum p ENUM_GET_CFG_DESC (USBH_Delay E 2 w)))
             else (USBH_BUSY, w))"

definition USBH_HandleEnum ::
  "(usb \<Rightarrow> usb) \<Rightarrow> ptr \<Rightarrow> usb \<Rightarrow> (USBH_StatusTypeDef \<times> usb) option" where
  "USBH_HandleEnum E p w =
    (case EnumState (hosts w p) of
       ENUM_IDLE \<Rightarrow> Some (enum_first E p w)
     | ENUM_GET_FULL_DEV_DESC \<Rightarrow>
         let (st, w) = USBH_Get_DevDesc E p 18 w
         in Some (USBH_BUSY, if st = USBH_OK then set_enum p ENUM_SET_ADDR w else w)
     | ENUM_SET_ADDR \<Rightarrow> Some (enum_set_addr E p w)
     | ENUM_GET_CFG_DESC \<Rightarrow>
         do {
           (st, w) \<leftarrow> USBH_Get_CfgDesc E p USB_CONFIGURATION_DESC_SIZE w;
           Some (USBH_BUSY, if st = USBH_OK then set_enum p ENUM_GET_FULL_CFG_DESC w else w)
         }
     | ENUM_GET_FULL_CFG_DESC \<Rightarrow>
         do {
           (st, w) \<leftarrow> USBH_Get_CfgDesc E p (wTotalLength (CfgDesc (device (hosts w p)))) w;
           Some (USBH_BUSY, if st = USBH_OK then set_enum p ENUM_GET_MFC_STRING_DESC w else w)
         }
     | ENUM_GET_MFC_STRING_DESC \<Rightarrow>
         if iManufacturer (dev_desc_of p w) \<noteq> 0 then
           do {
             (st, w) \<leftarrow> USBH_Get_StringDesc E p (iManufacturer (dev_desc_of p w)) 0xff w;
             Some (USBH_BUSY, if st = USBH_OK
                              then state_event (set_enum p ENUM_GET_PRODUCT_STRING_DESC w) else w)
           }
         else Some (USBH_BUSY, state_event (set_enum p ENUM_GET_PRODUCT_STRING_DESC w))
     | ENUM_GET_PRODUCT_STRING_DESC \<Rightarrow>
         if iProduct (dev_desc_of p w) \<noteq> 0 then
           do {
             (st, w) \<leftarrow> USBH_Get_StringDesc E p (iProduct (dev_desc_of p w)) 0xff w;
             Some (USBH_BUSY, if st = USBH_OK then set_enum p ENUM_GET_SERIALNUM_STRING_DESC w else w)
           }
         else Some (USBH_BUSY, state_event (set_enum p ENUM_GET_SERIALNUM_STRING_DESC w))
     | ENUM_GET_SERIALNUM_STRING_DESC \<Rightarrow>
         if iSerialNumber (dev_desc_of p w) \<noteq> 0 then
           do {
             (st, w) \<leftarrow> USBH_Get_StringDesc E p (iSerialNumber (dev_desc_of p w)) 0xff w;
             Some (if st = USBH_OK then USBH_OK else USBH_BUSY, w)
           }
         else Some (USBH_OK, state_event w))"

section \<open>The host state machine\<close>

definition mask_hprt :: "ptr \<Rightarrow> bool \<Rightarrow> usb \<Rightarrow> usb" where
  "mask_hprt p b w = (if pData (hosts w p) \<noteq> NULL then w\<lparr>hprt_masked := b\<rparr> else w)"

definition host_attached :: "(usb \<Rightarrow> usb) \<Rightarrow> ptr \<Rightarrow> usb \<Rightarrow> usb" where
  "host_attached E p w =
    (let w = USBH_Delay E 100 w;
         w = upd_dev p (\<lambda>d. d\<lparr>dev_speed := USBH_LL_GetSpeed p w\<rparr>) w;
         w = set_gstate p HOST_ENUMERATION w;
         (c, w) = USBH_AllocPipe p 0x00 w;
         w = upd_ctl p (\<lambda>x. x\<lparr>pipe_out := c\<rparr>) w;
         (c, w) = USBH_AllocPipe p 0x80 w;
         w = upd_ctl p (\<lambda>x. x\<lparr>pipe_in := c\<rparr>) w
     in osMessagePut USBH_PORT_EVENT (open_control_pipes p w))"

definition host_enumeration :: "(usb \<Rightarrow> usb) \<Rightarrow> ptr \<Rightarrow> usb \<Rightarrow> (USBH_StatusTypeDef \<times> usb) option" where
  "host_enumeration E p w =
    do {
      (enum_status, w) \<leftarrow> USBH_HandleEnum E p w;
      Some (enum_status,
        if enum_status = USBH_OK then
          let w = upd_dev p (\<lambda>d. d\<lparr>current_interface := 0\<rparr>) w
          in set_gstate p (if bNumConfigurations (dev_desc_of p w) = 1
                           then HOST_SET_CONFIGURATION else HOST_INPUT) w
        else if enum_status = USBH_FAIL \<and> parent (hosts w p) = NULL
        then snd (USBH_ReEnumerate E p w)
        else w)
    }"

text \<open>
  The scan over the registered classes: the last one with the wanted class code is taken. An entry
  that was never registered is a null pointer.
\<close>

definition match_class :: "ptr \<Rightarrow> u8 \<Rightarrow> nat \<Rightarrow> usb \<Rightarrow> usb" where
  "match_class p code i w =
    (case pClass (hosts w p) ! i of
       Some c \<Rightarrow> if ClassCode c = code then upd_host p (\<lambda>h. h\<lparr>pActiveClass := Some c\<rparr>) w else w
     | None \<Rightarrow> chk False Null_Class w)"

definition scan_classes :: "ptr \<Rightarrow> u8 \<Rightarrow> usb \<Rightarrow> usb" where
  "scan_classes p code w = fold (match_class p code) [0..<USBH_MAX_NUM_SUPPORTED_CLASS] w"

text \<open>
  \<open>Init\<close> of the class found. When it fails the code sets \<open>pActiveClass\<close> to null and then prints
  its name.
\<close>

definition start_class :: "class_ops \<Rightarrow> ptr \<Rightarrow> USB_Class \<Rightarrow> usb \<Rightarrow> usb option" where
  "start_class ops p c w =
    do {
      (st, w) \<leftarrow> cInit ops c p w;
      Some (if st = USBH_OK
            then call_user p HOST_USER_CLASS_SELECTED (set_gstate p HOST_CLASS_REQUEST w)
            else chk False Null_Class (set_gstate p HOST_ABORT_STATE
                   (upd_host p (\<lambda>h. h\<lparr>pActiveClass := None\<rparr>) w)))
    }"

definition host_check_class :: "class_ops \<Rightarrow> ptr \<Rightarrow> usb \<Rightarrow> usb option" where
  "host_check_class ops p w =
    do {
      w \<leftarrow> (if ClassNumber (hosts w p) = 0 then Some w
           else
             let w = upd_host p (\<lambda>h. h\<lparr>pActiveClass := None\<rparr>) w;
                 w = scan_classes p (bInterfaceClass (itf_desc p w 0)) w
             in case pActiveClass (hosts w p) of
                  Some c \<Rightarrow> start_class ops p c w
                | None \<Rightarrow>
                    let w = scan_classes p 0xff (set_gstate p HOST_ABORT_STATE w)
                    in case pActiveClass (hosts w p) of
                         Some c \<Rightarrow> start_class ops p c w
                       | None \<Rightarrow> Some w);
      Some (state_event w)
    }"

text \<open>A device has been seen on the port: wait, then reset the port.\<close>

definition host_idle :: "(usb \<Rightarrow> usb) \<Rightarrow> ptr \<Rightarrow> usb \<Rightarrow> usb" where
  "host_idle E p w =
    (if is_connected (device (hosts w p)) \<noteq> 0 then
       let w = USBH_Delay E 200 (set_gstate p HOST_DEV_WAIT_FOR_ATTACHMENT w)
       in osMessagePut USBH_PORT_EVENT (snd (USBH_LL_ResetPort p w))
     else w)"

definition host_disconnected :: "class_ops \<Rightarrow> ptr \<Rightarrow> usb \<Rightarrow> usb option" where
  "host_disconnected ops p w =
    do {
      w \<leftarrow> (case pActiveClass (hosts w p) of
             Some c \<Rightarrow>
               do {
                 (_, w) \<leftarrow> cDeInit ops c p w;
                 Some (upd_host p (\<lambda>h. h\<lparr>pActiveClass := None\<rparr>) w)
               }
           | None \<Rightarrow> Some w);
      Some (snd (DeInitStateMachine p w))
    }"

text \<open>The \<open>switch\<close> over \<open>gState\<close>, with the value of \<open>enum_status\<close> after it.\<close>

definition host_switch ::
  "(usb \<Rightarrow> usb) \<Rightarrow> class_ops \<Rightarrow> ptr \<Rightarrow> usb \<Rightarrow> (USBH_StatusTypeDef \<times> usb) option" where
  "host_switch E ops p w =
    (case gState (hosts w p) of
       HOST_IDLE \<Rightarrow> Some (USBH_OK, host_idle E p w)
     | HOST_DEV_ATTACHED \<Rightarrow> Some (USBH_OK, host_attached E p w)
     | HOST_ENUMERATION \<Rightarrow> host_enumeration E p w
     | HOST_INPUT \<Rightarrow> Some (USBH_OK,
         if pUser (hosts w p) \<noteq> NULL then
           state_event (set_gstate p HOST_SET_CONFIGURATION
             (call_user p HOST_USER_SELECT_CONFIGURATION w))
         else w)
     | HOST_SET_CONFIGURATION \<Rightarrow>
         let (st, w) = USBH_SetCfg E p (ucast (bConfigurationValue (CfgDesc (device (hosts w p))))) w
         in Some (USBH_OK, if st = USBH_OK then set_gstate p HOST_CHECK_CLASS w else w)
     | HOST_CHECK_CLASS \<Rightarrow> do { w \<leftarrow> host_check_class ops p w; Some (USBH_OK, w) }
     | HOST_CLASS_REQUEST \<Rightarrow>
         (case pActiveClass (hosts w p) of
            Some c \<Rightarrow>
              do {
                (st, w) \<leftarrow> cRequests ops c p w;
                Some (USBH_OK, if st = USBH_OK then set_gstate p HOST_CLASS w else w)
              }
          | None \<Rightarrow> Some (USBH_OK, state_event (set_gstate p HOST_ABORT_STATE w)))
     | HOST_CLASS \<Rightarrow>
         (case pActiveClass (hosts w p) of
            Some c \<Rightarrow> do { (_, w) \<leftarrow> cBgndProcess ops c p w; Some (USBH_OK, w) }
          | None \<Rightarrow> Some (USBH_OK, w))
     | HOST_DEV_DISCONNECTED \<Rightarrow> do { w \<leftarrow> host_disconnected ops p w; Some (USBH_OK, w) }
     | _ \<Rightarrow> Some (USBH_OK, w))"

definition USBH_Process ::
  "(usb \<Rightarrow> usb) \<Rightarrow> class_ops \<Rightarrow> ptr \<Rightarrow> usb \<Rightarrow> (USBH_StatusTypeDef \<times> usb) option" where
  "USBH_Process E ops p w =
    do {
      (enum_status, w) \<leftarrow> host_switch E ops p (mask_hprt p True w);
      let w = mask_hprt p False w;
      Some (if parent (hosts w p) \<noteq> NULL then enum_status else USBH_OK, w)
    }"

section \<open>Events from the low-level driver\<close>

primrec USBH_HandleSof :: "nat \<Rightarrow> class_ops \<Rightarrow> ptr \<Rightarrow> usb \<Rightarrow> usb option" where
  "USBH_HandleSof 0 ops p w = None"
| "USBH_HandleSof (Suc n) ops p w =
    (if gState (hosts w p) = HOST_CLASS then
       case pActiveClass (hosts w p) of
         Some c \<Rightarrow>
           do {
             (_, w) \<leftarrow> cSOFProcess ops c p w;
             fold_opt (\<lambda>i w. let c = children (hosts w p) ! i
                            in if c \<noteq> NULL then USBH_HandleSof n ops c (chk_host c w) else Some w)
               [0..<USBH_MAX_NUM_CHILD] w
           }
       | None \<Rightarrow> Some w
     else Some w)"

definition USBH_LL_IncTimer :: "nat \<Rightarrow> class_ops \<Rightarrow> ptr \<Rightarrow> usb \<Rightarrow> usb option" where
  "USBH_LL_IncTimer n ops p w = USBH_HandleSof n ops p (upd_host p (\<lambda>h. h\<lparr>Timer := Timer h + 1\<rparr>) w)"

definition USBH_LL_PortEnabled :: "ptr \<Rightarrow> usb \<Rightarrow> usb" where
  "USBH_LL_PortEnabled p w = upd_dev p (\<lambda>d. d\<lparr>PortEnabled := 1\<rparr>) w"

definition USBH_LL_PortDisabled :: "ptr \<Rightarrow> usb \<Rightarrow> usb" where
  "USBH_LL_PortDisabled p w = upd_dev p (\<lambda>d. d\<lparr>PortEnabled := 0\<rparr>) w"

definition USBH_IsPortEnabled :: "ptr \<Rightarrow> usb \<Rightarrow> u8" where
  "USBH_IsPortEnabled p w = PortEnabled (device (hosts w p))"

definition USBH_LL_Connect :: "ptr \<Rightarrow> usb \<Rightarrow> USBH_StatusTypeDef \<times> usb" where
  "USBH_LL_Connect p w =
    (let w = (if gState (hosts w p) = HOST_IDLE then
                let w = upd_dev p (\<lambda>d. d\<lparr>is_connected := 1\<rparr>) w
                in if pUser (hosts w p) \<noteq> NULL then call_user p HOST_USER_CONNECTION w else w
              else if gState (hosts w p) = HOST_DEV_WAIT_FOR_ATTACHMENT then
                set_gstate p HOST_DEV_ATTACHED w
              else w)
     in (USBH_OK, osMessagePut USBH_PORT_EVENT w))"

definition USBH_LL_Disconnect :: "(usb \<Rightarrow> usb) \<Rightarrow> ptr \<Rightarrow> usb \<Rightarrow> USBH_StatusTypeDef \<times> usb" where
  "USBH_LL_Disconnect E p w =
    (let w = upd_dev p (\<lambda>d. d\<lparr>is_connected := 0\<rparr>) w;
         w = (if pUser (hosts w p) \<noteq> NULL then call_user p HOST_USER_DISCONNECTION w else w);
         w = USBH_Delay E 1 w;
         w = snd (USBH_LL_Stop p w);
         w = free_control_pipes p w;
         w = snd (USBH_LL_Start p w);
         w = set_gstate p HOST_DEV_DISCONNECTED w
     in (USBH_OK, osMessagePut USBH_PORT_EVENT w))"

section \<open>The host task\<close>

primrec USBH_Children_Process_OS ::
  "nat \<Rightarrow> (usb \<Rightarrow> usb) \<Rightarrow> class_ops \<Rightarrow> ptr \<Rightarrow> usb \<Rightarrow> usb option" where
  "USBH_Children_Process_OS 0 E ops p w = None"
| "USBH_Children_Process_OS (Suc n) E ops p w =
    fold_opt (\<lambda>i w. let c = children (hosts w p) ! i
        in if c \<noteq> NULL
           then do {
             (_, w) \<leftarrow> USBH_Process E ops c (chk_host c w);
             USBH_Children_Process_OS n E ops c w
           }
           else Some w) [0..<USBH_MAX_NUM_CHILD] w"

text \<open>One round of the task's endless loop: it sleeps while the queue is empty.\<close>

definition USBH_Process_OS ::
  "nat \<Rightarrow> (usb \<Rightarrow> usb) \<Rightarrow> class_ops \<Rightarrow> ptr \<Rightarrow> usb \<Rightarrow> usb option" where
  "USBH_Process_OS n E ops p w =
    (case os_event w of
       [] \<Rightarrow> Some (E w)
     | _ # es \<Rightarrow>
         do {
           (_, w) \<leftarrow> USBH_Process E ops p (w\<lparr>os_event := es\<rparr>);
           USBH_Children_Process_OS n E ops p w
         })"

section \<open>Start of the host by the application\<close>

text \<open>\<open>init_usb_host\<close> of main.c; \<open>user\<close> is the address of \<open>USBH_UserProcess\<close>.\<close>

definition init_usb_host :: "(usb \<Rightarrow> usb) \<Rightarrow> ptr \<Rightarrow> ptr \<Rightarrow> usb \<Rightarrow> USBH_StatusTypeDef \<times> usb" where
  "init_usb_host E user p w =
    (let w = snd (USBH_Init p user 0 w);
         w = snd (USBH_RegisterClass p (Some MSC_Class) w);
         w = snd (USBH_RegisterClass p (Some CH340_Class) w);
         w = snd (USBH_RegisterClass p (Some HUB_Class) w);
         w = snd (USBH_RegisterClass p (Some AOA_Class) w)
     in USBH_Start E p w)"

end
