(* ===== verification/Usb_Hub.thy ===== *)
theory Usb_Hub
  imports Usb_Core
begin

text \<open>
  The hub class driver (usbh\_hub.c): the requests to a hub and its ports, the power-up of the ports,
  the interrupt pipe on which the hub reports changed ports, and the handling of these reports, which
  creates a host handle for a new device, enumerates it and frees it again. A child handle shares the
  channel and address tables of its parent. Functions of other drivers, and of this one for a hub
  behind the hub, are called through \<open>ops\<close>.
\<close>

section \<open>The hub's data\<close>

definition hub_ptr :: "ptr \<Rightarrow> usb \<Rightarrow> ptr" where
  "hub_ptr p w = pClassData (hosts w p) ! 0"

definition hub_get :: "ptr \<Rightarrow> usb \<Rightarrow> HUB_HandleTypeDef" where
  "hub_get p w = (case cdata w (hub_ptr p w) of HubData h \<Rightarrow> h | _ \<Rightarrow> zero_hub)"

text \<open>A hub handle that is null or freed is a fault; nothing is written to it.\<close>

definition upd_hub :: "ptr \<Rightarrow> (HUB_HandleTypeDef \<Rightarrow> HUB_HandleTypeDef) \<Rightarrow> usb \<Rightarrow> usb" where
  "upd_hub p f w =
    (case cdata w (hub_ptr p w) of
       HubData h \<Rightarrow> w\<lparr>cdata := (cdata w)(hub_ptr p w := HubData (f h))\<rparr>
     | _ \<Rightarrow> chk False Null_ClassData w)"

definition set_hub_state :: "ptr \<Rightarrow> HUB_CtlStateTypeDef \<Rightarrow> usb \<Rightarrow> usb" where
  "set_hub_state p st w = upd_hub p (\<lambda>h. h\<lparr>hub_ctl_state := st\<rparr>) w"

abbreviation (input) port_event :: "usb \<Rightarrow> usb" where
  "port_event \<equiv> osMessagePut USBH_PORT_EVENT"

abbreviation (input) HUB_FEATURE_SEL_PORT_RESET :: u16 where "HUB_FEATURE_SEL_PORT_RESET \<equiv> 0x04"
abbreviation (input) HUB_FEATURE_SEL_PORT_POWER :: u16 where "HUB_FEATURE_SEL_PORT_POWER \<equiv> 0x08"
abbreviation (input) HUB_FEATURE_SEL_C_PORT_CONNECTION :: u16 where "HUB_FEATURE_SEL_C_PORT_CONNECTION \<equiv> 0x10"
abbreviation (input) HUB_FEATURE_SEL_C_PORT_ENABLE :: u16 where "HUB_FEATURE_SEL_C_PORT_ENABLE \<equiv> 0x11"
abbreviation (input) HUB_FEATURE_SEL_C_PORT_SUSPEND :: u16 where "HUB_FEATURE_SEL_C_PORT_SUSPEND \<equiv> 0x12"
abbreviation (input) HUB_FEATURE_SEL_C_PORT_OVER_CURRENT :: u16 where "HUB_FEATURE_SEL_C_PORT_OVER_CURRENT \<equiv> 0x13"
abbreviation (input) HUB_FEATURE_SEL_C_PORT_RESET :: u16 where "HUB_FEATURE_SEL_C_PORT_RESET \<equiv> 0x14"

abbreviation (input) USB_HUB_CLASS :: u8 where "USB_HUB_CLASS \<equiv> 0x09"
abbreviation (input) TIME_OUT_COUNT :: nat where "TIME_OUT_COUNT \<equiv> 0x100"

section \<open>Requests\<close>

definition USBH_HUB_GetHUBDescriptor ::
  "(usb \<Rightarrow> usb) \<Rightarrow> ptr \<Rightarrow> u16 \<Rightarrow> usb \<Rightarrow> USBH_StatusTypeDef \<times> usb" where
  "USBH_HUB_GetHUBDescriptor E p len w =
     USBH_GetDescriptor E p (USB_REQ_RECIPIENT_DEVICE OR USB_REQ_TYPE_CLASS) 0x2900 (BData p) len w"

definition USBH_HUB_GetHUBStatus ::
  "(usb \<Rightarrow> usb) \<Rightarrow> ptr \<Rightarrow> u16 \<Rightarrow> usb \<Rightarrow> USBH_StatusTypeDef \<times> usb" where
  "USBH_HUB_GetHUBStatus E p len w =
     USBH_CtlReq E p (BData p) len
       (fill_setup p (USB_D2H OR USB_REQ_RECIPIENT_DEVICE OR USB_REQ_TYPE_CLASS)
          USB_REQ_GET_STATUS 0 0 len w)"

definition USBH_HUB_SetHUBPower ::
  "(usb \<Rightarrow> usb) \<Rightarrow> ptr \<Rightarrow> u8 \<Rightarrow> usb \<Rightarrow> USBH_StatusTypeDef \<times> usb" where
  "USBH_HUB_SetHUBPower E p port w =
     USBH_CtlReq E p BNull 0
       (fill_setup p (USB_H2D OR USB_REQ_RECIPIENT_OTHER OR USB_REQ_TYPE_CLASS)
          USB_REQ_SET_FEATURE HUB_FEATURE_SEL_PORT_POWER (ucast port) 0 w)"

text \<open>
  The loop that repeats a request while it is busy, at most \<open>n\<close> times and only while the hub is not
  disconnected. The first component tells that the time-out count was reached.
\<close>

primrec request_loop ::
  "nat \<Rightarrow> (usb \<Rightarrow> USBH_StatusTypeDef \<times> usb) \<Rightarrow> ptr \<Rightarrow> usb \<Rightarrow> bool \<times> USBH_StatusTypeDef \<times> usb" where
  "request_loop 0 req p w = (True, USBH_BUSY, w)"
| "request_loop (Suc n) req p w =
    (let (status, w) = req w
     in if status = USBH_BUSY \<and> gState (hosts w p) \<noteq> HOST_DEV_DISCONNECTED
        then request_loop n req p w else (False, status, w))"

definition USBH_HUB_GetPortStatus ::
  "(usb \<Rightarrow> usb) \<Rightarrow> ptr \<Rightarrow> u8 \<Rightarrow> u16 \<Rightarrow> usb \<Rightarrow> USBH_StatusTypeDef \<times> usb" where
  "USBH_HUB_GetPortStatus E p port len w =
    (let w = fill_setup p (USB_D2H OR USB_REQ_RECIPIENT_OTHER OR USB_REQ_TYPE_CLASS)
               USB_REQ_GET_STATUS 0 (ucast port) len w;
         (timed_out, status, w) = request_loop TIME_OUT_COUNT (USBH_CtlReq E p (BData p) len) p w
     in if timed_out \<or> status \<noteq> USBH_OK then (USBH_FAIL, set_request p CMD_SEND w)
        else (status, w))"

definition port_feature ::
  "(usb \<Rightarrow> usb) \<Rightarrow> u8 \<Rightarrow> ptr \<Rightarrow> u8 \<Rightarrow> u16 \<Rightarrow> usb \<Rightarrow> USBH_StatusTypeDef \<times> usb" where
  "port_feature E rq p port feature w =
    (let w = put_setup p (USB_H2D OR USB_REQ_RECIPIENT_OTHER OR USB_REQ_TYPE_CLASS) rq feature
               (ucast port) 0 w;
         (timed_out, status, w) = request_loop TIME_OUT_COUNT (USBH_CtlReq E p BNull 0) p w
     in if timed_out then (USBH_FAIL, set_request p CMD_SEND w) else (status, w))"

definition USBH_HUB_ClearPort ::
  "(usb \<Rightarrow> usb) \<Rightarrow> ptr \<Rightarrow> u8 \<Rightarrow> u16 \<Rightarrow> usb \<Rightarrow> USBH_StatusTypeDef \<times> usb" where
  "USBH_HUB_ClearPort E p port feature w = port_feature E USB_REQ_CLEAR_FEATURE p port feature w"

definition USBH_HUB_SetPort ::
  "(usb \<Rightarrow> usb) \<Rightarrow> ptr \<Rightarrow> u8 \<Rightarrow> u16 \<Rightarrow> usb \<Rightarrow> USBH_StatusTypeDef \<times> usb" where
  "USBH_HUB_SetPort E p port feature w = port_feature E USB_REQ_SET_FEATURE p port feature w"

section \<open>Starting the driver\<close>

text \<open>The protocol of the interface by the hub's device protocol; other values leave \<open>interface\<close> unset.\<close>

definition hub_interface :: "ptr \<Rightarrow> usb \<Rightarrow> u8 \<times> usb" where
  "hub_interface p w =
    (let proto = bDeviceProtocol (dev_desc_of p w)
     in if proto = 0 then (USBH_FindInterface p USB_HUB_CLASS 0 1 w, w)
        else if proto = 1 then (USBH_FindInterface p USB_HUB_CLASS 0 0 w, w)
        else if proto = 2 then (USBH_FindInterface p USB_HUB_CLASS 0 2 w, w)
        else (0, chk False Uninitialised w))"

definition USBH_HUB_InterfaceInit :: "ptr \<Rightarrow> usb \<Rightarrow> USBH_StatusTypeDef \<times> usb" where
  "USBH_HUB_InterfaceInit p w =
    (let (itf, w) = hub_interface p w
     in if itf = 0xFF then (USBH_FAIL, w)
        else
          let w = snd (USBH_SelectInterface p itf w);
              (q, w) = malloc w;
              w = upd_host p (\<lambda>h. h\<lparr>pClassData := (pClassData h)[0 := q]\<rparr>) w;
              w = chk (q \<noteq> NULL) Null_ClassData w;
              w = (if q \<noteq> NULL then w\<lparr>cdata := (cdata w)(q := HubData zero_hub)\<rparr> else w);
              w = chk_itf p (unat itf) w;
              ep = Ep_Desc (itf_desc p w (unat itf)) ! 0;
              w = upd_hub p (\<lambda>h. h\<lparr>hub_CommItf := (hub_CommItf h)\<lparr>hub_NotifEp := bEndpointAddress ep,
                    hub_NotifEpSize := wMaxPacketSize ep, hub_poll := bInterval ep\<rparr>\<rparr>) w;
              (c, w) = USBH_AllocPipe p (hub_NotifEp (hub_CommItf (hub_get p w))) w;
              w = upd_hub p (\<lambda>h. h\<lparr>hub_CommItf := (hub_CommItf h)\<lparr>hub_NotifPipe := c\<rparr>,
                                   port_state := 0\<rparr>) w;
              itfc = hub_CommItf (hub_get p w);
              w = snd (USBH_OpenPipe p (hub_NotifPipe itfc) (hub_NotifEp itfc)
                         (dev_address (device (hosts w p))) (dev_speed (device (hosts w p)))
                         USBH_EP_INTERRUPT (hub_NotifEpSize itfc) w);
              w = snd (USBH_LL_SetToggle p (hub_NotifPipe itfc) 0 w)
          in (USBH_OK, set_hub_state p HUB_REQ_INIT w))"

section \<open>Powering the ports\<close>

definition read_hub_desc :: "u8 list \<Rightarrow> HUB_DescTypeDef" where
  "read_hub_desc d = \<lparr>hd_bLength = rd8 d 0, hd_bDescriptorType = rd8 d 1, bNbrPorts = rd8 d 2,
     wHubCharacteristics = LE16 d 3, bPwrOn2PwrGood = rd8 d 5, bHubContrCurrent = rd8 d 6,
     DeviceRemovable = rd8 d 7, PortPwrCtrlMask = rd8 d 8\<rparr>"

abbreviation (input) HUB_DESC_SIZE :: u16 where "HUB_DESC_SIZE \<equiv> 12"

definition data_of :: "ptr \<Rightarrow> usb \<Rightarrow> u8 list" where
  "data_of p w = Data (device (hosts w p))"

definition USBH_HUB_ClassRequest :: "(usb \<Rightarrow> usb) \<Rightarrow> ptr \<Rightarrow> usb \<Rightarrow> USBH_StatusTypeDef \<times> usb" where
  "USBH_HUB_ClassRequest E p w =
    (case hub_ctl_state (hub_get p w) of
       HUB_REQ_INIT \<Rightarrow>
         let (st, w) = USBH_HUB_GetHUBDescriptor E p 4 w
         in (USBH_BUSY, if st = USBH_OK then set_hub_state p HUB_REQ_GET_HUB_DESC w else w)
     | HUB_REQ_GET_HUB_DESC \<Rightarrow>
         let (st, w) = USBH_HUB_GetHUBDescriptor E p HUB_DESC_SIZE w
         in (USBH_BUSY,
             if st = USBH_OK then
               upd_hub p (\<lambda>h. h\<lparr>HUB_Desc := read_hub_desc (data_of p w), port_index := 1,
                                hub_ctl_state := HUB_REQ_SET_PORT_POWER\<rparr>) w
             else w)
     | HUB_REQ_GET_HUB_STATUS \<Rightarrow>
         let (st, w) = USBH_HUB_GetHUBStatus E p HUB_DESC_SIZE w
         in (USBH_BUSY,
             if st = USBH_OK then
               upd_hub p (\<lambda>h. h\<lparr>wHubStatus := LE16 (data_of p w) 0, wHubChange := LE16 (data_of p w) 2,
                                hub_ctl_state := HUB_REQ_SET_PORT_POWER\<rparr>) w
             else w)
     | HUB_REQ_SET_PORT_POWER \<Rightarrow>
         let (st, w) = USBH_HUB_SetHUBPower E p (port_index (hub_get p w)) w
         in if st = USBH_OK then
              let w = upd_hub p (\<lambda>h. h\<lparr>port_index := port_index h + 1\<rparr>) w
              in if port_index (hub_get p w) > bNbrPorts (HUB_Desc (hub_get p w))
                 then (USBH_OK, port_event (set_hub_state p HUB_REQ_SCAN_PORT w))
                 else (USBH_BUSY, w)
            else (USBH_BUSY, w)
     | _ \<Rightarrow> (USBH_BUSY, w))"

section \<open>Children\<close>

definition HUB_Child_DeInitStateMachine :: "ptr \<Rightarrow> usb \<Rightarrow> USBH_StatusTypeDef \<times> usb" where
  "HUB_Child_DeInitStateMachine c w =
    (USBH_OK, upd_host c (\<lambda>h. h\<lparr>gState := HOST_IDLE, EnumState := ENUM_IDLE,
       RequestState := CMD_SEND, Timer := 0,
       Control := (Control h)\<lparr>ctl_state := CTRL_SETUP, pipe_size := 0x40, errorcount := 0\<rparr>,
       device := (device h)\<lparr>Data := replicate USBH_MAX_DATA_BUFFER 0, dev_address := 0,
                             dev_speed := USBH_SPEED_FULL\<rparr>\<rparr>) w)"

text \<open>\<open>phost->children[i]\<close>; ports are numbered from 0 by the code, so \<open>port - 1\<close> may be -1.\<close>

definition child :: "ptr \<Rightarrow> int \<Rightarrow> usb \<Rightarrow> ptr" where
  "child p i w = (if 0 \<le> i \<and> nat i < USBH_MAX_NUM_CHILD then children (hosts w p) ! nat i else NULL)"

definition chk_child :: "int \<Rightarrow> usb \<Rightarrow> usb" where
  "chk_child i w = chk (0 \<le> i \<and> nat i < USBH_MAX_NUM_CHILD) (OOB_Children i) w"

definition set_child :: "ptr \<Rightarrow> int \<Rightarrow> ptr \<Rightarrow> usb \<Rightarrow> usb" where
  "set_child p i c w =
    (let w = chk_child i w
     in if 0 \<le> i then upd_host p (\<lambda>h. h\<lparr>children := (children h)[nat i := c]\<rparr>) w else w)"

definition close_if :: "bool \<Rightarrow> ptr \<Rightarrow> u8 \<Rightarrow> usb \<Rightarrow> usb" where
  "close_if free c pipe w =
    (if pipe \<noteq> 0xff then
       let w = snd (USBH_ClosePipe c pipe w)
       in if free then snd (USBH_FreePipe c pipe w) else w
     else w)"

definition release_child :: "ptr \<Rightarrow> int \<Rightarrow> bool \<Rightarrow> usb \<Rightarrow> usb" where
  "release_child p i free w =
    (let c = child p i w;
         w = close_if free c (pipe_in (Control (hosts w c))) w;
         w = close_if free c (pipe_out (Control (hosts w c))) w
     in set_child p i NULL (free_host c w))"

definition deinit_child :: "class_ops \<Rightarrow> ptr \<Rightarrow> nat \<Rightarrow> usb \<Rightarrow> usb option" where
  "deinit_child ops p i w =
    (let c = child p (int i) w
     in if c = NULL then Some w
        else case pActiveClass (hosts w c) of
          Some k \<Rightarrow> do { (_, w) \<leftarrow> cDeInit ops k c w;
                        Some (upd_host c (\<lambda>h. h\<lparr>pActiveClass := None\<rparr>) w) }
        | None \<Rightarrow> Some (upd_host c (\<lambda>h. h\<lparr>pActiveClass := None\<rparr>) (chk False Null_Class w)))"

definition USBH_HUB_InterfaceDeInit ::
  "class_ops \<Rightarrow> ptr \<Rightarrow> usb \<Rightarrow> (USBH_StatusTypeDef \<times> usb) option" where
  "USBH_HUB_InterfaceDeInit ops p w =
    (let w = fold (\<lambda>i w. if child p (int i) w \<noteq> NULL
                then call_user (child p (int i) w) HOST_USER_DISCONNECTION w else w)
               [0..<USBH_MAX_NUM_CHILD] w
     in do {
       w \<leftarrow> fold_opt (deinit_child ops p) [0..<USBH_MAX_NUM_CHILD] w;
       let w = fold (\<lambda>i w. if child p (int i) w \<noteq> NULL then release_child p (int i) True w else w)
                 [0..<USBH_MAX_NUM_CHILD] w;
           pipe = hub_NotifPipe (hub_CommItf (hub_get p w));
           w = (if pipe \<noteq> 0 then
                  upd_hub p (\<lambda>h. h\<lparr>hub_CommItf := (hub_CommItf h)\<lparr>hub_NotifPipe := 0\<rparr>\<rparr>)
                    (snd (USBH_FreePipe p pipe (snd (USBH_ClosePipe p pipe w))))
                else chk (hub_ptr p w \<noteq> NULL) Null_ClassData w);
           w = (if hub_ptr p w \<noteq> NULL then
                  upd_host p (\<lambda>h. h\<lparr>pClassData := (pClassData h)[0 := NULL]\<rparr>)
                    (free_cdata (hub_ptr p w) w)
                else w);
           w = snd (USBH_Free_One_Address p w)
       in Some (USBH_OK, w)
     })"

text \<open>The members of a new handle that are copied from its parent or read off the port status.\<close>

definition child_speed :: "u16 \<Rightarrow> u8" where
  "child_speed st = (if bit st 9 then USBH_SPEED_LOW else if bit st 10 then USBH_SPEED_HIGH else USBH_SPEED_FULL)"

definition init_child :: "ptr \<Rightarrow> u16 \<Rightarrow> ptr \<Rightarrow> usb \<Rightarrow> usb" where
  "init_child p st c w =
    (let w = w\<lparr>alive := c # alive w, hosts := (hosts w)(c := zero_host)\<rparr>;
         w = upd_host c (\<lambda>h. h\<lparr>Pipes := Pipes (hosts w p), address := address (hosts w p)\<rparr>) w;
         w = snd (HUB_Child_DeInitStateMachine c w);
         n = unat (ClassNumber (hosts w p))
     in upd_host c (\<lambda>h. h\<lparr>is_child := 1, parent := p,
            device := (device h)\<lparr>is_connected := 1, dev_speed := child_speed st\<rparr>,
            pUser := pUser (hosts w p), ClassNumber := ClassNumber (hosts w p),
            pClass := take n (pClass (hosts w p)) @ drop n (pClass h),
            pActiveClass := None, pData := pData (hosts w p)\<rparr>) w)"

definition open_child :: "ptr \<Rightarrow> usb \<Rightarrow> usb" where
  "open_child c w =
    (let (a, w) = USBH_AllocPipe c 0x00 w;
         w = upd_ctl c (\<lambda>x. x\<lparr>pipe_out := a\<rparr>) w;
         (a, w) = USBH_AllocPipe c 0x80 w;
         w = upd_ctl c (\<lambda>x. x\<lparr>pipe_in := a\<rparr>) w
     in set_gstate c HOST_ENUMERATION (open_control_pipes c w))"

text \<open>
  The loop that runs the new handle's state machine until its class driver is up, at most 5000 times.
  The result tells whether the enumeration failed (\<open>goto RESET_PORT\<close>).
\<close>

primrec run_child ::
  "nat \<Rightarrow> (usb \<Rightarrow> usb) \<Rightarrow> class_ops \<Rightarrow> ptr \<Rightarrow> usb \<Rightarrow> (bool \<times> usb) option" where
  "run_child 0 E ops c w = Some (False, w)"
| "run_child (Suc n) E ops c w =
    (if gState (hosts w c) = HOST_CLASS then Some (False, w)
     else do {
       (ret, w) \<leftarrow> USBH_Process E ops c w;
       if gState (hosts w c) = HOST_ENUMERATION \<and> ret = USBH_FAIL then Some (True, w)
       else if gState (hosts w c) = HOST_ABORT_STATE then Some (False, w)
       else run_child n E ops c w
     })"

section \<open>One port\<close>

text \<open>The two words of the port status in the data buffer, read anew after every request.\<close>

definition port_status :: "ptr \<Rightarrow> usb \<Rightarrow> u16" where
  "port_status p w = LE16 (data_of p w) 0"

definition port_change :: "ptr \<Rightarrow> usb \<Rightarrow> u16" where
  "port_change p w = LE16 (data_of p w) 2"

definition clear_change :: "(usb \<Rightarrow> usb) \<Rightarrow> ptr \<Rightarrow> u8 \<Rightarrow> nat \<times> u16 \<Rightarrow> usb \<Rightarrow> usb" where
  "clear_change E p port bf w =
    (if bit (port_change p w) (fst bf) then snd (USBH_HUB_ClearPort E p port (snd bf) w) else w)"

definition change_features :: "(nat \<times> u16) list" where
  "change_features =
     [(0, HUB_FEATURE_SEL_C_PORT_CONNECTION), (1, HUB_FEATURE_SEL_C_PORT_ENABLE),
      (2, HUB_FEATURE_SEL_C_PORT_SUSPEND), (3, HUB_FEATURE_SEL_C_PORT_OVER_CURRENT),
      (4, HUB_FEATURE_SEL_C_PORT_RESET)]"

definition clear_changes :: "(usb \<Rightarrow> usb) \<Rightarrow> ptr \<Rightarrow> u8 \<Rightarrow> usb \<Rightarrow> usb" where
  "clear_changes E p port w = fold (clear_change E p port) change_features w"

definition reset_port :: "(usb \<Rightarrow> usb) \<Rightarrow> ptr \<Rightarrow> u8 \<Rightarrow> usb \<Rightarrow> usb" where
  "reset_port E p port w = USBH_Delay E 150 (snd (USBH_HUB_SetPort E p port HUB_FEATURE_SEL_PORT_RESET w))"

text \<open>
  A step of the loop over the changed ports: the next port number, the bits that are left, and the
  state. \<open>next_port\<close> is \<open>++port; tmp_port_state >>= 1\<close>; the paths that do not take it visit the same
  port again.
\<close>

type_synonym port_scan = "u8 \<times> u8 \<times> usb"

definition next_port :: "u8 \<Rightarrow> u8 \<Rightarrow> usb \<Rightarrow> port_scan" where
  "next_port port bits w = (port + 1, drop_bit 1 bits, w)"

definition port_enabled ::
  "(usb \<Rightarrow> usb) \<Rightarrow> class_ops \<Rightarrow> ptr \<Rightarrow> u8 \<Rightarrow> u8 \<Rightarrow> usb \<Rightarrow> port_scan option" where
  "port_enabled E ops p port bits w =
    (let i = uint port - 1; w = chk_child i w
     in if child p i w \<noteq> NULL then Some (next_port port bits w)
        else let (c, w) = malloc w
        in if c = NULL then Some (port, bits, w)
           else do {
             (failed, w) \<leftarrow> run_child 5000 E ops c (open_child c (init_child p (port_status p w) c w));
             if failed then Some (port, bits, reset_port E p port w)
             else Some (next_port port bits (set_child p i c w))
           })"

definition port_disconnected ::
  "(usb \<Rightarrow> usb) \<Rightarrow> class_ops \<Rightarrow> ptr \<Rightarrow> u8 \<Rightarrow> u8 \<Rightarrow> usb \<Rightarrow> port_scan option" where
  "port_disconnected E ops p port bits w =
    (let i = uint port - 1; w = chk_child i w; c = child p i w
     in if c = NULL then Some (next_port port bits w)
        else do {
          let w = snd (USBH_LL_Disconnect E c (chk_host c w));
          w \<leftarrow> (case pActiveClass (hosts w c) of
                 Some k \<Rightarrow> do { (_, w) \<leftarrow> cDeInit ops k c w;
                               Some (upd_host c (\<lambda>h. h\<lparr>pActiveClass := None\<rparr>) w) }
               | None \<Rightarrow> Some w);
          let w = snd (HUB_Child_DeInitStateMachine c w);
          Some (next_port port bits (release_child p i False w))
        })"

definition port_step ::
  "(usb \<Rightarrow> usb) \<Rightarrow> class_ops \<Rightarrow> ptr \<Rightarrow> u8 \<Rightarrow> u8 \<Rightarrow> usb \<Rightarrow> port_scan option" where
  "port_step E ops p port bits w =
    (if bit bits 0 then
       let (st, w) = USBH_HUB_GetPortStatus E p port 4 w
       in if st = USBH_OK then
            if bit (port_status p w) 8 then
              let w = clear_changes E p port w
              in if bit (port_status p w) 0 then
                   if bit (port_status p w) 1 then port_enabled E ops p port bits w
                   else Some (port, bits, reset_port E p port w)
                 else port_disconnected E ops p port bits w
            else Some (port, bits, w)
          else Some (next_port port bits w)
     else Some (next_port port bits w))"

text \<open>\<open>while (tmp_port_state)\<close>; \<open>None\<close> when the loop does not end.\<close>

partial_function (option) port_loop ::
  "(usb \<Rightarrow> usb) \<Rightarrow> class_ops \<Rightarrow> ptr \<Rightarrow> u8 \<Rightarrow> u8 \<Rightarrow> usb \<Rightarrow> usb option" where
  "port_loop E ops p port bits w =
    (if bits = 0 then Some w
     else Option.bind (port_step E ops p port bits w)
            (\<lambda>(port, bits, w). port_loop E ops p port bits w))"

definition enum_ports :: "(usb \<Rightarrow> usb) \<Rightarrow> class_ops \<Rightarrow> ptr \<Rightarrow> usb \<Rightarrow> usb option" where
  "enum_ports E ops p w =
    do {
      w \<leftarrow> port_loop E ops p 0 (port_state (hub_get p w)) w;
      Some (port_event (set_hub_state p HUB_REQ_SCAN_PORT w))
    }"

section \<open>The background process and the frame interrupt\<close>

text \<open>The case \<open>HUB_REQ_CLR_FEATURE\<close> has no \<open>break\<close> and goes on with \<open>HUB_REQ_ENUM_PORT\<close>.\<close>

definition USBH_HUB_Process ::
  "(usb \<Rightarrow> usb) \<Rightarrow> class_ops \<Rightarrow> ptr \<Rightarrow> usb \<Rightarrow> (USBH_StatusTypeDef \<times> usb) option" where
  "USBH_HUB_Process E ops p w =
    (if p = NULL \<or> pActiveClass (hosts w p) = None \<or> hub_ptr p w = NULL then Some (USBH_OK, w)
     else case hub_ctl_state (hub_get p w) of
       HUB_REQ_SCAN_PORT_WAIT \<Rightarrow>
         let (urb, w) = USBH_LL_GetURBState E p (hub_NotifPipe (hub_CommItf (hub_get p w))) w
         in Some (USBH_OK,
              if urb = USBH_URB_DONE then
                port_event (upd_hub p (\<lambda>h. h\<lparr>port_state := hub_intr_buf h ! 0,
                                             hub_ctl_state := HUB_REQ_ENUM_PORT\<rparr>) w)
              else if urb = USBH_URB_STALL then port_event (set_hub_state p HUB_REQ_CLR_FEATURE w)
              else if urb = USBH_URB_NOTREADY then set_hub_state p HUB_REQ_SCAN_PORT w
              else port_event w)
     | HUB_REQ_CLR_FEATURE \<Rightarrow>
         let (st, w) = USBH_ClrFeature E p (hub_NotifEp (hub_CommItf (hub_get p w))) w;
             w = (if st = USBH_OK then set_hub_state p HUB_REQ_SCAN_PORT w else port_event w)
         in do { w \<leftarrow> enum_ports E ops p w; Some (USBH_OK, w) }
     | HUB_REQ_ENUM_PORT \<Rightarrow> do { w \<leftarrow> enum_ports E ops p w; Some (USBH_OK, w) }
     | _ \<Rightarrow> Some (USBH_OK, w))"

definition USBH_HUB_SOFProcess :: "ptr \<Rightarrow> usb \<Rightarrow> USBH_StatusTypeDef \<times> usb" where
  "USBH_HUB_SOFProcess p w =
    (if pActiveClass (hosts w p) = None \<or> hub_ptr p w = NULL then (USBH_OK, w)
     else
       let w = upd_hub p (\<lambda>h. h\<lparr>sof_num := sof_num h + 1\<rparr>) w;
           c = hub_CommItf (hub_get p w)
       in if sof_num (hub_get p w) \<ge> ucast (hub_poll c) then
            let (st, w) = USBH_InterruptReceiveData p (BHubIntr (hub_ptr p w))
                            (ucast (hub_NotifEpSize c)) (hub_NotifPipe c) w
            in if st = USBH_OK then
                 (USBH_OK, upd_hub p (\<lambda>h. h\<lparr>sof_num := 0,
                    hub_ctl_state := (if hub_ctl_state h = HUB_REQ_SCAN_PORT
                                      then HUB_REQ_SCAN_PORT_WAIT else hub_ctl_state h)\<rparr>) w)
               else (USBH_OK, w)
          else (USBH_OK, w))"

text \<open>The body of \<open>USBH_HUB_Init\<close> is disabled.\<close>

definition USBH_HUB_Init :: "ptr \<Rightarrow> usb \<Rightarrow> USBH_StatusTypeDef \<times> usb" where
  "USBH_HUB_Init p w = (USBH_BUSY, w)"

definition USBH_HUB_IOProcess ::
  "(usb \<Rightarrow> usb) \<Rightarrow> class_ops \<Rightarrow> ptr \<Rightarrow> usb \<Rightarrow> (USBH_StatusTypeDef \<times> usb) option" where
  "USBH_HUB_IOProcess E ops p w =
    (if is_connected (device (hosts w p)) = 1 \<and> gState (hosts w p) = HOST_CLASS
     then do { (_, w) \<leftarrow> USBH_HUB_Process E ops p w; Some (USBH_OK, w) }
     else Some (USBH_OK, w))"

end
