(* ===== verification/Usb_Hcd_Props.thy ===== *)
theory Usb_Hcd_Props
  imports Usb_LL
begin

text \<open>
  What the channel interrupts of the HCD driver do to a channel, and the environments built from
  them: every channel completes, every channel fails, every channel is stalled.
\<close>

section \<open>One interrupt on one channel\<close>

definition irq_on :: "u32 \<Rightarrow> HCD_HCTypeDef \<Rightarrow> HCD_HCTypeDef" where
  "irq_on hcint c =
    (let s = irq_start c hcint
     in irq_c (if hc_ep_is_in c \<noteq> 0 then HCD_HC_IN_IRQHandler s else HCD_HC_OUT_IRQHandler s))"

lemmas irq_defs = HCD_HC_IN_IRQHandler_def HCD_HC_OUT_IRQHandler_def in_first_def in_second_def
  in_xfrc_def in_halted_def out_halted_def err_retry_def flag_def clear_int_def set_state_def
  set_urb_def set_errcnt_def do_op_def halt_ch_def unmask_halt_def notify_urb_def set_ping_def
  irq_start_def Let_def

definition same_ep :: "hc_irq \<Rightarrow> hc_irq \<Rightarrow> bool" where
  "same_ep s t \<longleftrightarrow> hc_ep_is_in (irq_c s) = hc_ep_is_in (irq_c t) \<and> hc_ep_type (irq_c s) = hc_ep_type (irq_c t)"

lemma same_ep_steps [simp]:
  "same_ep (clear_int m s) t = same_ep s t" "same_ep (set_state st s) t = same_ep s t"
  "same_ep (set_urb u s) t = same_ep s t" "same_ep (set_errcnt n s) t = same_ep s t"
  "same_ep (halt_ch s) t = same_ep s t" "same_ep (do_op x s) t = same_ep s t"
  "same_ep (unmask_halt s) t = same_ep s t" "same_ep (notify_urb s) t = same_ep s t"
  "same_ep (set_ping v s) t = same_ep s t" "same_ep (err_retry s) t = same_ep s t" "same_ep s s"
  by (simp_all add: same_ep_def clear_int_def set_state_def set_urb_def set_errcnt_def halt_ch_def
      unmask_halt_def do_op_def notify_urb_def set_ping_def err_retry_def Let_def)

lemma same_ep_handlers:
  "same_ep (in_first s) t = same_ep s t" "same_ep (in_halted s) t = same_ep s t"
  "same_ep (out_halted s) t = same_ep s t"
  by (simp_all add: in_first_def in_halted_def out_halted_def Let_def)
    (simp add: same_ep_def set_urb_def)

lemma same_ep_in_xfrc: "same_ep (in_xfrc s) s"
  unfolding in_xfrc_def Let_def same_ep_def
  by (simp add: clear_int_def set_state_def set_urb_def set_errcnt_def halt_ch_def unmask_halt_def do_op_def
      notify_urb_def)

lemma same_ep_in_second: "same_ep (in_second s) s"
  unfolding in_second_def Let_def
  by (simp add: same_ep_in_xfrc same_ep_handlers)

lemma same_ep_trans: "same_ep a b \<Longrightarrow> same_ep b c \<Longrightarrow> same_ep a c"
  by (simp add: same_ep_def)

lemma same_ep_irq: "same_ep (HCD_HC_IN_IRQHandler s) s" "same_ep (HCD_HC_OUT_IRQHandler s) s"
proof -
  show "same_ep (HCD_HC_IN_IRQHandler s) s"
    unfolding HCD_HC_IN_IRQHandler_def
    by (rule same_ep_trans [OF same_ep_in_second], simp add: same_ep_handlers)
  show "same_ep (HCD_HC_OUT_IRQHandler s) s"
    unfolding HCD_HC_OUT_IRQHandler_def Let_def by (simp add: same_ep_handlers)
qed

lemma irq_on_ep [simp]: "hc_ep_is_in (irq_on h c) = hc_ep_is_in c" "hc_ep_type (irq_on h c) = hc_ep_type c"
  using same_ep_irq [of "irq_start c h"]
  by (simp_all add: irq_on_def same_ep_def irq_start_def Let_def)

text \<open>A transfer completes: the \<open>XFRC\<close> interrupt, then the channel halts.\<close>

lemma xfrc_then_halt_in:
  "hc_ep_is_in c \<noteq> 0 \<Longrightarrow> irq_on HCINT_CHH (irq_on HCINT_XFRC c)
     = c\<lparr>hc_state := HC_XFRC, hc_ErrCnt := 0, hc_toggle_in := hc_toggle_in c XOR 1,
         hc_urb_state := USBH_URB_DONE\<rparr>"
  by (simp add: irq_on_def irq_defs)

lemma xfrc_then_halt_out:
  "hc_ep_is_in c = 0 \<Longrightarrow> irq_on HCINT_CHH (irq_on HCINT_XFRC c)
     = c\<lparr>hc_state := HC_XFRC, hc_ErrCnt := 0,
         hc_toggle_out := (if hc_ep_type c = USBH_EP_BULK \<or> hc_ep_type c = USBH_EP_INTERRUPT
            then hc_toggle_out c XOR 1 else hc_toggle_out c),
         hc_urb_state := USBH_URB_DONE\<rparr>"
  by (simp add: irq_on_def irq_defs)

text \<open>A transaction error, then the channel halts.\<close>

definition error_round :: "HCD_HCTypeDef \<Rightarrow> HCD_HCTypeDef" where
  "error_round c = irq_on HCINT_CHH (irq_on HCINT_TXERR c)"

lemma error_round_out:
  "hc_ep_is_in c = 0 \<Longrightarrow> error_round c = c\<lparr>hc_state := HC_XACTERR,
     hc_ErrCnt := (if hc_ErrCnt c > 3 then 0 else hc_ErrCnt c + 1),
     hc_urb_state := (if hc_ErrCnt c > 3 then USBH_URB_ERROR else USBH_URB_NOTREADY)\<rparr>"
  by (simp add: error_round_def irq_on_def irq_defs)

lemma error_round_in:
  "hc_ep_is_in c \<noteq> 0 \<Longrightarrow> error_round c = c\<lparr>hc_state := HC_XACTERR,
     hc_ErrCnt := (if hc_ErrCnt c + 1 > 3 then 0 else hc_ErrCnt c + 2),
     hc_urb_state := (if hc_ErrCnt c + 1 > 3 then USBH_URB_ERROR else USBH_URB_NOTREADY)\<rparr>"
  by (simp add: error_round_def irq_on_def irq_defs)

lemma stall_then_halt:
  "hc_urb_state (irq_on HCINT_CHH (irq_on HCINT_STALL c)) = USBH_URB_STALL"
  by (simp add: irq_on_def irq_defs)

section \<open>Interrupts on all channels\<close>

lemma channel_irq_frame:
  assumes "unat ch < length (hc w)"
  shows "hosts (channel_irq ch h w) = hosts w" "alive (channel_irq ch h w) = alive w"
    "words (channel_irq ch h w) = words w" "bytes (channel_irq ch h w) = bytes w"
    "cdata (channel_irq ch h w) = cdata w"
    "faults (channel_irq ch h w) = faults w" "length (hc (channel_irq ch h w)) = length (hc w)"
    "\<exists>n. outs (channel_irq ch h w) = outs w @ replicate n (HCD_Halt ch)"
  using assms
  by (auto simp: channel_irq_def run_irq_def USBH_LL_NotifyURBChange_def Let_def)

lemma channel_irq_hc:
  assumes "unat ch < length (hc w)"
  shows "hc_get (channel_irq ch h w) k = (if k = ch then irq_on h (hc_get w ch) else hc_get w k)"
proof -
  have o: "hc_get (v\<lparr>outs := x\<rparr>) j = hc_get v j" for v x j by (simp add: hc_get_def)
  show ?thesis
    using assms
    by (simp add: channel_irq_def run_irq_def USBH_LL_NotifyURBChange_def Let_def irq_on_def o)
qed

text \<open>A list of interrupts on one channel, in order, and on all fifteen.\<close>

definition irqs_on :: "u32 list \<Rightarrow> HCD_HCTypeDef \<Rightarrow> HCD_HCTypeDef" where
  "irqs_on hs c = fold irq_on hs c"

definition channel_irqs :: "(HCD_HCTypeDef \<Rightarrow> u32 list) \<Rightarrow> u8 \<Rightarrow> usb \<Rightarrow> usb" where
  "channel_irqs hs ch w = fold (channel_irq ch) (hs (hc_get w ch)) w"

definition all_channels :: "(HCD_HCTypeDef \<Rightarrow> u32 list) \<Rightarrow> usb \<Rightarrow> usb" where
  "all_channels hs w = fold (\<lambda>i. channel_irqs hs (of_nat i)) [0..<HC_COUNT] w"

definition quiet :: "usb \<Rightarrow> usb \<Rightarrow> bool" where
  "quiet w w' \<longleftrightarrow> hosts w' = hosts w \<and> alive w' = alive w \<and> words w' = words w \<and> bytes w' = bytes w
     \<and> cdata w' = cdata w \<and> faults w' = faults w \<and> length (hc w') = length (hc w)
     \<and> (\<exists>cs. outs w' = outs w @ map HCD_Halt cs)"

lemma quiet_refl [simp]: "quiet w w"
  by (auto simp: quiet_def intro: exI [of _ "[]"])

lemma quiet_trans: "quiet a b \<Longrightarrow> quiet b c \<Longrightarrow> quiet a c"
  by (auto simp: quiet_def intro: exI [of _ "_ @ _"])

lemma channel_irq_quiet: "unat ch < length (hc w) \<Longrightarrow> quiet w (channel_irq ch h w)"
  using channel_irq_frame(8) [of ch w h]
  by (auto simp: quiet_def channel_irq_frame map_replicate [symmetric] simp del: map_replicate
      intro: exI [of _ "replicate _ ch"])

lemma channel_irq_fold:
  assumes "unat ch < length (hc w)"
  shows "quiet w (fold (channel_irq ch) xs w)
    \<and> (\<forall>k. hc_get (fold (channel_irq ch) xs w) k = (if k = ch then irqs_on xs (hc_get w ch) else hc_get w k))"
  using assms
proof (induction xs arbitrary: w)
  case Nil
  then show ?case by (simp add: irqs_on_def)
next
  case (Cons x xs)
  have q: "quiet w (channel_irq ch x w)" by (rule channel_irq_quiet [OF Cons.prems])
  then have l: "unat ch < length (hc (channel_irq ch x w))" using Cons.prems by (simp add: quiet_def)
  from Cons.IH [OF l] quiet_trans [OF q] show ?case
    by (auto simp: irqs_on_def channel_irq_hc [OF Cons.prems])
qed

lemma all_channels_upto:
  assumes "n \<le> 15" "length (hc w) = 15"
  shows "quiet w (fold (\<lambda>i. channel_irqs hs (of_nat i)) [0..<n] w)
    \<and> (\<forall>k. hc_get (fold (\<lambda>i. channel_irqs hs (of_nat i)) [0..<n] w) k
         = (if unat k < n then irqs_on (hs (hc_get w k)) (hc_get w k) else hc_get w k))"
  using assms(1)
proof (induction n)
  case 0
  then show ?case by simp
next
  case (Suc n)
  let ?w = "fold (\<lambda>i. channel_irqs hs (of_nat i)) [0..<n] w"
  from Suc have q: "quiet w ?w" and g: "\<And>k. hc_get ?w k
      = (if unat k < n then irqs_on (hs (hc_get w k)) (hc_get w k) else hc_get w k)" by auto
  have u: "unat (of_nat n :: u8) = n" using Suc.prems by (simp add: unat_of_nat)
  have l: "unat (of_nat n :: u8) < length (hc ?w)" using q assms(2) Suc.prems u by (simp add: quiet_def)
  have eq: "k = of_nat n \<longleftrightarrow> unat k = n" for k :: u8 using u by (metis word_unat_eq_iff)
  have step: "fold (\<lambda>i. channel_irqs hs (of_nat i)) [0..<Suc n] w
      = fold (channel_irq (of_nat n)) (hs (hc_get w (of_nat n))) ?w"
    using g [of "of_nat n"] u by (simp add: channel_irqs_def)
  from channel_irq_fold [OF l, of "hs (hc_get w (of_nat n))"] g [of "of_nat n"] u quiet_trans [OF q] g
  show ?case unfolding step by (auto simp: eq less_Suc_eq)
qed

lemma all_channels_quiet: "length (hc w) = 15 \<Longrightarrow> quiet w (all_channels hs w)"
  using all_channels_upto [of 15 w hs] by (simp add: all_channels_def)

lemma all_channels_hc:
  "length (hc w) = 15 \<Longrightarrow> unat k < 15 \<Longrightarrow>
     hc_get (all_channels hs w) k = irqs_on (hs (hc_get w k)) (hc_get w k)"
  using all_channels_upto [of 15 w hs] by (simp add: all_channels_def)

text \<open>
  Every channel completes its transfer; every channel is stalled; every channel fails: it
  completes what it had and then runs into transaction errors until the driver gives up.
\<close>

definition completing :: "usb \<Rightarrow> usb" where
  "completing = all_channels (\<lambda>_. [HCINT_XFRC, HCINT_CHH])"

definition stalling :: "usb \<Rightarrow> usb" where
  "stalling = all_channels (\<lambda>_. [HCINT_STALL, HCINT_CHH])"

definition failing :: "usb \<Rightarrow> usb" where
  "failing = all_channels (\<lambda>c. [HCINT_XFRC] @ concat (replicate
     (if hc_ep_is_in c \<noteq> 0 then 3 else 5) [HCINT_TXERR, HCINT_CHH]))"

lemma completing_done:
  "length (hc w) = 15 \<Longrightarrow> unat k < 15 \<Longrightarrow> hc_urb_state (hc_get (completing w) k) = USBH_URB_DONE"
  by (cases "hc_ep_is_in (hc_get w k) = 0")
    (simp_all add: completing_def all_channels_hc irqs_on_def xfrc_then_halt_in xfrc_then_halt_out)

lemma stalling_stall:
  "length (hc w) = 15 \<Longrightarrow> unat k < 15 \<Longrightarrow> hc_urb_state (hc_get (stalling w) k) = USBH_URB_STALL"
  by (simp add: stalling_def all_channels_hc irqs_on_def stall_then_halt)

lemma errcnt_after_xfrc: "hc_ErrCnt (irq_on HCINT_XFRC c) = 0"
  by (simp add: irq_on_def irq_defs)

lemma error_rounds_fold:
  "fold irq_on (concat (replicate n [HCINT_TXERR, HCINT_CHH])) c = (error_round ^^ n) c"
  by (induction n arbitrary: c) (simp_all add: error_round_def funpow_swap1)

lemma funpow_small:
  "(f ^^ 2) c = f (f c)" "(f ^^ 3) c = f (f (f c))" "(f ^^ 4) c = f (f (f (f c)))"
  "(f ^^ 5) c = f (f (f (f (f c))))"
  by (simp_all add: eval_nat_numeral)

lemma error_rounds_out:
  assumes "hc_ep_is_in c = 0" "hc_ErrCnt c = 0"
  shows "hc_urb_state (error_round c) = USBH_URB_NOTREADY"
    and "hc_urb_state ((error_round ^^ 2) c) = USBH_URB_NOTREADY"
    and "hc_urb_state ((error_round ^^ 3) c) = USBH_URB_NOTREADY"
    and "hc_urb_state ((error_round ^^ 4) c) = USBH_URB_NOTREADY"
    and "hc_urb_state ((error_round ^^ 5) c) = USBH_URB_ERROR"
  using assms by (simp_all add: funpow_small error_round_out)

lemma error_rounds_in:
  assumes "hc_ep_is_in c \<noteq> 0" "hc_ErrCnt c = 0"
  shows "hc_urb_state (error_round c) = USBH_URB_NOTREADY"
    and "hc_urb_state ((error_round ^^ 2) c) = USBH_URB_NOTREADY"
    and "hc_urb_state ((error_round ^^ 3) c) = USBH_URB_ERROR"
  using assms by (simp_all add: funpow_small error_round_in)

lemma failing_error:
  assumes "length (hc w) = 15" "unat k < 15"
  shows "hc_urb_state (hc_get (failing w) k) = USBH_URB_ERROR"
  using assms error_rounds_out(5) [of "irq_on HCINT_XFRC (hc_get w k)"]
    error_rounds_in(3) [of "irq_on HCINT_XFRC (hc_get w k)"]
  by (simp add: failing_def all_channels_hc irqs_on_def error_rounds_fold errcnt_after_xfrc)

section \<open>Properties\<close>

text \<open>
  A transfer that completes (the channel's \<open>XFRC\<close> interrupt, then its halt) is reported as done
  with the error count cleared, and moves the data toggle the way the next transfer needs it: the IN
  toggle of an IN channel, the OUT toggle of a bulk or interrupt OUT channel, and no toggle of a
  control OUT channel; nothing else of the channel changes but its state.
\<close>

theorem completed_transfer:
  "irq_on HCINT_CHH (irq_on HCINT_XFRC c) =
    (if hc_ep_is_in c \<noteq> 0
     then c\<lparr>hc_state := HC_XFRC, hc_ErrCnt := 0, hc_toggle_in := hc_toggle_in c XOR 1,
            hc_urb_state := USBH_URB_DONE\<rparr>
     else c\<lparr>hc_state := HC_XFRC, hc_ErrCnt := 0,
            hc_toggle_out := (if hc_ep_type c = USBH_EP_BULK \<or> hc_ep_type c = USBH_EP_INTERRUPT
               then hc_toggle_out c XOR 1 else hc_toggle_out c),
            hc_urb_state := USBH_URB_DONE\<rparr>)"
  by (simp add: xfrc_then_halt_in xfrc_then_halt_out)

text \<open>
  C33: The driver retries a transaction error a bounded number of times before it reports
  \<open>URB_ERROR\<close>: an OUT channel gives up at the fifth error in a row; an IN channel already at the
  third, because its handler counts each error twice (at \<open>TXERR\<close> and again at the halt).
\<close>

theorem error_retries:
  "hc_ErrCnt c = 0 \<Longrightarrow>
    (if hc_ep_is_in c = 0
     then (\<forall>n \<in> {1, 2, 3, 4}. hc_urb_state ((error_round ^^ n) c) = USBH_URB_NOTREADY)
        \<and> hc_urb_state ((error_round ^^ 5) c) = USBH_URB_ERROR
     else (\<forall>n \<in> {1, 2}. hc_urb_state ((error_round ^^ n) c) = USBH_URB_NOTREADY)
        \<and> hc_urb_state ((error_round ^^ 3) c) = USBH_URB_ERROR)"
  using error_rounds_out [of c] error_rounds_in [of c] by simp

theorem error_retries_witness:
  "hc_urb_state ((error_round ^^ 5) zero_hc) = USBH_URB_ERROR
   \<and> hc_urb_state ((error_round ^^ 3) (zero_hc\<lparr>hc_ep_is_in := 1\<rparr>)) = USBH_URB_ERROR"
  using error_retries [of zero_hc] error_retries [of "zero_hc\<lparr>hc_ep_is_in := 1\<rparr>"]
  by (simp add: zero_hc_def)

end
