(* ===== verification/Usb_Desc_Props.thy ===== *)
theory Usb_Desc_Props
  imports Usb_Desc
begin

text \<open>
  What the descriptor parsers compute. The abstract view of a configuration is the list of the
  descriptors it consists of; \<open>spec_itfs\<close> reads interfaces and endpoints off that list, and the
  pointer-walking parser is shown to implement it. The theory also shows where the walk does not end.
\<close>

section \<open>Device descriptor\<close>

definition enc_dev_desc :: "USBH_DevDescTypeDef \<Rightarrow> u8 list" where
  "enc_dev_desc d = [dev_bLength d, dev_bDescriptorType d, lo8 (bcdUSB d), hi8 (bcdUSB d),
     bDeviceClass d, bDeviceSubClass d, bDeviceProtocol d, bMaxPacketSize d,
     lo8 (idVendor d), hi8 (idVendor d), lo8 (idProduct d), hi8 (idProduct d),
     lo8 (bcdDevice d), hi8 (bcdDevice d), iManufacturer d, iProduct d, iSerialNumber d,
     bNumConfigurations d]"

lemma parse_enc_dev_desc: "USBH_ParseDevDesc old (enc_dev_desc d @ rest) 18 = d"
  by (simp add: USBH_ParseDevDesc_def enc_dev_desc_def)

text \<open>
  Parsing the eighteen bytes a device sends gives back its device descriptor, whatever the
  descriptor held before; the eight-byte read that precedes it gives the first eight bytes' fields
  and keeps the other fields of the old descriptor.
\<close>

theorem dev_desc_roundtrip:
  "USBH_ParseDevDesc old (enc_dev_desc d @ rest) 18 = d
   \<and> USBH_ParseDevDesc old (take 8 (enc_dev_desc d) @ rest) 8
      = old\<lparr>dev_bLength := dev_bLength d, dev_bDescriptorType := dev_bDescriptorType d,
           bcdUSB := bcdUSB d, bDeviceClass := bDeviceClass d, bDeviceSubClass := bDeviceSubClass d,
           bDeviceProtocol := bDeviceProtocol d, bMaxPacketSize := bMaxPacketSize d\<rparr>"
  by (simp add: parse_enc_dev_desc) (simp add: USBH_ParseDevDesc_def enc_dev_desc_def)

section \<open>The abstract view of a configuration\<close>

definition itf_of :: "u8 list \<Rightarrow> USBH_InterfaceDescTypeDef \<Rightarrow> USBH_InterfaceDescTypeDef" where
  "itf_of d old = USBH_ParseInterfaceDesc old d 0"

primrec spec_eps :: "nat \<Rightarrow> u8 list list \<Rightarrow> USBH_EpDescTypeDef list \<times> u8 list list" where
  "spec_eps n [] = ([], [])"
| "spec_eps n (d # ds) =
    (if n = 0 then ([], d # ds)
     else if rd8 d 1 = USB_DESC_TYPE_ENDPOINT
     then let (es, r) = spec_eps (n - 1) ds in (USBH_ParseEPDesc d 0 # es, r)
     else spec_eps n ds)"

definition overlay :: "'a list \<Rightarrow> 'a list \<Rightarrow> 'a list" where
  "overlay new old = new @ drop (length new) old"

lemma spec_eps_length: "length (snd (spec_eps n ds)) \<le> length ds"
  by (induction ds arbitrary: n) (auto simp: case_prod_beta Let_def le_SucI)

lemma spec_eps_bound: "length (fst (spec_eps n ds)) \<le> n"
proof (induction ds arbitrary: n)
  case (Cons d ds)
  from Cons.IH [of "n - 1"] Cons.IH [of n] show ?case
    by (auto simp: case_prod_beta Let_def)
qed simp

text \<open>
  The interfaces of a list of descriptors, at most \<open>length olds\<close> of them; \<open>olds\<close> are the
  previous contents of the table entries, kept where nothing is read.
\<close>

function spec_itfs :: "USBH_InterfaceDescTypeDef list \<Rightarrow> u8 list list \<Rightarrow> USBH_InterfaceDescTypeDef list" where
  "spec_itfs [] ds = []"
| "spec_itfs (old # olds) [] = old # olds"
| "spec_itfs (old # olds) (d # ds) =
    (if rd8 d 1 = USB_DESC_TYPE_INTERFACE
     then let i = itf_of d old; (es, r) = spec_eps (unat (bNumEndpoints i)) ds
          in i\<lparr>Ep_Desc := overlay es (Ep_Desc i)\<rparr> # spec_itfs olds r
     else spec_itfs (old # olds) ds)"
  by pat_completeness auto
termination
  by (relation "measure (\<lambda>(olds, ds). length ds)")
    (auto simp: le_imp_less_Suc spec_eps_length, metis le_imp_less_Suc snd_conv spec_eps_length)

text \<open>
  A descriptor as devices send it: its first byte is its length. The last one of a configuration is
  an endpoint or interface descriptor; longer trailing descriptors are excluded because the
  counter \<open>ptr\<close> runs nine bytes ahead of the descriptor the loop is at, so that the walk would
  read a header past the end of the configuration.
\<close>

definition wf_desc :: "u8 list \<Rightarrow> bool" where
  "wf_desc d \<longleftrightarrow> 3 \<le> length d \<and> length d < 256 \<and> hd d = of_nat (length d)
     \<and> (rd8 d 1 = USB_DESC_TYPE_INTERFACE \<longrightarrow> length d = 9 \<and> unat (rd8 d 4) \<le> USBH_MAX_NUM_ENDPOINTS)
     \<and> (rd8 d 1 = USB_DESC_TYPE_ENDPOINT \<longrightarrow> 7 \<le> length d)"

definition wf_descs :: "u8 list list \<Rightarrow> bool" where
  "wf_descs ds \<longleftrightarrow> (\<forall>d \<in> set ds. wf_desc d) \<and> 7 \<le> length (last ds) \<and> length (last ds) \<le> 9"

section \<open>One step of the walk\<close>

text \<open>The walk stands at \<open>cur\<close>, with \<open>pre\<close> behind it and the descriptors \<open>ds\<close> ahead.\<close>

definition at :: "u8 list \<Rightarrow> u8 list list \<Rightarrow> u8 list \<Rightarrow> cfg_scan \<Rightarrow> bool" where
  "at cur ds buf s \<longleftrightarrow> (\<exists>pre rest. buf = pre @ cur @ concat ds @ rest \<and> sc_off s = length pre
     \<and> sc_ptr s = of_nat (length pre + 9)
     \<and> wTotalLength (sc_cfg s) = of_nat (length (pre @ cur @ concat ds))
     \<and> length (pre @ cur @ concat ds) < 60000 \<and> wf_descs (cur # ds))"

lemma wf_desc_nth0: "wf_desc d \<Longrightarrow> unat (rd8 d 0) = length d \<and> ucast (rd8 d 0) = (of_nat (length d) :: u16)"
proof -
  assume a: "wf_desc d"
  then have "rd8 d 0 = of_nat (length d)" by (cases d) (auto simp: wf_desc_def)
  then have "unat (rd8 d 0) = length d" using a by (simp add: wf_desc_def unat_of_nat)
  moreover have "ucast (rd8 d 0) = (of_nat (unat (rd8 d 0)) :: u16)" by simp
  ultimately show ?thesis by simp
qed

lemma wf_descs_tail: "wf_descs (cur # d # ds) \<Longrightarrow> wf_descs (d # ds)"
  by (simp add: wf_descs_def)

lemma wf_descs_sum: "wf_descs (d # ds) \<Longrightarrow> 7 \<le> length d + length (concat ds)"
proof (induction ds arbitrary: d)
  case Nil
  then show ?case by (simp add: wf_descs_def)
next
  case (Cons a as)
  from Cons.IH [OF wf_descs_tail [OF Cons.prems]] show ?case by simp
qed

lemma at_wf: "at cur ds buf s \<Longrightarrow> wf_desc cur"
  unfolding at_def wf_descs_def by auto

lemma wf_descD:
  assumes "wf_desc d"
  shows "3 \<le> length d" and "rd8 d 1 = 4 \<Longrightarrow> length d = 9" and "rd8 d 1 = 4 \<Longrightarrow> unat (rd8 d 4) \<le> 8"
    and "rd8 d 1 = 5 \<Longrightarrow> 7 \<le> length d"
  using assms unfolding wf_desc_def by auto

lemma at_guard:
  assumes "at cur ds buf s"
  shows "sc_ptr s < wTotalLength (sc_cfg s) \<longleftrightarrow> ds \<noteq> []"
proof -
  from assms obtain pre where p: "sc_ptr s = of_nat (length pre + 9)"
    and t: "wTotalLength (sc_cfg s) = of_nat (length (pre @ cur @ concat ds))"
    and b: "length (pre @ cur @ concat ds) < 60000" and wf: "wf_descs (cur # ds)"
    by (auto simp: at_def)
  have "sc_ptr s < wTotalLength (sc_cfg s) \<longleftrightarrow> 9 < length cur + length (concat ds)"
    using b unfolding p t by (simp add: word_less_nat_alt unat_of_nat del: of_nat_add)
  moreover have "9 < length cur + length (concat ds)" if ds: "ds \<noteq> []"
  proof -
    from ds obtain d r where "ds = d # r" by (cases ds) auto
    with wf wf_descs_sum [of d r] wf_descs_tail [of cur d r] have "7 \<le> length (concat ds)" by simp
    with wf show ?thesis by (simp add: wf_descs_def wf_desc_def)
  qed
  moreover have "\<not> 9 < length cur + length (concat ds)" if "ds = []"
    using that wf by (simp add: wf_descs_def)
  ultimately show ?thesis by blast
qed

lemma at_next:
  assumes "at cur (d # ds) buf s"
  shows "at d ds buf (USBH_GetNextDesc buf s)"
    and "sc_faults (USBH_GetNextDesc buf s) = sc_faults s"
    and "sc_cfg (USBH_GetNextDesc buf s) = sc_cfg s"
proof -
  from assms obtain pre rest where b: "buf = pre @ cur @ concat (d # ds) @ rest"
    and o: "sc_off s = length pre" and p: "sc_ptr s = of_nat (length pre + 9)"
    and t: "wTotalLength (sc_cfg s) = of_nat (length (pre @ cur @ concat (d # ds)))"
    and l: "length (pre @ cur @ concat (d # ds)) < 60000" and wf: "wf_descs (cur # d # ds)"
    unfolding at_def by blast
  from wf have c: "wf_desc cur" by (simp add: wf_descs_def)
  then have "0 < length cur" by (auto simp: wf_desc_def)
  then have r: "rd8 buf (length pre) = rd8 cur 0"
    unfolding b using rd8_append_right [of pre _ 0] by simp
  have inb: "length pre + 1 \<le> length buf" using c unfolding b by (auto simp: wf_desc_def)
  show "sc_faults (USBH_GetNextDesc buf s) = sc_faults s" "sc_cfg (USBH_GetNextDesc buf s) = sc_cfg s"
    using inb o by (simp_all add: USBH_GetNextDesc_def sc_read_def sc_chk_def Let_def)
  show "at d ds buf (USBH_GetNextDesc buf s)"
    unfolding at_def using b o p t l wf r wf_desc_nth0 [OF c] wf_descs_tail [OF wf]
    by (intro exI [of _ "pre @ cur"] exI [of _ rest])
      (simp add: USBH_GetNextDesc_def sc_read_def sc_chk_def Let_def algebra_simps)
qed

lemma at_rd8:
  assumes "at cur ds buf s" "i < length cur"
  shows "rd8 buf (sc_off s + i) = rd8 cur i"
  using assms by (auto simp: at_def)

lemma at_read:
  assumes "at cur ds buf s" "n \<le> length cur"
  shows "sc_read buf n s = s"
  using assms by (auto simp: at_def sc_read_def sc_chk_def)

lemma at_type:
  assumes "at cur ds buf s"
  shows "cur_type buf s = rd8 cur 1"
  using at_rd8 [OF assms, of 1] assms by (auto simp: at_def cur_type_def wf_descs_def wf_desc_def)

lemma at_set_itf [simp]: "at cur ds buf (set_itf i d s) = at cur ds buf s"
  by (simp add: at_def set_itf_def)

section \<open>The walk implements the abstract view\<close>

lemma parse_ep_eq:
  assumes "at cur ds buf s" "7 \<le> length cur"
  shows "USBH_ParseEPDesc buf (sc_off s) = USBH_ParseEPDesc cur 0"
proof -
  have r: "rd8 buf (sc_off s + k) = rd8 cur k" if "k < 7" for k
    using at_rd8 [OF assms(1)] assms(2) that by simp
  from r [of 4] r [of 5] have "LE16 buf (sc_off s + 4) = LE16 cur 4"
    by (simp add: LE16_def ac_simps)
  with r [of 0] r [of 1] r [of 2] r [of 3] r [of 6]
  show ?thesis by (simp add: USBH_ParseEPDesc_def numeral_2_eq_2)
qed

lemma parse_itf_eq:
  assumes "at cur ds buf s" "9 \<le> length cur"
  shows "USBH_ParseInterfaceDesc old buf (sc_off s) = itf_of cur old"
proof -
  have r: "rd8 buf (sc_off s + k) = rd8 cur k" if "k < 9" for k
    using at_rd8 [OF assms(1)] assms(2) that by simp
  from r [of 0] r [of 1] r [of 2] r [of 3] r [of 4] r [of 5] r [of 6] r [of 7] r [of 8]
  show ?thesis by (simp add: USBH_ParseInterfaceDesc_def itf_of_def numeral_2_eq_2)
qed

lemma sint_small: "e < 128 \<Longrightarrow> sint (of_nat e :: u8) = int e"
  by (simp add: signed_of_nat signed_take_bit_int_eq_self)

lemma uint_of_nat_small: "unat (x :: u8) = e \<Longrightarrow> uint x = int e"
  by auto

lemma at_next_read:
  assumes "at cur (d # ds) buf s"
  shows "sc_read buf 2 (USBH_GetNextDesc buf s) = USBH_GetNextDesc buf s"
  using at_read [OF at_next(1) [OF assms], of 2] wf_descD(1) [OF at_wf [OF at_next(1) [OF assms]]]
  by simp

text \<open>Replacing the endpoint table of interface \<open>i\<close>.\<close>

definition eps_of :: "nat \<Rightarrow> USBH_CfgDescTypeDef \<Rightarrow> USBH_EpDescTypeDef list" where
  "eps_of i c = Ep_Desc (Itf_Desc c ! i)"

definition with_eps :: "nat \<Rightarrow> USBH_EpDescTypeDef list \<Rightarrow> USBH_CfgDescTypeDef \<Rightarrow> USBH_CfgDescTypeDef" where
  "with_eps i eps c = c\<lparr>Itf_Desc := (Itf_Desc c)[i := (Itf_Desc c ! i)\<lparr>Ep_Desc := eps\<rparr>]\<rparr>"

lemma with_eps_id [simp]: "with_eps i (eps_of i c) c = c"
  by (simp add: with_eps_def eps_of_def)

lemma with_eps_twice [simp]:
  "i < length (Itf_Desc c) \<Longrightarrow> with_eps i a (with_eps i b c) = with_eps i a c"
  by (simp add: with_eps_def)

lemma eps_of_with [simp]: "i < length (Itf_Desc c) \<Longrightarrow> eps_of i (with_eps i a c) = a"
  by (simp add: with_eps_def eps_of_def)

lemma with_eps_frame [simp]:
  "length (Itf_Desc (with_eps i a c)) = length (Itf_Desc c)"
  "wTotalLength (with_eps i a c) = wTotalLength c"
  by (simp_all add: with_eps_def)

lemma bNumEndpoints_with_eps [simp]:
  "i < length (Itf_Desc c) \<Longrightarrow> bNumEndpoints (Itf_Desc (with_eps i a c) ! i) = bNumEndpoints (Itf_Desc c ! i)"
  by (simp add: with_eps_def)

lemma set_ep_small:
  assumes "e < 8" "length (eps_of i (sc_cfg s)) = 8"
  shows "set_ep i (of_nat e) d s = s\<lparr>sc_cfg := with_eps i ((eps_of i (sc_cfg s))[e := d]) (sc_cfg s)\<rparr>"
  using assms by (simp add: set_ep_def sint_small cur_itf_def eps_of_def with_eps_def set_itf_def)

lemma at_cfg: "wTotalLength c = wTotalLength (sc_cfg s) \<Longrightarrow> at cur ds buf (s\<lparr>sc_cfg := c\<rparr>) = at cur ds buf s"
  by (simp add: at_def)

lemma ep_step_spec:
  assumes "at cur (d # ds) buf s"
  shows "ep_step buf i e s = (if rd8 d 1 = 5
      then (e + 1, set_ep i e (USBH_ParseEPDesc d 0) (USBH_GetNextDesc buf s))
      else (e, USBH_GetNextDesc buf s))"
proof (cases "rd8 d 1 = 5")
  case True
  note a1 = at_next(1) [OF assms]
  from True wf_descD(4) [OF at_wf [OF a1]] have l: "7 \<le> length d" by blast
  show ?thesis
    unfolding ep_step_def at_next_read [OF assms] Let_def at_type [OF a1]
      at_read [OF a1 l] parse_ep_eq [OF a1 l]
    using True by simp
next
  case False
  then show ?thesis
    unfolding ep_step_def at_next_read [OF assms] Let_def at_type [OF at_next(1) [OF assms]] by simp
qed

lemma ep_loop_unfold:
  assumes "at cur ds buf s" "e < 128"
  shows "ep_loop buf i (of_nat e) s =
    (if e < unat (bNumEndpoints (Itf_Desc (sc_cfg s) ! i)) \<and> ds \<noteq> []
     then ep_loop buf i (fst (ep_step buf i (of_nat e) s)) (snd (ep_step buf i (of_nat e) s))
     else Some s)"
proof -
  have "sint (of_nat e :: u8) < uint (bNumEndpoints (cur_itf i s))
      \<longleftrightarrow> e < unat (bNumEndpoints (Itf_Desc (sc_cfg s) ! i))"
    using assms(2) uint_of_nat_small [OF refl, of "bNumEndpoints (cur_itf i s)"]
    by (simp only: sint_small cur_itf_def of_nat_less_iff)
  then show ?thesis
    by (subst ep_loop.simps) (simp only: at_guard [OF assms(1)])
qed

lemma overlay_Cons:
  assumes "e < length xs"
  shows "take e xs @ overlay (d # es) (drop e xs) = take (Suc e) (xs[e := d]) @ overlay es (drop (Suc e) (xs[e := d]))"
  using assms by (simp add: overlay_def take_Suc_conv_app_nth add.commute)

lemma ep_loop_spec:
  assumes "at cur ds buf s" "e + n = unat (bNumEndpoints (Itf_Desc (sc_cfg s) ! i))" "e + n \<le> 8"
    and "length (eps_of i (sc_cfg s)) = 8" "i < length (Itf_Desc (sc_cfg s))"
  shows "\<exists>s' cur'. ep_loop buf i (of_nat e) s = Some s' \<and> sc_faults s' = sc_faults s
     \<and> at cur' (snd (spec_eps n ds)) buf s'
     \<and> sc_cfg s' = with_eps i (take e (eps_of i (sc_cfg s)) @ overlay (fst (spec_eps n ds))
              (drop e (eps_of i (sc_cfg s)))) (sc_cfg s)"
  using assms
proof (induction ds arbitrary: cur n e s)
  case Nil
  then have "e < 128" by simp
  from ep_loop_unfold [OF Nil.prems(1) this] Nil.prems(1) show ?case
    by (auto simp: overlay_def)
next
  case (Cons d ds)
  note a1 = at_next(1) [OF Cons.prems(1)] and f1 = at_next(2,3) [OF Cons.prems(1)]
  let ?s1 = "USBH_GetNextDesc buf s"
  from Cons.prems have e8: "e < 128" by simp
  show ?case
  proof (cases "n = 0")
    case True
    with Cons.prems ep_loop_unfold [OF Cons.prems(1) e8, of i] show ?thesis
      by (auto simp: overlay_def)
  next
    case False
    then have u: "ep_loop buf i (of_nat e) s
        = ep_loop buf i (fst (ep_step buf i (of_nat e) s)) (snd (ep_step buf i (of_nat e) s))"
      using Cons.prems(2) ep_loop_unfold [OF Cons.prems(1) e8, of i] by simp
    show ?thesis
    proof (cases "rd8 d 1 = 5")
      case True
      let ?s2 = "set_ep i (of_nat e) (USBH_ParseEPDesc d 0) ?s1"
      have s2: "?s2 = ?s1\<lparr>sc_cfg := with_eps i ((eps_of i (sc_cfg s))[e := USBH_ParseEPDesc d 0]) (sc_cfg s)\<rparr>"
        using set_ep_small [of e i ?s1 "USBH_ParseEPDesc d 0"] Cons.prems(3,4) False f1(2) by simp
      have a2: "at d ds buf ?s2" using a1 f1(2) by (simp add: s2 at_cfg)
      have "\<exists>s' cur'. ep_loop buf i (of_nat (Suc e)) ?s2 = Some s' \<and> sc_faults s' = sc_faults ?s2
         \<and> at cur' (snd (spec_eps (n - 1) ds)) buf s'
         \<and> sc_cfg s' = with_eps i (take (Suc e) (eps_of i (sc_cfg ?s2)) @ overlay (fst (spec_eps (n - 1) ds))
              (drop (Suc e) (eps_of i (sc_cfg ?s2)))) (sc_cfg ?s2)"
        by (rule Cons.IH [OF a2]) (use Cons.prems False in \<open>simp_all add: s2\<close>)
      with True False Cons.prems u s2 f1 show ?thesis
        by (auto simp: ep_step_spec [OF Cons.prems(1)] case_prod_beta Let_def overlay_Cons add.commute)
    next
      case c: False
      have "\<exists>s' cur'. ep_loop buf i (of_nat e) ?s1 = Some s' \<and> sc_faults s' = sc_faults ?s1
         \<and> at cur' (snd (spec_eps n ds)) buf s'
         \<and> sc_cfg s' = with_eps i (take e (eps_of i (sc_cfg ?s1)) @ overlay (fst (spec_eps n ds))
              (drop e (eps_of i (sc_cfg ?s1)))) (sc_cfg ?s1)"
        by (rule Cons.IH [OF a1]) (use Cons.prems f1 in simp_all)
      with c False u f1 show ?thesis
        by (auto simp: ep_step_spec [OF Cons.prems(1)])
    qed
  qed
qed

definition wf_table :: "USBH_CfgDescTypeDef \<Rightarrow> bool" where
  "wf_table c \<longleftrightarrow> length (Itf_Desc c) = USBH_MAX_NUM_INTERFACES
     \<and> (\<forall>d \<in> set (Itf_Desc c). length (Ep_Desc d) = USBH_MAX_NUM_ENDPOINTS)"

lemma itf_loop_unfold:
  assumes "at cur ds buf s"
  shows "itf_loop buf i s =
    (if i < 2 \<and> ds \<noteq> []
     then let s1 = sc_read buf 2 (USBH_GetNextDesc buf s)
          in if cur_type buf s1 = USB_DESC_TYPE_INTERFACE
             then Option.bind (ep_loop buf i 0 (set_itf i (USBH_ParseInterfaceDesc
               (cur_itf i (sc_read buf 9 s1)) buf (sc_off (sc_read buf 9 s1))) (sc_read buf 9 s1)))
               (itf_loop buf (i + 1))
             else itf_loop buf i s1
     else Some s)"
  by (subst itf_loop.simps) (simp only: at_guard [OF assms] Let_def)

lemma spec_eps_set: "set (snd (spec_eps n ds)) \<subseteq> set ds"
  by (induction ds arbitrary: n) (auto simp: case_prod_beta Let_def split: if_splits)

lemma itf_loop_spec:
  assumes "at cur ds buf s" "i \<le> 2" "wf_table (sc_cfg s)"
  shows "\<exists>s'. itf_loop buf i s = Some s' \<and> sc_faults s' = sc_faults s
     \<and> sc_cfg s' = (sc_cfg s)\<lparr>Itf_Desc := take i (Itf_Desc (sc_cfg s))
           @ spec_itfs (drop i (Itf_Desc (sc_cfg s))) ds\<rparr>"
  using assms
proof (induction "length ds" arbitrary: cur ds i s rule: less_induct)
  case less
  let ?I = "Itf_Desc (sc_cfg s)"
  from less.prems(3) have l2: "length ?I = 2" by (simp add: wf_table_def)
  show ?case
  proof (cases "i < 2 \<and> ds \<noteq> []")
    case False
    then have "take i ?I @ spec_itfs (drop i ?I) ds = ?I"
      using l2 less.prems(2) by (cases ds; cases "drop i ?I") (auto simp: append_eq_conv_conj)
    with False itf_loop_unfold [OF less.prems(1), of i] show ?thesis by auto
  next
    case True
    then obtain d r where ds: "ds = d # r" by (cases ds) auto
    from True l2 have dr: "drop i ?I = ?I ! i # drop (Suc i) ?I" by (simp add: Cons_nth_drop_Suc)
    let ?s1 = "USBH_GetNextDesc buf s"
    from less.prems(1) have a0: "at cur (d # r) buf s" by (simp add: ds)
    note a1 = at_next(1) [OF a0] and f1 = at_next(2,3) [OF a0]
    show ?thesis
    proof (cases "rd8 d 1 = 4")
      case False
      then have u: "itf_loop buf i s = itf_loop buf i ?s1"
        using True at_type [OF a1]
        by (simp add: itf_loop_unfold [OF less.prems(1), of i] at_next_read [OF a0])
      have "\<exists>s'. itf_loop buf i ?s1 = Some s' \<and> sc_faults s' = sc_faults ?s1
         \<and> sc_cfg s' = (sc_cfg ?s1)\<lparr>Itf_Desc := take i (Itf_Desc (sc_cfg ?s1))
           @ spec_itfs (drop i (Itf_Desc (sc_cfg ?s1))) r\<rparr>"
        by (rule less.hyps [OF _ a1]) (use less.prems ds f1 in simp_all)
      with False u f1 dr ds show ?thesis by simp
    next
      case itf: True
      let ?d = "itf_of d (?I ! i)"
      let ?s2 = "set_itf i ?d ?s1"
      from wf_descD(2,3) [OF at_wf [OF a1]] itf have l9: "length d = 9" "unat (rd8 d 4) \<le> 8" by blast+
      have u: "itf_loop buf i s = Option.bind (ep_loop buf i 0 ?s2) (itf_loop buf (i + 1))"
        using True itf at_type [OF a1] parse_itf_eq [OF a1] at_read [OF a1, of 9] l9 f1
        by (simp add: itf_loop_unfold [OF less.prems(1), of i] at_next_read [OF a0] cur_itf_def)
      have c2: "Itf_Desc (sc_cfg ?s2) = ?I[i := ?d]" "wTotalLength (sc_cfg ?s2) = wTotalLength (sc_cfg s)"
        "sc_faults ?s2 = sc_faults s" "sc_cfg ?s2 = (sc_cfg s)\<lparr>Itf_Desc := ?I[i := ?d]\<rparr>"
        using f1 by (simp_all add: set_itf_def)
      have e: "Ep_Desc ?d = Ep_Desc (?I ! i)" "length (Ep_Desc ?d) = 8" "bNumEndpoints ?d = rd8 d 4"
        using less.prems(3) True l2
        by (simp_all add: itf_of_def USBH_ParseInterfaceDesc_def wf_table_def)
      have "\<exists>s' cur'. ep_loop buf i (of_nat 0) ?s2 = Some s' \<and> sc_faults s' = sc_faults ?s2
         \<and> at cur' (snd (spec_eps (unat (bNumEndpoints ?d)) r)) buf s'
         \<and> sc_cfg s' = with_eps i (take 0 (eps_of i (sc_cfg ?s2))
              @ overlay (fst (spec_eps (unat (bNumEndpoints ?d)) r)) (drop 0 (eps_of i (sc_cfg ?s2)))) (sc_cfg ?s2)"
        by (rule ep_loop_spec [of d]) (use a1 l9 e True l2 in \<open>simp_all add: c2 eps_of_def\<close>)
      then obtain s3 cur' where s3: "ep_loop buf i 0 ?s2 = Some s3" "sc_faults s3 = sc_faults s"
        and a3: "at cur' (snd (spec_eps (unat (bNumEndpoints ?d)) r)) buf s3"
        and c3: "sc_cfg s3 = with_eps i (overlay (fst (spec_eps (unat (bNumEndpoints ?d)) r)) (Ep_Desc ?d)) (sc_cfg ?s2)"
        using True l2 by (auto simp: c2 eps_of_def)
      let ?D = "?d\<lparr>Ep_Desc := overlay (fst (spec_eps (unat (bNumEndpoints ?d)) r)) (Ep_Desc ?d)\<rparr>"
      have c3': "sc_cfg s3 = (sc_cfg s)\<lparr>Itf_Desc := ?I[i := ?D]\<rparr>"
        using True l2 by (simp add: c3 c2 with_eps_def)
      have "length (overlay (fst (spec_eps (unat (bNumEndpoints ?d)) r)) (Ep_Desc ?d)) = 8"
        using spec_eps_bound [of "unat (bNumEndpoints ?d)" r] l9 e by (simp add: overlay_def)
      then have w3: "wf_table (sc_cfg s3)"
        using less.prems(3) True l2 set_update_subset_insert [of ?I i ?D]
        by (auto simp: c3' wf_table_def)
      have "\<exists>s'. itf_loop buf (i + 1) s3 = Some s' \<and> sc_faults s' = sc_faults s3
         \<and> sc_cfg s' = (sc_cfg s3)\<lparr>Itf_Desc := take (i + 1) (Itf_Desc (sc_cfg s3))
           @ spec_itfs (drop (i + 1) (Itf_Desc (sc_cfg s3))) (snd (spec_eps (unat (bNumEndpoints ?d)) r))\<rparr>"
        by (rule less.hyps [OF _ a3])
          (use True w3 ds spec_eps_length [of "unat (bNumEndpoints ?d)" r] in simp_all)
      with u s3 itf dr ds c3' True l2 show ?thesis
        by (auto simp: case_prod_beta Let_def take_Suc_conv_app_nth)
    qed
  qed
qed

section \<open>Properties of the configuration parser\<close>

lemma parse_cfg_header_Itf: "Itf_Desc (parse_cfg_header old buf) = Itf_Desc old"
  by (simp add: parse_cfg_header_def)

lemma parse_cfg_refines:
  assumes "wf_descs (hdr # ds)" and "length hdr = 9"
    and "LE16 hdr 2 = of_nat (length (concat (hdr # ds)))" and "length (concat (hdr # ds)) < 60000"
    and "wf_table old" and "9 < len"
  shows "USBH_ParseCfgDesc old (concat (hdr # ds) @ rest) len
     = Some ((parse_cfg_header old hdr)\<lparr>Itf_Desc := spec_itfs (Itf_Desc old) ds\<rparr>, [])"
proof -
  let ?buf = "concat (hdr # ds) @ rest"
  have r: "rd8 ?buf k = rd8 hdr k" if "k < 9" for k using that assms(2) by simp
  have "LE16 ?buf 2 = LE16 hdr 2" using r [of 2] r [of 3] by (simp add: LE16_def)
  with r [of 0] r [of 1] r [of 4] r [of 5] r [of 6] r [of 7] r [of 8]
  have h: "parse_cfg_header old ?buf = parse_cfg_header old hdr"
    by (simp add: parse_cfg_header_def)
  let ?s = "\<lparr>sc_off = 0, sc_ptr = 9, sc_cfg = parse_cfg_header old hdr, sc_faults = []\<rparr>"
  have a: "at hdr ds ?buf ?s"
    unfolding at_def using assms by (intro exI [of _ "[]"] exI [of _ rest]) (simp add: parse_cfg_header_def)
  have "wf_table (sc_cfg ?s)" using assms(5) by (simp add: parse_cfg_header_def wf_table_def)
  from itf_loop_spec [OF a _ this, of 0] obtain s' where "itf_loop ?buf 0 ?s = Some s'"
    "sc_faults s' = []"
    "sc_cfg s' = (parse_cfg_header old hdr)\<lparr>Itf_Desc := spec_itfs (Itf_Desc old) ds\<rparr>"
    by (auto simp: parse_cfg_header_Itf)
  with at_read [OF a, of 9] assms(2,6) show ?thesis
    unfolding USBH_ParseCfgDesc_def h by (simp del: concat.simps)
qed

text \<open>
  C17: On a configuration that is a list of well-formed descriptors (any class-specific ones between
  interfaces and endpoints, at most eight endpoints per interface), followed by any bytes, the
  parser ends, stays inside the buffer and the tables, and returns the header fields with exactly
  the interfaces and endpoints of the abstract view; table entries beyond them keep their old
  contents.
\<close>

theorem cfg_desc_refinement:
  assumes "wf_descs (hdr # ds)" and "length hdr = 9"
    and "LE16 hdr 2 = of_nat (length (concat (hdr # ds)))" and "length (concat (hdr # ds)) < 60000"
    and "wf_table old" and "9 < len"
  shows "USBH_ParseCfgDesc old (concat (hdr # ds) @ rest) len
     = Some ((parse_cfg_header old hdr)\<lparr>Itf_Desc := spec_itfs (Itf_Desc old) ds\<rparr>, [])"
  using parse_cfg_refines [OF assms] .

definition enc_ep :: "USBH_EpDescTypeDef \<Rightarrow> u8 list" where
  "enc_ep e = [ep_bLength e, ep_bDescriptorType e, bEndpointAddress e, ep_bmAttributes e,
     lo8 (wMaxPacketSize e), hi8 (wMaxPacketSize e), bInterval e]"

definition enc_itf :: "USBH_InterfaceDescTypeDef \<Rightarrow> u8 list" where
  "enc_itf d = [itf_bLength d, itf_bDescriptorType d, bInterfaceNumber d, bAlternateSetting d,
     bNumEndpoints d, bInterfaceClass d, bInterfaceSubClass d, bInterfaceProtocol d, iInterface d]"

definition enc_itfs :: "(USBH_InterfaceDescTypeDef \<times> USBH_EpDescTypeDef list) list \<Rightarrow> u8 list list" where
  "enc_itfs is = concat (map (\<lambda>(d, es). enc_itf d # map enc_ep es) is)"

definition wf_itf :: "USBH_InterfaceDescTypeDef \<times> USBH_EpDescTypeDef list \<Rightarrow> bool" where
  "wf_itf p \<longleftrightarrow> itf_bLength (fst p) = 9 \<and> itf_bDescriptorType (fst p) = USB_DESC_TYPE_INTERFACE
     \<and> unat (bNumEndpoints (fst p)) = length (snd p) \<and> length (snd p) \<le> USBH_MAX_NUM_ENDPOINTS
     \<and> length (Ep_Desc (fst p)) = USBH_MAX_NUM_ENDPOINTS
     \<and> (\<forall>e \<in> set (snd p). ep_bLength e = 7 \<and> ep_bDescriptorType e = USB_DESC_TYPE_ENDPOINT)"

lemma ep_of_enc [simp]: "USBH_ParseEPDesc (enc_ep e) 0 = e"
  by (simp add: USBH_ParseEPDesc_def enc_ep_def)

lemma itf_of_enc [simp]: "itf_of (enc_itf d) old = d\<lparr>Ep_Desc := Ep_Desc old\<rparr>"
  by (simp add: itf_of_def USBH_ParseInterfaceDesc_def enc_itf_def)

lemma spec_eps_enc:
  "\<forall>e \<in> set es. ep_bDescriptorType e = USB_DESC_TYPE_ENDPOINT \<Longrightarrow>
     spec_eps (length es) (map enc_ep es @ r) = (es, r)"
proof (induction es)
  case Nil
  then show ?case by (cases r) simp_all
next
  case (Cons e es)
  moreover have "rd8 (enc_ep e) 1 = ep_bDescriptorType e" by (simp add: enc_ep_def)
  ultimately show ?case by simp
qed

lemma enc_wf:
  "wf_itf p \<Longrightarrow> d \<in> set (enc_itf (fst p) # map enc_ep (snd p)) \<Longrightarrow> wf_desc d \<and> 7 \<le> length d \<and> length d \<le> 9"
  by (auto simp: wf_itf_def wf_desc_def enc_itf_def enc_ep_def)

lemma enc_itfs_wf: "\<forall>p \<in> set is. wf_itf p \<Longrightarrow> d \<in> set (enc_itfs is) \<Longrightarrow> wf_desc d \<and> 7 \<le> length d \<and> length d \<le> 9"
  using enc_wf by (fastforce simp: enc_itfs_def)

lemma spec_itfs_enc:
  assumes "\<forall>p \<in> set is. wf_itf p" "length is \<le> length olds"
  shows "spec_itfs olds (enc_itfs is) = overlay
     (map2 (\<lambda>(d, es) old. d\<lparr>Ep_Desc := overlay es (Ep_Desc old)\<rparr>) is olds) olds"
  using assms
proof (induction "is" arbitrary: olds)
  case Nil
  then show ?case by (cases olds) (simp_all add: enc_itfs_def overlay_def)
next
  case (Cons p ps)
  obtain d es where p: "p = (d, es)" by (cases p)
  from Cons.prems obtain old os where o: "olds = old # os" by (cases olds) auto
  have "spec_eps (unat (bNumEndpoints d)) (map enc_ep es @ enc_itfs ps) = (es, enc_itfs ps)"
    using Cons.prems(1) spec_eps_enc [of es] by (simp add: p wf_itf_def)
  moreover have "rd8 (enc_itf d) 1 = 4" using Cons.prems(1) by (simp add: enc_itf_def p wf_itf_def)
  moreover have "enc_itfs (p # ps) = enc_itf d # map enc_ep es @ enc_itfs ps"
    by (simp add: enc_itfs_def p)
  ultimately show ?case using Cons by (simp add: o p overlay_def)
qed

definition enc_cfg_header :: "USBH_CfgDescTypeDef \<Rightarrow> u8 list" where
  "enc_cfg_header c = [cfg_bLength c, cfg_bDescriptorType c, lo8 (wTotalLength c), hi8 (wTotalLength c),
     bNumInterfaces c, bConfigurationValue c, iConfiguration c, cfg_bmAttributes c, bMaxPower c]"

lemma parse_cfg_enc:
  assumes "\<forall>p \<in> set is. wf_itf p" and "length is \<le> USBH_MAX_NUM_INTERFACES"
    and "cfg_bLength c = 9" and "cfg_bDescriptorType c = 2"
    and "wTotalLength c = of_nat (length (enc_cfg_header c @ concat (enc_itfs is)))"
    and "wf_table old" and "9 < len"
  shows "USBH_ParseCfgDesc old (enc_cfg_header c @ concat (enc_itfs is) @ rest) len
     = Some (c\<lparr>Itf_Desc := overlay (map2 (\<lambda>(d, es) old. d\<lparr>Ep_Desc := overlay es (Ep_Desc old)\<rparr>)
          is (Itf_Desc old)) (Itf_Desc old)\<rparr>, [])"
proof -
  have w: "wf_desc d \<and> 7 \<le> length d \<and> length d \<le> 9" if "d \<in> set (enc_cfg_header c # enc_itfs is)" for d
    using that enc_itfs_wf [OF assms(1)] assms(3,4) by (auto simp: enc_cfg_header_def wf_desc_def)
  then have wf: "wf_descs (enc_cfg_header c # enc_itfs is)"
    unfolding wf_descs_def using last_in_set [of "enc_cfg_header c # enc_itfs is"] by blast
  have l: "length (concat (enc_itfs ps)) \<le> 65 * length ps" if "\<forall>p \<in> set ps. wf_itf p" for ps
    using that
  proof (induction ps)
    case (Cons p ps)
    have "sum_list (map (length \<circ> enc_ep) xs) = 7 * length xs" for xs
      by (induction xs) (auto simp: enc_ep_def)
    with Cons show ?case
      by (auto simp: enc_itfs_def length_concat enc_itf_def wf_itf_def case_prod_beta o_def)
  qed (simp add: enc_itfs_def)
  let ?h = "enc_cfg_header c"
  have h: "length ?h = 9" "LE16 ?h 2 = wTotalLength c"
    "parse_cfg_header old ?h = c\<lparr>Itf_Desc := Itf_Desc old\<rparr>"
    by (simp_all add: parse_cfg_header_def enc_cfg_header_def)
  have b: "length (concat (?h # enc_itfs is)) < 60000"
    using l [OF assms(1)] assms(2) h(1) by simp
  have t: "LE16 ?h 2 = of_nat (length (concat (?h # enc_itfs is)))"
    unfolding h(2) assms(5) by simp
  have "length is \<le> length (Itf_Desc old)" using assms(2,6) by (simp add: wf_table_def)
  from parse_cfg_refines [OF wf h(1) t b assms(6,7), of rest] spec_itfs_enc [OF assms(1) this]
  show ?thesis by (simp add: h(3))
qed

text \<open>
  A configuration of at most two interfaces with at most eight endpoints each, sent the way
  devices send it, is read back exactly: header, interfaces and endpoints are those of the
  device, the unused rest of the tables is unchanged, and no access leaves the buffer.
\<close>

theorem cfg_desc_roundtrip:
  assumes "\<forall>p \<in> set is. wf_itf p" and "length is \<le> USBH_MAX_NUM_INTERFACES"
    and "cfg_bLength c = 9" and "cfg_bDescriptorType c = 2"
    and "wTotalLength c = of_nat (length (enc_cfg_header c @ concat (enc_itfs is)))"
    and "wf_table old" and "9 < len"
  shows "USBH_ParseCfgDesc old (enc_cfg_header c @ concat (enc_itfs is) @ rest) len
     = Some (c\<lparr>Itf_Desc := overlay (map2 (\<lambda>(d, es) old. d\<lparr>Ep_Desc := overlay es (Ep_Desc old)\<rparr>)
          is (Itf_Desc old)) (Itf_Desc old)\<rparr>, [])"
  using parse_cfg_enc [OF assms] .

section \<open>Configurations the walk never finishes\<close>

definition stuck :: "u8 list \<Rightarrow> nat \<Rightarrow> cfg_scan \<Rightarrow> bool" where
  "stuck buf i s \<longleftrightarrow> i < USBH_MAX_NUM_INTERFACES \<and> sc_ptr s < wTotalLength (sc_cfg s)
     \<and> rd8 buf (sc_off s) = 0 \<and> rd8 buf (sc_off s + 1) \<noteq> USB_DESC_TYPE_INTERFACE"

lemma stuck_next: "stuck buf i s \<Longrightarrow> stuck buf i (sc_read buf 2 (USBH_GetNextDesc buf s))
     \<and> cur_type buf (sc_read buf 2 (USBH_GetNextDesc buf s)) \<noteq> USB_DESC_TYPE_INTERFACE"
  by (simp add: stuck_def cur_type_def USBH_GetNextDesc_def sc_read_def sc_chk_def)

lemma itf_loop_stuck:
  assumes "itf_loop buf i s = Some r"
  shows "\<not> stuck buf i s"
proof (rule itf_loop.raw_induct [where P = "\<lambda>b j t y. \<not> stuck b j t", OF _ assms])
  fix f :: "u8 list \<Rightarrow> nat \<Rightarrow> cfg_scan \<Rightarrow> cfg_scan option" and b j t y
  let ?t1 = "sc_read b 2 (USBH_GetNextDesc b t)"
  assume ih: "\<And>b j t y. f b j t = Some y \<Longrightarrow> \<not> stuck b j t"
    and eq: "(if j < 2 \<and> sc_ptr t < wTotalLength (sc_cfg t)
        then let s = ?t1
             in if cur_type b s = 4
                then let s = sc_read b 9 s;
                         s = set_itf j (USBH_ParseInterfaceDesc (cur_itf j s) b (sc_off s)) s
                     in Option.bind (ep_loop b j 0 s) (f b (j + 1))
                else f b j s
        else Some t) = Some y"
  show "\<not> stuck b j t"
  proof
    assume s: "stuck b j t"
    then have "j < 2" "sc_ptr t < wTotalLength (sc_cfg t)" by (simp_all add: stuck_def)
    with eq stuck_next [OF s] have "f b j ?t1 = Some y" by (simp only: Let_def if_True simp_thms if_False)
    from ih [OF this] stuck_next [OF s] show False by blast
  qed
qed

text \<open>
  C34: A descriptor of length 0 after the configuration header (not marked as an interface) makes
  \<open>USBH_ParseCfgDesc\<close> run forever, whatever follows: the walk never moves past it. A device can
  hang the host task this way.
\<close>

theorem cfg_desc_zero_length_hangs:
  assumes "9 < len" and "18 < LE16 buf 2" and "rd8 buf 0 = 9"
    and "rd8 buf 9 = 0" and "rd8 buf 10 \<noteq> USB_DESC_TYPE_INTERFACE"
  shows "USBH_ParseCfgDesc old buf len = None"
proof -
  let ?s = "sc_read buf 9 \<lparr>sc_off = 0, sc_ptr = 9, sc_cfg = parse_cfg_header old buf, sc_faults = []\<rparr>"
  let ?s1 = "sc_read buf 2 (USBH_GetNextDesc buf ?s)"
  have t: "wTotalLength (parse_cfg_header old buf) = LE16 buf 2" by (simp add: parse_cfg_header_def)
  have s1: "sc_off ?s1 = 9" "sc_ptr ?s1 = 18" "sc_cfg ?s1 = parse_cfg_header old buf"
    using assms(3) by (simp_all add: USBH_GetNextDesc_def sc_read_def sc_chk_def)
  have "(9 :: u16) < LE16 buf 2" using assms(2) by (rule order.strict_trans [rotated]) simp
  moreover have "sc_ptr ?s = 9" "sc_cfg ?s = parse_cfg_header old buf"
    by (simp_all add: sc_read_def sc_chk_def)
  ultimately have "itf_loop buf 0 ?s = itf_loop buf 0 ?s1"
    using assms(5) s1 t by (subst itf_loop.simps) (simp add: Let_def cur_type_def)
  moreover have "itf_loop buf 0 ?s1 = None"
    using itf_loop_stuck [of buf 0 ?s1] s1 t assms
    by (cases "itf_loop buf 0 ?s1") (auto simp: stuck_def)
  ultimately show ?thesis using assms(1) by (simp add: USBH_ParseCfgDesc_def Let_def)
qed

section \<open>String descriptors\<close>

definition copied :: "nat \<Rightarrow> nat \<Rightarrow> u8 list \<Rightarrow> u8 list \<Rightarrow> bool" where
  "copied k K mem mem' \<longleftrightarrow> length mem' = length mem
     \<and> (\<forall>j. rd8 mem' j = (if k \<le> j \<and> j < K then rd8 mem (2 + 2 * j) else rd8 mem j))"

lemma rd8_update: "i < length mem \<Longrightarrow> rd8 (mem[i := v]) j = (if j = i then v else rd8 mem j)"
  by (simp add: rd8_def)

lemma string_loop_copies:
  assumes "n \<le> 253" "2 + n \<le> length mem" "k \<le> (n + 1) div 2"
  shows "\<exists>mem'. string_loop (of_nat n) (of_nat (2 * k)) 2 k (mem, f) = Some ((n + 1) div 2, mem', f)
     \<and> copied k ((n + 1) div 2) mem mem'"
  using assms
proof (induction "(n + 1) div 2 - k" arbitrary: k mem)
  case 0
  then have k: "k = (n + 1) div 2" by simp
  then have "\<not> (of_nat (2 * k) :: u16) < of_nat n" using "0.prems"
    by (simp add: word_less_nat_alt unat_of_nat del: of_nat_mult)
  then show ?case
    by (subst string_loop.simps) (auto simp: k copied_def)
next
  case (Suc d)
  then have k: "2 * k < n" by simp
  then have g: "(of_nat (2 * k) :: u16) < of_nat n" and u: "unat (of_nat (2 * k) :: u16) = 2 * k"
    using Suc.prems by (simp_all add: word_less_nat_alt unat_of_nat del: of_nat_mult)
  let ?mem = "mem[k := rd8 mem (2 + 2 * k)]"
  have step: "string_loop (of_nat n) (of_nat (2 * k)) 2 k (mem, f)
      = string_loop (of_nat n) (of_nat (2 * Suc k)) 2 (Suc k) (?mem, f)"
    using g u k Suc.prems
    by (subst string_loop.simps) (simp add: get8_def put8_def Let_def add.commute)
  have "\<exists>mem'. string_loop (of_nat n) (of_nat (2 * Suc k)) 2 (Suc k) (?mem, f)
        = Some ((n + 1) div 2, mem', f) \<and> copied (Suc k) ((n + 1) div 2) ?mem mem'"
    by (rule Suc.hyps(1)) (use Suc.hyps(2) Suc.prems k in simp_all)
  then obtain mem' where
    "string_loop (of_nat n) (of_nat (2 * Suc k)) 2 (Suc k) (?mem, f) = Some ((n + 1) div 2, mem', f)"
    and c: "copied (Suc k) ((n + 1) div 2) ?mem mem'"
    by blast
  moreover have "copied k ((n + 1) div 2) mem mem'"
    using c k Suc.prems by (auto simp: copied_def rd8_update Suc_le_eq)
  ultimately show ?case using step by auto
qed

lemma string_length_min:
  assumes "2 \<le> unat b0"
  shows "string_length b0 len = of_nat (min (unat b0 - 2) (unat len))"
proof -
  define a l where "a = unat b0" and "l = unat len"
  then have e: "uint b0 = int a" "uint len = int l" and l: "len = of_nat l" by simp_all
  have "int a - 2 = int (a - 2)" using assms by (simp add: a_def of_nat_diff)
  then show ?thesis
    unfolding string_length_def e a_def [symmetric] l_def [symmetric]
    by (simp only: of_nat_le_iff of_int_of_nat_eq) (simp add: min_def l)
qed

lemma parse_string:
  assumes "rd8 mem 1 = USB_DESC_TYPE_STRING" and "2 \<le> unat (rd8 mem 0)"
    and "n = min (unat (rd8 mem 0) - 2) (unat len)" and "2 + n \<le> length mem"
  shows "\<exists>mem'. USBH_ParseStringDesc 0 0 len (mem, f) = Some (mem', f) \<and> length mem' = length mem
     \<and> (\<forall>j < (n + 1) div 2. rd8 mem' j = rd8 mem (2 + 2 * j)) \<and> rd8 mem' ((n + 1) div 2) = 0"
proof -
  have "unat (rd8 mem 0) < 256" by (rule u8_bound)
  then have n: "n \<le> 253" using assms(3) by simp
  from string_loop_copies [OF this assms(4), of 0 f] obtain mem' where
    "string_loop (of_nat n) 0 2 0 (mem, f) = Some ((n + 1) div 2, mem', f)"
    and c: "copied 0 ((n + 1) div 2) mem mem'" by auto
  then have "USBH_ParseStringDesc 0 0 len (mem, f) = Some (put8 ((n + 1) div 2) 0 (mem', f))"
    using assms(1,3,4) by (auto simp: USBH_ParseStringDesc_def get8_def Let_def
      string_length_min [OF assms(2)] numeral_2_eq_2 Suc_le_eq)
  moreover have "(n + 1) div 2 < length mem'" using c assms(4) by (simp add: copied_def)
  ultimately show ?thesis
    using c by (auto simp: put8_def copied_def rd8_update)
qed

text \<open>
  A string descriptor in the buffer (type 3, length byte at least 2, content inside the buffer) is
  turned in place into its first characters, one byte per UTF-16 unit (the low one), with a closing
  0; the number of units is bounded by the length byte and by the length asked for, and every
  access stays inside the buffer although source and destination overlap.
\<close>

theorem string_desc_correct:
  assumes "rd8 mem 1 = USB_DESC_TYPE_STRING" and "2 \<le> unat (rd8 mem 0)"
    and "n = min (unat (rd8 mem 0) - 2) (unat len)" and "2 + n \<le> length mem"
  shows "\<exists>mem'. USBH_ParseStringDesc 0 0 len (mem, f) = Some (mem', f) \<and> length mem' = length mem
     \<and> (\<forall>j < (n + 1) div 2. rd8 mem' j = rd8 mem (2 + 2 * j)) \<and> rd8 mem' ((n + 1) div 2) = 0"
  using parse_string [OF assms] .

lemma even_below_max:
  assumes "even (idx :: u16)"
  shows "idx < 0xFFFF"
proof -
  have "odd (0xFFFF :: u16)" by simp
  with assms have "idx \<noteq> 0xFFFF" by metis
  then have "unat idx \<noteq> 65535" by (auto simp: word_unat_eq_iff)
  moreover have "unat idx < 65536" by (rule u16_bound)
  ultimately show ?thesis by (simp add: word_less_nat_alt)
qed

lemma string_loop_hangs:
  assumes "string_loop n idx src dst m = Some r"
  shows "\<not> (n = 0xFFFF \<and> even idx)"
proof (rule string_loop.raw_induct [where P = "\<lambda>n idx src dst m r. \<not> (n = 0xFFFF \<and> even idx)", OF _ assms])
  fix f n idx src dst m r
  assume ih: "\<And>n idx src dst m r. f n idx src dst m = Some r \<Longrightarrow> \<not> (n = (0xFFFF :: u16) \<and> even (idx :: u16))"
    and eq: "(if idx < n then let (v, m) = get8 (src + unat idx) m
        in f n (idx + 2) src (dst + 1) (put8 dst v m) else Some (dst, m)) = Some r"
  show "\<not> (n = 0xFFFF \<and> even idx)"
  proof
    assume a: "n = 0xFFFF \<and> even idx"
    with even_below_max [of idx] have "idx < n" by simp
    with eq have "f n (idx + 2) src (dst + 1) (put8 dst (fst (get8 (src + unat idx) m))
        (snd (get8 (src + unat idx) m))) = Some r" by (simp add: case_prod_beta Let_def)
    from ih [OF this] a show False by simp
  qed
qed

text \<open>
  A string descriptor whose length byte is 1 makes the copy loop run forever: \<open>psrc[0]-2\<close>
  is -1, which the 16-bit length turns into 65535, and an even index is never that large.
\<close>

theorem string_desc_length_one_hangs:
  assumes "rd8 mem 0 = 1" and "rd8 mem 1 = USB_DESC_TYPE_STRING"
  shows "USBH_ParseStringDesc 0 0 len (mem, f) = None"
proof -
  have "- 1 \<le> uint len" by (rule order.trans [OF _ uint_ge_0]) simp
  then have "string_length 1 len = 0xFFFF" by (simp add: string_length_def)
  moreover have "string_loop 0xFFFF 0 2 0 m = None" for m
    using string_loop_hangs [of "0xFFFF" 0 2 0 m] by (cases "string_loop 0xFFFF 0 2 0 m") auto
  ultimately show ?thesis
    using assms by (simp add: USBH_ParseStringDesc_def get8_def Let_def numeral_2_eq_2)
qed

section \<open>Witnesses\<close>

text \<open>The configuration descriptor of a CH340 serial adapter.\<close>

definition ch340_hdr :: "u8 list" where
  "ch340_hdr = [9, 2, 39, 0, 1, 1, 0, 0x80, 0x30]"

definition ch340_descs :: "u8 list list" where
  "ch340_descs = [[9, 4, 0, 0, 3, 0xFF, 1, 2, 0], [7, 5, 0x82, 2, 32, 0, 0], [7, 5, 2, 2, 32, 0, 0],
     [7, 5, 0x81, 3, 8, 0, 1]]"

lemma wf_table_zero [simp]: "wf_table zero_cfg_desc"
  by (simp add: wf_table_def zero_cfg_desc_def zero_itf_desc_def)

lemma ch340_wf: "wf_descs (ch340_hdr # ch340_descs)"
  by (simp add: wf_descs_def wf_desc_def ch340_hdr_def ch340_descs_def)

theorem cfg_desc_refinement_witness:
  "USBH_ParseCfgDesc zero_cfg_desc (concat (ch340_hdr # ch340_descs) @ replicate 473 0) 39
     = Some ((parse_cfg_header zero_cfg_desc ch340_hdr)
          \<lparr>Itf_Desc := spec_itfs (Itf_Desc zero_cfg_desc) ch340_descs\<rparr>, [])"
proof (rule cfg_desc_refinement [OF ch340_wf])
  show "LE16 ch340_hdr 2 = of_nat (length (concat (ch340_hdr # ch340_descs)))"
    by (simp add: ch340_hdr_def ch340_descs_def LE16_def)
qed (simp_all add: ch340_hdr_def ch340_descs_def)

definition ch340_itf :: "USBH_InterfaceDescTypeDef \<times> USBH_EpDescTypeDef list" where
  "ch340_itf = (zero_itf_desc\<lparr>itf_bLength := 9, itf_bDescriptorType := 4, bNumEndpoints := 1,
       bInterfaceClass := 0xFF\<rparr>,
     [zero_ep_desc\<lparr>ep_bLength := 7, ep_bDescriptorType := 5, bEndpointAddress := 0x82,
       wMaxPacketSize := 32\<rparr>])"

theorem cfg_desc_roundtrip_witness:
  "\<exists>c. USBH_ParseCfgDesc zero_cfg_desc (enc_cfg_header (zero_cfg_desc\<lparr>cfg_bLength := 9,
        cfg_bDescriptorType := 2, wTotalLength := 25\<rparr>) @ concat (enc_itfs [ch340_itf]) @ []) 25
      = Some (c, []) \<and> wMaxPacketSize (Ep_Desc (Itf_Desc c ! 0) ! 0) = 32"
proof -
  let ?c = "zero_cfg_desc\<lparr>cfg_bLength := 9, cfg_bDescriptorType := 2, wTotalLength := 25\<rparr>"
  have 1: "\<forall>p \<in> set [ch340_itf]. wf_itf p"
    by (simp add: ch340_itf_def wf_itf_def zero_itf_desc_def)
  have 2: "wTotalLength ?c = of_nat (length (enc_cfg_header ?c @ concat (enc_itfs [ch340_itf])))"
    by (simp add: enc_cfg_header_def enc_itfs_def enc_itf_def enc_ep_def ch340_itf_def)
  have 3: "(9 :: u16) < 25" by simp
  show ?thesis
    by (intro exI conjI, rule cfg_desc_roundtrip [OF 1 _ _ _ 2 wf_table_zero 3, of "[]"])
      (simp_all add: ch340_itf_def overlay_def zero_cfg_desc_def numeral_2_eq_2)
qed

theorem cfg_desc_zero_length_hangs_witness:
  "USBH_ParseCfgDesc zero_cfg_desc (ch340_hdr @ [0, 0x21] @ replicate 501 0) 39 = None"
  by (rule cfg_desc_zero_length_hangs) (simp_all add: ch340_hdr_def LE16_def)

theorem string_desc_correct_witness:
  "\<exists>mem'. USBH_ParseStringDesc 0 0 255 ([6, 3, 85, 0, 66, 0], []) = Some (mem', [])
     \<and> rd8 mem' 0 = 85 \<and> rd8 mem' 1 = 66 \<and> rd8 mem' 2 = 0"
  using string_desc_correct [of "[6, 3, 85, 0, 66, 0]" 4 255 "[]"] by fastforce

theorem string_desc_length_one_hangs_witness:
  "USBH_ParseStringDesc 0 0 255 ([1, 3, 85, 0], []) = None"
  by (rule string_desc_length_one_hangs) simp_all

end
