(* ===== verification/Usb_CtlReq_Props.thy ===== *)
theory Usb_CtlReq_Props
  imports Usb_CtlReq Usb_Hcd_Props Usb_Desc_Props
begin

text \<open>
  Control transfers against an environment. A caller repeats a request until it is no longer busy
  (\<open>run_req\<close>). The locale \<open>bus\<close> says what interrupts between the calls may not disturb;
  \<open>reliable_bus\<close>, \<open>failing_bus\<close> and \<open>stalling_bus\<close> add how the device answers. Each is interpreted
  on the channel interrupt handlers of the HCD driver.
\<close>

section \<open>Callers and the trace of calls\<close>

primrec run_req :: "nat \<Rightarrow> (usb \<Rightarrow> USBH_StatusTypeDef \<times> usb) \<Rightarrow> usb \<Rightarrow> USBH_StatusTypeDef \<times> usb" where
  "run_req 0 f w = (USBH_BUSY, w)"
| "run_req (Suc k) f w =
    (let (s, w') = f w in if s = USBH_BUSY then run_req k f w' else (s, w'))"

lemma run_req_busy: "f w = (USBH_BUSY, w') \<Longrightarrow> run_req (Suc k) f w = run_req k f w'"
  by simp

lemma run_req_done: "f w = (s, w') \<Longrightarrow> s \<noteq> USBH_BUSY \<Longrightarrow> run_req (Suc k) f w = (s, w')"
  by simp

text \<open>
  The calls of the library proper: all that leaves it except the channel halts of the interrupt
  handlers and waiting.
\<close>

fun visible :: "hal_call \<Rightarrow> bool" where
  "visible (HCD_Halt _) = False"
| "visible (Delay _) = False"
| "visible _ = True"

definition trace :: "usb \<Rightarrow> hal_call list" where
  "trace w = filter visible (outs w)"

lemma trace_frame [simp]:
  "trace (upd_host p f w) = trace w" "trace (chk b x w) = trace w" "trace (osMessagePut e w) = trace w"
  "trace (out c w) = trace w @ (if visible c then [c] else [])"
  by (simp_all add: trace_def)

definition std_request ::
  "(usb \<Rightarrow> usb) \<Rightarrow> ptr \<Rightarrow> USB_Setup_TypeDef \<Rightarrow> buf_ptr \<Rightarrow> u16 \<Rightarrow> usb \<Rightarrow> USBH_StatusTypeDef \<times> usb" where
  "std_request E p s b n w = USBH_CtlReq E p b n
     (fill_setup p (bmRequestType s) (bRequest s) (wValue s) (wIndex s) (wLength s) w)"

lemma requests_are_std:
  "USBH_GetDescriptor E p rt v b n = std_request E p \<lparr>bmRequestType = USB_D2H OR rt,
     bRequest = USB_REQ_GET_DESCRIPTOR, wValue = v,
     wIndex = (if v AND 0xff00 = USB_DESC_STRING then 0x0409 else 0), wLength = n\<rparr> b n"
  "USBH_SetAddress E p a = std_request E p \<lparr>bmRequestType = 0, bRequest = USB_REQ_SET_ADDRESS,
     wValue = ucast a, wIndex = 0, wLength = 0\<rparr> BNull 0"
  "USBH_SetCfg E p c = std_request E p \<lparr>bmRequestType = 0, bRequest = USB_REQ_SET_CONFIGURATION,
     wValue = c, wIndex = 0, wLength = 0\<rparr> BNull 0"
  by (rule ext, simp add: std_request_def USBH_GetDescriptor_def USBH_SetAddress_def USBH_SetCfg_def)+

section \<open>A handle that can make requests\<close>

definition request_ready :: "ptr \<Rightarrow> usb \<Rightarrow> bool" where
  "request_ready p w \<longleftrightarrow> p \<noteq> NULL \<and> pData (hosts w p) \<noteq> NULL
     \<and> is_connected (device (hosts w p)) \<noteq> 0 \<and> pipes_ok p w
     \<and> unat (pipe_in (ctl p w)) \<in> pipes_used p w \<and> unat (pipe_out (ctl p w)) \<in> pipes_used p w
     \<and> length (hc w) = HC_COUNT \<and> pData (hosts w (root_of w p)) \<noteq> NULL"

lemma climb_cong:
  "(\<And>q. parent (hosts w' q) = parent (hosts w q)) \<Longrightarrow> climb n w' q = climb n w q"
  by (induction n arbitrary: q) simp_all

lemma root_of_cong:
  "(\<And>q. parent (hosts w' q) = parent (hosts w q)) \<Longrightarrow> alive w' = alive w \<Longrightarrow> root_of w' q = root_of w q"
  unfolding root_of_def by (metis climb_cong)

lemma request_ready_cong:
  assumes "\<And>q. parent (hosts w' q) = parent (hosts w q)" "\<And>q. pData (hosts w' q) = pData (hosts w q)"
    and "Pipes (hosts w' p) = Pipes (hosts w p)"
    and "is_connected (device (hosts w' p)) = is_connected (device (hosts w p))"
    and "pipe_in (ctl p w') = pipe_in (ctl p w)" "pipe_out (ctl p w') = pipe_out (ctl p w)"
    and "alive w' = alive w" "words w' = words w" "length (hc w') = length (hc w)"
  shows "request_ready p w' = request_ready p w"
proof -
  have "root_of w' p = root_of w p" by (rule root_of_cong [OF assms(1) assms(7)])
  with assms(2-) show ?thesis
    by (simp add: request_ready_def pipes_ok_def pipes_used_def pipe_word_def)
qed

lemma request_ready_frame [simp]:
  "request_ready p (set_ctl_state p st w) = request_ready p w"
  "request_ready p (set_request p r w) = request_ready p w"
  "request_ready p (stamp_timer p w) = request_ready p w"
  "request_ready p (osMessagePut e w) = request_ready p w"
  "request_ready p (out c w) = request_ready p w"
  "request_ready p (HAL_HCD_HC_SubmitRequest ch d t k b n g w) = request_ready p w"
  "request_ready p (fill_setup p rt rq v ix len w) = request_ready p w"
  by (rule request_ready_cong; simp add: set_ctl_state_def set_request_def stamp_timer_def fill_setup_def)+

lemma request_readyD:
  assumes "request_ready p w"
  shows "p \<noteq> NULL" "pData (hosts w p) \<noteq> NULL" "is_connected (device (hosts w p)) \<noteq> 0"
    and "unat (pipe_in (ctl p w)) < length (hc w)" "unat (pipe_out (ctl p w)) < length (hc w)"
    and "pipes_allocated p w = (True, w)" "chk_hcd (root_of w p) w = w"
  using assms
  by (auto simp: request_ready_def pipes_used_def pipes_allocated_def read_pipe_def pipes_ok_def
      Let_def chk_hcd_def)

section \<open>The environment\<close>

locale bus =
  fixes E :: "usb \<Rightarrow> usb" and p :: ptr
  assumes bus_ready: "request_ready p w \<Longrightarrow> request_ready p (E w)"
    and bus_ctl: "request_ready p w \<Longrightarrow> Control (hosts (E w) p) = Control (hosts w p)"
    and bus_request: "request_ready p w \<Longrightarrow> RequestState (hosts (E w) p) = RequestState (hosts w p)"
    and bus_static: "request_ready p w \<Longrightarrow> pUser (hosts (E w) p) = pUser (hosts w p)
          \<and> is_child (hosts (E w) p) = is_child (hosts w p)"
    and bus_trace: "request_ready p w \<Longrightarrow> trace (E w) = trace w"
    and bus_faults: "request_ready p w \<Longrightarrow> faults (E w) = faults w"
begin

lemma poll:
  assumes "request_ready p w" "unat ch < HC_COUNT"
  shows "USBH_LL_GetURBState E p ch w = (hc_urb_state (hc_get (E w) ch), E w)"
proof -
  from bus_ready [OF assms(1)] have r: "request_ready p (E w)" .
  then have "length (hc (E w)) = 15" by (simp add: request_ready_def)
  with request_readyD(7) [OF r] assms(2) show ?thesis
    by (simp add: USBH_LL_GetURBState_def HAL_HCD_HC_GetURBState_def Let_def)
qed

end

locale reliable_bus = bus +
  assumes bus_done: "request_ready p w \<Longrightarrow> unat ch < HC_COUNT \<Longrightarrow>
    hc_urb_state (hc_get (E w) ch) = USBH_URB_DONE"

locale failing_bus = bus +
  assumes bus_error: "request_ready p w \<Longrightarrow> unat ch < HC_COUNT \<Longrightarrow>
    hc_urb_state (hc_get (E w) ch) = USBH_URB_ERROR"

locale stalling_bus = bus +
  assumes bus_stall: "request_ready p w \<Longrightarrow> unat ch < HC_COUNT \<Longrightarrow>
    hc_urb_state (hc_get (E w) ch) = USBH_URB_STALL"

text \<open>A request \<open>r\<close> is at stage \<open>st\<close> of its transfer.\<close>

record ctl_request =
  rq_setup :: USB_Setup_TypeDef
  rq_buff :: buf_ptr
  rq_len :: u16
  rq_in :: u8
  rq_out :: u8
  rq_errors :: u8
  rq_user :: ptr
  rq_child :: u8

definition at_stage :: "ptr \<Rightarrow> ctl_request \<Rightarrow> CTRL_StateTypeDef \<Rightarrow> usb \<Rightarrow> bool" where
  "at_stage p r st w \<longleftrightarrow> request_ready p w \<and> RequestState (hosts w p) = CMD_WAIT
     \<and> ctl_state (ctl p w) = st \<and> ctl_setup (ctl p w) = rq_setup r \<and> ctl_buff (ctl p w) = rq_buff r
     \<and> ctl_length (ctl p w) = rq_len r \<and> pipe_in (ctl p w) = rq_in r \<and> pipe_out (ctl p w) = rq_out r
     \<and> errorcount (ctl p w) = rq_errors r \<and> pUser (hosts w p) = rq_user r
     \<and> is_child (hosts w p) = rq_child r"

text \<open>A new request can be made, and the previous one left the error count \<open>rq_errors r\<close>.\<close>

definition idle_for :: "ptr \<Rightarrow> ctl_request \<Rightarrow> usb \<Rightarrow> bool" where
  "idle_for p r w \<longleftrightarrow> request_ready p w \<and> RequestState (hosts w p) = CMD_SEND
     \<and> pipe_in (ctl p w) = rq_in r \<and> pipe_out (ctl p w) = rq_out r \<and> errorcount (ctl p w) = rq_errors r
     \<and> pUser (hosts w p) = rq_user r \<and> is_child (hosts w p) = rq_child r"

definition request :: "(usb \<Rightarrow> usb) \<Rightarrow> ptr \<Rightarrow> ctl_request \<Rightarrow> usb \<Rightarrow> USBH_StatusTypeDef \<times> usb" where
  "request E p r = std_request E p (rq_setup r) (rq_buff r) (rq_len r)"

text \<open>What a call leaves: the calls it made and no new fault.\<close>

definition sent :: "hal_call list \<Rightarrow> usb \<Rightarrow> usb \<Rightarrow> bool" where
  "sent xs w w' \<longleftrightarrow> trace w' = trace w @ xs \<and> faults w' = faults w"

lemma sent_refl [simp]: "sent [] w w"
  by (simp add: sent_def)

lemma sent_trans: "sent xs w w1 \<Longrightarrow> sent ys w1 w2 \<Longrightarrow> sent (xs @ ys) w w2"
  by (simp add: sent_def)

section \<open>One call at each stage\<close>

lemma request_first:
  assumes "idle_for p r w"
  shows "\<exists>w'. request E p r w = (USBH_BUSY, w') \<and> at_stage p r CTRL_SETUP w' \<and> sent [] w w'"
proof -
  let ?w = "fill_setup p (bmRequestType (rq_setup r)) (bRequest (rq_setup r)) (wValue (rq_setup r))
       (wIndex (rq_setup r)) (wLength (rq_setup r)) w"
  let ?w' = "osMessagePut USBH_CONTROL_EVENT (set_request p CMD_WAIT (upd_ctl p
       (\<lambda>c. c\<lparr>ctl_buff := rq_buff r, ctl_length := rq_len r, ctl_state := CTRL_SETUP\<rparr>) ?w))"
  from assms have "request_ready p ?w" by (simp add: idle_for_def)
  from request_readyD(6) [OF this] assms have "request E p r w = (USBH_BUSY, ?w')"
    by (simp add: request_def std_request_def USBH_CtlReq_def idle_for_def fill_setup_def)
  moreover have "at_stage p r CTRL_SETUP ?w'"
    using assms request_ready_cong [of ?w' w p]
    by (simp add: at_stage_def idle_for_def set_request_def fill_setup_def)
  moreover have "sent [] w ?w'"
    by (simp add: sent_def set_request_def fill_setup_def)
  ultimately show ?thesis by blast
qed

lemma request_wait:
  assumes "at_stage p r st w"
  shows "request E p r w = (case USBH_HandleControl E p w of (status, w) \<Rightarrow>
       if status = USBH_OK then (USBH_OK, set_ctl_state p CTRL_IDLE (set_request p CMD_SEND w))
       else if status = USBH_FAIL then (USBH_FAIL, set_request p CMD_SEND w)
       else (status, w))"
proof -
  have "fill_setup p rt rq v ix len w = w" for rt rq v ix len
    using assms by (simp add: fill_setup_def at_stage_def)
  with assms request_readyD(6) [of p w] show ?thesis
    by (simp add: request_def std_request_def USBH_CtlReq_def at_stage_def)
qed

lemma at_stage_set [simp]:
  "at_stage p r st (set_ctl_state p st' w) \<longleftrightarrow> st = st' \<and> at_stage p r (ctl_state (ctl p w)) w"
  unfolding at_stage_def request_ready_frame by (auto simp: set_ctl_state_def)

lemma at_stage_frame [simp]:
  "at_stage p r st (osMessagePut e w) = at_stage p r st w"
  "at_stage p r st (stamp_timer p w) = at_stage p r st w"
  "at_stage p r st (HAL_HCD_HC_SubmitRequest ch d t k b n g w) = at_stage p r st w"
  unfolding at_stage_def request_ready_frame by (simp_all add: stamp_timer_def)

lemma at_stageD:
  assumes "at_stage p r st w"
  shows "ctl_state (ctl p w) = st" "ctl_setup (ctl p w) = rq_setup r" "ctl_buff (ctl p w) = rq_buff r"
    and "ctl_length (ctl p w) = rq_len r" "pipe_in (ctl p w) = rq_in r" "pipe_out (ctl p w) = rq_out r"
    and "request_ready p w" "unat (rq_in r) < HC_COUNT" "unat (rq_out r) < HC_COUNT"
  using assms by (auto simp: at_stage_def request_ready_def pipes_used_def)

lemma submit_stage:
  assumes "at_stage p r st w" "unat ch < HC_COUNT"
  shows "at_stage p r st (snd (USBH_LL_SubmitURB p ch d t k b n g w))"
    and "sent [HC_StartXfer ch d t (hc_data_pid (submit_pid d t k n (hc_get w ch))) (payload_of w k b) n] w
           (snd (USBH_LL_SubmitURB p ch d t k b n g w))"
proof -
  from at_stageD(7) [OF assms(1)] have r: "request_ready p w" .
  have c: "unat ch < length (hc w)" using r assms(2) by (simp add: request_ready_def)
  from request_readyD(1-3) [OF r] assms(1)
  show "at_stage p r st (snd (USBH_LL_SubmitURB p ch d t k b n g w))"
    by (simp add: USBH_LL_SubmitURB_def)
  show "sent [HC_StartXfer ch d t (hc_data_pid (submit_pid d t k n (hc_get w ch))) (payload_of w k b) n] w
           (snd (USBH_LL_SubmitURB p ch d t k b n g w))"
    using submit_outs(1,3) [OF request_readyD(1-3) [OF r] c] by (simp add: sent_def trace_def)
qed

lemma submit_sent:
  assumes "at_stage p r st w" "unat ch < HC_COUNT"
    and "hc_data_pid (submit_pid d t k n (hc_get w ch)) = pid"
  shows "sent [HC_StartXfer ch d t pid (payload_of w k b) n] w (snd (USBH_LL_SubmitURB p ch d t k b n g w))"
  using submit_stage(2) [OF assms(1,2)] assms(3) by blast

lemma sent_frame [simp]:
  "sent xs w (set_ctl_state p st w') = sent xs w w'" "sent xs w (osMessagePut e w') = sent xs w w'"
  "sent xs w (stamp_timer p w') = sent xs w w'" "sent xs w (set_request p rs w') = sent xs w w'"
  "sent xs (stamp_timer p w) w' = sent xs w w'"
  by (simp_all add: sent_def set_ctl_state_def stamp_timer_def set_request_def)

lemma hc_get_stamp [simp]: "hc_get (stamp_timer p w) ch = hc_get w ch"
  by (simp add: stamp_timer_def)

lemma ctl_stamp [simp]:
  "pipe_in (ctl p (stamp_timer p w)) = pipe_in (ctl p w)"
  "pipe_out (ctl p (stamp_timer p w)) = pipe_out (ctl p w)"
  "ctl_buff (ctl p (stamp_timer p w)) = ctl_buff (ctl p w)"
  "ctl_length (ctl p (stamp_timer p w)) = ctl_length (ctl p w)"
  "ctl_state (ctl p (stamp_timer p w)) = ctl_state (ctl p w)"
  by (simp_all add: stamp_timer_def)

text \<open>The calls that send a packet.\<close>

lemma stage_setup:
  assumes "at_stage p r CTRL_SETUP w"
  shows "\<exists>w'. request E p r w = (USBH_BUSY, w') \<and> at_stage p r CTRL_SETUP_WAIT w'
    \<and> sent [HC_StartXfer (rq_out r) 0 USBH_EP_CONTROL HC_PID_SETUP (Packet (rq_setup r)) 8] w w'"
  using assms
  by (simp add: request_wait [OF assms] USBH_HandleControl_def at_stageD(1,6) [OF assms]
      USBH_CtlSendSetup_def submit_stage(1) [OF assms at_stageD(9) [OF assms]]
      at_stageD(2) [OF assms, symmetric] payload_of_simps(1) [symmetric]
      submit_sent [OF assms at_stageD(9) [OF assms]] submit_pid_of del: payload_of_simps(1))

lemma stage_data_in:
  assumes "at_stage p r CTRL_DATA_IN w"
  shows "\<exists>w'. request E p r w = (USBH_BUSY, w') \<and> at_stage p r CTRL_DATA_IN_WAIT w'
    \<and> sent [HC_StartXfer (rq_in r) 1 USBH_EP_CONTROL HC_PID_DATA1 (Buffer (rq_buff r)) (rq_len r)] w w'"
proof -
  have a: "at_stage p r CTRL_DATA_IN (stamp_timer p w)" using assms by simp
  have "sent [HC_StartXfer (rq_in r) 1 USBH_EP_CONTROL HC_PID_DATA1 (Buffer (rq_buff r)) (rq_len r)]
      (stamp_timer p w) (snd (USBH_LL_SubmitURB p (rq_in r) 1 USBH_EP_CONTROL USBH_PID_DATA
        (rq_buff r) (rq_len r) 0 (stamp_timer p w)))"
    using submit_sent [OF a at_stageD(8) [OF a], of 1 0 1] by (simp add: submit_pid_of)
  then show ?thesis
    using assms
    by (simp add: request_wait [OF assms] USBH_HandleControl_def at_stageD(1-6) [OF assms]
        USBH_CtlReceiveData_def submit_stage(1) [OF a at_stageD(8) [OF a]])
qed

lemma stage_data_out:
  assumes "at_stage p r CTRL_DATA_OUT w"
  shows "\<exists>w'. request E p r w = (USBH_BUSY, w') \<and> at_stage p r CTRL_DATA_OUT_WAIT w'
    \<and> sent [HC_StartXfer (rq_out r) 0 USBH_EP_CONTROL
        (if rq_len r \<noteq> 0 \<and> hc_toggle_out (hc_get w (rq_out r)) = 0 then HC_PID_DATA0 else HC_PID_DATA1)
        (Buffer (rq_buff r)) (rq_len r)] w w'"
  using assms
  by (simp add: request_wait [OF assms] USBH_HandleControl_def at_stageD(1-6) [OF assms]
      USBH_CtlSendData_def submit_stage(1) [OF assms at_stageD(9) [OF assms]]
      submit_sent [OF assms at_stageD(9) [OF assms], where k = 1, simplified] submit_pid_of)

lemma stage_status_in:
  assumes "at_stage p r CTRL_STATUS_IN w"
  shows "\<exists>w'. request E p r w = (USBH_BUSY, w') \<and> at_stage p r CTRL_STATUS_IN_WAIT w'
    \<and> sent [HC_StartXfer (rq_in r) 1 USBH_EP_CONTROL HC_PID_DATA1 (Buffer BNull) 0] w w'"
  using assms
  by (simp add: request_wait [OF assms] USBH_HandleControl_def at_stageD(1-6) [OF assms]
      USBH_CtlReceiveData_def submit_stage(1) [OF assms at_stageD(8) [OF assms]]
      submit_sent [OF assms at_stageD(8) [OF assms], where k = 1, simplified] submit_pid_of)

lemma stage_status_out:
  assumes "at_stage p r CTRL_STATUS_OUT w"
  shows "\<exists>w'. request E p r w = (USBH_BUSY, w') \<and> at_stage p r CTRL_STATUS_OUT_WAIT w'
    \<and> sent [HC_StartXfer (rq_out r) 0 USBH_EP_CONTROL HC_PID_DATA1 (Buffer BNull) 0] w w'"
  using assms
  by (simp add: request_wait [OF assms] USBH_HandleControl_def at_stageD(1-6) [OF assms]
      USBH_CtlSendData_def submit_stage(1) [OF assms at_stageD(9) [OF assms]]
      submit_sent [OF assms at_stageD(9) [OF assms], where k = 1, simplified] submit_pid_of)

section \<open>Polling\<close>

context bus
begin

lemma bus_stage: "at_stage p r st w \<Longrightarrow> at_stage p r st (E w)"
  using bus_ready bus_ctl bus_request bus_static by (simp add: at_stage_def)

lemma bus_sent: "request_ready p w \<Longrightarrow> sent [] w (E w)"
  by (simp add: sent_def bus_trace bus_faults)

lemma poll_stage:
  assumes "at_stage p r st w" "unat ch < HC_COUNT"
  shows "USBH_LL_GetURBState E p ch w = (hc_urb_state (hc_get (E w) ch), E w)"
  using poll [OF at_stageD(7) [OF assms(1)] assms(2)] .

end

context reliable_bus
begin

lemma urb_done:
  assumes "at_stage p r st w" "unat ch < HC_COUNT"
  shows "USBH_LL_GetURBState E p ch w = (USBH_URB_DONE, E w)"
  using poll_stage [OF assms] bus_done [OF at_stageD(7) [OF assms(1)] assms(2)] by simp

lemma setup_done:
  assumes "at_stage p r CTRL_SETUP_WAIT w"
  shows "\<exists>w'. request E p r w = (USBH_BUSY, w') \<and> at_stage p r (after_setup (rq_setup r)) w' \<and> sent [] w w'"
  using bus_stage [OF assms] bus_sent [OF at_stageD(7) [OF assms]]
  by (simp add: request_wait [OF assms] USBH_HandleControl_def at_stageD(1-6) [OF assms]
      urb_done [OF assms at_stageD(9) [OF assms]] at_stageD(1,2) [OF bus_stage [OF assms]])

lemma data_in_done:
  assumes "at_stage p r CTRL_DATA_IN_WAIT w"
  shows "\<exists>w'. request E p r w = (USBH_BUSY, w') \<and> at_stage p r CTRL_STATUS_OUT w' \<and> sent [] w w'"
  using bus_stage [OF assms] bus_sent [OF at_stageD(7) [OF assms]]
  by (simp add: request_wait [OF assms] USBH_HandleControl_def at_stageD(1-6) [OF assms]
      urb_done [OF assms at_stageD(8) [OF assms]] at_stageD(1) [OF bus_stage [OF assms]])

lemma data_out_done:
  assumes "at_stage p r CTRL_DATA_OUT_WAIT w"
  shows "\<exists>w'. request E p r w = (USBH_BUSY, w') \<and> at_stage p r CTRL_STATUS_IN w' \<and> sent [] w w'"
  using bus_stage [OF assms] bus_sent [OF at_stageD(7) [OF assms]]
  by (simp add: request_wait [OF assms] USBH_HandleControl_def at_stageD(1-6) [OF assms]
      urb_done [OF assms at_stageD(9) [OF assms]] at_stageD(1) [OF bus_stage [OF assms]])

lemma finish:
  assumes "at_stage p r st w" "st = CTRL_STATUS_IN_WAIT \<or> st = CTRL_STATUS_OUT_WAIT"
  shows "\<exists>w'. request E p r w = (USBH_OK, w') \<and> idle_for p r w' \<and> ctl_state (ctl p w') = CTRL_IDLE
     \<and> ctl_setup (ctl p w') = rq_setup r \<and> device (hosts w' p) = device (hosts (E w) p) \<and> sent [] w w'"
proof -
  let ?w = "set_ctl_state p CTRL_IDLE (set_request p CMD_SEND
       (osMessagePut USBH_CONTROL_EVENT (set_ctl_state p CTRL_COMPLETE (E w))))"
  from assms(2) have "request E p r w = (USBH_OK, ?w)"
    by (auto simp: request_wait [OF assms(1)] USBH_HandleControl_def at_stageD(1-6) [OF assms(1)]
      urb_done [OF assms(1) at_stageD(9) [OF assms(1)]] urb_done [OF assms(1) at_stageD(8) [OF assms(1)]])
  moreover have "idle_for p r ?w"
    using bus_stage [OF assms(1)] unfolding idle_for_def at_stage_def request_ready_frame
    by (simp add: set_ctl_state_def set_request_def)
  moreover have "ctl_setup (ctl p ?w) = rq_setup r"
    using bus_stage [OF assms(1)] by (simp add: at_stage_def set_ctl_state_def set_request_def)
  moreover have "ctl_state (ctl p ?w) = CTRL_IDLE" "device (hosts ?w p) = device (hosts (E w) p)"
    by (simp_all add: set_ctl_state_def set_request_def)
  moreover have "sent [] w ?w" using bus_sent [OF at_stageD(7) [OF assms(1)]] by simp
  ultimately show ?thesis by blast
qed

text \<open>A whole transfer, by its shape: data in, data out, no data.\<close>

lemma run_upto: "run_req (Suc 0 + k) f w = (let (s, w') = f w in if s = USBH_BUSY then run_req k f w' else (s, w'))"
  by simp

definition completes :: "ctl_request \<Rightarrow> nat \<Rightarrow> hal_call list \<Rightarrow> usb \<Rightarrow> bool" where
  "completes r n xs w \<longleftrightarrow> (\<forall>k. \<exists>w'. run_req (n + k) (request E p r) w = (USBH_OK, w')
     \<and> idle_for p r w' \<and> ctl_state (ctl p w') = CTRL_IDLE \<and> ctl_setup (ctl p w') = rq_setup r
     \<and> sent xs w w'
     \<and> (\<exists>w0. request_ready p w0 \<and> ctl_setup (ctl p w0) = rq_setup r
          \<and> device (hosts w' p) = device (hosts (E w0) p)))"

lemma completes_step:
  assumes "request E p r w = (USBH_BUSY, w1)" "sent xs w w1" "completes r n ys w1"
  shows "completes r (Suc n) (xs @ ys) w"
  using assms sent_trans by (fastforce simp: completes_def)

lemma completes_finish:
  assumes "at_stage p r st w" "st = CTRL_STATUS_IN_WAIT \<or> st = CTRL_STATUS_OUT_WAIT"
  shows "completes r 1 [] w"
  using finish [OF assms] at_stageD(2,7) [OF assms(1)] by (fastforce simp: completes_def)

lemma from_status_in: "at_stage p r CTRL_STATUS_IN w \<Longrightarrow>
    completes r 2 [HC_StartXfer (rq_in r) 1 USBH_EP_CONTROL HC_PID_DATA1 (Buffer BNull) 0] w"
  using stage_status_in [of p r w E] completes_finish [of r CTRL_STATUS_IN_WAIT]
    completes_step [of r w _ _ 1 "[]"] by (fastforce simp: numeral_2_eq_2)

lemma from_status_out: "at_stage p r CTRL_STATUS_OUT w \<Longrightarrow>
    completes r 2 [HC_StartXfer (rq_out r) 0 USBH_EP_CONTROL HC_PID_DATA1 (Buffer BNull) 0] w"
  using stage_status_out [of p r w E] completes_finish [of r CTRL_STATUS_OUT_WAIT]
    completes_step [of r w _ _ 1 "[]"] by (fastforce simp: numeral_2_eq_2)

lemma from_data_in:
  assumes "at_stage p r CTRL_DATA_IN w"
  shows "completes r 4 [HC_StartXfer (rq_in r) 1 USBH_EP_CONTROL HC_PID_DATA1 (Buffer (rq_buff r)) (rq_len r),
      HC_StartXfer (rq_out r) 0 USBH_EP_CONTROL HC_PID_DATA1 (Buffer BNull) 0] w"
proof -
  from stage_data_in [OF assms, of E] obtain w1 where 1: "request E p r w = (USBH_BUSY, w1)"
    "at_stage p r CTRL_DATA_IN_WAIT w1"
    "sent [HC_StartXfer (rq_in r) 1 USBH_EP_CONTROL HC_PID_DATA1 (Buffer (rq_buff r)) (rq_len r)] w w1" by blast
  from data_in_done [OF 1(2)] obtain w2 where 2: "request E p r w1 = (USBH_BUSY, w2)"
    "at_stage p r CTRL_STATUS_OUT w2" "sent [] w1 w2" by blast
  from completes_step [OF 1(1,3) completes_step [OF 2(1,3) from_status_out [OF 2(2)]]]
  show ?thesis by (simp add: eval_nat_numeral)
qed

lemma from_data_out:
  assumes "at_stage p r CTRL_DATA_OUT w"
  shows "completes r 4 [HC_StartXfer (rq_out r) 0 USBH_EP_CONTROL
        (if rq_len r \<noteq> 0 \<and> hc_toggle_out (hc_get w (rq_out r)) = 0 then HC_PID_DATA0 else HC_PID_DATA1)
        (Buffer (rq_buff r)) (rq_len r),
      HC_StartXfer (rq_in r) 1 USBH_EP_CONTROL HC_PID_DATA1 (Buffer BNull) 0] w"
proof -
  from stage_data_out [OF assms, of E] obtain w1 where 1: "request E p r w = (USBH_BUSY, w1)"
    "at_stage p r CTRL_DATA_OUT_WAIT w1"
    "sent [HC_StartXfer (rq_out r) 0 USBH_EP_CONTROL
        (if rq_len r \<noteq> 0 \<and> hc_toggle_out (hc_get w (rq_out r)) = 0 then HC_PID_DATA0 else HC_PID_DATA1)
        (Buffer (rq_buff r)) (rq_len r)] w w1" by blast
  from data_out_done [OF 1(2)] obtain w2 where 2: "request E p r w1 = (USBH_BUSY, w2)"
    "at_stage p r CTRL_STATUS_IN w2" "sent [] w1 w2" by blast
  from completes_step [OF 1(1,3) completes_step [OF 2(1,3) from_status_in [OF 2(2)]]]
  show ?thesis by (simp add: eval_nat_numeral)
qed

lemma from_idle:
  assumes "idle_for p r w"
    and "\<And>w'. at_stage p r (after_setup (rq_setup r)) w' \<Longrightarrow> completes r n xs w'"
  shows "completes r (n + 3) (HC_StartXfer (rq_out r) 0 USBH_EP_CONTROL HC_PID_SETUP (Packet (rq_setup r)) 8 # xs) w"
proof -
  from request_first [OF assms(1), of E] obtain w1 where 1: "request E p r w = (USBH_BUSY, w1)"
    "at_stage p r CTRL_SETUP w1" "sent [] w w1" by blast
  from stage_setup [OF 1(2), of E] obtain w2 where 2: "request E p r w1 = (USBH_BUSY, w2)"
    "at_stage p r CTRL_SETUP_WAIT w2"
    "sent [HC_StartXfer (rq_out r) 0 USBH_EP_CONTROL HC_PID_SETUP (Packet (rq_setup r)) 8] w1 w2" by blast
  from setup_done [OF 2(2)] obtain w3 where 3: "request E p r w2 = (USBH_BUSY, w3)"
    "at_stage p r (after_setup (rq_setup r)) w3" "sent [] w2 w3" by blast
  from completes_step [OF 1(1,3) completes_step [OF 2(1,3) completes_step [OF 3(1,3) assms(2) [OF 3(2)]]]]
  show ?thesis by (simp add: eval_nat_numeral)
qed

lemma control_in:
  assumes "idle_for p r w" "bmRequestType (rq_setup r) AND 0x80 = 0x80" "wLength (rq_setup r) \<noteq> 0"
  shows "completes r 7 [HC_StartXfer (rq_out r) 0 USBH_EP_CONTROL HC_PID_SETUP (Packet (rq_setup r)) 8,
      HC_StartXfer (rq_in r) 1 USBH_EP_CONTROL HC_PID_DATA1 (Buffer (rq_buff r)) (rq_len r),
      HC_StartXfer (rq_out r) 0 USBH_EP_CONTROL HC_PID_DATA1 (Buffer BNull) 0] w"
  using from_idle [OF assms(1) from_data_in] assms(2,3) by (simp add: after_setup_def)

lemma control_none:
  assumes "idle_for p r w" "bmRequestType (rq_setup r) AND 0x80 \<noteq> 0x80" "wLength (rq_setup r) = 0"
  shows "completes r 5 [HC_StartXfer (rq_out r) 0 USBH_EP_CONTROL HC_PID_SETUP (Packet (rq_setup r)) 8,
      HC_StartXfer (rq_in r) 1 USBH_EP_CONTROL HC_PID_DATA1 (Buffer BNull) 0] w"
  using from_idle [OF assms(1) from_status_in] assms(2,3) by (simp add: after_setup_def)

end

section \<open>A device that always fails\<close>

context failing_bus
begin

lemma urb_error:
  assumes "at_stage p r st w" "unat ch < HC_COUNT"
  shows "USBH_LL_GetURBState E p ch w = (USBH_URB_ERROR, E w)"
  using poll_stage [OF assms] bus_error [OF at_stageD(7) [OF assms(1)] assms(2)] by simp

lemma setup_error:
  assumes "at_stage p r CTRL_SETUP_WAIT w"
  shows "\<exists>w'. request E p r w = (USBH_BUSY, w') \<and> at_stage p r CTRL_ERROR w' \<and> sent [] w w'"
  using bus_stage [OF assms] bus_sent [OF at_stageD(7) [OF assms]]
  by (simp add: request_wait [OF assms] USBH_HandleControl_def at_stageD(1-6) [OF assms]
      urb_error [OF assms at_stageD(9) [OF assms]] at_stageD(1) [OF bus_stage [OF assms]])

end

definition stop_call :: "ctl_request \<Rightarrow> hal_call list" where
  "stop_call r = (if rq_child r = 1 then [] else [HCD_Stop])"

lemma error_retry:
  assumes "at_stage p r CTRL_ERROR w" "rq_errors r < 2"
  shows "\<exists>w'. request E p r w = (USBH_BUSY, w') \<and> idle_for p (r\<lparr>rq_errors := rq_errors r + 1\<rparr>) w'
    \<and> sent (stop_call r) w w'"
proof -
  let ?w1 = "upd_ctl p (\<lambda>c. c\<lparr>errorcount := errorcount c + 1\<rparr>) w"
  let ?w' = "set_request p CMD_SEND (set_ctl_state p CTRL_SETUP (snd (USBH_LL_Stop p ?w1)))"
  have le: "rq_errors r + 1 \<le> 2" using assms(2) by (simp add: word_less_nat_alt word_le_nat_alt unat_word_ariths)
  have st: "snd (USBH_LL_Stop p ?w1) = (if is_child (hosts w p) = 1 then ?w1 else out HCD_Stop ?w1)"
    using request_readyD(2) [OF at_stageD(7) [OF assms(1)]] by (simp add: USBH_LL_Stop_def no_hcd_def)
  have "request E p r w = (USBH_BUSY, ?w')"
    using le assms(1)
    by (simp add: request_wait [OF assms(1)] USBH_HandleControl_def at_stageD(1) [OF assms(1)]
        case_prod_beta Let_def at_stage_def)
  moreover have "request_ready p ?w1 = request_ready p w" by (rule request_ready_cong) simp_all
  then have "idle_for p (r\<lparr>rq_errors := rq_errors r + 1\<rparr>) ?w'"
    using assms(1) unfolding idle_for_def at_stage_def request_ready_frame st
    by (simp add: set_request_def set_ctl_state_def)
  moreover have "sent (stop_call r) w ?w'"
    using assms(1) by (simp add: st sent_def stop_call_def set_request_def set_ctl_state_def at_stage_def)
  ultimately show ?thesis by blast
qed

lemma error_give_up:
  assumes "at_stage p r CTRL_ERROR w" "rq_errors r = 2" "rq_user r \<noteq> NULL"
  shows "\<exists>w'. request E p r w = (USBH_FAIL, w') \<and> idle_for p (r\<lparr>rq_errors := 0\<rparr>) w'
    \<and> sent [User p HOST_USER_UNRECOVERED_ERROR] w w'"
proof -
  let ?w1 = "upd_ctl p (\<lambda>c. c\<lparr>errorcount := errorcount c + 1\<rparr>) w"
  let ?w2 = "upd_ctl p (\<lambda>c. c\<lparr>errorcount := 0\<rparr>) (out (User p HOST_USER_UNRECOVERED_ERROR) ?w1)"
  let ?w' = "set_request p CMD_SEND ?w2"
  have "request E p r w = (USBH_FAIL, ?w')"
    using assms(1-3)
    by (simp add: request_wait [OF assms(1)] USBH_HandleControl_def at_stageD(1) [OF assms(1)]
        at_stage_def call_user_def USBH_UserProcess_def)
  moreover have "request_ready p ?w2 = request_ready p w" by (rule request_ready_cong) simp_all
  then have "idle_for p (r\<lparr>rq_errors := 0\<rparr>) ?w'"
    using assms(1) unfolding idle_for_def at_stage_def request_ready_frame
    by (simp add: set_request_def)
  moreover have "sent [User p HOST_USER_UNRECOVERED_ERROR] w ?w'"
    by (simp add: sent_def set_request_def)
  ultimately show ?thesis by blast
qed

lemma request_errors [simp]: "request E p (r\<lparr>rq_errors := e\<rparr>) = request E p r"
  by (simp add: request_def fun_eq_iff)

context failing_bus
begin

lemma to_error:
  assumes "idle_for p r w"
  shows "\<exists>w'. (\<forall>k. run_req (3 + k) (request E p r) w = run_req k (request E p r) w')
    \<and> at_stage p r CTRL_ERROR w'
    \<and> sent [HC_StartXfer (rq_out r) 0 USBH_EP_CONTROL HC_PID_SETUP (Packet (rq_setup r)) 8] w w'"
proof -
  from request_first [OF assms(1), of E] obtain w1 where 1: "request E p r w = (USBH_BUSY, w1)"
    "at_stage p r CTRL_SETUP w1" "sent [] w w1" by blast
  from stage_setup [OF 1(2), of E] obtain w2 where 2: "request E p r w1 = (USBH_BUSY, w2)"
    "at_stage p r CTRL_SETUP_WAIT w2"
    "sent [HC_StartXfer (rq_out r) 0 USBH_EP_CONTROL HC_PID_SETUP (Packet (rq_setup r)) 8] w1 w2" by blast
  from setup_error [OF 2(2)] obtain w3 where 3: "request E p r w2 = (USBH_BUSY, w3)"
    "at_stage p r CTRL_ERROR w3" "sent [] w2 w3" by blast
  with 1 2 show ?thesis
    by (intro exI [of _ w3]) (auto simp: eval_nat_numeral sent_def)
qed

lemma attempt:
  assumes "idle_for p r w" "rq_errors r < 2"
  shows "\<exists>w'. (\<forall>k. run_req (4 + k) (request E p r) w = run_req k (request E p r) w')
    \<and> idle_for p (r\<lparr>rq_errors := rq_errors r + 1\<rparr>) w'
    \<and> sent (HC_StartXfer (rq_out r) 0 USBH_EP_CONTROL HC_PID_SETUP (Packet (rq_setup r)) 8 # stop_call r) w w'"
proof -
  from to_error [OF assms(1)] obtain w1 where 1:
    "\<And>k. run_req (3 + k) (request E p r) w = run_req k (request E p r) w1"
    "at_stage p r CTRL_ERROR w1"
    "sent [HC_StartXfer (rq_out r) 0 USBH_EP_CONTROL HC_PID_SETUP (Packet (rq_setup r)) 8] w w1" by blast
  from error_retry [OF 1(2) assms(2), of E] obtain w2 where 2: "request E p r w1 = (USBH_BUSY, w2)"
    "idle_for p (r\<lparr>rq_errors := rq_errors r + 1\<rparr>) w2" "sent (stop_call r) w1 w2" by blast
  have "run_req (4 + k) (request E p r) w = run_req k (request E p r) w2" for k
    using 1(1) [of "Suc k"] 2(1) by simp
  with 2 sent_trans [OF 1(3) 2(3)] show ?thesis by auto
qed

lemma three_attempts:
  assumes "idle_for p r w" "rq_errors r = 0" "rq_user r \<noteq> NULL"
  shows "\<exists>w'. run_req (12 + k) (request E p r) w = (USBH_FAIL, w') \<and> idle_for p r w'
    \<and> sent (let s = HC_StartXfer (rq_out r) 0 USBH_EP_CONTROL HC_PID_SETUP (Packet (rq_setup r)) 8
            in [s] @ stop_call r @ [s] @ stop_call r @ [s, User p HOST_USER_UNRECOVERED_ERROR]) w w'"
proof -
  let ?s = "HC_StartXfer (rq_out r) 0 USBH_EP_CONTROL HC_PID_SETUP (Packet (rq_setup r)) 8"
  let ?r1 = "r\<lparr>rq_errors := 1\<rparr>" and ?r2 = "r\<lparr>rq_errors := 2\<rparr>"
  have c: "stop_call ?r1 = stop_call r" "stop_call ?r2 = stop_call r" by (simp_all add: stop_call_def)
  from attempt [OF assms(1)] assms(2) obtain w1 where 1:
    "\<And>k. run_req (4 + k) (request E p r) w = run_req k (request E p r) w1"
    "idle_for p ?r1 w1" "sent (?s # stop_call r) w w1" by auto
  from attempt [OF 1(2)] c obtain w2 where 2:
    "\<And>k. run_req (4 + k) (request E p r) w1 = run_req k (request E p r) w2"
    "idle_for p ?r2 w2" "sent (?s # stop_call r) w1 w2" by auto
  from to_error [OF 2(2)] obtain w3 where 3:
    "\<And>k. run_req (3 + k) (request E p r) w2 = run_req k (request E p r) w3"
    "at_stage p ?r2 CTRL_ERROR w3" "sent [?s] w2 w3" by auto
  from error_give_up [OF 3(2), of E] assms(3) obtain w4 where 4: "request E p r w3 = (USBH_FAIL, w4)"
    "idle_for p (?r2\<lparr>rq_errors := 0\<rparr>) w4" "sent [User p HOST_USER_UNRECOVERED_ERROR] w3 w4" by auto
  have "r\<lparr>rq_errors := 0\<rparr> = r" using assms(2) by simp
  then have "idle_for p r w4" using 4(2) by simp
  moreover have "run_req (12 + k) (request E p r) w = (USBH_FAIL, w4)"
    using 1(1) [of "8 + k"] 2(1) [of "4 + k"] 3(1) [of "Suc k"] 4(1) by simp
  moreover have "sent ((?s # stop_call r) @ (?s # stop_call r) @ [?s] @ [User p HOST_USER_UNRECOVERED_ERROR]) w w4"
    using sent_trans [OF 1(3) sent_trans [OF 2(3) sent_trans [OF 3(3) 4(3)]]] .
  ultimately show ?thesis by (auto simp: Let_def)
qed

end

section \<open>A stalled request\<close>

context stalling_bus
begin

lemma urb_stall:
  assumes "at_stage p r st w" "unat ch < HC_COUNT"
  shows "USBH_LL_GetURBState E p ch w = (USBH_URB_STALL, E w)"
  using poll_stage [OF assms] bus_stall [OF at_stageD(7) [OF assms(1)] assms(2)] by simp

lemma stall_stays:
  assumes "at_stage p r st w" "st = CTRL_DATA_IN_WAIT \<or> st = CTRL_STATUS_IN_WAIT"
  shows "\<exists>w'. request E p r' w = (USBH_NOT_SUPPORTED, w') \<and> at_stage p r st w' \<and> sent [] w w'
    \<and> Control (hosts w' p) = Control (hosts w p)"
proof -
  have "fill_setup p rt rq v ix len w = w" for rt rq v ix len
    using assms by (simp add: fill_setup_def at_stage_def)
  then have "request E p r' w = (USBH_NOT_SUPPORTED, osMessagePut USBH_CONTROL_EVENT (E w))"
    using assms request_readyD(6) [OF at_stageD(7) [OF assms(1)]]
    by (auto simp: request_def std_request_def USBH_CtlReq_def at_stage_def USBH_HandleControl_def
        urb_stall [OF assms(1) at_stageD(8) [OF assms(1)]])
  with bus_stage [OF assms(1)] bus_sent [OF at_stageD(7) [OF assms(1)]]
    bus_ctl [OF at_stageD(7) [OF assms(1)]] show ?thesis by simp
qed

end

section \<open>The environments of the HCD driver\<close>

lemma quiet_ready: "quiet w w' \<Longrightarrow> request_ready p w' = request_ready p w"
  by (rule request_ready_cong) (simp_all add: quiet_def)

lemma quiet_trace: "quiet w w' \<Longrightarrow> trace w' = trace w"
  by (auto simp: quiet_def trace_def filter_map o_def)

lemma bus_all_channels: "bus (all_channels hs) p"
proof
  fix w assume r: "request_ready p w"
  then have q: "quiet w (all_channels hs w)"
    by (intro all_channels_quiet) (simp add: request_ready_def)
  from r quiet_ready [OF q] show "request_ready p (all_channels hs w)" by simp
  from q show "Control (hosts (all_channels hs w) p) = Control (hosts w p)"
    "RequestState (hosts (all_channels hs w) p) = RequestState (hosts w p)"
    "pUser (hosts (all_channels hs w) p) = pUser (hosts w p)
       \<and> is_child (hosts (all_channels hs w) p) = is_child (hosts w p)"
    "faults (all_channels hs w) = faults w"
    by (simp_all add: quiet_def)
  from quiet_trace [OF q] show "trace (all_channels hs w) = trace w" .
qed

lemma bus_instances: "bus completing p" "bus failing p" "bus stalling p"
  unfolding completing_def failing_def stalling_def by (rule bus_all_channels)+

lemma ready_channels: "request_ready p w \<Longrightarrow> length (hc w) = 15"
  by (simp add: request_ready_def)

interpretation completing: reliable_bus completing p for p
  by (intro reliable_bus.intro reliable_bus_axioms.intro)
    (simp_all add: bus_instances completing_done ready_channels)

interpretation failing: failing_bus failing p for p
  by (intro failing_bus.intro failing_bus_axioms.intro)
    (simp_all add: bus_instances failing_error ready_channels)

interpretation stalling: stalling_bus stalling p for p
  by (intro stalling_bus.intro stalling_bus_axioms.intro)
    (simp_all add: bus_instances stalling_stall ready_channels)

section \<open>Properties\<close>

definition the_request :: "ptr \<Rightarrow> usb \<Rightarrow> USB_Setup_TypeDef \<Rightarrow> buf_ptr \<Rightarrow> u16 \<Rightarrow> ctl_request" where
  "the_request p w s b n = \<lparr>rq_setup = s, rq_buff = b, rq_len = n, rq_in = pipe_in (ctl p w),
     rq_out = pipe_out (ctl p w), rq_errors = errorcount (ctl p w), rq_user = pUser (hosts w p),
     rq_child = is_child (hosts w p)\<rparr>"

lemma idle_the_request:
  "request_ready p w \<Longrightarrow> RequestState (hosts w p) = CMD_SEND \<Longrightarrow> idle_for p (the_request p w s b n) w"
  by (simp add: idle_for_def the_request_def)

lemma request_the_request: "request E p (the_request p w s b n) = std_request E p s b n"
  by (simp add: request_def the_request_def fun_eq_iff)

lemma d2h_bit: "(0x80 OR rt) AND 0x80 = (0x80 :: u8)"
  by (rule bit_word_eqI) (auto simp: bit_simps)

text \<open>
  C14: On a bus that completes its transfers, a caller that repeats \<open>USBH_GetDescriptor\<close> gets
  \<open>USBH_OK\<close> at the seventh call. Exactly three transfers go out, in this order: the set-up packet
  of the request on the OUT pipe, the data stage on the IN pipe into the caller's buffer with the caller's length,
  and the zero-length status stage on the OUT pipe; afterwards the handle is ready for the next
  request and no access was out of bounds.
\<close>

theorem GetDescriptor_completes:
  assumes "reliable_bus E p" and "request_ready p w" and "RequestState (hosts w p) = CMD_SEND"
    and "n \<noteq> 0"
  shows "\<exists>w'. run_req (7 + k) (USBH_GetDescriptor E p rt v b n) w = (USBH_OK, w')
    \<and> trace w' = trace w @
        [HC_StartXfer (pipe_out (Control (hosts w p))) 0 USBH_EP_CONTROL HC_PID_SETUP
           (Packet \<lparr>bmRequestType = 0x80 OR rt, bRequest = 6, wValue = v,
              wIndex = (if v AND 0xff00 = 0x0300 then 0x0409 else 0), wLength = n\<rparr>) 8,
         HC_StartXfer (pipe_in (Control (hosts w p))) 1 USBH_EP_CONTROL HC_PID_DATA1 (Buffer b) n,
         HC_StartXfer (pipe_out (Control (hosts w p))) 0 USBH_EP_CONTROL HC_PID_DATA1 (Buffer BNull) 0]
    \<and> faults w' = faults w \<and> request_ready p w' \<and> RequestState (hosts w' p) = CMD_SEND
    \<and> ctl_state (Control (hosts w' p)) = CTRL_IDLE"
proof -
  let ?s = "\<lparr>bmRequestType = USB_D2H OR rt, bRequest = USB_REQ_GET_DESCRIPTOR, wValue = v,
     wIndex = (if v AND 0xff00 = USB_DESC_STRING then 0x0409 else 0), wLength = n\<rparr>"
  have "reliable_bus.completes E p (the_request p w ?s b n) 7
      [HC_StartXfer (pipe_out (ctl p w)) 0 USBH_EP_CONTROL HC_PID_SETUP (Packet ?s) 8,
         HC_StartXfer (pipe_in (ctl p w)) 1 USBH_EP_CONTROL HC_PID_DATA1 (Buffer b) n,
         HC_StartXfer (pipe_out (ctl p w)) 0 USBH_EP_CONTROL HC_PID_DATA1 (Buffer BNull) 0] w"
    using reliable_bus.control_in [OF assms(1) idle_the_request [OF assms(2,3), of ?s b n]] assms(4)
    by (simp add: the_request_def d2h_bit)
  then obtain w' where "run_req (7 + k) (request E p (the_request p w ?s b n)) w = (USBH_OK, w')"
    "idle_for p (the_request p w ?s b n) w'" "ctl_state (ctl p w') = CTRL_IDLE"
    "ctl_setup (ctl p w') = rq_setup (the_request p w ?s b n)"
    "sent [HC_StartXfer (pipe_out (ctl p w)) 0 USBH_EP_CONTROL HC_PID_SETUP (Packet ?s) 8,
         HC_StartXfer (pipe_in (ctl p w)) 1 USBH_EP_CONTROL HC_PID_DATA1 (Buffer b) n,
         HC_StartXfer (pipe_out (ctl p w)) 0 USBH_EP_CONTROL HC_PID_DATA1 (Buffer BNull) 0] w w'"
    unfolding reliable_bus.completes_def [OF assms(1)] by blast
  then show ?thesis
    unfolding request_the_request requests_are_std sent_def idle_for_def
    by (intro exI [of _ w']) (simp add: the_request_def)
qed

text \<open>
  On the same bus a request without data stage takes five calls and two transfers: after
  \<open>USBH_SetAddress\<close> or \<open>USBH_SetCfg\<close> the set-up packet that names the address or the
  configuration has gone out on the OUT pipe and a zero-length status stage has come in on the IN pipe.
\<close>

theorem SetAddress_SetCfg_complete:
  assumes "reliable_bus E p" and "request_ready p w" and "RequestState (hosts w p) = CMD_SEND"
    and "f = USBH_SetAddress E p a \<and> s = \<lparr>bmRequestType = 0, bRequest = 5, wValue = ucast a, wIndex = 0, wLength = 0\<rparr>
       \<or> f = USBH_SetCfg E p c \<and> s = \<lparr>bmRequestType = 0, bRequest = 9, wValue = c, wIndex = 0, wLength = 0\<rparr>"
  shows "\<exists>w'. run_req (5 + k) f w = (USBH_OK, w')
    \<and> trace w' = trace w @
        [HC_StartXfer (pipe_out (Control (hosts w p))) 0 USBH_EP_CONTROL HC_PID_SETUP (Packet s) 8,
         HC_StartXfer (pipe_in (Control (hosts w p))) 1 USBH_EP_CONTROL HC_PID_DATA1 (Buffer BNull) 0]
    \<and> faults w' = faults w \<and> request_ready p w' \<and> RequestState (hosts w' p) = CMD_SEND"
proof -
  have f: "f = std_request E p s BNull 0" and s: "bmRequestType s = 0" "wLength s = 0"
    using assms(4) by (auto simp: requests_are_std)
  have "reliable_bus.completes E p (the_request p w s BNull 0) 5
      [HC_StartXfer (pipe_out (ctl p w)) 0 USBH_EP_CONTROL HC_PID_SETUP (Packet s) 8,
       HC_StartXfer (pipe_in (ctl p w)) 1 USBH_EP_CONTROL HC_PID_DATA1 (Buffer BNull) 0] w"
    using reliable_bus.control_none [OF assms(1) idle_the_request [OF assms(2,3), of s BNull 0]] s
    by (simp add: the_request_def)
  then obtain w' where "run_req (5 + k) (request E p (the_request p w s BNull 0)) w = (USBH_OK, w')"
    "idle_for p (the_request p w s BNull 0) w'" "ctl_setup (ctl p w') = rq_setup (the_request p w s BNull 0)"
    "sent [HC_StartXfer (pipe_out (ctl p w)) 0 USBH_EP_CONTROL HC_PID_SETUP (Packet s) 8,
       HC_StartXfer (pipe_in (ctl p w)) 1 USBH_EP_CONTROL HC_PID_DATA1 (Buffer BNull) 0] w w'"
    unfolding reliable_bus.completes_def [OF assms(1)] by blast
  then show ?thesis
    unfolding request_the_request f sent_def idle_for_def
    by (intro exI [of _ w']) (simp add: the_request_def)
qed

lemma run_req_then:
  "run_req k (\<lambda>w. let (s, w) = g w in if s = USBH_OK then (s, h w) else (s, w)) w
     = (let (s, w') = run_req k g w in if s = USBH_OK then (s, h w') else (s, w'))"
  by (induction k arbitrary: w) (auto simp: case_prod_beta Let_def)

text \<open>
  Reading the device descriptor end to end: if the transfers complete and the device has put the
  eighteen bytes of its descriptor \<open>d\<close> into the data buffer, then after seven calls of
  \<open>USBH_Get_DevDesc\<close> the handle's \<open>DevDesc\<close> is \<open>d\<close>.
\<close>

theorem Get_DevDesc_reads:
  assumes "reliable_bus E p" and "request_ready p w" and "RequestState (hosts w p) = CMD_SEND"
    and "\<And>v. request_ready p v \<Longrightarrow> take 18 (Data (device (hosts (E v) p))) = enc_dev_desc d"
  shows "\<exists>w'. run_req (7 + k) (USBH_Get_DevDesc E p 18) w = (USBH_OK, w')
    \<and> DevDesc (device (hosts w' p)) = d \<and> faults w' = faults w
    \<and> RequestState (hosts w' p) = CMD_SEND"
proof -
  let ?s = "\<lparr>bmRequestType = USB_D2H OR 0, bRequest = USB_REQ_GET_DESCRIPTOR, wValue = USB_DESC_DEVICE,
     wIndex = 0, wLength = 18\<rparr>"
  let ?h = "\<lambda>w. upd_dev p (\<lambda>d. d\<lparr>DevDesc := USBH_ParseDevDesc (DevDesc d) (Data d) 18\<rparr>) w"
  have g: "USBH_Get_DevDesc E p 18 = (\<lambda>w. let (s, w) = std_request E p ?s (BData p) 18 w
      in if s = USBH_OK then (s, ?h w) else (s, w))"
    by (intro ext) (simp add: USBH_Get_DevDesc_def requests_are_std case_prod_beta)
  have "reliable_bus.completes E p (the_request p w ?s (BData p) 18) 7
      [HC_StartXfer (pipe_out (ctl p w)) 0 USBH_EP_CONTROL HC_PID_SETUP (Packet ?s) 8,
         HC_StartXfer (pipe_in (ctl p w)) 1 USBH_EP_CONTROL HC_PID_DATA1 (Buffer (BData p)) 18,
         HC_StartXfer (pipe_out (ctl p w)) 0 USBH_EP_CONTROL HC_PID_DATA1 (Buffer BNull) 0] w"
    using reliable_bus.control_in [OF assms(1) idle_the_request [OF assms(2,3), of ?s "BData p" 18]]
    by (simp add: the_request_def)
  then obtain w1 w0 where 1: "run_req (7 + k) (std_request E p ?s (BData p) 18) w = (USBH_OK, w1)"
    "RequestState (hosts w1 p) = CMD_SEND" "faults w1 = faults w" "request_ready p w0"
    "device (hosts w1 p) = device (hosts (E w0) p)"
    unfolding reliable_bus.completes_def [OF assms(1)] request_the_request sent_def idle_for_def by blast
  have "Data (device (hosts w1 p)) = enc_dev_desc d @ drop 18 (Data (device (hosts w1 p)))"
    using assms(4) [OF 1(4)] 1(5) by (metis append_take_drop_id)
  then have "USBH_ParseDevDesc old (Data (device (hosts w1 p))) 18 = d" for old
    using parse_enc_dev_desc by metis
  with 1 show ?thesis unfolding g run_req_then by simp
qed

text \<open>
  C31: When every transfer fails, a request with data or status stage is given up after exactly three
  set-up packets: twelve calls lead to \<open>USBH_FAIL\<close>, the user callback is told once, the error count
  is back at 0 and the next request starts afresh. Between the attempts a root handle stops the host
  controller, and nothing starts it again.
\<close>

theorem control_gives_up:
  assumes "failing_bus E p" and "request_ready p w" and "RequestState (hosts w p) = CMD_SEND"
    and "errorcount (Control (hosts w p)) = 0" and "pUser (hosts w p) \<noteq> NULL"
    and "is_child (hosts w p) = 0"
    and "setup = HC_StartXfer (pipe_out (Control (hosts w p))) 0 USBH_EP_CONTROL HC_PID_SETUP
      (Packet \<lparr>bmRequestType = 0x80 OR rt, bRequest = 6, wValue = v,
         wIndex = (if v AND 0xff00 = 0x0300 then 0x0409 else 0), wLength = n\<rparr>) 8"
  shows "\<exists>w'. run_req (12 + k) (USBH_GetDescriptor E p rt v b n) w = (USBH_FAIL, w')
    \<and> trace w' = trace w @ [setup, HCD_Stop, setup, HCD_Stop, setup, User p HOST_USER_UNRECOVERED_ERROR]
    \<and> faults w' = faults w \<and> RequestState (hosts w' p) = CMD_SEND
    \<and> errorcount (Control (hosts w' p)) = 0"
proof -
  let ?s = "\<lparr>bmRequestType = USB_D2H OR rt, bRequest = USB_REQ_GET_DESCRIPTOR, wValue = v,
     wIndex = (if v AND 0xff00 = USB_DESC_STRING then 0x0409 else 0), wLength = n\<rparr>"
  let ?r = "the_request p w ?s b n"
  have r: "rq_errors ?r = 0" "rq_user ?r \<noteq> NULL" "stop_call ?r = [HCD_Stop]"
    "rq_out ?r = pipe_out (ctl p w)" "rq_setup ?r = ?s"
    using assms(4-6) by (simp_all add: the_request_def stop_call_def)
  from failing_bus.three_attempts [OF assms(1) idle_the_request [OF assms(2,3)] r(1,2), of k]
  obtain w' where "run_req (12 + k) (request E p ?r) w = (USBH_FAIL, w')" "idle_for p ?r w'"
    "sent [setup, HCD_Stop, setup, HCD_Stop, setup, User p HOST_USER_UNRECOVERED_ERROR] w w'"
    unfolding r(3-5) Let_def assms(7) [symmetric] by auto
  with r(1) show ?thesis
    unfolding request_the_request requests_are_std sent_def idle_for_def by auto
qed

text \<open>
  A request that the device stalls in its data-in or status-in stage is reported as not supported
  but stays open: every later standard request on the handle, whatever it asks, sends no set-up
  packet, polls the stalled channel again and returns not supported, as long as the channel's URB
  state does not change.
\<close>

theorem stalled_request_blocks:
  assumes "stalling_bus E p" and "request_ready p w" and "RequestState (hosts w p) = CMD_WAIT"
    and "ctl_state (Control (hosts w p)) \<in> {CTRL_DATA_IN_WAIT, CTRL_STATUS_IN_WAIT}"
    and "f = USBH_SetCfg E p c \<or> f = USBH_SetAddress E p a \<or> f = USBH_GetDescriptor E p rt v b n"
  shows "\<exists>w'. f w = (USBH_NOT_SUPPORTED, w') \<and> trace w' = trace w \<and> request_ready p w'
    \<and> RequestState (hosts w' p) = CMD_WAIT \<and> Control (hosts w' p) = Control (hosts w p)"
proof -
  obtain s' b' n' where f: "f = std_request E p s' b' n'"
    using assms(5) requests_are_std by metis
  define r where "r = (the_request p w (ctl_setup (ctl p w)) (ctl_buff (ctl p w)) (ctl_length (ctl p w)))"
  have a: "at_stage p r (ctl_state (ctl p w)) w"
    using assms(2,3) by (simp add: at_stage_def r_def the_request_def)
  from stalling_bus.stall_stays [OF assms(1) a, of "the_request p w s' b' n'"] assms(4)
  obtain w' where "f w = (USBH_NOT_SUPPORTED, w')" "at_stage p r (ctl_state (ctl p w)) w'"
    "sent [] w w'" "Control (hosts w' p) = Control (hosts w p)"
    unfolding request_the_request f by auto
  then show ?thesis by (auto simp: sent_def at_stage_def)
qed

section \<open>Witnesses\<close>

text \<open>A connected root handle with channel 0 for its OUT and channel 1 for its IN control endpoint.\<close>

definition ctl_world :: usb where
  "ctl_world = reset_usb
     \<lparr>hosts := (\<lambda>_. zero_host\<lparr>pData := HHCD, Pipes := 5, RequestState := CMD_SEND, pUser := 7,
        device := zero_device\<lparr>is_connected := 1\<rparr>, Control := zero_ctrl\<lparr>pipe_in := 1\<rparr>\<rparr>),
      words := (\<lambda>_. [0x8000, 0x8080] @ replicate 13 0)\<rparr>"

lemma ctl_world_ready: "request_ready hUSBHost ctl_world" "RequestState (hosts ctl_world hUSBHost) = CMD_SEND"
  by (simp_all add: ctl_world_def request_ready_def pipes_ok_def pipes_used_def pipe_word_def
      reset_usb_def root_of_def zero_host_def zero_ctrl_def)

theorem GetDescriptor_completes_witness:
  "fst (run_req 7 (USBH_GetDescriptor completing hUSBHost 0 USB_DESC_DEVICE (BData hUSBHost) 8) ctl_world)
     = USBH_OK"
  using GetDescriptor_completes [OF completing.reliable_bus_axioms ctl_world_ready,
      of 8 0 0 USB_DESC_DEVICE "BData hUSBHost"]
  by auto

theorem SetAddress_SetCfg_complete_witness:
  "fst (run_req 5 (USBH_SetAddress completing hUSBHost 3) ctl_world) = USBH_OK"
  using SetAddress_SetCfg_complete [OF completing.reliable_bus_axioms ctl_world_ready
      disjI1 [OF conjI [OF refl refl]], of 0 3] by force

text \<open>A device that answers every poll with the given bytes in the data buffer.\<close>

definition answering :: "ptr \<Rightarrow> u8 list \<Rightarrow> usb \<Rightarrow> usb" where
  "answering p bs w = upd_dev p (\<lambda>d. d\<lparr>Data := bs @ drop (length bs) (Data d)\<rparr>) (completing w)"

interpretation answering: reliable_bus "answering p bs" p for p bs
proof
  fix w assume r: "request_ready p w"
  note c = completing.bus_ready [OF r] completing.bus_ctl [OF r] completing.bus_request [OF r]
    completing.bus_static [OF r] completing.bus_trace [OF r] completing.bus_faults [OF r]
  have "request_ready p (answering p bs w) = request_ready p (completing w)"
    unfolding answering_def by (rule request_ready_cong) simp_all
  with c(1) show "request_ready p (answering p bs w)" by simp
  from c show "Control (hosts (answering p bs w) p) = Control (hosts w p)"
    "RequestState (hosts (answering p bs w) p) = RequestState (hosts w p)"
    "pUser (hosts (answering p bs w) p) = pUser (hosts w p)
       \<and> is_child (hosts (answering p bs w) p) = is_child (hosts w p)"
    "trace (answering p bs w) = trace w" "faults (answering p bs w) = faults w"
    by (simp_all add: answering_def)
  show "hc_urb_state (hc_get (answering p bs w) ch) = USBH_URB_DONE" if "unat ch < 15" for ch
    using completing.bus_done [OF r that] by (simp add: answering_def)
qed

theorem Get_DevDesc_reads_witness:
  "idVendor (DevDesc (device (hosts (snd (run_req 7 (USBH_Get_DevDesc
      (answering hUSBHost (enc_dev_desc (zero_dev_desc\<lparr>idVendor := 0x1A86\<rparr>))) hUSBHost 18)
      ctl_world)) hUSBHost))) = 0x1A86"
proof -
  let ?d = "zero_dev_desc\<lparr>idVendor := 0x1A86\<rparr>"
  have "take 18 (Data (device (hosts (answering hUSBHost (enc_dev_desc ?d) v) hUSBHost))) = enc_dev_desc ?d" for v
    by (simp add: answering_def enc_dev_desc_def)
  from Get_DevDesc_reads [OF answering.reliable_bus_axioms ctl_world_ready this, of 0]
  show ?thesis by auto
qed

theorem control_gives_up_witness:
  "fst (run_req 12 (USBH_GetDescriptor failing hUSBHost 0 USB_DESC_DEVICE (BData hUSBHost) 8) ctl_world)
     = USBH_FAIL"
proof -
  have "errorcount (Control (hosts ctl_world hUSBHost)) = 0" "pUser (hosts ctl_world hUSBHost) \<noteq> NULL"
    "is_child (hosts ctl_world hUSBHost) = 0"
    by (simp_all add: ctl_world_def zero_host_def zero_ctrl_def)
  from control_gives_up [OF failing.failing_bus_axioms ctl_world_ready this refl,
      of 0 0 USB_DESC_DEVICE "BData hUSBHost" 8]
  show ?thesis by auto
qed

theorem stalled_request_blocks_witness:
  "fst (USBH_SetCfg stalling hUSBHost 1 (set_ctl_state hUSBHost CTRL_DATA_IN_WAIT
     (set_request hUSBHost CMD_WAIT ctl_world))) = USBH_NOT_SUPPORTED"
proof -
  let ?w = "set_ctl_state hUSBHost CTRL_DATA_IN_WAIT (set_request hUSBHost CMD_WAIT ctl_world)"
  have "RequestState (hosts ?w hUSBHost) = CMD_WAIT" "request_ready hUSBHost ?w"
    "ctl_state (Control (hosts ?w hUSBHost)) \<in> {CTRL_DATA_IN_WAIT, CTRL_STATUS_IN_WAIT}"
    using ctl_world_ready(1) by simp_all (simp_all add: set_ctl_state_def set_request_def)
  from stalled_request_blocks [OF stalling.stalling_bus_axioms this(2,1,3),
      of "USBH_SetCfg stalling hUSBHost 1" 1 0 0 0 BNull 0]
  show ?thesis by auto
qed

end
