(* ===== verification/Usb_Bus.thy ===== *)
theory Usb_Bus
  imports Usb_CtlReq_Props
begin

text \<open>
  Sequences of control requests. A request leaves everything of the world alone except the transfer
  fields and the data buffer of its own handle (\<open>keeps\<close>), provided the environment does; the locale
  \<open>tame_bus\<close> is a reliable bus of that kind. Its lemmas say what one request does, in the form in
  which the sequences of the class drivers use it.
\<close>

section \<open>What a request leaves alone\<close>

text \<open>A handle without what a control request may change.\<close>

definition strip :: "USBH_HandleTypeDef \<Rightarrow> USBH_HandleTypeDef" where
  "strip h = h\<lparr>RequestState := CMD_IDLE, Timer := 0,
     Control := zero_ctrl\<lparr>pipe_in := pipe_in (Control h), pipe_out := pipe_out (Control h),
                          pipe_size := pipe_size (Control h)\<rparr>,
     device := (device h)\<lparr>Data := []\<rparr>\<rparr>"

definition keeps :: "ptr \<Rightarrow> usb \<Rightarrow> usb \<Rightarrow> bool" where
  "keeps p w w' \<longleftrightarrow> (\<forall>q. q \<noteq> p \<longrightarrow> hosts w' q = hosts w q) \<and> strip (hosts w' p) = strip (hosts w p)
     \<and> length (Data (device (hosts w' p))) = length (Data (device (hosts w p)))
     \<and> alive w' = alive w \<and> words w' = words w \<and> bytes w' = bytes w \<and> cdata w' = cdata w
     \<and> class_pData w' = class_pData w \<and> lcs w' = lcs w \<and> brk w' = brk w \<and> mallocs w' = mallocs w"

lemma keeps_refl [simp, intro]: "keeps p w w"
  by (simp add: keeps_def)

lemma keeps_trans: "keeps p w w1 \<Longrightarrow> keeps p w1 w2 \<Longrightarrow> keeps p w w2"
  by (simp add: keeps_def)

lemma strip_sel:
  "gState (strip h) = gState h"
  "EnumState (strip h) = EnumState h"
  "pClass (strip h) = pClass h"
  "pActiveClass (strip h) = pActiveClass h"
  "ClassNumber (strip h) = ClassNumber h"
  "Pipes (strip h) = Pipes h"
  "host_id (strip h) = host_id h"
  "pData (strip h) = pData h"
  "pUser (strip h) = pUser h"
  "address (strip h) = address h"
  "pClassData (strip h) = pClassData h"
  "app_class (strip h) = app_class h"
  "app_data (strip h) = app_data h"
  "is_child (strip h) = is_child h"
  "parent (strip h) = parent h"
  "children (strip h) = children h"
  "last_ctrl_status (strip h) = last_ctrl_status h"
  "pipe_in (Control (strip h)) = pipe_in (Control h)"
  "pipe_out (Control (strip h)) = pipe_out (Control h)"
  "pipe_size (Control (strip h)) = pipe_size (Control h)"
  "dev_address (device (strip h)) = dev_address (device h)"
  "dev_speed (device (strip h)) = dev_speed (device h)"
  "is_connected (device (strip h)) = is_connected (device h)"
  "current_interface (device (strip h)) = current_interface (device h)"
  "DevDesc (device (strip h)) = DevDesc (device h)"
  "CfgDesc (device (strip h)) = CfgDesc (device h)"
  by (simp_all add: strip_def)

lemma stripD:
  assumes "strip h' = strip h"
  shows "gState h' = gState h"
    "EnumState h' = EnumState h"
    "pClass h' = pClass h"
    "pActiveClass h' = pActiveClass h"
    "ClassNumber h' = ClassNumber h"
    "Pipes h' = Pipes h"
    "host_id h' = host_id h"
    "pData h' = pData h"
    "pUser h' = pUser h"
    "address h' = address h"
    "pClassData h' = pClassData h"
    "app_class h' = app_class h"
    "app_data h' = app_data h"
    "is_child h' = is_child h"
    "parent h' = parent h"
    "children h' = children h"
    "last_ctrl_status h' = last_ctrl_status h"
    "pipe_in (Control h') = pipe_in (Control h)"
    "pipe_out (Control h') = pipe_out (Control h)"
    "pipe_size (Control h') = pipe_size (Control h)"
    "dev_address (device h') = dev_address (device h)"
    "dev_speed (device h') = dev_speed (device h)"
    "is_connected (device h') = is_connected (device h)"
    "current_interface (device h') = current_interface (device h)"
    "DevDesc (device h') = DevDesc (device h)"
    "CfgDesc (device h') = CfgDesc (device h)"
  by (metis assms strip_sel)+

lemma keepsD:
  assumes "keeps p w w'"
  shows "strip (hosts w' p) = strip (hosts w p)" "q \<noteq> p \<Longrightarrow> hosts w' q = hosts w q"
    "alive w' = alive w" "words w' = words w" "bytes w' = bytes w" "cdata w' = cdata w"
    "brk w' = brk w" "mallocs w' = mallocs w" "lcs w' = lcs w"
    "length (Data (device (hosts w' p))) = length (Data (device (hosts w p)))"
  using assms by (simp_all add: keeps_def)

lemmas keeps_host = stripD [OF keepsD(1)]

lemma keeps_upd:
  "(\<And>h. strip (f h) = strip h) \<Longrightarrow> (\<And>h. length (Data (device (f h))) = length (Data (device h)))
   \<Longrightarrow> keeps p w0 (upd_host p f w) = keeps p w0 w"
  by (simp add: keeps_def)

lemma upd_hc_rest [simp]:
  "class_pData (upd_hc ch g w) = class_pData w" "lcs (upd_hc ch g w) = lcs w"
  "brk (upd_hc ch g w) = brk w" "mallocs (upd_hc ch g w) = mallocs w"
  by (simp_all add: upd_hc_def)

lemma submit_rest [simp]:
  "class_pData (HAL_HCD_HC_SubmitRequest ch d t k b n g w) = class_pData w"
  "lcs (HAL_HCD_HC_SubmitRequest ch d t k b n g w) = lcs w"
  "brk (HAL_HCD_HC_SubmitRequest ch d t k b n g w) = brk w"
  "mallocs (HAL_HCD_HC_SubmitRequest ch d t k b n g w) = mallocs w"
  by (simp_all add: HAL_HCD_HC_SubmitRequest_def Let_def chk_hc_def)

lemma keeps_frame [simp]:
  "keeps p w0 (chk b x w) = keeps p w0 w" "keeps p w0 (out c w) = keeps p w0 w"
  "keeps p w0 (osMessagePut e w) = keeps p w0 w" "keeps p w0 (upd_hc ch g w) = keeps p w0 w"
  "keeps p w0 (set_ctl_state p st w) = keeps p w0 w" "keeps p w0 (set_request p r w) = keeps p w0 w"
  "keeps p w0 (stamp_timer p w) = keeps p w0 w" "keeps p w0 (fill_setup p rt rq v ix len w) = keeps p w0 w"
  "keeps p w0 (call_user q ev w) = keeps p w0 w"
  "keeps p w0 (snd (USBH_LL_SubmitURB q ch d t k bf n g' w)) = keeps p w0 w"
  "keeps p w0 (snd (USBH_LL_Stop q w)) = keeps p w0 w" "keeps p w0 (snd (USBH_LL_Start q w)) = keeps p w0 w"
  by (simp_all add: keeps_def strip_def set_ctl_state_def set_request_def stamp_timer_def fill_setup_def call_user_def
      USBH_UserProcess_def USBH_LL_SubmitURB_def USBH_LL_Stop_def USBH_LL_Start_def split: HOST_USER.split)

lemma keeps_ioreq [simp]:
  "keeps p w0 (snd (USBH_CtlSendSetup q b ch w)) = keeps p w0 w"
  "keeps p w0 (snd (USBH_CtlSendData q b n ch g w)) = keeps p w0 w"
  "keeps p w0 (snd (USBH_CtlReceiveData q b n ch w)) = keeps p w0 w"
  by (simp_all add: ioreq_defs)

lemma keeps_ctl [simp]:
  "keeps p w0 (upd_ctl p (\<lambda>c. c\<lparr>ctl_buff := bf, ctl_length := n, ctl_state := st\<rparr>) w) = keeps p w0 w"
  "keeps p w0 (upd_ctl p (\<lambda>c. c\<lparr>errorcount := g c\<rparr>) w) = keeps p w0 w"
  by (rule keeps_upd; simp add: strip_def)+

definition tame :: "(usb \<Rightarrow> usb) \<Rightarrow> ptr \<Rightarrow> bool" where
  "tame E p \<longleftrightarrow> (\<forall>w. keeps p w (E w))"

lemma tameD: "tame E p \<Longrightarrow> keeps p w0 w \<Longrightarrow> keeps p w0 (E w)"
  using keeps_trans by (auto simp: tame_def)

lemma poll_keeps: "tame E p \<Longrightarrow> keeps p w0 w \<Longrightarrow> keeps p w0 (snd (USBH_LL_GetURBState E p ch w))"
  by (simp add: USBH_LL_GetURBState_def Let_def chk_hc_def chk_hcd_def tameD)

lemma delay_keeps: "tame E p \<Longrightarrow> keeps p w0 w \<Longrightarrow> keeps p w0 (USBH_Delay E n w)"
  by (simp add: USBH_Delay_def tameD)

lemma control_keeps:
  assumes "tame E p" "keeps p w0 w"
  shows "keeps p w0 (snd (USBH_HandleControl E p w))"
  using assms(2)
  by (simp add: USBH_HandleControl_def case_prod_beta Let_def poll_keeps [OF assms(1)]
      split: CTRL_StateTypeDef.split)

lemma CtlReq_keeps:
  assumes "tame E p" "keeps p w0 w"
  shows "keeps p w0 (snd (USBH_CtlReq E p b n w))"
proof -
  have "keeps p w0 (snd (pipes_allocated p w))"
    using assms(2) by (simp add: pipes_allocated_def read_pipe_def Let_def)
  then show ?thesis
    by (simp add: USBH_CtlReq_def case_prod_beta Let_def control_keeps [OF assms(1)]
      split: CMD_StateTypeDef.split)
qed

lemma std_request_keeps: "tame E p \<Longrightarrow> keeps p w0 w \<Longrightarrow> keeps p w0 (snd (std_request E p s b n w))"
  by (simp add: std_request_def CtlReq_keeps)

lemma run_req_keeps:
  assumes "\<And>w. keeps p w0 w \<Longrightarrow> keeps p w0 (snd (f w))" "keeps p w0 w"
  shows "keeps p w0 (snd (run_req k f w))"
  using assms(2) by (induction k arbitrary: w) (simp_all add: case_prod_beta Let_def assms(1))

text \<open>
  A state machine \<open>g\<close> that repeats the request \<open>f\<close> while it is busy and does \<open>h\<close> when it has
  succeeded, for as long as the state is one that \<open>w\<close> keeps.
\<close>

lemma request_in_run_ok:
  assumes "\<And>v. keeps p w v \<Longrightarrow> keeps p w (snd (f v))"
    and "\<And>v. keeps p w v \<Longrightarrow> fst (f v) = USBH_OK \<or> fst (f v) = USBH_BUSY \<Longrightarrow> g v = (case f v of (st, v') \<Rightarrow> if st = USBH_OK then h v' else (USBH_BUSY, v'))"
    and "run_req n f w = (USBH_OK, w1)"
  shows "\<exists>m<n. \<forall>k. run_req (Suc m + k) g w = (case h w1 of (st, w2) \<Rightarrow>
     if st = USBH_BUSY then run_req k g w2 else (st, w2))"
proof -
  have "\<exists>m<n. \<forall>k. run_req (Suc m + k) g u = (case h w1 of (st, w2) \<Rightarrow>
      if st = USBH_BUSY then run_req k g w2 else (st, w2))"
    if "keeps p w u" "run_req n f u = (USBH_OK, w1)" for u
    using that
  proof (induction n arbitrary: u)
    case (Suc n)
    obtain s u' where u: "f u = (s, u')" by (cases "f u")
    show ?case
    proof (cases "s = USBH_BUSY")
      case True
      with Suc.prems(2) u have r: "run_req n f u' = (USBH_OK, w1)" by simp
      have "keeps p w u'" using assms(1) [OF Suc.prems(1)] u by simp
      from Suc.IH [OF this r] obtain m where m: "m < n" "\<forall>k. run_req (Suc m + k) g u'
        = (case h w1 of (st, w2) \<Rightarrow> if st = USBH_BUSY then run_req k g w2 else (st, w2))" by blast
      have "run_req (Suc (Suc m) + k) g u = run_req (Suc m + k) g u'" for k
        using assms(2) [OF Suc.prems(1)] u True by simp
      with m show ?thesis by (intro exI [of _ "Suc m"]) simp
    next
      case False
      with Suc.prems u have "f u = (USBH_OK, w1)" by simp
      with assms(2) [OF Suc.prems(1)] show ?thesis by (intro exI [of _ 0]) (simp add: Let_def)
    qed
  qed simp
  from this [OF keeps_refl assms(3)] show ?thesis .
qed

lemma request_in_run:
  assumes "\<And>v. keeps p w v \<Longrightarrow> keeps p w (snd (f v))"
    and "\<And>v. keeps p w v \<Longrightarrow> g v = (case f v of (st, v') \<Rightarrow> if st = USBH_OK then h v' else (USBH_BUSY, v'))"
    and "run_req n f w = (USBH_OK, w1)"
  shows "\<exists>m<n. \<forall>k. run_req (Suc m + k) g w = (case h w1 of (st, w2) \<Rightarrow>
     if st = USBH_BUSY then run_req k g w2 else (st, w2))"
proof (rule request_in_run_ok [OF _ _ assms(3)])
  fix v assume v: "keeps p w v"
  from v show "keeps p w (snd (f v))" by (rule assms(1))
  from v show "g v = (case f v of (st, v') \<Rightarrow> if st = USBH_OK then h v' else (USBH_BUSY, v'))" by (rule assms(2))
qed

section \<open>Reliable buses of that kind\<close>

locale quiet_bus = bus +
  assumes bus_tame: "tame E p"

text \<open>The transfers of a request without data stage, and of one that reads.\<close>

definition none_calls :: "ptr \<Rightarrow> usb \<Rightarrow> USB_Setup_TypeDef \<Rightarrow> hal_call list" where
  "none_calls p w s =
    [HC_StartXfer (pipe_out (ctl p w)) 0 USBH_EP_CONTROL HC_PID_SETUP (Packet s) 8,
     HC_StartXfer (pipe_in (ctl p w)) 1 USBH_EP_CONTROL HC_PID_DATA1 (Buffer BNull) 0]"

definition in_calls :: "ptr \<Rightarrow> usb \<Rightarrow> USB_Setup_TypeDef \<Rightarrow> buf_ptr \<Rightarrow> u16 \<Rightarrow> hal_call list" where
  "in_calls p w s b n =
    [HC_StartXfer (pipe_out (ctl p w)) 0 USBH_EP_CONTROL HC_PID_SETUP (Packet s) 8,
     HC_StartXfer (pipe_in (ctl p w)) 1 USBH_EP_CONTROL HC_PID_DATA1 (Buffer b) n,
     HC_StartXfer (pipe_out (ctl p w)) 0 USBH_EP_CONTROL HC_PID_DATA1 (Buffer BNull) 0]"

locale tame_bus = reliable_bus + quiet_bus
begin

text \<open>The transfers of a request by its shape.\<close>

lemma request_none:
  assumes "request_ready p w" "RequestState (hosts w p) = CMD_SEND"
    and "bmRequestType s AND 0x80 \<noteq> 0x80" "wLength s = 0"
  shows "\<exists>w'. run_req (5 + k) (std_request E p s b n) w = (USBH_OK, w')
    \<and> trace w' = trace w @ none_calls p w s
    \<and> faults w' = faults w \<and> request_ready p w' \<and> RequestState (hosts w' p) = CMD_SEND
    \<and> ctl_setup (ctl p w') = s \<and> keeps p w w'"
proof -
  have "completes (the_request p w s b n) 5 (none_calls p w s) w"
    using control_none [OF idle_the_request [OF assms(1,2), of s b n]] assms(3,4)
    by (simp add: the_request_def none_calls_def in_calls_def)
  moreover have "rq_setup (the_request p w s b n) = s" by (simp add: the_request_def)
  moreover have "keeps p w (snd (run_req (5 + k) (std_request E p s b n) w))"
    by (intro run_req_keeps std_request_keeps bus_tame keeps_refl)
  ultimately show ?thesis
    unfolding completes_def request_the_request sent_def idle_for_def by (metis snd_conv)
qed

lemma request_in:
  assumes "request_ready p w" "RequestState (hosts w p) = CMD_SEND"
    and "bmRequestType s AND 0x80 = 0x80" "wLength s \<noteq> 0"
  shows "\<exists>w' w0. run_req (7 + k) (std_request E p s b n) w = (USBH_OK, w')
    \<and> trace w' = trace w @ in_calls p w s b n
    \<and> faults w' = faults w \<and> request_ready p w' \<and> RequestState (hosts w' p) = CMD_SEND
    \<and> ctl_setup (ctl p w') = s \<and> keeps p w w'
    \<and> request_ready p w0 \<and> ctl_setup (ctl p w0) = s \<and> device (hosts w' p) = device (hosts (E w0) p)"
proof -
  have "completes (the_request p w s b n) 7 (in_calls p w s b n) w"
    using control_in [OF idle_the_request [OF assms(1,2), of s b n]] assms(3,4)
    by (simp add: the_request_def none_calls_def in_calls_def)
  moreover have "rq_setup (the_request p w s b n) = s" by (simp add: the_request_def)
  moreover have "keeps p w (snd (run_req (7 + k) (std_request E p s b n) w))"
    by (intro run_req_keeps std_request_keeps bus_tame keeps_refl)
  ultimately show ?thesis
    unfolding completes_def request_the_request sent_def idle_for_def by (metis snd_conv)
qed

end

text \<open>
  A device that answers: \<open>reply\<close> is what it sends for a set-up packet, and after a poll the data
  buffer begins with it.
\<close>

locale device_bus = tame_bus +
  fixes reply :: "USB_Setup_TypeDef \<Rightarrow> u8 list"
  assumes bus_reply: "request_ready p w \<Longrightarrow> length (reply (ctl_setup (ctl p w))) \<le> length (Data (device (hosts w p)))
    \<Longrightarrow> take (length (reply (ctl_setup (ctl p w)))) (Data (device (hosts (E w) p))) = reply (ctl_setup (ctl p w))"
begin

lemma request_reads:
  assumes "request_ready p w" "RequestState (hosts w p) = CMD_SEND"
    and "bmRequestType s AND 0x80 = 0x80" "wLength s \<noteq> 0" "length (reply s) \<le> length (Data (device (hosts w p)))"
  shows "\<exists>w'. run_req (7 + k) (std_request E p s b n) w = (USBH_OK, w')
    \<and> trace w' = trace w @ in_calls p w s b n
    \<and> faults w' = faults w \<and> request_ready p w' \<and> RequestState (hosts w' p) = CMD_SEND
    \<and> ctl_setup (ctl p w') = s \<and> keeps p w w'
    \<and> take (length (reply s)) (Data (device (hosts w' p))) = reply s"
proof -
  from request_in [OF assms(1-4), of k b n] obtain w' w0 where
    1: "run_req (7 + k) (std_request E p s b n) w = (USBH_OK, w')"
    "trace w' = trace w @ in_calls p w s b n"
    "faults w' = faults w" "request_ready p w'" "RequestState (hosts w' p) = CMD_SEND"
    "ctl_setup (ctl p w') = s" "keeps p w w'"
    and 2: "request_ready p w0" "ctl_setup (ctl p w0) = s" "device (hosts w' p) = device (hosts (E w0) p)"
    by blast
  have "length (Data (device (hosts (E w0) p))) = length (Data (device (hosts w0 p)))"
    using bus_tame keepsD(10) by (auto simp: tame_def)
  then have "length (reply s) \<le> length (Data (device (hosts w0 p)))"
    using keepsD(10) [OF 1(7)] 2(3) assms(5) by simp
  with bus_reply [of w0] 2 have "take (length (reply s)) (Data (device (hosts w' p))) = reply s" by simp
  with 1 show ?thesis by blast
qed

end

text \<open>Nothing but the reply is written to the buffer.\<close>

locale exact_bus = device_bus +
  assumes bus_rest: "request_ready p w \<Longrightarrow> drop (length (reply (ctl_setup (ctl p w)))) (Data (device (hosts (E w) p)))
      = drop (length (reply (ctl_setup (ctl p w)))) (Data (device (hosts w p)))"

text \<open>A device that never answers: no channel changes its URB state.\<close>

locale silent_bus = quiet_bus +
  assumes bus_silent: "request_ready p w \<Longrightarrow> hc_urb_state (hc_get (E w) ch) = hc_urb_state (hc_get w ch)"
begin

lemma setup_unanswered:
  assumes "at_stage p r CTRL_SETUP w"
  shows "\<exists>w'. request E p r w = (USBH_BUSY, w') \<and> at_stage p r CTRL_SETUP_WAIT w'
    \<and> sent [HC_StartXfer (rq_out r) 0 USBH_EP_CONTROL HC_PID_SETUP (Packet (rq_setup r)) 8] w w'
    \<and> hc_urb_state (hc_get w' (rq_out r)) = USBH_URB_IDLE"
proof -
  let ?w = "set_ctl_state p CTRL_SETUP_WAIT (snd (USBH_LL_SubmitURB p (rq_out r) 0 0 0 (BSetup p) 8 0 w))"
  have "request E p r w = (USBH_BUSY, ?w)"
    by (simp add: request_wait [OF assms] USBH_HandleControl_def at_stageD(1,6) [OF assms] USBH_CtlSendSetup_def)
  moreover have "hc_urb_state (hc_get ?w (rq_out r)) = USBH_URB_IDLE"
    using submit_outs(2) [OF request_readyD(1-3) [OF at_stageD(7) [OF assms]]] at_stageD(6,7,9) [OF assms]
    by (simp add: set_ctl_state_def request_ready_def)
  ultimately show ?thesis using stage_setup [OF assms, of E] by auto
qed

lemma poll_unanswered:
  assumes "at_stage p r CTRL_SETUP_WAIT w" "hc_urb_state (hc_get w (rq_out r)) = USBH_URB_IDLE"
  shows "request E p r w = (USBH_BUSY, E w)"
  using bus_silent [OF at_stageD(7) [OF assms(1)]] assms(2)
  by (simp add: request_wait [OF assms(1)] USBH_HandleControl_def at_stageD(1,6) [OF assms(1)]
      poll_stage [OF assms(1) at_stageD(9) [OF assms(1)]])

end

section \<open>The environments\<close>

interpretation silence: silent_bus id p for p
  by unfold_locales (simp_all add: tame_def)


lemma run_irq_keeps: "keeps p w0 (run_irq h ch i w) = keeps p w0 w"
  by (simp add: run_irq_def Let_def chk_hc_def USBH_LL_NotifyURBChange_def)
    (simp add: keeps_def)

lemma completing_tame: "tame completing p"
proof -
  have 1: "keeps p w0 (fold (channel_irq ch) xs w) = keeps p w0 w" for ch xs w0 w
    by (induction xs arbitrary: w) (simp_all add: channel_irq_def run_irq_keeps)
  have "keeps p w0 (fold (\<lambda>i. channel_irqs hs (of_nat i)) xs w) = keeps p w0 w" for hs xs w0 w
    by (induction xs arbitrary: w) (simp_all add: channel_irqs_def 1)
  then show ?thesis by (simp add: tame_def completing_def all_channels_def)
qed

lemma all_channels_data: "device (hosts (all_channels hs w) p) = device (hosts w p)"
proof -
  have 0: "device (hosts (run_irq h ch i w) p) = device (hosts w p)" for h ch i w
    by (simp add: run_irq_def Let_def chk_hc_def USBH_LL_NotifyURBChange_def)
  have 1: "device (hosts (fold (channel_irq ch) xs w) p) = device (hosts w p)" for ch xs w
    by (induction xs arbitrary: w) (simp_all add: channel_irq_def 0)
  have "device (hosts (fold (\<lambda>i. channel_irqs hs (of_nat i)) xs w) p) = device (hosts w p)" for xs w
    by (induction xs arbitrary: w) (simp_all add: channel_irqs_def 1)
  then show ?thesis by (simp add: all_channels_def)
qed

interpretation completing_dev: tame_bus completing p for p
  by (intro tame_bus.intro quiet_bus.intro quiet_bus_axioms.intro completing.reliable_bus_axioms
      completing.bus_axioms completing_tame)

definition overwrite :: "'a list \<Rightarrow> 'a list \<Rightarrow> 'a list" where
  "overwrite xs ys = take (length ys) (xs @ drop (length xs) ys)"

lemma length_overwrite [simp]: "length (overwrite xs ys) = length ys"
  by (simp add: overwrite_def)

lemma take_overwrite: "length xs \<le> length ys \<Longrightarrow> take (length xs) (overwrite xs ys) = xs"
  by (simp add: overwrite_def)

lemma drop_overwrite: "drop (length xs) (overwrite xs ys) = drop (length xs) ys"
  by (cases "length xs \<le> length ys") (simp_all add: overwrite_def)

definition replying :: "ptr \<Rightarrow> (USB_Setup_TypeDef \<Rightarrow> u8 list) \<Rightarrow> usb \<Rightarrow> usb" where
  "replying p reply w =
     upd_dev p (\<lambda>d. d\<lparr>Data := overwrite (reply (ctl_setup (ctl p w))) (Data d)\<rparr>) (completing w)"

interpretation replying: exact_bus "replying p reply" p reply for p reply
proof
  show "tame (replying p reply) p"
    using completing_tame [of p] by (simp add: tame_def replying_def keeps_upd strip_def)
  fix w assume r: "request_ready p w"
  note c = completing.bus_ready [OF r] completing.bus_ctl [OF r] completing.bus_request [OF r]
    completing.bus_static [OF r] completing.bus_trace [OF r] completing.bus_faults [OF r]
  have "request_ready p (replying p reply w) = request_ready p (completing w)"
    unfolding replying_def by (rule request_ready_cong) simp_all
  with c(1) show "request_ready p (replying p reply w)" by simp
  from c show "Control (hosts (replying p reply w) p) = Control (hosts w p)"
    "RequestState (hosts (replying p reply w) p) = RequestState (hosts w p)"
    "pUser (hosts (replying p reply w) p) = pUser (hosts w p)
       \<and> is_child (hosts (replying p reply w) p) = is_child (hosts w p)"
    "trace (replying p reply w) = trace w" "faults (replying p reply w) = faults w"
    by (simp_all add: replying_def)
  show "hc_urb_state (hc_get (replying p reply w) ch) = USBH_URB_DONE" if "unat ch < 15" for ch
    using completing.bus_done [OF r that] by (simp add: replying_def)
  show "take (length (reply (ctl_setup (ctl p w)))) (Data (device (hosts (replying p reply w) p)))
      = reply (ctl_setup (ctl p w))"
    if "length (reply (ctl_setup (ctl p w))) \<le> length (Data (device (hosts w p)))"
    using that completing_tame [of p] keepsD(10) [of p w "completing w"]
    by (simp add: replying_def take_overwrite tame_def)
  have "Data (device (hosts (completing w) p)) = Data (device (hosts w p))" by (simp add: completing_def all_channels_data)
  then show "drop (length (reply (ctl_setup (ctl p w)))) (Data (device (hosts (replying p reply w) p)))
      = drop (length (reply (ctl_setup (ctl p w)))) (Data (device (hosts w p)))"
    by (simp add: replying_def drop_overwrite)
qed

section \<open>Bulk transfers\<close>

text \<open>What a bulk transfer on channel \<open>ch\<close> carries, whatever its data toggle is.\<close>

definition bulk_out :: "u8 \<Rightarrow> buf_ptr \<Rightarrow> nat \<Rightarrow> hal_call \<Rightarrow> bool" where
  "bulk_out ch b n x \<longleftrightarrow> (\<exists>pid. x = HC_StartXfer ch 0 USBH_EP_BULK pid (Buffer b) (of_nat n))"

definition bulk_in :: "u8 \<Rightarrow> buf_ptr \<Rightarrow> nat \<Rightarrow> hal_call \<Rightarrow> bool" where
  "bulk_in ch b n x \<longleftrightarrow> (\<exists>pid. x = HC_StartXfer ch 1 USBH_EP_BULK pid (Buffer b) (of_nat n))"

end
