(* ===== verification/Usb_Core_Props.thy ===== *)
theory Usb_Core_Props
  imports Usb_Core
begin

text \<open>
  The host core: device addresses as a slot pool and their uniqueness over all handles, what
  initialisation leaves, the transitions of the host state machine, class selection, and the
  connect and disconnect events.
\<close>

section \<open>Device addresses as a slot pool\<close>

text \<open>
  The address table \<open>q\<close> is shared by the root handle and all its children. A new handle \<open>h\<close> is
  attached to the table and has no address yet.
\<close>

definition attach :: "ptr \<Rightarrow> ptr \<Rightarrow> usb \<Rightarrow> usb" where
  "attach q h w = set_dev_address h 0 (upd_host h (\<lambda>x. x\<lparr>address := q\<rparr>) w)"

definition addrs_ok :: "ptr \<Rightarrow> usb \<Rightarrow> bool" where
  "addrs_ok q w \<longleftrightarrow> USBH_MAX_NUM_DEVICE \<le> length (bytes w q)"

definition addrs_used :: "ptr \<Rightarrow> usb \<Rightarrow> nat set" where
  "addrs_used q w = {i. i < USBH_MAX_NUM_DEVICE \<and> rd8 (bytes w q) i \<noteq> 0}"

definition alloc_addr :: "ptr \<Rightarrow> ptr \<Rightarrow> usb \<Rightarrow> nat option \<times> usb" where
  "alloc_addr q h w =
    (case USBH_Get_One_Address h (attach q h w) of
       (a, w') \<Rightarrow> if a = 0 then (None, w) else (Some (unat a - 1), w'))"

definition free_addr :: "ptr \<Rightarrow> nat \<Rightarrow> usb \<Rightarrow> usb" where
  "free_addr q i w = snd (USBH_Free_One_Address 0 (set_dev_address 0 (of_nat (i + 1)) (attach q 0 w)))"

lemma set_dev_address_simps [simp]:
  "bytes (set_dev_address h a w) = bytes w" "address (hosts (set_dev_address h a w) p) = address (hosts w p)"
  "dev_address (device (hosts (set_dev_address h a w) p)) = (if p = h then a else dev_address (device (hosts w p)))"
  "faults (set_dev_address h a w) = faults w"
  by (simp_all add: set_dev_address_def)

lemma attach_simps [simp]:
  "bytes (attach q h w) = bytes w" "address (hosts (attach q h w) h) = q"
  "dev_address (device (hosts (attach q h w) h)) = 0"
  by (simp_all add: attach_def)

lemma set_addr_used_simps:
  assumes "0 \<le> i" "nat i < length (bytes w (address (hosts w p)))"
  shows "bytes (set_addr_used p i v w) = (bytes w)(address (hosts w p) := (bytes w (address (hosts w p)))[nat i := v])"
    "hosts (set_addr_used p i v w) = hosts w" "faults (set_addr_used p i v w) = faults w"
  using assms by (simp_all add: set_addr_used_def Let_def)

lemma set_addr_used_frame [simp]:
  "hosts (set_addr_used p i v w) = hosts w" "words (set_addr_used p i v w) = words w"
  "alive (set_addr_used p i v w) = alive w" "outs (set_addr_used p i v w) = outs w"
  "hc (set_addr_used p i v w) = hc w" "os_event (set_addr_used p i v w) = os_event w"
  by (simp_all add: set_addr_used_def Let_def)

lemma small_addr: "i < 8 \<Longrightarrow> (of_nat (i + 1) :: u8) \<noteq> 0 \<and> unat (of_nat (i + 1) :: u8) = i + 1"
proof -
  assume "i < 8"
  then have "unat (of_nat (i + 1) :: u8) = i + 1" by (simp only: unat_of_nat) simp
  then show ?thesis by (metis add_is_0 one_neq_zero unat_0)
qed

lemma Get_One_Address_eq:
  assumes "dev_address (device (hosts w p)) = 0" "addrs_ok (address (hosts w p)) w"
  shows "USBH_Get_One_Address p w =
    (case first_idx (\<lambda>i. rd8 (bytes w (address (hosts w p))) i = 0) 0 8 of
       Some i \<Rightarrow> (of_nat (i + 1), set_dev_address p (of_nat (i + 1)) (set_addr_used p (int i) 1 w))
     | None \<Rightarrow> (0, w))"
  using assms by (simp add: USBH_Get_One_Address_def addr_used_def)

lemma addrs_used_set:
  assumes "addrs_ok q w" "i < 8" "address (hosts w p) = q"
  shows "addrs_used q (set_addr_used p (int i) v w)
      = (if v = 0 then addrs_used q w - {i} else insert i (addrs_used q w))"
    and "addrs_ok q (set_addr_used p (int i) v w)"
  using assms by (auto simp: addrs_used_def addrs_ok_def set_addr_used_simps rd8_def nth_list_update)

lemma addrs_frame [simp]:
  "addrs_ok q (set_dev_address p a w) = addrs_ok q w" "addrs_used q (set_dev_address p a w) = addrs_used q w"
  "addrs_ok q (attach q' p w) = addrs_ok q w" "addrs_used q (attach q' p w) = addrs_used q w"
  by (simp_all add: addrs_ok_def addrs_used_def)

lemma alloc_addr_eq:
  assumes "addrs_ok q w"
  shows "alloc_addr q h w =
    (case first_idx (\<lambda>i. rd8 (bytes w q) i = 0) 0 8 of
       Some i \<Rightarrow> (Some i, set_dev_address h (of_nat (i + 1)) (set_addr_used h (int i) 1 (attach q h w)))
     | None \<Rightarrow> (None, w))"
proof -
  have e: "USBH_Get_One_Address h (attach q h w) =
    (case first_idx (\<lambda>i. rd8 (bytes w q) i = 0) 0 8 of
       Some i \<Rightarrow> (of_nat (i + 1), set_dev_address h (of_nat (i + 1)) (set_addr_used h (int i) 1 (attach q h w)))
     | None \<Rightarrow> (0, attach q h w))"
    using Get_One_Address_eq [of "attach q h w" h] assms by simp
  show ?thesis
  proof (cases "first_idx (\<lambda>i. rd8 (bytes w q) i = 0) 0 8")
    case None
    then show ?thesis by (simp add: alloc_addr_def e)
  next
    case (Some i)
    then have "i < 8" using first_idx_Some by blast
    with Some small_addr [OF this] show ?thesis by (simp add: alloc_addr_def e del: of_nat_add)
  qed
qed

interpretation addrs: slot_pool USBH_MAX_NUM_DEVICE "addrs_ok q" "addrs_used q" "alloc_addr q" "free_addr q" for q
proof
  fix s s' :: usb and a and i :: nat
  show "addrs_used q s \<subseteq> {..<8}" by (auto simp: addrs_used_def)
  assume o: "addrs_ok q s"
  {
    assume "alloc_addr q a s = (Some i, s')"
    then have f: "first_idx (\<lambda>i. rd8 (bytes s q) i = 0) 0 8 = Some i"
      and s': "s' = set_dev_address a (of_nat (i + 1)) (set_addr_used a (int i) 1 (attach q a s))"
      by (auto simp: alloc_addr_eq [OF o] simp del: of_nat_add split: option.splits)
    from first_idx_Some [OF f] have i: "i < 8" "i \<notin> addrs_used q s" "\<forall>j<i. j \<in> addrs_used q s"
      by (auto simp: addrs_used_def)
    with addrs_used_set [of q "attach q a s" i a 1] o show "addrs_ok q s' \<and> i < 8 \<and> i \<notin> addrs_used q s
        \<and> addrs_used q s' = insert i (addrs_used q s) \<and> (\<forall>j<i. j \<in> addrs_used q s)"
      by (simp add: s')
  }
  {
    assume "alloc_addr q a s = (None, s')"
    then have "first_idx (\<lambda>i. rd8 (bytes s q) i = 0) 0 8 = None" and "s' = s"
      by (auto simp: alloc_addr_eq [OF o] simp del: of_nat_add split: option.splits)
    then show "s' = s \<and> addrs_used q s = {..<8}" by (auto simp: first_idx_None addrs_used_def)
  }
  {
    assume i: "i < 8"
    define a where "a = (of_nat (i + 1) :: u8)"
    let ?t = "set_dev_address 0 a (attach q 0 s)"
    from small_addr [OF i] have a: "a \<noteq> 0" "int (unat a) = int (i + 1)" by (simp_all add: a_def)
    then have u: "uint a - 1 = int i" by simp
    have "free_addr q i s = set_dev_address 0 0 (set_addr_used 0 (int i) 0 ?t)"
      unfolding free_addr_def USBH_Free_One_Address_def Let_def a_def [symmetric]
      using a(1) by (simp add: u)
    with addrs_used_set [of q ?t i 0 0] o i show "addrs_ok q (free_addr q i s)
        \<and> addrs_used q (free_addr q i s) = addrs_used q s - {i}"
      by simp
  }
qed

section \<open>Addresses are unique\<close>

text \<open>
  Among the handles \<open>hs\<close> that share the table \<open>q\<close>, no two have the same non-zero address, and every
  address in use is marked in the table.
\<close>

definition addr_inv :: "ptr \<Rightarrow> ptr set \<Rightarrow> usb \<Rightarrow> bool" where
  "addr_inv q hs w \<longleftrightarrow> addrs_ok q w
     \<and> (\<forall>h \<in> hs. address (hosts w h) = q
          \<and> (dev_address (device (hosts w h)) \<noteq> 0 \<longrightarrow>
               unat (dev_address (device (hosts w h))) - 1 \<in> addrs_used q w))
     \<and> (\<forall>h \<in> hs. \<forall>h' \<in> hs. h \<noteq> h' \<and> dev_address (device (hosts w h)) \<noteq> 0 \<longrightarrow>
          dev_address (device (hosts w h)) \<noteq> dev_address (device (hosts w h')))"

lemma unat_pred_inj: "a \<noteq> 0 \<Longrightarrow> b \<noteq> 0 \<Longrightarrow> unat a - 1 = unat b - 1 \<Longrightarrow> a = (b :: u8)"
  by (metis Suc_pred' One_nat_def unat_gt_0 word_unat_eq_iff diff_Suc_1 gr0_conv_Suc)

lemma same_address: "address h = q \<Longrightarrow> h\<lparr>address := q\<rparr> = (h :: USBH_HandleTypeDef)"
  by (cases h) simp

lemma same_dev_address:
  "dev_address (device h) = 0 \<Longrightarrow> device_update (dev_address_update (\<lambda>_. 0)) h = (h :: USBH_HandleTypeDef)"
  by (cases h, cases "device h") simp

lemma attach_id: "address (hosts w p) = q \<Longrightarrow> dev_address (device (hosts w p)) = 0 \<Longrightarrow> attach q p w = w"
  by (simp add: attach_def set_dev_address_def upd_host_def same_address same_dev_address)

lemma get_address_cases:
  assumes "addr_inv q hs w" "p \<in> hs" "dev_address (device (hosts w p)) = 0"
  obtains (full) "USBH_Get_One_Address p w = (0, w)" "addrs_used q w = {..<8}"
  | (got) i w' where "USBH_Get_One_Address p w = (of_nat (i + 1), w')" "i < 8" "i \<notin> addrs_used q w"
      "addrs_used q w' = insert i (addrs_used q w)" "addrs_ok q w'"
      "hosts w' = (hosts w)(p := device_update (dev_address_update (\<lambda>_. of_nat (i + 1))) (hosts w p))"
proof -
  from assms have q: "address (hosts w p) = q" and ok: "addrs_ok q w" by (auto simp: addr_inv_def)
  have at: "attach q p w = w" using attach_id [OF q assms(3)] .
  have g: "USBH_Get_One_Address p w =
    (case first_idx (\<lambda>i. rd8 (bytes w q) i = 0) 0 8 of
       Some i \<Rightarrow> (of_nat (i + 1), set_dev_address p (of_nat (i + 1)) (set_addr_used p (int i) 1 w))
     | None \<Rightarrow> (0, w))"
    using Get_One_Address_eq [OF assms(3)] q ok by simp
  show thesis
  proof (cases "first_idx (\<lambda>i. rd8 (bytes w q) i = 0) 0 8")
    case None
    then have "alloc_addr q p w = (None, w)" by (simp add: alloc_addr_eq [OF ok])
    with addrs.alloc_full [OF ok] None g full show thesis by simp
  next
    case (Some i)
    let ?w = "set_dev_address p (of_nat (i + 1)) (set_addr_used p (int i) 1 w)"
    from Some have "alloc_addr q p w = (Some i, ?w)" by (simp add: alloc_addr_eq [OF ok] at)
    from addrs.alloc_slot [OF ok this] got [of i ?w] Some g show thesis
      by (simp add: set_dev_address_def)
  qed
qed

lemma get_address_inv:
  assumes "addr_inv q hs w" "p \<in> hs"
  shows "addr_inv q hs (snd (USBH_Get_One_Address p w))"
proof (cases "dev_address (device (hosts w p)) = 0")
  case False
  with assms show ?thesis by (simp add: USBH_Get_One_Address_def Let_def)
next
  case True
  from assms True show ?thesis
  proof (cases rule: get_address_cases)
    case full
    with assms show ?thesis by simp
  next
    case (got i w')
    define a where "a = (of_nat (i + 1) :: u8)"
    have a: "unat a - 1 = i" using small_addr [OF got(2)] by (simp add: a_def)
    have h: "hosts w' = (hosts w)(p := device_update (dev_address_update (\<lambda>_. a)) (hosts w p))"
      using got(6) by (simp add: a_def)
    have old: "dev_address (device (hosts w h)) \<noteq> a" if "h \<in> hs" "dev_address (device (hosts w h)) \<noteq> 0" for h
      using assms(1) that got(3) a by (auto simp: addr_inv_def)
    have a0: "a \<noteq> 0" using small_addr [OF got(2)] by (simp add: a_def)
    have "addr_inv q hs w'"
      using assms(1) got(4,5) a a0 True old unfolding addr_inv_def h by (auto split: if_splits)
    with got(1) show ?thesis by simp
  qed
qed

lemma free_address_inv:
  assumes "addr_inv q hs w" "p \<in> hs"
  shows "addr_inv q hs (snd (USBH_Free_One_Address p w)) \<and> faults (snd (USBH_Free_One_Address p w)) = faults w"
proof (cases "dev_address (device (hosts w p)) = 0")
  case True
  with assms show ?thesis by (simp add: USBH_Free_One_Address_def Let_def)
next
  case False
  define a where "a = dev_address (device (hosts w p))"
  define i where "i = unat a - 1"
  from assms False have q: "address (hosts w p) = q" and ok: "addrs_ok q w" and iu: "i \<in> addrs_used q w"
    by (auto simp: addr_inv_def a_def i_def)
  then have i8: "i < 8" by (simp add: addrs_used_def)
  have "0 < unat a" using False by (simp add: a_def unat_gt_0)
  then have "int (unat a) - 1 = int i" by (simp add: i_def)
  then have u: "uint a - 1 = int i" by simp
  have f: "snd (USBH_Free_One_Address p w) = set_dev_address p 0 (set_addr_used p (int i) 0 w)"
    using False u by (simp add: USBH_Free_One_Address_def Let_def a_def [symmetric])
  have other: "unat (dev_address (device (hosts w h))) - 1 \<noteq> i"
    if "h \<in> hs" "h \<noteq> p" "dev_address (device (hosts w h)) \<noteq> 0" for h
    using assms that False unat_pred_inj [of "dev_address (device (hosts w h))" a]
    by (auto simp: addr_inv_def a_def i_def)
  have "addr_inv q hs (set_dev_address p 0 (set_addr_used p (int i) 0 w))"
    using assms addrs_used_set [OF ok i8 q, of 0] other unfolding addr_inv_def
    by (auto simp: set_dev_address_def addrs_ok_def addrs_used_def)
  moreover have "faults (set_addr_used p (int i) 0 w) = faults w"
    using ok i8 q by (intro set_addr_used_simps(3)) (auto simp: addrs_ok_def)
  ultimately show ?thesis by (simp add: f)
qed

text \<open>
  C22: \<open>USBH_Get_One_Address\<close> and \<open>USBH_Free_One_Address\<close> keep the device addresses of all handles that
  share an address table distinct and marked as used; a new address is the number of a slot that was
  free and lies between 1 and 8, a handle that already has one keeps it, and 0 is returned only
  when all eight are taken.
\<close>

theorem addresses_unique:
  assumes "addr_inv q hs w" and "p \<in> hs" and "USBH_Get_One_Address p w = (a, w')"
  shows "addr_inv q hs w' \<and> addr_inv q hs (snd (USBH_Free_One_Address p w))
    \<and> a = dev_address (device (hosts w' p))
    \<and> (if dev_address (device (hosts w p)) \<noteq> 0 then w' = w
       else if a = 0 then w' = w \<and> addrs_used q w = {..<USBH_MAX_NUM_DEVICE}
       else 1 \<le> unat a \<and> unat a \<le> 8 \<and> unat a - 1 \<notin> addrs_used q w)
    \<and> faults (snd (USBH_Free_One_Address p w)) = faults w"
proof -
  have "addr_inv q hs w'" "addr_inv q hs (snd (USBH_Free_One_Address p w))"
    "faults (snd (USBH_Free_One_Address p w)) = faults w"
    using get_address_inv [OF assms(1,2)] free_address_inv [OF assms(1,2)] assms(3) by simp_all
  moreover have "a = dev_address (device (hosts w' p)) \<and>
    (if dev_address (device (hosts w p)) \<noteq> 0 then w' = w
       else if a = 0 then w' = w \<and> addrs_used q w = {..<8}
       else 1 \<le> unat a \<and> unat a \<le> 8 \<and> unat a - 1 \<notin> addrs_used q w)"
  proof (cases "dev_address (device (hosts w p)) = 0")
    case False
    with assms(3) show ?thesis by (auto simp: USBH_Get_One_Address_def Let_def)
  next
    case True
    from assms(1,2) True show ?thesis
    proof (cases rule: get_address_cases)
      case full
      with assms(3) True show ?thesis by simp
    next
      case (got i v)
      have "a = of_nat (i + 1)" "w' = v" using got(1) assms(3) by simp_all
      with small_addr [OF got(2)] got(2,3,6) True show ?thesis by (auto simp del: of_nat_add)
    qed
  qed
  ultimately show ?thesis by blast
qed

definition addr_world :: usb where
  "addr_world = reset_usb\<lparr>bytes := (\<lambda>_. 1 # replicate 31 0),
     hosts := (\<lambda>_. zero_host)(2 := zero_host\<lparr>device := zero_device\<lparr>dev_address := 1\<rparr>\<rparr>)\<rparr>"

theorem addresses_unique_witness:
  "fst (USBH_Get_One_Address 1 addr_world) = 2
    \<and> addr_inv 0 {1, 2} (snd (USBH_Get_One_Address 1 addr_world))"
proof -
  have i: "addr_inv 0 {1, 2} addr_world"
    by (simp add: addr_inv_def addr_world_def reset_usb_def zero_host_def zero_device_def addrs_ok_def
        addrs_used_def rd8_def)
  have f: "fst (USBH_Get_One_Address 1 addr_world) = 2"
    by (simp add: USBH_Get_One_Address_def addr_world_def reset_usb_def zero_host_def zero_device_def
        addr_used_def rd8_def numeral_eq_Suc first_idx.simps)
  from addresses_unique [OF i, of 1] f show ?thesis
    by (cases "USBH_Get_One_Address 1 addr_world") simp
qed

section \<open>Initialisation\<close>

lemma set_pipe_word_words [simp]:
  "words (set_pipe_word p i v w) = (words w)(Pipes (hosts w p) := (words w (Pipes (hosts w p)))[i := v])"
  by (simp add: set_pipe_word_def Let_def)

lemma clear_pipes:
  assumes "n \<le> 15" "length (words w (Pipes (hosts w p))) = 15"
  shows "fold (\<lambda>i. set_pipe_word p i 0) [0..<n] w
     = w\<lparr>words := (words w)(Pipes (hosts w p) := replicate n 0 @ drop n (words w (Pipes (hosts w p))))\<rparr>"
  using assms
proof (induction n)
  case 0
  then show ?case by (simp add: fun_upd_idem)
next
  case (Suc n)
  let ?w = "fold (\<lambda>i. set_pipe_word p i 0) [0..<n] w"
  have ih: "?w = w\<lparr>words := (words w)(Pipes (hosts w p)
      := replicate n 0 @ drop n (words w (Pipes (hosts w p))))\<rparr>"
    by (rule Suc.IH) (use Suc.prems in simp_all)
  have d: "drop n (words w (Pipes (hosts w p)))
      = words w (Pipes (hosts w p)) ! n # drop (Suc n) (words w (Pipes (hosts w p)))"
    using Suc.prems by (simp add: Cons_nth_drop_Suc)
  have r: "replicate (Suc n) (0 :: u32) = replicate n 0 @ [0]"
    by (simp add: replicate_append_same)
  have "fold (\<lambda>i. set_pipe_word p i 0) [0..<Suc n] w = set_pipe_word p n 0 ?w" by simp
  also have "\<dots> = w\<lparr>words := (words w)(Pipes (hosts w p)
      := replicate (Suc n) 0 @ drop (Suc n) (words w (Pipes (hosts w p))))\<rparr>"
    unfolding ih d r using Suc.prems
    by (simp add: set_pipe_word_def Let_def list_update_append del: replicate_Suc)
  finally show ?case .
qed

lemma alloc_tables_ok:
  assumes "mallocs w = []" "0 < brk w"
  shows "alloc_tables p w = (upd_host p (\<lambda>h. h\<lparr>Pipes := brk w, address := Suc (brk w)\<rparr>) w)
    \<lparr>brk := Suc (Suc (brk w)), words := (words w)(brk w := replicate 15 0),
      bytes := (bytes w)(Suc (brk w) := replicate 32 0)\<rparr>"
  using assms by (simp add: alloc_tables_def malloc_def upd_host_def)

text \<open>The handle \<open>DeInitStateMachine\<close> leaves.\<close>

definition fresh_host :: "USBH_HandleTypeDef \<Rightarrow> USBH_HandleTypeDef" where
  "fresh_host h =
     device_update (\<lambda>d. d\<lparr>Data := replicate 512 0, dev_address := 0, dev_speed := USBH_SPEED_FULL\<rparr>)
      (Control_update (\<lambda>c. c\<lparr>ctl_state := CTRL_SETUP, pipe_size := 0x40, errorcount := 0\<rparr>)
        (h\<lparr>gState := HOST_IDLE, EnumState := ENUM_IDLE, RequestState := CMD_SEND, Timer := 0\<rparr>))"

lemma DeInitStateMachine_root:
  assumes "is_child (hosts w p) = 0" "pipes_ok p w"
  shows "hosts (snd (DeInitStateMachine p w)) = (hosts w)(p := fresh_host (hosts w p))"
    and "words (snd (DeInitStateMachine p w)) = (words w)(Pipes (hosts w p) := replicate 15 0)"
    and "outs (snd (DeInitStateMachine p w)) = outs w"
  using assms
  by (simp_all add: DeInitStateMachine_def Let_def clear_pipes pipes_ok_def upd_host_def fresh_host_def
      o_def)

lemma DeInitStateMachine_address:
  assumes "is_child (hosts w p) = 0" "pipes_ok p w"
  shows "dev_address (device (hosts w p)) = 0 \<Longrightarrow>
      faults (snd (DeInitStateMachine p w)) = faults w @ [OOB_Address (- 1)]
      \<and> bytes (snd (DeInitStateMachine p w)) = bytes w"
  using assms
  by (simp add: DeInitStateMachine_def Let_def clear_pipes pipes_ok_def upd_host_def set_addr_used_def)

lemma four_slots: "replicate 4 x = [x, x, x, x]"
  by (simp add: eval_nat_numeral)

text \<open>The four classes main.c registers, in order.\<close>

definition registered :: "USB_Class option list" where
  "registered = [Some MSC_Class, Some CH340_Class, Some HUB_Class, Some AOA_Class]"

text \<open>
  \<open>init_usb_host\<close>, run on a zeroed handle when memory is available, registers MSC, CH340, HUB and
  AOA in this order, leaves the host idle with empty channel and address tables and the next request
  free to start, initialises and starts the HCD driver before it switches VBUS on, and makes exactly
  one forbidden access: \<open>DeInitStateMachine\<close> writes \<open>address[-1]\<close>, since the device address is still 0.
\<close>

theorem init_usb_host_result:
  assumes "p \<noteq> NULL" and "hosts w p = zero_host" and "mallocs w = []" and "0 < brk w" and "user \<noteq> NULL"
  shows "\<exists>w'. init_usb_host E user p w = (USBH_OK, E w')
    \<and> pClass (hosts w' p) = registered \<and> ClassNumber (hosts w' p) = 4
    \<and> gState (hosts w' p) = HOST_IDLE \<and> EnumState (hosts w' p) = ENUM_IDLE
    \<and> RequestState (hosts w' p) = CMD_SEND \<and> pUser (hosts w' p) = user
    \<and> pipes_ok p w' \<and> pipes_used p w' = {} \<and> addr_inv (address (hosts w' p)) {p} w'
    \<and> addrs_used (address (hosts w' p)) w' = {}
    \<and> outs w' = outs w @ [HCD_Init, HCD_Start, VBUS True, Delay 200]
    \<and> faults w' = faults w @ [OOB_Address (- 1)]"
proof -
  define w1 where "w1 = alloc_tables p (upd_host p (\<lambda>h. h\<lparr>host_id := 0, pActiveClass := None, ClassNumber := 0\<rparr>) w)"
  have w1: "w1 = (upd_host p (\<lambda>h. h\<lparr>host_id := 0, pActiveClass := None, ClassNumber := 0,
        Pipes := brk w, address := Suc (brk w)\<rparr>) w)
    \<lparr>brk := Suc (Suc (brk w)), words := (words w)(brk w := replicate 15 0),
      bytes := (bytes w)(Suc (brk w) := replicate 32 0)\<rparr>"
    using assms(3,4) by (simp add: w1_def alloc_tables_ok upd_host_def)
  have c: "is_child (hosts w1 p) = 0" "pipes_ok p w1" "dev_address (device (hosts w1 p)) = 0"
    using assms(2) by (simp_all add: w1 pipes_ok_def zero_host_def zero_device_def)
  define w2 where "w2 = snd (DeInitStateMachine p w1)"
  have w2: "hosts w2 = (hosts w1)(p := fresh_host (hosts w1 p))"
    "words w2 = (words w1)(brk w := replicate 15 0)" "outs w2 = outs w"
    "faults w2 = faults w @ [OOB_Address (- 1)]" "bytes w2 = bytes w1"
    using DeInitStateMachine_root [OF c(1,2)] DeInitStateMachine_address [OF c]
    by (simp_all add: w2_def w1)
  have init: "snd (USBH_Init p user 0 w) = snd (USBH_LL_Init p
      ((upd_host p (\<lambda>h. h\<lparr>pUser := user\<rparr>) w2)\<lparr>os_event := []\<rparr>))"
    using assms(1,5) by (simp add: USBH_Init_def w1_def w2_def)
  have h2: "hosts w2 p = fresh_host (zero_host\<lparr>Pipes := brk w, address := Suc (brk w)\<rparr>)"
    using assms(2) by (simp add: w2(1) w1 zero_host_def)
  define w3 where "w3 = snd (USBH_RegisterClass p (Some AOA_Class) (snd (USBH_RegisterClass p (Some HUB_Class)
     (snd (USBH_RegisterClass p (Some CH340_Class) (snd (USBH_RegisterClass p (Some MSC_Class)
     (snd (USBH_Init p user 0 w)))))))))"
  have h3: "hosts w3 p = (fresh_host (zero_host\<lparr>Pipes := brk w, address := Suc (brk w)\<rparr>))
      \<lparr>pUser := user, pData := HHCD, Timer := frame_num w2, pClass := registered, ClassNumber := 4\<rparr>"
    unfolding w3_def init
    by (simp add: USBH_LL_Init_def Let_def USBH_LL_SetTimer_def USBH_RegisterClass_def h2
        fresh_host_def zero_host_def registered_def four_slots)
  have r3: "words w3 = words w2" "bytes w3 = bytes w2" "outs w3 = outs w2 @ [HCD_Init]" "faults w3 = faults w2"
    unfolding w3_def init
    by (simp_all add: USBH_LL_Init_def Let_def USBH_LL_SetTimer_def USBH_RegisterClass_def)
  let ?w = "out (Delay 200) (out (VBUS True) (out HCD_Start w3))"
  have nc: "is_child (hosts w3 p) = 0" "pData (hosts w3 p) = HHCD"
    by (simp_all add: h3 fresh_host_def zero_host_def)
  have "init_usb_host E user p w = USBH_Start E p w3" by (simp add: init_usb_host_def w3_def Let_def)
  also have "\<dots> = (USBH_OK, E ?w)"
    using nc by (simp add: USBH_Start_def USBH_LL_Start_def USBH_LL_DriverVBUS_def no_hcd_def USBH_Delay_def)
  finally have "init_usb_host E user p w = (USBH_OK, E ?w)" .
  moreover have "Pipes (hosts ?w p) = brk w" "address (hosts ?w p) = Suc (brk w)"
    "dev_address (device (hosts ?w p)) = 0" "pClass (hosts ?w p) = registered" "ClassNumber (hosts ?w p) = 4"
    "gState (hosts ?w p) = HOST_IDLE" "EnumState (hosts ?w p) = ENUM_IDLE"
    "RequestState (hosts ?w p) = CMD_SEND" "pUser (hosts ?w p) = user"
    by (simp_all add: h3 fresh_host_def)
  moreover have "words ?w (brk w) = replicate 15 0" "bytes ?w (Suc (brk w)) = replicate 32 0"
    "outs ?w = outs w @ [HCD_Init, HCD_Start, VBUS True, Delay 200]"
    "faults ?w = faults w @ [OOB_Address (- 1)]"
    by (simp_all add: r3 w2 w1)
  ultimately show ?thesis
    by (intro exI [of _ ?w]) (auto simp: pipes_ok_def pipes_used_def pipe_word_def addr_inv_def addrs_ok_def
        addrs_used_def rd8_def)
qed

theorem init_usb_host_result_witness:
  "fst (init_usb_host id 7 hUSBHost reset_usb) = USBH_OK"
  using init_usb_host_result [of hUSBHost reset_usb 7 id] by (fastforce simp: reset_usb_def)

section \<open>Class selection\<close>

text \<open>The class the scan over the four registered classes leaves active.\<close>

definition class_for :: "u8 \<Rightarrow> USB_Class option" where
  "class_for code = (if code = 0x08 then Some MSC_Class else if code = 0x09 then Some HUB_Class
     else if code = 0xff then Some AOA_Class else None)"

lemma upd_host_same [simp]: "hosts (upd_host p f w) p = f (hosts w p)"
  by simp

lemma scan_registered:
  assumes "pClass (hosts w p) = registered"
  shows "hosts (scan_classes p code w) = (hosts w)(p := (hosts w p)\<lparr>pActiveClass :=
      (if code \<in> {0x08, 0x09, 0xff} then class_for code else pActiveClass (hosts w p))\<rparr>)"
    and "faults (scan_classes p code w) = faults w"
proof -
  have four: "[0..<4] = [0, 1, 2, 3 :: nat]" by (simp add: upt_rec)
  show "hosts (scan_classes p code w) = (hosts w)(p := (hosts w p)\<lparr>pActiveClass :=
      (if code \<in> {0x08, 0x09, 0xff} then class_for code else pActiveClass (hosts w p))\<rparr>)"
    "faults (scan_classes p code w) = faults w"
    using assms
    by (simp_all add: scan_classes_def four match_class_def registered_def class_for_def upd_host_def)
qed

lemma match_outs: "outs (match_class p code i w) = outs w"
  by (simp add: match_class_def split: option.splits)

lemma scan_outs: "outs (scan_classes p code w) = outs w"
proof -
  have "outs (fold (match_class p code) xs w) = outs w" for xs
    by (induction xs arbitrary: w) (simp_all add: match_outs)
  then show ?thesis by (simp add: scan_classes_def)
qed

text \<open>
  With the four classes registered, the scan of \<open>HOST_CHECK_CLASS\<close> starts the driver of the last
  class whose code matches, without touching a null entry: MSC for mass storage, HUB for hubs, and
  AOA for everything else, vendor-specific devices included. The CH340 driver, registered before AOA
  with the same class code 0xFF, is never the one that is started.
\<close>

theorem check_class_selects:
  assumes "pClass (hosts w p) = registered" and "ClassNumber (hosts w p) \<noteq> 0"
    and "code = bInterfaceClass (itf_desc p w 0)"
    and "c = (if code = 0x08 then MSC_Class else if code = 0x09 then HUB_Class else AOA_Class)"
  shows "\<exists>w0. host_check_class ops p w = Option.bind (start_class ops p c w0)
            (\<lambda>w. Some (osMessagePut USBH_STATE_CHANGED_EVENT w))
    \<and> pActiveClass (hosts w0 p) = Some c \<and> faults w0 = faults w \<and> outs w0 = outs w"
proof -
  let ?w1 = "upd_host p (\<lambda>h. h\<lparr>pActiveClass := None\<rparr>) w"
  let ?w2 = "scan_classes p code ?w1"
  have i: "bInterfaceClass (itf_desc p ?w1 0) = code" using assms(3) by (simp add: itf_desc_def)
  have s1: "hosts ?w2 = (hosts ?w1)(p := (hosts ?w1 p)\<lparr>pActiveClass :=
      (if code \<in> {0x08, 0x09, 0xff} then class_for code else None)\<rparr>)" "faults ?w2 = faults w" "outs ?w2 = outs w"
    using scan_registered [of ?w1 p code] assms(1) by (simp_all add: scan_outs)
  show ?thesis
  proof (cases "code \<in> {0x08, 0x09, 0xff}")
    case True
    then have "class_for code = Some c" using assms(4) by (auto simp: class_for_def)
    with True s1 assms(2) show ?thesis
      by (intro exI [of _ ?w2]) (simp add: host_check_class_def i Let_def)
  next
    case False
    let ?w3 = "scan_classes p 0xff (set_gstate p HOST_ABORT_STATE ?w2)"
    have "pClass (hosts (set_gstate p HOST_ABORT_STATE ?w2) p) = registered"
      using assms(1) s1(1) by (simp add: set_gstate_def)
    from scan_registered [OF this, where code = "0xff"] s1 have s3: "pActiveClass (hosts ?w3 p) = Some AOA_Class"
      "faults ?w3 = faults w" "outs ?w3 = outs w"
      by (simp_all add: class_for_def set_gstate_def scan_outs)
    from False assms(4) have "c = AOA_Class" by auto
    with False s1 s3 assms(2) show ?thesis
      by (intro exI [of _ ?w3]) (simp add: host_check_class_def i Let_def)
  qed
qed

definition check_world :: usb where
  "check_world = reset_usb\<lparr>hosts := (\<lambda>_. zero_host\<lparr>pClass := registered, ClassNumber := 4,
     gState := HOST_CHECK_CLASS, device := zero_device\<lparr>CfgDesc := zero_cfg_desc\<lparr>Itf_Desc :=
       [zero_itf_desc\<lparr>bInterfaceClass := 0xff\<rparr>, zero_itf_desc]\<rparr>\<rparr>\<rparr>)\<rparr>"

definition quiet_ops :: class_ops where
  "quiet_ops = \<lparr>cInit = \<lambda>_ _ w. Some (USBH_OK, w), cDeInit = \<lambda>_ _ w. Some (USBH_OK, w),
     cRequests = \<lambda>_ _ w. Some (USBH_OK, w), cBgndProcess = \<lambda>_ _ w. Some (USBH_OK, w),
     cSOFProcess = \<lambda>_ _ w. Some (USBH_OK, w)\<rparr>"

theorem check_class_selects_witness:
  "\<exists>w0. host_check_class quiet_ops hUSBHost check_world = Option.bind (start_class quiet_ops hUSBHost AOA_Class w0)
            (\<lambda>w. Some (osMessagePut USBH_STATE_CHANGED_EVENT w))
    \<and> pActiveClass (hosts w0 hUSBHost) = Some AOA_Class"
proof -
  have 1: "pClass (hosts check_world hUSBHost) = registered" "ClassNumber (hosts check_world hUSBHost) \<noteq> 0"
    "0xff = bInterfaceClass (itf_desc hUSBHost check_world 0)"
    by (simp_all add: check_world_def itf_desc_def)
  have 2: "AOA_Class = (if (0xff :: u8) = 0x08 then MSC_Class else if (0xff :: u8) = 0x09 then HUB_Class else AOA_Class)"
    by simp
  from check_class_selects [OF 1 2, of quiet_ops] show ?thesis by blast
qed

section \<open>Transitions of the host state machine\<close>

inductive host_next :: "HOST_StateTypeDef \<Rightarrow> HOST_StateTypeDef \<Rightarrow> bool" where
  stay: "host_next s s"
| wait_attach: "host_next HOST_IDLE HOST_DEV_WAIT_FOR_ATTACHMENT"
| enumerate: "host_next HOST_DEV_ATTACHED HOST_ENUMERATION"
| enum_done: "s = HOST_SET_CONFIGURATION \<or> s = HOST_INPUT \<Longrightarrow> host_next HOST_ENUMERATION s"
| enum_failed: "host_next HOST_ENUMERATION HOST_IDLE"
| select_cfg: "host_next HOST_INPUT HOST_SET_CONFIGURATION"
| configured: "host_next HOST_SET_CONFIGURATION HOST_CHECK_CLASS"
| class_started: "host_next HOST_CHECK_CLASS HOST_CLASS_REQUEST"
| no_class: "host_next HOST_CHECK_CLASS HOST_ABORT_STATE"
| class_ready: "host_next HOST_CLASS_REQUEST HOST_CLASS"
| no_driver: "host_next HOST_CLASS_REQUEST HOST_ABORT_STATE"
| gone: "host_next HOST_DEV_DISCONNECTED HOST_IDLE"

inductive_cases host_next_to_class: "host_next s HOST_CLASS"
inductive_simps host_next_from_idle: "host_next HOST_IDLE s"

abbreviation gst :: "ptr \<Rightarrow> usb \<Rightarrow> HOST_StateTypeDef" where
  "gst p w \<equiv> gState (hosts w p)"

text \<open>What the core decides with: the state and the driver in use.\<close>

definition core :: "ptr \<Rightarrow> usb \<Rightarrow> HOST_StateTypeDef \<times> USB_Class option" where
  "core p w = (gState (hosts w p), pActiveClass (hosts w p))"

lemma core_gst: "core p w = core p w' \<Longrightarrow> gst p w = gst p w' \<and> pActiveClass (hosts w p) = pActiveClass (hosts w' p)"
  by (simp add: core_def)

definition keeps_g :: "ptr \<Rightarrow> (usb \<Rightarrow> usb) \<Rightarrow> bool" where
  "keeps_g p f \<longleftrightarrow> (\<forall>w. core p (f w) = core p w)"

text \<open>A call of a driver, in one state, leaves the state and the choice of driver to the core.\<close>

definition call_keeps :: "ptr \<Rightarrow> (USB_Class \<Rightarrow> ptr \<Rightarrow> usb \<Rightarrow> (USBH_StatusTypeDef \<times> usb) option) \<Rightarrow> USB_Class \<Rightarrow> usb \<Rightarrow> bool" where
  "call_keeps p f c w \<longleftrightarrow> (\<forall>s v. f c p w = Some (s, v) \<longrightarrow> core p v = core p w)"

lemma call_keepsD: "call_keeps p f c w \<Longrightarrow> f c p w = Some (s, v) \<Longrightarrow> core p v = core p w"
  by (simp add: call_keeps_def)

lemma keeps_gD: "keeps_g p E \<Longrightarrow> core p (E w) = core p w"
  by (simp add: keeps_g_def)

lemma core_upd [simp]:
  "(\<And>h. gState (f h) = gState h \<and> pActiveClass (f h) = pActiveClass h) \<Longrightarrow> core p (upd_host q f w) = core p w"
  by (simp add: core_def)

lemma g_simple [simp]:
  "core p (set_ctl_state q st w) = core p w" "core p (set_request q r w) = core p w"
  "core p (stamp_timer q w) = core p w" "core p (fill_setup q rt rq v ix len w) = core p w"
  "core p (osMessagePut msg w) = core p w" "core p (chk ok flt w) = core p w" "core p (out hcall w) = core p w"
  "core p (faults_update ff w) = core p w" "core p (os_event_update oe w) = core p w"
  "core p (upd_dev q f w) = core p w" "core p (upd_ctl q g w) = core p w" "core p (set_enum q e w) = core p w"
  "core p (set_pipe_word q i x w) = core p w" "core p (set_dev_address q a w) = core p w"
  "core p (call_user q ev w) = core p w" "core p (mask_hprt q b w) = core p w"
  by (simp_all add: core_def set_ctl_state_def set_request_def stamp_timer_def fill_setup_def set_enum_def
      set_dev_address_def call_user_def USBH_UserProcess_def mask_hprt_def split: HOST_USER.split)

lemma g_pairs [simp]:
  "core p (snd (USBH_CtlSendSetup q b ch w)) = core p w" "core p (snd (USBH_CtlSendData q b n ch g w)) = core p w"
  "core p (snd (USBH_CtlReceiveData q b n ch w)) = core p w" "core p (snd (USBH_LL_Stop q w)) = core p w"
  "core p (snd (USBH_LL_Start q w)) = core p w" "core p (snd (USBH_FreePipe q ch w)) = core p w"
  "core p (snd (USBH_AllocPipe q a w)) = core p w" "core p (snd (USBH_Get_One_Address q w)) = core p w"
  "core p (snd (USBH_OpenPipe q ch e a sp t mps w)) = core p w"
  "core p (snd (USBH_LL_ResetPort q w)) = core p w"
  by (simp_all add: core_def ioreq_defs USBH_LL_Stop_def USBH_LL_Start_def USBH_LL_ResetPort_def USBH_FreePipe_def
      USBH_AllocPipe_def Let_def set_dev_address_def USBH_Get_One_Address_def USBH_OpenPipe_def USBH_LL_OpenPipe_def
      HAL_HCD_HC_Init_def chk_hc_def chk_hcd_def split: option.split)

lemma g_open [simp]: "core p (open_control_pipes q w) = core p w"
  by (simp add: open_control_pipes_def Let_def)

lemma g_free [simp]: "core p (free_control_pipes q w) = core p w"
  by (simp add: free_control_pipes_def Let_def)

lemma g_poll: "keeps_g p E \<Longrightarrow> core p (snd (USBH_LL_GetURBState E p ch w)) = core p w"
  by (simp add: USBH_LL_GetURBState_def Let_def chk_hc_def chk_hcd_def keeps_gD)

lemma g_delay: "keeps_g p E \<Longrightarrow> core p (USBH_Delay E n w) = core p w"
  by (simp add: USBH_Delay_def keeps_gD)

lemma g_control:
  assumes "keeps_g p E"
  shows "core p (snd (USBH_HandleControl E p w)) = core p w"
  by (simp add: USBH_HandleControl_def case_prod_beta Let_def g_poll [OF assms]
      split: CTRL_StateTypeDef.split)

lemma g_allocated: "core p (snd (pipes_allocated p w)) = core p w"
  by (simp add: pipes_allocated_def read_pipe_def Let_def)

lemma g_ctlreq:
  assumes "keeps_g p E"
  shows "core p (snd (USBH_CtlReq E p b n w)) = core p w"
  by (simp add: USBH_CtlReq_def case_prod_beta Let_def g_control [OF assms] g_allocated
      split: CMD_StateTypeDef.split)

lemma g_requests:
  assumes "keeps_g p E"
  shows "core p (snd (USBH_GetDescriptor E p rt v b n w)) = core p w"
    "core p (snd (USBH_SetAddress E p a w)) = core p w" "core p (snd (USBH_SetCfg E p c w)) = core p w"
    "core p (snd (USBH_Get_DevDesc E p l w)) = core p w"
  by (simp_all add: USBH_GetDescriptor_def USBH_SetAddress_def USBH_SetCfg_def USBH_Get_DevDesc_def
      g_ctlreq [OF assms] case_prod_beta Let_def)

lemma g_get_descriptor:
  "keeps_g p E \<Longrightarrow> USBH_GetDescriptor E p rt v b n w = (s, w') \<Longrightarrow> core p w' = core p w"
  by (metis g_requests(1) snd_conv)

lemma g_get_dev_desc: "keeps_g p E \<Longrightarrow> USBH_Get_DevDesc E p l w = (s, w') \<Longrightarrow> core p w' = core p w"
  by (metis g_requests(4) snd_conv)

lemma g_cfg_desc:
  assumes "keeps_g p E" "USBH_Get_CfgDesc E p n w = Some (s, w')"
  shows "core p w' = core p w"
  using assms(2) g_requests(1) [OF assms(1)] g_get_descriptor [OF assms(1)]
  by (auto simp: USBH_Get_CfgDesc_def case_prod_beta Let_def split: if_splits)

lemma g_string_desc:
  assumes "keeps_g p E" "USBH_Get_StringDesc E p i n w = Some (s, w')"
  shows "core p w' = core p w"
  using assms(2) g_requests(1) [OF assms(1)] g_get_descriptor [OF assms(1)]
  by (auto simp: USBH_Get_StringDesc_def case_prod_beta Let_def split: if_splits)

lemma g_enum:
  assumes "keeps_g p E" "USBH_HandleEnum E p w = Some (s, w')"
  shows "core p w' = core p w"
proof -
  have f: "core p (snd (enum_first E p w)) = core p w"
    using g_requests(4) [OF assms(1)] g_delay [OF assms(1)]
    by (simp add: enum_first_def case_prod_beta Let_def)
  have a: "core p (snd (enum_set_addr E p w)) = core p w"
    using g_requests(2) [OF assms(1)] g_delay [OF assms(1)]
    by (simp add: enum_set_addr_def case_prod_beta Let_def)
  show ?thesis
    using assms(2) f a g_requests(4) [OF assms(1)] g_get_dev_desc [OF assms(1)] g_cfg_desc [OF assms(1)] g_string_desc [OF assms(1)]
    by (auto simp: USBH_HandleEnum_def case_prod_beta Let_def split: ENUM_StateTypeDef.splits if_splits
        Option.bind_splits)
qed



lemma core_set [simp]: "core p (set_gstate p s w) = (s, pActiveClass (hosts w p))"
  by (simp add: core_def set_gstate_def)

lemma core_call: "core p (call_user q ev w) = core p w"
  by simp

lemma g_match [simp]: "gst p (match_class q code i w) = gst p w"
  by (simp add: match_class_def split: option.split)

lemma g_scan [simp]: "gst p (scan_classes q code w) = gst p w"
proof -
  have "gst p (fold (match_class q code) xs w) = gst p w" for xs
    by (induction xs arbitrary: w) simp_all
  then show ?thesis by (simp add: scan_classes_def)
qed

text \<open>A handle past the class check has a driver.\<close>

definition has_driver :: "ptr \<Rightarrow> usb \<Rightarrow> bool" where
  "has_driver p w \<longleftrightarrow> (gst p w \<in> {HOST_CLASS_REQUEST, HOST_CLASS} \<longrightarrow> pActiveClass (hosts w p) \<noteq> None)"

lemma start_class_core:
  assumes "\<And>c w. call_keeps p (cInit ops) c w" "start_class ops p c w = Some w'" "pActiveClass (hosts w p) = Some c"
  shows "host_next HOST_CHECK_CLASS (gst p w') \<and> has_driver p w'"
proof -
  from assms(2) obtain st v where v: "cInit ops c p w = Some (st, v)"
    and w': "w' = (if st = USBH_OK
            then call_user p HOST_USER_CLASS_SELECTED (set_gstate p HOST_CLASS_REQUEST v)
            else chk False Null_Class (set_gstate p HOST_ABORT_STATE
                   (upd_host p (\<lambda>h. h\<lparr>pActiveClass := None\<rparr>) v)))"
    by (auto simp: start_class_def split: Option.bind_splits)
  from call_keepsD [OF assms(1) v] assms(3) have "pActiveClass (hosts v p) = Some c" by (simp add: core_def)
  then have "core p w' = (if st = USBH_OK then (HOST_CLASS_REQUEST, Some c) else (HOST_ABORT_STATE, None))"
    by (simp add: w' core_call)
  then show ?thesis
    by (auto simp: core_def has_driver_def intro: host_next.intros split: if_splits)
qed

lemma check_class_core:
  assumes "\<And>c w. call_keeps p (cInit ops) c w" "host_check_class ops p w = Some w'" "gst p w = HOST_CHECK_CLASS"
  shows "host_next HOST_CHECK_CLASS (gst p w') \<and> has_driver p w'"
proof -
  let ?w = "upd_host p (\<lambda>h. h\<lparr>pActiveClass := None\<rparr>) w"
  let ?w1 = "scan_classes p (bInterfaceClass (itf_desc p ?w 0)) ?w"
  let ?w2 = "scan_classes p 0xff (set_gstate p HOST_ABORT_STATE ?w1)"
  from assms(2) obtain v where w': "w' = osMessagePut USBH_STATE_CHANGED_EVENT v"
    and v: "v = w \<or> (\<exists>c. pActiveClass (hosts ?w1 p) = Some c \<and> start_class ops p c ?w1 = Some v)
      \<or> (\<exists>c. pActiveClass (hosts ?w2 p) = Some c \<and> start_class ops p c ?w2 = Some v) \<or> v = ?w2"
    unfolding host_check_class_def Let_def
    by (auto split: if_splits option.splits Option.bind_splits)
  have "gst p ?w2 = HOST_ABORT_STATE" by (simp add: set_gstate_def)
  with v assms(3) have "host_next HOST_CHECK_CLASS (gst p v) \<and> has_driver p v"
    using start_class_core [OF assms(1)]
    by (elim disjE exE conjE) (simp_all add: has_driver_def host_next.stay host_next.no_class)
  then show ?thesis by (simp add: w' has_driver_def)
qed

lemma deinit_core:
  "core p (snd (DeInitStateMachine p w))
     = (if is_child (hosts w p) \<noteq> 0 then core p w else (HOST_IDLE, pActiveClass (hosts w p)))"
proof -
  have "hosts (fold (\<lambda>i. set_pipe_word p i 0) xs w) = hosts w" for xs
    by (induction xs arbitrary: w) (simp_all add: set_pipe_word_def Let_def)
  then show ?thesis by (simp add: DeInitStateMachine_def Let_def core_def)
qed

lemma enumeration_core:
  assumes "keeps_g p E" "host_enumeration E p w = Some (s, w')" "gst p w = HOST_ENUMERATION"
  shows "host_next HOST_ENUMERATION (gst p w') \<and> has_driver p w'"
proof -
  from assms(2) obtain v where e: "USBH_HandleEnum E p w = Some (s, v)"
    and w': "w' = (if s = USBH_OK then
          let v = upd_dev p (\<lambda>d. d\<lparr>current_interface := 0\<rparr>) v
          in set_gstate p (if bNumConfigurations (dev_desc_of p v) = 1
                           then HOST_SET_CONFIGURATION else HOST_INPUT) v
        else if s = USBH_FAIL \<and> parent (hosts v p) = NULL
        then snd (USBH_ReEnumerate E p v) else v)"
    by (auto simp: host_enumeration_def split: Option.bind_splits)
  have g: "gst p v = HOST_ENUMERATION" using g_enum [OF assms(1) e] assms(3) by (simp add: core_def)
  have stop: "core p (snd (USBH_Stop E p u)) = core p u" for u
    by (simp add: USBH_Stop_def USBH_LL_DriverVBUS_def g_delay [OF assms(1)] Let_def chk_hcd_def split: if_split)
  have start: "core p (snd (USBH_Start E p u)) = core p u" for u
    by (simp add: USBH_Start_def USBH_LL_DriverVBUS_def g_delay [OF assms(1)] Let_def chk_hcd_def split: if_split)
  have "core p (snd (USBH_ReEnumerate E p v)) \<in> {core p v, (HOST_IDLE, pActiveClass (hosts v p))}"
    using core_gst [OF stop [of v]] core_gst [OF g_delay [OF assms(1), of 200 "snd (USBH_Stop E p v)"]]
    by (simp add: USBH_ReEnumerate_def Let_def start deinit_core stop g_delay [OF assms(1)])
  then have "gst p (snd (USBH_ReEnumerate E p v)) \<in> {HOST_ENUMERATION, HOST_IDLE}"
    using g by (auto simp: core_def)
  then show ?thesis
    using g by (auto simp: w' Let_def set_gstate_def has_driver_def intro: host_next.intros)
qed

lemma disconnected_core:
  assumes "\<And>c. pActiveClass (hosts w p) = Some c \<Longrightarrow> call_keeps p (cDeInit ops) c w"
    and "gst p w = HOST_DEV_DISCONNECTED" "host_disconnected ops p w = Some w'"
  shows "host_next HOST_DEV_DISCONNECTED (gst p w') \<and> has_driver p w'"
proof -
  obtain v where v: "w' = snd (DeInitStateMachine p v)" "gst p v = HOST_DEV_DISCONNECTED"
  proof (cases "pActiveClass (hosts w p)")
    case None
    with assms(2,3) that [of w] show ?thesis by (simp add: host_disconnected_def)
  next
    case (Some c)
    with assms(3) obtain st u where u: "cDeInit ops c p w = Some (st, u)"
        "w' = snd (DeInitStateMachine p (upd_host p (\<lambda>h. h\<lparr>pActiveClass := None\<rparr>) u))"
      by (auto simp: host_disconnected_def split: Option.bind_splits)
    from core_gst [OF call_keepsD [OF assms(1) [OF Some] u(1)]] assms(2) that [OF u(2)] show ?thesis by simp
  qed
  then have "gst p w' \<in> {HOST_DEV_DISCONNECTED, HOST_IDLE}"
    using deinit_core [of p v] by (auto simp: core_def split: if_splits)
  then show ?thesis by (auto simp: has_driver_def intro: host_next.intros)
qed

lemma attached_core: "keeps_g p E \<Longrightarrow> gst p (host_attached E p w) = HOST_ENUMERATION"
proof -
  assume E: "keeps_g p E"
  have "core p (host_attached E p w) = (HOST_ENUMERATION, pActiveClass (hosts (USBH_Delay E 100 w) p))"
    by (simp add: host_attached_def case_prod_beta Let_def)
  then show ?thesis by (simp add: core_def)
qed

lemma idle_core:
  assumes "keeps_g p E" "gst p w = HOST_IDLE"
  shows "gst p (host_idle E p w) \<in> {HOST_IDLE, HOST_DEV_WAIT_FOR_ATTACHMENT}"
proof -
  have "core p (host_idle E p w) \<in> {core p w, (HOST_DEV_WAIT_FOR_ATTACHMENT, pActiveClass (hosts w p))}"
    by (simp add: host_idle_def Let_def g_delay [OF assms(1)])
  then show ?thesis using assms(2) by (auto simp: core_def)
qed

lemma switch_core:
  assumes "keeps_g p E" "host_switch E ops p w = Some (s, w')" "has_driver p w"
    and init: "\<And>c w. call_keeps p (cInit ops) c w" and req: "\<And>c w. call_keeps p (cRequests ops) c w"
    and bgnd: "\<And>c. gst p w = HOST_CLASS \<Longrightarrow> pActiveClass (hosts w p) = Some c \<Longrightarrow> call_keeps p (cBgndProcess ops) c w"
    and deinit: "\<And>c. gst p w = HOST_DEV_DISCONNECTED \<Longrightarrow> pActiveClass (hosts w p) = Some c \<Longrightarrow> call_keeps p (cDeInit ops) c w"
  shows "host_next (gst p w) (gst p w') \<and> has_driver p w'"
proof -
  note P = assms(2) [unfolded host_switch_def]
  have set_cfg: "gst p (snd (USBH_SetCfg E p c w)) = gst p w" for c
    using core_gst [OF g_requests(3) [OF assms(1)]] by blast
  note requests = core_gst [OF call_keepsD [OF req]]
  show ?thesis
  proof (cases "gst p w")
    case HOST_IDLE
    with P idle_core [OF assms(1) HOST_IDLE] show ?thesis by (auto simp: has_driver_def intro: host_next.intros)
  next
    case HOST_DEV_ATTACHED
    with P attached_core [OF assms(1), of w] show ?thesis by (auto simp: has_driver_def intro: host_next.intros)
  next
    case HOST_ENUMERATION
    with P enumeration_core [OF assms(1)] show ?thesis by simp
  next
    case HOST_INPUT
    with P show ?thesis by (auto simp: has_driver_def set_gstate_def intro: host_next.intros split: if_splits)
  next
    case HOST_SET_CONFIGURATION
    with P set_cfg show ?thesis
      by (auto simp: has_driver_def set_gstate_def case_prod_beta intro: host_next.intros split: if_splits)
  next
    case HOST_CHECK_CLASS
    with P check_class_core [OF init] show ?thesis by (auto split: Option.bind_splits)
  next
    case HOST_CLASS_REQUEST
    with P assms(3) requests show ?thesis
      by (fastforce simp: has_driver_def set_gstate_def intro: host_next.intros
          split: if_splits option.splits Option.bind_splits)
  next
    case HOST_CLASS
    with assms(3) obtain c where c: "pActiveClass (hosts w p) = Some c" by (auto simp: has_driver_def)
    with P HOST_CLASS obtain st where "cBgndProcess ops c p w = Some (st, w')" by (auto split: Option.bind_splits)
    from core_gst [OF call_keepsD [OF bgnd [OF HOST_CLASS c] this]] HOST_CLASS c show ?thesis
      by (simp add: has_driver_def host_next.stay)
  next
    case HOST_DEV_DISCONNECTED
    with P disconnected_core [OF deinit [OF HOST_DEV_DISCONNECTED]] show ?thesis by (auto split: Option.bind_splits)
  qed (use P in \<open>simp_all add: has_driver_def host_next.stay\<close>)
qed

section \<open>Disconnection\<close>

lemma mask_hprt_frame [simp]:
  "hosts (mask_hprt p b w) = hosts w" "words (mask_hprt p b w) = words w" "faults (mask_hprt p b w) = faults w"
  "outs (mask_hprt p b w) = outs w" "bytes (mask_hprt p b w) = bytes w"
  by (simp_all add: mask_hprt_def)

text \<open>
  C32: After a disconnection, one round of \<open>USBH_Process\<close> calls the driver's \<open>DeInit\<close> once and leaves
  the root handle as it was after start-up: no driver, all channels free, the data buffer cleared,
  address 0, enumeration and control transfer at their first state, state \<open>HOST_IDLE\<close>. What the
  driver's \<open>DeInit\<close> may do is only bounded by keeping the handle a root with a channel table.
\<close>

theorem disconnect_recovers:
  assumes "gst p w = HOST_DEV_DISCONNECTED" and "pActiveClass (hosts w p) = Some c"
    and "cDeInit ops c p (mask_hprt p True w) = Some (s0, w1)"
    and "is_child (hosts w1 p) = 0" and "pipes_ok p w1"
  shows "\<exists>w'. USBH_Process E ops p w = Some (USBH_OK, w')
    \<and> hosts w' p = (fresh_host (hosts w1 p))\<lparr>pActiveClass := None\<rparr>
    \<and> pipes_used p w' = {} \<and> outs w' = outs w1"
proof -
  let ?w2 = "upd_host p (\<lambda>h. h\<lparr>pActiveClass := None\<rparr>) w1"
  have p2: "is_child (hosts ?w2 p) = 0" "pipes_ok p ?w2" using assms(4,5) by (simp_all add: pipes_ok_def)
  let ?w3 = "snd (DeInitStateMachine p ?w2)"
  let ?w4 = "mask_hprt p False ?w3"
  have "host_switch E ops p (mask_hprt p True w) = Some (USBH_OK, ?w3)"
    using assms(1-3) by (simp add: host_switch_def host_disconnected_def)
  then have "USBH_Process E ops p w = Some (USBH_OK, ?w4)"
    by (simp add: USBH_Process_def)
  moreover have "hosts ?w4 p = (fresh_host (hosts w1 p))\<lparr>pActiveClass := None\<rparr>"
    by (simp add: DeInitStateMachine_root(1) [OF p2] fresh_host_def)
  moreover have "pipes_used p ?w4 = {}"
    using DeInitStateMachine_root(1,2) [OF p2]
    by (simp add: pipes_used_def pipe_word_def fresh_host_def)
  moreover have "outs ?w4 = outs w1" by (simp add: DeInitStateMachine_root(3) [OF p2])
  ultimately show ?thesis by blast
qed

definition gone_world :: usb where
  "gone_world = reset_usb\<lparr>hosts := (\<lambda>_. zero_host\<lparr>gState := HOST_DEV_DISCONNECTED, pActiveClass := Some AOA_Class\<rparr>),
     words := (\<lambda>_. replicate 15 0xffff)\<rparr>"

theorem disconnect_recovers_witness:
  "\<exists>w'. USBH_Process id quiet_ops hUSBHost gone_world = Some (USBH_OK, w')
    \<and> gst hUSBHost w' = HOST_IDLE \<and> pipes_used hUSBHost w' = {}"
proof -
  have "gst hUSBHost gone_world = HOST_DEV_DISCONNECTED" "pActiveClass (hosts gone_world hUSBHost) = Some AOA_Class"
    "cDeInit quiet_ops AOA_Class hUSBHost (mask_hprt hUSBHost True gone_world)
       = Some (USBH_OK, mask_hprt hUSBHost True gone_world)"
    "is_child (hosts (mask_hprt hUSBHost True gone_world) hUSBHost) = 0"
    "pipes_ok hUSBHost (mask_hprt hUSBHost True gone_world)"
    by (simp_all add: gone_world_def quiet_ops_def pipes_ok_def zero_host_def mask_hprt_def)
  from disconnect_recovers [OF this, of id] show ?thesis by (auto simp: fresh_host_def)
qed

end
