(* ===== verification/Usb_Enum_Props.thy ===== *)
theory Usb_Enum_Props
  imports Usb_Bus Usb_Core_Props
begin

text \<open>
  The enumeration of a device from its first descriptor to its last string: on a bus that completes
  its transfers, with a device that answers, the calls of \<open>USBH_HandleEnum\<close> that
  \<open>USBH_Process\<close> makes read all descriptors and set the address, with exactly the transfers and
  channel set-ups this takes. A device that never answers is given up at the third call.
\<close>

section \<open>Repeated calls\<close>

primrec enum_run :: "nat \<Rightarrow> (usb \<Rightarrow> usb) \<Rightarrow> ptr \<Rightarrow> usb \<Rightarrow> (USBH_StatusTypeDef \<times> usb) option" where
  "enum_run 0 E p w = Some (USBH_BUSY, w)"
| "enum_run (Suc n) E p w =
    do {
      (s, w) \<leftarrow> USBH_HandleEnum E p w;
      if s = USBH_BUSY then enum_run n E p w else Some (s, w)
    }"

definition goes_on :: "(usb \<Rightarrow> usb) \<Rightarrow> ptr \<Rightarrow> nat \<Rightarrow> usb \<Rightarrow> usb \<Rightarrow> bool" where
  "goes_on E p n w w' \<longleftrightarrow> (\<exists>m\<le>n. 0 < m \<and> (\<forall>k. enum_run (m + k) E p w = enum_run k E p w'))"

lemma goes_on_trans: "goes_on E p n w w1 \<Longrightarrow> goes_on E p m w1 w2 \<Longrightarrow> goes_on E p (n + m) w w2"
  unfolding goes_on_def by (metis add.assoc add_mono add_pos_pos)

lemma goes_on_busy: "USBH_HandleEnum E p w = Some (USBH_BUSY, w') \<Longrightarrow> goes_on E p 1 w w'"
  unfolding goes_on_def by (intro exI [of _ 1]) simp

lemma goes_on_first:
  assumes "USBH_HandleEnum E p w = USBH_HandleEnum E p v" "goes_on E p n v w'"
  shows "goes_on E p n w w'"
proof -
  from assms(2) obtain m where m: "m \<le> n" "0 < m" "\<forall>k. enum_run (m + k) E p v = enum_run k E p w'"
    by (auto simp: goes_on_def)
  from m(2) obtain j where j: "m = Suc j" using gr0_conv_Suc by blast
  have "enum_run (m + k) E p w = enum_run (m + k) E p v" for k by (simp add: j assms(1))
  with m show ?thesis unfolding goes_on_def by metis
qed

text \<open>
  While the request \<open>f\<close> of the current state is busy, \<open>USBH_HandleEnum\<close> just repeats it; when it ends
  with \<open>USBH_OK\<close> in \<open>w1\<close>, so does the loop, and \<open>USBH_HandleEnum\<close> gives \<open>r\<close>.
\<close>

lemma request_in_enum:
  assumes "\<And>v. keeps p w v \<Longrightarrow> keeps p w (snd (f v))"
    and "\<And>v v'. keeps p w v \<Longrightarrow> f v = (USBH_BUSY, v') \<Longrightarrow> USBH_HandleEnum E p v = Some (USBH_BUSY, v')"
    and "run_req n f w = (USBH_OK, w1)"
  shows "\<exists>m<n. \<exists>v. keeps p w v \<and> f v = (USBH_OK, w1) \<and> (\<forall>k. enum_run (m + k) E p w = enum_run k E p v)"
proof -
  have "\<exists>m<n. \<exists>v. keeps p w v \<and> f v = (USBH_OK, w1) \<and> (\<forall>k. enum_run (m + k) E p u = enum_run k E p v)"
    if "keeps p w u" "run_req n f u = (USBH_OK, w1)" for u
    using that
  proof (induction n arbitrary: u)
    case (Suc n)
    obtain s u' where u: "f u = (s, u')" by (cases "f u")
    show ?case
    proof (cases "s = USBH_BUSY")
      case True
      with Suc.prems(2) u have r: "run_req n f u' = (USBH_OK, w1)" by simp
      have "keeps p w u'" using assms(1) [OF Suc.prems(1)] u by simp
      from Suc.IH [OF this r] obtain m v where m: "m < n" "keeps p w v" "f v = (USBH_OK, w1)"
        "\<forall>k. enum_run (m + k) E p u' = enum_run k E p v" by blast
      have "\<forall>k. enum_run (Suc m + k) E p u = enum_run k E p v"
        using m(4) assms(2) [OF Suc.prems(1)] u True by simp
      with m show ?thesis by (intro exI [of _ "Suc m"]) auto
    next
      case False
      with Suc.prems u have "f u = (USBH_OK, w1)" by simp
      with Suc.prems(1) show ?thesis by (intro exI [of _ 0]) auto
    qed
  qed simp
  from this [OF keeps_refl assms(3)] show ?thesis .
qed

lemma stage_goes_on:
  assumes "\<And>v. keeps p w v \<Longrightarrow> keeps p w (snd (f v))"
    and "\<And>v v'. keeps p w v \<Longrightarrow> f v = (USBH_BUSY, v') \<Longrightarrow> USBH_HandleEnum E p v = Some (USBH_BUSY, v')"
    and "\<And>v. keeps p w v \<Longrightarrow> f v = (USBH_OK, w1) \<Longrightarrow> USBH_HandleEnum E p v = Some (USBH_BUSY, w2)"
    and "run_req n f w = (USBH_OK, w1)"
  shows "goes_on E p n w w2"
proof -
  from request_in_enum [OF assms(1,2,4)] obtain m v where m: "m < n" "keeps p w v" "f v = (USBH_OK, w1)"
    "\<forall>k. enum_run (m + k) E p w = enum_run k E p v" by blast
  from assms(3) [OF m(2,3)] have "enum_run (Suc m + k) E p w = enum_run k E p w2" for k
    using m(4) [rule_format, of "Suc k"] by simp
  with m(1) show ?thesis unfolding goes_on_def by (intro exI [of _ "Suc m"]) simp
qed

lemma stage_ends:
  assumes "\<And>v. keeps p w v \<Longrightarrow> keeps p w (snd (f v))"
    and "\<And>v v'. keeps p w v \<Longrightarrow> f v = (USBH_BUSY, v') \<Longrightarrow> USBH_HandleEnum E p v = Some (USBH_BUSY, v')"
    and "\<And>v. keeps p w v \<Longrightarrow> f v = (USBH_OK, w1) \<Longrightarrow> USBH_HandleEnum E p v = Some (USBH_OK, w2)"
    and "run_req n f w = (USBH_OK, w1)"
  shows "enum_run (n + k) E p w = Some (USBH_OK, w2)"
proof -
  from request_in_enum [OF assms(1,2,4)] obtain m v where m: "m < n" "keeps p w v" "f v = (USBH_OK, w1)"
    "\<forall>k. enum_run (m + k) E p w = enum_run k E p v" by blast
  have "enum_run (m + Suc j) E p w = Some (USBH_OK, w2)" for j
    by (subst m(4) [rule_format]) (simp add: assms(3) [OF m(2,3)])
  from this [of "n - Suc m + k"] m(1) show ?thesis by simp
qed

section \<open>Handles in an enumeration state\<close>

text \<open>
  The handle is in enumeration state \<open>e\<close> and between two requests; \<open>cs\<close> is what has gone out since
  \<open>w0\<close>.
\<close>

definition enum_at :: "ptr \<Rightarrow> ENUM_StateTypeDef \<Rightarrow> hal_call list \<Rightarrow> usb \<Rightarrow> usb \<Rightarrow> bool" where
  "enum_at p e cs w0 w \<longleftrightarrow> request_ready p w \<and> RequestState (hosts w p) = CMD_SEND \<and> EnumState (hosts w p) = e
     \<and> length (Data (device (hosts w p))) = 512 \<and> trace w = trace w0 @ cs \<and> faults w = faults w0
     \<and> pipe_in (ctl p w) = pipe_in (ctl p w0) \<and> pipe_out (ctl p w) = pipe_out (ctl p w0)
     \<and> dev_speed (device (hosts w p)) = dev_speed (device (hosts w0 p))"

text \<open>The part of the device the stages fill in.\<close>

definition learned :: "ptr \<Rightarrow> usb \<Rightarrow> USBH_DevDescTypeDef \<times> USBH_CfgDescTypeDef \<times> u8 \<times> u8" where
  "learned p w = (DevDesc (device (hosts w p)), CfgDesc (device (hosts w p)),
     dev_address (device (hosts w p)), pipe_size (ctl p w))"

definition dev_setup :: "u16 \<Rightarrow> USB_Setup_TypeDef" where
  "dev_setup n = \<lparr>bmRequestType = 0x80, bRequest = 6, wValue = 0x0100, wIndex = 0, wLength = n\<rparr>"

definition cfg_setup :: "u16 \<Rightarrow> USB_Setup_TypeDef" where
  "cfg_setup n = \<lparr>bmRequestType = 0x80, bRequest = 6, wValue = 0x0200, wIndex = 0, wLength = n\<rparr>"

definition str_setup :: "u8 \<Rightarrow> USB_Setup_TypeDef" where
  "str_setup i = \<lparr>bmRequestType = 0x80, bRequest = 6, wValue = 0x0300 OR ucast i, wIndex = 0x0409, wLength = 0xff\<rparr>"

definition addr_setup :: "u8 \<Rightarrow> USB_Setup_TypeDef" where
  "addr_setup a = \<lparr>bmRequestType = 0, bRequest = 5, wValue = ucast a, wIndex = 0, wLength = 0\<rparr>"

definition reads :: "ptr \<Rightarrow> usb \<Rightarrow> USB_Setup_TypeDef \<Rightarrow> hal_call list" where
  "reads p w s = in_calls p w s (BData p) (wLength s)"

definition string_calls :: "ptr \<Rightarrow> usb \<Rightarrow> u8 \<Rightarrow> hal_call list" where
  "string_calls p w i = (if i = 0 then [] else reads p w (str_setup i))"

definition open_calls :: "ptr \<Rightarrow> usb \<Rightarrow> u8 \<Rightarrow> u8 \<Rightarrow> hal_call list" where
  "open_calls p w a mps =
    [HC_Open (pipe_in (ctl p w)) 0x80 a (dev_speed (device (hosts w p))) USBH_EP_CONTROL (ucast mps),
     HC_Open (pipe_out (ctl p w)) 0x00 a (dev_speed (device (hosts w p))) USBH_EP_CONTROL (ucast mps)]"

lemma open_pipes_frame:
  assumes "request_ready p w"
  shows "hosts (open_control_pipes p w) = hosts w"
    "trace (open_control_pipes p w) = trace w @ open_calls p w (dev_address (device (hosts w p))) (pipe_size (ctl p w))"
    "faults (open_control_pipes p w) = faults w"
    "request_ready p (open_control_pipes p w)"
proof -
  let ?a = "dev_address (device (hosts w p))" and ?s = "dev_speed (device (hosts w p))" and ?z = "pipe_size (ctl p w)"
  let ?i = "pipe_in (ctl p w)" and ?o = "pipe_out (ctl p w)"
  have c: "chk_hcd p v = v" if "hosts v p = hosts w p" for v
    using request_readyD(2) [OF assms] that by (simp add: chk_hcd_def)
  have e: "open_control_pipes p w = HAL_HCD_HC_Init ?o 0 ?a ?s 0 (ucast ?z) (HAL_HCD_HC_Init ?i 0x80 ?a ?s 0 (ucast ?z) w)"
    using request_readyD(4) [OF assms]
    by (simp add: open_control_pipes_def USBH_OpenPipe_def USBH_LL_OpenPipe_def c HAL_HCD_HC_Init_def Let_def)
  show h: "hosts (open_control_pipes p w) = hosts w"
    "trace (open_control_pipes p w) = trace w @ open_calls p w ?a ?z"
    "faults (open_control_pipes p w) = faults w"
    using request_readyD(4,5) [OF assms]
    by (simp_all add: e HAL_HCD_HC_Init_def open_calls_def trace_def)
  show "request_ready p (open_control_pipes p w)"
    using assms request_readyD(4,5) [OF assms]
    by (subst request_ready_cong [of "open_control_pipes p w" w p]) (simp_all add: h e HAL_HCD_HC_Init_def)
qed

section \<open>The first eight bytes\<close>

definition set_last :: "ptr \<Rightarrow> CTRL_StateTypeDef \<Rightarrow> usb \<Rightarrow> usb" where
  "set_last p st w = upd_host p (\<lambda>h. h\<lparr>last_ctrl_status := st\<rparr>) w"

definition parse_dev :: "ptr \<Rightarrow> u16 \<Rightarrow> usb \<Rightarrow> usb" where
  "parse_dev p n w = upd_dev p (\<lambda>d. d\<lparr>DevDesc := USBH_ParseDevDesc (DevDesc d) (Data d) n\<rparr>) w"

lemma Get_DevDesc_request:
  "USBH_Get_DevDesc E p n w = (let (s, w) = std_request E p (dev_setup (ucast n)) (BData p) (ucast n) w
     in if s = USBH_OK then (s, parse_dev p (ucast n) w) else (s, w))"
  by (simp add: USBH_Get_DevDesc_def requests_are_std dev_setup_def parse_dev_def case_prod_beta)

lemma strip_set_last: "strip (h\<lparr>last_ctrl_status := st\<rparr>) = (strip h)\<lparr>last_ctrl_status := st\<rparr>"
  by (cases h) (simp add: strip_def)

lemma keeps_set_last:
  assumes "keeps p (set_last p l w) v"
  shows "keeps p (set_last p st w) (set_last p st v)"
proof -
  have "(strip (hosts v p))\<lparr>last_ctrl_status := st\<rparr> = (strip (hosts (set_last p l w) p))\<lparr>last_ctrl_status := st\<rparr>"
    by (simp only: keepsD(1) [OF assms])
  also have "\<dots> = (strip (hosts w p))\<lparr>last_ctrl_status := st\<rparr>"
    by (simp add: set_last_def strip_set_last)
  finally have "strip (hosts (set_last p st v) p) = strip (hosts (set_last p st w) p)"
    by (simp add: set_last_def strip_set_last)
  with assms show ?thesis by (simp add: keeps_def set_last_def)
qed

lemma set_last_simps [simp]:
  "last_ctrl_status (hosts (set_last p st w) p) = st" "EnumState (hosts (set_last p st w) q) = EnumState (hosts w q)"
  "ctl p (set_last p st w) = ctl p w"
  "trace (set_last p st w) = trace w" "faults (set_last p st w) = faults w"
  "device (hosts (set_last p st w) q) = device (hosts w q)"
  "RequestState (hosts (set_last p st w) q) = RequestState (hosts w q)"
  by (simp_all add: set_last_def)

lemma ready_last [simp]: "request_ready p (set_last p st w) = request_ready p w"
  by (rule request_ready_cong) (simp_all add: set_last_def)

lemma at_stage_last [simp]: "at_stage p r st (set_last p l w) = at_stage p r st w"
  by (simp add: at_stage_def) (simp add: set_last_def)

lemma at_stage_out [simp]: "at_stage p r st (out c w) = at_stage p r st w"
  by (simp add: at_stage_def)

definition first_at :: "ptr \<Rightarrow> ctl_request \<Rightarrow> CTRL_StateTypeDef \<Rightarrow> hal_call list \<Rightarrow> usb \<Rightarrow> usb \<Rightarrow> bool" where
  "first_at p r st xs w v \<longleftrightarrow> at_stage p r st v \<and> keeps p (set_last p st w) v \<and> sent xs w v"

context quiet_bus
begin

lemma first_step:
  assumes "request E p r = std_request E p (dev_setup 8) (BData p) 8"
    and "EnumState (hosts v p) = ENUM_IDLE" "keeps p (set_last p l w) v" "sent xs w v"
    and "l = CTRL_IDLE \<or> l \<noteq> st'"
    and "request E p r v = (USBH_BUSY, v')" "at_stage p r st' v'" "sent ys v v'"
  shows "USBH_HandleEnum E p v = Some (USBH_BUSY, USBH_Delay E 1 (set_last p st' v'))"
    and "first_at p r st' (xs @ ys) w (USBH_Delay E 1 (set_last p st' v'))"
    and "EnumState (hosts (USBH_Delay E 1 (set_last p st' v')) p) = ENUM_IDLE"
proof -
  let ?v = "USBH_Delay E 1 (set_last p st' v')"
  have k: "keeps p (set_last p l w) v'"
    using std_request_keeps [OF bus_tame assms(3)] assms(1,6) by (metis snd_conv)
  have l: "last_ctrl_status (hosts v' p) = l" using keeps_host(17) [OF k] by simp
  have st: "ctl_state (ctl p v') = st'" using assms(7) by (simp add: at_stage_def)
  have d: "USBH_Get_DevDesc E p 8 v = (USBH_BUSY, v')"
    using assms(1,6) by (simp add: Get_DevDesc_request)
  have "upd_host p (\<lambda>h. h\<lparr>last_ctrl_status := ctl_state (Control h)\<rparr>) v' = set_last p st' v'"
    using st by (simp add: set_last_def upd_host_def)
  with d l st assms(2,5) show "USBH_HandleEnum E p v = Some (USBH_BUSY, ?v)"
    by (auto simp: USBH_HandleEnum_def enum_first_def)
  have a: "at_stage p r st' (out (Delay 1) (set_last p st' v'))" using assms(7) by simp
  have r: "request_ready p (out (Delay 1) (set_last p st' v'))" using at_stageD(7) [OF a] .
  have "at_stage p r st' ?v" unfolding USBH_Delay_def by (rule bus_stage [OF a])
  moreover have kv: "keeps p (set_last p st' w) ?v"
    by (intro delay_keeps bus_tame keeps_set_last [OF k])
  moreover have "sent (xs @ ys) w ?v"
    using sent_trans [OF assms(4,8)] bus_trace [OF r] bus_faults [OF r]
    by (simp add: sent_def USBH_Delay_def)
  moreover have "EnumState (hosts ?v p) = ENUM_IDLE"
    using keeps_host(2) [OF kv] keeps_host(2) [OF assms(3)] assms(2) by simp
  ultimately show "first_at p r st' (xs @ ys) w ?v" "EnumState (hosts ?v p) = ENUM_IDLE"
    unfolding first_at_def by blast+
qed

lemma first_next:
  assumes "request E p r = std_request E p (dev_setup 8) (BData p) 8"
    and "first_at p r st xs w v" "EnumState (hosts v p) = ENUM_IDLE" "st \<noteq> st'"
    and "\<exists>v'. request E p r v = (USBH_BUSY, v') \<and> at_stage p r st' v' \<and> sent ys v v'"
  shows "\<exists>v''. USBH_HandleEnum E p v = Some (USBH_BUSY, v'') \<and> first_at p r st' (xs @ ys) w v''
    \<and> EnumState (hosts v'' p) = ENUM_IDLE"
proof -
  from assms(5) obtain v' where v': "request E p r v = (USBH_BUSY, v')" "at_stage p r st' v'" "sent ys v v'"
    by blast
  have "keeps p (set_last p st w) v" "sent xs w v" using assms(2) by (simp_all add: first_at_def)
  from first_step [OF assms(1,3) this disjI2 [OF assms(4)] v'] show ?thesis by blast
qed

end

context tame_bus
begin

text \<open>The six calls that are busy.\<close>

lemma first_busy:
  assumes "request_ready p w" "RequestState (hosts w p) = CMD_SEND" "EnumState (hosts w p) = ENUM_IDLE"
    and "last_ctrl_status (hosts w p) = CTRL_IDLE" and "r = the_request p w (dev_setup 8) (BData p) 8"
  shows "\<exists>v. goes_on E p 6 w v \<and> first_at p r CTRL_STATUS_OUT_WAIT (reads p w (dev_setup 8)) w v
    \<and> EnumState (hosts v p) = ENUM_IDLE"
proof -
  have rq: "request E p r = std_request E p (dev_setup 8) (BData p) 8"
    unfolding assms(5) by (rule request_the_request)
  have r: "rq_in r = pipe_in (ctl p w)" "rq_out r = pipe_out (ctl p w)" "rq_buff r = BData p" "rq_len r = 8"
    and as: "after_setup (rq_setup r) = CTRL_DATA_IN"
    and rs: "rq_setup r = dev_setup 8" "wLength (dev_setup 8) = 8"
    by (simp_all add: assms(5) the_request_def dev_setup_def after_setup_def)
  have i: "idle_for p r w" unfolding assms(5) by (rule idle_the_request [OF assms(1,2)])
  have kw: "keeps p (set_last p CTRL_IDLE w) w"
    using assms(4) by (cases "hosts w p") (simp add: keeps_def set_last_def)
  from request_first [OF i, of E] obtain w' where w': "request E p r w = (USBH_BUSY, w')"
    "at_stage p r CTRL_SETUP w'" "sent [] w w'" by blast
  obtain w1 where 1: "USBH_HandleEnum E p w = Some (USBH_BUSY, w1)" "first_at p r CTRL_SETUP [] w w1"
      "EnumState (hosts w1 p) = ENUM_IDLE"
    using first_step [OF rq assms(3) kw sent_refl disjI1 [OF refl] w'] by auto
  from first_next [OF rq 1(2,3) _ stage_setup] 1(2) obtain w2 where
    2: "USBH_HandleEnum E p w1 = Some (USBH_BUSY, w2)"
      "first_at p r CTRL_SETUP_WAIT [HC_StartXfer (rq_out r) 0 USBH_EP_CONTROL HC_PID_SETUP (Packet (rq_setup r)) 8] w w2"
      "EnumState (hosts w2 p) = ENUM_IDLE" by (auto simp: first_at_def)
  from first_next [OF rq 2(2,3) _ setup_done] 2(2) as obtain w3 where
    3: "USBH_HandleEnum E p w2 = Some (USBH_BUSY, w3)"
      "first_at p r CTRL_DATA_IN [HC_StartXfer (rq_out r) 0 USBH_EP_CONTROL HC_PID_SETUP (Packet (rq_setup r)) 8] w w3"
      "EnumState (hosts w3 p) = ENUM_IDLE" by (auto simp: first_at_def)
  from first_next [OF rq 3(2,3) _ stage_data_in] 3(2) obtain w4 where
    4: "USBH_HandleEnum E p w3 = Some (USBH_BUSY, w4)"
      "first_at p r CTRL_DATA_IN_WAIT ([HC_StartXfer (rq_out r) 0 USBH_EP_CONTROL HC_PID_SETUP (Packet (rq_setup r)) 8]
        @ [HC_StartXfer (rq_in r) 1 USBH_EP_CONTROL HC_PID_DATA1 (Buffer (rq_buff r)) (rq_len r)]) w w4"
      "EnumState (hosts w4 p) = ENUM_IDLE" by (auto simp: first_at_def)
  from first_next [OF rq 4(2,3) _ data_in_done] 4(2) obtain w5 where
    5: "USBH_HandleEnum E p w4 = Some (USBH_BUSY, w5)"
      "first_at p r CTRL_STATUS_OUT ([HC_StartXfer (rq_out r) 0 USBH_EP_CONTROL HC_PID_SETUP (Packet (rq_setup r)) 8]
        @ [HC_StartXfer (rq_in r) 1 USBH_EP_CONTROL HC_PID_DATA1 (Buffer (rq_buff r)) (rq_len r)]) w w5"
      "EnumState (hosts w5 p) = ENUM_IDLE" by (auto simp: first_at_def)
  from first_next [OF rq 5(2,3) _ stage_status_out] 5(2) obtain w6 where
    6: "USBH_HandleEnum E p w5 = Some (USBH_BUSY, w6)"
      "first_at p r CTRL_STATUS_OUT_WAIT (reads p w (dev_setup 8)) w w6"
      "EnumState (hosts w6 p) = ENUM_IDLE" by (auto simp: first_at_def r rs reads_def in_calls_def)
  note g = goes_on_trans [OF goes_on_trans [OF goes_on_trans [OF goes_on_trans [OF goes_on_trans
    [OF goes_on_busy [OF 1(1)] goes_on_busy [OF 2(1)]] goes_on_busy [OF 3(1)]] goes_on_busy [OF 4(1)]]
    goes_on_busy [OF 5(1)]] goes_on_busy [OF 6(1)]]
  show ?thesis using g 6(2,3) by (intro exI [of _ w6]) (simp add: eval_nat_numeral)
qed

end

section \<open>One stage\<close>

lemma enum_at_upd:
  assumes "enum_at p e cs w0 w"
    and "\<And>h. RequestState (f h) = RequestState h \<and> pipe_in (Control (f h)) = pipe_in (Control h)
        \<and> pipe_out (Control (f h)) = pipe_out (Control h) \<and> dev_speed (device (f h)) = dev_speed (device h)
        \<and> is_connected (device (f h)) = is_connected (device h) \<and> parent (f h) = parent h
        \<and> pData (f h) = pData h \<and> Pipes (f h) = Pipes h"
    and "length (Data (device (f (hosts w p)))) = 512"
  shows "enum_at p (EnumState (f (hosts w p))) cs w0 (upd_host p f w)"
proof -
  have "request_ready p (upd_host p f w) = request_ready p w"
    by (rule request_ready_cong) (simp_all add: assms(2))
  with assms show ?thesis by (simp add: enum_at_def)
qed

lemma same_faults [simp]: "faults_update (\<lambda>_. faults w) w = (w :: usb)" "faults_update (\<lambda>fs. fs) w = (w :: usb)"
  by (cases w, simp)+

lemma upd_dev_faults [simp]: "(upd_host p f w)\<lparr>faults := faults w\<rparr> = upd_host p f w"
  by (cases w) (simp add: upd_host_def)

lemma enum_at_frame [simp]: "enum_at p e cs w0 (osMessagePut m w) = enum_at p e cs w0 w"
  by (simp add: enum_at_def)

lemma enum_at_set: "enum_at p e cs w0 w \<Longrightarrow> enum_at p e' cs w0 (set_enum p e' w)"
  using enum_at_upd [of p e cs w0 w "\<lambda>h. h\<lparr>EnumState := e'\<rparr>"] by (simp add: set_enum_def enum_at_def)

lemma enum_at_DevDesc: "enum_at p e cs w0 w \<Longrightarrow> enum_at p e cs w0 (parse_dev p n w)"
  using enum_at_upd [of p e cs w0 w "device_update (\<lambda>d. d\<lparr>DevDesc := USBH_ParseDevDesc (DevDesc d) (Data d) n\<rparr>)"]
  by (simp add: parse_dev_def enum_at_def)

lemma enum_at_CfgDesc: "enum_at p e cs w0 w \<Longrightarrow> enum_at p e cs w0 (upd_dev p (\<lambda>d. d\<lparr>CfgDesc := c\<rparr>) w)"
  using enum_at_upd [of p e cs w0 w "device_update (\<lambda>d. d\<lparr>CfgDesc := c\<rparr>)"] by (simp add: enum_at_def)

lemma enum_at_Data: "enum_at p e cs w0 w \<Longrightarrow> length m = 512 \<Longrightarrow> enum_at p e cs w0 (upd_dev p (\<lambda>d. d\<lparr>Data := m\<rparr>) w)"
  using enum_at_upd [of p e cs w0 w "device_update (\<lambda>d. d\<lparr>Data := m\<rparr>)"] by (simp add: enum_at_def)

lemma enum_at_open:
  assumes "enum_at p e cs w0 w"
  shows "enum_at p e (cs @ open_calls p w0 (dev_address (device (hosts w p))) (pipe_size (ctl p w))) w0 (open_control_pipes p w)"
proof -
  from assms have "request_ready p w" by (simp add: enum_at_def)
  note f = open_pipes_frame [OF this]
  from assms f(4) show ?thesis by (simp add: enum_at_def f open_calls_def)
qed

lemma enum_at_keeps:
  assumes "enum_at p e cs w0 w" "keeps p w v" "trace v = trace w @ xs" "faults v = faults w" "request_ready p v"
    and "RequestState (hosts v p) = CMD_SEND"
  shows "enum_at p e (cs @ xs) w0 v"
  using assms keeps_host [OF assms(2)] keepsD(10) [OF assms(2)] by (simp add: enum_at_def)

context device_bus
begin

text \<open>
  A stage that reads something: the request \<open>s\<close> goes through, and \<open>g\<close> is what the state machine
  does with the answer.
\<close>

lemma in_stage:
  assumes "enum_at p e cs w0 w" "bmRequestType s AND 0x80 = 0x80" "wLength s \<noteq> 0" "length (reply s) \<le> 512" "n = wLength s"
    and "\<And>v. keeps p w v \<Longrightarrow> USBH_HandleEnum E p v = (case std_request E p s (BData p) n v of
           (st, v') \<Rightarrow> if st = USBH_OK then g v' else Some (USBH_BUSY, v'))"
  shows "\<exists>w1. enum_at p e (cs @ reads p w0 s) w0 w1 \<and> keeps p w w1
     \<and> take (length (reply s)) (Data (device (hosts w1 p))) = reply s
     \<and> (\<forall>w2. g w1 = Some (USBH_BUSY, w2) \<longrightarrow> goes_on E p 7 w w2)
     \<and> (\<forall>w2 k. g w1 = Some (USBH_OK, w2) \<longrightarrow> enum_run (7 + k) E p w = Some (USBH_OK, w2))"
proof -
  have r: "request_ready p w" "RequestState (hosts w p) = CMD_SEND" "length (Data (device (hosts w p))) = 512"
    using assms(1) by (simp_all add: enum_at_def)
  let ?f = "std_request E p s (BData p) n"
  from request_reads [OF r(1,2) assms(2,3), of 0 "BData p" n] assms(4) r(3) obtain w1 where
    w1: "run_req 7 ?f w = (USBH_OK, w1)"
    "trace w1 = trace w @ in_calls p w s (BData p) n"
    "faults w1 = faults w" "request_ready p w1" "RequestState (hosts w1 p) = CMD_SEND" "keeps p w w1"
    "take (length (reply s)) (Data (device (hosts w1 p))) = reply s"
    by auto
  have "trace w1 = trace w @ reads p w0 s"
    using w1(2) assms(1,5) by (simp add: in_calls_def reads_def enum_at_def)
  from enum_at_keeps [OF assms(1) w1(6) this w1(3-5)]
  have a: "enum_at p e (cs @ reads p w0 s) w0 w1" .
  have b: "keeps p w v \<Longrightarrow> keeps p w (snd (?f v))" for v by (rule std_request_keeps [OF bus_tame])
  have c: "USBH_HandleEnum E p v = Some (USBH_BUSY, v')" if "keeps p w v" "?f v = (USBH_BUSY, v')" for v v'
    using assms(6) [OF that(1)] that(2) by simp
  have d: "USBH_HandleEnum E p v = g w1" if "keeps p w v" "?f v = (USBH_OK, w1)" for v
    using assms(6) [OF that(1)] that(2) by simp
  have "goes_on E p 7 w w2" if "g w1 = Some (USBH_BUSY, w2)" for w2
    by (rule stage_goes_on [OF b c _ w1(1)]) (use d that in simp_all)
  moreover have "enum_run (7 + k) E p w = Some (USBH_OK, w2)" if "g w1 = Some (USBH_OK, w2)" for w2 k
    by (rule stage_ends [OF b c _ w1(1)]) (use d that in simp_all)
  ultimately show ?thesis using a w1(6,7) by blast
qed

end

section \<open>A device and its replies\<close>

lemma str_index: "(0x0300 OR ucast (i :: u8)) AND 0xff00 = (0x0300 :: u16)"
proof -
  have "(0x0300 :: u16) AND 0xff00 = 0x0300" by simp
  moreover have "ucast i AND (0xff00 :: u16) = 0"
  proof -
    have "ucast i AND push_bit 8 x = 0" for x :: u16
      by (rule bit_word_eqI) (auto simp: bit_simps dest: bit_imp_le_length)
    from this [of "0xff"] show ?thesis by simp
  qed
  ultimately show ?thesis by (simp add: bit.conj_disj_distrib2)
qed

text \<open>
  The device has device descriptor \<open>d\<close> and one configuration with header \<open>c\<close> and interfaces \<open>is\<close>;
  each string its descriptor names is sent as a string descriptor.
\<close>

definition string_reply :: "u8 list \<Rightarrow> bool" where
  "string_reply bs \<longleftrightarrow> 2 \<le> length bs \<and> length bs \<le> 512 \<and> rd8 bs 1 = USB_DESC_TYPE_STRING \<and> 2 \<le> unat (rd8 bs 0)"

definition describes :: "(USB_Setup_TypeDef \<Rightarrow> u8 list) \<Rightarrow> USBH_DevDescTypeDef \<Rightarrow> USBH_CfgDescTypeDef
    \<Rightarrow> (USBH_InterfaceDescTypeDef \<times> USBH_EpDescTypeDef list) list \<Rightarrow> bool" where
  "describes reply d c is \<longleftrightarrow>
     reply (dev_setup 8) = take 8 (enc_dev_desc d) \<and> reply (dev_setup 18) = enc_dev_desc d
   \<and> reply (cfg_setup 9) = enc_cfg_header c
   \<and> reply (cfg_setup (wTotalLength c)) = enc_cfg_header c @ concat (enc_itfs is)
   \<and> wTotalLength c = of_nat (length (enc_cfg_header c @ concat (enc_itfs is))) \<and> 9 < wTotalLength c
   \<and> length (enc_cfg_header c @ concat (enc_itfs is)) \<le> 512
   \<and> cfg_bLength c = 9 \<and> cfg_bDescriptorType c = 2
   \<and> (\<forall>p \<in> set is. wf_itf p) \<and> length is \<le> USBH_MAX_NUM_INTERFACES
   \<and> (\<forall>i \<in> {iManufacturer d, iProduct d, iSerialNumber d}. i \<noteq> 0 \<longrightarrow> string_reply (reply (str_setup i)))"

lemma keeps_learned: "keeps p w v \<Longrightarrow> learned p v = learned p w"
  by (simp add: learned_def keeps_host)

lemma learned_frame [simp]:
  "learned p (set_enum p e w) = learned p w" "learned p (osMessagePut m w) = learned p w"
  "learned p (upd_dev p (\<lambda>d. d\<lparr>Data := b\<rparr>) w) = learned p w"
  by (simp_all add: learned_def set_enum_def)

lemma prefix_of_Data:
  assumes "take n xs = ys" "length ys = n"
  shows "xs = ys @ drop n xs"
  using assms append_take_drop_id by metis

context device_bus
begin

lemma string_request:
  "USBH_Get_StringDesc E p i 0xff v = (case std_request E p (str_setup i) (BData p) 0xff v of
     (st, v') \<Rightarrow> if st = USBH_OK
        then map_option (\<lambda>(mem, fs). (st, (upd_dev p (\<lambda>d. d\<lparr>Data := mem\<rparr>) v')\<lparr>faults := fs\<rparr>))
               (USBH_ParseStringDesc 0 0 0xff (Data (device (hosts v' p)), faults v'))
        else Some (st, v'))"
  by (simp add: USBH_Get_StringDesc_def requests_are_std str_setup_def str_index case_prod_beta)

lemma string_stage:
  assumes "enum_at p e cs w0 w" "string_reply (reply (str_setup i))"
    and "\<And>v. keeps p w v \<Longrightarrow> USBH_HandleEnum E p v
       = Option.bind (USBH_Get_StringDesc E p i 0xff v) (\<lambda>(st, v). h st v)"
    and "\<And>st v. st \<noteq> USBH_OK \<Longrightarrow> h st v = Some (USBH_BUSY, v)"
  shows "\<exists>w1. enum_at p e (cs @ reads p w0 (str_setup i)) w0 w1 \<and> learned p w1 = learned p w
     \<and> DevDesc (device (hosts w1 p)) = DevDesc (device (hosts w p))
     \<and> (\<forall>w2. h USBH_OK w1 = Some (USBH_BUSY, w2) \<longrightarrow> goes_on E p 7 w w2)
     \<and> (\<forall>w2 k. h USBH_OK w1 = Some (USBH_OK, w2) \<longrightarrow> enum_run (7 + k) E p w = Some (USBH_OK, w2))"
proof -
  let ?g = "\<lambda>v. Option.bind (map_option (\<lambda>(mem, fs). (upd_dev p (\<lambda>d. d\<lparr>Data := mem\<rparr>) v)\<lparr>faults := fs\<rparr>)
       (USBH_ParseStringDesc 0 0 0xff (Data (device (hosts v p)), faults v))) (h USBH_OK)"
  have H: "USBH_HandleEnum E p v = (case std_request E p (str_setup i) (BData p) 0xff v of
      (st, v') \<Rightarrow> if st = USBH_OK then ?g v' else Some (USBH_BUSY, v'))" if "keeps p w v" for v
    unfolding assms(3) [OF that] string_request
    by (auto simp: case_prod_beta map_option_case assms(4) split: option.split)
  have "bmRequestType (str_setup i) AND 0x80 = 0x80" "wLength (str_setup i) \<noteq> 0"
    "length (reply (str_setup i)) \<le> 512" "0xff = wLength (str_setup i)"
    using assms(2) by (simp_all add: str_setup_def string_reply_def)
  from in_stage [OF assms(1) this H] obtain w1 where
    w1: "enum_at p e (cs @ reads p w0 (str_setup i)) w0 w1" "keeps p w w1"
    "take (length (reply (str_setup i))) (Data (device (hosts w1 p))) = reply (str_setup i)"
    and n: "\<And>w2. ?g w1 = Some (USBH_BUSY, w2) \<Longrightarrow> goes_on E p 7 w w2"
      "\<And>w2 k. ?g w1 = Some (USBH_OK, w2) \<Longrightarrow> enum_run (7 + k) E p w = Some (USBH_OK, w2)" by blast
  let ?D = "Data (device (hosts w1 p))" and ?r = "reply (str_setup i)"
  have D: "?D = ?r @ drop (length ?r) ?D" by (rule prefix_of_Data [OF w1(3) refl])
  have l: "length ?D = 512" using w1(1) by (simp add: enum_at_def)
  have "rd8 (?r @ drop (length ?r) ?D) 1 = rd8 ?r 1" "rd8 (?r @ drop (length ?r) ?D) 0 = rd8 ?r 0"
    using assms(2) by (auto simp: string_reply_def intro!: rd8_append_left)
  then have "rd8 ?D 1 = rd8 ?r 1" "rd8 ?D 0 = rd8 ?r 0" by (simp_all only: D [symmetric])
  then have "rd8 ?D 1 = 3" "2 \<le> unat (rd8 ?D 0)" using assms(2) by (simp_all add: string_reply_def)
  moreover have "2 + min (unat (rd8 ?D 0) - 2) (unat (0xff :: u16)) \<le> length ?D"
    using u8_bound [of "rd8 ?D 0"] l by simp
  ultimately obtain mem where "USBH_ParseStringDesc 0 0 0xff (?D, faults w1) = Some (mem, faults w1)"
    "length mem = length ?D"
    using parse_string [OF _ _ refl, of ?D "0xff" "faults w1"] by blast
  note m = this
  let ?w2 = "upd_dev p (\<lambda>d. d\<lparr>Data := mem\<rparr>) w1"
  have e: "?w2\<lparr>faults := faults w1\<rparr> = ?w2" using same_faults(1) [of ?w2] by simp
  have g: "?g w1 = h USBH_OK ?w2" unfolding m(1) by (simp only: option.map prod.case Option.bind.bind_lunit e)
  moreover have "enum_at p e (cs @ reads p w0 (str_setup i)) w0 ?w2" by (rule enum_at_Data [OF w1(1)]) (simp add: m(2) l)
  moreover have "learned p ?w2 = learned p w" using keeps_learned [OF w1(2)] by simp
  moreover have "DevDesc (device (hosts ?w2 p)) = DevDesc (device (hosts w p))" using keeps_host [OF w1(2)] by simp
  ultimately show ?thesis using n [unfolded g] by blast
qed


lemma first_stage:
  assumes "request_ready p w" "RequestState (hosts w p) = CMD_SEND" "EnumState (hosts w p) = ENUM_IDLE"
    and "last_ctrl_status (hosts w p) = CTRL_IDLE" "length (Data (device (hosts w p))) = 512"
    and "describes reply d c is"
  shows "\<exists>w1. goes_on E p 7 w w1
    \<and> enum_at p ENUM_GET_FULL_DEV_DESC
        (reads p w (dev_setup 8) @ open_calls p w (dev_address (device (hosts w p))) (bMaxPacketSize d)) w w1
    \<and> CfgDesc (device (hosts w1 p)) = CfgDesc (device (hosts w p))
    \<and> dev_address (device (hosts w1 p)) = dev_address (device (hosts w p)) \<and> pipe_size (ctl p w1) = bMaxPacketSize d
    \<and> bytes w1 = bytes w \<and> address (hosts w1 p) = address (hosts w p)"
proof -
  let ?r = "the_request p w (dev_setup 8) (BData p) 8"
  from first_busy [OF assms(1-4) refl] obtain v where v: "goes_on E p 6 w v"
    "first_at p ?r CTRL_STATUS_OUT_WAIT (reads p w (dev_setup 8)) w v" "EnumState (hosts v p) = ENUM_IDLE" by blast
  let ?wl = "set_last p CTRL_STATUS_OUT_WAIT w"
  from v(2) have a: "at_stage p ?r CTRL_STATUS_OUT_WAIT v" and k: "keeps p ?wl v"
    and sv: "sent (reads p w (dev_setup 8)) w v"
    by (simp_all add: first_at_def)
  from finish [OF a] obtain w' where w': "request E p ?r v = (USBH_OK, w')" "idle_for p ?r w'"
    "device (hosts w' p) = device (hosts (E v) p)" "sent [] v w'" by blast
  have rq: "request E p ?r = std_request E p (dev_setup 8) (BData p) 8" by (rule request_the_request)
  have k': "keeps p ?wl w'"
    using std_request_keeps [OF bus_tame k] w'(1) rq by (metis snd_conv)
  have s8: "ctl_setup (ctl p v) = dev_setup 8" using a by (simp add: at_stage_def the_request_def)
  have r8: "reply (dev_setup 8) = take 8 (enc_dev_desc d)" using assms(6) by (simp add: describes_def)
  have "length (reply (dev_setup 8)) = 8" by (simp add: r8 enc_dev_desc_def)
  moreover have "length (Data (device (hosts v p))) = 512" using keepsD(10) [OF k] assms(5) by simp
  ultimately have D: "take 8 (Data (device (hosts w' p))) = take 8 (enc_dev_desc d)"
    using bus_reply [OF at_stageD(7) [OF a]] s8 w'(3) r8 by simp
  let ?w1 = "parse_dev p 8 w'"
  have "take 8 (Data (device (hosts w' p))) ! 7 = bMaxPacketSize d" unfolding D by (simp add: enc_dev_desc_def)
  then have m: "bMaxPacketSize (dev_desc_of p ?w1) = bMaxPacketSize d"
    using keepsD(10) [OF k'] assms(5)
    by (simp add: parse_dev_def dev_desc_of_def USBH_ParseDevDesc_def rd8_def)
  have "enum_at p ENUM_IDLE (reads p w (dev_setup 8)) w w'"
    using w'(2) keeps_host [OF k'] keepsD(10) [OF k'] assms(3,5) sent_trans [OF sv w'(4)]
    by (simp add: enum_at_def idle_for_def sent_def)
  note e1 = enum_at_DevDesc [OF this, of 8]
  let ?w2 = "upd_ctl p (\<lambda>x. x\<lparr>pipe_size := bMaxPacketSize d\<rparr>) ?w1"
  have "enum_at p ENUM_IDLE (reads p w (dev_setup 8)) w ?w2"
    using enum_at_upd [OF e1, of "Control_update (\<lambda>x. x\<lparr>pipe_size := bMaxPacketSize d\<rparr>)"] e1
    by (simp add: enum_at_def)
  note e2 = enum_at_set [OF this, of ENUM_GET_FULL_DEV_DESC]
  let ?w3 = "set_last p CTRL_IDLE (set_enum p ENUM_GET_FULL_DEV_DESC ?w2)"
  have e3: "enum_at p ENUM_GET_FULL_DEV_DESC (reads p w (dev_setup 8)) w ?w3"
    using enum_at_upd [OF e2, of "\<lambda>h. h\<lparr>last_ctrl_status := CTRL_IDLE\<rparr>"] e2
    by (simp add: enum_at_def set_last_def)
  have h: "dev_address (device (hosts ?w3 p)) = dev_address (device (hosts w p))" "pipe_size (ctl p ?w3) = bMaxPacketSize d"
    "CfgDesc (device (hosts ?w3 p)) = CfgDesc (device (hosts w p))" "address (hosts ?w3 p) = address (hosts w p)"
    "bytes ?w3 = bytes w"
    using keeps_host [OF k'] keepsD(5) [OF k'] by (simp_all add: set_last_def set_enum_def parse_dev_def)
  have "request_ready p ?w3" using e3 by (simp add: enum_at_def)
  note o = open_pipes_frame(1) [OF this] enum_at_open [OF e3]
  have ob: "bytes (open_control_pipes p ?w3) = bytes ?w3"
    by (simp add: open_control_pipes_def Let_def USBH_OpenPipe_def USBH_LL_OpenPipe_def HAL_HCD_HC_Init_def
        chk_hc_def chk_hcd_def)
  have "USBH_Get_DevDesc E p 8 v = (USBH_OK, ?w1)"
    using w'(1) rq by (simp add: Get_DevDesc_request)
  then have "USBH_HandleEnum E p v = Some (USBH_BUSY, open_control_pipes p ?w3)"
    using v(3) m by (simp add: USBH_HandleEnum_def enum_first_def set_last_def)
  from goes_on_trans [OF v(1) goes_on_busy [OF this]] o h ob show ?thesis
    by (intro exI [of _ "open_control_pipes p ?w3"]) (simp add: eval_nat_numeral)
qed


lemma dev_stage:
  assumes "enum_at p ENUM_GET_FULL_DEV_DESC cs w0 w" "describes reply d c is"
  shows "\<exists>w1. goes_on E p 7 w w1 \<and> enum_at p ENUM_SET_ADDR (cs @ reads p w0 (dev_setup 18)) w0 w1
    \<and> learned p w1 = (d, CfgDesc (device (hosts w p)), dev_address (device (hosts w p)), pipe_size (ctl p w))
    \<and> bytes w1 = bytes w \<and> address (hosts w1 p) = address (hosts w p)"
proof -
  let ?g = "\<lambda>v. Some (USBH_BUSY, set_enum p ENUM_SET_ADDR (parse_dev p 18 v))"
  have r: "reply (dev_setup 18) = enc_dev_desc d" using assms(2) by (simp add: describes_def)
  have H: "USBH_HandleEnum E p v = (case std_request E p (dev_setup 18) (BData p) 18 v of
      (st, v') \<Rightarrow> if st = USBH_OK then ?g v' else Some (USBH_BUSY, v'))" if "keeps p w v" for v
    using keeps_host(2) [OF that] assms(1)
    by (simp add: USBH_HandleEnum_def enum_at_def Get_DevDesc_request case_prod_beta)
  have "bmRequestType (dev_setup 18) AND 0x80 = 0x80" "wLength (dev_setup 18) \<noteq> 0"
    "length (reply (dev_setup 18)) \<le> 512" "18 = wLength (dev_setup 18)"
    by (simp_all add: dev_setup_def r [unfolded dev_setup_def] enc_dev_desc_def)
  from in_stage [OF assms(1) this H] obtain w1 where
    w1: "enum_at p ENUM_GET_FULL_DEV_DESC (cs @ reads p w0 (dev_setup 18)) w0 w1" "keeps p w w1"
    "take (length (reply (dev_setup 18))) (Data (device (hosts w1 p))) = reply (dev_setup 18)"
    "goes_on E p 7 w (set_enum p ENUM_SET_ADDR (parse_dev p 18 w1))" by blast
  have D: "Data (device (hosts w1 p)) = enc_dev_desc d @ drop (length (enc_dev_desc d)) (Data (device (hosts w1 p)))"
    using prefix_of_Data [OF w1(3) refl] unfolding r .
  have "USBH_ParseDevDesc old (Data (device (hosts w1 p))) 18 = d" for old
    by (subst D) (rule parse_enc_dev_desc)
  with w1(4) keeps_host [OF w1(2)] keepsD(5) [OF w1(2)] enum_at_set [OF enum_at_DevDesc [OF w1(1)]] show ?thesis
    by (intro exI [of _ "set_enum p ENUM_SET_ADDR (parse_dev p 18 w1)"] conjI)
      (simp_all add: learned_def, simp_all add: set_enum_def parse_dev_def)
qed

lemma cfg_header_stage:
  assumes "enum_at p ENUM_GET_CFG_DESC cs w0 w" "describes reply d c is" "learned p w = (d, old, a, m)"
  shows "\<exists>w1. goes_on E p 7 w w1 \<and> enum_at p ENUM_GET_FULL_CFG_DESC (cs @ reads p w0 (cfg_setup 9)) w0 w1
    \<and> learned p w1 = (d, c\<lparr>Itf_Desc := Itf_Desc old\<rparr>, a, m)"
proof -
  let ?old = "CfgDesc (device (hosts w p))"
  let ?g = "\<lambda>v. map_option (\<lambda>(c, fs). (USBH_BUSY, set_enum p ENUM_GET_FULL_CFG_DESC ((upd_dev p (\<lambda>d. d\<lparr>CfgDesc := c\<rparr>) v)
       \<lparr>faults := faults v @ fs\<rparr>))) (USBH_ParseCfgDesc (CfgDesc (device (hosts v p))) (Data (device (hosts v p))) 9)"
  have r: "reply (cfg_setup 9) = enc_cfg_header c" and c: "cfg_bLength c = 9" "cfg_bDescriptorType c = 2"
    using assms(2) by (simp_all add: describes_def)
  have H: "USBH_HandleEnum E p v = (case std_request E p (cfg_setup 9) (BData p) 9 v of
      (st, v') \<Rightarrow> if st = USBH_OK then ?g v' else Some (USBH_BUSY, v'))" if "keeps p w v" for v
    using keeps_host(2) [OF that] assms(1)
    by (auto simp: USBH_HandleEnum_def enum_at_def USBH_Get_CfgDesc_def requests_are_std cfg_setup_def
        case_prod_beta map_option_case split: option.split)
  have "bmRequestType (cfg_setup 9) AND 0x80 = 0x80" "wLength (cfg_setup 9) \<noteq> 0"
    "length (reply (cfg_setup 9)) \<le> 512" "9 = wLength (cfg_setup 9)"
    by (simp_all add: cfg_setup_def r [unfolded cfg_setup_def] enc_cfg_header_def)
  from in_stage [OF assms(1) this H] obtain w1 where
    w1: "enum_at p ENUM_GET_CFG_DESC (cs @ reads p w0 (cfg_setup 9)) w0 w1" "keeps p w w1"
    "take (length (reply (cfg_setup 9))) (Data (device (hosts w1 p))) = reply (cfg_setup 9)"
    and n: "\<And>w2. ?g w1 = Some (USBH_BUSY, w2) \<Longrightarrow> goes_on E p 7 w w2" by blast
  have D: "Data (device (hosts w1 p)) = enc_cfg_header c @ drop (length (enc_cfg_header c)) (Data (device (hosts w1 p)))"
    using prefix_of_Data [OF w1(3) refl] unfolding r .
  have l: "length (Data (device (hosts w1 p))) = 512" using w1(1) by (simp add: enum_at_def)
  have "parse_cfg_header old (Data (device (hosts w1 p))) = c\<lparr>Itf_Desc := Itf_Desc old\<rparr>" for old
    by (subst D) (simp add: parse_cfg_header_def enc_cfg_header_def)
  then have "USBH_ParseCfgDesc old (Data (device (hosts w1 p))) 9 = Some (c\<lparr>Itf_Desc := Itf_Desc old\<rparr>, [])" for old
    using l by (simp add: USBH_ParseCfgDesc_def sc_read_def sc_chk_def)
  then have g: "?g w1 = Some (USBH_BUSY, set_enum p ENUM_GET_FULL_CFG_DESC
      (upd_dev p (\<lambda>d. d\<lparr>CfgDesc := c\<lparr>Itf_Desc := Itf_Desc (CfgDesc (device (hosts w1 p)))\<rparr>\<rparr>) w1))"
    by simp
  from n [OF g] enum_at_set [OF enum_at_CfgDesc [OF w1(1)]] show ?thesis
    using keeps_learned [OF w1(2)] assms(3)
    by (intro exI conjI) (auto simp: learned_def set_enum_def)
qed

lemma cfg_full_stage:
  assumes "enum_at p ENUM_GET_FULL_CFG_DESC cs w0 w" "describes reply d c is" "learned p w = (d, old, a, m)"
    and "wTotalLength old = wTotalLength c" "wf_table old"
  shows "\<exists>w1. goes_on E p 7 w w1 \<and> enum_at p ENUM_GET_MFC_STRING_DESC (cs @ reads p w0 (cfg_setup (wTotalLength c))) w0 w1
    \<and> learned p w1 = (d, c\<lparr>Itf_Desc := overlay (map2 (\<lambda>(d, es) old. d\<lparr>Ep_Desc := overlay es (Ep_Desc old)\<rparr>)
          is (Itf_Desc old)) (Itf_Desc old)\<rparr>, a, m)"
proof -
  let ?T = "wTotalLength c"
  let ?g = "\<lambda>v. map_option (\<lambda>(c, fs). (USBH_BUSY, set_enum p ENUM_GET_MFC_STRING_DESC ((upd_dev p (\<lambda>d. d\<lparr>CfgDesc := c\<rparr>) v)
       \<lparr>faults := faults v @ fs\<rparr>))) (USBH_ParseCfgDesc (CfgDesc (device (hosts v p))) (Data (device (hosts v p))) ?T)"
  have r: "reply (cfg_setup ?T) = enc_cfg_header c @ concat (enc_itfs is)"
    and c: "\<forall>p \<in> set is. wf_itf p" "length is \<le> USBH_MAX_NUM_INTERFACES" "cfg_bLength c = 9" "cfg_bDescriptorType c = 2"
      "?T = of_nat (length (enc_cfg_header c @ concat (enc_itfs is)))" "9 < ?T"
      "length (enc_cfg_header c @ concat (enc_itfs is)) \<le> 512"
    using assms(2) unfolding describes_def by blast+
  have t: "wTotalLength (CfgDesc (device (hosts w p))) = ?T" using assms(3,4) by (simp add: learned_def)
  have H: "USBH_HandleEnum E p v = (case std_request E p (cfg_setup ?T) (BData p) ?T v of
      (st, v') \<Rightarrow> if st = USBH_OK then ?g v' else Some (USBH_BUSY, v'))" if "keeps p w v" for v
    using keeps_host [OF that] assms(1) t
    by (auto simp: USBH_HandleEnum_def enum_at_def USBH_Get_CfgDesc_def requests_are_std cfg_setup_def
        case_prod_beta map_option_case split: option.split)
  have "bmRequestType (cfg_setup ?T) AND 0x80 = 0x80" "wLength (cfg_setup ?T) \<noteq> 0"
    "length (reply (cfg_setup ?T)) \<le> 512" "?T = wLength (cfg_setup ?T)"
    using c(6,7) unfolding r by (auto simp: cfg_setup_def)
  from in_stage [OF assms(1) this H] obtain w1 where
    w1: "enum_at p ENUM_GET_FULL_CFG_DESC (cs @ reads p w0 (cfg_setup ?T)) w0 w1" "keeps p w w1"
    "take (length (reply (cfg_setup ?T))) (Data (device (hosts w1 p))) = reply (cfg_setup ?T)"
    and n: "\<And>w2. ?g w1 = Some (USBH_BUSY, w2) \<Longrightarrow> goes_on E p 7 w w2" by blast
  let ?D = "Data (device (hosts w1 p))"
  have D: "?D = enc_cfg_header c @ concat (enc_itfs is) @ drop (length (reply (cfg_setup ?T))) ?D"
    using prefix_of_Data [OF w1(3) refl] unfolding r append_assoc .
  have o: "CfgDesc (device (hosts w1 p)) = old"
    using keeps_learned [OF w1(2)] assms(3) by (simp add: learned_def)
  let ?c = "c\<lparr>Itf_Desc := overlay (map2 (\<lambda>(d, es) old. d\<lparr>Ep_Desc := overlay es (Ep_Desc old)\<rparr>)
          is (Itf_Desc old)) (Itf_Desc old)\<rparr>"
  have P: "USBH_ParseCfgDesc old ?D ?T = Some (?c, [])"
    by (subst D) (rule parse_cfg_enc [OF c(1-5) assms(5) c(6)])
  have g: "?g w1 = Some (USBH_BUSY, set_enum p ENUM_GET_MFC_STRING_DESC (upd_dev p (\<lambda>d. d\<lparr>CfgDesc := ?c\<rparr>) w1))"
    unfolding o P by simp
  from n [OF g] enum_at_set [OF enum_at_CfgDesc [OF w1(1)]] show ?thesis
    using keeps_learned [OF w1(2)] assms(3)
    by (intro exI conjI) (auto simp: learned_def set_enum_def)
qed


lemma enum_at_delay: "enum_at p e cs w0 w \<Longrightarrow> enum_at p e cs w0 (USBH_Delay E n w)"
proof -
  assume e: "enum_at p e cs w0 w"
  then have r: "request_ready p (out (Delay n) w)" "RequestState (hosts w p) = CMD_SEND" by (simp_all add: enum_at_def)
  have "keeps p w (USBH_Delay E n w)" by (rule delay_keeps [OF bus_tame keeps_refl])
  from enum_at_keeps [OF e this, of "[]"] r bus_ready [OF r(1)] bus_request [OF r(1)] bus_trace [OF r(1)]
    bus_faults [OF r(1)] show ?thesis by (simp add: USBH_Delay_def)
qed

lemma addr_stage:
  assumes "enum_at p ENUM_SET_ADDR cs w0 w" "learned p w = (d, old, b, m)" "addrs_ok (address (hosts w p)) w"
    and "fst (USBH_Get_One_Address p w) = a" "a \<noteq> 0"
  shows "\<exists>w1. goes_on E p 5 w w1
    \<and> enum_at p ENUM_GET_CFG_DESC (cs @ none_calls p w0 (addr_setup a) @ open_calls p w0 a m) w0 w1 \<and> learned p w1 = (d, old, a, m)"
proof -
  let ?s = "addr_setup a"
  obtain wa where wa: "USBH_Get_One_Address p w = (a, wa)" using assms(4) by (cases "USBH_Get_One_Address p w") simp
  have A: "enum_at p ENUM_SET_ADDR cs w0 wa \<and> learned p wa = (d, old, a, m)"
  proof (cases "dev_address (device (hosts w p)) = 0")
    case False
    with wa have "wa = w" "a = dev_address (device (hosts w p))" by (auto simp: USBH_Get_One_Address_def Let_def)
    with assms(1,2) show ?thesis by (simp add: learned_def)
  next
    case True
    with wa Get_One_Address_eq [OF True assms(3)] assms(5) obtain i where
      i: "first_idx (\<lambda>i. rd8 (bytes w (address (hosts w p))) i = 0) 0 8 = Some i" "a = of_nat (i + 1)"
      "wa = set_dev_address p a (set_addr_used p (int i) 1 w)"
      by (auto split: option.splits)
    let ?u = "set_addr_used p (int i) 1 w"
    have "i < 8" using first_idx_Some [OF i(1)] by simp
    then have "faults ?u = faults w" using assms(3) by (intro set_addr_used_simps(3)) (auto simp: addrs_ok_def)
    moreover have "request_ready p ?u = request_ready p w" by (rule request_ready_cong) simp_all
    ultimately have "enum_at p ENUM_SET_ADDR cs w0 ?u" using assms(1) by (simp add: enum_at_def trace_def)
    from enum_at_upd [OF this, of "device_update (dev_address_update (\<lambda>_. a))"] this assms(2) show ?thesis
      by (simp add: i(3) set_dev_address_def enum_at_def learned_def)
  qed
  then have ad: "dev_address (device (hosts wa p)) = a" by (simp add: learned_def)
  have H: "USBH_HandleEnum E p v = Some (let (st, v') = std_request E p ?s BNull 0 v in if st = USBH_OK
       then (USBH_BUSY, open_control_pipes p (set_enum p ENUM_GET_CFG_DESC (USBH_Delay E 2 v'))) else (USBH_BUSY, v'))"
    if "keeps p wa v" for v
    using A assms(5) keeps_host [OF that] ad
    by (simp add: USBH_HandleEnum_def enum_at_def enum_set_addr_def USBH_Get_One_Address_def requests_are_std addr_setup_def Let_def)
  have same: "USBH_HandleEnum E p w = USBH_HandleEnum E p wa"
    using A assms(1,5) wa ad by (simp add: USBH_HandleEnum_def enum_at_def enum_set_addr_def)
      (simp add: USBH_Get_One_Address_def Let_def)
  have r: "request_ready p wa" "RequestState (hosts wa p) = CMD_SEND" using A by (simp_all add: enum_at_def)
  from request_none [OF r, of ?s 0 BNull 0] obtain w1 where w1: "run_req 5 (std_request E p ?s BNull 0) wa = (USBH_OK, w1)"
    "trace w1 = trace wa @ none_calls p wa (addr_setup a)" "faults w1 = faults wa" "request_ready p w1"
    "RequestState (hosts w1 p) = CMD_SEND" "keeps p wa w1"
    by (auto simp: addr_setup_def)
  have "none_calls p wa (addr_setup a) = none_calls p w0 (addr_setup a)" using A by (simp add: none_calls_def enum_at_def)
  with enum_at_keeps [OF _ w1(6,2-5)] A have "enum_at p ENUM_SET_ADDR (cs @ none_calls p w0 (addr_setup a)) w0 w1" by simp
  note e = enum_at_set [OF enum_at_delay [OF this, of 2], of ENUM_GET_CFG_DESC]
  let ?w2 = "set_enum p ENUM_GET_CFG_DESC (USBH_Delay E 2 w1)"
  have l: "learned p ?w2 = (d, old, a, m)"
    using keeps_learned [OF delay_keeps [OF bus_tame w1(6), of 2]] A by simp
  then have dp: "dev_address (device (hosts ?w2 p)) = a" "pipe_size (ctl p ?w2) = m" by (simp_all add: learned_def)
  have "request_ready p ?w2" using e by (simp add: enum_at_def)
  note o = open_pipes_frame(1) [OF this] enum_at_open [OF e, unfolded dp]
  have "goes_on E p 5 wa (open_control_pipes p ?w2)"
    by (rule stage_goes_on [OF _ _ _ w1(1)]) (simp_all add: std_request_keeps [OF bus_tame] H)
  from goes_on_first [OF same this] o l show ?thesis
    by (intro exI [of _ "open_control_pipes p ?w2"]) (simp add: learned_def)
qed

lemma goes_on_more: "goes_on E p n w w' \<Longrightarrow> n \<le> n' \<Longrightarrow> goes_on E p n' w w'"
  unfolding goes_on_def using order_trans by blast

lemma mfc_stage:
  assumes "enum_at p ENUM_GET_MFC_STRING_DESC cs w0 w" "describes reply d c is" "learned p w = (d, x)"
  shows "\<exists>w1. goes_on E p 7 w w1 \<and> enum_at p ENUM_GET_PRODUCT_STRING_DESC (cs @ string_calls p w0 (iManufacturer d)) w0 w1
    \<and> learned p w1 = (d, x)"
proof (cases "iManufacturer d = 0")
  case True
  let ?w = "osMessagePut USBH_STATE_CHANGED_EVENT (set_enum p ENUM_GET_PRODUCT_STRING_DESC w)"
  have "USBH_HandleEnum E p w = Some (USBH_BUSY, ?w)"
    using True assms(1,3) by (simp add: USBH_HandleEnum_def enum_at_def dev_desc_of_def learned_def)
  from goes_on_more [OF goes_on_busy [OF this], of 7] enum_at_set [OF assms(1)] True assms(3) show ?thesis
    by (intro exI [of _ ?w]) (simp add: string_calls_def)
next
  case False
  let ?h = "\<lambda>st v. Some (USBH_BUSY, if st = USBH_OK
      then osMessagePut USBH_STATE_CHANGED_EVENT (set_enum p ENUM_GET_PRODUCT_STRING_DESC v) else v)"
  have "USBH_HandleEnum E p v = Option.bind (USBH_Get_StringDesc E p (iManufacturer d) 0xff v) (\<lambda>(st, v). ?h st v)"
    if "keeps p w v" for v
    using keeps_host [OF that] False assms(1,3) by (simp add: USBH_HandleEnum_def enum_at_def dev_desc_of_def learned_def)
  from string_stage [OF assms(1) _ this] assms(2) False obtain w1 where
    "enum_at p ENUM_GET_MFC_STRING_DESC (cs @ reads p w0 (str_setup (iManufacturer d))) w0 w1" "learned p w1 = learned p w"
    "goes_on E p 7 w (osMessagePut USBH_STATE_CHANGED_EVENT (set_enum p ENUM_GET_PRODUCT_STRING_DESC w1))"
    by (auto simp: describes_def)
  with enum_at_set False assms(3) show ?thesis
    by (intro exI [of _ "osMessagePut USBH_STATE_CHANGED_EVENT (set_enum p ENUM_GET_PRODUCT_STRING_DESC w1)"])
      (auto simp: string_calls_def)
qed

lemma product_stage:
  assumes "enum_at p ENUM_GET_PRODUCT_STRING_DESC cs w0 w" "describes reply d c is" "learned p w = (d, x)"
  shows "\<exists>w1. goes_on E p 7 w w1 \<and> enum_at p ENUM_GET_SERIALNUM_STRING_DESC (cs @ string_calls p w0 (iProduct d)) w0 w1
    \<and> learned p w1 = (d, x)"
proof (cases "iProduct d = 0")
  case True
  let ?w = "osMessagePut USBH_STATE_CHANGED_EVENT (set_enum p ENUM_GET_SERIALNUM_STRING_DESC w)"
  have "USBH_HandleEnum E p w = Some (USBH_BUSY, ?w)"
    using True assms(1,3) by (simp add: USBH_HandleEnum_def enum_at_def dev_desc_of_def learned_def)
  from goes_on_more [OF goes_on_busy [OF this], of 7] enum_at_set [OF assms(1)] True assms(3) show ?thesis
    by (intro exI [of _ ?w]) (simp add: string_calls_def)
next
  case False
  let ?h = "\<lambda>st v. Some (USBH_BUSY, if st = USBH_OK then set_enum p ENUM_GET_SERIALNUM_STRING_DESC v else v)"
  have "USBH_HandleEnum E p v = Option.bind (USBH_Get_StringDesc E p (iProduct d) 0xff v) (\<lambda>(st, v). ?h st v)"
    if "keeps p w v" for v
    using keeps_host [OF that] False assms(1,3) by (simp add: USBH_HandleEnum_def enum_at_def dev_desc_of_def learned_def)
  from string_stage [OF assms(1) _ this] assms(2) False obtain w1 where
    "enum_at p ENUM_GET_PRODUCT_STRING_DESC (cs @ reads p w0 (str_setup (iProduct d))) w0 w1" "learned p w1 = learned p w"
    "goes_on E p 7 w (set_enum p ENUM_GET_SERIALNUM_STRING_DESC w1)"
    by (auto simp: describes_def)
  with enum_at_set False assms(3) show ?thesis
    by (intro exI [of _ "set_enum p ENUM_GET_SERIALNUM_STRING_DESC w1"]) (auto simp: string_calls_def)
qed

lemma serial_stage:
  assumes "enum_at p ENUM_GET_SERIALNUM_STRING_DESC cs w0 w" "describes reply d c is" "learned p w = (d, x)"
  shows "\<exists>w1. (\<forall>k. enum_run (7 + k) E p w = Some (USBH_OK, w1))
    \<and> enum_at p ENUM_GET_SERIALNUM_STRING_DESC (cs @ string_calls p w0 (iSerialNumber d)) w0 w1 \<and> learned p w1 = (d, x)"
proof (cases "iSerialNumber d = 0")
  case True
  let ?w = "osMessagePut USBH_STATE_CHANGED_EVENT w"
  have "USBH_HandleEnum E p w = Some (USBH_OK, ?w)"
    using True assms(1,3) by (simp add: USBH_HandleEnum_def enum_at_def dev_desc_of_def learned_def)
  with assms(1,3) True show ?thesis
    by (intro exI [of _ ?w]) (simp add: string_calls_def eval_nat_numeral)
next
  case False
  let ?h = "\<lambda>st v. Some (if st = USBH_OK then USBH_OK else USBH_BUSY, v)"
  have "USBH_HandleEnum E p v = Option.bind (USBH_Get_StringDesc E p (iSerialNumber d) 0xff v) (\<lambda>(st, v). ?h st v)"
    if "keeps p w v" for v
    using keeps_host [OF that] False assms(1,3) by (simp add: USBH_HandleEnum_def enum_at_def dev_desc_of_def learned_def)
  from string_stage [OF assms(1) _ this] assms(2) False obtain w1 where
    "enum_at p ENUM_GET_SERIALNUM_STRING_DESC (cs @ reads p w0 (str_setup (iSerialNumber d))) w0 w1" "learned p w1 = learned p w"
    "\<And>k. enum_run (7 + k) E p w = Some (USBH_OK, w1)"
    by (auto simp: describes_def)
  with False assms(3) show ?thesis by (intro exI [of _ w1]) (simp add: string_calls_def)
qed

end

section \<open>The whole enumeration\<close>

text \<open>The calls of a complete enumeration, in order.\<close>

definition enum_calls :: "ptr \<Rightarrow> usb \<Rightarrow> USBH_DevDescTypeDef \<Rightarrow> u8 \<Rightarrow> u16 \<Rightarrow> hal_call list" where
  "enum_calls p w d a len =
     reads p w (dev_setup 8) @ open_calls p w (dev_address (device (hosts w p))) (bMaxPacketSize d)
     @ reads p w (dev_setup 18) @ none_calls p w (addr_setup a) @ open_calls p w a (bMaxPacketSize d)
     @ reads p w (cfg_setup 9) @ reads p w (cfg_setup len)
     @ string_calls p w (iManufacturer d) @ string_calls p w (iProduct d) @ string_calls p w (iSerialNumber d)"

text \<open>The configuration with the device's interfaces in the handle's tables.\<close>

definition stored_cfg :: "USBH_CfgDescTypeDef \<Rightarrow> (USBH_InterfaceDescTypeDef \<times> USBH_EpDescTypeDef list) list
    \<Rightarrow> USBH_CfgDescTypeDef \<Rightarrow> USBH_CfgDescTypeDef" where
  "stored_cfg c is old = c\<lparr>Itf_Desc := overlay (map2 (\<lambda>(d, es) old. d\<lparr>Ep_Desc := overlay es (Ep_Desc old)\<rparr>)
     is (Itf_Desc old)) (Itf_Desc old)\<rparr>"

context device_bus
begin

lemma enum_completes:
  assumes "describes reply d c is"
    and "request_ready p w" and "RequestState (hosts w p) = CMD_SEND" and "EnumState (hosts w p) = ENUM_IDLE"
    and "last_ctrl_status (hosts w p) = CTRL_IDLE" and "length (Data (device (hosts w p))) = USBH_MAX_DATA_BUFFER"
    and "wf_table (CfgDesc (device (hosts w p)))"
    and "addrs_ok (address (hosts w p)) w" and "fst (USBH_Get_One_Address p w) = a" and "a \<noteq> 0"
  shows "\<exists>w'. enum_run (54 + k) E p w = Some (USBH_OK, w')
    \<and> DevDesc (device (hosts w' p)) = d
    \<and> CfgDesc (device (hosts w' p)) = stored_cfg c is (CfgDesc (device (hosts w p)))
    \<and> dev_address (device (hosts w' p)) = a \<and> pipe_size (Control (hosts w' p)) = bMaxPacketSize d
    \<and> trace w' = trace w @ enum_calls p w d a (wTotalLength c)
    \<and> faults w' = faults w"
proof -
  let ?old = "CfgDesc (device (hosts w p))"
  note s = first_stage dev_stage addr_stage cfg_header_stage cfg_full_stage mfc_stage product_stage serial_stage
  let ?c1 = "reads p w (dev_setup 8) @ open_calls p w (dev_address (device (hosts w p))) (bMaxPacketSize d)"
  let ?c2 = "?c1 @ reads p w (dev_setup 18)"
  let ?c3 = "?c2 @ none_calls p w (addr_setup a) @ open_calls p w a (bMaxPacketSize d)"
  let ?c4 = "?c3 @ reads p w (cfg_setup 9)"
  let ?c5 = "?c4 @ reads p w (cfg_setup (wTotalLength c))"
  let ?c6 = "?c5 @ string_calls p w (iManufacturer d)"
  let ?c7 = "?c6 @ string_calls p w (iProduct d)"
  let ?l = "(d, stored_cfg c is ?old, a, bMaxPacketSize d)"
  from s(1) [OF assms(2-6,1)] obtain w1 where 1: "goes_on E p 7 w w1" "enum_at p ENUM_GET_FULL_DEV_DESC ?c1 w w1"
    "CfgDesc (device (hosts w1 p)) = ?old" "dev_address (device (hosts w1 p)) = dev_address (device (hosts w p))"
    "pipe_size (ctl p w1) = bMaxPacketSize d" "bytes w1 = bytes w" "address (hosts w1 p) = address (hosts w p)" by blast
  from s(2) [OF 1(2) assms(1)] obtain w2 where 2: "goes_on E p 7 w1 w2" "enum_at p ENUM_SET_ADDR ?c2 w w2"
    "learned p w2 = (d, ?old, dev_address (device (hosts w p)), bMaxPacketSize d)"
    "bytes w2 = bytes w" "address (hosts w2 p) = address (hosts w p)" using 1 by auto
  have ok2: "addrs_ok (address (hosts w2 p)) w2" using assms(8) 2(4,5) by (simp add: addrs_ok_def)
  have a2: "fst (USBH_Get_One_Address p w2) = a"
    using assms(9) Get_One_Address_eq [OF _ ok2] Get_One_Address_eq [OF _ assms(8)] 2(3-5)
    by (cases "dev_address (device (hosts w p)) = 0")
      (auto simp: learned_def USBH_Get_One_Address_def Let_def split: option.splits)
  from s(3) [OF 2(2,3) ok2 a2 assms(10)] obtain w3 where 3: "goes_on E p 5 w2 w3" "enum_at p ENUM_GET_CFG_DESC ?c3 w w3"
    "learned p w3 = (d, ?old, a, bMaxPacketSize d)" by blast
  from s(4) [OF 3(2) assms(1) 3(3)] obtain w4 where 4: "goes_on E p 7 w3 w4" "enum_at p ENUM_GET_FULL_CFG_DESC ?c4 w w4"
    "learned p w4 = (d, c\<lparr>Itf_Desc := Itf_Desc ?old\<rparr>, a, bMaxPacketSize d)" by blast
  have "wTotalLength (c\<lparr>Itf_Desc := Itf_Desc ?old\<rparr>) = wTotalLength c" "wf_table (c\<lparr>Itf_Desc := Itf_Desc ?old\<rparr>)"
    using assms(7) by (simp_all add: wf_table_def)
  from s(5) [OF 4(2) assms(1) 4(3) this] obtain w5 where 5: "goes_on E p 7 w4 w5" "enum_at p ENUM_GET_MFC_STRING_DESC ?c5 w w5"
    "learned p w5 = ?l" by (auto simp: stored_cfg_def)
  from s(6) [OF 5(2) assms(1) 5(3)] obtain w6 where 6: "goes_on E p 7 w5 w6"
    "enum_at p ENUM_GET_PRODUCT_STRING_DESC ?c6 w w6" "learned p w6 = ?l" by blast
  from s(7) [OF 6(2) assms(1) 6(3)] obtain w7 where 7: "goes_on E p 7 w6 w7"
    "enum_at p ENUM_GET_SERIALNUM_STRING_DESC ?c7 w w7" "learned p w7 = ?l" by blast
  from s(8) [OF 7(2) assms(1) 7(3)] obtain w8 where 8: "\<And>k. enum_run (7 + k) E p w7 = Some (USBH_OK, w8)"
    "enum_at p ENUM_GET_SERIALNUM_STRING_DESC (?c7 @ string_calls p w (iSerialNumber d)) w w8" "learned p w8 = ?l" by blast
  from goes_on_trans [OF 1(1) goes_on_trans [OF 2(1) goes_on_trans [OF 3(1) goes_on_trans [OF 4(1)
    goes_on_trans [OF 5(1) goes_on_trans [OF 6(1) 7(1)]]]]]]
  obtain m where m: "m \<le> 47" "\<And>k. enum_run (m + k) E p w = enum_run k E p w7" by (auto simp: goes_on_def)
  have "enum_run (54 + k) E p w = Some (USBH_OK, w8)"
    using m(2) [of "54 + k - m"] 8(1) [of "47 + k - m"] m(1) by simp
  with 8(2,3) show ?thesis
    by (intro exI [of _ w8]) (simp add: learned_def enum_at_def enum_calls_def)
qed

end

text \<open>
  C1: On a bus that completes its transfers, the enumeration of a device that answers as its
  descriptors say ends with \<open>USBH_OK\<close> after at most 54 calls of \<open>USBH_HandleEnum\<close>. The handle then
  holds the device's descriptor, its configuration with all interfaces and endpoints, the address
  taken from the table and the packet size of its control endpoint; and exactly the requests and
  channel set-ups of \<open>enum_calls\<close> have gone out: eight bytes of the device descriptor, then all of it,
  the address, the configuration's header and the whole configuration, then the strings the device
  has. No access was out of bounds.
\<close>

theorem enumeration_completes:
  assumes "device_bus E p reply" and "describes reply d c is"
    and "request_ready p w" and "RequestState (hosts w p) = CMD_SEND" and "EnumState (hosts w p) = ENUM_IDLE"
    and "last_ctrl_status (hosts w p) = CTRL_IDLE" and "length (Data (device (hosts w p))) = USBH_MAX_DATA_BUFFER"
    and "wf_table (CfgDesc (device (hosts w p)))"
    and "addrs_ok (address (hosts w p)) w" and "fst (USBH_Get_One_Address p w) = a" and "a \<noteq> 0"
  shows "\<exists>w'. enum_run (54 + k) E p w = Some (USBH_OK, w')
    \<and> DevDesc (device (hosts w' p)) = d
    \<and> CfgDesc (device (hosts w' p)) = stored_cfg c is (CfgDesc (device (hosts w p)))
    \<and> dev_address (device (hosts w' p)) = a \<and> pipe_size (Control (hosts w' p)) = bMaxPacketSize d
    \<and> trace w' = trace w @ enum_calls p w d a (wTotalLength c)
    \<and> faults w' = faults w"
  using assms(2-11) by (rule device_bus.enum_completes [OF assms(1)])

section \<open>A device that never answers\<close>

text \<open>
  A device that never answers is given up: the first call of \<open>USBH_HandleEnum\<close> prepares the
  request, the second sends the set-up packet, the third, at least a millisecond later, finds the
  transfer where it was and returns \<open>USBH_FAIL\<close>. One packet has gone out.
\<close>

theorem silent_device_given_up:
  assumes "silent_bus E p" and "request_ready p w" and "RequestState (hosts w p) = CMD_SEND"
    and "EnumState (hosts w p) = ENUM_IDLE" and "last_ctrl_status (hosts w p) = CTRL_IDLE"
  shows "\<exists>w1 w2 w3. USBH_HandleEnum E p w = Some (USBH_BUSY, w1) \<and> USBH_HandleEnum E p w1 = Some (USBH_BUSY, w2)
    \<and> USBH_HandleEnum E p w2 = Some (USBH_FAIL, w3)
    \<and> trace w3 = trace w @ [HC_StartXfer (pipe_out (Control (hosts w p))) 0 USBH_EP_CONTROL HC_PID_SETUP (Packet (dev_setup 8)) 8]
    \<and> faults w3 = faults w"
proof -
  note Q = silent_bus.axioms(1) [OF assms(1)]
  let ?r = "the_request p w (dev_setup 8) (BData p) 8"
  have rq: "request E p ?r = std_request E p (dev_setup 8) (BData p) 8" by (rule request_the_request)
  have kw: "keeps p (set_last p CTRL_IDLE w) w"
    using assms(5) by (cases "hosts w p") (simp add: keeps_def set_last_def)
  from request_first [OF idle_the_request [OF assms(2,3), of "dev_setup 8" "BData p" 8], of E]
  obtain w' where w': "request E p ?r w = (USBH_BUSY, w')" "at_stage p ?r CTRL_SETUP w'" "sent [] w w'" by blast
  obtain w1 where 1: "USBH_HandleEnum E p w = Some (USBH_BUSY, w1)" "first_at p ?r CTRL_SETUP [] w w1"
      "EnumState (hosts w1 p) = ENUM_IDLE"
    using quiet_bus.first_step [OF Q rq assms(4) kw sent_refl disjI1 [OF refl] w'] by auto
  let ?cs = "[HC_StartXfer (rq_out ?r) 0 USBH_EP_CONTROL HC_PID_SETUP (Packet (rq_setup ?r)) 8]"
  from silent_bus.setup_unanswered [OF assms(1)] 1(2) obtain v where v: "request E p ?r w1 = (USBH_BUSY, v)"
    "at_stage p ?r CTRL_SETUP_WAIT v" "sent ?cs w1 v"
    "hc_urb_state (hc_get v (rq_out ?r)) = USBH_URB_IDLE" by (auto simp: first_at_def)
  let ?w2 = "USBH_Delay E 1 (set_last p CTRL_SETUP_WAIT v)"
  have k1: "keeps p (set_last p CTRL_SETUP w) w1" "sent [] w w1" using 1(2) by (simp_all add: first_at_def)
  note 2 = quiet_bus.first_step [OF Q rq 1(3) k1 disjI2 v(1-3)]
  have w2: "USBH_HandleEnum E p w1 = Some (USBH_BUSY, ?w2)" "first_at p ?r CTRL_SETUP_WAIT ?cs w ?w2"
    "EnumState (hosts ?w2 p) = ENUM_IDLE"
    using 2 by simp_all
  have a2: "at_stage p ?r CTRL_SETUP_WAIT ?w2" using w2(2) by (simp add: first_at_def)
  have "request_ready p (out (Delay 1) (set_last p CTRL_SETUP_WAIT v))" using at_stageD(7) [OF v(2)] by simp
  from silent_bus.bus_silent [OF assms(1) this] v(4)
  have "hc_urb_state (hc_get ?w2 (rq_out ?r)) = USBH_URB_IDLE" by (simp add: USBH_Delay_def set_last_def)
  from silent_bus.poll_unanswered [OF assms(1) a2 this] have p2: "request E p ?r ?w2 = (USBH_BUSY, E ?w2)" .
  have "keeps p ?w2 (E ?w2)" using quiet_bus.bus_tame [OF Q] by (simp add: tame_def)
  moreover have "last_ctrl_status (hosts ?w2 p) = CTRL_SETUP_WAIT"
    using w2(2) keeps_host(17) [of p "set_last p CTRL_SETUP_WAIT w" ?w2] by (simp add: first_at_def)
  ultimately have l: "last_ctrl_status (hosts (E ?w2) p) = CTRL_SETUP_WAIT" by (simp add: keeps_host(17))
  have "at_stage p ?r CTRL_SETUP_WAIT (E ?w2)" using bus.bus_stage [OF _ a2] Q quiet_bus_def by blast
  then have "ctl_state (ctl p (E ?w2)) = CTRL_SETUP_WAIT" by (simp add: at_stage_def)
  with l w2(3) p2 rq have "USBH_HandleEnum E p ?w2
      = Some (USBH_FAIL, osMessagePut USBH_STATE_CHANGED_EVENT (set_last p CTRL_IDLE (E ?w2)))"
    by (simp add: USBH_HandleEnum_def enum_first_def Get_DevDesc_request set_last_def)
  moreover have "sent [] ?w2 (E ?w2)" using bus.bus_sent [OF _ at_stageD(7) [OF a2]] Q quiet_bus_def by blast
  then have "trace (set_last p CTRL_IDLE (E ?w2)) = trace w @ ?cs" "faults (set_last p CTRL_IDLE (E ?w2)) = faults w"
    using w2(2) by (simp_all add: sent_def first_at_def)
  then have "trace (osMessagePut USBH_STATE_CHANGED_EVENT (set_last p CTRL_IDLE (E ?w2)))
      = trace w @ [HC_StartXfer (pipe_out (ctl p w)) 0 USBH_EP_CONTROL HC_PID_SETUP (Packet (dev_setup 8)) 8]"
    "faults (osMessagePut USBH_STATE_CHANGED_EVENT (set_last p CTRL_IDLE (E ?w2))) = faults w"
    by (simp_all add: the_request_def)
  ultimately show ?thesis using 1(1) w2(1) by blast
qed

section \<open>Witnesses\<close>

definition some_device :: USBH_DevDescTypeDef where
  "some_device = zero_dev_desc\<lparr>dev_bLength := 18, dev_bDescriptorType := 1, bMaxPacketSize := 8,
     idVendor := 0x1A86, idProduct := 0x7523, iProduct := 2, bNumConfigurations := 1\<rparr>"

definition some_cfg :: USBH_CfgDescTypeDef where
  "some_cfg = zero_cfg_desc\<lparr>cfg_bLength := 9, cfg_bDescriptorType := 2, wTotalLength := 25\<rparr>"

definition some_reply :: "USB_Setup_TypeDef \<Rightarrow> u8 list" where
  "some_reply s = take (unat (wLength s))
     (if wValue s = 0x0100 then enc_dev_desc some_device
      else if wValue s = 0x0200 then enc_cfg_header some_cfg @ concat (enc_itfs [ch340_itf])
      else [4, 3, 67, 0])"

lemma some_describes: "describes some_reply some_device some_cfg [ch340_itf]"
proof -
  have "wf_itf ch340_itf" by (simp add: ch340_itf_def wf_itf_def zero_itf_desc_def)
  moreover have "length (enc_cfg_header some_cfg @ concat (enc_itfs [ch340_itf])) = 25"
    by (simp add: enc_cfg_header_def enc_itfs_def enc_itf_def enc_ep_def ch340_itf_def)
  ultimately show ?thesis
    by (simp add: describes_def some_reply_def dev_setup_def cfg_setup_def str_setup_def some_cfg_def string_reply_def)
       (simp add: enc_dev_desc_def some_device_def enc_cfg_header_def zero_dev_desc_def)
qed

definition enum_world :: usb where
  "enum_world = ctl_world\<lparr>bytes := (\<lambda>_. replicate 32 0)\<rparr>"

lemma enum_world_ready: "request_ready hUSBHost enum_world" "RequestState (hosts enum_world hUSBHost) = CMD_SEND"
  "EnumState (hosts enum_world hUSBHost) = ENUM_IDLE" "last_ctrl_status (hosts enum_world hUSBHost) = CTRL_IDLE"
proof -
  have "request_ready hUSBHost enum_world = request_ready hUSBHost ctl_world"
    by (rule request_ready_cong) (simp_all add: enum_world_def)
  then show "request_ready hUSBHost enum_world" using ctl_world_ready(1) by (simp only:)
qed (simp_all add: enum_world_def ctl_world_def zero_host_def)

theorem enumeration_completes_witness:
  "\<exists>w'. enum_run 54 (replying hUSBHost some_reply) hUSBHost enum_world = Some (USBH_OK, w')
     \<and> idProduct (DevDesc (device (hosts w' hUSBHost))) = 0x7523 \<and> dev_address (device (hosts w' hUSBHost)) = 1"
proof -
  have 1: "length (Data (device (hosts enum_world hUSBHost))) = 512" "wf_table (CfgDesc (device (hosts enum_world hUSBHost)))"
    "addrs_ok (address (hosts enum_world hUSBHost)) enum_world"
    by (simp_all add: enum_world_def ctl_world_def zero_host_def zero_device_def addrs_ok_def)
  have 2: "fst (USBH_Get_One_Address hUSBHost enum_world) = 1"
    by (simp add: USBH_Get_One_Address_def enum_world_def ctl_world_def zero_host_def zero_device_def addr_used_def
        rd8_def first_idx.simps)
  from enumeration_completes [OF replying.device_bus_axioms some_describes enum_world_ready 1 2, of 0]
  show ?thesis by (auto simp: some_device_def)
qed

theorem silent_device_given_up_witness:
  "\<exists>w1 w2 w3. USBH_HandleEnum id hUSBHost enum_world = Some (USBH_BUSY, w1)
     \<and> USBH_HandleEnum id hUSBHost w1 = Some (USBH_BUSY, w2) \<and> USBH_HandleEnum id hUSBHost w2 = Some (USBH_FAIL, w3)"
  using silent_device_given_up [OF silence.silent_bus_axioms enum_world_ready] by blast

end
