(* ===== verification/Usb_Class_Run.thy ===== *)
theory Usb_Class_Run
  imports Usb_Bus
begin

text \<open>
  Class drivers as runs of requests: a driver whose handle says which request is next, repeats it while
  it is busy and goes on to the next one. The two forms in which the drivers make a request
  (\<open>fill_setup\<close>, and \<open>put_setup\<close> before every call) are the same repeated standard request.
\<close>

section \<open>A packet in place\<close>

text \<open>The handle can make requests and holds the packet \<open>s\<close>.\<close>

definition holds :: "ptr \<Rightarrow> USB_Setup_TypeDef \<Rightarrow> usb \<Rightarrow> bool" where
  "holds p s w \<longleftrightarrow> request_ready p w \<and> ctl_setup (ctl p w) = s"

lemma ready_ctl [simp]:
  "(\<And>c. pipe_in (f c) = pipe_in c \<and> pipe_out (f c) = pipe_out c) \<Longrightarrow>
     request_ready p (upd_ctl p f w) = request_ready p w"
  by (rule request_ready_cong) simp_all

lemma ready_user [simp]: "request_ready p (call_user q ev w) = request_ready p w"
  by (rule request_ready_cong) (simp_all add: call_user_def USBH_UserProcess_def split: HOST_USER.split)

lemma holds_frame [simp]:
  "holds p s (set_ctl_state p st w) = holds p s w" "holds p s (set_request p r w) = holds p s w"
  "holds p s (stamp_timer p w) = holds p s w" "holds p s (osMessagePut e w) = holds p s w"
  "holds p s (out c w) = holds p s w" "holds p s (HAL_HCD_HC_SubmitRequest ch d t k b n g w) = holds p s w"
  "holds p s (upd_ctl p (\<lambda>c. c\<lparr>errorcount := g' c\<rparr>) w) = holds p s w"
  "holds p s (upd_ctl p (\<lambda>c. c\<lparr>ctl_buff := bf, ctl_length := n', ctl_state := st\<rparr>) w) = holds p s w"
  "holds p s (call_user q ev w) = holds p s w"
  by (simp_all add: holds_def)
    (simp_all add: set_ctl_state_def set_request_def stamp_timer_def call_user_def USBH_UserProcess_def split: HOST_USER.split)

lemma holds_submit [simp]: "holds p s w \<Longrightarrow> holds p s (snd (USBH_LL_SubmitURB p ch d t k b n g w))"
  using request_readyD(2,3) by (simp add: USBH_LL_SubmitURB_def)

lemma holds_stop [simp]: "holds p s w \<Longrightarrow> holds p s (snd (USBH_LL_Stop p w))"
  by (simp add: USBH_LL_Stop_def)

lemma fill_held: "holds p s w \<Longrightarrow>
    fill_setup p (bmRequestType s) (bRequest s) (wValue s) (wIndex s) (wLength s) w = w"
  by (cases s, cases w) (auto simp: fill_setup_def holds_def upd_host_def fun_eq_iff)

context bus
begin

lemma holds_poll:
  assumes "holds p s w" "unat ch < HC_COUNT"
  shows "holds p s (snd (USBH_LL_GetURBState E p ch w))"
  using assms poll [of w ch] bus_ready [of w] bus_ctl [of w] by (simp add: holds_def)

lemma holds_pipes:
  assumes "holds p s w"
  shows "unat (pipe_in (ctl p w)) < HC_COUNT" "unat (pipe_out (ctl p w)) < HC_COUNT"
  using assms by (auto simp: holds_def request_ready_def pipes_used_def)

lemma holds_control:
  assumes "holds p s w"
  shows "holds p s (snd (USBH_HandleControl E p w))"
  using assms holds_poll [OF assms holds_pipes(1) [OF assms]] holds_poll [OF assms holds_pipes(2) [OF assms]]
  by (simp add: USBH_HandleControl_def case_prod_beta Let_def ioreq_defs split: CTRL_StateTypeDef.split)

lemma holds_CtlReq:
  assumes "holds p s w"
  shows "holds p s (snd (USBH_CtlReq E p b n w))"
proof -
  have "pipes_allocated p w = (True, w)" using assms request_readyD(6) by (simp add: holds_def)
  with assms holds_control [OF assms] show ?thesis
    by (simp add: USBH_CtlReq_def case_prod_beta Let_def split: CMD_StateTypeDef.split)
qed

end

text \<open>Putting the packet in place is part of the request.\<close>

lemma held_again:
  assumes "holds p s v" "run_req (Suc n) (std_request E p s b len) v = r"
    and "v = fill_setup p (bmRequestType s) (bRequest s) (wValue s) (wIndex s) (wLength s) w"
  shows "run_req (Suc n) (std_request E p s b len) w = r"
  using assms fill_held [OF assms(1)] by (simp add: std_request_def)

lemma put_setup_fill: "RequestState (hosts w p) = CMD_SEND \<Longrightarrow> put_setup p rt rq v ix len w = fill_setup p rt rq v ix len w"
  by (simp add: put_setup_def fill_setup_def)

lemma fill_holds:
  assumes "request_ready p w" "RequestState (hosts w p) = CMD_SEND"
  shows "holds p s (fill_setup p (bmRequestType s) (bRequest s) (wValue s) (wIndex s) (wLength s) w)"
  using assms by (simp add: holds_def) (simp add: fill_setup_def)

lemma put_held: "holds p s w \<Longrightarrow>
    put_setup p (bmRequestType s) (bRequest s) (wValue s) (wIndex s) (wLength s) w = w"
  by (cases s, cases w) (auto simp: put_setup_def holds_def upd_host_def fun_eq_iff)

text \<open>A request whose packet is put in place before every call.\<close>

definition put_request ::
  "(usb \<Rightarrow> usb) \<Rightarrow> ptr \<Rightarrow> USB_Setup_TypeDef \<Rightarrow> buf_ptr \<Rightarrow> u16 \<Rightarrow> usb \<Rightarrow> USBH_StatusTypeDef \<times> usb" where
  "put_request E p s b n w = USBH_CtlReq E p b n
     (put_setup p (bmRequestType s) (bRequest s) (wValue s) (wIndex s) (wLength s) w)"

lemma put_setup_keeps [simp]: "keeps p w0 (put_setup p rt rq v ix n w) = keeps p w0 w"
  unfolding put_setup_def by (rule keeps_upd; simp add: strip_def)

lemma put_request_keeps: "tame E p \<Longrightarrow> keeps p w0 w \<Longrightarrow> keeps p w0 (snd (put_request E p s b n w))"
  by (simp add: put_request_def CtlReq_keeps)

context bus
begin

lemma put_request_held:
  assumes "holds p s w"
  shows "run_req k (put_request E p s b n) w = run_req k (std_request E p s b n) w"
  using assms
proof (induction k arbitrary: w)
  case (Suc k)
  let ?r = "USBH_CtlReq E p b n w"
  have "put_request E p s b n w = ?r" by (simp add: put_request_def put_held [OF Suc.prems])
  moreover have "std_request E p s b n w = ?r" by (simp add: std_request_def fill_held [OF Suc.prems])
  moreover have "holds p s (snd ?r)" by (rule holds_CtlReq [OF Suc.prems])
  ultimately show ?case using Suc.IH [of "snd ?r"] by (simp add: case_prod_beta Let_def)
qed simp

lemma put_request_runs:
  assumes "request_ready p w" "RequestState (hosts w p) = CMD_SEND"
  shows "run_req k (put_request E p s b n) w = run_req k (std_request E p s b n) w"
proof (cases k)
  case (Suc j)
  let ?v = "fill_setup p (bmRequestType s) (bRequest s) (wValue s) (wIndex s) (wLength s) w"
  have h: "holds p s ?v" by (rule fill_holds [OF assms])
  have "put_request E p s b n w = USBH_CtlReq E p b n ?v"
    by (simp add: put_request_def put_setup_fill [OF assms(2)])
  moreover have "std_request E p s b n w = USBH_CtlReq E p b n ?v" by (simp add: std_request_def)
  ultimately show ?thesis
    using put_request_held [OF holds_CtlReq [OF h, of b n], of j b n] Suc by (simp add: case_prod_beta Let_def)
qed simp

end

section \<open>A handle between two requests\<close>

definition class_ptr :: "ptr \<Rightarrow> usb \<Rightarrow> ptr" where
  "class_ptr p w = pClassData (hosts w p) ! 0"

text \<open>The class handle holds \<open>d\<close>, no request is pending, and \<open>cs\<close> has gone out since \<open>w0\<close>.\<close>

definition class_at :: "ptr \<Rightarrow> hal_call list \<Rightarrow> usb \<Rightarrow> class_data \<Rightarrow> usb \<Rightarrow> bool" where
  "class_at p cs w0 d w \<longleftrightarrow> request_ready p w \<and> RequestState (hosts w p) = CMD_SEND
     \<and> length (Data (device (hosts w p))) = 512 \<and> cdata w (class_ptr p w0) = d \<and> class_ptr p w = class_ptr p w0
     \<and> trace w = trace w0 @ cs \<and> faults w = faults w0
     \<and> pipe_in (ctl p w) = pipe_in (ctl p w0) \<and> pipe_out (ctl p w) = pipe_out (ctl p w0)"

lemma class_at_start:
  "request_ready p w \<Longrightarrow> RequestState (hosts w p) = CMD_SEND \<Longrightarrow> length (Data (device (hosts w p))) = 512
    \<Longrightarrow> class_at p [] w (cdata w (class_ptr p w)) w"
  by (simp add: class_at_def)

lemma class_at_ptr:
  "class_at p cs w0 d w \<Longrightarrow> class_ptr p w = class_ptr p w0 \<and> cdata w (class_ptr p w0) = d"
  by (simp add: class_at_def)

lemma class_at_keeps:
  assumes "class_at p cs w0 d w" "keeps p w v" "trace v = trace w @ xs" "faults v = faults w" "request_ready p v"
    and "RequestState (hosts v p) = CMD_SEND"
  shows "class_at p (cs @ xs) w0 d v"
  using assms keeps_host [OF assms(2)] keepsD [OF assms(2)] by (simp add: class_at_def class_ptr_def)

lemma class_at_upd:
  assumes "class_at p cs w0 d w"
  shows "class_at p cs w0 d' (w\<lparr>cdata := (cdata w)(class_ptr p w0 := d')\<rparr>)"
proof -
  let ?v = "w\<lparr>cdata := (cdata w)(class_ptr p w0 := d')\<rparr>"
  have "request_ready p ?v = request_ready p w" by (rule request_ready_cong) simp_all
  then show ?thesis using assms by (simp add: class_at_def class_ptr_def trace_def)
qed

lemma class_at_event [simp]: "class_at p cs w0 d (osMessagePut e w) = class_at p cs w0 d w"
  by (simp add: class_at_def class_ptr_def)

context tame_bus
begin

text \<open>
  One request of a driver \<open>g\<close> that does \<open>k\<close> when it has succeeded; \<open>f\<close> is the form in which the
  request is made.
\<close>

lemma none_stage:
  assumes "class_at p cs w0 d w" "bmRequestType s AND 0x80 \<noteq> 0x80" "wLength s = 0"
    and "\<And>v. keeps p w v \<Longrightarrow> keeps p w (snd (f v))"
    and "run_req 5 f w = run_req 5 (std_request E p s b n) w"
    and "\<And>v. class_ptr p v = class_ptr p w0 \<Longrightarrow> cdata v (class_ptr p v) = d
          \<Longrightarrow> fst (f v) = USBH_OK \<or> fst (f v) = USBH_BUSY \<Longrightarrow> g v = (case f v of
           (st, v') \<Rightarrow> if st = USBH_OK then k v' else (USBH_BUSY, v'))"
  shows "\<exists>m<5. \<exists>w1. class_at p (cs @ none_calls p w0 s) w0 d w1
     \<and> (\<forall>j. run_req (Suc m + j) g w = (case k w1 of (st, w2) \<Rightarrow>
           if st = USBH_BUSY then run_req j g w2 else (st, w2)))"
proof -
  have r: "request_ready p w" "RequestState (hosts w p) = CMD_SEND" using assms(1) by (simp_all add: class_at_def)
  from request_none [OF r assms(2,3), of 0 b n] obtain w1 where
    w1: "run_req 5 f w = (USBH_OK, w1)" "trace w1 = trace w @ none_calls p w s"
    "faults w1 = faults w" "request_ready p w1" "RequestState (hosts w1 p) = CMD_SEND" "keeps p w w1"
    by (auto simp: assms(5))
  have "none_calls p w s = none_calls p w0 s" using assms(1) by (simp add: none_calls_def class_at_def)
  with class_at_keeps [OF assms(1) w1(6,2-5)] have a: "class_at p (cs @ none_calls p w0 s) w0 d w1" by simp
  have kg: "keeps p w v \<Longrightarrow> fst (f v) = USBH_OK \<or> fst (f v) = USBH_BUSY \<Longrightarrow> g v = (case f v of
           (st, v') \<Rightarrow> if st = USBH_OK then k v' else (USBH_BUSY, v'))" for v
    by (rule assms(6)) (use assms(1) keeps_host keepsD(6) in \<open>simp_all add: class_at_def class_ptr_def\<close>)
  from request_in_run_ok [OF assms(4) kg w1(1)] a show ?thesis by blast
qed

lemma in_stage:
  assumes "class_at p cs w0 d w" "bmRequestType s AND 0x80 = 0x80" "wLength s \<noteq> 0"
    and "\<And>v. keeps p w v \<Longrightarrow> keeps p w (snd (f v))"
    and "run_req 7 f w = run_req 7 (std_request E p s b n) w"
    and "\<And>v. class_ptr p v = class_ptr p w0 \<Longrightarrow> cdata v (class_ptr p v) = d
          \<Longrightarrow> fst (f v) = USBH_OK \<or> fst (f v) = USBH_BUSY \<Longrightarrow> g v = (case f v of
           (st, v') \<Rightarrow> if st = USBH_OK then k v' else (USBH_BUSY, v'))"
  shows "\<exists>m<7. \<exists>w1 w2. class_at p (cs @ in_calls p w0 s b n) w0 d w1
     \<and> request_ready p w2 \<and> ctl_setup (ctl p w2) = s \<and> device (hosts w1 p) = device (hosts (E w2) p)
     \<and> (\<forall>j. run_req (Suc m + j) g w = (case k w1 of (st, w2) \<Rightarrow>
           if st = USBH_BUSY then run_req j g w2 else (st, w2)))"
proof -
  have r: "request_ready p w" "RequestState (hosts w p) = CMD_SEND" using assms(1) by (simp_all add: class_at_def)
  from request_in [OF r assms(2,3), of 0 b n] obtain w1 w2 where
    w1: "run_req 7 f w = (USBH_OK, w1)" "trace w1 = trace w @ in_calls p w s b n"
    "faults w1 = faults w" "request_ready p w1" "RequestState (hosts w1 p) = CMD_SEND" "keeps p w w1"
    and w2: "request_ready p w2" "ctl_setup (ctl p w2) = s" "device (hosts w1 p) = device (hosts (E w2) p)"
    by (auto simp: assms(5))
  have "in_calls p w s b n = in_calls p w0 s b n" using assms(1) by (simp add: in_calls_def class_at_def)
  with class_at_keeps [OF assms(1) w1(6,2-5)] have a: "class_at p (cs @ in_calls p w0 s b n) w0 d w1" by simp
  have kg: "keeps p w v \<Longrightarrow> fst (f v) = USBH_OK \<or> fst (f v) = USBH_BUSY \<Longrightarrow> g v = (case f v of
           (st, v') \<Rightarrow> if st = USBH_OK then k v' else (USBH_BUSY, v'))" for v
    by (rule assms(6)) (use assms(1) keeps_host keepsD(6) in \<open>simp_all add: class_at_def class_ptr_def\<close>)
  from request_in_run_ok [OF assms(4) kg w1(1)] a w2 show ?thesis by blast
qed

end

context device_bus
begin

lemma read_stage:
  assumes "class_at p cs w0 d w" "bmRequestType s AND 0x80 = 0x80" "wLength s \<noteq> 0" "length (reply s) \<le> 512"
    and "\<And>v. class_ptr p v = class_ptr p w0 \<Longrightarrow> cdata v (class_ptr p v) = d
          \<Longrightarrow> fst (std_request E p s b n v) = USBH_OK \<or> fst (std_request E p s b n v) = USBH_BUSY
          \<Longrightarrow> g v = (case std_request E p s b n v of (st, v') \<Rightarrow> if st = USBH_OK then k v' else (USBH_BUSY, v'))"
  shows "\<exists>m<7. \<exists>w1. class_at p (cs @ in_calls p w0 s b n) w0 d w1
     \<and> take (length (reply s)) (Data (device (hosts w1 p))) = reply s
     \<and> (\<forall>j. run_req (Suc m + j) g w = (case k w1 of (st, w2) \<Rightarrow>
           if st = USBH_BUSY then run_req j g w2 else (st, w2)))"
proof -
  have kf: "keeps p w v \<Longrightarrow> keeps p w (snd (std_request E p s b n v))" for v
    by (rule std_request_keeps [OF bus_tame])
  from in_stage [OF assms(1-3) kf refl assms(5)] obtain m w1 w2 where
    m: "m < 7" "class_at p (cs @ in_calls p w0 s b n) w0 d w1"
    "\<forall>j. run_req (Suc m + j) g w = (case k w1 of (st, w2) \<Rightarrow> if st = USBH_BUSY then run_req j g w2 else (st, w2))"
    and r: "request_ready p w2" "ctl_setup (ctl p w2) = s" "device (hosts w1 p) = device (hosts (E w2) p)" by blast
  have "length (Data (device (hosts (E w2) p))) = length (Data (device (hosts w2 p)))"
    using bus_tame keepsD(10) by (auto simp: tame_def)
  then have "length (reply s) \<le> length (Data (device (hosts w2 p)))"
    using m(2) r(3) assms(4) by (simp add: class_at_def)
  with bus_reply [of w2] r have "take (length (reply s)) (Data (device (hosts w1 p))) = reply s" by simp
  with m show ?thesis by blast
qed

end

end
