(* ===== verification/Usb_Hub_Props.thy ===== *)
theory Usb_Hub_Props
  imports Usb_Hub Usb_Enum_Props Usb_Class_Run
begin

text \<open>
  The hub driver against a bus: its requests as they reach the wire, the power-up of the ports, the
  scan of the changed ports and the polling of the interrupt pipe.
\<close>

lemma rd8_prefix:
  assumes "take (length r) d = r" "i < length r"
  shows "rd8 d i = rd8 r i"
proof -
  have "d = r @ drop (length r) d" using assms(1) append_take_drop_id by metis
  then show ?thesis using rd8_append_left [OF assms(2)] by metis
qed

section \<open>The request loop\<close>

text \<open>
  The hub repeats \<open>USBH_CtlReq\<close> itself, with the set-up packet already in place. As long as the handle
  holds the packet, this is the repeated standard request.
\<close>

context quiet_bus
begin

lemma request_loop_runs:
  assumes "holds p s w" "gState (hosts w p) \<noteq> HOST_DEV_DISCONNECTED"
  shows "request_loop n (USBH_CtlReq E p b len) p w
    = (case run_req n (std_request E p s b len) w of (st, w') \<Rightarrow> (st = USBH_BUSY, st, w'))"
  using assms
proof (induction n arbitrary: w)
  case (Suc n)
  let ?r = "USBH_CtlReq E p b len w"
  have "std_request E p s b len w = ?r" by (simp add: std_request_def fill_held [OF Suc.prems(1)])
  moreover have "holds p s (snd ?r)" by (rule holds_CtlReq [OF Suc.prems(1)])
  moreover have "keeps p w (snd ?r)" by (rule CtlReq_keeps [OF bus_tame keeps_refl])
  then have "gState (hosts (snd ?r) p) \<noteq> HOST_DEV_DISCONNECTED" using Suc.prems(2) keeps_host(1) by metis
  ultimately show ?case using Suc.IH [of "snd ?r"] by (simp add: case_prod_beta Let_def)
qed simp

end

section \<open>Port requests\<close>

text \<open>A completed request: the calls it made, and all it may have changed.\<close>

definition went :: "ptr \<Rightarrow> hal_call list \<Rightarrow> usb \<Rightarrow> usb \<Rightarrow> bool" where
  "went p cs w w' \<longleftrightarrow> trace w' = trace w @ cs \<and> faults w' = faults w \<and> keeps p w w' \<and> request_ready p w'
     \<and> RequestState (hosts w' p) = CMD_SEND"

lemma went_refl: "request_ready p w \<Longrightarrow> RequestState (hosts w p) = CMD_SEND \<Longrightarrow> went p [] w w"
  by (simp add: went_def)

lemma went_trans: "went p xs w w1 \<Longrightarrow> went p ys w1 w2 \<Longrightarrow> went p (xs @ ys) w w2"
  using keeps_trans by (auto simp: went_def)

lemma wentD:
  assumes "went p cs w w'"
  shows "keeps p w w'" "request_ready p w'" "RequestState (hosts w' p) = CMD_SEND"
    "gState (hosts w' p) = gState (hosts w p)" "in_calls p w' s b n = in_calls p w s b n"
    "none_calls p w' s = none_calls p w s" "length (data_of p w') = length (data_of p w)"
  using assms keeps_host keepsD(10) by (simp_all add: went_def in_calls_def none_calls_def data_of_def)

definition feature_setup :: "u8 \<Rightarrow> u8 \<Rightarrow> u16 \<Rightarrow> USB_Setup_TypeDef" where
  "feature_setup rq port feature =
     \<lparr>bmRequestType = 0x23, bRequest = rq, wValue = feature, wIndex = ucast port, wLength = 0\<rparr>"

definition status_setup :: "u8 \<Rightarrow> u16 \<Rightarrow> USB_Setup_TypeDef" where
  "status_setup port n = \<lparr>bmRequestType = 0xA3, bRequest = 0, wValue = 0, wIndex = ucast port, wLength = n\<rparr>"

lemma port_feature_loop:
  assumes "quiet_bus E p" "request_ready p w" "RequestState (hosts w p) = CMD_SEND"
    and "gState (hosts w p) \<noteq> HOST_DEV_DISCONNECTED"
  shows "port_feature E rq p port feature w
     = (case run_req 256 (std_request E p (feature_setup rq port feature) BNull 0) w of
          (st, w') \<Rightarrow> if st = USBH_BUSY then (USBH_FAIL, set_request p CMD_SEND w') else (st, w'))"
proof -
  let ?s = "feature_setup rq port feature"
  let ?v = "fill_setup p (bmRequestType ?s) (bRequest ?s) (wValue ?s) (wIndex ?s) (wLength ?s) w"
  have h: "holds p ?s ?v" by (rule fill_holds [OF assms(2,3)])
  have g: "gState (hosts ?v p) \<noteq> HOST_DEV_DISCONNECTED" using assms(4) by (simp add: fill_setup_def)
  have r: "run_req 256 (std_request E p ?s BNull 0) ?v = run_req 256 (std_request E p ?s BNull 0) w"
    using held_again [OF h refl refl, where n = 255] by (simp add: eval_nat_numeral)
  have "put_setup p 0x23 rq feature (ucast port) 0 w = ?v"
    by (simp add: put_setup_fill [OF assms(3)] feature_setup_def)
  then show ?thesis
    using quiet_bus.request_loop_runs [OF assms(1) h g, of 256 BNull 0]
    by (simp add: port_feature_def case_prod_beta r)
qed

lemma port_status_loop:
  assumes "quiet_bus E p" "request_ready p w" "RequestState (hosts w p) = CMD_SEND"
    and "gState (hosts w p) \<noteq> HOST_DEV_DISCONNECTED"
  shows "USBH_HUB_GetPortStatus E p port n w
     = (case run_req 256 (std_request E p (status_setup port n) (BData p) n) w of
          (st, w') \<Rightarrow> if st = USBH_OK then (st, w') else (USBH_FAIL, set_request p CMD_SEND w'))"
proof -
  let ?s = "status_setup port n"
  let ?v = "fill_setup p (bmRequestType ?s) (bRequest ?s) (wValue ?s) (wIndex ?s) (wLength ?s) w"
  have h: "holds p ?s ?v" by (rule fill_holds [OF assms(2,3)])
  have g: "gState (hosts ?v p) \<noteq> HOST_DEV_DISCONNECTED" using assms(4) by (simp add: fill_setup_def)
  have r: "run_req 256 (std_request E p ?s (BData p) n) ?v = run_req 256 (std_request E p ?s (BData p) n) w"
    using held_again [OF h refl refl, where n = 255] by (simp add: eval_nat_numeral)
  have "fill_setup p 0xA3 0 0 (ucast port) n w = ?v" by (simp add: status_setup_def)
  then show ?thesis
    using quiet_bus.request_loop_runs [OF assms(1) h g, of 256 "BData p" n]
    by (cases "run_req 256 (std_request E p ?s (BData p) n) w") (simp add: USBH_HUB_GetPortStatus_def r)
qed

context tame_bus
begin

lemma feature_completes:
  assumes "request_ready p w" "RequestState (hosts w p) = CMD_SEND" "gState (hosts w p) \<noteq> HOST_DEV_DISCONNECTED"
  shows "\<exists>w'. port_feature E rq p port feature w = (USBH_OK, w')
    \<and> went p (none_calls p w (feature_setup rq port feature)) w w'"
proof -
  let ?s = "feature_setup rq port feature"
  have "bmRequestType ?s AND 0x80 \<noteq> 0x80" "wLength ?s = 0" by (simp_all add: feature_setup_def)
  from request_none [OF assms(1,2) this, of 251 BNull 0] obtain w' where
    "run_req 256 (std_request E p ?s BNull 0) w = (USBH_OK, w')" "trace w' = trace w @ none_calls p w ?s"
    "faults w' = faults w" "request_ready p w'" "RequestState (hosts w' p) = CMD_SEND" "keeps p w w'" by auto
  then show ?thesis by (simp add: port_feature_loop [OF quiet_bus_axioms assms] went_def)
qed

end

context device_bus
begin

lemma status_completes:
  assumes "request_ready p w" "RequestState (hosts w p) = CMD_SEND" "gState (hosts w p) \<noteq> HOST_DEV_DISCONNECTED"
    and "length (reply (status_setup port n)) \<le> length (Data (device (hosts w p)))" "n \<noteq> 0"
  shows "\<exists>w'. USBH_HUB_GetPortStatus E p port n w = (USBH_OK, w')
    \<and> went p (in_calls p w (status_setup port n) (BData p) n) w w'
    \<and> take (length (reply (status_setup port n))) (data_of p w') = reply (status_setup port n)"
proof -
  let ?s = "status_setup port n"
  have "bmRequestType ?s AND 0x80 = 0x80" "wLength ?s \<noteq> 0" using assms(5) by (simp_all add: status_setup_def)
  from request_reads [OF assms(1,2) this assms(4), of 249 "BData p" n] obtain w' where
    "run_req 256 (std_request E p ?s (BData p) n) w = (USBH_OK, w')" "trace w' = trace w @ in_calls p w ?s (BData p) n"
    "faults w' = faults w" "request_ready p w'" "RequestState (hosts w' p) = CMD_SEND" "keeps p w w'"
    "take (length (reply ?s)) (Data (device (hosts w' p))) = reply ?s" by auto
  then show ?thesis by (simp add: port_status_loop [OF quiet_bus_axioms assms(1-3)] data_of_def went_def)
qed

end

context silent_bus
begin

lemma silent_polls:
  assumes "at_stage p r CTRL_SETUP_WAIT w" "hc_urb_state (hc_get w (rq_out r)) = USBH_URB_IDLE"
  shows "\<exists>w'. run_req n (request E p r) w = (USBH_BUSY, w') \<and> sent [] w w'"
  using assms
proof (induction n arbitrary: w)
  case (Suc n)
  note p = poll_unanswered [OF Suc.prems] and r = at_stageD(7) [OF Suc.prems(1)]
  have "hc_urb_state (hc_get (E w) (rq_out r)) = USBH_URB_IDLE" using bus_silent [OF r] Suc.prems(2) by simp
  from Suc.IH [OF bus_stage [OF Suc.prems(1)] this] obtain w' where
    "run_req n (request E p r) (E w) = (USBH_BUSY, w')" "sent [] (E w) w'" by blast
  with p sent_trans [OF bus_sent [OF r]] show ?case by fastforce
qed simp

lemma silent_request:
  assumes "request_ready p w" "RequestState (hosts w p) = CMD_SEND"
  shows "\<exists>w'. run_req (Suc (Suc n)) (std_request E p s b len) w = (USBH_BUSY, w')
    \<and> sent [HC_StartXfer (pipe_out (ctl p w)) 0 USBH_EP_CONTROL HC_PID_SETUP (Packet s) 8] w w'"
proof -
  let ?r = "the_request p w s b len"
  from request_first [OF idle_the_request [OF assms, of s b len], of E] obtain w1 where
    1: "request E p ?r w = (USBH_BUSY, w1)" "at_stage p ?r CTRL_SETUP w1" "sent [] w w1" by blast
  from setup_unanswered [OF 1(2)] obtain w2 where
    2: "request E p ?r w1 = (USBH_BUSY, w2)" "at_stage p ?r CTRL_SETUP_WAIT w2"
      "sent [HC_StartXfer (rq_out ?r) 0 USBH_EP_CONTROL HC_PID_SETUP (Packet (rq_setup ?r)) 8] w1 w2"
      "hc_urb_state (hc_get w2 (rq_out ?r)) = USBH_URB_IDLE" by blast
  from silent_polls [OF 2(2,4)] obtain w3 where
    3: "run_req n (request E p ?r) w2 = (USBH_BUSY, w3)" "sent [] w2 w3" by blast
  have "run_req (Suc (Suc n)) (request E p ?r) w = (USBH_BUSY, w3)" using 1(1) 2(1) 3(1) by simp
  moreover have "sent [HC_StartXfer (pipe_out (ctl p w)) 0 USBH_EP_CONTROL HC_PID_SETUP (Packet s) 8] w w3"
    using sent_trans [OF sent_trans [OF 1(3) 2(3)] 3(2)] by (simp add: the_request_def)
  ultimately show ?thesis by (simp add: request_the_request)
qed

lemma silent_port:
  assumes "request_ready p w" "RequestState (hosts w p) = CMD_SEND" "gState (hosts w p) \<noteq> HOST_DEV_DISCONNECTED"
  shows "\<exists>w'. port_feature E rq p port feature w = (USBH_FAIL, w') \<and> RequestState (hosts w' p) = CMD_SEND
      \<and> trace w' = trace w @ [HC_StartXfer (pipe_out (ctl p w)) 0 USBH_EP_CONTROL HC_PID_SETUP
          (Packet (feature_setup rq port feature)) 8] \<and> faults w' = faults w"
    and "\<exists>w'. USBH_HUB_GetPortStatus E p port n w = (USBH_FAIL, w') \<and> RequestState (hosts w' p) = CMD_SEND
      \<and> trace w' = trace w @ [HC_StartXfer (pipe_out (ctl p w)) 0 USBH_EP_CONTROL HC_PID_SETUP
          (Packet (status_setup port n)) 8] \<and> faults w' = faults w"
proof -
  from silent_request [OF assms(1,2), of 254 "feature_setup rq port feature" BNull 0] obtain w1 where
    "run_req 256 (std_request E p (feature_setup rq port feature) BNull 0) w = (USBH_BUSY, w1)"
    "sent [HC_StartXfer (pipe_out (ctl p w)) 0 USBH_EP_CONTROL HC_PID_SETUP
          (Packet (feature_setup rq port feature)) 8] w w1" by (auto simp: eval_nat_numeral)
  then show "\<exists>w'. port_feature E rq p port feature w = (USBH_FAIL, w') \<and> RequestState (hosts w' p) = CMD_SEND
      \<and> trace w' = trace w @ [HC_StartXfer (pipe_out (ctl p w)) 0 USBH_EP_CONTROL HC_PID_SETUP
          (Packet (feature_setup rq port feature)) 8] \<and> faults w' = faults w"
    by (simp add: port_feature_loop [OF quiet_bus_axioms assms] sent_def) (simp add: set_request_def)
  from silent_request [OF assms(1,2), of 254 "status_setup port n" "BData p" n] obtain w1 where
    "run_req 256 (std_request E p (status_setup port n) (BData p) n) w = (USBH_BUSY, w1)"
    "sent [HC_StartXfer (pipe_out (ctl p w)) 0 USBH_EP_CONTROL HC_PID_SETUP
          (Packet (status_setup port n)) 8] w w1" by (auto simp: eval_nat_numeral)
  then show "\<exists>w'. USBH_HUB_GetPortStatus E p port n w = (USBH_FAIL, w') \<and> RequestState (hosts w' p) = CMD_SEND
      \<and> trace w' = trace w @ [HC_StartXfer (pipe_out (ctl p w)) 0 USBH_EP_CONTROL HC_PID_SETUP
          (Packet (status_setup port n)) 8] \<and> faults w' = faults w"
    by (simp add: port_status_loop [OF quiet_bus_axioms assms] sent_def) (simp add: set_request_def)
qed

end

section \<open>The changed ports\<close>

definition holds_data :: "ptr \<Rightarrow> USB_Setup_TypeDef \<Rightarrow> u8 list \<Rightarrow> usb \<Rightarrow> bool" where
  "holds_data p s d w \<longleftrightarrow> holds p s w \<and> data_of p w = d"

lemma data_of_frame [simp]:
  "data_of p (set_ctl_state p st w) = data_of p w" "data_of p (set_request p r w) = data_of p w"
  "data_of p (stamp_timer p w) = data_of p w" "data_of p (osMessagePut e w) = data_of p w"
  "data_of p (out c w) = data_of p w" "data_of p (HAL_HCD_HC_SubmitRequest ch d t k b n g w) = data_of p w"
  "data_of p (upd_ctl p f w) = data_of p w" "data_of p (call_user q ev w) = data_of p w"
  "data_of p (snd (USBH_LL_SubmitURB p ch d t k b n g w)) = data_of p w"
  "data_of p (snd (USBH_LL_Stop p w)) = data_of p w"
  "data_of p (fill_setup p rt rq v ix len w) = data_of p w"
  "data_of p (put_setup p rt rq v ix len w) = data_of p w"
  by (simp_all add: data_of_def set_ctl_state_def set_request_def stamp_timer_def call_user_def USBH_UserProcess_def
      USBH_LL_SubmitURB_def USBH_LL_Stop_def fill_setup_def put_setup_def split: HOST_USER.split)

context exact_bus
begin

lemma data_poll:
  assumes "holds_data p s d w" "reply s = []" "unat ch < HC_COUNT"
  shows "holds_data p s d (snd (USBH_LL_GetURBState E p ch w))"
  using assms holds_poll [of s w ch] poll [of w ch] bus_rest [of w] by (auto simp: holds_data_def holds_def data_of_def)

lemma data_control:
  assumes "holds_data p s d w" "reply s = []"
  shows "data_of p (snd (USBH_HandleControl E p w)) = d"
proof -
  have h: "holds p s w" using assms(1) by (simp add: holds_data_def)
  have "data_of p (snd (USBH_LL_GetURBState E p (pipe_in (ctl p w)) w)) = d"
    "data_of p (snd (USBH_LL_GetURBState E p (pipe_out (ctl p w)) w)) = d" "data_of p w = d"
    using data_poll [OF assms holds_pipes(1) [OF h]] data_poll [OF assms holds_pipes(2) [OF h]] assms(1)
    by (simp_all add: holds_data_def)
  then show ?thesis
    by (simp add: USBH_HandleControl_def case_prod_beta Let_def ioreq_defs split: CTRL_StateTypeDef.split)
qed

lemma data_CtlReq:
  assumes "holds_data p s d w" "reply s = []"
  shows "holds_data p s d (snd (USBH_CtlReq E p b n w))"
proof -
  have h: "holds p s w" "data_of p w = d" using assms(1) by (simp_all add: holds_data_def)
  then have "pipes_allocated p w = (True, w)" using request_readyD(6) by (simp add: holds_def)
  with h data_control [OF assms] have "data_of p (snd (USBH_CtlReq E p b n w)) = d"
    by (simp add: USBH_CtlReq_def case_prod_beta Let_def split: CMD_StateTypeDef.split)
  with holds_CtlReq [OF h(1)] show ?thesis by (simp add: holds_data_def)
qed

lemma data_run:
  "holds_data p s d w \<Longrightarrow> reply s = [] \<Longrightarrow> data_of p (snd (run_req n (std_request E p s b len) w)) = d"
proof (induction n arbitrary: w)
  case 0
  then show ?case by (simp add: holds_data_def)
next
  case (Suc n)
  have "std_request E p s b len w = USBH_CtlReq E p b len w"
    using Suc.prems(1) by (simp add: std_request_def fill_held holds_data_def)
  with data_CtlReq [OF Suc.prems, of b len] Suc.IH [OF _ Suc.prems(2)] show ?case
    by (simp add: case_prod_beta Let_def holds_data_def)
qed

lemma feature_keeps_data:
  assumes "request_ready p w" "RequestState (hosts w p) = CMD_SEND" "gState (hosts w p) \<noteq> HOST_DEV_DISCONNECTED"
    and "reply (feature_setup rq port feature) = []"
  shows "data_of p (snd (port_feature E rq p port feature w)) = data_of p w"
proof -
  let ?s = "feature_setup rq port feature"
  let ?v = "fill_setup p (bmRequestType ?s) (bRequest ?s) (wValue ?s) (wIndex ?s) (wLength ?s) w"
  have h: "holds_data p ?s (data_of p w) ?v" using fill_holds [OF assms(1,2)] by (simp add: holds_data_def)
  have "run_req 256 (std_request E p ?s BNull 0) ?v = run_req 256 (std_request E p ?s BNull 0) w"
    using held_again [OF _ refl refl, where n = 255] h by (simp add: eval_nat_numeral holds_data_def)
  with data_run [OF h assms(4), of 256 BNull 0] show ?thesis
    by (simp add: port_feature_loop [OF quiet_bus_axioms assms(1-3)] case_prod_beta)
qed

lemma feature_answered:
  assumes "request_ready p w" "RequestState (hosts w p) = CMD_SEND" "gState (hosts w p) \<noteq> HOST_DEV_DISCONNECTED"
    and "reply (feature_setup rq port feature) = []"
  shows "\<exists>w'. port_feature E rq p port feature w = (USBH_OK, w')
    \<and> went p (none_calls p w (feature_setup rq port feature)) w w' \<and> data_of p w' = data_of p w"
  using feature_completes [OF assms(1-3), of rq port feature] feature_keeps_data [OF assms] by force

end

text \<open>The requests that acknowledge the changes \<open>c\<close> of a port.\<close>

definition ack_calls :: "ptr \<Rightarrow> usb \<Rightarrow> u8 \<Rightarrow> u16 \<Rightarrow> (nat \<times> u16) list \<Rightarrow> hal_call list" where
  "ack_calls p w port c fs = concat (map (\<lambda>(b, f). if bit c b then none_calls p w (feature_setup 1 port f) else []) fs)"

lemma ack_calls_Cons:
  "ack_calls p w port c ((b, f) # fs) =
     (if bit c b then none_calls p w (feature_setup 1 port f) else []) @ ack_calls p w port c fs"
  by (simp add: ack_calls_def)

lemma ack_calls_went: "went p cs w w' \<Longrightarrow> ack_calls p w' port c fs = ack_calls p w port c fs"
  by (simp add: ack_calls_def wentD(6) cong: if_cong)

context exact_bus
begin

lemma acknowledges:
  assumes "request_ready p w" "RequestState (hosts w p) = CMD_SEND" "gState (hosts w p) \<noteq> HOST_DEV_DISCONNECTED"
    and "\<forall>f. reply (feature_setup 1 port f) = []"
  shows "went p (ack_calls p w port (port_change p w) fs) w (fold (clear_change E p port) fs w)
    \<and> data_of p (fold (clear_change E p port) fs w) = data_of p w"
  using assms(1-3)
proof (induction fs arbitrary: w)
  case Nil
  then show ?case by (simp add: ack_calls_def went_refl)
next
  case (Cons bf fs)
  obtain b f where bf: "bf = (b, f)" by (cases bf)
  let ?cs = "if bit (port_change p w) b then none_calls p w (feature_setup 1 port f) else []"
  let ?v = "clear_change E p port (b, f) w"
  have 1: "went p ?cs w ?v \<and> data_of p ?v = data_of p w"
  proof (cases "bit (port_change p w) b")
    case True
    from feature_answered [OF Cons.prems, of 1 port f] assms(4) obtain w' where
      "port_feature E 1 p port f w = (USBH_OK, w')" "went p (none_calls p w (feature_setup 1 port f)) w w'"
      "data_of p w' = data_of p w" by blast
    with True show ?thesis by (simp add: clear_change_def USBH_HUB_ClearPort_def)
  qed (simp add: clear_change_def went_refl Cons.prems)
  then have "request_ready p ?v" "RequestState (hosts ?v p) = CMD_SEND" "gState (hosts ?v p) \<noteq> HOST_DEV_DISCONNECTED"
    using wentD(2-4) Cons.prems(3) by auto
  moreover have "port_change p ?v = port_change p w" using 1 by (simp add: port_change_def)
  moreover have "ack_calls p ?v port c fs = ack_calls p w port c fs" for c using ack_calls_went 1 by blast
  ultimately have "went p (ack_calls p w port (port_change p w) fs) ?v (fold (clear_change E p port) fs ?v)
    \<and> data_of p (fold (clear_change E p port) fs ?v) = data_of p w"
    using Cons.IH [of ?v] 1 by simp
  with 1 went_trans [of p ?cs w ?v] show ?case by (simp only: bf ack_calls_Cons fold.simps comp_apply)
qed

end

lemma port_index:
  assumes "1 \<le> port" "port \<le> (4 :: u8)"
  shows "0 \<le> uint port - 1" "nat (uint port - 1) < USBH_MAX_NUM_CHILD"
  using assms by (simp_all add: word_le_def)

text \<open>
  A powered port for which there is nothing to do but to acknowledge its changes: nothing is connected and it
  has no handle, or the device is enabled and has its handle among \<open>kids\<close>. The bits of a port's status and
  change words are read off the four bytes of its answer.
\<close>

definition word_of :: "u8 \<Rightarrow> u8 \<Rightarrow> u16" where
  "word_of a b = ucast a + push_bit 8 (ucast b)"

definition settled_port :: "(USB_Setup_TypeDef \<Rightarrow> u8 list) \<Rightarrow> ptr list \<Rightarrow> u8 \<Rightarrow> u16 \<Rightarrow> bool" where
  "settled_port reply kids port c \<longleftrightarrow> (\<exists>s0 s1 c0 c1. reply (status_setup port 4) = [s0, s1, c0, c1]
     \<and> bit (word_of s0 s1) 8 \<and> c = word_of c0 c1
     \<and> (if bit (word_of s0 s1) 0 then bit (word_of s0 s1) 1 \<and> kids ! (unat port - 1) \<noteq> NULL
        else kids ! (unat port - 1) = NULL))"

definition unpowered_port :: "(USB_Setup_TypeDef \<Rightarrow> u8 list) \<Rightarrow> u8 \<Rightarrow> bool" where
  "unpowered_port reply port \<longleftrightarrow> (\<exists>s0 s1 c0 c1. reply (status_setup port 4) = [s0, s1, c0, c1]
     \<and> \<not> bit (word_of s0 s1) 8)"

definition port_calls :: "ptr \<Rightarrow> usb \<Rightarrow> u8 \<Rightarrow> u16 \<Rightarrow> hal_call list" where
  "port_calls p w port c = in_calls p w (status_setup port 4) (BData p) 4 @ ack_calls p w port c change_features"

context device_bus
begin

lemma status_words:
  assumes "request_ready p w" "RequestState (hosts w p) = CMD_SEND" "gState (hosts w p) \<noteq> HOST_DEV_DISCONNECTED"
    and "4 \<le> length (data_of p w)" "reply (status_setup port 4) = [s0, s1, c0, c1]"
  shows "\<exists>w'. USBH_HUB_GetPortStatus E p port 4 w = (USBH_OK, w')
    \<and> went p (in_calls p w (status_setup port 4) (BData p) 4) w w'
    \<and> port_status p w' = word_of s0 s1 \<and> port_change p w' = word_of c0 c1"
proof -
  have "length (reply (status_setup port 4)) \<le> length (Data (device (hosts w p)))"
    using assms(4,5) by (simp add: data_of_def)
  from status_completes [OF assms(1-3) this] obtain w' where
    1: "USBH_HUB_GetPortStatus E p port 4 w = (USBH_OK, w')" "went p (in_calls p w (status_setup port 4) (BData p) 4) w w'"
      "take (length [s0, s1, c0, c1]) (data_of p w') = [s0, s1, c0, c1]" by (auto simp: assms(5))
  note rd = rd8_prefix [OF 1(3)]
  have "port_status p w' = word_of s0 s1" "port_change p w' = word_of c0 c1"
    by (simp_all add: port_status_def port_change_def LE16_def word_of_def rd)
  with 1(1,2) show ?thesis by blast
qed

lemma unpowered_step:
  assumes "request_ready p w" "RequestState (hosts w p) = CMD_SEND" "gState (hosts w p) \<noteq> HOST_DEV_DISCONNECTED"
    and "4 \<le> length (data_of p w)" "unpowered_port reply port" "bit bits 0"
  shows "\<exists>w'. port_step E ops p port bits w = Some (port, bits, w')
    \<and> went p (in_calls p w (status_setup port 4) (BData p) 4) w w'"
proof -
  from assms(5) obtain s0 s1 c0 c1 where r: "reply (status_setup port 4) = [s0, s1, c0, c1]" "\<not> bit (word_of s0 s1) 8"
    by (auto simp: unpowered_port_def)
  from status_words [OF assms(1-4) r(1)] r(2) assms(6) show ?thesis by (auto simp: port_step_def)
qed

lemma unpowered_loop:
  assumes "request_ready p w" "RequestState (hosts w p) = CMD_SEND" "gState (hosts w p) \<noteq> HOST_DEV_DISCONNECTED"
    and "4 \<le> length (data_of p w)" "unpowered_port reply port" "bit bits 0"
  shows "port_loop E ops p port bits w = None"
proof -
  define P where "P E' ops' p' port' bits' w' (y :: usb) \<longleftrightarrow>
      \<not> (E' = E \<and> p' = p \<and> port' = port \<and> bits' = bits \<and> request_ready p w' \<and> RequestState (hosts w' p) = CMD_SEND
         \<and> gState (hosts w' p) \<noteq> HOST_DEV_DISCONNECTED \<and> 4 \<le> length (data_of p w'))"
    for E' and ops' :: class_ops and p' port' bits' w' y
  have step: "P E' ops' p' port' bits' w' y"
    if loop: "\<And>E ops p port bits w y. loop E ops p port bits w = Some y \<Longrightarrow> P E ops p port bits w y"
      and body: "(if bits' = 0 then Some w' else Option.bind (port_step E' ops' p' port' bits' w')
         (\<lambda>(port, bits, w). loop E' ops' p' port bits w)) = Some y"
    for loop E' ops' p' port' bits' w' y
    unfolding P_def
  proof
    assume i: "E' = E \<and> p' = p \<and> port' = port \<and> bits' = bits \<and> request_ready p w' \<and> RequestState (hosts w' p) = CMD_SEND
         \<and> gState (hosts w' p) \<noteq> HOST_DEV_DISCONNECTED \<and> 4 \<le> length (data_of p w')"
    then have j: "request_ready p w'" "RequestState (hosts w' p) = CMD_SEND"
      "gState (hosts w' p) \<noteq> HOST_DEV_DISCONNECTED" "4 \<le> length (data_of p w')" by simp_all
    from unpowered_step [OF j assms(5,6), of ops'] obtain v where
      v: "port_step E ops' p port bits w' = Some (port, bits, v)"
        "went p (in_calls p w' (status_setup port 4) (BData p) 4) w' v" by blast
    have "bits \<noteq> 0" using assms(6) by auto
    with body i v(1) have "loop E ops' p port bits v = Some y" by simp
    from loop [OF this] show False using wentD(2-4,7) [OF v(2)] j by (simp add: P_def)
  qed
  have "P E ops p port bits w y" if "port_loop E ops p port bits w = Some y" for y
    by (rule port_loop.raw_induct [of P, OF _ that]) (rule step)
  then show ?thesis using assms(1-4) by (cases "port_loop E ops p port bits w") (auto simp: P_def)
qed

end

context exact_bus
begin

lemma settled_step:
  assumes "request_ready p w" "RequestState (hosts w p) = CMD_SEND" "gState (hosts w p) \<noteq> HOST_DEV_DISCONNECTED"
    and "4 \<le> length (data_of p w)" "settled_port reply (children (hosts w p)) port c" "\<forall>f. reply (feature_setup 1 port f) = []"
    and "bit bits 0" "1 \<le> port" "port \<le> 4"
  shows "\<exists>w'. port_step E ops p port bits w = Some (port + 1, drop_bit 1 bits, w') \<and> went p (port_calls p w port c) w w'"
proof -
  from assms(5) obtain s0 s1 c0 c1 where r: "reply (status_setup port 4) = [s0, s1, c0, c1]"
    "bit (word_of s0 s1) 8" "c = word_of c0 c1"
    and kid: "if bit (word_of s0 s1) 0 then bit (word_of s0 s1) 1 \<and> children (hosts w p) ! (unat port - 1) \<noteq> NULL
        else children (hosts w p) ! (unat port - 1) = NULL"
    by (auto simp: settled_port_def)
  from status_words [OF assms(1-4) r(1)] obtain v where
    v: "USBH_HUB_GetPortStatus E p port 4 w = (USBH_OK, v)" "went p (in_calls p w (status_setup port 4) (BData p) 4) w v"
      "port_status p v = word_of s0 s1" "port_change p v = c" by (auto simp: r(3))
  let ?u = "clear_changes E p port v"
  have g: "gState (hosts v p) \<noteq> HOST_DEV_DISCONNECTED" using wentD(4) [OF v(2)] assms(3) by simp
  have 1: "went p (ack_calls p v port c change_features) v ?u" "data_of p ?u = data_of p v"
    using acknowledges [OF wentD(2,3) [OF v(2)] g assms(6), of change_features] v(4) by (simp_all add: clear_changes_def)
  have "went p (port_calls p w port c) w ?u"
    using went_trans [OF v(2) 1(1)] by (simp add: port_calls_def ack_calls_went [OF v(2)])
  moreover have "children (hosts ?u p) = children (hosts w p)"
    by (rule keeps_host(16) [OF wentD(1) [OF calculation]])
  then have k: "child p (uint port - 1) ?u = children (hosts w p) ! (unat port - 1)" "chk_child (uint port - 1) ?u = ?u"
    using port_index [OF assms(8,9)] by (simp_all add: child_def chk_child_def nat_diff_distrib')
  have "port_status p ?u = word_of s0 s1" using 1(2) v(3) by (simp add: port_status_def)
  then have "(if bit (port_status p ?u) 0 then
         if bit (port_status p ?u) 1 then port_enabled E ops p port bits ?u else Some (port, bits, reset_port E p port ?u)
       else port_disconnected E ops p port bits ?u) = Some (port + 1, drop_bit 1 bits, ?u)"
    using kid k by (simp add: port_disconnected_def port_enabled_def next_port_def split: if_splits)
  ultimately show ?thesis using assms(7) v(1,3) r(2) by (auto simp: port_step_def)
qed

end

definition scan_calls :: "ptr \<Rightarrow> usb \<Rightarrow> u8 \<Rightarrow> (nat \<Rightarrow> u16) \<Rightarrow> nat \<Rightarrow> hal_call list" where
  "scan_calls p w bits c i = concat (map (\<lambda>i. if bit bits i then port_calls p w (of_nat i) (c i) else []) [i..<8])"

lemma scan_calls_step:
  "i < 8 \<Longrightarrow> scan_calls p w bits c i = (if bit bits i then port_calls p w (of_nat i) (c i) else []) @ scan_calls p w bits c (Suc i)"
  by (simp add: scan_calls_def upt_conv_Cons)

lemma scan_calls_went: "went p cs w w' \<Longrightarrow> scan_calls p w' bits c i = scan_calls p w bits c i"
  by (simp add: scan_calls_def port_calls_def ack_calls_went wentD(5) cong: if_cong)

lemma scan_calls_none:
  assumes "drop_bit i bits = 0"
  shows "scan_calls p w bits c i = []"
proof -
  have "\<not> bit bits j" if "i \<le> j" for j
    using assms bit_drop_bit_eq [of i bits] that by (metis bit_0_eq bot_apply bot_bool_def comp_apply le_add_diff_inverse)
  then show ?thesis by (simp add: scan_calls_def)
qed

context exact_bus
begin

lemma settled_scan:
  assumes "request_ready p w" "RequestState (hosts w p) = CMD_SEND" "gState (hosts w p) \<noteq> HOST_DEV_DISCONNECTED"
    and "4 \<le> length (data_of p w)" "children (hosts w p) = kids"
    and "\<forall>port f. reply (feature_setup 1 port f) = []"
    and "\<forall>i. bit bits i \<longrightarrow> 1 \<le> i \<and> i \<le> 4 \<and> settled_port reply kids (of_nat i) (c i)" "i \<le> 8"
  shows "\<exists>w'. port_loop E ops p (of_nat i) (drop_bit i bits) w = Some w' \<and> went p (scan_calls p w bits c i) w w'"
  using assms(8,1-5)
proof (induction "8 - i" arbitrary: i w)
  case 0
  then have "drop_bit i bits = 0" by (intro bit_word_eqI) (simp add: bit_simps)
  with 0 show ?case by (simp add: port_loop.simps scan_calls_none went_refl)
next
  case (Suc k)
  show ?case
  proof (cases "drop_bit i bits = 0")
    case True
    with Suc.prems show ?thesis by (simp add: port_loop.simps scan_calls_none went_refl)
  next
    case False
    let ?cs = "if bit bits i then port_calls p w (of_nat i) (c i) else []"
    have d: "drop_bit 1 (drop_bit i bits) = drop_bit (Suc i) bits" "bit (drop_bit i bits) 0 = bit bits i"
      by (simp_all add: bit_simps)
    have "\<exists>v. port_step E ops p (of_nat i) (drop_bit i bits) w = Some (of_nat (Suc i), drop_bit (Suc i) bits, v)
       \<and> went p ?cs w v"
    proof (cases "bit bits i")
      case True
      then have b: "bit (drop_bit i bits) 0" "1 \<le> (of_nat i :: u8)" "(of_nat i :: u8) \<le> 4"
        "settled_port reply (children (hosts w p)) (of_nat i) (c i)" "\<forall>f. reply (feature_setup 1 (of_nat i) f) = []"
        using assms(6,7) d(2) Suc.prems(6) by (auto simp: word_le_nat_alt unat_of_nat)
      from settled_step [OF Suc.prems(2-5) b(4,5,1-3), of ops] True d(1) show ?thesis
        by (simp add: add.commute)
    next
      case False
      with d Suc.prems show ?thesis by (simp add: port_step_def next_port_def went_refl add.commute)
    qed
    then obtain v where v: "port_step E ops p (of_nat i) (drop_bit i bits) w = Some (of_nat (Suc i), drop_bit (Suc i) bits, v)"
      "went p ?cs w v" by blast
    have "k = 8 - Suc i" "Suc i \<le> 8" using Suc.hyps(2) by simp_all
    from Suc.hyps(1) [OF this wentD(2,3) [OF v(2)]] wentD(4,7) [OF v(2)] keeps_host(16) [OF wentD(1) [OF v(2)]] Suc.prems
    obtain w' where w': "port_loop E ops p (of_nat (Suc i)) (drop_bit (Suc i) bits) v = Some w'"
      "went p (scan_calls p v bits c (Suc i)) v w'" by auto
    have "port_loop E ops p (of_nat i) (drop_bit i bits) w = Some w'"
      using False v(1) w'(1) by (subst port_loop.simps) simp
    moreover have "went p (scan_calls p w bits c i) w w'"
      using went_trans [OF v(2) w'(2)] Suc.hyps(2) by (simp only: scan_calls_went [OF v(2)] scan_calls_step)
    ultimately show ?thesis by blast
  qed
qed

end

lemma skip_ports:
  assumes "bit bits i" "\<forall>j<i. \<not> bit bits j" "k \<le> i"
  shows "port_loop E ops p 0 bits w = port_loop E ops p (of_nat k) (drop_bit k bits) w"
  using assms(3)
proof (induction k)
  case (Suc k)
  have "drop_bit k bits \<noteq> 0" using assms(1) Suc.prems bit_drop_bit_eq [of k bits] 
    by (metis bit_0_eq bot_apply bot_bool_def comp_apply le_add_diff_inverse less_imp_le_nat Suc_le_eq)
  moreover have "\<not> bit (drop_bit k bits) 0" using assms(2) Suc.prems by (simp add: bit_simps)
  ultimately have "port_loop E ops p (of_nat k) (drop_bit k bits) w = port_loop E ops p (of_nat (Suc k)) (drop_bit (Suc k) bits) w"
    by (subst port_loop.simps) (simp add: port_step_def next_port_def add.commute)
  with Suc show ?case by simp
qed simp

section \<open>Powering the ports\<close>

text \<open>The hub handle holds \<open>h\<close>, no request is pending, and \<open>cs\<close> has gone out since \<open>w0\<close>.\<close>

abbreviation hub_at :: "ptr \<Rightarrow> hal_call list \<Rightarrow> usb \<Rightarrow> HUB_HandleTypeDef \<Rightarrow> usb \<Rightarrow> bool" where
  "hub_at p cs w0 h w \<equiv> class_at p cs w0 (HubData h) w"

lemma hub_get_at: "hub_at p cs w0 h w \<Longrightarrow> hub_get p w = h"
  using class_at_ptr [of p cs w0 "HubData h" w] by (simp add: class_ptr_def hub_get_def hub_ptr_def)

lemma hub_at_upd: "hub_at p cs w0 h w \<Longrightarrow> hub_at p cs w0 (f h) (upd_hub p f w)"
  using class_at_upd [of p cs w0 "HubData h" w "HubData (f h)"] class_at_ptr [of p cs w0 "HubData h" w]
  by (simp add: upd_hub_def class_ptr_def hub_ptr_def)

definition hub_setup :: "u16 \<Rightarrow> USB_Setup_TypeDef" where
  "hub_setup n = \<lparr>bmRequestType = 0xA0, bRequest = 6, wValue = 0x2900, wIndex = 0, wLength = n\<rparr>"

definition power_setup :: "u8 \<Rightarrow> USB_Setup_TypeDef" where
  "power_setup i = \<lparr>bmRequestType = 0x23, bRequest = 3, wValue = 8, wIndex = ucast i, wLength = 0\<rparr>"

lemma hub_requests:
  "USBH_HUB_GetHUBDescriptor E p n = std_request E p (hub_setup n) (BData p) n"
  "USBH_HUB_SetHUBPower E p i = std_request E p (power_setup i) BNull 0"
  by (rule ext, simp add: USBH_HUB_GetHUBDescriptor_def USBH_HUB_SetHUBPower_def requests_are_std
      hub_setup_def power_setup_def std_request_def)+

context tame_bus
begin

lemma hub_none_stage:
  assumes "hub_at p cs w0 h w" "bmRequestType s AND 0x80 \<noteq> 0x80" "wLength s = 0"
    and "\<And>v. hub_get p v = h \<Longrightarrow> g v = (case std_request E p s BNull 0 v of
           (st, v') \<Rightarrow> if st = USBH_OK then k v' else (USBH_BUSY, v'))"
  shows "\<exists>m<5. \<exists>w1. hub_at p (cs @ none_calls p w0 s) w0 h w1
     \<and> (\<forall>j. run_req (Suc m + j) g w = (case k w1 of (st, w2) \<Rightarrow>
           if st = USBH_BUSY then run_req j g w2 else (st, w2)))"
proof -
  have kf: "keeps p w v \<Longrightarrow> keeps p w (snd (std_request E p s BNull 0 v))" for v
    by (rule std_request_keeps [OF bus_tame])
  have "class_ptr p v = class_ptr p w0 \<Longrightarrow> cdata v (class_ptr p v) = HubData h \<Longrightarrow>
      fst (std_request E p s BNull 0 v) = USBH_OK \<or> fst (std_request E p s BNull 0 v) = USBH_BUSY \<Longrightarrow>
      g v = (case std_request E p s BNull 0 v of
           (st, v') \<Rightarrow> if st = USBH_OK then k v' else (USBH_BUSY, v'))" for v
    by (rule assms(4)) (simp add: hub_get_def hub_ptr_def class_ptr_def)
  from none_stage [OF assms(1-3) kf refl this] show ?thesis .
qed

end

context device_bus
begin

lemma hub_in_stage:
  assumes "hub_at p cs w0 h w" "bmRequestType s AND 0x80 = 0x80" "wLength s \<noteq> 0" "length (reply s) \<le> 512"
    and "\<And>v. hub_get p v = h \<Longrightarrow> g v = (case std_request E p s (BData p) n v of
           (st, v') \<Rightarrow> if st = USBH_OK then k v' else (USBH_BUSY, v'))"
  shows "\<exists>m<7. \<exists>w1. hub_at p (cs @ in_calls p w0 s (BData p) n) w0 h w1
     \<and> take (length (reply s)) (data_of p w1) = reply s
     \<and> (\<forall>j. run_req (Suc m + j) g w = (case k w1 of (st, w2) \<Rightarrow>
           if st = USBH_BUSY then run_req j g w2 else (st, w2)))"
proof -
  have "class_ptr p v = class_ptr p w0 \<Longrightarrow> cdata v (class_ptr p v) = HubData h \<Longrightarrow>
      fst (std_request E p s (BData p) n v) = USBH_OK \<or> fst (std_request E p s (BData p) n v) = USBH_BUSY \<Longrightarrow>
      g v = (case std_request E p s (BData p) n v of
           (st, v') \<Rightarrow> if st = USBH_OK then k v' else (USBH_BUSY, v'))" for v
    by (rule assms(5)) (simp add: hub_get_def hub_ptr_def class_ptr_def)
  from read_stage [OF assms(1-4) this] show ?thesis by (simp add: data_of_def)
qed

end

definition powered :: "ptr \<Rightarrow> usb \<Rightarrow> nat \<Rightarrow> nat \<Rightarrow> hal_call list" where
  "powered p w i d = concat (map (\<lambda>i. none_calls p w (power_setup (of_nat i))) [i..<i + d])"

lemma powered_Suc: "powered p w i (Suc d) = none_calls p w (power_setup (of_nat i)) @ powered p w (Suc i) d"
  by (simp add: powered_def upt_conv_Cons del: upt_Suc)

context tame_bus
begin

lemma powers_port:
  assumes "hub_at p cs w0 h w" "hub_ctl_state h = HUB_REQ_SET_PORT_POWER"
  shows "\<exists>m<5. \<exists>w2. hub_at p (cs @ none_calls p w0 (power_setup (port_index h))) w0
        (h\<lparr>port_index := port_index h + 1\<rparr>) w2
     \<and> (\<forall>j. run_req (Suc m + j) (USBH_HUB_ClassRequest E p) w =
          (if port_index h + 1 > bNbrPorts (HUB_Desc h)
           then (USBH_OK, osMessagePut USBH_PORT_EVENT (set_hub_state p HUB_REQ_SCAN_PORT w2))
           else run_req j (USBH_HUB_ClassRequest E p) w2))"
proof -
  let ?k = "\<lambda>w. let w = upd_hub p (\<lambda>h. h\<lparr>port_index := port_index h + 1\<rparr>) w
       in if port_index (hub_get p w) > bNbrPorts (HUB_Desc (hub_get p w))
          then (USBH_OK, osMessagePut USBH_PORT_EVENT (set_hub_state p HUB_REQ_SCAN_PORT w)) else (USBH_BUSY, w)"
  have "USBH_HUB_ClassRequest E p v = (case std_request E p (power_setup (port_index h)) BNull 0 v of
      (st, v') \<Rightarrow> if st = USBH_OK then ?k v' else (USBH_BUSY, v'))" if "hub_get p v = h" for v
    using assms(2) that by (simp add: USBH_HUB_ClassRequest_def hub_requests case_prod_beta)
  from hub_none_stage [OF assms(1) _ _ this] obtain m w1 where m: "m < 5"
    "hub_at p (cs @ none_calls p w0 (power_setup (port_index h))) w0 h w1"
    "\<And>j. run_req (Suc m + j) (USBH_HUB_ClassRequest E p) w = (case ?k w1 of (st, w2) \<Rightarrow>
           if st = USBH_BUSY then run_req j (USBH_HUB_ClassRequest E p) w2 else (st, w2))"
    by (auto simp: power_setup_def)
  note a = hub_at_upd [OF m(2), of "\<lambda>h. h\<lparr>port_index := port_index h + 1\<rparr>"]
  have "\<forall>j. run_req (Suc m + j) (USBH_HUB_ClassRequest E p) w =
       (if port_index h + 1 > bNbrPorts (HUB_Desc h)
        then (USBH_OK, osMessagePut USBH_PORT_EVENT (set_hub_state p HUB_REQ_SCAN_PORT
               (upd_hub p (\<lambda>h. h\<lparr>port_index := port_index h + 1\<rparr>) w1)))
        else run_req j (USBH_HUB_ClassRequest E p) (upd_hub p (\<lambda>h. h\<lparr>port_index := port_index h + 1\<rparr>) w1))"
    unfolding m(3) by (simp add: hub_get_at [OF a] Let_def)
  with m(1) a show ?thesis by blast
qed

lemma powers_ports:
  assumes "hub_at p cs w0 h w" "hub_ctl_state h = HUB_REQ_SET_PORT_POWER"
    and "unat (bNbrPorts (HUB_Desc h)) < 255" "unat (port_index h) < 255"
    and "d = unat (bNbrPorts (HUB_Desc h)) - unat (port_index h)"
  shows "\<exists>w1 h1. run_req (5 * Suc d + k) (USBH_HUB_ClassRequest E p) w = (USBH_OK, w1)
    \<and> hub_at p (cs @ powered p w0 (unat (port_index h)) (Suc d)) w0 h1 w1
    \<and> hub_ctl_state h1 = HUB_REQ_SCAN_PORT \<and> HUB_Desc h1 = HUB_Desc h"
  using assms
proof (induction d arbitrary: cs h w k)
  case 0
  let ?h = "h\<lparr>port_index := port_index h + 1\<rparr>"
  from powers_port [OF 0(1,2)] obtain m w2 where m: "m < 5"
    "hub_at p (cs @ none_calls p w0 (power_setup (port_index h))) w0 ?h w2"
    "\<And>j. run_req (Suc m + j) (USBH_HUB_ClassRequest E p) w =
          (if port_index h + 1 > bNbrPorts (HUB_Desc h)
           then (USBH_OK, osMessagePut USBH_PORT_EVENT (set_hub_state p HUB_REQ_SCAN_PORT w2))
           else run_req j (USBH_HUB_ClassRequest E p) w2)" by blast
  have "unat (port_index h + 1) = Suc (unat (port_index h))" using 0(4) by (simp add: unat_word_ariths)
  then have "port_index h + 1 > bNbrPorts (HUB_Desc h)" using 0(5) by (simp add: word_less_nat_alt)
  with m(1) m(3) [of "4 - m + k"] have
    "run_req (5 * Suc 0 + k) (USBH_HUB_ClassRequest E p) w
       = (USBH_OK, osMessagePut USBH_PORT_EVENT (set_hub_state p HUB_REQ_SCAN_PORT w2))"
    by simp
  with hub_at_upd [OF m(2), of "\<lambda>h. h\<lparr>hub_ctl_state := HUB_REQ_SCAN_PORT\<rparr>"] show ?case
    by (intro exI [of _ "osMessagePut USBH_PORT_EVENT (set_hub_state p HUB_REQ_SCAN_PORT w2)"]
        exI [of _ "?h\<lparr>hub_ctl_state := HUB_REQ_SCAN_PORT\<rparr>"] conjI)
      (simp_all add: set_hub_state_def powered_def)
next
  case (Suc d)
  let ?i = "port_index h" and ?n = "bNbrPorts (HUB_Desc h)" and ?h = "h\<lparr>port_index := port_index h + 1\<rparr>"
  from powers_port [OF Suc.prems(1,2)] obtain m w2 where m: "m < 5"
    "hub_at p (cs @ none_calls p w0 (power_setup ?i)) w0 ?h w2"
    "\<And>j. run_req (Suc m + j) (USBH_HUB_ClassRequest E p) w =
          (if ?i + 1 > ?n then (USBH_OK, osMessagePut USBH_PORT_EVENT (set_hub_state p HUB_REQ_SCAN_PORT w2))
           else run_req j (USBH_HUB_ClassRequest E p) w2)" by blast
  have u: "unat (?i + 1) = Suc (unat ?i)" using Suc.prems(4) by (simp add: unat_word_ariths)
  have l: "\<not> ?i + 1 > ?n" using Suc.prems(5) u by (simp add: word_less_nat_alt)
  have "unat (port_index ?h) < 255" "d = unat (bNbrPorts (HUB_Desc ?h)) - unat (port_index ?h)"
    using u Suc.prems(3,5) by simp_all
  from Suc.IH [OF m(2) _ _ this, of "4 - m + k"] Suc.prems(2,3) obtain w3 h1 where
    3: "run_req (5 * Suc d + (4 - m + k)) (USBH_HUB_ClassRequest E p) w2 = (USBH_OK, w3)"
    "hub_at p ((cs @ none_calls p w0 (power_setup ?i)) @ powered p w0 (unat (?i + 1)) (Suc d)) w0 h1 w3"
    "hub_ctl_state h1 = HUB_REQ_SCAN_PORT" "HUB_Desc h1 = HUB_Desc h" by auto
  have "5 * Suc (Suc d) + k = Suc m + (5 * Suc d + (4 - m + k))" using m(1) by simp
  with m(3) l 3(1) have "run_req (5 * Suc (Suc d) + k) (USBH_HUB_ClassRequest E p) w = (USBH_OK, w3)"
    by (simp only: if_False)
  with 3(2-4) show ?case
    by (intro exI [of _ w3] exI [of _ h1]) (simp add: powered_Suc [of _ _ _ "Suc d"] u)
qed

end

section \<open>Properties\<close>

text \<open>
  C13: Powering a hub: on a bus that completes its transfers, with a hub of fewer than 255 ports whose
  descriptor is \<open>reply (hub_setup 12)\<close>, the calls of \<open>USBH_HUB_ClassRequest\<close> that
  \<open>USBH_Process\<close> repeats end with \<open>USBH_OK\<close>. They have read four bytes of the hub descriptor and then
  twelve, and switched the power of the ports 1, 2, up to the last on in this order with one request
  each (port 1 also when the hub has none); the handle holds the descriptor and the hub waits for
  its ports' reports.
\<close>

theorem hub_ports_powered:
  assumes "device_bus E p reply" and "request_ready p w" and "RequestState (hosts w p) = CMD_SEND"
    and "length (Data (device (hosts w p))) = 512"
    and "cdata w (hub_ptr p w) = HubData h" and "hub_ctl_state h = HUB_REQ_INIT"
    and "length (reply (hub_setup 4)) \<le> 512"
    and "9 \<le> length (reply (hub_setup 12))" and "length (reply (hub_setup 12)) \<le> 512"
    and "n = unat (bNbrPorts (read_hub_desc (reply (hub_setup 12))))" and "n < 255"
  shows "\<exists>w'. run_req (14 + 5 * max 1 n + k) (USBH_HUB_ClassRequest E p) w = (USBH_OK, w')
    \<and> trace w' = trace w @ in_calls p w (hub_setup 4) (BData p) 4 @ in_calls p w (hub_setup 12) (BData p) 12
        @ concat (map (\<lambda>i. none_calls p w (power_setup (of_nat i))) [1..<Suc (max 1 n)])
    \<and> HUB_Desc (hub_get p w') = read_hub_desc (reply (hub_setup 12))
    \<and> hub_ctl_state (hub_get p w') = HUB_REQ_SCAN_PORT \<and> faults w' = faults w"
proof -
  note T = device_bus.axioms(1) [OF assms(1)]
  let ?g = "USBH_HUB_ClassRequest E p" and ?D = "read_hub_desc (reply (hub_setup 12))"
  let ?c1 = "in_calls p w (hub_setup 4) (BData p) 4" and ?c2 = "in_calls p w (hub_setup 12) (BData p) 12"
  have s: "bmRequestType (hub_setup m) AND 0x80 = 0x80" "wLength (hub_setup m) = m" for m
    by (simp_all add: hub_setup_def)
  have 0: "hub_at p [] w h w" using assms(2-5) by (simp add: class_at_def class_ptr_def hub_ptr_def)
  have "?g v = (case std_request E p (hub_setup 4) (BData p) 4 v of (st, v') \<Rightarrow>
      if st = USBH_OK then (USBH_BUSY, set_hub_state p HUB_REQ_GET_HUB_DESC v') else (USBH_BUSY, v'))"
    if "hub_get p v = h" for v
    using assms(6) that by (simp add: USBH_HUB_ClassRequest_def hub_requests case_prod_beta)
  from device_bus.hub_in_stage [OF assms(1) 0 s(1) _ assms(7) this] obtain m1 w1 where
    1: "m1 < 7" "hub_at p ?c1 w h w1"
    "\<And>j. run_req (Suc m1 + j) ?g w = run_req j ?g (set_hub_state p HUB_REQ_GET_HUB_DESC w1)" by (auto simp: s)
  let ?h2 = "h\<lparr>hub_ctl_state := HUB_REQ_GET_HUB_DESC\<rparr>"
  have 2: "hub_at p ?c1 w ?h2 (set_hub_state p HUB_REQ_GET_HUB_DESC w1)"
    unfolding set_hub_state_def by (rule hub_at_upd [OF 1(2)])
  let ?f = "\<lambda>v h. h\<lparr>HUB_Desc := read_hub_desc (data_of p v), port_index := 1, hub_ctl_state := HUB_REQ_SET_PORT_POWER\<rparr>"
  have "?g v = (case std_request E p (hub_setup 12) (BData p) 12 v of (st, v') \<Rightarrow>
      if st = USBH_OK then (USBH_BUSY, upd_hub p (?f v') v') else (USBH_BUSY, v'))"
    if "hub_get p v = ?h2" for v
    using that by (simp add: USBH_HUB_ClassRequest_def hub_requests case_prod_beta)
  from device_bus.hub_in_stage [OF assms(1) 2 s(1) _ assms(9) this] obtain m2 w2 where
    3: "m2 < 7" "hub_at p (?c1 @ ?c2) w ?h2 w2"
    "take (length (reply (hub_setup 12))) (data_of p w2) = reply (hub_setup 12)"
    "\<And>j. run_req (Suc m2 + j) ?g (set_hub_state p HUB_REQ_GET_HUB_DESC w1) = run_req j ?g (upd_hub p (?f w2) w2)"
    by (auto simp: s)
  have D: "read_hub_desc (data_of p w2) = ?D"
    using assms(8) rd8_prefix [OF 3(3)]
    by (cases "reply (hub_setup 12) = []") (simp_all add: read_hub_desc_def LE16_def)
  have 4: "hub_at p (?c1 @ ?c2) w (?f w2 ?h2) (upd_hub p (?f w2) w2)" by (rule hub_at_upd [OF 3(2)])
  have n: "max 1 n = Suc (n - 1)" by simp
  let ?h3 = "?f w2 ?h2"
  have "unat (bNbrPorts (HUB_Desc ?h3)) < 255" "unat (port_index ?h3) < 255"
    "n - 1 = unat (bNbrPorts (HUB_Desc ?h3)) - unat (port_index ?h3)"
    using assms(10,11) by (simp_all add: D)
  from tame_bus.powers_ports [OF T 4 _ this, of "12 - m1 - m2 + k"] obtain w3 h3 where
    5: "run_req (5 * Suc (n - 1) + (12 - m1 - m2 + k)) ?g (upd_hub p (?f w2) w2) = (USBH_OK, w3)"
    "hub_at p ((?c1 @ ?c2) @ powered p w 1 (Suc (n - 1))) w h3 w3"
    "hub_ctl_state h3 = HUB_REQ_SCAN_PORT" "HUB_Desc h3 = ?D" by (auto simp: D)
  have "14 + 5 * max 1 n + k = Suc m1 + (Suc m2 + (5 * Suc (n - 1) + (12 - m1 - m2 + k)))"
    using 1(1) 3(1) n by simp
  then have "run_req (14 + 5 * max 1 n + k) ?g w = (USBH_OK, w3)" by (simp only: 1(3) 3(4) 5(1))
  moreover have "concat (map (\<lambda>i. none_calls p w (power_setup (of_nat i))) [1..<Suc (max 1 n)])
      = powered p w 1 (Suc (n - 1))"
    unfolding n powered_def by simp
  ultimately show ?thesis
    using 5(2-4) hub_get_at [OF 5(2)] by (intro exI [of _ w3]) (simp add: class_at_def)
qed

text \<open>
  A port request on a bus that completes its transfers succeeds: \<open>USBH_HUB_SetPort\<close> and
  \<open>USBH_HUB_ClearPort\<close> send the feature request to the port they are given, and
  \<open>USBH_HUB_GetPortStatus\<close> reads the port's four status bytes, so that the status and change words the
  driver looks at are those the hub sent. Each leaves the handle ready for the next request and
  changes nothing else of the world.
\<close>

theorem port_requests_complete:
  assumes "device_bus E p reply" and "request_ready p w" and "RequestState (hosts w p) = CMD_SEND"
    and "gState (hosts w p) \<noteq> HOST_DEV_DISCONNECTED" and "4 \<le> length (Data (device (hosts w p)))"
    and "reply (status_setup port 4) = [s0, s1, c0, c1]"
  shows "(\<exists>w'. USBH_HUB_SetPort E p port feature w = (USBH_OK, w')
        \<and> went p (none_calls p w (feature_setup 3 port feature)) w w')
    \<and> (\<exists>w'. USBH_HUB_ClearPort E p port feature w = (USBH_OK, w')
        \<and> went p (none_calls p w (feature_setup 1 port feature)) w w')
    \<and> (\<exists>w'. USBH_HUB_GetPortStatus E p port 4 w = (USBH_OK, w')
        \<and> went p (in_calls p w (status_setup port 4) (BData p) 4) w w'
        \<and> port_status p w' = word_of s0 s1 \<and> port_change p w' = word_of c0 c1)"
proof -
  from device_bus.status_words [OF assms(1-4) _ assms(6)] assms(5) obtain w' where
    1: "USBH_HUB_GetPortStatus E p port 4 w = (USBH_OK, w')" "went p (in_calls p w (status_setup port 4) (BData p) 4) w w'"
      "port_status p w' = word_of s0 s1" "port_change p w' = word_of c0 c1" by (auto simp: data_of_def)
  with tame_bus.feature_completes [OF device_bus.axioms(1) [OF assms(1)] assms(2-4)] show ?thesis
    unfolding USBH_HUB_SetPort_def USBH_HUB_ClearPort_def by blast
qed

text \<open>
  A hub that does not answer a port request is given up after 256 calls of \<open>USBH_CtlReq\<close>: the
  request ends with \<open>USBH_FAIL\<close>, one set-up packet has gone out, and the handle is ready for another
  request.
\<close>

theorem silent_hub_given_up:
  assumes "silent_bus E p" and "request_ready p w" and "RequestState (hosts w p) = CMD_SEND"
    and "gState (hosts w p) \<noteq> HOST_DEV_DISCONNECTED"
    and "req = USBH_HUB_SetPort E p port feature \<and> s = feature_setup 3 port feature
       \<or> req = USBH_HUB_ClearPort E p port feature \<and> s = feature_setup 1 port feature
       \<or> req = USBH_HUB_GetPortStatus E p port n \<and> s = status_setup port n"
  shows "\<exists>w'. req w = (USBH_FAIL, w') \<and> RequestState (hosts w' p) = CMD_SEND \<and> faults w' = faults w
    \<and> trace w' = trace w @ [HC_StartXfer (pipe_out (Control (hosts w p))) 0 USBH_EP_CONTROL HC_PID_SETUP (Packet s) 8]"
  using assms(5) silent_bus.silent_port(1) [OF assms(1-4), of _ port feature]
    silent_bus.silent_port(2) [OF assms(1-4), of port n]
  by (fastforce simp: USBH_HUB_SetPort_def [abs_def] USBH_HUB_ClearPort_def [abs_def])

text \<open>
  C23: The scan of a hub whose changed ports, among the ports 1 to 4, have nothing connected and no handle, or
  an enabled device with its handle: the driver visits the changed ports in ascending order, reads the status
  of each, and clears exactly the changes the port reports, each with its own request: connection (feature 16),
  enable (17), suspend (18), over-current (19) and reset (20). Then it returns and waits for the next report.
  The loop ends although it has no bound of its own.
\<close>

theorem hub_scan_acknowledges:
  assumes "exact_bus E p reply" and "request_ready p w" and "RequestState (hosts w p) = CMD_SEND"
    and "gState (hosts w p) \<noteq> HOST_DEV_DISCONNECTED" and "4 \<le> length (Data (device (hosts w p)))"
    and "children (hosts w p) = kids"
    and "pActiveClass (hosts w p) \<noteq> None" and "hub_ptr p w \<noteq> NULL"
    and "cdata w (hub_ptr p w) = HubData h" and "hub_ctl_state h = HUB_REQ_ENUM_PORT"
    and "\<forall>port f. reply (feature_setup 1 port f) = []"
    and "\<forall>i. bit (port_state h) i \<longrightarrow> 1 \<le> i \<and> i \<le> 4 \<and> settled_port reply kids (of_nat i) (c i)"
  shows "\<exists>w'. USBH_HUB_Process E ops p w = Some (USBH_OK, w')
    \<and> trace w' = trace w @ concat (map (\<lambda>i. if bit (port_state h) i then
          in_calls p w (status_setup (of_nat i) 4) (BData p) 4
            @ concat (map (\<lambda>(k, f). if bit (c i) k then none_calls p w (feature_setup 1 (of_nat i) f) else [])
                [(0, 16), (1, 17), (2, 18), (3, 19), (4, 20)])
          else []) [0..<8])
    \<and> faults w' = faults w \<and> hub_ctl_state (hub_get p w') = HUB_REQ_SCAN_PORT"
proof -
  have "4 \<le> length (data_of p w)" using assms(5) by (simp add: data_of_def)
  from exact_bus.settled_scan [OF assms(1-4) this assms(6,11,12), of 0 ops] obtain v where
    v: "port_loop E ops p 0 (port_state h) w = Some v" "went p (scan_calls p w (port_state h) c 0) w v" by auto
  let ?w = "osMessagePut USBH_PORT_EVENT (set_hub_state p HUB_REQ_SCAN_PORT v)"
  have h: "hub_get p w = h" using assms(9) by (simp add: hub_get_def)
  have "cdata v (hub_ptr p v) = HubData h"
    using wentD(1) [OF v(2)] assms(9) by (simp add: hub_ptr_def keeps_host keepsD)
  then have "set_hub_state p HUB_REQ_SCAN_PORT v
      = v\<lparr>cdata := (cdata v)(hub_ptr p v := HubData (h\<lparr>hub_ctl_state := HUB_REQ_SCAN_PORT\<rparr>))\<rparr>"
    by (simp add: set_hub_state_def upd_hub_def)
  then have "trace ?w = trace v" "faults ?w = faults v" "hub_ctl_state (hub_get p ?w) = HUB_REQ_SCAN_PORT"
    by (simp_all add: trace_def hub_get_def hub_ptr_def)
  moreover have "p \<noteq> NULL" using request_readyD(1) [OF assms(2)] .
  then have "USBH_HUB_Process E ops p w = Some (USBH_OK, ?w)"
    using assms(7,8,10) v(1) by (auto simp: USBH_HUB_Process_def h enum_ports_def)
  moreover have "ack_calls p w port d change_features =
      concat (map (\<lambda>(k, f). if bit d k then none_calls p w (feature_setup 1 port f) else [])
        [(0, 16), (1, 17), (2, 18), (3, 19), (4, 20)])" for port d
    by (simp add: ack_calls_def change_features_def)
  ultimately show ?thesis using v(2) by (simp only: went_def scan_calls_def port_calls_def cong: if_cong) auto
qed

text \<open>
  C30: A port that reports a change while it has no power hangs the driver: the first changed port's
  status is read over and over, and \<open>USBH_HUB_Process\<close> does not return.
\<close>

theorem unpowered_port_hangs:
  assumes "device_bus E p reply" and "request_ready p w" and "RequestState (hosts w p) = CMD_SEND"
    and "gState (hosts w p) \<noteq> HOST_DEV_DISCONNECTED" and "4 \<le> length (Data (device (hosts w p)))"
    and "pActiveClass (hosts w p) \<noteq> None" and "hub_ptr p w \<noteq> NULL"
    and "cdata w (hub_ptr p w) = HubData h" and "hub_ctl_state h = HUB_REQ_ENUM_PORT"
    and "bit (port_state h) i" and "\<forall>j<i. \<not> bit (port_state h) j" and "unpowered_port reply (of_nat i)"
  shows "USBH_HUB_Process E ops p w = None"
proof -
  have "bit (drop_bit i (port_state h)) 0" using assms(10) by (simp add: bit_simps)
  moreover have "4 \<le> length (data_of p w)" using assms(5) by (simp add: data_of_def)
  ultimately have "port_loop E ops p (of_nat i) (drop_bit i (port_state h)) w = None"
    using device_bus.unpowered_loop [OF assms(1-4) _ assms(12)] by blast
  then have "port_loop E ops p 0 (port_state h) w = None" using skip_ports [OF assms(10,11) order_refl] by simp
  moreover have "hub_get p w = h" using assms(8) by (simp add: hub_get_def)
  ultimately show ?thesis
    using assms(6,7,9) request_readyD(1) [OF assms(2)] by (simp add: USBH_HUB_Process_def enum_ports_def)
qed

section \<open>Witnesses\<close>

text \<open>The hub handle is at address 40 of a root handle whose requests work.\<close>

definition hub_world :: usb where
  "hub_world = upd_host hUSBHost (\<lambda>h. h\<lparr>pClassData := [40, 0, 0, 0, 0]\<rparr>)
     (ctl_world\<lparr>cdata := (\<lambda>_. NoData)(40 := HubData zero_hub)\<rparr>)"

definition four_ports :: "u8 list \<Rightarrow> USB_Setup_TypeDef \<Rightarrow> u8 list" where
  "four_ports st s = (if bRequest s = 6 then take (unat (wLength s)) [9, 0x29, 4, 0, 0, 50, 100, 0, 0xff]
     else if bRequest s = 0 then st else [])"

lemma hub_world_ready: "request_ready hUSBHost hub_world" "RequestState (hosts hub_world hUSBHost) = CMD_SEND"
  "gState (hosts hub_world hUSBHost) \<noteq> HOST_DEV_DISCONNECTED" "length (Data (device (hosts hub_world hUSBHost))) = 512"
proof -
  have "request_ready hUSBHost hub_world = request_ready hUSBHost ctl_world"
    by (rule request_ready_cong) (simp_all add: hub_world_def)
  then show "request_ready hUSBHost hub_world" using ctl_world_ready(1) by (simp only:)
qed (simp_all add: hub_world_def ctl_world_def zero_host_def zero_device_def)

lemma hub_ports_powered_witness:
  "\<exists>w'. run_req 34 (USBH_HUB_ClassRequest (replying hUSBHost (four_ports [])) hUSBHost) hub_world = (USBH_OK, w')
     \<and> hub_ctl_state (hub_get hUSBHost w') = HUB_REQ_SCAN_PORT"
proof -
  have "cdata hub_world (hub_ptr hUSBHost hub_world) = HubData zero_hub" "hub_ctl_state zero_hub = HUB_REQ_INIT"
    "length (four_ports [] (hub_setup 4)) \<le> 512" "9 \<le> length (four_ports [] (hub_setup 12))"
    "length (four_ports [] (hub_setup 12)) \<le> 512"
    "(4 :: nat) = unat (bNbrPorts (read_hub_desc (four_ports [] (hub_setup 12))))" "(4 :: nat) < 255"
    by (simp_all add: hub_world_def hub_ptr_def zero_hub_def four_ports_def hub_setup_def read_hub_desc_def rd8_def)
  from hub_ports_powered [OF replying.device_bus_axioms hub_world_ready(1,2,4) this, of 0] show ?thesis by auto
qed

lemma port_requests_complete_witness:
  "\<exists>w'. USBH_HUB_GetPortStatus (replying hUSBHost (four_ports [1, 1, 1, 0])) hUSBHost 2 4 hub_world = (USBH_OK, w')
     \<and> port_status hUSBHost w' = 0x0101"
proof -
  have "four_ports [1, 1, 1, 0] (status_setup 2 4) = [1, 1, 1, 0]" by (simp add: four_ports_def status_setup_def)
  moreover have "4 \<le> length (Data (device (hosts hub_world hUSBHost)))" by (simp only: hub_world_ready(4))
  ultimately show ?thesis
    using port_requests_complete [OF replying.device_bus_axioms [of hUSBHost "four_ports [1, 1, 1, 0]"] hub_world_ready(1-3), of 2 1 1 1 0]
    by (auto simp: word_of_def)
qed

lemma silent_hub_given_up_witness:
  "\<exists>w'. USBH_HUB_SetPort id hUSBHost 2 4 hub_world = (USBH_FAIL, w')"
  using silent_hub_given_up [OF silence.silent_bus_axioms hub_world_ready(1-3), of _ 2 4] by blast


definition changed_world :: usb where
  "changed_world = upd_host hUSBHost (\<lambda>h. h\<lparr>pActiveClass := Some HUB_Class\<rparr>)
     (hub_world\<lparr>cdata := (\<lambda>_. NoData)(40 := HubData (zero_hub\<lparr>hub_ctl_state := HUB_REQ_ENUM_PORT, port_state := 4\<rparr>))\<rparr>)"

lemma changed_world_ready:
  "request_ready hUSBHost changed_world" "RequestState (hosts changed_world hUSBHost) = CMD_SEND"
  "gState (hosts changed_world hUSBHost) \<noteq> HOST_DEV_DISCONNECTED" "4 \<le> length (Data (device (hosts changed_world hUSBHost)))"
  "pActiveClass (hosts changed_world hUSBHost) \<noteq> None" "hub_ptr hUSBHost changed_world \<noteq> NULL"
  "cdata changed_world (hub_ptr hUSBHost changed_world) = HubData (zero_hub\<lparr>hub_ctl_state := HUB_REQ_ENUM_PORT, port_state := 4\<rparr>)"
  "children (hosts changed_world hUSBHost) = replicate USBH_MAX_NUM_CHILD NULL"
proof -
  have "request_ready hUSBHost changed_world = request_ready hUSBHost hub_world"
    by (rule request_ready_cong) (simp_all add: changed_world_def)
  then show "request_ready hUSBHost changed_world" using hub_world_ready(1) by (simp only:)
qed (simp_all add: changed_world_def hub_world_def ctl_world_def zero_host_def zero_device_def hub_ptr_def)

lemma bit_four: "bit (4 :: u8) i \<longleftrightarrow> i = 2"
  using bit_push_bit_iff [of 2 "1 :: u8" i] by (auto simp: bit_simps)

lemma hub_scan_acknowledges_witness:
  "\<exists>w'. USBH_HUB_Process (replying hUSBHost (four_ports [0, 1, 1, 0])) quiet_ops hUSBHost changed_world = Some (USBH_OK, w')
     \<and> trace w' = trace changed_world @ in_calls hUSBHost changed_world (status_setup 2 4) (BData hUSBHost) 4
        @ none_calls hUSBHost changed_world (feature_setup 1 2 0x10)"
proof -
  let ?h = "zero_hub\<lparr>hub_ctl_state := HUB_REQ_ENUM_PORT, port_state := 4\<rparr>"
  have b: "bit (port_state ?h) i \<longleftrightarrow> i = 2" for i using bit_four [of i] by simp
  have r: "\<forall>port f. four_ports [0, 1, 1, 0] (feature_setup 1 port f) = []" "hub_ctl_state ?h = HUB_REQ_ENUM_PORT"
    "\<forall>i. bit (port_state ?h) i \<longrightarrow> 1 \<le> i \<and> i \<le> 4 \<and> settled_port (four_ports [0, 1, 1, 0]) (replicate USBH_MAX_NUM_CHILD NULL) (of_nat i) 1"
    unfolding b by (auto simp: four_ports_def feature_setup_def status_setup_def settled_port_def word_of_def)
  from hub_scan_acknowledges [OF replying.exact_bus_axioms changed_world_ready(1-4,8,5-7) r(2,1,3), of quiet_ops, unfolded b]
  show ?thesis by (auto simp: upt_rec)
qed

lemma unpowered_port_hangs_witness:
  "USBH_HUB_Process (replying hUSBHost (four_ports [0, 0, 1, 0])) quiet_ops hUSBHost changed_world = None"
proof -
  let ?h = "zero_hub\<lparr>hub_ctl_state := HUB_REQ_ENUM_PORT, port_state := 4\<rparr>"
  have b: "bit (port_state ?h) i \<longleftrightarrow> i = 2" for i using bit_four [of i] by simp
  have "hub_ctl_state ?h = HUB_REQ_ENUM_PORT" "bit (port_state ?h) 2" "\<forall>j<2. \<not> bit (port_state ?h) j"
    "unpowered_port (four_ports [0, 0, 1, 0]) (of_nat 2)"
    unfolding b by (simp_all add: four_ports_def status_setup_def unpowered_port_def word_of_def)
  from unpowered_port_hangs [OF replying.device_bus_axioms changed_world_ready(1-7) this] show ?thesis .
qed

end
