(* ===== verification/Usb_Hub_Children.thy ===== *)
theory Usb_Hub_Children
  imports Usb_Hub_Props
begin

text \<open>
  The hub's interrupt pipe and the handles of the devices behind it: how often the hub is polled, what
  a new child handle shares with its parent, and what is left of a child after its port reported a
  disconnection.
\<close>

section \<open>Polling the interrupt pipe\<close>

definition sof :: "ptr \<Rightarrow> usb \<Rightarrow> usb" where
  "sof p w = snd (USBH_HUB_SOFProcess p w)"

text \<open>A running hub whose handle is \<open>h\<close>.\<close>

definition hub_runs :: "ptr \<Rightarrow> HUB_HandleTypeDef \<Rightarrow> usb \<Rightarrow> bool" where
  "hub_runs p h w \<longleftrightarrow> request_ready p w \<and> pActiveClass (hosts w p) \<noteq> None \<and> hub_ptr p w \<noteq> NULL
     \<and> cdata w (hub_ptr p w) = HubData h \<and> unat (hub_NotifPipe (hub_CommItf h)) < HC_COUNT"

lemma hub_runs_get: "hub_runs p h w \<Longrightarrow> hub_get p w = h"
  by (simp add: hub_runs_def hub_get_def)

lemma hub_runs_upd:
  assumes "hub_runs p h w" "hub_CommItf (f h) = hub_CommItf h"
  shows "hub_runs p (f h) (upd_hub p f w)" "trace (upd_hub p f w) = trace w" "faults (upd_hub p f w) = faults w"
    "hosts (upd_hub p f w) = hosts w" "hc (upd_hub p f w) = hc w"
proof -
  let ?v = "w\<lparr>cdata := (cdata w)(hub_ptr p w := HubData (f h))\<rparr>"
  have e: "upd_hub p f w = ?v" using assms by (simp add: upd_hub_def hub_runs_def)
  have "request_ready p ?v = request_ready p w" by (rule request_ready_cong) simp_all
  with assms show "hub_runs p (f h) (upd_hub p f w)" unfolding e by (simp add: hub_runs_def hub_ptr_def)
  show "trace (upd_hub p f w) = trace w" "faults (upd_hub p f w) = faults w"
    "hosts (upd_hub p f w) = hosts w" "hc (upd_hub p f w) = hc w"
    by (simp_all add: e trace_def)
qed

definition poll_call :: "ptr \<Rightarrow> usb \<Rightarrow> HUB_CommItfTypedef \<Rightarrow> hal_call" where
  "poll_call p w c = HC_StartXfer (hub_NotifPipe c) 1 USBH_EP_INTERRUPT
     (if hc_toggle_in (hc_get w (hub_NotifPipe c)) = 0 then HC_PID_DATA0 else HC_PID_DATA1)
     (Buffer (BHubIntr (hub_ptr p w))) (ucast (ucast (hub_NotifEpSize c) :: u8))"

lemma sof_quiet:
  assumes "hub_runs p h w" "sof_num h + 1 < ucast (hub_poll (hub_CommItf h))"
  shows "sof p w = upd_hub p (\<lambda>h. h\<lparr>sof_num := sof_num h + 1\<rparr>) w"
  using assms hub_runs_get [OF hub_runs_upd(1) [OF assms(1), of "\<lambda>h. h\<lparr>sof_num := sof_num h + 1\<rparr>"]]
  by (auto simp: sof_def USBH_HUB_SOFProcess_def Let_def hub_runs_def)

lemma sof_polls:
  assumes "hub_runs p h w" "ucast (hub_poll (hub_CommItf h)) \<le> sof_num h + 1"
  shows "\<exists>h'. hub_runs p h' (sof p w) \<and> trace (sof p w) = trace w @ [poll_call p w (hub_CommItf h)]
    \<and> faults (sof p w) = faults w \<and> sof_num h' = 0 \<and> hub_CommItf h' = hub_CommItf h
    \<and> hub_ctl_state h' = (if hub_ctl_state h = HUB_REQ_SCAN_PORT then HUB_REQ_SCAN_PORT_WAIT else hub_ctl_state h)"
proof -
  let ?c = "hub_CommItf h" and ?h1 = "h\<lparr>sof_num := sof_num h + 1\<rparr>"
  let ?w1 = "upd_hub p (\<lambda>h. h\<lparr>sof_num := sof_num h + 1\<rparr>) w"
  let ?f = "\<lambda>h. h\<lparr>sof_num := 0, hub_ctl_state := (if hub_ctl_state h = HUB_REQ_SCAN_PORT
      then HUB_REQ_SCAN_PORT_WAIT else hub_ctl_state h)\<rparr>"
  note 1 = hub_runs_upd [OF assms(1), of "\<lambda>h. h\<lparr>sof_num := sof_num h + 1\<rparr>", simplified]
  let ?w2 = "snd (USBH_InterruptReceiveData p (BHubIntr (hub_ptr p ?w1)) (ucast (hub_NotifEpSize ?c)) (hub_NotifPipe ?c) ?w1)"
  have r: "request_ready p ?w1" using 1(1) by (simp add: hub_runs_def)
  note rd = request_readyD [OF r]
  have len: "unat (hub_NotifPipe ?c) < length (hc ?w1)" using 1(1) by (simp add: hub_runs_def request_ready_def)
  have p: "hub_ptr p ?w1 = hub_ptr p w" by (simp add: hub_ptr_def 1(4))
  have "keeps p ?w1 ?w2" by (simp add: USBH_InterruptReceiveData_def)
  moreover have "request_ready p ?w2"
    using rd(1-3) r by (simp add: USBH_InterruptReceiveData_def USBH_LL_SubmitURB_def)
  ultimately have 2: "hub_runs p ?h1 ?w2"
    using 1(1) by (simp add: hub_runs_def hub_ptr_def keeps_host keepsD)
  have t: "trace ?w2 = trace w @ [poll_call p w ?c]" "faults ?w2 = faults w"
    using submit_outs(1,3) [OF rd(1-3) len] 1(2,3,5) p
    by (simp_all add: USBH_InterruptReceiveData_def trace_def poll_call_def submit_pid_of toggle_pid_def hc_get_def)
  have "sof p w = upd_hub p ?f ?w2"
    using assms hub_runs_get [OF 1(1)]
    by (auto simp: sof_def USBH_HUB_SOFProcess_def Let_def hub_runs_def USBH_InterruptReceiveData_def)
  with hub_runs_upd [OF 2, of ?f] t show ?thesis by (intro exI [of _ "?f ?h1"]) simp
qed

text \<open>
  The hub is polled once every \<open>bInterval\<close> frames: starting with a cleared frame counter, the calls
  of \<open>USBH_HUB_SOFProcess\<close> of the first \<open>hub_poll - 1\<close> frames send nothing, and that of the last one
  starts one interrupt transfer of the hub's status into its buffer, clears the counter, and turns a
  hub that waits for its ports into one that waits for this transfer.
\<close>

theorem hub_polled_once_per_interval:
  assumes "request_ready p w" and "pActiveClass (hosts w p) \<noteq> None" and "hub_ptr p w \<noteq> NULL"
    and "cdata w (hub_ptr p w) = HubData h" and "unat (hub_NotifPipe (hub_CommItf h)) < HC_COUNT"
    and "sof_num h = 0" and "hub_ctl_state h = HUB_REQ_SCAN_PORT"
    and "c = hub_CommItf h" and "n = unat (hub_poll c)" and "0 < n" and "k < n"
  shows "trace ((sof p ^^ k) w) = trace w \<and> faults ((sof p ^^ k) w) = faults w
    \<and> trace ((sof p ^^ n) w) = trace w @ [HC_StartXfer (hub_NotifPipe c) 1 USBH_EP_INTERRUPT
         (if hc_toggle_in (hc_get w (hub_NotifPipe c)) = 0 then HC_PID_DATA0 else HC_PID_DATA1)
         (Buffer (BHubIntr (hub_ptr p w))) (ucast (ucast (hub_NotifEpSize c) :: u8))]
    \<and> faults ((sof p ^^ n) w) = faults w
    \<and> sof_num (hub_get p ((sof p ^^ n) w)) = 0
    \<and> hub_ctl_state (hub_get p ((sof p ^^ n) w)) = HUB_REQ_SCAN_PORT_WAIT"
proof -
  have R: "hub_runs p h w" using assms(1-5) by (simp add: hub_runs_def)
  have run: "hub_runs p (h\<lparr>sof_num := of_nat k\<rparr>) ((sof p ^^ k) w) \<and> trace ((sof p ^^ k) w) = trace w
     \<and> faults ((sof p ^^ k) w) = faults w \<and> hosts ((sof p ^^ k) w) = hosts w \<and> hc ((sof p ^^ k) w) = hc w" if "k < n" for k
    using that
  proof (induction k)
    case 0
    have "h\<lparr>sof_num := 0\<rparr> = h" using assms(6) by (cases h) simp
    then show ?case using R by simp
  next
    case (Suc k)
    let ?w = "(sof p ^^ k) w"
    have a: "hub_runs p (h\<lparr>sof_num := of_nat k\<rparr>) ?w" and q: "trace ?w = trace w" "faults ?w = faults w"
      "hosts ?w = hosts w" "hc ?w = hc w" using Suc by simp_all
    have "n < 256" using assms(9) unsigned_less [of "hub_poll c"] by simp
    then have "sof_num (h\<lparr>sof_num := of_nat k\<rparr>) + 1 < ucast (hub_poll (hub_CommItf (h\<lparr>sof_num := of_nat k\<rparr>)))"
      using Suc.prems assms(8,9) by (simp add: word_less_nat_alt unat_word_ariths unat_of_nat unat_up)
    from sof_quiet [OF a this] hub_runs_upd [OF a, of "\<lambda>h. h\<lparr>sof_num := sof_num h + 1\<rparr>"] q show ?case
      by (simp add: add.commute)
  qed
  obtain m where m: "n = Suc m" using assms(10) gr0_implies_Suc by blast
  let ?w = "(sof p ^^ m) w"
  have a: "hub_runs p (h\<lparr>sof_num := of_nat m\<rparr>) ?w" and q: "trace ?w = trace w" "faults ?w = faults w"
    "hosts ?w = hosts w" "hc ?w = hc w" using run [of m] m by simp_all
  have "n < 256" using assms(9) unsigned_less [of "hub_poll c"] by simp
  then have "ucast (hub_poll (hub_CommItf (h\<lparr>sof_num := of_nat m\<rparr>))) \<le> sof_num (h\<lparr>sof_num := of_nat m\<rparr>) + 1"
    using m assms(8,9) by (simp add: word_le_nat_alt unat_word_ariths unat_of_nat unat_up)
  from sof_polls [OF a this] obtain h' where h': "hub_runs p h' ((sof p ^^ n) w)"
    "trace ((sof p ^^ n) w) = trace w @ [poll_call p ?w c]" "faults ((sof p ^^ n) w) = faults w"
    "sof_num h' = 0" "hub_ctl_state h' = HUB_REQ_SCAN_PORT_WAIT"
    using m q assms(7,8) by auto
  have "poll_call p ?w c = poll_call p w c" using q by (simp add: poll_call_def hub_ptr_def hc_get_def)
  with h' run [OF assms(11)] hub_runs_get [OF h'(1)] show ?thesis by (simp add: poll_call_def)
qed

section \<open>A new child\<close>

lemma climb_other:
  assumes "\<forall>q. parent (hosts w q) \<noteq> c" "\<forall>q. q \<noteq> c \<longrightarrow> hosts v q = hosts w q" "q \<noteq> c"
  shows "climb n v q = climb n w q"
  using assms(3)
proof (induction n arbitrary: q)
  case (Suc n)
  with assms(1,2) show ?case by simp
qed simp

text \<open>The handle after \<open>init_child\<close>.\<close>

definition child_host :: "USBH_HandleTypeDef \<Rightarrow> ptr \<Rightarrow> u16 \<Rightarrow> USBH_HandleTypeDef" where
  "child_host h p st = zero_host\<lparr>RequestState := CMD_SEND, Control := zero_ctrl\<lparr>ctl_state := CTRL_SETUP, pipe_size := 0x40\<rparr>,
     device := zero_device\<lparr>is_connected := 1, dev_speed := child_speed st\<rparr>,
     Pipes := Pipes h, address := address h, is_child := 1, parent := p, pUser := pUser h,
     ClassNumber := ClassNumber h,
     pClass := take (unat (ClassNumber h)) (pClass h) @ drop (unat (ClassNumber h)) (pClass zero_host),
     pData := pData h\<rparr>"

lemma init_child_eq:
  assumes "c \<noteq> p"
  shows "init_child p st c w = w\<lparr>alive := c # alive w, hosts := (hosts w)(c := child_host (hosts w p) p st)\<rparr>"
proof -
  have "hosts (init_child p st c w) c = child_host (hosts w p) p st"
    using assms by (simp add: init_child_def Let_def HUB_Child_DeInitStateMachine_def child_host_def zero_host_def
        zero_ctrl_def zero_device_def)
  moreover have "init_child p st c w = (init_child p st c w)\<lparr>hosts := (hosts w)(c := hosts (init_child p st c w) c)\<rparr>"
    by (simp add: init_child_def Let_def HUB_Child_DeInitStateMachine_def upd_host_def)
  moreover have "(init_child p st c w)\<lparr>hosts := H\<rparr> = w\<lparr>alive := c # alive w, hosts := H\<rparr>" for H
    by (simp add: init_child_def Let_def HUB_Child_DeInitStateMachine_def upd_host_def)
  ultimately show ?thesis by metis
qed

lemma not_full: "card A \<le> 14 \<Longrightarrow> A \<noteq> {..<15 :: nat}"
proof
  assume a: "card A \<le> 14" "A = {..<15 :: nat}"
  have "card {..<15 :: nat} = 15" by (rule card_lessThan)
  with arg_cong [OF a(2), of card] a(1) show False by linarith
qed

lemma two_free:
  assumes "card (pipes_used p w) \<le> 13"
  shows "pipes_used p w \<noteq> {..<15}" "insert i (pipes_used p w) \<noteq> {..<15}"
proof -
  have "finite (pipes_used p w)" by (rule finite_subset [of _ "{..<15}"]) (auto simp: pipes_used_def)
  then have "card (insert i (pipes_used p w)) \<le> 14" using assms by (simp add: card_insert_if)
  then show "pipes_used p w \<noteq> {..<15}" "insert i (pipes_used p w) \<noteq> {..<15}"
    using assms by (auto intro!: not_full simp del: lessThan_iff)
qed

lemma words_only: "pipes_ok p w \<Longrightarrow> i < 15 \<Longrightarrow> set_pipe_word p i v w = w\<lparr>words := words (set_pipe_word p i v w)\<rparr>"
  by (simp add: set_pipe_word_def pipes_ok_def Let_def)

lemma pipe_taken:
  assumes "pipes_ok p w" "pipes_used p w \<noteq> {..<15}"
  obtains a w' where "USBH_AllocPipe p x w = (a, w')" "unat a < 15" "unat a \<notin> pipes_used p w"
    "pipes_used p w' = insert (unat a) (pipes_used p w)" "pipes_ok p w'" "faults w' = faults w"
    "w' = w\<lparr>words := words w'\<rparr>"
proof -
  obtain a w' where a: "USBH_AllocPipe p x w = (a, w')" by (cases "USBH_AllocPipe p x w")
  have n: "fst (alloc_pipe p x w) \<noteq> None" using pipes.alloc_fails_iff [OF assms(1)] assms(2) by simp
  with a have s: "alloc_pipe p x w = (Some (unat a), w')" by (auto simp: alloc_pipe_def split: if_splits)
  note i = pipes.alloc_slot [OF assms(1) s]
  have "faults w' = faults w" using AllocPipe_faults [OF assms(1), of x] a by simp
  moreover have "w' = set_pipe_word p (unat a) (0x8000 OR ucast x) w"
    using s by (auto simp: alloc_pipe_eq split: option.splits)
  with words_only [OF assms(1)] i have "w' = w\<lparr>words := words w'\<rparr>" by metis
  ultimately show thesis using that [OF a] i by blast
qed

lemma pipes_same:
  assumes "Pipes (hosts v q) = Pipes (hosts w p)" "words v = words w"
  shows "pipes_ok q v = pipes_ok p w" "pipes_used q v = pipes_used p w"
  using assms by (simp_all add: pipes_ok_def pipes_used_def pipe_word_def)

lemma new_child:
  assumes "request_ready p w" "card (pipes_used p w) \<le> 13" "c \<noteq> p" "c \<noteq> NULL"
    and "\<forall>q. parent (hosts w q) \<noteq> c" "addr_inv q hs w" "p \<in> hs" "c \<notin> hs"
  shows "\<exists>w' o' i. open_child c (init_child p st c w) = w'
    \<and> hosts w' = (hosts w)(c := (child_host (hosts w p) p st)\<lparr>
         Control := zero_ctrl\<lparr>ctl_state := CTRL_SETUP, pipe_size := 0x40, pipe_out := o', pipe_in := i\<rparr>,
         gState := HOST_ENUMERATION\<rparr>)
    \<and> i \<noteq> o' \<and> unat o' \<notin> pipes_used p w \<and> unat i \<notin> pipes_used p w
    \<and> pipes_used c w' = {unat o', unat i} \<union> pipes_used p w
    \<and> request_ready c w' \<and> addr_inv q (insert c hs) w' \<and> bytes w' = bytes w \<and> faults w' = faults w"
proof -
  let ?h = "child_host (hosts w p) p st"
  let ?w0 = "w\<lparr>alive := c # alive w, hosts := (hosts w)(c := ?h)\<rparr>"
  have i0: "init_child p st c w = ?w0" by (rule init_child_eq [OF assms(3)])
  have p0: "pipes_ok c ?w0" "pipes_used c ?w0 = pipes_used p w"
    using pipes_same [of ?w0 c w p] assms(1) by (simp_all add: child_host_def request_ready_def)
  from pipe_taken [OF p0(1), of 0] two_free(1) [OF assms(2)] p0(2) obtain a w1 where
    1: "USBH_AllocPipe c 0 ?w0 = (a, w1)" "unat a < 15" "unat a \<notin> pipes_used p w"
      "pipes_used c w1 = insert (unat a) (pipes_used p w)" "pipes_ok c w1" "faults w1 = faults w"
      "w1 = ?w0\<lparr>words := words w1\<rparr>" by auto
  have h1: "hosts w1 = (hosts w)(c := ?h)" "bytes w1 = bytes w" "hc w1 = hc w" "alive w1 = c # alive w"
    by (subst 1(7), simp)+
  let ?w2 = "upd_ctl c (\<lambda>x. x\<lparr>pipe_out := a\<rparr>) w1"
  have p2: "pipes_ok c ?w2" "pipes_used c ?w2 = insert (unat a) (pipes_used p w)"
    using pipes_same [of ?w2 c w1 c] 1(4,5) by simp_all
  from pipe_taken [OF p2(1), of "0x80"] two_free(2) [OF assms(2)] p2(2) obtain b w3 where
    3: "USBH_AllocPipe c 0x80 ?w2 = (b, w3)" "unat b < 15" "unat b \<notin> insert (unat a) (pipes_used p w)"
      "pipes_used c w3 = insert (unat b) (insert (unat a) (pipes_used p w))" "pipes_ok c w3" "faults w3 = faults w"
      "w3 = ?w2\<lparr>words := words w3\<rparr>" using 1(6) by auto
  have h3: "hosts w3 = hosts ?w2" "bytes w3 = bytes w" "hc w3 = hc w" "alive w3 = c # alive w"
    by (subst 3(7), simp add: h1)+
  let ?w4 = "upd_ctl c (\<lambda>x. x\<lparr>pipe_in := b\<rparr>) w3"
  let ?c = "zero_ctrl\<lparr>ctl_state := CTRL_SETUP, pipe_size := 0x40, pipe_out := a, pipe_in := b\<rparr>"
  have h4: "hosts ?w4 = (hosts w)(c := ?h\<lparr>Control := ?c\<rparr>)"
    by (simp add: h3 h1 child_host_def zero_host_def zero_ctrl_def)
  have p4: "pipes_ok c ?w4" "pipes_used c ?w4 = insert (unat b) (insert (unat a) (pipes_used p w))"
    using pipes_same [of ?w4 c w3 c] 3(4,5) by simp_all
  have "root_of ?w4 c = root_of w p"
  proof -
    have "parent (hosts ?w4 c) = p" "p \<noteq> NULL"
      using request_readyD(1) [OF assms(1)] by (simp_all add: h3 h1 child_host_def)
    moreover have "climb (length (alive w)) ?w4 p = climb (length (alive w)) w p"
      by (rule climb_other [OF assms(5)]) (use assms(3) in \<open>auto simp: h3 h1\<close>)
    ultimately show ?thesis by (simp add: root_of_def h3(4))
  qed
  moreover have "root_of w p \<noteq> c"
  proof -
    have "climb n w q \<noteq> c" if "q \<noteq> c" for n q
      using that assms(5) by (induction n arbitrary: q) auto
    then show ?thesis using assms(3) by (simp add: root_of_def)
  qed
  ultimately have r4: "request_ready c ?w4"
    using assms(1,4) 1(2) 3(2) h3(3) p4
    unfolding request_ready_def h4 by (auto simp: child_host_def)
  let ?w5 = "open_control_pipes c ?w4"
  note o = open_pipes_frame [OF r4]
  let ?w6 = "set_gstate c HOST_ENUMERATION ?w5"
  have r6: "request_ready c ?w6"
    using o(4) request_ready_cong [of ?w6 ?w5 c] by (simp add: set_gstate_def)
  have w6: "open_child c (init_child p st c w) = ?w6"
    by (simp add: open_child_def i0 1(1) 3(1))
  have h5: "hosts ?w5 = (hosts w)(c := ?h\<lparr>Control := ?c\<rparr>)" using o(1) h4 by (rule trans)
  have "hosts ?w6 = (hosts ?w5)(c := (hosts ?w5 c)\<lparr>gState := HOST_ENUMERATION\<rparr>)" by (simp add: set_gstate_def)
  then have h6: "hosts ?w6 = (hosts w)(c := ?h\<lparr>Control := ?c, gState := HOST_ENUMERATION\<rparr>)"
    unfolding h5 by simp
  have b6: "bytes ?w6 = bytes w" "words ?w6 = words ?w4"
    using h3(2) by (simp_all add: set_gstate_def open_control_pipes_def Let_def USBH_OpenPipe_def USBH_LL_OpenPipe_def
        HAL_HCD_HC_Init_def chk_hc_def chk_hcd_def)
  have "pipes_used c ?w6 = {unat a, unat b} \<union> pipes_used p w"
  proof -
    have "Pipes (hosts ?w6 c) = Pipes (hosts ?w4 c)" unfolding h6 h4 by simp
    from pipes_same(2) [OF this b6(2)] p4(2) show ?thesis by blast
  qed
  moreover have "addr_inv q (insert c hs) ?w6"
  proof -
    have "address ?h = q" using assms(6,7) by (simp add: child_host_def addr_inv_def)
    moreover have "dev_address (device ?h) = 0" by (simp add: child_host_def zero_device_def)
    ultimately show ?thesis
      using assms(6,8) b6(1) unfolding addr_inv_def addrs_ok_def addrs_used_def h6
      by auto
  qed
  moreover have "faults ?w6 = faults w" using o(3) 3(6) by (simp add: set_gstate_def)
  ultimately show ?thesis
    using 1(3) 3(3) r6 b6(1) h6 w6 by (intro exI [of _ ?w6] exI [of _ a] exI [of _ b]) auto
qed

text \<open>
  C2: The handle the hub driver sets up for a device behind the hub can be enumerated like the root handle:
  it starts the enumeration with two control channels that no other handle has, with the parent's channel
  table, address table, driver table and user function; and on a bus that completes its transfers repeated
  calls of \<open>USBH_HandleEnum\<close> read the device's descriptors into it, with exactly the transfers of an
  enumeration, and give the device an address that none of the handles \<open>hs\<close> sharing the address table has.
\<close>

theorem child_enumerates:
  assumes "device_bus E c reply" and "describes reply d cf is"
    and "request_ready p w" and "card (pipes_used p w) \<le> 13" and "c \<noteq> p" and "c \<noteq> NULL"
    and "\<forall>q. parent (hosts w q) \<noteq> c" and "addr_inv q hs w" and "p \<in> hs" and "c \<notin> hs"
    and "addrs_used q w \<noteq> {..<USBH_MAX_NUM_DEVICE}" and "v = open_child c (init_child p st c w)"
  shows "pipe_in (Control (hosts v c)) \<noteq> pipe_out (Control (hosts v c))
    \<and> unat (pipe_in (Control (hosts v c))) \<notin> pipes_used p w \<and> unat (pipe_out (Control (hosts v c))) \<notin> pipes_used p w
    \<and> Pipes (hosts v c) = Pipes (hosts w p) \<and> address (hosts v c) = address (hosts w p)
    \<and> ClassNumber (hosts v c) = ClassNumber (hosts w p) \<and> pUser (hosts v c) = pUser (hosts w p)
    \<and> pClass (hosts v c) = take (unat (ClassNumber (hosts w p))) (pClass (hosts w p))
        @ drop (unat (ClassNumber (hosts w p))) (pClass zero_host)
    \<and> gState (hosts v c) = HOST_ENUMERATION \<and> parent (hosts v c) = p \<and> is_child (hosts v c) = 1
    \<and> (\<exists>w' a. enum_run (54 + k) E c v = Some (USBH_OK, w')
       \<and> DevDesc (device (hosts w' c)) = d \<and> CfgDesc (device (hosts w' c)) = stored_cfg cf is zero_cfg_desc
       \<and> dev_address (device (hosts w' c)) = a \<and> a \<noteq> 0 \<and> (\<forall>h \<in> hs. dev_address (device (hosts w h)) \<noteq> a)
       \<and> trace w' = trace v @ enum_calls c v d a (wTotalLength cf) \<and> faults w' = faults w)"
proof -
  from new_child [OF assms(3-10), of st] assms(12) obtain o' i where
    h: "hosts v = (hosts w)(c := (child_host (hosts w p) p st)\<lparr>
         Control := zero_ctrl\<lparr>ctl_state := CTRL_SETUP, pipe_size := 0x40, pipe_out := o', pipe_in := i\<rparr>,
         gState := HOST_ENUMERATION\<rparr>)"
    and n: "i \<noteq> o'" "unat o' \<notin> pipes_used p w" "unat i \<notin> pipes_used p w" "request_ready c v"
      "addr_inv q (insert c hs) v" "bytes v = bytes w" "faults v = faults w" by blast
  have f: "RequestState (hosts v c) = CMD_SEND" "EnumState (hosts v c) = ENUM_IDLE"
    "last_ctrl_status (hosts v c) = CTRL_IDLE" "length (Data (device (hosts v c))) = USBH_MAX_DATA_BUFFER"
    "CfgDesc (device (hosts v c)) = zero_cfg_desc" "dev_address (device (hosts v c)) = 0" "address (hosts v c) = q"
    using assms(8,9) by (simp_all add: h child_host_def zero_host_def zero_device_def addr_inv_def)
  have t: "wf_table (CfgDesc (device (hosts v c)))" by (simp add: f(5) zero_cfg_desc_def wf_table_def zero_itf_desc_def)
  have ok: "addrs_ok (address (hosts v c)) v" using n(5) by (simp add: f(7) addr_inv_def)
  obtain a where a: "fst (USBH_Get_One_Address c v) = a" "a \<noteq> 0" "\<forall>h \<in> hs. dev_address (device (hosts w h)) \<noteq> a"
    using n(5) insertI1 f(6)
  proof (cases rule: get_address_cases)
    case full
    then show ?thesis using assms(11) n(6) by (simp add: addrs_used_def)
  next
    case (got j w')
    have "dev_address (device (hosts w x)) \<noteq> of_nat (j + 1)" if "x \<in> hs" for x
    proof
      assume e: "dev_address (device (hosts w x)) = of_nat (j + 1)"
      have "unat (dev_address (device (hosts w x))) - 1 \<in> addrs_used q w"
        using assms(8) that e small_addr [OF got(2)] by (auto simp: addr_inv_def)
      with e small_addr [OF got(2)] got(3) n(6) show False by (simp add: addrs_used_def)
    qed
    with that [of "of_nat (j + 1)"] got(1) small_addr [OF got(2)] show ?thesis by simp
  qed
  from device_bus.enum_completes [OF assms(1,2) n(4) f(1-4) t ok a(1,2), of k] a n
  show ?thesis unfolding f(5) by (auto simp: h child_host_def)
qed

section \<open>Witnesses\<close>

definition polled_world :: usb where
  "polled_world = changed_world\<lparr>cdata := (\<lambda>_. NoData)(40 := HubData (zero_hub\<lparr>hub_ctl_state := HUB_REQ_SCAN_PORT,
     hub_CommItf := \<lparr>hub_NotifPipe = 2, hub_NotifEp = 0x81, hub_NotifEpSize = 1, hub_poll = 12\<rparr>\<rparr>))\<rparr>"

lemma hub_polled_once_per_interval_witness:
  "trace ((sof hUSBHost ^^ 11) polled_world) = trace polled_world
   \<and> sof_num (hub_get hUSBHost ((sof hUSBHost ^^ 12) polled_world)) = 0"
proof -
  let ?h = "zero_hub\<lparr>hub_ctl_state := HUB_REQ_SCAN_PORT,
     hub_CommItf := \<lparr>hub_NotifPipe = 2, hub_NotifEp = 0x81, hub_NotifEpSize = 1, hub_poll = 12\<rparr>\<rparr>"
  have "request_ready hUSBHost polled_world = request_ready hUSBHost changed_world"
    by (rule request_ready_cong) (simp_all add: polled_world_def)
  then have r: "request_ready hUSBHost polled_world" using changed_world_ready(1) by (simp only:)
  have "pActiveClass (hosts polled_world hUSBHost) \<noteq> None" "hub_ptr hUSBHost polled_world \<noteq> NULL"
    "cdata polled_world (hub_ptr hUSBHost polled_world) = HubData ?h" "unat (hub_NotifPipe (hub_CommItf ?h)) < HC_COUNT"
    "sof_num ?h = 0" "hub_ctl_state ?h = HUB_REQ_SCAN_PORT" "12 = unat (hub_poll (hub_CommItf ?h))"
    by (simp_all add: polled_world_def changed_world_def hub_world_def hub_ptr_def zero_hub_def)
  from hub_polled_once_per_interval [OF r this(1-6) refl this(7), of 11] show ?thesis by simp
qed

lemma child_enumerates_witness:
  "\<exists>w'. enum_run 54 (replying 50 some_reply) 50 (open_child 50 (init_child hUSBHost 0x0100 50 enum_world)) = Some (USBH_OK, w')
     \<and> idProduct (DevDesc (device (hosts w' 50))) = 0x7523"
proof -
  have u: "pipes_used hUSBHost enum_world = {0, 1}"
    by (auto simp: pipes_used_def pipe_word_def enum_world_def ctl_world_def zero_host_def nth_Cons nth_append split: nat.splits)
      presburger
  have "card (pipes_used hUSBHost enum_world) \<le> 13" unfolding u by simp
  moreover have "addr_inv (address (hosts enum_world hUSBHost)) {hUSBHost} enum_world" "\<forall>q. parent (hosts enum_world q) \<noteq> 50"
    by (simp_all add: addr_inv_def enum_world_def ctl_world_def zero_host_def zero_device_def addrs_ok_def)
  moreover have "addrs_used (address (hosts enum_world hUSBHost)) enum_world \<noteq> {..<USBH_MAX_NUM_DEVICE}"
    by (auto simp: addrs_used_def enum_world_def rd8_def lessThan_def intro: exI [of _ 0])
  ultimately show ?thesis
    using child_enumerates [OF replying.device_bus_axioms some_describes enum_world_ready(1), of 50
        "address (hosts enum_world hUSBHost)" "{hUSBHost}" _ "0x0100" 0]
    by (force simp: some_device_def)
qed

end
