(* ===== verification/Usb_CH340.thy ===== *)
theory Usb_CH340
  imports Usb_Core
begin

text \<open>
  The driver of the CH340 serial adapter (usbh\_ch340.c) up to the data transfer: the vendor requests,
  the divisor of a baud rate, the start-up sequence, the interface's channels, the line coding, and
  the functions the application calls. The transfer of data is in \<open>Usb_CH340_Data\<close>, after the
  application's receive callback.
\<close>

section \<open>The driver's data\<close>

definition cdc_ptr :: "ptr \<Rightarrow> usb \<Rightarrow> ptr" where
  "cdc_ptr p w = pClassData (hosts w p) ! 0"

definition cdc_get :: "ptr \<Rightarrow> usb \<Rightarrow> CDC_HandleTypeDef" where
  "cdc_get p w = (case cdata w (cdc_ptr p w) of CdcData c \<Rightarrow> c | _ \<Rightarrow> zero_cdc)"

text \<open>A CDC handle that is null or freed is a fault; nothing is written to it.\<close>

definition upd_cdc :: "ptr \<Rightarrow> (CDC_HandleTypeDef \<Rightarrow> CDC_HandleTypeDef) \<Rightarrow> usb \<Rightarrow> usb" where
  "upd_cdc p f w =
    (case cdata w (cdc_ptr p w) of
       CdcData c \<Rightarrow> w\<lparr>cdata := (cdata w)(cdc_ptr p w := CdcData (f c))\<rparr>
     | _ \<Rightarrow> chk False Null_ClassData w)"

abbreviation (input) class_event :: "usb \<Rightarrow> usb" where
  "class_event \<equiv> osMessagePut USBH_CLASS_EVENT"

section \<open>Vendor requests\<close>

abbreviation (input) VENDOR_WRITE_TYPE :: u8 where "VENDOR_WRITE_TYPE \<equiv> 0x40"
abbreviation (input) VENDOR_READ_TYPE :: u8 where "VENDOR_READ_TYPE \<equiv> 0xC0"
abbreviation (input) VENDOR_READ :: u8 where "VENDOR_READ \<equiv> 0x95"
abbreviation (input) VENDOR_WRITE :: u8 where "VENDOR_WRITE \<equiv> 0x9A"
abbreviation (input) VENDOR_SERIAL_INIT :: u8 where "VENDOR_SERIAL_INIT \<equiv> 0xA1"
abbreviation (input) VENDOR_MODEM_OUT :: u8 where "VENDOR_MODEM_OUT \<equiv> 0xA4"
abbreviation (input) VENDOR_VERSION :: u8 where "VENDOR_VERSION \<equiv> 0x5F"

definition ch34x_vendor_read ::
  "(usb \<Rightarrow> usb) \<Rightarrow> u8 \<Rightarrow> u16 \<Rightarrow> u16 \<Rightarrow> ptr \<Rightarrow> buf_ptr \<Rightarrow> u16 \<Rightarrow> usb \<Rightarrow> USBH_StatusTypeDef \<times> usb" where
  "ch34x_vendor_read E request v ix p buf len w =
    (if p = NULL then (USBH_FAIL, w)
     else USBH_CtlReq E p buf len (put_setup p VENDOR_READ_TYPE request v ix len w))"

definition ch34x_vendor_write ::
  "(usb \<Rightarrow> usb) \<Rightarrow> u8 \<Rightarrow> u16 \<Rightarrow> u16 \<Rightarrow> ptr \<Rightarrow> buf_ptr \<Rightarrow> u16 \<Rightarrow> usb \<Rightarrow> USBH_StatusTypeDef \<times> usb" where
  "ch34x_vendor_write E request v ix p buf len w =
    (if p = NULL then (USBH_FAIL, w)
     else USBH_CtlReq E p buf len (put_setup p VENDOR_WRITE_TYPE request v ix len w))"

section \<open>The divisor of a baud rate\<close>

text \<open>\<open>b\<close> and \<open>c\<close> of the default case.\<close>

definition prescaler :: "u32 \<Rightarrow> u8 \<times> u32" where
  "prescaler baud_rate =
    (if baud_rate > 6000000 div 255 then (3, 6000000)
     else if baud_rate > 750000 div 255 then (2, 750000)
     else if baud_rate > 93750 div 255 then (1, 93750)
     else (0, 11719))"

text \<open>
  \<open>Some (factor, divisor)\<close>, or \<open>None\<close> for the return value -1. The quotient is cut to eight bits and the
  subtractions wrap. A rate of 0 divides by zero, which the caller logs; the processor's division
  gives 0 then.
\<close>

definition ch34x_get_baud_rate :: "u32 \<Rightarrow> (u8 \<times> u8) option" where
  "ch34x_get_baud_rate baud_rate =
    (if baud_rate = 921600 then Some (0xf3, 7)
     else if baud_rate = 307200 then Some (0xd9, 7)
     else
       let (b, c) = prescaler baud_rate;
           a = (ucast (c div baud_rate) :: u8)
       in if a = 0 \<or> a = 0xFF then None
          else
            let a = (if c div ucast a - baud_rate > baud_rate - c div (ucast a + 1) then a + 1 else a)
            in Some (0 - a, b))"

section \<open>Start-up of the adapter\<close>

definition set_attach :: "ptr \<Rightarrow> CH340_AttachStateTypeDef \<Rightarrow> usb \<Rightarrow> usb" where
  "set_attach p st w = upd_cdc p (\<lambda>c. c\<lparr>attach_state := st\<rparr>) w"

definition attach_step ::
  "ptr \<Rightarrow> CH340_AttachStateTypeDef \<Rightarrow> USBH_StatusTypeDef \<times> usb \<Rightarrow> USBH_StatusTypeDef \<times> usb" where
  "attach_step p next r = (case r of (st, w) \<Rightarrow> (USBH_BUSY, if st = USBH_OK then set_attach p next w else w))"

definition ch34x_attach :: "(usb \<Rightarrow> usb) \<Rightarrow> ptr \<Rightarrow> usb \<Rightarrow> USBH_StatusTypeDef \<times> usb" where
  "ch34x_attach E p w =
    (if p = NULL \<or> cdc_ptr p w = NULL then (USBH_FAIL, w)
     else
       let buf = BCdcBuf (cdc_ptr p w)
       in case attach_state (cdc_get p w) of
         CH340_READ_VENDOR_VERSION_STATE \<Rightarrow>
           attach_step p CH340_VENDOR_SERIAL_INIT_STATE (ch34x_vendor_read E VENDOR_VERSION 0 0 p buf 2 w)
       | CH340_VENDOR_SERIAL_INIT_STATE \<Rightarrow>
           attach_step p CH340_VENDOR_WRITE_1_STATE (ch34x_vendor_write E VENDOR_SERIAL_INIT 0 0 p BNull 0 w)
       | CH340_VENDOR_WRITE_1_STATE \<Rightarrow>
           attach_step p CH340_VENDOR_WRITE_2_STATE (ch34x_vendor_write E VENDOR_WRITE 0x1312 0xD982 p BNull 0 w)
       | CH340_VENDOR_WRITE_2_STATE \<Rightarrow>
           attach_step p CH340_VENDOR_READ_1_STATE (ch34x_vendor_write E VENDOR_WRITE 0x0F2C 0x0004 p BNull 0 w)
       | CH340_VENDOR_READ_1_STATE \<Rightarrow>
           attach_step p CH340_VENDOR_WRITE_3_STATE (ch34x_vendor_read E VENDOR_READ 0x2518 0 p buf 2 w)
       | CH340_VENDOR_WRITE_3_STATE \<Rightarrow>
           attach_step p CH340_VENDOR_MODEM_OUT_STATE (ch34x_vendor_write E VENDOR_WRITE 0x2727 0 p BNull 0 w)
       | CH340_VENDOR_MODEM_OUT_STATE \<Rightarrow>
           let (st, w) = ch34x_vendor_write E VENDOR_MODEM_OUT 0x009F 0 p BNull 0 w
           in if st = USBH_OK then (USBH_OK, set_attach p CH340_ATTACH_COMPLETE_STATE w) else (USBH_BUSY, w)
       | CH340_ATTACH_COMPLETE_STATE \<Rightarrow> (USBH_BUSY, w))"

section \<open>The interface\<close>

text \<open>An endpoint descriptor goes to the IN or the OUT side by the direction bit of its address.\<close>

definition data_endpoint :: "USBH_EpDescTypeDef \<Rightarrow> CDC_DataItfTypedef \<Rightarrow> CDC_DataItfTypedef" where
  "data_endpoint ep d =
    (if bEndpointAddress ep AND 0x80 \<noteq> 0
     then d\<lparr>cdc_InEp := bEndpointAddress ep, cdc_InEpSize := wMaxPacketSize ep\<rparr>
     else d\<lparr>cdc_OutEp := bEndpointAddress ep, cdc_OutEpSize := wMaxPacketSize ep\<rparr>)"

definition upd_data :: "ptr \<Rightarrow> (CDC_DataItfTypedef \<Rightarrow> CDC_DataItfTypedef) \<Rightarrow> usb \<Rightarrow> usb" where
  "upd_data p f w = upd_cdc p (\<lambda>c. c\<lparr>cdc_DataItf := f (cdc_DataItf c)\<rparr>) w"

definition data_itf :: "ptr \<Rightarrow> usb \<Rightarrow> CDC_DataItfTypedef" where
  "data_itf p w = cdc_DataItf (cdc_get p w)"

text \<open>The memory of the handle is not cleared.\<close>

definition new_cdc :: "ptr \<Rightarrow> usb \<Rightarrow> usb" where
  "new_cdc p w =
    (let (q, w) = malloc w;
         w = upd_host p (\<lambda>h. h\<lparr>pClassData := (pClassData h)[0 := q]\<rparr>) w;
         w = chk (q \<noteq> NULL) Null_ClassData w
     in if q \<noteq> NULL then w\<lparr>cdata := (cdata w)(q := CdcData (junk w))\<rparr> else w)"

definition open_data_pipe :: "ptr \<Rightarrow> u8 \<Rightarrow> u8 \<Rightarrow> u16 \<Rightarrow> usb \<Rightarrow> usb" where
  "open_data_pipe p pipe ep mps w =
     snd (USBH_OpenPipe p pipe ep (dev_address (device (hosts w p))) (dev_speed (device (hosts w p)))
            USBH_EP_BULK mps w)"

definition USBH_CH340_InterfaceInit :: "ptr \<Rightarrow> usb \<Rightarrow> USBH_StatusTypeDef \<times> usb" where
  "USBH_CH340_InterfaceInit p w =
    (let itf = USBH_FindInterface p 0xff 0x01 0x02 w
     in if itf = 0xFF then (USBH_FAIL, w)
        else
          let w = snd (USBH_SelectInterface p itf w);
              w = new_cdc p w;
              w = chk_itf p (unat itf) w;
              eps = Ep_Desc (itf_desc p w (unat itf));
              w = (if bEndpointAddress (eps ! 2) AND 0x80 \<noteq> 0 then
                     upd_cdc p (\<lambda>c. c\<lparr>cdc_CommItf := (cdc_CommItf c)\<lparr>cdc_NotifEp := bEndpointAddress (eps ! 2),
                       cdc_NotifEpSize := wMaxPacketSize (eps ! 2)\<rparr>\<rparr>) w
                   else w);
              w = upd_data p (data_endpoint (eps ! 0)) w;
              w = upd_data p (data_endpoint (eps ! 1)) w;
              (c, w) = USBH_AllocPipe p (cdc_OutEp (data_itf p w)) w;
              w = upd_data p (\<lambda>d. d\<lparr>cdc_OutPipe := c\<rparr>) w;
              (c, w) = USBH_AllocPipe p (cdc_InEp (data_itf p w)) w;
              w = upd_data p (\<lambda>d. d\<lparr>cdc_InPipe := c\<rparr>) w;
              d = data_itf p w;
              w = open_data_pipe p (cdc_OutPipe d) (cdc_OutEp d) (cdc_OutEpSize d) w;
              w = open_data_pipe p (cdc_InPipe d) (cdc_InEp d) (cdc_InEpSize d) w;
              w = upd_cdc p (\<lambda>c. c\<lparr>cdc_state := CDC_IDLE_STATE,
                                   attach_state := CH340_READ_VENDOR_VERSION_STATE\<rparr>) w;
              w = snd (USBH_LL_SetToggle p (cdc_OutPipe d) 0 w);
              w = snd (USBH_LL_SetToggle p (cdc_InPipe d) 0 w)
          in (USBH_OK, w))"

text \<open>\<open>while (NULL != phost->app_data) USBH_Delay(10)\<close>: waits for the application to go.\<close>

partial_function (option) wait_app :: "(usb \<Rightarrow> usb) \<Rightarrow> ptr \<Rightarrow> usb \<Rightarrow> usb option" where
  "wait_app E p w = (if app_data (hosts w p) \<noteq> NULL then wait_app E p (USBH_Delay E 10 w) else Some w)"

definition drop_pipe :: "ptr \<Rightarrow> u8 \<Rightarrow> (CDC_HandleTypeDef \<Rightarrow> CDC_HandleTypeDef) \<Rightarrow> usb \<Rightarrow> usb" where
  "drop_pipe p c reset w =
    (if c \<noteq> 0 \<and> c \<noteq> 0xff
     then upd_cdc p reset (snd (USBH_FreePipe p c (snd (USBH_ClosePipe p c w))))
     else w)"

definition USBH_CH340_InterfaceDeInit ::
  "(usb \<Rightarrow> usb) \<Rightarrow> ptr \<Rightarrow> usb \<Rightarrow> (USBH_StatusTypeDef \<times> usb) option" where
  "USBH_CH340_InterfaceDeInit E p w =
    do {
      w \<leftarrow> wait_app E p w;
      let w = chk (cdc_ptr p w \<noteq> NULL) Null_ClassData w;
          w = drop_pipe p (cdc_NotifPipe (cdc_CommItf (cdc_get p w)))
                (\<lambda>c. c\<lparr>cdc_CommItf := (cdc_CommItf c)\<lparr>cdc_NotifPipe := 0\<rparr>\<rparr>) w;
          w = drop_pipe p (cdc_InPipe (data_itf p w)) (\<lambda>c. c\<lparr>cdc_DataItf := (cdc_DataItf c)\<lparr>cdc_InPipe := 0\<rparr>\<rparr>) w;
          w = drop_pipe p (cdc_OutPipe (data_itf p w)) (\<lambda>c. c\<lparr>cdc_DataItf := (cdc_DataItf c)\<lparr>cdc_OutPipe := 0\<rparr>\<rparr>) w;
          q = cdc_ptr p w;
          w = (if q \<noteq> NULL then upd_host p (\<lambda>h. h\<lparr>pClassData := (pClassData h)[0 := NULL]\<rparr>) (free_cdata q w)
               else w);
          w = snd (USBH_Free_One_Address p w)
      in Some (USBH_OK, w)
    }"

definition USBH_CH340_ClassRequest :: "ptr \<Rightarrow> usb \<Rightarrow> USBH_StatusTypeDef \<times> usb" where
  "USBH_CH340_ClassRequest p w =
    (let w = upd_cdc p (\<lambda>c. c\<lparr>LineCoding := \<lparr>dwDTERate = 115200, bCharFormat = 0, bParityType = 0,
               bDataBits = 8\<rparr>\<rparr>) w
     in (USBH_OK, call_user p HOST_USER_CLASS_ACTIVE w))"

definition USBH_CH340_SOFProcess :: "ptr \<Rightarrow> usb \<Rightarrow> USBH_StatusTypeDef \<times> usb" where
  "USBH_CH340_SOFProcess p w = (USBH_OK, w)"

section \<open>Line coding\<close>

text \<open>Reading through a \<open>CDC_LineCodingTypeDef *\<close>.\<close>

definition lc_get :: "lc_ptr \<Rightarrow> usb \<Rightarrow> CDC_LineCodingTypeDef" where
  "lc_get q w =
    (case q of
       LcNull \<Rightarrow> LineCoding zero_cdc
     | LcCdc c \<Rightarrow> (case cdata w c of CdcData h \<Rightarrow> LineCoding h | _ \<Rightarrow> LineCoding zero_cdc)
     | LcApp a \<Rightarrow> lcs w a)"

definition chk_lc :: "lc_ptr \<Rightarrow> usb \<Rightarrow> usb" where
  "chk_lc q w = chk (case q of LcNull \<Rightarrow> False | LcCdc c \<Rightarrow> (\<exists>h. cdata w c = CdcData h) | LcApp _ \<Rightarrow> True)
     Null_LineCoding w"

definition GetLineCoding :: "ptr \<Rightarrow> usb \<Rightarrow> USBH_StatusTypeDef \<times> usb" where
  "GetLineCoding p w =
    (let q = pUserLineCoding (cdc_get p w); w = chk_lc q w; lc = lc_get q w
     in (USBH_OK, upd_cdc p (\<lambda>c. c\<lparr>LineCoding := lc\<rparr>) w))"

text \<open>\<open>reg_value\<close> before the bits that enable the receiver and the transmitter.\<close>

definition line_control :: "CDC_LineCodingTypeDef \<Rightarrow> u8" where
  "line_control lc =
     (if bDataBits lc = 5 then 0 else if bDataBits lc = 6 then 1 else if bDataBits lc = 7 then 2 else 3)
     OR (if bCharFormat lc = 2 then 0x04 else 0)
     OR (if bParityType lc = 1 then 0x08 else if bParityType lc = 2 then 0x18
         else if bParityType lc = 3 then 0x28 else if bParityType lc = 4 then 0x28 else 0)"

definition SetLineCoding :: "(usb \<Rightarrow> usb) \<Rightarrow> ptr \<Rightarrow> lc_ptr \<Rightarrow> usb \<Rightarrow> USBH_StatusTypeDef \<times> usb" where
  "SetLineCoding E p q w =
    (let w = chk_lc q w;
         lc = lc_get q w;
         w = chk (dwDTERate lc \<noteq> 0) Div_Zero w;
         (factor, divisor) = (case ch34x_get_baud_rate (dwDTERate lc) of Some fd \<Rightarrow> fd | None \<Rightarrow> (0, 0));
         v = 0x9c OR push_bit 8 (ucast (line_control lc OR 0xc0));
         ix = 0x80 OR ucast divisor OR push_bit 8 (ucast factor)
     in ch34x_vendor_write E VENDOR_SERIAL_INIT v ix p BNull 0 w)"

section \<open>Functions for the application\<close>

definition USBH_CDC_Stop :: "ptr \<Rightarrow> usb \<Rightarrow> USBH_StatusTypeDef \<times> usb" where
  "USBH_CDC_Stop p w =
    (USBH_OK,
     if gState (hosts w p) = HOST_CLASS then
       let w = upd_cdc p (\<lambda>c. c\<lparr>cdc_state := CDC_IDLE_STATE\<rparr>) w;
           w = snd (USBH_ClosePipe p (cdc_NotifPipe (cdc_CommItf (cdc_get p w))) w);
           w = snd (USBH_ClosePipe p (cdc_InPipe (data_itf p w)) w)
       in snd (USBH_ClosePipe p (cdc_OutPipe (data_itf p w)) w)
     else w)"

definition USBH_CDC_AttachInit :: "ptr \<Rightarrow> usb \<Rightarrow> USBH_StatusTypeDef \<times> usb" where
  "USBH_CDC_AttachInit p w =
    (USBH_OK,
     if gState (hosts w p) = HOST_CLASS
     then class_event (upd_cdc p (\<lambda>c. c\<lparr>cdc_state := CDC_ATTACH_INIT_STATE\<rparr>) w) else w)"

text \<open>
  The functions that write through a pointer of the caller return the value they write; they only read
  the handle, and a read through a null handle gives zeros here.
\<close>

definition USBH_CDC_GetAttachInit :: "ptr \<Rightarrow> usb \<Rightarrow> CH340_AttachStateTypeDef option" where
  "USBH_CDC_GetAttachInit p w =
    (if gState (hosts w p) = HOST_CLASS then Some (attach_state (cdc_get p w)) else None)"

definition USBH_CDC_SetLineCoding :: "ptr \<Rightarrow> lc_ptr \<Rightarrow> usb \<Rightarrow> USBH_StatusTypeDef \<times> usb" where
  "USBH_CDC_SetLineCoding p q w =
    (USBH_OK,
     if gState (hosts w p) = HOST_CLASS
     then class_event (upd_cdc p (\<lambda>c. c\<lparr>cdc_state := CDC_SET_LINE_CODING_STATE, pUserLineCoding := q\<rparr>) w)
     else w)"

definition USBH_CDC_GetLineCoding :: "ptr \<Rightarrow> usb \<Rightarrow> CDC_LineCodingTypeDef option" where
  "USBH_CDC_GetLineCoding p w =
    (if gState (hosts w p) = HOST_CLASS \<or> gState (hosts w p) = HOST_CLASS_REQUEST
     then Some (LineCoding (cdc_get p w)) else None)"

definition USBH_CDC_GetLastReceivedDataSize :: "ptr \<Rightarrow> usb \<Rightarrow> u16" where
  "USBH_CDC_GetLastReceivedDataSize p w =
    (if gState (hosts w p) = HOST_CLASS
     then ucast (USBH_LL_GetLastXferSize p (cdc_InPipe (data_itf p w)) w) else 0)"

definition USBH_CDC_Transmit :: "ptr \<Rightarrow> buf_ptr \<Rightarrow> u32 \<Rightarrow> usb \<Rightarrow> USBH_StatusTypeDef \<times> usb" where
  "USBH_CDC_Transmit p pbuff n w =
    (if cdc_state (cdc_get p w) = CDC_IDLE_STATE \<or> cdc_state (cdc_get p w) = CDC_TRANSFER_DATA
     then (USBH_OK, class_event (upd_cdc p (\<lambda>c. c\<lparr>pTxData := pbuff, TxDataLength := n,
             cdc_state := CDC_TRANSFER_DATA, data_tx_state := CDC_SEND_DATA\<rparr>) w))
     else (USBH_BUSY, w))"

definition USBH_CDC_Receive :: "ptr \<Rightarrow> buf_ptr \<Rightarrow> u32 \<Rightarrow> usb \<Rightarrow> USBH_StatusTypeDef \<times> usb" where
  "USBH_CDC_Receive p pbuff n w =
    (if cdc_state (cdc_get p w) = CDC_IDLE_STATE \<or> cdc_state (cdc_get p w) = CDC_TRANSFER_DATA
     then (USBH_OK, class_event (upd_cdc p (\<lambda>c. c\<lparr>pRxData := pbuff, RxDataLength := n,
             cdc_state := CDC_TRANSFER_DATA, data_rx_state := CDC_RECEIVE_DATA\<rparr>) w))
     else (USBH_BUSY, w))"

end
