(* ===== verification/Sdram_Alloc.thy ===== *)
theory Sdram_Alloc
  imports Usb_World Slot_Pool
begin

text \<open>
  The allocator of the SDRAM buffers (sdram\_alloc.c): a table of five buffers of one megabyte behind a
  mutex that the callers do not wait for. It is an instance of the slot pool.
\<close>

section \<open>Operations\<close>

abbreviation (input) SDRAM_SIZE :: u32 where "SDRAM_SIZE \<equiv> 0x2000000"

definition set_used :: "nat \<Rightarrow> u32 \<Rightarrow> usb \<Rightarrow> usb" where
  "set_used i v w = w\<lparr>sd_map := (sd_map w)[i := (sd_map w ! i)\<lparr>is_used := v\<rparr>]\<rparr>"

text \<open>The loop of \<open>init_alloc_sdram\<close> over the entries that are left, with \<open>total_count\<close>.\<close>

primrec init_entries :: "nat list \<Rightarrow> u32 \<Rightarrow> usb \<Rightarrow> bool \<times> usb" where
  "init_entries [] tot w = (True, w)"
| "init_entries (i # is) tot w =
    (let tot = tot + buffer_size (sd_map w ! i)
     in if tot > SDRAM_SIZE then (False, w) else init_entries is tot (set_used i 0 w))"

text \<open>The result tells whether 0 is returned, and not -1.\<close>

definition init_alloc_sdram :: "usb \<Rightarrow> bool \<times> usb" where
  "init_alloc_sdram w =
    (let (ok, w) = init_entries [0..<length (sd_map w)] 0 w
     in (ok, if ok then w\<lparr>sd_busy := False\<rparr> else w))"

text \<open>
  With an index the code marks \<open>g_sdram_map[i]\<close> for an \<open>i\<close> it never set, and returns the entry of the
  index.
\<close>

definition alloc_sdram :: "int \<Rightarrow> usb \<Rightarrow> nat option \<times> usb" where
  "alloc_sdram index_num w =
    (if sd_busy w then (None, w)
     else if index_num < 0 then
       case first_idx (\<lambda>i. is_used (sd_map w ! i) = 0) 0 (length (sd_map w)) of
         Some i \<Rightarrow> (Some i, set_used i 1 w)
       | None \<Rightarrow> (None, w)
     else
       let w = chk (nat index_num < length (sd_map w)) (OOB_Sdram index_num) w
       in if nat index_num < length (sd_map w) \<and> is_used (sd_map w ! nat index_num) = 0
          then (Some (nat index_num), chk False Uninitialised w) else (None, w))"

text \<open>The entry is freed even when the mutex could not be taken.\<close>

definition free_sdram :: "nat option \<Rightarrow> usb \<Rightarrow> usb" where
  "free_sdram index w =
    (case index of Some i \<Rightarrow> set_used i 0 w | None \<Rightarrow> chk False (OOB_Sdram (-1)) w)"

section \<open>The table as a slot pool\<close>

definition sd_ok :: "usb \<Rightarrow> bool" where
  "sd_ok w \<longleftrightarrow> length (sd_map w) = 5 \<and> \<not> sd_busy w"

definition sd_used :: "usb \<Rightarrow> nat set" where
  "sd_used w = {i. i < 5 \<and> is_used (sd_map w ! i) \<noteq> 0}"

lemma set_used_simps [simp]:
  "length (sd_map (set_used i v w)) = length (sd_map w)" "sd_busy (set_used i v w) = sd_busy w"
  "hosts (set_used i v w) = hosts w" "apps (set_used i v w) = apps w" "faults (set_used i v w) = faults w"
  "sd_mem (set_used i v w) = sd_mem w" "cdata (set_used i v w) = cdata w"
  by (simp_all add: set_used_def)

lemma set_used_nth:
  "i < length (sd_map w) \<Longrightarrow> sd_map (set_used i v w) ! j = (if j = i then (sd_map w ! i)\<lparr>is_used := v\<rparr> else sd_map w ! j)"
  by (simp add: set_used_def)

lemma sd_used_set:
  "sd_ok w \<Longrightarrow> i < 5 \<Longrightarrow> sd_used (set_used i v w) = (if v = 0 then sd_used w - {i} else insert i (sd_used w))"
  by (auto simp: sd_used_def sd_ok_def set_used_nth split: if_splits)

interpretation sdram: slot_pool 5 sd_ok sd_used "\<lambda>_. alloc_sdram (-1)" "\<lambda>i. free_sdram (Some i)"
proof
  fix s :: usb and s' and i :: nat and a :: unit
  show "sd_used s \<subseteq> {..<5}" by (auto simp: sd_used_def)
  assume ok: "sd_ok s"
  then have l: "length (sd_map s) = 5" "\<not> sd_busy s" by (simp_all add: sd_ok_def)
  {
    assume "alloc_sdram (-1) s = (Some i, s')"
    then have f: "first_idx (\<lambda>i. is_used (sd_map s ! i) = 0) 0 5 = Some i" and s': "s' = set_used i 1 s"
      using l by (auto simp: alloc_sdram_def split: option.splits)
    from first_idx_Some [OF f] sd_used_set [OF ok, of i 1] ok s'
    show "sd_ok s' \<and> i < 5 \<and> i \<notin> sd_used s \<and> sd_used s' = insert i (sd_used s) \<and> (\<forall>j<i. j \<in> sd_used s)"
      by (auto simp: sd_used_def sd_ok_def)
  }
  {
    assume "alloc_sdram (-1) s = (None, s')"
    then have "first_idx (\<lambda>i. is_used (sd_map s ! i) = 0) 0 5 = None" "s' = s"
      using l by (auto simp: alloc_sdram_def split: option.splits)
    then show "s' = s \<and> sd_used s = {..<5}" by (auto simp: first_idx_None sd_used_def)
  }
  {
    assume "i < 5"
    with sd_used_set [OF ok, of i 0] ok
    show "sd_ok (free_sdram (Some i) s) \<and> sd_used (free_sdram (Some i) s) = sd_used s - {i}"
      by (simp add: free_sdram_def sd_ok_def)
  }
qed

end
