(* ===== verification/App_CH340.thy ===== *)
theory App_CH340
  imports Usb_CH340 Sdram_Alloc
begin

text \<open>
  The application of the CH340 adapter (app\_ch340.c): the object \<open>phost->app_data\<close> points to, the
  ring of received bytes in SDRAM that the host task fills and the log task empties, and the thread
  that drives the adapter by a message queue of one entry. The other tasks and the interrupts are the
  environment \<open>E\<close>, applied where the code waits.
\<close>

section \<open>The application object\<close>

abbreviation (input) RECV_BUFF_SIZE :: nat where "RECV_BUFF_SIZE \<equiv> 128"

definition zero_app :: ch340_app where
  "zero_app = \<lparr>AppliEvent = [], Appli_state = CH340_APPLICATION_IDLE,
     log_buf = \<lparr>log_sd = None, p_read = 0, p_write = 0\<rparr>, recv_buf = replicate (RECV_BUFF_SIZE + 1) 0,
     g_stop_flag = 0, rx_total_num = 0, tx_total_num = 0, app_LineCoding = LineCoding zero_cdc,
     DefaultLineCoding = LineCoding zero_cdc\<rparr>"

definition app_get :: "ptr \<Rightarrow> usb \<Rightarrow> ch340_app" where
  "app_get p w = (case apps w (app_data (hosts w p)) of Some a \<Rightarrow> a | None \<Rightarrow> zero_app)"

text \<open>An object that is null or freed is a fault; nothing is written to it.\<close>

definition upd_app :: "ptr \<Rightarrow> (ch340_app \<Rightarrow> ch340_app) \<Rightarrow> usb \<Rightarrow> usb" where
  "upd_app p f w =
    (let q = app_data (hosts w p)
     in case apps w q of
          Some a \<Rightarrow> w\<lparr>apps := (apps w)(q \<mapsto> f a)\<rparr>
        | None \<Rightarrow> chk False Null_App w)"

text \<open>
  \<open>osMessagePut\<close> with a timeout of 0 ms on a queue with one entry. The port turns the timeout into one tick
  (\<open>cmsis_os.c\<close>): when the queue is full the caller blocks while the other tasks run (\<open>E\<close>), and sends its
  message if one of them has taken the pending one by then. Otherwise the message is dropped; all callers
  ignore the result.
\<close>

definition app_put :: "(usb \<Rightarrow> usb) \<Rightarrow> ptr \<Rightarrow> ApplicationTypeDef \<Rightarrow> usb \<Rightarrow> usb" where
  "app_put E p v w =
    (let w = (if AppliEvent (app_get p w) = [] then w else E w)
     in upd_app p (\<lambda>a. a\<lparr>AppliEvent := (if AppliEvent a = [] then [v] else AppliEvent a)\<rparr>) w)"

definition set_app_state :: "ptr \<Rightarrow> ApplicationTypeDef \<Rightarrow> usb \<Rightarrow> usb" where
  "set_app_state p v w = upd_app p (\<lambda>a. a\<lparr>Appli_state := v\<rparr>) w"

text \<open>\<open>memcpy\<close> of bytes into the SDRAM bank.\<close>

definition sd_write :: "nat \<Rightarrow> u8 list \<Rightarrow> usb \<Rightarrow> usb" where
  "sd_write a bs w =
     w\<lparr>sd_mem := (\<lambda>x. if a \<le> x \<and> x < a + length bs then bs ! (x - a) else sd_mem w x)\<rparr>"

section \<open>Creation and deletion\<close>

text \<open>An object that was allocated before a later allocation fails is not freed.\<close>

definition new_CH340_Application :: "ptr \<Rightarrow> usb \<Rightarrow> USBH_StatusTypeDef \<times> usb" where
  "new_CH340_Application p w =
    (if p = NULL then (USBH_FAIL, w)
     else
       let (q, w) = malloc w
       in if q = NULL then (USBH_FAIL, w)
          else
            let w = w\<lparr>apps := (apps w)(q \<mapsto> zero_app)\<rparr>;
                (ev, w) = malloc w
            in if ev = NULL then (USBH_FAIL, w)
               else
                 let (sd, w) = alloc_sdram (-1) w
                 in case sd of
                      None \<Rightarrow> (USBH_FAIL, w)
                    | Some i \<Rightarrow>
                        let w = sd_write (buffer_base (sd_map w ! i))
                                  (replicate (unat (buffer_size (sd_map w ! i))) 0) w;
                            w = w\<lparr>apps := (apps w)(q \<mapsto> zero_app\<lparr>log_buf := \<lparr>log_sd = Some i, p_read = 0, p_write = 0\<rparr>\<rparr>)\<rparr>
                        in (USBH_OK, upd_host p (\<lambda>h. h\<lparr>app_data := q\<rparr>) w))"

text \<open>A null handle or a null object stops the caller for good.\<close>

definition delete_CH340_Application :: "ptr \<Rightarrow> usb \<Rightarrow> (USBH_StatusTypeDef \<times> usb) option" where
  "delete_CH340_Application p w =
    (if p = NULL \<or> app_data (hosts w p) = NULL then None
     else
       let w = free_sdram (log_sd (log_buf (app_get p w))) w;
           w = upd_app p (\<lambda>a. a\<lparr>log_buf := (log_buf a)\<lparr>log_sd := None\<rparr>\<rparr>) w;
           w = w\<lparr>apps := (apps w)(app_data (hosts w p) := None)\<rparr>
       in Some (USBH_OK, upd_host p (\<lambda>h. h\<lparr>app_data := NULL\<rparr>) w))"

text \<open>The two threads are created here; they are the functions below.\<close>

definition start_CH340_Application :: "(usb \<Rightarrow> usb) \<Rightarrow> ptr \<Rightarrow> usb \<Rightarrow> (USBH_StatusTypeDef \<times> usb) option" where
  "start_CH340_Application E p w =
    (if p = NULL then None else Some (USBH_OK, app_put E p CH340_APPLICATION_READY w))"

definition stop_CH340_Application :: "(usb \<Rightarrow> usb) \<Rightarrow> ptr \<Rightarrow> usb \<Rightarrow> USBH_StatusTypeDef \<times> usb" where
  "stop_CH340_Application E p w =
    (if p = NULL \<or> app_data (hosts w p) = NULL then (USBH_OK, w)
     else (USBH_OK, app_put E p CH340_APPLICATION_DISCONNECT (upd_app p (\<lambda>a. a\<lparr>g_stop_flag := 1\<rparr>) w)))"

section \<open>The ring of received bytes\<close>

abbreviation (input) ring_mask :: u32 where "ring_mask \<equiv> 0xFFFFF"

text \<open>The first \<open>n\<close> bytes of the receive buffer.\<close>

definition received :: "ptr \<Rightarrow> nat \<Rightarrow> usb \<Rightarrow> u8 list" where
  "received p n w = map (rd8 (recv_buf (app_get p w))) [0..<n]"

definition clear_recv :: "ptr \<Rightarrow> usb \<Rightarrow> usb" where
  "clear_recv p w = upd_app p (\<lambda>a. a\<lparr>recv_buf := replicate RECV_BUFF_SIZE 0 @ drop RECV_BUFF_SIZE (recv_buf a)\<rparr>) w"

text \<open>
  The copy into the ring at \<open>p_write\<close>, in two parts when it passes the end. A packet longer than the
  receive buffer would be read past its end.
\<close>

definition ring_copy :: "ptr \<Rightarrow> nat \<Rightarrow> u16 \<Rightarrow> usb \<Rightarrow> usb" where
  "ring_copy p base n w =
    (let pos = p_write (log_buf (app_get p w)) AND ring_mask;
         w = chk (unat n \<le> length (recv_buf (app_get p w))) (OOB_Recv (unat n)) w;
         bs = received p (unat n) w
     in if pos + ucast n > ring_mask then
          let len = unat (0x100000 - pos)
          in sd_write base (drop len bs) (sd_write (base + unat pos) (take len bs) w)
        else sd_write (base + unat pos) bs w)"

text \<open>When the ring is full the packet is dropped and the next reception is not started.\<close>

definition USBH_CDC_ReceiveCallback :: "ptr \<Rightarrow> usb \<Rightarrow> usb" where
  "USBH_CDC_ReceiveCallback p w =
    (if app_data (hosts w p) = NULL then w
     else
       let lb = log_buf (app_get p w)
       in case log_sd lb of
            None \<Rightarrow> w
          | Some i \<Rightarrow>
              let n = USBH_CDC_GetLastReceivedDataSize p w
              in if p_write lb - p_read lb + ucast n \<ge> 0x100000 then w
                 else
                   let w = ring_copy p (buffer_base (sd_map w ! i)) n w;
                       w = upd_app p (\<lambda>a. a\<lparr>log_buf := (log_buf a)\<lparr>p_write := p_write (log_buf a) + ucast n\<rparr>\<rparr>) w;
                       w = clear_recv p w
                   in snd (USBH_CDC_Receive p (BApp (app_data (hosts w p)) 0) 128 w))"

section \<open>The log task\<close>

text \<open>
  One round of \<open>LOG_Task\<close>: the bytes that are there are counted and dropped (the loop that would print
  them is commented out).
\<close>

definition log_round :: "(usb \<Rightarrow> usb) \<Rightarrow> ptr \<Rightarrow> usb \<Rightarrow> usb" where
  "log_round E p w =
    (let lb = log_buf (app_get p w); len = p_write lb - p_read lb
     in if len > 0 then
          upd_app p (\<lambda>a. a\<lparr>rx_total_num := rx_total_num a + len,
                          log_buf := (log_buf a)\<lparr>p_read := p_read (log_buf a) + len\<rparr>\<rparr>) w
        else USBH_Delay E 10 w)"

partial_function (option) LOG_loop :: "(usb \<Rightarrow> usb) \<Rightarrow> ptr \<Rightarrow> usb \<Rightarrow> usb option" where
  "LOG_loop E p w =
    (if g_stop_flag (app_get p w) = 0 then LOG_loop E p (log_round E p w) else Some w)"

definition LOG_Task :: "(usb \<Rightarrow> usb) \<Rightarrow> ptr \<Rightarrow> usb \<Rightarrow> usb option" where
  "LOG_Task E p w = (if p = NULL \<or> app_data (hosts w p) = NULL then None else LOG_loop E p w)"

section \<open>The application thread\<close>

definition CH340_GetDefaultConfiguration :: "ptr \<Rightarrow> usb \<Rightarrow> usb option" where
  "CH340_GetDefaultConfiguration p w =
    (if app_data (hosts w p) = NULL then None
     else
       let w = (case USBH_CDC_GetLineCoding p w of
                  Some lc \<Rightarrow> upd_app p (\<lambda>a. a\<lparr>app_LineCoding := lc\<rparr>) w
                | None \<Rightarrow> w)
       in Some (upd_app p (\<lambda>a. a\<lparr>DefaultLineCoding := app_LineCoding a\<rparr>) w))"

text \<open>The number of characters of \<open>"%d"\<close>, and of the line the thread sends.\<close>

fun decimal_length :: "nat \<Rightarrow> nat" where
  "decimal_length n = (if n < 10 then 1 else Suc (decimal_length (n div 10)))"

definition hello_length :: "u32 \<Rightarrow> u32" where
  "hello_length count =
    of_nat ((if sint count < 0 then 1 else 0) + decimal_length (nat \<bar>sint count\<bar>) + 2 + 14)"

partial_function (option) send_loop :: "(usb \<Rightarrow> usb) \<Rightarrow> ptr \<Rightarrow> u32 \<Rightarrow> usb \<Rightarrow> (u32 \<times> usb) option" where
  "send_loop E p count w =
    (if g_stop_flag (app_get p w) = 0 then
       let len = hello_length count;
           w = snd (USBH_CDC_Transmit p (BSend p 0) len w);
           w = upd_app p (\<lambda>a. a\<lparr>tx_total_num := tx_total_num a + len\<rparr>) w
       in send_loop E p (count + 1) (USBH_Delay E 10 w)
     else Some (count, w))"

text \<open>What the thread does with one message; \<open>count\<close> is its line counter.\<close>

definition app_event ::
  "(usb \<Rightarrow> usb) \<Rightarrow> ptr \<Rightarrow> ApplicationTypeDef \<Rightarrow> u32 \<times> usb \<Rightarrow> (u32 \<times> usb) option" where
  "app_event E p v s =
    (let (count, w) = s
     in case v of
       CH340_APPLICATION_DISCONNECT \<Rightarrow> Some (count, set_app_state p CH340_APPLICATION_DISCONNECT w)
     | CH340_APPLICATION_READY \<Rightarrow>
         do {
           w \<leftarrow> CH340_GetDefaultConfiguration p (set_app_state p CH340_APPLICATION_READY w);
           let (st, w) = USBH_CDC_AttachInit p w
           in Some (count, if st = USBH_OK then app_put E p CH340_APPLICATION_READY_CHECK w else w)
         }
     | CH340_APPLICATION_READY_CHECK \<Rightarrow>
         let w = set_app_state p CH340_APPLICATION_READY_CHECK w
         in Some (count,
              case USBH_CDC_GetAttachInit p w of
                Some st \<Rightarrow> app_put E p (if st = CH340_ATTACH_COMPLETE_STATE then CH340_APPLICATION_SETTING_LINECODE
                                      else CH340_APPLICATION_READY_CHECK) w
              | None \<Rightarrow> w)
     | CH340_APPLICATION_SETTING_LINECODE \<Rightarrow>
         let w = set_app_state p CH340_APPLICATION_SETTING_LINECODE w;
             (st, w) = USBH_CDC_SetLineCoding p (LcCdc (cdc_ptr p w)) w
         in Some (count, if st = USBH_OK then app_put E p CH340_APPLICATION_RUNNING w else w)
     | CH340_APPLICATION_RUNNING \<Rightarrow>
         let w = set_app_state p CH340_APPLICATION_RUNNING w
         in if cdc_state (cdc_get p w) = CDC_IDLE_STATE then
              let w = clear_recv p w
              in send_loop E p count (snd (USBH_CDC_Receive p (BApp (app_data (hosts w p)) 0) 128 w))
            else Some (count, app_put E p CH340_APPLICATION_RUNNING w)
     | _ \<Rightarrow> Some s)"

text \<open>\<open>osMessageGet\<close> with \<open>osWaitForever\<close>: the other tasks run until there is a message.\<close>

partial_function (option) wait_message ::
  "(usb \<Rightarrow> usb) \<Rightarrow> ptr \<Rightarrow> usb \<Rightarrow> (ApplicationTypeDef \<times> usb) option" where
  "wait_message E p w =
    (case AppliEvent (app_get p w) of
       [] \<Rightarrow> wait_message E p (E w)
     | v # vs \<Rightarrow> Some (v, upd_app p (\<lambda>a. a\<lparr>AppliEvent := vs\<rparr>) w))"

partial_function (option) app_loop :: "(usb \<Rightarrow> usb) \<Rightarrow> ptr \<Rightarrow> u32 \<times> usb \<Rightarrow> (u32 \<times> usb) option" where
  "app_loop E p s =
    (let (count, w) = s
     in if g_stop_flag (app_get p w) = 0 \<or> Appli_state (app_get p w) \<noteq> CH340_APPLICATION_DISCONNECT then
          do {
            (v, w) \<leftarrow> wait_message E p w;
            s \<leftarrow> app_event E p v (count, w);
            app_loop E p s
          }
        else Some s)"

definition Start_CH340_Application_Thread :: "(usb \<Rightarrow> usb) \<Rightarrow> ptr \<Rightarrow> usb \<Rightarrow> usb option" where
  "Start_CH340_Application_Thread E p w =
    (if p = NULL \<or> app_data (hosts w p) = NULL then None
     else
       do {
         (_, w) \<leftarrow> app_loop E p (0, w);
         (_, w) \<leftarrow> delete_CH340_Application p w;
         Some w
       })"

end
