(* ===== verification/Usb_MSC.thy ===== *)
theory Usb_MSC
  imports Usb_Core
begin

text \<open>
  The mass storage driver (usbh\_msc.c, usbh\_msc\_bot.c, usbh\_msc\_scsi.c): the bulk-only transport, which
  sends a command block, moves the data and receives a status block; the SCSI commands that fill the
  command block; the class functions, which find out what units there are; and the functions the
  application calls to read and write sectors. The driver's handle is \<open>pActiveClass->pData\<close>: one pointer
  for all devices of the class. Every function reads the pointer when it starts and keeps it.
\<close>

section \<open>The driver's data\<close>

definition msc_ptr :: "ptr \<Rightarrow> usb \<Rightarrow> ptr" where
  "msc_ptr p w = (case pActiveClass (hosts w p) of Some c \<Rightarrow> class_pData w c | None \<Rightarrow> NULL)"

definition msc_at :: "ptr \<Rightarrow> usb \<Rightarrow> MSC_HandleTypeDef" where
  "msc_at q w = (case cdata w q of MscData m \<Rightarrow> m | _ \<Rightarrow> zero_msc)"

text \<open>A handle that is null is a fault; nothing is written to it.\<close>

definition chk_msc :: "ptr \<Rightarrow> usb \<Rightarrow> usb" where
  "chk_msc q w = chk (case cdata w q of MscData m \<Rightarrow> True | _ \<Rightarrow> False) Null_ClassData w"

definition upd_msc :: "ptr \<Rightarrow> (MSC_HandleTypeDef \<Rightarrow> MSC_HandleTypeDef) \<Rightarrow> usb \<Rightarrow> usb" where
  "upd_msc q f w =
    (case cdata w q of
       MscData m \<Rightarrow> w\<lparr>cdata := (cdata w)(q := MscData (f m))\<rparr>
     | _ \<Rightarrow> chk False Null_ClassData w)"

abbreviation upd_bot :: "ptr \<Rightarrow> (BOT_HandleTypeDef \<Rightarrow> BOT_HandleTypeDef) \<Rightarrow> usb \<Rightarrow> usb" where
  "upd_bot q f \<equiv> upd_msc q (hbot_update f)"

abbreviation bot_at :: "ptr \<Rightarrow> usb \<Rightarrow> BOT_HandleTypeDef" where
  "bot_at q w \<equiv> hbot (msc_at q w)"

definition set_bot :: "ptr \<Rightarrow> BOT_StateTypeDef \<Rightarrow> usb \<Rightarrow> usb" where
  "set_bot q st w = upd_bot q (\<lambda>b. b\<lparr>bot_state := st\<rparr>) w"

text \<open>\<open>unit[i]\<close>: an index past the two units is a fault.\<close>

definition unit_at :: "ptr \<Rightarrow> nat \<Rightarrow> usb \<Rightarrow> MSC_LUNTypeDef" where
  "unit_at q i w = (let u = msc_unit (msc_at q w) in if i < length u then u ! i else zero_lun)"

definition chk_unit :: "ptr \<Rightarrow> nat \<Rightarrow> usb \<Rightarrow> usb" where
  "chk_unit q i w = chk (i < length (msc_unit (msc_at q w))) (OOB_Unit i) w"

definition upd_unit :: "ptr \<Rightarrow> nat \<Rightarrow> (MSC_LUNTypeDef \<Rightarrow> MSC_LUNTypeDef) \<Rightarrow> usb \<Rightarrow> usb" where
  "upd_unit q i f w =
    chk_unit q i (upd_msc q (\<lambda>m. m\<lparr>msc_unit := (msc_unit m)[i := f (msc_unit m ! i)]\<rparr>) w)"

definition set_lun :: "ptr \<Rightarrow> nat \<Rightarrow> MSC_StateTypeDef \<Rightarrow> usb \<Rightarrow> usb" where
  "set_lun q i st w = upd_unit q i (\<lambda>u. u\<lparr>lun_state := st\<rparr>) w"

definition set_lun_error :: "ptr \<Rightarrow> nat \<Rightarrow> MSC_ErrorTypeDef \<Rightarrow> usb \<Rightarrow> usb" where
  "set_lun_error q i e w = upd_unit q i (\<lambda>u. u\<lparr>lun_error := e\<rparr>) w"

text \<open>The byte \<open>pbuf[i]\<close>, in the driver's own data words or in other memory.\<close>

definition buf_mem :: "usb \<Rightarrow> buf_ptr \<Rightarrow> u8 list" where
  "buf_mem w b =
    (case b of
       BBot q k \<Rightarrow> drop k (bot_data (bot_at q w))
     | BMem q k \<Rightarrow> drop k (bytes w q)
     | _ \<Rightarrow> [])"

definition buf_byte :: "usb \<Rightarrow> buf_ptr \<Rightarrow> nat \<Rightarrow> u8" where
  "buf_byte w b i = rd8 (buf_mem w b) i"

definition chk_buf :: "buf_ptr \<Rightarrow> nat \<Rightarrow> usb \<Rightarrow> usb" where
  "chk_buf b i w = chk (i < length (buf_mem w b)) (OOB_Buffer b i) w"

abbreviation (input) urb_event :: "usb \<Rightarrow> usb" where
  "urb_event \<equiv> osMessagePut USBH_URB_EVENT"

abbreviation (input) msc_event :: "usb \<Rightarrow> usb" where
  "msc_event \<equiv> osMessagePut USBH_CLASS_EVENT"

section \<open>The bulk-only transport\<close>

text \<open>The bytes of the command block as they lie in the union.\<close>

definition cbw_data :: "BOT_CBWTypeDef \<Rightarrow> u8 list" where
  "cbw_data c = le32_bytes (cbw_Signature c) @ le32_bytes (cbw_Tag c) @ le32_bytes (cbw_DataTransferLength c)
     @ [cbw_Flags c, cbw_LUN c, cbw_CBLength c] @ cbw_CB c"

definition USBH_MSC_BOT_REQ_Reset :: "(usb \<Rightarrow> usb) \<Rightarrow> ptr \<Rightarrow> usb \<Rightarrow> USBH_StatusTypeDef \<times> usb" where
  "USBH_MSC_BOT_REQ_Reset E p w = USBH_CtlReq E p BNull 0 (put_setup p 0x21 0xFF 0 0 0 w)"

definition USBH_MSC_BOT_REQ_GetMaxLUN :: "(usb \<Rightarrow> usb) \<Rightarrow> ptr \<Rightarrow> buf_ptr \<Rightarrow> usb \<Rightarrow> USBH_StatusTypeDef \<times> usb" where
  "USBH_MSC_BOT_REQ_GetMaxLUN E p Maxlun w = USBH_CtlReq E p Maxlun 1 (put_setup p 0xA1 0xFE 0 0 1 w)"

definition USBH_MSC_BOT_Init :: "ptr \<Rightarrow> usb \<Rightarrow> USBH_StatusTypeDef \<times> usb" where
  "USBH_MSC_BOT_Init p w =
    (USBH_OK, upd_bot (msc_ptr p w) (\<lambda>b. b\<lparr>cbw := (cbw b)\<lparr>cbw_Signature := 0x43425355, cbw_Tag := 0x20304050\<rparr>,
       bot_state := BOT_SEND_CBW, bot_cmd_state := BOT_CMD_SEND\<rparr>) w)"

text \<open>The direction is 0 for the IN and 1 for the OUT endpoint.\<close>

definition USBH_MSC_BOT_Abort ::
  "(usb \<Rightarrow> usb) \<Rightarrow> ptr \<Rightarrow> u8 \<Rightarrow> nat \<Rightarrow> usb \<Rightarrow> USBH_StatusTypeDef \<times> usb" where
  "USBH_MSC_BOT_Abort E p lun dir w =
    (let m = msc_at (msc_ptr p w) w
     in if dir = 0 then USBH_ClrFeature E p (msc_InEp m) w
        else if dir = 1 then USBH_ClrFeature E p (msc_OutEp m) w
        else (USBH_FAIL, w))"

definition USBH_MSC_DecodeCSW :: "ptr \<Rightarrow> usb \<Rightarrow> BOT_CSWStatusTypeDef" where
  "USBH_MSC_DecodeCSW p w =
    (let m = msc_at (msc_ptr p w) w; s = csw (hbot m); status = rd8 s 12
     in if USBH_LL_GetLastXferSize p (msc_InPipe m) w \<noteq> 13 then BOT_CSW_PHASE_ERROR
        else if LE32 s 0 = 0x53425355 then
          if LE32 s 4 = cbw_Tag (cbw (hbot m)) then
            if status = 0 then BOT_CSW_CMD_PASSED
            else if status = 1 then BOT_CSW_CMD_FAILED
            else if status = 2 then BOT_CSW_PHASE_ERROR
            else BOT_CSW_CMD_FAILED
          else BOT_CSW_CMD_FAILED
        else BOT_CSW_PHASE_ERROR)"

text \<open>
  The length and the pointer after a packet. Both directions ask for or send a whole packet even when
  less is left.
\<close>

definition advance_bot :: "u16 \<Rightarrow> BOT_HandleTypeDef \<Rightarrow> BOT_HandleTypeDef" where
  "advance_bot mps b =
    (if cbw_DataTransferLength (cbw b) > ucast mps
     then b\<lparr>bot_pbuf := buf_add (bot_pbuf b) (unat mps),
            cbw := (cbw b)\<lparr>cbw_DataTransferLength := cbw_DataTransferLength (cbw b) - ucast mps\<rparr>\<rparr>
     else b\<lparr>cbw := (cbw b)\<lparr>cbw_DataTransferLength := 0\<rparr>\<rparr>)"

definition bot_receive :: "ptr \<Rightarrow> ptr \<Rightarrow> usb \<Rightarrow> usb" where
  "bot_receive p q w =
    (let m = msc_at q w
     in snd (USBH_BulkReceiveData p (bot_pbuf (hbot m)) (msc_InEpSize m) (msc_InPipe m) w))"

definition bot_send :: "ptr \<Rightarrow> ptr \<Rightarrow> usb \<Rightarrow> usb" where
  "bot_send p q w =
    (let m = msc_at q w
     in snd (USBH_BulkSendData p (bot_pbuf (hbot m)) (msc_OutEpSize m) (msc_OutPipe m) 1 w))"

definition bot_cbw_wait :: "(usb \<Rightarrow> usb) \<Rightarrow> ptr \<Rightarrow> ptr \<Rightarrow> usb \<Rightarrow> usb" where
  "bot_cbw_wait E p q w =
    (let (urb, w) = USBH_LL_GetURBState E p (msc_OutPipe (msc_at q w)) w;
         c = cbw (bot_at q w)
     in if urb = USBH_URB_DONE then
          urb_event (set_bot q
            (if cbw_DataTransferLength c \<noteq> 0
             then if cbw_Flags c AND 0x80 = 0x80 then BOT_DATA_IN else BOT_DATA_OUT
             else BOT_RECEIVE_CSW) w)
        else if urb = USBH_URB_NOTREADY then urb_event (set_bot q BOT_SEND_CBW w)
        else if urb = USBH_URB_STALL then urb_event (set_bot q BOT_ERROR_OUT w)
        else w)"

definition bot_data_in_wait :: "(usb \<Rightarrow> usb) \<Rightarrow> ptr \<Rightarrow> ptr \<Rightarrow> usb \<Rightarrow> usb" where
  "bot_data_in_wait E p q w =
    (let (urb, w) = USBH_LL_GetURBState E p (msc_InPipe (msc_at q w)) w
     in if urb = USBH_URB_DONE then
          let w = upd_bot q (advance_bot (msc_InEpSize (msc_at q w))) w
          in if cbw_DataTransferLength (cbw (bot_at q w)) > 0 then bot_receive p q w
             else urb_event (set_bot q BOT_RECEIVE_CSW w)
        else if urb = USBH_URB_STALL then urb_event (set_bot q BOT_ERROR_IN w)
        else w)"

definition bot_data_out_wait :: "(usb \<Rightarrow> usb) \<Rightarrow> ptr \<Rightarrow> ptr \<Rightarrow> usb \<Rightarrow> usb" where
  "bot_data_out_wait E p q w =
    (let (urb, w) = USBH_LL_GetURBState E p (msc_OutPipe (msc_at q w)) w
     in if urb = USBH_URB_DONE then
          let w = upd_bot q (advance_bot (msc_OutEpSize (msc_at q w))) w
          in urb_event
               (if cbw_DataTransferLength (cbw (bot_at q w)) > 0 then bot_send p q w
                else set_bot q BOT_RECEIVE_CSW w)
        else if urb = USBH_URB_NOTREADY then urb_event (set_bot q BOT_DATA_OUT w)
        else if urb = USBH_URB_STALL then urb_event (set_bot q BOT_ERROR_OUT w)
        else w)"

definition bot_csw_wait :: "(usb \<Rightarrow> usb) \<Rightarrow> ptr \<Rightarrow> ptr \<Rightarrow> usb \<Rightarrow> USBH_StatusTypeDef \<times> usb" where
  "bot_csw_wait E p q w =
    (let (urb, w) = USBH_LL_GetURBState E p (msc_InPipe (msc_at q w)) w
     in if urb = USBH_URB_DONE then
          let w = upd_bot q (\<lambda>b. b\<lparr>bot_state := BOT_SEND_CBW, bot_cmd_state := BOT_CMD_SEND\<rparr>) w
          in (if USBH_MSC_DecodeCSW p w = BOT_CSW_CMD_PASSED then USBH_OK else USBH_FAIL, urb_event w)
        else if urb = USBH_URB_STALL then (USBH_BUSY, urb_event (set_bot q BOT_ERROR_IN w))
        else (USBH_BUSY, w))"

definition bot_error_in :: "(usb \<Rightarrow> usb) \<Rightarrow> ptr \<Rightarrow> u8 \<Rightarrow> ptr \<Rightarrow> usb \<Rightarrow> usb" where
  "bot_error_in E p lun q w =
    (let (error, w) = USBH_MSC_BOT_Abort E p lun 0 w
     in if error = USBH_OK then set_bot q BOT_RECEIVE_CSW w
        else if error = USBH_UNRECOVERED_ERROR then set_bot q BOT_UNRECOVERED_ERROR w
        else w)"

definition bot_error_out :: "(usb \<Rightarrow> usb) \<Rightarrow> ptr \<Rightarrow> u8 \<Rightarrow> ptr \<Rightarrow> usb \<Rightarrow> usb" where
  "bot_error_out E p lun q w =
    (let (error, w) = USBH_MSC_BOT_Abort E p lun 1 w
     in if error = USBH_OK then
          let m = msc_at q w;
              toggle = USBH_LL_GetToggle p (msc_OutPipe m) w;
              w = snd (USBH_LL_SetToggle p (msc_OutPipe m) (1 - toggle) w);
              w = snd (USBH_LL_SetToggle p (msc_InPipe m) 0 w)
          in set_bot q BOT_ERROR_IN w
        else if error = USBH_UNRECOVERED_ERROR then set_bot q BOT_UNRECOVERED_ERROR w
        else w)"

definition USBH_MSC_BOT_Process ::
  "(usb \<Rightarrow> usb) \<Rightarrow> ptr \<Rightarrow> u8 \<Rightarrow> usb \<Rightarrow> USBH_StatusTypeDef \<times> usb" where
  "USBH_MSC_BOT_Process E p lun w =
    (let q = msc_ptr p w; w = chk_msc q w
     in case bot_state (bot_at q w) of
       BOT_SEND_CBW \<Rightarrow>
         let w = upd_bot q (\<lambda>b. b\<lparr>cbw := (cbw b)\<lparr>cbw_LUN := lun\<rparr>, bot_state := BOT_SEND_CBW_WAIT\<rparr>) w
         in (USBH_BUSY, snd (USBH_BulkSendData p (BCbw q) 31 (msc_OutPipe (msc_at q w)) 1 w))
     | BOT_SEND_CBW_WAIT \<Rightarrow> (USBH_BUSY, bot_cbw_wait E p q w)
     | BOT_DATA_IN \<Rightarrow> (USBH_BUSY, set_bot q BOT_DATA_IN_WAIT (bot_receive p q w))
     | BOT_DATA_IN_WAIT \<Rightarrow> (USBH_BUSY, bot_data_in_wait E p q w)
     | BOT_DATA_OUT \<Rightarrow> (USBH_BUSY, set_bot q BOT_DATA_OUT_WAIT (bot_send p q w))
     | BOT_DATA_OUT_WAIT \<Rightarrow> (USBH_BUSY, bot_data_out_wait E p q w)
     | BOT_RECEIVE_CSW \<Rightarrow>
         (USBH_BUSY, set_bot q BOT_RECEIVE_CSW_WAIT
            (snd (USBH_BulkReceiveData p (BCsw q) 13 (msc_InPipe (msc_at q w)) w)))
     | BOT_RECEIVE_CSW_WAIT \<Rightarrow> bot_csw_wait E p q w
     | BOT_ERROR_IN \<Rightarrow> (USBH_BUSY, bot_error_in E p lun q w)
     | BOT_ERROR_OUT \<Rightarrow> (USBH_BUSY, bot_error_out E p lun q w)
     | BOT_UNRECOVERED_ERROR \<Rightarrow>
         let (status, w) = USBH_MSC_BOT_REQ_Reset E p w
         in (status, if status = USBH_OK then set_bot q BOT_SEND_CBW w else w))"

end
