(* ===== verification/Usb_SCSI.thy ===== *)
theory Usb_SCSI
  imports Usb_MSC
begin

text \<open>
  The SCSI commands of usbh\_msc\_scsi.c. A command fills the command block when the transport has none
  under way, runs the transport until the status block is there, and then reads its answer out of the
  data buffer. The structure the answer goes to is a function \<open>store\<close> that writes it.
\<close>

section \<open>The two states of a command\<close>

text \<open>
  What the functions share: \<open>prep\<close> fills the command block, \<open>post\<close> reads the answer, \<open>err\<close> is the value
  of \<open>error\<close> before the switch.
\<close>

definition scsi_command ::
  "(usb \<Rightarrow> usb) \<Rightarrow> ptr \<Rightarrow> u8 \<Rightarrow> USBH_StatusTypeDef \<Rightarrow> (BOT_HandleTypeDef \<Rightarrow> BOT_HandleTypeDef)
     \<Rightarrow> (ptr \<Rightarrow> usb \<Rightarrow> usb) \<Rightarrow> usb \<Rightarrow> USBH_StatusTypeDef \<times> usb" where
  "scsi_command E p lun err prep post w =
    (let q = msc_ptr p w; w = chk_msc q w
     in case bot_cmd_state (bot_at q w) of
       BOT_CMD_SEND \<Rightarrow> (USBH_BUSY, upd_bot q prep w)
     | BOT_CMD_WAIT \<Rightarrow>
         let (error, w) = USBH_MSC_BOT_Process E p lun w
         in (error, if error = USBH_OK then post q w else w)
     | BOT_CMD_IDLE \<Rightarrow> (err, w))"

text \<open>The members of the command block every command sets, with the block's bytes \<open>cb\<close>.\<close>

definition fill_cbw :: "u32 \<Rightarrow> u8 \<Rightarrow> u8 list \<Rightarrow> BOT_HandleTypeDef \<Rightarrow> BOT_HandleTypeDef" where
  "fill_cbw n flags cb b =
     b\<lparr>cbw := (cbw b)\<lparr>cbw_DataTransferLength := n, cbw_Flags := flags, cbw_CBLength := 10, cbw_CB := cb\<rparr>,
       bot_state := BOT_SEND_CBW, bot_cmd_state := BOT_CMD_WAIT\<rparr>"

text \<open>\<open>hbot.pbuf = hbot.data\<close>\<close>

definition own_data :: "ptr \<Rightarrow> BOT_HandleTypeDef \<Rightarrow> BOT_HandleTypeDef" where
  "own_data q b = b\<lparr>bot_pbuf := BBot q 0\<rparr>"

abbreviation (input) OPCODE_TEST_UNIT_READY :: u8 where "OPCODE_TEST_UNIT_READY \<equiv> 0x00"
abbreviation (input) OPCODE_READ_CAPACITY10 :: u8 where "OPCODE_READ_CAPACITY10 \<equiv> 0x25"
abbreviation (input) OPCODE_READ10 :: u8 where "OPCODE_READ10 \<equiv> 0x28"
abbreviation (input) OPCODE_WRITE10 :: u8 where "OPCODE_WRITE10 \<equiv> 0x2A"
abbreviation (input) OPCODE_REQUEST_SENSE :: u8 where "OPCODE_REQUEST_SENSE \<equiv> 0x03"
abbreviation (input) OPCODE_INQUIRY :: u8 where "OPCODE_INQUIRY \<equiv> 0x12"

section \<open>The commands\<close>

definition USBH_MSC_SCSI_TestUnitReady ::
  "(usb \<Rightarrow> usb) \<Rightarrow> ptr \<Rightarrow> u8 \<Rightarrow> usb \<Rightarrow> USBH_StatusTypeDef \<times> usb" where
  "USBH_MSC_SCSI_TestUnitReady E p lun w =
     scsi_command E p lun USBH_FAIL (fill_cbw 0 0 ((replicate 16 0)[0 := OPCODE_TEST_UNIT_READY])) (\<lambda>q w. w) w"

definition read_capacity :: "ptr \<Rightarrow> usb \<Rightarrow> SCSI_CapacityTypeDef" where
  "read_capacity q w =
    (let b = buf_byte w (bot_pbuf (bot_at q w))
     in \<lparr>block_nbr = ucast (b 3) OR push_bit 8 (ucast (b 2)) OR push_bit 16 (ucast (b 1)) OR push_bit 24 (ucast (b 0)),
         block_size = ucast (b 7) OR push_bit 8 (ucast (b 6))\<rparr>)"

definition USBH_MSC_SCSI_ReadCapacity ::
  "(usb \<Rightarrow> usb) \<Rightarrow> ptr \<Rightarrow> u8 \<Rightarrow> (SCSI_CapacityTypeDef \<Rightarrow> usb \<Rightarrow> usb) \<Rightarrow> usb \<Rightarrow> USBH_StatusTypeDef \<times> usb" where
  "USBH_MSC_SCSI_ReadCapacity E p lun store w =
     scsi_command E p lun USBH_BUSY
       (\<lambda>b. own_data (msc_ptr p w) (fill_cbw 8 0x80 ((replicate 16 0)[0 := OPCODE_READ_CAPACITY10]) b))
       (\<lambda>q w. store (read_capacity q w) (chk_buf (bot_pbuf (bot_at q w)) 7 w)) w"

definition read_inquiry :: "ptr \<Rightarrow> usb \<Rightarrow> SCSI_StdInquiryDataTypeDef" where
  "read_inquiry q w =
    (let b = buf_byte w (bot_pbuf (bot_at q w))
     in \<lparr>PeripheralQualifier = drop_bit 5 (b 0), DeviceType = b 0 AND 0x1F,
         RemovableMedia = (if b 1 AND 0x80 = 0x80 then 1 else 0),
         vendor_id = map b [8..<16] @ [0], product_id = map b [16..<32] @ [0], revision_id = map b [32..<36] @ [0]\<rparr>)"

text \<open>Only the first ten bytes of the command block are cleared here.\<close>

definition USBH_MSC_SCSI_Inquiry ::
  "(usb \<Rightarrow> usb) \<Rightarrow> ptr \<Rightarrow> u8 \<Rightarrow> (SCSI_StdInquiryDataTypeDef \<Rightarrow> usb \<Rightarrow> usb) \<Rightarrow> usb \<Rightarrow> USBH_StatusTypeDef \<times> usb" where
  "USBH_MSC_SCSI_Inquiry E p lun store w =
     scsi_command E p lun USBH_FAIL
       (\<lambda>b. own_data (msc_ptr p w) (fill_cbw 36 0x80
          ([OPCODE_INQUIRY, push_bit 5 lun, 0, 0, 0x24, 0, 0, 0, 0, 0] @ drop 10 (cbw_CB (cbw b))) b))
       (\<lambda>q w. store (read_inquiry q w) (chk_buf (bot_pbuf (bot_at q w)) 35 w)) w"

definition read_sense :: "ptr \<Rightarrow> usb \<Rightarrow> SCSI_SenseTypeDef" where
  "read_sense q w =
    (let b = buf_byte w (bot_pbuf (bot_at q w))
     in \<lparr>sense_key = b 2 AND 0x0F, sense_asc = b 12, sense_ascq = b 13\<rparr>)"

definition USBH_MSC_SCSI_RequestSense ::
  "(usb \<Rightarrow> usb) \<Rightarrow> ptr \<Rightarrow> u8 \<Rightarrow> (SCSI_SenseTypeDef \<Rightarrow> usb \<Rightarrow> usb) \<Rightarrow> usb \<Rightarrow> USBH_StatusTypeDef \<times> usb" where
  "USBH_MSC_SCSI_RequestSense E p lun store w =
     scsi_command E p lun USBH_FAIL
       (\<lambda>b. own_data (msc_ptr p w) (fill_cbw 14 0x80
          ((replicate 16 0)[0 := OPCODE_REQUEST_SENSE, 1 := push_bit 5 lun, 4 := 14]) b))
       (\<lambda>q w. store (read_sense q w) (chk_buf (bot_pbuf (bot_at q w)) 13 w)) w"

text \<open>
  The block of a read or write: the address with its high byte first, and the low sixteen bits of the
  number of sectors. The data length is that number times 512 in 32 bits.
\<close>

definition rw_block :: "u8 \<Rightarrow> u32 \<Rightarrow> u32 \<Rightarrow> u8 list" where
  "rw_block opcode blk len =
     (replicate 16 0)[0 := opcode,
        2 := ucast (drop_bit 24 blk), 3 := ucast (drop_bit 16 blk),
        4 := ucast (drop_bit 8 blk), 5 := ucast blk,
        7 := ucast (drop_bit 8 len), 8 := ucast len]"

definition USBH_MSC_SCSI_Write ::
  "(usb \<Rightarrow> usb) \<Rightarrow> ptr \<Rightarrow> u8 \<Rightarrow> u32 \<Rightarrow> buf_ptr \<Rightarrow> u32 \<Rightarrow> usb \<Rightarrow> USBH_StatusTypeDef \<times> usb" where
  "USBH_MSC_SCSI_Write E p lun blk pbuf len w =
     scsi_command E p lun USBH_FAIL
       (\<lambda>b. (fill_cbw (len * 512) 0 (rw_block OPCODE_WRITE10 blk len) b)\<lparr>bot_pbuf := pbuf\<rparr>) (\<lambda>q w. w) w"

definition USBH_MSC_SCSI_Read ::
  "(usb \<Rightarrow> usb) \<Rightarrow> ptr \<Rightarrow> u8 \<Rightarrow> u32 \<Rightarrow> buf_ptr \<Rightarrow> u32 \<Rightarrow> usb \<Rightarrow> USBH_StatusTypeDef \<times> usb" where
  "USBH_MSC_SCSI_Read E p lun blk pbuf len w =
     scsi_command E p lun USBH_FAIL
       (\<lambda>b. (fill_cbw (len * 512) 0x80 (rw_block OPCODE_READ10 blk len) b)\<lparr>bot_pbuf := pbuf\<rparr>) (\<lambda>q w. w) w"

end
