(* ===== verification/Usb_MSC_Class.thy ===== *)
theory Usb_MSC_Class
  imports Usb_SCSI
begin

text \<open>
  The class functions of usbh\_msc.c: the interface and its two channels, the number of units, the
  state machine that asks every unit what it is and whether it is ready, and the functions that read
  and write sectors, which wait in a loop until the command is over or has taken too long.
\<close>

section \<open>The interface\<close>

definition msc_endpoint :: "USBH_EpDescTypeDef \<Rightarrow> MSC_HandleTypeDef \<Rightarrow> MSC_HandleTypeDef" where
  "msc_endpoint ep m =
    (if bEndpointAddress ep AND 0x80 \<noteq> 0
     then m\<lparr>msc_InEp := bEndpointAddress ep, msc_InEpSize := wMaxPacketSize ep\<rparr>
     else m\<lparr>msc_OutEp := bEndpointAddress ep, msc_OutEpSize := wMaxPacketSize ep\<rparr>)"

text \<open>The memory of the handle is not cleared; the pointer of the class is replaced.\<close>

definition new_msc :: "ptr \<Rightarrow> usb \<Rightarrow> ptr \<times> usb" where
  "new_msc p w =
    (let (q, w) = malloc w;
         w = (case pActiveClass (hosts w p) of
                Some c \<Rightarrow> w\<lparr>class_pData := (class_pData w)(c := q)\<rparr>
              | None \<Rightarrow> chk False Null_Class w);
         w = chk (q \<noteq> NULL) Null_ClassData w
     in (q, if q \<noteq> NULL then w\<lparr>cdata := (cdata w)(q := MscData (msc_junk w))\<rparr> else w))"

definition open_bulk_pipe :: "ptr \<Rightarrow> u8 \<Rightarrow> u8 \<Rightarrow> u16 \<Rightarrow> usb \<Rightarrow> usb" where
  "open_bulk_pipe p pipe ep mps w =
     snd (USBH_OpenPipe p pipe ep (dev_address (device (hosts w p))) (dev_speed (device (hosts w p)))
            USBH_EP_BULK mps w)"

text \<open>The two endpoints of the interface and a channel for each.\<close>

definition msc_configure :: "ptr \<Rightarrow> ptr \<Rightarrow> usb \<Rightarrow> usb" where
  "msc_configure p q w =
    (let i = unat (current_interface (device (hosts w p)));
         eps = Ep_Desc (itf_desc p w i);
         w = chk_itf p i w;
         w = upd_msc q (msc_endpoint (eps ! 0)) w;
         w = upd_msc q (msc_endpoint (eps ! 1)) w;
         w = upd_msc q (\<lambda>m. m\<lparr>current_lun := 0, rw_lun := 0, msc_state := MSC_INIT, msc_error := MSC_OK,
                               req_state := MSC_REQ_IDLE\<rparr>) w;
         (c, w) = USBH_AllocPipe p (msc_OutEp (msc_at q w)) w;
         w = upd_msc q (\<lambda>m. m\<lparr>msc_OutPipe := c\<rparr>) w;
         (c, w) = USBH_AllocPipe p (msc_InEp (msc_at q w)) w
     in upd_msc q (\<lambda>m. m\<lparr>msc_InPipe := c\<rparr>) w)"

definition msc_open_pipes :: "ptr \<Rightarrow> ptr \<Rightarrow> usb \<Rightarrow> usb" where
  "msc_open_pipes p q w =
    (let m = msc_at q w;
         w = open_bulk_pipe p (msc_OutPipe m) (msc_OutEp m) (msc_OutEpSize m) w;
         w = open_bulk_pipe p (msc_InPipe m) (msc_InEp m) (msc_InEpSize m) w;
         w = snd (USBH_LL_SetToggle p (msc_InPipe m) 0 w)
     in snd (USBH_LL_SetToggle p (msc_OutPipe m) 0 w))"

definition USBH_MSC_InterfaceInit :: "ptr \<Rightarrow> usb \<Rightarrow> USBH_StatusTypeDef \<times> usb" where
  "USBH_MSC_InterfaceInit p w =
    (let code = (case pActiveClass (hosts w p) of Some c \<Rightarrow> ClassCode c | None \<Rightarrow> 0);
         w = chk (pActiveClass (hosts w p) \<noteq> None) Null_Class w;
         itf = USBH_FindInterface p code 0x06 0x50 w
     in if itf = 0xFF then (USBH_FAIL, w)
        else
          let w = snd (USBH_SelectInterface p itf w);
              (q, w) = new_msc p w;
              w = msc_configure p q w;
              w = snd (USBH_MSC_BOT_Init p w);
              w = upd_msc q (\<lambda>m. m\<lparr>msc_unit := replicate 2 zero_lun\<rparr>) w
          in (USBH_OK, msc_open_pipes p q w))"

definition drop_msc_pipe ::
  "ptr \<Rightarrow> ptr \<Rightarrow> u8 \<Rightarrow> (MSC_HandleTypeDef \<Rightarrow> MSC_HandleTypeDef) \<Rightarrow> usb \<Rightarrow> usb" where
  "drop_msc_pipe p q c reset w =
    (if c \<noteq> 0 then upd_msc q reset (snd (USBH_FreePipe p c (snd (USBH_ClosePipe p c w)))) else w)"

text \<open>The handle itself is not freed: the code that would do so is in a comment.\<close>

definition USBH_MSC_InterfaceDeInit :: "ptr \<Rightarrow> usb \<Rightarrow> USBH_StatusTypeDef \<times> usb" where
  "USBH_MSC_InterfaceDeInit p w =
    (let q = msc_ptr p w;
         w = chk_msc q w;
         w = drop_msc_pipe p q (msc_OutPipe (msc_at q w)) (\<lambda>m. m\<lparr>msc_OutPipe := 0\<rparr>) w;
         w = drop_msc_pipe p q (msc_InPipe (msc_at q w)) (\<lambda>m. m\<lparr>msc_InPipe := 0\<rparr>) w
     in (USBH_OK, snd (USBH_Free_One_Address p w)))"

section \<open>The number of units\<close>

text \<open>The loop counts with eight bits up to a bound of 32 bits.\<close>

partial_function (option) lun_loop :: "ptr \<Rightarrow> u8 \<Rightarrow> usb \<Rightarrow> usb option" where
  "lun_loop q i w =
    (if ucast i < max_lun (msc_at q w)
     then lun_loop q (i + 1) (upd_unit q (unat i) (\<lambda>u. u\<lparr>prev_ready_state := USBH_FAIL, state_changed := 0\<rparr>) w)
     else Some w)"

definition USBH_MSC_ClassRequest :: "(usb \<Rightarrow> usb) \<Rightarrow> ptr \<Rightarrow> usb \<Rightarrow> (USBH_StatusTypeDef \<times> usb) option" where
  "USBH_MSC_ClassRequest E p w =
    (let q = msc_ptr p w; w = chk_msc q w
     in if req_state (msc_at q w) = MSC_REQ_IDLE \<or> req_state (msc_at q w) = MSC_REQ_GET_MAX_LUN then
          let (status, w) = USBH_MSC_BOT_REQ_GetMaxLUN E p (BMaxLun q) w;
              (status, w) = (if status = USBH_NOT_SUPPORTED then (USBH_OK, upd_msc q (\<lambda>m. m\<lparr>max_lun := 0\<rparr>) w)
                             else (status, w))
          in if status = USBH_OK then
               map_option (\<lambda>w. (status, w))
                 (lun_loop q 0 (upd_msc q (\<lambda>m. m\<lparr>max_lun := ucast (ucast (max_lun m) :: u8) + 1\<rparr>) w))
             else Some (status, w)
        else if req_state (msc_at q w) = MSC_REQ_ERROR then
          let (status, w) = USBH_ClrFeature E p 0 w
          in Some (USBH_BUSY,
               if status = USBH_OK then upd_msc q (\<lambda>m. m\<lparr>req_state := prev_req_state m\<rparr>) w else w)
        else Some (USBH_BUSY, w))"

section \<open>The state machine of the units\<close>

definition cur :: "ptr \<Rightarrow> usb \<Rightarrow> nat" where
  "cur q w = unat (current_lun (msc_at q w))"

definition next_lun :: "ptr \<Rightarrow> usb \<Rightarrow> usb" where
  "next_lun q w = upd_msc q (\<lambda>m. m\<lparr>current_lun := current_lun m + 1\<rparr>) w"

text \<open>What the states do when a command cannot be recovered.\<close>

definition lun_given_up :: "ptr \<Rightarrow> usb \<Rightarrow> usb" where
  "lun_given_up q w = set_lun_error q (cur q w) MSC_ERROR (set_lun q (cur q w) MSC_IDLE w)"

definition lun_inquiry_step :: "(usb \<Rightarrow> usb) \<Rightarrow> ptr \<Rightarrow> ptr \<Rightarrow> usb \<Rightarrow> usb" where
  "lun_inquiry_step E p q w =
    (let i = cur q w;
         (st, w) = USBH_MSC_SCSI_Inquiry E p (of_nat i) (\<lambda>x. upd_unit q i (\<lambda>u. u\<lparr>lun_inquiry := x\<rparr>)) w
     in if st = USBH_OK then set_lun q (cur q w) MSC_TEST_UNIT_READY w
        else if st = USBH_FAIL then set_lun q (cur q w) MSC_REQUEST_SENSE w
        else if st = USBH_UNRECOVERED_ERROR then lun_given_up q w
        else w)"

definition lun_ready_step :: "(usb \<Rightarrow> usb) \<Rightarrow> ptr \<Rightarrow> ptr \<Rightarrow> usb \<Rightarrow> usb" where
  "lun_ready_step E p q w =
    (let (st, w) = USBH_MSC_SCSI_TestUnitReady E p (of_nat (cur q w)) w
     in if st = USBH_OK then
          upd_unit q (cur q w) (\<lambda>u. u\<lparr>state_changed := (if prev_ready_state u \<noteq> USBH_OK then 1 else 0),
            lun_state := MSC_READ_CAPACITY10, lun_error := MSC_OK, prev_ready_state := USBH_OK\<rparr>) w
        else if st = USBH_FAIL then
          upd_unit q (cur q w) (\<lambda>u. u\<lparr>state_changed := (if prev_ready_state u \<noteq> USBH_FAIL then 1 else 0),
            lun_state := MSC_REQUEST_SENSE, lun_error := MSC_NOT_READY, prev_ready_state := USBH_FAIL\<rparr>) w
        else if st = USBH_UNRECOVERED_ERROR then lun_given_up q w
        else w)"

definition lun_capacity_step :: "(usb \<Rightarrow> usb) \<Rightarrow> ptr \<Rightarrow> ptr \<Rightarrow> usb \<Rightarrow> usb" where
  "lun_capacity_step E p q w =
    (let i = cur q w;
         (st, w) = USBH_MSC_SCSI_ReadCapacity E p (of_nat i) (\<lambda>x. upd_unit q i (\<lambda>u. u\<lparr>lun_capacity := x\<rparr>)) w
     in if st = USBH_OK then
          next_lun q (set_lun_error q (cur q w) MSC_OK (set_lun q (cur q w) MSC_IDLE w))
        else if st = USBH_FAIL then set_lun q (cur q w) MSC_REQUEST_SENSE w
        else if st = USBH_UNRECOVERED_ERROR then lun_given_up q w
        else w)"

text \<open>A unit that is not ready yet is asked again for ten seconds.\<close>

definition lun_sense_step :: "(usb \<Rightarrow> usb) \<Rightarrow> ptr \<Rightarrow> ptr \<Rightarrow> usb \<Rightarrow> usb" where
  "lun_sense_step E p q w =
    (let i = cur q w;
         (st, w) = USBH_MSC_SCSI_RequestSense E p (of_nat i) (\<lambda>x. upd_unit q i (\<lambda>u. u\<lparr>lun_sense := x\<rparr>)) w
     in if st = USBH_OK then
          let key = sense_key (lun_sense (unit_at q (cur q w) w))
          in if (key = 0x06 \<or> key = 0x02) \<and> Timer (hosts w p) - msc_timer (msc_at q w) < 10000
             then set_lun q (cur q w) MSC_TEST_UNIT_READY w
             else next_lun q (set_lun q (cur q w) MSC_IDLE w)
        else if st = USBH_FAIL then set_lun q (cur q w) MSC_UNRECOVERED_ERROR w
        else if st = USBH_UNRECOVERED_ERROR then lun_given_up q w
        else w)"

text \<open>A new unit falls through to the inquiry.\<close>

definition lun_step :: "(usb \<Rightarrow> usb) \<Rightarrow> ptr \<Rightarrow> ptr \<Rightarrow> usb \<Rightarrow> usb" where
  "lun_step E p q w =
    (let w = set_lun_error q (cur q w) MSC_NOT_READY w
     in case lun_state (unit_at q (cur q w) w) of
       MSC_INIT \<Rightarrow>
         let w = set_lun q (cur q w) MSC_READ_INQUIRY w;
             w = upd_msc q (\<lambda>m. m\<lparr>msc_timer := Timer (hosts w p)\<rparr>) w
         in lun_inquiry_step E p q w
     | MSC_READ_INQUIRY \<Rightarrow> lun_inquiry_step E p q w
     | MSC_TEST_UNIT_READY \<Rightarrow> lun_ready_step E p q w
     | MSC_READ_CAPACITY10 \<Rightarrow> lun_capacity_step E p q w
     | MSC_REQUEST_SENSE \<Rightarrow> lun_sense_step E p q w
     | MSC_UNRECOVERED_ERROR \<Rightarrow> next_lun q w
     | _ \<Rightarrow> w)"

definition USBH_MSC_Process :: "(usb \<Rightarrow> usb) \<Rightarrow> ptr \<Rightarrow> usb \<Rightarrow> USBH_StatusTypeDef \<times> usb" where
  "USBH_MSC_Process E p w =
    (let q = msc_ptr p w; w = chk_msc q w
     in case msc_state (msc_at q w) of
       MSC_INIT \<Rightarrow>
         if ucast (current_lun (msc_at q w)) < max_lun (msc_at q w) then
           (USBH_BUSY, msc_event (lun_step E p q w))
         else
           (USBH_BUSY, call_user p HOST_USER_CLASS_ACTIVE
              (msc_event (upd_msc q (\<lambda>m. m\<lparr>current_lun := 0, msc_state := MSC_IDLE\<rparr>) w)))
     | MSC_IDLE \<Rightarrow> (USBH_OK, w)
     | _ \<Rightarrow> (USBH_BUSY, w))"

definition USBH_MSC_SOFProcess :: "ptr \<Rightarrow> usb \<Rightarrow> USBH_StatusTypeDef \<times> usb" where
  "USBH_MSC_SOFProcess p w = (USBH_OK, w)"

section \<open>Reading and writing sectors\<close>

text \<open>The state of a unit after a step of a read or a write, by the status of the command.\<close>

definition rw_result :: "ptr \<Rightarrow> nat \<Rightarrow> USBH_StatusTypeDef \<times> usb \<Rightarrow> USBH_StatusTypeDef \<times> usb" where
  "rw_result q lun r =
    (case r of (st, w) \<Rightarrow>
       if st = USBH_OK then (USBH_OK, set_lun q lun MSC_IDLE w)
       else if st = USBH_FAIL then (USBH_BUSY, set_lun q lun MSC_REQUEST_SENSE w)
       else if st = USBH_UNRECOVERED_ERROR then (USBH_FAIL, set_lun q lun MSC_UNRECOVERED_ERROR w)
       else (USBH_BUSY, w))"

definition sense_result :: "ptr \<Rightarrow> nat \<Rightarrow> USBH_StatusTypeDef \<times> usb \<Rightarrow> USBH_StatusTypeDef \<times> usb" where
  "sense_result q lun r =
    (case r of (st, w) \<Rightarrow>
       if st = USBH_OK then (USBH_FAIL, set_lun_error q lun MSC_ERROR (set_lun q lun MSC_IDLE w))
       else if st = USBH_UNRECOVERED_ERROR then (USBH_FAIL, set_lun q lun MSC_UNRECOVERED_ERROR w)
       else (USBH_BUSY, w))"

definition with_event :: "USBH_StatusTypeDef \<times> usb \<Rightarrow> USBH_StatusTypeDef \<times> usb" where
  "with_event r = (fst r, msc_event (snd r))"

definition USBH_MSC_RdWrProcess ::
  "(usb \<Rightarrow> usb) \<Rightarrow> ptr \<Rightarrow> u8 \<Rightarrow> usb \<Rightarrow> USBH_StatusTypeDef \<times> usb" where
  "USBH_MSC_RdWrProcess E p lun w =
    (let q = msc_ptr p w; w = chk_unit q (unat lun) (chk_msc q w)
     in case lun_state (unit_at q (unat lun) w) of
       MSC_READ \<Rightarrow> with_event (rw_result q (unat lun) (USBH_MSC_SCSI_Read E p lun 0 BNull 0 w))
     | MSC_WRITE \<Rightarrow> with_event (rw_result q (unat lun) (USBH_MSC_SCSI_Write E p lun 0 BNull 0 w))
     | MSC_REQUEST_SENSE \<Rightarrow>
         with_event (sense_result q (unat lun)
           (USBH_MSC_SCSI_RequestSense E p lun (\<lambda>x. upd_unit q (unat lun) (\<lambda>u. u\<lparr>lun_sense := x\<rparr>)) w))
     | _ \<Rightarrow> (USBH_BUSY, w))"

definition USBH_MSC_IsReady :: "ptr \<Rightarrow> usb \<Rightarrow> bool" where
  "USBH_MSC_IsReady p w \<longleftrightarrow>
     gState (hosts w p) = HOST_CLASS \<and> msc_state (msc_at (msc_ptr p w) w) = MSC_IDLE"

text \<open>The result is an \<open>int8_t\<close>; \<open>0xFF\<close> is -1.\<close>

definition USBH_MSC_GetMaxLUN :: "ptr \<Rightarrow> usb \<Rightarrow> u8" where
  "USBH_MSC_GetMaxLUN p w =
    (if USBH_MSC_IsReady p w then ucast (max_lun (msc_at (msc_ptr p w) w)) else 0xFF)"

definition USBH_MSC_UnitIsReady :: "ptr \<Rightarrow> u8 \<Rightarrow> usb \<Rightarrow> bool" where
  "USBH_MSC_UnitIsReady p lun w \<longleftrightarrow>
     gState (hosts w p) = HOST_CLASS \<and> lun_error (unit_at (msc_ptr p w) (unat lun) w) = MSC_OK"

definition USBH_MSC_GetLUNInfo :: "ptr \<Rightarrow> u8 \<Rightarrow> usb \<Rightarrow> USBH_StatusTypeDef \<times> MSC_LUNTypeDef option" where
  "USBH_MSC_GetLUNInfo p lun w =
    (if gState (hosts w p) = HOST_CLASS then (USBH_OK, Some (unit_at (msc_ptr p w) (unat lun) w))
     else (USBH_FAIL, None))"

text \<open>
  The loop of a read or write. The timer and the connection are read anew each time, so the environment
  runs there; \<open>q\<close> is the handle the function started with.
\<close>

partial_function (option) rw_loop ::
  "(usb \<Rightarrow> usb) \<Rightarrow> ptr \<Rightarrow> ptr \<Rightarrow> u8 \<Rightarrow> u32 \<Rightarrow> u32 \<Rightarrow> usb \<Rightarrow> (USBH_StatusTypeDef \<times> usb) option" where
  "rw_loop E p q lun timeout len w =
    (let (st, w) = USBH_MSC_RdWrProcess E p lun w
     in if st = USBH_BUSY then
          let w = E w
          in if Timer (hosts w p) - timeout > 10000 * len \<or> is_connected (device (hosts w p)) = 0
             then Some (USBH_FAIL, upd_msc q (\<lambda>m. m\<lparr>msc_state := MSC_IDLE\<rparr>) w)
             else rw_loop E p q lun timeout len w
        else Some (USBH_OK, upd_msc q (\<lambda>m. m\<lparr>msc_state := MSC_IDLE\<rparr>) w))"

text \<open>The conditions under which a read or write is refused.\<close>

definition rw_refused :: "ptr \<Rightarrow> u8 \<Rightarrow> usb \<Rightarrow> bool" where
  "rw_refused p lun w \<longleftrightarrow> is_connected (device (hosts w p)) = 0 \<or> gState (hosts w p) \<noteq> HOST_CLASS
     \<or> lun_state (unit_at (msc_ptr p w) (unat lun) w) \<noteq> MSC_IDLE"

definition start_rw :: "ptr \<Rightarrow> u8 \<Rightarrow> MSC_StateTypeDef \<Rightarrow> usb \<Rightarrow> usb" where
  "start_rw p lun st w =
    (let q = msc_ptr p w;
         w = upd_msc q (\<lambda>m. m\<lparr>msc_state := st\<rparr>) w;
         w = set_lun q (unat lun) st w
     in upd_msc q (\<lambda>m. m\<lparr>rw_lun := ucast lun\<rparr>) w)"

definition USBH_MSC_Read ::
  "(usb \<Rightarrow> usb) \<Rightarrow> ptr \<Rightarrow> u8 \<Rightarrow> u32 \<Rightarrow> buf_ptr \<Rightarrow> u32 \<Rightarrow> usb \<Rightarrow> (USBH_StatusTypeDef \<times> usb) option" where
  "USBH_MSC_Read E p lun blk pbuf len w =
    (if rw_refused p lun w then Some (USBH_FAIL, w)
     else
       let q = msc_ptr p w;
           w = start_rw p lun MSC_READ w;
           (_, w) = USBH_MSC_SCSI_Read E p lun blk pbuf len w
       in rw_loop E p q lun (Timer (hosts w p)) len w)"

definition USBH_MSC_Write ::
  "(usb \<Rightarrow> usb) \<Rightarrow> ptr \<Rightarrow> u8 \<Rightarrow> u32 \<Rightarrow> buf_ptr \<Rightarrow> u32 \<Rightarrow> usb \<Rightarrow> (USBH_StatusTypeDef \<times> usb) option" where
  "USBH_MSC_Write E p lun blk pbuf len w =
    (if rw_refused p lun w then Some (USBH_FAIL, w)
     else
       let q = msc_ptr p w;
           w = start_rw p lun MSC_WRITE w;
           (_, w) = USBH_MSC_SCSI_Write E p lun blk pbuf len w
       in rw_loop E p q lun (Timer (hosts w p)) len w)"

end
