(* ===== verification/Usb_AOA.thy ===== *)
theory Usb_AOA
  imports Usb_MSC_Class
begin

text \<open>
  The driver of the Android accessory mode (usbh\_aoa.c). A device that is not in accessory mode yet is
  asked to switch to it by eight vendor requests, made in a loop that waits for each of them; the device
  then comes back with other numbers, the driver opens its endpoints and sends everything it receives
  back. The driver's handle is \<open>pActiveClass->pData\<close>, as in the mass storage driver.
\<close>

section \<open>The driver's data\<close>

definition aoa_ptr :: "ptr \<Rightarrow> usb \<Rightarrow> ptr" where
  "aoa_ptr p w = (case pActiveClass (hosts w p) of Some c \<Rightarrow> class_pData w c | None \<Rightarrow> NULL)"

definition chk_class :: "ptr \<Rightarrow> usb \<Rightarrow> usb" where
  "chk_class p w = chk (pActiveClass (hosts w p) \<noteq> None) Null_Class w"

definition aoa_at :: "ptr \<Rightarrow> usb \<Rightarrow> AOA_HandleTypeDef" where
  "aoa_at q w = (case cdata w q of AoaData a \<Rightarrow> a | _ \<Rightarrow> zero_aoa)"

definition upd_aoa :: "ptr \<Rightarrow> (AOA_HandleTypeDef \<Rightarrow> AOA_HandleTypeDef) \<Rightarrow> usb \<Rightarrow> usb" where
  "upd_aoa q f w =
    (case cdata w q of
       AoaData a \<Rightarrow> w\<lparr>cdata := (cdata w)(q := AoaData (f a))\<rparr>
     | _ \<Rightarrow> chk False Null_ClassData w)"

section \<open>The requests\<close>

abbreviation (input) USB_REQ_TYPE_VENDOR :: u8 where "USB_REQ_TYPE_VENDOR \<equiv> 0x40"
abbreviation (input) USB_AOA_GET_PROTOCOL_REQ :: u8 where "USB_AOA_GET_PROTOCOL_REQ \<equiv> 51"
abbreviation (input) USB_AOA_SET_PROTOCOL_REQ :: u8 where "USB_AOA_SET_PROTOCOL_REQ \<equiv> 52"
abbreviation (input) USB_AOA_SET_AOA_REQ :: u8 where "USB_AOA_SET_AOA_REQ \<equiv> 53"

fun AOA_Info :: "AOA_INFO_INDEX \<Rightarrow> string" where
  "AOA_Info AOA_INFO_MANU_0 = ''Lutixia''"
| "AOA_Info AOA_INFO_MODEL_1 = ''Demo''"
| "AOA_Info AOA_INFO_DESC_2 = ''wkwk aoa test''"
| "AOA_Info AOA_INFO_VERSION_3 = ''1.0''"
| "AOA_Info AOA_INFO_URI_4 = ''www.wkwk.com''"
| "AOA_Info AOA_INFO_SN_5 = ''wkwk0123456789''"

primrec info_index :: "AOA_INFO_INDEX \<Rightarrow> u16" where
  "info_index AOA_INFO_MANU_0 = 0"
| "info_index AOA_INFO_MODEL_1 = 1"
| "info_index AOA_INFO_DESC_2 = 2"
| "info_index AOA_INFO_VERSION_3 = 3"
| "info_index AOA_INFO_URI_4 = 4"
| "info_index AOA_INFO_SN_5 = 5"

text \<open>The characters of a string and the zero that ends it.\<close>

definition c_string :: "string \<Rightarrow> u8 list" where
  "c_string s = map of_char s @ [0]"

text \<open>\<open>memcpy\<close> to \<open>phost->device.Data\<close>.\<close>

definition put_data :: "ptr \<Rightarrow> u8 list \<Rightarrow> usb \<Rightarrow> usb" where
  "put_data p bs w =
    (let n = length (Data (device (hosts w p)))
     in chk (length bs \<le> n) (OOB_Data n) (upd_dev p (\<lambda>d. d\<lparr>Data := take n (bs @ drop (length bs) (Data d))\<rparr>) w))"

definition USBH_GetProtocol :: "(usb \<Rightarrow> usb) \<Rightarrow> ptr \<Rightarrow> buf_ptr \<Rightarrow> u16 \<Rightarrow> usb \<Rightarrow> USBH_StatusTypeDef \<times> usb" where
  "USBH_GetProtocol E p buff len w =
     USBH_CtlReq E p buff len (fill_setup p (USB_D2H OR USB_REQ_TYPE_VENDOR) USB_AOA_GET_PROTOCOL_REQ 0 0 len w)"

text \<open>The callers pass \<open>phost->device.Data\<close> as \<open>buff\<close>.\<close>

definition USBH_SetProtocol :: "(usb \<Rightarrow> usb) \<Rightarrow> ptr \<Rightarrow> AOA_INFO_INDEX \<Rightarrow> usb \<Rightarrow> USBH_StatusTypeDef \<times> usb" where
  "USBH_SetProtocol E p index w =
    (let bs = c_string (AOA_Info index);
         w = (if RequestState (hosts w p) = CMD_SEND
              then put_data p bs (fill_setup p (USB_H2D OR USB_REQ_TYPE_VENDOR) USB_AOA_SET_PROTOCOL_REQ 0
                     (info_index index) (of_nat (length bs)) w)
              else w)
     in USBH_CtlReq E p (BData p) (wLength (ctl_setup (ctl p w))) w)"

definition USBH_SetAOAReq :: "(usb \<Rightarrow> usb) \<Rightarrow> ptr \<Rightarrow> buf_ptr \<Rightarrow> u16 \<Rightarrow> usb \<Rightarrow> USBH_StatusTypeDef \<times> usb" where
  "USBH_SetAOAReq E p buff len w =
     USBH_CtlReq E p buff len
       (fill_setup p (USB_REQ_RECIPIENT_DEVICE OR USB_H2D OR USB_REQ_TYPE_VENDOR) USB_AOA_SET_AOA_REQ 0 0 len w)"

section \<open>Switching to accessory mode\<close>

definition aoa_set ::
  "(usb \<Rightarrow> usb) \<Rightarrow> ptr \<Rightarrow> AOA_INFO_INDEX \<Rightarrow> AOA_REQ_STATE \<Rightarrow> AOA_REQ_STATE \<Rightarrow> usb \<Rightarrow> AOA_REQ_STATE \<times> usb" where
  "aoa_set E p index status after w =
    (let (st, w) = USBH_SetProtocol E p index w in (if st = USBH_OK then after else status, w))"

text \<open>One turn of the loop; \<open>ret\<close> is the variable of that name.\<close>

definition aoa_turn ::
  "(usb \<Rightarrow> usb) \<Rightarrow> ptr \<Rightarrow> AOA_REQ_STATE \<Rightarrow> USBH_StatusTypeDef \<Rightarrow> usb \<Rightarrow> AOA_REQ_STATE \<times> USBH_StatusTypeDef \<times> usb" where
  "aoa_turn E p status ret w =
    (let same = (\<lambda>(status, w). (status, ret, w))
     in case status of
       AOA_GET_PROTOCOL \<Rightarrow>
         let (st, w) = USBH_GetProtocol E p (BData p) 2 w
         in (if st = USBH_OK then AOA_SET_PROTOCOL_0 else status, ret, w)
     | AOA_SET_PROTOCOL_0 \<Rightarrow> same (aoa_set E p AOA_INFO_MANU_0 status AOA_SET_PROTOCOL_1 w)
     | AOA_SET_PROTOCOL_1 \<Rightarrow> same (aoa_set E p AOA_INFO_MODEL_1 status AOA_SET_PROTOCOL_2 w)
     | AOA_SET_PROTOCOL_2 \<Rightarrow> same (aoa_set E p AOA_INFO_DESC_2 status AOA_SET_PROTOCOL_3 w)
     | AOA_SET_PROTOCOL_3 \<Rightarrow> same (aoa_set E p AOA_INFO_VERSION_3 status AOA_SET_PROTOCOL_4 w)
     | AOA_SET_PROTOCOL_4 \<Rightarrow> same (aoa_set E p AOA_INFO_URI_4 status AOA_SET_PROTOCOL_5 w)
     | AOA_SET_PROTOCOL_5 \<Rightarrow> same (aoa_set E p AOA_INFO_SN_5 status AOA_SET_AOA_REQ w)
     | AOA_SET_AOA_REQ \<Rightarrow>
         let (ret, w) = USBH_SetAOAReq E p (BData p) 0 w
         in (if ret = USBH_OK \<or> ret = USBH_FAIL then AOA_MAX_NUM else status, ret, w)
     | AOA_MAX_NUM \<Rightarrow> (status, ret, w))"

partial_function (option) aoa_loop ::
  "(usb \<Rightarrow> usb) \<Rightarrow> ptr \<Rightarrow> AOA_REQ_STATE \<Rightarrow> USBH_StatusTypeDef \<Rightarrow> usb \<Rightarrow> (USBH_StatusTypeDef \<times> usb) option" where
  "aoa_loop E p status ret w =
    (if status = AOA_MAX_NUM then Some (ret, w)
     else case aoa_turn E p status ret w of (status, ret, w) \<Rightarrow> aoa_loop E p status ret w)"

section \<open>The interface of a device in accessory mode\<close>

text \<open>\<open>USB_AOA_VID\<close> and the four product numbers.\<close>

definition is_accessory :: "USBH_DevDescTypeDef \<Rightarrow> bool" where
  "is_accessory d \<longleftrightarrow> idVendor d = 0x18d1 \<and> idProduct d \<in> {0x2D00, 0x2D01, 0x2D04, 0x2D05}"

text \<open>The handle is cleared; the pointer of the class is replaced.\<close>

definition new_aoa :: "ptr \<Rightarrow> usb \<Rightarrow> ptr \<times> usb" where
  "new_aoa p w =
    (let (q, w) = malloc w;
         w = (case pActiveClass (hosts w p) of
                Some c \<Rightarrow> w\<lparr>class_pData := (class_pData w)(c := q)\<rparr>
              | None \<Rightarrow> chk False Null_Class w);
         w = chk (q \<noteq> NULL) Null_ClassData w
     in (q, if q \<noteq> NULL then w\<lparr>cdata := (cdata w)(q := AoaData zero_aoa)\<rparr> else w))"

definition aoa_endpoint :: "ptr \<Rightarrow> ptr \<Rightarrow> nat \<Rightarrow> usb \<Rightarrow> usb" where
  "aoa_endpoint p q num w =
    (let ep = Ep_Desc (itf_desc p w (unat (current_interface (device (hosts w p))))) ! num;
         addr = bEndpointAddress ep; mps = wMaxPacketSize ep
     in if addr AND 0x80 \<noteq> 0 then
          let w = upd_aoa q (\<lambda>a. a\<lparr>aoa_InEp := addr, aoa_InEpSize := mps\<rparr>) w;
              (c, w) = USBH_AllocPipe p addr w;
              w = upd_aoa q (\<lambda>a. a\<lparr>aoa_InPipe := c\<rparr>) w;
              w = open_bulk_pipe p c addr mps w
          in snd (USBH_LL_SetToggle p c 0 w)
        else
          let w = upd_aoa q (\<lambda>a. a\<lparr>aoa_OutEp := addr, aoa_OutEpSize := mps\<rparr>) w;
              (c, w) = USBH_AllocPipe p addr w;
              w = upd_aoa q (\<lambda>a. a\<lparr>aoa_OutPipe := c\<rparr>) w;
              w = open_bulk_pipe p c addr mps w
          in snd (USBH_LL_SetToggle p c 0 w))"

definition aoa_open :: "ptr \<Rightarrow> usb \<Rightarrow> usb" where
  "aoa_open p w =
    (let w = snd (USBH_SelectInterface p 0 w);
         (q, w) = new_aoa p w;
         i = unat (current_interface (device (hosts w p)));
         w = chk_itf p i w;
         n = unat (bNumEndpoints (itf_desc p w i));
         max_ep = (if n \<le> USBH_MAX_NUM_ENDPOINTS then n else 2)
     in fold (aoa_endpoint p q) [0..<max_ep] w)"

definition USBH_AOA_InterfaceInit :: "(usb \<Rightarrow> usb) \<Rightarrow> ptr \<Rightarrow> usb \<Rightarrow> (USBH_StatusTypeDef \<times> usb) option" where
  "USBH_AOA_InterfaceInit E p w =
    (if is_accessory (DevDesc (device (hosts w p))) then Some (USBH_OK, aoa_open p w)
     else aoa_loop E p AOA_GET_PROTOCOL USBH_BUSY w)"

text \<open>The channels are not given back.\<close>

definition USBH_AOA_InterfaceDeInit :: "ptr \<Rightarrow> usb \<Rightarrow> USBH_StatusTypeDef \<times> usb" where
  "USBH_AOA_InterfaceDeInit p w =
    (let w = chk_class p w; q = aoa_ptr p w
     in (USBH_OK,
         if q \<noteq> NULL then
           case pActiveClass (hosts w p) of
             Some c \<Rightarrow> (free_cdata q w)\<lparr>class_pData := (class_pData w)(c := NULL)\<rparr>
           | None \<Rightarrow> w
         else w))"

section \<open>Echo\<close>

definition aoa_receive :: "ptr \<Rightarrow> ptr \<Rightarrow> usb \<Rightarrow> usb" where
  "aoa_receive p q w = snd (USBH_BulkReceiveData p (BAoa q) (aoa_InEpSize (aoa_at q w)) (aoa_InPipe (aoa_at q w)) w)"

definition USBH_AOA_ClassRequest :: "ptr \<Rightarrow> usb \<Rightarrow> USBH_StatusTypeDef \<times> usb" where
  "USBH_AOA_ClassRequest p w =
    (let w = chk_class p w; q = aoa_ptr p w
     in (USBH_OK,
         if q \<noteq> NULL then aoa_receive p q (upd_aoa q (\<lambda>a. a\<lparr>aoa_Date := replicate 512 0\<rparr>) w) else w))"

text \<open>\<open>Date[len] = 0\<close>.\<close>

definition end_date :: "ptr \<Rightarrow> nat \<Rightarrow> usb \<Rightarrow> usb" where
  "end_date q len w =
    (let w' = upd_aoa q (\<lambda>a. a\<lparr>aoa_Date := (aoa_Date a)[len := 0]\<rparr>) w
     in chk (len < length (aoa_Date (aoa_at q w))) (OOB_Buffer (BAoa q) len) w')"

text \<open>The length is cut to sixteen bits when it is passed on.\<close>

definition USBH_AOA_Process :: "(usb \<Rightarrow> usb) \<Rightarrow> ptr \<Rightarrow> usb \<Rightarrow> USBH_StatusTypeDef \<times> usb" where
  "USBH_AOA_Process E p w =
    (let w = chk_class p w; q = aoa_ptr p w
     in if q = NULL then (USBH_OK, w)
        else
          let (urb, w) = USBH_LL_GetURBState E p (aoa_InPipe (aoa_at q w)) w
          in if urb = USBH_URB_DONE then
               let len = USBH_LL_GetLastXferSize p (aoa_InPipe (aoa_at q w)) w;
                   w = end_date q (unat len) w;
                   w = aoa_receive p q w
               in (USBH_OK, snd (USBH_BulkSendData p (BAoa q) (ucast len) (aoa_OutPipe (aoa_at q w)) 1 w))
             else (USBH_OK, w))"

definition USBH_AOA_Sof :: "ptr \<Rightarrow> usb \<Rightarrow> USBH_StatusTypeDef \<times> usb" where
  "USBH_AOA_Sof p w = (USBH_OK, w)"

end
