(* ===== verification/Usb_CH340_Data.thy ===== *)
theory Usb_CH340_Data
  imports App_CH340 Usb_Hub Usb_AOA
begin

text \<open>
  The data transfer of the CH340 driver and its background process (usbh\_ch340.c), with the receive
  callback of app\_ch340.c in the place of the weak one, and the drivers of this firmware put together
  as the tables the host core calls.
\<close>

section \<open>Transmission and reception\<close>

definition set_tx :: "ptr \<Rightarrow> CDC_DataStateTypeDef \<Rightarrow> usb \<Rightarrow> usb" where
  "set_tx p st w = upd_cdc p (\<lambda>c. c\<lparr>data_tx_state := st\<rparr>) w"

definition set_rx :: "ptr \<Rightarrow> CDC_DataStateTypeDef \<Rightarrow> usb \<Rightarrow> usb" where
  "set_rx p st w = upd_cdc p (\<lambda>c. c\<lparr>data_rx_state := st\<rparr>) w"

text \<open>The part of a transmission that was sent is taken off it.\<close>

definition advance_tx :: "CDC_HandleTypeDef \<Rightarrow> CDC_HandleTypeDef" where
  "advance_tx c =
    (let mps = cdc_OutEpSize (cdc_DataItf c)
     in if TxDataLength c > ucast mps
        then c\<lparr>pTxData := buf_add (pTxData c) (unat mps), TxDataLength := TxDataLength c - ucast mps\<rparr>
        else c\<lparr>TxDataLength := 0\<rparr>)"

definition CDC_ProcessTransmission :: "(usb \<Rightarrow> usb) \<Rightarrow> ptr \<Rightarrow> usb \<Rightarrow> usb" where
  "CDC_ProcessTransmission E p w =
    (let c = cdc_get p w; d = cdc_DataItf c
     in case data_tx_state c of
       CDC_SEND_DATA \<Rightarrow>
         let n = (if TxDataLength c > ucast (cdc_OutEpSize d) then cdc_OutEpSize d else ucast (TxDataLength c))
         in set_tx p CDC_SEND_DATA_WAIT (snd (USBH_BulkSendData p (pTxData c) n (cdc_OutPipe d) 1 w))
     | CDC_SEND_DATA_WAIT \<Rightarrow>
         let (urb, w) = USBH_LL_GetURBState E p (cdc_OutPipe d) w
         in if urb = USBH_URB_DONE then
              let w = upd_cdc p advance_tx w
              in class_event (set_tx p (if TxDataLength (cdc_get p w) > 0 then CDC_SEND_DATA else CDC_IDLE) w)
            else if urb = USBH_URB_NOTREADY then class_event (set_tx p CDC_SEND_DATA w)
            else w
     | _ \<Rightarrow> w)"

text \<open>
  The transfer asks for \<open>InEpSize\<close> bytes, whatever \<open>RxDataLength\<close> is. The test for a further packet
  compares with \<open>>\<close>, where a full packet has exactly \<open>InEpSize\<close> bytes.
\<close>

definition CDC_ProcessReception :: "(usb \<Rightarrow> usb) \<Rightarrow> ptr \<Rightarrow> usb \<Rightarrow> usb" where
  "CDC_ProcessReception E p w =
    (let c = cdc_get p w; d = cdc_DataItf c
     in case data_rx_state c of
       CDC_RECEIVE_DATA \<Rightarrow>
         set_rx p CDC_RECEIVE_DATA_WAIT (snd (USBH_BulkReceiveData p (pRxData c) (cdc_InEpSize d) (cdc_InPipe d) w))
     | CDC_RECEIVE_DATA_WAIT \<Rightarrow>
         let (urb, w) = USBH_LL_GetURBState E p (cdc_InPipe d) w
         in if urb = USBH_URB_DONE then
              let c = cdc_get p w;
                  n = (ucast (USBH_LL_GetLastXferSize p (cdc_InPipe (cdc_DataItf c)) w) :: u16)
              in class_event
                   (if RxDataLength c - ucast n > 0 \<and> n > cdc_InEpSize (cdc_DataItf c) then
                      upd_cdc p (\<lambda>c. c\<lparr>pRxData := buf_add (pRxData c) (unat n),
                        RxDataLength := RxDataLength c - ucast n, data_rx_state := CDC_RECEIVE_DATA\<rparr>) w
                    else USBH_CDC_ReceiveCallback p (set_rx p CDC_IDLE w))
            else if urb = USBH_URB_NOTREADY then class_event w
            else w
     | _ \<Rightarrow> w)"

section \<open>The background process\<close>

definition set_cdc_state :: "ptr \<Rightarrow> CDC_StateTypeDef \<Rightarrow> usb \<Rightarrow> usb" where
  "set_cdc_state p st w = upd_cdc p (\<lambda>c. c\<lparr>cdc_state := st\<rparr>) w"

text \<open>
  \<open>GetLineCoding\<close> always succeeds, and the callback for an unchanged line coding is empty. An error of
  a request other than busy leads to \<open>CDC_ERROR_STATE\<close> only while a line coding is set.
\<close>

definition USBH_CH340_Process :: "(usb \<Rightarrow> usb) \<Rightarrow> ptr \<Rightarrow> usb \<Rightarrow> USBH_StatusTypeDef \<times> usb" where
  "USBH_CH340_Process E p w =
    (if p = NULL \<or> cdc_ptr p w = NULL then (USBH_OK, w)
     else case cdc_state (cdc_get p w) of
       CDC_IDLE_STATE \<Rightarrow> (USBH_OK, w)
     | CDC_ATTACH_INIT_STATE \<Rightarrow>
         let (st, w) = ch34x_attach E p w
         in (USBH_BUSY, if st = USBH_OK then set_cdc_state p CDC_IDLE_STATE w else w)
     | CDC_SET_LINE_CODING_STATE \<Rightarrow>
         let (st, w) = SetLineCoding E p (pUserLineCoding (cdc_get p w)) w
         in (USBH_BUSY,
             if st = USBH_OK then set_cdc_state p CDC_GET_LAST_LINE_CODING_STATE w
             else if st \<noteq> USBH_BUSY then set_cdc_state p CDC_ERROR_STATE w else w)
     | CDC_GET_LAST_LINE_CODING_STATE \<Rightarrow>
         (USBH_BUSY, set_cdc_state p CDC_IDLE_STATE (snd (GetLineCoding p w)))
     | CDC_TRANSFER_DATA \<Rightarrow> (USBH_BUSY, CDC_ProcessReception E p (CDC_ProcessTransmission E p w))
     | CDC_ERROR_STATE \<Rightarrow>
         let (st, w) = USBH_ClrFeature E p 0 w
         in (USBH_BUSY, if st = USBH_OK then set_cdc_state p CDC_IDLE_STATE w else w))"

section \<open>The drivers of the firmware\<close>

text \<open>
  The tables \<open>HUB_Class\<close>, \<open>CH340_Class\<close>, \<open>USBH_msc\<close> and \<open>AOA_Class\<close>. \<open>n\<close> bounds how deep hubs are nested,
  since a hub's driver runs the drivers behind it; \<open>rest\<close> are the drivers below that depth.
\<close>

primrec drivers :: "nat \<Rightarrow> (usb \<Rightarrow> usb) \<Rightarrow> class_ops \<Rightarrow> class_ops" where
  "drivers 0 E rest = rest"
| "drivers (Suc n) E rest =
    \<lparr>cInit = (\<lambda>c p w. case c of
        MSC_Class \<Rightarrow> Some (USBH_MSC_InterfaceInit p w)
      | CH340_Class \<Rightarrow> Some (USBH_CH340_InterfaceInit p w)
      | HUB_Class \<Rightarrow> Some (USBH_HUB_InterfaceInit p w)
      | AOA_Class \<Rightarrow> USBH_AOA_InterfaceInit E p w),
     cDeInit = (\<lambda>c p w. case c of
        MSC_Class \<Rightarrow> Some (USBH_MSC_InterfaceDeInit p w)
      | CH340_Class \<Rightarrow> USBH_CH340_InterfaceDeInit E p w
      | HUB_Class \<Rightarrow> USBH_HUB_InterfaceDeInit (drivers n E rest) p w
      | AOA_Class \<Rightarrow> Some (USBH_AOA_InterfaceDeInit p w)),
     cRequests = (\<lambda>c p w. case c of
        MSC_Class \<Rightarrow> USBH_MSC_ClassRequest E p w
      | CH340_Class \<Rightarrow> Some (USBH_CH340_ClassRequest p w)
      | HUB_Class \<Rightarrow> Some (USBH_HUB_ClassRequest E p w)
      | AOA_Class \<Rightarrow> Some (USBH_AOA_ClassRequest p w)),
     cBgndProcess = (\<lambda>c p w. case c of
        MSC_Class \<Rightarrow> Some (USBH_MSC_Process E p w)
      | CH340_Class \<Rightarrow> Some (USBH_CH340_Process E p w)
      | HUB_Class \<Rightarrow> USBH_HUB_Process E (drivers n E rest) p w
      | AOA_Class \<Rightarrow> Some (USBH_AOA_Process E p w)),
     cSOFProcess = (\<lambda>c p w. case c of
        MSC_Class \<Rightarrow> Some (USBH_MSC_SOFProcess p w)
      | CH340_Class \<Rightarrow> Some (USBH_CH340_SOFProcess p w)
      | HUB_Class \<Rightarrow> Some (USBH_HUB_SOFProcess p w)
      | AOA_Class \<Rightarrow> Some (USBH_AOA_Sof p w))\<rparr>"

end
