(* ===== verification/App_CH340_Ring.thy ===== *)
theory App_CH340_Ring
  imports App_CH340
begin

text \<open>
  The ring of received bytes of app\_ch340.c is a bounded first-in first-gone queue: the interface of
  such a queue as a locale, its client lemma, and the ring of the code as its instance.
\<close>

section \<open>Byte queues\<close>

datatype 'b queue_op = Put "'b list" | Take

text \<open>
  The abstract queue: what is in it and what has been taken out. A packet that does not leave a free
  place is dropped as a whole; the consumer takes everything.
\<close>

fun queue_step :: "nat \<Rightarrow> 'b queue_op \<Rightarrow> 'b list \<times> 'b list \<Rightarrow> 'b list \<times> 'b list" where
  "queue_step N (Put bs) (q, gone) = (if length q + length bs < N then (q @ bs, gone) else (q, gone))"
| "queue_step N Take (q, gone) = ([], gone @ q)"

primrec queue_do :: "('b list \<Rightarrow> 's \<Rightarrow> 's) \<Rightarrow> ('s \<Rightarrow> 's) \<Rightarrow> 'b queue_op \<Rightarrow> 's \<Rightarrow> 's" where
  "queue_do put take_all (Put bs) s = put bs s"
| "queue_do put take_all Take s = take_all s"

locale byte_queue =
  fixes N :: nat
    and fits :: "'b list \<Rightarrow> bool"
    and ok :: "'s \<Rightarrow> bool"
    and content :: "'s \<Rightarrow> 'b list"
    and taken :: "'s \<Rightarrow> u32"
    and put :: "'b list \<Rightarrow> 's \<Rightarrow> 's"
    and take_all :: "'s \<Rightarrow> 's"
  assumes put_fits: "ok s \<Longrightarrow> fits bs \<Longrightarrow> length (content s) + length bs < N \<Longrightarrow>
        ok (put bs s) \<and> content (put bs s) = content s @ bs \<and> taken (put bs s) = taken s"
    and put_full: "ok s \<Longrightarrow> fits bs \<Longrightarrow> N \<le> length (content s) + length bs \<Longrightarrow>
        ok (put bs s) \<and> content (put bs s) = content s \<and> taken (put bs s) = taken s"
    and take_ok: "ok s \<Longrightarrow> ok (take_all s) \<and> content (take_all s) = []
        \<and> taken (take_all s) = taken s + of_nat (length (content s))"
begin

lemma step_simulates:
  assumes "ok s" "content s = q" "\<forall>bs. op = Put bs \<longrightarrow> fits bs"
  shows "ok (queue_do put take_all op s) \<and> content (queue_do put take_all op s) = fst (queue_step N op (q, gone))
    \<and> (taken s = of_nat (length gone) \<longrightarrow>
        taken (queue_do put take_all op s) = of_nat (length (snd (queue_step N op (q, gone)))))"
proof (cases op)
  case (Put bs)
  with assms put_fits [of s bs] put_full [of s bs] show ?thesis
    by (cases "length q + length bs < N") auto
next
  case Take
  with assms take_ok [of s] show ?thesis by auto
qed

lemma run_simulates:
  assumes "ok s" "content s = q" "taken s = of_nat (length gone)" "\<forall>bs. Put bs \<in> set ops \<longrightarrow> fits bs"
  shows "ok (fold (queue_do put take_all) ops s) \<and> content (fold (queue_do put take_all) ops s) = fst (fold (queue_step N) ops (q, gone))
    \<and> taken (fold (queue_do put take_all) ops s) = of_nat (length (snd (fold (queue_step N) ops (q, gone))))"
  using assms
proof (induction ops arbitrary: s q gone)
  case Nil
  then show ?case by simp
next
  case (Cons op ops)
  let ?s = "queue_do put take_all op s" and ?a = "queue_step N op (q, gone)"
  have f: "\<forall>bs. op = Put bs \<longrightarrow> fits bs" using Cons.prems(4) by simp
  from step_simulates [OF Cons.prems(1,2) f, of gone] Cons.prems(3)
  have s: "ok ?s" "content ?s = fst ?a" "taken ?s = of_nat (length (snd ?a))" by simp_all
  from Cons.IH [OF s] Cons.prems(4) show ?case by simp
qed

end

section \<open>Frames of the operations\<close>

definition has_app :: "ptr \<Rightarrow> usb \<Rightarrow> bool" where
  "has_app p w \<longleftrightarrow> app_data (hosts w p) \<noteq> NULL \<and> apps w (app_data (hosts w p)) \<noteq> None"

lemma upd_app_frame [simp]:
  "hosts (upd_app p f w) = hosts w" "cdata (upd_app p f w) = cdata w" "hc (upd_app p f w) = hc w"
  "sd_map (upd_app p f w) = sd_map w" "sd_mem (upd_app p f w) = sd_mem w" "outs (upd_app p f w) = outs w"
  "os_event (upd_app p f w) = os_event w" "sd_busy (upd_app p f w) = sd_busy w"
  by (simp_all add: upd_app_def Let_def chk_def split: option.splits)

lemma upd_app_get [simp]: "has_app p w \<Longrightarrow> app_get p (upd_app p f w) = f (app_get p w)"
  by (auto simp: has_app_def app_get_def upd_app_def)

lemma upd_app_has [simp]: "has_app p (upd_app p f w) = has_app p w"
  by (auto simp: has_app_def upd_app_def Let_def chk_def split: option.splits)

lemma upd_app_faults [simp]: "has_app p w \<Longrightarrow> faults (upd_app p f w) = faults w"
  by (auto simp: has_app_def upd_app_def)

lemma app_get_cong:
  "apps v = apps w \<Longrightarrow> app_data (hosts v p) = app_data (hosts w p) \<Longrightarrow> app_get p v = app_get p w"
  by (simp add: app_get_def)

lemma has_app_cong:
  "apps v = apps w \<Longrightarrow> app_data (hosts v p) = app_data (hosts w p) \<Longrightarrow> has_app p v = has_app p w"
  by (simp add: has_app_def)

lemma upd_cdc_frame [simp]:
  "hosts (upd_cdc p f w) = hosts w" "apps (upd_cdc p f w) = apps w" "hc (upd_cdc p f w) = hc w"
  "sd_map (upd_cdc p f w) = sd_map w" "sd_mem (upd_cdc p f w) = sd_mem w" "outs (upd_cdc p f w) = outs w"
  "os_event (upd_cdc p f w) = os_event w" "sd_busy (upd_cdc p f w) = sd_busy w"
  by (auto simp: upd_cdc_def chk_def split: class_data.splits)

lemma cdc_get_upd:
  "cdata w (cdc_ptr p w) = CdcData c \<Longrightarrow> cdc_get p (upd_cdc p f w) = f (cdc_get p w)"
  by (simp add: upd_cdc_def cdc_get_def cdc_ptr_def)

lemma data_itf_upd [simp]:
  assumes "\<And>c. cdc_DataItf (f c) = cdc_DataItf c"
  shows "data_itf p (upd_cdc p f w) = data_itf p w"
  using assms by (auto simp: data_itf_def upd_cdc_def cdc_get_def cdc_ptr_def chk_def split: class_data.splits)

lemma event_frame [simp]:
  "apps (osMessagePut e w) = apps w" "sd_map (osMessagePut e w) = sd_map w"
  "sd_mem (osMessagePut e w) = sd_mem w" "sd_busy (osMessagePut e w) = sd_busy w"
  "data_itf p (osMessagePut e w) = data_itf p w" "app_get p (osMessagePut e w) = app_get p w"
  "has_app p (osMessagePut e w) = has_app p w"
  by (simp_all add: osMessagePut_def data_itf_def cdc_get_def cdc_ptr_def app_get_def has_app_def)

lemma Receive_frame [simp]:
  "hosts (snd (USBH_CDC_Receive p b n w)) = hosts w" "apps (snd (USBH_CDC_Receive p b n w)) = apps w"
  "hc (snd (USBH_CDC_Receive p b n w)) = hc w" "sd_map (snd (USBH_CDC_Receive p b n w)) = sd_map w"
  "sd_mem (snd (USBH_CDC_Receive p b n w)) = sd_mem w"
  "data_itf p (snd (USBH_CDC_Receive p b n w)) = data_itf p w"
  by (simp_all add: USBH_CDC_Receive_def)

lemma sd_write_frame [simp]:
  "hosts (sd_write a bs w) = hosts w" "apps (sd_write a bs w) = apps w" "hc (sd_write a bs w) = hc w"
  "sd_map (sd_write a bs w) = sd_map w" "cdata (sd_write a bs w) = cdata w" "faults (sd_write a bs w) = faults w"
  "app_get p (sd_write a bs w) = app_get p w" "has_app p (sd_write a bs w) = has_app p w"
  "data_itf p (sd_write a bs w) = data_itf p w"
  by (simp_all add: sd_write_def app_get_def has_app_def data_itf_def cdc_get_def cdc_ptr_def)

lemma sd_write_mem:
  "sd_mem (sd_write a bs w) x = (if a \<le> x \<and> x < a + length bs then bs ! (x - a) else sd_mem w x)"
  by (simp add: sd_write_def)

section \<open>The ring\<close>

lemma ring_mask: "unat (x AND 0xFFFFF :: u32) = unat x mod LOG_BUFF_SIZE"
proof -
  have "(0xFFFFF :: u32) = mask 20" by (simp add: mask_eq_exp_minus_1)
  then have "unat (x AND 0xFFFFF :: u32) = unat (take_bit 20 x)" by (simp add: take_bit_eq_mask)
  also have "\<dots> = unat x mod 2 ^ 20" by (simp only: unsigned_take_bit_eq) (simp only: take_bit_eq_mod)
  finally show ?thesis by simp
qed

lemma ring_mask_plus: "unat ((x + of_nat k) AND 0xFFFFF :: u32) = (unat x + k) mod LOG_BUFF_SIZE"
proof -
  have "unat (x + of_nat k) = (unat x + k) mod 2 ^ 32"
    by (simp add: unat_word_ariths unat_of_nat mod_add_right_eq)
  then show ?thesis by (simp only: ring_mask) (simp add: mod_mod_cancel)
qed

definition ring_len :: "ptr \<Rightarrow> usb \<Rightarrow> nat" where
  "ring_len p w = unat (p_write (log_buf (app_get p w)) - p_read (log_buf (app_get p w)))"

text \<open>The \<open>k\<close>-th byte of the ring in buffer \<open>b\<close>, counted from \<open>p_read\<close>.\<close>

definition ring_byte :: "ptr \<Rightarrow> nat \<Rightarrow> usb \<Rightarrow> nat \<Rightarrow> u8" where
  "ring_byte p b w k = sd_mem w (b + (unat (p_read (log_buf (app_get p w))) + k) mod LOG_BUFF_SIZE)"

definition ring_content :: "ptr \<Rightarrow> nat \<Rightarrow> usb \<Rightarrow> u8 list" where
  "ring_content p b w = map (ring_byte p b w) [0..<ring_len p w]"

text \<open>The application of \<open>p\<close> runs with the ring in entry \<open>i\<close>, and its IN channel exists.\<close>

definition ring_ok :: "ptr \<Rightarrow> nat \<Rightarrow> usb \<Rightarrow> bool" where
  "ring_ok p i w \<longleftrightarrow> has_app p w \<and> gState (hosts w p) = HOST_CLASS
     \<and> log_sd (log_buf (app_get p w)) = Some i \<and> length (recv_buf (app_get p w)) = RECV_BUFF_SIZE + 1
     \<and> ring_len p w < LOG_BUFF_SIZE \<and> unat (cdc_InPipe (data_itf p w)) < length (hc w)"

definition ring_base :: "nat \<Rightarrow> usb \<Rightarrow> nat" where
  "ring_base i w = buffer_base (sd_map w ! i)"

lemma ring_distance:
  fixes r k l N :: nat
  assumes "l \<le> N" "k < N"
  shows "((r + k) mod N + N - (r + l) mod N) mod N = (k + N - l) mod N"
proof -
  have N: "0 < N" using assms by simp
  then have le: "(r + l) mod N \<le> (r + k) mod N + N" by (meson less_le_trans mod_less_divisor nat_le_linear trans_le_add2 less_imp_le)
  have "int (((r + k) mod N + N - (r + l) mod N) mod N)
      = (int (r + k) mod int N + int N - int (r + l) mod int N) mod int N"
    using le by (simp add: of_nat_diff zmod_int)
  also have "\<dots> = ((int (r + k) mod int N - int (r + l) mod int N) + int N) mod int N"
    by (simp only: diff_add_eq)
  also have "\<dots> = (int (r + k) - int (r + l)) mod int N" by (simp only: mod_add_self2 mod_diff_eq)
  also have "\<dots> = ((int k - int l) + int N) mod int N" by (simp only: mod_add_self2) simp
  also have "(int k - int l) + int N = int (k + N - l)" using assms by (simp add: of_nat_diff)
  also have "int (k + N - l) mod int N = int ((k + N - l) mod N)" by (simp add: zmod_int)
  finally show ?thesis by linarith
qed

text \<open>A copy of \<open>n\<close> bytes to position \<open>P\<close>, cut where it passes the end.\<close>

definition wrap_write :: "nat \<Rightarrow> nat \<Rightarrow> u8 list \<Rightarrow> usb \<Rightarrow> usb" where
  "wrap_write b P bs w =
    (if P + length bs > LOG_BUFF_SIZE - 1
     then sd_write b (drop (LOG_BUFF_SIZE - P) bs) (sd_write (b + P) (take (LOG_BUFF_SIZE - P) bs) w)
     else sd_write (b + P) bs w)"

lemma wrap_write_mem:
  assumes "P < LOG_BUFF_SIZE" "length bs < LOG_BUFF_SIZE" "x < LOG_BUFF_SIZE"
  shows "sd_mem (wrap_write b P bs w) (b + x)
    = (let k = (x + LOG_BUFF_SIZE - P) mod LOG_BUFF_SIZE in if k < length bs then bs ! k else sd_mem w (b + x))"
proof (cases "P \<le> x")
  case True
  then have "x + LOG_BUFF_SIZE - P = (x - P) + LOG_BUFF_SIZE" by linarith
  moreover have "x - P < LOG_BUFF_SIZE" using assms(3) by linarith
  ultimately have k: "(x + LOG_BUFF_SIZE - P) mod LOG_BUFF_SIZE = x - P" by (simp only: mod_add_self2 mod_less)
  from True assms have "sd_mem (wrap_write b P bs w) (b + x)
      = (if x - P < length bs then bs ! (x - P) else sd_mem w (b + x))"
    by (auto simp: wrap_write_def sd_write_mem)
  then show ?thesis by (simp only: k Let_def)
next
  case False
  then have k: "(x + LOG_BUFF_SIZE - P) mod LOG_BUFF_SIZE = x + LOG_BUFF_SIZE - P"
    using assms by simp
  have "sd_mem (wrap_write b P bs w) (b + x)
      = (if x + LOG_BUFF_SIZE - P < length bs then bs ! (x + LOG_BUFF_SIZE - P) else sd_mem w (b + x))"
  proof (cases "x + LOG_BUFF_SIZE - P < length bs")
    case True
    then have "P + length bs > LOG_BUFF_SIZE - 1" "x < length bs - (LOG_BUFF_SIZE - P)"
      "LOG_BUFF_SIZE - P \<le> length bs" "LOG_BUFF_SIZE - P + x = x + LOG_BUFF_SIZE - P" using assms(1) by linarith+
    note c = this
    from c have "drop (LOG_BUFF_SIZE - P) bs ! x = bs ! (x + LOG_BUFF_SIZE - P)" by (metis nth_drop)
    moreover from c have "b + x < b + length (drop (LOG_BUFF_SIZE - P) bs)" by simp
    ultimately show ?thesis using True c
      by (simp only: wrap_write_def sd_write_mem if_True le_add1 simp_thms add_diff_cancel_left')
  next
    case False
    then have "\<not> x < length bs - (LOG_BUFF_SIZE - P)" using assms(1) by linarith
    then have "\<not> b + x < b + length (drop (LOG_BUFF_SIZE - P) bs)" by simp
    with False \<open>\<not> P \<le> x\<close> show ?thesis
      by (simp only: wrap_write_def sd_write_mem if_False simp_thms if_distrib [of "\<lambda>v. sd_mem v (b + x)"]
          nat_add_left_cancel_le if_cancel)
  qed
  then show ?thesis by (simp only: k Let_def)
qed

lemma wrap_write_outside:
  assumes "P < LOG_BUFF_SIZE" "length bs < LOG_BUFF_SIZE" "y < b \<or> b + LOG_BUFF_SIZE \<le> y"
  shows "sd_mem (wrap_write b P bs w) y = sd_mem w y"
  using assms by (auto simp: wrap_write_def sd_write_mem)

section \<open>The receive callback\<close>

text \<open>The size of the packet the callback finds.\<close>

abbreviation packet_size :: "ptr \<Rightarrow> usb \<Rightarrow> u16" where
  "packet_size p w \<equiv> USBH_CDC_GetLastReceivedDataSize p w"

lemma ring_copy_wrap:
  assumes "unat n \<le> length (recv_buf (app_get p w))"
  shows "ring_copy p b n w
    = wrap_write b (unat (p_write (log_buf (app_get p w))) mod LOG_BUFF_SIZE) (received p (unat n) w) w"
proof -
  let ?pos = "p_write (log_buf (app_get p w)) AND 0xFFFFF :: u32"
  have pos: "unat ?pos < LOG_BUFF_SIZE" by (simp only: ring_mask)
  have "unat (?pos + ucast n) = unat ?pos + unat n"
    using pos u16_bound [of n] by (simp add: unat_word_ariths unat_up)
  then have over: "?pos + ucast n > 0xFFFFF \<longleftrightarrow> unat ?pos + unat n > LOG_BUFF_SIZE - 1"
    by (simp add: word_less_nat_alt)
  have "unat (0x100000 - ?pos) = LOG_BUFF_SIZE - unat ?pos"
    using pos by (subst unat_sub) (simp_all add: word_le_nat_alt)
  then show ?thesis using assms over
    by (simp add: ring_copy_def wrap_write_def Let_def ring_mask [symmetric] received_def)
qed

lemma ring_distance_write:
  assumes "ring_len p w < LOG_BUFF_SIZE" "k < LOG_BUFF_SIZE"
  shows "((unat (p_read (log_buf (app_get p w))) + k) mod LOG_BUFF_SIZE + LOG_BUFF_SIZE
      - unat (p_write (log_buf (app_get p w))) mod LOG_BUFF_SIZE) mod LOG_BUFF_SIZE
    = (k + LOG_BUFF_SIZE - ring_len p w) mod LOG_BUFF_SIZE"
proof -
  let ?r = "p_read (log_buf (app_get p w))" and ?w = "p_write (log_buf (app_get p w))"
  have "?w = ?r + of_nat (ring_len p w)" by (simp add: ring_len_def)
  then have "unat (?w AND 0xFFFFF) = (unat ?r + ring_len p w) mod LOG_BUFF_SIZE"
    by (simp only: ring_mask_plus)
  then have "unat ?w mod LOG_BUFF_SIZE = (unat ?r + ring_len p w) mod LOG_BUFF_SIZE" by (simp only: ring_mask)
  then show ?thesis by (simp only: ring_distance [OF less_imp_le [OF assms(1)] assms(2)])
qed

text \<open>The bytes of the ring after a copy of \<open>bs\<close> to \<open>p_write\<close>.\<close>

lemma ring_byte_written:
  assumes "ring_len p w + length bs < LOG_BUFF_SIZE" "k < ring_len p w + length bs"
    and v: "v = wrap_write b (unat (p_write (log_buf (app_get p w))) mod LOG_BUFF_SIZE) bs w"
  shows "sd_mem v (b + (unat (p_read (log_buf (app_get p w))) + k) mod LOG_BUFF_SIZE)
    = (if k < ring_len p w then ring_byte p b w k else bs ! (k - ring_len p w))"
proof -
  let ?L = "ring_len p w"
  have "(k + LOG_BUFF_SIZE - ?L) mod LOG_BUFF_SIZE = (if k < ?L then k + LOG_BUFF_SIZE - ?L else k - ?L)"
  proof (cases "k < ?L")
    case False
    then have "k + LOG_BUFF_SIZE - ?L = (k - ?L) + LOG_BUFF_SIZE" by linarith
    moreover have "k - ?L < LOG_BUFF_SIZE" using assms by linarith
    ultimately show ?thesis using False by (simp only: mod_add_self2 mod_less) simp
  next
    case True
    then have "k + LOG_BUFF_SIZE - ?L < LOG_BUFF_SIZE" using assms by linarith
    with True show ?thesis by (simp only: mod_less) simp
  qed
  moreover have "\<not> k + LOG_BUFF_SIZE - ?L < length bs" if "k < ?L" using that assms(1) by linarith
  moreover have "k - ?L < length bs" if "\<not> k < ?L" using that assms(2) by linarith
  moreover have "k < LOG_BUFF_SIZE" "?L < LOG_BUFF_SIZE" "length bs < LOG_BUFF_SIZE" using assms by linarith+
  ultimately show ?thesis
    by (simp add: v wrap_write_mem ring_distance_write ring_byte_def)
qed

lemma ring_room:
  assumes "ring_len p w < LOG_BUFF_SIZE"
  shows "p_write (log_buf (app_get p w)) - p_read (log_buf (app_get p w)) + ucast (n :: u16) \<ge> 0x100000
    \<longleftrightarrow> LOG_BUFF_SIZE \<le> ring_len p w + unat n"
proof -
  have "unat (p_write (log_buf (app_get p w)) - p_read (log_buf (app_get p w)) + ucast n) = ring_len p w + unat n"
    using assms u16_bound [of n] by (simp add: ring_len_def unat_word_ariths unat_up)
  then show ?thesis by (simp only: word_le_nat_alt) simp
qed

lemma ring_okD:
  assumes "ring_ok p i w"
  shows "has_app p w" "gState (hosts w p) = HOST_CLASS" "log_sd (log_buf (app_get p w)) = Some i"
    "length (recv_buf (app_get p w)) = RECV_BUFF_SIZE + 1" "ring_len p w < LOG_BUFF_SIZE"
    "unat (cdc_InPipe (data_itf p w)) < length (hc w)" "app_data (hosts w p) \<noteq> NULL"
  using assms by (simp_all add: ring_ok_def has_app_def)

lemma callback_full:
  assumes "ring_ok p i w" "LOG_BUFF_SIZE \<le> ring_len p w + unat (packet_size p w)"
  shows "USBH_CDC_ReceiveCallback p w = w"
  using assms(2) ring_room [OF ring_okD(5) [OF assms(1)]] ring_okD [OF assms(1)]
  by (simp add: USBH_CDC_ReceiveCallback_def Let_def)

lemma wrap_write_frame [simp]:
  "hosts (wrap_write b P bs w) = hosts w" "apps (wrap_write b P bs w) = apps w" "hc (wrap_write b P bs w) = hc w"
  "sd_map (wrap_write b P bs w) = sd_map w" "faults (wrap_write b P bs w) = faults w"
  "app_get p (wrap_write b P bs w) = app_get p w" "has_app p (wrap_write b P bs w) = has_app p w"
  "data_itf p (wrap_write b P bs w) = data_itf p w"
  by (simp_all add: wrap_write_def)

text \<open>The callback when there is room: the copy, the new \<open>p_write\<close>, the cleared buffer, the next reception.\<close>

lemma callback_room:
  assumes ok: "ring_ok p i w" and n: "n = packet_size p w" "unat n \<le> RECV_BUFF_SIZE + 1"
    and room: "ring_len p w + unat n < LOG_BUFF_SIZE"
  shows "USBH_CDC_ReceiveCallback p w =
    snd (USBH_CDC_Receive p (BApp (app_data (hosts w p)) 0) 128
     (clear_recv p (upd_app p (\<lambda>a. a\<lparr>log_buf := (log_buf a)\<lparr>p_write := p_write (log_buf a) + ucast n\<rparr>\<rparr>)
      (wrap_write (ring_base i w) (unat (p_write (log_buf (app_get p w))) mod LOG_BUFF_SIZE)
        (received p (unat n) w) w))))"
proof -
  have "\<not> p_write (log_buf (app_get p w)) - p_read (log_buf (app_get p w)) + ucast n \<ge> 0x100000"
    using ring_room [OF ring_okD(5) [OF ok]] room by simp
  then show ?thesis using ring_okD [OF ok] n(2)
    by (simp add: USBH_CDC_ReceiveCallback_def Let_def n(1) [symmetric] ring_copy_wrap ring_base_def clear_recv_def
        del: not_le)
qed

lemma data_itf_cong:
  "cdata v = cdata w \<Longrightarrow> pClassData (hosts v p) = pClassData (hosts w p) \<Longrightarrow> data_itf p v = data_itf p w"
  by (simp add: data_itf_def cdc_get_def cdc_ptr_def)

lemma callback_app:
  assumes "ring_ok p i w" "n = packet_size p w" "unat n \<le> RECV_BUFF_SIZE + 1"
    and "ring_len p w + unat n < LOG_BUFF_SIZE"
  shows "app_get p (USBH_CDC_ReceiveCallback p w) =
      (app_get p w)\<lparr>log_buf := (log_buf (app_get p w))\<lparr>p_write := p_write (log_buf (app_get p w)) + ucast n\<rparr>,
        recv_buf := replicate RECV_BUFF_SIZE 0 @ drop RECV_BUFF_SIZE (recv_buf (app_get p w))\<rparr>"
    and "has_app p (USBH_CDC_ReceiveCallback p w)"
    and "hosts (USBH_CDC_ReceiveCallback p w) = hosts w" "hc (USBH_CDC_ReceiveCallback p w) = hc w"
    and "sd_map (USBH_CDC_ReceiveCallback p w) = sd_map w"
    and "data_itf p (USBH_CDC_ReceiveCallback p w) = data_itf p w"
    and "sd_mem (USBH_CDC_ReceiveCallback p w) = sd_mem (wrap_write (ring_base i w)
      (unat (p_write (log_buf (app_get p w))) mod LOG_BUFF_SIZE) (received p (unat n) w) w)"
proof -
  note c = callback_room [OF assms]
  have h: "has_app p w" using ring_okD [OF assms(1)] by simp
  note R = app_get_cong [OF Receive_frame(2) arg_cong [OF Receive_frame(1), of "\<lambda>h. app_data (h p)"]]
    has_app_cong [OF Receive_frame(2) arg_cong [OF Receive_frame(1), of "\<lambda>h. app_data (h p)"]]
  show "app_get p (USBH_CDC_ReceiveCallback p w) =
      (app_get p w)\<lparr>log_buf := (log_buf (app_get p w))\<lparr>p_write := p_write (log_buf (app_get p w)) + ucast n\<rparr>,
        recv_buf := replicate RECV_BUFF_SIZE 0 @ drop RECV_BUFF_SIZE (recv_buf (app_get p w))\<rparr>"
    unfolding c R(1) using h by (simp add: clear_recv_def)
  show "has_app p (USBH_CDC_ReceiveCallback p w)"
    unfolding c R(2) using h by (simp add: clear_recv_def)
  show "hosts (USBH_CDC_ReceiveCallback p w) = hosts w" "hc (USBH_CDC_ReceiveCallback p w) = hc w"
    "sd_map (USBH_CDC_ReceiveCallback p w) = sd_map w"
    "sd_mem (USBH_CDC_ReceiveCallback p w) = sd_mem (wrap_write (ring_base i w)
      (unat (p_write (log_buf (app_get p w))) mod LOG_BUFF_SIZE) (received p (unat n) w) w)"
    unfolding c by (simp_all add: clear_recv_def)
  have "data_itf p (clear_recv p (upd_app p f (wrap_write b P bs w))) = data_itf p w" for f b P bs
    by (subst data_itf_cong [of _ w]) (simp_all add: clear_recv_def wrap_write_def)
  then show "data_itf p (USBH_CDC_ReceiveCallback p w) = data_itf p w" unfolding c by simp
qed

lemma callback_puts:
  assumes ok: "ring_ok p i w" and n: "n = packet_size p w" "unat n \<le> RECV_BUFF_SIZE + 1"
    and room: "ring_len p w + unat n < LOG_BUFF_SIZE"
  shows "ring_ok p i (USBH_CDC_ReceiveCallback p w)"
    and "ring_content p (ring_base i w) (USBH_CDC_ReceiveCallback p w)
      = ring_content p (ring_base i w) w @ received p (unat n) w"
    and "rx_total_num (app_get p (USBH_CDC_ReceiveCallback p w)) = rx_total_num (app_get p w)"
    and "ring_base i (USBH_CDC_ReceiveCallback p w) = ring_base i w"
proof -
  let ?v = "USBH_CDC_ReceiveCallback p w"
  note c = callback_app [OF assms]
  have len: "ring_len p ?v = ring_len p w + unat n"
    using room ring_okD(5) [OF ok] u16_bound [of n]
    by (simp add: ring_len_def c(1) diff_add_eq [symmetric] unat_word_ariths unat_up)
  show "ring_ok p i ?v" using ring_okD [OF ok] room c len by (simp add: ring_ok_def)
  show "rx_total_num (app_get p ?v) = rx_total_num (app_get p w)" by (simp add: c)
  show "ring_base i ?v = ring_base i w" by (simp add: ring_base_def c)
  show "ring_content p (ring_base i w) ?v = ring_content p (ring_base i w) w @ received p (unat n) w"
  proof (rule nth_equalityI)
    show "length (ring_content p (ring_base i w) ?v)
        = length (ring_content p (ring_base i w) w @ received p (unat n) w)"
      by (simp add: ring_content_def received_def len)
    fix k assume "k < length (ring_content p (ring_base i w) ?v)"
    then have k: "k < ring_len p w + length (received p (unat n) w)"
      by (simp add: ring_content_def len received_def)
    have r: "ring_len p w + length (received p (unat n) w) < LOG_BUFF_SIZE" using room by (simp add: received_def)
    have "ring_content p (ring_base i w) ?v ! k = ring_byte p (ring_base i w) ?v k"
      using k by (simp add: ring_content_def len received_def)
    also have "\<dots> = (if k < ring_len p w then ring_byte p (ring_base i w) w k
        else received p (unat n) w ! (k - ring_len p w))"
      unfolding ring_byte_def [of _ _ ?v] c using ring_byte_written [OF r k refl] by simp
    also have "\<dots> = (ring_content p (ring_base i w) w @ received p (unat n) w) ! k"
      by (simp add: ring_content_def nth_append)
    finally show "ring_content p (ring_base i w) ?v ! k
        = (ring_content p (ring_base i w) w @ received p (unat n) w) ! k" .
  qed
qed

section \<open>The ring as a queue\<close>

text \<open>What the controller does when a packet \<open>bs\<close> has come in: the buffer and the channel's byte count.\<close>

definition arrive :: "ptr \<Rightarrow> u8 list \<Rightarrow> usb \<Rightarrow> usb" where
  "arrive p bs w =
    upd_hc (cdc_InPipe (data_itf p w)) (\<lambda>c. c\<lparr>hc_xfer_count := of_nat (length bs)\<rparr>)
      (upd_app p (\<lambda>a. a\<lparr>recv_buf := bs @ drop (length bs) (recv_buf a)\<rparr>) w)"

lemma upd_hc_ring [simp]:
  "apps (upd_hc c g w) = apps w" "sd_map (upd_hc c g w) = sd_map w" "sd_mem (upd_hc c g w) = sd_mem w"
  "app_get p (upd_hc c g w) = app_get p w" "has_app p (upd_hc c g w) = has_app p w"
  "data_itf p (upd_hc c g w) = data_itf p w" "sd_busy (upd_hc c g w) = sd_busy w"
  by (simp_all add: upd_hc_def app_get_def has_app_def data_itf_def cdc_get_def cdc_ptr_def)

lemma data_itf_upd_app [simp]: "data_itf p (upd_app q f w) = data_itf p w"
  by (rule data_itf_cong) simp_all

lemma arrive_ring:
  assumes ok: "ring_ok p i w" and bs: "length bs \<le> RECV_BUFF_SIZE"
  shows "ring_ok p i (arrive p bs w)" "ring_content p b (arrive p bs w) = ring_content p b w"
    "rx_total_num (app_get p (arrive p bs w)) = rx_total_num (app_get p w)"
    "ring_base i (arrive p bs w) = ring_base i w"
    "unat (packet_size p (arrive p bs w)) = length bs"
    "received p (length bs) (arrive p bs w) = bs" "ring_len p (arrive p bs w) = ring_len p w"
proof -
  note r = ring_okD [OF ok]
  have a: "app_get p (arrive p bs w) = (app_get p w)\<lparr>recv_buf := bs @ drop (length bs) (recv_buf (app_get p w))\<rparr>"
    using r(1) by (simp add: arrive_def)
  show len: "ring_len p (arrive p bs w) = ring_len p w" by (simp add: ring_len_def a)
  have m: "sd_mem (arrive p bs w) = sd_mem w" "sd_map (arrive p bs w) = sd_map w" by (simp_all add: arrive_def)
  show "ring_content p b (arrive p bs w) = ring_content p b w" unfolding ring_content_def len
    by (simp add: ring_byte_def a m)
  show "ring_ok p i (arrive p bs w)"
    using r bs len a by (simp add: ring_ok_def) (simp add: arrive_def)
  show "rx_total_num (app_get p (arrive p bs w)) = rx_total_num (app_get p w)" by (simp add: a)
  show "ring_base i (arrive p bs w) = ring_base i w" by (simp add: ring_base_def m)
  have "USBH_CDC_GetLastReceivedDataSize p (arrive p bs w) = ucast (of_nat (length bs) :: u32)"
    using r(2,6) by (simp add: USBH_CDC_GetLastReceivedDataSize_def USBH_LL_GetLastXferSize_def
        HAL_HCD_HC_GetXferCount_def arrive_def)
  then show "unat (packet_size p (arrive p bs w)) = length bs"
    using bs by (simp add: unsigned_ucast_eq take_bit_nat_eq_self unat_of_nat)
  show "received p (length bs) (arrive p bs w) = bs"
    by (rule nth_equalityI) (simp_all add: received_def a, simp add: rd8_def)
qed

definition packet_put :: "ptr \<Rightarrow> u8 list \<Rightarrow> usb \<Rightarrow> usb" where
  "packet_put p bs w = USBH_CDC_ReceiveCallback p (arrive p bs w)"

text \<open>The tasks that run while the log task waits, taken not to touch the ring.\<close>

definition keeps_ring :: "(usb \<Rightarrow> usb) \<Rightarrow> ptr \<Rightarrow> nat \<Rightarrow> bool" where
  "keeps_ring E p i \<longleftrightarrow> (\<forall>w. ring_ok p i w \<longrightarrow> ring_ok p i (E w)
     \<and> ring_content p (ring_base i w) (E w) = ring_content p (ring_base i w) w
     \<and> rx_total_num (app_get p (E w)) = rx_total_num (app_get p w) \<and> ring_base i (E w) = ring_base i w)"

locale log_environment =
  fixes E :: "usb \<Rightarrow> usb" and p :: ptr and i b :: nat
  assumes env: "keeps_ring E p i"
begin

lemma put_room:
  assumes "ring_ok p i w \<and> ring_base i w = b" "length bs \<le> RECV_BUFF_SIZE" "ring_len p w + length bs < LOG_BUFF_SIZE"
  shows "(ring_ok p i (packet_put p bs w) \<and> ring_base i (packet_put p bs w) = b)
    \<and> ring_content p b (packet_put p bs w) = ring_content p b w @ bs
    \<and> rx_total_num (app_get p (packet_put p bs w)) = rx_total_num (app_get p w)"
proof -
  from assms have ok: "ring_ok p i w" and b: "ring_base i w = b" by simp_all
  note a = arrive_ring [OF ok assms(2)]
  have "unat (packet_size p (arrive p bs w)) \<le> RECV_BUFF_SIZE + 1"
    "ring_len p (arrive p bs w) + unat (packet_size p (arrive p bs w)) < LOG_BUFF_SIZE"
    using a assms(2,3) by simp_all
  from callback_puts [OF a(1) refl this] show ?thesis using a b by (simp add: packet_put_def)
qed

lemma put_no_room:
  assumes "ring_ok p i w \<and> ring_base i w = b" "length bs \<le> RECV_BUFF_SIZE" "LOG_BUFF_SIZE \<le> ring_len p w + length bs"
  shows "(ring_ok p i (packet_put p bs w) \<and> ring_base i (packet_put p bs w) = b)
    \<and> ring_content p b (packet_put p bs w) = ring_content p b w
    \<and> rx_total_num (app_get p (packet_put p bs w)) = rx_total_num (app_get p w)"
proof -
  from assms have ok: "ring_ok p i w" and b: "ring_base i w = b" by simp_all
  note a = arrive_ring [OF ok assms(2)]
  have "packet_put p bs w = arrive p bs w"
    unfolding packet_put_def using a assms(3) by (intro callback_full) simp_all
  then show ?thesis using a b by simp
qed

lemma round_empties:
  assumes "ring_ok p i w \<and> ring_base i w = b"
  shows "(ring_ok p i (log_round E p w) \<and> ring_base i (log_round E p w) = b)
    \<and> ring_content p b (log_round E p w) = []
    \<and> rx_total_num (app_get p (log_round E p w)) = rx_total_num (app_get p w) + of_nat (ring_len p w)"
proof (cases "ring_len p w = 0")
  case True
  let ?v = "out (Delay 10) w"
  from True have "p_write (log_buf (app_get p w)) - p_read (log_buf (app_get p w)) = 0"
    by (simp only: ring_len_def unat_eq_0)
  then have "log_round E p w = E ?v" by (simp only: log_round_def Let_def) (simp add: USBH_Delay_def)
  moreover have v: "ring_ok p i ?v" "ring_base i ?v = b" "ring_content p b ?v = []" "app_get p ?v = app_get p w"
    using assms True by (simp_all add: ring_ok_def ring_base_def ring_content_def ring_len_def out_def app_get_def
        has_app_def data_itf_def cdc_get_def cdc_ptr_def)
  moreover from env v(1) have "ring_ok p i (E ?v)"
    "ring_content p (ring_base i ?v) (E ?v) = ring_content p (ring_base i ?v) ?v"
    "rx_total_num (app_get p (E ?v)) = rx_total_num (app_get p ?v)" "ring_base i (E ?v) = ring_base i ?v"
    unfolding keeps_ring_def by blast+
  ultimately show ?thesis using v True by simp
next
  case False
  let ?lb = "log_buf (app_get p w)" and ?n = "p_write (log_buf (app_get p w)) - p_read (log_buf (app_get p w))"
  let ?v = "upd_app p (\<lambda>a. a\<lparr>rx_total_num := rx_total_num a + ?n,
                          log_buf := (log_buf a)\<lparr>p_read := p_read (log_buf a) + ?n\<rparr>\<rparr>) w"
  from False have r: "log_round E p w = ?v" by (simp add: log_round_def ring_len_def Let_def word_gt_0 unat_eq_0)
  from assms have h: "has_app p w" by (simp add: ring_ok_def)
  then have "ring_len p ?v = 0" by (simp add: ring_len_def)
  moreover have "?n = of_nat (ring_len p w)" by (simp add: ring_len_def)
  ultimately show ?thesis using assms h unfolding r
    by (simp add: ring_ok_def ring_base_def ring_content_def)
qed

end

sublocale log_environment \<subseteq> byte_queue LOG_BUFF_SIZE "\<lambda>bs. length bs \<le> RECV_BUFF_SIZE"
    "\<lambda>w. ring_ok p i w \<and> ring_base i w = b" "ring_content p b" "\<lambda>w. rx_total_num (app_get p w)"
    "packet_put p" "log_round E p"
proof
  fix w :: usb and bs :: "u8 list"
  assume ok: "ring_ok p i w \<and> ring_base i w = b"
  have len: "length (ring_content p b w) = ring_len p w" by (simp add: ring_content_def)
  show "(ring_ok p i (log_round E p w) \<and> ring_base i (log_round E p w) = b)
    \<and> ring_content p b (log_round E p w) = []
    \<and> rx_total_num (app_get p (log_round E p w)) = rx_total_num (app_get p w) + of_nat (length (ring_content p b w))"
    using round_empties [OF ok] by (simp only: len)
  assume bs: "length bs \<le> RECV_BUFF_SIZE"
  show "(ring_ok p i (packet_put p bs w) \<and> ring_base i (packet_put p bs w) = b)
      \<and> ring_content p b (packet_put p bs w) = ring_content p b w @ bs
      \<and> rx_total_num (app_get p (packet_put p bs w)) = rx_total_num (app_get p w)"
    if "length (ring_content p b w) + length bs < LOG_BUFF_SIZE"
    using put_room [OF ok bs] that by (simp only: len)
  show "(ring_ok p i (packet_put p bs w) \<and> ring_base i (packet_put p bs w) = b)
      \<and> ring_content p b (packet_put p bs w) = ring_content p b w
      \<and> rx_total_num (app_get p (packet_put p bs w)) = rx_total_num (app_get p w)"
    if "LOG_BUFF_SIZE \<le> length (ring_content p b w) + length bs"
    using put_no_room [OF ok bs] that by (simp only: len)
qed

context log_environment
begin

lemma as_queue: "byte_queue LOG_BUFF_SIZE (\<lambda>bs. length bs \<le> RECV_BUFF_SIZE)
    (\<lambda>w. ring_ok p i w \<and> ring_base i w = b) (ring_content p b) (\<lambda>w. rx_total_num (app_get p w))
    (packet_put p) (log_round E p)"
  by (rule byte_queue_axioms)

end

interpretation log_idle: log_environment id p i b for p i b
  by unfold_locales (simp add: keeps_ring_def)

section \<open>Properties\<close>

text \<open>
  C3: The ring of received bytes is a bounded first-in first-out queue. For any sequence of incoming
  packets (of at most 128 bytes) and rounds of the log task, starting from an empty ring at any
  position of its counters, the bytes in the ring are those of the abstract queue, in order, also
  where the ring or its 32-bit counters wrap; a packet is dropped as a whole exactly when it would not
  leave a free byte of the megabyte, and \<open>rx_total_num\<close> counts what was taken out.
\<close>

theorem ring_is_fifo:
  assumes "keeps_ring E p i" and "ring_ok p i w" and "ring_content p (ring_base i w) w = []"
    and "rx_total_num (app_get p w) = 0" and "\<forall>bs. Put bs \<in> set ops \<longrightarrow> length bs \<le> RECV_BUFF_SIZE"
  shows "ring_content p (ring_base i w) (fold (queue_do (packet_put p) (log_round E p)) ops w)
        = fst (fold (queue_step LOG_BUFF_SIZE) ops ([], []))
    \<and> rx_total_num (app_get p (fold (queue_do (packet_put p) (log_round E p)) ops w))
        = of_nat (length (snd (fold (queue_step LOG_BUFF_SIZE) ops ([], []))))"
proof -
  have "byte_queue LOG_BUFF_SIZE (\<lambda>bs. length bs \<le> RECV_BUFF_SIZE)
      (\<lambda>v. ring_ok p i v \<and> ring_base i v = ring_base i w) (ring_content p (ring_base i w))
      (\<lambda>w. rx_total_num (app_get p w)) (packet_put p) (log_round E p)"
    by (rule log_environment.as_queue [OF log_environment.intro [OF assms(1)]])
  from byte_queue.run_simulates [OF this, of w "[]" "[]" ops] assms show ?thesis by simp
qed

lemma upd_app_other:
  "app_data (hosts w q) \<noteq> app_data (hosts w p) \<Longrightarrow> app_get q (upd_app p f w) = app_get q w"
  by (auto simp: app_get_def upd_app_def Let_def chk_def split: option.splits)

lemma packet_put_other:
  assumes "ring_ok p i w" "length bs \<le> RECV_BUFF_SIZE" "app_data (hosts w q) \<noteq> app_data (hosts w p)"
  shows "app_get q (packet_put p bs w) = app_get q w"
proof -
  note a = arrive_ring [OF assms(1,2)]
  let ?w = "arrive p bs w"
  have ar: "app_get q ?w = app_get q w" "hosts ?w = hosts w" using assms(3) by (simp_all add: arrive_def upd_app_other)
  show ?thesis
  proof (cases "LOG_BUFF_SIZE \<le> ring_len p ?w + unat (packet_size p ?w)")
    case True
    then show ?thesis by (simp add: packet_put_def callback_full [OF a(1)] ar)
  next
    case False
    note R = app_get_cong [OF Receive_frame(2) arg_cong [OF Receive_frame(1), of "\<lambda>h. app_data (h q)"]]
    from False assms(2) a(5) have "unat (packet_size p ?w) \<le> RECV_BUFF_SIZE + 1" by simp
    from callback_room [OF a(1) refl this] False assms(3) show ?thesis
      by (simp add: packet_put_def R clear_recv_def upd_app_other ar)
  qed
qed

text \<open>
  C27: The receive callback writes only into the ring it belongs to. No byte of the SDRAM outside the
  megabyte of its buffer changes, so a second application with another buffer keeps its bytes.
\<close>

theorem ring_stays_in_buffer:
  assumes "ring_ok p i w" and "length bs \<le> RECV_BUFF_SIZE"
  shows "(\<forall>x. x < ring_base i w \<or> ring_base i w + LOG_BUFF_SIZE \<le> x \<longrightarrow>
        sd_mem (packet_put p bs w) x = sd_mem w x)
    \<and> (ring_base j w + LOG_BUFF_SIZE \<le> ring_base i w \<or> ring_base i w + LOG_BUFF_SIZE \<le> ring_base j w \<longrightarrow>
        app_data (hosts w q) \<noteq> app_data (hosts w p) \<longrightarrow>
        ring_content q (ring_base j w) (packet_put p bs w) = ring_content q (ring_base j w) w)"
proof -
  note a = arrive_ring [OF assms]
  let ?w = "arrive p bs w"
  have mem: "sd_mem (packet_put p bs w) x = sd_mem w x"
    if x: "x < ring_base i w \<or> ring_base i w + LOG_BUFF_SIZE \<le> x" for x
  proof (cases "LOG_BUFF_SIZE \<le> ring_len p ?w + unat (packet_size p ?w)")
    case True
    then show ?thesis by (simp add: packet_put_def callback_full [OF a(1)]) (simp add: arrive_def)
  next
    case False
    have "sd_mem (packet_put p bs w) x = sd_mem ?w x"
      using False assms(2) a(4-7) x callback_app(7) [OF a(1) refl]
      by (simp add: packet_put_def wrap_write_outside)
    then show ?thesis by (simp add: arrive_def)
  qed
  have "ring_byte q (ring_base j w) (packet_put p bs w) k = ring_byte q (ring_base j w) w k"
    if "ring_base j w + LOG_BUFF_SIZE \<le> ring_base i w \<or> ring_base i w + LOG_BUFF_SIZE \<le> ring_base j w"
      "app_data (hosts w q) \<noteq> app_data (hosts w p)" for k
  proof -
    let ?x = "ring_base j w + (unat (p_read (log_buf (app_get q w))) + k) mod LOG_BUFF_SIZE"
    have "(unat (p_read (log_buf (app_get q w))) + k) mod LOG_BUFF_SIZE < LOG_BUFF_SIZE" by simp
    then have "?x < ring_base i w \<or> ring_base i w + LOG_BUFF_SIZE \<le> ?x" using that(1) by linarith
    from mem [OF this] show ?thesis by (simp add: ring_byte_def packet_put_other [OF assms that(2)])
  qed
  with mem show ?thesis by (auto simp: ring_content_def ring_len_def packet_put_other [OF assms])
qed

section \<open>Concrete instances\<close>

text \<open>
  A running application on entry 1 whose counters are two bytes before their wrap, and a second one on
  entry 0.
\<close>

definition ring_world :: usb where
  "ring_world = reset_usb\<lparr>
     hosts := (\<lambda>p. zero_host\<lparr>gState := HOST_CLASS, app_data := (if p = 7 then 51 else 50)\<rparr>),
     apps := (\<lambda>_. None)(50 \<mapsto> zero_app\<lparr>log_buf := \<lparr>log_sd = Some 1, p_read = 0xFFFFFFFE, p_write = 0xFFFFFFFE\<rparr>\<rparr>,
                       51 \<mapsto> zero_app\<lparr>log_buf := \<lparr>log_sd = Some 0, p_read = 0, p_write = 3\<rparr>\<rparr>)\<rparr>"

lemma ring_world_ok:
  "ring_ok hUSBHost 1 ring_world" "ring_content hUSBHost b ring_world = []"
  "rx_total_num (app_get hUSBHost ring_world) = 0" "ring_base 1 ring_world = LOG_BUFF_SIZE" "ring_base 0 ring_world = 0"
  "app_data (hosts ring_world 7) \<noteq> app_data (hosts ring_world hUSBHost)"
  by (simp_all add: ring_ok_def has_app_def app_get_def ring_world_def ring_len_def ring_content_def ring_base_def
      data_itf_def cdc_get_def cdc_ptr_def reset_usb_def zero_cdc_def zero_app_def g_sdram_map_def)

theorem ring_is_fifo_witness:
  "ring_content hUSBHost (ring_base 1 ring_world) (log_round id hUSBHost
      (packet_put hUSBHost [4] (packet_put hUSBHost [1, 2, 3] ring_world))) = []
   \<and> rx_total_num (app_get hUSBHost (log_round id hUSBHost
      (packet_put hUSBHost [4] (packet_put hUSBHost [1, 2, 3] ring_world)))) = 4"
  using ring_is_fifo [OF log_idle.env ring_world_ok(1-3), of "[Put [1, 2, 3], Put [4], Take]"]
  by (simp add: ring_world_ok)

theorem ring_stays_in_buffer_witness:
  "sd_mem (packet_put hUSBHost [1, 2, 3] ring_world) 5 = 0
   \<and> ring_content 7 0 (packet_put hUSBHost [1, 2, 3] ring_world) = ring_content 7 0 ring_world"
  using ring_stays_in_buffer [OF ring_world_ok(1), of "[1, 2, 3]" 0 7] ring_world_ok
  by (simp add: ring_world_def reset_usb_def)

end
