(* ===== verification/App_CH340_Props.thy ===== *)
theory App_CH340_Props
  imports App_CH340_Ring
begin

text \<open>
  The life of the CH340 application: what its creation allocates, how its thread ends when it is told
  to stop and what is free then.
\<close>

section \<open>What the operations leave of the application object\<close>

lemma app_get_upd_cdc [simp]:
  "app_get q (upd_cdc p f w) = app_get q w" "has_app q (upd_cdc p f w) = has_app q w"
  by (simp_all add: app_get_def has_app_def)

lemma app_get_out [simp]: "app_get p (out x w) = app_get p w" "has_app p (out x w) = has_app p w"
  by (simp_all add: app_get_def has_app_def out_def)

lemma driver_calls_app [simp]:
  "app_get q (snd (USBH_CDC_Receive p b n w)) = app_get q w"
  "has_app q (snd (USBH_CDC_Receive p b n w)) = has_app q w"
  "app_get q (snd (USBH_CDC_Transmit p b n w)) = app_get q w"
  "has_app q (snd (USBH_CDC_Transmit p b n w)) = has_app q w"
  "app_get q (snd (USBH_CDC_AttachInit p w)) = app_get q w"
  "app_get q (snd (USBH_CDC_SetLineCoding p lc w)) = app_get q w"
  by (simp_all add: USBH_CDC_Receive_def USBH_CDC_Transmit_def USBH_CDC_AttachInit_def USBH_CDC_SetLineCoding_def)

lemma driver_calls_frame [simp]:
  "hosts (snd (USBH_CDC_Transmit p b n w)) = hosts w" "outs (snd (USBH_CDC_Transmit p b n w)) = outs w"
  "sd_map (snd (USBH_CDC_Transmit p b n w)) = sd_map w" "sd_busy (snd (USBH_CDC_Transmit p b n w)) = sd_busy w"
  "outs (snd (USBH_CDC_Receive p b n w)) = outs w" "sd_busy (snd (USBH_CDC_Receive p b n w)) = sd_busy w"
  by (simp_all add: USBH_CDC_Transmit_def USBH_CDC_Receive_def)

text \<open>A message for an empty queue is there at once.\<close>

lemma app_put_empty:
  "AppliEvent (app_get p w) = [] \<Longrightarrow> app_put E p v w = upd_app p (\<lambda>a. a\<lparr>AppliEvent := (if AppliEvent a = [] then [v] else AppliEvent a)\<rparr>) w"
  by (simp add: app_put_def)

section \<open>A stop that is delivered\<close>

text \<open>The thread sends lines on entry \<open>i\<close>; it has been told to stop.\<close>

definition sending :: "ptr \<Rightarrow> nat \<Rightarrow> usb \<Rightarrow> bool" where
  "sending p i w \<longleftrightarrow> p \<noteq> NULL \<and> has_app p w \<and> sd_ok w \<and> i < 5 \<and> log_sd (log_buf (app_get p w)) = Some i
     \<and> AppliEvent (app_get p w) = [] \<and> g_stop_flag (app_get p w) = 0"

definition told_to_stop :: "ptr \<Rightarrow> nat \<Rightarrow> usb \<Rightarrow> bool" where
  "told_to_stop p i w \<longleftrightarrow> p \<noteq> NULL \<and> has_app p w \<and> sd_ok w \<and> i < 5 \<and> log_sd (log_buf (app_get p w)) = Some i
     \<and> AppliEvent (app_get p w) = [CH340_APPLICATION_DISCONNECT] \<and> g_stop_flag (app_get p w) \<noteq> 0"

lemma sd_ok_upd_app [simp]: "sd_ok (upd_app p f w) = sd_ok w"
  by (simp add: sd_ok_def)

lemma sd_used_upd_app [simp]: "sd_used (upd_app p f w) = sd_used w"
  by (simp add: sd_used_def)

lemma stop_tells: "sending p i w \<Longrightarrow> told_to_stop p i (snd (stop_CH340_Application F p w))"
  by (simp add: sending_def told_to_stop_def stop_CH340_Application_def has_app_def [symmetric] app_put_empty)
     (simp add: has_app_def)

text \<open>The rest of the system stops the application before \<open>N\<close> calls have been made.\<close>

locale stopped_in_time =
  fixes E :: "usb \<Rightarrow> usb" and p :: ptr and i N :: nat
  assumes goes_on: "sending p i w \<Longrightarrow>
        sending p i (E w) \<and> length (outs w) \<le> length (outs (E w)) \<or> told_to_stop p i (E w)"
    and in_time: "sending p i w \<Longrightarrow> N \<le> length (outs w) \<Longrightarrow> told_to_stop p i (E w)"
begin

lemma send_loop_ends:
  "sending p i w \<Longrightarrow> \<exists>m v. send_loop E p n w = Some (m, v) \<and> told_to_stop p i v"
proof (induction "N - length (outs w)" arbitrary: n w rule: less_induct)
  case less
  let ?t = "snd (USBH_CDC_Transmit p (BSend p 0) (hello_length n) w)"
  let ?v = "out (Delay 10) (upd_app p (\<lambda>a. a\<lparr>tx_total_num := tx_total_num a + hello_length n\<rparr>) ?t)"
  from less.prems have h: "has_app p ?t" "g_stop_flag (app_get p w) = 0" by (simp_all add: sending_def)
  from less.prems h(1) have v: "sending p i ?v" "length (outs ?v) = Suc (length (outs w))"
    by (simp_all add: sending_def sd_ok_def) (simp_all add: out_def)
  have step: "send_loop E p n w = send_loop E p (n + 1) (E ?v)"
    by (simp add: send_loop.simps [of E p n w] h(2) Let_def USBH_Delay_def)
  show ?case
  proof (cases "told_to_stop p i (E ?v)")
    case True
    then show ?thesis unfolding step by (simp add: send_loop.simps told_to_stop_def)
  next
    case False
    with goes_on [OF v(1)] v(2) have s: "sending p i (E ?v)" "Suc (length (outs w)) \<le> length (outs (E ?v))" by simp_all
    from False in_time [OF v(1)] v(2) have "\<not> N \<le> Suc (length (outs w))" by metis
    with s have "sending p i (E ?v)" "N - length (outs (E ?v)) < N - length (outs w)" by (simp, linarith)
    from less.hyps [OF this(2,1)] show ?thesis unfolding step .
  qed
qed

lemma loop_ends:
  assumes "sending p i (upd_app p (AppliEvent_update (\<lambda>_. [])) w)" "has_app p w"
    and "AppliEvent (app_get p w) = [CH340_APPLICATION_RUNNING]" "cdc_state (cdc_get p w) = CDC_IDLE_STATE"
  shows "\<exists>m v. app_loop E p (n, w) = Some (m, v) \<and> has_app p v \<and> sd_ok v \<and> log_sd (log_buf (app_get p v)) = Some i"
proof -
  let ?q = "upd_app p (\<lambda>a. a\<lparr>AppliEvent := []\<rparr>) w"
  let ?s = "set_app_state p CH340_APPLICATION_RUNNING ?q"
  let ?r = "snd (USBH_CDC_Receive p (BApp (app_data (hosts (clear_recv p ?s) p)) 0) 128 (clear_recv p ?s))"
  from assms have g: "g_stop_flag (app_get p w) = 0" by (simp add: sending_def)
  have r: "sending p i ?r"
    using assms(1,2) by (simp add: sending_def set_app_state_def clear_recv_def sd_ok_def)
  from send_loop_ends [OF r] obtain m v where v: "send_loop E p n ?r = Some (m, v)" "told_to_stop p i v" by blast
  let ?d = "upd_app p (\<lambda>a. a\<lparr>AppliEvent := []\<rparr>) v"
  let ?e = "set_app_state p CH340_APPLICATION_DISCONNECT ?d"
  have "cdc_get p ?s = cdc_get p w" by (simp add: cdc_get_def cdc_ptr_def set_app_state_def)
  with assms(4) v(1) have ev: "app_event E p CH340_APPLICATION_RUNNING (n, ?q) = Some (m, v)"
    by (simp add: app_event_def Let_def)
  have "wait_message E p w = Some (CH340_APPLICATION_RUNNING, ?q)"
    by (simp add: wait_message.simps assms(3))
  with ev g have 1: "app_loop E p (n, w) = app_loop E p (m, v)" by (simp add: app_loop.simps [of E p "(n, w)"])
  show ?thesis
  proof (cases "Appli_state (app_get p v) = CH340_APPLICATION_DISCONNECT")
    case True
    with v(2) have "app_loop E p (m, v) = Some (m, v)" by (simp add: app_loop.simps told_to_stop_def)
    with 1 v(2) show ?thesis by (simp add: told_to_stop_def)
  next
    case False
    have "wait_message E p v = Some (CH340_APPLICATION_DISCONNECT, ?d)"
      using v(2) by (simp add: wait_message.simps told_to_stop_def)
    moreover have "app_event E p CH340_APPLICATION_DISCONNECT (m, ?d) = Some (m, ?e)" by (simp add: app_event_def)
    moreover have "app_loop E p (m, ?e) = Some (m, ?e)"
      using v(2) by (simp add: app_loop.simps told_to_stop_def set_app_state_def)
    ultimately have "app_loop E p (m, v) = Some (m, ?e)" using False by (simp add: app_loop.simps [of E p "(m, v)"])
    with 1 v(2) show ?thesis by (simp add: told_to_stop_def set_app_state_def)
  qed
qed

end

interpretation stop_at_once: stopped_in_time "\<lambda>w. snd (stop_CH340_Application F p w)" p i 0 for F p i
  by unfold_locales (simp_all add: stop_tells)

lemma delete_frees:
  assumes "p \<noteq> NULL" "has_app p w" "sd_ok w" "i < 5" "log_sd (log_buf (app_get p w)) = Some i"
  shows "\<exists>v. delete_CH340_Application p w = Some (USBH_OK, v) \<and> app_data (hosts v p) = NULL
    \<and> apps v (app_data (hosts w p)) = None \<and> sd_used v = sd_used w - {i} \<and> faults v = faults w"
proof -
  let ?f = "free_sdram (Some i) w"
  have f: "sd_ok ?f \<and> sd_used ?f = sd_used w - {i}" by (rule sdram.free_slot [OF assms(3,4)])
  have k: "hosts ?f = hosts w" "faults ?f = faults w" "apps ?f = apps w" by (simp_all add: free_sdram_def)
  then have h: "has_app p ?f" using assms(2) by (simp add: has_app_def)
  let ?u = "upd_app p (\<lambda>a. a\<lparr>log_buf := (log_buf a)\<lparr>log_sd := None\<rparr>\<rparr>) ?f"
  let ?v = "upd_host p (\<lambda>h. h\<lparr>app_data := NULL\<rparr>) (?u\<lparr>apps := (apps ?u)(app_data (hosts w p) := None)\<rparr>)"
  from assms h k have "delete_CH340_Application p w = Some (USBH_OK, ?v)"
    by (simp add: delete_CH340_Application_def has_app_def Let_def)
  moreover have "sd_used ?v = sd_used ?u" by (simp add: sd_used_def upd_host_def)
  moreover have "faults ?v = faults w" using h k by simp
  moreover have "apps ?v (app_data (hosts w p)) = None" by (simp add: upd_host_def)
  ultimately show ?thesis using f by auto
qed

section \<open>Creation\<close>

lemma malloc_gives: "mallocs w = [] \<Longrightarrow> malloc w = (brk w, w\<lparr>brk := Suc (brk w)\<rparr>)"
  by (simp add: malloc_def)

text \<open>The state in which \<open>new_CH340_Application\<close> asks for a buffer.\<close>

definition before_buffer :: "usb \<Rightarrow> usb" where
  "before_buffer w = (w\<lparr>brk := Suc (brk w), apps := (apps w)(brk w \<mapsto> zero_app)\<rparr>)\<lparr>brk := Suc (Suc (brk w))\<rparr>"

lemma new_eq:
  assumes "p \<noteq> NULL" "mallocs w = []" "0 < brk w"
  shows "new_CH340_Application p w =
    (let (sd, v) = alloc_sdram (-1) (before_buffer w)
     in case sd of
          None \<Rightarrow> (USBH_FAIL, v)
        | Some i \<Rightarrow>
            let v = sd_write (buffer_base (sd_map v ! i)) (replicate (unat (buffer_size (sd_map v ! i))) 0) v;
                v = v\<lparr>apps := (apps v)(brk w \<mapsto> zero_app\<lparr>log_buf := \<lparr>log_sd = Some i, p_read = 0, p_write = 0\<rparr>\<rparr>)\<rparr>
            in (USBH_OK, upd_host p (\<lambda>h. h\<lparr>app_data := brk w\<rparr>) v))"
  using assms by (simp add: new_CH340_Application_def malloc_gives Let_def before_buffer_def)

lemma before_buffer_frame [simp]:
  "sd_ok (before_buffer w) = sd_ok w" "sd_used (before_buffer w) = sd_used w"
  "hosts (before_buffer w) = hosts w" "faults (before_buffer w) = faults w"
  "apps (before_buffer w) = (apps w)(brk w \<mapsto> zero_app)" "sd_map (before_buffer w) = sd_map w"
  by (simp_all add: before_buffer_def sd_ok_def sd_used_def)

lemma alloc_sdram_frame:
  "alloc_sdram (-1) w = (r, v) \<Longrightarrow> hosts v = hosts w \<and> faults v = faults w \<and> apps v = apps w"
  by (auto simp: alloc_sdram_def split: if_splits option.splits)

lemma sd_ok_frame [simp]:
  "sd_ok (sd_write a bs w) = sd_ok w" "sd_used (sd_write a bs w) = sd_used w"
  "sd_ok (upd_host p f w) = sd_ok w" "sd_used (upd_host p f w) = sd_used w"
  "sd_ok (w\<lparr>apps := t\<rparr>) = sd_ok w" "sd_used (w\<lparr>apps := t\<rparr>) = sd_used w"
  by (simp_all add: sd_ok_def sd_used_def sd_write_def upd_host_def)

section \<open>Properties\<close>

text \<open>
  C26: The application ends when it is stopped while it sends. If the rest of the system stops it
  before some number of calls has been made, the thread leaves its send loop, takes the message,
  leaves its main loop and deletes the object: the buffer entry is free again, nothing else is,
  \<open>app_data\<close> is null, no access was wrong on the way out, and the host task that waits for the
  application in \<open>InterfaceDeInit\<close> goes on.
\<close>

theorem stopped_application_ends:
  assumes "stopped_in_time E p i N"
    and "sending p i (upd_app p (AppliEvent_update (\<lambda>_. [])) w)" and "has_app p w"
    and "AppliEvent (app_get p w) = [CH340_APPLICATION_RUNNING]" and "cdc_state (cdc_get p w) = CDC_IDLE_STATE"
  shows "\<exists>m v u. app_loop E p (n, w) = Some (m, v)
    \<and> delete_CH340_Application p v = Some (USBH_OK, u)
    \<and> sd_used u = sd_used v - {i} \<and> faults u = faults v \<and> app_data (hosts u p) = NULL
    \<and> apps u (app_data (hosts v p)) = None \<and> wait_app E p u = Some u"
proof -
  from stopped_in_time.loop_ends [OF assms] obtain m v where
    v: "app_loop E p (n, w) = Some (m, v)" "has_app p v" "sd_ok v" "log_sd (log_buf (app_get p v)) = Some i" by blast
  from assms(2) have "p \<noteq> NULL" "i < 5" by (simp_all add: sending_def)
  from delete_frees [OF this(1) v(2,3) this(2) v(4)] obtain u where
    u: "delete_CH340_Application p v = Some (USBH_OK, u)" "app_data (hosts u p) = NULL"
      "apps u (app_data (hosts v p)) = None" "sd_used u = sd_used v - {i}" "faults u = faults v" by blast
  from u(2) have "wait_app E p u = Some u" by (simp add: wait_app.simps)
  with v(1) u show ?thesis by blast
qed

text \<open>
  C35: Creation and deletion of an application cancel out. While one of the five buffers is free,
  \<open>new_CH340_Application\<close> gives the handle an object with the lowest free buffer and empty counters,
  without a wrong access, and \<open>delete_CH340_Application\<close> afterwards leaves the buffers as they were.
  With all buffers taken it fails, the handle gets no object, and the object that was allocated for it
  stays allocated.
\<close>

theorem new_delete_application:
  assumes "p \<noteq> NULL" and "sd_ok w" and "mallocs w = []" and "0 < brk w"
  shows "(sd_used w \<noteq> {..<5} \<longrightarrow> (\<exists>v u. new_CH340_Application p w = (USBH_OK, v)
      \<and> app_get p v = zero_app\<lparr>log_buf := \<lparr>log_sd = Some (LEAST i. i \<notin> sd_used w), p_read = 0, p_write = 0\<rparr>\<rparr>
      \<and> sd_used v = insert (LEAST i. i \<notin> sd_used w) (sd_used w) \<and> faults v = faults w
      \<and> delete_CH340_Application p v = Some (USBH_OK, u) \<and> sd_used u = sd_used w \<and> faults u = faults w
      \<and> apps u (brk w) = None \<and> app_data (hosts u p) = NULL))
    \<and> (sd_used w = {..<5} \<longrightarrow> (\<exists>v. new_CH340_Application p w = (USBH_FAIL, v)
      \<and> hosts v = hosts w \<and> apps v (brk w) = Some zero_app))"
proof (intro conjI impI)
  note new = new_eq [OF assms(1,3,4)]
  have ok: "sd_ok (before_buffer w)" using assms(2) by simp
  {
    assume "sd_used w \<noteq> {..<5}"
    then obtain i v where a: "alloc_sdram (-1) (before_buffer w) = (Some i, v)"
      using sdram.alloc_fails_iff [OF ok] by (cases "alloc_sdram (-1) (before_buffer w)") force
    from sdram.alloc_is_least [OF ok a] have least: "i = (LEAST i. i \<notin> sd_used w)"
      by (simp only: before_buffer_frame)
    from sdram.alloc_slot [OF ok a]
    have s: "sd_ok v" "i < 5" "i \<notin> sd_used w" "sd_used v = insert i (sd_used w)" by simp_all
    from alloc_sdram_frame [OF a] have f: "hosts v = hosts w" "faults v = faults w"
      "apps v = (apps w)(brk w \<mapsto> zero_app)" by simp_all
    define a where "a = zero_app\<lparr>log_buf := \<lparr>log_sd = Some i, p_read = 0, p_write = 0\<rparr>\<rparr>"
    let ?m = "sd_write (buffer_base (sd_map v ! i)) (replicate (unat (buffer_size (sd_map v ! i))) 0) v"
    let ?v = "upd_host p (\<lambda>h. h\<lparr>app_data := brk w\<rparr>) (?m\<lparr>apps := (apps ?m)(brk w \<mapsto> a)\<rparr>)"
    have n: "new_CH340_Application p w = (USBH_OK, ?v)" by (simp add: new a a_def Let_def)
    have g: "app_get p ?v = a" "has_app p ?v" using assms(4) by (simp_all add: app_get_def has_app_def upd_host_def)
    have o: "sd_ok ?v" "sd_used ?v = sd_used v" "faults ?v = faults w" using s(1) f(2) by simp_all
    have l: "log_sd (log_buf (app_get p ?v)) = Some i" unfolding g(1) by (simp add: a_def)
    from delete_frees [OF assms(1) g(2) o(1) s(2) l] obtain u where
      u: "delete_CH340_Application p ?v = Some (USBH_OK, u)" "app_data (hosts u p) = NULL"
        "apps u (app_data (hosts ?v p)) = None" "sd_used u = sd_used ?v - {i}" "faults u = faults ?v" by blast
    have "sd_used u = sd_used w" using u(4) o(2) s(3,4) by auto
    moreover have "apps u (brk w) = None" using u(3) by simp
    ultimately show "\<exists>v u. new_CH340_Application p w = (USBH_OK, v)
      \<and> app_get p v = zero_app\<lparr>log_buf := \<lparr>log_sd = Some (LEAST i. i \<notin> sd_used w), p_read = 0, p_write = 0\<rparr>\<rparr>
      \<and> sd_used v = insert (LEAST i. i \<notin> sd_used w) (sd_used w) \<and> faults v = faults w
      \<and> delete_CH340_Application p v = Some (USBH_OK, u) \<and> sd_used u = sd_used w \<and> faults u = faults w
      \<and> apps u (brk w) = None \<and> app_data (hosts u p) = NULL"
      unfolding least [symmetric] a_def [symmetric] using n g(1) o(2,3) u(1,2,5) s(4)
      by (intro exI [of _ ?v] exI [of _ u]) (simp only: simp_thms)
  }
  assume "sd_used w = {..<5}"
  then obtain v where a: "alloc_sdram (-1) (before_buffer w) = (None, v)"
    using sdram.alloc_fails_iff [OF ok] by (cases "alloc_sdram (-1) (before_buffer w)") force
  from alloc_sdram_frame [OF a] a
  show "\<exists>v. new_CH340_Application p w = (USBH_FAIL, v) \<and> hosts v = hosts w \<and> apps v (brk w) = Some zero_app"
    by (simp add: new)
qed

section \<open>Concrete instances\<close>

text \<open>The second application of \<open>ring_world\<close>, on entry 0, with a message for its thread.\<close>

definition message_world :: usb where
  "message_world = ring_world\<lparr>sd_map := (sd_map ring_world)[0 := (sd_map ring_world ! 0)\<lparr>is_used := 1\<rparr>],
     apps := (apps ring_world)(51 \<mapsto> zero_app\<lparr>AppliEvent := [CH340_APPLICATION_RUNNING],
       log_buf := \<lparr>log_sd = Some 0, p_read = 0, p_write = 0\<rparr>\<rparr>),
     cdata := (\<lambda>_. CdcData zero_cdc)\<rparr>"

lemma message_world_app:
  "app_get 7 message_world = zero_app\<lparr>AppliEvent := [CH340_APPLICATION_RUNNING],
       log_buf := \<lparr>log_sd = Some 0, p_read = 0, p_write = 0\<rparr>\<rparr>"
  "has_app 7 message_world" "sd_ok message_world" "cdc_state (cdc_get 7 message_world) = CDC_IDLE_STATE"
  by (simp_all add: message_world_def ring_world_def app_get_def has_app_def sd_ok_def reset_usb_def g_sdram_map_def
      cdc_get_def cdc_ptr_def zero_cdc_def)

theorem stopped_application_ends_witness:
  "\<exists>m v. app_loop (\<lambda>w. snd (stop_CH340_Application id 7 w)) 7 (0, message_world) = Some (m, v)"
proof -
  have "sending 7 0 (upd_app 7 (AppliEvent_update (\<lambda>_. [])) message_world)"
    using message_world_app by (simp add: sending_def zero_app_def)
  from stopped_application_ends [OF stop_at_once.stopped_in_time_axioms [where F = id] this message_world_app(2) _ message_world_app(4), where n = 0]
  show ?thesis using message_world_app(1) by auto
qed

theorem new_delete_application_witness:
  "\<exists>v. new_CH340_Application 7 message_world = (USBH_OK, v) \<and> sd_used v = insert (LEAST i. i \<notin> sd_used message_world) (sd_used message_world)"
proof -
  have "is_used (g_sdram_map ! 4) = 0" by (simp add: g_sdram_map_def del: upt_Suc upt_rec_numeral)
  moreover have "sd_map message_world ! 4 = g_sdram_map ! 4"
    by (simp add: message_world_def ring_world_def reset_usb_def)
  ultimately have "4 \<notin> sd_used message_world" by (simp add: sd_used_def)
  moreover have "(4 :: nat) \<in> {..<5}" by (simp only: lessThan_iff)
  ultimately have ne: "sd_used message_world \<noteq> {..<5}" by metis
  have "(7 :: nat) \<noteq> NULL" "mallocs message_world = []" "0 < brk message_world"
    by (simp_all add: message_world_def ring_world_def reset_usb_def)
  from conjunct1 [OF new_delete_application [OF this(1) message_world_app(3) this(2,3)]] ne
  obtain v where "new_CH340_Application 7 message_world = (USBH_OK, v)"
    "sd_used v = insert (LEAST i. i \<notin> sd_used message_world) (sd_used message_world)" by blast
  then show ?thesis by blast
qed

end
