(* ===== verification/Usb_CH340_Props.thy ===== *)
theory Usb_CH340_Props
  imports Usb_CH340_Data Usb_Class_Run App_CH340_Props
begin

text \<open>
  The CH340 driver: the divisor it computes for a baud rate, the requests its start-up and a new line
  coding put on the bus, and the transfer of data through its two channels.
\<close>

section \<open>The divisor of a baud rate\<close>

lemma quotient_bounds:
  assumes "0 < q" "q = c div r" "0 < (r::nat)"
  shows "r \<le> c div q" "c div Suc q < r"
proof -
  have "q * r \<le> c" using assms(2) by simp
  then show "r \<le> c div q" using assms(1) by (simp add: less_eq_div_iff_mult_less_eq mult.commute)
  have "c < Suc q * r" using dividend_less_div_times [of r c] assms(2,3) by simp
  then show "c div Suc q < r" by (simp add: div_less_iff_less_mult mult.commute)
qed

lemma nearest_quotient:
  assumes "0 < q" "q = c div r" "0 < (r::nat)" and "0 < j"
    and "k = (if c div q - r > r - c div Suc q then Suc q else q)"
  shows "\<bar>int (c div k) - int r\<bar> \<le> \<bar>int (c div j) - int r\<bar>"
proof (cases "j \<le> q")
  case True
  then have "c div q \<le> c div j" using \<open>0 < j\<close> by (rule div_le_mono2 [rotated])
  with quotient_bounds [OF assms(1-3)] assms(5) show ?thesis by auto
next
  case False
  then have "c div j \<le> c div Suc q" by (intro div_le_mono2) auto
  with quotient_bounds [OF assms(1-3)] assms(5) show ?thesis by auto
qed

lemma prescaler_range:
  assumes "46 \<le> unat baud" "unat baud \<le> 6000000" "prescaler baud = (b, c)"
  shows "0 < unat c div unat baud \<and> unat c div unat baud < 255"
proof -
  have "(unat c = 6000000 \<and> 23529 < unat baud) \<or> (unat c = 750000 \<and> unat baud \<le> 23529 \<and> 2941 < unat baud)
     \<or> (unat c = 93750 \<and> unat baud \<le> 2941 \<and> 367 < unat baud) \<or> (unat c = 11719 \<and> unat baud \<le> 367)"
    using assms(3) by (auto simp: prescaler_def word_less_nat_alt not_less split: if_splits)
  then show ?thesis using assms(1,2) by (auto simp: div_greater_zero_iff div_less_iff_less_mult)
qed

text \<open>Below 46 baud the quotient does not fit its eight bits: 45 baud becomes 2929.\<close>

lemma low_baud_rate: "ch34x_get_baud_rate 45 = Some (0 - 4, 0)" "ch34x_get_baud_rate 0 = None" "(11719 :: nat) div 4 = 2929"
  by (simp_all add: ch34x_get_baud_rate_def prescaler_def Let_def)

section \<open>The start-up sequence\<close>

text \<open>The request of each state and the state after it.\<close>

definition vendor_setup :: "u8 \<Rightarrow> u8 \<Rightarrow> u16 \<Rightarrow> u16 \<Rightarrow> u16 \<Rightarrow> USB_Setup_TypeDef" where
  "vendor_setup rt rq v ix n = \<lparr>bmRequestType = rt, bRequest = rq, wValue = v, wIndex = ix, wLength = n\<rparr>"

fun attach_setup :: "CH340_AttachStateTypeDef \<Rightarrow> USB_Setup_TypeDef" where
  "attach_setup CH340_READ_VENDOR_VERSION_STATE = vendor_setup 0xC0 0x5F 0 0 2"
| "attach_setup CH340_VENDOR_SERIAL_INIT_STATE = vendor_setup 0x40 0xA1 0 0 0"
| "attach_setup CH340_VENDOR_WRITE_1_STATE = vendor_setup 0x40 0x9A 0x1312 0xD982 0"
| "attach_setup CH340_VENDOR_WRITE_2_STATE = vendor_setup 0x40 0x9A 0x0F2C 0x0004 0"
| "attach_setup CH340_VENDOR_READ_1_STATE = vendor_setup 0xC0 0x95 0x2518 0 2"
| "attach_setup CH340_VENDOR_WRITE_3_STATE = vendor_setup 0x40 0x9A 0x2727 0 0"
| "attach_setup _ = vendor_setup 0x40 0xA4 0x009F 0 0"

fun attach_succ :: "CH340_AttachStateTypeDef \<Rightarrow> CH340_AttachStateTypeDef" where
  "attach_succ CH340_READ_VENDOR_VERSION_STATE = CH340_VENDOR_SERIAL_INIT_STATE"
| "attach_succ CH340_VENDOR_SERIAL_INIT_STATE = CH340_VENDOR_WRITE_1_STATE"
| "attach_succ CH340_VENDOR_WRITE_1_STATE = CH340_VENDOR_WRITE_2_STATE"
| "attach_succ CH340_VENDOR_WRITE_2_STATE = CH340_VENDOR_READ_1_STATE"
| "attach_succ CH340_VENDOR_READ_1_STATE = CH340_VENDOR_WRITE_3_STATE"
| "attach_succ CH340_VENDOR_WRITE_3_STATE = CH340_VENDOR_MODEM_OUT_STATE"
| "attach_succ _ = CH340_ATTACH_COMPLETE_STATE"

definition attach_at :: "nat \<Rightarrow> CH340_AttachStateTypeDef" where
  "attach_at k = (attach_succ ^^ k) CH340_READ_VENDOR_VERSION_STATE"

lemma attach_at_Suc: "attach_at (Suc k) = attach_succ (attach_at k)"
  by (simp add: attach_at_def)

lemma attach_at_early: "k < 6 \<Longrightarrow> attach_at k \<noteq> CH340_VENDOR_MODEM_OUT_STATE \<and> attach_at k \<noteq> CH340_ATTACH_COMPLETE_STATE"
proof -
  assume "k < 6"
  then have "k = 0 \<or> k = 1 \<or> k = 2 \<or> k = 3 \<or> k = 4 \<or> k = 5" by auto
  then show ?thesis by (auto simp: attach_at_def eval_nat_numeral)
qed

lemma attach_at_6: "attach_at 6 = CH340_VENDOR_MODEM_OUT_STATE"
  by (simp add: attach_at_def eval_nat_numeral)

definition attach_buf :: "CH340_AttachStateTypeDef \<Rightarrow> ptr \<Rightarrow> buf_ptr" where
  "attach_buf st q = (if wLength (attach_setup st) = 0 then BNull else BCdcBuf q)"

definition attach_calls :: "ptr \<Rightarrow> usb \<Rightarrow> CH340_AttachStateTypeDef \<Rightarrow> hal_call list" where
  "attach_calls p w st =
    (let s = attach_setup st
     in if wLength s = 0 then none_calls p w s else in_calls p w s (BCdcBuf (class_ptr p w)) (wLength s))"

lemma vendor_requests:
  "p \<noteq> NULL \<Longrightarrow> ch34x_vendor_read E rq v ix p b n w = put_request E p (vendor_setup 0xC0 rq v ix n) b n w"
  "p \<noteq> NULL \<Longrightarrow> ch34x_vendor_write E rq v ix p b n w = put_request E p (vendor_setup 0x40 rq v ix n) b n w"
  by (simp_all add: ch34x_vendor_read_def ch34x_vendor_write_def put_request_def vendor_setup_def)

lemma cdc_ptr_class: "cdc_ptr p w = class_ptr p w"
  by (simp add: cdc_ptr_def class_ptr_def)

lemma cdc_get_class: "cdata w (class_ptr p w) = CdcData c \<Longrightarrow> cdc_get p w = c"
  by (simp add: cdc_get_def cdc_ptr_class)

lemma upd_cdc_class:
  "cdata w (class_ptr p w) = CdcData c \<Longrightarrow>
     upd_cdc p f w = w\<lparr>cdata := (cdata w)(class_ptr p w := CdcData (f c))\<rparr>"
  by (simp add: upd_cdc_def cdc_ptr_class)

lemma class_at_cdc:
  "class_at p cs w0 (CdcData c) w \<Longrightarrow> class_at p cs w0 (CdcData (f c)) (upd_cdc p f w)"
  using class_at_upd [of p cs w0 "CdcData c" w "CdcData (f c)"] class_at_ptr [of p cs w0 "CdcData c" w]
  by (simp add: upd_cdc_class)

text \<open>The background process as one request of the start-up.\<close>

lemma process_attach:
  assumes "p \<noteq> NULL" "class_ptr p v \<noteq> NULL" "cdata v (class_ptr p v) = CdcData c"
    and "cdc_state c = CDC_ATTACH_INIT_STATE" "attach_state c = st"
  shows "st \<noteq> CH340_VENDOR_MODEM_OUT_STATE \<Longrightarrow> st \<noteq> CH340_ATTACH_COMPLETE_STATE \<Longrightarrow>
      USBH_CH340_Process E p v = (case put_request E p (attach_setup st) (attach_buf st (class_ptr p v)) (wLength (attach_setup st)) v of
        (r, v') \<Rightarrow> if r = USBH_OK then (USBH_BUSY, set_attach p (attach_succ st) v') else (USBH_BUSY, v'))"
    and "st = CH340_VENDOR_MODEM_OUT_STATE \<Longrightarrow>
      USBH_CH340_Process E p v = (case put_request E p (attach_setup st) BNull 0 v of
        (r, v') \<Rightarrow> if r = USBH_OK then (USBH_BUSY, set_cdc_state p CDC_IDLE_STATE (set_attach p CH340_ATTACH_COMPLETE_STATE v'))
                   else (USBH_BUSY, v'))"
  using assms
  by (cases st; simp add: USBH_CH340_Process_def cdc_ptr_class cdc_get_class ch34x_attach_def attach_step_def
      vendor_requests attach_buf_def case_prod_beta Let_def vendor_setup_def split: prod.splits)+

context tame_bus
begin

lemma vendor_stage:
  assumes "class_at p cs w0 (CdcData c) w"
    and "s = vendor_setup 0xC0 rq v ix 2 \<and> b \<noteq> BNull \<or> s = vendor_setup 0x40 rq v ix 0 \<and> b = BNull"
    and "\<And>v. class_ptr p v = class_ptr p w0 \<Longrightarrow> cdata v (class_ptr p v) = CdcData c \<Longrightarrow>
      fst (put_request E p s b (wLength s) v) = USBH_OK \<or> fst (put_request E p s b (wLength s) v) = USBH_BUSY \<Longrightarrow>
      g v = (case put_request E p s b (wLength s) v of (st, v') \<Rightarrow> if st = USBH_OK then k v' else (USBH_BUSY, v'))"
  shows "\<exists>m<7. \<exists>w1. class_at p (cs @ (if wLength s = 0 then none_calls p w0 s else in_calls p w0 s b (wLength s))) w0 (CdcData c) w1
     \<and> (\<forall>j. run_req (Suc m + j) g w = (case k w1 of (st, w2) \<Rightarrow>
           if st = USBH_BUSY then run_req j g w2 else (st, w2)))"
proof -
  have r: "request_ready p w" "RequestState (hosts w p) = CMD_SEND" using assms(1) by (simp_all add: class_at_def)
  note f = put_request_keeps [OF bus_tame] put_request_runs [OF r]
  from assms(2) show ?thesis
  proof
    assume s: "s = vendor_setup 0xC0 rq v ix 2 \<and> b \<noteq> BNull"
    then have "bmRequestType s AND 0x80 = 0x80" "wLength s \<noteq> 0" by (simp_all add: vendor_setup_def)
    from in_stage [OF assms(1) this f(1) f(2) assms(3)] \<open>wLength s \<noteq> 0\<close> show ?thesis by fastforce
  next
    assume s: "s = vendor_setup 0x40 rq v ix 0 \<and> b = BNull"
    then have "bmRequestType s AND 0x80 \<noteq> 0x80" "wLength s = 0" by (simp_all add: vendor_setup_def)
    from none_stage [OF assms(1) this f(1) f(2) assms(3)] obtain m w1 where
      "m < 5" "class_at p (cs @ none_calls p w0 s) w0 (CdcData c) w1"
      "\<forall>j. run_req (Suc m + j) g w = (case k w1 of (st, w2) \<Rightarrow> if st = USBH_BUSY then run_req j g w2 else (st, w2))"
      by blast
    with \<open>wLength s = 0\<close> show ?thesis by (intro exI [of _ m]) auto
  qed
qed

lemma attach_setup_shape:
  "\<exists>rq v ix. attach_setup st = vendor_setup 0xC0 rq v ix 2 \<and> attach_buf st q \<noteq> BNull
     \<or> attach_setup st = vendor_setup 0x40 rq v ix 0 \<and> attach_buf st q = BNull"
  by (cases st) (simp_all add: attach_buf_def vendor_setup_def)

lemma attach_stage:
  assumes "class_at p cs w0 (CdcData c) w" "class_ptr p w0 \<noteq> NULL" "cdc_state c = CDC_ATTACH_INIT_STATE"
    and "attach_state c \<noteq> CH340_VENDOR_MODEM_OUT_STATE" "attach_state c \<noteq> CH340_ATTACH_COMPLETE_STATE"
  shows "\<exists>m<7. \<exists>w2. class_at p (cs @ attach_calls p w0 (attach_state c)) w0
       (CdcData (c\<lparr>attach_state := attach_succ (attach_state c)\<rparr>)) w2
     \<and> (\<forall>j. run_req (Suc m + j) (USBH_CH340_Process E p) w = run_req j (USBH_CH340_Process E p) w2)"
proof -
  let ?s = "attach_setup (attach_state c)" and ?b = "attach_buf (attach_state c) (class_ptr p w0)"
  have "p \<noteq> NULL" using assms(1) by (simp add: class_at_def request_ready_def)
  then have g: "class_ptr p v = class_ptr p w0 \<Longrightarrow> cdata v (class_ptr p v) = CdcData c \<Longrightarrow>
      fst (put_request E p ?s ?b (wLength ?s) v) = USBH_OK \<or> fst (put_request E p ?s ?b (wLength ?s) v) = USBH_BUSY \<Longrightarrow>
      USBH_CH340_Process E p v = (case put_request E p ?s ?b (wLength ?s) v of
        (st, v') \<Rightarrow> if st = USBH_OK then (USBH_BUSY, set_attach p (attach_succ (attach_state c)) v') else (USBH_BUSY, v'))" for v
    using process_attach(1) [of p v c "attach_state c" E] assms(2-5) by simp
  from attach_setup_shape [of "attach_state c" "class_ptr p w0"] obtain rq x ix where
    sh: "?s = vendor_setup 0xC0 rq x ix 2 \<and> ?b \<noteq> BNull \<or> ?s = vendor_setup 0x40 rq x ix 0 \<and> ?b = BNull" by blast
  from vendor_stage [OF assms(1) sh g] obtain m w1 where m: "m < 7"
    "class_at p (cs @ (if wLength ?s = 0 then none_calls p w0 ?s else in_calls p w0 ?s ?b (wLength ?s))) w0 (CdcData c) w1"
    "\<forall>j. run_req (Suc m + j) (USBH_CH340_Process E p) w
      = run_req j (USBH_CH340_Process E p) (set_attach p (attach_succ (attach_state c)) w1)" by auto
  have "(if wLength ?s = 0 then none_calls p w0 ?s else in_calls p w0 ?s ?b (wLength ?s)) = attach_calls p w0 (attach_state c)"
    by (simp add: attach_calls_def attach_buf_def Let_def)
  with class_at_cdc [OF m(2), of "\<lambda>c. c\<lparr>attach_state := attach_succ (attach_state c)\<rparr>"] m(1,3) show ?thesis
    using class_at_cdc [OF m(2), of "\<lambda>d. d\<lparr>attach_state := attach_succ (attach_state c)\<rparr>"]
    by (intro exI [of _ m] conjI exI [of _ "set_attach p (attach_succ (attach_state c)) w1"]) (simp_all add: set_attach_def)
qed

lemma attach_runs:
  assumes "class_at p [] w (CdcData c) w" "class_ptr p w \<noteq> NULL" "cdc_state c = CDC_ATTACH_INIT_STATE"
    and "attach_state c = CH340_READ_VENDOR_VERSION_STATE" "n \<le> 6"
  shows "\<exists>m \<le> 7 * n. \<exists>v. class_at p (concat (map (\<lambda>k. attach_calls p w (attach_at k)) [0..<n])) w
       (CdcData (c\<lparr>attach_state := attach_at n\<rparr>)) v
     \<and> (\<forall>j. run_req (m + j) (USBH_CH340_Process E p) w = run_req j (USBH_CH340_Process E p) v)"
  using assms(5)
proof (induction n)
  case 0
  have "c\<lparr>attach_state := attach_at 0\<rparr> = c" using assms(4) by (simp add: attach_at_def)
  with assms(1) show ?case by (intro exI [of _ 0] conjI exI [of _ w]) simp_all
next
  case (Suc n)
  let ?c = "c\<lparr>attach_state := attach_at n\<rparr>"
  from Suc obtain m v where m: "m \<le> 7 * n"
    "class_at p (concat (map (\<lambda>k. attach_calls p w (attach_at k)) [0..<n])) w (CdcData ?c) v"
    "\<forall>j. run_req (m + j) (USBH_CH340_Process E p) w = run_req j (USBH_CH340_Process E p) v" by auto
  have "attach_state ?c \<noteq> CH340_VENDOR_MODEM_OUT_STATE" "attach_state ?c \<noteq> CH340_ATTACH_COMPLETE_STATE"
    using attach_at_early [of n] Suc.prems by simp_all
  from attach_stage [OF m(2) assms(2) _ this] assms(3) obtain i u where i: "i < 7"
    "class_at p (concat (map (\<lambda>k. attach_calls p w (attach_at k)) [0..<n]) @ attach_calls p w (attach_at n)) w
       (CdcData (c\<lparr>attach_state := attach_at (Suc n)\<rparr>)) u"
    "\<forall>j. run_req (Suc i + j) (USBH_CH340_Process E p) v = run_req j (USBH_CH340_Process E p) u"
    by (auto simp: attach_at_Suc)
  have "run_req (m + Suc i + j) (USBH_CH340_Process E p) w = run_req j (USBH_CH340_Process E p) u" for j
    using m(3) i(3) by (metis add.assoc)
  with m(1) i(1,2) show ?case by (intro exI [of _ "m + Suc i"] conjI exI [of _ u]) simp_all
qed

lemma attach_ends:
  assumes "class_at p [] w (CdcData c) w" "class_ptr p w \<noteq> NULL" "cdc_state c = CDC_ATTACH_INIT_STATE"
    and "attach_state c = CH340_READ_VENDOR_VERSION_STATE"
  shows "\<exists>v. run_req (50 + k) (USBH_CH340_Process E p) w = (USBH_OK, v)
    \<and> class_at p (concat (map (\<lambda>k. attach_calls p w (attach_at k)) [0..<7])) w
       (CdcData (c\<lparr>attach_state := CH340_ATTACH_COMPLETE_STATE, cdc_state := CDC_IDLE_STATE\<rparr>)) v"
proof -
  let ?g = "USBH_CH340_Process E p" and ?c = "c\<lparr>attach_state := CH340_VENDOR_MODEM_OUT_STATE\<rparr>"
  let ?cs = "concat (map (\<lambda>k. attach_calls p w (attach_at k)) [0..<6])"
  from attach_runs [OF assms, of 6] obtain m v where m: "m \<le> 42" "class_at p ?cs w (CdcData ?c) v"
    "\<forall>j. run_req (m + j) ?g w = run_req j ?g v" by (auto simp: attach_at_6)
  let ?s = "attach_setup CH340_VENDOR_MODEM_OUT_STATE"
  have p: "p \<noteq> NULL" using assms(1) by (simp add: class_at_def request_ready_def)
  have s: "wLength ?s = 0" by (simp add: vendor_setup_def)
  have g: "class_ptr p u = class_ptr p w \<Longrightarrow> cdata u (class_ptr p u) = CdcData ?c \<Longrightarrow>
      fst (put_request E p ?s BNull (wLength ?s) u) = USBH_OK \<or> fst (put_request E p ?s BNull (wLength ?s) u) = USBH_BUSY \<Longrightarrow>
      ?g u = (case put_request E p ?s BNull (wLength ?s) u of (st, v') \<Rightarrow>
        if st = USBH_OK then (USBH_BUSY, set_cdc_state p CDC_IDLE_STATE (set_attach p CH340_ATTACH_COMPLETE_STATE v'))
        else (USBH_BUSY, v'))" for u
    using process_attach(2) [of p u ?c CH340_VENDOR_MODEM_OUT_STATE E] assms(2,3) p s by simp
  have sh: "?s = vendor_setup 0xC0 rq x ix 2 \<and> BNull \<noteq> BNull \<or> ?s = vendor_setup 0x40 0xA4 0x009F 0 0 \<and> BNull = BNull"
    for rq x ix by simp
  from vendor_stage [OF m(2) _ g, of "0xA4" "0x009F" 0] s obtain i v1 where i: "i < 7"
    "class_at p (?cs @ none_calls p w ?s) w (CdcData ?c) v1"
    "\<forall>j. run_req (Suc i + j) ?g v
      = run_req j ?g (set_cdc_state p CDC_IDLE_STATE (set_attach p CH340_ATTACH_COMPLETE_STATE v1))" by auto
  let ?v = "set_cdc_state p CDC_IDLE_STATE (set_attach p CH340_ATTACH_COMPLETE_STATE v1)"
  have "class_at p (?cs @ none_calls p w ?s) w
      (CdcData (c\<lparr>attach_state := CH340_ATTACH_COMPLETE_STATE, cdc_state := CDC_IDLE_STATE\<rparr>)) ?v"
    using class_at_cdc [OF class_at_cdc [OF i(2), of "\<lambda>d. d\<lparr>attach_state := CH340_ATTACH_COMPLETE_STATE\<rparr>"],
        of "\<lambda>d. d\<lparr>cdc_state := CDC_IDLE_STATE\<rparr>"]
    by (simp add: set_cdc_state_def set_attach_def)
  moreover have "?cs @ none_calls p w ?s = concat (map (\<lambda>k. attach_calls p w (attach_at k)) [0..<7])"
    by (simp add: attach_calls_def s Let_def attach_at_6 upt_rec [of 6 7]
        upt_add_eq_append [of 0 6 1, simplified] del: upt_rec_numeral attach_setup.simps)
  ultimately have v: "class_at p (concat (map (\<lambda>k. attach_calls p w (attach_at k)) [0..<7])) w
      (CdcData (c\<lparr>attach_state := CH340_ATTACH_COMPLETE_STATE, cdc_state := CDC_IDLE_STATE\<rparr>)) ?v" by simp
  then have "cdc_get p ?v = c\<lparr>attach_state := CH340_ATTACH_COMPLETE_STATE, cdc_state := CDC_IDLE_STATE\<rparr>"
    using class_at_ptr cdc_get_class by metis
  then have "?g ?v = (USBH_OK, ?v)" by (simp add: USBH_CH340_Process_def)
  then have "run_req (Suc j) ?g ?v = (USBH_OK, ?v)" for j by simp
  with m(3) i(3) have "run_req (m + (Suc i + Suc j)) ?g w = (USBH_OK, ?v)" for j by metis
  from this [of "48 - m - i + k"] m(1) i(1) have "run_req (50 + k) ?g w = (USBH_OK, ?v)" by simp
  with v show ?thesis by blast
qed

end

section \<open>A new line coding\<close>

definition line_setup :: "CDC_LineCodingTypeDef \<Rightarrow> u8 \<Rightarrow> u8 \<Rightarrow> USB_Setup_TypeDef" where
  "line_setup lc factor divisor = vendor_setup 0x40 0xA1 (0x9c OR push_bit 8 (ucast (line_control lc OR 0xc0)))
     (0x80 OR ucast divisor OR push_bit 8 (ucast factor)) 0"

context tame_bus
begin

lemma line_coding_set:
  assumes "class_at p [] w (CdcData c) w" "class_ptr p w \<noteq> NULL" "cdc_state c = CDC_SET_LINE_CODING_STATE"
    and "pUserLineCoding c = LcCdc (class_ptr p w)" "dwDTERate (LineCoding c) \<noteq> 0"
    and "ch34x_get_baud_rate (dwDTERate (LineCoding c)) = Some (factor, divisor)"
  shows "\<exists>v. run_req (9 + k) (USBH_CH340_Process E p) w = (USBH_OK, v)
    \<and> class_at p (none_calls p w (line_setup (LineCoding c) factor divisor)) w (CdcData (c\<lparr>cdc_state := CDC_IDLE_STATE\<rparr>)) v"
proof -
  let ?g = "USBH_CH340_Process E p" and ?s = "line_setup (LineCoding c) factor divisor"
  have p: "p \<noteq> NULL" using assms(1) by (simp add: class_at_def request_ready_def)
  have s: "wLength ?s = 0" by (simp add: line_setup_def vendor_setup_def)
  have g: "?g u = (case put_request E p ?s BNull (wLength ?s) u of
      (st, v') \<Rightarrow> if st = USBH_OK then (USBH_BUSY, set_cdc_state p CDC_GET_LAST_LINE_CODING_STATE v') else (USBH_BUSY, v'))"
    if "class_ptr p u = class_ptr p w" "cdata u (class_ptr p u) = CdcData c"
      "fst (put_request E p ?s BNull (wLength ?s) u) = USBH_OK \<or> fst (put_request E p ?s BNull (wLength ?s) u) = USBH_BUSY" for u
  proof -
    have "chk_lc (LcCdc (class_ptr p w)) u = u" "lc_get (LcCdc (class_ptr p w)) u = LineCoding c"
      using that(1,2) by (simp_all add: chk_lc_def lc_get_def)
    then have "SetLineCoding E p (pUserLineCoding c) u = put_request E p ?s BNull (wLength ?s) u"
      using assms(4-6) p by (simp add: SetLineCoding_def Let_def vendor_requests line_setup_def vendor_setup_def)
    with that assms(2,3) p show ?thesis
      by (cases "put_request E p ?s BNull (wLength ?s) u")
        (auto simp: USBH_CH340_Process_def cdc_ptr_class cdc_get_class)
  qed
  let ?x = "0x9c OR push_bit 8 (ucast (line_control (LineCoding c) OR 0xc0)) :: u16"
    and ?i = "0x80 OR ucast divisor OR push_bit 8 (ucast factor) :: u16"
  have "?s = vendor_setup 0xC0 0xA1 ?x ?i 2 \<and> BNull \<noteq> BNull \<or> ?s = vendor_setup 0x40 0xA1 ?x ?i 0 \<and> BNull = BNull"
    by (simp add: line_setup_def)
  from vendor_stage [OF assms(1) this g] s obtain m v1 where m: "m < 7"
    "class_at p (none_calls p w ?s) w (CdcData c) v1"
    "\<forall>j. run_req (Suc m + j) ?g w = run_req j ?g (set_cdc_state p CDC_GET_LAST_LINE_CODING_STATE v1)" by auto
  let ?v2 = "set_cdc_state p CDC_GET_LAST_LINE_CODING_STATE v1"
  have v2: "class_at p (none_calls p w ?s) w (CdcData (c\<lparr>cdc_state := CDC_GET_LAST_LINE_CODING_STATE\<rparr>)) ?v2"
    using class_at_cdc [OF m(2), of "\<lambda>c. c\<lparr>cdc_state := CDC_GET_LAST_LINE_CODING_STATE\<rparr>"] by (simp add: set_cdc_state_def)
  note P = class_at_ptr [OF v2]
  let ?v3 = "set_cdc_state p CDC_IDLE_STATE (upd_cdc p (\<lambda>d. d\<lparr>LineCoding := LineCoding c\<rparr>) ?v2)"
  have "GetLineCoding p ?v2 = (USBH_OK, upd_cdc p (\<lambda>d. d\<lparr>LineCoding := LineCoding c\<rparr>) ?v2)"
    using P assms(4) by (simp add: GetLineCoding_def cdc_get_class chk_lc_def lc_get_def Let_def)
  then have "?g ?v2 = (USBH_BUSY, ?v3)"
    using P p assms(2) by (simp add: USBH_CH340_Process_def cdc_ptr_class cdc_get_class)
  moreover have v3: "class_at p (none_calls p w ?s) w (CdcData (c\<lparr>cdc_state := CDC_IDLE_STATE\<rparr>)) ?v3"
    using class_at_cdc [OF class_at_cdc [OF v2, of "\<lambda>d. d\<lparr>LineCoding := LineCoding c\<rparr>"],
        of "\<lambda>d. d\<lparr>cdc_state := CDC_IDLE_STATE\<rparr>"] by (simp add: set_cdc_state_def)
  moreover have "?g ?v3 = (USBH_OK, ?v3)"
    using class_at_ptr [OF v3] by (simp add: USBH_CH340_Process_def cdc_get_class)
  ultimately have "run_req (Suc (Suc j)) ?g ?v2 = (USBH_OK, ?v3)" for j by simp
  with m(3) have "run_req (Suc m + Suc (Suc j)) ?g w = (USBH_OK, ?v3)" for j by metis
  from this [of "6 - m + k"] m(1) have "run_req (9 + k) ?g w = (USBH_OK, ?v3)" by simp
  with v3 show ?thesis by blast
qed

end

section \<open>Transmission\<close>

text \<open>The host task runs the background process \<open>k\<close> times.\<close>

primrec rounds :: "nat \<Rightarrow> (usb \<Rightarrow> usb) \<Rightarrow> ptr \<Rightarrow> usb \<Rightarrow> usb" where
  "rounds 0 E p w = w"
| "rounds (Suc k) E p w = rounds k E p (snd (USBH_CH340_Process E p w))"

lemma class_at_ready:
  assumes "class_at p cs w0 d w"
  shows "request_ready p w"
  using assms by (simp add: class_at_def)

lemma class_at_submit:
  assumes "class_at p cs w0 d w" "unat ch < HC_COUNT"
  shows "class_at p (cs @ [HC_StartXfer ch dir t (hc_data_pid (submit_pid dir t k n (hc_get w ch))) (payload_of w k b) n]) w0 d
    (snd (USBH_LL_SubmitURB p ch dir t k b n g w))"
proof -
  note r = class_at_ready [OF assms(1)]
  let ?v = "snd (USBH_LL_SubmitURB p ch dir t k b n g w)"
  have l: "unat ch < length (hc w)" using r assms(2) by (simp add: request_ready_def)
  note s = submit_outs [OF request_readyD(1-3) [OF r] l, of dir t k b n g]
  have "trace ?v = trace w @ [HC_StartXfer ch dir t (hc_data_pid (submit_pid dir t k n (hc_get w ch))) (payload_of w k b) n]"
    by (simp add: trace_def s(1))
  moreover have "request_ready p ?v" using r request_readyD(1-3) [OF r] by (simp add: USBH_LL_SubmitURB_def)
  moreover have "RequestState (hosts ?v p) = CMD_SEND"
    using assms(1) request_readyD(1-3) [OF r] by (simp add: USBH_LL_SubmitURB_def class_at_def)
  ultimately show ?thesis using class_at_keeps [OF assms(1), of ?v] s(3) by simp
qed

context tame_bus
begin

lemma class_at_poll:
  assumes "class_at p cs w0 d w"
  shows "class_at p cs w0 d (E w)"
proof -
  note r = class_at_ready [OF assms]
  have "keeps p w (E w)" using bus_tame by (simp add: tame_def)
  from class_at_keeps [OF assms this, of "[]"] bus_ready [OF r] bus_request [OF r] bus_trace [OF r] bus_faults [OF r] assms
  show ?thesis by (simp add: class_at_def)
qed

lemma send_packet:
  assumes "class_at p cs w0 (CdcData c) w" "data_tx_state c = CDC_SEND_DATA"
    and "unat (cdc_OutPipe (cdc_DataItf c)) < HC_COUNT"
  shows "\<exists>x. bulk_out (cdc_OutPipe (cdc_DataItf c)) (pTxData c) (min (unat (TxDataLength c)) (unat (cdc_OutEpSize (cdc_DataItf c)))) x
    \<and> class_at p (cs @ [x]) w0 (CdcData (c\<lparr>data_tx_state := CDC_SEND_DATA_WAIT\<rparr>)) (CDC_ProcessTransmission E p w)"
proof -
  let ?d = "cdc_DataItf c"
  let ?n = "if TxDataLength c > ucast (cdc_OutEpSize ?d) then cdc_OutEpSize ?d else ucast (TxDataLength c)"
  let ?v = "snd (USBH_BulkSendData p (pTxData c) ?n (cdc_OutPipe ?d) 1 w)"
  have n: "?n = of_nat (min (unat (TxDataLength c)) (unat (cdc_OutEpSize ?d)))"
    using u16_bound [of "cdc_OutEpSize ?d"]
    by (auto simp: min_def word_less_nat_alt unat_up not_less)
  have P: "CDC_ProcessTransmission E p w = set_tx p CDC_SEND_DATA_WAIT ?v"
    using cdc_get_class class_at_ptr [OF assms(1)] assms(2)
    by (simp add: CDC_ProcessTransmission_def Let_def)
  have pl: "payload_of w USBH_PID_DATA (pTxData c) = Buffer (pTxData c)" by simp
  note class_at_submit [OF assms(1,3), where dir = 0 and t = USBH_EP_BULK and k = USBH_PID_DATA and n = ?n
      and b = "pTxData c" and g = "ping_of p 1 w", unfolded pl]
  then have "class_at p (cs @ [HC_StartXfer (cdc_OutPipe ?d) 0 USBH_EP_BULK
      (hc_data_pid (submit_pid 0 USBH_EP_BULK USBH_PID_DATA ?n (hc_get w (cdc_OutPipe ?d)))) (Buffer (pTxData c)) ?n]) w0 (CdcData c) ?v"
    by (simp only: USBH_BulkSendData_def snd_conv)
  from class_at_cdc [OF this, of "\<lambda>c. c\<lparr>data_tx_state := CDC_SEND_DATA_WAIT\<rparr>"] show ?thesis
    unfolding P set_tx_def bulk_out_def n by blast
qed

lemma packet_sent:
  assumes "class_at p cs w0 (CdcData c) w" "data_tx_state c = CDC_SEND_DATA_WAIT"
    and "unat (cdc_OutPipe (cdc_DataItf c)) < HC_COUNT"
  shows "class_at p cs w0 (CdcData ((advance_tx c)\<lparr>data_tx_state := (if TxDataLength (advance_tx c) > 0 then CDC_SEND_DATA else CDC_IDLE)\<rparr>))
    (CDC_ProcessTransmission E p w)"
proof -
  let ?d = "cdc_DataItf c"
  note r = class_at_ready [OF assms(1)]
  have u: "USBH_LL_GetURBState E p (cdc_OutPipe ?d) w = (USBH_URB_DONE, E w)"
    using poll [OF r assms(3)] bus_done [OF r assms(3)] by simp
  have g: "cdc_get p w = c" using cdc_get_class class_at_ptr [OF assms(1)] by simp
  note a = class_at_cdc [OF class_at_poll [OF assms(1)], of advance_tx]
  have "TxDataLength (cdc_get p (upd_cdc p advance_tx (E w))) = TxDataLength (advance_tx c)"
    using cdc_get_class class_at_ptr [OF a] by simp
  then have "CDC_ProcessTransmission E p w = osMessagePut USBH_CLASS_EVENT
      (set_tx p (if TxDataLength (advance_tx c) > 0 then CDC_SEND_DATA else CDC_IDLE) (upd_cdc p advance_tx (E w)))"
    using g u assms(2) by (simp add: CDC_ProcessTransmission_def Let_def)
  with class_at_cdc [OF a, of "\<lambda>d. d\<lparr>data_tx_state := (if TxDataLength (advance_tx c) > 0 then CDC_SEND_DATA else CDC_IDLE)\<rparr>"]
  show ?thesis by (simp add: set_tx_def)
qed

text \<open>The background process while only data is sent.\<close>

lemma process_sends:
  assumes "class_at p cs w0 (CdcData c) w" "class_ptr p w0 \<noteq> NULL" "cdc_state c = CDC_TRANSFER_DATA"
    and "class_at p cs' w0 (CdcData c') (CDC_ProcessTransmission E p w)" "data_rx_state c' = CDC_IDLE"
  shows "snd (USBH_CH340_Process E p w) = CDC_ProcessTransmission E p w"
proof -
  have "p \<noteq> NULL" using class_at_ready [OF assms(1)] by (simp add: request_ready_def)
  moreover have "CDC_ProcessReception E p (CDC_ProcessTransmission E p w) = CDC_ProcessTransmission E p w"
    using cdc_get_class class_at_ptr [OF assms(4)] assms(5) by (simp add: CDC_ProcessReception_def Let_def)
  ultimately show ?thesis
    using cdc_get_class class_at_ptr [OF assms(1)] assms(2,3) by (simp add: USBH_CH340_Process_def cdc_ptr_class)
qed

abbreviation (input) process :: "usb \<Rightarrow> usb" where
  "process w \<equiv> snd (USBH_CH340_Process E p w)"

text \<open>Two rounds of the process send one packet.\<close>

lemma two_rounds:
  assumes "class_at p cs w0 (CdcData c) w" "class_ptr p w0 \<noteq> NULL" "cdc_state c = CDC_TRANSFER_DATA"
    and "data_rx_state c = CDC_IDLE" "data_tx_state c = CDC_SEND_DATA" "unat (cdc_OutPipe (cdc_DataItf c)) < HC_COUNT"
  shows "\<exists>x. bulk_out (cdc_OutPipe (cdc_DataItf c)) (pTxData c) (min (unat (TxDataLength c)) (unat (cdc_OutEpSize (cdc_DataItf c)))) x
    \<and> class_at p (cs @ [x]) w0 (CdcData ((advance_tx c)\<lparr>data_tx_state := (if TxDataLength (advance_tx c) > 0 then CDC_SEND_DATA else CDC_IDLE)\<rparr>))
        (process (process w))"
proof -
  let ?c = "c\<lparr>data_tx_state := CDC_SEND_DATA_WAIT\<rparr>"
  from send_packet [OF assms(1,5,6)] obtain x where
    x: "bulk_out (cdc_OutPipe (cdc_DataItf c)) (pTxData c) (min (unat (TxDataLength c)) (unat (cdc_OutEpSize (cdc_DataItf c)))) x"
    "class_at p (cs @ [x]) w0 (CdcData ?c) (CDC_ProcessTransmission E p w)" by blast
  have 1: "process w = CDC_ProcessTransmission E p w"
    using process_sends [OF assms(1-3) x(2)] assms(4) by simp
  have t: "advance_tx ?c = (advance_tx c)\<lparr>data_tx_state := CDC_SEND_DATA_WAIT\<rparr>" "data_rx_state (advance_tx c) = data_rx_state c"
    by (simp_all add: advance_tx_def Let_def)
  have 2: "class_at p (cs @ [x]) w0 (CdcData ((advance_tx c)\<lparr>data_tx_state := (if TxDataLength (advance_tx c) > 0 then CDC_SEND_DATA else CDC_IDLE)\<rparr>))
      (CDC_ProcessTransmission E p (process w))"
    using packet_sent [OF x(2)] assms(6) unfolding 1 [symmetric] by (simp add: t)
  have "process (process w) = CDC_ProcessTransmission E p (process w)"
    using process_sends [OF x(2) [folded 1] assms(2) _ 2] assms(3,4) t(2) by simp
  with x(1) 2 show ?thesis by metis
qed

lemma transmits:
  assumes "class_at p cs w0 (CdcData c) w" "class_ptr p w0 \<noteq> NULL" "cdc_state c = CDC_TRANSFER_DATA"
    and "data_rx_state c = CDC_IDLE" "data_tx_state c = CDC_SEND_DATA" "unat (cdc_OutPipe (cdc_DataItf c)) < HC_COUNT"
    and "pTxData c = buf_add b i" "mps = unat (cdc_OutEpSize (cdc_DataItf c))" "0 < mps" "n = unat (TxDataLength c)"
  shows "\<exists>xs c'. list_all2 (\<lambda>(a, l). bulk_out (cdc_OutPipe (cdc_DataItf c)) (buf_add b a) l) (split_parts mps i n) xs
    \<and> class_at p (cs @ xs) w0 (CdcData c') (rounds (2 * length (split_parts mps i n)) E p w)
    \<and> data_tx_state c' = CDC_IDLE \<and> TxDataLength c' = 0 \<and> cdc_state c' = CDC_TRANSFER_DATA"
  using assms
proof (induction mps i n arbitrary: cs c w rule: split_parts.induct)
  case (1 mps i n)
  let ?d = "cdc_DataItf c" and ?c = "(advance_tx c)\<lparr>data_tx_state := (if TxDataLength (advance_tx c) > 0 then CDC_SEND_DATA else CDC_IDLE)\<rparr>"
  from two_rounds [OF 1(2-7)] obtain x where
    x: "bulk_out (cdc_OutPipe ?d) (buf_add b i) (min n mps) x" "class_at p (cs @ [x]) w0 (CdcData ?c) (process (process w))"
    using "1.prems"(7,8,10) by auto
  have gt: "TxDataLength c > ucast (cdc_OutEpSize ?d) \<longleftrightarrow> mps < n" using 1(9,11) by (simp add: word_less_nat_alt unat_up)
  show ?case
  proof (cases "n \<le> mps")
    case True
    with gt have "TxDataLength ?c = 0" "data_tx_state ?c = CDC_IDLE" "cdc_state ?c = CDC_TRANSFER_DATA"
      using 1(4) by (simp_all add: advance_tx_def Let_def)
    with x True show ?thesis
      by (intro exI [of _ "[x]"] exI [of _ ?c]) (simp add: split_parts_last eval_nat_numeral min_def)
  next
    case False
    with gt have c: "?c = c\<lparr>pTxData := buf_add b (i + mps), TxDataLength := TxDataLength c - ucast (cdc_OutEpSize ?d),
        data_tx_state := (if TxDataLength c - ucast (cdc_OutEpSize ?d) > 0 then CDC_SEND_DATA else CDC_IDLE)\<rparr>"
      using 1(8,9) by (simp add: advance_tx_def Let_def)
    have len: "unat (TxDataLength c - ucast (cdc_OutEpSize ?d)) = n - mps"
      using False 1(9,11) by (subst unat_sub) (simp_all add: word_le_nat_alt unat_up)
    then have "TxDataLength c - ucast (cdc_OutEpSize ?d) > 0" using False by (simp add: word_less_nat_alt)
    with c have tx: "data_tx_state ?c = CDC_SEND_DATA" by simp
    from c 1(4,5) have f: "cdc_state ?c = CDC_TRANSFER_DATA" "data_rx_state ?c = CDC_IDLE" "cdc_DataItf ?c = ?d"
      "pTxData ?c = buf_add b (i + mps)" by simp_all
    have "n - mps = unat (TxDataLength ?c)" using c len by simp
    moreover have "unat (cdc_OutPipe (cdc_DataItf ?c)) < HC_COUNT" "mps = unat (cdc_OutEpSize (cdc_DataItf ?c))"
      "\<not> (mps = 0 \<or> n \<le> mps)" using f(3) 1(7,9,10) False by simp_all
    ultimately obtain xs c' where
      "list_all2 (\<lambda>(a, l). bulk_out (cdc_OutPipe ?d) (buf_add b a) l) (split_parts mps (i + mps) (n - mps)) xs"
      "class_at p ((cs @ [x]) @ xs) w0 (CdcData c') (rounds (2 * length (split_parts mps (i + mps) (n - mps))) E p (process (process w)))"
      "data_tx_state c' = CDC_IDLE" "TxDataLength c' = 0" "cdc_state c' = CDC_TRANSFER_DATA"
      using "1.IH" [OF _ x(2) 1(3) f(1,2) tx _ f(4) _ 1(10)] unfolding f(3) by blast
    with x(1) False 1(10) show ?thesis
      by (intro exI [of _ "x # xs"] exI [of _ c']) (simp add: split_parts_more min_def)
  qed
qed

end

section \<open>Properties\<close>

lemma divisor_found:
  assumes "46 \<le> baud" and "baud \<le> 6000000" and "baud \<noteq> 921600" and "baud \<noteq> 307200"
    and "prescaler baud = (b, c)"
  shows "\<exists>a. ch34x_get_baud_rate baud = Some (0 - a, b) \<and> a \<noteq> 0
     \<and> (\<forall>j>0. \<bar>int (unat c div unat a) - int (unat baud)\<bar> \<le> \<bar>int (unat c div j) - int (unat baud)\<bar>)"
proof -
  have bd: "46 \<le> unat baud" "unat baud \<le> 6000000" using assms(1,2) by (simp_all add: word_le_nat_alt)
  let ?q = "unat c div unat baud"
  from prescaler_range [OF bd assms(5)] have q: "0 < ?q" "?q < 255" by simp_all
  define a :: u8 where "a = ucast (c div baud)"
  have ua: "unat a = ?q" using q by (simp add: a_def unsigned_ucast_eq unat_div take_bit_nat_eq_self)
  have a0: "a \<noteq> 0" "a \<noteq> 0xFF" using ua q by (auto simp: word_unat_eq_iff)
  have ua1: "unat (a + 1) = Suc ?q" using ua q by (simp add: unat_word_ariths)
  have u32: "unat (ucast a :: u32) = ?q" "unat (ucast a + 1 :: u32) = Suc ?q"
    using ua q by (simp_all add: unat_up unat_word_ariths)
  have r0: "0 < unat baud" using bd by simp
  have "unat (c div ucast a - baud) = unat c div ?q - unat baud"
    "unat (baud - c div (ucast a + 1)) = unat baud - unat c div Suc ?q"
    using quotient_bounds [OF q(1) refl r0] by (simp_all add: unat_sub word_le_nat_alt unat_div u32)
  then have cmp: "c div ucast a - baud > baud - c div (ucast a + 1)
      \<longleftrightarrow> unat c div ?q - unat baud > unat baud - unat c div Suc ?q"
    by (simp only: word_less_nat_alt)
  let ?a = "if c div ucast a - baud > baud - c div (ucast a + 1) then a + 1 else a"
  have "ch34x_get_baud_rate baud = Some (0 - ?a, b)"
    using a0 by (simp add: ch34x_get_baud_rate_def assms(3-5) a_def [symmetric] Let_def)
  moreover have "unat ?a = (if unat c div ?q - unat baud > unat baud - unat c div Suc ?q then Suc ?q else ?q)"
    unfolding cmp using ua ua1 by simp
  note k = nearest_quotient [OF q(1) refl r0 _ this]
  moreover have "?a \<noteq> 0" using a0(1) ua1 by (auto simp: word_unat_eq_iff)
  ultimately show ?thesis using k by blast
qed

text \<open>The clocks of the adapter, by prescaler. The fastest one whose divisor is below 255 is taken.\<close>

lemma prescaler_fastest:
  assumes "46 \<le> baud" and "baud \<le> 6000000" and "prescaler baud = (b, c)"
  shows "(b, c) \<in> {(3, 6000000), (2, 750000), (1, 93750), (0, 11719)} \<and> unat c div unat baud < 255
    \<and> (\<forall>(b', c') \<in> {(3, 6000000), (2, 750000), (1, 93750), (0, 11719)}. c < c' \<longrightarrow> 255 \<le> unat (c' :: u32) div unat baud)"
proof -
  have bd: "46 \<le> unat baud" "unat baud \<le> 6000000" using assms(1,2) by (simp_all add: word_le_nat_alt)
  have le: "255 \<le> n div unat baud" if "255 * unat baud \<le> n" for n using bd that by (simp add: less_eq_div_iff_mult_less_eq)
  have "255 \<le> 6000000 div unat baud \<or> 23529 < unat baud" "255 \<le> 750000 div unat baud \<or> 2941 < unat baud"
    "255 \<le> 93750 div unat baud \<or> 367 < unat baud" using le by (cases "unat baud \<le> 23529"; cases "unat baud \<le> 2941"; cases "unat baud \<le> 367"; simp)+
  moreover have "(b, c) = (3, 6000000) \<and> 23529 < unat baud \<or> (b, c) = (2, 750000) \<and> unat baud \<le> 23529 \<and> 2941 < unat baud
     \<or> (b, c) = (1, 93750) \<and> unat baud \<le> 2941 \<and> 367 < unat baud \<or> (b, c) = (0, 11719) \<and> unat baud \<le> 367"
    using assms(3) by (auto simp: prescaler_def word_less_nat_alt not_less split: if_splits)
  moreover have "unat c div unat baud < 255" using prescaler_range [OF bd assms(3)] by simp
  ultimately show ?thesis by auto
qed

text \<open>
  C28: What \<open>ch34x_get_baud_rate\<close> gives for every rate from 46 baud on. The two special rates have their own
  settings and rates above six million baud are refused. Any other rate gets the fastest of the four clocks
  whose divisor is below 255, with its prescaler, and minus a divisor \<open>a\<close> that is not zero and for which the
  clock comes as close to the rate as for any divisor at all.
\<close>

theorem baud_rate_best:
  assumes "46 \<le> baud"
  shows "if baud = 921600 then ch34x_get_baud_rate baud = Some (0xf3, 7)
    else if baud = 307200 then ch34x_get_baud_rate baud = Some (0xd9, 7)
    else if baud > 6000000 then ch34x_get_baud_rate baud = None
    else \<exists>a b c. ch34x_get_baud_rate baud = Some (0 - a, b) \<and> a \<noteq> 0
      \<and> (b, c) \<in> {(3, 6000000), (2, 750000), (1, 93750), (0, 11719)} \<and> unat c div unat baud < 255
      \<and> (\<forall>(b', c') \<in> {(3, 6000000), (2, 750000), (1, 93750), (0, 11719)}. c < c' \<longrightarrow> 255 \<le> unat (c' :: u32) div unat baud)
      \<and> (\<forall>j>0. \<bar>int (unat c div unat a) - int (unat baud)\<bar> \<le> \<bar>int (unat c div j) - int (unat baud)\<bar>)"
proof (cases "baud = 921600 \<or> baud = 307200 \<or> baud > 6000000")
  case True
  have "ch34x_get_baud_rate baud = None" if "baud \<noteq> 921600" "baud \<noteq> 307200" "baud > 6000000"
  proof -
    have "prescaler baud = (3, 6000000)" using that(3) by (auto simp: prescaler_def word_less_nat_alt)
    moreover have "6000000 div baud = 0" using that(3) by (intro div_word_less) 
    ultimately show ?thesis using that by (simp add: ch34x_get_baud_rate_def)
  qed
  with True show ?thesis by (auto simp: ch34x_get_baud_rate_def)
next
  case False
  obtain b c where p: "prescaler baud = (b, c)" by (cases "prescaler baud")
  have r: "baud \<le> 6000000" "baud \<noteq> 921600" "baud \<noteq> 307200" using False by auto
  from divisor_found [OF assms r p] prescaler_fastest [OF assms r(1) p] False show ?thesis by auto
qed

text \<open>
  C18: Starting up the adapter puts exactly these seven vendor requests on the bus, in this order:
  read the version, initialise the serial port, two register writes, one register read, one more
  write, and the modem lines. After \<open>USBH_CDC_AttachInit\<close> on a fresh handle, at most fifty rounds of the
  background process take the handle back to idle with the start-up complete and no wrong access, on
  any bus that completes its transfers.
\<close>

theorem ch340_starts_up:
  assumes "tame_bus E p" and "request_ready p w" and "RequestState (hosts w p) = CMD_SEND"
    and "length (Data (device (hosts w p))) = 512" and "gState (hosts w p) = HOST_CLASS"
    and "q = class_ptr p w" and "q \<noteq> NULL" and "cdata w q = CdcData c"
    and "attach_state c = CH340_READ_VENDOR_VERSION_STATE"
  shows "\<exists>v. run_req (50 + k) (USBH_CH340_Process E p) (snd (USBH_CDC_AttachInit p w)) = (USBH_OK, v)
    \<and> trace v = trace w @ in_calls p w (vendor_setup 0xC0 0x5F 0 0 2) (BCdcBuf q) 2
        @ none_calls p w (vendor_setup 0x40 0xA1 0 0 0)
        @ none_calls p w (vendor_setup 0x40 0x9A 0x1312 0xD982 0)
        @ none_calls p w (vendor_setup 0x40 0x9A 0x0F2C 0x0004 0)
        @ in_calls p w (vendor_setup 0xC0 0x95 0x2518 0 2) (BCdcBuf q) 2
        @ none_calls p w (vendor_setup 0x40 0x9A 0x2727 0 0)
        @ none_calls p w (vendor_setup 0x40 0xA4 0x009F 0 0)
    \<and> attach_state (cdc_get p v) = CH340_ATTACH_COMPLETE_STATE \<and> cdc_state (cdc_get p v) = CDC_IDLE_STATE
    \<and> faults v = faults w"
proof -
  let ?c = "c\<lparr>cdc_state := CDC_ATTACH_INIT_STATE\<rparr>" and ?w = "snd (USBH_CDC_AttachInit p w)"
  have a: "class_at p [] w (CdcData c) w" using class_at_start [OF assms(2-4)] assms(6,8) by simp
  from class_at_cdc [OF a, of "\<lambda>c. c\<lparr>cdc_state := CDC_ATTACH_INIT_STATE\<rparr>"] assms(5)
  have i: "class_at p [] w (CdcData ?c) ?w" by (simp add: USBH_CDC_AttachInit_def)
  then have i': "class_at p [] ?w (CdcData ?c) ?w" by (simp add: class_at_def)
  have same: "in_calls p ?w s b n = in_calls p w s b n" "none_calls p ?w s = none_calls p w s" "trace ?w = trace w"
    "faults ?w = faults w" "class_ptr p ?w = q" for s b n
    using i assms(6) by (simp_all add: class_at_def in_calls_def none_calls_def)
  from tame_bus.attach_ends [OF assms(1) i'] same(5) assms(7,9) obtain v where
    v: "run_req (50 + k) (USBH_CH340_Process E p) ?w = (USBH_OK, v)"
    "class_at p (concat (map (\<lambda>k. attach_calls p ?w (attach_at k)) [0..<7])) ?w
       (CdcData (?c\<lparr>attach_state := CH340_ATTACH_COMPLETE_STATE, cdc_state := CDC_IDLE_STATE\<rparr>)) v" by auto
  have "cdc_get p v = ?c\<lparr>attach_state := CH340_ATTACH_COMPLETE_STATE, cdc_state := CDC_IDLE_STATE\<rparr>"
    using cdc_get_class class_at_ptr [OF v(2)] by simp
  moreover have "[0..<7] = [0, 1, 2, 3, 4, 5, 6 :: nat]" by (simp add: upt_rec)
  ultimately show ?thesis using v same
    by (intro exI [of _ v])
      (simp add: class_at_def attach_calls_def Let_def attach_at_def eval_nat_numeral vendor_setup_def)
qed

text \<open>
  A new line coding is one vendor request whose words hold the divisor and the line control bits,
  after which the handle is idle again: the low byte of the value is \<open>0x9C\<close>, the high byte the data
  bits, stop bits and parity with the receiver and the transmitter enabled; the index holds the
  prescaler with its top bit set and the divisor.
\<close>

theorem line_coding_request:
  assumes "tame_bus E p" and "request_ready p w" and "RequestState (hosts w p) = CMD_SEND"
    and "length (Data (device (hosts w p))) = 512" and "gState (hosts w p) = HOST_CLASS"
    and "q = class_ptr p w" and "q \<noteq> NULL" and "cdata w q = CdcData c"
    and "ch34x_get_baud_rate (dwDTERate (LineCoding c)) = Some (factor, divisor)" and "dwDTERate (LineCoding c) \<noteq> 0"
  shows "\<exists>v. run_req (9 + k) (USBH_CH340_Process E p) (snd (USBH_CDC_SetLineCoding p (LcCdc q) w)) = (USBH_OK, v)
    \<and> trace v = trace w @ none_calls p w (vendor_setup 0x40 0xA1
        (0x9c OR push_bit 8 (ucast (line_control (LineCoding c) OR 0xc0)))
        (0x80 OR ucast divisor OR push_bit 8 (ucast factor)) 0)
    \<and> LineCoding (cdc_get p v) = LineCoding c \<and> cdc_state (cdc_get p v) = CDC_IDLE_STATE \<and> faults v = faults w"
proof -
  let ?c = "c\<lparr>cdc_state := CDC_SET_LINE_CODING_STATE, pUserLineCoding := LcCdc q\<rparr>"
    and ?w = "snd (USBH_CDC_SetLineCoding p (LcCdc q) w)"
  have a: "class_at p [] w (CdcData c) w" using class_at_start [OF assms(2-4)] assms(6,8) by simp
  from class_at_cdc [OF a, of "\<lambda>c. c\<lparr>cdc_state := CDC_SET_LINE_CODING_STATE, pUserLineCoding := LcCdc q\<rparr>"] assms(5)
  have i: "class_at p [] w (CdcData ?c) ?w" by (simp add: USBH_CDC_SetLineCoding_def)
  then have i': "class_at p [] ?w (CdcData ?c) ?w" by (simp add: class_at_def)
  have same: "none_calls p ?w s = none_calls p w s" "trace ?w = trace w" "faults ?w = faults w" "class_ptr p ?w = q" for s
    using i assms(6) by (simp_all add: class_at_def none_calls_def)
  from tame_bus.line_coding_set [OF assms(1) i' _ _ _ _ , of factor divisor k] same(4) assms(7,9,10) obtain v where
    v: "run_req (9 + k) (USBH_CH340_Process E p) ?w = (USBH_OK, v)"
    "class_at p (none_calls p ?w (line_setup (LineCoding c) factor divisor)) ?w (CdcData (?c\<lparr>cdc_state := CDC_IDLE_STATE\<rparr>)) v"
    by auto
  have "cdc_get p v = ?c\<lparr>cdc_state := CDC_IDLE_STATE\<rparr>" using cdc_get_class class_at_ptr [OF v(2)] by simp
  with v same show ?thesis by (intro exI [of _ v]) (simp add: class_at_def line_setup_def)
qed

text \<open>
  C5: Sending \<open>n\<close> bytes ends and sends each byte once. \<open>USBH_CDC_Transmit\<close> followed by two rounds of the
  background process per packet puts the packets of \<open>split_parts\<close> on the OUT channel in order (adjacent,
  none longer than the endpoint allows, together the whole buffer; for \<open>n = 0\<close> one empty packet), and
  leaves the transmission idle with nothing left to send and no wrong access.
\<close>

theorem transmission_completes:
  assumes "tame_bus E p" and "request_ready p w" and "RequestState (hosts w p) = CMD_SEND"
    and "length (Data (device (hosts w p))) = 512"
    and "class_ptr p w \<noteq> NULL" and "cdata w (class_ptr p w) = CdcData c"
    and "cdc_state c = CDC_IDLE_STATE \<or> cdc_state c = CDC_TRANSFER_DATA" and "data_rx_state c = CDC_IDLE"
    and "unat (cdc_OutPipe (cdc_DataItf c)) < HC_COUNT"
    and "mps = unat (cdc_OutEpSize (cdc_DataItf c))" and "0 < mps"
    and "parts = split_parts mps 0 (unat n)"
    and "v = rounds (2 * length parts) E p (snd (USBH_CDC_Transmit p b n w))"
  shows "(\<exists>xs. trace v = trace w @ xs
      \<and> list_all2 (\<lambda>(a, l). bulk_out (cdc_OutPipe (cdc_DataItf c)) (buf_add b a) l) parts xs)
    \<and> concat (map (\<lambda>(a, l). [a..<a + l]) parts) = [0..<unat n] \<and> (\<forall>(a, l) \<in> set parts. l \<le> mps)
    \<and> data_tx_state (cdc_get p v) = CDC_IDLE \<and> TxDataLength (cdc_get p v) = 0 \<and> faults v = faults w"
proof -
  let ?f = "\<lambda>c. c\<lparr>pTxData := b, TxDataLength := n, cdc_state := CDC_TRANSFER_DATA, data_tx_state := CDC_SEND_DATA\<rparr>"
  let ?w = "snd (USBH_CDC_Transmit p b n w)"
  have a: "class_at p [] w (CdcData c) w" using class_at_start [OF assms(2-4)] assms(6) by simp
  have "cdc_get p w = c" using cdc_get_class [OF assms(6)] .
  with class_at_cdc [OF a, of ?f] assms(7) have i: "class_at p [] w (CdcData (?f c)) ?w"
    by (simp add: USBH_CDC_Transmit_def)
  have b: "pTxData (?f c) = buf_add b 0" by (cases b) simp_all
  from tame_bus.transmits [OF assms(1) i assms(5) _ _ _ _ b, of mps "unat n"] assms(8-12) obtain xs c' where
    x: "list_all2 (\<lambda>(a, l). bulk_out (cdc_OutPipe (cdc_DataItf c)) (buf_add b a) l) parts xs"
    "class_at p xs w (CdcData c') v" "data_tx_state c' = CDC_IDLE" "TxDataLength c' = 0"
    by (auto simp: assms(13))
  have "cdc_get p v = c'" using cdc_get_class class_at_ptr [OF x(2)] by simp
  with x split_parts_cover [OF assms(11), of 0 "unat n"] assms(12) show ?thesis
    by (simp add: class_at_def)
qed

text \<open>
  A full ring ends the reception for good. When a packet arrives that does not fit, the driver goes
  to idle and drops it: the ring, the bytes in it and the calls made are those before, and no later
  round of \<open>CDC_ProcessReception\<close> does anything on this handle, also not after the log task has emptied
  the ring; only a new \<open>USBH_CDC_Receive\<close>, which nobody makes, would start it again.
\<close>

theorem full_ring_stops_reception:
  assumes "USBH_LL_GetURBState E p (cdc_InPipe (data_itf p w)) w = (USBH_URB_DONE, v)"
    and "data_rx_state (cdc_get p w) = CDC_RECEIVE_DATA_WAIT"
    and "cdata v (class_ptr p v) = CdcData c" and "ring_ok p i v"
    and "LOG_BUFF_SIZE \<le> ring_len p v + unat (packet_size p v)" and "packet_size p v \<le> cdc_InEpSize (cdc_DataItf c)"
    and "u = CDC_ProcessReception E p w"
  shows "data_rx_state (cdc_get p u) = CDC_IDLE \<and> ring_content p b u = ring_content p b v \<and> trace u = trace v
    \<and> ring_len p (log_round id p u) = 0
    \<and> CDC_ProcessReception F p (log_round id p u) = log_round id p u \<and> CDC_ProcessReception F p u = u"
proof -
  let ?s = "set_rx p CDC_IDLE v"
  have c: "cdc_get p v = c" by (rule cdc_get_class [OF assms(3)])
  have itf: "data_itf p ?s = data_itf p v" by (simp add: set_rx_def)
  have app: "app_get p ?s = app_get p v" "hosts ?s = hosts v" "hc ?s = hc v" "sd_mem ?s = sd_mem v"
    by (simp_all add: set_rx_def)
  have ps: "packet_size p ?s = packet_size p v"
    unfolding USBH_CDC_GetLastReceivedDataSize_def itf app(2)
    by (simp add: USBH_LL_GetLastXferSize_def HAL_HCD_HC_GetXferCount_def hc_get_def app(3))
  have len: "ring_len p ?s = ring_len p v" by (simp add: ring_len_def app)
  have ok: "ring_ok p i ?s" using assms(4) by (simp add: ring_ok_def itf app len) (simp add: set_rx_def)
  have "packet_size p v = ucast (USBH_LL_GetLastXferSize p (cdc_InPipe (cdc_DataItf c)) v)"
    using ring_okD(2) [OF assms(4)] c by (simp add: USBH_CDC_GetLastReceivedDataSize_def data_itf_def)
  then have u: "u = osMessagePut USBH_CLASS_EVENT ?s"
    using assms(1,2,5-7) callback_full [OF ok] c len ps
    by (simp add: CDC_ProcessReception_def data_itf_def Let_def not_le [symmetric] del: not_le)
  have "cdc_get p ?s = c\<lparr>data_rx_state := CDC_IDLE\<rparr>"
    using cdc_get_upd [of v p c] assms(3) c by (simp add: set_rx_def cdc_ptr_class)
  moreover have "cdc_get p u = cdc_get p ?s" by (simp add: u cdc_get_def cdc_ptr_def osMessagePut_def)
  ultimately have r: "data_rx_state (cdc_get p u) = CDC_IDLE" by simp
  have ru: "ring_ok p i u" using ok by (simp add: u ring_ok_def ring_len_def)
  have lu: "ring_len p (log_round id p u) = 0"
    using log_idle.round_empties [of p i u "ring_base i u"] ru by (simp add: ring_content_def)
  have "cdc_get p (log_round id p u) = cdc_get p u"
    by (simp add: log_round_def Let_def USBH_Delay_def cdc_get_def cdc_ptr_def out_def)
  with r have "CDC_ProcessReception F p (log_round id p u) = log_round id p u" by (simp add: CDC_ProcessReception_def Let_def)
  moreover from r have "CDC_ProcessReception F p u = u" by (simp add: CDC_ProcessReception_def Let_def)
  moreover have "ring_content p b u = ring_content p b v"
    unfolding ring_content_def u by (simp add: ring_len_def ring_byte_def app)
  moreover have "trace u = trace v" by (simp add: u trace_def set_rx_def)
  ultimately show ?thesis using r lu by simp
qed

section \<open>Witnesses\<close>

text \<open>The handle is at address 40 of a root handle whose requests work; \<open>run_cdc\<close> sends on channel 3.\<close>

definition cdc_world :: "CDC_HandleTypeDef \<Rightarrow> usb" where
  "cdc_world c = upd_host hUSBHost (\<lambda>h. h\<lparr>pClassData := [40, 0, 0, 0, 0], gState := HOST_CLASS\<rparr>)
     (ctl_world\<lparr>cdata := (\<lambda>_. NoData)(40 := CdcData c)\<rparr>)"

lemma cdc_world_ready:
  "request_ready hUSBHost (cdc_world c)" "RequestState (hosts (cdc_world c) hUSBHost) = CMD_SEND"
  "length (Data (device (hosts (cdc_world c) hUSBHost))) = 512" "gState (hosts (cdc_world c) hUSBHost) = HOST_CLASS"
  "class_ptr hUSBHost (cdc_world c) = 40" "class_ptr hUSBHost (cdc_world c) \<noteq> NULL"
  "cdata (cdc_world c) (class_ptr hUSBHost (cdc_world c)) = CdcData c"
proof -
  have "request_ready hUSBHost (cdc_world c) = request_ready hUSBHost ctl_world"
    by (rule request_ready_cong) (simp_all add: cdc_world_def)
  then show "request_ready hUSBHost (cdc_world c)" using ctl_world_ready(1) by (simp only:)
qed (simp_all add: cdc_world_def ctl_world_def zero_host_def zero_device_def class_ptr_def)

lemma baud_rate_best_witness:
  "\<exists>a. ch34x_get_baud_rate 115200 = Some (0 - a, 3) \<and> a \<noteq> 0
     \<and> (\<forall>j>0. \<bar>int (unat (6000000 :: u32) div unat a) - 115200\<bar> \<le> \<bar>int (unat (6000000 :: u32) div j) - 115200\<bar>)"
  using baud_rate_best [of 115200] by auto

lemma ch340_starts_up_witness:
  "\<exists>v. run_req 50 (USBH_CH340_Process completing hUSBHost) (snd (USBH_CDC_AttachInit hUSBHost (cdc_world zero_cdc))) = (USBH_OK, v)
     \<and> attach_state (cdc_get hUSBHost v) = CH340_ATTACH_COMPLETE_STATE"
proof -
  have "attach_state zero_cdc = CH340_READ_VENDOR_VERSION_STATE" by (simp add: zero_cdc_def)
  from ch340_starts_up [where k = 0, OF completing_dev.tame_bus_axioms cdc_world_ready(1-4) refl cdc_world_ready(6,7) this]
  show ?thesis by auto
qed

definition coded :: CDC_HandleTypeDef where
  "coded = zero_cdc\<lparr>LineCoding := \<lparr>dwDTERate = 115200, bCharFormat = 0, bParityType = 0, bDataBits = 8\<rparr>\<rparr>"

lemma line_coding_request_witness:
  "\<exists>v. run_req 9 (USBH_CH340_Process completing hUSBHost) (snd (USBH_CDC_SetLineCoding hUSBHost (LcCdc 40) (cdc_world coded))) = (USBH_OK, v)
     \<and> LineCoding (cdc_get hUSBHost v) = LineCoding coded"
proof -
  obtain a where "ch34x_get_baud_rate (dwDTERate (LineCoding coded)) = Some (a, 3)"
    by (simp add: coded_def ch34x_get_baud_rate_def prescaler_def Let_def)
  moreover have "dwDTERate (LineCoding coded) \<noteq> 0" by (simp add: coded_def)
  ultimately show ?thesis
    using line_coding_request [where k = 0 and c = coded, OF completing_dev.tame_bus_axioms cdc_world_ready(1-4) refl cdc_world_ready(6,7), of a 3]
    unfolding cdc_world_ready(5) by auto
qed

definition sending :: CDC_HandleTypeDef where
  "sending = zero_cdc\<lparr>cdc_DataItf := (cdc_DataItf zero_cdc)\<lparr>cdc_OutPipe := 3, cdc_OutEpSize := 32\<rparr>\<rparr>"

lemma transmission_completes_witness:
  "split_parts 32 0 40 = [(0, 32), (32, 8)]
   \<and> TxDataLength (cdc_get hUSBHost (rounds 4 completing hUSBHost
       (snd (USBH_CDC_Transmit hUSBHost (BCdcBuf 40) 40 (cdc_world sending))))) = 0"
proof -
  have s: "split_parts 32 0 40 = [(0, 32), (32, 8)]" by (subst split_parts.simps, subst split_parts.simps) simp
  have "cdc_state sending = CDC_IDLE_STATE \<or> cdc_state sending = CDC_TRANSFER_DATA" "data_rx_state sending = CDC_IDLE"
    "unat (cdc_OutPipe (cdc_DataItf sending)) < HC_COUNT" "(32 :: nat) = unat (cdc_OutEpSize (cdc_DataItf sending))" "(0 :: nat) < 32"
    by (simp_all add: sending_def zero_cdc_def)
  from transmission_completes [OF completing_dev.tame_bus_axioms cdc_world_ready(1-3,6,7) this refl refl, of 40 "BCdcBuf 40"] s
  show ?thesis by simp
qed

text \<open>One byte arrives on the IN channel while the ring has room for one byte less than it needs.\<close>

definition full_world :: usb where
  "full_world = ring_world\<lparr>
     hosts := (\<lambda>p. zero_host\<lparr>gState := HOST_CLASS, app_data := 50, pClassData := [40, 0, 0, 0, 0], pData := HHCD\<rparr>),
     cdata := (\<lambda>_. NoData)(40 := CdcData (zero_cdc\<lparr>data_rx_state := CDC_RECEIVE_DATA_WAIT,
       cdc_DataItf := (cdc_DataItf zero_cdc)\<lparr>cdc_InEpSize := 32\<rparr>\<rparr>)),
     apps := (\<lambda>_. None)(50 \<mapsto> zero_app\<lparr>log_buf := \<lparr>log_sd = Some 1, p_read = 0, p_write = 0xFFFFF\<rparr>\<rparr>),
     hc := (hc ring_world)[0 := (hc ring_world ! 0)\<lparr>hc_urb_state := USBH_URB_DONE, hc_xfer_count := 1\<rparr>]\<rparr>"

lemma full_world_get:
  "app_get hUSBHost full_world = zero_app\<lparr>log_buf := \<lparr>log_sd = Some 1, p_read = 0, p_write = 0xFFFFF\<rparr>\<rparr>"
  "cdata full_world (class_ptr hUSBHost full_world) = CdcData (zero_cdc\<lparr>data_rx_state := CDC_RECEIVE_DATA_WAIT,
     cdc_DataItf := (cdc_DataItf zero_cdc)\<lparr>cdc_InEpSize := 32\<rparr>\<rparr>)"
  "cdc_InPipe (data_itf hUSBHost full_world) = 0" "length (hc full_world) = 15" "has_app hUSBHost full_world"
  "gState (hosts full_world hUSBHost) = HOST_CLASS"
  by (simp_all add: full_world_def app_get_def has_app_def class_ptr_def data_itf_def cdc_get_def cdc_ptr_def zero_cdc_def
      ring_world_def reset_usb_def)

lemma full_world_urb: "USBH_LL_GetURBState id hUSBHost (cdc_InPipe (data_itf hUSBHost full_world)) full_world = (USBH_URB_DONE, full_world)"
proof -
  have "pData (hosts full_world q) = HHCD" "is_child (hosts full_world q) = 0" for q
    by (simp_all add: full_world_def zero_host_def)
  then have "chk_hcd (root_of full_world hUSBHost) full_world = full_world" by (simp add: chk_hcd_def)
  moreover have "chk_hc 0 full_world = full_world" using full_world_get(4) by (simp add: chk_hc_def)
  moreover have "HAL_HCD_HC_GetURBState 0 full_world = USBH_URB_DONE"
    by (simp add: HAL_HCD_HC_GetURBState_def hc_get_def full_world_def ring_world_def reset_usb_def)
  ultimately show ?thesis
    unfolding full_world_get(3) by (simp only: USBH_LL_GetURBState_def Let_def id_apply)
qed

lemma full_ring_stops_reception_witness:
  "data_rx_state (cdc_get hUSBHost (CDC_ProcessReception id hUSBHost full_world)) = CDC_IDLE"
proof -
  note g = full_world_get
  let ?c = "zero_cdc\<lparr>data_rx_state := CDC_RECEIVE_DATA_WAIT, cdc_DataItf := (cdc_DataItf zero_cdc)\<lparr>cdc_InEpSize := 32\<rparr>\<rparr>"
  have c: "cdc_get hUSBHost full_world = ?c" by (rule cdc_get_class [OF g(2)])
  have l: "ring_len hUSBHost full_world = 0xFFFFF" unfolding ring_len_def g(1) by simp
  have p: "packet_size hUSBHost full_world = 1"
    unfolding USBH_CDC_GetLastReceivedDataSize_def g(3,6)
    by (simp add: USBH_LL_GetLastXferSize_def HAL_HCD_HC_GetXferCount_def hc_get_def)
      (simp add: full_world_def ring_world_def reset_usb_def)
  have ok: "ring_ok hUSBHost 1 full_world"
  proof -
    have "(0xFFFFF :: nat) < LOG_BUFF_SIZE" by simp
    with g show ?thesis unfolding ring_ok_def g(1,3,4) l by (simp only: g) (simp add: zero_app_def)
  qed
  have w: "data_rx_state (cdc_get hUSBHost full_world) = CDC_RECEIVE_DATA_WAIT" by (simp only: c) simp
  have f: "LOG_BUFF_SIZE \<le> ring_len hUSBHost full_world + unat (packet_size hUSBHost full_world)"
    unfolding l p by simp
  have "packet_size hUSBHost full_world \<le> cdc_InEpSize (cdc_DataItf ?c)" unfolding p by simp
  from full_ring_stops_reception [OF full_world_urb w g(2) ok f this refl, of 0 id] show ?thesis by blast
qed

end
