(* ===== verification/Usb_CH340_Iface.thy ===== *)
theory Usb_CH340_Iface
  imports Usb_CH340
begin

text \<open>
  The channels of a CH340 interface: what \<open>InterfaceInit\<close> takes and \<open>InterfaceDeInit\<close> gives back, and the
  channel of another device that is given back with them when the handle's memory was not zero.
\<close>

section \<open>A CDC handle and the channels in use\<close>

text \<open>The class data of \<open>p\<close> is the CDC handle \<open>c\<close> at \<open>q\<close>, and \<open>S\<close> are the channels in use.\<close>

definition cdc_owns :: "ptr \<Rightarrow> ptr \<Rightarrow> CDC_HandleTypeDef \<Rightarrow> nat set \<Rightarrow> usb \<Rightarrow> bool" where
  "cdc_owns p q c S w \<longleftrightarrow> cdc_ptr p w = q \<and> q \<noteq> NULL \<and> cdata w q = CdcData c \<and> pipes_ok p w
     \<and> pipes_used p w = S \<and> app_data (hosts w p) = NULL \<and> pClassData (hosts w p) \<noteq> []"

lemma pipes_cong:
  assumes "words v = words w" "Pipes (hosts v p) = Pipes (hosts w p)"
  shows "pipes_ok p v = pipes_ok p w" "pipes_used p v = pipes_used p w"
  using assms by (simp_all add: pipes_ok_def pipes_used_def pipe_word_def)

lemma cdc_owns_cong:
  assumes "words v = words w" "Pipes (hosts v p) = Pipes (hosts w p)" "pClassData (hosts v p) = pClassData (hosts w p)"
    and "app_data (hosts v p) = app_data (hosts w p)" "cdata v = cdata w"
  shows "cdc_owns p q c S v = cdc_owns p q c S w"
  using assms pipes_cong [OF assms(1,2)] by (simp add: cdc_owns_def cdc_ptr_def)

lemma cdc_ownsD:
  assumes "cdc_owns p q c S w"
  shows "cdc_ptr p w = q" "q \<noteq> NULL" "cdata w q = CdcData c" "cdc_get p w = c" "data_itf p w = cdc_DataItf c"
    "pipes_ok p w" "pipes_used p w = S" "app_data (hosts w p) = NULL"
  using assms by (simp_all add: cdc_owns_def cdc_get_def data_itf_def)

lemma owns_upd_cdc: "cdc_owns p q c S w \<Longrightarrow> cdc_owns p q (f c) S (upd_cdc p f w)"
  using pipes_cong [of "w\<lparr>cdata := (cdata w)(q := CdcData (f c))\<rparr>" w p]
  by (simp add: upd_cdc_def cdc_owns_def cdc_ptr_def)

lemma owns_upd_data:
  "cdc_owns p q c S w \<Longrightarrow> cdc_owns p q (c\<lparr>cdc_DataItf := f (cdc_DataItf c)\<rparr>) S (upd_data p f w)"
  unfolding upd_data_def by (rule owns_upd_cdc)

lemma owns_frame [simp]:
  "cdc_owns p q c S (chk_itf r i w) = cdc_owns p q c S w"
  "cdc_owns p q c S (chk b x w) = cdc_owns p q c S w"
  "cdc_owns p q c S (open_data_pipe r a e m w) = cdc_owns p q c S w"
  "cdc_owns p q c S (snd (USBH_LL_SetToggle r a t w)) = cdc_owns p q c S w"
  "cdc_owns p q c S (snd (USBH_ClosePipe r a w)) = cdc_owns p q c S w"
  by (rule cdc_owns_cong; simp add: chk_itf_def open_data_pipe_def USBH_OpenPipe_def USBH_LL_OpenPipe_def
      HAL_HCD_HC_Init_def chk_hc_def chk_hcd_def Let_def USBH_LL_SetToggle_def USBH_ClosePipe_def USBH_LL_ClosePipe_def
      HAL_HCD_HC_Halt_def)+

lemma owns_alloc:
  assumes "cdc_owns p q c S w" "S \<noteq> {..<USBH_MAX_PIPES_NBR}"
  shows "unat (fst (USBH_AllocPipe p a w)) < USBH_MAX_PIPES_NBR" "unat (fst (USBH_AllocPipe p a w)) \<notin> S"
    and "cdc_owns p q c (insert (unat (fst (USBH_AllocPipe p a w))) S) (snd (USBH_AllocPipe p a w))"
proof -
  obtain pipe w' where al: "USBH_AllocPipe p a w = (pipe, w')" by (cases "USBH_AllocPipe p a w")
  note d = cdc_ownsD [OF assms(1)]
  from al have s: "alloc_pipe p a w = (Some (unat pipe), w')"
  proof (cases rule: AllocPipe_cases)
    case full
    with pipes.alloc_full [OF d(6) full(2)] d(7) assms(2) show ?thesis by simp
  qed simp
  from pipes.alloc_slot [OF d(6) s] d(7)
  have r: "pipes_ok p w'" "unat pipe < 15" "unat pipe \<notin> S" "pipes_used p w' = insert (unat pipe) S" by simp_all
  then show "unat (fst (USBH_AllocPipe p a w)) < USBH_MAX_PIPES_NBR" "unat (fst (USBH_AllocPipe p a w)) \<notin> S"
    by (simp_all add: al)
  have "w' = snd (USBH_AllocPipe p a w)" by (simp add: al)
  then have "hosts w' = hosts w" "cdata w' = cdata w" by (simp_all add: USBH_AllocPipe_def Let_def)
  with assms(1) r show "cdc_owns p q c (insert (unat (fst (USBH_AllocPipe p a w))) S) (snd (USBH_AllocPipe p a w))"
    by (simp add: al cdc_owns_def cdc_ptr_def)
qed

lemma owns_free:
  assumes "cdc_owns p q c S w"
  shows "cdc_owns p q c (S - {unat ch}) (snd (USBH_FreePipe p ch w))"
proof (cases "unat ch < USBH_MAX_PIPES_NBR")
  case True
  note d = cdc_ownsD [OF assms]
  have "(of_nat (unat ch) :: u8) = ch" by simp
  with pipes.free_slot [OF d(6) True] d(7)
  have "pipes_ok p (snd (USBH_FreePipe p ch w))" "pipes_used p (snd (USBH_FreePipe p ch w)) = S - {unat ch}" by simp_all
  moreover have "hosts (snd (USBH_FreePipe p ch w)) = hosts w" "cdata (snd (USBH_FreePipe p ch w)) = cdata w"
    by (simp_all add: USBH_FreePipe_def)
  ultimately show ?thesis using assms by (simp add: cdc_owns_def cdc_ptr_def)
next
  case False
  then have "unat ch \<notin> S" using pipes.used_bound [of p w] cdc_ownsD(6,7) [OF assms] by auto
  with False assms show ?thesis by (simp add: USBH_FreePipe_def)
qed

lemma owns_drop:
  assumes "cdc_owns p q c S w"
  shows "cdc_owns p q (if ch \<noteq> 0 \<and> ch \<noteq> 0xff then f c else c) (if ch \<noteq> 0 \<and> ch \<noteq> 0xff then S - {unat ch} else S) (drop_pipe p ch f w)"
  using owns_upd_cdc [OF owns_free [of p q c S "snd (USBH_ClosePipe p ch w)" ch], of f] assms
  by (simp add: drop_pipe_def)

section \<open>InterfaceInit and InterfaceDeInit\<close>

lemma owns_new:
  assumes "pipes_ok p w" "mallocs w = []" "0 < brk w" "app_data (hosts w p) = NULL" "pClassData (hosts w p) \<noteq> []"
  shows "cdc_owns p (brk w) (junk w) (pipes_used p w) (new_cdc p w)"
  using assms
  by (simp add: new_cdc_def malloc_def Let_def cdc_owns_def cdc_ptr_def pipes_ok_def pipes_used_def pipe_word_def)

text \<open>The handle after \<open>InterfaceInit\<close>, as far as its channels are concerned.\<close>

lemma init_owns:
  assumes "pipes_ok p w" "mallocs w = []" "0 < brk w" "app_data (hosts w p) = NULL" "pClassData (hosts w p) \<noteq> []"
    and "USBH_FindInterface p 0xff 0x01 0x02 w \<noteq> 0xFF"
    and free: "\<And>i. insert i (pipes_used p w) \<noteq> {..<USBH_MAX_PIPES_NBR}" "pipes_used p w \<noteq> {..<USBH_MAX_PIPES_NBR}"
  shows "\<exists>v c a b. USBH_CH340_InterfaceInit p w = (USBH_OK, v)
    \<and> cdc_owns p (brk w) c (insert (unat b) (insert (unat a) (pipes_used p w))) v
    \<and> cdc_OutPipe (cdc_DataItf c) = a \<and> cdc_InPipe (cdc_DataItf c) = b
    \<and> cdc_NotifPipe (cdc_CommItf c) = cdc_NotifPipe (cdc_CommItf (junk w))
    \<and> unat a < USBH_MAX_PIPES_NBR \<and> unat b < USBH_MAX_PIPES_NBR
    \<and> unat a \<notin> pipes_used p w \<and> unat b \<notin> insert (unat a) (pipes_used p w)"
proof -
  let ?itf = "USBH_FindInterface p 0xff 0x01 0x02 w"
  let ?q = "brk w" and ?S = "pipes_used p w"
  define w1 where "w1 = snd (USBH_SelectInterface p ?itf w)"
  have f1: "words w1 = words w" "Pipes (hosts w1 p) = Pipes (hosts w p)" "mallocs w1 = mallocs w" "brk w1 = brk w"
    "app_data (hosts w1 p) = app_data (hosts w p)" "pClassData (hosts w1 p) = pClassData (hosts w p)" "junk w1 = junk w"
    by (simp_all add: w1_def USBH_SelectInterface_def chk_itf_def)
  define w2 where "w2 = chk_itf p (unat ?itf) (new_cdc p w1)"
  from owns_new [of p w1] assms(1-5) f1 pipes_cong [OF f1(1,2)] have o2: "cdc_owns p ?q (junk w) ?S w2"
    by (simp add: w2_def)
  define eps where "eps = Ep_Desc (itf_desc p w2 (unat ?itf))"
  define w3 where "w3 = (if bEndpointAddress (eps ! 2) AND 0x80 \<noteq> 0 then
       upd_cdc p (\<lambda>c. c\<lparr>cdc_CommItf := (cdc_CommItf c)\<lparr>cdc_NotifEp := bEndpointAddress (eps ! 2),
         cdc_NotifEpSize := wMaxPacketSize (eps ! 2)\<rparr>\<rparr>) w2 else w2)"
  obtain c3 where o3: "cdc_owns p ?q c3 ?S w3" "cdc_NotifPipe (cdc_CommItf c3) = cdc_NotifPipe (cdc_CommItf (junk w))"
  proof (cases "bEndpointAddress (eps ! 2) AND 0x80 \<noteq> 0")
    case True
    let ?f = "\<lambda>c. c\<lparr>cdc_CommItf := (cdc_CommItf c)\<lparr>cdc_NotifEp := bEndpointAddress (eps ! 2),
         cdc_NotifEpSize := wMaxPacketSize (eps ! 2)\<rparr>\<rparr>"
    from owns_upd_cdc [OF o2, of ?f] True show ?thesis by (intro that [of "?f (junk w)"]) (simp_all add: w3_def)
  next
    case False
    with o2 that [of "junk w"] show ?thesis by (simp add: w3_def)
  qed
  define w4 where "w4 = upd_data p (data_endpoint (eps ! 1)) (upd_data p (data_endpoint (eps ! 0)) w3)"
  from owns_upd_data [OF owns_upd_data [OF o3(1)]] o3(2) obtain c4 where
    o4: "cdc_owns p ?q c4 ?S w4" "cdc_NotifPipe (cdc_CommItf c4) = cdc_NotifPipe (cdc_CommItf (junk w))"
    unfolding w4_def by fastforce
  obtain a w5 where a5: "USBH_AllocPipe p (cdc_OutEp (data_itf p w4)) w4 = (a, w5)" by force
  note al5 = owns_alloc [OF o4(1) free(2), of "cdc_OutEp (data_itf p w4)", unfolded a5, simplified]
  define w6 where "w6 = upd_data p (\<lambda>d. d\<lparr>cdc_OutPipe := a\<rparr>) w5"
  define c6 where "c6 = c4\<lparr>cdc_DataItf := (cdc_DataItf c4)\<lparr>cdc_OutPipe := a\<rparr>\<rparr>"
  have o6: "cdc_owns p ?q c6 (insert (unat a) ?S) w6" unfolding w6_def c6_def by (rule owns_upd_data [OF al5(3)])
  obtain b w7 where b7: "USBH_AllocPipe p (cdc_InEp (data_itf p w6)) w6 = (b, w7)" by force
  note al7 = owns_alloc [OF o6 free(1), of "cdc_InEp (data_itf p w6)", unfolded b7, simplified]
  define w8 where "w8 = upd_data p (\<lambda>d. d\<lparr>cdc_InPipe := b\<rparr>) w7"
  define c8 where "c8 = c6\<lparr>cdc_DataItf := (cdc_DataItf c6)\<lparr>cdc_InPipe := b\<rparr>\<rparr>"
  have o8: "cdc_owns p ?q c8 (insert (unat b) (insert (unat a) ?S)) w8"
    unfolding w8_def c8_def by (rule owns_upd_data [OF al7(3)])
  define d where "d = data_itf p w8"
  define w9 where "w9 = open_data_pipe p (cdc_InPipe d) (cdc_InEp d) (cdc_InEpSize d)
      (open_data_pipe p (cdc_OutPipe d) (cdc_OutEp d) (cdc_OutEpSize d) w8)"
  let ?c = "c8\<lparr>cdc_state := CDC_IDLE_STATE, attach_state := CH340_READ_VENDOR_VERSION_STATE\<rparr>"
  define w10 where "w10 = upd_cdc p (\<lambda>c. c\<lparr>cdc_state := CDC_IDLE_STATE,
      attach_state := CH340_READ_VENDOR_VERSION_STATE\<rparr>) w9"
  have "cdc_owns p ?q c8 (insert (unat b) (insert (unat a) ?S)) w9" using o8 by (simp add: w9_def)
  then have o10: "cdc_owns p ?q ?c (insert (unat b) (insert (unat a) ?S)) w10" unfolding w10_def by (rule owns_upd_cdc)
  define v where "v = snd (USBH_LL_SetToggle p (cdc_InPipe d) 0 (snd (USBH_LL_SetToggle p (cdc_OutPipe d) 0 w10)))"
  have "USBH_CH340_InterfaceInit p w = (USBH_OK, v)"
    unfolding USBH_CH340_InterfaceInit_def Let_def if_not_P [OF assms(6)]
      w1_def [symmetric] w2_def [symmetric] eps_def [symmetric] w3_def [symmetric] w4_def [symmetric] a5 b7 prod.case
      w6_def [symmetric] w8_def [symmetric] d_def [symmetric] w9_def [symmetric] w10_def [symmetric] v_def [symmetric] ..
  moreover have "cdc_owns p ?q ?c (insert (unat b) (insert (unat a) ?S)) v" using o10 by (simp add: v_def)
  ultimately show ?thesis using al5 al7 o4(2)
    by (intro exI [of _ v] exI [of _ ?c] exI [of _ a] exI [of _ b]) (simp add: c8_def c6_def)
qed

text \<open>What \<open>InterfaceDeInit\<close> gives back: the channels of the handle, except number 0 and 0xFF.\<close>

definition given_back :: "u8 \<Rightarrow> nat set" where
  "given_back ch = (if ch \<noteq> 0 \<and> ch \<noteq> 0xff then {unat ch} else {})"

lemma owns_drop':
  "cdc_owns p q c S w \<Longrightarrow> \<exists>c'. cdc_owns p q c' (S - given_back ch) (drop_pipe p ch f w) \<and> (c' = c \<or> c' = f c)"
  using owns_drop [of p q c S w ch f] by (auto simp: given_back_def split: if_splits)

lemma deinit_gives_back:
  assumes "cdc_owns p q c S w"
  shows "\<exists>u. USBH_CH340_InterfaceDeInit E p w = Some (USBH_OK, u)
    \<and> pipes_used p u = S - given_back (cdc_NotifPipe (cdc_CommItf c)) - given_back (cdc_InPipe (cdc_DataItf c))
          - given_back (cdc_OutPipe (cdc_DataItf c))
    \<and> pClassData (hosts u p) ! 0 = NULL \<and> cdata u q = NoData"
proof -
  note d = cdc_ownsD [OF assms]
  let ?n = "cdc_NotifPipe (cdc_CommItf c)"
  define w1 where "w1 = drop_pipe p ?n (\<lambda>c. c\<lparr>cdc_CommItf := (cdc_CommItf c)\<lparr>cdc_NotifPipe := 0\<rparr>\<rparr>) w"
  from owns_drop' [OF assms, of ?n] obtain c1 where o1: "cdc_owns p q c1 (S - given_back ?n) w1"
    "cdc_DataItf c1 = cdc_DataItf c" unfolding w1_def by fastforce
  define w2 where "w2 = drop_pipe p (cdc_InPipe (data_itf p w1)) (\<lambda>c. c\<lparr>cdc_DataItf := (cdc_DataItf c)\<lparr>cdc_InPipe := 0\<rparr>\<rparr>) w1"
  have i1: "data_itf p w1 = cdc_DataItf c" using cdc_ownsD(5) [OF o1(1)] o1(2) by simp
  from owns_drop' [OF o1(1), of "cdc_InPipe (cdc_DataItf c)"] o1(2) obtain c2 where
    o2: "cdc_owns p q c2 (S - given_back ?n - given_back (cdc_InPipe (cdc_DataItf c))) w2"
    "cdc_OutPipe (cdc_DataItf c2) = cdc_OutPipe (cdc_DataItf c)" unfolding w2_def i1 by fastforce
  define w3 where "w3 = drop_pipe p (cdc_OutPipe (data_itf p w2)) (\<lambda>c. c\<lparr>cdc_DataItf := (cdc_DataItf c)\<lparr>cdc_OutPipe := 0\<rparr>\<rparr>) w2"
  have i2: "cdc_OutPipe (data_itf p w2) = cdc_OutPipe (cdc_DataItf c)" using cdc_ownsD(5) [OF o2(1)] o2(2) by simp
  from owns_drop' [OF o2(1), of "cdc_OutPipe (cdc_DataItf c)"] obtain c3 where
    o3: "cdc_owns p q c3 (S - given_back ?n - given_back (cdc_InPipe (cdc_DataItf c)) - given_back (cdc_OutPipe (cdc_DataItf c))) w3"
    unfolding w3_def i2 by fastforce
  let ?w4 = "upd_host p (\<lambda>h. h\<lparr>pClassData := (pClassData h)[0 := NULL]\<rparr>) (free_cdata q w3)"
  let ?u = "snd (USBH_Free_One_Address p ?w4)"
  have "USBH_CH340_InterfaceDeInit E p w = Some (USBH_OK, ?u)"
    using d cdc_ownsD(1,2) [OF o3]
    by (simp add: USBH_CH340_InterfaceDeInit_def wait_app.simps [of E p w] w1_def [symmetric] w2_def [symmetric]
        w3_def [symmetric] Let_def)
  moreover have "words ?u = words w3" "Pipes (hosts ?u p) = Pipes (hosts w3 p)"
    "pClassData (hosts ?u p) = (pClassData (hosts w3 p))[0 := NULL]" "cdata ?u = cdata (free_cdata q w3)"
    by (simp_all add: USBH_Free_One_Address_def set_dev_address_def set_addr_used_def Let_def free_cdata_def)
  then have "pipes_used p ?u = pipes_used p w3" "pClassData (hosts ?u p) ! 0 = NULL" "cdata ?u q = NoData"
    using o3 pipes_cong(2) [of ?u w3 p] by (simp_all add: free_cdata_def cdc_owns_def)
  ultimately show ?thesis using cdc_ownsD(7) [OF o3] by auto
qed

section \<open>Properties\<close>

text \<open>
  C29: Opening a CH340 interface and closing it again gives back every channel it took, and the handle
  is freed. The notification channel is the exception: no code sets its number, so the memory
  \<open>malloc\<close> returns decides. If that byte happens to be 0 or 0xFF the channels in use are those before;
  if it is the number of any other channel, that channel is closed and marked free although another
  device uses it.
\<close>

theorem interface_roundtrip:
  assumes "pipes_ok p w" and "mallocs w = []" and "0 < brk w" and "app_data (hosts w p) = NULL"
    and "pClassData (hosts w p) \<noteq> []" and "USBH_FindInterface p 0xff 0x01 0x02 w \<noteq> 0xFF"
    and "card (pipes_used p w) \<le> 13" and "0 \<in> pipes_used p w"
  shows "\<exists>v u. USBH_CH340_InterfaceInit p w = (USBH_OK, v) \<and> card (pipes_used p v) = card (pipes_used p w) + 2
    \<and> pipes_used p w \<subseteq> pipes_used p v
    \<and> USBH_CH340_InterfaceDeInit E p v = Some (USBH_OK, u)
    \<and> pipes_used p u = pipes_used p w - given_back (cdc_NotifPipe (cdc_CommItf (junk w)))
    \<and> pClassData (hosts u p) ! 0 = NULL \<and> cdata u (brk w) = NoData"
proof -
  let ?S = "pipes_used p w"
  have fin: "finite ?S" by (simp add: pipes_used_def)
  have full: "X = {..<USBH_MAX_PIPES_NBR} \<Longrightarrow> card X = 15" for X :: "nat set" by (simp only: card_lessThan)
  have le: "card (insert i ?S) \<le> 14" for i
  proof -
    have "card (insert i ?S) \<le> Suc (card ?S)" using fin by (simp add: card_insert_if)
    then show ?thesis using assms(7) by linarith
  qed
  have free: "insert i ?S \<noteq> {..<USBH_MAX_PIPES_NBR}" "?S \<noteq> {..<USBH_MAX_PIPES_NBR}" for i
  proof -
    show "insert i ?S \<noteq> {..<USBH_MAX_PIPES_NBR}"
    proof
      assume "insert i ?S = {..<USBH_MAX_PIPES_NBR}"
      from full [OF this] le [of i] show False by linarith
    qed
    show "?S \<noteq> {..<USBH_MAX_PIPES_NBR}"
    proof
      assume "?S = {..<USBH_MAX_PIPES_NBR}"
      from full [OF this] assms(7) show False by linarith
    qed
  qed
  from init_owns [OF assms(1-6) free] obtain v c a b where
    v: "USBH_CH340_InterfaceInit p w = (USBH_OK, v)" "cdc_owns p (brk w) c (insert (unat b) (insert (unat a) ?S)) v"
    "cdc_OutPipe (cdc_DataItf c) = a" "cdc_InPipe (cdc_DataItf c) = b"
    "cdc_NotifPipe (cdc_CommItf c) = cdc_NotifPipe (cdc_CommItf (junk w))"
    "unat a < 15" "unat b < 15" "unat a \<notin> ?S" "unat b \<notin> insert (unat a) ?S" by blast
  have g: "given_back a = {unat a}" "given_back b = {unat b}"
  proof -
    have "unat a \<noteq> 0" "unat b \<noteq> 0" using v(8,9) assms(8) by (metis insertI2)+
    moreover have "a \<noteq> 0xff" "b \<noteq> 0xff" using v(6,7) by auto
    ultimately show "given_back a = {unat a}" "given_back b = {unat b}" by (auto simp: given_back_def)
  qed
  have p: "pipes_used p v = insert (unat b) (insert (unat a) ?S)" by (rule cdc_ownsD(7) [OF v(2)])
  have "card (pipes_used p v) = card ?S + 2" "?S \<subseteq> pipes_used p v" using v(8,9) fin by (auto simp: p)
  moreover from deinit_gives_back [OF v(2), of E] obtain u where
    "USBH_CH340_InterfaceDeInit E p v = Some (USBH_OK, u)" "pClassData (hosts u p) ! 0 = NULL" "cdata u (brk w) = NoData"
    "pipes_used p u = insert (unat b) (insert (unat a) ?S) - given_back (cdc_NotifPipe (cdc_CommItf (junk w))) - {unat b} - {unat a}"
    using v(3-5) g by auto
  moreover have "insert (unat b) (insert (unat a) ?S) - X - {unat b} - {unat a} = ?S - X" for X
    using v(8,9) by auto
  ultimately show ?thesis using v(1) by auto
qed

section \<open>Witnesses\<close>

text \<open>
  A CH340 on a root handle with two control channels, its handle allocated where the memory holds the
  number of channel 1.
\<close>

definition ch340_world :: usb where
  "ch340_world = reset_usb\<lparr>
     hosts := (\<lambda>_. zero_host\<lparr>Pipes := 5, pClassData := [0, 0, 0, 0, 0],
       device := zero_device\<lparr>CfgDesc := (CfgDesc zero_device)\<lparr>Itf_Desc := [zero_itf_desc\<lparr>bInterfaceClass := 0xff,
         bInterfaceSubClass := 1, bInterfaceProtocol := 2\<rparr>]\<rparr>\<rparr>\<rparr>),
     words := (\<lambda>_. [0x8000, 0x8080] @ replicate 13 0), mallocs := [], brk := 40,
     junk := zero_cdc\<lparr>cdc_CommItf := (cdc_CommItf zero_cdc)\<lparr>cdc_NotifPipe := 1\<rparr>\<rparr>\<rparr>"

lemma ch340_world_used: "pipes_used hUSBHost ch340_world = {0, 1}"
proof -
  have "pipe_word hUSBHost ch340_world i = (if i = 0 then 0x8000 else if i = 1 then 0x8080 else 0)" if "i < 15" for i
    using that by (simp add: pipe_word_def ch340_world_def nth_append nth_Cons' Let_def)
  then show ?thesis by (auto simp: pipes_used_def split: if_splits)
qed

lemma interface_roundtrip_witness:
  "\<exists>v u. USBH_CH340_InterfaceInit hUSBHost ch340_world = (USBH_OK, v) \<and> USBH_CH340_InterfaceDeInit id hUSBHost v = Some (USBH_OK, u)
     \<and> pipes_used hUSBHost u = {0}"
proof -
  have "pipes_ok hUSBHost ch340_world" "mallocs ch340_world = []" "0 < brk ch340_world"
    "app_data (hosts ch340_world hUSBHost) = NULL" "pClassData (hosts ch340_world hUSBHost) \<noteq> []"
    by (simp_all add: ch340_world_def pipes_ok_def zero_host_def)
  moreover have "USBH_FindInterface hUSBHost 0xff 0x01 0x02 ch340_world \<noteq> 0xFF"
    by (simp add: USBH_FindInterface_def first_idx.simps itf_desc_def ch340_world_def)
  moreover have "card (pipes_used hUSBHost ch340_world) \<le> 13" "0 \<in> pipes_used hUSBHost ch340_world"
    unfolding ch340_world_used by simp_all
  ultimately obtain v u where "USBH_CH340_InterfaceInit hUSBHost ch340_world = (USBH_OK, v)"
    "USBH_CH340_InterfaceDeInit id hUSBHost v = Some (USBH_OK, u)"
    "pipes_used hUSBHost u = pipes_used hUSBHost ch340_world - given_back (cdc_NotifPipe (cdc_CommItf (junk ch340_world)))"
    using interface_roundtrip [of hUSBHost ch340_world id] by blast
  moreover have "given_back (cdc_NotifPipe (cdc_CommItf (junk ch340_world))) = {1}"
    by (simp add: ch340_world_def given_back_def)
  ultimately show ?thesis unfolding ch340_world_used by auto
qed

end
