(* ===== verification/Usb_MSC_Shape.thy ===== *)
theory Usb_MSC_Shape
  imports Usb_MSC_Class Usb_Bus
begin

text \<open>
  What every operation of the mass storage driver keeps of its handle. A predicate on the handle that the
  transport cannot break (locale \<open>transport_invariant\<close>) is kept by the transport and by the six SCSI
  commands. The sizes of the handle's arrays (\<open>msc_shape\<close>) are kept by the updates of the units.
\<close>

section \<open>What is true of the class data\<close>

text \<open>
  A predicate on the class data that the environment keeps is kept by the control requests, which do not
  touch the class data themselves.
\<close>

definition keeps_data :: "((ptr \<Rightarrow> class_data) \<Rightarrow> bool) \<Rightarrow> (usb \<Rightarrow> usb) \<Rightarrow> bool" where
  "keeps_data P E \<longleftrightarrow> (\<forall>w. P (cdata w) \<longrightarrow> P (cdata (E w)))"

lemma keeps_dataD: "keeps_data P E \<Longrightarrow> P (cdata w) \<Longrightarrow> P (cdata (E w))"
  by (simp add: keeps_data_def)

lemma cdata_frame [simp]:
  "cdata (upd_hc ch g w) = cdata w" "cdata (chk_hc ch w) = cdata w" "cdata (chk_hcd q w) = cdata w"
  "cdata (set_ctl_state p st w) = cdata w" "cdata (set_request p r w) = cdata w" "cdata (stamp_timer p w) = cdata w"
  "cdata (fill_setup p rt rq v ix len w) = cdata w" "cdata (put_setup p rt rq v ix len w) = cdata w"
  "cdata (call_user q ev w) = cdata w" "cdata (snd (USBH_LL_SubmitURB q ch d t k b n g' w)) = cdata w"
  "cdata (snd (USBH_LL_Stop q w)) = cdata w" "cdata (snd (USBH_LL_SetToggle p ch tg w)) = cdata w"
  by (simp_all add: upd_hc_def chk_hc_def chk_hcd_def set_ctl_state_def set_request_def stamp_timer_def fill_setup_def
      put_setup_def call_user_def USBH_UserProcess_def USBH_LL_SubmitURB_def HAL_HCD_HC_SubmitRequest_def Let_def
      USBH_LL_Stop_def USBH_LL_SetToggle_def split: HOST_USER.split)

lemma cdata_ioreq [simp]:
  "cdata (snd (USBH_CtlSendSetup q b ch w)) = cdata w" "cdata (snd (USBH_CtlSendData q b n ch g w)) = cdata w"
  "cdata (snd (USBH_CtlReceiveData q b n ch w)) = cdata w" "cdata (snd (USBH_BulkSendData q b n ch g w)) = cdata w"
  "cdata (snd (USBH_BulkReceiveData q b n ch w)) = cdata w"
  by (simp_all add: ioreq_defs)

lemma poll_data: "keeps_data P E \<Longrightarrow> P (cdata w) \<Longrightarrow> P (cdata (snd (USBH_LL_GetURBState E p ch w)))"
  by (simp add: USBH_LL_GetURBState_def Let_def keeps_dataD)

lemma control_data:
  assumes "keeps_data P E" "P (cdata w)"
  shows "P (cdata (snd (USBH_HandleControl E p w)))"
  using poll_data [OF assms] assms(2)
  by (simp add: USBH_HandleControl_def Let_def case_prod_beta split: CTRL_StateTypeDef.split)

lemma ctlreq_data:
  assumes "keeps_data P E" "P (cdata w)"
  shows "P (cdata (snd (USBH_CtlReq E p b n w)))"
  using control_data [OF assms(1), of _ p] assms(2)
  by (simp add: USBH_CtlReq_def pipes_allocated_def read_pipe_def Let_def case_prod_beta split: CMD_StateTypeDef.split)

lemma clear_data: "keeps_data P E \<Longrightarrow> P (cdata w) \<Longrightarrow> P (cdata (snd (USBH_ClrFeature E p ep w)))"
  by (simp add: USBH_ClrFeature_def ctlreq_data)

lemma control_recovers: "fst (USBH_HandleControl E p w) \<noteq> USBH_UNRECOVERED_ERROR"
  by (simp add: USBH_HandleControl_def Let_def case_prod_beta split: CTRL_StateTypeDef.split)

lemma ctlreq_recovers: "fst (USBH_CtlReq E p b n w) \<noteq> USBH_UNRECOVERED_ERROR"
  by (simp add: USBH_CtlReq_def pipes_allocated_def read_pipe_def Let_def case_prod_beta control_recovers
      split: CMD_StateTypeDef.split)

lemma clear_recovers: "fst (USBH_ClrFeature E p ep w) \<noteq> USBH_UNRECOVERED_ERROR"
  by (simp add: USBH_ClrFeature_def ctlreq_recovers)

section \<open>What a predicate on the handle needs to survive the transport\<close>

text \<open>The handle at \<open>q\<close> satisfies \<open>Q\<close>.\<close>

definition of_handle :: "(MSC_HandleTypeDef \<Rightarrow> bool) \<Rightarrow> ptr \<Rightarrow> (ptr \<Rightarrow> class_data) \<Rightarrow> bool" where
  "of_handle Q q d \<longleftrightarrow> (case d q of MscData m \<Rightarrow> Q m | _ \<Rightarrow> False)"

lemma upd_msc_data:
  "cdata (upd_msc q f w) = (case cdata w q of MscData m \<Rightarrow> (cdata w)(q := MscData (f m)) | _ \<Rightarrow> cdata w)"
  by (simp add: upd_msc_def split: class_data.split)

lemma of_handle_upd:
  assumes "\<And>m. Q m \<Longrightarrow> Q (f m)" "of_handle Q q (cdata w)"
  shows "of_handle Q q (cdata (upd_msc r f w))"
  using assms by (auto simp: upd_msc_data of_handle_def split: class_data.splits)

lemma of_handle_at: "of_handle Q q (cdata w) \<Longrightarrow> Q (msc_at q w)"
  by (simp add: of_handle_def msc_at_def split: class_data.splits)

lemma msc_chk_data [simp]:
  "cdata (chk_msc q w) = cdata w" "cdata (chk_unit q i w) = cdata w" "cdata (chk_buf b i w) = cdata w"
  by (simp_all add: chk_msc_def chk_unit_def chk_buf_def)

lemma xfer_data [simp]: "cdata (bot_receive p r w) = cdata w" "cdata (bot_send p r w) = cdata w"
  by (simp_all add: bot_receive_def bot_send_def Let_def)

text \<open>The transport's part of the handle may change as long as its buffers keep their sizes.\<close>

definition same_layout :: "BOT_HandleTypeDef \<Rightarrow> BOT_HandleTypeDef \<Rightarrow> bool" where
  "same_layout b b' \<longleftrightarrow> length (bot_data b') = length (bot_data b) \<and> length (csw b') = length (csw b)
     \<and> (length (cbw_CB (cbw b)) = 16 \<longrightarrow> length (cbw_CB (cbw b')) = 16)"

locale transport_invariant =
  fixes Q :: "MSC_HandleTypeDef \<Rightarrow> bool"
  assumes transport: "Q m \<Longrightarrow> same_layout (hbot m) b \<Longrightarrow> Q (m\<lparr>hbot := b\<rparr>)"
begin

lemma bot_kept:
  assumes "of_handle Q q (cdata w)" "\<And>b. same_layout b (g b)"
  shows "of_handle Q q (cdata (upd_bot r g w))"
proof (rule of_handle_upd [OF _ assms(1)])
  fix m assume "Q m"
  from transport [OF this assms(2)] show "Q (hbot_update g m)" by (cases m) simp
qed

lemma steps_kept:
  assumes "of_handle Q q (cdata w)"
  shows "of_handle Q q (cdata (set_bot r st w))" "of_handle Q q (cdata (upd_bot r (advance_bot n) w))"
    "of_handle Q q (cdata (upd_bot r (\<lambda>b. b\<lparr>bot_state := st, bot_cmd_state := cs\<rparr>) w))"
    "of_handle Q q (cdata (upd_bot r (\<lambda>b. b\<lparr>cbw := (cbw b)\<lparr>cbw_LUN := lun\<rparr>, bot_state := st\<rparr>) w))"
  unfolding set_bot_def by (rule bot_kept [OF assms]; simp add: same_layout_def advance_bot_def)+

lemma abort_kept:
  "keeps_data (of_handle Q q) E \<Longrightarrow> of_handle Q q (cdata w) \<Longrightarrow> of_handle Q q (cdata (snd (USBH_MSC_BOT_Abort E p lun dir w)))"
  by (simp add: USBH_MSC_BOT_Abort_def Let_def clear_data)

lemma waits_kept:
  assumes "keeps_data (of_handle Q q) E" "of_handle Q q (cdata w)"
  shows "of_handle Q q (cdata (bot_cbw_wait E p r w))" "of_handle Q q (cdata (bot_data_in_wait E p r w))"
    "of_handle Q q (cdata (bot_data_out_wait E p r w))" "of_handle Q q (cdata (snd (bot_csw_wait E p r w)))"
    "of_handle Q q (cdata (bot_error_in E p lun r w))" "of_handle Q q (cdata (bot_error_out E p lun r w))"
proof -
  note p = poll_data [OF assms, of p]
  show "of_handle Q q (cdata (bot_cbw_wait E p r w))" "of_handle Q q (cdata (bot_data_in_wait E p r w))"
    "of_handle Q q (cdata (bot_data_out_wait E p r w))" "of_handle Q q (cdata (snd (bot_csw_wait E p r w)))"
    using p by (simp_all add: bot_cbw_wait_def bot_data_in_wait_def bot_data_out_wait_def bot_csw_wait_def case_prod_beta
        Let_def steps_kept)
  show "of_handle Q q (cdata (bot_error_in E p lun r w))" "of_handle Q q (cdata (bot_error_out E p lun r w))"
    using abort_kept [OF assms]
    by (simp_all add: bot_error_in_def bot_error_out_def case_prod_beta Let_def steps_kept)
qed

lemma process_kept:
  assumes "keeps_data (of_handle Q q) E" "of_handle Q q (cdata w)"
  shows "of_handle Q q (cdata (snd (USBH_MSC_BOT_Process E p lun w)))"
proof -
  have "of_handle Q q (cdata (chk_msc r w))" for r using assms(2) by simp
  note w = waits_kept [OF assms(1) this]
  have reset: "of_handle Q q (cdata (snd (USBH_MSC_BOT_REQ_Reset E p (chk_msc r w))))" for r
    using assms by (simp add: USBH_MSC_BOT_REQ_Reset_def ctlreq_data)
  show ?thesis
    using assms(2) w reset
    by (simp add: USBH_MSC_BOT_Process_def Let_def case_prod_beta steps_kept split: BOT_StateTypeDef.split)
qed

lemma command_kept:
  assumes "keeps_data (of_handle Q q) E" "of_handle Q q (cdata w)" "\<And>b. same_layout b (prep b)"
    and "\<And>r w. of_handle Q q (cdata w) \<Longrightarrow> of_handle Q q (cdata (post r w))"
  shows "of_handle Q q (cdata (snd (scsi_command E p lun err prep post w)))"
  using assms process_kept [OF assms(1), of "chk_msc r w" for r]
  by (simp add: scsi_command_def Let_def case_prod_beta bot_kept split: BOT_CMDStateTypeDef.split)

text \<open>The six commands, whose answers may be stored by anything that keeps the predicate.\<close>

lemma scsi_kept:
  assumes "keeps_data (of_handle Q q) E" "of_handle Q q (cdata w)"
  shows "of_handle Q q (cdata (snd (USBH_MSC_SCSI_TestUnitReady E p lun w)))"
    "of_handle Q q (cdata (snd (USBH_MSC_SCSI_Read E p lun blk b n w)))"
    "of_handle Q q (cdata (snd (USBH_MSC_SCSI_Write E p lun blk b n w)))"
    "(\<And>x w. of_handle Q q (cdata w) \<Longrightarrow> of_handle Q q (cdata (s1 x w))) \<Longrightarrow>
       of_handle Q q (cdata (snd (USBH_MSC_SCSI_ReadCapacity E p lun s1 w)))"
    "(\<And>x w. of_handle Q q (cdata w) \<Longrightarrow> of_handle Q q (cdata (s2 x w))) \<Longrightarrow>
       of_handle Q q (cdata (snd (USBH_MSC_SCSI_Inquiry E p lun s2 w)))"
    "(\<And>x w. of_handle Q q (cdata w) \<Longrightarrow> of_handle Q q (cdata (s3 x w))) \<Longrightarrow>
       of_handle Q q (cdata (snd (USBH_MSC_SCSI_RequestSense E p lun s3 w)))"
  unfolding USBH_MSC_SCSI_TestUnitReady_def USBH_MSC_SCSI_Read_def USBH_MSC_SCSI_Write_def
    USBH_MSC_SCSI_ReadCapacity_def USBH_MSC_SCSI_Inquiry_def USBH_MSC_SCSI_RequestSense_def
  by (rule command_kept [OF assms]; simp add: same_layout_def fill_cbw_def own_data_def rw_block_def)+

end

section \<open>The shape of the handle\<close>

definition msc_shape :: "MSC_HandleTypeDef \<Rightarrow> bool" where
  "msc_shape m \<longleftrightarrow> length (msc_unit m) = 2 \<and> length (bot_data (hbot m)) = 64 \<and> length (csw (hbot m)) = 13
     \<and> length (cbw_CB (cbw (hbot m))) = 16"

abbreviation shaped :: "ptr \<Rightarrow> (ptr \<Rightarrow> class_data) \<Rightarrow> bool" where
  "shaped \<equiv> of_handle msc_shape"

lemma shaped_upd:
  assumes "\<And>m. msc_shape m \<Longrightarrow> msc_shape (f m)" "shaped q (cdata w)"
  shows "shaped q (cdata (upd_msc r f w))"
  using assms by (rule of_handle_upd)

lemma shaped_bot:
  "shaped q (cdata w) \<Longrightarrow> shaped q (cdata (upd_unit r i g w))"
  "shaped q (cdata w) \<Longrightarrow> shaped q (cdata (set_lun r i ls w))"
  "shaped q (cdata w) \<Longrightarrow> shaped q (cdata (set_lun_error r i le w))"
  "shaped q (cdata w) \<Longrightarrow> shaped q (cdata (next_lun r w))"
  "shaped q (cdata w) \<Longrightarrow> shaped q (cdata (lun_given_up r w))"
  by (auto simp: lun_given_up_def next_lun_def upd_unit_def set_lun_def set_lun_error_def msc_shape_def intro!: shaped_upd)

text \<open>
  The loop of a read or write: \<open>J\<close> is kept as long as it goes round, \<open>K\<close> holds when the command ends it.
\<close>

lemma rw_loop_invariant:
  fixes J K :: "usb \<Rightarrow> bool"
  assumes "rw_loop E p q lun t n w = Some z" "J w"
    and "\<And>w. J w \<Longrightarrow> fst (USBH_MSC_RdWrProcess E p lun w) = USBH_BUSY \<Longrightarrow> J (E (snd (USBH_MSC_RdWrProcess E p lun w)))"
    and "\<And>w. J w \<Longrightarrow> fst (USBH_MSC_RdWrProcess E p lun w) \<noteq> USBH_BUSY \<Longrightarrow> K (snd (USBH_MSC_RdWrProcess E p lun w))"
  shows "\<exists>v. snd z = upd_msc q (\<lambda>m. m\<lparr>msc_state := MSC_IDLE\<rparr>) v \<and> (fst z = USBH_OK \<and> K v \<or> fst z = USBH_FAIL \<and> J v)"
proof -
  define P where "P = (\<lambda>E' (p' :: ptr) (q' :: ptr) (lun' :: u8) (t :: u32) (n :: u32) (w :: usb) (z :: USBH_StatusTypeDef \<times> usb).
    E' = E \<longrightarrow> p' = p \<longrightarrow> lun' = lun \<longrightarrow> J w \<longrightarrow>
    (\<exists>v. snd z = upd_msc q' (\<lambda>m. m\<lparr>msc_state := MSC_IDLE\<rparr>) v \<and> (fst z = USBH_OK \<and> K v \<or> fst z = USBH_FAIL \<and> J v)))"
  have "P E p q lun t n w z"
  proof (rule rw_loop.raw_induct [of P, OF _ assms(1)], unfold P_def, intro impI)
    fix loop E' p' q lun' t n w z
    assume IH: "\<And>E' p' q lun' t n w z. loop E' p' q lun' t n w = Some z \<Longrightarrow> E' = E \<longrightarrow> p' = p \<longrightarrow> lun' = lun \<longrightarrow> J w \<longrightarrow>
        (\<exists>v. snd z = upd_msc q (\<lambda>m. m\<lparr>msc_state := MSC_IDLE\<rparr>) v \<and> (fst z = USBH_OK \<and> K v \<or> fst z = USBH_FAIL \<and> J v))"
      and e: "(let (st, w) = USBH_MSC_RdWrProcess E' p' lun' w
         in if st = USBH_BUSY
            then let w = E' w in if Timer (hosts w p') - t > 10000 * n \<or> is_connected (device (hosts w p')) = 0
                then Some (USBH_FAIL, upd_msc q (\<lambda>m. m\<lparr>msc_state := MSC_IDLE\<rparr>) w) else loop E' p' q lun' t n w
            else Some (USBH_OK, upd_msc q (\<lambda>m. m\<lparr>msc_state := MSC_IDLE\<rparr>) w)) = Some z"
      and s: "E' = E" "p' = p" "lun' = lun" "J w"
    obtain st v where r: "USBH_MSC_RdWrProcess E p lun w = (st, v)" by force
    show "\<exists>v. snd z = upd_msc q (\<lambda>m. m\<lparr>msc_state := MSC_IDLE\<rparr>) v \<and> (fst z = USBH_OK \<and> K v \<or> fst z = USBH_FAIL \<and> J v)"
    proof (cases "st = USBH_BUSY")
      case True
      with assms(3) [OF s(4)] r have "J (E v)" by simp
      with e IH r s True show ?thesis by (auto simp: Let_def split: if_splits)
    next
      case False
      with assms(4) [OF s(4)] r have "K v" by simp
      with e r s False show ?thesis by auto
    qed
  qed
  then show ?thesis using assms(2) by (simp add: P_def)
qed

end
