(* ===== verification/Usb_MSC_Machine.thy ===== *)
theory Usb_MSC_Machine
  imports Usb_MSC_Shape
begin

text \<open>
  The states of the bulk-only transport as a step relation: which state a round of
  \<open>USBH_MSC_BOT_Process\<close> can lead to on any environment that leaves the driver's handle alone but for the
  bytes the hardware writes (locale \<open>msc_environment\<close>).
\<close>

section \<open>The transport as a state machine\<close>

text \<open>The handle at \<open>q\<close> is \<open>m\<close>, up to the data words and the status block, which the hardware writes.\<close>

definition with_io :: "u8 list \<Rightarrow> u8 list \<Rightarrow> MSC_HandleTypeDef \<Rightarrow> MSC_HandleTypeDef" where
  "with_io x c m = m\<lparr>hbot := (hbot m)\<lparr>bot_data := x, csw := c\<rparr>\<rparr>"

lemma with_io_sel [simp]:
  "with_io x c (with_io x' c' m) = with_io x c m" "with_io (bot_data (hbot m)) (csw (hbot m)) m = m"
  "bot_data (hbot (with_io x c m)) = x" "csw (hbot (with_io x c m)) = c"
  "bot_state (hbot (with_io x c m)) = bot_state (hbot m)" "bot_cmd_state (hbot (with_io x c m)) = bot_cmd_state (hbot m)"
  "bot_pbuf (hbot (with_io x c m)) = bot_pbuf (hbot m)" "cbw (hbot (with_io x c m)) = cbw (hbot m)"
  "msc_InPipe (with_io x c m) = msc_InPipe m" "msc_OutPipe (with_io x c m) = msc_OutPipe m"
  "msc_InEp (with_io x c m) = msc_InEp m" "msc_OutEp (with_io x c m) = msc_OutEp m"
  "msc_InEpSize (with_io x c m) = msc_InEpSize m" "msc_OutEpSize (with_io x c m) = msc_OutEpSize m"
  "msc_unit (with_io x c m) = msc_unit m" "msc_state (with_io x c m) = msc_state m" "max_lun (with_io x c m) = max_lun m"
  "current_lun (with_io x c m) = current_lun m" "msc_timer (with_io x c m) = msc_timer m"
  by (simp_all add: with_io_def)

lemma bot_upd_eq: "hbot_update g m = m\<lparr>hbot := g (hbot m)\<rparr>"
  by simp

definition holds_msc :: "ptr \<Rightarrow> MSC_HandleTypeDef \<Rightarrow> (ptr \<Rightarrow> class_data) \<Rightarrow> bool" where
  "holds_msc q m d \<longleftrightarrow> (\<exists>x c. d q = MscData (with_io x c m))"

lemma holds_mscI: "d q = MscData m \<Longrightarrow> holds_msc q m d"
  unfolding holds_msc_def by (intro exI [of _ "bot_data (hbot m)"] exI [of _ "csw (hbot m)"]) simp

lemma holds_msc_at:
  assumes "holds_msc q m (cdata w)"
  shows "\<exists>x c. msc_at q w = with_io x c m" "chk_msc q w = w"
    "bot_state (bot_at q w) = bot_state (hbot m)" "bot_cmd_state (bot_at q w) = bot_cmd_state (hbot m)"
    "bot_pbuf (bot_at q w) = bot_pbuf (hbot m)" "cbw (bot_at q w) = cbw (hbot m)"
    "msc_InPipe (msc_at q w) = msc_InPipe m" "msc_OutPipe (msc_at q w) = msc_OutPipe m"
    "msc_InEp (msc_at q w) = msc_InEp m" "msc_OutEp (msc_at q w) = msc_OutEp m"
    "msc_InEpSize (msc_at q w) = msc_InEpSize m" "msc_OutEpSize (msc_at q w) = msc_OutEpSize m"
    "msc_unit (msc_at q w) = msc_unit m" "msc_state (msc_at q w) = msc_state m" "max_lun (msc_at q w) = max_lun m"
    "current_lun (msc_at q w) = current_lun m" "msc_timer (msc_at q w) = msc_timer m"
proof -
  obtain x c where "cdata w q = MscData (with_io x c m)" using assms by (auto simp: holds_msc_def)
  then have e: "msc_at q w = with_io x c m" "chk_msc q w = w" by (simp_all add: msc_at_def chk_msc_def)
  then show "\<exists>x c. msc_at q w = with_io x c m" by blast
  show "chk_msc q w = w" by (rule e(2))
qed (use assms in \<open>auto simp: holds_msc_def msc_at_def\<close>)

text \<open>An update that does not look at the two.\<close>

definition blind :: "(MSC_HandleTypeDef \<Rightarrow> MSC_HandleTypeDef) \<Rightarrow> bool" where
  "blind f \<longleftrightarrow> (\<forall>x c m. f (with_io x c m) = with_io x c (f m))"

lemma blind_bot: "(\<And>b x c. g (b\<lparr>bot_data := x, csw := c\<rparr>) = (g b)\<lparr>bot_data := x, csw := c\<rparr>) \<Longrightarrow> blind (hbot_update g)"
  by (simp add: blind_def with_io_def)

lemma holds_upd:
  assumes "holds_msc q m (cdata w)" "blind f"
  shows "holds_msc q (f m) (cdata (upd_msc q f w))"
proof -
  obtain x c where "cdata w q = MscData (with_io x c m)" using assms by (auto simp: holds_msc_def)
  with assms(2) have "cdata (upd_msc q f w) q = MscData (with_io x c (f m))" by (simp add: upd_msc_data blind_def)
  then show ?thesis unfolding holds_msc_def by blast
qed

lemma blind_simps [simp]:
  "blind (hbot_update (bot_state_update (\<lambda>_. st)))" "blind (hbot_update (advance_bot n))"
  "blind (hbot_update (\<lambda>b. b\<lparr>bot_state := st, bot_cmd_state := cs\<rparr>))"
  "blind (hbot_update (\<lambda>b. b\<lparr>cbw := (cbw b)\<lparr>cbw_LUN := lun\<rparr>, bot_state := st\<rparr>))"
  by (rule blind_bot; simp add: advance_bot_def)+

lemma holds_bot:
  assumes "holds_msc q m (cdata w)" "blind (hbot_update g)"
  shows "holds_msc q (m\<lparr>hbot := g (hbot m)\<rparr>) (cdata (upd_bot q g w))"
  using holds_upd [OF assms] by (simp only: bot_upd_eq [of g m])

lemma holds_set:
  assumes "holds_msc q m (cdata w)"
  shows "holds_msc q (m\<lparr>hbot := (hbot m)\<lparr>bot_state := st\<rparr>\<rparr>) (cdata (set_bot q st w))"
    "holds_msc q (m\<lparr>hbot := advance_bot n (hbot m)\<rparr>) (cdata (upd_bot q (advance_bot n) w))"
  unfolding set_bot_def by (rule holds_bot [OF assms blind_simps(1)], rule holds_bot [OF assms blind_simps(2)])

locale msc_environment =
  fixes E :: "usb \<Rightarrow> usb" and q :: ptr
  assumes env_msc: "cdata w q = MscData m \<Longrightarrow> holds_msc q m (cdata (E w))"
begin

lemma env_keeps: "keeps_data (holds_msc q m) E"
  unfolding keeps_data_def
proof (intro allI impI)
  fix w :: usb assume "holds_msc q m (cdata w)"
  then obtain x c where "cdata w q = MscData (with_io x c m)" by (auto simp: holds_msc_def)
  from env_msc [OF this] show "holds_msc q m (cdata (E w))" by (simp add: holds_msc_def)
qed

end

text \<open>The transitions of the transport; \<open>BOT_UNRECOVERED_ERROR\<close> has none into it.\<close>

inductive bot_next :: "BOT_StateTypeDef \<Rightarrow> BOT_StateTypeDef \<Rightarrow> bool" where
  cbw: "bot_next BOT_SEND_CBW BOT_SEND_CBW_WAIT"
| cbw_done: "s \<in> {BOT_DATA_IN, BOT_DATA_OUT, BOT_RECEIVE_CSW} \<Longrightarrow> bot_next BOT_SEND_CBW_WAIT s"
| cbw_again: "bot_next BOT_SEND_CBW_WAIT BOT_SEND_CBW"
| cbw_stall: "bot_next BOT_SEND_CBW_WAIT BOT_ERROR_OUT"
| dat_in: "bot_next BOT_DATA_IN BOT_DATA_IN_WAIT"
| dat_in_done: "bot_next BOT_DATA_IN_WAIT BOT_RECEIVE_CSW"
| dat_in_stall: "bot_next BOT_DATA_IN_WAIT BOT_ERROR_IN"
| dat_out: "bot_next BOT_DATA_OUT BOT_DATA_OUT_WAIT"
| dat_out_done: "bot_next BOT_DATA_OUT_WAIT BOT_RECEIVE_CSW"
| dat_out_again: "bot_next BOT_DATA_OUT_WAIT BOT_DATA_OUT"
| dat_out_stall: "bot_next BOT_DATA_OUT_WAIT BOT_ERROR_OUT"
| csw: "bot_next BOT_RECEIVE_CSW BOT_RECEIVE_CSW_WAIT"
| csw_done: "bot_next BOT_RECEIVE_CSW_WAIT BOT_SEND_CBW"
| csw_stall: "bot_next BOT_RECEIVE_CSW_WAIT BOT_ERROR_IN"
| error_in: "bot_next BOT_ERROR_IN BOT_RECEIVE_CSW"
| error_out: "bot_next BOT_ERROR_OUT BOT_ERROR_IN"

inductive_simps bot_next_unrecovered [simp]: "bot_next s BOT_UNRECOVERED_ERROR"

lemma never_unrecovered: "bot_next\<^sup>*\<^sup>* s t \<Longrightarrow> s \<noteq> BOT_UNRECOVERED_ERROR \<Longrightarrow> t \<noteq> BOT_UNRECOVERED_ERROR"
  by (induction rule: rtranclp_induct) auto

text \<open>The step of the transport that leads from \<open>m\<close> to the handle in \<open>v\<close> stays or is a transition.\<close>

definition moves :: "ptr \<Rightarrow> MSC_HandleTypeDef \<Rightarrow> usb \<Rightarrow> bool" where
  "moves q m v \<longleftrightarrow> (\<exists>m'. holds_msc q m' (cdata v)
     \<and> (bot_state (hbot m') = bot_state (hbot m) \<or> bot_next (bot_state (hbot m)) (bot_state (hbot m'))))"

lemma moves_event [simp]: "moves q m (osMessagePut e v) = moves q m v"
  by (simp add: moves_def)

lemma moves_idle: "holds_msc q m' (cdata v) \<Longrightarrow> bot_state (hbot m') = bot_state (hbot m) \<Longrightarrow> moves q m v"
  unfolding moves_def by blast

lemma moves_set:
  assumes "holds_msc q m' (cdata v)" "bot_next (bot_state (hbot m)) s"
  shows "moves q m (set_bot q s v)"
  unfolding moves_def using holds_set(1) [OF assms(1), of s] assms(2)
  by (intro exI [of _ "m'\<lparr>hbot := (hbot m')\<lparr>bot_state := s\<rparr>\<rparr>"]) simp

lemma holds_xfer [simp]:
  "holds_msc q m (cdata (bot_receive p r v)) = holds_msc q m (cdata v)"
  "holds_msc q m (cdata (bot_send p r v)) = holds_msc q m (cdata v)"
  by (simp_all add: bot_receive_def bot_send_def Let_def)

lemma advance_state [simp]:
  "bot_state (advance_bot n b) = bot_state b" "bot_cmd_state (advance_bot n b) = bot_cmd_state b"
  by (simp_all add: advance_bot_def)

context msc_environment
begin

lemmas poll_holds = poll_data [OF env_keeps]
lemmas clear_holds = clear_data [OF env_keeps]

lemma cbw_wait_moves:
  assumes "holds_msc q m (cdata w)" "bot_state (hbot m) = BOT_SEND_CBW_WAIT"
  shows "moves q m (bot_cbw_wait E p q w)"
proof -
  obtain u w1 where p: "USBH_LL_GetURBState E p (msc_OutPipe (msc_at q w)) w = (u, w1)" by force
  with poll_holds [OF assms(1), of p "msc_OutPipe (msc_at q w)"] have h: "holds_msc q m (cdata w1)" by simp
  have n: "bot_next (bot_state (hbot m)) s"
    if "s \<in> {BOT_DATA_IN, BOT_DATA_OUT, BOT_RECEIVE_CSW, BOT_SEND_CBW, BOT_ERROR_OUT}" for s
    using that assms(2) by (auto intro: bot_next.intros)
  show ?thesis unfolding bot_cbw_wait_def p Let_def
    using moves_set [OF h n] moves_idle [OF h refl] by simp
qed

lemma data_in_wait_moves:
  assumes "holds_msc q m (cdata w)" "bot_state (hbot m) = BOT_DATA_IN_WAIT"
  shows "moves q m (bot_data_in_wait E p q w)"
proof -
  obtain u w1 where p: "USBH_LL_GetURBState E p (msc_InPipe (msc_at q w)) w = (u, w1)" by force
  with poll_holds [OF assms(1), of p "msc_InPipe (msc_at q w)"] have h: "holds_msc q m (cdata w1)" by simp
  note a = holds_set(2) [OF h, of "msc_InEpSize (msc_at q w1)"]
  have n: "bot_next (bot_state (hbot m)) s" if "s \<in> {BOT_RECEIVE_CSW, BOT_ERROR_IN}" for s
    using that assms(2) by (auto intro: bot_next.intros)
  have r: "moves q m (bot_receive p q (upd_bot q (advance_bot (msc_InEpSize (msc_at q w1))) w1))"
    using a by (intro moves_idle [of q "m\<lparr>hbot := advance_bot (msc_InEpSize (msc_at q w1)) (hbot m)\<rparr>"]) simp_all
  show ?thesis unfolding bot_data_in_wait_def p Let_def
    using moves_set [OF h n] moves_set [OF a n] moves_idle [OF h refl] r by simp
qed

lemma data_out_wait_moves:
  assumes "holds_msc q m (cdata w)" "bot_state (hbot m) = BOT_DATA_OUT_WAIT"
  shows "moves q m (bot_data_out_wait E p q w)"
proof -
  obtain u w1 where p: "USBH_LL_GetURBState E p (msc_OutPipe (msc_at q w)) w = (u, w1)" by force
  with poll_holds [OF assms(1), of p "msc_OutPipe (msc_at q w)"] have h: "holds_msc q m (cdata w1)" by simp
  note a = holds_set(2) [OF h, of "msc_OutEpSize (msc_at q w1)"]
  have n: "bot_next (bot_state (hbot m)) s" if "s \<in> {BOT_RECEIVE_CSW, BOT_ERROR_OUT, BOT_DATA_OUT}" for s
    using that assms(2) by (auto intro: bot_next.intros)
  have r: "moves q m (bot_send p q (upd_bot q (advance_bot (msc_OutEpSize (msc_at q w1))) w1))"
    using a by (intro moves_idle [of q "m\<lparr>hbot := advance_bot (msc_OutEpSize (msc_at q w1)) (hbot m)\<rparr>"]) simp_all
  show ?thesis unfolding bot_data_out_wait_def p Let_def
    using moves_set [OF h n] moves_set [OF a n] moves_idle [OF h refl] r by simp
qed

lemma csw_wait_moves:
  assumes "holds_msc q m (cdata w)" "bot_state (hbot m) = BOT_RECEIVE_CSW_WAIT"
  shows "moves q m (snd (bot_csw_wait E p q w))"
    and "fst (bot_csw_wait E p q w) \<noteq> USBH_BUSY \<Longrightarrow> fst (bot_csw_wait E p q w) \<in> {USBH_OK, USBH_FAIL}
      \<and> bot_state (bot_at q (snd (bot_csw_wait E p q w))) = BOT_SEND_CBW
      \<and> bot_cmd_state (bot_at q (snd (bot_csw_wait E p q w))) = BOT_CMD_SEND"
proof -
  obtain u w1 where p: "USBH_LL_GetURBState E p (msc_InPipe (msc_at q w)) w = (u, w1)" by force
  with poll_holds [OF assms(1), of p "msc_InPipe (msc_at q w)"] have h: "holds_msc q m (cdata w1)" by simp
  have e: "bot_next (bot_state (hbot m)) BOT_ERROR_IN" "bot_next (bot_state (hbot m)) BOT_SEND_CBW"
    using assms(2) by (auto intro: bot_next.intros)
  let ?m = "m\<lparr>hbot := (hbot m)\<lparr>bot_state := BOT_SEND_CBW, bot_cmd_state := BOT_CMD_SEND\<rparr>\<rparr>"
  let ?v = "upd_bot q (\<lambda>b. b\<lparr>bot_state := BOT_SEND_CBW, bot_cmd_state := BOT_CMD_SEND\<rparr>) w1"
  have f: "holds_msc q ?m (cdata ?v)" by (rule holds_bot [OF h blind_simps(3)])
  then have "moves q m ?v" unfolding moves_def using e by (intro exI [of _ ?m]) simp
  with moves_set [OF h e(1)] moves_idle [OF h refl] show "moves q m (snd (bot_csw_wait E p q w))"
    unfolding bot_csw_wait_def p by (simp add: Let_def)
  have "msc_at q (osMessagePut ev x) = msc_at q x" for ev x by (simp add: msc_at_def)
  then show "fst (bot_csw_wait E p q w) \<noteq> USBH_BUSY \<Longrightarrow> fst (bot_csw_wait E p q w) \<in> {USBH_OK, USBH_FAIL}
      \<and> bot_state (bot_at q (snd (bot_csw_wait E p q w))) = BOT_SEND_CBW
      \<and> bot_cmd_state (bot_at q (snd (bot_csw_wait E p q w))) = BOT_CMD_SEND"
    using holds_msc_at(3,4) [OF f] unfolding bot_csw_wait_def p by (auto simp: Let_def split: if_splits)
qed

lemma errors_move:
  assumes "holds_msc q m (cdata w)" "msc_ptr p w = q"
  shows "bot_state (hbot m) = BOT_ERROR_IN \<Longrightarrow> moves q m (bot_error_in E p lun q w)"
    and "bot_state (hbot m) = BOT_ERROR_OUT \<Longrightarrow> moves q m (bot_error_out E p lun q w)"
proof -
  assume s: "bot_state (hbot m) = BOT_ERROR_IN"
  obtain u w1 where c: "USBH_ClrFeature E p (msc_InEp (msc_at q w)) w = (u, w1)" by force
  with clear_holds [OF assms(1), of p "msc_InEp (msc_at q w)"] clear_recovers [of E p "msc_InEp (msc_at q w)" w]
  have h: "holds_msc q m (cdata w1)" "u \<noteq> USBH_UNRECOVERED_ERROR" by simp_all
  then show "moves q m (bot_error_in E p lun q w)"
    using moves_set [OF h(1), of m] moves_idle [OF h(1)] s
    by (simp add: bot_error_in_def USBH_MSC_BOT_Abort_def assms(2) Let_def c bot_next.intros)
next
  assume s: "bot_state (hbot m) = BOT_ERROR_OUT"
  obtain u w1 where c: "USBH_ClrFeature E p (msc_OutEp (msc_at q w)) w = (u, w1)" by force
  with clear_holds [OF assms(1), of p "msc_OutEp (msc_at q w)"] clear_recovers [of E p "msc_OutEp (msc_at q w)" w]
  have h: "holds_msc q m (cdata w1)" "u \<noteq> USBH_UNRECOVERED_ERROR" by simp_all
  then have "holds_msc q m (cdata (snd (USBH_LL_SetToggle p a b (snd (USBH_LL_SetToggle p a' b' w1)))))" for a b a' b'
    by simp
  from moves_set [OF this, of m] moves_idle [OF h(1)] h(2) s show "moves q m (bot_error_out E p lun q w)"
    by (simp add: bot_error_out_def USBH_MSC_BOT_Abort_def assms(2) Let_def c bot_next.intros)
qed

lemma bot_step:
  assumes "holds_msc q m (cdata w)" "msc_ptr p w = q" "bot_state (hbot m) \<noteq> BOT_UNRECOVERED_ERROR"
  shows "moves q m (snd (USBH_MSC_BOT_Process E p lun w))"
    and "fst (USBH_MSC_BOT_Process E p lun w) \<noteq> USBH_BUSY \<Longrightarrow>
      fst (USBH_MSC_BOT_Process E p lun w) \<in> {USBH_OK, USBH_FAIL} \<and> bot_state (hbot m) = BOT_RECEIVE_CSW_WAIT
      \<and> bot_state (bot_at q (snd (USBH_MSC_BOT_Process E p lun w))) = BOT_SEND_CBW
      \<and> bot_cmd_state (bot_at q (snd (USBH_MSC_BOT_Process E p lun w))) = BOT_CMD_SEND"
proof -
  note c = holds_msc_at(2,3) [OF assms(1)]
  let ?f = "hbot_update (\<lambda>b. b\<lparr>cbw := (cbw b)\<lparr>cbw_LUN := lun\<rparr>, bot_state := BOT_SEND_CBW_WAIT\<rparr>)"
  have f: "moves q m (snd (USBH_BulkSendData p b n ch g (upd_msc q ?f w)))" if "bot_state (hbot m) = BOT_SEND_CBW" for b n ch g
    unfolding moves_def using holds_upd [OF assms(1) blind_simps(4), of BOT_SEND_CBW_WAIT lun] that
    by (intro exI [of _ "?f m"]) (simp add: bot_next.intros)
  have s: "moves q m (set_bot q s v)" if "cdata v = cdata w" "bot_next (bot_state (hbot m)) s" for s v
    using assms(1) that by (intro moves_set [of q m]) simp_all
  have x: "cdata (bot_receive p q w) = cdata w" "cdata (bot_send p q w) = cdata w"
    by (simp_all add: bot_receive_def bot_send_def Let_def)
  show "moves q m (snd (USBH_MSC_BOT_Process E p lun w))"
    using assms(3) cbw_wait_moves [OF assms(1)] data_in_wait_moves [OF assms(1)] data_out_wait_moves [OF assms(1)]
      csw_wait_moves(1) [OF assms(1)] errors_move [OF assms(1,2)] f s x
    by (cases "bot_state (hbot m)") (simp_all add: USBH_MSC_BOT_Process_def Let_def assms(2) c bot_next.intros)
  show "fst (USBH_MSC_BOT_Process E p lun w) \<noteq> USBH_BUSY \<Longrightarrow>
      fst (USBH_MSC_BOT_Process E p lun w) \<in> {USBH_OK, USBH_FAIL} \<and> bot_state (hbot m) = BOT_RECEIVE_CSW_WAIT
      \<and> bot_state (bot_at q (snd (USBH_MSC_BOT_Process E p lun w))) = BOT_SEND_CBW
      \<and> bot_cmd_state (bot_at q (snd (USBH_MSC_BOT_Process E p lun w))) = BOT_CMD_SEND"
    using assms(3) csw_wait_moves(2) [OF assms(1)]
    by (cases "bot_state (hbot m)") (simp_all add: USBH_MSC_BOT_Process_def Let_def assms(2) c)
qed

end

interpretation undisturbed_msc: msc_environment id q for q
  by unfold_locales (simp add: holds_mscI)

end
