(* ===== verification/Usb_MSC_Bus.thy ===== *)
theory Usb_MSC_Bus
  imports Usb_MSC_Machine
begin

text \<open>
  A storage device on the bus (locale \<open>storage_bus\<close>): it completes every transfer, answers each command
  block with a status block and with data, and takes at most one tick of the timer each time it is looked
  at. On it, every state of the transport makes exactly one step.
\<close>

section \<open>Numbers with the high byte first\<close>

text \<open>Reads with the high byte first, as a device reads its command.\<close>

definition BE32 :: "u8 list \<Rightarrow> nat \<Rightarrow> u32" where
  "BE32 bs i = LE32 [rd8 bs (i + 3), rd8 bs (i + 2), rd8 bs (i + 1), rd8 bs i] 0"

definition BE16 :: "u8 list \<Rightarrow> nat \<Rightarrow> u16" where
  "BE16 bs i = LE16 [rd8 bs (i + 1), rd8 bs i] 0"

lemma word16_of_bytes: "(ucast (ucast x :: u8) :: u16) + push_bit 8 (ucast (ucast (drop_bit 8 (x :: u32)) :: u8)) = ucast x"
proof -
  have i: "bit (ucast (ucast x :: u8) :: u16) n \<longleftrightarrow> n < 8 \<and> bit x n"
    "bit (push_bit 8 (ucast (ucast (drop_bit 8 x) :: u8)) :: u16) n \<longleftrightarrow> 8 \<le> n \<and> n < 16 \<and> bit x n" for n
    by (auto simp: bit_simps)
  have "(ucast (ucast x :: u8) :: u16) + push_bit 8 (ucast (ucast (drop_bit 8 x) :: u8))
      = (ucast (ucast x :: u8) :: u16) OR push_bit 8 (ucast (ucast (drop_bit 8 x) :: u8))"
    by (rule disjunctive_add) (auto simp: i)
  also have "\<dots> = ucast x" by (rule bit_word_eqI) (auto simp: i bit_or_iff bit_simps)
  finally show ?thesis .
qed

text \<open>The drivers put such numbers together with shifts and \<open>OR\<close>.\<close>

lemma BE_or:
  "(ucast (rd8 bs (i + 3)) :: u32) OR push_bit 8 (ucast (rd8 bs (i + 2))) OR push_bit 16 (ucast (rd8 bs (i + 1))) OR push_bit 24 (ucast (rd8 bs i))
     = BE32 bs i"
  "(ucast (rd8 bs (i + 1)) :: u16) OR push_bit 8 (ucast (rd8 bs i)) = BE16 bs i"
proof -
  let ?a = "ucast (rd8 bs (i + 3)) :: u32" and ?b = "push_bit 8 (ucast (rd8 bs (i + 2))) :: u32"
    and ?c = "push_bit 16 (ucast (rd8 bs (i + 1))) :: u32" and ?d = "push_bit 24 (ucast (rd8 bs i)) :: u32"
  have b: "bit ?a n \<longrightarrow> n < 8" "bit ?b n \<longrightarrow> 8 \<le> n \<and> n < 16" "bit ?c n \<longrightarrow> 16 \<le> n \<and> n < 24" "bit ?d n \<longrightarrow> 24 \<le> n" for n
    by (auto simp: bit_simps dest: bit_imp_le_length)
  have ab: "?a + ?b = ?a OR ?b" by (rule disjunctive_add) (use b in force)
  have abc: "(?a OR ?b) + ?c = (?a OR ?b) OR ?c" by (rule disjunctive_add) (use b in \<open>force simp: bit_or_iff\<close>)
  have abcd: "((?a OR ?b) OR ?c) + ?d = ((?a OR ?b) OR ?c) OR ?d" by (rule disjunctive_add) (use b in \<open>force simp: bit_or_iff\<close>)
  have "BE32 bs i = ?a + ?b + ?c + ?d" by (simp add: BE32_def LE32_def rd8_def numeral_nat)
  then have "BE32 bs i = ((?a OR ?b) OR ?c) OR ?d" by (simp only: ab abc abcd)
  then show "?a OR ?b OR ?c OR ?d = BE32 bs i" by (simp only: or.assoc)
  let ?e = "ucast (rd8 bs (i + 1)) :: u16" and ?f = "push_bit 8 (ucast (rd8 bs i)) :: u16"
  have "?e + ?f = ?e OR ?f" by (rule disjunctive_add) (auto simp: bit_simps dest: bit_imp_le_length)
  then show "?e OR ?f = BE16 bs i" by (simp add: BE16_def LE16_def rd8_def)
qed

section \<open>A storage device on the bus\<close>

text \<open>The thirteen bytes of a status block.\<close>

definition csw_bytes :: "u32 \<Rightarrow> u8 \<Rightarrow> u8 list" where
  "csw_bytes tag st = le32_bytes 0x53425355 @ le32_bytes tag @ le32_bytes 0 @ [st]"

lemma csw_bytes_read:
  "LE32 (csw_bytes tag st) 0 = 0x53425355" "LE32 (csw_bytes tag st) 4 = tag" "rd8 (csw_bytes tag st) 12 = st"
  unfolding csw_bytes_def by (rule LE32_le32 | simp add: le32_bytes_def rd8_def)+

text \<open>
  What a transfer of the device leaves in the handle: the status of the command block after a status
  transfer, and the data of the command block after a transfer into the handle's own data words.
\<close>

definition io_done :: "(u8 list \<Rightarrow> u8) \<Rightarrow> (u8 list \<Rightarrow> u8 list) \<Rightarrow> ptr \<Rightarrow> MSC_HandleTypeDef \<Rightarrow> MSC_HandleTypeDef" where
  "io_done status reply q m =
    (let b = hbot m; cb = cbw_CB (cbw b)
     in with_io (if bot_state b = BOT_DATA_IN_WAIT \<and> bot_pbuf b = BBot q 0 then overwrite (reply cb) (bot_data b) else bot_data b)
          (if bot_state b = BOT_RECEIVE_CSW_WAIT then csw_bytes (cbw_Tag (cbw b)) (status cb) else csw b) m)"

definition storage_reply ::
  "ptr \<Rightarrow> ptr \<Rightarrow> (u8 list \<Rightarrow> u8) \<Rightarrow> (u8 list \<Rightarrow> u8 list) \<Rightarrow> MSC_HandleTypeDef \<Rightarrow> usb \<Rightarrow> usb \<Rightarrow> bool" where
  "storage_reply p q status reply m w w' \<longleftrightarrow>
     request_ready p w' \<and> gState (hosts w' p) = gState (hosts w p) \<and> pUser (hosts w' p) = pUser (hosts w p)
     \<and> pActiveClass (hosts w' p) = pActiveClass (hosts w p) \<and> class_pData w' = class_pData w
     \<and> trace w' = trace w \<and> faults w' = faults w
     \<and> (Timer (hosts w' p) = Timer (hosts w p) \<or> Timer (hosts w' p) = Timer (hosts w p) + 1)
     \<and> (\<forall>ch. unat ch < HC_COUNT \<longrightarrow> hc_urb_state (hc_get w' ch) = USBH_URB_DONE)
     \<and> cdata w' q = MscData (io_done status reply q m)
     \<and> (bot_state (hbot m) = BOT_RECEIVE_CSW_WAIT \<longrightarrow> unat (msc_InPipe m) < HC_COUNT \<longrightarrow> hc_xfer_count (hc_get w' (msc_InPipe m)) = 13)"

text \<open>
  The environment of a device that completes every transfer, within a tick of the timer each time it
  is looked at, and answers each command block with \<open>status\<close> and \<open>reply\<close>.
\<close>

locale storage_bus =
  fixes E :: "usb \<Rightarrow> usb" and p q :: ptr and status :: "u8 list \<Rightarrow> u8" and reply :: "u8 list \<Rightarrow> u8 list"
  assumes storage: "request_ready p w \<Longrightarrow> cdata w q = MscData m \<Longrightarrow> storage_reply p q status reply m w (E w)"

text \<open>
  The handle is \<open>m\<close>, the calls \<open>xs\<close> were made since \<open>w0\<close>, no access was wrong, and at most \<open>k\<close> ticks
  have gone since \<open>t0\<close>.
\<close>

definition on_bus :: "ptr \<Rightarrow> ptr \<Rightarrow> usb \<Rightarrow> u32 \<Rightarrow> nat \<Rightarrow> hal_call list \<Rightarrow> MSC_HandleTypeDef \<Rightarrow> usb \<Rightarrow> bool" where
  "on_bus p q w0 t0 k xs m w \<longleftrightarrow>
     request_ready p w \<and> gState (hosts w p) = HOST_CLASS \<and> msc_ptr p w = q \<and> cdata w q = MscData m
     \<and> trace w = trace w0 @ xs \<and> faults w = faults w0 \<and> pUser (hosts w p) = pUser (hosts w0 p) \<and> unat (Timer (hosts w p) - t0) \<le> k
     \<and> unat (msc_InPipe m) < HC_COUNT \<and> unat (msc_OutPipe m) < HC_COUNT"

lemma on_bus_at:
  assumes "on_bus p q w0 t0 k xs m w"
  shows "msc_at q w = m" "msc_ptr p w = q" "chk_msc q w = w" "request_ready p w" "cdata w q = MscData m"
    "unat (msc_InPipe m) < HC_COUNT" "unat (msc_OutPipe m) < HC_COUNT"
  using assms by (simp_all add: on_bus_def msc_at_def chk_msc_def)

lemma msc_ptr_cong:
  "pActiveClass (hosts w' p) = pActiveClass (hosts w p) \<Longrightarrow> class_pData w' = class_pData w \<Longrightarrow> msc_ptr p w' = msc_ptr p w"
  by (simp add: msc_ptr_def split: option.split)

lemma on_bus_cong:
  assumes "hosts w' = hosts w" "alive w' = alive w" "words w' = words w" "length (hc w') = length (hc w)"
    and "class_pData w' = class_pData w" "cdata w' = cdata w" "outs w' = outs w" "faults w' = faults w"
  shows "on_bus p q w0 t0 k xs m w' = on_bus p q w0 t0 k xs m w"
proof -
  have "request_ready p w' = request_ready p w" by (rule request_ready_cong) (simp_all add: assms)
  moreover have "msc_ptr p w' = msc_ptr p w" by (rule msc_ptr_cong) (simp_all add: assms)
  ultimately show ?thesis by (simp add: on_bus_def trace_def assms)
qed

lemma on_bus_event [simp]: "on_bus p q w0 t0 k xs m (osMessagePut e w) = on_bus p q w0 t0 k xs m w"
  by (rule on_bus_cong) simp_all

lemma on_bus_mono: "on_bus p q w0 t0 k xs m w \<Longrightarrow> k \<le> k' \<Longrightarrow> on_bus p q w0 t0 k' xs m w"
  by (simp add: on_bus_def)

lemma on_bus_upd:
  assumes "on_bus p q w0 t0 k xs m w" "msc_InPipe (f m) = msc_InPipe m" "msc_OutPipe (f m) = msc_OutPipe m"
  shows "on_bus p q w0 t0 k xs (f m) (upd_msc q f w)"
proof -
  let ?w = "upd_msc q f w"
  have u: "?w = w\<lparr>cdata := (cdata w)(q := MscData (f m))\<rparr>" using on_bus_at(5) [OF assms(1)] by (simp add: upd_msc_def)
  have "request_ready p ?w = request_ready p w" by (rule request_ready_cong) (simp_all add: u)
  moreover have "msc_ptr p ?w = msc_ptr p w" by (rule msc_ptr_cong) (simp_all add: u)
  ultimately show ?thesis using assms by (simp add: on_bus_def u trace_def)
qed

lemma on_bus_bot:
  "on_bus p q w0 t0 k xs m w \<Longrightarrow> on_bus p q w0 t0 k xs (m\<lparr>hbot := g (hbot m)\<rparr>) (upd_bot q g w)"
  using on_bus_upd [of p q w0 t0 k xs m w "hbot_update g"] by (simp only: bot_upd_eq [of g m]) simp

lemma on_bus_set:
  "on_bus p q w0 t0 k xs m w \<Longrightarrow> on_bus p q w0 t0 k xs (m\<lparr>hbot := (hbot m)\<lparr>bot_state := st\<rparr>\<rparr>) (set_bot q st w)"
  unfolding set_bot_def by (rule on_bus_bot)

lemma on_bus_submit:
  assumes "on_bus p q w0 t0 k xs m w" "unat ch < HC_COUNT"
  shows "on_bus p q w0 t0 k (xs @ [HC_StartXfer ch dir t (hc_data_pid (submit_pid dir t tk n (hc_get w ch))) (payload_of w tk b) n]) m
    (snd (USBH_LL_SubmitURB p ch dir t tk b n g w))"
proof -
  note r = on_bus_at(4) [OF assms(1)]
  let ?v = "snd (USBH_LL_SubmitURB p ch dir t tk b n g w)"
  have l: "unat ch < length (hc w)" using r assms(2) by (simp add: request_ready_def)
  note s = submit_outs [OF request_readyD(1-3) [OF r] l, of dir t tk b n g]
  have "trace ?v = trace w @ [HC_StartXfer ch dir t (hc_data_pid (submit_pid dir t tk n (hc_get w ch))) (payload_of w tk b) n]"
    by (simp add: trace_def s(1))
  moreover have "request_ready p ?v" using r request_readyD(1-3) [OF r] by (simp add: USBH_LL_SubmitURB_def)
  moreover have "hosts ?v = hosts w" "class_pData ?v = class_pData w" "cdata ?v = cdata w"
    by (simp_all add: USBH_LL_SubmitURB_def)
  moreover from this have "msc_ptr p ?v = msc_ptr p w" by (intro msc_ptr_cong) simp_all
  ultimately show ?thesis using assms s(3) by (simp add: on_bus_def)
qed

lemma tick_bound: "unat ((x :: u32) + 1 - t) \<le> Suc (unat (x - t))"
proof -
  have "unat ((x - t) + 1) \<le> unat (x - t) + unat (1 :: u32)" unfolding unat_word_ariths(1) by (rule mod_less_eq_dividend)
  moreover have "x + 1 - t = (x - t) + 1" by simp
  ultimately show ?thesis by (simp only: unat_1)
qed

lemma on_bus_bulk:
  assumes "on_bus p q w0 t0 k xs m w"
  shows "unat ch < HC_COUNT \<Longrightarrow> \<exists>x. bulk_out ch b (unat n) x \<and> on_bus p q w0 t0 k (xs @ [x]) m (snd (USBH_BulkSendData p b n ch g w))"
    and "unat ch < HC_COUNT \<Longrightarrow> \<exists>x. bulk_in ch b (unat n) x \<and> on_bus p q w0 t0 k (xs @ [x]) m (snd (USBH_BulkReceiveData p b n ch w))"
  using on_bus_submit [OF assms, of ch 0 USBH_EP_BULK USBH_PID_DATA n b] on_bus_submit [OF assms, of ch 1 USBH_EP_BULK USBH_PID_DATA n b]
  by (auto simp: ioreq_defs bulk_out_def bulk_in_def)

text \<open>
  The members a command leaves alone while it runs: everything but the data words, the status block, the
  state, the buffer pointer, and the length and unit in the command block.
\<close>

definition rest :: "MSC_HandleTypeDef \<Rightarrow> MSC_HandleTypeDef" where
  "rest m = m\<lparr>hbot := (hbot m)\<lparr>bot_data := [], csw := [], bot_state := BOT_SEND_CBW, bot_pbuf := BNull,
     cbw := (cbw (hbot m))\<lparr>cbw_DataTransferLength := 0, cbw_LUN := 0\<rparr>\<rparr>\<rparr>"

text \<open>The handle after a packet of data, \<open>n\<close> being the size of the endpoint.\<close>

abbreviation (input) advanced :: "u16 \<Rightarrow> MSC_HandleTypeDef \<Rightarrow> MSC_HandleTypeDef" where
  "advanced n m \<equiv> m\<lparr>hbot := advance_bot n (hbot m)\<rparr>"

context storage_bus
begin

lemma bus_look:
  assumes "on_bus p q w0 t0 k xs m w"
  shows "on_bus p q w0 t0 (Suc k) xs (io_done status reply q m) (E w)"
proof -
  from storage [OF on_bus_at(4,5) [OF assms]] have s: "storage_reply p q status reply m w (E w)" .
  have t: "unat (Timer (hosts w p) - t0) \<le> k" using assms by (simp add: on_bus_def)
  with s tick_bound [of "Timer (hosts w p)" t0] have "unat (Timer (hosts (E w) p) - t0) \<le> Suc k"
    by (auto simp: storage_reply_def)
  moreover from s have "msc_ptr p (E w) = msc_ptr p w" by (intro msc_ptr_cong) (simp_all add: storage_reply_def)
  ultimately show ?thesis using s assms by (simp add: storage_reply_def on_bus_def io_done_def Let_def)
qed

lemma bus_poll:
  assumes "on_bus p q w0 t0 k xs m w" "unat ch < HC_COUNT"
  shows "USBH_LL_GetURBState E p ch w = (USBH_URB_DONE, E w)"
proof -
  from storage [OF on_bus_at(4,5) [OF assms(1)]] have s: "request_ready p (E w)" "hc_urb_state (hc_get (E w) ch) = USBH_URB_DONE"
    using assms(2) by (auto simp: storage_reply_def)
  from s(1) have "length (hc (E w)) = 15" by (simp add: request_ready_def)
  with request_readyD(7) [OF s(1)] assms(2) s(2) show ?thesis
    by (simp add: USBH_LL_GetURBState_def HAL_HCD_HC_GetURBState_def Let_def chk_hc_def)
qed

text \<open>The steps of a command, one per state of the transport.\<close>

lemma bot_send_cbw:
  assumes "on_bus p q w0 t0 k xs m w" "bot_state (hbot m) = BOT_SEND_CBW"
  shows "\<exists>x w'. USBH_MSC_BOT_Process E p lun w = (USBH_BUSY, w') \<and> bulk_out (msc_OutPipe m) (BCbw q) 31 x
    \<and> on_bus p q w0 t0 k (xs @ [x]) (m\<lparr>hbot := (hbot m)\<lparr>cbw := (cbw (hbot m))\<lparr>cbw_LUN := lun\<rparr>, bot_state := BOT_SEND_CBW_WAIT\<rparr>\<rparr>) w'"
proof -
  note a = on_bus_at [OF assms(1)]
  let ?g = "\<lambda>b. b\<lparr>cbw := (cbw b)\<lparr>cbw_LUN := lun\<rparr>, bot_state := BOT_SEND_CBW_WAIT\<rparr>"
  note u = on_bus_bot [OF assms(1), of ?g]
  have "msc_OutPipe (msc_at q (upd_bot q ?g w)) = msc_OutPipe m" using on_bus_at(1) [OF u] by simp
  with on_bus_bulk(1) [OF u, of "msc_OutPipe m" "BCbw q" 31 1] a assms(2) show ?thesis
    by (simp add: USBH_MSC_BOT_Process_def Let_def)
qed

lemma bot_receive_csw:
  assumes "on_bus p q w0 t0 k xs m w" "bot_state (hbot m) = BOT_RECEIVE_CSW"
  shows "\<exists>x w'. USBH_MSC_BOT_Process E p lun w = (USBH_BUSY, w') \<and> bulk_in (msc_InPipe m) (BCsw q) 13 x
    \<and> on_bus p q w0 t0 k (xs @ [x]) (m\<lparr>hbot := (hbot m)\<lparr>bot_state := BOT_RECEIVE_CSW_WAIT\<rparr>\<rparr>) w'"
proof -
  note a = on_bus_at [OF assms(1)]
  from on_bus_bulk(2) [OF assms(1) a(6), of "BCsw q" 13] obtain x where
    x: "bulk_in (msc_InPipe m) (BCsw q) 13 x" "on_bus p q w0 t0 k (xs @ [x]) m (snd (USBH_BulkReceiveData p (BCsw q) 13 (msc_InPipe m) w))"
    by auto
  with on_bus_set [OF x(2), of BOT_RECEIVE_CSW_WAIT] a assms(2) show ?thesis
    by (simp add: USBH_MSC_BOT_Process_def Let_def) blast
qed

lemma bot_start_data:
  assumes "on_bus p q w0 t0 k xs m w"
  shows "bot_state (hbot m) = BOT_DATA_IN \<Longrightarrow> \<exists>x w'. USBH_MSC_BOT_Process E p lun w = (USBH_BUSY, w')
      \<and> bulk_in (msc_InPipe m) (bot_pbuf (hbot m)) (unat (msc_InEpSize m)) x
      \<and> on_bus p q w0 t0 k (xs @ [x]) (m\<lparr>hbot := (hbot m)\<lparr>bot_state := BOT_DATA_IN_WAIT\<rparr>\<rparr>) w'"
    and "bot_state (hbot m) = BOT_DATA_OUT \<Longrightarrow> \<exists>x w'. USBH_MSC_BOT_Process E p lun w = (USBH_BUSY, w')
      \<and> bulk_out (msc_OutPipe m) (bot_pbuf (hbot m)) (unat (msc_OutEpSize m)) x
      \<and> on_bus p q w0 t0 k (xs @ [x]) (m\<lparr>hbot := (hbot m)\<lparr>bot_state := BOT_DATA_OUT_WAIT\<rparr>\<rparr>) w'"
proof -
  note a = on_bus_at [OF assms(1)]
  {
    assume s: "bot_state (hbot m) = BOT_DATA_IN"
    from on_bus_bulk(2) [OF assms(1) a(6), of "bot_pbuf (hbot m)" "msc_InEpSize m"] obtain x where
      x: "bulk_in (msc_InPipe m) (bot_pbuf (hbot m)) (unat (msc_InEpSize m)) x" "on_bus p q w0 t0 k (xs @ [x]) m (bot_receive p q w)"
      by (auto simp: bot_receive_def Let_def a(1))
    with on_bus_set [OF x(2), of BOT_DATA_IN_WAIT] a s
    show "\<exists>x w'. USBH_MSC_BOT_Process E p lun w = (USBH_BUSY, w')
      \<and> bulk_in (msc_InPipe m) (bot_pbuf (hbot m)) (unat (msc_InEpSize m)) x
      \<and> on_bus p q w0 t0 k (xs @ [x]) (m\<lparr>hbot := (hbot m)\<lparr>bot_state := BOT_DATA_IN_WAIT\<rparr>\<rparr>) w'"
      by (simp add: USBH_MSC_BOT_Process_def Let_def) blast
  next
    assume s: "bot_state (hbot m) = BOT_DATA_OUT"
    from on_bus_bulk(1) [OF assms(1) a(7), of "bot_pbuf (hbot m)" "msc_OutEpSize m" 1] obtain x where
      x: "bulk_out (msc_OutPipe m) (bot_pbuf (hbot m)) (unat (msc_OutEpSize m)) x" "on_bus p q w0 t0 k (xs @ [x]) m (bot_send p q w)"
      by (auto simp: bot_send_def Let_def a(1))
    with on_bus_set [OF x(2), of BOT_DATA_OUT_WAIT] a s
    show "\<exists>x w'. USBH_MSC_BOT_Process E p lun w = (USBH_BUSY, w')
      \<and> bulk_out (msc_OutPipe m) (bot_pbuf (hbot m)) (unat (msc_OutEpSize m)) x
      \<and> on_bus p q w0 t0 k (xs @ [x]) (m\<lparr>hbot := (hbot m)\<lparr>bot_state := BOT_DATA_OUT_WAIT\<rparr>\<rparr>) w'"
      by (simp add: USBH_MSC_BOT_Process_def Let_def) blast
  }
qed

lemma bot_cbw_sent:
  assumes "on_bus p q w0 t0 k xs m w" "bot_state (hbot m) = BOT_SEND_CBW_WAIT"
  shows "\<exists>w'. USBH_MSC_BOT_Process E p lun w = (USBH_BUSY, w')
    \<and> on_bus p q w0 t0 (Suc k) xs (m\<lparr>hbot := (hbot m)\<lparr>bot_state :=
        (if cbw_DataTransferLength (cbw (hbot m)) \<noteq> 0
         then if cbw_Flags (cbw (hbot m)) AND 0x80 = 0x80 then BOT_DATA_IN else BOT_DATA_OUT else BOT_RECEIVE_CSW)\<rparr>\<rparr>) w'"
proof -
  note a = on_bus_at [OF assms(1)]
  have l: "on_bus p q w0 t0 (Suc k) xs m (E w)" using bus_look [OF assms(1)] assms(2) by (simp add: io_done_def Let_def)
  note b = on_bus_at [OF l]
  show ?thesis
    using on_bus_set [OF l] a b assms(2) bus_poll [OF assms(1) a(7)]
    by (simp add: USBH_MSC_BOT_Process_def bot_cbw_wait_def Let_def)
qed

lemma bot_data_received:
  assumes "on_bus p q w0 t0 k xs m w" "bot_state (hbot m) = BOT_DATA_IN_WAIT" "m1 = advanced (msc_InEpSize m) (io_done status reply q m)"
  shows "cbw_DataTransferLength (cbw (hbot m1)) \<noteq> 0 \<Longrightarrow> \<exists>x w'. USBH_MSC_BOT_Process E p lun w = (USBH_BUSY, w')
      \<and> bulk_in (msc_InPipe m) (bot_pbuf (hbot m1)) (unat (msc_InEpSize m)) x \<and> on_bus p q w0 t0 (Suc k) (xs @ [x]) m1 w'"
    and "cbw_DataTransferLength (cbw (hbot m1)) = 0 \<Longrightarrow> \<exists>w'. USBH_MSC_BOT_Process E p lun w = (USBH_BUSY, w')
      \<and> on_bus p q w0 t0 (Suc k) xs (m1\<lparr>hbot := (hbot m1)\<lparr>bot_state := BOT_RECEIVE_CSW\<rparr>\<rparr>) w'"
proof -
  note a = on_bus_at [OF assms(1)]
  note l = bus_look [OF assms(1)]
  note b = on_bus_at [OF l]
  have i: "msc_InEpSize (io_done status reply q m) = msc_InEpSize m" "msc_InPipe (io_done status reply q m) = msc_InPipe m"
    by (simp_all add: io_done_def Let_def)
  let ?w = "upd_bot q (advance_bot (msc_InEpSize m)) (E w)"
  have u: "on_bus p q w0 t0 (Suc k) xs m1 ?w" unfolding assms(3) by (rule on_bus_bot [OF l])
  note c = on_bus_at [OF u]
  have m1: "msc_InPipe m1 = msc_InPipe m" "msc_InEpSize m1 = msc_InEpSize m" by (simp_all add: assms(3) i)
  have P: "USBH_MSC_BOT_Process E p lun w = (USBH_BUSY, if cbw_DataTransferLength (cbw (hbot m1)) \<noteq> 0 then bot_receive p q ?w
      else urb_event (set_bot q BOT_RECEIVE_CSW ?w))"
    using a b(1) c(1) assms(2) bus_poll [OF assms(1) a(6)] i
    by (simp add: USBH_MSC_BOT_Process_def bot_data_in_wait_def Let_def word_neq_0_conv)
  show "cbw_DataTransferLength (cbw (hbot m1)) \<noteq> 0 \<Longrightarrow> \<exists>x w'. USBH_MSC_BOT_Process E p lun w = (USBH_BUSY, w')
      \<and> bulk_in (msc_InPipe m) (bot_pbuf (hbot m1)) (unat (msc_InEpSize m)) x \<and> on_bus p q w0 t0 (Suc k) (xs @ [x]) m1 w'"
    using P on_bus_bulk(2) [OF u, of "msc_InPipe m" "bot_pbuf (hbot m1)" "msc_InEpSize m"] a(6) c(1) m1
    by (simp add: bot_receive_def Let_def)
  show "cbw_DataTransferLength (cbw (hbot m1)) = 0 \<Longrightarrow> \<exists>w'. USBH_MSC_BOT_Process E p lun w = (USBH_BUSY, w')
      \<and> on_bus p q w0 t0 (Suc k) xs (m1\<lparr>hbot := (hbot m1)\<lparr>bot_state := BOT_RECEIVE_CSW\<rparr>\<rparr>) w'"
    using P on_bus_set [OF u, of BOT_RECEIVE_CSW] by simp
qed

lemma bot_data_sent:
  assumes "on_bus p q w0 t0 k xs m w" "bot_state (hbot m) = BOT_DATA_OUT_WAIT" "m1 = advanced (msc_OutEpSize m) m"
  shows "cbw_DataTransferLength (cbw (hbot m1)) \<noteq> 0 \<Longrightarrow> \<exists>x w'. USBH_MSC_BOT_Process E p lun w = (USBH_BUSY, w')
      \<and> bulk_out (msc_OutPipe m) (bot_pbuf (hbot m1)) (unat (msc_OutEpSize m)) x \<and> on_bus p q w0 t0 (Suc k) (xs @ [x]) m1 w'"
    and "cbw_DataTransferLength (cbw (hbot m1)) = 0 \<Longrightarrow> \<exists>w'. USBH_MSC_BOT_Process E p lun w = (USBH_BUSY, w')
      \<and> on_bus p q w0 t0 (Suc k) xs (m1\<lparr>hbot := (hbot m1)\<lparr>bot_state := BOT_RECEIVE_CSW\<rparr>\<rparr>) w'"
proof -
  note a = on_bus_at [OF assms(1)]
  have l: "on_bus p q w0 t0 (Suc k) xs m (E w)" using bus_look [OF assms(1)] assms(2) by (simp add: io_done_def Let_def)
  note b = on_bus_at [OF l]
  let ?w = "upd_bot q (advance_bot (msc_OutEpSize m)) (E w)"
  have u: "on_bus p q w0 t0 (Suc k) xs m1 ?w" unfolding assms(3) by (rule on_bus_bot [OF l])
  note c = on_bus_at [OF u]
  have m1: "msc_OutPipe m1 = msc_OutPipe m" "msc_OutEpSize m1 = msc_OutEpSize m" by (simp_all add: assms(3))
  have P: "USBH_MSC_BOT_Process E p lun w = (USBH_BUSY, urb_event (if cbw_DataTransferLength (cbw (hbot m1)) \<noteq> 0 then bot_send p q ?w
      else set_bot q BOT_RECEIVE_CSW ?w))"
    using a b(1) c(1) assms(2) bus_poll [OF assms(1) a(7)]
    by (simp add: USBH_MSC_BOT_Process_def bot_data_out_wait_def Let_def word_neq_0_conv)
  show "cbw_DataTransferLength (cbw (hbot m1)) \<noteq> 0 \<Longrightarrow> \<exists>x w'. USBH_MSC_BOT_Process E p lun w = (USBH_BUSY, w')
      \<and> bulk_out (msc_OutPipe m) (bot_pbuf (hbot m1)) (unat (msc_OutEpSize m)) x \<and> on_bus p q w0 t0 (Suc k) (xs @ [x]) m1 w'"
    using P on_bus_bulk(1) [OF u, of "msc_OutPipe m" "bot_pbuf (hbot m1)" "msc_OutEpSize m" 1] a(7) c(1) m1
    by (simp add: bot_send_def Let_def)
  show "cbw_DataTransferLength (cbw (hbot m1)) = 0 \<Longrightarrow> \<exists>w'. USBH_MSC_BOT_Process E p lun w = (USBH_BUSY, w')
      \<and> on_bus p q w0 t0 (Suc k) xs (m1\<lparr>hbot := (hbot m1)\<lparr>bot_state := BOT_RECEIVE_CSW\<rparr>\<rparr>) w'"
    using P on_bus_set [OF u, of BOT_RECEIVE_CSW] by simp
qed

lemma bot_command_over:
  assumes "on_bus p q w0 t0 k xs m w" "bot_state (hbot m) = BOT_RECEIVE_CSW_WAIT"
  shows "\<exists>w'. USBH_MSC_BOT_Process E p lun w = (if status (cbw_CB (cbw (hbot m))) = 0 then USBH_OK else USBH_FAIL, w')
    \<and> on_bus p q w0 t0 (Suc k) xs (with_io (bot_data (hbot m)) (csw_bytes (cbw_Tag (cbw (hbot m))) (status (cbw_CB (cbw (hbot m)))))
         (m\<lparr>hbot := (hbot m)\<lparr>bot_state := BOT_SEND_CBW, bot_cmd_state := BOT_CMD_SEND\<rparr>\<rparr>)) w'"
proof -
  note a = on_bus_at [OF assms(1)]
  note l = bus_look [OF assms(1)]
  let ?m = "io_done status reply q m"
  let ?g = "\<lambda>b. b\<lparr>bot_state := BOT_SEND_CBW, bot_cmd_state := BOT_CMD_SEND\<rparr>"
  note u = on_bus_bot [OF l, of ?g]
  note c = on_bus_at [OF u]
  from storage [OF a(4,5)] assms(2) a(6) have n: "hc_xfer_count (hc_get (E w) (msc_InPipe m)) = 13"
    by (simp add: storage_reply_def)
  have "hc (upd_bot q ?g (E w)) = hc (E w)" by (simp add: upd_msc_def chk_def split: class_data.split)
  then have "hc_get (upd_bot q ?g (E w)) ch = hc_get (E w) ch" for ch unfolding hc_get_def by simp
  with n have x: "USBH_LL_GetLastXferSize p (msc_InPipe m) (upd_bot q ?g (E w)) = 13"
    by (simp add: USBH_LL_GetLastXferSize_def HAL_HCD_HC_GetXferCount_def)
  have "msc_InPipe (io_done status reply q m) = msc_InPipe m" by (simp add: io_done_def Let_def)
  with x c csw_bytes_read assms(2) have d: "USBH_MSC_DecodeCSW p (upd_bot q ?g (E w)) = BOT_CSW_CMD_PASSED
      \<longleftrightarrow> status (cbw_CB (cbw (hbot m))) = 0"
    by (simp add: USBH_MSC_DecodeCSW_def Let_def io_done_def)
  have "?m\<lparr>hbot := ?g (hbot ?m)\<rparr> = with_io (bot_data (hbot m)) (csw_bytes (cbw_Tag (cbw (hbot m))) (status (cbw_CB (cbw (hbot m)))))
         (m\<lparr>hbot := ?g (hbot m)\<rparr>)" using assms(2) by (simp add: io_done_def Let_def with_io_def)
  with a assms(2) bus_poll [OF assms(1) a(6)] d u show ?thesis
    by (simp add: USBH_MSC_BOT_Process_def bot_csw_wait_def Let_def)
qed

end

end
