(* ===== verification/Usb_MSC_Command.thy ===== *)
theory Usb_MSC_Command
  imports Usb_MSC_Bus
begin

text \<open>
  The rounds of a command: the command block, the packets of the data in either direction, and the status
  block. Who makes the rounds (the loop of a read or write, the background process of the start-up) is the
  interface of the locale \<open>command_rounds\<close>.
\<close>

lemma io_done_sel [simp]:
  "bot_state (hbot (io_done st rp q m)) = bot_state (hbot m)" "bot_cmd_state (hbot (io_done st rp q m)) = bot_cmd_state (hbot m)"
  "bot_pbuf (hbot (io_done st rp q m)) = bot_pbuf (hbot m)" "cbw (hbot (io_done st rp q m)) = cbw (hbot m)"
  "msc_InPipe (io_done st rp q m) = msc_InPipe m" "msc_OutPipe (io_done st rp q m) = msc_OutPipe m"
  "msc_InEpSize (io_done st rp q m) = msc_InEpSize m" "msc_OutEpSize (io_done st rp q m) = msc_OutEpSize m"
  "msc_unit (io_done st rp q m) = msc_unit m" "msc_state (io_done st rp q m) = msc_state m"
  by (simp_all add: io_done_def Let_def)

lemma rest_io [simp]: "rest (with_io x c m) = rest m" "rest (io_done st rp q m) = rest m"
  by (simp_all add: rest_def with_io_def io_done_def Let_def)

lemma rest_cong:
  "hbot m' = (hbot m)\<lparr>bot_data := x, csw := c, bot_state := s, bot_pbuf := b,
      cbw := (cbw (hbot m))\<lparr>cbw_DataTransferLength := l, cbw_LUN := u\<rparr>\<rparr> \<Longrightarrow> m' = m\<lparr>hbot := hbot m'\<rparr> \<Longrightarrow> rest m' = rest m"
  by (simp add: rest_def)

lemma rest_simps [simp]:
  "rest (m\<lparr>hbot := (hbot m)\<lparr>bot_state := s\<rparr>\<rparr>) = rest m"
  "rest (m\<lparr>hbot := (hbot m)\<lparr>cbw := (cbw (hbot m))\<lparr>cbw_LUN := l\<rparr>, bot_state := s\<rparr>\<rparr>) = rest m"
  "rest (m\<lparr>hbot := advance_bot n (hbot m)\<rparr>) = rest m"
  by (simp_all add: rest_def advance_bot_def)

lemma restD:
  assumes "rest m' = rest m"
  shows "msc_unit m' = msc_unit m" "msc_state m' = msc_state m" "msc_InPipe m' = msc_InPipe m" "msc_OutPipe m' = msc_OutPipe m"
    "msc_InEpSize m' = msc_InEpSize m" "msc_OutEpSize m' = msc_OutEpSize m" "bot_cmd_state (hbot m') = bot_cmd_state (hbot m)"
    "cbw_CB (cbw (hbot m')) = cbw_CB (cbw (hbot m))" "cbw_Tag (cbw (hbot m')) = cbw_Tag (cbw (hbot m))"
    "cbw_Flags (cbw (hbot m')) = cbw_Flags (cbw (hbot m))" "max_lun m' = max_lun m" "current_lun m' = current_lun m"
  using arg_cong [OF assms, of "max_lun"] arg_cong [OF assms, of "current_lun"] arg_cong [OF assms, of "msc_unit"]
    arg_cong [OF assms, of "msc_state"]
    arg_cong [OF assms, of "msc_InPipe"]
    arg_cong [OF assms, of "msc_OutPipe"]
    arg_cong [OF assms, of "msc_InEpSize"]
    arg_cong [OF assms, of "msc_OutEpSize"]
    arg_cong [OF assms, of "\<lambda>m. bot_cmd_state (hbot m)"]
    arg_cong [OF assms, of "\<lambda>m. cbw_CB (cbw (hbot m))"]
    arg_cong [OF assms, of "\<lambda>m. cbw_Tag (cbw (hbot m))"]
    arg_cong [OF assms, of "\<lambda>m. cbw_Flags (cbw (hbot m))"]
  by (simp_all add: rest_def)

section \<open>Rounds\<close>

text \<open>From \<open>w\<close> the rounds \<open>R\<close> come to a state in which the handle is \<open>m\<close>.\<close>

definition comes_by ::
  "(usb \<Rightarrow> usb \<Rightarrow> bool) \<Rightarrow> ptr \<Rightarrow> ptr \<Rightarrow> u32 \<Rightarrow> usb \<Rightarrow> usb \<Rightarrow> nat \<Rightarrow> hal_call list \<Rightarrow> MSC_HandleTypeDef \<Rightarrow> bool" where
  "comes_by R p q t0 w0 w k xs m \<longleftrightarrow> (\<exists>v. R w v \<and> on_bus p q w0 t0 k xs m v)"

lemma comes_by_refl: "R w w \<Longrightarrow> on_bus p q w0 t0 k xs m w \<Longrightarrow> comes_by R p q t0 w0 w k xs m"
  unfolding comes_by_def by blast

text \<open>
  A caller of the transport: a round \<open>R\<close> in which a command \<open>C\<close> is under way is one step of the transport,
  the event, and the environment. The caller may give up after \<open>limit\<close> ticks.
\<close>

locale command_rounds = storage_bus E p q status reply
  for E :: "usb \<Rightarrow> usb" and p q :: ptr and status :: "u8 list \<Rightarrow> u8" and reply :: "u8 list \<Rightarrow> u8 list" +
  fixes R :: "usb \<Rightarrow> usb \<Rightarrow> bool" and C :: "MSC_HandleTypeDef \<Rightarrow> bool" and lun :: u8 and t0 :: u32 and w0 :: usb and limit :: nat
  assumes rounds_refl: "R w w" and rounds_trans: "R u v \<Longrightarrow> R v w \<Longrightarrow> R u w"
    and round: "on_bus p q w0 t0 k xs m w \<Longrightarrow> C m \<Longrightarrow> USBH_MSC_BOT_Process E p lun w = (USBH_BUSY, v)
      \<Longrightarrow> on_bus p q w0 t0 k' xs' m' v \<Longrightarrow> Suc k' \<le> limit \<Longrightarrow> R w (E (msc_event v))"
    and under_way: "C m \<Longrightarrow> rest m' = rest m \<Longrightarrow> C m'"
begin

lemma comes_turn:
  assumes "comes_by R p q t0 w0 w k xs m" "C m"
    and "\<And>v. on_bus p q w0 t0 k xs m v \<Longrightarrow> \<exists>x u. USBH_MSC_BOT_Process E p lun v = (USBH_BUSY, u) \<and> P x \<and> on_bus p q w0 t0 k' (xs' x) m' u"
    and "Suc k' \<le> limit"
  shows "\<exists>x. P x \<and> comes_by R p q t0 w0 w (Suc k') (xs' x) (io_done status reply q m')"
proof -
  from assms(1) obtain v where v: "R w v" "on_bus p q w0 t0 k xs m v" unfolding comes_by_def by blast
  from assms(3) [OF v(2)] obtain x u where
    u: "USBH_MSC_BOT_Process E p lun v = (USBH_BUSY, u)" "P x" "on_bus p q w0 t0 k' (xs' x) m' u" by blast
  from u(3) have e: "on_bus p q w0 t0 k' (xs' x) m' (msc_event u)" by simp
  from rounds_trans [OF v(1) round [OF v(2) assms(2) u(1,3) assms(4)]] u(2) bus_look [OF e] show ?thesis
    unfolding comes_by_def by blast
qed

lemma comes_turn_quiet:
  assumes "comes_by R p q t0 w0 w k xs m" "C m"
    and "\<And>v. on_bus p q w0 t0 k xs m v \<Longrightarrow> \<exists>u. USBH_MSC_BOT_Process E p lun v = (USBH_BUSY, u) \<and> on_bus p q w0 t0 k' xs' m' u"
    and "Suc k' \<le> limit"
  shows "comes_by R p q t0 w0 w (Suc k') xs' (io_done status reply q m')"
  using comes_turn [OF assms(1,2), of "\<lambda>_ :: nat. True" k' "\<lambda>_. xs'" m'] assms(3,4) by blast

end

text \<open>What a command leaves in the driver's own data words when it is done.\<close>

definition data_after :: "bool \<Rightarrow> ptr \<Rightarrow> (u8 list \<Rightarrow> u8 list) \<Rightarrow> MSC_HandleTypeDef \<Rightarrow> u8 list" where
  "data_after inward q reply m =
    (if inward \<and> bot_pbuf (hbot m) = BBot q 0 then overwrite (reply (cbw_CB (cbw (hbot m)))) (bot_data (hbot m))
     else bot_data (hbot m))"

lemma overwrite_twice [simp]: "overwrite xs (overwrite xs ys) = overwrite xs ys"
  by (cases "length xs \<le> length ys") (simp_all add: overwrite_def)

lemma length_after [simp]: "length (data_after inward q rp m) = length (bot_data (hbot m))"
  by (simp add: data_after_def)

lemma length_io [simp]: "length (bot_data (hbot (io_done st rp q m))) = length (bot_data (hbot m))"
  by (simp add: io_done_def Let_def)

lemma advance_sel:
  assumes "mps = unat n"
  shows "mps < unat (cbw_DataTransferLength (cbw b)) \<Longrightarrow> unat (cbw_DataTransferLength (cbw (advance_bot n b))) = unat (cbw_DataTransferLength (cbw b)) - mps
      \<and> bot_pbuf (advance_bot n b) = buf_add (bot_pbuf b) mps"
    and "\<not> mps < unat (cbw_DataTransferLength (cbw b)) \<Longrightarrow> cbw_DataTransferLength (cbw (advance_bot n b)) = 0
      \<and> bot_pbuf (advance_bot n b) = bot_pbuf b"
    and "bot_data (advance_bot n b) = bot_data b"
  using assms by (simp_all add: advance_bot_def word_less_nat_alt unat_sub word_le_nat_alt unat_up)

text \<open>The two directions of a command's data.\<close>

definition data_wait :: "bool \<Rightarrow> BOT_StateTypeDef" where
  "data_wait inward = (if inward then BOT_DATA_IN_WAIT else BOT_DATA_OUT_WAIT)"

definition packet_bytes :: "bool \<Rightarrow> MSC_HandleTypeDef \<Rightarrow> u16" where
  "packet_bytes inward m = (if inward then msc_InEpSize m else msc_OutEpSize m)"

definition bulk_data :: "bool \<Rightarrow> MSC_HandleTypeDef \<Rightarrow> buf_ptr \<Rightarrow> nat \<Rightarrow> hal_call \<Rightarrow> bool" where
  "bulk_data inward m b n x \<longleftrightarrow> (if inward then bulk_in (msc_InPipe m) b n x else bulk_out (msc_OutPipe m) b n x)"

lemma io_data:
  "bot_state (hbot m) = data_wait inward \<Longrightarrow> bot_data (hbot (io_done st rp q m)) = data_after inward q rp m"
  "bot_state (hbot m) \<noteq> BOT_DATA_IN_WAIT \<Longrightarrow> bot_data (hbot (io_done st rp q m)) = bot_data (hbot m)"
  by (auto simp: io_done_def Let_def data_after_def data_wait_def)

lemma direction_rest:
  "rest m' = rest m \<Longrightarrow> packet_bytes inward m' = packet_bytes inward m"
  "rest m' = rest m \<Longrightarrow> bulk_data inward m' = bulk_data inward m"
  by (simp_all add: packet_bytes_def bulk_data_def restD [of m' m] fun_eq_iff)

context storage_bus
begin

lemma bot_data_moved:
  assumes "on_bus p q w0 t0 k xs m w" "bot_state (hbot m) = data_wait inward"
    and "m1 = advanced (packet_bytes inward m) (io_done status reply q m)"
  shows "cbw_DataTransferLength (cbw (hbot m1)) \<noteq> 0 \<Longrightarrow> \<exists>x w'. USBH_MSC_BOT_Process E p lun w = (USBH_BUSY, w')
      \<and> bulk_data inward m (bot_pbuf (hbot m1)) (unat (packet_bytes inward m)) x \<and> on_bus p q w0 t0 (Suc k) (xs @ [x]) m1 w'"
    and "cbw_DataTransferLength (cbw (hbot m1)) = 0 \<Longrightarrow> \<exists>w'. USBH_MSC_BOT_Process E p lun w = (USBH_BUSY, w')
      \<and> on_bus p q w0 t0 (Suc k) xs (m1\<lparr>hbot := (hbot m1)\<lparr>bot_state := BOT_RECEIVE_CSW\<rparr>\<rparr>) w'"
proof -
  have i: "inward \<Longrightarrow> bot_state (hbot m) = BOT_DATA_IN_WAIT" "inward \<Longrightarrow> m1 = advanced (msc_InEpSize m) (io_done status reply q m)"
    and o: "\<not> inward \<Longrightarrow> bot_state (hbot m) = BOT_DATA_OUT_WAIT" "\<not> inward \<Longrightarrow> m1 = advanced (msc_OutEpSize m) m"
    using assms(2) unfolding assms(3) by (simp_all add: data_wait_def packet_bytes_def io_done_def Let_def)
  {
    assume nz: "cbw_DataTransferLength (cbw (hbot m1)) \<noteq> 0"
    from bot_data_received(1) [OF assms(1) i nz, of lun] bot_data_sent(1) [OF assms(1) o nz, of lun]
    show "\<exists>x w'. USBH_MSC_BOT_Process E p lun w = (USBH_BUSY, w')
      \<and> bulk_data inward m (bot_pbuf (hbot m1)) (unat (packet_bytes inward m)) x \<and> on_bus p q w0 t0 (Suc k) (xs @ [x]) m1 w'"
      unfolding bulk_data_def packet_bytes_def by (cases inward) (simp_all only: if_True if_False not_False_eq_True True_implies_equals)
  next
    assume z: "cbw_DataTransferLength (cbw (hbot m1)) = 0"
    from bot_data_received(2) [OF assms(1) i z] bot_data_sent(2) [OF assms(1) o z]
    show "\<exists>w'. USBH_MSC_BOT_Process E p lun w = (USBH_BUSY, w')
      \<and> on_bus p q w0 t0 (Suc k) xs (m1\<lparr>hbot := (hbot m1)\<lparr>bot_state := BOT_RECEIVE_CSW\<rparr>\<rparr>) w'"
      by (cases inward) blast+
  }
qed

lemma bot_data_started:
  assumes "on_bus p q w0 t0 k xs m w" "bot_state (hbot m) = (if inward then BOT_DATA_IN else BOT_DATA_OUT)"
  shows "\<exists>x w'. USBH_MSC_BOT_Process E p lun w = (USBH_BUSY, w')
      \<and> bulk_data inward m (bot_pbuf (hbot m)) (unat (packet_bytes inward m)) x
      \<and> on_bus p q w0 t0 k (xs @ [x]) (m\<lparr>hbot := (hbot m)\<lparr>bot_state := data_wait inward\<rparr>\<rparr>) w'"
  using bot_start_data [OF assms(1)] assms(2)
  by (cases inward) (simp_all add: data_wait_def packet_bytes_def bulk_data_def)

end

context command_rounds
begin

text \<open>The data of a command, once the first packet is under way.\<close>

lemma data_packets:
  assumes "comes_by R p q t0 w0 w k xs m" "C m" "bot_state (hbot m) = data_wait inward"
    and "n = unat (cbw_DataTransferLength (cbw (hbot m)))" "bot_pbuf (hbot m) = buf_add b i"
    and "mps = unat (packet_bytes inward m)" "0 < mps" "bulk_data inward m (buf_add b i) mps x0"
    and "k + 2 * length (split_parts mps i n) \<le> limit"
  shows "\<exists>ys m'. list_all2 (\<lambda>(a, l). bulk_data inward m (buf_add b a) mps) (split_parts mps i n) (x0 # ys)
    \<and> comes_by R p q t0 w0 w (k + 2 * length (split_parts mps i n)) (xs @ ys) m'
    \<and> bot_state (hbot m') = BOT_RECEIVE_CSW \<and> rest m' = rest m
    \<and> length (bot_data (hbot m')) = length (bot_data (hbot m))
    \<and> (n \<le> mps \<longrightarrow> bot_pbuf (hbot m') = bot_pbuf (hbot m) \<and> bot_data (hbot m') = data_after inward q reply m)"
  using assms
proof (induction mps i n arbitrary: k xs m x0 rule: split_parts.induct)
  case (1 mps i n)
  let ?m = "advanced (packet_bytes inward m) (io_done status reply q m)"
  have r: "rest ?m = rest m" by simp
  note adv = advance_sel [OF "1.prems"(6), of "hbot (io_done status reply q m)"]
  show ?case
  proof (cases "n \<le> mps")
    case True
    with adv(2) "1.prems"(4) have e: "cbw_DataTransferLength (cbw (hbot ?m)) = 0" "bot_pbuf (hbot ?m) = bot_pbuf (hbot m)" by simp_all
    let ?m' = "io_done status reply q (?m\<lparr>hbot := (hbot ?m)\<lparr>bot_state := BOT_RECEIVE_CSW\<rparr>\<rparr>)"
    have "comes_by R p q t0 w0 w (Suc (Suc k)) xs ?m'"
      by (rule comes_turn_quiet [OF "1.prems"(1,2) bot_data_moved(2) [OF _ "1.prems"(3) refl e(1)]])
        (use True "1.prems"(9) in \<open>simp_all add: split_parts_last\<close>)
    moreover have "rest ?m' = rest m" by (simp add: rest_def advance_bot_def io_done_def with_io_def Let_def)
    moreover have "bot_data (hbot ?m') = data_after inward q reply m" "length (bot_data (hbot ?m')) = length (bot_data (hbot m))"
      using io_data(2) [of "?m\<lparr>hbot := (hbot ?m)\<lparr>bot_state := BOT_RECEIVE_CSW\<rparr>\<rparr>"] io_data(1) [OF "1.prems"(3)] adv(3) by simp_all
    ultimately show ?thesis using True "1.prems"(8) e(2)
      by (intro exI [of _ "[]"] exI [of _ ?m']) (simp add: split_parts_last)
  next
    case False
    with adv(1) "1.prems"(4) have e: "unat (cbw_DataTransferLength (cbw (hbot ?m))) = n - mps"
      "bot_pbuf (hbot ?m) = buf_add b (i + mps)" using "1.prems"(5) by simp_all
    then have nz: "cbw_DataTransferLength (cbw (hbot ?m)) \<noteq> 0" using False by auto
    let ?m' = "io_done status reply q ?m"
    have parts: "split_parts mps i n = (i, mps) # split_parts mps (i + mps) (n - mps)"
      using False "1.prems"(7) by (simp add: split_parts_more)
    have "\<exists>x. bulk_data inward m (bot_pbuf (hbot ?m)) (unat (packet_bytes inward m)) x
        \<and> comes_by R p q t0 w0 w (Suc (Suc k)) (xs @ [x]) ?m'"
      by (rule comes_turn [OF "1.prems"(1,2) bot_data_moved(1) [OF _ "1.prems"(3) refl nz]])
        (use "1.prems"(9) in \<open>simp_all add: parts\<close>)
    then obtain x where x: "bulk_data inward m (buf_add b (i + mps)) mps x" "comes_by R p q t0 w0 w (Suc (Suc k)) (xs @ [x]) ?m'"
      using e(2) "1.prems"(6) by auto
    have m': "rest ?m' = rest m" "bot_state (hbot ?m') = data_wait inward" "bot_pbuf (hbot ?m') = buf_add b (i + mps)"
      "n - mps = unat (cbw_DataTransferLength (cbw (hbot ?m')))" using e "1.prems"(3) by simp_all
    note r' = direction_rest [OF m'(1)]
    have t: "Suc (Suc k) + 2 * length (split_parts mps (i + mps) (n - mps)) \<le> limit"
      using "1.prems"(9) unfolding parts by simp
    have "\<not> (mps = 0 \<or> n \<le> mps)" "mps = unat (packet_bytes inward ?m')" "bulk_data inward ?m' (buf_add b (i + mps)) mps x"
      unfolding r' using False "1.prems"(6,7) x(1) by simp_all
    from "1.IH" [OF this(1) x(2) under_way [OF "1.prems"(2) m'(1)] m'(2,4,3) this(2) "1.prems"(7) this(3) t]
    obtain ys u where u: "list_all2 (\<lambda>(a, l). bulk_data inward ?m' (buf_add b a) mps) (split_parts mps (i + mps) (n - mps)) (x # ys)"
      "comes_by R p q t0 w0 w (Suc (Suc k) + 2 * length (split_parts mps (i + mps) (n - mps))) ((xs @ [x]) @ ys) u"
      "bot_state (hbot u) = BOT_RECEIVE_CSW" "rest u = rest ?m'" "length (bot_data (hbot u)) = length (bot_data (hbot ?m'))" by blast
    have "rest u = rest m" "length (bot_data (hbot u)) = length (bot_data (hbot m))" using u(4,5) adv(3) by simp_all
    with False "1.prems"(8) u(1) [unfolded r'(2)] u(2,3) show ?thesis
      by (intro exI [of _ "x # ys"] exI [of _ u]) (simp add: parts)
  qed
qed

text \<open>The start of a command: the command block, and its status.\<close>

lemma cbw_turns:
  assumes "comes_by R p q t0 w0 w k xs m" "C m" "bot_state (hbot m) = BOT_SEND_CBW"
    and "k + 3 \<le> limit"
    and "s = (if cbw_DataTransferLength (cbw (hbot m)) \<noteq> 0
         then if cbw_Flags (cbw (hbot m)) AND 0x80 = 0x80 then BOT_DATA_IN else BOT_DATA_OUT else BOT_RECEIVE_CSW)"
  shows "\<exists>c m'. bulk_out (msc_OutPipe m) (BCbw q) 31 c \<and> comes_by R p q t0 w0 w (k + 3) (xs @ [c]) m'
    \<and> bot_state (hbot m') = s \<and> rest m' = rest m \<and> cbw_DataTransferLength (cbw (hbot m')) = cbw_DataTransferLength (cbw (hbot m))
    \<and> bot_pbuf (hbot m') = bot_pbuf (hbot m) \<and> bot_data (hbot m') = bot_data (hbot m)"
proof -
  let ?m = "m\<lparr>hbot := (hbot m)\<lparr>cbw := (cbw (hbot m))\<lparr>cbw_LUN := lun\<rparr>, bot_state := BOT_SEND_CBW_WAIT\<rparr>\<rparr>"
  let ?a = "io_done status reply q ?m"
  have "\<exists>c. bulk_out (msc_OutPipe m) (BCbw q) 31 c \<and> comes_by R p q t0 w0 w (Suc k) (xs @ [c]) ?a"
    by (rule comes_turn [OF assms(1,2) bot_send_cbw [OF _ assms(3)]]) (use assms(4) in simp_all)
  then obtain c where c: "bulk_out (msc_OutPipe m) (BCbw q) 31 c" "comes_by R p q t0 w0 w (Suc k) (xs @ [c]) ?a" by blast
  have a: "rest ?a = rest m" "bot_state (hbot ?a) = BOT_SEND_CBW_WAIT" by simp_all
  let ?m' = "?a\<lparr>hbot := (hbot ?a)\<lparr>bot_state := s\<rparr>\<rparr>"
  have s: "s = (if cbw_DataTransferLength (cbw (hbot ?a)) \<noteq> 0
         then if cbw_Flags (cbw (hbot ?a)) AND 0x80 = 0x80 then BOT_DATA_IN else BOT_DATA_OUT else BOT_RECEIVE_CSW)"
    by (simp add: assms(5))
  have "comes_by R p q t0 w0 w (Suc (Suc (Suc k))) (xs @ [c]) (io_done status reply q ?m')"
    by (rule comes_turn_quiet [OF c(2) under_way [OF assms(2) a(1)] bot_cbw_sent [OF _ a(2), folded s]])
      (use assms(4) in simp_all)
  with c(1) show ?thesis
    by (intro exI [of _ c] exI [of _ "io_done status reply q ?m'"]) (simp add: eval_nat_numeral io_data(2) assms(5))
qed

lemma csw_turn:
  assumes "comes_by R p q t0 w0 w k xs m" "C m" "bot_state (hbot m) = BOT_RECEIVE_CSW"
    and "Suc k \<le> limit"
  shows "\<exists>d m'. bulk_in (msc_InPipe m) (BCsw q) 13 d \<and> comes_by R p q t0 w0 w (Suc k) (xs @ [d]) m'
    \<and> bot_state (hbot m') = BOT_RECEIVE_CSW_WAIT \<and> rest m' = rest m
    \<and> bot_pbuf (hbot m') = bot_pbuf (hbot m) \<and> bot_data (hbot m') = bot_data (hbot m)"
proof -
  let ?m = "m\<lparr>hbot := (hbot m)\<lparr>bot_state := BOT_RECEIVE_CSW_WAIT\<rparr>\<rparr>"
  have "\<exists>d. bulk_in (msc_InPipe m) (BCsw q) 13 d \<and> comes_by R p q t0 w0 w (Suc k) (xs @ [d]) (io_done status reply q ?m)"
    by (rule comes_turn [OF assms(1,2) bot_receive_csw [OF _ assms(3)]]) (use assms(4) in simp_all)
  moreover have "bot_data (hbot (io_done status reply q ?m)) = bot_data (hbot m)" by (simp add: io_data(2))
  ultimately show ?thesis by (auto intro!: exI [of _ "io_done status reply q ?m"])
qed

text \<open>A command with data, up to its status; what the flags say decides the direction.\<close>

lemma command_with_data:
  assumes "comes_by R p q t0 w0 w k xs m" "C m" "bot_state (hbot m) = BOT_SEND_CBW"
    and "n = unat (cbw_DataTransferLength (cbw (hbot m)))" "0 < n" "inward = (cbw_Flags (cbw (hbot m)) AND 0x80 = 0x80)"
    and "mps = unat (packet_bytes inward m)" "0 < mps" "k + 2 * length (split_parts mps 0 n) + 5 \<le> limit"
  shows "\<exists>c ys d m'. bulk_out (msc_OutPipe m) (BCbw q) 31 c
    \<and> list_all2 (\<lambda>(a, l). bulk_data inward m (buf_add (bot_pbuf (hbot m)) a) mps) (split_parts mps 0 n) ys
    \<and> bulk_in (msc_InPipe m) (BCsw q) 13 d
    \<and> comes_by R p q t0 w0 w (k + 2 * length (split_parts mps 0 n) + 5) (xs @ [c] @ ys @ [d]) m'
    \<and> bot_state (hbot m') = BOT_RECEIVE_CSW_WAIT \<and> rest m' = rest m
    \<and> length (bot_data (hbot m')) = length (bot_data (hbot m))
    \<and> (n \<le> mps \<longrightarrow> bot_pbuf (hbot m') = bot_pbuf (hbot m) \<and> bot_data (hbot m') = data_after inward q reply m)"
proof -
  let ?L = "length (split_parts mps 0 n)"
  have nz: "cbw_DataTransferLength (cbw (hbot m)) \<noteq> 0" using assms(4,5) by auto
  from cbw_turns [OF assms(1-3) _ refl] nz assms(6,9) obtain c m1 where
    1: "bulk_out (msc_OutPipe m) (BCbw q) 31 c" "comes_by R p q t0 w0 w (k + 3) (xs @ [c]) m1"
    "bot_state (hbot m1) = (if inward then BOT_DATA_IN else BOT_DATA_OUT)" "rest m1 = rest m" "cbw_DataTransferLength (cbw (hbot m1)) = cbw_DataTransferLength (cbw (hbot m))"
    "bot_pbuf (hbot m1) = bot_pbuf (hbot m)" "bot_data (hbot m1) = bot_data (hbot m)" by auto
  note r1 = direction_rest [OF 1(4)]
  let ?m2 = "io_done status reply q (m1\<lparr>hbot := (hbot m1)\<lparr>bot_state := data_wait inward\<rparr>\<rparr>)"
  have "\<exists>x. bulk_data inward m1 (bot_pbuf (hbot m1)) (unat (packet_bytes inward m1)) x
      \<and> comes_by R p q t0 w0 w (Suc (k + 3)) ((xs @ [c]) @ [x]) ?m2"
    by (rule comes_turn [OF 1(2) under_way [OF assms(2) 1(4)] bot_data_started [OF _ 1(3)]]) (use assms(9) in simp_all)
  then obtain x where x: "bulk_data inward m1 (bot_pbuf (hbot m1)) (unat (packet_bytes inward m1)) x"
    "comes_by R p q t0 w0 w (Suc (k + 3)) ((xs @ [c]) @ [x]) ?m2" by blast
  have r2: "rest ?m2 = rest m" using 1(4) by simp
  have 2: "rest ?m2 = rest m" "bot_state (hbot ?m2) = data_wait inward" "n = unat (cbw_DataTransferLength (cbw (hbot ?m2)))"
    "bot_pbuf (hbot ?m2) = buf_add (bot_pbuf (hbot m)) 0" "mps = unat (packet_bytes inward ?m2)"
    "bulk_data inward ?m2 (buf_add (bot_pbuf (hbot m)) 0) mps x" "Suc (k + 3) + 2 * ?L \<le> limit"
    using r2 1(5,6) assms(4,7) x(1) assms(9) unfolding r1 direction_rest [OF r2] by simp_all
  from data_packets [OF x(2) under_way [OF assms(2) 2(1)] 2(2-5) assms(8) 2(6,7)] obtain ys m3 where
    3: "list_all2 (\<lambda>(a, l). bulk_data inward ?m2 (buf_add (bot_pbuf (hbot m)) a) mps) (split_parts mps 0 n) (x # ys)"
    "comes_by R p q t0 w0 w (Suc (k + 3) + 2 * ?L) (((xs @ [c]) @ [x]) @ ys) m3"
    "bot_state (hbot m3) = BOT_RECEIVE_CSW" "rest m3 = rest ?m2" "length (bot_data (hbot m3)) = length (bot_data (hbot ?m2))"
    "n \<le> mps \<longrightarrow> bot_pbuf (hbot m3) = bot_pbuf (hbot ?m2) \<and> bot_data (hbot m3) = data_after inward q reply ?m2" by blast
  have r3: "rest m3 = rest m" using 3(4) 2(1) by simp
  from csw_turn [OF 3(2) under_way [OF assms(2) r3] 3(3)] assms(9) obtain d m4 where
    4: "bulk_in (msc_InPipe m3) (BCsw q) 13 d" "comes_by R p q t0 w0 w (Suc (Suc (k + 3) + 2 * ?L)) ((((xs @ [c]) @ [x]) @ ys) @ [d]) m4"
    "bot_state (hbot m4) = BOT_RECEIVE_CSW_WAIT" "rest m4 = rest m3" "bot_pbuf (hbot m4) = bot_pbuf (hbot m3)"
    "bot_data (hbot m4) = bot_data (hbot m3)" by auto
  have e: "Suc (Suc (k + 3) + 2 * ?L) = k + 2 * ?L + 5" "(((xs @ [c]) @ [x]) @ ys) @ [d] = xs @ [c] @ (x # ys) @ [d]" by simp_all
  have e2: "data_after inward q reply ?m2 = data_after inward q reply m"
    using 1(6,7) restD(8) [OF r2] by (simp add: data_after_def data_wait_def io_done_def Let_def)
  have g: "length (bot_data (hbot m4)) = length (bot_data (hbot m))" "n \<le> mps \<longrightarrow> bot_pbuf (hbot m4) = bot_pbuf (hbot m) \<and> bot_data (hbot m4) = data_after inward q reply m"
    "rest m4 = rest m" using 1(6,7) 3(5,6) 4(4-6) r3 e2 by simp_all
  have "list_all2 (\<lambda>(a, l). bulk_data inward m (buf_add (bot_pbuf (hbot m)) a) mps) (split_parts mps 0 n) (x # ys)"
    "bulk_in (msc_InPipe m) (BCsw q) 13 d" using 3(1) 4(1) direction_rest [OF 2(1)] restD(3) [OF r3] by simp_all
  with 1(1) 4(2) [unfolded e] 4(3) g show ?thesis by blast
qed

end

end
