(* ===== verification/Usb_MSC_Rw.thy ===== *)
theory Usb_MSC_Rw
  imports Usb_MSC_Command
begin

text \<open>
  A read or write from its start to its end, when the device accepts the command and when it refuses it and
  is asked why.
\<close>

section \<open>The loop of a read or write\<close>

text \<open>A command is under way for the unit.\<close>

definition commanding :: "nat \<Rightarrow> MSC_HandleTypeDef \<Rightarrow> bool" where
  "commanding i m \<longleftrightarrow> i < length (msc_unit m) \<and> lun_state (msc_unit m ! i) \<in> {MSC_READ, MSC_WRITE, MSC_REQUEST_SENSE}
     \<and> bot_cmd_state (hbot m) = BOT_CMD_WAIT"

lemma commanding_rest: "commanding i m \<Longrightarrow> rest m' = rest m \<Longrightarrow> commanding i m'"
  by (simp add: commanding_def restD [of m' m])

text \<open>The loop at \<open>w\<close> comes, with the same result, to a state in which the handle is \<open>m\<close>.\<close>

abbreviation comes_to ::
  "(usb \<Rightarrow> usb) \<Rightarrow> ptr \<Rightarrow> ptr \<Rightarrow> u8 \<Rightarrow> u32 \<Rightarrow> u32 \<Rightarrow> usb \<Rightarrow> usb \<Rightarrow> nat \<Rightarrow> hal_call list \<Rightarrow> MSC_HandleTypeDef \<Rightarrow> bool" where
  "comes_to E p q lun t0 n w0 w k xs m \<equiv> comes_by (\<lambda>u v. rw_loop E p q lun t0 n u = rw_loop E p q lun t0 n v) p q t0 w0 w k xs m"

lemma unit_on_bus:
  assumes "on_bus p q w0 t0 k xs m w" "i < length (msc_unit m)"
  shows "unit_at q i w = msc_unit m ! i" "chk_unit q i w = w"
  using assms on_bus_at(1) [OF assms(1)] by (simp_all add: unit_at_def chk_unit_def Let_def)

lemma RdWr_busy:
  assumes "on_bus p q w0 t0 k xs m w" "commanding (unat lun) m" "USBH_MSC_BOT_Process E p lun w = (USBH_BUSY, v)"
  shows "USBH_MSC_RdWrProcess E p lun w = (USBH_BUSY, msc_event v)"
proof -
  note a = on_bus_at [OF assms(1)]
  have u: "unit_at q (unat lun) w = msc_unit m ! unat lun" "chk_unit q (unat lun) w = w"
    using unit_on_bus [OF assms(1)] assms(2) by (simp_all add: commanding_def)
  show ?thesis using assms(2,3) a u unfolding commanding_def
    by (auto simp: USBH_MSC_RdWrProcess_def Let_def scsi_command_def USBH_MSC_SCSI_Read_def USBH_MSC_SCSI_Write_def
        USBH_MSC_SCSI_RequestSense_def with_event_def rw_result_def sense_result_def)
qed

context storage_bus
begin

lemma rw_goes_round:
  assumes "USBH_MSC_RdWrProcess E p lun w = (USBH_BUSY, v)" "on_bus p q w0 t0 k' xs' m' v" "Suc k' \<le> unat (10000 * n)"
  shows "rw_loop E p q lun t0 n w = rw_loop E p q lun t0 n (E v)"
proof -
  note l = bus_look [OF assms(2)]
  have "unat (Timer (hosts (E v) p) - t0) \<le> unat (10000 * n)" "is_connected (device (hosts (E v) p)) \<noteq> 0"
    using l on_bus_at(4) [OF l] assms(3) by (simp_all add: on_bus_def request_ready_def)
  then show ?thesis by (subst rw_loop.simps) (simp add: assms(1) Let_def word_less_nat_alt not_less)
qed

lemma rw_turn:
  assumes "USBH_MSC_RdWrProcess E p lun w = (USBH_BUSY, v)" "on_bus p q w0 t0 k' xs' m' v" "Suc k' \<le> unat (10000 * n)"
  shows "comes_to E p q lun t0 n w0 w (Suc k') xs' (io_done status reply q m')"
  using rw_goes_round [OF assms] bus_look [OF assms(2)] unfolding comes_by_def by blast

lemma rw_rounds:
  "command_rounds E p q status reply (\<lambda>u v. rw_loop E p q lun t0 n u = rw_loop E p q lun t0 n v) (commanding (unat lun)) lun t0 w0 (unat (10000 * n))"
proof (unfold_locales, goal_cases)
  case (3 k xs m w v k' xs' m')
  from rw_goes_round [OF RdWr_busy [OF 3(1-3)]] 3(4,5) show ?case by simp
qed (auto intro: commanding_rest)

lemmas rw_command_with_data = command_rounds.command_with_data [OF rw_rounds]

end

section \<open>A read or write from its start to its end\<close>

lemma split_parts_few:
  assumes "0 < mps" "0 < n"
  shows "length (split_parts mps i n) \<le> n"
  using assms
proof (induction mps i n rule: split_parts.induct)
  case (1 mps i n)
  show ?case
  proof (cases "n \<le> mps")
    case False
    with 1 have "length (split_parts mps (i + mps) (n - mps)) \<le> n - mps" by simp
    with False 1(2) show ?thesis by (simp add: split_parts_more)
  qed (use 1(3) in \<open>simp add: split_parts_last\<close>)
qed

text \<open>The unit's state, as the functions set it.\<close>

definition with_unit :: "nat \<Rightarrow> (MSC_LUNTypeDef \<Rightarrow> MSC_LUNTypeDef) \<Rightarrow> MSC_HandleTypeDef \<Rightarrow> MSC_HandleTypeDef" where
  "with_unit i f m = m\<lparr>msc_unit := (msc_unit m)[i := f (msc_unit m ! i)]\<rparr>"

lemma with_unit_sel [simp]:
  "hbot (with_unit i f m) = hbot m" "msc_InPipe (with_unit i f m) = msc_InPipe m" "msc_OutPipe (with_unit i f m) = msc_OutPipe m"
  "msc_InEpSize (with_unit i f m) = msc_InEpSize m" "msc_OutEpSize (with_unit i f m) = msc_OutEpSize m"
  "length (msc_unit (with_unit i f m)) = length (msc_unit m)" "msc_state (with_unit i f m) = msc_state m"
  "i < length (msc_unit m) \<Longrightarrow> msc_unit (with_unit i f m) ! j = (if j = i then f (msc_unit m ! i) else msc_unit m ! j)"
  by (auto simp: with_unit_def nth_list_update)

lemma on_bus_unit:
  assumes "on_bus p q w0 t0 k xs m w" "i < length (msc_unit m)"
  shows "on_bus p q w0 t0 k xs (with_unit i f m) (upd_unit q i f w)"
proof -
  note u = on_bus_upd [OF assms(1), of "with_unit i f"]
  have "with_unit i f = (\<lambda>m. m\<lparr>msc_unit := (msc_unit m)[i := f (msc_unit m ! i)]\<rparr>)" by (rule ext) (rule with_unit_def)
  then have "upd_unit q i f w = chk_unit q i (upd_msc q (with_unit i f) w)" by (simp only: upd_unit_def)
  with u unit_on_bus(2) [OF u, of i] assms(2) show ?thesis by simp
qed

lemma on_bus_lun:
  assumes "on_bus p q w0 t0 k xs m w" "i < length (msc_unit m)"
  shows "on_bus p q w0 t0 k xs (with_unit i (lun_state_update (\<lambda>_. st)) m) (set_lun q i st w)"
    "on_bus p q w0 t0 k xs (with_unit i (lun_error_update (\<lambda>_. er)) m) (set_lun_error q i er w)"
  using on_bus_unit [OF assms] by (simp_all add: set_lun_def set_lun_error_def)

text \<open>The handle once the command of a read or write is filled in.\<close>

definition rw_handle :: "bool \<Rightarrow> u8 \<Rightarrow> u32 \<Rightarrow> buf_ptr \<Rightarrow> u32 \<Rightarrow> MSC_HandleTypeDef \<Rightarrow> MSC_HandleTypeDef" where
  "rw_handle inward lun blk b len m =
    (let st = (if inward then MSC_READ else MSC_WRITE)
     in (with_unit (unat lun) (lun_state_update (\<lambda>_. st)) (m\<lparr>msc_state := st\<rparr>))\<lparr>rw_lun := ucast lun,
          hbot := (fill_cbw (len * 512) (if inward then 0x80 else 0)
            (rw_block (if inward then OPCODE_READ10 else OPCODE_WRITE10) blk len) (hbot m))\<lparr>bot_pbuf := b\<rparr>\<rparr>)"

lemma start_on_bus:
  assumes "on_bus p q w0 t0 k xs m w" "unat lun < length (msc_unit m)"
  shows "on_bus p q w0 t0 k xs ((with_unit (unat lun) (lun_state_update (\<lambda>_. st)) (m\<lparr>msc_state := st\<rparr>))\<lparr>rw_lun := ucast lun\<rparr>)
    (start_rw p lun st w)"
proof -
  note 1 = on_bus_upd [OF assms(1), of "\<lambda>m. m\<lparr>msc_state := st\<rparr>"]
  note 2 = on_bus_lun(1) [OF 1, of "unat lun" st]
  note 3 = on_bus_upd [OF 2, of "\<lambda>m. m\<lparr>rw_lun := ucast lun\<rparr>"]
  from 3 assms(2) on_bus_at(2) [OF assms(1)] show ?thesis
    by (simp add: start_rw_def Let_def)
qed

lemma rw_starts:
  assumes "on_bus p q w0 t0 k xs m w" "unat lun < length (msc_unit m)" "lun_state (msc_unit m ! unat lun) = MSC_IDLE"
    and "bot_cmd_state (hbot m) = BOT_CMD_SEND"
  shows "\<exists>v. (if inward then USBH_MSC_Read E p lun blk b len w else USBH_MSC_Write E p lun blk b len w)
      = rw_loop E p q lun (Timer (hosts v p)) len v
    \<and> on_bus p q w0 t0 k xs (rw_handle inward lun blk b len m) v \<and> hosts v = hosts w"
proof -
  note a = on_bus_at [OF assms(1)]
  let ?st = "if inward then MSC_READ else MSC_WRITE"
  let ?w = "start_rw p lun ?st w"
  note s = start_on_bus [OF assms(1,2), of ?st]
  note b = on_bus_at [OF s]
  let ?g = "\<lambda>h. (fill_cbw (len * 512) (if inward then 0x80 else 0)
            (rw_block (if inward then OPCODE_READ10 else OPCODE_WRITE10) blk len) h)\<lparr>bot_pbuf := b\<rparr>"
  note u = on_bus_bot [OF s, of ?g]
  have r: "\<not> rw_refused p lun w"
    using assms a unit_on_bus(1) [OF assms(1,2)] by (simp add: rw_refused_def on_bus_def request_ready_def)
  have h: "hosts (upd_msc q f x) = hosts x" for f x by (simp add: upd_msc_def chk_def split: class_data.split)
  have h': "hosts (upd_bot q ?g ?w) = hosts w"
    by (simp add: h start_rw_def Let_def set_lun_def upd_unit_def chk_unit_def chk_def a(2))
  have "(if inward then USBH_MSC_Read E p lun blk b len w else USBH_MSC_Write E p lun blk b len w)
      = rw_loop E p q lun (Timer (hosts (upd_bot q ?g ?w) p)) len (upd_bot q ?g ?w)"
    using r assms(4) a(2) b
    by (cases inward) (simp_all add: USBH_MSC_Read_def USBH_MSC_Write_def USBH_MSC_SCSI_Read_def USBH_MSC_SCSI_Write_def
      scsi_command_def Let_def)
  moreover from u have "on_bus p q w0 t0 k xs (rw_handle inward lun blk b len m) (upd_bot q ?g ?w)"
    by (simp add: rw_handle_def Let_def)
  ultimately show ?thesis using h' by blast
qed

context storage_bus
begin

text \<open>The last turn of a read or write, when the device reports success, and when it does not.\<close>

lemma command_ok:
  assumes "comes_to E p q lun t0 len w0 w k xs m" "commanding (unat lun) m" "bot_state (hbot m) = BOT_RECEIVE_CSW_WAIT"
    and "lun_state (msc_unit m ! unat lun) \<in> {MSC_READ, MSC_WRITE}" "status (cbw_CB (cbw (hbot m))) = 0"
  shows "\<exists>v m'. rw_loop E p q lun t0 len w = Some (USBH_OK, v) \<and> on_bus p q w0 t0 (Suc k) xs m' v
    \<and> lun_state (msc_unit m' ! unat lun) = MSC_IDLE \<and> msc_state m' = MSC_IDLE \<and> length (msc_unit m') = length (msc_unit m)
    \<and> bot_cmd_state (hbot m') = BOT_CMD_SEND \<and> cbw_CB (cbw (hbot m')) = cbw_CB (cbw (hbot m))
    \<and> lun_error (msc_unit m' ! unat lun) = lun_error (msc_unit m ! unat lun)"
proof -
  from assms(1) obtain x where x: "rw_loop E p q lun t0 len w = rw_loop E p q lun t0 len x" "on_bus p q w0 t0 k xs m x"
    unfolding comes_by_def by blast
  note a = on_bus_at [OF x(2)]
  have i: "unat lun < length (msc_unit m)" "bot_cmd_state (hbot m) = BOT_CMD_WAIT" using assms(2) by (simp_all add: commanding_def)
  note u = unit_on_bus [OF x(2) i(1)]
  let ?m1 = "with_io (bot_data (hbot m)) (csw_bytes (cbw_Tag (cbw (hbot m))) (status (cbw_CB (cbw (hbot m)))))
         (m\<lparr>hbot := (hbot m)\<lparr>bot_state := BOT_SEND_CBW, bot_cmd_state := BOT_CMD_SEND\<rparr>\<rparr>)"
  from bot_command_over [OF x(2) assms(3)] assms(5) obtain y where
    y: "USBH_MSC_BOT_Process E p lun x = (USBH_OK, y)" "on_bus p q w0 t0 (Suc k) xs ?m1 y" by auto
  note l = on_bus_lun(1) [OF y(2), of "unat lun" MSC_IDLE]
  have "USBH_MSC_RdWrProcess E p lun x = (USBH_OK, msc_event (set_lun q (unat lun) MSC_IDLE y))"
    using assms(4) a u i y(1)
    by (auto simp: USBH_MSC_RdWrProcess_def Let_def USBH_MSC_SCSI_Read_def USBH_MSC_SCSI_Write_def scsi_command_def
        with_event_def rw_result_def)
  then have r: "rw_loop E p q lun t0 len x
      = Some (USBH_OK, upd_msc q (\<lambda>m. m\<lparr>msc_state := MSC_IDLE\<rparr>) (msc_event (set_lun q (unat lun) MSC_IDLE y)))"
    by (subst rw_loop.simps) (simp add: Let_def)
  let ?m2 = "with_unit (unat lun) (lun_state_update (\<lambda>_. MSC_IDLE)) ?m1"
  from l i(1) have "on_bus p q w0 t0 (Suc k) xs ?m2 (msc_event (set_lun q (unat lun) MSC_IDLE y))" by simp
  note f = on_bus_upd [OF this, of "\<lambda>m. m\<lparr>msc_state := MSC_IDLE\<rparr>"]
  from f x(1) r i(1) show ?thesis
    by (intro exI [of _ "upd_msc q (\<lambda>m. m\<lparr>msc_state := MSC_IDLE\<rparr>) (msc_event (set_lun q (unat lun) MSC_IDLE y))"]
        exI [of _ "?m2\<lparr>msc_state := MSC_IDLE\<rparr>"]) (simp add: with_unit_def with_io_def)
qed

end

lemma io_done_idle: "bot_state (hbot m) = BOT_SEND_CBW \<Longrightarrow> io_done st rp q m = m"
  by (simp add: io_done_def Let_def)

text \<open>The handle once the device has refused a command.\<close>

definition command_refused :: "nat \<Rightarrow> MSC_HandleTypeDef \<Rightarrow> MSC_HandleTypeDef \<Rightarrow> bool" where
  "command_refused i m m' \<longleftrightarrow> bot_state (hbot m') = BOT_SEND_CBW \<and> bot_cmd_state (hbot m') = BOT_CMD_SEND
     \<and> length (msc_unit m') = length (msc_unit m) \<and> lun_state (msc_unit m' ! i) = MSC_REQUEST_SENSE
     \<and> msc_InPipe m' = msc_InPipe m \<and> msc_OutPipe m' = msc_OutPipe m \<and> msc_InEpSize m' = msc_InEpSize m
     \<and> length (bot_data (hbot m')) = length (bot_data (hbot m))"

definition sense_block :: "u8 \<Rightarrow> u8 list" where
  "sense_block lun = (replicate 16 0)[0 := OPCODE_REQUEST_SENSE, 1 := push_bit 5 lun, 4 := 14]"

context storage_bus
begin

lemma command_failed:
  assumes "comes_to E p q lun t0 len w0 w k xs m" "commanding (unat lun) m" "bot_state (hbot m) = BOT_RECEIVE_CSW_WAIT"
    and "lun_state (msc_unit m ! unat lun) \<in> {MSC_READ, MSC_WRITE}" "status (cbw_CB (cbw (hbot m))) \<noteq> 0"
    and "Suc (Suc k) \<le> unat (10000 * len)"
  shows "\<exists>m'. comes_to E p q lun t0 len w0 w (Suc (Suc k)) xs m' \<and> command_refused (unat lun) m m'"
proof -
  from assms(1) obtain x where x: "rw_loop E p q lun t0 len w = rw_loop E p q lun t0 len x" "on_bus p q w0 t0 k xs m x"
    unfolding comes_by_def by blast
  note a = on_bus_at [OF x(2)]
  have i: "unat lun < length (msc_unit m)" "bot_cmd_state (hbot m) = BOT_CMD_WAIT" using assms(2) by (simp_all add: commanding_def)
  note u = unit_on_bus [OF x(2) i(1)]
  let ?m1 = "with_io (bot_data (hbot m)) (csw_bytes (cbw_Tag (cbw (hbot m))) (status (cbw_CB (cbw (hbot m)))))
         (m\<lparr>hbot := (hbot m)\<lparr>bot_state := BOT_SEND_CBW, bot_cmd_state := BOT_CMD_SEND\<rparr>\<rparr>)"
  from bot_command_over [OF x(2) assms(3)] assms(5) obtain y where
    y: "USBH_MSC_BOT_Process E p lun x = (USBH_FAIL, y)" "on_bus p q w0 t0 (Suc k) xs ?m1 y" by auto
  let ?m2 = "with_unit (unat lun) (lun_state_update (\<lambda>_. MSC_REQUEST_SENSE)) ?m1"
  have "USBH_MSC_RdWrProcess E p lun x = (USBH_BUSY, msc_event (set_lun q (unat lun) MSC_REQUEST_SENSE y))"
    using assms(4) a u i y(1)
    by (auto simp: USBH_MSC_RdWrProcess_def Let_def USBH_MSC_SCSI_Read_def USBH_MSC_SCSI_Write_def scsi_command_def
        with_event_def rw_result_def)
  moreover from on_bus_lun(1) [OF y(2), of "unat lun" MSC_REQUEST_SENSE] i(1)
  have "on_bus p q w0 t0 (Suc k) xs ?m2 (msc_event (set_lun q (unat lun) MSC_REQUEST_SENSE y))" by simp
  ultimately have "comes_to E p q lun t0 len w0 x (Suc (Suc k)) xs (io_done status reply q ?m2)"
    using rw_turn assms(6) by blast
  moreover have "io_done status reply q ?m2 = ?m2" by (rule io_done_idle) simp
  moreover have "command_refused (unat lun) m ?m2" using i(1) by (simp add: command_refused_def with_unit_def with_io_def)
  ultimately show ?thesis unfolding comes_by_def x(1) by metis
qed

text \<open>The request for the reason: fourteen bytes into the driver's own data.\<close>

lemma sense_starts:
  assumes "comes_to E p q lun t0 len w0 w k xs m" "command_refused (unat lun) m0 m" "unat lun < length (msc_unit m0)"
    and "Suc k \<le> unat (10000 * len)"
    and "m' = m\<lparr>hbot := (fill_cbw 14 0x80 (sense_block lun) (hbot m))\<lparr>bot_pbuf := BBot q 0\<rparr>\<rparr>"
  shows "comes_to E p q lun t0 len w0 w (Suc k) xs m' \<and> commanding (unat lun) m'"
proof -
  from assms(1) obtain x where x: "rw_loop E p q lun t0 len w = rw_loop E p q lun t0 len x" "on_bus p q w0 t0 k xs m x"
    unfolding comes_by_def by blast
  note a = on_bus_at [OF x(2)]
  have i: "unat lun < length (msc_unit m)" "lun_state (msc_unit m ! unat lun) = MSC_REQUEST_SENSE" "bot_cmd_state (hbot m) = BOT_CMD_SEND"
    using assms(2,3) by (simp_all add: command_refused_def)
  note u = unit_on_bus [OF x(2) i(1)]
  let ?g = "\<lambda>b. own_data q (fill_cbw 14 0x80 (sense_block lun) b)"
  have "on_bus p q w0 t0 k xs m' (msc_event (upd_bot q ?g x))"
    using on_bus_bot [OF x(2), of ?g] by (simp add: assms(5) own_data_def)
  moreover have "USBH_MSC_RdWrProcess E p lun x = (USBH_BUSY, msc_event (upd_bot q ?g x))"
    using a u i
    by (simp add: USBH_MSC_RdWrProcess_def Let_def USBH_MSC_SCSI_RequestSense_def scsi_command_def
        with_event_def sense_result_def sense_block_def)
  ultimately have "comes_to E p q lun t0 len w0 x (Suc k) xs (io_done status reply q m')"
    using rw_turn assms(4) by blast
  moreover have "io_done status reply q m' = m'" by (rule io_done_idle) (simp add: assms(5) fill_cbw_def)
  moreover have "commanding (unat lun) m'" using i by (simp add: assms(5) commanding_def fill_cbw_def)
  ultimately show ?thesis unfolding comes_by_def x(1) by metis
qed

lemma sense_ok:
  assumes "comes_to E p q lun t0 len w0 w k xs m" "commanding (unat lun) m" "bot_state (hbot m) = BOT_RECEIVE_CSW_WAIT"
    and "lun_state (msc_unit m ! unat lun) = MSC_REQUEST_SENSE" "status (cbw_CB (cbw (hbot m))) = 0"
    and "bot_pbuf (hbot m) = BBot q 0" "14 \<le> length (bot_data (hbot m))"
  shows "\<exists>v m'. rw_loop E p q lun t0 len w = Some (USBH_OK, v) \<and> on_bus p q w0 t0 (Suc k) xs m' v
    \<and> lun_state (msc_unit m' ! unat lun) = MSC_IDLE \<and> lun_error (msc_unit m' ! unat lun) = MSC_ERROR
    \<and> length (msc_unit m') = length (msc_unit m) \<and> msc_state m' = MSC_IDLE \<and> bot_cmd_state (hbot m') = BOT_CMD_SEND"
proof -
  from assms(1) obtain x where x: "rw_loop E p q lun t0 len w = rw_loop E p q lun t0 len x" "on_bus p q w0 t0 k xs m x"
    unfolding comes_by_def by blast
  note a = on_bus_at [OF x(2)]
  have i: "unat lun < length (msc_unit m)" "bot_cmd_state (hbot m) = BOT_CMD_WAIT" using assms(2) by (simp_all add: commanding_def)
  note u = unit_on_bus [OF x(2) i(1)]
  let ?m1 = "with_io (bot_data (hbot m)) (csw_bytes (cbw_Tag (cbw (hbot m))) (status (cbw_CB (cbw (hbot m)))))
         (m\<lparr>hbot := (hbot m)\<lparr>bot_state := BOT_SEND_CBW, bot_cmd_state := BOT_CMD_SEND\<rparr>\<rparr>)"
  from bot_command_over [OF x(2) assms(3)] assms(5) obtain y where
    y: "USBH_MSC_BOT_Process E p lun x = (USBH_OK, y)" "on_bus p q w0 t0 (Suc k) xs ?m1 y" by auto
  note b = on_bus_at [OF y(2)]
  have c: "chk_buf (BBot q 0) 13 y = y" using assms(7) b(1) by (simp add: chk_buf_def buf_mem_def)
  let ?f = "\<lambda>u. u\<lparr>lun_sense := read_sense q y\<rparr>"
  note 1 = on_bus_unit [OF y(2), of "unat lun" ?f]
  note 2 = on_bus_lun(1) [OF 1, of "unat lun" MSC_IDLE]
  note 3 = on_bus_lun(2) [OF 2, of "unat lun" MSC_ERROR]
  let ?v = "set_lun_error q (unat lun) MSC_ERROR (set_lun q (unat lun) MSC_IDLE (upd_unit q (unat lun) ?f y))"
  let ?m2 = "with_unit (unat lun) (lun_error_update (\<lambda>_. MSC_ERROR))
     (with_unit (unat lun) (lun_state_update (\<lambda>_. MSC_IDLE)) (with_unit (unat lun) ?f ?m1))"
  from 3 i(1) have o: "on_bus p q w0 t0 (Suc k) xs ?m2 (msc_event ?v)" by simp
  have "USBH_MSC_RdWrProcess E p lun x = (USBH_FAIL, msc_event ?v)"
    using assms(4,6) a u i y(1) b(1) c
    by (simp add: USBH_MSC_RdWrProcess_def Let_def USBH_MSC_SCSI_RequestSense_def scsi_command_def
        with_event_def sense_result_def)
  then have r: "rw_loop E p q lun t0 len x = Some (USBH_OK, upd_msc q (\<lambda>m. m\<lparr>msc_state := MSC_IDLE\<rparr>) (msc_event ?v))"
    by (subst rw_loop.simps) (simp add: Let_def)
  note f = on_bus_upd [OF o, of "\<lambda>m. m\<lparr>msc_state := MSC_IDLE\<rparr>"]
  from f x(1) r i(1) show ?thesis
    by (intro exI [of _ "upd_msc q (\<lambda>m. m\<lparr>msc_state := MSC_IDLE\<rparr>) (msc_event ?v)"] exI [of _ "?m2\<lparr>msc_state := MSC_IDLE\<rparr>"])
      simp
qed

end

end
