(* ===== verification/Usb_MSC_Start.thy ===== *)
theory Usb_MSC_Start
  imports Usb_MSC_Rw
begin

text \<open>
  The start-up of the storage class: the background process asks every unit for its name, whether it is
  ready and for its size. Each command is one of the rounds of \<open>command_rounds\<close>.
\<close>

section \<open>Rounds of the background process\<close>

text \<open>The host task runs the background process \<open>n\<close> times; the environment runs between.\<close>

primrec msc_rounds :: "nat \<Rightarrow> (usb \<Rightarrow> usb) \<Rightarrow> ptr \<Rightarrow> usb \<Rightarrow> usb" where
  "msc_rounds 0 E p w = w"
| "msc_rounds (Suc n) E p w = msc_rounds n E p (E (snd (USBH_MSC_Process E p w)))"

lemma msc_rounds_add: "msc_rounds (a + b) E p w = msc_rounds b E p (msc_rounds a E p w)"
  by (induction a arbitrary: w) simp_all

definition after_rounds :: "(usb \<Rightarrow> usb) \<Rightarrow> ptr \<Rightarrow> usb \<Rightarrow> usb \<Rightarrow> bool" where
  "after_rounds E p u v \<longleftrightarrow> (\<exists>n. msc_rounds n E p u = v)"

lemma after_refl: "after_rounds E p u u"
  unfolding after_rounds_def by (intro exI [of _ 0]) simp

lemma after_trans: "after_rounds E p u v \<Longrightarrow> after_rounds E p v w \<Longrightarrow> after_rounds E p u w"
  unfolding after_rounds_def by (metis msc_rounds_add)

lemma after_one: "after_rounds E p u (E (snd (USBH_MSC_Process E p u)))"
  unfolding after_rounds_def by (intro exI [of _ 1]) simp

text \<open>The driver is asking unit \<open>lun\<close>.\<close>

definition asking :: "u8 \<Rightarrow> MSC_HandleTypeDef \<Rightarrow> bool" where
  "asking lun m \<longleftrightarrow> msc_state m = MSC_INIT \<and> current_lun m = ucast lun \<and> unat lun < unat (max_lun m) \<and> unat lun < length (msc_unit m)"

definition startup_command :: "u8 \<Rightarrow> MSC_HandleTypeDef \<Rightarrow> bool" where
  "startup_command lun m \<longleftrightarrow> asking lun m \<and> bot_cmd_state (hbot m) = BOT_CMD_WAIT \<and> lun_error (msc_unit m ! unat lun) = MSC_NOT_READY
     \<and> lun_state (msc_unit m ! unat lun) \<in> {MSC_READ_INQUIRY, MSC_TEST_UNIT_READY, MSC_READ_CAPACITY10}"

lemma startup_rest: "startup_command lun m \<Longrightarrow> rest m' = rest m \<Longrightarrow> startup_command lun m'"
  by (simp add: startup_command_def asking_def restD [of m' m])

lemma asking_cur:
  assumes "on_bus p q w0 t0 k xs m w" "asking lun m"
  shows "cur q w = unat lun" "of_nat (cur q w) = lun" "ucast (current_lun m) < max_lun m"
  using assms on_bus_at(1) [OF assms(1)]
  by (simp_all add: cur_def asking_def unat_up word_less_nat_alt)

lemma asking_process:
  assumes "on_bus p q w0 t0 k xs m w" "asking lun m"
  shows "USBH_MSC_Process E p w = (USBH_BUSY, msc_event (lun_step E p q w))"
  using assms on_bus_at [OF assms(1)] asking_cur(3) [OF assms]
  by (simp add: USBH_MSC_Process_def Let_def asking_def)

lemma not_ready_again:
  assumes "on_bus p q w0 t0 k xs m w" "i < length (msc_unit m)" "lun_error (msc_unit m ! i) = MSC_NOT_READY"
  shows "set_lun_error q i MSC_NOT_READY w = w"
proof -
  have "(msc_unit m)[i := (msc_unit m ! i)\<lparr>lun_error := MSC_NOT_READY\<rparr>] = msc_unit m"
    using assms(3) by (metis MSC_LUNTypeDef.surjective MSC_LUNTypeDef.update_convs(2) list_update_id)
  then have "upd_msc q (\<lambda>m. m\<lparr>msc_unit := (msc_unit m)[i := (msc_unit m ! i)\<lparr>lun_error := MSC_NOT_READY\<rparr>]\<rparr>) w = w"
    using on_bus_at(5) [OF assms(1)] by (simp add: upd_msc_def fun_upd_idem)
  with unit_on_bus(2) [OF assms(1,2)] show ?thesis by (simp add: set_lun_error_def upd_unit_def)
qed

lemma step_busy:
  assumes "on_bus p q w0 t0 k xs m w" "startup_command lun m" "USBH_MSC_BOT_Process E p lun w = (USBH_BUSY, v)"
  shows "lun_step E p q w = v"
proof -
  have a: "asking lun m" "unat lun < length (msc_unit m)" "lun_error (msc_unit m ! unat lun) = MSC_NOT_READY" "bot_cmd_state (hbot m) = BOT_CMD_WAIT"
    using assms(2) by (simp_all add: startup_command_def asking_def)
  note c = asking_cur [OF assms(1) a(1)] not_ready_again [OF assms(1) a(2,3)] unit_on_bus [OF assms(1) a(2)] on_bus_at [OF assms(1)]
  show ?thesis using assms(2,3) c a(4) unfolding startup_command_def
    by (auto simp: lun_step_def Let_def lun_inquiry_step_def lun_ready_step_def lun_capacity_step_def USBH_MSC_SCSI_Inquiry_def
        USBH_MSC_SCSI_TestUnitReady_def USBH_MSC_SCSI_ReadCapacity_def scsi_command_def)
qed

context storage_bus
begin

lemma startup_rounds: "command_rounds E p q status reply (after_rounds E p) (startup_command lun) lun t0 w0 limit"
proof (unfold_locales, goal_cases)
  case (3 k xs m w v k' xs' m')
  have "asking lun m" using 3(2) by (simp add: startup_command_def)
  from asking_process [OF 3(1) this, of E] step_busy [OF 3(1-3)] after_one [of E p w] show ?case by simp
qed (auto intro: after_refl after_trans startup_rest)

end

section \<open>The commands of the start-up\<close>

text \<open>The command block each state of a unit fills in, with the length of the answer.\<close>

definition startup_block :: "MSC_StateTypeDef \<Rightarrow> u8 \<Rightarrow> u8 list \<Rightarrow> u8 list" where
  "startup_block st lun cb =
    (if st = MSC_READ_INQUIRY then [OPCODE_INQUIRY, push_bit 5 lun, 0, 0, 0x24, 0, 0, 0, 0, 0] @ drop 10 cb
     else if st = MSC_TEST_UNIT_READY then (replicate 16 0)[0 := OPCODE_TEST_UNIT_READY]
     else (replicate 16 0)[0 := OPCODE_READ_CAPACITY10])"

definition startup_bytes :: "MSC_StateTypeDef \<Rightarrow> nat" where
  "startup_bytes st = (if st = MSC_READ_INQUIRY then 36 else if st = MSC_TEST_UNIT_READY then 0 else 8)"

definition startup_fill :: "MSC_StateTypeDef \<Rightarrow> u8 \<Rightarrow> ptr \<Rightarrow> BOT_HandleTypeDef \<Rightarrow> BOT_HandleTypeDef" where
  "startup_fill st lun q b =
    (if st = MSC_READ_INQUIRY then own_data q (fill_cbw 36 0x80 (startup_block st lun (cbw_CB (cbw b))) b)
     else if st = MSC_TEST_UNIT_READY then fill_cbw 0 0 (startup_block st lun (cbw_CB (cbw b))) b
     else own_data q (fill_cbw 8 0x80 (startup_block st lun (cbw_CB (cbw b))) b))"

lemma startup_fill_sel:
  assumes "st \<in> {MSC_READ_INQUIRY, MSC_TEST_UNIT_READY, MSC_READ_CAPACITY10}" "b' = startup_fill st lun q b"
  shows "bot_state b' = BOT_SEND_CBW" "bot_cmd_state b' = BOT_CMD_WAIT" "bot_data b' = bot_data b" "csw b' = csw b"
    "cbw_CB (cbw b') = startup_block st lun (cbw_CB (cbw b))" "unat (cbw_DataTransferLength (cbw b')) = startup_bytes st"
    "0 < startup_bytes st \<Longrightarrow> cbw_Flags (cbw b') AND 0x80 = 0x80 \<and> bot_pbuf b' = BBot q 0"
  using assms by (auto simp: startup_fill_def fill_cbw_def own_data_def startup_bytes_def)

text \<open>The handle when the command of a state is filled in; \<open>t\<close> is the time a new unit was first asked.\<close>

definition asked_handle :: "MSC_StateTypeDef \<Rightarrow> u8 \<Rightarrow> ptr \<Rightarrow> u32 \<Rightarrow> MSC_HandleTypeDef \<Rightarrow> MSC_HandleTypeDef" where
  "asked_handle st lun q t m =
    (with_unit (unat lun) (\<lambda>u. u\<lparr>lun_error := MSC_NOT_READY, lun_state := st\<rparr>) m)\<lparr>msc_timer := t, hbot := startup_fill st lun q (hbot m)\<rparr>"

lemma step_starts:
  assumes "on_bus p q w0 t0 k xs m w" "asking lun m" "bot_cmd_state (hbot m) = BOT_CMD_SEND"
    and "st = (if lun_state (msc_unit m ! unat lun) = MSC_INIT then MSC_READ_INQUIRY else lun_state (msc_unit m ! unat lun))"
    and "st \<in> {MSC_READ_INQUIRY, MSC_TEST_UNIT_READY, MSC_READ_CAPACITY10}"
  shows "\<exists>t. on_bus p q w0 t0 k xs (asked_handle st lun q t m) (lun_step E p q w)"
proof -
  let ?i = "unat lun" and ?f = "startup_fill st lun q"
  have i: "?i < length (msc_unit m)" using assms(2) by (simp add: asking_def)
  let ?m = "with_unit ?i (\<lambda>u. u\<lparr>lun_error := MSC_NOT_READY\<rparr>) m" and ?w = "set_lun_error q ?i MSC_NOT_READY w"
  from on_bus_lun(2) [OF assms(1) i, of MSC_NOT_READY] have e: "on_bus p q w0 t0 k xs ?m ?w" by simp
  have a: "asking lun ?m" "?i < length (msc_unit ?m)" using assms(2) i by (simp_all add: asking_def with_unit_def)
  note c = asking_cur [OF assms(1,2)] asking_cur [OF e a(1)] unit_on_bus [OF e a(2)] on_bus_at [OF e]
  have s: "lun_state (msc_unit ?m ! ?i) = lun_state (msc_unit m ! ?i)" "bot_cmd_state (hbot ?m) = BOT_CMD_SEND" using i assms(3) by simp_all
  show ?thesis
  proof (cases "lun_state (msc_unit m ! ?i) = MSC_INIT")
    case True
    let ?m2 = "(with_unit ?i (lun_state_update (\<lambda>_. MSC_READ_INQUIRY)) ?m)\<lparr>msc_timer := Timer (hosts (set_lun q ?i MSC_READ_INQUIRY ?w) p)\<rparr>"
    let ?w2 = "upd_msc q (\<lambda>m. m\<lparr>msc_timer := Timer (hosts (set_lun q ?i MSC_READ_INQUIRY ?w) p)\<rparr>) (set_lun q ?i MSC_READ_INQUIRY ?w)"
    have e2: "on_bus p q w0 t0 k xs ?m2 ?w2" by (rule on_bus_upd [OF on_bus_lun(1) [OF e a(2)]]) simp_all
    have a2: "asking lun ?m2" using a by (simp add: asking_def with_unit_def)
    note c2 = asking_cur [OF e2 a2] on_bus_at [OF e2]
    have "lun_step E p q w = upd_bot q ?f ?w2"
      using assms(4) True s c c2 unfolding lun_step_def Let_def startup_fill_def startup_block_def
      by (simp add: lun_inquiry_step_def USBH_MSC_SCSI_Inquiry_def scsi_command_def Let_def)
    with on_bus_bot [OF e2, of ?f] i assms(4) True show ?thesis
      by (intro exI [of _ "msc_timer ?m2"]) (simp add: asked_handle_def with_unit_def)
  next
    case False
    have "lun_step E p q w = upd_bot q ?f ?w"
      using assms(4,5) False s c unfolding lun_step_def Let_def startup_fill_def startup_block_def
      by (auto simp: lun_inquiry_step_def lun_ready_step_def lun_capacity_step_def USBH_MSC_SCSI_Inquiry_def
          USBH_MSC_SCSI_TestUnitReady_def USBH_MSC_SCSI_ReadCapacity_def scsi_command_def Let_def fun_eq_iff)
    moreover have "(msc_unit m ! ?i)\<lparr>lun_error := MSC_NOT_READY, lun_state := st\<rparr> = (msc_unit m ! ?i)\<lparr>lun_error := MSC_NOT_READY\<rparr>"
      using assms(4) False by (cases "msc_unit m ! ?i") simp
    ultimately show ?thesis using on_bus_bot [OF e, of ?f]
      by (intro exI [of _ "msc_timer m"]) (simp add: asked_handle_def with_unit_def)
  qed
qed

text \<open>The transfers of a command that brings \<open>n\<close> bytes into the driver's own data, in one packet or none.\<close>

definition scsi_transfers :: "ptr \<Rightarrow> MSC_HandleTypeDef \<Rightarrow> nat \<Rightarrow> hal_call list \<Rightarrow> bool" where
  "scsi_transfers q m n xs \<longleftrightarrow> (\<exists>c x d. bulk_out (msc_OutPipe m) (BCbw q) 31 c \<and> bulk_in (msc_InPipe m) (BCsw q) 13 d
     \<and> (if n = 0 then xs = [c, d] else bulk_in (msc_InPipe m) (BBot q 0) (unat (msc_InEpSize m)) x \<and> xs = [c, x, d]))"

lemma comes_by_mono: "comes_by R p q t0 w0 w k xs m \<Longrightarrow> k \<le> k' \<Longrightarrow> comes_by R p q t0 w0 w k' xs m"
  unfolding comes_by_def by (blast intro: on_bus_mono)

context command_rounds
begin

lemma small_command:
  assumes "comes_by R p q t0 w0 w k xs m" "C m" "bot_state (hbot m) = BOT_SEND_CBW"
    and "n = unat (cbw_DataTransferLength (cbw (hbot m)))" "n \<le> unat (msc_InEpSize m)" "0 < unat (msc_InEpSize m)"
    and "0 < n \<Longrightarrow> cbw_Flags (cbw (hbot m)) AND 0x80 = 0x80 \<and> bot_pbuf (hbot m) = BBot q 0" "k + 7 \<le> limit"
  shows "\<exists>ys m'. scsi_transfers q m n ys \<and> comes_by R p q t0 w0 w (k + 7) (xs @ ys) m'
    \<and> bot_state (hbot m') = BOT_RECEIVE_CSW_WAIT \<and> rest m' = rest m \<and> bot_pbuf (hbot m') = bot_pbuf (hbot m)
    \<and> bot_data (hbot m') = (if n = 0 then bot_data (hbot m) else data_after True q reply m)"
proof (cases "n = 0")
  case True
  then have "cbw_DataTransferLength (cbw (hbot m)) = 0" using assms(4) by (simp add: word_unat_eq_iff)
  with cbw_turns [OF assms(1-3) _ refl] assms(8) obtain c m1 where
    1: "bulk_out (msc_OutPipe m) (BCbw q) 31 c" "comes_by R p q t0 w0 w (k + 3) (xs @ [c]) m1" "bot_state (hbot m1) = BOT_RECEIVE_CSW"
    "rest m1 = rest m" "bot_pbuf (hbot m1) = bot_pbuf (hbot m)" "bot_data (hbot m1) = bot_data (hbot m)" by auto
  from csw_turn [OF 1(2) under_way [OF assms(2) 1(4)] 1(3)] assms(8) obtain d m2 where
    2: "bulk_in (msc_InPipe m1) (BCsw q) 13 d" "comes_by R p q t0 w0 w (Suc (k + 3)) ((xs @ [c]) @ [d]) m2"
    "bot_state (hbot m2) = BOT_RECEIVE_CSW_WAIT" "rest m2 = rest m1" "bot_pbuf (hbot m2) = bot_pbuf (hbot m1)"
    "bot_data (hbot m2) = bot_data (hbot m1)" by auto
  have "scsi_transfers q m n [c, d]" unfolding scsi_transfers_def using True 1(1) 2(1) restD(3) [OF 1(4)] by auto
  moreover have "comes_by R p q t0 w0 w (k + 7) (xs @ [c, d]) m2" using comes_by_mono [OF 2(2), of "k + 7"] by simp
  ultimately show ?thesis using 1 2 True by (intro exI [of _ "[c, d]"] exI [of _ m2]) simp
next
  case False
  let ?mps = "unat (packet_bytes True m)"
  have mps: "?mps = unat (msc_InEpSize m)" by (simp add: packet_bytes_def)
  have parts: "split_parts ?mps 0 n = [(0, n)]" using assms(5) mps by (simp add: split_parts_last)
  have "0 < n" "True = (cbw_Flags (cbw (hbot m)) AND 0x80 = 0x80)" "0 < ?mps" "k + 2 * length (split_parts ?mps 0 n) + 5 \<le> limit"
    using False assms(6-8) mps parts by simp_all
  from command_with_data [OF assms(1-4) this(1,2) refl this(3,4)] obtain c ys d m' where
    1: "bulk_out (msc_OutPipe m) (BCbw q) 31 c" "list_all2 (\<lambda>(a, l). bulk_data True m (buf_add (bot_pbuf (hbot m)) a) ?mps) (split_parts ?mps 0 n) ys"
    "bulk_in (msc_InPipe m) (BCsw q) 13 d" "comes_by R p q t0 w0 w (k + 2 * length (split_parts ?mps 0 n) + 5) (xs @ [c] @ ys @ [d]) m'"
    "bot_state (hbot m') = BOT_RECEIVE_CSW_WAIT" "rest m' = rest m"
    "n \<le> ?mps \<longrightarrow> bot_pbuf (hbot m') = bot_pbuf (hbot m) \<and> bot_data (hbot m') = data_after True q reply m" by blast
  from 1(2) obtain x where x: "ys = [x]" "bulk_in (msc_InPipe m) (BBot q 0) (unat (msc_InEpSize m)) x"
    unfolding parts using False assms(7) by (auto simp: list_all2_Cons1 bulk_data_def packet_bytes_def)
  have "scsi_transfers q m n [c, x, d]" unfolding scsi_transfers_def using False 1(1,3) x(2) by auto
  moreover have "comes_by R p q t0 w0 w (k + 7) (xs @ [c, x, d]) m'" using 1(4) unfolding parts x(1) by (simp add: add.commute)
  ultimately show ?thesis using 1(5-7) False assms(5) mps by (intro exI [of _ "[c, x, d]"] exI [of _ m']) simp
qed

end

section \<open>What a unit is found to be\<close>

text \<open>The answers as the driver decodes them, from bytes.\<close>

definition capacity_of :: "u8 list \<Rightarrow> SCSI_CapacityTypeDef" where
  "capacity_of bs = \<lparr>block_nbr = BE32 bs 0, block_size = BE16 bs 6\<rparr>"

definition inquiry_of :: "u8 list \<Rightarrow> SCSI_StdInquiryDataTypeDef" where
  "inquiry_of bs = \<lparr>PeripheralQualifier = drop_bit 5 (rd8 bs 0), DeviceType = rd8 bs 0 AND 0x1F,
     RemovableMedia = (if rd8 bs 1 AND 0x80 = 0x80 then 1 else 0),
     vendor_id = take 8 (drop 8 bs) @ [0], product_id = take 16 (drop 16 bs) @ [0], revision_id = take 4 (drop 32 bs) @ [0]\<rparr>"

lemma rd8_overwrite: "i < length xs \<Longrightarrow> length xs \<le> length ys \<Longrightarrow> rd8 (overwrite xs ys) i = rd8 xs i"
  by (simp add: rd8_def overwrite_def nth_append)

lemma map_rd8: "j \<le> length bs \<Longrightarrow> map (rd8 bs) [i..<j] = take (j - i) (drop i bs)"
  by (intro nth_equalityI) (auto simp: rd8_def)

lemma decoded:
  assumes "bot_pbuf (bot_at q w) = BBot q 0" "bot_data (bot_at q w) = overwrite bs ds" "length ds = 64"
  shows "length bs = 8 \<Longrightarrow> read_capacity q w = capacity_of bs" "length bs = 36 \<Longrightarrow> read_inquiry q w = inquiry_of bs"
    "k < 64 \<Longrightarrow> chk_buf (bot_pbuf (bot_at q w)) k w = w"
proof -
  have b: "buf_byte w (bot_pbuf (bot_at q w)) i = rd8 (overwrite bs ds) i" for i
    by (simp add: buf_byte_def buf_mem_def assms(1,2))
  show "length bs = 8 \<Longrightarrow> read_capacity q w = capacity_of bs"
    using BE_or(1) [of bs 0] BE_or(2) [of bs 6] assms(3) by (simp add: read_capacity_def Let_def b rd8_overwrite capacity_of_def numeral_2_eq_2)
  show "k < 64 \<Longrightarrow> chk_buf (bot_pbuf (bot_at q w)) k w = w" using assms by (simp add: chk_buf_def buf_mem_def)
  assume l: "length bs = 36"
  have f: "buf_byte w (bot_pbuf (bot_at q w)) = rd8 (overwrite bs ds)" by (rule ext) (rule b)
  have "map (rd8 (overwrite bs ds)) [i..<j] = map (rd8 bs) [i..<j]" if "j \<le> 36" for i j
    using that l assms(3) by (auto simp: rd8_overwrite)
  then have m: "map (rd8 (overwrite bs ds)) [i..<j] = take (j - i) (drop i bs)" if "j \<le> 36" for i j
    using that l by (simp add: map_rd8)
  have "rd8 (overwrite bs ds) 0 = rd8 bs 0" "rd8 (overwrite bs ds) 1 = rd8 bs 1" using l assms(3) by (simp_all add: rd8_overwrite)
  moreover have "16 - 8 = (8 :: nat)" "32 - 16 = (16 :: nat)" "36 - 32 = (4 :: nat)" by simp_all
  ultimately show "read_inquiry q w = inquiry_of bs"
    unfolding read_inquiry_def Let_def f inquiry_of_def by (simp only: m order.refl one_le_numeral le_numeral_extra numeral_le_iff semiring_norm)
qed

text \<open>What the end of a command makes of the unit, \<open>bs\<close> being the answer.\<close>

definition found :: "MSC_StateTypeDef \<Rightarrow> u8 list \<Rightarrow> MSC_LUNTypeDef \<Rightarrow> MSC_LUNTypeDef" where
  "found st bs u =
    (if st = MSC_READ_INQUIRY then u\<lparr>lun_inquiry := inquiry_of bs, lun_state := MSC_TEST_UNIT_READY\<rparr>
     else if st = MSC_TEST_UNIT_READY then
       u\<lparr>state_changed := (if prev_ready_state u \<noteq> USBH_OK then 1 else 0), lun_state := MSC_READ_CAPACITY10,
         lun_error := MSC_OK, prev_ready_state := USBH_OK\<rparr>
     else u\<lparr>lun_capacity := capacity_of bs, lun_state := MSC_IDLE, lun_error := MSC_OK\<rparr>)"

lemma found_eqs:
  "found MSC_READ_INQUIRY bs = (\<lambda>u. u\<lparr>lun_inquiry := inquiry_of bs, lun_state := MSC_TEST_UNIT_READY\<rparr>)"
  "found MSC_TEST_UNIT_READY bs = (\<lambda>u. u\<lparr>state_changed := (if prev_ready_state u \<noteq> USBH_OK then 1 else 0),
     lun_state := MSC_READ_CAPACITY10, lun_error := MSC_OK, prev_ready_state := USBH_OK\<rparr>)"
  "found MSC_READ_CAPACITY10 bs = (\<lambda>u. u\<lparr>lun_capacity := capacity_of bs, lun_state := MSC_IDLE, lun_error := MSC_OK\<rparr>)"
  by (simp_all add: found_def fun_eq_iff)

definition next_unit :: "MSC_StateTypeDef \<Rightarrow> MSC_HandleTypeDef \<Rightarrow> MSC_HandleTypeDef" where
  "next_unit st m = (if st = MSC_READ_CAPACITY10 then m\<lparr>current_lun := current_lun m + 1\<rparr> else m)"

lemma unit_twice:
  "i < length (msc_unit m) \<Longrightarrow> with_unit i f (with_unit i g m) = with_unit i (\<lambda>u. f (g u)) m"
  by (simp add: with_unit_def)

context storage_bus
begin

lemma asked:
  assumes "comes_by (after_rounds E p) p q t0 w0 w k xs m" "asking lun m" "bot_cmd_state (hbot m) = BOT_CMD_SEND"
    and "st = (if lun_state (msc_unit m ! unat lun) = MSC_INIT then MSC_READ_INQUIRY else lun_state (msc_unit m ! unat lun))"
    and "st \<in> {MSC_READ_INQUIRY, MSC_TEST_UNIT_READY, MSC_READ_CAPACITY10}"
    and "36 \<le> unat (msc_InEpSize m)" "cb = startup_block st lun (cbw_CB (cbw (hbot m)))"
  shows "\<exists>t ys h. scsi_transfers q m (startup_bytes st) ys \<and> comes_by (after_rounds E p) p q t0 w0 w (k + 8) (xs @ ys) h
    \<and> startup_command lun h \<and> bot_state (hbot h) = BOT_RECEIVE_CSW_WAIT \<and> rest h = rest (asked_handle st lun q t m)
    \<and> bot_pbuf (hbot h) = bot_pbuf (startup_fill st lun q (hbot m)) \<and> cbw_CB (cbw (hbot h)) = cb
    \<and> bot_data (hbot h) = (if startup_bytes st = 0 then bot_data (hbot m) else overwrite (reply cb) (bot_data (hbot m)))"
proof -
  from assms(1) obtain x where x: "after_rounds E p w x" "on_bus p q w0 t0 k xs m x" unfolding comes_by_def by blast
  have i: "unat lun < length (msc_unit m)" using assms(2) by (simp add: asking_def)
  from step_starts [OF x(2) assms(2-5)] obtain t where
    "on_bus p q w0 t0 k xs (asked_handle st lun q t m) (lun_step E p q x)" by blast
  then have e: "on_bus p q w0 t0 k xs (asked_handle st lun q t m) (msc_event (lun_step E p q x))" by simp
  let ?m = "asked_handle st lun q t m"
  note f = startup_fill_sel [OF assms(5) refl, of lun q "hbot m"]
  have h: "hbot ?m = startup_fill st lun q (hbot m)" "msc_InEpSize ?m = msc_InEpSize m" "msc_InPipe ?m = msc_InPipe m" "msc_OutPipe ?m = msc_OutPipe m"
    by (simp_all add: asked_handle_def)
  have s: "bot_state (hbot ?m) = BOT_SEND_CBW" using f(1) by (simp add: h)
  from bus_look [OF e] io_done_idle [OF s] after_one [of E p x] asking_process [OF x(2) assms(2), of E]
  have c: "comes_by (after_rounds E p) p q t0 w0 w (Suc k) xs ?m"
    using after_trans [OF x(1)] unfolding comes_by_def by fastforce
  have C: "startup_command lun ?m" using assms(2,5) i f(2)
    by (auto simp: startup_command_def asking_def asked_handle_def with_unit_def)
  have n: "startup_bytes st = unat (cbw_DataTransferLength (cbw (hbot ?m)))" "startup_bytes st \<le> unat (msc_InEpSize ?m)" "0 < unat (msc_InEpSize ?m)"
    "0 < startup_bytes st \<Longrightarrow> cbw_Flags (cbw (hbot ?m)) AND 0x80 = 0x80 \<and> bot_pbuf (hbot ?m) = BBot q 0"
    using f(6,7) assms(6) by (auto simp: h startup_bytes_def)
  from command_rounds.small_command [OF startup_rounds [where limit = "Suc k + 7"] c C s n order.refl] obtain ys h' where
    1: "scsi_transfers q ?m (startup_bytes st) ys" "comes_by (after_rounds E p) p q t0 w0 w (Suc k + 7) (xs @ ys) h'"
    "bot_state (hbot h') = BOT_RECEIVE_CSW_WAIT" "rest h' = rest ?m" "bot_pbuf (hbot h') = bot_pbuf (hbot ?m)"
    "bot_data (hbot h') = (if startup_bytes st = 0 then bot_data (hbot ?m) else data_after True q reply ?m)" by blast
  have cb: "cbw_CB (cbw (hbot ?m)) = cb" "bot_data (hbot ?m) = bot_data (hbot m)" using f(3,5) by (simp_all add: h assms(7))
  have "bot_data (hbot h') = (if startup_bytes st = 0 then bot_data (hbot m) else overwrite (reply cb) (bot_data (hbot m)))"
    using 1(6) n(4) cb by (auto simp: data_after_def)
  moreover have "scsi_transfers q m (startup_bytes st) ys" using 1(1) unfolding scsi_transfers_def h by blast
  moreover have "cbw_CB (cbw (hbot h')) = cb" using restD(8) [OF 1(4)] cb(1) by simp
  moreover have "comes_by (after_rounds E p) p q t0 w0 w (k + 8) (xs @ ys) h'" using 1(2) by (simp add: eval_nat_numeral)
  moreover have "bot_pbuf (hbot h') = bot_pbuf (startup_fill st lun q (hbot m))" using 1(5) by (simp add: h)
  ultimately show ?thesis using 1(3,4) startup_rest [OF C 1(4)] by blast
qed

lemma answered:
  assumes "comes_by (after_rounds E p) p q t0 w0 w k xs m" "startup_command lun m" "bot_state (hbot m) = BOT_RECEIVE_CSW_WAIT"
    and "st = lun_state (msc_unit m ! unat lun)" "status (cbw_CB (cbw (hbot m))) = 0"
    and "0 < startup_bytes st \<Longrightarrow> bot_pbuf (hbot m) = BBot q 0 \<and> bot_data (hbot m) = overwrite bs ds \<and> length ds = 64 \<and> length bs = startup_bytes st"
    and "m1 = with_io (bot_data (hbot m)) (csw_bytes (cbw_Tag (cbw (hbot m))) 0)
         (m\<lparr>hbot := (hbot m)\<lparr>bot_state := BOT_SEND_CBW, bot_cmd_state := BOT_CMD_SEND\<rparr>\<rparr>)"
  shows "comes_by (after_rounds E p) p q t0 w0 w (Suc (Suc k)) xs (next_unit st (with_unit (unat lun) (found st bs) m1))"
proof -
  let ?i = "unat lun"
  from assms(1) obtain x where x: "after_rounds E p w x" "on_bus p q w0 t0 k xs m x" unfolding comes_by_def by blast
  have a: "asking lun m" "lun_error (msc_unit m ! ?i) = MSC_NOT_READY" "bot_cmd_state (hbot m) = BOT_CMD_WAIT"
    "st \<in> {MSC_READ_INQUIRY, MSC_TEST_UNIT_READY, MSC_READ_CAPACITY10}" "?i < length (msc_unit m)"
    using assms(2,4) by (simp_all add: startup_command_def asking_def)
  from bot_command_over [OF x(2) assms(3), of lun] assms(5) obtain v where
    v: "USBH_MSC_BOT_Process E p lun x = (USBH_OK, v)" "on_bus p q w0 t0 (Suc k) xs m1 v" by (auto simp: assms(7))
  have i1: "?i < length (msc_unit m1)" "asking lun m1" using a(1,5) by (simp_all add: assms(7) with_io_def asking_def)
  note cx = asking_cur [OF x(2) a(1)] not_ready_again [OF x(2) a(5,2)] unit_on_bus [OF x(2) a(5)] on_bus_at [OF x(2)]
  note at = on_bus_at(1) [OF v(2)]
  have d: "bot_pbuf (bot_at q v) = bot_pbuf (hbot m)" "bot_data (bot_at q v) = bot_data (hbot m)" by (simp_all add: at assms(7))
  have u: "on_bus p q w0 t0 (Suc k) xs (with_unit ?i f m1) (upd_unit q ?i f v)" for f by (rule on_bus_unit [OF v(2) i1(1)])
  have cur: "cur q (upd_unit q ?i f v) = ?i" "cur q (set_lun q ?i s (upd_unit q ?i f v)) = ?i" for f s
  proof -
    have "asking lun (with_unit ?i f m1)" using i1 by (simp add: asking_def with_unit_def)
    from asking_cur(1) [OF u this] show "cur q (upd_unit q ?i f v) = ?i" .
    have "asking lun (with_unit ?i (lun_state_update (\<lambda>_. s)) (with_unit ?i f m1))" using i1 by (simp add: asking_def with_unit_def)
    from asking_cur(1) [OF on_bus_lun(1) [OF u] this] i1(1) show "cur q (set_lun q ?i s (upd_unit q ?i f v)) = ?i" by simp
  qed
  have "on_bus p q w0 t0 (Suc k) xs (next_unit st (with_unit ?i (found st bs) m1)) (lun_step E p q x)"
  proof (cases "st = MSC_READ_INQUIRY")
    case True
    then have t: "bot_pbuf (hbot m) = BBot q 0" "bot_data (hbot m) = overwrite bs ds" "length ds = 64" "length bs = 36"
      using assms(6) by (simp_all add: startup_bytes_def)
    note r = decoded [of q v bs ds, unfolded d, OF t(1,2,3)]
    have "lun_step E p q x = set_lun q ?i MSC_TEST_UNIT_READY (upd_unit q ?i (\<lambda>u. u\<lparr>lun_inquiry := inquiry_of bs\<rparr>) v)"
      using True assms(4) a(3) cx v(1) r(2) [OF t(4)] r(3) [of 35] cur(1) d
      by (simp add: lun_step_def Let_def lun_inquiry_step_def USBH_MSC_SCSI_Inquiry_def scsi_command_def)
    with on_bus_lun(1) [OF u [of "\<lambda>u. u\<lparr>lun_inquiry := inquiry_of bs\<rparr>"], of ?i MSC_TEST_UNIT_READY] i1(1) True show ?thesis
      by (simp add: unit_twice found_eqs next_unit_def)
  next
    case False
    show ?thesis
    proof (cases "st = MSC_TEST_UNIT_READY")
      case True
      have "lun_step E p q x = upd_unit q ?i (found st bs) v"
        using True assms(4) a(3) cx v asking_cur(1) [OF v(2) i1(2)]
        by (simp add: lun_step_def Let_def lun_ready_step_def USBH_MSC_SCSI_TestUnitReady_def scsi_command_def found_eqs)
      with u [of "found st bs"] True show ?thesis by (simp add: next_unit_def)
    next
      case not: False
      with False a(4) have c: "st = MSC_READ_CAPACITY10" by simp
      then have t: "bot_pbuf (hbot m) = BBot q 0" "bot_data (hbot m) = overwrite bs ds" "length ds = 64" "length bs = 8"
        using assms(6) by (simp_all add: startup_bytes_def)
      note r = decoded [of q v bs ds, unfolded d, OF t(1,2,3)]
      let ?f = "\<lambda>u. u\<lparr>lun_capacity := capacity_of bs\<rparr>"
      note s1 = on_bus_lun(1) [OF u [of ?f], of ?i MSC_IDLE]
      note s2 = on_bus_lun(2) [OF s1, of ?i MSC_OK]
      note s3 = on_bus_upd [OF s2, of "\<lambda>m. m\<lparr>current_lun := current_lun m + 1\<rparr>"]
      have "lun_step E p q x = next_lun q (set_lun_error q ?i MSC_OK (set_lun q ?i MSC_IDLE (upd_unit q ?i ?f v)))"
        using c assms(4) a(3) cx v(1) r(1) [OF t(4)] r(3) [of 7] cur d
        by (simp add: lun_step_def Let_def lun_capacity_step_def USBH_MSC_SCSI_ReadCapacity_def scsi_command_def)
      with s3 i1(1) c show ?thesis
        by (simp add: unit_twice found_eqs next_unit_def next_lun_def)
    qed
  qed
  then have e: "on_bus p q w0 t0 (Suc k) xs (next_unit st (with_unit ?i (found st bs) m1)) (msc_event (lun_step E p q x))" by simp
  have "bot_state (hbot (next_unit st (with_unit ?i (found st bs) m1))) = BOT_SEND_CBW" by (simp add: next_unit_def assms(7))
  from bus_look [OF e] io_done_idle [OF this] after_one [of E p x] asking_process [OF x(2) a(1), of E] show ?thesis
    using after_trans [OF x(1)] unfolding comes_by_def by fastforce
qed

end

text \<open>One command of the start-up, from the handle \<open>m\<close> to the handle \<open>m'\<close>; \<open>bs\<close> is the answer.\<close>

definition told :: "MSC_StateTypeDef \<Rightarrow> u8 \<Rightarrow> u8 list \<Rightarrow> u8 list \<Rightarrow> MSC_HandleTypeDef \<Rightarrow> MSC_HandleTypeDef \<Rightarrow> bool" where
  "told st lun cb bs m m' \<longleftrightarrow>
     msc_unit m' = (msc_unit m)[unat lun := found st bs ((msc_unit m ! unat lun)\<lparr>lun_error := MSC_NOT_READY, lun_state := st\<rparr>)]
     \<and> current_lun m' = (if st = MSC_READ_CAPACITY10 then current_lun m + 1 else current_lun m)
     \<and> max_lun m' = max_lun m \<and> msc_state m' = msc_state m \<and> msc_InPipe m' = msc_InPipe m \<and> msc_OutPipe m' = msc_OutPipe m
     \<and> msc_InEpSize m' = msc_InEpSize m \<and> bot_cmd_state (hbot m') = BOT_CMD_SEND
     \<and> length (bot_data (hbot m')) = length (bot_data (hbot m)) \<and> cbw_CB (cbw (hbot m')) = cb"

context storage_bus
begin

lemma unit_command:
  assumes "comes_by (after_rounds E p) p q t0 w0 w k xs m" "asking lun m" "bot_cmd_state (hbot m) = BOT_CMD_SEND"
    and "st = (if lun_state (msc_unit m ! unat lun) = MSC_INIT then MSC_READ_INQUIRY else lun_state (msc_unit m ! unat lun))"
    and "st \<in> {MSC_READ_INQUIRY, MSC_TEST_UNIT_READY, MSC_READ_CAPACITY10}"
    and "36 \<le> unat (msc_InEpSize m)" "cb = startup_block st lun (cbw_CB (cbw (hbot m)))" "status cb = 0"
    and "0 < startup_bytes st \<Longrightarrow> length (reply cb) = startup_bytes st" "length (bot_data (hbot m)) = 64"
  shows "\<exists>ys m'. scsi_transfers q m (startup_bytes st) ys \<and> comes_by (after_rounds E p) p q t0 w0 w (k + 10) (xs @ ys) m'
    \<and> told st lun cb (reply cb) m m'"
proof -
  from asked [OF assms(1-7)] obtain t ys h where
    1: "scsi_transfers q m (startup_bytes st) ys" "comes_by (after_rounds E p) p q t0 w0 w (k + 8) (xs @ ys) h"
    "startup_command lun h" "bot_state (hbot h) = BOT_RECEIVE_CSW_WAIT" "rest h = rest (asked_handle st lun q t m)"
    "bot_pbuf (hbot h) = bot_pbuf (startup_fill st lun q (hbot m))" "cbw_CB (cbw (hbot h)) = cb"
    "bot_data (hbot h) = (if startup_bytes st = 0 then bot_data (hbot m) else overwrite (reply cb) (bot_data (hbot m)))" by blast
  have i: "unat lun < length (msc_unit m)" using assms(2) by (simp add: asking_def)
  note r = restD [OF 1(5)]
  have u: "msc_unit h = (msc_unit m)[unat lun := (msc_unit m ! unat lun)\<lparr>lun_error := MSC_NOT_READY, lun_state := st\<rparr>]"
    unfolding r(1) by (simp add: asked_handle_def with_unit_def)
  have st: "st = lun_state (msc_unit h ! unat lun)" "status (cbw_CB (cbw (hbot h))) = 0" using i assms(8) by (simp_all add: u 1(7))
  have b: "bot_pbuf (hbot h) = BBot q 0 \<and> bot_data (hbot h) = overwrite (reply cb) (bot_data (hbot m))
      \<and> length (bot_data (hbot m)) = 64 \<and> length (reply cb) = startup_bytes st" if "0 < startup_bytes st"
    using that startup_fill_sel(7) [OF assms(5) refl, of lun q "hbot m"] assms(9,10) by (simp add: 1(6,8))
  let ?m1 = "with_io (bot_data (hbot h)) (csw_bytes (cbw_Tag (cbw (hbot h))) 0)
         (h\<lparr>hbot := (hbot h)\<lparr>bot_state := BOT_SEND_CBW, bot_cmd_state := BOT_CMD_SEND\<rparr>\<rparr>)"
  let ?m' = "next_unit st (with_unit (unat lun) (found st (reply cb)) ?m1)"
  from answered [OF 1(2-4) st b refl] have "comes_by (after_rounds E p) p q t0 w0 w (k + 10) (xs @ ys) ?m'"
    by (simp add: eval_nat_numeral)
  moreover have "told st lun cb (reply cb) m ?m'"
    using i r unfolding told_def next_unit_def
    by (simp add: u with_unit_def asked_handle_def 1(7,8))
  ultimately show ?thesis using 1(1) by blast
qed

end

section \<open>A unit\<close>

text \<open>The three command blocks of the start-up, and a device that accepts them for a unit.\<close>

definition inquiry_block :: "u8 \<Rightarrow> u8 list" where
  "inquiry_block lun = [OPCODE_INQUIRY, push_bit 5 lun, 0, 0, 0x24] @ replicate 11 0"

definition ready_block :: "u8 list" where
  "ready_block = OPCODE_TEST_UNIT_READY # replicate 15 0"

definition capacity_block :: "u8 list" where
  "capacity_block = OPCODE_READ_CAPACITY10 # replicate 15 0"

definition unit_answers :: "(u8 list \<Rightarrow> u8) \<Rightarrow> (u8 list \<Rightarrow> u8 list) \<Rightarrow> u8 \<Rightarrow> bool" where
  "unit_answers status reply lun \<longleftrightarrow>
     status (inquiry_block lun) = 0 \<and> status ready_block = 0 \<and> status capacity_block = 0
     \<and> length (reply (inquiry_block lun)) = 36 \<and> length (reply capacity_block) = 8"

text \<open>The unit as the start-up leaves it, and the transfers that were made for it.\<close>

definition started :: "(u8 list \<Rightarrow> u8 list) \<Rightarrow> u8 \<Rightarrow> MSC_LUNTypeDef \<Rightarrow> MSC_LUNTypeDef" where
  "started reply lun u = u\<lparr>lun_state := MSC_IDLE, lun_error := MSC_OK,
     state_changed := (if prev_ready_state u \<noteq> USBH_OK then 1 else 0), prev_ready_state := USBH_OK,
     lun_inquiry := inquiry_of (reply (inquiry_block lun)), lun_capacity := capacity_of (reply capacity_block)\<rparr>"

definition unit_transfers :: "ptr \<Rightarrow> MSC_HandleTypeDef \<Rightarrow> hal_call list \<Rightarrow> bool" where
  "unit_transfers q m xs \<longleftrightarrow>
     (\<exists>a b c. scsi_transfers q m 36 a \<and> scsi_transfers q m 0 b \<and> scsi_transfers q m 8 c \<and> xs = a @ b @ c)"

text \<open>The driver between two commands of the start-up.\<close>

definition between :: "MSC_HandleTypeDef \<Rightarrow> bool" where
  "between m \<longleftrightarrow> msc_state m = MSC_INIT \<and> bot_cmd_state (hbot m) = BOT_CMD_SEND \<and> 36 \<le> unat (msc_InEpSize m)
     \<and> drop 10 (cbw_CB (cbw (hbot m))) = replicate 6 0 \<and> length (bot_data (hbot m)) = 64"

definition same_device :: "MSC_HandleTypeDef \<Rightarrow> MSC_HandleTypeDef \<Rightarrow> bool" where
  "same_device m m' \<longleftrightarrow> max_lun m' = max_lun m \<and> msc_InPipe m' = msc_InPipe m \<and> msc_OutPipe m' = msc_OutPipe m
     \<and> msc_InEpSize m' = msc_InEpSize m \<and> length (msc_unit m') = length (msc_unit m)"

lemma same_device_trans: "same_device m m' \<Longrightarrow> same_device m' m'' \<Longrightarrow> same_device m m''"
  by (simp add: same_device_def)

lemma same_transfers:
  assumes "same_device m m'"
  shows "scsi_transfers q m' = scsi_transfers q m" "unit_transfers q m' = unit_transfers q m"
  using assms by (simp_all add: fun_eq_iff scsi_transfers_def unit_transfers_def same_device_def)

lemma startup_blocks:
  "drop 10 cb = replicate 6 0 \<Longrightarrow> startup_block MSC_READ_INQUIRY lun cb = inquiry_block lun"
  "startup_block MSC_TEST_UNIT_READY lun cb = ready_block" "startup_block MSC_READ_CAPACITY10 lun cb = capacity_block"
  by (simp_all add: startup_block_def inquiry_block_def ready_block_def capacity_block_def eval_nat_numeral)

lemma told_between:
  assumes "told st lun cb bs m m'" "between m" "drop 10 cb = replicate 6 0"
  shows "between m'" "same_device m m'"
  using assms by (simp_all add: told_def between_def same_device_def)

lemma blocks_end:
  "drop 10 (inquiry_block lun) = replicate 6 0" "drop 10 ready_block = replicate 6 0" "drop 10 capacity_block = replicate 6 0"
  by (simp_all add: inquiry_block_def ready_block_def capacity_block_def eval_nat_numeral)

context storage_bus
begin

lemma between_command:
  assumes "comes_by (after_rounds E p) p q t0 w0 w k xs m" "asking lun m" "between m"
    and "st = (if lun_state (msc_unit m ! unat lun) = MSC_INIT then MSC_READ_INQUIRY else lun_state (msc_unit m ! unat lun))"
    and "st \<in> {MSC_READ_INQUIRY, MSC_TEST_UNIT_READY, MSC_READ_CAPACITY10}" "unit_answers status reply lun"
  shows "\<exists>cb ys m'. scsi_transfers q m (startup_bytes st) ys \<and> comes_by (after_rounds E p) p q t0 w0 w (k + 10) (xs @ ys) m'
    \<and> told st lun cb (reply cb) m m' \<and> cb = startup_block st lun (cbw_CB (cbw (hbot m))) \<and> between m' \<and> same_device m m'
    \<and> (st \<noteq> MSC_READ_CAPACITY10 \<longrightarrow> asking lun m')"
proof -
  let ?cb = "startup_block st lun (cbw_CB (cbw (hbot m)))"
  have c: "drop 10 (cbw_CB (cbw (hbot m))) = replicate 6 0" using assms(3) by (simp add: between_def)
  have s: "status ?cb = 0" "0 < startup_bytes st \<Longrightarrow> length (reply ?cb) = startup_bytes st" "drop 10 ?cb = replicate 6 0"
    using assms(5,6) c by (auto simp: startup_blocks unit_answers_def startup_bytes_def blocks_end)
  have b: "bot_cmd_state (hbot m) = BOT_CMD_SEND" "36 \<le> unat (msc_InEpSize m)" "length (bot_data (hbot m)) = 64"
    using assms(3) by (simp_all add: between_def)
  from unit_command [OF assms(1,2) b(1) assms(4,5) b(2) refl s(1,2) b(3)] obtain ys m' where
    1: "scsi_transfers q m (startup_bytes st) ys" "comes_by (after_rounds E p) p q t0 w0 w (k + 10) (xs @ ys) m'"
    "told st lun ?cb (reply ?cb) m m'" by blast
  have "st \<noteq> MSC_READ_CAPACITY10 \<longrightarrow> asking lun m'" using 1(3) assms(2) by (auto simp: told_def asking_def)
  with 1 told_between [OF 1(3) assms(3) s(3)] show ?thesis by blast
qed

end

lemma found_all:
  "found MSC_READ_CAPACITY10 (reply capacity_block)
     ((found MSC_TEST_UNIT_READY b ((found MSC_READ_INQUIRY (reply (inquiry_block lun))
         (u\<lparr>lun_error := MSC_NOT_READY, lun_state := MSC_READ_INQUIRY\<rparr>))\<lparr>lun_error := MSC_NOT_READY, lun_state := MSC_TEST_UNIT_READY\<rparr>))
       \<lparr>lun_error := MSC_NOT_READY, lun_state := MSC_READ_CAPACITY10\<rparr>)
   = started reply lun u"
  by (cases u) (simp add: found_eqs started_def)

lemma found_state:
  "lun_state (found MSC_READ_INQUIRY b u) = MSC_TEST_UNIT_READY" "lun_state (found MSC_TEST_UNIT_READY b u) = MSC_READ_CAPACITY10"
  by (simp_all add: found_eqs)

context storage_bus
begin

lemma unit_starts:
  assumes "comes_by (after_rounds E p) p q t0 w0 w k xs m" "asking lun m" "between m"
    and "lun_state (msc_unit m ! unat lun) = MSC_INIT" "unit_answers status reply lun"
  shows "\<exists>ys m'. unit_transfers q m ys \<and> comes_by (after_rounds E p) p q t0 w0 w (k + 30) (xs @ ys) m'
    \<and> between m' \<and> same_device m m' \<and> current_lun m' = current_lun m + 1
    \<and> msc_unit m' = (msc_unit m)[unat lun := started reply lun (msc_unit m ! unat lun)]"
proof -
  have i: "unat lun < length (msc_unit m)" using assms(2) by (simp add: asking_def)
  have 0: "drop 10 (cbw_CB (cbw (hbot m))) = replicate 6 0" using assms(3) by (simp add: between_def)
  from between_command [where st = MSC_READ_INQUIRY, OF assms(1-3) _ _ assms(5)] assms(4) startup_blocks(1) [OF 0] obtain a m1 where
    1: "scsi_transfers q m 36 a" "comes_by (after_rounds E p) p q t0 w0 w (k + 10) (xs @ a) m1"
    "told MSC_READ_INQUIRY lun (inquiry_block lun) (reply (inquiry_block lun)) m m1" "between m1" "same_device m m1" "asking lun m1"
    by (auto simp: startup_bytes_def)
  let ?u1 = "found MSC_READ_INQUIRY (reply (inquiry_block lun)) ((msc_unit m ! unat lun)\<lparr>lun_error := MSC_NOT_READY, lun_state := MSC_READ_INQUIRY\<rparr>)"
  have u1: "msc_unit m1 = (msc_unit m)[unat lun := ?u1]" "current_lun m1 = current_lun m" using 1(3) by (simp_all add: told_def)
  then have "lun_state (msc_unit m1 ! unat lun) = MSC_TEST_UNIT_READY" using i by (simp add: found_state)
  with between_command [where st = MSC_TEST_UNIT_READY, OF 1(2,6,4) _ _ assms(5)] obtain b m2 where
    2: "scsi_transfers q m1 0 b" "comes_by (after_rounds E p) p q t0 w0 w (k + 20) (xs @ a @ b) m2"
    "told MSC_TEST_UNIT_READY lun ready_block (reply ready_block) m1 m2" "between m2" "same_device m1 m2" "asking lun m2"
    by (auto simp: startup_bytes_def startup_blocks add.commute)
  let ?u2 = "found MSC_TEST_UNIT_READY (reply ready_block) (?u1\<lparr>lun_error := MSC_NOT_READY, lun_state := MSC_TEST_UNIT_READY\<rparr>)"
  have u2: "msc_unit m2 = (msc_unit m)[unat lun := ?u2]" "current_lun m2 = current_lun m"
    using 2(3) i by (simp_all add: told_def u1)
  then have "lun_state (msc_unit m2 ! unat lun) = MSC_READ_CAPACITY10" using i by (simp add: found_state)
  with between_command [where st = MSC_READ_CAPACITY10, OF 2(2,6,4) _ _ assms(5)] obtain c m3 where
    3: "scsi_transfers q m2 8 c" "comes_by (after_rounds E p) p q t0 w0 w (k + 30) (xs @ a @ b @ c) m3"
    "told MSC_READ_CAPACITY10 lun capacity_block (reply capacity_block) m2 m3" "between m3" "same_device m2 m3"
    by (auto simp: startup_bytes_def startup_blocks add.commute)
  have u3: "msc_unit m3 = (msc_unit m)[unat lun := started reply lun (msc_unit m ! unat lun)]" "current_lun m3 = current_lun m + 1"
    using 3(3) i by (simp_all add: told_def u2 found_all)
  have d: "same_device m m2" "same_device m m3" using same_device_trans 1(5) 2(5) 3(5) by blast+
  have "unit_transfers q m (a @ b @ c)"
    using 1(1) 2(1) 3(1) same_transfers(1) [OF 1(5)] same_transfers(1) [OF d(1)] by (auto simp: unit_transfers_def)
  with 3(2,4) d(2) u3 show ?thesis by blast
qed

lemma units_start:
  assumes "comes_by (after_rounds E p) p q t0 w0 w k xs m" "between m" "current_lun m = of_nat i"
    and "i + n = unat (max_lun m)" "unat (max_lun m) \<le> length (msc_unit m)" "length (msc_unit m) < 256"
    and "\<And>j. i \<le> j \<Longrightarrow> j < i + n \<Longrightarrow> lun_state (msc_unit m ! j) = MSC_INIT \<and> unit_answers status reply (of_nat j)"
  shows "\<exists>yss m'. length yss = n \<and> list_all (unit_transfers q m) yss
    \<and> comes_by (after_rounds E p) p q t0 w0 w (k + 30 * n) (xs @ concat yss) m'
    \<and> between m' \<and> same_device m m' \<and> current_lun m' = of_nat (i + n)
    \<and> (\<forall>j < length (msc_unit m). msc_unit m' ! j =
         (if i \<le> j \<and> j < i + n then started reply (of_nat j) (msc_unit m ! j) else msc_unit m ! j))"
  using assms
proof (induction n arbitrary: i k xs m)
  case 0
  from 0(1-3) show ?case by (intro exI [of _ "[]"] exI [of _ m]) (auto simp: same_device_def)
next
  case (Suc n)
  let ?l = "of_nat i :: u8"
  have l: "unat ?l = i" using Suc.prems(4-6) by (simp add: unat_of_nat)
  have c: "current_lun m = ucast ?l" unfolding Suc.prems(3) using l Suc.prems(4-6) by (simp add: word_unat_eq_iff unat_up unat_of_nat)
  have a: "asking ?l m" using Suc.prems(2,4,5) l c by (simp add: asking_def between_def)
  have s: "lun_state (msc_unit m ! unat ?l) = MSC_INIT" "unit_answers status reply ?l" using Suc.prems(7) [of i] l by simp_all
  from unit_starts [OF Suc.prems(1) a Suc.prems(2) s] obtain ys h where
    1: "unit_transfers q m ys" "comes_by (after_rounds E p) p q t0 w0 w (k + 30) (xs @ ys) h" "between h" "same_device m h"
    "current_lun h = current_lun m + 1" "msc_unit h = (msc_unit m)[i := started reply ?l (msc_unit m ! i)]" unfolding l by blast
  have c1: "current_lun h = of_nat (Suc i)" using 1(5) Suc.prems(3) by simp
  have n: "Suc i + n = unat (max_lun h)" "unat (max_lun h) \<le> length (msc_unit h)" "length (msc_unit h) < 256"
    using 1(4) Suc.prems(4-6) by (simp_all add: same_device_def)
  have "lun_state (msc_unit h ! j) = MSC_INIT \<and> unit_answers status reply (of_nat j)" if "Suc i \<le> j" "j < Suc i + n" for j
    using Suc.prems(7) [of j] that 1(6) by simp
  from Suc.IH [OF 1(2,3) c1 n this] obtain yss m' where
    2: "length yss = n" "list_all (unit_transfers q h) yss" "comes_by (after_rounds E p) p q t0 w0 w (k + 30 + 30 * n) ((xs @ ys) @ concat yss) m'"
    "between m'" "same_device h m'" "current_lun m' = of_nat (Suc i + n)"
    "\<forall>j < length (msc_unit h). msc_unit m' ! j =
       (if Suc i \<le> j \<and> j < Suc i + n then started reply (of_nat j) (msc_unit h ! j) else msc_unit h ! j)" by blast
  have "list_all (unit_transfers q m) (ys # yss)" using 1(1) 2(2) same_transfers(2) [OF 1(4)] by simp
  moreover have "comes_by (after_rounds E p) p q t0 w0 w (k + 30 * Suc n) (xs @ concat (ys # yss)) m'" using 2(3) by (simp add: add.assoc)
  moreover have "length (msc_unit h) = length (msc_unit m)" using 1(4) by (simp add: same_device_def)
  with 2(7) have "\<forall>j < length (msc_unit m). msc_unit m' ! j =
       (if i \<le> j \<and> j < i + Suc n then started reply (of_nat j) (msc_unit m ! j) else msc_unit m ! j)"
    by (auto simp: 1(6) nth_list_update Suc_le_eq)
  ultimately show ?case using 2(1,4,6) same_device_trans [OF 1(4) 2(5)] by (intro exI [of _ "ys # yss"] exI [of _ m']) simp
qed

end

end
