(* ===== verification/Usb_MSC_Props.thy ===== *)
theory Usb_MSC_Props
  imports Usb_MSC_Rw
begin

text \<open>
  The properties of the mass storage driver: what a read or write puts on the bus and returns, what the
  device reads out of the command block, what happens on errors and time-outs, how many units the driver
  takes, and the invariants of the handle and of the transport.
\<close>

definition unit_idle :: "ptr \<Rightarrow> ptr \<Rightarrow> u8 \<Rightarrow> MSC_HandleTypeDef \<Rightarrow> usb \<Rightarrow> bool" where
  "unit_idle p q lun m w \<longleftrightarrow>
     request_ready p w \<and> gState (hosts w p) = HOST_CLASS \<and> msc_ptr p w = q \<and> cdata w q = MscData m
     \<and> unat (msc_InPipe m) < HC_COUNT \<and> unat (msc_OutPipe m) < HC_COUNT
     \<and> unat lun < length (msc_unit m) \<and> lun_state (msc_unit m ! unat lun) = MSC_IDLE \<and> bot_cmd_state (hbot m) = BOT_CMD_SEND"

lemma idle_on_bus: "unit_idle p q lun m w \<Longrightarrow> on_bus p q w (Timer (hosts w p)) 0 [] m w"
  by (simp add: unit_idle_def on_bus_def)

lemma rw_limits:
  assumes "unat (len :: u32) \<le> 65535"
  shows "unat (10000 * len) = 10000 * unat len" "unat (len * 512) = 512 * unat len"
  using assms by (simp_all add: unat_word_ariths)

lemma high_bit: "(0x80 :: u8) AND 0x80 = 0x80"
  by simp

lemma rw_handle_sel:
  assumes "unat lun < length (msc_unit m)" "h = rw_handle inward lun blk b len m"
  shows "bot_state (hbot h) = BOT_SEND_CBW" "commanding (unat lun) h" "lun_state (msc_unit h ! unat lun) \<in> {MSC_READ, MSC_WRITE}"
    "cbw_CB (cbw (hbot h)) = rw_block (if inward then OPCODE_READ10 else OPCODE_WRITE10) blk len"
    "cbw_DataTransferLength (cbw (hbot h)) = len * 512" "inward = (cbw_Flags (cbw (hbot h)) AND 0x80 = 0x80)"
    "bot_pbuf (hbot h) = b" "length (msc_unit h) = length (msc_unit m)" "lun_error (msc_unit h ! unat lun) = lun_error (msc_unit m ! unat lun)"
    "packet_bytes d h = packet_bytes d m" "bulk_data d h = bulk_data d m" "msc_InPipe h = msc_InPipe m" "msc_OutPipe h = msc_OutPipe m"
    "msc_InEpSize h = msc_InEpSize m" "length (bot_data (hbot h)) = length (bot_data (hbot m))"
  using assms(1) unfolding assms(2)
  by (simp_all add: rw_handle_def Let_def fill_cbw_def commanding_def packet_bytes_def bulk_data_def fun_eq_iff)

context storage_bus
begin

text \<open>A read or write, up to the status the device gives it.\<close>

lemma rw_to_status:
  assumes "unit_idle p q lun m w" "mps = unat (packet_bytes inward m)" "0 < mps" "0 < unat len" "unat len \<le> 65535"
    and "parts = split_parts mps 0 (512 * unat len)"
  shows "\<exists>v c ys d h. (if inward then USBH_MSC_Read E p lun blk b len w else USBH_MSC_Write E p lun blk b len w)
        = rw_loop E p q lun (Timer (hosts w p)) len v
    \<and> bulk_out (msc_OutPipe m) (BCbw q) 31 c \<and> list_all2 (\<lambda>(a, l). bulk_data inward m (buf_add b a) mps) parts ys
    \<and> bulk_in (msc_InPipe m) (BCsw q) 13 d
    \<and> comes_to E p q lun (Timer (hosts w p)) len w v (2 * length parts + 5) ([c] @ ys @ [d]) h
    \<and> bot_state (hbot h) = BOT_RECEIVE_CSW_WAIT \<and> rest h = rest (rw_handle inward lun blk b len m)
    \<and> length (bot_data (hbot h)) = length (bot_data (hbot m))"
proof -
  let ?h = "rw_handle inward lun blk b len m"
  have i: "unat lun < length (msc_unit m)" "lun_state (msc_unit m ! unat lun) = MSC_IDLE" "bot_cmd_state (hbot m) = BOT_CMD_SEND"
    using assms(1) by (simp_all add: unit_idle_def)
  note s = rw_handle_sel [OF i(1) refl, where inward = inward and blk = blk and b = b and len = len]
  from rw_starts [where E = E, OF idle_on_bus [OF assms(1)] i, where inward = inward and blk = blk and b = b and len = len] obtain v where
    v: "(if inward then USBH_MSC_Read E p lun blk b len w else USBH_MSC_Write E p lun blk b len w)
        = rw_loop E p q lun (Timer (hosts w p)) len v" "on_bus p q w (Timer (hosts w p)) 0 [] ?h v" by metis
  have n: "512 * unat len = unat (cbw_DataTransferLength (cbw (hbot ?h)))" "0 < 512 * unat len"
    using rw_limits [OF assms(5)] assms(4) s(5) by simp_all
  have m: "mps = unat (packet_bytes inward ?h)" using assms(2) s(10) by simp
  have "length parts \<le> 512 * unat len" unfolding assms(6) by (rule split_parts_few [OF assms(3) n(2)])
  then have "0 + 2 * length (split_parts mps 0 (512 * unat len)) + 5 \<le> unat (10000 * len)"
    using rw_limits(1) [OF assms(5)] assms(4) by (simp add: assms(6))
  from rw_command_with_data [OF comes_by_refl [OF refl v(2)] s(2,1) n(1,2) s(6) m assms(3) this]
  show ?thesis using v(1) unfolding s(7,11-13,15) assms(6) append_Nil add_0 by blast
qed

end

text \<open>
  C11: Reading and writing sectors. When the unit is idle, \<open>USBH_MSC_Read\<close> and \<open>USBH_MSC_Write\<close> of 1 to 65535
  sectors on a device that completes its transfers and accepts the command return \<open>USBH_OK\<close> after exactly
  these transfers: the 31 bytes of the command block, the packets of the data in order (adjacent, from
  the start of the caller's buffer to its end, whole packets also where the last part is shorter), and
  the 13 bytes of the status block. The command block held READ(10) or WRITE(10) with the address and
  the count; the unit is idle again, no error is noted and no access was wrong.
\<close>

theorem sectors_moved:
  assumes "storage_bus E p q status reply" and "unit_idle p q lun m w"
    and "mps = unat (if inward then msc_InEpSize m else msc_OutEpSize m)" and "0 < mps"
    and "0 < unat len" and "unat len \<le> 65535" and "parts = split_parts mps 0 (512 * unat len)"
    and "block = rw_block (if inward then OPCODE_READ10 else OPCODE_WRITE10) blk len" and "status block = 0"
  shows "\<exists>v c ys d m'. (if inward then USBH_MSC_Read E p lun blk b len w else USBH_MSC_Write E p lun blk b len w)
        = Some (USBH_OK, v)
    \<and> trace v = trace w @ [c] @ ys @ [d]
    \<and> bulk_out (msc_OutPipe m) (BCbw q) 31 c
    \<and> list_all2 (\<lambda>(a, l). if inward then bulk_in (msc_InPipe m) (buf_add b a) mps
                         else bulk_out (msc_OutPipe m) (buf_add b a) mps) parts ys
    \<and> concat (map (\<lambda>(a, l). [a..<a + l]) parts) = [0..<512 * unat len]
    \<and> bulk_in (msc_InPipe m) (BCsw q) 13 d
    \<and> unit_idle p q lun m' v \<and> msc_state m' = MSC_IDLE \<and> cbw_CB (cbw (hbot m')) = block
    \<and> lun_error (msc_unit m' ! unat lun) = lun_error (msc_unit m ! unat lun) \<and> faults v = faults w"
proof -
  have i: "unat lun < length (msc_unit m)" using assms(2) by (simp add: unit_idle_def)
  note s = rw_handle_sel [OF i refl, where inward = inward and blk = blk and b = b and len = len]
  have "mps = unat (packet_bytes inward m)" using assms(3) by (simp add: packet_bytes_def)
  from storage_bus.rw_to_status [OF assms(1,2) this assms(4-7), of blk b] obtain v c ys d h where
    1: "(if inward then USBH_MSC_Read E p lun blk b len w else USBH_MSC_Write E p lun blk b len w)
        = rw_loop E p q lun (Timer (hosts w p)) len v" and
    2: "bulk_out (msc_OutPipe m) (BCbw q) 31 c" "list_all2 (\<lambda>(a, l). bulk_data inward m (buf_add b a) mps) parts ys"
    "bulk_in (msc_InPipe m) (BCsw q) 13 d" and
    3: "comes_to E p q lun (Timer (hosts w p)) len w v (2 * length parts + 5) ([c] @ ys @ [d]) h"
    "bot_state (hbot h) = BOT_RECEIVE_CSW_WAIT" "rest h = rest (rw_handle inward lun blk b len m)" by blast
  note r = restD [OF 3(3)]
  have "lun_state (msc_unit h ! unat lun) \<in> {MSC_READ, MSC_WRITE}" "status (cbw_CB (cbw (hbot h))) = 0"
    unfolding r s(4) using s(3) assms(8,9) by simp_all
  from storage_bus.command_ok [OF assms(1) 3(1) commanding_rest [OF s(2) 3(3)] 3(2) this] obtain u m' where
    4: "rw_loop E p q lun (Timer (hosts w p)) len v = Some (USBH_OK, u)"
    "on_bus p q w (Timer (hosts w p)) (Suc (2 * length parts + 5)) ([c] @ ys @ [d]) m' u"
    "lun_state (msc_unit m' ! unat lun) = MSC_IDLE" "msc_state m' = MSC_IDLE" "length (msc_unit m') = length (msc_unit h)"
    "bot_cmd_state (hbot m') = BOT_CMD_SEND" "cbw_CB (cbw (hbot m')) = cbw_CB (cbw (hbot h))"
    "lun_error (msc_unit m' ! unat lun) = lun_error (msc_unit h ! unat lun)" by blast
  have e: "unit_idle p q lun m' u" using 4(2-6) i s(8) unfolding r by (simp add: unit_idle_def on_bus_def)
  have f: "cbw_CB (cbw (hbot m')) = block" "lun_error (msc_unit m' ! unat lun) = lun_error (msc_unit m ! unat lun)"
    using 4(7,8) unfolding r s(4,9) assms(8) by simp_all
  have g: "trace u = trace w @ [c] @ ys @ [d]" "faults u = faults w" using 4(2) by (simp_all add: on_bus_def)
  have d: "(\<lambda>(a, l). bulk_data inward m (buf_add b a) mps) = (\<lambda>(a, l). if inward then bulk_in (msc_InPipe m) (buf_add b a) mps
      else bulk_out (msc_OutPipe m) (buf_add b a) mps)" by (simp add: fun_eq_iff bulk_data_def)
  have h: "concat (map (\<lambda>(a, l). [a..<a + l]) parts) = [0..<512 * unat len]"
    using split_parts_cover [OF assms(4), of 0 "512 * unat len"] by (simp add: assms(7))
  from 2 [unfolded d] 4(4) e f g h show ?thesis unfolding 1 4(1) by blast
qed

text \<open>
  C19: A read or write the device refuses is reported as done. The device answers the command with a
  failure and then explains it: the driver asks for the sense data (fourteen bytes into its own data
  words, no access outside them), notes \<open>MSC_ERROR\<close> in the unit and goes back to idle, and
  \<open>USBH_MSC_Read\<close> and \<open>USBH_MSC_Write\<close> return \<open>USBH_OK\<close> all the same: their loop drops the status that
  ended it.
\<close>

theorem refused_read_returns_ok:
  assumes "storage_bus E p q status reply" and "unit_idle p q lun m w"
    and "mps = unat (if inward then msc_InEpSize m else msc_OutEpSize m)" and "0 < mps"
    and "14 \<le> unat (msc_InEpSize m)" and "14 \<le> length (bot_data (hbot m))"
    and "0 < unat len" and "unat len \<le> 65535"
    and "status (rw_block (if inward then OPCODE_READ10 else OPCODE_WRITE10) blk len) \<noteq> 0" and "status (sense_block lun) = 0"
  shows "\<exists>v m'. (if inward then USBH_MSC_Read E p lun blk b len w else USBH_MSC_Write E p lun blk b len w) = Some (USBH_OK, v)
    \<and> unit_idle p q lun m' v \<and> lun_error (msc_unit m' ! unat lun) = MSC_ERROR \<and> faults v = faults w"
proof -
  have i: "unat lun < length (msc_unit m)" using assms(2) by (simp add: unit_idle_def)
  note s = rw_handle_sel [OF i refl, where inward = inward and blk = blk and b = b and len = len]
  let ?t = "Timer (hosts w p)" and ?parts = "split_parts mps 0 (512 * unat len)"
  have "mps = unat (packet_bytes inward m)" using assms(3) by (simp add: packet_bytes_def)
  from storage_bus.rw_to_status [OF assms(1,2) this assms(4,7,8) refl, of blk b] obtain v xs h where
    1: "(if inward then USBH_MSC_Read E p lun blk b len w else USBH_MSC_Write E p lun blk b len w) = rw_loop E p q lun ?t len v" and
    2: "comes_to E p q lun ?t len w v (2 * length ?parts + 5) xs h" "bot_state (hbot h) = BOT_RECEIVE_CSW_WAIT"
    "rest h = rest (rw_handle inward lun blk b len m)" "length (bot_data (hbot h)) = length (bot_data (hbot m))" by blast
  note r = restD [OF 2(3)]
  have "length ?parts \<le> 512 * unat len" by (rule split_parts_few [OF assms(4)]) (use assms(7) in simp)
  then have t: "2 * length ?parts + 30 \<le> unat (10000 * len)" using rw_limits(1) [OF assms(8)] assms(7) by simp
  have "lun_state (msc_unit h ! unat lun) \<in> {MSC_READ, MSC_WRITE}" "status (cbw_CB (cbw (hbot h))) \<noteq> 0"
    unfolding r s(4) using s(3) assms(9) by simp_all
  from storage_bus.command_failed [OF assms(1) 2(1) commanding_rest [OF s(2) 2(3)] 2(2) this] t obtain m1 where
    3: "comes_to E p q lun ?t len w v (Suc (Suc (2 * length ?parts + 5))) xs m1" "command_refused (unat lun) h m1" by auto
  let ?m2 = "m1\<lparr>hbot := (fill_cbw 14 0x80 (sense_block lun) (hbot m1))\<lparr>bot_pbuf := BBot q 0\<rparr>\<rparr>"
  from storage_bus.sense_starts [OF assms(1) 3 _ _ refl] t i have
    4: "comes_to E p q lun ?t len w v (Suc (Suc (Suc (2 * length ?parts + 5)))) xs ?m2" "commanding (unat lun) ?m2"
    using r(1) s(8) by auto
  have ep: "packet_bytes True ?m2 = msc_InEpSize m"
    using 3(2) unfolding command_refused_def by (simp add: packet_bytes_def r(5) s(14))
  have "length (split_parts (unat (msc_InEpSize m)) 0 14) = 1" using assms(5) by (simp add: split_parts_last)
  with t have "Suc (Suc (Suc (2 * length ?parts + 5))) + 2 * length (split_parts (unat (msc_InEpSize m)) 0 14) + 5 \<le> unat (10000 * len)"
    by simp
  moreover have "(0 :: nat) < 14" "0 < unat (msc_InEpSize m)" "bot_state (hbot ?m2) = BOT_SEND_CBW" "(14 :: nat) = unat (cbw_DataTransferLength (cbw (hbot ?m2)))"
    "True = (cbw_Flags (cbw (hbot ?m2)) AND 0x80 = 0x80)" "unat (msc_InEpSize m) = unat (packet_bytes True ?m2)"
    using assms(5) ep by (simp_all add: fill_cbw_def)
  ultimately obtain k ys m3 where
    5: "comes_to E p q lun ?t len w v k ys m3" "bot_state (hbot m3) = BOT_RECEIVE_CSW_WAIT" "rest m3 = rest ?m2"
    "length (bot_data (hbot m3)) = length (bot_data (hbot ?m2))" "14 \<le> unat (msc_InEpSize m) \<longrightarrow> bot_pbuf (hbot m3) = bot_pbuf (hbot ?m2)"
    using storage_bus.rw_command_with_data [OF assms(1) 4, of 14 True "unat (msc_InEpSize m)"] by blast
  note r3 = restD [OF 5(3)]
  have "lun_state (msc_unit m3 ! unat lun) = MSC_REQUEST_SENSE" "status (cbw_CB (cbw (hbot m3))) = 0"
    "bot_pbuf (hbot m3) = BBot q 0" "14 \<le> length (bot_data (hbot m3))"
    using 3(2) 5(4,5) assms(5,6,10) 2(4) unfolding r3 command_refused_def by (simp_all add: fill_cbw_def)
  from storage_bus.sense_ok [OF assms(1) 5(1) commanding_rest [OF 4(2) 5(3)] 5(2) this] obtain u m4 where
    6: "rw_loop E p q lun ?t len v = Some (USBH_OK, u)" "on_bus p q w ?t (Suc k) ys m4 u"
    "lun_state (msc_unit m4 ! unat lun) = MSC_IDLE" "lun_error (msc_unit m4 ! unat lun) = MSC_ERROR"
    "length (msc_unit m4) = length (msc_unit m3)" "bot_cmd_state (hbot m4) = BOT_CMD_SEND" by blast
  have "length (msc_unit m3) = length (msc_unit m)" using 3(2) r(1) s(8) unfolding r3 by (simp add: command_refused_def)
  with 6 i have "unit_idle p q lun m4 u" by (simp add: unit_idle_def on_bus_def)
  with 1 6 show ?thesis by (auto simp: on_bus_def)
qed

section \<open>The command block on the wire\<close>

lemma block_bytes:
  "length (rw_block oc blk len) = 16" "rd8 (rw_block oc blk len) 0 = oc"
  "BE32 (rw_block oc blk len) 2 = blk" "BE16 (rw_block oc blk len) 7 = ucast len"
  using word32_of_bytes [of blk] word16_of_bytes [of len]
  by (simp_all add: rw_block_def rd8_def BE32_def BE16_def LE32_def LE16_def numeral_nat)

lemma cbw_bytes:
  "LE32 (cbw_data c) 0 = cbw_Signature c" "LE32 (cbw_data c) 4 = cbw_Tag c" "LE32 (cbw_data c) 8 = cbw_DataTransferLength c"
  "rd8 (cbw_data c) 12 = cbw_Flags c" "rd8 (cbw_data c) 13 = cbw_LUN c" "rd8 (cbw_data c) 14 = cbw_CBLength c"
  "length (cbw_data c) = 15 + length (cbw_CB c)" "rd8 (cbw_data c) (15 + i) = rd8 (cbw_CB c) i"
proof -
  show "LE32 (cbw_data c) 0 = cbw_Signature c" "LE32 (cbw_data c) 4 = cbw_Tag c" unfolding cbw_data_def by (rule LE32_le32)+
  show "LE32 (cbw_data c) 8 = cbw_DataTransferLength c"
    using LE32_le32(2) [of "cbw_Tag c" "cbw_DataTransferLength c" "[]"] word32_of_bytes [of "cbw_DataTransferLength c"]
    by (simp add: cbw_data_def LE32_def le32_bytes_def rd8_def nth_Cons')
qed (simp_all add: cbw_data_def le32_bytes_def rd8_def)

lemma transfer_length:
  "unat ((len :: u32) * 512) = 512 * unat (ucast len :: u16) \<longleftrightarrow> unat len mod 2 ^ 23 < 2 ^ 16"
proof -
  have "unat (len * 512) = 512 * unat len mod (512 * 2 ^ 23)" by (simp add: unat_word_ariths mult.commute)
  also have "\<dots> = 512 * (unat len mod 2 ^ 23)" by (rule mult_mod_right [symmetric])
  finally have l: "unat (len * 512) = 512 * (unat len mod 2 ^ 23)" .
  have "unat (ucast len :: u16) = unat len mod 2 ^ 16" by (simp add: unsigned_ucast_eq take_bit_eq_mod)
  also have "\<dots> = (unat len mod 2 ^ 23) mod 2 ^ 16" by (simp add: mod_mod_cancel)
  finally have r: "unat (ucast len :: u16) = (unat len mod 2 ^ 23) mod 2 ^ 16" .
  have "a = a mod b \<longleftrightarrow> a < b" if "0 < b" for a b :: nat using that by (metis mod_less mod_less_divisor)
  then show ?thesis unfolding l r by simp
qed

text \<open>
  C21: What the device reads out of the command block is what \<open>USBH_MSC_Read\<close> or \<open>USBH_MSC_Write\<close> was asked
  for. After the command is filled in and the transport has handed the block over, its 31 bytes read
  back as the signature and tag of the handle, the length of the data, the direction, the unit, and a
  ten-byte command with the block address and the number of sectors, high byte first. The number of
  sectors loses its upper half: what the command asks for and the length of the transfer agree exactly
  when the number modulo \<open>2^23\<close> fits in sixteen bits.
\<close>

theorem read10_roundtrip:
  assumes "cdata w (msc_ptr p w) = MscData m" and "bot_cmd_state (hbot m) = BOT_CMD_SEND"
    and "v = snd ((if inward then USBH_MSC_SCSI_Read else USBH_MSC_SCSI_Write) E p lun blk b len w)"
    and "u = snd (USBH_MSC_BOT_Process E p lun v)" and "c = cbw_data (cbw (bot_at (msc_ptr p w) u))"
  shows "length c = 31 \<and> LE32 c 0 = cbw_Signature (cbw (hbot m)) \<and> LE32 c 4 = cbw_Tag (cbw (hbot m))
    \<and> LE32 c 8 = len * 512 \<and> rd8 c 12 = (if inward then 0x80 else 0) \<and> rd8 c 13 = lun \<and> rd8 c 14 = 10
    \<and> rd8 c 15 = (if inward then OPCODE_READ10 else OPCODE_WRITE10) \<and> BE32 c 17 = blk \<and> BE16 c 22 = ucast len
    \<and> (unat (LE32 c 8) = 512 * unat (BE16 c 22) \<longleftrightarrow> unat len mod 2 ^ 23 < 2 ^ 16)"
proof -
  let ?q = "msc_ptr p w"
  let ?g = "\<lambda>h. (fill_cbw (len * 512) (if inward then 0x80 else 0)
      (rw_block (if inward then OPCODE_READ10 else OPCODE_WRITE10) blk len) h)\<lparr>bot_pbuf := b\<rparr>"
  have c: "chk_msc ?q w = w" "msc_at ?q w = m" using assms(1) by (simp_all add: chk_msc_def msc_at_def)
  have v: "v = upd_bot ?q ?g w"
    using c assms(2,3) by (cases inward) (simp_all add: USBH_MSC_SCSI_Read_def USBH_MSC_SCSI_Write_def scsi_command_def Let_def)
  have d: "cdata v ?q = MscData (m\<lparr>hbot := ?g (hbot m)\<rparr>)" using assms(1) by (simp add: v upd_msc_data)
  have q: "msc_ptr p v = ?q" by (rule msc_ptr_cong) (simp_all add: v upd_msc_def assms(1))
  let ?f = "\<lambda>b. b\<lparr>cbw := (cbw b)\<lparr>cbw_LUN := lun\<rparr>, bot_state := BOT_SEND_CBW_WAIT\<rparr>"
  have "cdata u = cdata (upd_bot ?q ?f v)"
    using d by (simp add: assms(4) USBH_MSC_BOT_Process_def Let_def q chk_msc_def msc_at_def fill_cbw_def)
  then have "bot_at ?q u = ?f (?g (hbot m))" using d by (simp add: msc_at_def upd_msc_data)
  then have x: "cbw (bot_at ?q u) = (cbw (hbot m))\<lparr>cbw_DataTransferLength := len * 512, cbw_Flags := (if inward then 0x80 else 0),
      cbw_CBLength := 10, cbw_CB := rw_block (if inward then OPCODE_READ10 else OPCODE_WRITE10) blk len, cbw_LUN := lun\<rparr>"
    by (simp add: fill_cbw_def)
  let ?c = "cbw (bot_at ?q u)" and ?blk = "rw_block (if inward then OPCODE_READ10 else OPCODE_WRITE10) blk len"
  have cb: "cbw_CB ?c = ?blk" by (simp add: x)
  have n: "LE32 c 8 = len * 512" unfolding assms(5) cbw_bytes x by simp
  have r: "rd8 c (15 + i) = rd8 ?blk i" for i unfolding assms(5) cbw_bytes cb ..
  from r [of 2] r [of 3] r [of 4] r [of 5] have "BE32 c 17 = BE32 ?blk 2" by (simp add: BE32_def)
  moreover from r [of 7] r [of 8] have "BE16 c 22 = BE16 ?blk 7" by (simp add: BE16_def)
  ultimately have be: "BE32 c 17 = blk" "BE16 c 22 = ucast len" unfolding block_bytes by simp_all
  moreover have "rd8 c 15 = (if inward then OPCODE_READ10 else OPCODE_WRITE10)" using r [of 0] block_bytes(2) by simp
  moreover have "length c = 31" "LE32 c 0 = cbw_Signature (cbw (hbot m))" "LE32 c 4 = cbw_Tag (cbw (hbot m))"
    "rd8 c 12 = (if inward then 0x80 else 0)" "rd8 c 13 = lun" "rd8 c 14 = 10"
    unfolding assms(5) cbw_bytes cb block_bytes unfolding x by simp_all
  moreover have "unat (LE32 c 8) = 512 * unat (BE16 c 22) \<longleftrightarrow> unat len mod 2 ^ 23 < 2 ^ 16"
    unfolding n be by (rule transfer_length)
  ultimately show ?thesis using n by blast
qed

section \<open>Units that do not come back\<close>

definition unit_busy :: "nat \<Rightarrow> MSC_HandleTypeDef \<Rightarrow> bool" where
  "unit_busy i m \<longleftrightarrow> i < length (msc_unit m) \<and> lun_state (msc_unit m ! i) \<noteq> MSC_IDLE"

interpretation busy_unit: transport_invariant "unit_busy i" for i
  by unfold_locales (simp add: unit_busy_def)

lemma nth_updated: "i < length xs \<Longrightarrow> xs[j := x] ! i = (if i = j then x else xs ! i)"
  by (auto simp: nth_list_update)

lemma busy_upd:
  assumes "of_handle (unit_busy i) q (cdata w)"
  shows "of_handle (unit_busy i) q (cdata (upd_unit r j (lun_sense_update f) w))"
    "st \<noteq> MSC_IDLE \<Longrightarrow> of_handle (unit_busy i) q (cdata (set_lun r j st w))"
    "of_handle (unit_busy i) q (cdata (upd_msc r (\<lambda>m. m\<lparr>msc_state := s\<rparr>) w))"
  using assms by (auto simp: upd_unit_def set_lun_def unit_busy_def nth_updated split: if_splits intro!: of_handle_upd)

lemma busy_RdWr:
  assumes "keeps_data (of_handle (unit_busy i) q) E" "of_handle (unit_busy i) q (cdata w)"
    and "fst (USBH_MSC_RdWrProcess E p lun w) = USBH_BUSY"
  shows "of_handle (unit_busy i) q (cdata (snd (USBH_MSC_RdWrProcess E p lun w)))"
proof -
  have "of_handle (unit_busy i) q (cdata (chk_unit r j (chk_msc r w)))" for r j using assms(2) by simp
  from busy_unit.scsi_kept(2,3,6) [OF assms(1) this] assms(2,3) show ?thesis
    by (auto simp: USBH_MSC_RdWrProcess_def Let_def with_event_def rw_result_def sense_result_def case_prod_beta busy_upd
        split: MSC_StateTypeDef.splits if_splits)
qed

lemma busy_start:
  assumes "\<not> rw_refused p lun w" "st \<noteq> MSC_IDLE"
  shows "of_handle (unit_busy (unat lun)) (msc_ptr p w) (cdata (start_rw p lun st w))"
proof -
  let ?q = "msc_ptr p w"
  have s: "lun_state (unit_at ?q (unat lun) w) = MSC_IDLE" using assms(1) by (simp add: rw_refused_def)
  have "msc_at ?q w \<noteq> zero_msc"
    using s by (auto simp: unit_at_def Let_def zero_msc_def zero_lun_def split: if_splits)
  then obtain m where m: "cdata w ?q = MscData m" by (auto simp: msc_at_def split: class_data.splits)
  moreover have "unat lun < length (msc_unit (msc_at ?q w))"
    using s by (auto simp: unit_at_def Let_def zero_lun_def split: if_splits)
  ultimately have m: "cdata w ?q = MscData m" "unat lun < length (msc_unit m)" by (simp_all add: msc_at_def)
  let ?w = "upd_msc ?q (\<lambda>m. m\<lparr>msc_state := st\<rparr>) w"
  have "of_handle (unit_busy (unat lun)) ?q (cdata (set_lun ?q (unat lun) st ?w))"
    using m assms(2) by (simp add: set_lun_def upd_unit_def upd_msc_data of_handle_def unit_busy_def)
  then show ?thesis by (simp add: start_rw_def Let_def) (rule of_handle_upd, simp_all add: unit_busy_def)
qed

lemma busy_refused:
  assumes "of_handle (unit_busy (unat lun)) (msc_ptr p x) (cdata x)"
  shows "rw_refused p lun x"
  using of_handle_at [OF assms] by (simp add: rw_refused_def unit_at_def Let_def unit_busy_def)

text \<open>
  A read or write that runs out of time takes the unit away for good. When \<open>USBH_MSC_Read\<close> or
  \<open>USBH_MSC_Write\<close> was not refused at the start and returns \<open>USBH_FAIL\<close>, the unit is left in the state the
  command was in, and from then on every read and write of this unit is refused at once, as long as
  nobody else changes the handle: only a new enumeration sets the unit back.
\<close>

theorem timed_out_unit_blocked:
  assumes "keeps_data (of_handle (unit_busy (unat lun)) q) E" and "q = msc_ptr p w" and "\<not> rw_refused p lun w"
    and "(if inward then USBH_MSC_Read E p lun blk b len w else USBH_MSC_Write E p lun blk b len w) = Some (USBH_FAIL, v)"
    and "msc_ptr p x = q" and "cdata x q = cdata v q"
  shows "lun_state (unit_at q (unat lun) v) \<noteq> MSC_IDLE
    \<and> USBH_MSC_Read F p lun blk' b' len' x = Some (USBH_FAIL, x) \<and> USBH_MSC_Write F p lun blk' b' len' x = Some (USBH_FAIL, x)"
proof -
  let ?B = "of_handle (unit_busy (unat lun)) q"
  let ?st = "if inward then MSC_READ else MSC_WRITE"
  have s: "?B (cdata (start_rw p lun ?st w))" unfolding assms(2) by (rule busy_start [OF assms(3)]) simp
  let ?y = "snd ((if inward then USBH_MSC_SCSI_Read else USBH_MSC_SCSI_Write) E p lun blk b len (start_rw p lun ?st w))"
  have y: "?B (cdata ?y)" "rw_loop E p q lun (Timer (hosts ?y p)) len ?y = Some (USBH_FAIL, v)"
    using assms(3,4) busy_unit.scsi_kept(2,3) [OF assms(1) s]
    by (cases inward; simp add: USBH_MSC_Read_def USBH_MSC_Write_def Let_def case_prod_beta assms(2))+
  obtain z where "v = upd_msc q (\<lambda>m. m\<lparr>msc_state := MSC_IDLE\<rparr>) z" "?B (cdata z)"
    using rw_loop_invariant [OF y(2), of "\<lambda>w. ?B (cdata w)" "\<lambda>_. True"] y(1)
      busy_RdWr [OF assms(1)] keeps_dataD [OF assms(1)] by auto
  then have v: "?B (cdata v)" by (simp add: busy_upd)
  then have "?B (cdata x)" using assms(6) by (simp add: of_handle_def)
  then have "rw_refused p lun x" unfolding assms(5) [symmetric] by (rule busy_refused)
  moreover have "lun_state (unit_at q (unat lun) v) \<noteq> MSC_IDLE"
    using of_handle_at [OF v] by (simp add: unit_at_def Let_def unit_busy_def)
  ultimately show ?thesis by (simp add: USBH_MSC_Read_def USBH_MSC_Write_def)
qed

section \<open>The number of units\<close>

lemma upd_unit_max [simp]: "max_lun (msc_at r (upd_unit q i (\<lambda>u. u\<lparr>prev_ready_state := a, state_changed := b\<rparr>) w)) = max_lun (msc_at r w)"
  by (auto simp: msc_at_def upd_unit_def upd_msc_data split: class_data.split)

lemma lun_faults:
  assumes "shaped q (cdata w)"
  shows "faults (upd_unit q i g w) = faults w @ (if i < 2 then [] else [OOB_Unit i])"
proof -
  obtain m where m: "cdata w q = MscData m" "length (msc_unit m) = 2"
    using assms by (auto simp: of_handle_def msc_shape_def split: class_data.splits)
  then show ?thesis by (simp add: upd_unit_def chk_unit_def upd_msc_def msc_at_def)
qed

lemma lun_index: "unat (n :: u32) \<le> 255 \<Longrightarrow> (ucast (i :: u8) < n) = (unat i < unat n)"
  by (simp add: word_less_nat_alt unat_up)

text \<open>With at most 255 units the loop ends, and it writes every one of them.\<close>

lemma luns_written:
  assumes "shaped q (cdata w)" "unat (max_lun (msc_at q w)) \<le> 255"
  shows "\<exists>v. lun_loop q i w = Some v \<and> shaped q (cdata v)
    \<and> faults v = faults w @ map OOB_Unit (filter (\<lambda>k. 2 \<le> k) [unat i..<unat (max_lun (msc_at q w))])
    \<and> (\<forall>j<2. unat i \<le> j \<longrightarrow> j < unat (max_lun (msc_at q w)) \<longrightarrow> prev_ready_state (unit_at q j v) = USBH_FAIL)
    \<and> (\<forall>j<2. j < unat i \<longrightarrow> unit_at q j v = unit_at q j w)"
  using assms
proof (induction "unat (max_lun (msc_at q w)) - unat i" arbitrary: i w)
  case 0
  then show ?case by (subst lun_loop.simps) (auto simp: lun_index)
next
  case (Suc d)
  let ?n = "unat (max_lun (msc_at q w))"
  let ?w = "upd_unit q (unat i) (\<lambda>u. u\<lparr>prev_ready_state := USBH_FAIL, state_changed := 0\<rparr>) w"
  have lt: "unat i < ?n" using Suc(2) by simp
  with Suc(4) have i1: "unat (i + 1) = Suc (unat i)" by (simp add: unat_word_ariths)
  have sh: "shaped q (cdata ?w)" by (rule shaped_bot [OF Suc(3)])
  have d: "d = unat (max_lun (msc_at q ?w)) - unat (i + 1)" "unat (max_lun (msc_at q ?w)) \<le> 255" using Suc(2,4) i1 by simp_all
  from Suc(1) [OF d(1) sh d(2)] obtain v where
    v: "lun_loop q (i + 1) ?w = Some v" "shaped q (cdata v)"
    "faults v = faults ?w @ map OOB_Unit (filter (\<lambda>k. 2 \<le> k) [Suc (unat i)..<?n])"
    "\<forall>j<2. Suc (unat i) \<le> j \<longrightarrow> j < ?n \<longrightarrow> prev_ready_state (unit_at q j v) = USBH_FAIL"
    "\<forall>j<2. j < Suc (unat i) \<longrightarrow> unit_at q j v = unit_at q j ?w" unfolding i1 upd_unit_max by blast
  obtain m where m: "cdata w q = MscData m" "length (msc_unit m) = 2"
    using Suc(3) by (auto simp: of_handle_def msc_shape_def split: class_data.splits)
  have u: "unit_at q j ?w = (if j = unat i then (unit_at q j w)\<lparr>prev_ready_state := USBH_FAIL, state_changed := 0\<rparr> else unit_at q j w)"
    if "j < 2" for j
    using m that by (simp add: unit_at_def Let_def msc_at_def upd_unit_def upd_msc_data nth_updated)
  have l: "lun_loop q i w = Some v" using lt Suc(4) v(1) by (subst lun_loop.simps) (simp add: lun_index)
  have up: "[unat i..<?n] = unat i # [Suc (unat i)..<?n]" using lt by (simp add: upt_conv_Cons)
  have "prev_ready_state (unit_at q j v) = USBH_FAIL" if "j < 2" "unat i \<le> j" "j < ?n" for j
    using v(4,5) u [OF that(1)] that by (cases "j = unat i") auto
  moreover have "unit_at q j v = unit_at q j w" if "j < 2" "j < unat i" for j
    using v(5) u [OF that(1)] that by simp
  moreover have "faults v = faults w @ map OOB_Unit (filter (\<lambda>k. 2 \<le> k) [unat i..<?n])"
    using v(3) lun_faults [OF Suc(3), of "unat i"] by (simp add: up)
  ultimately show ?case using l v(2) by blast
qed

lemma luns_endless:
  assumes "lun_loop q i w = Some v" shows "unat (max_lun (msc_at q w)) \<le> 255"
proof -
  define P where "P = (\<lambda>(q :: ptr) (i :: u8) (w :: usb) (v :: usb). unat (max_lun (msc_at q w)) \<le> 255)"
  have "P q i w v"
  proof (rule lun_loop.raw_induct [of P, OF _ assms], unfold P_def)
    fix loop and q :: ptr and i :: u8 and w v :: usb
    assume IH: "\<And>q i w v. loop q i w = Some v \<Longrightarrow> unat (max_lun (msc_at q w)) \<le> 255"
      and e: "(if ucast i < max_lun (msc_at q w)
        then loop q (i + 1) (upd_unit q (unat i) (\<lambda>u. u\<lparr>prev_ready_state := USBH_FAIL, state_changed := 0\<rparr>) w)
        else Some w) = Some v"
    show "unat (max_lun (msc_at q w)) \<le> 255"
    proof (cases "ucast i < max_lun (msc_at q w)")
      case True
      with e IH show ?thesis by fastforce
    next
      case False
      then have "unat (max_lun (msc_at q w)) \<le> unat i" by (simp add: not_less word_le_nat_alt unat_up)
      moreover have "unat i < 256" using unsigned_less [of i] by simp
      ultimately show ?thesis by simp
    qed
  qed
  then show ?thesis by (simp add: P_def)
qed

text \<open>
  C36: The number of units the device reports is taken as it is. When the request for the highest unit
  number succeeds with \<open>n\<close>, the class request ends for \<open>n < 255\<close>: it marks every unit the driver has room
  for, without a wrong access when \<open>n\<close> is 0 or 1, and with a write past the array of two units for each
  further one the device claims. For \<open>n = 255\<close> it never returns: the loop counts with eight bits to 256.
\<close>

theorem max_lun_unchecked:
  assumes "USBH_MSC_BOT_REQ_GetMaxLUN E p (BMaxLun q) w = (USBH_OK, x)" and "q = msc_ptr p w"
    and "cdata w q = MscData m" and "req_state m = MSC_REQ_IDLE" and "shaped q (cdata x)"
    and "n = unat (ucast (max_lun (msc_at q x)) :: u8)"
  shows "if n < 255 then \<exists>v. USBH_MSC_ClassRequest E p w = Some (USBH_OK, v)
        \<and> faults v = faults x @ map OOB_Unit [2..<Suc n]
        \<and> (\<forall>j<2. j \<le> n \<longrightarrow> prev_ready_state (unit_at q j v) = USBH_FAIL)
      else USBH_MSC_ClassRequest E p w = None"
proof -
  let ?x = "upd_msc q (\<lambda>m. m\<lparr>max_lun := ucast (ucast (max_lun m) :: u8) + 1\<rparr>) x"
  have sh: "shaped q (cdata ?x)" by (rule shaped_upd [OF _ assms(5)]) (simp add: msc_shape_def)
  obtain y where y: "cdata x q = MscData y" using assms(5) by (auto simp: of_handle_def split: class_data.splits)
  then have f: "faults ?x = faults x" by (simp add: upd_msc_def)
  have "n < 256" using unsigned_less [of "ucast (max_lun (msc_at q x)) :: u8"] by (simp add: assms(6))
  moreover have "max_lun (msc_at q ?x) = ucast (ucast (max_lun (msc_at q x)) :: u8) + 1" using y by (simp add: msc_at_def upd_msc_data)
  ultimately have n: "unat (max_lun (msc_at q ?x)) = Suc n" by (simp add: unat_word_ariths unat_up assms(6))
  have c: "chk_msc q w = w" "req_state (msc_at q w) = MSC_REQ_IDLE" using assms(3,4) by (simp_all add: chk_msc_def msc_at_def)
  have r: "USBH_MSC_ClassRequest E p w = map_option (\<lambda>w. (USBH_OK, w)) (lun_loop q 0 ?x)"
    using assms(1,2) c by (simp add: USBH_MSC_ClassRequest_def Let_def)
  show ?thesis
  proof (cases "n < 255")
    case True
    with luns_written [OF sh, of 0] n obtain v where v: "lun_loop q 0 ?x = Some v"
      "faults v = faults ?x @ map OOB_Unit (filter (\<lambda>k. 2 \<le> k) [0..<Suc n])"
      "\<forall>j<2. j < Suc n \<longrightarrow> prev_ready_state (unit_at q j v) = USBH_FAIL" by auto
    have "filter (\<lambda>k. 2 \<le> k) [0..<Suc n] = [2..<Suc n]"
      by (induction n) auto
    with v r f True show ?thesis by (auto simp: less_Suc_eq_le)
  next
    case False
    with luns_endless [of q 0 ?x] n have "lun_loop q 0 ?x = None" by (cases "lun_loop q 0 ?x") auto
    with r False show ?thesis by simp
  qed
qed

section \<open>The transport\<close>

text \<open>
  C20: The transport is the state machine of \<open>bot_next\<close>. One round of \<open>USBH_MSC_BOT_Process\<close>, whatever the device
  does, leaves the state or takes one of the transitions; it gives a result other than busy only on the
  status block of a command, and then the transport is ready for the next command. The state that would
  reset the device cannot be reached.
\<close>

theorem bot_state_machine:
  assumes "msc_environment E q" and "holds_msc q m (cdata w)" and "msc_ptr p w = q"
    and "bot_state (hbot m) \<noteq> BOT_UNRECOVERED_ERROR" and "USBH_MSC_BOT_Process E p lun w = (st, v)"
  shows "\<exists>m'. holds_msc q m' (cdata v)
    \<and> (bot_state (hbot m') = bot_state (hbot m) \<or> bot_next (bot_state (hbot m)) (bot_state (hbot m')))
    \<and> (st \<noteq> USBH_BUSY \<longrightarrow> st \<in> {USBH_OK, USBH_FAIL} \<and> bot_state (hbot m) = BOT_RECEIVE_CSW_WAIT
        \<and> bot_state (hbot m') = BOT_SEND_CBW \<and> bot_cmd_state (hbot m') = BOT_CMD_SEND)
    \<and> (\<forall>s. bot_next\<^sup>*\<^sup>* (bot_state (hbot m')) s \<longrightarrow> s \<noteq> BOT_UNRECOVERED_ERROR)"
proof -
  note b = msc_environment.bot_step [OF assms(1-4), of lun, unfolded assms(5)]
  from b(1) obtain m' where m: "holds_msc q m' (cdata v)"
    "bot_state (hbot m') = bot_state (hbot m) \<or> bot_next (bot_state (hbot m)) (bot_state (hbot m'))"
    by (auto simp: moves_def)
  have "bot_state (hbot m') \<noteq> BOT_UNRECOVERED_ERROR" using m(2) assms(4) by auto
  with b(2) m holds_msc_at(3,4) [OF m(1)] show ?thesis by (auto dest: never_unrecovered)
qed

section \<open>Witnesses\<close>

text \<open>A device that completes every transfer at once.\<close>

definition storing :: "ptr \<Rightarrow> (u8 list \<Rightarrow> u8) \<Rightarrow> (u8 list \<Rightarrow> u8 list) \<Rightarrow> usb \<Rightarrow> usb" where
  "storing q status reply w =
    (case cdata w q of
       MscData m \<Rightarrow> w\<lparr>hc := map (\<lambda>c. c\<lparr>hc_urb_state := USBH_URB_DONE, hc_xfer_count := 13\<rparr>) (hc w),
                        cdata := (cdata w)(q := MscData (io_done status reply q m))\<rparr>
     | _ \<Rightarrow> w)"

text \<open>It is a bus of the kind the properties ask for.\<close>

interpretation storing: storage_bus "storing q status reply" p q status reply for p q status reply
proof
  fix w m assume r: "request_ready p w" and m: "cdata w q = MscData m"
  have "request_ready p (storing q status reply w) = request_ready p w"
    by (rule request_ready_cong) (simp_all add: storing_def m)
  moreover have "length (hc w) = 15" using r by (simp add: request_ready_def)
  ultimately show "storage_reply p q status reply m w (storing q status reply w)"
    using r by (simp add: storage_reply_def storing_def m trace_def hc_get_def)
qed

interpretation storing_rw: command_rounds "storing q status reply" p q status reply
  "\<lambda>u v. rw_loop (storing q status reply) p q lun t0 n u = rw_loop (storing q status reply) p q lun t0 n v"
  "commanding (unat lun)" lun t0 w0 "unat (10000 * n)" for p q status reply lun t0 n w0
  by (rule storing.rw_rounds)

text \<open>A disk of one unit that accepts everything but the commands in \<open>bad\<close>.\<close>

definition refusing :: "u8 set \<Rightarrow> u8 list \<Rightarrow> u8" where
  "refusing bad cb = (if rd8 cb 0 \<in> bad then 1 else 0)"

definition disk :: MSC_HandleTypeDef where
  "disk = zero_msc\<lparr>msc_InPipe := 3, msc_OutPipe := 2, msc_InEpSize := 64, msc_OutEpSize := 64,
     msc_unit := replicate 2 (zero_lun\<lparr>lun_state := MSC_IDLE\<rparr>),
     hbot := (hbot zero_msc)\<lparr>bot_state := BOT_SEND_CBW, bot_cmd_state := BOT_CMD_SEND\<rparr>\<rparr>"

definition disk_world :: usb where
  "disk_world = upd_host hUSBHost (\<lambda>h. h\<lparr>gState := HOST_CLASS, pActiveClass := Some MSC_Class\<rparr>)
     (ctl_world\<lparr>cdata := (\<lambda>_. NoData)(40 := MscData disk), class_pData := (\<lambda>_. NULL)(MSC_Class := 40)\<rparr>)"

lemma disk_world_data:
  "msc_ptr hUSBHost disk_world = 40" "cdata disk_world 40 = MscData disk" "gState (hosts disk_world hUSBHost) = HOST_CLASS"
  "is_connected (device (hosts disk_world hUSBHost)) = 1" "Timer (hosts disk_world hUSBHost) = 0"
  by (simp_all add: disk_world_def msc_ptr_def ctl_world_def zero_host_def)

lemma disk_idle: "unit_idle hUSBHost 40 0 disk disk_world"
proof -
  have "request_ready hUSBHost disk_world = request_ready hUSBHost ctl_world"
    by (rule request_ready_cong) (simp_all add: disk_world_def)
  then show ?thesis using ctl_world_ready(1) disk_world_data
    by (simp add: unit_idle_def disk_def)
qed

lemma block_status:
  "refusing bad (rw_block oc blk len) = (if oc \<in> bad then 1 else 0)" "refusing bad (sense_block lun) = (if 3 \<in> bad then 1 else 0)"
  using block_bytes(2) [of oc blk len] by (simp_all add: refusing_def sense_block_def rd8_def)

lemma sectors_moved_witness:
  "\<exists>v ys. USBH_MSC_Read (storing 40 (refusing {}) (\<lambda>_. [])) hUSBHost 0 0x10000 (BMem 7 0) 3 disk_world = Some (USBH_OK, v)
     \<and> list_all2 (\<lambda>(a, l). bulk_in 3 (BMem 7 a) 64) (split_parts 64 0 1536) ys \<and> faults v = faults disk_world"
proof -
  have "(64 :: nat) = unat (if True then msc_InEpSize disk else msc_OutEpSize disk)" "(0 :: nat) < 64"
    "0 < unat (3 :: u32)" "unat (3 :: u32) \<le> 65535" "msc_InPipe disk = 3"
    "refusing {} (rw_block (if True then OPCODE_READ10 else OPCODE_WRITE10) 0x10000 3) = 0"
    by (simp_all add: disk_def block_status)
  from sectors_moved [where inward = True and status = "refusing {}" and b = "BMem 7 0" and reply = "\<lambda>_. []",
      OF storing.storage_bus_axioms disk_idle this(1-4) refl refl this(6)] this(5)
  show ?thesis by auto
qed

lemma refused_read_returns_ok_witness:
  "\<exists>v m. USBH_MSC_Read (storing 40 (refusing {0x28}) (\<lambda>_. [])) hUSBHost 0 5 (BMem 7 0) 1 disk_world = Some (USBH_OK, v)
     \<and> unit_idle hUSBHost 40 0 m v \<and> lun_error (msc_unit m ! 0) = MSC_ERROR"
proof -
  have "(64 :: nat) = unat (if True then msc_InEpSize disk else msc_OutEpSize disk)" "(0 :: nat) < 64"
    "14 \<le> unat (msc_InEpSize disk)" "14 \<le> length (bot_data (hbot disk))" "0 < unat (1 :: u32)" "unat (1 :: u32) \<le> 65535"
    "refusing {0x28} (rw_block (if True then OPCODE_READ10 else OPCODE_WRITE10) 5 1) \<noteq> 0" "refusing {0x28} (sense_block 0) = 0"
    by (simp_all add: disk_def block_status zero_msc_def)
  from refused_read_returns_ok [OF storing.storage_bus_axioms disk_idle this, where b = "BMem 7 0" and reply = "\<lambda>_. []"]
  show ?thesis by auto
qed

lemma read10_roundtrip_witness:
  "BE32 (cbw_data (cbw (bot_at 40 (snd (USBH_MSC_BOT_Process id hUSBHost 0
     (snd (USBH_MSC_SCSI_Read id hUSBHost 0 0x12345678 BNull 0x10001 disk_world))))))) 17 = 0x12345678"
proof -
  have "bot_cmd_state (hbot disk) = BOT_CMD_SEND" by (simp add: disk_def)
  from read10_roundtrip [where inward = True and E = id and blk = "0x12345678" and b = BNull and len = "0x10001",
      OF _ this refl refl refl, of disk_world hUSBHost 0]
  show ?thesis unfolding disk_world_data(1) by (simp add: disk_world_data(2))
qed

text \<open>Nothing answers, and the timer runs over.\<close>

definition ticking :: "ptr \<Rightarrow> usb \<Rightarrow> usb" where
  "ticking p w = upd_host p (\<lambda>h. h\<lparr>Timer := Timer h + 20000\<rparr>) w"

lemma timed_out_unit_blocked_witness:
  "\<exists>v. USBH_MSC_Read (ticking hUSBHost) hUSBHost 0 5 (BMem 7 0) 1 disk_world = Some (USBH_FAIL, v)
     \<and> USBH_MSC_Read id hUSBHost 0 5 (BMem 7 0) 1 v = Some (USBH_FAIL, v)"
proof -
  let ?E = "ticking hUSBHost" and ?b = "BMem 7 0"
  note on = idle_on_bus [OF disk_idle]
  have i: "unat (0 :: u8) < length (msc_unit disk)" "lun_state (msc_unit disk ! unat (0 :: u8)) = MSC_IDLE" "bot_cmd_state (hbot disk) = BOT_CMD_SEND"
    by (simp_all add: disk_def)
  from rw_starts [OF on i, where E = ?E and inward = True and blk = 5 and b = ?b and len = 1] obtain x where
    x: "USBH_MSC_Read ?E hUSBHost 0 5 ?b 1 disk_world = rw_loop ?E hUSBHost 40 0 (Timer (hosts x hUSBHost)) 1 x"
    "on_bus hUSBHost 40 disk_world 0 0 [] (rw_handle True 0 5 ?b 1 disk) x" "hosts x = hosts disk_world"
    unfolding disk_world_data by auto
  note s = rw_handle_sel [OF i(1) refl, where inward = True and blk = 5 and b = ?b and len = 1]
  note a = on_bus_at [OF x(2)]
  have h: "hosts (upd_msc q f z) = hosts z" "class_pData (upd_msc q f z) = class_pData z" for q f z
    by (simp_all add: upd_msc_def chk_def split: class_data.split)
  have b: "hosts (snd (USBH_BulkSendData p b n ch g z)) = hosts z" "class_pData (snd (USBH_BulkSendData p b n ch g z)) = class_pData z"
    for p b n ch g z by (simp_all add: ioreq_defs USBH_LL_SubmitURB_def)
  obtain y where y: "USBH_MSC_BOT_Process ?E hUSBHost 0 x = (USBH_BUSY, y)" "hosts y = hosts x" "class_pData y = class_pData x"
    using a s(1) by (simp add: USBH_MSC_BOT_Process_def Let_def h b)
  let ?v = "upd_msc 40 (\<lambda>m. m\<lparr>msc_state := MSC_IDLE\<rparr>) (?E (msc_event y))"
  have "USBH_MSC_RdWrProcess ?E hUSBHost 0 x = (USBH_BUSY, msc_event y)" by (rule RdWr_busy [OF x(2) s(2) y(1)])
  then have "rw_loop ?E hUSBHost 40 0 0 1 x = Some (USBH_FAIL, ?v)"
    using y(2) x(3) disk_world_data(5) by (subst rw_loop.simps) (simp add: Let_def ticking_def)
  with x(1,3) disk_world_data(5) have r: "USBH_MSC_Read ?E hUSBHost 0 5 ?b 1 disk_world = Some (USBH_FAIL, ?v)" by simp
  have "msc_ptr hUSBHost ?v = msc_ptr hUSBHost x" by (rule msc_ptr_cong) (simp_all add: h ticking_def y)
  then have p: "msc_ptr hUSBHost ?v = 40" using a(2) by simp
  have k: "keeps_data (of_handle (unit_busy (unat (0 :: u8))) 40) ?E" by (simp add: keeps_data_def ticking_def)
  have nr: "\<not> rw_refused hUSBHost 0 disk_world"
    using i disk_world_data on_bus_at(1) [OF on] unit_on_bus(1) [OF on i(1)] by (simp add: rw_refused_def)
  from timed_out_unit_blocked [where inward = True, OF k disk_world_data(1) [symmetric] nr _ p refl, of 5 ?b 1 id 5 ?b 1] r
  show ?thesis by auto
qed

text \<open>The last stage of the request has just completed on channel 0; the device has answered with \<open>n\<close>.\<close>

definition lun_world :: "u32 \<Rightarrow> usb" where
  "lun_world n = upd_host hUSBHost (\<lambda>h. h\<lparr>RequestState := CMD_WAIT, Control := (Control h)\<lparr>ctl_state := CTRL_STATUS_OUT_WAIT\<rparr>\<rparr>)
     (disk_world\<lparr>cdata := (\<lambda>_. NoData)(40 := MscData (disk\<lparr>max_lun := n\<rparr>)),
        hc := replicate HC_COUNT (zero_hc\<lparr>hc_urb_state := USBH_URB_DONE\<rparr>)\<rparr>)"

lemma lun_request:
  "\<exists>x. USBH_MSC_BOT_REQ_GetMaxLUN id hUSBHost b (lun_world n) = (USBH_OK, x) \<and> cdata x = cdata (lun_world n)"
proof -
  let ?w = "put_setup hUSBHost 0xA1 0xFE 0 0 1 (lun_world n)"
  have "request_ready hUSBHost ?w = request_ready hUSBHost disk_world"
    by (rule request_ready_cong) (simp_all add: put_setup_def lun_world_def disk_world_def ctl_world_def reset_usb_def)
  then have "request_ready hUSBHost ?w" using disk_idle by (simp add: unit_idle_def)
  then have p: "pipes_allocated hUSBHost ?w = (True, ?w)" by (rule request_readyD)
  have r: "fst (USBH_MSC_BOT_REQ_GetMaxLUN id hUSBHost b (lun_world n)) = USBH_OK"
    unfolding USBH_MSC_BOT_REQ_GetMaxLUN_def USBH_CtlReq_def p
    by (simp add: Let_def put_setup_def lun_world_def disk_world_def ctl_world_def zero_host_def zero_ctrl_def USBH_HandleControl_def
        USBH_LL_GetURBState_def HAL_HCD_HC_GetURBState_def chk_hc_def chk_hcd_def hc_get_def reset_usb_def case_prod_beta)
  have "keeps_data (\<lambda>d. d = cdata (lun_world n)) id" by (simp add: keeps_data_def)
  then have "cdata (snd (USBH_MSC_BOT_REQ_GetMaxLUN id hUSBHost b (lun_world n))) = cdata (lun_world n)"
    unfolding USBH_MSC_BOT_REQ_GetMaxLUN_def by (rule ctlreq_data) simp
  with r show ?thesis by (metis prod.collapse)
qed

lemma max_lun_unchecked_witness:
  "USBH_MSC_ClassRequest id hUSBHost (lun_world 255) = None
   \<and> (\<exists>v. USBH_MSC_ClassRequest id hUSBHost (lun_world 3) = Some (USBH_OK, v) \<and> OOB_Unit 2 \<in> set (faults v))"
proof -
  have w: "cdata (lun_world n) 40 = MscData (disk\<lparr>max_lun := n\<rparr>)" "(40 :: ptr) = msc_ptr hUSBHost (lun_world n)" for n
  proof -
    have "msc_ptr hUSBHost (lun_world n) = msc_ptr hUSBHost disk_world" by (rule msc_ptr_cong) (simp_all add: lun_world_def)
    then show "(40 :: ptr) = msc_ptr hUSBHost (lun_world n)" using disk_world_data(1) by simp
  qed (simp add: lun_world_def)
  have d: "req_state (disk\<lparr>max_lun := n\<rparr>) = MSC_REQ_IDLE" "msc_shape (disk\<lparr>max_lun := n\<rparr>)" for n
    by (simp_all add: disk_def msc_shape_def zero_msc_def)
  obtain x y where x: "USBH_MSC_BOT_REQ_GetMaxLUN id hUSBHost (BMaxLun 40) (lun_world 255) = (USBH_OK, x)" "cdata x = cdata (lun_world 255)"
    and y: "USBH_MSC_BOT_REQ_GetMaxLUN id hUSBHost (BMaxLun 40) (lun_world 3) = (USBH_OK, y)" "cdata y = cdata (lun_world 3)"
    using lun_request by metis
  have "of_handle msc_shape 40 (cdata x)" "of_handle msc_shape 40 (cdata y)" using w d by (simp_all add: of_handle_def x y)
  note m = max_lun_unchecked [OF x(1) w(2,1) d(1) this(1) refl] max_lun_unchecked [OF y(1) w(2,1) d(1) this(2) refl]
  have n: "unat (ucast (max_lun (msc_at 40 x)) :: u8) = 255" "unat (ucast (max_lun (msc_at 40 y)) :: u8) = 3"
    by (simp_all add: msc_at_def x y w)
  from m(2) obtain v where "USBH_MSC_ClassRequest id hUSBHost (lun_world 3) = Some (USBH_OK, v)" "faults v = faults y @ map OOB_Unit [2..<4]"
    unfolding n by (auto simp: eval_nat_numeral)
  moreover have "(2 :: nat) \<in> set [2..<4]" by simp
  ultimately show ?thesis using m(1) unfolding n by (auto simp del: set_upt)
qed

lemma bot_state_machine_witness:
  "\<exists>m'. holds_msc 40 m' (cdata (snd (USBH_MSC_BOT_Process id hUSBHost 0 disk_world))) \<and> bot_state (hbot m') \<noteq> BOT_UNRECOVERED_ERROR"
proof -
  have h: "holds_msc 40 disk (cdata disk_world)" using holds_mscI [of "cdata disk_world" 40 disk] disk_world_data(2) by simp
  have "bot_state (hbot disk) \<noteq> BOT_UNRECOVERED_ERROR" by (simp add: disk_def)
  from bot_state_machine [OF undisturbed_msc.msc_environment_axioms h disk_world_data(1) this prod.collapse [symmetric], of 0]
  show ?thesis by (metis rtranclp.rtrancl_refl)
qed

end
