(* ===== verification/Usb_MSC_Start_Props.thy ===== *)
theory Usb_MSC_Start_Props
  imports Usb_MSC_Start Usb_MSC_Props
begin

text \<open>
  The start-up of the storage class, from its first round to the call that tells the application.
\<close>

text \<open>The handle of a driver that has just been set up, with its units not asked yet.\<close>

definition starting :: "ptr \<Rightarrow> ptr \<Rightarrow> MSC_HandleTypeDef \<Rightarrow> usb \<Rightarrow> bool" where
  "starting p q m w \<longleftrightarrow>
     request_ready p w \<and> gState (hosts w p) = HOST_CLASS \<and> msc_ptr p w = q \<and> cdata w q = MscData m \<and> pUser (hosts w p) \<noteq> NULL
     \<and> unat (msc_InPipe m) < HC_COUNT \<and> unat (msc_OutPipe m) < HC_COUNT \<and> 36 \<le> unat (msc_InEpSize m)
     \<and> msc_shape m \<and> unat (max_lun m) \<le> 2 \<and> msc_state m = MSC_INIT \<and> current_lun m = 0
     \<and> bot_cmd_state (hbot m) = BOT_CMD_SEND \<and> cbw_CB (cbw (hbot m)) = replicate 16 0
     \<and> (\<forall>i < unat (max_lun m). lun_state (msc_unit m ! i) = MSC_INIT)"

lemma starting_between:
  assumes "starting p q m w"
  shows "on_bus p q w (Timer (hosts w p)) 0 [] m w" "between m" "current_lun m = of_nat 0" "0 + unat (max_lun m) = unat (max_lun m)"
    "unat (max_lun m) \<le> length (msc_unit m)" "length (msc_unit m) < 256"
  using assms by (simp_all add: starting_def on_bus_def between_def msc_shape_def)

lemma on_bus_out:
  assumes "on_bus p q w0 t0 k xs m w" "visible c"
  shows "on_bus p q w0 t0 k (xs @ [c]) m (out c w)"
proof -
  have "request_ready p (out c w) = request_ready p w" by (rule request_ready_cong) (simp_all add: out_def)
  moreover have "msc_ptr p (out c w) = msc_ptr p w" by (rule msc_ptr_cong) (simp_all add: out_def)
  ultimately show ?thesis using assms by (simp add: on_bus_def)
qed

lemma no_fault: "chk True x w = w"
  by (simp add: chk_def)

lemma few_units: "k \<le> 2 \<Longrightarrow> unat (of_nat k :: u16) = k"
  by (simp add: unat_of_nat)

text \<open>The last round of the start-up tells the user.\<close>

lemma process_last:
  assumes "on_bus p q w0 t0 k xs m v" "msc_state m = MSC_INIT" "ucast (current_lun m) = max_lun m" "pUser (hosts w0 p) \<noteq> NULL"
  shows "\<exists>v'. USBH_MSC_Process E p v = (USBH_BUSY, v')
    \<and> on_bus p q w0 t0 k (xs @ User p HOST_USER_CLASS_ACTIVE # (if p \<noteq> NULL \<and> app_class (hosts v p) \<noteq> NULL then [App_Start p] else []))
         (m\<lparr>current_lun := 0, msc_state := MSC_IDLE\<rparr>) v'"
proof -
  let ?m = "m\<lparr>current_lun := 0, msc_state := MSC_IDLE\<rparr>" and ?v = "upd_msc q (\<lambda>m. m\<lparr>current_lun := 0, msc_state := MSC_IDLE\<rparr>) v"
  have u: "on_bus p q w0 t0 k xs ?m ?v" by (rule on_bus_upd [OF assms(1)]) simp_all
  have h: "hosts ?v = hosts v" using on_bus_at(5) [OF assms(1)] by (simp add: upd_msc_def)
  have "pUser (hosts v p) \<noteq> NULL" using assms(1,4) by (simp add: on_bus_def)
  moreover have u': "on_bus p q w0 t0 k xs ?m (msc_event ?v)" using u by simp
  ultimately have "on_bus p q w0 t0 k (xs @ User p HOST_USER_CLASS_ACTIVE # (if p \<noteq> NULL \<and> app_class (hosts v p) \<noteq> NULL then [App_Start p] else []))
      ?m (call_user p HOST_USER_CLASS_ACTIVE (msc_event ?v))"
    using on_bus_out [OF u'] on_bus_out [OF on_bus_out [OF u']] h
    by (auto simp: call_user_def USBH_UserProcess_def no_fault)
  with on_bus_at [OF assms(1)] assms(2,3) show ?thesis by (simp add: USBH_MSC_Process_def Let_def)
qed

text \<open>
  C6: The start-up of the storage class. On a device that accepts INQUIRY, TEST UNIT READY and READ
  CAPACITY for each of its units, the background process, called again and again, comes to an end: it puts
  exactly the three commands of each unit on the bus, in the order of the units (each a command block of 31
  bytes, a transfer into the driver's own data where there is an answer, and a status block), then tells
  the application once that the class is active. Every unit is then idle, without an error, holds what the
  device answered (\<open>started\<close>: vendor, product and revision, number and size of the blocks), and can be read
  and written (\<open>unit_idle\<close>); no access went wrong, and the timer went on by at most 30 ticks per unit.
\<close>

theorem storage_starts_up:
  assumes "storage_bus E p q status reply" and "starting p q m w"
    and "\<forall>i < unat (max_lun m). unit_answers status reply (of_nat i)"
  shows "\<exists>n v yss m'. USBH_MSC_Process E p (msc_rounds n E p w) = (USBH_BUSY, v)
    \<and> trace v = trace w @ concat yss @ User p HOST_USER_CLASS_ACTIVE
        # (if p \<noteq> NULL \<and> app_class (hosts (msc_rounds n E p w) p) \<noteq> NULL then [App_Start p] else [])
    \<and> length yss = unat (max_lun m) \<and> list_all (unit_transfers q m) yss
    \<and> cdata v q = MscData m' \<and> msc_state m' = MSC_IDLE
    \<and> (\<forall>i < unat (max_lun m). unit_idle p q (of_nat i) m' v \<and> msc_unit m' ! i = started reply (of_nat i) (msc_unit m ! i))
    \<and> unat (Timer (hosts v p) - Timer (hosts w p)) \<le> 30 * unat (max_lun m) \<and> faults v = faults w"
proof -
  let ?n = "unat (max_lun m)" and ?t = "Timer (hosts w p)"
  note s = starting_between [OF assms(2)]
  have u: "lun_state (msc_unit m ! j) = MSC_INIT \<and> unit_answers status reply (of_nat j)" if "0 \<le> j" "j < 0 + ?n" for j
    using assms(2,3) that by (simp add: starting_def)
  have c: "comes_by (after_rounds E p) p q ?t w w 0 [] m" by (rule comes_by_refl [OF after_refl s(1)])
  from storage_bus.units_start [OF assms(1) c s(2-6) u] obtain yss h where
    1: "length yss = ?n" "list_all (unit_transfers q m) yss" "comes_by (after_rounds E p) p q ?t w w (30 * ?n) (concat yss) h"
    "between h" "same_device m h" "current_lun h = of_nat ?n"
    "\<forall>j < length (msc_unit m). msc_unit h ! j = (if j < ?n then started reply (of_nat j) (msc_unit m ! j) else msc_unit m ! j)" by auto
  from 1(3) obtain n where e: "on_bus p q w ?t (30 * ?n) (concat yss) h (msc_rounds n E p w)"
    unfolding comes_by_def after_rounds_def by blast
  let ?m = "h\<lparr>current_lun := 0, msc_state := MSC_IDLE\<rparr>"
  have "?n \<le> 2" "pUser (hosts w p) \<noteq> NULL" using assms(2) by (simp_all add: starting_def)
  moreover from few_units [OF this(1)] have "ucast (current_lun h) = max_lun h"
    using 1(5) unfolding 1(6) [symmetric] by (simp add: same_device_def word_unat_eq_iff unat_up)
  moreover have "msc_state h = MSC_INIT" using 1(4) by (simp add: between_def)
  ultimately obtain v where v: "USBH_MSC_Process E p (msc_rounds n E p w) = (USBH_BUSY, v)"
    "on_bus p q w ?t (30 * ?n) (concat yss @ User p HOST_USER_CLASS_ACTIVE
        # (if p \<noteq> NULL \<and> app_class (hosts (msc_rounds n E p w) p) \<noteq> NULL then [App_Start p] else [])) ?m v"
    using process_last [OF e, of E] by blast
  have "unit_idle p q (of_nat i) ?m v \<and> msc_unit ?m ! i = started reply (of_nat i) (msc_unit m ! i)" if "i < ?n" for i
  proof -
    have "i < length (msc_unit m)" "unat (of_nat i :: u8) = i" using s(5,6) that by (simp_all add: unat_of_nat)
    then show ?thesis using v(2) 1(4,5,7) that by (simp add: unit_idle_def on_bus_def same_device_def between_def started_def)
  qed
  with v 1(1,2) show ?thesis unfolding on_bus_def
    by (intro exI [of _ n] exI [of _ v] exI [of _ yss] exI [of _ ?m]) simp
qed

interpretation storing_startup: command_rounds "storing q status reply" p q status reply
  "after_rounds (storing q status reply) p" "startup_command lun" lun t0 w0 limit for p q status reply lun t0 w0 limit
  by (rule storage_bus.startup_rounds [OF storing.storage_bus_axioms])

text \<open>A disk of two units that has just been set up: it tells its name and its size when it is asked.\<close>

definition new_disk :: MSC_HandleTypeDef where
  "new_disk = disk\<lparr>msc_state := MSC_INIT, max_lun := 2, msc_unit := replicate 2 zero_lun\<rparr>"

definition new_disk_world :: usb where
  "new_disk_world = upd_host hUSBHost (\<lambda>h. h\<lparr>pUser := 1\<rparr>) (disk_world\<lparr>cdata := (\<lambda>_. NoData)(40 := MscData new_disk)\<rparr>)"

definition telling :: "u8 list \<Rightarrow> u8 list" where
  "telling cb = (if rd8 cb 0 = OPCODE_INQUIRY then replicate 36 0x41 else [0, 0, 0x3B, 0x9F, 0, 0, 2, 0])"

lemma storage_starts_up_witness:
  "\<exists>n v m'. USBH_MSC_Process (storing 40 (refusing {}) telling) hUSBHost (msc_rounds n (storing 40 (refusing {}) telling) hUSBHost new_disk_world)
       = (USBH_BUSY, v)
     \<and> cdata v 40 = MscData m' \<and> lun_capacity (msc_unit m' ! 1) = \<lparr>block_nbr = 0x3B9F, block_size = 512\<rparr> \<and> faults v = faults new_disk_world"
proof -
  have "request_ready hUSBHost new_disk_world = request_ready hUSBHost disk_world"
    by (rule request_ready_cong) (simp_all add: new_disk_world_def)
  moreover have "msc_ptr hUSBHost new_disk_world = msc_ptr hUSBHost disk_world" by (rule msc_ptr_cong) (simp_all add: new_disk_world_def)
  moreover have "request_ready hUSBHost disk_world" using disk_idle by (simp add: unit_idle_def)
  ultimately have w: "request_ready hUSBHost new_disk_world" "msc_ptr hUSBHost new_disk_world = 40" using disk_world_data(1) by simp_all
  have d: "gState (hosts new_disk_world hUSBHost) = HOST_CLASS" "cdata new_disk_world 40 = MscData new_disk"
    "pUser (hosts new_disk_world hUSBHost) \<noteq> NULL"
    using disk_world_data(3) by (simp_all add: new_disk_world_def)
  have "lun_state (msc_unit new_disk ! i) = MSC_INIT" if "i < 2" for i
    using that by (simp add: new_disk_def zero_lun_def)
  then have s: "starting hUSBHost 40 new_disk new_disk_world" unfolding starting_def using w d
    by (simp add: new_disk_def disk_def msc_shape_def zero_msc_def)
  have l: "unat (max_lun new_disk) = 2" by (simp add: new_disk_def)
  have "\<forall>i < unat (max_lun new_disk). unit_answers (refusing {}) telling (of_nat i)"
    by (simp add: unit_answers_def refusing_def telling_def inquiry_block_def capacity_block_def rd8_def)
  from storage_starts_up [OF storing.storage_bus_axioms s this] obtain n v m' where
    "USBH_MSC_Process (storing 40 (refusing {}) telling) hUSBHost (msc_rounds n (storing 40 (refusing {}) telling) hUSBHost new_disk_world)
       = (USBH_BUSY, v)" "cdata v 40 = MscData m'" and u: "msc_unit m' ! 1 = started telling 1 (msc_unit new_disk ! 1)" and "faults v = faults new_disk_world"
    unfolding l by fastforce
  moreover have "capacity_of (telling capacity_block) = \<lparr>block_nbr = 0x3B9F, block_size = 512\<rparr>"
    by (simp add: capacity_of_def telling_def capacity_block_def rd8_def BE32_def BE16_def LE32_def LE16_def)
  ultimately show ?thesis by (intro exI [of _ n] exI [of _ v] exI [of _ m']) (simp add: u started_def)
qed

end
