(* ===== verification/Usb_AOA_Requests.thy ===== *)
theory Usb_AOA_Requests
  imports Usb_AOA Usb_Bus
begin

text \<open>
  Control requests that send data, as the accessory driver makes them for its strings: the transfers of such
  a request, and what the buffer holds while it is made (locale \<open>reading_bus\<close>).
\<close>

section \<open>Requests that send data\<close>

text \<open>The transfers of a request that sends; the code does not fix which data packet comes first.\<close>

definition out_calls :: "ptr \<Rightarrow> usb \<Rightarrow> USB_Setup_TypeDef \<Rightarrow> buf_ptr \<Rightarrow> u16 \<Rightarrow> u8 \<Rightarrow> hal_call list" where
  "out_calls p w s b n pid =
    [HC_StartXfer (pipe_out (ctl p w)) 0 USBH_EP_CONTROL HC_PID_SETUP (Packet s) 8,
     HC_StartXfer (pipe_out (ctl p w)) 0 USBH_EP_CONTROL pid (Buffer b) n,
     HC_StartXfer (pipe_in (ctl p w)) 1 USBH_EP_CONTROL HC_PID_DATA1 (Buffer BNull) 0]"

context reliable_bus
begin

lemma control_out:
  assumes "idle_for p r w" "bmRequestType (rq_setup r) AND 0x80 \<noteq> 0x80" "wLength (rq_setup r) \<noteq> 0"
  shows "\<exists>pid \<in> {HC_PID_DATA0, HC_PID_DATA1}. completes r 7
     [HC_StartXfer (rq_out r) 0 USBH_EP_CONTROL HC_PID_SETUP (Packet (rq_setup r)) 8,
      HC_StartXfer (rq_out r) 0 USBH_EP_CONTROL pid (Buffer (rq_buff r)) (rq_len r),
      HC_StartXfer (rq_in r) 1 USBH_EP_CONTROL HC_PID_DATA1 (Buffer BNull) 0] w"
proof -
  have a: "after_setup (rq_setup r) = CTRL_DATA_OUT" using assms(2,3) by (simp add: after_setup_def)
  from request_first [OF assms(1), of E] obtain w1 where 1: "request E p r w = (USBH_BUSY, w1)"
    "at_stage p r CTRL_SETUP w1" "sent [] w w1" by blast
  from stage_setup [OF 1(2), of E] obtain w2 where 2: "request E p r w1 = (USBH_BUSY, w2)"
    "at_stage p r CTRL_SETUP_WAIT w2"
    "sent [HC_StartXfer (rq_out r) 0 USBH_EP_CONTROL HC_PID_SETUP (Packet (rq_setup r)) 8] w1 w2" by blast
  from setup_done [OF 2(2)] obtain w3 where 3: "request E p r w2 = (USBH_BUSY, w3)"
    "at_stage p r CTRL_DATA_OUT w3" "sent [] w2 w3" unfolding a by blast
  from completes_step [OF 1(1,3) completes_step [OF 2(1,3) completes_step [OF 3(1,3) from_data_out [OF 3(2)]]]]
  show ?thesis by (auto simp: eval_nat_numeral split: if_splits)
qed

text \<open>Every stage is followed by another one, until the request is over.\<close>

definition stages :: "CTRL_StateTypeDef set" where
  "stages = {CTRL_SETUP, CTRL_SETUP_WAIT, CTRL_DATA_OUT, CTRL_DATA_OUT_WAIT, CTRL_STATUS_IN, CTRL_STATUS_IN_WAIT}"

definition sending :: "ctl_request \<Rightarrow> usb \<Rightarrow> bool" where
  "sending r w \<longleftrightarrow> (\<exists>st \<in> stages. at_stage p r st w)"

lemma sending_next:
  assumes "sending r w" "after_setup (rq_setup r) = CTRL_DATA_OUT" "fst (request E p r w) = USBH_BUSY"
  shows "sending r (snd (request E p r w))"
proof -
  from assms(1) consider "at_stage p r CTRL_SETUP w" | "at_stage p r CTRL_SETUP_WAIT w" | "at_stage p r CTRL_DATA_OUT w"
    | "at_stage p r CTRL_DATA_OUT_WAIT w" | "at_stage p r CTRL_STATUS_IN w" | "at_stage p r CTRL_STATUS_IN_WAIT w"
    by (auto simp: sending_def stages_def)
  then show ?thesis
  proof cases
    case 1
    from stage_setup [OF this, of E] show ?thesis by (auto simp: sending_def stages_def)
  next
    case 2
    from setup_done [OF this] assms(2) show ?thesis by (auto simp: sending_def stages_def)
  next
    case 3
    from stage_data_out [OF this, of E] show ?thesis by (auto simp: sending_def stages_def)
  next
    case 4
    from data_out_done [OF this] show ?thesis by (auto simp: sending_def stages_def)
  next
    case 5
    from stage_status_in [OF this, of E] show ?thesis by (auto simp: sending_def stages_def)
  next
    case 6
    from finish [OF this] assms(3) show ?thesis by auto
  qed
qed

end

lemma run_req_same:
  assumes "\<And>v. I v \<Longrightarrow> f v = g v" "\<And>v. I v \<Longrightarrow> fst (g v) = USBH_BUSY \<Longrightarrow> I (snd (g v))" "I w"
  shows "run_req n f w = run_req n g w"
  using assms(3) by (induction n arbitrary: w) (auto simp: Let_def case_prod_beta assms(1,2))

section \<open>A string of the driver\<close>

definition set_protocol :: "AOA_INFO_INDEX \<Rightarrow> USB_Setup_TypeDef" where
  "set_protocol i = \<lparr>bmRequestType = 0x40, bRequest = 52, wValue = 0, wIndex = info_index i,
     wLength = of_nat (length (c_string (AOA_Info i)))\<rparr>"

lemma info_length: "0 < length (c_string (AOA_Info i))" "length (c_string (AOA_Info i)) \<le> 15"
  "unat (of_nat (length (c_string (AOA_Info i))) :: u16) = length (c_string (AOA_Info i))"
  by (cases i; simp add: c_string_def)+

lemma put_fill:
  assumes "RequestState (hosts w p) = CMD_SEND"
  shows "put_data p bs (fill_setup p a b c d e w) = fill_setup p a b c d e (put_data p bs w)"
    "wLength (ctl_setup (ctl p (fill_setup p a b c d e (put_data p bs w)))) = e"
proof -
  have "upd_dev p f (upd_ctl p g v) = upd_ctl p g (upd_dev p f v)" for f g v by (cases "hosts v p") (simp add: upd_host_def)
  moreover have "chk t x (upd_ctl p g v) = upd_ctl p g (chk t x v)" for t x g v by (simp add: chk_def upd_host_def)
  ultimately show "put_data p bs (fill_setup p a b c d e w) = fill_setup p a b c d e (put_data p bs w)"
    using assms by (simp add: put_data_def fill_setup_def Let_def)
  show "wLength (ctl_setup (ctl p (fill_setup p a b c d e (put_data p bs w)))) = e"
    using assms by (simp add: put_data_def fill_setup_def Let_def)
qed

lemma SetProtocol_first:
  assumes "RequestState (hosts w p) = CMD_SEND"
  shows "USBH_SetProtocol E p i w = std_request E p (set_protocol i) (BData p) (wLength (set_protocol i)) (put_data p (c_string (AOA_Info i)) w)"
  using assms by (simp add: USBH_SetProtocol_def std_request_def set_protocol_def Let_def put_fill [OF assms])

lemma SetProtocol_again:
  assumes "RequestState (hosts w p) = CMD_WAIT" "ctl_setup (ctl p w) = set_protocol i"
  shows "USBH_SetProtocol E p i w = std_request E p (set_protocol i) (BData p) (wLength (set_protocol i)) w"
  using assms by (simp add: USBH_SetProtocol_def std_request_def fill_setup_def Let_def)

lemma run_req_inv:
  assumes "\<And>v. I v \<Longrightarrow> J v" "\<And>v. I v \<Longrightarrow> J (snd (g v))" "\<And>v. I v \<Longrightarrow> fst (g v) = USBH_BUSY \<Longrightarrow> I (snd (g v))" "I w"
  shows "J (snd (run_req k g w))"
  using assms(4) by (induction k arbitrary: w) (simp_all add: assms(1-3) Let_def case_prod_beta)

lemma put_data_facts:
  "keeps p w (put_data p bs w)" "trace (put_data p bs w) = trace w" "request_ready p (put_data p bs w) = request_ready p w"
  "RequestState (hosts (put_data p bs w) p) = RequestState (hosts w p)"
  "the_request p (put_data p bs w) s b n = the_request p w s b n"
  "length bs \<le> length (Data (device (hosts w p))) \<Longrightarrow> faults (put_data p bs w) = faults w"
  "length bs \<le> length (Data (device (hosts w p))) \<Longrightarrow> take (length bs) (Data (device (hosts (put_data p bs w) p))) = bs"
proof -
  show "keeps p w (put_data p bs w)" by (simp add: put_data_def Let_def keeps_def strip_def)
  show "request_ready p (put_data p bs w) = request_ready p w" by (rule request_ready_cong) (simp_all add: put_data_def Let_def)
qed (simp_all add: put_data_def Let_def the_request_def)

lemma first_data:
  assumes "request_ready p v" "RequestState (hosts v p) = CMD_SEND"
  shows "Data (device (hosts (snd (std_request E p s b n v)) p)) = Data (device (hosts v p))"
proof -
  let ?v = "fill_setup p (bmRequestType s) (bRequest s) (wValue s) (wIndex s) (wLength s) v"
  have "request_ready p ?v" using assms(1) by simp
  from request_readyD(6) [OF this] have "pipes_allocated p ?v = (True, ?v)" .
  moreover have "RequestState (hosts ?v p) = CMD_SEND" "Data (device (hosts ?v p)) = Data (device (hosts v p))"
    using assms(2) by (simp_all add: fill_setup_def)
  ultimately show ?thesis by (simp add: std_request_def USBH_CtlReq_def set_request_def)
qed

text \<open>A device that reads what it is sent: the buffer of a request that sends is not written.\<close>

locale reading_bus = tame_bus +
  assumes bus_reads: "request_ready p w \<Longrightarrow> bmRequestType (ctl_setup (ctl p w)) AND 0x80 \<noteq> 0x80
      \<Longrightarrow> Data (device (hosts (E w) p)) = Data (device (hosts w p))"
begin

lemma sending_data:
  assumes "sending r w" "bmRequestType (rq_setup r) AND 0x80 \<noteq> 0x80" "wLength (rq_setup r) \<noteq> 0"
  shows "Data (device (hosts (snd (request E p r w)) p)) = Data (device (hosts w p))"
proof -
  from assms(1) obtain st where st: "st \<in> stages" "at_stage p r st w" by (auto simp: sending_def)
  note a = at_stageD [OF st(2)]
  have e: "Data (device (hosts (E w) p)) = Data (device (hosts w p))" using bus_reads [OF a(7)] a(2) assms(2) by simp
  have s: "hosts (snd (USBH_LL_SubmitURB p ch d t k b n g v)) = hosts v" for ch d t k b n g v by (simp add: USBH_LL_SubmitURB_def)
  have d: "Data (device (hosts (set_ctl_state p x v) p)) = Data (device (hosts v p))"
    "Data (device (hosts (stamp_timer p v) p)) = Data (device (hosts v p))"
    "Data (device (hosts (set_request p y v) p)) = Data (device (hosts v p))" for x y v
    by (simp_all add: set_ctl_state_def stamp_timer_def set_request_def)
  from st(1) show ?thesis unfolding stages_def
    by (auto simp: request_wait [OF st(2)] USBH_HandleControl_def a(1) at_stageD(1-6) [OF st(2)] ioreq_defs s d e
        urb_done [OF st(2) a(9)] urb_done [OF st(2) a(8)] Let_def case_prod_beta)
qed

lemma string_run:
  assumes "request_ready p w" "RequestState (hosts w p) = CMD_SEND" "bs = c_string (AOA_Info i)"
    and "length bs \<le> length (Data (device (hosts w p)))"
  shows "\<exists>pid \<in> {HC_PID_DATA0, HC_PID_DATA1}. \<exists>w'. run_req (7 + k) (USBH_SetProtocol E p i) w = (USBH_OK, w')
      \<and> trace w' = trace w @ out_calls p w (set_protocol i) (BData p) (wLength (set_protocol i)) pid
      \<and> faults w' = faults w \<and> request_ready p w' \<and> RequestState (hosts w' p) = CMD_SEND \<and> keeps p w w'"
    and "0 < j \<Longrightarrow> take (length bs) (Data (device (hosts (snd (run_req j (USBH_SetProtocol E p i) w)) p))) = bs"
proof -
  let ?s = "set_protocol i" and ?n = "wLength (set_protocol i)" and ?w = "put_data p bs w"
  let ?g = "std_request E p ?s (BData p) ?n" and ?r = "the_request p w ?s (BData p) ?n"
  have s: "bmRequestType ?s AND 0x80 \<noteq> 0x80" "?n \<noteq> 0" using info_length [of i] by (auto simp: set_protocol_def)
  have r: "rq_setup ?r = ?s" "rq_buff ?r = BData p" "rq_len ?r = ?n" by (simp_all add: the_request_def)
  have g: "request E p ?r = ?g" by (rule request_the_request)
  have a: "after_setup (rq_setup ?r) = CTRL_DATA_OUT" using s by (simp add: r after_setup_def)
  have "idle_for p (the_request p ?w ?s (BData p) ?n) ?w"
    by (rule idle_the_request) (simp_all add: put_data_facts assms(1,2))
  then have i: "idle_for p ?r ?w" by (simp add: put_data_facts(5))
  from request_first [OF i, of E] obtain w1 where w1: "?g ?w = (USBH_BUSY, w1)" "at_stage p ?r CTRL_SETUP w1" unfolding g by blast
  then have s1: "sending ?r w1" by (auto simp: sending_def stages_def)
  have again: "USBH_SetProtocol E p i v = ?g v" if "sending ?r v" for v
    using that by (auto simp: sending_def at_stage_def r SetProtocol_again)
  have same: "run_req m (USBH_SetProtocol E p i) w1 = run_req m ?g w1" for m
    by (rule run_req_same [where I = "sending ?r"]) (use again sending_next [OF _ a] s1 in \<open>simp_all add: g\<close>)
  have run: "run_req (Suc m) (USBH_SetProtocol E p i) w = run_req (Suc m) ?g ?w" for m
    using same [of m] w1(1) SetProtocol_first [OF assms(2), of E i] by (simp add: assms(3))
  from control_out [OF i] s obtain pid where
    p: "pid \<in> {HC_PID_DATA0, HC_PID_DATA1}" "completes ?r 7 (out_calls p w ?s (BData p) ?n pid) ?w"
    by (auto simp: r out_calls_def the_request_def)
  from p(2) obtain w' where w': "run_req (7 + k) ?g ?w = (USBH_OK, w')" "idle_for p ?r w'"
    "sent (out_calls p w ?s (BData p) ?n pid) ?w w'" unfolding completes_def g by blast
  have "keeps p w (snd (run_req (7 + k) ?g ?w))"
    by (intro run_req_keeps std_request_keeps bus_tame put_data_facts(1))
  then have "keeps p w w'" using w'(1) by simp
  with w' p(1) run [of "6 + k"] show "\<exists>pid \<in> {HC_PID_DATA0, HC_PID_DATA1}. \<exists>w'.
      run_req (7 + k) (USBH_SetProtocol E p i) w = (USBH_OK, w')
      \<and> trace w' = trace w @ out_calls p w (set_protocol i) (BData p) (wLength (set_protocol i)) pid
      \<and> faults w' = faults w \<and> request_ready p w' \<and> RequestState (hosts w' p) = CMD_SEND \<and> keeps p w w'"
    by (intro bexI [of _ pid] exI [of _ w']) (simp_all add: sent_def idle_for_def put_data_facts assms(4))
  assume "0 < j"
  then obtain m where m: "j = Suc m" by (cases j) auto
  let ?J = "\<lambda>v. Data (device (hosts v p)) = Data (device (hosts ?w p))"
  have d1: "?J w1"
    using first_data [of p ?w E ?s "BData p" ?n] w1(1) assms(1,2) by (simp add: put_data_facts)
  have "?J (snd (run_req m ?g w1))"
    by (rule run_req_inv [where I = "\<lambda>v. sending ?r v \<and> ?J v"])
      (use sending_next [OF _ a] sending_data [of ?r] s s1 d1 in \<open>auto simp: g r\<close>)
  then have "?J (snd (run_req j (USBH_SetProtocol E p i) w))" unfolding m run using w1(1) by simp
  then show "take (length bs) (Data (device (hosts (snd (run_req j (USBH_SetProtocol E p i) w)) p))) = bs"
    using put_data_facts(7) [OF assms(4)] by simp
qed

end

end
