(* ===== verification/Usb_AOA_Props.thy ===== *)
theory Usb_AOA_Props
  imports Usb_AOA_Requests Usb_CH340_Data Usb_Core_Props
begin

text \<open>
  The properties of the accessory driver: what it does to a device that does not know its requests, the switch
  to accessory mode, and the echo.
\<close>

section \<open>A device that does not know the accessory requests\<close>

text \<open>The set-up packet gets through, and every later stage is stalled.\<close>

locale refusing_bus = bus +
  assumes bus_refuse: "request_ready p w \<Longrightarrow> unat ch < HC_COUNT \<Longrightarrow>
    hc_urb_state (hc_get (E w) ch) = (if ctl_state (ctl p w) = CTRL_SETUP_WAIT then USBH_URB_DONE else USBH_URB_STALL)"
begin

lemma refuse_poll:
  assumes "at_stage p r st w" "unat ch < HC_COUNT"
  shows "USBH_LL_GetURBState E p ch w = (if st = CTRL_SETUP_WAIT then USBH_URB_DONE else USBH_URB_STALL, E w)"
  using poll_stage [OF assms] bus_refuse [OF at_stageD(7) [OF assms(1)] assms(2)] at_stageD(1) [OF assms(1)] by simp

lemma refused_setup:
  assumes "at_stage p r CTRL_SETUP_WAIT w"
  shows "\<exists>w'. request E p r w = (USBH_BUSY, w') \<and> at_stage p r (after_setup (rq_setup r)) w'"
  using bus_stage [OF assms]
  by (simp add: request_wait [OF assms] USBH_HandleControl_def at_stageD(1-6) [OF assms]
      refuse_poll [OF assms at_stageD(9) [OF assms]] at_stageD(1,2) [OF bus_stage [OF assms]])

lemma refused_data:
  assumes "at_stage p r CTRL_DATA_IN_WAIT w"
  shows "\<exists>w'. request E p r w = (USBH_NOT_SUPPORTED, w') \<and> at_stage p r CTRL_DATA_IN_WAIT w'"
  using bus_stage [OF assms]
  by (simp add: request_wait [OF assms] USBH_HandleControl_def at_stageD(1-6) [OF assms]
      refuse_poll [OF assms at_stageD(8) [OF assms]])

text \<open>A request with a data stage is never over.\<close>

definition pending :: "ctl_request \<Rightarrow> usb \<Rightarrow> bool" where
  "pending r w \<longleftrightarrow> idle_for p r w \<or> (\<exists>st \<in> {CTRL_SETUP, CTRL_SETUP_WAIT, CTRL_DATA_IN, CTRL_DATA_IN_WAIT}. at_stage p r st w)"

lemma pending_stays:
  assumes "pending r w" "after_setup (rq_setup r) = CTRL_DATA_IN"
  shows "fst (request E p r w) \<noteq> USBH_OK \<and> pending r (snd (request E p r w))"
proof -
  from assms(1) consider "idle_for p r w" | "at_stage p r CTRL_SETUP w" | "at_stage p r CTRL_SETUP_WAIT w"
    | "at_stage p r CTRL_DATA_IN w" | "at_stage p r CTRL_DATA_IN_WAIT w" by (auto simp: pending_def)
  then show ?thesis
  proof cases
    case 1
    from request_first [OF this, of E] show ?thesis by (auto simp: pending_def)
  next
    case 2
    from stage_setup [OF this, of E] show ?thesis by (auto simp: pending_def)
  next
    case 3
    from refused_setup [OF this] assms(2) show ?thesis by (auto simp: pending_def)
  next
    case 4
    from stage_data_in [OF this, of E] show ?thesis by (auto simp: pending_def)
  next
    case 5
    from refused_data [OF this] show ?thesis by (auto simp: pending_def)
  qed
qed

end

section \<open>The loop\<close>

text \<open>A state that every turn leaves at the same request is never left.\<close>

lemma aoa_loop_stuck:
  assumes "\<And>ret w. I w \<Longrightarrow> \<exists>ret' w'. aoa_turn E p s ret w = (s, ret', w') \<and> I w'" "I w" "s \<noteq> AOA_MAX_NUM"
  shows "aoa_loop E p s ret w = None"
proof -
  have "aoa_loop E p s ret w \<noteq> Some x" for x
  proof
    define Q where "Q = (\<lambda>(F :: usb \<Rightarrow> usb) (p' :: ptr) (s' :: AOA_REQ_STATE) (ret :: USBH_StatusTypeDef) (w :: usb) (x :: USBH_StatusTypeDef \<times> usb).
      F = E \<longrightarrow> p' = p \<longrightarrow> s' = s \<longrightarrow> \<not> I w)"
    assume a: "aoa_loop E p s ret w = Some x"
    have "Q E p s ret w x"
    proof (rule aoa_loop.raw_induct [of Q, OF _ a], unfold Q_def, intro impI notI)
      fix loop and F :: "usb \<Rightarrow> usb" and p' s' ret and w :: usb and x
      assume IH: "\<And>F p' s' ret w x. loop F p' s' ret w = Some x \<Longrightarrow> F = E \<longrightarrow> p' = p \<longrightarrow> s' = s \<longrightarrow> \<not> I w"
        and e: "(if s' = AOA_MAX_NUM then Some (ret, w)
           else case aoa_turn F p' s' ret w of (status, ret, w) \<Rightarrow> loop F p' status ret w) = Some x"
        and h: "F = E" "p' = p" "s' = s" "I w"
      from assms(1) [OF h(4), of ret] obtain ret' w' where "aoa_turn E p s ret w = (s, ret', w')" "I w'" by blast
      with e h assms(3) IH [of E p s ret' w' x] show False by simp
    qed
    with assms(2) show False by (simp add: Q_def)
  qed
  then show ?thesis by (cases "aoa_loop E p s ret w") auto
qed

definition get_protocol :: USB_Setup_TypeDef where
  "get_protocol = \<lparr>bmRequestType = 0xC0, bRequest = 51, wValue = 0, wIndex = 0, wLength = 2\<rparr>"

lemma GetProtocol_request: "USBH_GetProtocol E p (BData p) 2 = std_request E p get_protocol (BData p) 2"
  by (simp add: fun_eq_iff USBH_GetProtocol_def std_request_def get_protocol_def)

context refusing_bus
begin

lemma switch_hangs:
  assumes "request_ready p w" "RequestState (hosts w p) = CMD_SEND"
  shows "aoa_loop E p AOA_GET_PROTOCOL ret w = None"
proof -
  let ?r = "the_request p w get_protocol (BData p) 2"
  have r: "request E p ?r = USBH_GetProtocol E p (BData p) 2" by (simp add: request_the_request GetProtocol_request)
  have s: "after_setup (rq_setup ?r) = CTRL_DATA_IN" by (simp add: the_request_def get_protocol_def after_setup_def)
  show ?thesis
  proof (rule aoa_loop_stuck [where I = "pending ?r"])
    fix ret v assume "pending ?r v"
    from pending_stays [OF this s] show "\<exists>ret' w'. aoa_turn E p AOA_GET_PROTOCOL ret v = (AOA_GET_PROTOCOL, ret', w') \<and> pending ?r w'"
      by (simp add: r aoa_turn_def case_prod_beta)
  qed (use idle_the_request [OF assms] in \<open>simp_all add: pending_def\<close>)
qed

end

section \<open>Devices of other classes\<close>

lemma scan_state:
  assumes "pClass (hosts w p) = registered"
  shows "scan_classes p code w = upd_host p (\<lambda>h. h\<lparr>pActiveClass :=
      (if code \<in> {0x08, 0x09, 0xff} then class_for code else pActiveClass h)\<rparr>) w"
proof -
  have four: "[0..<4] = [0, 1, 2, 3 :: nat]" by (simp add: upt_rec)
  show ?thesis using assms
    by (simp add: scan_classes_def four match_class_def registered_def class_for_def upd_host_def)
qed

lemma unknown_class_starts:
  assumes "pClass (hosts w p) = registered" "ClassNumber (hosts w p) \<noteq> 0" "bInterfaceClass (itf_desc p w 0) \<notin> {0x08, 0x09}"
  shows "\<exists>g. host_check_class ops p w = Option.bind
      (start_class ops p AOA_Class (upd_host p (\<lambda>h. h\<lparr>gState := g, pActiveClass := Some AOA_Class\<rparr>) w))
      (\<lambda>w. Some (osMessagePut USBH_STATE_CHANGED_EVENT w))"
proof -
  let ?c = "bInterfaceClass (itf_desc p w 0)"
  let ?w1 = "upd_host p (\<lambda>h. h\<lparr>pActiveClass := None\<rparr>) w"
  have i: "bInterfaceClass (itf_desc p ?w1 0) = ?c" by (simp add: itf_desc_def)
  have u: "upd_host p f (upd_host p g v) = upd_host p (\<lambda>h. f (g h)) v" for f g v by (simp add: upd_host_def)
  have r: "pClass (hosts ?w1 p) = registered" "pClass (hosts (set_gstate p HOST_ABORT_STATE ?w1) p) = registered"
    using assms(1) by (simp_all add: set_gstate_def)
  show ?thesis
  proof (cases "?c = 0xff")
    case True
    then have "scan_classes p ?c ?w1 = upd_host p (\<lambda>h. h\<lparr>gState := gState (hosts w p), pActiveClass := Some AOA_Class\<rparr>) w"
      unfolding scan_state [OF r(1)] by (simp add: class_for_def u) (simp add: upd_host_def)
    with assms(2) show ?thesis
      by (intro exI [of _ "gState (hosts w p)"]) (simp add: host_check_class_def i Let_def)
  next
    case False
    then have "scan_classes p ?c ?w1 = ?w1" using assms(3) unfolding scan_state [OF r(1)] by (simp add: u)
    moreover have "scan_classes p 0xff (set_gstate p HOST_ABORT_STATE ?w1)
        = upd_host p (\<lambda>h. h\<lparr>gState := HOST_ABORT_STATE, pActiveClass := Some AOA_Class\<rparr>) w"
      unfolding scan_state [OF r(2)] by (simp add: class_for_def set_gstate_def u)
    ultimately show ?thesis using assms(2)
      by (intro exI [of _ HOST_ABORT_STATE]) (simp add: host_check_class_def i Let_def)
  qed
qed

text \<open>
  C9: A device of a class the firmware has no driver for stops the host. After its enumeration, a device
  that is neither a hub nor a mass storage device (a keyboard, a serial adapter, a phone) is given to the
  driver of the accessory mode, which asks it for the protocol version. When the device refuses the
  request, as every device but an Android phone does, the driver repeats it for ever: the call of
  \<open>USBH_Process\<close> does not return, and the host task serves no other device.
\<close>

theorem unknown_device_hangs:
  assumes "refusing_bus E p" and "gState (hosts w p) = HOST_CHECK_CLASS"
    and "pClass (hosts w p) = registered" and "ClassNumber (hosts w p) \<noteq> 0"
    and "bInterfaceClass (itf_desc p w 0) \<notin> {0x08, 0x09}" and "\<not> is_accessory (DevDesc (device (hosts w p)))"
    and "request_ready p w" and "RequestState (hosts w p) = CMD_SEND"
  shows "USBH_Process E (drivers (Suc n) E rest) p w = None"
proof -
  let ?w = "mask_hprt p True w"
  have h: "hosts ?w = hosts w" by (simp add: mask_hprt_def)
  have r: "request_ready p ?w = request_ready p w" by (rule request_ready_cong) (simp_all add: mask_hprt_def)
  from unknown_class_starts [where w = ?w and p = p and ops = "drivers (Suc n) E rest"] assms(3-5) obtain g where
    g: "host_check_class (drivers (Suc n) E rest) p ?w = Option.bind
      (start_class (drivers (Suc n) E rest) p AOA_Class (upd_host p (\<lambda>h. h\<lparr>gState := g, pActiveClass := Some AOA_Class\<rparr>) ?w))
      (\<lambda>w. Some (osMessagePut USBH_STATE_CHANGED_EVENT w))" by (auto simp: h itf_desc_def)
  let ?v = "upd_host p (\<lambda>h. h\<lparr>gState := g, pActiveClass := Some AOA_Class\<rparr>) ?w"
  have "request_ready p ?v = request_ready p ?w" by (rule request_ready_cong) simp_all
  then have "request_ready p ?v" "RequestState (hosts ?v p) = CMD_SEND" using assms(7,8) h r by simp_all
  from refusing_bus.switch_hangs [OF assms(1) this] assms(6) have "USBH_AOA_InterfaceInit E p ?v = None"
    by (simp add: USBH_AOA_InterfaceInit_def h)
  then have "host_check_class (drivers (Suc n) E rest) p ?w = None" unfolding g by (simp add: start_class_def)
  then show ?thesis using assms(2) by (simp add: USBH_Process_def host_switch_def h)
qed

section \<open>From one request to the next\<close>

lemma loop_request:
  assumes "run_req n f w = (USBH_OK, w')" "s \<noteq> AOA_MAX_NUM"
    and "\<And>v. aoa_turn E p s ret v = (if fst (f v) = USBH_OK then s' else s, ret, snd (f v))"
  shows "aoa_loop E p s ret w = aoa_loop E p s' ret w'"
  using assms(1)
proof (induction n arbitrary: w)
  case (Suc n)
  obtain x u where u: "f w = (x, u)" by (cases "f w")
  show ?case
  proof (cases "x = USBH_BUSY")
    case True
    with Suc.prems u have "run_req n f u = (USBH_OK, w')" by simp
    from Suc.IH [OF this] show ?thesis using assms(2) u True by (subst aoa_loop.simps) (simp add: assms(3))
  next
    case False
    with Suc.prems u show ?thesis using assms(2) by (subst aoa_loop.simps) (simp add: assms(3))
  qed
qed simp

lemma loop_last:
  assumes "run_req n (USBH_SetAOAReq E p (BData p) 0) w = (USBH_OK, w')"
  shows "aoa_loop E p AOA_SET_AOA_REQ ret w = Some (USBH_OK, w')"
  using assms
proof (induction n arbitrary: w ret)
  case (Suc n)
  obtain x u where u: "USBH_SetAOAReq E p (BData p) 0 w = (x, u)" by (cases "USBH_SetAOAReq E p (BData p) 0 w")
  show ?case
  proof (cases "x = USBH_BUSY")
    case True
    with Suc.prems u have "run_req n (USBH_SetAOAReq E p (BData p) 0) u = (USBH_OK, w')" by simp
    from Suc.IH [OF this] show ?thesis using u True by (subst aoa_loop.simps) (simp add: aoa_turn_def)
  next
    case False
    with Suc.prems u show ?thesis by (subst aoa_loop.simps) (simp add: aoa_turn_def aoa_loop.simps [of E p AOA_MAX_NUM])
  qed
qed simp

fun state_of :: "AOA_INFO_INDEX \<Rightarrow> AOA_REQ_STATE" where
  "state_of AOA_INFO_MANU_0 = AOA_SET_PROTOCOL_0"
| "state_of AOA_INFO_MODEL_1 = AOA_SET_PROTOCOL_1"
| "state_of AOA_INFO_DESC_2 = AOA_SET_PROTOCOL_2"
| "state_of AOA_INFO_VERSION_3 = AOA_SET_PROTOCOL_3"
| "state_of AOA_INFO_URI_4 = AOA_SET_PROTOCOL_4"
| "state_of AOA_INFO_SN_5 = AOA_SET_PROTOCOL_5"

text \<open>The strings in the order they are sent.\<close>

definition all_infos :: "AOA_INFO_INDEX list" where
  "all_infos = [AOA_INFO_MANU_0, AOA_INFO_MODEL_1, AOA_INFO_DESC_2, AOA_INFO_VERSION_3, AOA_INFO_URI_4, AOA_INFO_SN_5]"

fun state_after :: "AOA_INFO_INDEX list \<Rightarrow> AOA_REQ_STATE" where
  "state_after [] = AOA_SET_AOA_REQ"
| "state_after (i # is) = state_of i"

lemma string_turn:
  assumes "\<exists>js. all_infos = js @ i # is"
  shows "aoa_turn E p (state_of i) ret v = (if fst (USBH_SetProtocol E p i v) = USBH_OK then state_after is else state_of i,
    ret, snd (USBH_SetProtocol E p i v))"
  using assms by (auto simp: all_infos_def Cons_eq_append_conv aoa_turn_def aoa_set_def Let_def case_prod_beta)

definition start_accessory :: USB_Setup_TypeDef where
  "start_accessory = \<lparr>bmRequestType = 0x40, bRequest = 53, wValue = 0, wIndex = 0, wLength = 0\<rparr>"

lemma SetAOAReq_request: "USBH_SetAOAReq E p (BData p) 0 = std_request E p start_accessory (BData p) 0"
  by (simp add: fun_eq_iff USBH_SetAOAReq_def std_request_def start_accessory_def)

lemma keeps_pipes:
  assumes "keeps p w w'"
  shows "pipe_in (ctl p w') = pipe_in (ctl p w)" "pipe_out (ctl p w') = pipe_out (ctl p w)"
    "out_calls p w' = out_calls p w" "none_calls p w' = none_calls p w" "in_calls p w' = in_calls p w"
    "length (Data (device (hosts w' p))) = length (Data (device (hosts w p)))"
  using keeps_host [OF assms] keepsD(10) [OF assms]
  by (simp_all add: fun_eq_iff out_calls_def none_calls_def in_calls_def)

context reading_bus
begin

lemma strings_sent:
  assumes "request_ready p w" "RequestState (hosts w p) = CMD_SEND" "15 \<le> length (Data (device (hosts w p)))" "\<exists>js. all_infos = js @ is"
  shows "\<exists>pids v. length pids = length is \<and> set pids \<subseteq> {HC_PID_DATA0, HC_PID_DATA1}
    \<and> aoa_loop E p (state_after is) ret w = aoa_loop E p AOA_SET_AOA_REQ ret v
    \<and> trace v = trace w @ concat (map2 (\<lambda>i. out_calls p w (set_protocol i) (BData p) (wLength (set_protocol i))) is pids)
    \<and> faults v = faults w \<and> request_ready p v \<and> RequestState (hosts v p) = CMD_SEND \<and> keeps p w v"
  using assms
proof (induction "is" arbitrary: w)
  case Nil
  then show ?case by (intro exI [of _ "[]"] exI [of _ w]) simp
next
  case (Cons i "is")
  have "length (c_string (AOA_Info i)) \<le> length (Data (device (hosts w p)))" using info_length(2) [of i] Cons.prems(3) by simp
  from string_run(1) [OF Cons.prems(1,2) refl this, of 0] obtain pid u where
    1: "pid \<in> {HC_PID_DATA0, HC_PID_DATA1}" "run_req 7 (USBH_SetProtocol E p i) w = (USBH_OK, u)"
    "trace u = trace w @ out_calls p w (set_protocol i) (BData p) (wLength (set_protocol i)) pid"
    "faults u = faults w" "request_ready p u" "RequestState (hosts u p) = CMD_SEND" "keeps p w u" by auto
  have l: "aoa_loop E p (state_of i) ret w = aoa_loop E p (state_after is) ret u"
    by (rule loop_request [OF 1(2)]) (use Cons.prems(4) in \<open>cases i; simp\<close>, rule string_turn [OF Cons.prems(4)])
  note k = keeps_pipes [OF 1(7)]
  have "15 \<le> length (Data (device (hosts u p)))" "\<exists>js. all_infos = js @ is" using Cons.prems(3,4) k(6) by (simp, metis append_Cons append_Nil append_assoc)
  from Cons.IH [OF 1(5,6) this] obtain pids v where
    "length pids = length is" "set pids \<subseteq> {HC_PID_DATA0, HC_PID_DATA1}"
    "aoa_loop E p (state_after is) ret u = aoa_loop E p AOA_SET_AOA_REQ ret v"
    "trace v = trace u @ concat (map2 (\<lambda>i. out_calls p w (set_protocol i) (BData p) (wLength (set_protocol i))) is pids)"
    "faults v = faults u" "request_ready p v" "RequestState (hosts v p) = CMD_SEND" "keeps p u v" unfolding k by blast
  with 1 l show ?case
    by (intro exI [of _ "pid # pids"] exI [of _ v]) (auto intro: keeps_trans)
qed

end

text \<open>
  C10: A device that is not in accessory mode yet is switched to it. On a bus that completes its transfers,
  the first call of the driver asks for the protocol version, sends the six strings of the driver in the
  order of their indices, each with the set-up packet that holds its index and its length with the final
  zero, and makes the request to switch, with exactly these transfers; it then returns \<open>USBH_OK\<close>, the
  control channel is ready for the next request and no access was out of bounds.
\<close>

theorem accessory_switches:
  assumes "reading_bus E p" and "request_ready p w" and "RequestState (hosts w p) = CMD_SEND"
    and "15 \<le> length (Data (device (hosts w p)))" and "\<not> is_accessory (DevDesc (device (hosts w p)))"
  shows "\<exists>pids v. USBH_AOA_InterfaceInit E p w = Some (USBH_OK, v)
    \<and> length pids = 6 \<and> set pids \<subseteq> {HC_PID_DATA0, HC_PID_DATA1}
    \<and> trace v = trace w @ in_calls p w get_protocol (BData p) 2
        @ concat (map2 (\<lambda>i. out_calls p w (set_protocol i) (BData p) (wLength (set_protocol i))) all_infos pids)
        @ none_calls p w start_accessory
    \<and> faults v = faults w \<and> request_ready p v \<and> RequestState (hosts v p) = CMD_SEND"
proof -
  have t: "tame_bus E p" using assms(1) by (simp add: reading_bus_def)
  have g: "bmRequestType get_protocol AND 0x80 = 0x80" "wLength get_protocol \<noteq> 0" by (simp_all add: get_protocol_def)
  have a: "bmRequestType start_accessory AND 0x80 \<noteq> 0x80" "wLength start_accessory = 0" by (simp_all add: start_accessory_def)
  from tame_bus.request_in [OF t assms(2,3) g, of 0 "BData p" 2] obtain u where
    1: "run_req 7 (USBH_GetProtocol E p (BData p) 2) w = (USBH_OK, u)"
    "trace u = trace w @ in_calls p w get_protocol (BData p) 2" "faults u = faults w" "request_ready p u"
    "RequestState (hosts u p) = CMD_SEND" "keeps p w u" unfolding GetProtocol_request by auto
  note k1 = keeps_pipes [OF 1(6)]
  have 2: "aoa_loop E p AOA_GET_PROTOCOL USBH_BUSY w = aoa_loop E p (state_after all_infos) USBH_BUSY u"
    by (rule loop_request [OF 1(1)]) (simp_all add: aoa_turn_def Let_def case_prod_beta all_infos_def)
  have "15 \<le> length (Data (device (hosts u p)))" "\<exists>js. all_infos = js @ all_infos" using assms(4) k1(6) by simp_all
  from reading_bus.strings_sent [OF assms(1) 1(4,5) this, of USBH_BUSY] obtain pids x where
    3: "length pids = length all_infos" "set pids \<subseteq> {HC_PID_DATA0, HC_PID_DATA1}"
    "aoa_loop E p (state_after all_infos) USBH_BUSY u = aoa_loop E p AOA_SET_AOA_REQ USBH_BUSY x"
    "trace x = trace u @ concat (map2 (\<lambda>i. out_calls p w (set_protocol i) (BData p) (wLength (set_protocol i))) all_infos pids)"
    "faults x = faults u" "request_ready p x" "RequestState (hosts x p) = CMD_SEND" "keeps p u x" unfolding k1 by blast
  from tame_bus.request_none [OF t 3(6,7) a, of 0 "BData p" 0] obtain v where
    4: "run_req 5 (USBH_SetAOAReq E p (BData p) 0) x = (USBH_OK, v)"
    "trace v = trace x @ none_calls p w start_accessory" "faults v = faults x" "request_ready p v"
    "RequestState (hosts v p) = CMD_SEND" unfolding SetAOAReq_request keeps_pipes(4) [OF keeps_trans [OF 1(6) 3(8)]] by auto
  have "USBH_AOA_InterfaceInit E p w = Some (USBH_OK, v)"
    using loop_last [OF 4(1)] 2 3(3) assms(5) by (simp add: USBH_AOA_InterfaceInit_def)
  with 1 3 4 show ?thesis by (intro exI [of _ pids] exI [of _ v]) (simp add: all_infos_def)
qed

text \<open>
  The strings the device gets. A caller that repeats \<open>USBH_SetProtocol\<close> gets \<open>USBH_OK\<close> at the seventh
  call; the set-up packet, the data stage out of \<open>device.Data\<close> and the status stage go out. From the first
  call on, and at every call after it, the buffer begins with the characters of the string and its final
  zero, so these are the bytes the data stage sends.
\<close>

theorem string_delivered:
  assumes "reading_bus E p" and "request_ready p w" and "RequestState (hosts w p) = CMD_SEND"
    and "bs = c_string (AOA_Info i)" and "length bs \<le> length (Data (device (hosts w p)))"
  shows "(\<forall>k. \<exists>pid \<in> {HC_PID_DATA0, HC_PID_DATA1}. \<exists>w'. run_req (7 + k) (USBH_SetProtocol E p i) w = (USBH_OK, w')
        \<and> trace w' = trace w @ out_calls p w \<lparr>bmRequestType = 0x40, bRequest = 52, wValue = 0,
            wIndex = info_index i, wLength = of_nat (length bs)\<rparr> (BData p) (of_nat (length bs)) pid
        \<and> faults w' = faults w \<and> request_ready p w' \<and> RequestState (hosts w' p) = CMD_SEND)
    \<and> (\<forall>j > 0. take (length bs) (Data (device (hosts (snd (run_req j (USBH_SetProtocol E p i) w)) p))) = bs)"
proof (intro conjI allI impI)
  fix k
  have e: "set_protocol i = \<lparr>bmRequestType = 0x40, bRequest = 52, wValue = 0, wIndex = info_index i, wLength = of_nat (length bs)\<rparr>"
    by (simp add: set_protocol_def assms(4))
  from reading_bus.string_run(1) [OF assms, of k] show "\<exists>pid \<in> {HC_PID_DATA0, HC_PID_DATA1}. \<exists>w'.
        run_req (7 + k) (USBH_SetProtocol E p i) w = (USBH_OK, w')
        \<and> trace w' = trace w @ out_calls p w \<lparr>bmRequestType = 0x40, bRequest = 52, wValue = 0,
            wIndex = info_index i, wLength = of_nat (length bs)\<rparr> (BData p) (of_nat (length bs)) pid
        \<and> faults w' = faults w \<and> request_ready p w' \<and> RequestState (hosts w' p) = CMD_SEND"
    unfolding e by (simp only: USB_Setup_TypeDef.select_convs) blast
qed (rule reading_bus.string_run(2) [OF assms])

section \<open>Echo\<close>

text \<open>
  The hardware may change the channels and the bytes of the driver's buffer; it leaves the rest of the
  driver's handle alone.
\<close>

locale accessory_bus = bus +
  fixes q :: ptr
  assumes acc_ptr: "request_ready p w \<Longrightarrow> aoa_ptr p (E w) = aoa_ptr p w"
    and acc_data: "request_ready p w \<Longrightarrow> cdata w q = AoaData a
      \<Longrightarrow> \<exists>x. cdata (E w) q = AoaData (a\<lparr>aoa_Date := x\<rparr>) \<and> length x = length (aoa_Date a)"

lemma submit_bulk:
  assumes "request_ready p w" "unat ch < HC_COUNT"
  shows "\<exists>x. bulk_out ch b (unat n) x \<and> trace (snd (USBH_BulkSendData p b n ch g w)) = trace w @ [x]"
    "\<exists>x. bulk_in ch b (unat n) x \<and> trace (snd (USBH_BulkReceiveData p b n ch w)) = trace w @ [x]"
    and "faults (snd (USBH_BulkSendData p b n ch g w)) = faults w" "faults (snd (USBH_BulkReceiveData p b n ch w)) = faults w"
    "request_ready p (snd (USBH_BulkReceiveData p b n ch w))"
    "cdata (snd (USBH_BulkSendData p b n ch g w)) = cdata w" "cdata (snd (USBH_BulkReceiveData p b n ch w)) = cdata w"
proof -
  have l: "unat ch < length (hc w)" using assms by (simp add: request_ready_def)
  note s = submit_outs [OF request_readyD(1-3) [OF assms(1)] l]
  show "\<exists>x. bulk_out ch b (unat n) x \<and> trace (snd (USBH_BulkSendData p b n ch g w)) = trace w @ [x]"
    by (auto simp: ioreq_defs trace_def s(1) bulk_out_def)
  show "\<exists>x. bulk_in ch b (unat n) x \<and> trace (snd (USBH_BulkReceiveData p b n ch w)) = trace w @ [x]"
    by (auto simp: ioreq_defs trace_def s(1) bulk_in_def)
  show "faults (snd (USBH_BulkSendData p b n ch g w)) = faults w" "faults (snd (USBH_BulkReceiveData p b n ch w)) = faults w"
    by (simp_all add: ioreq_defs s(3))
  show "request_ready p (snd (USBH_BulkReceiveData p b n ch w))"
    using assms(1) request_readyD(1-3) [OF assms(1)] by (simp add: ioreq_defs USBH_LL_SubmitURB_def)
qed (simp_all add: ioreq_defs USBH_LL_SubmitURB_def)

text \<open>
  The accessory driver sends back what it receives. While the transfer that receives is not over, the
  background process does nothing. When it is over with \<open>n\<close> bytes, the process ends the text in the buffer
  with a zero at index \<open>n\<close>, asks for the next packet into the same buffer and then sends the first \<open>n\<close>
  bytes of it; nothing else of the buffer changes. A packet that fills the buffer of 512 bytes, as one of a
  high-speed endpoint does, puts the zero one byte behind the buffer; any shorter one makes no wrong access.
\<close>

theorem accessory_echo:
  assumes "accessory_bus E p q" and "request_ready p w" and "aoa_ptr p w = q" and "q \<noteq> NULL"
    and "cdata w q = AoaData a" and "length (aoa_Date a) = 512"
    and "unat (aoa_InPipe a) < HC_COUNT" and "unat (aoa_OutPipe a) < HC_COUNT"
    and "ch = hc_get (E w) (aoa_InPipe a)" and "n = unat (hc_xfer_count ch)" and "n < 65536"
  shows "\<exists>v x. USBH_AOA_Process E p w = (USBH_OK, v) \<and> cdata (E w) q = AoaData (a\<lparr>aoa_Date := x\<rparr>)
    \<and> (if hc_urb_state ch = USBH_URB_DONE
       then (\<exists>c d. bulk_in (aoa_InPipe a) (BAoa q) (unat (aoa_InEpSize a)) c \<and> bulk_out (aoa_OutPipe a) (BAoa q) n d
              \<and> trace v = trace w @ [c, d]) \<and> cdata v q = AoaData (a\<lparr>aoa_Date := x[n := 0]\<rparr>)
            \<and> faults v = faults w @ (if n < 512 then [] else [OOB_Buffer (BAoa q) n])
       else v = E w \<and> trace v = trace w \<and> faults v = faults w)"
proof -
  note b = bus.bus_ready [OF _ assms(2)] bus.bus_trace [OF _ assms(2)] bus.bus_faults [OF _ assms(2)] bus.poll [OF _ assms(2,7)]
  have B: "bus E p" using assms(1) by (simp add: accessory_bus_def)
  have at: "aoa_at q w = a" by (simp add: aoa_at_def assms(5))
  have c: "chk_class p w = w" using assms(3,4) by (simp add: chk_class_def aoa_ptr_def split: option.splits)
  from accessory_bus.acc_data [OF assms(1,2,5)] obtain x where
    x: "cdata (E w) q = AoaData (a\<lparr>aoa_Date := x\<rparr>)" "length x = 512" unfolding assms(6) by blast
  then have ate: "aoa_at q (E w) = a\<lparr>aoa_Date := x\<rparr>" by (simp add: aoa_at_def)
  note poll = b(4) [OF B, folded assms(9)]
  show ?thesis
  proof (cases "hc_urb_state ch = USBH_URB_DONE")
    case False
    with poll have "USBH_AOA_Process E p w = (USBH_OK, E w)"
      by (simp add: USBH_AOA_Process_def c assms(3,4) at Let_def)
    with False b(2,3) [OF B] x(1) show ?thesis by (intro exI [of _ "E w"] exI [of _ x]) simp
  next
    case True
    let ?e = "end_date q n (E w)" and ?len = "hc_xfer_count ch"
    have r: "request_ready p (E w)" by (rule b(1) [OF B])
    have e: "?e = chk (n < 512) (OOB_Buffer (BAoa q) n) ((E w)\<lparr>cdata := (cdata (E w))(q := AoaData (a\<lparr>aoa_Date := x[n := 0]\<rparr>))\<rparr>)"
      by (simp add: end_date_def upd_aoa_def x ate Let_def)
    have re: "request_ready p ?e = request_ready p (E w)" unfolding e by (rule request_ready_cong) simp_all
    have de: "cdata ?e q = AoaData (a\<lparr>aoa_Date := x[n := 0]\<rparr>)" "trace ?e = trace w"
      "faults ?e = faults w @ (if n < 512 then [] else [OOB_Buffer (BAoa q) n])"
      using b(2,3) [OF B] unfolding e by (simp_all add: trace_def)
    then have ae: "aoa_at q ?e = a\<lparr>aoa_Date := x[n := 0]\<rparr>" by (simp add: aoa_at_def)
    have re': "request_ready p ?e" using re r by simp
    note s = submit_bulk [OF re' assms(7), where b = "BAoa q" and n = "aoa_InEpSize a"]
    let ?f = "aoa_receive p q ?e"
    have f: "?f = snd (USBH_BulkReceiveData p (BAoa q) (aoa_InEpSize a) (aoa_InPipe a) ?e)"
      by (simp add: aoa_receive_def ae)
    have rf: "request_ready p ?f" unfolding f by (rule s(5))
    note t = submit_bulk(1,3,6) [OF rf assms(8), where b = "BAoa q" and n = "ucast ?len" and g = 1]
    have u: "unat (ucast ?len :: u16) = n" using assms(10,11) by (simp add: unsigned_ucast_eq take_bit_nat_eq_self)
    have af: "aoa_OutPipe (aoa_at q ?f) = aoa_OutPipe a" using s(7) de(1) by (simp add: f aoa_at_def)
    have lx: "USBH_LL_GetLastXferSize p (aoa_InPipe a) (E w) = ?len"
      by (simp add: USBH_LL_GetLastXferSize_def HAL_HCD_HC_GetXferCount_def assms(9))
    have "USBH_AOA_Process E p w = (USBH_OK, snd (USBH_BulkSendData p (BAoa q) (ucast ?len) (aoa_OutPipe a) 1 ?f))"
      using poll True by (simp add: USBH_AOA_Process_def c assms(3,4) at Let_def ate lx assms(10) [symmetric] af)
    moreover obtain y z where "bulk_in (aoa_InPipe a) (BAoa q) (unat (aoa_InEpSize a)) y" "trace ?f = trace w @ [y]"
      "bulk_out (aoa_OutPipe a) (BAoa q) n z" "trace (snd (USBH_BulkSendData p (BAoa q) (ucast ?len) (aoa_OutPipe a) 1 ?f)) = trace ?f @ [z]"
      using s(2) t(1) unfolding u f de(2) by blast
    ultimately show ?thesis using True x(1) s(4,7) t(2,3) de(1,3)
      by (intro exI [of _ "snd (USBH_BulkSendData p (BAoa q) (ucast ?len) (aoa_OutPipe a) 1 ?f)"] exI [of _ x]) (auto simp: f)
  qed
qed

section \<open>Environments\<close>

interpretation completing_reads: reading_bus completing p for p
  by (intro reading_bus.intro reading_bus_axioms.intro completing_dev.tame_bus_axioms)
    (simp add: completing_def all_channels_data)

text \<open>A device that takes set-up packets and stalls everything else.\<close>

definition refusing_all :: "ptr \<Rightarrow> usb \<Rightarrow> usb" where
  "refusing_all p w = (if ctl_state (ctl p w) = CTRL_SETUP_WAIT then completing w else stalling w)"

interpretation refusing_all: refusing_bus "refusing_all p" p for p
proof
  fix w assume r: "request_ready p w"
  note a = completing.bus_ready [OF r] completing.bus_ctl [OF r] completing.bus_request [OF r] completing.bus_static [OF r]
    completing.bus_trace [OF r] completing.bus_faults [OF r]
  note b = stalling.bus_ready [OF r] stalling.bus_ctl [OF r] stalling.bus_request [OF r] stalling.bus_static [OF r]
    stalling.bus_trace [OF r] stalling.bus_faults [OF r]
  show "request_ready p (refusing_all p w)" "Control (hosts (refusing_all p w) p) = Control (hosts w p)"
    "RequestState (hosts (refusing_all p w) p) = RequestState (hosts w p)"
    "pUser (hosts (refusing_all p w) p) = pUser (hosts w p) \<and> is_child (hosts (refusing_all p w) p) = is_child (hosts w p)"
    "trace (refusing_all p w) = trace w" "faults (refusing_all p w) = faults w"
    using a b by (simp_all add: refusing_all_def)
  show "hc_urb_state (hc_get (refusing_all p w) ch) = (if ctl_state (ctl p w) = CTRL_SETUP_WAIT then USBH_URB_DONE else USBH_URB_STALL)"
    if "unat ch < HC_COUNT" for ch
    using completing.bus_done [OF r that] stalling.bus_stall [OF r that] by (simp add: refusing_all_def)
qed

section \<open>Witnesses\<close>

text \<open>A keyboard that has just been configured.\<close>

definition keyboard_world :: usb where
  "keyboard_world = upd_host hUSBHost (\<lambda>h. h\<lparr>gState := HOST_CHECK_CLASS, pClass := registered, ClassNumber := 4,
     device := (device h)\<lparr>CfgDesc := (CfgDesc (device h))\<lparr>Itf_Desc := [zero_itf_desc\<lparr>bInterfaceClass := 3\<rparr>]\<rparr>\<rparr>\<rparr>) ctl_world"

lemma keyboard_facts:
  "gState (hosts keyboard_world hUSBHost) = HOST_CHECK_CLASS" "pClass (hosts keyboard_world hUSBHost) = registered"
  "ClassNumber (hosts keyboard_world hUSBHost) \<noteq> 0" "bInterfaceClass (itf_desc hUSBHost keyboard_world 0) \<notin> {0x08, 0x09}"
  "\<not> is_accessory (DevDesc (device (hosts keyboard_world hUSBHost)))" "request_ready hUSBHost keyboard_world"
  "RequestState (hosts keyboard_world hUSBHost) = CMD_SEND" "15 \<le> length (Data (device (hosts keyboard_world hUSBHost)))"
proof -
  have "request_ready hUSBHost keyboard_world = request_ready hUSBHost ctl_world"
    by (rule request_ready_cong) (simp_all add: keyboard_world_def)
  then show "request_ready hUSBHost keyboard_world" using ctl_world_ready(1) by simp
  show "RequestState (hosts keyboard_world hUSBHost) = CMD_SEND" using ctl_world_ready(2) by (simp add: keyboard_world_def)
qed (simp_all add: keyboard_world_def itf_desc_def ctl_world_def zero_device_def zero_dev_desc_def is_accessory_def)

lemma unknown_device_hangs_witness:
  "USBH_Process (refusing_all hUSBHost) (drivers 1 (refusing_all hUSBHost) quiet_ops) hUSBHost keyboard_world = None"
  using unknown_device_hangs [OF refusing_all.refusing_bus_axioms keyboard_facts(1-7), of 0 quiet_ops] by simp

lemma accessory_switches_witness:
  "\<exists>v. USBH_AOA_InterfaceInit completing hUSBHost keyboard_world = Some (USBH_OK, v) \<and> faults v = faults keyboard_world"
  using accessory_switches [OF completing_reads.reading_bus_axioms keyboard_facts(6-8,5)] by auto

lemma string_delivered_witness:
  "take 5 (Data (device (hosts (snd (run_req 1 (USBH_SetProtocol completing hUSBHost AOA_INFO_MODEL_1) keyboard_world)) hUSBHost)))
     = [0x44, 0x65, 0x6D, 0x6F, 0]"
proof -
  have bs: "[0x44, 0x65, 0x6D, 0x6F, 0] = c_string (AOA_Info AOA_INFO_MODEL_1)" by (simp add: c_string_def)
  have "length [0x44, 0x65, 0x6D, 0x6F, 0 :: u8] \<le> length (Data (device (hosts keyboard_world hUSBHost)))"
    using keyboard_facts(8) by simp
  note d = conjunct2 [OF string_delivered [OF completing_reads.reading_bus_axioms keyboard_facts(6,7) bs this]]
  have "length [0x44, 0x65, 0x6D, 0x6F, 0 :: u8] = 5" "(0 :: nat) < 1" by simp_all
  with d [rule_format, of 1] show ?thesis by (simp only:)
qed

text \<open>A full packet has come in from a high-speed accessory.\<close>

definition phone :: AOA_HandleTypeDef where
  "phone = zero_aoa\<lparr>aoa_InPipe := 2, aoa_OutPipe := 3, aoa_InEpSize := 512\<rparr>"

definition phone_world :: usb where
  "phone_world = upd_host hUSBHost (\<lambda>h. h\<lparr>pActiveClass := Some AOA_Class\<rparr>)
     (ctl_world\<lparr>cdata := (\<lambda>_. NoData)(40 := AoaData phone), class_pData := (\<lambda>_. NULL)(AOA_Class := 40)\<rparr>)"

definition received :: "u32 \<Rightarrow> usb \<Rightarrow> usb" where
  "received n w = w\<lparr>hc := map (\<lambda>c. c\<lparr>hc_urb_state := USBH_URB_DONE, hc_xfer_count := n\<rparr>) (hc w)\<rparr>"

interpretation received: accessory_bus "received n" p q for n p q
proof
  fix w assume "request_ready p w"
  moreover have "request_ready p (received n w) = request_ready p w" by (rule request_ready_cong) (simp_all add: received_def)
  ultimately show "request_ready p (received n w)" by simp
  fix a assume "cdata w q = AoaData a"
  then show "\<exists>x. cdata (received n w) q = AoaData (a\<lparr>aoa_Date := x\<rparr>) \<and> length x = length (aoa_Date a)"
    by (intro exI [of _ "aoa_Date a"]) (simp add: received_def)
qed (simp_all add: received_def trace_def aoa_ptr_def split: option.split)

lemma accessory_echo_witness:
  "\<exists>v. USBH_AOA_Process (received 512) hUSBHost phone_world = (USBH_OK, v) \<and> faults v = [OOB_Buffer (BAoa 40) 512]"
proof -
  have "request_ready hUSBHost phone_world = request_ready hUSBHost ctl_world"
    by (rule request_ready_cong) (simp_all add: phone_world_def)
  then have r: "request_ready hUSBHost phone_world" using ctl_world_ready(1) by simp
  have d: "aoa_ptr hUSBHost phone_world = 40" "(40 :: ptr) \<noteq> NULL" "cdata phone_world 40 = AoaData phone" "length (aoa_Date phone) = 512"
    "unat (aoa_InPipe phone) < HC_COUNT" "unat (aoa_OutPipe phone) < HC_COUNT" "faults phone_world = []"
    by (simp_all add: phone_world_def phone_def zero_aoa_def aoa_ptr_def ctl_world_def reset_usb_def)
  have "length (hc phone_world) = 15" using r by (simp add: request_ready_def)
  then have h: "hc_urb_state (hc_get (received 512 phone_world) 2) = USBH_URB_DONE"
    "unat (hc_xfer_count (hc_get (received 512 phone_world) 2)) = 512"
    by (simp_all add: received_def hc_get_def)
  from accessory_echo [OF received.accessory_bus_axioms r d(1-6) refl refl, of 512] h d(7) show ?thesis
    by (auto simp: phone_def)
qed

end
