(* ===== verification/Usb_Drivers_Props.thy ===== *)
theory Usb_Drivers_Props
  imports Usb_CH340_Data Usb_Core_Props
begin

text \<open>
  What the drivers of the firmware leave to the host core: none of their functions changes the state of the
  handle they are called for or the choice of its driver, the functions of a hub that work on its children
  excepted. With that the transitions of the host state machine hold for the table of drivers as it is.
\<close>

section \<open>Functions all drivers use\<close>

lemma core_fields [simp]:
  "core p (cdata_update f w) = core p w" "core p (class_pData_update g w) = core p w"
  "core p (mallocs_update h w) = core p w" "core p (brk_update k w) = core p w"
  "core p (apps_update a w) = core p w" "core p (sd_mem_update b w) = core p w"
  "core p (alive_update l w) = core p w" "core p (hc_update c w) = core p w"
  by (simp_all add: core_def)

lemma core_malloc [simp]: "core p (snd (malloc w)) = core p w"
  by (simp add: malloc_def core_def split: list.split bool.split)

lemma core_put_setup [simp]: "core p (put_setup q rt rq v ix n w) = core p w"
  by (simp add: put_setup_def)

lemma core_ioreq [simp]:
  "core p (snd (USBH_BulkSendData q b n ch g w)) = core p w" "core p (snd (USBH_BulkReceiveData q b n ch w)) = core p w"
  "core p (snd (USBH_InterruptReceiveData q b k ch w)) = core p w"
  by (simp_all add: core_def ioreq_defs)

lemma core_pipes [simp]:
  "core p (snd (USBH_ClosePipe q c w)) = core p w" "core p (snd (USBH_LL_SetToggle q c t w)) = core p w"
  "core p (snd (USBH_SelectInterface q i w)) = core p w" "core p (snd (USBH_Free_One_Address q w)) = core p w"
  "core p (chk_itf q k w) = core p w" "core p (free_cdata q w) = core p w" "core p (chk_host q w) = core p w"
  by (simp_all add: USBH_ClosePipe_def USBH_LL_ClosePipe_def HAL_HCD_HC_Halt_def chk_hcd_def USBH_LL_SetToggle_def chk_hc_def
      Let_def upd_hc_def USBH_SelectInterface_def chk_itf_def USBH_Free_One_Address_def set_dev_address_def set_addr_used_def
      free_cdata_def chk_host_def)
     (simp_all add: core_def)

lemma core_clear:
  assumes "keeps_g p E"
  shows "core p (snd (USBH_ClrFeature E p e w)) = core p w"
  by (simp add: USBH_ClrFeature_def g_ctlreq [OF assms])

text \<open>The updates of the drivers' own data.\<close>

lemma core_upd_data [simp]:
  "core p (upd_msc q f w) = core p w" "core p (upd_aoa q g w) = core p w" "core p (upd_cdc q h w) = core p w"
  "core p (upd_hub q k w) = core p w" "core p (upd_app q l w) = core p w"
  by (simp_all add: upd_msc_def upd_aoa_def upd_cdc_def upd_hub_def upd_app_def Let_def split: class_data.split option.split)

lemma core_chk_data [simp]:
  "core p (chk_msc q w) = core p w" "core p (chk_unit q i w) = core p w" "core p (upd_unit q i g w) = core p w"
  "core p (set_lun q i ls w) = core p w" "core p (set_lun_error q i e w) = core p w" "core p (set_bot q bs w) = core p w"
  "core p (chk_class q w) = core p w" "core p (chk_buf b i w) = core p w" "core p (chk_lc lc w) = core p w"
  by (simp_all add: chk_msc_def chk_unit_def upd_unit_def set_lun_def set_lun_error_def set_bot_def chk_class_def chk_buf_def
      chk_lc_def)

lemma core_open_bulk [simp]: "core p (open_bulk_pipe q c e n w) = core p w" "core p (open_data_pipe q c e n w) = core p w"
  by (simp_all add: open_bulk_pipe_def open_data_pipe_def)

section \<open>The mass storage driver\<close>

lemma core_bot:
  assumes "keeps_g p E"
  shows "core p (snd (USBH_MSC_BOT_Process E p lun w)) = core p w"
proof -
  have a: "core p (snd (USBH_MSC_BOT_Abort E p lun d w)) = core p w" for d w
    by (simp add: USBH_MSC_BOT_Abort_def Let_def core_clear [OF assms])
  have "core p (bot_cbw_wait E p q w) = core p w" "core p (bot_data_in_wait E p q w) = core p w"
    "core p (bot_data_out_wait E p q w) = core p w" "core p (snd (bot_csw_wait E p q w)) = core p w"
    "core p (bot_error_in E p lun q w) = core p w" "core p (bot_error_out E p lun q w) = core p w" for q w
    by (simp_all add: bot_cbw_wait_def bot_data_in_wait_def bot_data_out_wait_def bot_csw_wait_def bot_error_in_def bot_error_out_def
        bot_receive_def bot_send_def case_prod_beta Let_def g_poll [OF assms] a)
  then show ?thesis
    by (simp add: USBH_MSC_BOT_Process_def USBH_MSC_BOT_REQ_Reset_def bot_receive_def bot_send_def case_prod_beta Let_def
        g_ctlreq [OF assms] split: BOT_StateTypeDef.split)
qed

lemma core_scsi:
  assumes "keeps_g p E" "\<And>r w. core p (post r w) = core p w"
  shows "core p (snd (scsi_command E p lun err prep post w)) = core p w"
  by (simp add: scsi_command_def Let_def case_prod_beta core_bot [OF assms(1)] assms(2) split: BOT_CMDStateTypeDef.split)

lemma core_lun_steps:
  assumes "keeps_g p E"
  shows "core p (lun_inquiry_step E p q w) = core p w" "core p (lun_ready_step E p q w) = core p w"
    "core p (lun_capacity_step E p q w) = core p w" "core p (lun_sense_step E p q w) = core p w"
  by (simp_all add: lun_inquiry_step_def lun_ready_step_def lun_capacity_step_def lun_sense_step_def Let_def case_prod_beta
      lun_given_up_def next_lun_def USBH_MSC_SCSI_Inquiry_def USBH_MSC_SCSI_TestUnitReady_def USBH_MSC_SCSI_ReadCapacity_def
      USBH_MSC_SCSI_RequestSense_def core_scsi [OF assms])

lemma core_msc_process:
  assumes "keeps_g p E"
  shows "core p (snd (USBH_MSC_Process E p w)) = core p w"
proof -
  have "core p (lun_step E p q w) = core p w" for q w
    by (simp add: lun_step_def Let_def next_lun_def core_lun_steps [OF assms] split: MSC_StateTypeDef.split)
  then show ?thesis by (simp add: USBH_MSC_Process_def Let_def split: MSC_StateTypeDef.split)
qed

lemma core_msc_init: "core p (snd (USBH_MSC_InterfaceInit p w)) = core p w"
proof -
  have "core p (snd (new_msc p w)) = core p w" for w
    by (simp add: new_msc_def case_prod_beta Let_def split: option.split)
  then show ?thesis
    by (simp add: USBH_MSC_InterfaceInit_def msc_configure_def USBH_MSC_BOT_Init_def msc_open_pipes_def case_prod_beta Let_def)
qed

lemma core_msc_deinit: "core p (snd (USBH_MSC_InterfaceDeInit p w)) = core p w"
  by (simp add: USBH_MSC_InterfaceDeInit_def drop_msc_pipe_def Let_def)

lemma core_lun_loop:
  assumes "lun_loop q i w = Some v"
  shows "core p v = core p w"
proof (rule lun_loop.raw_induct [of "\<lambda>q i w v. core p v = core p w", OF _ assms])
  fix loop q i w v
  assume IH: "\<And>q' i w v. loop q' i w = Some v \<Longrightarrow> core p v = core p w"
    and e: "(if ucast i < max_lun (msc_at q w)
      then loop q (i + 1) (upd_unit q (unat i) (\<lambda>u. u\<lparr>prev_ready_state := USBH_FAIL, state_changed := 0\<rparr>) w)
      else Some w) = Some v"
  from e IH [of q "i + 1"] show "core p v = core p w" by (auto split: if_splits)
qed

lemma core_msc_requests:
  assumes "keeps_g p E" "USBH_MSC_ClassRequest E p w = Some (st, v)"
  shows "core p v = core p w"
proof -
  have g: "core p (snd (USBH_MSC_BOT_REQ_GetMaxLUN E p b w)) = core p w" for b w
    by (simp add: USBH_MSC_BOT_REQ_GetMaxLUN_def g_ctlreq [OF assms(1)])
  obtain st' x where m: "USBH_MSC_BOT_REQ_GetMaxLUN E p (BMaxLun (msc_ptr p w)) (chk_msc (msc_ptr p w) w) = (st', x)" by force
  with g [of "BMaxLun (msc_ptr p w)" "chk_msc (msc_ptr p w) w"] have "core p x = core p w" by simp
  then show ?thesis
    using assms(2) core_lun_loop [of _ _ _ v p]
    by (auto simp: USBH_MSC_ClassRequest_def Let_def case_prod_beta m core_clear [OF assms(1)] split: if_splits)
qed

section \<open>The driver of the serial adapter\<close>

lemma core_cdc_init: "core p (snd (USBH_CH340_InterfaceInit p w)) = core p w"
  by (simp add: USBH_CH340_InterfaceInit_def new_cdc_def upd_data_def case_prod_beta Let_def)

lemma core_wait_app:
  assumes "keeps_g p E" "wait_app E q w = Some v"
  shows "core p v = core p w"
proof -
  define P where "P = (\<lambda>E' (q :: ptr) w v. E' = E \<longrightarrow> core p v = core p w)"
  have "P E q w v"
  proof (rule wait_app.raw_induct [of P, OF _ assms(2)], unfold P_def, intro impI)
    fix loop E' q w v
    assume IH: "\<And>E' q w v. loop E' q w = Some v \<Longrightarrow> E' = E \<longrightarrow> core p v = core p w"
      and e: "(if app_data (hosts w q) \<noteq> NULL then loop E' q (USBH_Delay E' 10 w) else Some w) = Some v" "E' = E"
    from e IH [of E q "USBH_Delay E 10 w"] show "core p v = core p w"
      by (auto simp: g_delay [OF assms(1)] split: if_splits)
  qed
  then show ?thesis by (simp add: P_def)
qed

lemma core_cdc_deinit:
  assumes "keeps_g p E" "USBH_CH340_InterfaceDeInit E p w = Some (s, v)"
  shows "core p v = core p w"
proof -
  have d: "core p (drop_pipe p c f u) = core p u" for c f u by (simp add: drop_pipe_def)
  from assms(2) obtain u where u: "wait_app E p w = Some u"
    by (auto simp: USBH_CH340_InterfaceDeInit_def split: Option.bind_splits)
  with assms(2) core_wait_app [OF assms(1) u] show ?thesis
    by (auto simp: USBH_CH340_InterfaceDeInit_def Let_def d)
qed

lemma core_received [simp]: "core p (USBH_CDC_ReceiveCallback q w) = core p w"
  by (simp add: USBH_CDC_ReceiveCallback_def ring_copy_def sd_write_def clear_recv_def USBH_CDC_Receive_def Let_def
      split: option.split)

lemma core_cdc_process:
  assumes "keeps_g p E"
  shows "core p (snd (USBH_CH340_Process E p w)) = core p w"
proof -
  have v: "core p (snd (ch34x_vendor_read E rq x i p b n u)) = core p u" "core p (snd (ch34x_vendor_write E rq x i p b n u)) = core p u"
    for rq x i b n u
    by (simp_all add: ch34x_vendor_read_def ch34x_vendor_write_def g_ctlreq [OF assms])
  have s: "core p (snd (attach_step p nx r)) = core p (snd r)" for nx r
    by (simp add: attach_step_def set_attach_def case_prod_beta)
  have "core p (snd (ch34x_attach E p u)) = core p u" for u
    by (simp add: ch34x_attach_def Let_def s v case_prod_beta set_attach_def split: CH340_AttachStateTypeDef.split)
  moreover have "core p (snd (SetLineCoding E p q u)) = core p u" "core p (snd (GetLineCoding p u)) = core p u" for q u
    by (simp_all add: SetLineCoding_def GetLineCoding_def Let_def case_prod_beta v)
  moreover have "core p (CDC_ProcessTransmission E p u) = core p u" "core p (CDC_ProcessReception E p u) = core p u" for u
    by (simp_all add: CDC_ProcessTransmission_def CDC_ProcessReception_def Let_def case_prod_beta set_tx_def set_rx_def
        g_poll [OF assms] split: CDC_DataStateTypeDef.split)
  ultimately show ?thesis
    by (simp add: USBH_CH340_Process_def Let_def case_prod_beta set_cdc_state_def core_clear [OF assms]
        split: CDC_StateTypeDef.split)
qed

section \<open>The accessory driver\<close>

lemma core_aoa_turn:
  assumes "keeps_g p E" "aoa_turn E p status ret w = (status', ret', w')"
  shows "core p w' = core p w"
proof -
  have "core p (put_data p bs u) = core p u" for bs u by (simp add: put_data_def Let_def)
  then have "core p (snd (USBH_SetProtocol E p i u)) = core p u" for i u
    by (simp add: USBH_SetProtocol_def Let_def g_ctlreq [OF assms(1)])
  then have a: "core p (snd (aoa_set E p i st nx u)) = core p u" for i st nx u
    by (simp add: aoa_set_def case_prod_beta)
  have r: "core p (snd (USBH_GetProtocol E p b n u)) = core p u" "core p (snd (USBH_SetAOAReq E p b n u)) = core p u" for b n u
    by (simp_all add: USBH_GetProtocol_def USBH_SetAOAReq_def g_ctlreq [OF assms(1)])
  have "core p (snd (snd (aoa_turn E p status ret w))) = core p w"
    by (simp add: aoa_turn_def Let_def case_prod_beta a r split: AOA_REQ_STATE.split)
  with assms(2) show ?thesis by simp
qed

lemma core_aoa_loop:
  assumes "keeps_g p E" "aoa_loop E p status ret w = Some (s, v)"
  shows "core p v = core p w"
proof -
  define P where "P = (\<lambda>E' p' (status :: AOA_REQ_STATE) (ret :: USBH_StatusTypeDef) w (z :: USBH_StatusTypeDef \<times> usb).
    E' = E \<and> p' = p \<longrightarrow> core p (snd z) = core p w)"
  have "P E p status ret w (s, v)"
  proof (rule aoa_loop.raw_induct [of P, OF _ assms(2)], unfold P_def, intro impI)
    fix loop E' p' status ret w and z :: "USBH_StatusTypeDef \<times> usb"
    assume IH: "\<And>E' p' status ret w z. loop E' p' status ret w = Some z \<Longrightarrow> E' = E \<and> p' = p \<longrightarrow> core p (snd z) = core p w"
      and e: "(if status = AOA_MAX_NUM then Some (ret, w)
        else case aoa_turn E' p' status ret w of (status, ret, w) \<Rightarrow> loop E' p' status ret w) = Some z" "E' = E \<and> p' = p"
    obtain st rt u where t: "aoa_turn E p status ret w = (st, rt, u)" by (cases "aoa_turn E p status ret w")
    from e t IH [of E p st rt u z] core_aoa_turn [OF assms(1) t] show "core p (snd z) = core p w"
      by (auto split: if_splits)
  qed
  then show ?thesis by (simp add: P_def)
qed

lemma core_aoa_init:
  assumes "keeps_g p E" "USBH_AOA_InterfaceInit E p w = Some (s, v)"
  shows "core p v = core p w"
proof -
  have e: "core p (aoa_endpoint p q i u) = core p u" for q i u
    by (simp add: aoa_endpoint_def Let_def case_prod_beta)
  have "core p (fold (aoa_endpoint p q) is u) = core p u" for q "is" u
    by (induction "is" arbitrary: u) (simp_all add: e)
  moreover have "core p (snd (new_aoa p u)) = core p u" for u
    by (simp add: new_aoa_def case_prod_beta Let_def split: option.split)
  ultimately have "core p (aoa_open p w) = core p w" by (simp add: aoa_open_def case_prod_beta Let_def)
  with assms(2) core_aoa_loop [OF assms(1)] show ?thesis by (auto simp: USBH_AOA_InterfaceInit_def split: if_splits)
qed

lemma core_aoa:
  assumes "keeps_g p E"
  shows "core p (snd (USBH_AOA_InterfaceDeInit p w)) = core p w" "core p (snd (USBH_AOA_ClassRequest p w)) = core p w"
    "core p (snd (USBH_AOA_Process E p w)) = core p w"
  by (simp_all add: USBH_AOA_InterfaceDeInit_def USBH_AOA_ClassRequest_def USBH_AOA_Process_def aoa_receive_def end_date_def
      case_prod_beta Let_def g_poll [OF assms] split: option.split)

section \<open>The hub driver\<close>

text \<open>A hub that has no port to look at and, when it is unplugged, no children.\<close>

definition hub_quiet :: "ptr \<Rightarrow> usb \<Rightarrow> bool" where
  "hub_quiet p w \<longleftrightarrow> (pActiveClass (hosts w p) = Some HUB_Class \<longrightarrow>
     (gst p w = HOST_CLASS \<longrightarrow> hub_ctl_state (hub_get p w) \<notin> {HUB_REQ_CLR_FEATURE, HUB_REQ_ENUM_PORT})
     \<and> (gst p w = HOST_DEV_DISCONNECTED \<longrightarrow> children (hosts w p) = replicate USBH_MAX_NUM_CHILD NULL))"

lemma core_hub_state [simp]: "core p (set_hub_state q st w) = core p w"
  by (simp add: set_hub_state_def)

lemma core_hub_init: "core p (snd (USBH_HUB_InterfaceInit p w)) = core p w"
  by (simp add: USBH_HUB_InterfaceInit_def hub_interface_def case_prod_beta Let_def)

lemma core_hub_requests:
  assumes "keeps_g p E"
  shows "core p (snd (USBH_HUB_ClassRequest E p w)) = core p w"
  by (simp add: USBH_HUB_ClassRequest_def USBH_HUB_GetHUBDescriptor_def USBH_HUB_GetHUBStatus_def USBH_HUB_SetHUBPower_def
      case_prod_beta Let_def g_requests(1) [OF assms] g_ctlreq [OF assms] split: HUB_CtlStateTypeDef.split)

lemma core_hub_process:
  assumes "keeps_g p E" "hub_ctl_state (hub_get p w) \<notin> {HUB_REQ_CLR_FEATURE, HUB_REQ_ENUM_PORT}"
    and "USBH_HUB_Process E ops p w = Some (s, v)"
  shows "core p v = core p w"
proof -
  obtain u x where g: "USBH_LL_GetURBState E p (hub_NotifPipe (hub_CommItf (hub_get p w))) w = (u, x)" by force
  with g_poll [OF assms(1), of "hub_NotifPipe (hub_CommItf (hub_get p w))" w] have "core p x = core p w" by simp
  with assms(2,3) show ?thesis
    by (auto simp: USBH_HUB_Process_def g split: if_splits HUB_CtlStateTypeDef.splits)
qed

lemma core_hub_deinit:
  assumes "children (hosts w p) = replicate USBH_MAX_NUM_CHILD NULL" "USBH_HUB_InterfaceDeInit ops p w = Some (s, v)"
  shows "core p v = core p w"
proof -
  have c: "child p (int i) w = NULL" for i by (simp add: child_def assms(1))
  have "fold (\<lambda>i w. if child p (int i) w \<noteq> NULL then g i w else w) is w = w" for g :: "nat \<Rightarrow> usb \<Rightarrow> usb" and "is"
    by (induction "is") (simp_all add: c)
  moreover have "fold_opt (deinit_child ops p) is w = Some w" for "is"
    by (induction "is") (simp_all add: c deinit_child_def)
  ultimately show ?thesis using assms(2) by (auto simp: USBH_HUB_InterfaceDeInit_def Let_def)
qed

section \<open>The table of drivers\<close>

lemma drivers_keep:
  assumes "keeps_g p E"
  shows "call_keeps p (cInit (drivers (Suc n) E rest)) c w" "call_keeps p (cRequests (drivers (Suc n) E rest)) c w"
  using core_msc_init [of p w] core_cdc_init [of p w] core_hub_init [of p w] core_aoa_init [OF assms]
    core_msc_requests [OF assms] core_hub_requests [OF assms, of w] core_aoa(2) [OF assms, of w]
  by (cases c; fastforce simp: call_keeps_def USBH_CH340_ClassRequest_def)+

lemma drivers_keep_running:
  assumes "keeps_g p E" "hub_quiet p w" "pActiveClass (hosts w p) = Some c"
  shows "gst p w = HOST_CLASS \<Longrightarrow> call_keeps p (cBgndProcess (drivers (Suc n) E rest)) c w"
    "gst p w = HOST_DEV_DISCONNECTED \<Longrightarrow> call_keeps p (cDeInit (drivers (Suc n) E rest)) c w"
proof -
  show "call_keeps p (cBgndProcess (drivers (Suc n) E rest)) c w" if "gst p w = HOST_CLASS"
    using core_msc_process [OF assms(1), of w] core_cdc_process [OF assms(1), of w] core_aoa(3) [OF assms(1), of w]
      core_hub_process [OF assms(1), of w] assms(2,3) that
    by (cases c) (auto simp: call_keeps_def hub_quiet_def)
  show "call_keeps p (cDeInit (drivers (Suc n) E rest)) c w" if "gst p w = HOST_DEV_DISCONNECTED"
    using core_msc_deinit [of p w] core_cdc_deinit [OF assms(1), of w] core_aoa(1) [OF assms(1), of w]
      core_hub_deinit [of w p] assms(2,3) that
    by (cases c) (auto simp: call_keeps_def hub_quiet_def)
qed

lemma switch_frame:
  "gst p (mask_hprt p b w) = gst p w" "has_driver p (mask_hprt p b w) = has_driver p w" "hub_quiet p (mask_hprt p b w) = hub_quiet p w"
  by (simp_all add: has_driver_def hub_quiet_def hub_get_def hub_ptr_def) (simp_all add: mask_hprt_def)

text \<open>
  C12: One round of \<open>USBH_Process\<close> with the drivers of the firmware, during which the rest of the system leaves
  the handle's state and driver alone, moves the state of the handle along \<open>host_next\<close> only; and a handle that is
  in \<open>HOST_CLASS_REQUEST\<close> or \<open>HOST_CLASS\<close> has a class driver, before and after. So a device gets to
  \<open>HOST_CLASS\<close> only through enumeration, configuration and the class's own requests. The rounds in which a hub
  looks at its changed ports, or is unplugged with devices behind it, are left out.
\<close>

theorem Process_transitions:
  assumes "keeps_g p E" and "has_driver p w" and "hub_quiet p w"
    and "USBH_Process E (drivers (Suc n) E rest) p w = Some (s, w')"
  shows "host_next (gst p w) (gst p w') \<and> has_driver p w'
    \<and> (gst p w' = HOST_CLASS \<longrightarrow> gst p w \<in> {HOST_CLASS_REQUEST, HOST_CLASS})"
proof -
  let ?ops = "drivers (Suc n) E rest" and ?w = "mask_hprt p True w"
  from assms(4) obtain s0 v where v: "host_switch E ?ops p ?w = Some (s0, v)"
    and w': "w' = mask_hprt p False v"
    by (auto simp: USBH_Process_def Let_def split: Option.bind_splits simp del: drivers.simps)
  note q = drivers_keep_running [OF assms(1), of ?w]
  have "host_next (gst p ?w) (gst p v) \<and> has_driver p v"
    using assms(2,3) drivers_keep [OF assms(1)] q
    by (intro switch_core [OF assms(1) v]) (simp_all add: switch_frame del: drivers.simps)
  then have "host_next (gst p w) (gst p w') \<and> has_driver p w'" by (simp add: switch_frame w')
  then show ?thesis by (metis host_next_to_class insertCI)
qed

text \<open>A serial adapter that has been enumerated and configured, with its driver's data at 60.\<close>

definition request_world :: usb where
  "request_world = reset_usb\<lparr>hosts := (\<lambda>_. zero_host\<lparr>gState := HOST_CLASS_REQUEST, pActiveClass := Some CH340_Class,
       pClassData := (pClassData zero_host)[0 := 60]\<rparr>),
     cdata := (\<lambda>_. NoData)(60 := CdcData zero_cdc)\<rparr>"

theorem Process_transitions_witness:
  "\<exists>s w'. USBH_Process id (drivers 1 id quiet_ops) hUSBHost request_world = Some (s, w')
    \<and> host_next HOST_CLASS_REQUEST (gst hUSBHost w') \<and> gst hUSBHost w' = HOST_CLASS"
proof -
  have h: "has_driver hUSBHost request_world" "gst hUSBHost request_world = HOST_CLASS_REQUEST"
    "hub_quiet hUSBHost request_world" "keeps_g hUSBHost id"
    by (simp_all add: has_driver_def request_world_def hub_quiet_def keeps_g_def)
  obtain s w' where P: "USBH_Process id (drivers (Suc 0) id quiet_ops) hUSBHost request_world = Some (s, w')"
      "gst hUSBHost w' = HOST_CLASS"
    by (simp add: USBH_Process_def host_switch_def request_world_def mask_hprt_def zero_host_def
        USBH_CH340_ClassRequest_def set_gstate_def)
  from Process_transitions [OF h(4,1,3) P(1)] P h(2) show ?thesis by auto
qed

end
