(* ===== verification/Usb_Otg.thy ===== *)
theory Usb_Otg
  imports Usb_LL
begin

text \<open>
  The registers of the OTG core and the host functions of stm32f7xx\_ll\_usb.c that work on them, with the
  functions of the HCD driver that only call those. A register is a field of \<open>otg\<close>; the receive FIFO is
  the list of its status words and the list of its data words, what is written to a transmit FIFO is a list
  of words with their FIFO.

  The core itself is an argument \<open>K\<close>: \<open>hw_step\<close> is what it does between two reads of a polling loop and
  during a delay, \<open>hw_GINTSTS\<close> and \<open>hw_HPRT0\<close> say what a write makes of the two status registers (old
  value, value written). \<open>HAINT\<close> is read-only.
\<close>

section \<open>Registers\<close>

record otg_channel =
  HCCHAR :: u32
  HCINT :: u32
  HCINTMSK :: u32
  HCTSIZ :: u32

record otg =
  GAHBCFG :: u32
  GUSBCFG :: u32
  GRSTCTL :: u32
  GINTSTS :: u32
  GINTMSK :: u32
  GRXSTSP :: "u32 list"
  GRXFSIZ :: u32
  HNPTXFSIZ :: u32
  HPTXFSIZ :: u32
  HNPTXSTS :: u32
  HPTXSTS :: u32
  GCCFG :: u32
  PCGCCTL :: u32
  HCFG :: u32
  HFIR :: u32
  HFNUM :: u32
  HAINT :: u32
  HAINTMSK :: u32
  HPRT0 :: u32
  HC :: "otg_channel list"
  rx_fifo :: "u32 list"
  tx_fifo :: "(u8 \<times> u32) list"

record otg_hw =
  hw_step :: "otg \<Rightarrow> otg"
  hw_GINTSTS :: "u32 \<Rightarrow> u32 \<Rightarrow> u32"
  hw_HPRT0 :: "u32 \<Rightarrow> u32 \<Rightarrow> u32"

datatype HAL_StatusTypeDef = HAL_OK | HAL_ERROR | HAL_BUSY | HAL_TIMEOUT

text \<open>The configuration \<open>USBH_LL_Init\<close> gives the HCD driver; the instance is \<open>USB_OTG_FS\<close>.\<close>

record USB_OTG_CfgTypeDef =
  cfg_Host_channels :: u32
  cfg_speed :: u32
  cfg_dma_enable :: u32
  cfg_phy_itface :: u32

definition hhcd_Init :: USB_OTG_CfgTypeDef where
  "hhcd_Init = \<lparr>cfg_Host_channels = 11, cfg_speed = 3, cfg_dma_enable = 0, cfg_phy_itface = 2\<rparr>"

definition zero_chan :: otg_channel where
  "zero_chan = \<lparr>HCCHAR = 0, HCINT = 0, HCINTMSK = 0, HCTSIZ = 0\<rparr>"

definition USBx_HC :: "u8 \<Rightarrow> otg \<Rightarrow> otg_channel" where
  "USBx_HC i r = (if unat i < length (HC r) then HC r ! unat i else zero_chan)"

definition upd_chan :: "u8 \<Rightarrow> (otg_channel \<Rightarrow> otg_channel) \<Rightarrow> otg \<Rightarrow> otg" where
  "upd_chan i f r = r\<lparr>HC := (HC r)[unat i := f (USBx_HC i r)]\<rparr>"

definition set_HCCHAR :: "u8 \<Rightarrow> u32 \<Rightarrow> otg \<Rightarrow> otg" where
  "set_HCCHAR i v r = upd_chan i (\<lambda>c. c\<lparr>HCCHAR := v\<rparr>) r"

definition set_HCTSIZ :: "u8 \<Rightarrow> u32 \<Rightarrow> otg \<Rightarrow> otg" where
  "set_HCTSIZ i v r = upd_chan i (\<lambda>c. c\<lparr>HCTSIZ := v\<rparr>) r"

definition set_HCINTMSK :: "u8 \<Rightarrow> u32 \<Rightarrow> otg \<Rightarrow> otg" where
  "set_HCINTMSK i v r = upd_chan i (\<lambda>c. c\<lparr>HCINTMSK := v\<rparr>) r"

text \<open>A bit of \<open>HCINT\<close> is cleared by writing it.\<close>

definition clear_HCINT :: "u8 \<Rightarrow> u32 \<Rightarrow> otg \<Rightarrow> otg" where
  "clear_HCINT i v r = upd_chan i (\<lambda>c. c\<lparr>HCINT := HCINT c AND NOT v\<rparr>) r"

definition set_GINTSTS :: "otg_hw \<Rightarrow> u32 \<Rightarrow> otg \<Rightarrow> otg" where
  "set_GINTSTS K v r = r\<lparr>GINTSTS := hw_GINTSTS K (GINTSTS r) v\<rparr>"

definition set_HPRT0 :: "otg_hw \<Rightarrow> u32 \<Rightarrow> otg \<Rightarrow> otg" where
  "set_HPRT0 K v r = r\<lparr>HPRT0 := hw_HPRT0 K (HPRT0 r) v\<rparr>"

text \<open>Masks of stm32f767xx.h.\<close>

abbreviation (input) HCCHAR_MPSIZ :: u32 where "HCCHAR_MPSIZ \<equiv> 0x000007FF"
abbreviation (input) HCCHAR_EPNUM :: u32 where "HCCHAR_EPNUM \<equiv> 0x00007800"
abbreviation (input) HCCHAR_EPDIR :: u32 where "HCCHAR_EPDIR \<equiv> 0x00008000"
abbreviation (input) HCCHAR_LSDEV :: u32 where "HCCHAR_LSDEV \<equiv> 0x00020000"
abbreviation (input) HCCHAR_EPTYP :: u32 where "HCCHAR_EPTYP \<equiv> 0x000C0000"
abbreviation (input) HCCHAR_DAD :: u32 where "HCCHAR_DAD \<equiv> 0x1FC00000"
abbreviation (input) HCCHAR_ODDFRM :: u32 where "HCCHAR_ODDFRM \<equiv> 0x20000000"
abbreviation (input) HCCHAR_CHDIS :: u32 where "HCCHAR_CHDIS \<equiv> 0x40000000"
abbreviation (input) HCCHAR_CHENA :: u32 where "HCCHAR_CHENA \<equiv> 0x80000000"
abbreviation (input) HCTSIZ_XFRSIZ :: u32 where "HCTSIZ_XFRSIZ \<equiv> 0x0007FFFF"
abbreviation (input) HCTSIZ_PKTCNT :: u32 where "HCTSIZ_PKTCNT \<equiv> 0x1FF80000"
abbreviation (input) HCTSIZ_DPID :: u32 where "HCTSIZ_DPID \<equiv> 0x60000000"
abbreviation (input) HCINTMSK_CHHM :: u32 where "HCINTMSK_CHHM \<equiv> 0x002"
abbreviation (input) HCINTMSK_BBERRM :: u32 where "HCINTMSK_BBERRM \<equiv> 0x100"
abbreviation (input) GINTSTS_CMOD :: u32 where "GINTSTS_CMOD \<equiv> 0x00000001"
abbreviation (input) GINTSTS_MMIS :: u32 where "GINTSTS_MMIS \<equiv> 0x00000002"
abbreviation (input) GINTSTS_SOF :: u32 where "GINTSTS_SOF \<equiv> 0x00000008"
abbreviation (input) GINTSTS_RXFLVL :: u32 where "GINTSTS_RXFLVL \<equiv> 0x00000010"
abbreviation (input) GINTSTS_NPTXFE :: u32 where "GINTSTS_NPTXFE \<equiv> 0x00000020"
abbreviation (input) GINTSTS_IISOIXFR :: u32 where "GINTSTS_IISOIXFR \<equiv> 0x00100000"
abbreviation (input) GINTSTS_INCOMPISOOUT :: u32 where "GINTSTS_INCOMPISOOUT \<equiv> 0x00200000"
abbreviation (input) GINTSTS_HPRTINT :: u32 where "GINTSTS_HPRTINT \<equiv> 0x01000000"
abbreviation (input) GINTSTS_HCINT :: u32 where "GINTSTS_HCINT \<equiv> 0x02000000"
abbreviation (input) GINTSTS_PTXFE :: u32 where "GINTSTS_PTXFE \<equiv> 0x04000000"
abbreviation (input) GINTSTS_DISCINT :: u32 where "GINTSTS_DISCINT \<equiv> 0x20000000"
abbreviation (input) GINTSTS_WKUINT :: u32 where "GINTSTS_WKUINT \<equiv> 0x80000000"
abbreviation (input) HPRT_PCSTS :: u32 where "HPRT_PCSTS \<equiv> 0x00000001"
abbreviation (input) HPRT_PCDET :: u32 where "HPRT_PCDET \<equiv> 0x00000002"
abbreviation (input) HPRT_PENA :: u32 where "HPRT_PENA \<equiv> 0x00000004"
abbreviation (input) HPRT_PENCHNG :: u32 where "HPRT_PENCHNG \<equiv> 0x00000008"
abbreviation (input) HPRT_POCCHNG :: u32 where "HPRT_POCCHNG \<equiv> 0x00000020"
abbreviation (input) HPRT_PRST :: u32 where "HPRT_PRST \<equiv> 0x00000100"
abbreviation (input) HPRT_PPWR :: u32 where "HPRT_PPWR \<equiv> 0x00001000"
abbreviation (input) HPRT_PSPD :: u32 where "HPRT_PSPD \<equiv> 0x00060000"

section \<open>Polling loops\<close>

text \<open>
  \<open>do { if (++count > n) ... } while (busy)\<close>: the register is read at most \<open>n\<close> times. The result is what is
  left of the count, which is 0 when the loop gave up.
\<close>

fun poll_reg :: "(otg \<Rightarrow> otg) \<Rightarrow> (otg \<Rightarrow> bool) \<Rightarrow> nat \<Rightarrow> otg \<Rightarrow> nat \<times> otg" where
  "poll_reg H busy 0 r = (0, r)"
| "poll_reg H busy (Suc n) r = (let r = H r in if busy r then poll_reg H busy n r else (n, r))"

text \<open>
  The same with the status the code returns: \<open>HAL_TIMEOUT\<close> when the register was busy in all \<open>n\<close> reads.
\<close>

fun wait_reg :: "(otg \<Rightarrow> otg) \<Rightarrow> (otg \<Rightarrow> bool) \<Rightarrow> nat \<Rightarrow> otg \<Rightarrow> HAL_StatusTypeDef \<times> otg" where
  "wait_reg H busy 0 r = (HAL_TIMEOUT, r)"
| "wait_reg H busy (Suc n) r = (let r = H r in if busy r then wait_reg H busy n r else (HAL_OK, r))"

section \<open>The core\<close>

definition USB_CoreReset :: "otg_hw \<Rightarrow> otg \<Rightarrow> HAL_StatusTypeDef \<times> otg" where
  "USB_CoreReset K r =
    (case wait_reg (hw_step K) (\<lambda>r. GRSTCTL r AND 0x80000000 = 0) 200000 r of
       (HAL_OK, r) \<Rightarrow>
         wait_reg (hw_step K) (\<lambda>r. GRSTCTL r AND 1 = 1) 200000 (r\<lparr>GRSTCTL := GRSTCTL r OR 1\<rparr>)
     | (_, r) \<Rightarrow> (HAL_TIMEOUT, r))"

text \<open>With the embedded full-speed PHY and no DMA, as \<open>hhcd_Init\<close> says.\<close>

definition USB_CoreInit :: "otg_hw \<Rightarrow> otg \<Rightarrow> HAL_StatusTypeDef \<times> otg" where
  "USB_CoreInit K r =
    (let r = r\<lparr>GUSBCFG := GUSBCFG r OR 0x40\<rparr>; (_, r) = USB_CoreReset K r
     in (HAL_OK, r\<lparr>GCCFG := 0x10000\<rparr>))"

definition USB_EnableGlobalInt :: "otg \<Rightarrow> otg" where
  "USB_EnableGlobalInt r = r\<lparr>GAHBCFG := GAHBCFG r OR 1\<rparr>"

definition USB_DisableGlobalInt :: "otg \<Rightarrow> otg" where
  "USB_DisableGlobalInt r = r\<lparr>GAHBCFG := GAHBCFG r AND NOT 1\<rparr>"

datatype USB_OTG_ModeTypeDef = USB_OTG_DEVICE_MODE | USB_OTG_HOST_MODE | USB_OTG_DRD_MODE

definition USB_SetCurrentMode :: "otg_hw \<Rightarrow> USB_OTG_ModeTypeDef \<Rightarrow> otg \<Rightarrow> otg" where
  "USB_SetCurrentMode K mode r =
    (let r = r\<lparr>GUSBCFG := GUSBCFG r AND NOT (0x20000000 OR 0x40000000)\<rparr>;
         r = (if mode = USB_OTG_HOST_MODE then r\<lparr>GUSBCFG := GUSBCFG r OR 0x20000000\<rparr>
              else if mode = USB_OTG_DEVICE_MODE then r\<lparr>GUSBCFG := GUSBCFG r OR 0x40000000\<rparr>
              else r)
     in hw_step K r)"

definition USB_FlushTxFifo :: "otg_hw \<Rightarrow> u32 \<Rightarrow> otg \<Rightarrow> HAL_StatusTypeDef \<times> otg" where
  "USB_FlushTxFifo K num r =
     wait_reg (hw_step K) (\<lambda>r. GRSTCTL r AND 0x20 = 0x20) 200000 (r\<lparr>GRSTCTL := 0x20 OR push_bit 6 num\<rparr>)"

definition USB_FlushRxFifo :: "otg_hw \<Rightarrow> otg \<Rightarrow> HAL_StatusTypeDef \<times> otg" where
  "USB_FlushRxFifo K r =
     wait_reg (hw_step K) (\<lambda>r. GRSTCTL r AND 0x10 = 0x10) 200000 (r\<lparr>GRSTCTL := 0x10\<rparr>)"

definition USB_GetMode :: "otg \<Rightarrow> u32" where
  "USB_GetMode r = GINTSTS r AND 1"

section \<open>The port\<close>

text \<open>What every write of \<open>HPRT0\<close> starts from: the bits that act when a one is written are taken out.\<close>

definition hprt_clean :: "u32 \<Rightarrow> u32" where
  "hprt_clean x = x AND NOT (HPRT_PENA OR HPRT_PCDET OR HPRT_PENCHNG OR HPRT_POCCHNG)"

definition USB_InitFSLSPClkSel :: "u8 \<Rightarrow> otg \<Rightarrow> otg" where
  "USB_InitFSLSPClkSel freq r =
    (let r = r\<lparr>HCFG := HCFG r AND NOT 3\<rparr>;
         r = r\<lparr>HCFG := HCFG r OR (ucast freq AND 3)\<rparr>
     in if freq = 1 then r\<lparr>HFIR := 48000\<rparr>
        else if freq = 2 then r\<lparr>HFIR := 6000\<rparr>
        else r)"

definition USB_ResetPort :: "otg_hw \<Rightarrow> otg \<Rightarrow> HAL_StatusTypeDef \<times> otg" where
  "USB_ResetPort K r =
    (let hprt0 = hprt_clean (HPRT0 r);
         r = hw_step K (set_HPRT0 K (HPRT_PRST OR hprt0) r)
     in (HAL_OK, hw_step K (set_HPRT0 K (NOT HPRT_PRST AND hprt0) r)))"

definition USB_DriveVbus :: "otg_hw \<Rightarrow> u8 \<Rightarrow> otg \<Rightarrow> HAL_StatusTypeDef \<times> otg" where
  "USB_DriveVbus K state r =
    (let hprt0 = hprt_clean (HPRT0 r);
         r = (if hprt0 AND HPRT_PPWR = 0 \<and> state = 1 then set_HPRT0 K (HPRT_PPWR OR hprt0) r else r)
     in (HAL_OK, if hprt0 AND HPRT_PPWR = HPRT_PPWR \<and> state = 0
                 then set_HPRT0 K (NOT HPRT_PPWR AND hprt0) r else r))"

definition USB_GetHostSpeed :: "otg \<Rightarrow> u32" where
  "USB_GetHostSpeed r = drop_bit 17 (HPRT0 r AND HPRT_PSPD)"

definition USB_GetCurrentFrame :: "otg \<Rightarrow> u32" where
  "USB_GetCurrentFrame r = HFNUM r AND 0xFFFF"

text \<open>\<open>USB_HostInit\<close> of the full-speed instance.\<close>

definition USB_HostInit :: "otg_hw \<Rightarrow> otg \<Rightarrow> HAL_StatusTypeDef \<times> otg" where
  "USB_HostInit K r =
    (let r = r\<lparr>PCGCCTL := 0\<rparr>;
         r = r\<lparr>GCCFG := GCCFG r OR 0x200000\<rparr>;
         r = r\<lparr>HCFG := HCFG r AND NOT 4\<rparr>;
         r = snd (USB_FlushTxFifo K 0x10 r);
         r = snd (USB_FlushRxFifo K r);
         r = fold (\<lambda>i r. set_HCINTMSK (of_nat i) 0 (clear_HCINT (of_nat i) 0xFFFFFFFF r))
               [0..<unat (cfg_Host_channels hhcd_Init)] r;
         r = snd (USB_DriveVbus K 1 r);
         r = hw_step K r;
         r = r\<lparr>GINTMSK := 0\<rparr>;
         r = set_GINTSTS K 0xFFFFFFFF r;
         r = r\<lparr>GRXFSIZ := 0x80\<rparr>;
         r = r\<lparr>HNPTXFSIZ := (push_bit 16 0x60 AND 0xFFFF0000) OR 0x80\<rparr>;
         r = r\<lparr>HPTXFSIZ := (push_bit 16 0x40 AND 0xFFFF0000) OR 0xE0\<rparr>;
         r = (if cfg_dma_enable hhcd_Init = 0 then r\<lparr>GINTMSK := GINTMSK r OR GINTSTS_RXFLVL\<rparr> else r)
     in (HAL_OK, r\<lparr>GINTMSK := GINTMSK r OR (GINTSTS_HPRTINT OR GINTSTS_HCINT OR GINTSTS_SOF
                     OR GINTSTS_DISCINT OR GINTSTS_INCOMPISOOUT OR GINTSTS_WKUINT)\<rparr>))"

section \<open>Channels\<close>

text \<open>The interrupts a channel is opened with: transfer types, then the direction.\<close>

definition chan_mask :: "u8 \<Rightarrow> u8 \<Rightarrow> u32 \<Rightarrow> u32" where
  "chan_mask ep_type epnum old =
    (if ep_type = USBH_EP_CONTROL \<or> ep_type = USBH_EP_BULK then
       (let m = 0x001 OR 0x008 OR 0x080 OR 0x400 OR 0x004 OR 0x010
        in if epnum AND 0x80 \<noteq> 0 then m OR HCINTMSK_BBERRM else m)
     else if ep_type = USBH_EP_INTERRUPT then
       (let m = 0x001 OR 0x008 OR 0x080 OR 0x400 OR 0x010 OR 0x004 OR 0x200
        in if epnum AND 0x80 \<noteq> 0 then m OR HCINTMSK_BBERRM else m)
     else if ep_type = USBH_EP_ISO then
       (let m = 0x001 OR 0x020 OR 0x004 OR 0x200
        in if epnum AND 0x80 \<noteq> 0 then m OR (0x080 OR HCINTMSK_BBERRM) else m)
     else old)"

definition chan_char :: "u8 \<Rightarrow> u8 \<Rightarrow> u8 \<Rightarrow> u8 \<Rightarrow> u16 \<Rightarrow> u32" where
  "chan_char epnum dev_addr speed ep_type mps =
     (push_bit 22 (ucast dev_addr) AND HCCHAR_DAD)
     OR (push_bit 11 (ucast epnum AND 0x7F) AND HCCHAR_EPNUM)
     OR (push_bit 15 (if epnum AND 0x80 = 0x80 then 1 else 0) AND HCCHAR_EPDIR)
     OR (push_bit 17 (if speed = 2 then 1 else 0) AND HCCHAR_LSDEV)
     OR (push_bit 18 (ucast ep_type) AND HCCHAR_EPTYP)
     OR (ucast mps AND HCCHAR_MPSIZ)"

definition USB_HC_Init :: "u8 \<Rightarrow> u8 \<Rightarrow> u8 \<Rightarrow> u8 \<Rightarrow> u8 \<Rightarrow> u16 \<Rightarrow> otg \<Rightarrow> HAL_StatusTypeDef \<times> otg" where
  "USB_HC_Init ch_num epnum dev_addr speed ep_type mps r =
    (let r = clear_HCINT ch_num 0xFFFFFFFF r;
         r = set_HCINTMSK ch_num (chan_mask ep_type epnum (HCINTMSK (USBx_HC ch_num r))) r;
         r = r\<lparr>HAINTMSK := HAINTMSK r OR push_bit (unat ch_num) 1\<rparr>;
         r = r\<lparr>GINTMSK := GINTMSK r OR GINTSTS_HCINT\<rparr>;
         r = set_HCCHAR ch_num (chan_char epnum dev_addr speed ep_type mps) r
     in (HAL_OK, if ep_type = USBH_EP_INTERRUPT
                 then set_HCCHAR ch_num (HCCHAR (USBx_HC ch_num r) OR HCCHAR_ODDFRM) r else r))"

definition USB_HC_ReadInterrupt :: "otg \<Rightarrow> u32" where
  "USB_HC_ReadInterrupt r = HAINT r AND 0xFFFF"

text \<open>\<open>tmpreg &= ~CHDIS; tmpreg |= CHENA\<close>\<close>

definition reactivate :: "u8 \<Rightarrow> otg \<Rightarrow> otg" where
  "reactivate ch r = set_HCCHAR ch ((HCCHAR (USBx_HC ch r) AND NOT HCCHAR_CHDIS) OR HCCHAR_CHENA) r"

definition ch_enabled :: "u8 \<Rightarrow> otg \<Rightarrow> bool" where
  "ch_enabled ch r \<longleftrightarrow> HCCHAR (USBx_HC ch r) AND HCCHAR_CHENA = HCCHAR_CHENA"

text \<open>
  A halt request needs room in the request queue of its kind. Without room the channel is re-enabled the
  other way round, its direction bit cleared, and read at most a thousand times.
\<close>

definition USB_HC_Halt :: "otg_hw \<Rightarrow> u8 \<Rightarrow> otg \<Rightarrow> HAL_StatusTypeDef \<times> otg" where
  "USB_HC_Halt K ch r =
    (let t = drop_bit 18 (HCCHAR (USBx_HC ch r) AND HCCHAR_EPTYP);
         r = set_HCCHAR ch (HCCHAR (USBx_HC ch r) OR HCCHAR_CHDIS) r;
         space = (if t = 0 \<or> t = 2 then HNPTXSTS r AND 0xFFFF else HPTXSTS r AND 0xFFFF)
     in (HAL_OK,
         if space = 0 then
           (let r = set_HCCHAR ch (HCCHAR (USBx_HC ch r) AND NOT HCCHAR_CHENA) r;
                r = set_HCCHAR ch (HCCHAR (USBx_HC ch r) OR HCCHAR_CHENA) r;
                r = set_HCCHAR ch (HCCHAR (USBx_HC ch r) AND NOT HCCHAR_EPDIR) r
            in snd (poll_reg (hw_step K) (ch_enabled ch) 1000 r))
         else set_HCCHAR ch (HCCHAR (USBx_HC ch r) OR HCCHAR_CHENA) r))"

text \<open>The two loops of \<open>USB_StopHost\<close>; the count is one for all sixteen channels.\<close>

definition stop_flush :: "u8 \<Rightarrow> otg \<Rightarrow> otg" where
  "stop_flush i r = set_HCCHAR i
     (((HCCHAR (USBx_HC i r) OR HCCHAR_CHDIS) AND NOT HCCHAR_CHENA) AND NOT HCCHAR_EPDIR) r"

definition stop_halt :: "otg_hw \<Rightarrow> u8 \<Rightarrow> nat \<times> otg \<Rightarrow> nat \<times> otg" where
  "stop_halt K i = (\<lambda>(n, r). poll_reg (hw_step K) (ch_enabled i) n (set_HCCHAR i
     (((HCCHAR (USBx_HC i r) OR HCCHAR_CHDIS) OR HCCHAR_CHENA) AND NOT HCCHAR_EPDIR) r))"

definition USB_StopHost :: "otg_hw \<Rightarrow> otg \<Rightarrow> HAL_StatusTypeDef \<times> otg" where
  "USB_StopHost K r =
    (let r = USB_DisableGlobalInt r;
         r = snd (USB_FlushTxFifo K 0x10 r);
         r = snd (USB_FlushRxFifo K r);
         r = fold (\<lambda>i. stop_flush (of_nat i)) [0..<16] r;
         (_, r) = fold (\<lambda>i. stop_halt K (of_nat i)) [0..<16] (1000, r);
         r = set_GINTSTS K 0xFFFFFFFF r
     in (HAL_OK, USB_EnableGlobalInt r))"

section \<open>Packets\<close>

text \<open>
  A packet goes through a FIFO in words of four bytes. A read behind the end of the source is 0 here: the
  bytes that fill up the last word are not sent.
\<close>

definition count32b :: "u16 \<Rightarrow> nat" where
  "count32b len = (unat len + 3) div 4"

definition USB_WritePacket :: "u8 list \<Rightarrow> u8 \<Rightarrow> u16 \<Rightarrow> otg \<Rightarrow> HAL_StatusTypeDef \<times> otg" where
  "USB_WritePacket src ch_ep_num len r =
     (HAL_OK, r\<lparr>tx_fifo := tx_fifo r @ map (\<lambda>i. (ch_ep_num, LE32 src (4 * i))) [0..<count32b len]\<rparr>)"

text \<open>
  The bytes \<open>USB_ReadPacket\<close> stores, four for each word of the FIFO. An empty FIFO reads as 0.
\<close>

fun pop_words :: "nat \<Rightarrow> u32 list \<Rightarrow> u32 list \<times> u32 list" where
  "pop_words 0 xs = ([], xs)"
| "pop_words (Suc n) [] = (let (ys, zs) = pop_words n [] in (0 # ys, zs))"
| "pop_words (Suc n) (x # xs) = (let (ys, zs) = pop_words n xs in (x # ys, zs))"

definition USB_ReadPacket :: "u16 \<Rightarrow> otg \<Rightarrow> u8 list \<times> otg" where
  "USB_ReadPacket len r =
    (let (ws, rest) = pop_words (count32b len) (rx_fifo r)
     in (concat (map le32_bytes ws), r\<lparr>rx_fifo := rest\<rparr>))"

section \<open>Starting a transfer\<close>

text \<open>
  The number of packets and the length the channel gets; the number is computed in 32 bits and stored in
  16. The division stops the program when the packet size is 0; the model gives no packets then.
\<close>

abbreviation (input) max_hc_pkt_count :: u16 where "max_hc_pkt_count \<equiv> 256"

definition xfer_packets :: "HCD_HCTypeDef \<Rightarrow> u16 \<times> u32" where
  "xfer_packets c =
    (let mps = ucast (hc_max_packet c);
         (n, len) = (if hc_xfer_len c > 0 then
            let n = ucast ((hc_xfer_len c + mps - 1) div mps) :: u16
            in if n > max_hc_pkt_count then (max_hc_pkt_count, ucast max_hc_pkt_count * mps) else (n, hc_xfer_len c)
          else (1, hc_xfer_len c))
     in (n, if hc_ep_is_in c \<noteq> 0 then ucast n * mps else len))"

definition xfer_size :: "HCD_HCTypeDef \<Rightarrow> u32" where
  "xfer_size c =
    (case xfer_packets c of (n, len) \<Rightarrow>
       (len AND HCTSIZ_XFRSIZ) OR (push_bit 19 (ucast n) AND HCTSIZ_PKTCNT)
       OR (push_bit 29 (ucast (hc_data_pid c)) AND HCTSIZ_DPID))"

definition xfer_char :: "HCD_HCTypeDef \<Rightarrow> otg \<Rightarrow> u32" where
  "xfer_char c r =
    (let odd_frame = (if HFNUM r AND 1 \<noteq> 0 then 0 else 1);
         x = HCCHAR (USBx_HC (hc_ch_num c) r) AND NOT HCCHAR_ODDFRM;
         x = x OR push_bit 29 odd_frame;
         x = x AND NOT HCCHAR_CHDIS;
         x = (if hc_ep_is_in c \<noteq> 0 then x OR HCCHAR_EPDIR else x AND NOT HCCHAR_EPDIR)
     in x OR HCCHAR_CHENA)"

text \<open>
  The check for room in the transmit FIFO: without it the interrupt for the empty FIFO is unmasked; the
  packet is written in either case. \<open>len_words\<close> has 16 bits.
\<close>

definition xfer_room :: "HCD_HCTypeDef \<Rightarrow> u32 \<Rightarrow> otg \<Rightarrow> otg" where
  "xfer_room c len r =
    (let len_words = ucast ((len + 3) div 4) :: u16; t = hc_ep_type c
     in if t = USBH_EP_CONTROL \<or> t = USBH_EP_BULK then
          (if ucast len_words > HNPTXSTS r AND 0xFFFF then r\<lparr>GINTMSK := GINTMSK r OR GINTSTS_NPTXFE\<rparr> else r)
        else if t = USBH_EP_INTERRUPT \<or> t = USBH_EP_ISO then
          (if ucast len_words > HPTXSTS r AND 0xFFFF then r\<lparr>GINTMSK := GINTMSK r OR GINTSTS_PTXFE\<rparr> else r)
        else r)"

definition USB_HC_StartXfer :: "u8 list \<Rightarrow> HCD_HCTypeDef \<Rightarrow> otg \<Rightarrow> HCD_HCTypeDef \<times> otg" where
  "USB_HC_StartXfer src c r =
    (let (n, len) = xfer_packets c; ch = hc_ch_num c;
         r = set_HCTSIZ ch (xfer_size c) r;
         r = set_HCCHAR ch (xfer_char c r) r;
         c = c\<lparr>hc_xfer_len := len\<rparr>
     in (c, if hc_ep_is_in c = 0 \<and> len > 0
            then snd (USB_WritePacket src ch (ucast len) (xfer_room c len r)) else r))"

section \<open>The driver on the registers\<close>

definition HAL_HCD_Init :: "otg_hw \<Rightarrow> otg \<Rightarrow> HAL_StatusTypeDef \<times> otg" where
  "HAL_HCD_Init K r =
    (let r = USB_DisableGlobalInt r;
         r = snd (USB_CoreInit K r);
         r = USB_SetCurrentMode K USB_OTG_HOST_MODE r
     in (HAL_OK, snd (USB_HostInit K r)))"

definition HAL_HCD_DeInit :: "otg \<Rightarrow> HAL_StatusTypeDef \<times> otg" where
  "HAL_HCD_DeInit r = (HAL_OK, USB_DisableGlobalInt r)"

definition HAL_HCD_Start :: "otg_hw \<Rightarrow> otg \<Rightarrow> HAL_StatusTypeDef \<times> otg" where
  "HAL_HCD_Start K r = (HAL_OK, snd (USB_DriveVbus K 1 (USB_EnableGlobalInt r)))"

definition HAL_HCD_Stop :: "otg_hw \<Rightarrow> otg \<Rightarrow> HAL_StatusTypeDef \<times> otg" where
  "HAL_HCD_Stop K r = (HAL_OK, snd (USB_StopHost K r))"

definition HAL_HCD_ResetPort :: "otg_hw \<Rightarrow> otg \<Rightarrow> HAL_StatusTypeDef \<times> otg" where
  "HAL_HCD_ResetPort K r = USB_ResetPort K r"

end
