(* ===== verification/Usb_Hcd_Irq.thy ===== *)
theory Usb_Hcd_Irq
  imports Usb_Core Usb_Otg
begin

text \<open>
  The interrupt of the OTG core: \<open>HAL_HCD_IRQHandler\<close> with the handlers for the channels, the receive FIFO
  and the port, and the callbacks of usbh\_conf.c that tell the host library. The state is the registers and
  the world of the library; the bit \<open>HPRTINT\<close> of \<open>GINTMSK\<close> is \<open>hprt_masked\<close> of the world. The driver calls the
  library makes from a callback are performed on the registers in their order.
\<close>

type_synonym board = "otg \<times> usb"

section \<open>Memory behind a buffer pointer\<close>

text \<open>
  The object a pointer points into, as bytes, and its replacement. The status block of the transport is
  followed by three bytes of padding. Nothing is received into the other objects.
\<close>

definition obj_bytes :: "usb \<Rightarrow> buf_ptr \<Rightarrow> u8 list" where
  "obj_bytes w b =
    (case b of
       BData q \<Rightarrow> Data (device (hosts w q))
     | BHubIntr q \<Rightarrow> (case cdata w q of HubData h \<Rightarrow> hub_intr_buf h | _ \<Rightarrow> [])
     | BCdcBuf q \<Rightarrow> (case cdata w q of CdcData c \<Rightarrow> cdc_buf c | _ \<Rightarrow> [])
     | BCsw q \<Rightarrow> (case cdata w q of MscData m \<Rightarrow> csw (hbot m) @ [0, 0, 0] | _ \<Rightarrow> [])
     | BMaxLun q \<Rightarrow> (case cdata w q of MscData m \<Rightarrow> le32_bytes (max_lun m) | _ \<Rightarrow> [])
     | BBot q k \<Rightarrow> (case cdata w q of MscData m \<Rightarrow> bot_data (hbot m) | _ \<Rightarrow> [])
     | BAoa q \<Rightarrow> (case cdata w q of AoaData a \<Rightarrow> aoa_Date a | _ \<Rightarrow> [])
     | BApp q k \<Rightarrow> (case apps w q of Some a \<Rightarrow> recv_buf a | None \<Rightarrow> [])
     | BMem q k \<Rightarrow> bytes w q
     | _ \<Rightarrow> [])"

fun buf_off :: "buf_ptr \<Rightarrow> nat" where
  "buf_off (BBot q k) = k"
| "buf_off (BApp q k) = k"
| "buf_off (BMem q k) = k"
| "buf_off b = 0"

definition put_obj :: "buf_ptr \<Rightarrow> u8 list \<Rightarrow> usb \<Rightarrow> usb" where
  "put_obj b ys w =
    (case b of
       BData q \<Rightarrow> upd_dev q (\<lambda>d. d\<lparr>Data := ys\<rparr>) w
     | BHubIntr q \<Rightarrow> (case cdata w q of HubData h \<Rightarrow> w\<lparr>cdata := (cdata w)(q := HubData (h\<lparr>hub_intr_buf := ys\<rparr>))\<rparr> | _ \<Rightarrow> w)
     | BCdcBuf q \<Rightarrow> (case cdata w q of CdcData c \<Rightarrow> w\<lparr>cdata := (cdata w)(q := CdcData (c\<lparr>cdc_buf := ys\<rparr>))\<rparr> | _ \<Rightarrow> w)
     | BCsw q \<Rightarrow> (case cdata w q of MscData m \<Rightarrow>
         w\<lparr>cdata := (cdata w)(q := MscData (m\<lparr>hbot := (hbot m)\<lparr>csw := take (length ys - 3) ys\<rparr>\<rparr>))\<rparr> | _ \<Rightarrow> w)
     | BMaxLun q \<Rightarrow> (case cdata w q of MscData m \<Rightarrow>
         w\<lparr>cdata := (cdata w)(q := MscData (m\<lparr>max_lun := LE32 ys 0\<rparr>))\<rparr> | _ \<Rightarrow> w)
     | BBot q k \<Rightarrow> (case cdata w q of MscData m \<Rightarrow>
         w\<lparr>cdata := (cdata w)(q := MscData (m\<lparr>hbot := (hbot m)\<lparr>bot_data := ys\<rparr>\<rparr>))\<rparr> | _ \<Rightarrow> w)
     | BAoa q \<Rightarrow> (case cdata w q of AoaData a \<Rightarrow> w\<lparr>cdata := (cdata w)(q := AoaData (a\<lparr>aoa_Date := ys\<rparr>))\<rparr> | _ \<Rightarrow> w)
     | BApp q k \<Rightarrow> (case apps w q of Some a \<Rightarrow> w\<lparr>apps := (apps w)(q := Some (a\<lparr>recv_buf := ys\<rparr>))\<rparr> | None \<Rightarrow> w)
     | BMem q k \<Rightarrow> w\<lparr>bytes := (bytes w)(q := ys)\<rparr>
     | _ \<Rightarrow> w)"

text \<open>\<open>xs\<close> written over \<open>ys\<close> from index \<open>i\<close>; what does not fit is dropped, and is a fault.\<close>

definition store_at :: "nat \<Rightarrow> 'a list \<Rightarrow> 'a list \<Rightarrow> 'a list" where
  "store_at i xs ys = take (length ys) (take i ys @ xs @ drop (i + length xs) ys)"

definition mem_write :: "buf_ptr \<Rightarrow> nat \<Rightarrow> u8 list \<Rightarrow> usb \<Rightarrow> usb" where
  "mem_write b k xs w =
    (let i = buf_off b + k; ys = obj_bytes w b
     in put_obj b (store_at i xs ys) (chk (i + length xs \<le> length ys) (OOB_Buffer b (i + length xs - 1)) w))"

section \<open>Calls of the library on the registers\<close>

text \<open>
  A call of the driver; \<open>src\<close> is the memory an OUT transfer reads. The calls that leave the USB subsystem
  (the user callback, the pin of the port's power switch) do nothing to the registers.
\<close>

definition perform :: "otg_hw \<Rightarrow> (payload \<Rightarrow> u8 list) \<Rightarrow> usb \<Rightarrow> hal_call \<Rightarrow> otg \<Rightarrow> otg" where
  "perform K src w x r =
    (case x of
       HCD_Init \<Rightarrow> snd (HAL_HCD_Init K r)
     | HCD_DeInit \<Rightarrow> snd (HAL_HCD_DeInit r)
     | HCD_Start \<Rightarrow> snd (HAL_HCD_Start K r)
     | HCD_Stop \<Rightarrow> snd (HAL_HCD_Stop K r)
     | HCD_ResetPort \<Rightarrow> snd (HAL_HCD_ResetPort K r)
     | HCD_Halt ch \<Rightarrow> snd (USB_HC_Halt K ch r)
     | HC_Open ch ep a sp t mps \<Rightarrow> snd (USB_HC_Init ch ep a sp t mps r)
     | HC_StartXfer ch d t pid pl n \<Rightarrow> snd (USB_HC_StartXfer (src pl) (hc_get w ch) r)
     | Delay n \<Rightarrow> hw_step K r
     | _ \<Rightarrow> r)"

text \<open>
  A callback of the library, with what it calls. In the interrupt it starts only IN transfers, which read
  no memory.
\<close>

definition performed :: "otg_hw \<Rightarrow> usb \<Rightarrow> otg \<Rightarrow> usb \<Rightarrow> board" where
  "performed K w r w' = (fold (perform K (\<lambda>_. []) w') (drop (length (outs w)) (outs w')) r, w')"

section \<open>Callbacks of usbh\_conf.c\<close>

definition HAL_HCD_SOF_Callback :: "otg_hw \<Rightarrow> nat \<Rightarrow> class_ops \<Rightarrow> board \<Rightarrow> board option" where
  "HAL_HCD_SOF_Callback K n ops = (\<lambda>(r, w). do {
     w' \<leftarrow> USBH_LL_IncTimer n ops (hhcd_pData w) w;
     Some (performed K w r w')
   })"

definition HAL_HCD_Connect_Callback :: "otg_hw \<Rightarrow> board \<Rightarrow> board" where
  "HAL_HCD_Connect_Callback K = (\<lambda>(r, w). performed K w r (snd (USBH_LL_Connect (hhcd_pData w) w)))"

definition HAL_HCD_Disconnect_Callback :: "otg_hw \<Rightarrow> (usb \<Rightarrow> usb) \<Rightarrow> board \<Rightarrow> board" where
  "HAL_HCD_Disconnect_Callback K E =
     (\<lambda>(r, w). performed K w r (snd (USBH_LL_Disconnect E (hhcd_pData w) w)))"

definition HAL_HCD_PortEnabled_Callback :: "board \<Rightarrow> board" where
  "HAL_HCD_PortEnabled_Callback = (\<lambda>(r, w). (r, USBH_LL_PortEnabled (hhcd_pData w) w))"

definition HAL_HCD_PortDisabled_Callback :: "board \<Rightarrow> board" where
  "HAL_HCD_PortDisabled_Callback = (\<lambda>(r, w). (r, USBH_LL_PortDisabled (hhcd_pData w) w))"

section \<open>Channels\<close>

fun chan_op :: "otg_hw \<Rightarrow> u8 \<Rightarrow> hc_op \<Rightarrow> otg \<Rightarrow> otg" where
  "chan_op K i Op_Halt r = snd (USB_HC_Halt K i r)"
| "chan_op K i Op_UnmaskHalt r = set_HCINTMSK i (HCINTMSK (USBx_HC i r) OR HCINTMSK_CHHM) r"
| "chan_op K i Op_MaskHalt r = set_HCINTMSK i (HCINTMSK (USBx_HC i r) AND NOT HCINTMSK_CHHM) r"
| "chan_op K i Op_Reactivate r = reactivate i r"
| "chan_op K i Op_OddFrame r = set_HCCHAR i (HCCHAR (USBx_HC i r) OR HCCHAR_ODDFRM) r"

definition chan_irq :: "otg_hw \<Rightarrow> (hc_irq \<Rightarrow> hc_irq) \<Rightarrow> u8 \<Rightarrow> board \<Rightarrow> board" where
  "chan_irq K handler i = (\<lambda>(r, w).
     let hcint = HCINT (USBx_HC i r);
         s = handler (irq_start (hc_get w i) hcint);
         r = fold (chan_op K i) (irq_ops s) (upd_chan i (\<lambda>c. c\<lparr>HCINT := irq_HCINT s\<rparr>) r)
     in (r, run_irq handler i hcint w))"

definition irq_channels :: "otg_hw \<Rightarrow> board \<Rightarrow> board" where
  "irq_channels K b =
    (let interrupt = USB_HC_ReadInterrupt (fst b)
     in fold (\<lambda>k b. let i = of_nat k :: u8
                    in if interrupt AND push_bit k 1 \<noteq> 0 then
                         (if HCCHAR (USBx_HC i (fst b)) AND HCCHAR_EPDIR \<noteq> 0
                          then chan_irq K HCD_HC_IN_IRQHandler i b
                          else chan_irq K HCD_HC_OUT_IRQHandler i b)
                       else b)
          [0..<unat (cfg_Host_channels hhcd_Init)] b)"

section \<open>Receive FIFO\<close>

text \<open>
  Reading \<open>GRXSTSP\<close> takes the status word of the next packet. The channel's \<open>xfer_buff\<close> is moved by what
  was received; here it stays and \<open>xfer_count\<close> is the offset, since both start together.
\<close>

definition rx_in :: "u8 \<Rightarrow> u32 \<Rightarrow> board \<Rightarrow> board" where
  "rx_in channelnum pktcnt = (\<lambda>(r, w).
    let w = (if pktcnt > 0 then chk_hc channelnum w else w); c = hc_get w channelnum
    in if pktcnt > 0 \<and> hc_xfer_buff c \<noteq> BNull then
         (let (xs, r) = USB_ReadPacket (ucast pktcnt) r;
              w = mem_write (hc_xfer_buff c) (unat (hc_xfer_count c)) xs w;
              w = upd_hc channelnum (\<lambda>c. c\<lparr>hc_xfer_count := hc_xfer_count c + pktcnt\<rparr>) w
          in if HCTSIZ (USBx_HC channelnum r) AND HCTSIZ_PKTCNT > 0
             then (reactivate channelnum r, upd_hc channelnum (\<lambda>c. c\<lparr>hc_toggle_in := hc_toggle_in c XOR 1\<rparr>) w)
             else (r, w))
       else (r, w))"

definition HCD_RXQLVL_IRQHandler :: "board \<Rightarrow> board" where
  "HCD_RXQLVL_IRQHandler = (\<lambda>(r, w).
    let temp = (case GRXSTSP r of [] \<Rightarrow> 0 | x # _ \<Rightarrow> x);
        r = r\<lparr>GRXSTSP := tl (GRXSTSP r)\<rparr>;
        channelnum = ucast (temp AND 0xF) :: u8;
        pktsts = drop_bit 17 (temp AND 0x1E0000);
        pktcnt = drop_bit 4 (temp AND 0x7FF0)
    in if pktsts = 2 then rx_in channelnum pktcnt (r, w) else (r, w))"

section \<open>Port\<close>

definition on_regs :: "(otg \<Rightarrow> otg) \<Rightarrow> board \<Rightarrow> board" where
  "on_regs f = (\<lambda>(r, w). (f r, w))"

definition mask_int :: "u32 \<Rightarrow> otg \<Rightarrow> otg" where
  "mask_int m r = r\<lparr>GINTMSK := GINTMSK r AND NOT m\<rparr>"

definition unmask_int :: "u32 \<Rightarrow> otg \<Rightarrow> otg" where
  "unmask_int m r = r\<lparr>GINTMSK := GINTMSK r OR m\<rparr>"

definition port_connected :: "otg_hw \<Rightarrow> u32 \<Rightarrow> board \<Rightarrow> board" where
  "port_connected K hprt0 b =
    (if hprt0 AND HPRT_PCSTS = HPRT_PCSTS
     then HAL_HCD_Connect_Callback K (on_regs (mask_int GINTSTS_DISCINT) b) else b)"

definition port_enable_changed :: "otg_hw \<Rightarrow> u32 \<Rightarrow> board \<Rightarrow> board" where
  "port_enable_changed K hprt0 b =
    (if hprt0 AND HPRT_PENA = HPRT_PENA then
       (let b = on_regs (\<lambda>r.
              if cfg_phy_itface hhcd_Init = 2 then
                (if hprt0 AND HPRT_PSPD = push_bit 17 2 then USB_InitFSLSPClkSel 2 r
                 else USB_InitFSLSPClkSel 1 r)
              else if cfg_speed hhcd_Init = 3 then r\<lparr>HFIR := 60000\<rparr> else r) b
        in HAL_HCD_Connect_Callback K (HAL_HCD_PortEnabled_Callback b))
     else
       (let b = HAL_HCD_PortDisabled_Callback b;
            b = on_regs (\<lambda>r. set_HPRT0 K (hprt_clean (HPRT0 r)) r) b
        in on_regs (unmask_int GINTSTS_DISCINT) b))"

definition HCD_Port_IRQHandler :: "otg_hw \<Rightarrow> board \<Rightarrow> board" where
  "HCD_Port_IRQHandler K b =
    (let hprt0 = HPRT0 (fst b);
         hprt0_dup = hprt_clean hprt0;
         (b, hprt0_dup) = (if hprt0 AND HPRT_PCDET = HPRT_PCDET
            then (port_connected K hprt0 b, hprt0_dup OR HPRT_PCDET) else (b, hprt0_dup));
         (b, hprt0_dup) = (if hprt0 AND HPRT_PENCHNG = HPRT_PENCHNG
            then (port_enable_changed K hprt0 b, hprt0_dup OR HPRT_PENCHNG) else (b, hprt0_dup));
         hprt0_dup = (if hprt0 AND HPRT_POCCHNG = HPRT_POCCHNG then hprt0_dup OR HPRT_POCCHNG else hprt0_dup)
     in on_regs (set_HPRT0 K hprt0_dup) b)"

section \<open>The interrupt\<close>

definition USB_ReadInterrupts :: "board \<Rightarrow> u32" where
  "USB_ReadInterrupts = (\<lambda>(r, w).
     GINTSTS r AND (if hprt_masked w then GINTMSK r AND NOT GINTSTS_HPRTINT else GINTMSK r))"

definition get_flag :: "u32 \<Rightarrow> board \<Rightarrow> bool" where
  "get_flag m b \<longleftrightarrow> USB_ReadInterrupts b AND m = m"

definition clear_flag :: "otg_hw \<Rightarrow> u32 \<Rightarrow> board \<Rightarrow> board" where
  "clear_flag K m = on_regs (set_GINTSTS K m)"

text \<open>Interrupts that do not belong to the mode are acknowledged.\<close>

definition ack_flag :: "otg_hw \<Rightarrow> u32 \<Rightarrow> board \<Rightarrow> board" where
  "ack_flag K m b = (if get_flag m b then clear_flag K m b else b)"

definition irq_disconnected :: "otg_hw \<Rightarrow> (usb \<Rightarrow> usb) \<Rightarrow> board \<Rightarrow> board" where
  "irq_disconnected K E b =
    (let b = on_regs (\<lambda>r. set_HPRT0 K (hprt_clean (HPRT0 r)) r) b;
         b = HAL_HCD_Disconnect_Callback K E b;
         b = on_regs (USB_InitFSLSPClkSel 1) b
     in clear_flag K GINTSTS_DISCINT b)"

definition HAL_HCD_IRQHandler ::
  "otg_hw \<Rightarrow> (usb \<Rightarrow> usb) \<Rightarrow> nat \<Rightarrow> class_ops \<Rightarrow> board \<Rightarrow> board option" where
  "HAL_HCD_IRQHandler K E n ops b =
    (if USB_GetMode (fst b) = 1 then
       if USB_ReadInterrupts b = 0 then Some b
       else
         let b = ack_flag K GINTSTS_INCOMPISOOUT b;
             b = ack_flag K GINTSTS_IISOIXFR b;
             b = ack_flag K GINTSTS_PTXFE b;
             b = ack_flag K GINTSTS_MMIS b;
             b = (if get_flag GINTSTS_DISCINT b then irq_disconnected K E b else b);
             b = (if get_flag GINTSTS_HPRTINT b then HCD_Port_IRQHandler K b else b)
         in do {
           b \<leftarrow> (if get_flag GINTSTS_SOF b
                then do { b \<leftarrow> HAL_HCD_SOF_Callback K n ops b; Some (clear_flag K GINTSTS_SOF b) }
                else Some b);
           let b = (if get_flag GINTSTS_HCINT b
                    then clear_flag K GINTSTS_HCINT (irq_channels K b) else b);
           Some (if get_flag GINTSTS_RXFLVL b
                 then on_regs (unmask_int GINTSTS_RXFLVL)
                        (HCD_RXQLVL_IRQHandler (on_regs (mask_int GINTSTS_RXFLVL) b))
                 else b)
         }
     else Some b)"

end
