(* ===== verification/Usb_Otg_Props.thy ===== *)
theory Usb_Otg_Props
  imports Usb_Otg
begin

text \<open>
  What the register functions program: the fields of \<open>HCCHAR\<close> and \<open>HCTSIZ\<close> as the core reads them, and the
  words of the FIFOs as the bytes they carry.
\<close>

section \<open>Channels\<close>

lemma USBx_HC_upd [simp]:
  "unat i < length (HC r) \<Longrightarrow> USBx_HC k (upd_chan i f r) = (if k = i then f (USBx_HC i r) else USBx_HC k r)"
  by (auto simp: USBx_HC_def upd_chan_def unsigned_word_eqI)

lemma upd_chan_frame [simp, frame_simps]:
  "GINTSTS (upd_chan i f r) = GINTSTS r" "GINTMSK (upd_chan i f r) = GINTMSK r" "HPRT0 (upd_chan i f r) = HPRT0 r"
  "HAINT (upd_chan i f r) = HAINT r" "HNPTXSTS (upd_chan i f r) = HNPTXSTS r" "HPTXSTS (upd_chan i f r) = HPTXSTS r"
  "GRXSTSP (upd_chan i f r) = GRXSTSP r" "rx_fifo (upd_chan i f r) = rx_fifo r" "tx_fifo (upd_chan i f r) = tx_fifo r"
  "HFNUM (upd_chan i f r) = HFNUM r" "length (HC (upd_chan i f r)) = length (HC r)"
  by (simp_all add: upd_chan_def)

lemma USBx_HC_cong [simp]:
  "USBx_HC i (r\<lparr>GINTMSK := x\<rparr>) = USBx_HC i r" "USBx_HC i (r\<lparr>HAINTMSK := x\<rparr>) = USBx_HC i r"
  "USBx_HC i (r\<lparr>tx_fifo := y\<rparr>) = USBx_HC i r" "USBx_HC i (r\<lparr>rx_fifo := z\<rparr>) = USBx_HC i r"
  "USBx_HC i (r\<lparr>GRXSTSP := z\<rparr>) = USBx_HC i r" "USBx_HC i (r\<lparr>GINTSTS := x\<rparr>) = USBx_HC i r"
  "USBx_HC i (r\<lparr>HPRT0 := x\<rparr>) = USBx_HC i r"
  by (simp_all add: USBx_HC_def)

lemmas chan_regs = set_HCCHAR_def set_HCTSIZ_def set_HCINTMSK_def clear_HCINT_def reactivate_def

section \<open>Fields\<close>

text \<open>A channel's characteristics as the core decodes them.\<close>

record chan_fields =
  f_addr :: u32
  f_epnum :: u32
  f_in :: bool
  f_low :: bool
  f_type :: u32
  f_mps :: u32
  f_odd :: bool
  f_disable :: bool
  f_enable :: bool

definition char_fields :: "u32 \<Rightarrow> chan_fields" where
  "char_fields x = \<lparr>f_addr = drop_bit 22 (x AND HCCHAR_DAD), f_epnum = drop_bit 11 (x AND HCCHAR_EPNUM),
     f_in = bit x 15, f_low = bit x 17, f_type = drop_bit 18 (x AND HCCHAR_EPTYP), f_mps = x AND HCCHAR_MPSIZ,
     f_odd = bit x 29, f_disable = bit x 30, f_enable = bit x 31\<rparr>"

lemma masks_as_mask:
  "HCCHAR_DAD = push_bit 22 (mask 7)" "HCCHAR_EPNUM = push_bit 11 (mask 4)" "HCCHAR_EPTYP = push_bit 18 (mask 2)"
  "HCCHAR_MPSIZ = push_bit 0 (mask 11)" "HCCHAR_EPDIR = push_bit 15 (mask 1)" "HCCHAR_LSDEV = push_bit 17 (mask 1)"
  "HCTSIZ_XFRSIZ = push_bit 0 (mask 19)" "HCTSIZ_PKTCNT = push_bit 19 (mask 10)" "HCTSIZ_DPID = push_bit 29 (mask 2)"
  by (simp_all add: mask_eq_exp_minus_1)

text \<open>A value in its field, and a field read back.\<close>

lemma bit_in_field: "bit (push_bit m x AND push_bit m (mask k)) n \<longleftrightarrow> m \<le> n \<and> n < m + k \<and> n < 32 \<and> bit (x :: u32) (n - m)"
  by (auto simp: bit_simps)

lemma bit_of_field: "bit (drop_bit m (x AND push_bit m (mask k))) n \<longleftrightarrow> n < k \<and> m + n < 32 \<and> bit (x :: u32) (m + n)"
  by (auto simp: bit_simps)

lemma bit_one_if: "bit (if b then 1 else 0 :: u32) n \<longleftrightarrow> b \<and> n = 0"
  by (simp add: bit_1_iff)

lemma bit_128 [simp]: "bit (0x80 :: u8) n \<longleftrightarrow> n = 7"
proof (cases "n < 8")
  case True
  then have "n \<in> {0, 1, 2, 3, 4, 5, 6, 7}" by auto
  then show ?thesis by auto
next
  case False
  then show ?thesis by (auto dest: bit_imp_le_length)
qed

lemma bit_80: "x AND 0x80 \<noteq> 0 \<longleftrightarrow> bit (x :: u8) 7" "x AND 0x80 = 0x80 \<longleftrightarrow> bit (x :: u8) 7"
proof -
  have "x AND 0x80 = (if bit x 7 then 0x80 else 0)"
    by (rule bit_word_eqI) (auto simp: bit_and_iff simp del: bit_numeral_word_iff)
  then show "x AND 0x80 \<noteq> 0 \<longleftrightarrow> bit x 7" "x AND 0x80 = 0x80 \<longleftrightarrow> bit x 7" by simp_all
qed

lemma bit_7F: "bit (ucast (e :: u8) AND 0x7F :: u32) n \<longleftrightarrow> n < 7 \<and> bit e n"
proof -
  have "bit (ucast e AND mask 7 :: u32) n \<longleftrightarrow> n < 7 \<and> bit e n"
    by (auto simp: bit_and_iff bit_mask_iff bit_ucast_iff)
  moreover have "mask 7 = (0x7F :: u32)" by (simp add: mask_eq_exp_minus_1)
  ultimately show ?thesis by simp
qed

lemma bit_chan_char:
  "bit (chan_char epnum a sp t mps) n \<longleftrightarrow>
     (22 \<le> n \<and> n < 29 \<and> bit a (n - 22)) \<or> (11 \<le> n \<and> n < 15 \<and> bit epnum (n - 11)) \<or> (n = 15 \<and> bit epnum 7)
     \<or> (n = 17 \<and> sp = 2) \<or> (18 \<le> n \<and> n < 20 \<and> bit t (n - 18)) \<or> (n < 11 \<and> bit mps n)"
proof -
  have 1: "bit (push_bit 22 (ucast a) AND HCCHAR_DAD) n \<longleftrightarrow> 22 \<le> n \<and> n < 29 \<and> bit a (n - 22)"
    unfolding masks_as_mask bit_in_field by (auto simp: bit_ucast_iff)
  have 2: "bit (push_bit 11 (ucast epnum AND 0x7F) AND HCCHAR_EPNUM) n \<longleftrightarrow> 11 \<le> n \<and> n < 15 \<and> bit epnum (n - 11)"
    unfolding masks_as_mask bit_in_field bit_7F by auto
  have 3: "bit (push_bit 15 (if epnum AND 0x80 = 0x80 then 1 else 0) AND HCCHAR_EPDIR) n \<longleftrightarrow> n = 15 \<and> bit epnum 7"
    unfolding masks_as_mask bit_in_field bit_one_if bit_80 by auto
  have 4: "bit (push_bit 17 (if sp = 2 then 1 else 0) AND HCCHAR_LSDEV) n \<longleftrightarrow> n = 17 \<and> sp = 2"
    unfolding masks_as_mask bit_in_field bit_one_if by auto
  have 5: "bit (push_bit 18 (ucast t) AND HCCHAR_EPTYP) n \<longleftrightarrow> 18 \<le> n \<and> n < 20 \<and> bit t (n - 18)"
    unfolding masks_as_mask bit_in_field by (auto simp: bit_ucast_iff)
  have "bit (push_bit 0 (ucast mps) AND HCCHAR_MPSIZ) n \<longleftrightarrow> n < 11 \<and> bit mps n"
    unfolding masks_as_mask bit_in_field by (auto simp: bit_ucast_iff)
  then have 6: "bit (ucast mps AND HCCHAR_MPSIZ) n \<longleftrightarrow> n < 11 \<and> bit mps n" by simp
  show ?thesis unfolding chan_char_def by (simp only: bit_or_iff 1 2 3 4 5 6 disj_assoc)
qed

lemma char_fields_or_odd:
  "char_fields (x OR HCCHAR_ODDFRM) = (char_fields x)\<lparr>f_odd := True\<rparr>"
proof -
  have o: "bit HCCHAR_ODDFRM n \<longleftrightarrow> n = 29" for n
  proof -
    have "bit (push_bit 29 (mask 1) :: u32) n \<longleftrightarrow> n = 29" unfolding bit_push_bit_iff bit_mask_iff by auto
    then show ?thesis by (simp add: mask_eq_exp_minus_1)
  qed
  have f: "(x OR HCCHAR_ODDFRM) AND HCCHAR_DAD = x AND HCCHAR_DAD" "(x OR HCCHAR_ODDFRM) AND HCCHAR_EPNUM = x AND HCCHAR_EPNUM"
    "(x OR HCCHAR_ODDFRM) AND HCCHAR_EPTYP = x AND HCCHAR_EPTYP" "(x OR HCCHAR_ODDFRM) AND HCCHAR_MPSIZ = x AND HCCHAR_MPSIZ"
    by (simp_all add: bit.conj_disj_distrib2)
  show ?thesis unfolding char_fields_def f bit_or_iff o by simp
qed

lemma char_fields_chan_char:
  "char_fields (chan_char epnum a sp t mps) = \<lparr>f_addr = ucast (take_bit 7 a), f_epnum = ucast (take_bit 4 epnum),
     f_in = bit epnum 7, f_low = (sp = 2), f_type = ucast (take_bit 2 t), f_mps = ucast (take_bit 11 mps),
     f_odd = False, f_disable = False, f_enable = False\<rparr>" (is "_ = ?r")
proof -
  let ?x = "chan_char epnum a sp t mps"
  have "drop_bit 22 (?x AND HCCHAR_DAD) = ucast (take_bit 7 a)"
    unfolding masks_as_mask
    by (rule bit_word_eqI, unfold bit_of_field bit_chan_char) (auto simp: bit_simps dest: bit_imp_le_length)
  moreover have "drop_bit 11 (?x AND HCCHAR_EPNUM) = ucast (take_bit 4 epnum)"
    unfolding masks_as_mask
    by (rule bit_word_eqI, unfold bit_of_field bit_chan_char) (auto simp: bit_simps dest: bit_imp_le_length)
  moreover have "drop_bit 18 (?x AND HCCHAR_EPTYP) = ucast (take_bit 2 t)"
    unfolding masks_as_mask
    by (rule bit_word_eqI, unfold bit_of_field bit_chan_char) (auto simp: bit_simps dest: bit_imp_le_length)
  moreover have "drop_bit 0 (?x AND push_bit 0 (mask 11)) = ucast (take_bit 11 mps)"
    by (rule bit_word_eqI, unfold bit_of_field bit_chan_char) (auto simp: bit_simps dest: bit_imp_le_length)
  then have "?x AND HCCHAR_MPSIZ = ucast (take_bit 11 mps)" by (simp add: mask_eq_exp_minus_1)
  ultimately show ?thesis unfolding char_fields_def bit_chan_char by simp
qed

lemma le32_of_bytes:
  fixes a b c d :: u8
  shows "le32_bytes (ucast a + push_bit 8 (ucast b) + push_bit 16 (ucast c) + push_bit 24 (ucast d)) = [a, b, c, d]"
proof -
  let ?a = "ucast a :: u32" and ?b = "push_bit 8 (ucast b) :: u32"
    and ?c = "push_bit 16 (ucast c) :: u32" and ?d = "push_bit 24 (ucast d) :: u32"
  have i: "bit ?a n \<longleftrightarrow> n < 8 \<and> bit a n" "bit ?b n \<longleftrightarrow> 8 \<le> n \<and> n < 16 \<and> bit b (n - 8)"
    "bit ?c n \<longleftrightarrow> 16 \<le> n \<and> n < 24 \<and> bit c (n - 16)" "bit ?d n \<longleftrightarrow> 24 \<le> n \<and> n < 32 \<and> bit d (n - 24)" for n
    by (auto simp: bit_simps dest: bit_imp_le_length)
  have ab: "?a + ?b = ?a OR ?b" by (rule disjunctive_add) (auto simp: i)
  have abc: "(?a OR ?b) + ?c = (?a OR ?b) OR ?c" by (rule disjunctive_add) (auto simp: i bit_or_iff)
  have abcd: "((?a OR ?b) OR ?c) + ?d = ((?a OR ?b) OR ?c) OR ?d" by (rule disjunctive_add) (auto simp: i bit_or_iff)
  have l: "?a + ?b + ?c + ?d = ((?a OR ?b) OR ?c) OR ?d" by (simp only: ab abc abcd)
  have w: "(ucast (drop_bit m x) :: u8) = y" if "\<And>n. n < 8 \<Longrightarrow> bit x (m + n) \<longleftrightarrow> bit y n" for m y and x :: u32
    using that by (intro bit_word_eqI) (simp add: bit_ucast_iff bit_drop_bit_eq)
  have "(ucast (drop_bit 0 (?a + ?b + ?c + ?d)) :: u8) = a" "(ucast (drop_bit 8 (?a + ?b + ?c + ?d)) :: u8) = b"
    "(ucast (drop_bit 16 (?a + ?b + ?c + ?d)) :: u8) = c" "(ucast (drop_bit 24 (?a + ?b + ?c + ?d)) :: u8) = d"
    unfolding l by (rule w, simp add: bit_or_iff i)+
  then show ?thesis by (simp add: le32_bytes_def)
qed

lemma le32_LE32: "le32_bytes (LE32 xs i) = [rd8 xs i, rd8 xs (i + 1), rd8 xs (i + 2), rd8 xs (i + 3)]"
  unfolding LE32_def by (rule le32_of_bytes)

section \<open>The size register\<close>

record xfer_fields =
  x_bytes :: u32
  x_packets :: u32
  x_pid :: u32

definition size_fields :: "u32 \<Rightarrow> xfer_fields" where
  "size_fields x = \<lparr>x_bytes = x AND HCTSIZ_XFRSIZ, x_packets = drop_bit 19 (x AND HCTSIZ_PKTCNT),
     x_pid = drop_bit 29 (x AND HCTSIZ_DPID)\<rparr>"

lemma bit_size_word:
  "bit ((len AND HCTSIZ_XFRSIZ) OR (push_bit 19 n AND HCTSIZ_PKTCNT) OR (push_bit 29 pid AND HCTSIZ_DPID)) k \<longleftrightarrow>
     (k < 19 \<and> bit len k) \<or> (19 \<le> k \<and> k < 29 \<and> bit n (k - 19)) \<or> (29 \<le> k \<and> k < 31 \<and> bit pid (k - 29))"
proof -
  have "bit (push_bit 0 len AND HCTSIZ_XFRSIZ) k \<longleftrightarrow> k < 19 \<and> bit len k"
    unfolding masks_as_mask bit_in_field by auto
  then have 1: "bit (len AND HCTSIZ_XFRSIZ) k \<longleftrightarrow> k < 19 \<and> bit len k" by simp
  have 2: "bit (push_bit 19 n AND HCTSIZ_PKTCNT) k \<longleftrightarrow> 19 \<le> k \<and> k < 29 \<and> bit n (k - 19)"
    unfolding masks_as_mask bit_in_field by auto
  have 3: "bit (push_bit 29 pid AND HCTSIZ_DPID) k \<longleftrightarrow> 29 \<le> k \<and> k < 31 \<and> bit pid (k - 29)"
    unfolding masks_as_mask bit_in_field by auto
  show ?thesis by (simp only: bit_or_iff 1 2 3 disj_assoc)
qed

lemma size_fields_xfer_size:
  "size_fields (xfer_size c) = (case xfer_packets c of (n, len) \<Rightarrow>
     \<lparr>x_bytes = take_bit 19 len, x_packets = take_bit 10 (ucast n), x_pid = take_bit 2 (ucast (hc_data_pid c))\<rparr>)"
proof (cases "xfer_packets c")
  case (Pair n len)
  let ?x = "xfer_size c"
  have b: "bit ?x k \<longleftrightarrow> (k < 19 \<and> bit len k) \<or> (19 \<le> k \<and> k < 29 \<and> bit (ucast n :: u32) (k - 19))
      \<or> (29 \<le> k \<and> k < 31 \<and> bit (ucast (hc_data_pid c) :: u32) (k - 29))" for k
    unfolding xfer_size_def Pair prod.case by (rule bit_size_word)
  have "drop_bit 0 (?x AND push_bit 0 (mask 19)) = take_bit 19 len"
    by (rule bit_word_eqI, unfold bit_of_field b) (auto simp: bit_take_bit_iff)
  then have 1: "?x AND HCTSIZ_XFRSIZ = take_bit 19 len" by (simp add: mask_eq_exp_minus_1)
  have 2: "drop_bit 19 (?x AND HCTSIZ_PKTCNT) = take_bit 10 (ucast n)" unfolding masks_as_mask
    by (rule bit_word_eqI, unfold bit_of_field b) (auto simp: bit_take_bit_iff)
  have 3: "drop_bit 29 (?x AND HCTSIZ_DPID) = take_bit 2 (ucast (hc_data_pid c))" unfolding masks_as_mask
    by (rule bit_word_eqI, unfold bit_of_field b) (auto simp: bit_take_bit_iff)
  show ?thesis unfolding size_fields_def 1 2 3 Pair by simp
qed

text \<open>\<open>num_packets\<close> and the length for a request of at most 65535 bytes.\<close>

lemma xfer_packets_unat:
  assumes "xfer_packets c = (n, len)" "0 < hc_max_packet c" "unat (hc_xfer_len c) < 65536"
  shows "unat n = (if hc_xfer_len c = 0 then 1
       else min 256 ((unat (hc_xfer_len c) + unat (hc_max_packet c) - 1) div unat (hc_max_packet c)))"
    and "unat len = (if hc_ep_is_in c \<noteq> 0 then unat n * unat (hc_max_packet c)
       else min (unat (hc_xfer_len c)) (256 * unat (hc_max_packet c)))"
proof -
  let ?l = "unat (hc_xfer_len c)" and ?m = "unat (hc_max_packet c)"
  have m: "0 < ?m" "?m < 65536" using assms(2) u16_bound by (simp_all add: word_less_nat_alt)
  have p: "unat (hc_xfer_len c + ucast (hc_max_packet c) - 1) = ?l + ?m - 1"
  proof -
    have "unat (hc_xfer_len c + ucast (hc_max_packet c) :: u32) = ?l + ?m"
      using assms(3) m by (subst unat_add_lem [THEN iffD1]) (simp_all add: unat_up)
    moreover have "(1 :: u32) \<le> hc_xfer_len c + ucast (hc_max_packet c)"
      using m calculation by (simp add: word_le_nat_alt)
    ultimately show ?thesis by (simp add: unat_sub)
  qed
  have q: "unat ((hc_xfer_len c + ucast (hc_max_packet c) - 1) div ucast (hc_max_packet c)) = (?l + ?m - 1) div ?m"
    by (simp add: unat_div p unat_up)
  have "?l \<le> ?l * ?m" using m by simp
  moreover have "(?l + 1) * ?m = ?l * ?m + ?m" by simp
  ultimately have "?l + ?m - 1 < (?l + 1) * ?m" using m by linarith
  then have r: "(?l + ?m - 1) div ?m \<le> ?l" using m by (simp add: div_less_iff_less_mult less_Suc_eq_le [symmetric])
  let ?q = "(hc_xfer_len c + ucast (hc_max_packet c) - 1) div ucast (hc_max_packet c)"
  have u: "unat (ucast ?q :: u16) = (?l + ?m - 1) div ?m"
    using r assms(3) q by (simp add: unsigned_ucast_eq take_bit_nat_eq_self)
  have g: "(ucast ?q :: u16) > 256 \<longleftrightarrow> (?l + ?m - 1) div ?m > 256"
    by (simp only: word_less_nat_alt u) simp
  have z: "hc_xfer_len c > 0 \<longleftrightarrow> hc_xfer_len c \<noteq> 0" by (simp add: word_neq_0_conv)
  show n: "unat n = (if hc_xfer_len c = 0 then 1 else min 256 ((?l + ?m - 1) div ?m))"
    using assms(1) u g by (auto simp: xfer_packets_def Let_def z split: if_splits)
  have mul: "unat (ucast k * ucast (hc_max_packet c) :: u32) = unat k * ?m" if "unat k \<le> 256" for k :: u16
  proof -
    have "unat k * ?m \<le> 256 * ?m" using that by simp
    also have "\<dots> < 2 ^ 32" using m by simp
    finally have "unat k * ?m < 2 ^ 32" .
    then show ?thesis by (subst unat_mult_lem [THEN iffD1]) (simp_all add: unat_up)
  qed
  have n256: "unat n \<le> 256" using n by simp
  have big: "256 * ?m \<le> ?l" if "(?l + ?m - 1) div ?m > 256"
  proof -
    have "257 * ?m \<le> ?l + ?m - 1" using that m by (simp add: less_eq_div_iff_mult_less_eq Suc_le_eq [symmetric])
    then show ?thesis using m by linarith
  qed
  have small: "?l \<le> 256 * ?m" if "\<not> (?l + ?m - 1) div ?m > 256"
  proof -
    have "?l + ?m - 1 < 257 * ?m" using that m by (simp add: div_less_iff_less_mult [symmetric])
    then show ?thesis using m by linarith
  qed
  show "unat len = (if hc_ep_is_in c \<noteq> 0 then unat n * ?m else min ?l (256 * ?m))"
  proof (cases "hc_ep_is_in c = 0")
    case True
    with assms(1) have "len = (if hc_xfer_len c = 0 then 0 else if (?l + ?m - 1) div ?m > 256
        then ucast (256 :: u16) * ucast (hc_max_packet c) else hc_xfer_len c)"
      using g by (auto simp: xfer_packets_def Let_def z split: if_splits)
    moreover have "unat (ucast (256 :: u16) * ucast (hc_max_packet c) :: u32) = 256 * ?m"
      using mul [of 256] by simp
    ultimately show ?thesis using True big small by auto
  next
    case False
    with assms(1) have "len = ucast n * ucast (hc_max_packet c)"
      by (auto simp: xfer_packets_def Let_def split: if_splits)
    with False mul [OF n256] show ?thesis by simp
  qed
qed

section \<open>Starting a transfer\<close>

lemma bit_flags:
  "bit HCCHAR_EPDIR n \<longleftrightarrow> n = 15" "bit HCCHAR_ODDFRM n \<longleftrightarrow> n = 29" "bit HCCHAR_CHDIS n \<longleftrightarrow> n = 30" "bit HCCHAR_CHENA n \<longleftrightarrow> n = 31"
proof -
  have p: "bit (push_bit m (mask 1) :: u32) n \<longleftrightarrow> n = m" if "m < 32" for m
    unfolding bit_push_bit_iff bit_mask_iff using that by auto
  show "bit HCCHAR_EPDIR n \<longleftrightarrow> n = 15" using p [of 15] by (simp add: mask_eq_exp_minus_1)
  show "bit HCCHAR_ODDFRM n \<longleftrightarrow> n = 29" using p [of 29] by (simp add: mask_eq_exp_minus_1)
  show "bit HCCHAR_CHDIS n \<longleftrightarrow> n = 30" using p [of 30] by (simp add: mask_eq_exp_minus_1)
  show "bit HCCHAR_CHENA n \<longleftrightarrow> n = 31" using p [of 31] by (simp add: mask_eq_exp_minus_1)
qed

lemma bit_odd_frame: "bit (push_bit 29 (if b then 0 else 1) :: u32) n \<longleftrightarrow> \<not> b \<and> n = 29"
  unfolding bit_push_bit_iff by (auto simp: bit_1_iff)

lemma AND_1_bit: "x AND 1 \<noteq> 0 \<longleftrightarrow> bit (x :: u32) 0"
  by (simp add: and_one_eq odd_iff_mod_2_eq_one [symmetric] bit_0)

lemma bit_xfer_char:
  "bit (xfer_char c r) n \<longleftrightarrow> n < 32 \<and> (if n = 31 then True else if n = 30 then False
     else if n = 29 then \<not> bit (HFNUM r) 0 else if n = 15 then hc_ep_is_in c \<noteq> 0
     else bit (HCCHAR (USBx_HC (hc_ch_num c) r)) n)"
  by (cases "hc_ep_is_in c = 0"; simp only: xfer_char_def Let_def AND_1_bit bit_or_iff bit_and_iff bit_not_iff
      bit_flags bit_odd_frame if_True if_False simp_thms; auto dest: bit_imp_le_length)

lemma fields_agree:
  assumes "\<And>n. n \<noteq> 15 \<Longrightarrow> n < 29 \<Longrightarrow> bit x n = bit y n"
  shows "x AND HCCHAR_DAD = y AND HCCHAR_DAD" "x AND HCCHAR_EPNUM = y AND HCCHAR_EPNUM"
    "x AND HCCHAR_EPTYP = y AND HCCHAR_EPTYP" "x AND HCCHAR_MPSIZ = y AND HCCHAR_MPSIZ"
  unfolding masks_as_mask using assms
  by (intro bit_word_eqI; auto simp: bit_and_iff bit_push_bit_iff bit_mask_iff)+

lemma char_fields_xfer_char:
  "char_fields (xfer_char c r) = (char_fields (HCCHAR (USBx_HC (hc_ch_num c) r)))
     \<lparr>f_in := (hc_ep_is_in c \<noteq> 0), f_odd := (\<not> bit (HFNUM r) 0), f_disable := False, f_enable := True\<rparr>"
proof -
  have f: "xfer_char c r AND HCCHAR_DAD = HCCHAR (USBx_HC (hc_ch_num c) r) AND HCCHAR_DAD"
    "xfer_char c r AND HCCHAR_EPNUM = HCCHAR (USBx_HC (hc_ch_num c) r) AND HCCHAR_EPNUM"
    "xfer_char c r AND HCCHAR_EPTYP = HCCHAR (USBx_HC (hc_ch_num c) r) AND HCCHAR_EPTYP"
    "xfer_char c r AND HCCHAR_MPSIZ = HCCHAR (USBx_HC (hc_ch_num c) r) AND HCCHAR_MPSIZ"
    by (rule fields_agree, simp add: bit_xfer_char)+
  show ?thesis
    by (simp only: char_fields_def f bit_xfer_char chan_fields.update_convs) simp
qed

lemma xfer_room_chan [simp]: "USBx_HC i (xfer_room c len r) = USBx_HC i r"
  by (simp add: xfer_room_def Let_def)

lemma USB_WritePacket_chan [simp]: "USBx_HC i (snd (USB_WritePacket src ch n r)) = USBx_HC i r"
  by (simp add: USB_WritePacket_def)

lemma xfer_char_size: "unat i < length (HC r) \<Longrightarrow> xfer_char c (upd_chan i (\<lambda>x. x\<lparr>HCTSIZ := v\<rparr>) r) = xfer_char c r"
  by (auto simp: xfer_char_def Let_def)

lemma USB_HC_StartXfer_chan:
  assumes "unat (hc_ch_num c) < length (HC r)"
  shows "USBx_HC i (snd (USB_HC_StartXfer src c r)) =
    (if i = hc_ch_num c then (USBx_HC i r)\<lparr>HCTSIZ := xfer_size c, HCCHAR := xfer_char c r\<rparr> else USBx_HC i r)"
  using assms
  by (cases "xfer_packets c") (simp add: USB_HC_StartXfer_def Let_def chan_regs xfer_char_size)

section \<open>Packets in the FIFOs\<close>

lemma upt_4: "[0..<n + 4] = [0..<n] @ [n, n + 1, n + 2, n + 3]"
  by (simp add: numeral_eq_Suc)

lemma fifo_bytes: "concat (map (\<lambda>i. le32_bytes (LE32 xs (4 * i))) [0..<k]) = map (rd8 xs) [0..<4 * k]"
proof (induction k)
  case (Suc k)
  have "[0..<4 * Suc k] = [0..<4 * k] @ [4 * k, 4 * k + 1, 4 * k + 2, 4 * k + 3]"
    using upt_4 [of "4 * k"] by (simp add: add.commute)
  with Suc show ?case by (simp add: le32_LE32)
qed simp

lemma map_rd8_padded: "length xs \<le> n \<Longrightarrow> map (rd8 xs) [0..<n] = xs @ replicate (n - length xs) 0"
  by (rule nth_equalityI) (auto simp: rd8_def nth_append)

lemma pop_words_append: "pop_words (length ws) (ws @ rest) = (ws, rest)"
  by (induction ws) simp_all

lemma count32b_bounds: "unat len \<le> 4 * count32b len" "4 * count32b len < unat len + 4"
  unfolding count32b_def by linarith+

text \<open>The words a packet is sent as, as they lie in a FIFO.\<close>

definition words_of :: "u8 list \<Rightarrow> u32 list" where
  "words_of xs = map (\<lambda>i. LE32 xs (4 * i)) [0..<(length xs + 3) div 4]"

lemma USB_ReadPacket_words:
  assumes "rx_fifo r = words_of xs @ rest" "length xs = unat len"
  shows "USB_ReadPacket len r = (xs @ replicate (4 * count32b len - length xs) 0, r\<lparr>rx_fifo := rest\<rparr>)"
proof -
  have l: "length (words_of xs) = count32b len" using assms(2) by (simp add: words_of_def count32b_def)
  then have "pop_words (count32b len) (rx_fifo r) = (words_of xs, rest)"
    using pop_words_append [of "words_of xs" rest] assms(1) by simp
  moreover have "concat (map le32_bytes (words_of xs)) = xs @ replicate (4 * count32b len - length xs) 0"
    using fifo_bytes [of xs "count32b len"] map_rd8_padded [of xs "4 * count32b len"] count32b_bounds(1) [of len] assms(2)
    by (simp add: words_of_def count32b_def comp_def)
  ultimately show ?thesis by (simp add: USB_ReadPacket_def)
qed

lemma USB_WritePacket_words:
  "length xs = unat len \<Longrightarrow> snd (USB_WritePacket xs ch len r) = r\<lparr>tx_fifo := tx_fifo r @ map (Pair ch) (words_of xs)\<rparr>"
  by (simp add: USB_WritePacket_def words_of_def count32b_def comp_def)

section \<open>Properties\<close>

lemma take_bit_small: "unat x < 2 ^ n \<Longrightarrow> take_bit n (x :: 'a::len word) = x"
  using unsigned_take_bit_eq [where ?'a = nat, of n x] by (simp add: take_bit_nat_eq_self word_unat_eq_iff)

lemma bit_112: "bit (0x70 :: u8) n \<longleftrightarrow> 4 \<le> n \<and> n < 7"
proof (cases "n < 8")
  case True
  then have "n \<in> {0, 1, 2, 3, 4, 5, 6, 7}" by auto
  then show ?thesis by auto
next
  case False
  then show ?thesis by (auto dest: bit_imp_le_length)
qed

lemma endpoint_number:
  assumes "epnum AND 0x70 = (0 :: u8)"
  shows "take_bit 4 epnum = epnum AND 0x7F"
proof -
  have *: "bit epnum n \<Longrightarrow> n < 7 \<Longrightarrow> n < 4" for n
  proof (rule ccontr)
    assume "bit epnum n" "n < 7" "\<not> n < 4"
    then have "bit (epnum AND 0x70) n" unfolding bit_and_iff bit_112 by simp
    with assms show False by simp
  qed
  have "(0x7F :: u8) = mask 7" by (simp add: mask_eq_exp_minus_1)
  then have m: "epnum AND 0x7F = take_bit 7 epnum" by (simp add: take_bit_eq_mask)
  show ?thesis unfolding m by (rule bit_word_eqI) (auto simp: bit_take_bit_iff dest: *)
qed

text \<open>The registers after a reset, for the examples.\<close>

definition zero_otg :: otg where
  "zero_otg = \<lparr>GAHBCFG = 0, GUSBCFG = 0, GRSTCTL = 0x80000000, GINTSTS = 1, GINTMSK = 0, GRXSTSP = [], GRXFSIZ = 0x80,
     HNPTXFSIZ = 0x00600080, HPTXFSIZ = 0x004000E0, HNPTXSTS = 0x00080060, HPTXSTS = 0x00080040, GCCFG = 0, PCGCCTL = 0, HCFG = 0,
     HFIR = 0, HFNUM = 0, HAINT = 0, HAINTMSK = 0, HPRT0 = 0, HC = replicate 16 zero_chan, rx_fifo = [], tx_fifo = []\<rparr>"

text \<open>
  C16: What \<open>HAL_HCD_HC_Init\<close> writes into the channel's entry is what the core decodes from \<open>HCCHAR\<close> after
  \<open>USB_HC_Init\<close>, for every address, endpoint, type and packet size the fields have room for; the channel is
  not yet enabled, and no other channel is touched.
\<close>

theorem channel_decodes:
  assumes "unat ch < length (hc w)" and "unat ch < length (HC r)"
    and "a < 128" and "epnum AND 0x70 = 0" and "t < 4" and "mps < 2048"
  shows "let c = hc_get (HAL_HCD_HC_Init ch epnum a sp t mps w) ch;
             r' = snd (USB_HC_Init ch epnum a sp t mps r);
             f = char_fields (HCCHAR (USBx_HC ch r'))
         in f_addr f = ucast (hc_dev_addr c) \<and> f_epnum f = ucast (hc_ep_num c) \<and> (f_in f \<longleftrightarrow> hc_ep_is_in c \<noteq> 0)
          \<and> (f_low f \<longleftrightarrow> hc_speed c = USBH_SPEED_LOW) \<and> f_type f = ucast (hc_ep_type c)
          \<and> f_mps f = ucast (hc_max_packet c) \<and> \<not> f_enable f \<and> \<not> f_disable f
          \<and> (\<forall>i. i \<noteq> ch \<longrightarrow> USBx_HC i r' = USBx_HC i r)"
proof -
  have tk: "take_bit 7 a = a" "take_bit 2 t = t" "take_bit 11 mps = mps"
    using assms(3,5,6) by (simp_all add: take_bit_small word_less_nat_alt)
  show ?thesis
    using assms(1,2) by (simp add: Let_def HAL_HCD_HC_Init_def USB_HC_Init_def chan_regs char_fields_or_odd char_fields_chan_char tk
      endpoint_number [OF assms(4)] bit_80)
qed

theorem channel_decodes_witness:
  "f_mps (char_fields (HCCHAR (USBx_HC 2 (snd (USB_HC_Init 2 0x81 5 USBH_SPEED_FULL USBH_EP_BULK 64 zero_otg))))) = 64"
proof -
  have "unat (2 :: u8) < length (hc reset_usb)" "unat (2 :: u8) < length (HC zero_otg)" "(5 :: u8) < 128" "(0x81 :: u8) AND 0x70 = 0"
    "USBH_EP_BULK < 4" "(64 :: u16) < 2048"
    by (simp_all add: reset_usb_def zero_otg_def)
  from channel_decodes [OF this, of USBH_SPEED_FULL] show ?thesis
    by (simp add: Let_def HAL_HCD_HC_Init_def reset_usb_def)
qed

lemma submitted_channel:
  assumes "unat ch < length (hc w)"
  shows "\<exists>c0. hc_get (HAL_HCD_HC_SubmitRequest ch d t tok b len ping w) ch = c0
    \<and> hc_ch_num c0 = ch \<and> hc_ep_is_in c0 = d \<and> hc_xfer_len c0 = ucast len \<and> hc_max_packet c0 = hc_max_packet (hc_get w ch)
    \<and> hc_data_pid c0 \<in> {0, 2, 3}"
  using assms
  by (simp add: HAL_HCD_HC_SubmitRequest_def Let_def submit_pid_def toggle_pid_def)

lemma ceil_bounds:
  fixes n m q :: nat
  assumes "0 < m" "0 < n" "q = (n + m - 1) div m"
  shows "n \<le> q * m" "q \<le> 256 \<longleftrightarrow> n \<le> 256 * m"
proof -
  have 1: "q * m \<le> n + m - 1" using assms(3) by simp
  have 2: "n + m - 1 < (q + 1) * m" using assms(1,3) by (metis Suc_eq_plus1 dividend_less_div_times mult.commute mult_Suc add.commute)
  then show "n \<le> q * m" by simp
  show "q \<le> 256 \<longleftrightarrow> n \<le> 256 * m"
  proof
    assume "q \<le> 256"
    then have "q * m \<le> 256 * m" by simp
    with \<open>n \<le> q * m\<close> show "n \<le> 256 * m" by linarith
  next
    assume n: "n \<le> 256 * m"
    show "q \<le> 256"
    proof (rule ccontr)
      assume "\<not> q \<le> 256"
      then have "257 * m \<le> q * m" by simp
      with 1 n assms(1) show False by linarith
    qed
  qed
qed

text \<open>
  C15: What a request programs: the core is asked for as many packets as the length needs and for their bytes (in
  for whole packets, out for the length itself), with the data PID of the request, in the request's
  direction, and the channel is enabled. More than 256 packets are cut off without an error: the core then
  moves fewer bytes than the caller asked for.
\<close>

theorem transfer_programmed:
  assumes "unat ch < length (hc w)" and "unat ch < length (HC r)"
    and "0 < hc_max_packet (hc_get w ch)" and "hc_max_packet (hc_get w ch) < 2048"
  shows "let c = hc_get (HAL_HCD_HC_SubmitRequest ch d t tok b len ping w) ch;
             r' = snd (USB_HC_StartXfer src c r);
             x = size_fields (HCTSIZ (USBx_HC ch r'));
             m = unat (hc_max_packet (hc_get w ch)); n = unat len
         in unat (x_packets x) = (if n = 0 then 1 else min 256 ((n + m - 1) div m))
          \<and> unat (x_bytes x) = (if d \<noteq> 0 then unat (x_packets x) * m else min n (256 * m))
          \<and> (unat (x_bytes x) < n \<longleftrightarrow> 256 * m < n)
          \<and> x_pid x = ucast (hc_data_pid c)
          \<and> char_fields (HCCHAR (USBx_HC ch r')) = (char_fields (HCCHAR (USBx_HC ch r)))
               \<lparr>f_in := d \<noteq> 0, f_odd := \<not> bit (HFNUM r) 0, f_disable := False, f_enable := True\<rparr>"
proof -
  obtain c where c: "hc_get (HAL_HCD_HC_SubmitRequest ch d t tok b len ping w) ch = c" "hc_ch_num c = ch"
    "hc_ep_is_in c = d" "hc_xfer_len c = ucast len" "hc_max_packet c = hc_max_packet (hc_get w ch)" "hc_data_pid c \<in> {0, 2, 3}"
    using submitted_channel [OF assms(1)] by metis
  obtain k l where p: "xfer_packets c = (k, l)" by (cases "xfer_packets c")
  let ?m = "unat (hc_max_packet (hc_get w ch))" and ?n = "unat len"
  have m: "0 < ?m" "?m < 2048" using assms(3,4) by (simp_all add: word_less_nat_alt)
  have z: "(ucast len :: u32) = 0 \<longleftrightarrow> ?n = 0" by (simp only: unat_eq_zero [symmetric] unat_up)
  note u = xfer_packets_unat [OF p, unfolded c(3-5) z unat_up, OF assms(3) u16_bound]
  have k: "unat k \<le> 256" using u(1) by simp
  have "unat l \<le> 256 * ?m" using u(2) k by auto
  then have l: "unat l < 2 ^ 19" using m by simp
  have x: "size_fields (HCTSIZ (USBx_HC ch (snd (USB_HC_StartXfer src c r)))) = \<lparr>x_bytes = l, x_packets = ucast k, x_pid = ucast (hc_data_pid c)\<rparr>"
    using assms(2) c(2,6) p k l by (auto simp: USB_HC_StartXfer_chan size_fields_xfer_size take_bit_small unat_up)
  have f: "char_fields (HCCHAR (USBx_HC ch (snd (USB_HC_StartXfer src c r)))) = (char_fields (HCCHAR (USBx_HC ch r)))
      \<lparr>f_in := d \<noteq> 0, f_odd := \<not> bit (HFNUM r) 0, f_disable := False, f_enable := True\<rparr>"
    using assms(2) c(2,3) by (simp add: USB_HC_StartXfer_chan char_fields_xfer_char)
  have cut: "unat l < ?n \<longleftrightarrow> 256 * ?m < ?n"
    using u ceil_bounds [OF m(1) _ refl, of ?n] by (auto simp: min_def split: if_splits)
  show ?thesis
    unfolding Let_def c(1) x f using u cut by (simp add: unat_up)
qed

theorem transfer_programmed_witness:
  "let w = HAL_HCD_HC_Init 2 0x81 5 USBH_SPEED_FULL USBH_EP_BULK 64 reset_usb;
       c = hc_get (HAL_HCD_HC_SubmitRequest 2 1 USBH_EP_BULK USBH_PID_DATA (BMem 5 0) 100 0 w) 2
   in unat (x_packets (size_fields (HCTSIZ (USBx_HC 2 (snd (USB_HC_StartXfer [] c zero_otg)))))) = 2"
proof -
  let ?w = "HAL_HCD_HC_Init 2 0x81 5 USBH_SPEED_FULL USBH_EP_BULK 64 reset_usb"
  have "unat (2 :: u8) < length (hc ?w)" "unat (2 :: u8) < length (HC zero_otg)" "0 < hc_max_packet (hc_get ?w 2)" "hc_max_packet (hc_get ?w 2) < 2048"
    "hc_max_packet (hc_get ?w 2) = 64"
    by (simp_all add: HAL_HCD_HC_Init_def reset_usb_def zero_otg_def)
  with transfer_programmed [OF this(1-4), of 1 USBH_EP_BULK USBH_PID_DATA "BMem 5 0" 100 0 "[]"] show ?thesis by (simp add: Let_def)
qed

end
