(* ===== verification/Usb_Hcd_Irq_Props.thy ===== *)
theory Usb_Hcd_Irq_Props
  imports Usb_Hcd_Props Usb_Core_Props Usb_Hcd_Irq Usb_Otg_Props
begin

text \<open>
  What the interrupt of the OTG core does: a transfer received packet by packet, the channels it serves, a
  device that is plugged in and out, and the FIFO interrupt nobody handles.
\<close>

section \<open>Memory behind a buffer pointer\<close>

lemma length_store_at [simp]: "i + length xs \<le> length ys \<Longrightarrow> length (store_at i xs ys) = length ys"
  by (simp add: store_at_def)

lemma nth_store_at:
  assumes "i + length xs \<le> length ys" "j < length ys"
  shows "store_at i xs ys ! j = (if i \<le> j \<and> j < i + length xs then xs ! (j - i) else ys ! j)"
  using assms by (auto simp: store_at_def nth_append)

text \<open>The bytes without the padding behind a status block.\<close>

definition pad :: "buf_ptr \<Rightarrow> nat" where
  "pad b = (case b of BCsw _ \<Rightarrow> 3 | _ \<Rightarrow> 0)"

definition vis_bytes :: "usb \<Rightarrow> buf_ptr \<Rightarrow> u8 list" where
  "vis_bytes w b = take (length (obj_bytes w b) - pad b) (obj_bytes w b)"

lemma le32_LE32_all:
  assumes "length ys = 4"
  shows "le32_bytes (LE32 ys 0) = ys"
proof -
  from assms obtain a b c d where "ys = [a, b, c, d]"
    by (auto simp: numeral_eq_Suc length_Suc_conv)
  then show ?thesis by (simp add: le32_LE32 rd8_def)
qed

lemma length_le32 [simp]: "length (le32_bytes x) = 4"
  by (simp add: le32_bytes_def)

lemma obj_put_obj:
  assumes "length ys = length (obj_bytes w b)" "obj_bytes w b \<noteq> []"
  shows "take (length ys - pad b) (obj_bytes (put_obj b ys w) b) = take (length ys - pad b) ys"
    and "length (obj_bytes (put_obj b ys w) b) = length ys"
  using assms
  by (auto simp: obj_bytes_def put_obj_def pad_def le32_LE32_all split: buf_ptr.splits class_data.splits option.splits)

lemma put_obj_frame [simp]:
  "hc (put_obj b ys w) = hc w" "faults (put_obj b ys w) = faults w" "hhcd_pData (put_obj b ys w) = hhcd_pData w"
  "hprt_masked (put_obj b ys w) = hprt_masked w" "outs (put_obj b ys w) = outs w" "os_event (put_obj b ys w) = os_event w"
  by (simp_all add: put_obj_def split: buf_ptr.splits class_data.splits option.splits)

lemma obj_bytes_cong:
  "hosts w' = hosts w \<Longrightarrow> cdata w' = cdata w \<Longrightarrow> apps w' = apps w \<Longrightarrow> bytes w' = bytes w \<Longrightarrow> obj_bytes w' b = obj_bytes w b"
  by (cases b) (simp_all add: obj_bytes_def)

lemma obj_bytes_chk [simp]: "obj_bytes (chk c x w) b = obj_bytes w b"
  by (rule obj_bytes_cong) (simp_all add: chk_def)

lemma mem_write_ok:
  assumes "buf_off b + k + length xs \<le> length (obj_bytes w b)" "xs \<noteq> []"
  shows "faults (mem_write b k xs w) = faults w" "hc (mem_write b k xs w) = hc w"
    and "length (obj_bytes (mem_write b k xs w) b) = length (obj_bytes w b)"
    and "j < length (vis_bytes w b) \<Longrightarrow> vis_bytes (mem_write b k xs w) b ! j =
      (if buf_off b + k \<le> j \<and> j < buf_off b + k + length xs then xs ! (j - (buf_off b + k)) else vis_bytes w b ! j)"
proof -
  let ?ys = "store_at (buf_off b + k) xs (obj_bytes w b)"
  have m: "mem_write b k xs w = put_obj b ?ys w" using assms by (simp add: mem_write_def)
  have l: "length ?ys = length (obj_bytes w b)" "obj_bytes w b \<noteq> []" using assms by auto
  show "faults (mem_write b k xs w) = faults w" "hc (mem_write b k xs w) = hc w" by (simp_all add: m)
  show "length (obj_bytes (mem_write b k xs w) b) = length (obj_bytes w b)" using obj_put_obj(2) [OF l] l by (simp add: m)
  have v: "vis_bytes (mem_write b k xs w) b = take (length (obj_bytes w b) - pad b) ?ys"
    using obj_put_obj [OF l] l by (simp add: m vis_bytes_def)
  show "vis_bytes (mem_write b k xs w) b ! j =
      (if buf_off b + k \<le> j \<and> j < buf_off b + k + length xs then xs ! (j - (buf_off b + k)) else vis_bytes w b ! j)"
    if "j < length (vis_bytes w b)"
    unfolding v using that assms by (auto simp: vis_bytes_def nth_store_at)
qed

section \<open>Which handler runs\<close>

text \<open>The interrupts that are raised and not masked are exactly those of \<open>m\<close>.\<close>

definition raises :: "u32 \<Rightarrow> otg \<Rightarrow> bool" where
  "raises m r \<longleftrightarrow> USB_GetMode r = 1 \<and> GINTSTS r AND GINTMSK r = m"

lemma and_not_disjoint: "m AND h = 0 \<Longrightarrow> m AND NOT h = (m :: u32)"
  using bit.conj_disj_distrib [of m h "NOT h"] by simp

lemma and_and_not: "(x AND y) AND NOT x = (0 :: u32)"
  by (rule bit_word_eqI) (simp add: bit_and_iff bit_not_iff)

lemma raises_pending:
  assumes "raises m r" "m AND GINTSTS_HPRTINT = 0"
  shows "USB_ReadInterrupts (r, w) = m"
proof -
  have "GINTSTS r AND GINTMSK r AND NOT GINTSTS_HPRTINT = m"
    using assms and_not_disjoint [OF assms(2)] by (simp add: raises_def and.assoc [symmetric])
  with assms(1) show ?thesis by (simp add: USB_ReadInterrupts_def raises_def)
qed

text \<open>The core, as far as the code relies on it: a write of the status register raises no interrupt.\<close>

locale otg_core =
  fixes K :: otg_hw
  assumes write_clears: "hw_GINTSTS K old v AND NOT old = 0"

text \<open>A core whose status bits are cleared by writing them, and that answers at once.\<close>

definition rc_w1 :: otg_hw where
  "rc_w1 = \<lparr>hw_step = (\<lambda>r. r\<lparr>GRSTCTL := 0x80000000\<rparr>), hw_GINTSTS = (\<lambda>old v. old AND NOT (v AND NOT 1)),
     hw_HPRT0 = (\<lambda>old v. (old AND NOT (v AND 0x2E)) AND NOT (HPRT_PRST OR HPRT_PPWR) OR (v AND (HPRT_PRST OR HPRT_PPWR)))\<rparr>"

interpretation rc_w1: otg_core rc_w1
  by unfold_locales (simp add: rc_w1_def and_and_not)

lemma irq_receive:
  assumes "raises GINTSTS_RXFLVL r"
  shows "HAL_HCD_IRQHandler K E n ops (r, w) = Some (on_regs (unmask_int GINTSTS_RXFLVL)
      (HCD_RXQLVL_IRQHandler (mask_int GINTSTS_RXFLVL r, w)))"
proof -
  have "USB_ReadInterrupts (r, w) = GINTSTS_RXFLVL" using raises_pending [OF assms] by simp
  then show ?thesis
    using assms by (simp add: HAL_HCD_IRQHandler_def raises_def ack_flag_def get_flag_def on_regs_def Let_def)
qed

section \<open>A packet from the FIFO\<close>

text \<open>
  The core has received the packet \<open>xs\<close> for channel \<open>ch\<close>; \<open>cont\<close> says that its packet count is not yet 0.
\<close>

definition rx_packet :: "u8 \<Rightarrow> u8 list \<Rightarrow> bool \<Rightarrow> otg \<Rightarrow> bool" where
  "rx_packet ch xs cont r \<longleftrightarrow> raises GINTSTS_RXFLVL r \<and> length xs < 2048 \<and> unat ch < length (HC r)
     \<and> (case GRXSTSP r of [] \<Rightarrow> False | x # _ \<Rightarrow> x AND 0xF = ucast ch \<and> drop_bit 17 (x AND 0x1E0000) = 2
          \<and> drop_bit 4 (x AND 0x7FF0) = of_nat (length xs))
     \<and> take (length (words_of xs)) (rx_fifo r) = words_of xs
     \<and> (HCTSIZ (USBx_HC ch r) AND HCTSIZ_PKTCNT > 0 \<longleftrightarrow> cont)"

definition packet_stored :: "u8 list \<Rightarrow> bool \<Rightarrow> HCD_HCTypeDef \<Rightarrow> HCD_HCTypeDef" where
  "packet_stored xs cont c = c\<lparr>hc_xfer_count := hc_xfer_count c + of_nat (length xs),
     hc_toggle_in := (if cont then hc_toggle_in c XOR 1 else hc_toggle_in c)\<rparr>"

text \<open>What is stored: the packet and the rest of its last word.\<close>

definition rounded :: "u8 list \<Rightarrow> u8 list" where
  "rounded xs = xs @ replicate (4 * ((length xs + 3) div 4) - length xs) 0"

lemma length_rounded: "length xs \<le> length (rounded xs)" "length (rounded xs) \<le> length xs + 3" "rounded xs = [] \<longleftrightarrow> xs = []"
proof -
  have "4 * ((length xs + 3) div 4) \<le> length xs + 3" by simp
  then show "length (rounded xs) \<le> length xs + 3" by (simp add: rounded_def)
qed (auto simp: rounded_def)

lemma upd_hc_twice: "unat ch < length (hc w) \<Longrightarrow> upd_hc ch f (upd_hc ch g w) = upd_hc ch (\<lambda>c. f (g c)) w"
  by (simp add: upd_hc_def hc_get_def)

lemma receive_packet:
  assumes r: "rx_packet ch xs cont r" and l: "unat ch < length (hc w)"
    and b: "hc_xfer_buff (hc_get w ch) \<noteq> BNull" "xs \<noteq> []"
  shows "\<exists>r'. HAL_HCD_IRQHandler K E n ops (r, w) = Some (r',
     upd_hc ch (packet_stored xs cont) (mem_write (hc_xfer_buff (hc_get w ch)) (unat (hc_xfer_count (hc_get w ch))) (rounded xs) w))"
proof -
  let ?r = "mask_int GINTSTS_RXFLVL r"
  obtain x q where g: "GRXSTSP r = x # q" "x AND 0xF = ucast ch" "drop_bit 17 (x AND 0x1E0000) = 2"
    "drop_bit 4 (x AND 0x7FF0) = of_nat (length xs)"
    using r unfolding rx_packet_def by (auto split: list.splits)
  let ?n = "of_nat (length xs) :: u32" and ?r1 = "?r\<lparr>GRXSTSP := q\<rparr>"
  have n: "length xs < 2048" using r by (simp add: rx_packet_def)
  have u: "unat (ucast ?n :: u16) = length xs" using n by (simp add: unsigned_ucast_eq take_bit_nat_eq_self unat_of_nat)
  have pos: "?n > 0" using n b(2) by (simp add: word_less_nat_alt unat_of_nat)
  obtain rest where f: "rx_fifo ?r1 = words_of xs @ rest"
    using r by (simp add: rx_packet_def mask_int_def) (metis append_take_drop_id)
  have p: "USB_ReadPacket (ucast ?n) ?r1 = (rounded xs, ?r1\<lparr>rx_fifo := rest\<rparr>)"
    using USB_ReadPacket_words [OF f, of "ucast ?n"] u by (simp add: rounded_def count32b_def)
  have c: "(ucast (ucast ch :: u32) :: u8) = ch" by (rule bit_word_eqI) (auto simp: bit_ucast_iff)
  have t: "HCTSIZ (USBx_HC ch (?r1\<lparr>rx_fifo := rest\<rparr>)) AND HCTSIZ_PKTCNT > 0 \<longleftrightarrow> cont"
    using r by (simp add: rx_packet_def mask_int_def)
  let ?m = "mem_write (hc_xfer_buff (hc_get w ch)) (unat (hc_xfer_count (hc_get w ch))) (rounded xs) w"
  have lm: "unat ch < length (hc ?m)" using l by (simp add: mem_write_def Let_def)
  have gm: "GRXSTSP ?r = x # q" using g(1) by (simp add: mask_int_def)
  have "HCD_RXQLVL_IRQHandler (?r, w) = rx_in ch ?n (?r1, w)"
    by (simp only: HCD_RXQLVL_IRQHandler_def prod.case Let_def gm list.case list.sel g(2-4) c if_True simp_thms)
  moreover have "snd (rx_in ch ?n (?r1, w)) = upd_hc ch (packet_stored xs cont) ?m"
  proof (cases cont)
    case True
    have "packet_stored xs True = (\<lambda>c. (\<lambda>c. c\<lparr>hc_toggle_in := hc_toggle_in c XOR 1\<rparr>) ((\<lambda>c. c\<lparr>hc_xfer_count := hc_xfer_count c + ?n\<rparr>) c))"
      by (rule ext) (simp add: packet_stored_def)
    with True t show ?thesis
      by (simp only: rx_in_def prod.case Let_def chk_hc_ok [OF l] p pos b(1) simp_thms if_True snd_conv upd_hc_twice [OF lm])
  next
    case False
    have "packet_stored xs False = (\<lambda>c. c\<lparr>hc_xfer_count := hc_xfer_count c + ?n\<rparr>)"
      by (rule ext) (simp add: packet_stored_def)
    with False t show ?thesis
      by (simp only: rx_in_def prod.case Let_def chk_hc_ok [OF l] p pos b(1) simp_thms if_True if_False snd_conv)
  qed
  ultimately have "snd (HCD_RXQLVL_IRQHandler (?r, w)) = upd_hc ch (packet_stored xs cont) ?m" by simp
  then show ?thesis
    using irq_receive [of r K E n ops w] r by (cases "HCD_RXQLVL_IRQHandler (?r, w)") (simp add: rx_packet_def on_regs_def)
qed

section \<open>Packets in a row\<close>

text \<open>
  \<open>xs\<close> has been received since \<open>w0\<close>, in packets of which \<open>m\<close> were followed by another: the bytes are where
  the transfer wants them, counted, and nothing else has changed but up to three bytes behind them.
\<close>

definition received :: "u8 \<Rightarrow> buf_ptr \<Rightarrow> usb \<Rightarrow> u8 list \<Rightarrow> nat \<Rightarrow> usb \<Rightarrow> bool" where
  "received ch b w0 xs m w \<longleftrightarrow>
     hc_get w ch = (hc_get w0 ch)\<lparr>hc_xfer_count := of_nat (length xs),
       hc_toggle_in := hc_toggle_in (hc_get w0 ch) XOR (if odd m then 1 else 0)\<rparr>
     \<and> (\<forall>k. k \<noteq> ch \<longrightarrow> hc_get w k = hc_get w0 k) \<and> length (hc w) = length (hc w0) \<and> faults w = faults w0
     \<and> length (obj_bytes w b) = length (obj_bytes w0 b)
     \<and> (\<forall>j < length (vis_bytes w0 b). \<not> (buf_off b + length xs \<le> j \<and> j < buf_off b + length xs + 3) \<longrightarrow>
          vis_bytes w b ! j = (if buf_off b \<le> j \<and> j < buf_off b + length xs then xs ! (j - buf_off b) else vis_bytes w0 b ! j))"

lemma length_vis: "length (vis_bytes w b) = length (obj_bytes w b) - pad b"
  by (simp add: vis_bytes_def)

lemma vis_bytes_upd_hc [simp]: "obj_bytes (upd_hc ch f w) b = obj_bytes w b" "vis_bytes (upd_hc ch f w) b = vis_bytes w b"
proof -
  show "obj_bytes (upd_hc ch f w) b = obj_bytes w b" by (rule obj_bytes_cong) (simp_all add: upd_hc_def)
  then show "vis_bytes (upd_hc ch f w) b = vis_bytes w b" by (simp add: vis_bytes_def)
qed

lemma hc_get_mem_write: "hc_get (mem_write b k xs w) i = hc_get w i" "length (hc (mem_write b k xs w)) = length (hc w)"
  by (simp_all add: mem_write_def Let_def hc_get_def)

lemma toggle_twice: "(x XOR (if odd m then 1 else 0)) XOR 1 = x XOR (if odd (Suc m) then 1 else (0 :: u8))"
  by (simp add: xor.assoc)

lemma received_packet:
  assumes r: "received ch b w0 xs m w" and l: "unat ch < length (hc w0)"
    and b: "hc_xfer_buff (hc_get w0 ch) = b" "b \<noteq> BNull" and p: "rx_packet ch ys cont r" "ys \<noteq> []"
    and room: "buf_off b + length xs + length ys + 3 \<le> length (obj_bytes w0 b)" "length xs + length ys < 65536"
  shows "\<exists>r' w'. HAL_HCD_IRQHandler K E n ops (r, w) = Some (r', w')
    \<and> received ch b w0 (xs @ ys) (if cont then Suc m else m) w'"
proof -
  let ?m = "mem_write b (length xs) (rounded ys) w"
  have c: "hc_xfer_buff (hc_get w ch) = b" "unat (hc_xfer_count (hc_get w ch)) = length xs"
    using r b room(2) by (simp_all add: received_def unat_of_nat)
  have lw: "unat ch < length (hc w)" using r l by (simp add: received_def)
  from receive_packet [OF p(1) lw, unfolded c, OF b(2) p(2)] obtain r' where
    i: "HAL_HCD_IRQHandler K E n ops (r, w) = Some (r', upd_hc ch (packet_stored ys cont) ?m)" by blast
  have fit: "buf_off b + length xs + length (rounded ys) \<le> length (obj_bytes w b)" "rounded ys \<noteq> []"
    using r room length_rounded [of ys] p(2) by (simp_all add: received_def)
  note mw = mem_write_ok [OF fit]
  have lm: "unat ch < length (hc ?m)" using lw by (simp add: hc_get_mem_write)
  have "received ch b w0 (xs @ ys) (if cont then Suc m else m) (upd_hc ch (packet_stored ys cont) ?m)"
    unfolding received_def
  proof (intro conjI allI impI)
    show "hc_get (upd_hc ch (packet_stored ys cont) ?m) ch = (hc_get w0 ch)\<lparr>hc_xfer_count := of_nat (length (xs @ ys)),
       hc_toggle_in := hc_toggle_in (hc_get w0 ch) XOR (if odd (if cont then Suc m else m) then 1 else 0)\<rparr>"
      using r lm by (simp add: hc_get_mem_write received_def packet_stored_def toggle_twice)
    show "hc_get (upd_hc ch (packet_stored ys cont) ?m) k = hc_get w0 k" if "k \<noteq> ch" for k
      using r lm that by (simp add: hc_get_mem_write received_def)
    show "length (hc (upd_hc ch (packet_stored ys cont) ?m)) = length (hc w0)" "faults (upd_hc ch (packet_stored ys cont) ?m) = faults w0"
      "length (obj_bytes (upd_hc ch (packet_stored ys cont) ?m) b) = length (obj_bytes w0 b)"
      using r mw(1-3) by (simp_all add: received_def)
    fix j assume j: "j < length (vis_bytes w0 b)"
      "\<not> (buf_off b + length (xs @ ys) \<le> j \<and> j < buf_off b + length (xs @ ys) + 3)"
    have "length (vis_bytes w b) = length (vis_bytes w0 b)" using r by (simp add: length_vis received_def)
    with j mw(4) [of j] have v: "vis_bytes ?m b ! j = (if buf_off b + length xs \<le> j \<and> j < buf_off b + length xs + length (rounded ys)
        then rounded ys ! (j - (buf_off b + length xs)) else vis_bytes w b ! j)" by simp
    have old: "\<not> (buf_off b + length xs \<le> j \<and> j < buf_off b + length xs + 3) \<Longrightarrow>
        vis_bytes w b ! j = (if buf_off b \<le> j \<and> j < buf_off b + length xs then xs ! (j - buf_off b) else vis_bytes w0 b ! j)"
      using r j(1) by (simp add: received_def)
    have lr: "length ys \<le> length (rounded ys)" "length (rounded ys) \<le> length ys + 3" by (rule length_rounded)+
    show "vis_bytes (upd_hc ch (packet_stored ys cont) ?m) b ! j =
        (if buf_off b \<le> j \<and> j < buf_off b + length (xs @ ys) then (xs @ ys) ! (j - buf_off b) else vis_bytes w0 b ! j)"
      using v old j(2) lr p(2) by (auto simp: nth_append rounded_def diff_diff_left split: if_splits)
  qed
  with i show ?thesis by blast
qed

lemma receive_empty:
  assumes "rx_packet ch [] cont r" "unat ch < length (hc w)"
  shows "\<exists>r'. HAL_HCD_IRQHandler K E n ops (r, w) = Some (r', w)"
proof -
  obtain x q where g: "GRXSTSP r = x # q" "x AND 0xF = ucast ch" "drop_bit 17 (x AND 0x1E0000) = 2" "drop_bit 4 (x AND 0x7FF0) = 0"
    using assms(1) unfolding rx_packet_def by (auto split: list.splits)
  have c: "(ucast (ucast ch :: u32) :: u8) = ch" by (rule bit_word_eqI) (auto simp: bit_ucast_iff)
  have gm: "GRXSTSP (mask_int GINTSTS_RXFLVL r) = x # q" using g(1) by (simp add: mask_int_def)
  have "HCD_RXQLVL_IRQHandler (mask_int GINTSTS_RXFLVL r, w) = rx_in ch 0 (mask_int GINTSTS_RXFLVL r\<lparr>GRXSTSP := q\<rparr>, w)"
    by (simp only: HCD_RXQLVL_IRQHandler_def prod.case Let_def gm list.case list.sel g(2-4) c if_True simp_thms)
  then have "snd (HCD_RXQLVL_IRQHandler (mask_int GINTSTS_RXFLVL r, w)) = w" using assms(2) by (simp add: rx_in_def)
  then show ?thesis
    using irq_receive [of r K E n ops w] assms(1)
    by (cases "HCD_RXQLVL_IRQHandler (mask_int GINTSTS_RXFLVL r, w)") (simp add: rx_packet_def on_regs_def)
qed

text \<open>The interrupt again and again, each time with the registers as the core has set them.\<close>

primrec interrupts :: "otg_hw \<Rightarrow> (usb \<Rightarrow> usb) \<Rightarrow> nat \<Rightarrow> class_ops \<Rightarrow> otg list \<Rightarrow> usb \<Rightarrow> usb option" where
  "interrupts K E n ops [] w = Some w"
| "interrupts K E n ops (r # rs) w = do { (_, w) \<leftarrow> HAL_HCD_IRQHandler K E n ops (r, w); interrupts K E n ops rs w }"

lemma interrupts_append:
  "interrupts K E n ops (rs @ ss) w = do { w \<leftarrow> interrupts K E n ops rs w; interrupts K E n ops ss w }"
  by (induction rs arbitrary: w) (auto split: Option.bind_splits)

text \<open>One set of registers per packet; all but the last leave the packet count above 0.\<close>

fun rx_packets :: "u8 \<Rightarrow> u8 list list \<Rightarrow> otg list \<Rightarrow> bool" where
  "rx_packets ch [] rs \<longleftrightarrow> rs = []"
| "rx_packets ch (xs # xss) [] \<longleftrightarrow> False"
| "rx_packets ch (xs # xss) (r # rs) \<longleftrightarrow> rx_packet ch xs (xss \<noteq> []) r \<and> rx_packets ch xss rs"

lemma received_packets:
  assumes "received ch b w0 xs m w" "rx_packets ch yss rs" "\<forall>ys \<in> set (butlast yss). ys \<noteq> []"
    and "unat ch < length (hc w0)" "hc_xfer_buff (hc_get w0 ch) = b" "b \<noteq> BNull"
    and "buf_off b + length xs + length (concat yss) + 3 \<le> length (obj_bytes w0 b)" "length xs + length (concat yss) < 65536"
  shows "\<exists>w'. interrupts K E n ops rs w = Some w' \<and> received ch b w0 (xs @ concat yss) (m + (length yss - 1)) w'"
  using assms(1-3,7,8)
proof (induction yss arbitrary: rs xs m w)
  case Nil
  then show ?case by simp
next
  case (Cons ys yss)
  then obtain r rs' where rs: "rs = r # rs'" by (cases rs) simp_all
  with Cons.prems(2) have p: "rx_packet ch ys (yss \<noteq> []) r" and ps: "rx_packets ch yss rs'" by simp_all
  show ?case
  proof (cases "ys = []")
    case True
    with Cons.prems(3) have y: "yss = []" by (auto split: if_splits)
    have "unat ch < length (hc w)" using Cons.prems(1) assms(4) by (simp add: received_def)
    from receive_empty [of ch _ r w K E n ops] p True this obtain r' where "HAL_HCD_IRQHandler K E n ops (r, w) = Some (r', w)" by metis
    with Cons.prems(1) ps True y rs show ?thesis by simp
  next
    case False
    have "buf_off b + length xs + length ys + 3 \<le> length (obj_bytes w0 b)" "length xs + length ys < 65536"
      using Cons.prems(4,5) by simp_all
    from received_packet [OF Cons.prems(1) assms(4-6) p False this, of K E n ops] obtain r' w' where
      i: "HAL_HCD_IRQHandler K E n ops (r, w) = Some (r', w')" and
      w': "received ch b w0 (xs @ ys) (if yss \<noteq> [] then Suc m else m) w'" by blast
    have "\<forall>zs \<in> set (butlast yss). zs \<noteq> []" using Cons.prems(3) by (cases yss) auto
    with Cons.IH [OF w' ps] Cons.prems(4,5) obtain w'' where
      "interrupts K E n ops rs' w' = Some w''" "received ch b w0 ((xs @ ys) @ concat yss) ((if yss \<noteq> [] then Suc m else m) + (length yss - 1)) w''"
      by auto
    moreover have "yss \<noteq> [] \<Longrightarrow> Suc (m + (length yss - Suc 0)) = m + length yss" by (cases yss) simp_all
    ultimately show ?thesis using i rs by (cases "yss = []") auto
  qed
qed

section \<open>A channel's interrupt\<close>

text \<open>Channel \<open>ch\<close>, an IN channel, raises \<open>flags\<close>, and there is room for a halt request.\<close>

definition chan_event :: "u8 \<Rightarrow> u32 \<Rightarrow> otg \<Rightarrow> bool" where
  "chan_event ch flags r \<longleftrightarrow> raises GINTSTS_HCINT r \<and> HAINT r AND 0xFFFF = push_bit (unat ch) 1
     \<and> unat ch < length (HC r) \<and> HCCHAR (USBx_HC ch r) AND HCCHAR_EPDIR \<noteq> 0 \<and> HCINT (USBx_HC ch r) = flags
     \<and> HNPTXSTS r AND 0xFFFF \<noteq> 0 \<and> HPTXSTS r AND 0xFFFF \<noteq> 0"

definition same_global :: "otg \<Rightarrow> otg \<Rightarrow> bool" where
  "same_global r r' \<longleftrightarrow> GINTSTS r' = GINTSTS r \<and> GINTMSK r' = GINTMSK r \<and> HNPTXSTS r' = HNPTXSTS r \<and> HPTXSTS r' = HPTXSTS r"

lemma chan_op_global:
  assumes "HNPTXSTS r AND 0xFFFF \<noteq> 0" "HPTXSTS r AND 0xFFFF \<noteq> 0"
  shows "same_global r (chan_op K i x r)"
  using assms by (cases x) (simp_all add: same_global_def chan_regs USB_HC_Halt_def Let_def)

lemma chan_ops_global:
  assumes "HNPTXSTS r AND 0xFFFF \<noteq> 0" "HPTXSTS r AND 0xFFFF \<noteq> 0"
  shows "same_global r (fold (chan_op K i) xs r)"
  using assms
proof (induction xs arbitrary: r)
  case (Cons x xs)
  from chan_op_global [OF Cons.prems] have g: "same_global r (chan_op K i x r)" .
  with Cons.prems have "HNPTXSTS (chan_op K i x r) AND 0xFFFF \<noteq> 0" "HPTXSTS (chan_op K i x r) AND 0xFFFF \<noteq> 0"
    by (simp_all add: same_global_def)
  from Cons.IH [OF this] g show ?case by (simp add: same_global_def)
qed (simp add: same_global_def)

lemma bits_meet:
  assumes "m < 32"
  shows "2 ^ m AND 2 ^ k \<noteq> (0 :: u32) \<longleftrightarrow> k = m"
proof -
  have p: "bit (2 ^ j :: u32) n \<longleftrightarrow> n < 32 \<and> n = j" for j n by (auto simp: bit_exp_iff)
  have "2 ^ m AND 2 ^ k = (if k = m then 2 ^ m else (0 :: u32))"
    by (rule bit_word_eqI) (auto simp: bit_and_iff p)
  moreover have "(2 ^ m :: u32) \<noteq> 0" using p [of m m] assms by (metis bit_0_eq bot_apply bot_bool_def)
  ultimately show ?thesis by simp
qed

lemma fold_only:
  assumes "distinct xs" "k \<in> set xs" "\<And>i b. i \<in> set xs \<Longrightarrow> i \<noteq> k \<Longrightarrow> f i b = b"
  shows "fold f xs b = f k b"
proof -
  have skip: "fold f ys b = b" if "\<And>i. i \<in> set ys \<Longrightarrow> i \<in> set xs \<and> i \<noteq> k" for ys b
    using that by (induction ys arbitrary: b) (simp_all add: assms(3))
  from assms(2) obtain ys zs where xs: "xs = ys @ k # zs" by (meson split_list)
  with assms(1) have "k \<notin> set ys" "k \<notin> set zs" by auto
  with xs have "fold f ys b = b" "fold f zs (f k b) = f k b" by (intro skip; auto)+
  with xs show ?thesis by simp
qed

lemma irq_channels_one:
  assumes "chan_event ch flags r" "unat ch < 11"
  shows "irq_channels K (r, w) = chan_irq K HCD_HC_IN_IRQHandler ch (r, w)"
proof -
  let ?f = "\<lambda>k b. let i = of_nat k :: u8
      in if USB_HC_ReadInterrupt r AND push_bit k 1 \<noteq> 0 then
           (if HCCHAR (USBx_HC i (fst b)) AND HCCHAR_EPDIR \<noteq> 0
            then chan_irq K HCD_HC_IN_IRQHandler i b else chan_irq K HCD_HC_OUT_IRQHandler i b)
         else b"
  have u: "USB_HC_ReadInterrupt r AND 2 ^ k \<noteq> 0 \<longleftrightarrow> k = unat ch" for k
    using assms bits_meet [of "unat ch" k] by (simp add: chan_event_def USB_HC_ReadInterrupt_def)
  have "fold ?f [0..<11] (r, w) = ?f (unat ch) (r, w)"
    by (rule fold_only) (use assms(2) in \<open>simp_all add: u Let_def\<close>)
  then show ?thesis
    using assms(1) by (simp add: irq_channels_def hhcd_Init_def u chan_event_def Let_def)
qed

lemma still_unset:
  assumes "a AND NOT b = 0" "b AND m = c" "c AND x = 0" "x \<noteq> (0 :: u32)"
  shows "(a AND m) AND x \<noteq> x" "(a AND (m AND h)) AND x \<noteq> x"
proof -
  have a: "a = a AND b" using and_not_disjoint [of a "NOT b"] assms(1) by simp
  have "(a AND m) AND x = (a AND b) AND (m AND x)" using a by (simp add: and.assoc)
  also have "\<dots> = a AND ((b AND m) AND x)" by (simp add: and.assoc)
  finally have z: "(a AND m) AND x = 0" by (simp add: assms(2,3))
  then show "(a AND m) AND x \<noteq> x" using assms(4) by simp
  have "(a AND (m AND h)) AND x = ((a AND m) AND x) AND h" by (simp add: ac_simps)
  then show "(a AND (m AND h)) AND x \<noteq> x" using z assms(4) by simp
qed

lemma apps_channel_irq [simp]: "apps (channel_irq ch i w) = apps w"
  by (simp add: channel_irq_def run_irq_def Let_def chk_hc_def USBH_LL_NotifyURBChange_def osMessagePut_def upd_hc_def chk_def)

context otg_core
begin

lemma irq_channel:
  assumes "chan_event ch flags r" "unat ch < 11"
  shows "\<exists>r'. HAL_HCD_IRQHandler K E n ops (r, w) = Some (r', run_irq HCD_HC_IN_IRQHandler ch flags w)"
proof -
  have ev: "raises GINTSTS_HCINT r" "HNPTXSTS r AND 0xFFFF \<noteq> 0" "HPTXSTS r AND 0xFFFF \<noteq> 0" "HCINT (USBx_HC ch r) = flags"
    using assms(1) by (simp_all add: chan_event_def)
  let ?s = "HCD_HC_IN_IRQHandler (irq_start (hc_get w ch) flags)"
  let ?r = "upd_chan ch (\<lambda>c. c\<lparr>HCINT := irq_HCINT ?s\<rparr>) r"
  let ?r1 = "fold (chan_op K ch) (irq_ops ?s) ?r" and ?w1 = "run_irq HCD_HC_IN_IRQHandler ch flags w"
  have c: "irq_channels K (r, w) = (?r1, ?w1)"
    using irq_channels_one [OF assms, of K w] ev(4) by (simp add: chan_irq_def Let_def)
  have "same_global r ?r1"
    using chan_ops_global [of ?r K ch "irq_ops ?s"] ev(2,3) by (simp add: same_global_def)
  then have g: "GINTSTS ?r1 = GINTSTS r" "GINTMSK ?r1 = GINTMSK r" by (simp_all add: same_global_def)
  have "GINTSTS r AND GINTMSK r = GINTSTS_HCINT" using ev(1) by (simp add: raises_def)
  note un = still_unset(1) [OF write_clears this, where x = GINTSTS_RXFLVL]
    still_unset(2) [OF write_clears this, where x = GINTSTS_RXFLVL and h = "NOT GINTSTS_HPRTINT"]
  have "\<not> get_flag GINTSTS_RXFLVL (clear_flag K GINTSTS_HCINT (?r1, ?w1))"
    using un by (simp add: get_flag_def clear_flag_def on_regs_def set_GINTSTS_def USB_ReadInterrupts_def g)
  moreover have "USB_ReadInterrupts (r, w) = GINTSTS_HCINT" using raises_pending [OF ev(1)] by simp
  ultimately show ?thesis
    using ev(1) c
    by (simp add: HAL_HCD_IRQHandler_def raises_def ack_flag_def get_flag_def Let_def clear_flag_def on_regs_def)
qed

text \<open>The last two interrupts of a transfer: it is complete, the channel has halted.\<close>

lemma irq_completes:
  assumes "chan_event ch HCINT_XFRC r1" "chan_event ch HCINT_CHH r2" "unat ch < 11" "length (hc w) = 15" "hc_ep_is_in (hc_get w ch) \<noteq> 0"
  shows "\<exists>w'. interrupts K E n ops [r1, r2] w = Some w'
    \<and> hc_get w' ch = (hc_get w ch)\<lparr>hc_state := HC_XFRC, hc_ErrCnt := 0, hc_toggle_in := hc_toggle_in (hc_get w ch) XOR 1,
        hc_urb_state := USBH_URB_DONE\<rparr>
    \<and> (\<forall>k. k \<noteq> ch \<longrightarrow> hc_get w' k = hc_get w k) \<and> faults w' = faults w \<and> (\<forall>b. obj_bytes w' b = obj_bytes w b)"
proof -
  let ?w1 = "channel_irq ch HCINT_XFRC w" and ?w2 = "channel_irq ch HCINT_CHH (channel_irq ch HCINT_XFRC w)"
  have l: "unat ch < length (hc w)" using assms(3,4) by simp
  have l1: "unat ch < length (hc ?w1)" using l by (simp add: channel_irq_frame)
  have in1: "hc_ep_is_in (hc_get ?w1 ch) \<noteq> 0" using assms(5) by (simp add: channel_irq_hc [OF l])
  have e1: "channel_irq ch HCINT_XFRC w = run_irq HCD_HC_IN_IRQHandler ch HCINT_XFRC w"
    and e2: "?w2 = run_irq HCD_HC_IN_IRQHandler ch HCINT_CHH ?w1"
    using assms(5) in1 by (simp_all add: channel_irq_def)
  from irq_channel [OF assms(1,3), of E n ops w] irq_channel [OF assms(2,3), of E n ops ?w1]
  have "interrupts K E n ops [r1, r2] w = Some ?w2" unfolding e2 unfolding e1 by auto
  moreover have "hc_get ?w2 k = (if k = ch then irq_on HCINT_CHH (irq_on HCINT_XFRC (hc_get w ch)) else hc_get w k)" for k
    by (simp add: channel_irq_hc [OF l] channel_irq_hc [OF l1])
  moreover have "obj_bytes ?w2 b = obj_bytes w b" for b
    by (rule obj_bytes_cong) (simp_all add: channel_irq_frame [OF l] channel_irq_frame [OF l1])
  ultimately show ?thesis
    using assms(5) by (auto simp: xfrc_then_halt_in channel_irq_frame [OF l] channel_irq_frame [OF l1])
qed

end

section \<open>Receiving a transfer\<close>

text \<open>
  C4: An IN transfer, from the interrupts of the core to what the caller sees: however the data is cut into
  packets, the handlers put them one behind the other where the transfer wants them, count them, move the
  data toggle once per packet and report the transfer as done. No other channel and no byte before or behind
  the data is touched, except for at most three bytes that fill up the last word.
\<close>

theorem transfer_received:
  assumes "otg_core K" and "unat ch < 11" and "length (hc w) = 15"
    and "hc_xfer_buff (hc_get w ch) = b" "b \<noteq> BNull" and "hc_xfer_count (hc_get w ch) = 0" and "hc_ep_is_in (hc_get w ch) \<noteq> 0"
    and "yss \<noteq> []" "\<forall>ys \<in> set (butlast yss). ys \<noteq> []" and "rx_packets ch yss rs"
    and "chan_event ch HCINT_XFRC r1" and "chan_event ch HCINT_CHH r2"
    and "buf_off b + length (concat yss) \<le> length (vis_bytes w b)"
    and "buf_off b + length (concat yss) + 3 \<le> length (obj_bytes w b)" and "length (concat yss) < 65536"
  shows "\<exists>w'. interrupts K E n ops (rs @ [r1, r2]) w = Some w'
    \<and> hc_urb_state (hc_get w' ch) = USBH_URB_DONE \<and> unat (hc_xfer_count (hc_get w' ch)) = length (concat yss)
    \<and> hc_toggle_in (hc_get w' ch) = hc_toggle_in (hc_get w ch) XOR (if odd (length yss) then 1 else 0)
    \<and> take (length (concat yss)) (drop (buf_off b) (vis_bytes w' b)) = concat yss
    \<and> take (buf_off b) (vis_bytes w' b) = take (buf_off b) (vis_bytes w b)
    \<and> drop (buf_off b + length (concat yss) + 3) (vis_bytes w' b) = drop (buf_off b + length (concat yss) + 3) (vis_bytes w b)
    \<and> (\<forall>k. k \<noteq> ch \<longrightarrow> hc_get w' k = hc_get w k) \<and> faults w' = faults w"
proof -
  let ?d = "concat yss" and ?o = "buf_off b"
  have "hc_get w ch = (hc_get w ch)\<lparr>hc_xfer_count := of_nat (length ([] :: u8 list)), hc_toggle_in := hc_toggle_in (hc_get w ch) XOR (if odd 0 then 1 else 0)\<rparr>"
    using assms(6) by simp
  then have 0: "received ch b w [] 0 w" by (simp add: received_def)
  have l: "unat ch < length (hc w)" using assms(2,3) by simp
  from received_packets [OF 0 assms(10,9) l assms(4,5), of K E n ops] assms(14,15) obtain v where
    v: "interrupts K E n ops rs w = Some v" "received ch b w ?d (length yss - 1) v" by auto
  have "length (hc v) = 15" "hc_ep_is_in (hc_get v ch) \<noteq> 0" using v(2) assms(3,7) by (simp_all add: received_def)
  from otg_core.irq_completes [OF assms(1,11,12,2) this, of E n ops] obtain w' where
    w': "interrupts K E n ops [r1, r2] v = Some w'"
    "hc_get w' ch = (hc_get v ch)\<lparr>hc_state := HC_XFRC, hc_ErrCnt := 0, hc_toggle_in := hc_toggle_in (hc_get v ch) XOR 1, hc_urb_state := USBH_URB_DONE\<rparr>"
    "\<forall>k. k \<noteq> ch \<longrightarrow> hc_get w' k = hc_get v k" "faults w' = faults v" "\<forall>b. obj_bytes w' b = obj_bytes v b" by blast
  have len: "length (vis_bytes w' b) = length (vis_bytes w b)" using v(2) w'(5) by (simp add: length_vis received_def)
  have nth: "vis_bytes w' b ! j = (if ?o \<le> j \<and> j < ?o + length ?d then ?d ! (j - ?o) else vis_bytes w b ! j)"
    if "j < length (vis_bytes w b)" "\<not> (?o + length ?d \<le> j \<and> j < ?o + length ?d + 3)" for j
  proof -
    have "vis_bytes w' b = vis_bytes v b" using w'(5) by (simp add: vis_bytes_def)
    with v(2) that show ?thesis by (simp add: received_def)
  qed
  have "interrupts K E n ops (rs @ [r1, r2]) w = Some w'" using v(1) w'(1) by (simp add: interrupts_append)
  moreover have "hc_toggle_in (hc_get w' ch) = hc_toggle_in (hc_get w ch) XOR (if odd (length yss) then 1 else 0)"
  proof -
    have "hc_toggle_in (hc_get v ch) = hc_toggle_in (hc_get w ch) XOR (if odd (length yss - 1) then 1 else 0)"
      using v(2) by (simp add: received_def)
    moreover have "Suc (length yss - 1) = length yss" using assms(8) by simp
    ultimately show ?thesis using w'(2) toggle_twice [of _ "length yss - 1"] by simp
  qed
  moreover have "take (length ?d) (drop ?o (vis_bytes w' b)) = ?d"
    by (rule nth_equalityI) (use assms(13) in \<open>auto simp: len nth\<close>)
  moreover have "take ?o (vis_bytes w' b) = take ?o (vis_bytes w b)"
    by (rule nth_equalityI) (auto simp: len nth)
  moreover have "drop (?o + length ?d + 3) (vis_bytes w' b) = drop (?o + length ?d + 3) (vis_bytes w b)"
    by (rule nth_equalityI) (auto simp: len nth)
  ultimately show ?thesis
    using v(2) w' assms(15) by (simp add: received_def unat_of_nat)
qed

text \<open>Two packets for channel 2: eight bytes, then two.\<close>

definition rx_state :: "u8 list \<Rightarrow> u32 \<Rightarrow> otg" where
  "rx_state xs left = zero_otg\<lparr>GINTSTS := 0x11, GINTMSK := 0x10, GRXSTSP := [0x00040002 OR push_bit 4 (of_nat (length xs))],
     HC := (HC zero_otg)[2 := zero_chan\<lparr>HCTSIZ := left\<rparr>], rx_fifo := words_of xs\<rparr>"

definition event_state :: "u32 \<Rightarrow> otg" where
  "event_state flags = zero_otg\<lparr>GINTSTS := 0x02000001, GINTMSK := 0x02000000, HAINT := 4,
     HC := (HC zero_otg)[2 := zero_chan\<lparr>HCCHAR := HCCHAR_EPDIR, HCINT := flags\<rparr>]\<rparr>"

definition receiving_world :: usb where
  "receiving_world = reset_usb\<lparr>bytes := (\<lambda>_. replicate 16 0),
     hc := (hc reset_usb)[2 := zero_hc\<lparr>hc_ep_is_in := 1, hc_xfer_buff := BMem 5 1\<rparr>]\<rparr>"

lemma words_of_rx: "words_of [1, 2, 3, 4, 5, 6, 7, 8] = [0x04030201, 0x08070605]" "words_of [9, 10] = [0x0A09]"
  by (simp_all add: words_of_def LE32_def LE16_def rd8_def upt_rec)

theorem transfer_received_witness:
  "\<exists>w'. interrupts rc_w1 id 1 quiet_ops
      ([rx_state [1, 2, 3, 4, 5, 6, 7, 8] 0x00080000, rx_state [9, 10] 0] @ [event_state HCINT_XFRC, event_state HCINT_CHH]) receiving_world = Some w'
    \<and> take 10 (drop 1 (vis_bytes w' (BMem 5 1))) = [1, 2, 3, 4, 5, 6, 7, 8, 9, 10]"
proof -
  let ?yss = "[[1, 2, 3, 4, 5, 6, 7, 8], [9, 10]] :: u8 list list"
  have h: "hc_get receiving_world 2 = zero_hc\<lparr>hc_ep_is_in := 1, hc_xfer_buff := BMem 5 1\<rparr>"
    by (simp add: receiving_world_def reset_usb_def hc_get_def)
  have f: "unat (2 :: u8) < 11" "length (hc receiving_world) = 15" "hc_xfer_buff (hc_get receiving_world 2) = BMem 5 1" "BMem 5 1 \<noteq> BNull"
    "hc_xfer_count (hc_get receiving_world 2) = 0" "hc_ep_is_in (hc_get receiving_world 2) \<noteq> 0"
    by (simp_all add: h) (simp_all add: receiving_world_def reset_usb_def zero_hc_def)
  have y: "?yss \<noteq> []" "\<forall>ys \<in> set (butlast ?yss). ys \<noteq> []" by simp_all
  have p: "rx_packets 2 ?yss [rx_state [1, 2, 3, 4, 5, 6, 7, 8] 0x00080000, rx_state [9, 10] 0]"
    by (simp add: rx_packet_def raises_def rx_state_def USB_GetMode_def USBx_HC_def words_of_rx zero_otg_def)
  have e: "chan_event 2 HCINT_XFRC (event_state HCINT_XFRC)" "chan_event 2 HCINT_CHH (event_state HCINT_CHH)"
    by (simp_all add: chan_event_def raises_def event_state_def USB_GetMode_def USBx_HC_def zero_otg_def)
  have m: "buf_off (BMem 5 1) + length (concat ?yss) \<le> length (vis_bytes receiving_world (BMem 5 1))"
    "buf_off (BMem 5 1) + length (concat ?yss) + 3 \<le> length (obj_bytes receiving_world (BMem 5 1))" "length (concat ?yss) < 65536"
    by (simp_all add: vis_bytes_def obj_bytes_def pad_def receiving_world_def)
  have l: "length (concat ?yss) = 10" "concat ?yss = [1, 2, 3, 4, 5, 6, 7, 8, 9, 10]" "buf_off (BMem 5 1) = 1"
    "length ([1, 2, 3, 4, 5, 6, 7, 8, 9, 10] :: u8 list) = 10" by simp_all
  from transfer_received [OF rc_w1.otg_core_axioms f y p e m, of id 1 quiet_ops] show ?thesis
    unfolding l by blast
qed

end
