(* ===== verification/Usb_Hcd_Idle.thy ===== *)
theory Usb_Hcd_Idle
  imports Usb_Hcd_Irq_Props Usb_CH340_Data Usb_Core_Props
begin

text \<open>
  The channels the interrupt does not serve: \<open>HAL_HCD_IRQHandler\<close> looks at the first eleven, the library
  hands out fifteen.
\<close>

section \<open>A channel that stays idle\<close>

definition idle :: "u8 \<Rightarrow> usb \<Rightarrow> bool" where
  "idle ch w \<longleftrightarrow> hc_urb_state (hc_get w ch) = USBH_URB_IDLE"

lemma idle_hc: "hc w' = hc w \<Longrightarrow> idle ch w' = idle ch w"
  by (simp add: idle_def hc_get_def)

lemma upd_hc_outside: "\<not> unat k < length (hc w) \<Longrightarrow> upd_hc k f w = w"
  by (cases w) (simp add: upd_hc_def list_update_beyond)

lemma idle_upd_hc:
  assumes "idle ch w" "k = ch \<Longrightarrow> hc_urb_state (f (hc_get w ch)) = USBH_URB_IDLE"
  shows "idle ch (upd_hc k f w)"
  using assms by (cases "unat k < length (hc w)") (auto simp: idle_def upd_hc_outside)

lemma idle_submit: "idle ch w \<Longrightarrow> idle ch (HAL_HCD_HC_SubmitRequest k d t tok b len ping w)"
proof -
  assume i: "idle ch w"
  have 1: "hc_urb_state (submit_pid d t tok len c) = hc_urb_state c" for c
    by (simp add: submit_pid_def Let_def)
  have "idle ch (upd_hc k (submit_pid d t tok len) (chk_hc k w))"
  proof (rule idle_upd_hc)
    show "idle ch (chk_hc k w)" using i by (simp add: idle_def chk_hc_def)
    show "hc_urb_state (submit_pid d t tok len (hc_get (chk_hc k w) ch)) = USBH_URB_IDLE"
      using i by (simp add: 1 idle_def chk_hc_def)
  qed
  then have "idle ch (upd_hc k (\<lambda>c. c\<lparr>hc_xfer_buff := b, hc_xfer_len := ucast len, hc_urb_state := USBH_URB_IDLE,
      hc_xfer_count := 0, hc_ch_num := k, hc_state := HC_IDLE\<rparr>) (upd_hc k (submit_pid d t tok len) (chk_hc k w)))"
    by (rule idle_upd_hc) simp
  then show ?thesis by (simp add: HAL_HCD_HC_SubmitRequest_def Let_def idle_def)
qed

lemma idle_submit_set:
  assumes "unat ch < length (hc w)"
  shows "idle ch (HAL_HCD_HC_SubmitRequest ch d t tok b len ping w)"
  using assms by (simp add: idle_def HAL_HCD_HC_SubmitRequest_def Let_def)

lemma idle_calls [simp]:
  "idle ch (upd_host p f w) = idle ch w" "idle ch (chk c x w) = idle ch w" "idle ch (out y w) = idle ch w"
  "idle ch (osMessagePut e w) = idle ch w" "idle ch (call_user p ev w) = idle ch w"
  "idle ch (set_gstate p st w) = idle ch w" "idle ch (set_pipe_word p i v w) = idle ch w"
  "idle ch (chk_host p w) = idle ch w" "idle ch (w\<lparr>cdata := z\<rparr>) = idle ch w"
  by (rule idle_hc; simp add: call_user_def USBH_UserProcess_def set_gstate_def split: HOST_USER.split)+

section \<open>The callbacks\<close>

lemma idle_free_pipes [simp]: "idle ch (free_control_pipes p w) = idle ch w"
  by (simp add: free_control_pipes_def USBH_FreePipe_def Let_def)

lemma idle_connect: "idle ch (snd (USBH_LL_Connect p w)) = idle ch w"
  by (simp add: USBH_LL_Connect_def Let_def)

lemma idle_disconnect:
  assumes "\<And>v. idle ch v \<Longrightarrow> idle ch (E v)" "idle ch w"
  shows "idle ch (snd (USBH_LL_Disconnect E p w))"
  using assms by (simp add: USBH_LL_Disconnect_def USBH_LL_Stop_def USBH_LL_Start_def USBH_Delay_def Let_def)

lemma idle_upd_hub [simp]: "idle ch (upd_hub p f w) = idle ch w"
  by (cases "cdata w (hub_ptr p w)") (simp_all add: upd_hub_def)

lemma idle_SubmitURB: "idle ch w \<Longrightarrow> idle ch (snd (USBH_LL_SubmitURB p k d t tok b len ping w))"
  by (simp add: USBH_LL_SubmitURB_def idle_submit)

lemma idle_hub_sof: "idle ch w \<Longrightarrow> idle ch (snd (USBH_HUB_SOFProcess p w))"
  by (simp add: USBH_HUB_SOFProcess_def USBH_InterruptReceiveData_def idle_SubmitURB Let_def)

lemma idle_sof_drivers:
  assumes "cSOFProcess (drivers (Suc n) E rest) c p w = Some (st, w')" "idle ch w"
  shows "idle ch w'"
proof (cases c)
  case HUB_Class
  with assms(1) have "w' = snd (USBH_HUB_SOFProcess p w)" by simp
  with assms(2) show ?thesis by (simp add: idle_hub_sof)
qed (use assms in \<open>simp_all add: USBH_MSC_SOFProcess_def USBH_CH340_SOFProcess_def USBH_AOA_Sof_def\<close>)

lemma idle_HandleSof:
  assumes "\<And>c p v st v'. cSOFProcess ops c p v = Some (st, v') \<Longrightarrow> idle ch v \<Longrightarrow> idle ch v'"
    and "USBH_HandleSof n ops p w = Some w'" "idle ch w"
  shows "idle ch w'"
  using assms(2,3)
proof (induction n arbitrary: p w w')
  case (Suc n)
  show ?case
  proof (cases "gState (hosts w p) = HOST_CLASS \<and> pActiveClass (hosts w p) \<noteq> None")
    case True
    then obtain c where c: "pActiveClass (hosts w p) = Some c" by auto
    with Suc.prems(1) True obtain st v where v: "cSOFProcess ops c p w = Some (st, v)"
      "fold_opt (\<lambda>i w. let c = children (hosts w p) ! i in if c \<noteq> NULL then USBH_HandleSof n ops c (chk_host c w) else Some w)
         [0..<USBH_MAX_NUM_CHILD] v = Some w'"
      by (auto split: Option.bind_splits)
    have "idle ch v" using assms(1) [OF v(1)] Suc.prems(2) by blast
    show ?thesis
    proof (rule fold_opt_invariant [OF v(2), of "idle ch", OF \<open>idle ch v\<close>])
      fix i s t
      assume "idle ch s" "(let c = children (hosts s p) ! i in if c \<noteq> NULL then USBH_HandleSof n ops c (chk_host c s) else Some s) = Some t"
      with Suc.IH [of "children (hosts s p) ! i" "chk_host (children (hosts s p) ! i) s" t] show "idle ch t"
        by (auto simp: Let_def split: if_splits)
    qed
  next
    case False
    with Suc.prems show ?thesis by (auto split: if_splits option.splits)
  qed
qed simp


section \<open>The interrupt\<close>

text \<open>Both halves of the board: only the world says whether the channel is idle.\<close>

abbreviation (input) b_idle :: "u8 \<Rightarrow> board \<Rightarrow> bool" where
  "b_idle ch b \<equiv> idle ch (snd b)"

lemma b_idle_regs [simp]: "b_idle ch (on_regs f b) = b_idle ch b" "b_idle ch (clear_flag K m b) = b_idle ch b"
  "b_idle ch (ack_flag K m b) = b_idle ch b"
  by (simp_all add: ack_flag_def clear_flag_def on_regs_def split: prod.splits)

lemma b_idle_callbacks:
  assumes "b_idle ch b"
  shows "b_idle ch (HAL_HCD_Connect_Callback K b)"
    and "(\<And>v. idle ch v \<Longrightarrow> idle ch (E v)) \<Longrightarrow> b_idle ch (HAL_HCD_Disconnect_Callback K E b)"
    and "b_idle ch (HAL_HCD_PortEnabled_Callback b)" "b_idle ch (HAL_HCD_PortDisabled_Callback b)"
  using assms
  by (cases b; simp add: HAL_HCD_Connect_Callback_def HAL_HCD_Disconnect_Callback_def HAL_HCD_PortEnabled_Callback_def
      HAL_HCD_PortDisabled_Callback_def performed_def idle_connect idle_disconnect USBH_LL_PortEnabled_def USBH_LL_PortDisabled_def)+

lemma b_idle_port: "b_idle ch b \<Longrightarrow> b_idle ch (HCD_Port_IRQHandler K b)"
  by (simp add: HCD_Port_IRQHandler_def port_connected_def port_enable_changed_def b_idle_callbacks Let_def split: prod.split)

lemma b_idle_disconnected:
  assumes "\<And>v. idle ch v \<Longrightarrow> idle ch (E v)" "b_idle ch b"
  shows "b_idle ch (irq_disconnected K E b)"
  using assms by (simp add: irq_disconnected_def b_idle_callbacks Let_def)

lemma idle_run_irq: "idle ch w \<Longrightarrow> i \<noteq> ch \<Longrightarrow> idle ch (run_irq handler i hcint w)"
proof -
  assume a: "idle ch w" "i \<noteq> ch"
  let ?s = "handler (irq_start (hc_get w i) hcint)"
  let ?v = "upd_hc i (\<lambda>_. irq_c ?s) (chk_hc i w)"
  have "idle ch (chk_hc i w)" using a(1) by (simp add: chk_hc_def)
  then have "idle ch ?v" by (rule idle_upd_hc) (simp add: a(2))
  then have "idle ch (?v\<lparr>outs := outs ?v @ replicate (irq_halts ?s) (HCD_Halt i)\<rparr>)"
    by (subst idle_hc [of _ ?v]) simp_all
  then show ?thesis by (simp add: run_irq_def Let_def USBH_LL_NotifyURBChange_def)
qed

lemma b_idle_channels:
  assumes "b_idle ch b" "11 \<le> unat ch"
  shows "b_idle ch (irq_channels K b)"
proof -
  have ne: "(of_nat k :: u8) \<noteq> ch" if "k < 11" for k using that assms(2) by (auto simp: unat_of_nat)
  have c: "b_idle ch (chan_irq K handler i b)" if "b_idle ch b" "i \<noteq> ch" for handler i b
    using that by (cases b) (simp add: chan_irq_def Let_def idle_run_irq)
  show ?thesis
    unfolding irq_channels_def Let_def
    by (rule fold_invariant [where P = "b_idle ch" and Q = "\<lambda>k. k < 11"])
      (use assms(1) ne in \<open>auto simp: hhcd_Init_def intro!: c\<close>)
qed

lemma b_idle_rx: "b_idle ch b \<Longrightarrow> b_idle ch (HCD_RXQLVL_IRQHandler b)"
proof -
  assume "b_idle ch b"
  have "b_idle ch (rx_in k n (r, w))" if w: "idle ch w" for k n r w
  proof -
    let ?count = "\<lambda>c. c\<lparr>hc_xfer_count := hc_xfer_count c + n\<rparr>" and ?toggle = "\<lambda>c. c\<lparr>hc_toggle_in := hc_toggle_in c XOR 1\<rparr>"
    have keep: "idle ch v \<Longrightarrow> idle ch (upd_hc k ?count v)" "idle ch v \<Longrightarrow> idle ch (upd_hc k ?toggle v)" for v
      by (rule idle_upd_hc; simp add: idle_def)+
    have "idle ch (mem_write q j xs v)" if "idle ch v" for q j xs v
      using that by (simp add: idle_def hc_get_mem_write)
    with w show ?thesis by (simp add: rx_in_def Let_def chk_hc_def keep split: prod.split)
  qed
  with \<open>b_idle ch b\<close> show ?thesis by (cases b) (simp add: HCD_RXQLVL_IRQHandler_def Let_def)
qed

lemma idle_IRQHandler:
  assumes E: "\<And>v. idle ch v \<Longrightarrow> idle ch (E v)" and ch: "11 \<le> unat ch"
    and "HAL_HCD_IRQHandler K E n (drivers (Suc m) E' rest) b = Some b'" "b_idle ch b"
  shows "b_idle ch b'"
proof -
  let ?b1 = "ack_flag K GINTSTS_MMIS (ack_flag K GINTSTS_PTXFE (ack_flag K GINTSTS_IISOIXFR (ack_flag K GINTSTS_INCOMPISOOUT b)))"
  define b2 where "b2 = (if get_flag GINTSTS_DISCINT ?b1 then irq_disconnected K E ?b1 else ?b1)"
  define b3 where "b3 = (if get_flag GINTSTS_HPRTINT b2 then HCD_Port_IRQHandler K b2 else b2)"
  have "b_idle ch b2" using assms(4) E by (simp add: b2_def b_idle_disconnected)
  then have b3: "b_idle ch b3" by (simp add: b3_def b_idle_port)
  let ?sof = "if get_flag GINTSTS_SOF b3
      then Option.bind (HAL_HCD_SOF_Callback K n (drivers (Suc m) E' rest) b3) (\<lambda>b. Some (clear_flag K GINTSTS_SOF b)) else Some b3"
  have sof: "b_idle ch b4" if "?sof = Some b4" for b4
  proof (cases "get_flag GINTSTS_SOF b3")
    case True
    obtain r w where rw: "b3 = (r, w)" by (cases b3)
    from True that rw obtain w' where w': "USBH_LL_IncTimer n (drivers (Suc m) E' rest) (hhcd_pData w) w = Some w'"
      "b4 = clear_flag K GINTSTS_SOF (performed K w r w')"
      by (auto simp: HAL_HCD_SOF_Callback_def split: Option.bind_splits)
    have "idle ch w'"
      using w'(1) b3 rw unfolding USBH_LL_IncTimer_def
      by (auto intro: idle_HandleSof [OF idle_sof_drivers])
    with w'(2) show ?thesis by (simp add: performed_def)
  qed (use that b3 in auto)
  show ?thesis
  proof (cases "USB_GetMode (fst b) = 1 \<and> USB_ReadInterrupts b \<noteq> 0")
    case True
    then obtain b4 where b4: "?sof = Some b4" and b': "b' =
       (let b = (if get_flag GINTSTS_HCINT b4 then clear_flag K GINTSTS_HCINT (irq_channels K b4) else b4)
        in if get_flag GINTSTS_RXFLVL b then on_regs (unmask_int GINTSTS_RXFLVL)
             (HCD_RXQLVL_IRQHandler (on_regs (mask_int GINTSTS_RXFLVL) b)) else b)"
      using assms(3) unfolding HAL_HCD_IRQHandler_def Let_def b2_def b3_def
      by (auto split: Option.bind_splits if_splits)
    have "b_idle ch b4" using sof [OF b4] .
    with b' show ?thesis by (simp add: Let_def b_idle_channels [OF _ ch] b_idle_rx)
  next
    case False
    with assms(3,4) show ?thesis by (auto simp: HAL_HCD_IRQHandler_def split: if_splits)
  qed
qed


lemma idle_interrupts:
  assumes "\<And>v. idle ch v \<Longrightarrow> idle ch (E v)" "11 \<le> unat ch"
    and "interrupts K E n (drivers (Suc m) E' rest) rs w = Some w'" "idle ch w"
  shows "idle ch w'"
  using assms(3,4)
proof (induction rs arbitrary: w)
  case (Cons r rs)
  from Cons.prems(1) obtain r1 w1 where 1: "HAL_HCD_IRQHandler K E n (drivers (Suc m) E' rest) (r, w) = Some (r1, w1)"
    "interrupts K E n (drivers (Suc m) E' rest) rs w1 = Some w'" by (auto split: Option.bind_splits)
  from idle_IRQHandler [OF assms(1,2) 1(1)] Cons.prems(2) have "idle ch w1" by simp
  with Cons.IH [OF 1(2)] show ?case .
qed simp

section \<open>Channels 11 to 14\<close>

text \<open>
  C37: The library hands out fifteen pipes and a pipe is a channel, but the driver is configured for eleven
  channels, and its interrupt handler looks at no other. When the first eleven pipes are taken the next one
  is a channel that is never served: whatever the core raises, a transfer on it stays idle.
\<close>

theorem unserved_channel:
  assumes "\<And>i. i < 11 \<Longrightarrow> pipe_word p w i AND 0x8000 \<noteq> 0"
    and "USBH_AllocPipe p ep w = (ch, w1)" "ch \<noteq> 0xFF" and "length (hc w) = 15"
    and "\<And>v. HAL_HCD_HC_GetURBState ch v = USBH_URB_IDLE \<Longrightarrow> HAL_HCD_HC_GetURBState ch (E v) = USBH_URB_IDLE"
    and "interrupts K E n (drivers (Suc m) E' rest) rs (HAL_HCD_HC_SubmitRequest ch d t tok b len ping w1) = Some w'"
  shows "11 \<le> unat ch \<and> unat ch < 15 \<and> HAL_HCD_HC_GetURBState ch w' = USBH_URB_IDLE"
proof -
  from assms(2,3) obtain i where i: "first_idx (\<lambda>i. pipe_word p w i AND 0x8000 = 0) 0 15 = Some i" "ch = ucast (of_nat i :: u16)"
    by (auto simp: USBH_AllocPipe_def USBH_GetFreePipe_def Let_def split: option.splits)
  from first_idx_Some [OF i(1)] have "i < 15" "pipe_word p w i AND 0x8000 = 0" by auto
  with assms(1) [of i] have r: "11 \<le> i" "i < 15" by force+
  with i(2) have ch: "unat ch = i" by (simp add: unsigned_ucast_eq unat_of_nat take_bit_nat_eq_self)
  have "hc w1 = hc w" using assms(2) by (auto simp: USBH_AllocPipe_def Let_def split: if_splits)
  with assms(4) ch r have "idle ch (HAL_HCD_HC_SubmitRequest ch d t tok b len ping w1)" by (intro idle_submit_set) simp
  with idle_interrupts [of ch E K n m E' rest rs _ w'] assms(5,6) ch r have "idle ch w'"
    by (simp add: idle_def HAL_HCD_HC_GetURBState_def)
  with ch r show ?thesis by (simp add: idle_def HAL_HCD_HC_GetURBState_def)
qed

text \<open>Eleven pipes are taken; channel 11 raises an interrupt.\<close>

definition crowded_world :: usb where
  "crowded_world = reset_usb\<lparr>hosts := (\<lambda>_. zero_host\<lparr>Pipes := 5\<rparr>),
     words := (\<lambda>_. replicate 11 0x8000 @ replicate 4 0)\<rparr>"

definition late_state :: otg where
  "late_state = zero_otg\<lparr>GINTSTS := 0x02000001, GINTMSK := 0x02000000, HAINT := 0x800,
     HC := (HC zero_otg)[11 := zero_chan\<lparr>HCCHAR := HCCHAR_EPDIR, HCINT := HCINT_XFRC\<rparr>]\<rparr>"

lemma late_ignored: "irq_channels rc_w1 (late_state, w) = (late_state, w)"
proof -
  have u: "USB_HC_ReadInterrupt late_state = 2 ^ 11" by (simp add: USB_HC_ReadInterrupt_def late_state_def)
  have z: "2048 AND push_bit k 1 = (0 :: u32)" if "k < 11" for k
    using that bits_meet [of 11 k] by simp
  have skip: "(\<And>k. k \<in> set ks \<Longrightarrow> f k b = b) \<Longrightarrow> fold f ks b = b" for f ks and b :: board
    by (induction ks) simp_all
  show ?thesis unfolding irq_channels_def Let_def fst_conv u
    by (rule skip) (simp add: z hhcd_Init_def del: push_bit_of_1)
qed

theorem unserved_channel_witness:
  "\<exists>w'. interrupts rc_w1 id 1 (drivers 1 id quiet_ops) [late_state]
        (HAL_HCD_HC_SubmitRequest 11 1 USBH_EP_BULK USBH_PID_DATA (BMem 5 0) 64 0 (set_pipe_word 0 11 0x8081 crowded_world)) = Some w'
      \<and> HAL_HCD_HC_GetURBState 11 w' = USBH_URB_IDLE"
proof -
  let ?w1 = "set_pipe_word 0 11 0x8081 crowded_world"
  let ?w = "HAL_HCD_HC_SubmitRequest 11 1 USBH_EP_BULK USBH_PID_DATA (BMem 5 0) 64 0 ?w1"
  have taken: "pipe_word 0 crowded_world i AND 0x8000 \<noteq> 0" if "i < 11" for i
    using that by (simp add: pipe_word_def crowded_world_def nth_append)
  have "first_idx (\<lambda>i. pipe_word 0 crowded_world i AND 0x8000 = 0) 0 15 = Some 11"
    by (rule first_idx_eqI) (auto simp: pipe_word_def crowded_world_def nth_append)
  then have a: "USBH_AllocPipe 0 0x81 crowded_world = (11, ?w1)"
    by (simp add: USBH_AllocPipe_def USBH_GetFreePipe_def)
  have i: "\<exists>w'. interrupts rc_w1 id 1 ops [late_state] ?w = Some w'" for ops
  proof -
    have quiet: "USB_ReadInterrupts (set_GINTSTS rc_w1 0x02000000 late_state, v) AND 16 \<noteq> 16" for v
      by (simp add: USB_ReadInterrupts_def set_GINTSTS_def rc_w1_def late_state_def zero_otg_def)
    have "raises GINTSTS_HCINT late_state" by (simp add: raises_def late_state_def USB_GetMode_def zero_otg_def)
    then show ?thesis
      using raises_pending [of GINTSTS_HCINT late_state ?w]
      by (simp add: HAL_HCD_IRQHandler_def raises_def ack_flag_def get_flag_def Let_def clear_flag_def on_regs_def late_ignored quiet)
  qed
  then obtain w' where w': "interrupts rc_w1 id 1 (drivers (Suc 0) id quiet_ops) [late_state] ?w = Some w'" by blast
  have "HAL_HCD_HC_GetURBState 11 w' = USBH_URB_IDLE"
    using unserved_channel [OF taken a _ _ _ w'] by (simp add: crowded_world_def reset_usb_def)
  with w' show ?thesis by auto
qed

end
