(* ===== verification/Usb_Hcd_Port.thy ===== *)
theory Usb_Hcd_Port
  imports Usb_Hcd_Idle
begin

text \<open>
  The port of the OTG core: a device that is plugged in, from the interrupt of the port to the state from which
  it is enumerated, and a device that is pulled out; then the FIFO interrupt nobody handles.
\<close>

section \<open>An interrupt of the port\<close>

lemma and_swap_zero: "(x AND y) AND m = 0 \<Longrightarrow> (x AND (y AND z)) AND m = (0 :: u32)"
proof -
  have "(x AND (y AND z)) AND m = z AND ((x AND y) AND m)" by (simp add: ac_simps)
  then show "(x AND y) AND m = 0 \<Longrightarrow> (x AND (y AND z)) AND m = 0" by simp
qed

lemma no_flag:
  assumes "(GINTSTS r AND GINTMSK r) AND m = 0" "m \<noteq> 0"
  shows "\<not> get_flag m (r, w)"
  using assms and_swap_zero [OF assms(1)] by (simp add: get_flag_def USB_ReadInterrupts_def)

text \<open>None of the interrupts that are looked at after the port's is raised.\<close>

abbreviation (input) later_flags :: u32 where "later_flags \<equiv> 0x02000018"

definition calm :: "otg \<Rightarrow> bool" where
  "calm r \<longleftrightarrow> (GINTSTS r AND GINTMSK r) AND later_flags = 0"

lemma calm_flags:
  assumes "calm r"
  shows "\<not> get_flag GINTSTS_SOF (r, w)" "\<not> get_flag GINTSTS_HCINT (r, w)" "\<not> get_flag GINTSTS_RXFLVL (r, w)"
proof -
  let ?x = "GINTSTS r AND GINTMSK r"
  have z: "?x AND m = 0" if "m = m AND later_flags" for m
  proof -
    have "?x AND m = ?x AND (m AND later_flags)" by (rule arg_cong [OF that])
    also have "\<dots> = m AND (?x AND later_flags)" by (simp only: ac_simps)
    finally show ?thesis using assms by (simp add: calm_def)
  qed
  show "\<not> get_flag GINTSTS_SOF (r, w)" "\<not> get_flag GINTSTS_HCINT (r, w)" "\<not> get_flag GINTSTS_RXFLVL (r, w)"
    by (intro no_flag z; simp)+
qed

lemma irq_port:
  assumes "raises GINTSTS_HPRTINT r" "\<not> hprt_masked w" "HCD_Port_IRQHandler K (r, w) = (r', w')" "calm r'"
  shows "HAL_HCD_IRQHandler K E n ops (r, w) = Some (r', w')"
proof -
  have "USB_ReadInterrupts (r, w) = GINTSTS_HPRTINT" using assms(1,2) by (simp add: USB_ReadInterrupts_def raises_def)
  then show ?thesis
    using assms(1,3) calm_flags [OF assms(4), of w'] by (simp add: HAL_HCD_IRQHandler_def raises_def ack_flag_def get_flag_def Let_def)
qed

text \<open>What the port reports, in terms of the bits of \<open>HPRT0\<close>.\<close>

definition port_reports :: "bool \<Rightarrow> bool \<Rightarrow> bool \<Rightarrow> bool \<Rightarrow> otg \<Rightarrow> bool" where
  "port_reports det conn chng en r \<longleftrightarrow> raises GINTSTS_HPRTINT r
     \<and> (HPRT0 r AND HPRT_PCDET = HPRT_PCDET \<longleftrightarrow> det) \<and> (HPRT0 r AND HPRT_PCSTS = HPRT_PCSTS \<longleftrightarrow> conn)
     \<and> (HPRT0 r AND HPRT_PENCHNG = HPRT_PENCHNG \<longleftrightarrow> chng) \<and> (HPRT0 r AND HPRT_PENA = HPRT_PENA \<longleftrightarrow> en)"

lemma calm_if_raised:
  assumes "raises GINTSTS_HPRTINT r" "GINTSTS r' = GINTSTS r" "GINTMSK r' = GINTMSK r AND x OR GINTSTS_DISCINT \<or> GINTMSK r' = GINTMSK r AND x"
  shows "calm r'"
proof -
  let ?m = later_flags
  have "(GINTSTS r AND GINTMSK r) AND ?m = 0" using assms(1) by (simp add: raises_def)
  then have z: "(GINTSTS r AND (GINTMSK r AND x)) AND ?m = 0" by (rule and_swap_zero)
  have "(GINTSTS r AND GINTSTS_DISCINT) AND ?m = 0" by (simp add: and.assoc)
  with z have "(GINTSTS r AND (GINTMSK r AND x OR GINTSTS_DISCINT)) AND ?m = 0"
    by (simp add: bit.conj_disj_distrib bit.conj_disj_distrib2)
  with z assms(2,3) show ?thesis by (auto simp: calm_def)
qed

lemma connect_outs:
  "\<exists>xs. outs (snd (USBH_LL_Connect p w)) = outs w @ xs \<and> set xs \<subseteq> {User p HOST_USER_CONNECTION}"
  by (simp add: USBH_LL_Connect_def Let_def call_user_def USBH_UserProcess_def set_gstate_def out_def)

lemma performed_user:
  assumes "outs w' = outs w @ xs" "set xs \<subseteq> {User p e}"
  shows "performed K w r w' = (r, w')"
proof -
  have "fold (perform K (\<lambda>_. []) w') xs r = r"
    using assms(2) by (induction xs) (auto simp: perform_def)
  with assms(1) show ?thesis by (simp add: performed_def)
qed

lemma Connect_Callback: "HAL_HCD_Connect_Callback K (r, w) = (r, snd (USBH_LL_Connect (hhcd_pData w) w))"
proof -
  obtain xs where "outs (snd (USBH_LL_Connect (hhcd_pData w) w)) = outs w @ xs" "set xs \<subseteq> {User (hhcd_pData w) HOST_USER_CONNECTION}"
    using connect_outs by blast
  then show ?thesis by (simp add: HAL_HCD_Connect_Callback_def performed_user)
qed

text \<open>The port has seen a device.\<close>

lemma irq_device_seen:
  assumes "port_reports True True False en r" "\<not> hprt_masked w"
  shows "\<exists>r'. HAL_HCD_IRQHandler K E n ops (r, w) = Some (r', snd (USBH_LL_Connect (hhcd_pData w) w))
    \<and> GINTSTS r' = GINTSTS r \<and> GINTMSK r' = GINTMSK r AND NOT GINTSTS_DISCINT"
proof -
  obtain r' where r': "HCD_Port_IRQHandler K (r, w) = (r', snd (USBH_LL_Connect (hhcd_pData w) w))"
      "GINTSTS r' = GINTSTS r" "GINTMSK r' = GINTMSK r AND NOT GINTSTS_DISCINT"
    using assms by (simp add: HCD_Port_IRQHandler_def port_reports_def port_connected_def Let_def on_regs_def Connect_Callback
        mask_int_def set_HPRT0_def)
  then have "calm r'" using assms by (auto simp: port_reports_def intro: calm_if_raised)
  with irq_port [OF _ assms(2) r'(1)] assms(1) r' show ?thesis by (auto simp: port_reports_def)
qed

text \<open>The port is enabled, which is reported as a connection as well.\<close>

lemma irq_port_enabled:
  assumes "port_reports False conn True True r" "\<not> hprt_masked w"
  shows "\<exists>r'. HAL_HCD_IRQHandler K E n ops (r, w) =
      Some (r', snd (USBH_LL_Connect (hhcd_pData w) (USBH_LL_PortEnabled (hhcd_pData w) w)))
    \<and> GINTSTS r' = GINTSTS r \<and> GINTMSK r' = GINTMSK r
    \<and> HFIR r' = (if HPRT0 r AND HPRT_PSPD = push_bit 17 2 then 6000 else 48000)"
proof -
  let ?v = "USBH_LL_PortEnabled (hhcd_pData w) w"
  have p: "hhcd_pData ?v = hhcd_pData w" by (simp add: USBH_LL_PortEnabled_def)
  obtain r' where r': "HCD_Port_IRQHandler K (r, w) = (r', snd (USBH_LL_Connect (hhcd_pData w) ?v))"
      "GINTSTS r' = GINTSTS r" "GINTMSK r' = GINTMSK r" "HFIR r' = (if HPRT0 r AND HPRT_PSPD = push_bit 17 2 then 6000 else 48000)"
    using assms by (simp add: HCD_Port_IRQHandler_def port_reports_def port_enable_changed_def Let_def on_regs_def
        HAL_HCD_PortEnabled_Callback_def Connect_Callback p set_HPRT0_def hhcd_Init_def USB_InitFSLSPClkSel_def)
  from r'(3) have "GINTMSK r' = GINTMSK r AND NOT 0" by simp
  with assms r'(2) have "calm r'" unfolding port_reports_def by (metis calm_if_raised)
  with irq_port [OF _ assms(2) r'(1)] assms(1) r' show ?thesis by (auto simp: port_reports_def)
qed

text \<open>The port is disabled: the library only clears \<open>PortEnabled\<close>.\<close>

lemma irq_port_disabled:
  assumes "port_reports False conn True False r" "\<not> hprt_masked w"
  shows "\<exists>r'. HAL_HCD_IRQHandler K E n ops (r, w) = Some (r', USBH_LL_PortDisabled (hhcd_pData w) w)
    \<and> GINTSTS r' = GINTSTS r \<and> GINTMSK r' = GINTMSK r OR GINTSTS_DISCINT"
proof -
  obtain r' where r': "HCD_Port_IRQHandler K (r, w) = (r', USBH_LL_PortDisabled (hhcd_pData w) w)"
      "GINTSTS r' = GINTSTS r" "GINTMSK r' = GINTMSK r OR GINTSTS_DISCINT"
    using assms by (simp add: HCD_Port_IRQHandler_def port_reports_def port_enable_changed_def Let_def on_regs_def
        HAL_HCD_PortDisabled_Callback_def unmask_int_def set_HPRT0_def)
  then have "GINTMSK r' = GINTMSK r AND NOT 0 OR GINTSTS_DISCINT" by simp
  with assms r'(2) have "calm r'" unfolding port_reports_def by (metis calm_if_raised)
  with irq_port [OF _ assms(2) r'(1)] assms(1) r' show ?thesis by (auto simp: port_reports_def)
qed


section \<open>Plugging in\<close>

text \<open>
  C7: A device is plugged into the root port: the core reports it, the host task delays and resets the port,
  the core reports that the port is enabled. The library is then in the state in which the device is
  enumerated, knows that it is connected and that the port is enabled, and has reset the port once; the
  frame interval fits the speed, and the interrupt for a disconnection is masked until the port is disabled.
\<close>

theorem device_attaches:
  assumes "hhcd_pData w = p" "pData (hosts w p) \<noteq> NULL" "is_child (hosts w p) = 0" "gst p w = HOST_IDLE" "\<not> hprt_masked w"
    and "\<And>v. hosts (E v) p = hosts v p \<and> hhcd_pData (E v) = hhcd_pData v \<and> outs (E v) = outs v"
    and "port_reports True True False en r1" "port_reports False conn True True r2"
  shows "\<exists>r1' w1 s w2 r2' w3. HAL_HCD_IRQHandler K E n ops (r1, w) = Some (r1', w1)
    \<and> GINTMSK r1' AND GINTSTS_DISCINT = 0
    \<and> USBH_Process E ops p w1 = Some (s, w2) \<and> HAL_HCD_IRQHandler K E n ops (r2, w2) = Some (r2', w3)
    \<and> HFIR r2' = (if HPRT0 r2 AND HPRT_PSPD = push_bit 17 2 then 6000 else 48000)
    \<and> gst p w3 = HOST_DEV_ATTACHED \<and> is_connected (device (hosts w3 p)) = 1 \<and> PortEnabled (device (hosts w3 p)) = 1
    \<and> outs w3 = outs w @ (if pUser (hosts w p) \<noteq> NULL then [User p HOST_USER_CONNECTION] else []) @ [Delay 200, HCD_ResetPort]"
proof -
  let ?w1 = "snd (USBH_LL_Connect p w)"
  obtain r1' where 1: "HAL_HCD_IRQHandler K E n ops (r1, w) = Some (r1', ?w1)" "GINTMSK r1' = GINTMSK r1 AND NOT GINTSTS_DISCINT"
    using irq_device_seen [OF assms(7,5)] assms(1) by blast
  have m: "GINTMSK r1' AND GINTSTS_DISCINT = 0" by (simp add: 1(2) and.assoc)
  have h1: "hosts ?w1 p = (hosts w p)\<lparr>device := (device (hosts w p))\<lparr>is_connected := 1\<rparr>\<rparr>" "hhcd_pData ?w1 = p"
    "outs ?w1 = outs w @ (if pUser (hosts w p) \<noteq> NULL then [User p HOST_USER_CONNECTION] else [])"
    using assms(1,4) by (simp_all add: USBH_LL_Connect_def call_user_def USBH_UserProcess_def out_def Let_def)
  let ?v = "mask_hprt p True ?w1"
  have v: "hosts ?v p = hosts ?w1 p" "hhcd_pData ?v = p" "outs ?v = outs ?w1" using h1 by (simp_all add: mask_hprt_def)
  let ?v2 = "host_idle E p ?v"
  have v2: "hosts ?v2 p = (hosts ?w1 p)\<lparr>gState := HOST_DEV_WAIT_FOR_ATTACHMENT\<rparr>" "hhcd_pData ?v2 = p" "outs ?v2 = outs ?w1 @ [Delay 200, HCD_ResetPort]"
    using v h1(1) assms(2,3,6)
    by (simp_all add: host_idle_def Let_def USBH_Delay_def USBH_LL_ResetPort_def no_hcd_def set_gstate_def out_def)
  let ?w2 = "mask_hprt p False ?v2"
  have "host_switch E ops p ?v = Some (USBH_OK, ?v2)" using v(1) h1(1) assms(4) by (simp add: host_switch_def)
  then obtain s where 2: "USBH_Process E ops p ?w1 = Some (s, ?w2)" by (simp add: USBH_Process_def)
  have w2: "hosts ?w2 p = hosts ?v2 p" "hhcd_pData ?w2 = p" "outs ?w2 = outs ?v2" "\<not> hprt_masked ?w2"
    using v2 h1(1) assms(2) by (simp_all add: mask_hprt_def)
  let ?w3 = "snd (USBH_LL_Connect p (USBH_LL_PortEnabled p ?w2))"
  obtain r2' where 3: "HAL_HCD_IRQHandler K E n ops (r2, ?w2) = Some (r2', ?w3)"
    "HFIR r2' = (if HPRT0 r2 AND HPRT_PSPD = push_bit 17 2 then 6000 else 48000)"
    using irq_port_enabled [OF assms(8) w2(4)] w2(2) by metis
  have "gst p ?w3 = HOST_DEV_ATTACHED" "is_connected (device (hosts ?w3 p)) = 1" "PortEnabled (device (hosts ?w3 p)) = 1"
    "outs ?w3 = outs ?w2"
    using w2 v2 h1(1) by (simp_all add: USBH_LL_Connect_def USBH_LL_PortEnabled_def set_gstate_def)
  with 1(1) m 2 3 w2(3) v2(3) h1(3) show ?thesis by (metis append_assoc)
qed


theorem device_attaches_witness:
  "\<exists>w'. gst 0 w' = HOST_DEV_ATTACHED \<and> outs w' = [Delay 200, HCD_ResetPort]"
proof -
  let ?w = "reset_usb\<lparr>hosts := (\<lambda>_. zero_host\<lparr>pData := 5\<rparr>)\<rparr>"
  let ?r1 = "zero_otg\<lparr>GINTSTS := 0x01000001, GINTMSK := 0x21000000, HPRT0 := 0x1003\<rparr>"
  let ?r2 = "zero_otg\<lparr>GINTSTS := 0x01000001, GINTMSK := 0x01000000, HPRT0 := 0x2100D\<rparr>"
  have "port_reports True True False False ?r1" "port_reports False True True True ?r2"
    by (simp_all add: port_reports_def raises_def USB_GetMode_def)
  from device_attaches [where w = ?w and p = 0 and E = id, OF _ _ _ _ _ _ this]
  show ?thesis by (simp add: reset_usb_def zero_host_def) blast
qed


section \<open>Pulling out\<close>

text \<open>What the library calls when a device is gone.\<close>

lemma outs_parts [simp]:
  "outs (free_control_pipes p w) = outs w" "outs (set_gstate p st w) = outs w"
  "outs (snd (USBH_LL_Stop p w)) = outs w @ (if no_hcd p w then [] else [HCD_Stop])"
  "outs (snd (USBH_LL_Start p w)) = outs w @ (if no_hcd p w then [] else [HCD_Start])"
  by (simp_all add: free_control_pipes_def USBH_FreePipe_def set_gstate_def USBH_LL_Stop_def USBH_LL_Start_def out_def Let_def)

lemma hosts_parts [simp]:
  "hosts (free_control_pipes p w) = hosts w" "hosts (snd (USBH_LL_Stop p w)) = hosts w" "hosts (snd (USBH_LL_Start p w)) = hosts w"
  "hosts (call_user p e w) = hosts w"
  by (simp_all add: free_control_pipes_def USBH_FreePipe_def USBH_LL_Stop_def USBH_LL_Start_def call_user_def USBH_UserProcess_def
      Let_def split: HOST_USER.split)

lemma outs_told: "\<exists>xs. outs (call_user p HOST_USER_DISCONNECTION w) = outs w @ xs \<and> set xs \<subseteq> {User p HOST_USER_DISCONNECTION, App_Stop p}"
  by (simp add: call_user_def USBH_UserProcess_def out_def)

lemma outs_disconnect:
  assumes "\<And>v. outs (E v) = outs v"
  shows "\<exists>xs ys. outs (snd (USBH_LL_Disconnect E p w)) = outs w @ xs @ [Delay 1] @ ys
    \<and> set xs \<subseteq> {User p HOST_USER_DISCONNECTION, App_Stop p} \<and> set ys \<subseteq> {HCD_Stop, HCD_Start}"
proof -
  let ?w1 = "upd_dev p (\<lambda>d. d\<lparr>is_connected := 0\<rparr>) w"
  let ?w2 = "if pUser (hosts ?w1 p) \<noteq> NULL then call_user p HOST_USER_DISCONNECTION ?w1 else ?w1"
  let ?w3 = "E (out (Delay 1) ?w2)"
  have o1: "outs ?w1 = outs w" by simp
  obtain xs where "outs (call_user p HOST_USER_DISCONNECTION ?w1) = outs ?w1 @ xs"
    "set xs \<subseteq> {User p HOST_USER_DISCONNECTION, App_Stop p}" using outs_told by blast
  with o1 obtain zs where zs: "outs ?w2 = outs w @ zs" "set zs \<subseteq> {User p HOST_USER_DISCONNECTION, App_Stop p}"
    by (cases "pUser (hosts ?w1 p) = NULL") (auto intro: that [of "[]"])
  have "outs ?w3 = outs ?w2 @ [Delay 1]" by (simp only: assms out_def) simp
  moreover have "outs (snd (USBH_LL_Disconnect E p w)) = outs ?w3 @ (if no_hcd p ?w3 then [] else [HCD_Stop])
      @ (if no_hcd p (free_control_pipes p (snd (USBH_LL_Stop p ?w3))) then [] else [HCD_Start])"
    by (simp only: USBH_LL_Disconnect_def USBH_Delay_def Let_def snd_conv osMessagePut_frame outs_parts append_assoc)
  ultimately have "outs (snd (USBH_LL_Disconnect E p w)) = outs w @ zs @ [Delay 1] @ (if no_hcd p ?w3 then [] else [HCD_Stop])
      @ (if no_hcd p (free_control_pipes p (snd (USBH_LL_Stop p ?w3))) then [] else [HCD_Start])"
    by (simp only: zs(1) append_assoc)
  with zs(2) show ?thesis by (intro exI conjI) (assumption, simp, auto)
qed

lemma root_disconnect:
  assumes "pData (hosts w p) \<noteq> NULL" "is_child (hosts w p) = 0" "\<And>v. hosts (E v) p = hosts v p \<and> outs (E v) = outs v"
  defines "w' \<equiv> snd (USBH_LL_Disconnect E p w)"
  shows "gst p w' = HOST_DEV_DISCONNECTED" "is_connected (device (hosts w' p)) = 0"
    and "\<exists>xs. outs w' = xs @ [Delay 1, HCD_Stop, HCD_Start]"
proof -
  let ?w1 = "upd_dev p (\<lambda>d. d\<lparr>is_connected := 0\<rparr>) w"
  define w2 where "w2 = (if pUser (hosts ?w1 p) \<noteq> NULL then call_user p HOST_USER_DISCONNECTION ?w1 else ?w1)"
  have h2: "hosts w2 p = (hosts w p)\<lparr>device := (device (hosts w p))\<lparr>is_connected := 0\<rparr>\<rparr>" by (simp add: w2_def)
  define w3 where "w3 = E (out (Delay 1) w2)"
  have h3: "hosts w3 p = hosts w2 p" "outs w3 = outs w2 @ [Delay 1]" using assms(3) by (simp_all add: w3_def out_def)
  have n: "\<not> no_hcd p v" if "hosts v p = hosts w2 p" for v using that assms(1,2) h2 by (simp add: no_hcd_def)
  have w': "w' = osMessagePut USBH_PORT_EVENT (set_gstate p HOST_DEV_DISCONNECTED
      (snd (USBH_LL_Start p (free_control_pipes p (snd (USBH_LL_Stop p w3))))))"
    by (simp only: w'_def USBH_LL_Disconnect_def USBH_Delay_def Let_def snd_conv w2_def w3_def)
  show "gst p w' = HOST_DEV_DISCONNECTED" "is_connected (device (hosts w' p)) = 0"
    by (simp_all add: w' set_gstate_def h3(1) h2)
  have "outs w' = outs w2 @ [Delay 1, HCD_Stop, HCD_Start]"
    by (simp add: w' h3 n)
  then show "\<exists>xs. outs w' = xs @ [Delay 1, HCD_Stop, HCD_Start]" by blast
qed

text \<open>A core that raises no interrupt while the driver polls a register.\<close>

locale otg_quiet = otg_core +
  assumes step_quiet: "GINTSTS (hw_step K r) = GINTSTS r" "GINTMSK (hw_step K r) = GINTMSK r"

interpretation rc_w1: otg_quiet rc_w1
  by unfold_locales (simp_all add: rc_w1_def)

definition fewer :: "otg \<Rightarrow> otg \<Rightarrow> bool" where
  "fewer r r' \<longleftrightarrow> GINTSTS r' AND NOT (GINTSTS r) = 0 \<and> GINTMSK r' = GINTMSK r"

lemma fewer_same: "GINTSTS r' = GINTSTS r \<Longrightarrow> GINTMSK r' = GINTMSK r \<Longrightarrow> fewer r r'"
  by (simp add: fewer_def)

lemma subset_word: "c AND NOT b = 0 \<longleftrightarrow> c AND b = (c :: u32)"
proof
  show "c AND NOT b = 0 \<Longrightarrow> c AND b = c" using and_not_disjoint [of c "NOT b"] by simp
  assume "c AND b = c"
  then have "c AND NOT b = (c AND b) AND NOT b" by simp
  then show "c AND NOT b = 0" by (simp add: and.assoc)
qed

lemma fewer_trans:
  assumes "fewer x y" "fewer y z"
  shows "fewer x z"
proof -
  have f: "GINTSTS y AND GINTSTS x = GINTSTS y" "GINTSTS z AND GINTSTS y = GINTSTS z"
    using assms by (simp_all add: fewer_def subset_word)
  have "GINTSTS z AND GINTSTS x = GINTSTS z AND (GINTSTS y AND GINTSTS x)" by (simp only: f(2) and.assoc [symmetric])
  with f assms show ?thesis by (simp add: fewer_def subset_word)
qed

lemma fewer_zero:
  assumes "fewer r r'" "(GINTSTS r AND GINTMSK r) AND m = 0"
  shows "(GINTSTS r' AND GINTMSK r') AND m = 0"
proof -
  have f: "GINTSTS r' AND GINTSTS r = GINTSTS r'" "GINTMSK r' = GINTMSK r" using assms(1) by (simp_all add: fewer_def subset_word)
  have "(GINTSTS r' AND GINTMSK r') AND m = ((GINTSTS r' AND GINTSTS r) AND GINTMSK r) AND m" by (simp only: f)
  also have "\<dots> = GINTSTS r' AND ((GINTSTS r AND GINTMSK r) AND m)" by (simp only: and.assoc)
  finally show ?thesis using assms(2) by simp
qed

lemma fewer_chan [simp]: "fewer r (upd_chan i f r)" "fewer r (set_HCCHAR i v r)"
  by (simp_all add: fewer_def set_HCCHAR_def upd_chan_def)

lemma fewer_fold: "(\<And>i r. fewer r (f i r)) \<Longrightarrow> fewer r (fold f xs r)"
  by (induction xs arbitrary: r) (auto intro: fewer_trans simp: fewer_same)

context otg_quiet
begin

lemma fewer_step: "fewer r (hw_step K r)"
  by (simp add: fewer_same step_quiet)

lemma fewer_writes: "fewer r (set_HPRT0 K v r)" "fewer r (set_GINTSTS K v r)"
  by (simp_all add: fewer_def set_HPRT0_def set_GINTSTS_def write_clears)

lemma fewer_poll: "fewer r (snd (poll_reg (hw_step K) busy n r))"
  by (induction n arbitrary: r) (auto simp: Let_def fewer_same intro: fewer_step fewer_trans)

lemma fewer_wait: "fewer r (snd (wait_reg (hw_step K) busy n r))"
  by (induction n arbitrary: r) (auto simp: Let_def fewer_same intro: fewer_step fewer_trans)

lemma fewer_flush: "fewer r (snd (USB_FlushTxFifo K x r))" "fewer r (snd (USB_FlushRxFifo K r))"
  unfolding USB_FlushTxFifo_def USB_FlushRxFifo_def by (rule fewer_trans [OF _ fewer_wait], simp add: fewer_same)+

lemma fewer_halts: "fewer r (snd (fold (\<lambda>i. stop_halt K (of_nat i)) xs (m, r)))"
proof (induction xs arbitrary: m r)
  case (Cons i xs)
  let ?b = "stop_halt K (of_nat i) (m, r)"
  have "fewer r (snd ?b)" unfolding stop_halt_def prod.case by (rule fewer_trans [OF _ fewer_poll]) simp
  with Cons.IH [of "snd ?b" "fst ?b"] show ?case by (auto intro: fewer_trans)
qed (simp add: fewer_same)

lemma fewer_stop_start: "fewer r (snd (HAL_HCD_Stop K r))" "fewer r (snd (HAL_HCD_Start K r))"
proof -
  let ?r1 = "USB_DisableGlobalInt r"
  let ?r2 = "snd (USB_FlushRxFifo K (snd (USB_FlushTxFifo K 0x10 ?r1)))"
  let ?r3 = "fold (\<lambda>i. stop_flush (of_nat i)) [0..<16] ?r2"
  let ?r4 = "snd (fold (\<lambda>i. stop_halt K (of_nat i)) [0..<16] (1000, ?r3))"
  have "fewer r ?r1" by (simp add: fewer_same USB_DisableGlobalInt_def)
  also have "fewer ?r1 ?r2" using fewer_flush fewer_trans by blast
  finally (fewer_trans) have "fewer r ?r2" .
  also have "fewer ?r2 ?r3" by (rule fewer_fold) (simp add: stop_flush_def)
  finally (fewer_trans) have "fewer r ?r3" .
  also have "fewer ?r3 ?r4" by (rule fewer_halts)
  finally (fewer_trans) have "fewer r ?r4" .
  also have "fewer ?r4 (USB_EnableGlobalInt (set_GINTSTS K 0xFFFFFFFF ?r4))"
    by (rule fewer_trans [OF fewer_writes(2) fewer_same]) (simp_all add: USB_EnableGlobalInt_def)
  finally (fewer_trans) show "fewer r (snd (HAL_HCD_Stop K r))"
    by (simp add: HAL_HCD_Stop_def USB_StopHost_def Let_def case_prod_unfold)
  have "fewer r (USB_EnableGlobalInt r)" by (simp add: fewer_same USB_EnableGlobalInt_def)
  also have "fewer (USB_EnableGlobalInt r) (snd (USB_DriveVbus K 1 (USB_EnableGlobalInt r)))"
    by (simp add: USB_DriveVbus_def Let_def fewer_writes fewer_same)
  finally (fewer_trans) show "fewer r (snd (HAL_HCD_Start K r))" by (simp add: HAL_HCD_Start_def)
qed

text \<open>The disconnection, as the core and the library see it.\<close>

lemma fewer_perform: "x \<in> {User p e, App_Stop q, Delay k, HCD_Stop, HCD_Start} \<Longrightarrow> fewer r (perform K f w x r)"
  by (auto simp: perform_def fewer_stop_start fewer_step fewer_same)

lemma fewer_performs: "set xs \<subseteq> {User p e, App_Stop q, Delay k, HCD_Stop, HCD_Start} \<Longrightarrow> fewer r (fold (perform K f w) xs r)"
proof (induction xs arbitrary: r)
  case (Cons x xs)
  from Cons.prems have "fewer r (perform K f w x r)" by (intro fewer_perform [where p = p and e = e and q = q and k = k]) simp
  from fewer_trans [OF this Cons.IH] Cons.prems show ?case by simp
qed (simp add: fewer_same)

lemma irq_disconnects:
  assumes "raises GINTSTS_DISCINT r" "\<And>v. outs (E v) = outs v"
  shows "\<exists>r'. HAL_HCD_IRQHandler K E n ops (r, w) = Some (r', snd (USBH_LL_Disconnect E (hhcd_pData w) w)) \<and> fewer r r'"
proof -
  let ?p = "hhcd_pData w" and ?w = "snd (USBH_LL_Disconnect E (hhcd_pData w) w)"
  obtain xs where xs: "outs ?w = outs w @ xs" "set xs \<subseteq> {User ?p HOST_USER_DISCONNECTION, App_Stop ?p, Delay 1, HCD_Stop, HCD_Start}"
  proof -
    obtain ys zs where "outs ?w = outs w @ ys @ [Delay 1] @ zs" "set ys \<subseteq> {User ?p HOST_USER_DISCONNECTION, App_Stop ?p}"
      "set zs \<subseteq> {HCD_Stop, HCD_Start}" using outs_disconnect [OF assms(2)] by blast
    then show thesis by (intro that [of "ys @ [Delay 1] @ zs"]) auto
  qed
  let ?r1 = "set_HPRT0 K (hprt_clean (HPRT0 r)) r"
  let ?r2 = "fold (perform K (\<lambda>_. []) ?w) xs ?r1"
  let ?r3 = "set_GINTSTS K GINTSTS_DISCINT (USB_InitFSLSPClkSel 1 ?r2)"
  have d: "irq_disconnected K E (r, w) = (?r3, ?w)"
    by (simp add: irq_disconnected_def on_regs_def HAL_HCD_Disconnect_Callback_def performed_def xs(1) clear_flag_def Let_def)
  have "fewer r ?r1" by (rule fewer_writes)
  also have "fewer ?r1 ?r2" using xs(2) by (rule fewer_performs)
  finally (fewer_trans) have "fewer r ?r2" .
  also have "fewer ?r2 (USB_InitFSLSPClkSel 1 ?r2)" by (simp add: USB_InitFSLSPClkSel_def fewer_same)
  finally (fewer_trans) have "fewer r (USB_InitFSLSPClkSel 1 ?r2)" .
  also have "fewer (USB_InitFSLSPClkSel 1 ?r2) ?r3" by (rule fewer_writes)
  finally (fewer_trans) have f: "fewer r ?r3" .
  have p: "GINTSTS r AND GINTMSK r = GINTSTS_DISCINT" using assms(1) by (simp add: raises_def)
  have "(GINTSTS ?r3 AND GINTMSK ?r3) AND GINTSTS_HPRTINT = 0" "calm ?r3"
    using fewer_zero [OF f, of GINTSTS_HPRTINT] fewer_zero [OF f, of later_flags] by (simp_all add: p calm_def)
  then have n: "\<not> get_flag GINTSTS_HPRTINT (?r3, ?w)" "\<not> get_flag GINTSTS_SOF (?r3, ?w)" "\<not> get_flag GINTSTS_HCINT (?r3, ?w)"
    "\<not> get_flag GINTSTS_RXFLVL (?r3, ?w)"
    using no_flag [of ?r3 GINTSTS_HPRTINT ?w] calm_flags [of ?r3 ?w] by simp_all
  have "USB_ReadInterrupts (r, w) = GINTSTS_DISCINT" using raises_pending [OF assms(1)] by simp
  then have a: "\<And>m. m \<in> {GINTSTS_INCOMPISOOUT, GINTSTS_IISOIXFR, GINTSTS_PTXFE, GINTSTS_MMIS} \<Longrightarrow> ack_flag K m (r, w) = (r, w)"
    and g: "get_flag GINTSTS_DISCINT (r, w)" "USB_ReadInterrupts (r, w) \<noteq> 0" by (auto simp: ack_flag_def get_flag_def)
  have "HAL_HCD_IRQHandler K E n ops (r, w) = Some (?r3, ?w)"
    using assms(1) by (simp add: HAL_HCD_IRQHandler_def raises_def a g d n Let_def)
  with f show ?thesis by blast
qed

end

text \<open>
  C8: A device is pulled out of the root port while the interrupt for a disconnection is masked. The first
  interrupt, for the port, only clears \<open>PortEnabled\<close> and unmasks the other one: the library still takes the
  device for connected and keeps its state. The second tells the library, which stops and restarts the
  controller, releases the pipes of the control endpoint and waits for \<open>USBH_Process\<close> to clean up.
\<close>

theorem unplug_in_two_interrupts:
  assumes "otg_quiet K" and "hhcd_pData w = p" "pData (hosts w p) \<noteq> NULL" "is_child (hosts w p) = 0" "\<not> hprt_masked w"
    and "\<And>v. hosts (E v) p = hosts v p \<and> outs (E v) = outs v"
    and "port_reports False conn True False r1" "raises GINTSTS_DISCINT r2"
  shows "\<exists>r1' w1 r2' w2. HAL_HCD_IRQHandler K E n ops (r1, w) = Some (r1', w1)
    \<and> GINTMSK r1' AND GINTSTS_DISCINT = GINTSTS_DISCINT
    \<and> hosts w1 p = (hosts w p)\<lparr>device := (device (hosts w p))\<lparr>PortEnabled := 0\<rparr>\<rparr> \<and> outs w1 = outs w
    \<and> HAL_HCD_IRQHandler K E n ops (r2, w1) = Some (r2', w2)
    \<and> gst p w2 = HOST_DEV_DISCONNECTED \<and> is_connected (device (hosts w2 p)) = 0
    \<and> (\<exists>xs. outs w2 = xs @ [Delay 1, HCD_Stop, HCD_Start])"
proof -
  let ?w1 = "USBH_LL_PortDisabled p w" and ?w2 = "snd (USBH_LL_Disconnect E p (USBH_LL_PortDisabled p w))"
  obtain r1' where 1: "HAL_HCD_IRQHandler K E n ops (r1, w) = Some (r1', ?w1)" "GINTMSK r1' = GINTMSK r1 OR GINTSTS_DISCINT"
    using irq_port_disabled [OF assms(7,5)] assms(2) by metis
  have m: "GINTMSK r1' AND GINTSTS_DISCINT = GINTSTS_DISCINT" by (simp add: 1(2) bit.conj_disj_distrib2 and.commute or.commute)
  have w1: "hosts ?w1 p = (hosts w p)\<lparr>device := (device (hosts w p))\<lparr>PortEnabled := 0\<rparr>\<rparr>" "outs ?w1 = outs w" "hhcd_pData ?w1 = p"
    using assms(2) by (simp_all add: USBH_LL_PortDisabled_def)
  obtain r2' where 2: "HAL_HCD_IRQHandler K E n ops (r2, ?w1) = Some (r2', ?w2)"
    using otg_quiet.irq_disconnects [OF assms(1,8), of E n ops ?w1] assms(6) w1(3) by auto
  have "pData (hosts ?w1 p) \<noteq> NULL" "is_child (hosts ?w1 p) = 0" using assms(3,4) w1(1) by simp_all
  note d = root_disconnect [where E = E, OF this assms(6)]
  from 1(1) 2 m w1(1,2) d show ?thesis by blast
qed

theorem unplug_in_two_interrupts_witness:
  "\<exists>w'. gst 0 w' = HOST_DEV_DISCONNECTED \<and> (\<exists>xs. outs w' = xs @ [Delay 1, HCD_Stop, HCD_Start])"
proof -
  let ?w = "reset_usb\<lparr>hosts := (\<lambda>_. zero_host\<lparr>pData := 5, gState := HOST_CLASS\<rparr>)\<rparr>"
  let ?r1 = "zero_otg\<lparr>GINTSTS := 0x21000001, GINTMSK := 0x01000000, HPRT0 := 0x1008\<rparr>"
  let ?r2 = "zero_otg\<lparr>GINTSTS := 0x20000001, GINTMSK := 0x21000000, HPRT0 := 0x1000\<rparr>"
  have "port_reports False False True False ?r1" "raises GINTSTS_DISCINT ?r2"
    by (simp_all add: port_reports_def raises_def USB_GetMode_def)
  from unplug_in_two_interrupts [where w = ?w and p = 0 and E = id, OF rc_w1.otg_quiet_axioms _ _ _ _ _ this]
  show ?thesis by (simp add: reset_usb_def zero_host_def) blast
qed

section \<open>The empty FIFO\<close>

lemma submitted_out:
  assumes "unat ch < length (hc w)" "c = hc_get (HAL_HCD_HC_SubmitRequest ch 0 t tok b len ping w) ch"
  shows "hc_ch_num c = ch" "hc_ep_is_in c = 0" "hc_ep_type c = t" "hc_xfer_len c = ucast len" "hc_max_packet c = hc_max_packet (hc_get w ch)"
  using assms(1) by (simp_all add: assms(2) HAL_HCD_HC_SubmitRequest_def Let_def submit_pid_def toggle_pid_def)

lemma irq_fifo_empty:
  assumes "raises GINTSTS_NPTXFE r"
  shows "HAL_HCD_IRQHandler K E n ops (r, w) = Some (r, w)"
proof -
  have "USB_ReadInterrupts (r, w) = GINTSTS_NPTXFE" using raises_pending [OF assms] by simp
  then show ?thesis using assms by (simp add: HAL_HCD_IRQHandler_def raises_def ack_flag_def get_flag_def Let_def)
qed

lemma no_room:
  assumes "t = USBH_EP_CONTROL \<or> t = USBH_EP_BULK" "hc_ep_type c = t" "unat (HNPTXSTS r AND 0xFFFF) < (unat len + 3) div 4" "unat len < 65536"
  shows "xfer_room c len r = r\<lparr>GINTMSK := GINTMSK r OR GINTSTS_NPTXFE\<rparr>"
proof -
  have "unat (len + 3) = unat len + 3" using assms(4) by (subst unat_add_lem [THEN iffD1]) simp_all
  then have "unat (ucast ((len + 3) div 4) :: u16) = (unat len + 3) div 4"
    using assms(4) by (simp add: unsigned_ucast_eq take_bit_nat_eq_self unat_div)
  then have "(ucast (ucast ((len + 3) div 4) :: u16) :: u32) > HNPTXSTS r AND 0xFFFF"
    using assms(3) by (simp add: word_less_nat_alt unat_up)
  with assms(1,2) show ?thesis by (auto simp: xfer_room_def Let_def)
qed

text \<open>
  C38: An OUT packet for which the transmit FIFO has too little room. The driver unmasks the interrupt for the
  empty FIFO, to go on from there, and writes the whole packet all the same. When the interrupt comes, its
  handler does nothing: no flag is cleared and nothing is masked, so it is raised again at once.
\<close>

theorem full_fifo_unhandled:
  assumes "unat ch < length (hc w)" "unat ch < length (HC r)" "t = USBH_EP_CONTROL \<or> t = USBH_EP_BULK"
    and "0 < unat len" "unat len \<le> 256 * unat (hc_max_packet (hc_get w ch))" "length src = unat len"
    and "unat (HNPTXSTS r AND 0xFFFF) < length (words_of src)"
  shows "let c = hc_get (HAL_HCD_HC_SubmitRequest ch 0 t tok b len ping w) ch; r' = snd (USB_HC_StartXfer src c r)
         in GINTMSK r' = GINTMSK r OR GINTSTS_NPTXFE \<and> tx_fifo r' = tx_fifo r @ map (Pair ch) (words_of src)
          \<and> (\<forall>r2 w2. raises GINTSTS_NPTXFE r2 \<longrightarrow> HAL_HCD_IRQHandler K E n ops (r2, w2) = Some (r2, w2))"
proof -
  define c where "c = hc_get (HAL_HCD_HC_SubmitRequest ch 0 t tok b len ping w) ch"
  note s = submitted_out [OF assms(1) c_def]
  obtain k l where p: "xfer_packets c = (k, l)" by (cases "xfer_packets c")
  have "0 < hc_max_packet c" using assms(4,5) s(5) by (simp add: word_less_nat_alt)
  moreover have n: "unat (hc_xfer_len c) = unat len" "unat len < 65536" using s(4) u16_bound by (simp_all add: unat_up)
  ultimately have l: "unat l = unat len" using xfer_packets_unat(2) [OF p] assms(5) s(2,5) by simp
  have l0: "l > 0" "unat (ucast l :: u16) = length src"
    using l n(2) assms(4,6) by (simp_all add: word_less_nat_alt unsigned_ucast_eq take_bit_nat_eq_self)
  let ?r1 = "set_HCCHAR ch (xfer_char c (set_HCTSIZ ch (xfer_size c) r)) (set_HCTSIZ ch (xfer_size c) r)"
  have r1: "HNPTXSTS ?r1 = HNPTXSTS r" "GINTMSK ?r1 = GINTMSK r" "tx_fifo ?r1 = tx_fifo r"
    by (simp_all add: set_HCCHAR_def set_HCTSIZ_def upd_chan_def)
  have w: "length (words_of src) = (unat l + 3) div 4" using l assms(6) by (simp add: words_of_def count32b_def)
  have room: "xfer_room (c\<lparr>hc_xfer_len := l\<rparr>) l ?r1 = ?r1\<lparr>GINTMSK := GINTMSK r OR GINTSTS_NPTXFE\<rparr>"
    using no_room [OF assms(3), of "c\<lparr>hc_xfer_len := l\<rparr>" ?r1 l] s(3) assms(7) w n l r1 by simp
  have "snd (USB_HC_StartXfer src c r) = snd (USB_WritePacket src ch (ucast l) (xfer_room (c\<lparr>hc_xfer_len := l\<rparr>) l ?r1))"
    using l0(1) s(1,2) by (simp add: USB_HC_StartXfer_def p Let_def)
  also have "\<dots> = ?r1\<lparr>GINTMSK := GINTMSK r OR GINTSTS_NPTXFE, tx_fifo := tx_fifo r @ map (Pair ch) (words_of src)\<rparr>"
    using USB_WritePacket_words [of src "ucast l"] l0(2) r1 by (simp add: room)
  finally show ?thesis unfolding Let_def c_def [symmetric] using irq_fifo_empty by simp
qed

theorem full_fifo_unhandled_witness:
  "let w = HAL_HCD_HC_Init 2 0x01 5 USBH_SPEED_FULL USBH_EP_BULK 64 reset_usb;
       c = hc_get (HAL_HCD_HC_SubmitRequest 2 0 USBH_EP_BULK USBH_PID_DATA (BMem 5 0) 100 0 w) 2
   in length (tx_fifo (snd (USB_HC_StartXfer (replicate 100 7) c (zero_otg\<lparr>HNPTXSTS := 0x00080010\<rparr>)))) = 25"
proof -
  let ?w = "HAL_HCD_HC_Init 2 0x01 5 USBH_SPEED_FULL USBH_EP_BULK 64 reset_usb" and ?r = "zero_otg\<lparr>HNPTXSTS := 0x00080010\<rparr>"
  have "unat (2 :: u8) < length (hc ?w)" "unat (2 :: u8) < length (HC ?r)" "USBH_EP_BULK = USBH_EP_CONTROL \<or> USBH_EP_BULK = USBH_EP_BULK"
    "0 < unat (100 :: u16)" "unat (100 :: u16) \<le> 256 * unat (hc_max_packet (hc_get ?w 2))" "length (replicate 100 (7 :: u8)) = unat (100 :: u16)"
    "unat (HNPTXSTS ?r AND 0xFFFF) < length (words_of (replicate 100 7))"
    by (simp_all add: HAL_HCD_HC_Init_def reset_usb_def zero_otg_def words_of_def)
  from full_fifo_unhandled [OF this, of USBH_PID_DATA "BMem 5 0" 0 rc_w1 id 1 quiet_ops] show ?thesis
    by (simp add: Let_def words_of_def zero_otg_def)
qed

end
