(* ===== verification/Board_Iic.thy ===== *)
theory Board_Iic
  imports Prelude
begin

text \<open>
  The two-wire bus of the board in software (Hardware/IIC/myiic.c) and the port expander on it
  (Hardware/PCF8574/pcf8574.c), whose pins switch the power of the USB port, the Ethernet chip's reset and
  other things.

  The state is the two pins of the processor and the history of the two lines, newest first. The devices on
  the bus are an argument \<open>T\<close>: whether one of them pulls the data line low after a history. The data line is
  low when the processor or a device pulls it; nobody but the processor drives the clock. The delays are left
  out, and so is the set-up of the pins.
\<close>

section \<open>The lines\<close>

type_synonym lines = "(bool \<times> bool) list"

record iic =
  scl_pin :: bool
  sda_pin :: bool
  sda_out :: bool
  trace :: lines

definition sample :: "(lines \<Rightarrow> bool) \<Rightarrow> iic \<Rightarrow> iic" where
  "sample T s = s\<lparr>trace := (scl_pin s, (sda_out s \<longrightarrow> sda_pin s) \<and> \<not> T (trace s)) # trace s\<rparr>"

definition IIC_SCL :: "(lines \<Rightarrow> bool) \<Rightarrow> bool \<Rightarrow> iic \<Rightarrow> iic" where
  "IIC_SCL T n s = sample T (s\<lparr>scl_pin := n\<rparr>)"

definition IIC_SDA :: "(lines \<Rightarrow> bool) \<Rightarrow> bool \<Rightarrow> iic \<Rightarrow> iic" where
  "IIC_SDA T n s = sample T (s\<lparr>sda_pin := n\<rparr>)"

definition SDA_IN :: "(lines \<Rightarrow> bool) \<Rightarrow> iic \<Rightarrow> iic" where
  "SDA_IN T s = sample T (s\<lparr>sda_out := False\<rparr>)"

text \<open>The mode bits are cleared, which makes the pin an input, before the new ones are set.\<close>

definition SDA_OUT :: "(lines \<Rightarrow> bool) \<Rightarrow> iic \<Rightarrow> iic" where
  "SDA_OUT T s = sample T ((SDA_IN T s)\<lparr>sda_out := True\<rparr>)"

definition READ_SDA :: "(lines \<Rightarrow> bool) \<Rightarrow> iic \<Rightarrow> bool \<times> iic" where
  "READ_SDA T s = (let s = sample T s in (snd (hd (trace s)), s))"

section \<open>myiic.c\<close>

definition IIC_Start :: "(lines \<Rightarrow> bool) \<Rightarrow> iic \<Rightarrow> iic" where
  "IIC_Start T s =
    (let s = SDA_OUT T s; s = IIC_SDA T True s; s = IIC_SCL T True s; s = IIC_SDA T False s
     in IIC_SCL T False s)"

definition IIC_Stop :: "(lines \<Rightarrow> bool) \<Rightarrow> iic \<Rightarrow> iic" where
  "IIC_Stop T s =
    (let s = SDA_OUT T s; s = IIC_SCL T False s; s = IIC_SDA T False s; s = IIC_SCL T True s
     in IIC_SDA T True s)"

text \<open>\<open>while (READ_SDA)\<close> with its counter: the line is read at most \<open>n\<close> times.\<close>

primrec ack_loop :: "(lines \<Rightarrow> bool) \<Rightarrow> nat \<Rightarrow> iic \<Rightarrow> u8 \<times> iic" where
  "ack_loop T 0 s = (1, IIC_Stop T s)"
| "ack_loop T (Suc n) s =
    (let (v, s) = READ_SDA T s in if v then ack_loop T n s else (0, IIC_SCL T False s))"

definition IIC_Wait_Ack :: "(lines \<Rightarrow> bool) \<Rightarrow> iic \<Rightarrow> u8 \<times> iic" where
  "IIC_Wait_Ack T s =
    (let s = SDA_IN T s; s = IIC_SDA T True s; s = IIC_SCL T True s in ack_loop T 251 s)"

definition IIC_Ack :: "(lines \<Rightarrow> bool) \<Rightarrow> iic \<Rightarrow> iic" where
  "IIC_Ack T s =
    (let s = IIC_SCL T False s; s = SDA_OUT T s; s = IIC_SDA T False s; s = IIC_SCL T True s
     in IIC_SCL T False s)"

definition IIC_NAck :: "(lines \<Rightarrow> bool) \<Rightarrow> iic \<Rightarrow> iic" where
  "IIC_NAck T s =
    (let s = IIC_SCL T False s; s = SDA_OUT T s; s = IIC_SDA T True s; s = IIC_SCL T True s
     in IIC_SCL T False s)"

primrec send_bits :: "(lines \<Rightarrow> bool) \<Rightarrow> nat \<Rightarrow> u8 \<Rightarrow> iic \<Rightarrow> iic" where
  "send_bits T 0 txd s = s"
| "send_bits T (Suc n) txd s =
    (let s = IIC_SDA T (drop_bit 7 (txd AND 0x80) \<noteq> 0) s; s = IIC_SCL T True s; s = IIC_SCL T False s
     in send_bits T n (push_bit 1 txd) s)"

definition IIC_Send_Byte :: "(lines \<Rightarrow> bool) \<Rightarrow> u8 \<Rightarrow> iic \<Rightarrow> iic" where
  "IIC_Send_Byte T txd s = (let s = SDA_OUT T s; s = IIC_SCL T False s in send_bits T 8 txd s)"

primrec read_bits :: "(lines \<Rightarrow> bool) \<Rightarrow> nat \<Rightarrow> u8 \<Rightarrow> iic \<Rightarrow> u8 \<times> iic" where
  "read_bits T 0 receive s = (receive, s)"
| "read_bits T (Suc n) receive s =
    (let s = IIC_SCL T False s; s = IIC_SCL T True s; receive = push_bit 1 receive;
         (v, s) = READ_SDA T s
     in read_bits T n (if v then receive + 1 else receive) s)"

definition IIC_Read_Byte :: "(lines \<Rightarrow> bool) \<Rightarrow> u8 \<Rightarrow> iic \<Rightarrow> u8 \<times> iic" where
  "IIC_Read_Byte T ack s =
    (let s = SDA_IN T s; (receive, s) = read_bits T 8 0 s
     in (receive, if ack = 0 then IIC_NAck T s else IIC_Ack T s))"

section \<open>pcf8574.c\<close>

abbreviation (input) PCF8574_ADDR :: u8 where "PCF8574_ADDR \<equiv> 0x40"

text \<open>The answers of the device are not looked at, except by \<open>PCF8574_Init\<close>.\<close>

definition PCF8574_ReadOneByte :: "(lines \<Rightarrow> bool) \<Rightarrow> iic \<Rightarrow> u8 \<times> iic" where
  "PCF8574_ReadOneByte T s =
    (let s = IIC_Start T s;
         s = IIC_Send_Byte T (PCF8574_ADDR OR 1) s;
         s = snd (IIC_Wait_Ack T s);
         (temp, s) = IIC_Read_Byte T 0 s
     in (temp, IIC_Stop T s))"

definition PCF8574_WriteOneByte :: "(lines \<Rightarrow> bool) \<Rightarrow> u8 \<Rightarrow> iic \<Rightarrow> iic" where
  "PCF8574_WriteOneByte T DataToWrite s =
    (let s = IIC_Start T s;
         s = IIC_Send_Byte T (PCF8574_ADDR OR 0) s;
         s = snd (IIC_Wait_Ack T s);
         s = IIC_Send_Byte T DataToWrite s;
         s = snd (IIC_Wait_Ack T s)
     in IIC_Stop T s)"

definition PCF8574_WriteBit :: "(lines \<Rightarrow> bool) \<Rightarrow> u8 \<Rightarrow> u8 \<Rightarrow> iic \<Rightarrow> iic" where
  "PCF8574_WriteBit T i sta s =
    (let (data, s) = PCF8574_ReadOneByte T s;
         data = (if sta = 0 then data AND NOT (push_bit (unat i) 1) else data OR push_bit (unat i) 1)
     in PCF8574_WriteOneByte T data s)"

definition PCF8574_ReadBit :: "(lines \<Rightarrow> bool) \<Rightarrow> u8 \<Rightarrow> iic \<Rightarrow> u8 \<times> iic" where
  "PCF8574_ReadBit T i s =
    (let (data, s) = PCF8574_ReadOneByte T s
     in (if data AND push_bit (unat i) 1 \<noteq> 0 then 1 else 0, s))"

text \<open>The pins have just been set up: both are outputs and high.\<close>

definition IIC_Init :: "(lines \<Rightarrow> bool) \<Rightarrow> iic \<Rightarrow> iic" where
  "IIC_Init T s = IIC_SCL T True (IIC_SDA T True (s\<lparr>sda_out := True\<rparr>))"

definition PCF8574_Init :: "(lines \<Rightarrow> bool) \<Rightarrow> iic \<Rightarrow> u8 \<times> iic" where
  "PCF8574_Init T s =
    (let s = IIC_Init T s;
         s = IIC_Start T s;
         s = IIC_Send_Byte T PCF8574_ADDR s;
         (temp, s) = IIC_Wait_Ack T s;
         s = IIC_Stop T s
     in (temp, PCF8574_WriteOneByte T 0xFF s))"

end
