(* ===== verification/Board_Iic_Props.thy ===== *)
theory Board_Iic_Props
  imports Board_Iic
begin

text \<open>
  What is on the two wires: the frames an observer of the bus sees, the contract of a device that answers in
  them, and the operations of the port expander in terms of frames.
\<close>

section \<open>Frames on the bus\<close>

text \<open>
  The observer. A frame begins when the data line falls and ends when it rises while the clock is high; a bit
  is what the data line shows when the clock rises. \<open>b_seen\<close> are the bits that were complete when the clock
  last fell: all that a target may go by, as it changes the data line only after that. \<open>b_log\<close> are the frames
  that have ended, without the bit that belongs to the end.
\<close>

record i2c_bus =
  b_scl :: bool
  b_sda :: bool
  b_bits :: "bool list option"
  b_seen :: "bool list option"
  b_log :: "bool list list"

definition bus_event :: "bool \<Rightarrow> bool \<Rightarrow> i2c_bus \<Rightarrow> i2c_bus" where
  "bus_event c d b =
    (if b_scl b \<and> c then
       (if b_sda b \<and> \<not> d then b\<lparr>b_bits := Some [], b_seen := None\<rparr>
        else if \<not> b_sda b \<and> d then
          b\<lparr>b_bits := None, b_seen := None, b_log := b_log b @ (case b_bits b of Some bs \<Rightarrow> [butlast bs] | None \<Rightarrow> [])\<rparr>
        else b)
     else if c then b\<lparr>b_bits := map_option (\<lambda>bs. bs @ [d]) (b_bits b)\<rparr>
     else if b_scl b then b\<lparr>b_seen := b_bits b\<rparr>
     else b)"

definition bus_step :: "bool \<times> bool \<Rightarrow> i2c_bus \<Rightarrow> i2c_bus" where
  "bus_step = (\<lambda>(c, d) b. (bus_event c d b)\<lparr>b_scl := c, b_sda := d\<rparr>)"

primrec observe :: "lines \<Rightarrow> i2c_bus" where
  "observe [] = \<lparr>b_scl = True, b_sda = True, b_bits = None, b_seen = None, b_log = []\<rparr>"
| "observe (x # t) = bus_step x (observe t)"

text \<open>A device that pulls the line by the frames before and the bits it has seen of this one.\<close>

definition target :: "(bool list list \<Rightarrow> bool list \<Rightarrow> bool) \<Rightarrow> lines \<Rightarrow> bool" where
  "target pull t = (case b_seen (observe t) of Some bs \<Rightarrow> pull (b_log (observe t)) bs | None \<Rightarrow> False)"

definition bits_of :: "u8 \<Rightarrow> bool list" where
  "bits_of x = map (\<lambda>i. bit x (7 - i)) [0..<8]"

section \<open>The operations on the bus\<close>

text \<open>The processor's data pin (mode, level) and the bus; \<open>agrees\<close>: the clock line is the clock pin.\<close>

definition view :: "iic \<Rightarrow> bool \<times> bool \<times> i2c_bus" where
  "view s = (sda_out s, sda_pin s, observe (trace s))"

definition agrees :: "iic \<Rightarrow> bool" where
  "agrees s \<longleftrightarrow> scl_pin s = b_scl (observe (trace s))"

definition pulled :: "(bool list list \<Rightarrow> bool list \<Rightarrow> bool) \<Rightarrow> i2c_bus \<Rightarrow> bool" where
  "pulled pull b = (case b_seen b of Some bs \<Rightarrow> pull (b_log b) bs | None \<Rightarrow> False)"

definition put :: "(bool list list \<Rightarrow> bool list \<Rightarrow> bool) \<Rightarrow> bool \<Rightarrow> bool \<Rightarrow> bool \<Rightarrow> i2c_bus \<Rightarrow> bool \<times> bool \<times> i2c_bus" where
  "put pull out pin c b = (out, pin, bus_step (c, (out \<longrightarrow> pin) \<and> \<not> pulled pull b) b)"

lemma agrees_ops [simp]:
  "agrees (sample T s)" "agrees (IIC_SCL T n s)" "agrees (IIC_SDA T n s)" "agrees (SDA_IN T s)" "agrees (SDA_OUT T s)"
  by (simp_all add: agrees_def sample_def IIC_SCL_def IIC_SDA_def SDA_IN_def SDA_OUT_def bus_step_def)

lemma target_pulled: "target pull t = pulled pull (observe t)"
  by (simp add: target_def pulled_def)

lemma view_ops [simp]:
  "view (IIC_SCL (target pull) n s) = (case view s of (out, pin, b) \<Rightarrow> put pull out pin n b)"
  "agrees s \<Longrightarrow> view (IIC_SDA (target pull) n s) = (case view s of (out, pin, b) \<Rightarrow> put pull out n (b_scl b) b)"
  "agrees s \<Longrightarrow> view (SDA_IN (target pull) s) = (case view s of (out, pin, b) \<Rightarrow> put pull False pin (b_scl b) b)"
  "agrees s \<Longrightarrow> view (sample (target pull) s) = (case view s of (out, pin, b) \<Rightarrow> put pull out pin (b_scl b) b)"
  "agrees s \<Longrightarrow> view (SDA_OUT (target pull) s) =
     (case view s of (out, pin, b) \<Rightarrow> case put pull False pin (b_scl b) b of (_, _, b) \<Rightarrow> put pull True pin (b_scl b) b)"
  by (simp_all add: view_def agrees_def IIC_SCL_def IIC_SDA_def SDA_IN_def SDA_OUT_def sample_def put_def target_pulled
      bus_step_def)

lemma read_sda:
  "READ_SDA T s = (b_sda (observe (trace (sample T s))), sample T s)"
  by (simp add: READ_SDA_def sample_def bus_step_def)

text \<open>One entry of the history at a time, on a bus whose parts are known.\<close>

abbreviation (input) "Bus c d bits seen log \<equiv> \<lparr>b_scl = c, b_sda = d, b_bits = bits, b_seen = seen, b_log = log\<rparr>"

lemmas event_simps = put_def bus_step_def bus_event_def pulled_def

text \<open>
  The bus is free; a slot has begun: the clock is low, \<open>bs\<close> are the bits so far and the target has seen them;
  a slot is over but for the clock's fall.
\<close>

definition bus_free :: "bool list list \<Rightarrow> iic \<Rightarrow> bool" where
  "bus_free log s \<longleftrightarrow> agrees s \<and> (\<exists>out. view s = (out, True, Bus True True None None log))"

definition slot :: "bool \<Rightarrow> bool list list \<Rightarrow> bool list \<Rightarrow> iic \<Rightarrow> bool" where
  "slot out log bs s \<longleftrightarrow> agrees s \<and> (\<exists>pin d. view s = (out, pin, Bus False d (Some bs) (Some bs) log))"

definition high :: "bool list list \<Rightarrow> bool list \<Rightarrow> bool \<Rightarrow> iic \<Rightarrow> bool" where
  "high log bs d s \<longleftrightarrow> agrees s \<and> view s = (False, True, Bus True d (Some (bs @ [d])) (Some bs) log)"

text \<open>The clock is low, or about to be, and the processor does not pull the data line.\<close>

definition listening :: "(bool list list \<Rightarrow> bool list \<Rightarrow> bool) \<Rightarrow> bool list list \<Rightarrow> bool list \<Rightarrow> iic \<Rightarrow> bool" where
  "listening pull log bs s \<longleftrightarrow> agrees s \<and> fst (snd (view s)) \<and> fst (view s) = False
     \<and> (\<exists>d. view (IIC_SCL (target pull) False s) = (False, True, Bus False d (Some bs) (Some bs) log))"

text \<open>No frame is open and the clock is low: what is sent now belongs to no frame.\<close>

definition unframed :: "bool list list \<Rightarrow> iic \<Rightarrow> bool" where
  "unframed log s \<longleftrightarrow> agrees s \<and> (\<exists>out pin d. view s = (out, pin, Bus False d None None log))"

lemma start_frame: "bus_free log s \<Longrightarrow> slot True log [] (IIC_Start (target pull) s)"
  unfolding bus_free_def slot_def IIC_Start_def Let_def
  by (auto simp: event_simps)

lemma send_bit:
  assumes "slot True log bs s" "\<not> pull log bs"
  shows "slot True log (bs @ [x]) (IIC_SCL (target pull) False (IIC_SCL (target pull) True (IIC_SDA (target pull) x s)))"
  using assms unfolding slot_def
  by (auto simp: event_simps)

lemma stop_frame: "slot out log bs s \<Longrightarrow> \<not> pull log bs \<Longrightarrow> bus_free (log @ [bs]) (IIC_Stop (target pull) s)"
  unfolding bus_free_def slot_def IIC_Stop_def Let_def
  by (auto simp: event_simps)

lemma stop_free: "bus_free log s \<Longrightarrow> bus_free log (IIC_Stop (target pull) s)"
  unfolding bus_free_def IIC_Stop_def Let_def
  by (auto simp: event_simps)

subsection \<open>A byte that is sent\<close>

definition top_bits :: "nat \<Rightarrow> u8 \<Rightarrow> bool list" where
  "top_bits n x = map (\<lambda>i. bit x (7 - i)) [0..<n]"

lemma bits_of_top: "bits_of x = top_bits 8 x"
  by (simp add: bits_of_def top_bits_def)

lemma top_bits_Suc: "n \<le> 7 \<Longrightarrow> top_bits (Suc n) x = bit x 7 # top_bits n (push_bit 1 x)"
  by (auto simp: top_bits_def map_upt_Suc bit_push_bit_iff simp del: upt_Suc One_nat_def)

lemma length_bits_of [simp]: "length (bits_of x) = 8"
  by (simp add: bits_of_def)

lemma top_bit: "drop_bit 7 (x AND 0x80) \<noteq> (0 :: u8) \<longleftrightarrow> bit x 7"
proof -
  have "bit (drop_bit 7 (x AND 0x80)) n \<longleftrightarrow> n = 0 \<and> bit x 7" for n
  proof -
    have b: "bit (0x80 :: u8) k \<longleftrightarrow> k = 7" for k
      using bit_exp_iff [where 'a = "8 word", of 7 k] by auto
    show ?thesis by (simp only: bit_drop_bit_eq comp_def bit_and_iff b) auto
  qed
  then have "drop_bit 7 (x AND 0x80) = (if bit x 7 then 1 else 0)"
    by (intro bit_word_eqI) (simp add: bit_1_iff)
  then show ?thesis by simp
qed

lemma send_bits_slot:
  assumes "slot True log bs s" "n \<le> 8" "\<And>j. j < n \<Longrightarrow> \<not> pull log (bs @ take j (top_bits n x))"
  shows "slot True log (bs @ top_bits n x) (send_bits (target pull) n x s)"
  using assms
proof (induction n arbitrary: bs s x)
  case 0
  then show ?case by (simp add: top_bits_def)
next
  case (Suc n)
  have n: "n \<le> 7" using Suc.prems(2) by simp
  let ?s = "IIC_SCL (target pull) False (IIC_SCL (target pull) True (IIC_SDA (target pull) (bit x 7) s))"
  have "slot True log (bs @ [bit x 7]) ?s" using send_bit [OF Suc.prems(1)] Suc.prems(3) [of 0] by simp
  moreover have "\<not> pull log ((bs @ [bit x 7]) @ take j (top_bits n (push_bit 1 x)))" if "j < n" for j
    using Suc.prems(3) [of "Suc j"] that by (simp add: top_bits_Suc [OF n])
  ultimately have "slot True log ((bs @ [bit x 7]) @ top_bits n (push_bit 1 x)) (send_bits (target pull) n (push_bit 1 x) ?s)"
    by (rule Suc.IH [OF _ Suc_leD [OF Suc.prems(2)]])
  then show ?case unfolding send_bits.simps Let_def top_bit by (simp add: top_bits_Suc [OF n])
qed

lemma send_byte:
  assumes "slot out log bs s" "\<And>j. j < 8 \<Longrightarrow> \<not> pull log (bs @ take j (bits_of x))"
  shows "slot True log (bs @ bits_of x) (IIC_Send_Byte (target pull) x s)"
proof -
  have "slot True log bs (IIC_SCL (target pull) False (SDA_OUT (target pull) s))"
    using assms(1) unfolding slot_def by (auto simp: event_simps)
  from send_bits_slot [OF this, of 8 pull x] assms(2) show ?thesis
    by (simp add: IIC_Send_Byte_def Let_def bits_of_top)
qed

subsection \<open>Its answer\<close>

lemma acked:
  assumes "slot out log bs s" "pull log bs"
  shows "\<exists>s'. IIC_Wait_Ack (target pull) s = (0, s') \<and> slot False log (bs @ [False]) s' \<and> listening pull log (bs @ [False]) s'"
proof -
  let ?T = "target pull"
  define s1 where "s1 = IIC_SCL ?T True (IIC_SDA ?T True (SDA_IN ?T s))"
  have 1: "agrees s1" "view s1 = (False, True, Bus True False (Some (bs @ [False])) (Some bs) log)"
    using assms unfolding slot_def s1_def by (auto simp: event_simps)
  define s2 where "s2 = IIC_SCL ?T False (sample ?T s1)"
  have v: "view (sample ?T s1) = (False, True, Bus True False (Some (bs @ [False])) (Some bs) log)"
    using 1 assms(2) by (simp add: event_simps)
  then have "\<not> fst (READ_SDA ?T s1)" by (simp add: read_sda view_def)
  then have "IIC_Wait_Ack ?T s = (0, s2)"
    unfolding IIC_Wait_Ack_def Let_def s1_def [symmetric] s2_def
    by (simp add: numeral_eq_Suc read_sda del: send_bits.simps)
  moreover have "agrees s2" "\<exists>d. view s2 = (False, True, Bus False d (Some (bs @ [False])) (Some (bs @ [False])) log)"
    using v assms(2) by (auto simp: s2_def event_simps)
  ultimately show ?thesis
    by (intro exI [of _ s2]) (auto simp: slot_def listening_def event_simps)
qed

lemma silence:
  assumes "high log bs True s" "\<not> pull log bs" "\<not> pull log (bs @ [True])"
  shows "fst (ack_loop (target pull) n s) = 1 \<and> bus_free (log @ [bs @ [True]]) (snd (ack_loop (target pull) n s))"
  using assms(1)
proof (induction n arbitrary: s)
  case 0
  then have "bus_free (log @ [bs @ [True]]) (IIC_Stop (target pull) s)"
    using assms(2,3) unfolding bus_free_def high_def IIC_Stop_def Let_def by (auto simp: event_simps butlast_append)
  then show ?case by simp
next
  case (Suc n)
  have "high log bs True (sample (target pull) s)" "b_sda (observe (trace (sample (target pull) s)))"
    using Suc.prems assms(2) view_ops(4) [of s pull] unfolding high_def by (auto simp: event_simps view_def)
  with Suc.IH show ?case by (simp add: read_sda)
qed

lemma not_acked:
  assumes "slot out log bs s" "\<not> pull log bs" "\<not> pull log (bs @ [True])"
  shows "\<exists>s'. IIC_Wait_Ack (target pull) s = (1, s') \<and> bus_free (log @ [bs @ [True]]) s'"
proof -
  let ?T = "target pull"
  let ?s = "IIC_SCL ?T True (IIC_SDA ?T True (SDA_IN ?T s))"
  have "high log bs True ?s" using assms(1,2) unfolding slot_def high_def by (auto simp: event_simps)
  from silence [where n = 251 and pull = pull, OF this assms(2,3)] show ?thesis
    by (cases "ack_loop ?T 251 ?s") (simp add: IIC_Wait_Ack_def Let_def del: ack_loop.simps)
qed

subsection \<open>A byte that is read\<close>

abbreviation (input) shift_in :: "u8 \<Rightarrow> bool \<Rightarrow> u8" where
  "shift_in r v \<equiv> (if v then push_bit 1 r + 1 else push_bit 1 r)"

lemma read_bit:
  assumes "listening pull log bs s"
  shows "fst (READ_SDA (target pull) (IIC_SCL (target pull) True (IIC_SCL (target pull) False s))) = (\<not> pull log bs)"
    and "listening pull log (bs @ [\<not> pull log bs])
      (snd (READ_SDA (target pull) (IIC_SCL (target pull) True (IIC_SCL (target pull) False s))))"
proof -
  let ?T = "target pull"
  let ?s = "sample ?T (IIC_SCL ?T True (IIC_SCL ?T False s))"
  have v: "view ?s = (False, True, Bus True (\<not> pull log bs) (Some (bs @ [\<not> pull log bs])) (Some bs) log)"
    using assms unfolding listening_def by (auto simp: event_simps simp del: view_ops(1)) (auto simp: event_simps)
  then show "fst (READ_SDA ?T (IIC_SCL ?T True (IIC_SCL ?T False s))) = (\<not> pull log bs)"
    by (simp add: read_sda view_def)
  from v show "listening pull log (bs @ [\<not> pull log bs]) (snd (READ_SDA ?T (IIC_SCL ?T True (IIC_SCL ?T False s))))"
    by (auto simp: read_sda listening_def event_simps)
qed

lemma read_bits_listening:
  assumes "listening pull log bs s" "\<And>j. j < length xs \<Longrightarrow> xs ! j = (\<not> pull log (bs @ take j xs))"
  shows "fst (read_bits (target pull) (length xs) r s) = foldl shift_in r xs
    \<and> listening pull log (bs @ xs) (snd (read_bits (target pull) (length xs) r s))"
  using assms
proof (induction xs arbitrary: bs s r)
  case (Cons x xs)
  let ?r = "READ_SDA (target pull) (IIC_SCL (target pull) True (IIC_SCL (target pull) False s))"
  have x: "x = (\<not> pull log bs)" using Cons.prems(2) [of 0] by simp
  have r: "fst ?r = x" "listening pull log (bs @ [x]) (snd ?r)"
    using read_bit [OF Cons.prems(1)] unfolding x by simp_all
  have n: "xs ! j = (\<not> pull log ((bs @ [x]) @ take j xs))" if "j < length xs" for j
    using Cons.prems(2) [of "Suc j"] that by simp
  have e: "read_bits (target pull) (length (x # xs)) r s = read_bits (target pull) (length xs) (shift_in r x) (snd ?r)"
    using r(1) by (simp add: Let_def case_prod_unfold del: push_bit_Suc)
  show ?case unfolding e foldl.simps using Cons.IH [OF r(2) n, of "shift_in r x"] by simp
qed simp

lemma shift_in_top: "n \<le> 8 \<Longrightarrow> foldl shift_in 0 (top_bits n x) = drop_bit (8 - n) x"
proof (induction n)
  case 0
  have "drop_bit 8 x = 0" by (rule bit_word_eqI) (simp add: bit_drop_bit_eq)
  then show ?case by (simp add: top_bits_def)
next
  case (Suc n)
  let ?k = "7 - n"
  have k: "8 - n = Suc ?k" "8 - Suc n = ?k" using Suc.prems by simp_all
  have "drop_bit ?k x div 2 * 2 + drop_bit ?k x mod 2 = drop_bit ?k x" by (rule div_mult_mod_eq)
  moreover have "drop_bit ?k x div 2 = drop_bit (Suc ?k) x" by (simp add: drop_bit_Suc drop_bit_half)
  moreover have "drop_bit ?k x mod 2 = (if bit x ?k then 1 else 0)" by (simp add: bit_iff_odd_drop_bit odd_iff_mod_2_eq_one mod2_eq_if)
  ultimately have "shift_in (drop_bit (Suc ?k) x) (bit x ?k) = drop_bit ?k x" by (auto simp: push_bit_eq_mult)
  moreover have "top_bits (Suc n) x = top_bits n x @ [bit x ?k]" by (simp add: top_bits_def)
  ultimately show ?case using Suc by (simp only: foldl_append foldl.simps k Suc_leD)
qed

lemma bits_of_value: "foldl shift_in 0 (bits_of x) = x"
  using shift_in_top [of 8 x] by (simp add: bits_of_top)

lemma nack_slot:
  assumes "listening pull log bs s" "\<not> pull log bs"
  shows "slot True log (bs @ [True]) (IIC_NAck (target pull) s)"
  using assms unfolding listening_def slot_def IIC_NAck_def Let_def
  by (auto simp: event_simps simp del: view_ops(1)) (auto simp: event_simps)

lemma listen_again:
  assumes "slot False log bs s" "listening pull log bs s"
  shows "listening pull log bs (SDA_IN (target pull) s)"
  using assms unfolding slot_def listening_def by (auto simp: event_simps)

lemma read_byte:
  assumes "slot False log bs s" "listening pull log bs s"
    and "\<And>j. j < 8 \<Longrightarrow> bits_of x ! j = (\<not> pull log (bs @ take j (bits_of x)))" "\<not> pull log (bs @ bits_of x)"
  shows "\<exists>s'. IIC_Read_Byte (target pull) 0 s = (x, s') \<and> slot True log (bs @ bits_of x @ [True]) s'"
proof -
  let ?r = "read_bits (target pull) 8 0 (SDA_IN (target pull) s)"
  have "fst ?r = foldl shift_in 0 (bits_of x) \<and> listening pull log (bs @ bits_of x) (snd ?r)"
    using read_bits_listening [OF listen_again [OF assms(1,2)], of "bits_of x" 0] assms(3) by simp
  then have r: "fst ?r = x" "listening pull log (bs @ bits_of x) (snd ?r)" by (simp_all only: bits_of_value)
  from nack_slot [OF r(2) assms(4)] r(1) show ?thesis
    by (cases ?r) (simp add: IIC_Read_Byte_def Let_def del: read_bits.simps)
qed

subsection \<open>Outside a frame\<close>

lemma unframed_send:
  assumes "bus_free log s \<or> unframed log s"
  shows "unframed log (IIC_Send_Byte (target pull) x s)"
proof -
  have bits: "unframed log (send_bits (target pull) n x s)" if "unframed log s" for n x s
    using that
  proof (induction n arbitrary: x s)
    case (Suc n)
    have "unframed log (IIC_SCL (target pull) False (IIC_SCL (target pull) True (IIC_SDA (target pull) b s)))" for b
      using Suc.prems unfolding unframed_def by (auto simp: event_simps)
    with Suc.IH show ?case by (simp add: Let_def)
  qed simp
  have "unframed log (IIC_SCL (target pull) False (SDA_OUT (target pull) s))"
    using assms unfolding unframed_def bus_free_def by (auto simp: event_simps)
  then show ?thesis using bits by (simp add: IIC_Send_Byte_def Let_def del: send_bits.simps)
qed

lemma unframed_ack:
  assumes "unframed log s"
  shows "fst (IIC_Wait_Ack (target pull) s) = 1 \<and> bus_free log (snd (IIC_Wait_Ack (target pull) s))"
proof -
  have loop: "fst (ack_loop (target pull) n s) = 1 \<and> bus_free log (snd (ack_loop (target pull) n s))" if "bus_free log s" for n s
    using that
  proof (induction n arbitrary: s)
    case 0
    then show ?case by (simp add: stop_free)
  next
    case (Suc n)
    have "bus_free log (sample (target pull) s)" using Suc.prems unfolding bus_free_def by (auto simp: event_simps)
    moreover from this have "b_sda (observe (trace (sample (target pull) s)))" by (auto simp: bus_free_def view_def)
    ultimately show ?case using Suc.IH by (simp add: read_sda)
  qed
  have "bus_free log (IIC_SCL (target pull) True (IIC_SDA (target pull) True (SDA_IN (target pull) s)))"
    using assms unfolding unframed_def bus_free_def by (auto simp: event_simps)
  then show ?thesis using loop by (simp add: IIC_Wait_Ack_def Let_def del: ack_loop.simps)
qed

lemma unframed_read:
  assumes "bus_free log s"
  shows "\<exists>s'. IIC_Read_Byte (target pull) 0 s = (0xFF, s') \<and> unframed log s'"
proof -
  let ?T = "target pull"
  let ?quiet = "\<lambda>s. agrees s \<and> view s = (False, True, Bus True True None None log)"
  have step: "fst (READ_SDA ?T (IIC_SCL ?T True (IIC_SCL ?T False s)))" "?quiet (snd (READ_SDA ?T (IIC_SCL ?T True (IIC_SCL ?T False s))))"
    if "?quiet s" for s
  proof -
    have "?quiet (sample ?T (IIC_SCL ?T True (IIC_SCL ?T False s)))" using that by (auto simp: event_simps)
    then show "fst (READ_SDA ?T (IIC_SCL ?T True (IIC_SCL ?T False s)))" "?quiet (snd (READ_SDA ?T (IIC_SCL ?T True (IIC_SCL ?T False s))))"
      by (simp_all add: read_sda view_def)
  qed
  have loop: "fst (read_bits ?T n r s) = foldl shift_in r (replicate n True) \<and> ?quiet (snd (read_bits ?T n r s))" if "?quiet s" for n r s
    using that
  proof (induction n arbitrary: r s)
    case (Suc n)
    let ?r = "READ_SDA ?T (IIC_SCL ?T True (IIC_SCL ?T False s))"
    have e: "read_bits ?T (Suc n) r s = read_bits ?T n (shift_in r True) (snd ?r)"
      using step(1) [OF Suc.prems] by (simp add: Let_def case_prod_unfold del: push_bit_Suc)
    show ?case unfolding e replicate_Suc foldl.simps by (rule Suc.IH [OF step(2) [OF Suc.prems]])
  qed simp
  have "?quiet (SDA_IN ?T s)" using assms unfolding bus_free_def by (auto simp: event_simps)
  from loop [OF this, of 8 0] have r: "fst (read_bits ?T 8 0 (SDA_IN ?T s)) = 0xFF" "?quiet (snd (read_bits ?T 8 0 (SDA_IN ?T s)))"
    by (simp_all add: numeral_eq_Suc del: read_bits.simps)
  have "unframed log (IIC_NAck ?T (snd (read_bits ?T 8 0 (SDA_IN ?T s))))"
    using r(2) unfolding unframed_def IIC_NAck_def Let_def by (auto simp: event_simps)
  then show ?thesis using r(1)
    by (cases "read_bits ?T 8 0 (SDA_IN ?T s)") (simp add: IIC_Read_Byte_def Let_def del: read_bits.simps)
qed

lemma unframed_stop: "unframed log s \<Longrightarrow> bus_free log (IIC_Stop (target pull) s)"
  unfolding bus_free_def unframed_def IIC_Stop_def Let_def by (auto simp: event_simps)

section \<open>The port expander\<close>

definition write_frame :: "u8 \<Rightarrow> bool list" where
  "write_frame x = bits_of 0x40 @ False # bits_of x @ [False]"

definition read_frame :: "u8 \<Rightarrow> bool list" where
  "read_frame x = bits_of 0x41 @ False # bits_of x @ [True]"

text \<open>
  The contract of the PCF8574: it answers to its address, takes the byte of a write frame into the latch of its
  port and shows the levels of its pins in a read frame, highest bit first; otherwise it leaves the line alone.
  A pin is high when its latch is set and nothing outside pulls it low.
\<close>

locale pcf8574 =
  fixes pull :: "bool list list \<Rightarrow> bool list \<Rightarrow> bool" and port outside :: "bool list list \<Rightarrow> u8"
  assumes quiet_address: "length bs < 8 \<Longrightarrow> \<not> pull log bs"
    and answers: "pull log (bits_of 0x40)" "pull log (bits_of 0x41)"
    and takes: "length ds < 8 \<Longrightarrow> \<not> pull log (bits_of 0x40 @ False # ds)" "length ds = 8 \<Longrightarrow> pull log (bits_of 0x40 @ False # ds)"
      "length ds = 8 \<Longrightarrow> \<not> pull log (bits_of 0x40 @ False # ds @ [False])"
    and sends: "j < 8 \<Longrightarrow> pull log (bits_of 0x41 @ False # take j (bits_of (port log AND outside log)))
        = (\<not> bits_of (port log AND outside log) ! j)"
      "length ds = 8 \<Longrightarrow> \<not> pull log (bits_of 0x41 @ False # ds)" "length ds = 8 \<Longrightarrow> \<not> pull log (bits_of 0x41 @ False # ds @ [True])"
    and latch: "port (log @ [write_frame x]) = x" "port (log @ [read_frame x]) = port log"
begin

lemma address_sent:
  assumes "bus_free log s" "a = 0x40 \<or> a = 0x41"
  shows "\<exists>s'. IIC_Wait_Ack (target pull) (IIC_Send_Byte (target pull) a (IIC_Start (target pull) s)) = (0, s')
    \<and> slot False log (bits_of a @ [False]) s' \<and> listening pull log (bits_of a @ [False]) s'"
proof -
  have "slot True log ([] @ bits_of a) (IIC_Send_Byte (target pull) a (IIC_Start (target pull) s))"
    by (rule send_byte [OF start_frame [OF assms(1)]]) (simp add: quiet_address)
  then show ?thesis using acked [of True log "bits_of a" _ pull] answers assms(2) by auto
qed

lemma written:
  assumes "bus_free log s"
  shows "bus_free (log @ [write_frame x]) (PCF8574_WriteOneByte (target pull) x s)"
proof -
  let ?T = "target pull" and ?a = "bits_of 0x40 @ [False]"
  obtain s1 where 1: "IIC_Wait_Ack ?T (IIC_Send_Byte ?T 0x40 (IIC_Start ?T s)) = (0, s1)" "slot False log ?a s1"
    using address_sent [OF assms, of "0x40"] by auto
  have "slot True log (?a @ bits_of x) (IIC_Send_Byte ?T x s1)"
    by (rule send_byte [OF 1(2)]) (simp add: takes(1))
  with acked [of True log "?a @ bits_of x" "IIC_Send_Byte ?T x s1" pull] takes(2) obtain s2 where
    2: "IIC_Wait_Ack ?T (IIC_Send_Byte ?T x s1) = (0, s2)" "slot False log (write_frame x) s2"
    by (auto simp: write_frame_def)
  have "bus_free (log @ [write_frame x]) (IIC_Stop ?T s2)"
    by (rule stop_frame [OF 2(2)]) (simp add: write_frame_def takes(3))
  then show ?thesis using 1(1) 2(1) by (simp add: PCF8574_WriteOneByte_def Let_def)
qed

lemma read_levels:
  assumes "bus_free log s"
  shows "\<exists>s'. PCF8574_ReadOneByte (target pull) s = (port log AND outside log, s')
    \<and> bus_free (log @ [read_frame (port log AND outside log)]) s'"
proof -
  let ?T = "target pull" and ?a = "bits_of 0x41 @ [False]" and ?x = "port log AND outside log"
  obtain s1 where 1: "IIC_Wait_Ack ?T (IIC_Send_Byte ?T 0x41 (IIC_Start ?T s)) = (0, s1)" "slot False log ?a s1" "listening pull log ?a s1"
    using address_sent [OF assms, of "0x41"] by auto
  obtain s2 where 2: "IIC_Read_Byte ?T 0 s1 = (?x, s2)" "slot True log (?a @ bits_of ?x @ [True]) s2"
    using read_byte [OF 1(2,3), of ?x] sends(1,2) by auto
  have "bus_free (log @ [read_frame ?x]) (IIC_Stop ?T s2)"
    using stop_frame [OF 2(2)] sends(3) by (simp add: read_frame_def)
  then show ?thesis using 1(1) 2(1) by (simp add: PCF8574_ReadOneByte_def Let_def)
qed

end

text \<open>
  C24: One pin of the port expander is set by reading the pins, changing the bit and writing all eight back:
  two frames on the bus, after which the bus is free and the latch of the pin is as asked. The other latches
  become what their pins showed: one that something outside held low at that moment stays low from then on.
\<close>

theorem expander_bit_written:
  assumes "pcf8574 pull port outside" and "bus_free log s" and "unat i < 8"
  shows "let x = port log AND outside log;
             y = (if sta = 0 then x AND NOT (push_bit (unat i) 1) else x OR push_bit (unat i) 1);
             log' = log @ [read_frame x, write_frame y]
         in bus_free log' (PCF8574_WriteBit (target pull) i sta s)
          \<and> (\<forall>j < 8. bit (port log') j \<longleftrightarrow> (if j = unat i then sta \<noteq> 0 else bit (port log) j \<and> bit (outside log) j))"
proof -
  let ?x = "port log AND outside log"
  define y where "y = (if sta = 0 then ?x AND NOT (push_bit (unat i) 1) else ?x OR push_bit (unat i) 1)"
  obtain s1 where 1: "PCF8574_ReadOneByte (target pull) s = (?x, s1)" "bus_free (log @ [read_frame ?x]) s1"
    using pcf8574.read_levels [OF assms(1,2)] by blast
  have "bus_free ((log @ [read_frame ?x]) @ [write_frame y]) (PCF8574_WriteOneByte (target pull) y s1)"
    by (rule pcf8574.written [OF assms(1) 1(2)])
  then have f: "bus_free (log @ [read_frame ?x, write_frame y]) (PCF8574_WriteBit (target pull) i sta s)"
    by (simp add: PCF8574_WriteBit_def 1(1) y_def)
  have "port (log @ [read_frame ?x, write_frame y]) = y"
    using pcf8574.latch(1) [OF assms(1), of "log @ [read_frame ?x]" y] by simp
  moreover have "bit y j \<longleftrightarrow> (if j = unat i then sta \<noteq> 0 else bit (port log) j \<and> bit (outside log) j)" if "j < 8" for j
  proof -
    have "bit (push_bit (unat i) 1 :: u8) j \<longleftrightarrow> j = unat i" using that assms(3) by (auto simp: push_bit_of_1 bit_exp_iff)
    then show ?thesis using that by (auto simp: y_def bit_and_iff bit_or_iff bit_not_iff)
  qed
  ultimately show ?thesis unfolding Let_def y_def [symmetric] using f by simp
qed

section \<open>A concrete expander\<close>

definition pcf_port :: "bool list list \<Rightarrow> u8" where
  "pcf_port log = foldl (\<lambda>p f. if length f = 18 \<and> take 8 f = bits_of 0x40 then foldl shift_in 0 (take 8 (drop 9 f)) else p) 0xFF log"

definition pcf_pull :: "u8 \<Rightarrow> bool list list \<Rightarrow> bool list \<Rightarrow> bool" where
  "pcf_pull levels log bs =
    (if length bs = 8 then take 7 bs = take 7 (bits_of 0x40)
     else if take 8 bs = bits_of 0x40 then length bs = 17
     else take 8 bs = bits_of 0x41 \<and> 9 \<le> length bs \<and> length bs < 17 \<and> \<not> bits_of (pcf_port log AND levels) ! (length bs - 9))"

lemma addresses: "take 7 (bits_of 0x41) = take 7 (bits_of 0x40)" "bits_of 0x41 \<noteq> bits_of 0x40"
  by (simp_all add: bits_of_def upt_rec)

lemma pcf_ok: "pcf8574 (pcf_pull levels) pcf_port (\<lambda>_. levels)"
  by unfold_locales
    (auto simp: pcf_pull_def pcf_port_def write_frame_def read_frame_def addresses bits_of_value dest: arg_cong [where f = length])

text \<open>Pin 5 is held low from outside: an interrupt of the motion sensor.\<close>

interpretation pcf: pcf8574 "pcf_pull 0xDF" pcf_port "\<lambda>_. 0xDF"
  by (rule pcf_ok)

definition idle_iic :: iic where
  "idle_iic = \<lparr>scl_pin = True, sda_pin = True, sda_out = True, trace = []\<rparr>"

lemma idle_free: "bus_free [] idle_iic"
  by (auto simp: bus_free_def agrees_def view_def idle_iic_def)

theorem expander_bit_written_witness:
  "\<exists>log. bus_free log (PCF8574_WriteBit (target (pcf_pull 0xDF)) 3 1 idle_iic) \<and> bit (pcf_port log) 3 \<and> \<not> bit (pcf_port log) 5"
proof -
  have "unat (3 :: u8) < 8" "\<not> bit (0xDF :: u8) 5" by simp_all
  from expander_bit_written [OF pcf.pcf8574_axioms idle_free this(1), of 1] this(2) show ?thesis
    unfolding Let_def by (intro exI conjI) (erule conjunct1, simp_all)
qed

section \<open>No expander\<close>

definition missed_frame :: "u8 \<Rightarrow> bool list" where
  "missed_frame a = bits_of a @ [True]"

abbreviation (input) nobody :: "lines \<Rightarrow> bool" where
  "nobody \<equiv> target (\<lambda>_ _. False)"

lemma address_missed:
  assumes "bus_free log s"
  shows "\<exists>s'. IIC_Wait_Ack nobody (IIC_Send_Byte nobody a (IIC_Start nobody s)) = (1, s') \<and> bus_free (log @ [missed_frame a]) s'"
proof -
  have "slot True log ([] @ bits_of a) (IIC_Send_Byte nobody a (IIC_Start nobody s))"
    by (rule send_byte [OF start_frame [OF assms]]) simp
  then show ?thesis using not_acked [of True log "bits_of a" _ "\<lambda>_ _. False"] by (simp add: missed_frame_def)
qed

lemma write_missed:
  assumes "bus_free log s"
  shows "bus_free (log @ [missed_frame 0x40]) (PCF8574_WriteOneByte nobody x s)"
proof -
  obtain s1 where 1: "IIC_Wait_Ack nobody (IIC_Send_Byte nobody 0x40 (IIC_Start nobody s)) = (1, s1)" "bus_free (log @ [missed_frame 0x40]) s1"
    using address_missed [OF assms] by blast
  from unframed_ack [OF unframed_send] 1(2) have "bus_free (log @ [missed_frame 0x40]) (snd (IIC_Wait_Ack nobody (IIC_Send_Byte nobody x s1)))"
    by blast
  then show ?thesis using 1(1) stop_free by (simp add: PCF8574_WriteOneByte_def Let_def)
qed

lemma read_missed:
  assumes "bus_free log s"
  shows "\<exists>s'. PCF8574_ReadOneByte nobody s = (0xFF, s') \<and> bus_free (log @ [missed_frame 0x41]) s'"
proof -
  obtain s1 where 1: "IIC_Wait_Ack nobody (IIC_Send_Byte nobody 0x41 (IIC_Start nobody s)) = (1, s1)" "bus_free (log @ [missed_frame 0x41]) s1"
    using address_missed [OF assms] by blast
  from unframed_read [OF 1(2)] obtain s2 where "IIC_Read_Byte nobody 0 s1 = (0xFF, s2)" "unframed (log @ [missed_frame 0x41]) s2"
    by blast
  with unframed_stop 1(1) show ?thesis by (simp add: PCF8574_ReadOneByte_def Let_def)
qed

lemma pin_of_ones: "(0xFF :: u8) AND push_bit (unat i) 1 \<noteq> 0 \<longleftrightarrow> (i :: u8) < 8"
proof -
  have "(0xFF :: u8) = - 1" by simp
  then have "(0xFF :: u8) AND push_bit (unat i) 1 = push_bit (unat i) 1" by (simp only: and.left_neutral)
  also have "\<dots> \<noteq> 0 \<longleftrightarrow> unat i < 8"
  proof
    assume "unat i < 8"
    then have "bit (push_bit (unat i) (1 :: u8)) (unat i)" by (simp only: bit_push_bit_iff) simp
    then show "push_bit (unat i) (1 :: u8) \<noteq> 0" by (metis bit_0_eq bot_apply bot_bool_def)
  next
    assume n: "push_bit (unat i) (1 :: u8) \<noteq> 0"
    then obtain k where "bit (push_bit (unat i) (1 :: u8)) k" by (metis bit_eqI bit_0_eq bot_apply bot_bool_def)
    then show "unat i < 8" by (auto simp only: bit_push_bit_iff bit_1_iff) simp
  qed
  finally show ?thesis by (simp add: word_less_nat_alt)
qed

text \<open>
  C25: Without an answer from the expander every operation ends with the bus free, and has addressed the target in
  vain, its data being sent outside any frame. Only \<open>PCF8574_Init\<close> reports it. A read gives all ones and a pin
  reads as high; a write is lost; setting a pin does both.
\<close>

theorem expander_missing:
  assumes "bus_free log s"
  shows "fst (PCF8574_Init nobody s) = 1 \<and> bus_free (log @ [missed_frame 0x40, missed_frame 0x40]) (snd (PCF8574_Init nobody s))
    \<and> fst (PCF8574_ReadOneByte nobody s) = 0xFF \<and> bus_free (log @ [missed_frame 0x41]) (snd (PCF8574_ReadOneByte nobody s))
    \<and> bus_free (log @ [missed_frame 0x40]) (PCF8574_WriteOneByte nobody x s)
    \<and> fst (PCF8574_ReadBit nobody i s) = (if i < 8 then 1 else 0)
    \<and> bus_free (log @ [missed_frame 0x41]) (snd (PCF8574_ReadBit nobody i s))
    \<and> bus_free (log @ [missed_frame 0x41, missed_frame 0x40]) (PCF8574_WriteBit nobody i sta s)"
proof -
  have "bus_free log (IIC_Init nobody s)"
    using assms unfolding bus_free_def IIC_Init_def by (auto simp: event_simps agrees_def view_def IIC_SCL_def IIC_SDA_def sample_def target_def)
  from address_missed [OF this, of "0x40"] obtain s1 where
    1: "IIC_Wait_Ack nobody (IIC_Send_Byte nobody 0x40 (IIC_Start nobody (IIC_Init nobody s))) = (1, s1)" "bus_free (log @ [missed_frame 0x40]) s1"
    by blast
  have init: "fst (PCF8574_Init nobody s) = 1" "bus_free (log @ [missed_frame 0x40, missed_frame 0x40]) (snd (PCF8574_Init nobody s))"
    using write_missed [OF stop_free [OF 1(2)]] 1(1) by (simp_all add: PCF8574_Init_def Let_def)
  obtain s2 where 2: "PCF8574_ReadOneByte nobody s = (0xFF, s2)" "bus_free (log @ [missed_frame 0x41]) s2"
    using read_missed [OF assms] by blast
  have "bus_free (log @ [missed_frame 0x41, missed_frame 0x40]) (PCF8574_WriteBit nobody i sta s)"
    using write_missed [OF 2(2)] 2(1) by (simp add: PCF8574_WriteBit_def)
  moreover have "fst (PCF8574_ReadBit nobody i s) = (if i < 8 then 1 else 0)" "snd (PCF8574_ReadBit nobody i s) = s2"
    using pin_of_ones [of i] 2(1) by (simp_all add: PCF8574_ReadBit_def)
  ultimately show ?thesis using init 2 write_missed [OF assms] by simp
qed

theorem expander_missing_witness:
  "fst (PCF8574_Init nobody idle_iic) = 1 \<and> fst (PCF8574_ReadOneByte nobody idle_iic) = 0xFF
    \<and> fst (PCF8574_ReadBit nobody 4 idle_iic) = 1"
  using expander_missing [OF idle_free, where i = 4] by simp

end
