(* ===== verification/Eth_Dma.thy ===== *)
theory Eth_Dma
  imports Usb_Otg
begin

text \<open>
  The Ethernet driver with its descriptor rings (Driver/Src/stm32f7xx\_hal\_eth.c: set-up of the rings,
  transmission, reception, interrupt) and the network interface on top of it
  (Middle/LwIP/src/netif/ethernetif.c), with the pool of packet buffers it takes memory from
  (Middle/LwIP/src/core/pbuf.c).

  A descriptor is named by its index in its table and a buffer by its offset in \<open>Tx_Buff\<close> or \<open>Rx_Buff\<close>. The
  memory of the buffers is a list of bytes. A packet buffer chain is the list of its payloads. \<open>pool\<close> is the
  number of free buffers in the pool; \<open>handed\<close> are the packets that the stack was given, \<open>polls\<close> the demands
  to the DMA. Bits of DMASR are cleared by writing them. Calls of the driver are atomic.
\<close>

section \<open>Descriptors and the handle\<close>

record dma_desc =
  d_Status :: u32
  d_ControlBufferSize :: u32
  d_Buffer1Addr :: nat
  d_Buffer2NextDescAddr :: nat

record rx_infos =
  FSRxDesc :: "nat option"
  LSRxDesc :: "nat option"
  SegCount :: u32
  fr_length :: u32
  fr_buffer :: nat

datatype HAL_ETH_StateTypeDef = HAL_ETH_STATE_RESET | HAL_ETH_STATE_READY | HAL_ETH_STATE_BUSY
  | HAL_ETH_STATE_BUSY_TX | HAL_ETH_STATE_BUSY_RX | HAL_ETH_STATE_BUSY_TX_RX | HAL_ETH_STATE_BUSY_WR
  | HAL_ETH_STATE_BUSY_RD | HAL_ETH_STATE_TIMEOUT | HAL_ETH_STATE_ERROR

datatype poll_demand = DMATPDR | DMARPDR

record eth =
  eth_RxDesc :: nat
  eth_TxDesc :: nat
  RxFrameInfos :: rx_infos
  eth_State :: HAL_ETH_StateTypeDef
  eth_Lock :: bool
  DMASR :: u32
  DMATDLAR :: nat
  DMARDLAR :: nat
  DMATxDscrTab :: "dma_desc list"
  DMARxDscrTab :: "dma_desc list"
  Tx_Buff :: "u8 list"
  Rx_Buff :: "u8 list"
  s_xSemaphore :: bool
  pool :: nat
  handed :: "u8 list list list"
  polls :: "poll_demand list"

abbreviation (input) ETH_TXBUFNB :: nat where "ETH_TXBUFNB \<equiv> 4"
abbreviation (input) ETH_RXBUFNB :: nat where "ETH_RXBUFNB \<equiv> 4"
abbreviation (input) ETH_TX_BUF_SIZE :: nat where "ETH_TX_BUF_SIZE \<equiv> 1524"
abbreviation (input) ETH_RX_BUF_SIZE :: nat where "ETH_RX_BUF_SIZE \<equiv> 1524"

abbreviation (input) ETH_DMATXDESC_OWN :: u32 where "ETH_DMATXDESC_OWN \<equiv> 0x80000000"
abbreviation (input) ETH_DMATXDESC_LS :: u32 where "ETH_DMATXDESC_LS \<equiv> 0x20000000"
abbreviation (input) ETH_DMATXDESC_FS :: u32 where "ETH_DMATXDESC_FS \<equiv> 0x10000000"
abbreviation (input) ETH_DMATXDESC_TCH :: u32 where "ETH_DMATXDESC_TCH \<equiv> 0x00100000"
abbreviation (input) ETH_DMATXDESC_CHECKSUMTCPUDPICMPFULL :: u32 where
  "ETH_DMATXDESC_CHECKSUMTCPUDPICMPFULL \<equiv> 0x00C00000"
abbreviation (input) ETH_DMATXDESC_TBS1 :: u32 where "ETH_DMATXDESC_TBS1 \<equiv> 0x1FFF"
abbreviation (input) ETH_DMARXDESC_OWN :: u32 where "ETH_DMARXDESC_OWN \<equiv> 0x80000000"
abbreviation (input) ETH_DMARXDESC_FL :: u32 where "ETH_DMARXDESC_FL \<equiv> 0x3FFF0000"
abbreviation (input) ETH_DMARXDESC_FS :: u32 where "ETH_DMARXDESC_FS \<equiv> 0x200"
abbreviation (input) ETH_DMARXDESC_LS :: u32 where "ETH_DMARXDESC_LS \<equiv> 0x100"
abbreviation (input) ETH_DMARXDESC_RCH :: u32 where "ETH_DMARXDESC_RCH \<equiv> 0x4000"
abbreviation (input) ETH_DMARXDESC_DIC :: u32 where "ETH_DMARXDESC_DIC \<equiv> 0x80000000"
abbreviation (input) ETH_DMASR_TS :: u32 where "ETH_DMASR_TS \<equiv> 0x1"
abbreviation (input) ETH_DMASR_TBUS :: u32 where "ETH_DMASR_TBUS \<equiv> 0x4"
abbreviation (input) ETH_DMASR_TUS :: u32 where "ETH_DMASR_TUS \<equiv> 0x20"
abbreviation (input) ETH_DMASR_RS :: u32 where "ETH_DMASR_RS \<equiv> 0x40"
abbreviation (input) ETH_DMASR_RBUS :: u32 where "ETH_DMASR_RBUS \<equiv> 0x80"
abbreviation (input) ETH_DMASR_AIS :: u32 where "ETH_DMASR_AIS \<equiv> 0x8000"
abbreviation (input) ETH_DMASR_NIS :: u32 where "ETH_DMASR_NIS \<equiv> 0x10000"

definition null_desc :: dma_desc where
  "null_desc = \<lparr>d_Status = 0, d_ControlBufferSize = 0, d_Buffer1Addr = 0, d_Buffer2NextDescAddr = 0\<rparr>"

definition tx_desc :: "eth \<Rightarrow> nat \<Rightarrow> dma_desc" where
  "tx_desc e i = (if i < length (DMATxDscrTab e) then DMATxDscrTab e ! i else null_desc)"

definition rx_desc :: "eth \<Rightarrow> nat \<Rightarrow> dma_desc" where
  "rx_desc e i = (if i < length (DMARxDscrTab e) then DMARxDscrTab e ! i else null_desc)"

definition set_tx :: "nat \<Rightarrow> (dma_desc \<Rightarrow> dma_desc) \<Rightarrow> eth \<Rightarrow> eth" where
  "set_tx i f e = e\<lparr>DMATxDscrTab := (DMATxDscrTab e)[i := f (tx_desc e i)]\<rparr>"

definition set_rx :: "nat \<Rightarrow> (dma_desc \<Rightarrow> dma_desc) \<Rightarrow> eth \<Rightarrow> eth" where
  "set_rx i f e = e\<lparr>DMARxDscrTab := (DMARxDscrTab e)[i := f (rx_desc e i)]\<rparr>"

definition tx_own :: "eth \<Rightarrow> nat \<Rightarrow> bool" where
  "tx_own e i \<longleftrightarrow> d_Status (tx_desc e i) AND ETH_DMATXDESC_OWN \<noteq> 0"

definition rx_own :: "eth \<Rightarrow> nat \<Rightarrow> bool" where
  "rx_own e i \<longleftrightarrow> d_Status (rx_desc e i) AND ETH_DMARXDESC_OWN \<noteq> 0"

definition set_DMASR :: "u32 \<Rightarrow> eth \<Rightarrow> eth" where
  "set_DMASR v e = e\<lparr>DMASR := DMASR e AND NOT v\<rparr>"

text \<open>\<open>memcpy\<close> into the transmit buffers and out of the receive buffers.\<close>

definition copy_out :: "nat \<Rightarrow> u8 list \<Rightarrow> eth \<Rightarrow> eth" where
  "copy_out a bs e = e\<lparr>Tx_Buff := take a (Tx_Buff e) @ bs @ drop (a + length bs) (Tx_Buff e)\<rparr>"

definition copy_in :: "nat \<Rightarrow> nat \<Rightarrow> eth \<Rightarrow> u8 list" where
  "copy_in a n e = take n (drop a (Rx_Buff e))"

text \<open>\<open>__HAL_LOCK\<close> returns \<open>HAL_BUSY\<close> from the function that uses it.\<close>

definition locked :: "eth \<Rightarrow> (eth \<Rightarrow> HAL_StatusTypeDef \<times> eth) \<Rightarrow> HAL_StatusTypeDef \<times> eth" where
  "locked e f = (if eth_Lock e then (HAL_BUSY, e) else f (e\<lparr>eth_Lock := True, eth_State := HAL_ETH_STATE_BUSY\<rparr>))"

definition unlocked :: "HAL_StatusTypeDef \<Rightarrow> eth \<Rightarrow> HAL_StatusTypeDef \<times> eth" where
  "unlocked r e = (r, e\<lparr>eth_State := HAL_ETH_STATE_READY, eth_Lock := False\<rparr>)"

section \<open>The rings\<close>

text \<open>The firmware passes its two tables, whose length is the count, and asks for checksums by hardware.\<close>

primrec tx_chain :: "nat \<Rightarrow> eth \<Rightarrow> eth" where
  "tx_chain 0 e = e"
| "tx_chain (Suc i) e = set_tx i (\<lambda>d. d\<lparr>d_Status := ETH_DMATXDESC_TCH OR ETH_DMATXDESC_CHECKSUMTCPUDPICMPFULL,
      d_Buffer1Addr := i * ETH_TX_BUF_SIZE,
      d_Buffer2NextDescAddr := (if i < ETH_TXBUFNB - 1 then i + 1 else 0)\<rparr>) (tx_chain i e)"

definition HAL_ETH_DMATxDescListInit :: "eth \<Rightarrow> HAL_StatusTypeDef \<times> eth" where
  "HAL_ETH_DMATxDescListInit e = locked e (\<lambda>e.
     unlocked HAL_OK ((tx_chain ETH_TXBUFNB (e\<lparr>eth_TxDesc := 0\<rparr>))\<lparr>DMATDLAR := 0\<rparr>))"

primrec rx_chain :: "nat \<Rightarrow> eth \<Rightarrow> eth" where
  "rx_chain 0 e = e"
| "rx_chain (Suc i) e = set_rx i (\<lambda>d. d\<lparr>d_Status := ETH_DMARXDESC_OWN,
      d_ControlBufferSize := (ETH_DMARXDESC_RCH OR of_nat ETH_RX_BUF_SIZE) AND NOT ETH_DMARXDESC_DIC,
      d_Buffer1Addr := i * ETH_RX_BUF_SIZE,
      d_Buffer2NextDescAddr := (if i < ETH_RXBUFNB - 1 then i + 1 else 0)\<rparr>) (rx_chain i e)"

definition HAL_ETH_DMARxDescListInit :: "eth \<Rightarrow> HAL_StatusTypeDef \<times> eth" where
  "HAL_ETH_DMARxDescListInit e = locked e (\<lambda>e.
     unlocked HAL_OK ((rx_chain ETH_RXBUFNB (e\<lparr>eth_RxDesc := 0\<rparr>))\<lparr>DMARDLAR := 0\<rparr>))"

section \<open>Transmission\<close>

text \<open>The loop over the segments of a frame that needs more than one, from the \<open>i\<close>th on.\<close>

function tx_segments :: "nat \<Rightarrow> nat \<Rightarrow> u32 \<Rightarrow> eth \<Rightarrow> eth" where
  "tx_segments i bufcount FrameLength e =
    (if i < bufcount then
       let t = eth_TxDesc e;
           e = set_tx t (\<lambda>d. d\<lparr>d_Status := d_Status d AND NOT (ETH_DMATXDESC_FS OR ETH_DMATXDESC_LS)\<rparr>) e;
           e = (if i = 0 then set_tx t (\<lambda>d. d\<lparr>d_Status := d_Status d OR ETH_DMATXDESC_FS\<rparr>) e else e);
           e = set_tx t (\<lambda>d. d\<lparr>d_ControlBufferSize := of_nat ETH_TX_BUF_SIZE AND ETH_DMATXDESC_TBS1\<rparr>) e;
           e = (if i = bufcount - 1 then
                  set_tx t (\<lambda>d. d\<lparr>d_Status := d_Status d OR ETH_DMATXDESC_LS,
                     d_ControlBufferSize := (FrameLength - of_nat (bufcount - 1) * of_nat ETH_TX_BUF_SIZE) AND ETH_DMATXDESC_TBS1\<rparr>) e
                else e);
           e = set_tx t (\<lambda>d. d\<lparr>d_Status := d_Status d OR ETH_DMATXDESC_OWN\<rparr>) e
       in tx_segments (Suc i) bufcount FrameLength (e\<lparr>eth_TxDesc := d_Buffer2NextDescAddr (tx_desc e t)\<rparr>)
     else e)"
  by pat_completeness auto
termination
  by (relation "measure (\<lambda>(i, bufcount, _). bufcount - i)") auto

definition tx_one :: "u32 \<Rightarrow> eth \<Rightarrow> eth" where
  "tx_one FrameLength e =
    (let t = eth_TxDesc e;
         e = set_tx t (\<lambda>d. d\<lparr>d_Status := d_Status d OR (ETH_DMATXDESC_FS OR ETH_DMATXDESC_LS)\<rparr>) e;
         e = set_tx t (\<lambda>d. d\<lparr>d_ControlBufferSize := FrameLength AND ETH_DMATXDESC_TBS1\<rparr>) e;
         e = set_tx t (\<lambda>d. d\<lparr>d_Status := d_Status d OR ETH_DMATXDESC_OWN\<rparr>) e
     in e\<lparr>eth_TxDesc := d_Buffer2NextDescAddr (tx_desc e t)\<rparr>)"

definition tx_bufcount :: "u32 \<Rightarrow> nat" where
  "tx_bufcount FrameLength =
    (let n = unat FrameLength in
     if n > ETH_TX_BUF_SIZE then
       (if n mod ETH_TX_BUF_SIZE \<noteq> 0 then n div ETH_TX_BUF_SIZE + 1 else n div ETH_TX_BUF_SIZE)
     else 1)"

definition resume_tx :: "u32 \<Rightarrow> eth \<Rightarrow> eth" where
  "resume_tx b e =
    (if DMASR e AND b \<noteq> 0 then let e = set_DMASR b e in e\<lparr>polls := polls e @ [DMATPDR]\<rparr> else e)"

definition HAL_ETH_TransmitFrame :: "u32 \<Rightarrow> eth \<Rightarrow> HAL_StatusTypeDef \<times> eth" where
  "HAL_ETH_TransmitFrame FrameLength e = locked e (\<lambda>e.
     if FrameLength = 0 then unlocked HAL_ERROR e
     else if tx_own e (eth_TxDesc e) then (HAL_ERROR, e\<lparr>eth_State := HAL_ETH_STATE_BUSY_TX, eth_Lock := False\<rparr>)
     else let bufcount = tx_bufcount FrameLength;
              e = (if bufcount = 1 then tx_one FrameLength e else tx_segments 0 bufcount FrameLength e)
          in unlocked HAL_OK (resume_tx ETH_DMASR_TBUS e))"

datatype err_t = ERR_OK | ERR_MEM | ERR_BUF | ERR_TIMEOUT | ERR_RTE | ERR_INPROGRESS | ERR_VAL | ERR_WOULDBLOCK
  | ERR_USE | ERR_ALREADY | ERR_ISCONN | ERR_CONN | ERR_IF | ERR_ABRT | ERR_RST | ERR_CLSD | ERR_ARG

text \<open>
  The loop over the buffers of one packet buffer, then the bytes that are left. \<open>Inl\<close> is the jump to the
  label \<open>error\<close>; otherwise the descriptor, the buffer, its offset and the length of the frame so far.
\<close>

function out_while :: "u8 list \<Rightarrow> nat \<Rightarrow> nat \<Rightarrow> nat \<Rightarrow> nat \<Rightarrow> nat \<Rightarrow> nat \<Rightarrow> eth \<Rightarrow> eth + (nat \<times> nat \<times> nat \<times> nat \<times> eth)" where
  "out_while payload d buffer bufferoffset byteslefttocopy payloadoffset framelength e =
    (if byteslefttocopy + bufferoffset > ETH_TX_BUF_SIZE then
       let n = ETH_TX_BUF_SIZE - bufferoffset;
           e = copy_out (buffer + bufferoffset) (take n (drop payloadoffset payload)) e;
           d = d_Buffer2NextDescAddr (tx_desc e d)
       in if tx_own e d then Inl e
          else out_while payload d (d_Buffer1Addr (tx_desc e d)) 0 (byteslefttocopy - n) (payloadoffset + n)
                 (framelength + n) e
     else Inr (d, buffer, bufferoffset + byteslefttocopy, framelength + byteslefttocopy,
            copy_out (buffer + bufferoffset) (take byteslefttocopy (drop payloadoffset payload)) e))"
  by pat_completeness auto
termination
  by (relation "measure (\<lambda>(_, _, _, off, left, _). left + off)") auto

primrec out_chain :: "u8 list list \<Rightarrow> nat \<Rightarrow> nat \<Rightarrow> nat \<Rightarrow> nat \<Rightarrow> eth \<Rightarrow> eth + (nat \<times> eth)" where
  "out_chain [] d buffer bufferoffset framelength e = Inr (framelength, e)"
| "out_chain (q # p) d buffer bufferoffset framelength e =
    (if tx_own e d then Inl e
     else case out_while q d buffer bufferoffset (length q) 0 framelength e of
       Inl e \<Rightarrow> Inl e
     | Inr (d, buffer, bufferoffset, framelength, e) \<Rightarrow> out_chain p d buffer bufferoffset framelength e)"

definition low_level_output :: "u8 list list \<Rightarrow> eth \<Rightarrow> err_t \<times> eth" where
  "low_level_output p e =
    (let (errval, e) =
       (case out_chain p (eth_TxDesc e) (d_Buffer1Addr (tx_desc e (eth_TxDesc e))) 0 0 e of
          Inl e \<Rightarrow> (ERR_USE, e)
        | Inr (framelength, e) \<Rightarrow> (ERR_OK, snd (HAL_ETH_TransmitFrame (of_nat framelength) e)))
     in (errval, resume_tx ETH_DMASR_TUS e))"

section \<open>Reception\<close>

definition set_info :: "(rx_infos \<Rightarrow> rx_infos) \<Rightarrow> eth \<Rightarrow> eth" where
  "set_info f e = e\<lparr>RxFrameInfos := f (RxFrameInfos e)\<rparr>"

definition next_rx :: "eth \<Rightarrow> eth" where
  "next_rx e = e\<lparr>eth_RxDesc := d_Buffer2NextDescAddr (rx_desc e (eth_RxDesc e))\<rparr>"

text \<open>Through the null pointer the fields of a zero descriptor are read and nothing is written.\<close>

definition rx_at :: "eth \<Rightarrow> nat option \<Rightarrow> dma_desc" where
  "rx_at e p = (case p of Some i \<Rightarrow> rx_desc e i | None \<Rightarrow> null_desc)"

definition last_segment :: "eth \<Rightarrow> eth" where
  "last_segment e =
    (let r = eth_RxDesc e;
         e = set_info (\<lambda>f. f\<lparr>LSRxDesc := Some r, SegCount := SegCount f + 1\<rparr>) e;
         e = (if SegCount (RxFrameInfos e) = 1 then set_info (\<lambda>f. f\<lparr>FSRxDesc := Some r\<rparr>) e else e);
         e = set_info (\<lambda>f. f\<lparr>fr_length := drop_bit 16 (d_Status (rx_desc e r) AND ETH_DMARXDESC_FL) - 4\<rparr>) e;
         e = set_info (\<lambda>f. f\<lparr>fr_buffer := d_Buffer1Addr (rx_at e (FSRxDesc f))\<rparr>) e
     in next_rx e)"

definition HAL_ETH_GetReceivedFrame :: "eth \<Rightarrow> HAL_StatusTypeDef \<times> eth" where
  "HAL_ETH_GetReceivedFrame e = locked e (\<lambda>e.
     let r = eth_RxDesc e; st = d_Status (rx_desc e r) in
     if \<not> rx_own e r then
       if st AND ETH_DMARXDESC_LS \<noteq> 0 then unlocked HAL_OK (last_segment e)
       else if st AND ETH_DMARXDESC_FS \<noteq> 0 then
         unlocked HAL_ERROR (next_rx (set_info (\<lambda>f. f\<lparr>FSRxDesc := Some r, LSRxDesc := None, SegCount := 1\<rparr>) e))
       else unlocked HAL_ERROR (next_rx (set_info (\<lambda>f. f\<lparr>SegCount := SegCount f + 1\<rparr>) e))
     else unlocked HAL_ERROR e)"

text \<open>The scan of the descriptors the processor owns; \<open>n\<close> of them may still be looked at.\<close>

primrec rx_scan :: "nat \<Rightarrow> eth \<Rightarrow> HAL_StatusTypeDef \<times> eth" where
  "rx_scan 0 e = unlocked HAL_ERROR e"
| "rx_scan (Suc n) e =
    (let r = eth_RxDesc e; st = d_Status (rx_desc e r) in
     if rx_own e r then unlocked HAL_ERROR e
     else if st AND (ETH_DMARXDESC_FS OR ETH_DMARXDESC_LS) = ETH_DMARXDESC_FS then
       rx_scan n (next_rx (set_info (\<lambda>f. f\<lparr>FSRxDesc := Some r, SegCount := 1\<rparr>) e))
     else if st AND (ETH_DMARXDESC_LS OR ETH_DMARXDESC_FS) = 0 then
       rx_scan n (next_rx (set_info (\<lambda>f. f\<lparr>SegCount := SegCount f + 1\<rparr>) e))
     else unlocked HAL_OK (last_segment e))"

definition HAL_ETH_GetReceivedFrame_IT :: "eth \<Rightarrow> HAL_StatusTypeDef \<times> eth" where
  "HAL_ETH_GetReceivedFrame_IT e = locked e (rx_scan ETH_RXBUFNB)"

subsection \<open>Packet buffers\<close>

text \<open>
  \<open>pbuf_alloc (PBUF_RAW, length, PBUF_POOL)\<close>: the lengths of the buffers of the chain. A buffer of the pool
  holds 1524 bytes. When the pool runs out the chain is freed.
\<close>

abbreviation (input) PBUF_POOL_BUFSIZE :: nat where "PBUF_POOL_BUFSIZE \<equiv> 1524"

function pool_tail :: "nat \<Rightarrow> nat list \<Rightarrow> nat \<Rightarrow> nat list option \<times> nat" where
  "pool_tail rem_len lens free =
    (if rem_len > 0 then
       if free = 0 then (None, length lens)
       else pool_tail (rem_len - min rem_len PBUF_POOL_BUFSIZE) (lens @ [min rem_len PBUF_POOL_BUFSIZE]) (free - 1)
     else (Some lens, free))"
  by pat_completeness auto
termination
  by (relation "measure (\<lambda>(rem_len, _). rem_len)") auto

definition pbuf_alloc :: "nat \<Rightarrow> eth \<Rightarrow> nat list option \<times> eth" where
  "pbuf_alloc len e =
    (if pool e = 0 then (None, e)
     else let l = min len PBUF_POOL_BUFSIZE; (p, free) = pool_tail (len - l) [l] (pool e - 1)
          in (p, e\<lparr>pool := free\<rparr>))"

text \<open>\<open>pbuf_free\<close> of a chain nobody else holds: its buffers go back to the pool.\<close>

definition pbuf_free :: "u8 list list \<Rightarrow> eth \<Rightarrow> eth" where
  "pbuf_free p e = e\<lparr>pool := pool e + length p\<rparr>"

subsection \<open>ethernetif.c\<close>

text \<open>The loop that fills one packet buffer: its bytes so far, the descriptor, the buffer and the offset.\<close>

function in_while :: "u8 list \<Rightarrow> nat \<Rightarrow> nat \<Rightarrow> nat \<Rightarrow> nat \<Rightarrow> eth \<Rightarrow> u8 list \<times> nat \<times> nat \<times> nat" where
  "in_while payload d buffer bufferoffset byteslefttocopy e =
    (if byteslefttocopy + bufferoffset > ETH_RX_BUF_SIZE then
       let n = ETH_RX_BUF_SIZE - bufferoffset;
           payload = payload @ copy_in (buffer + bufferoffset) n e;
           d = d_Buffer2NextDescAddr (rx_desc e d)
       in in_while payload d (d_Buffer1Addr (rx_desc e d)) 0 (byteslefttocopy - n) e
     else (payload @ copy_in (buffer + bufferoffset) byteslefttocopy e, d, buffer, bufferoffset + byteslefttocopy))"
  by pat_completeness auto
termination
  by (relation "measure (\<lambda>(_, _, _, off, left, _). left + off)") auto

primrec in_chain :: "nat list \<Rightarrow> nat \<Rightarrow> nat \<Rightarrow> nat \<Rightarrow> eth \<Rightarrow> u8 list list" where
  "in_chain [] d buffer bufferoffset e = []"
| "in_chain (l # lens) d buffer bufferoffset e =
    (case in_while [] d buffer bufferoffset l e of
       (payload, d, buffer, bufferoffset) \<Rightarrow> payload # in_chain lens d buffer bufferoffset e)"

primrec release_rx :: "nat \<Rightarrow> nat \<Rightarrow> eth \<Rightarrow> eth" where
  "release_rx 0 d e = e"
| "release_rx (Suc n) d e =
    (let e = set_rx d (\<lambda>x. x\<lparr>d_Status := d_Status x OR ETH_DMARXDESC_OWN\<rparr>) e
     in release_rx n (d_Buffer2NextDescAddr (rx_desc e d)) e)"

definition low_level_input :: "eth \<Rightarrow> u8 list list option \<times> eth" where
  "low_level_input e =
    (case HAL_ETH_GetReceivedFrame_IT e of
       (HAL_OK, e) \<Rightarrow>
         (let f = RxFrameInfos e;
              len = unat (ucast (fr_length f) :: u16);
              (lens, e) = (if len > 0 then pbuf_alloc len e else (None, e));
              d = (case FSRxDesc f of Some i \<Rightarrow> i | None \<Rightarrow> length (DMARxDscrTab e));
              p = map_option (\<lambda>lens. in_chain lens d (fr_buffer f) 0 e) lens;
              e = release_rx (unat (SegCount f)) d e;
              e = set_info (\<lambda>f. f\<lparr>SegCount := 0\<rparr>) e;
              e = (if DMASR e AND ETH_DMASR_RBUS \<noteq> 0
                   then let e = set_DMASR ETH_DMASR_RBUS e in e\<lparr>polls := polls e @ [DMARPDR]\<rparr> else e)
          in (p, e))
     | (_, e) \<Rightarrow> (None, e))"

text \<open>
  The loop of \<open>ethernetif_input\<close> after a wait. \<open>N\<close> is \<open>netif->input\<close>: whether it takes the packet, and what
  happens in the meantime.
\<close>

partial_function (option) input_loop ::
  "(u8 list list \<Rightarrow> eth \<Rightarrow> bool \<times> eth) \<Rightarrow> eth \<Rightarrow> eth option" where
  "input_loop N e =
    (case low_level_input e of
       (None, e) \<Rightarrow> Some e
     | (Some p, e) \<Rightarrow>
         (case N p (e\<lparr>handed := handed e @ [p]\<rparr>) of
            (taken, e) \<Rightarrow> input_loop N (if taken then e else pbuf_free p e)))"

definition ethernetif_input :: "(u8 list list \<Rightarrow> eth \<Rightarrow> bool \<times> eth) \<Rightarrow> eth \<Rightarrow> eth option" where
  "ethernetif_input N e = (if s_xSemaphore e then input_loop N (e\<lparr>s_xSemaphore := False\<rparr>) else Some e)"

section \<open>The interrupt\<close>

definition HAL_ETH_RxCpltCallback :: "eth \<Rightarrow> eth" where
  "HAL_ETH_RxCpltCallback e = e\<lparr>s_xSemaphore := True\<rparr>"

definition eth_ready :: "eth \<Rightarrow> eth" where
  "eth_ready e = e\<lparr>eth_State := HAL_ETH_STATE_READY, eth_Lock := False\<rparr>"

definition HAL_ETH_IRQHandler :: "eth \<Rightarrow> eth" where
  "HAL_ETH_IRQHandler e =
    (let e = (if DMASR e AND ETH_DMASR_RS = ETH_DMASR_RS then eth_ready (set_DMASR ETH_DMASR_RS (HAL_ETH_RxCpltCallback e))
              else if DMASR e AND ETH_DMASR_TS = ETH_DMASR_TS then eth_ready (set_DMASR ETH_DMASR_TS e)
              else e);
         e = set_DMASR ETH_DMASR_NIS e
     in if DMASR e AND ETH_DMASR_AIS = ETH_DMASR_AIS then eth_ready (set_DMASR ETH_DMASR_AIS e) else e)"

end
