(* ===== verification/Eth_Tx.thy ===== *)
theory Eth_Tx
  imports Eth_Dma
begin

text \<open>
  Transmission. The ring of descriptors is a queue of frames: the segments of its frames lie from the
  position of the DMA to the one of the processor, and the other descriptors are free. \<open>low_level_output\<close>
  adds a frame at one end, the DMA takes the frame at the other.
\<close>

section \<open>Segments of a frame\<close>

function segs :: "u8 list \<Rightarrow> u8 list list" where
  "segs f = (if f = [] then [] else take 1524 f # segs (drop 1524 f))"
  by pat_completeness auto
termination
  by (relation "measure length") auto

declare segs.simps [simp del]

lemma segs_Nil [simp]: "segs [] = []"
  by (simp add: segs.simps)

lemma segs_nonempty [simp]: "segs f = [] \<longleftrightarrow> f = []"
  by (subst segs.simps) simp

lemma concat_segs [simp]: "concat (segs f) = f"
  by (induction f rule: segs.induct) (subst segs.simps, simp)

lemma length_segs: "length (segs f) = (length f + 1523) div 1524"
proof (induction f rule: segs.induct)
  case (1 f)
  show ?case
  proof (cases "f = []")
    case False
    have "(length f + 1523) div 1524 = Suc ((length f - 1524 + 1523) div 1524)"
    proof (cases "length f \<le> 1524")
      case True
      with False have "(length f + 1523) div 1524 = 1" by (intro div_nat_eqI) (auto simp: Suc_le_eq)
      with True show ?thesis by simp
    next
      case False
      then have "length f + 1523 = (length f - 1524 + 1523) + 1524" by simp
      then show ?thesis by (metis div_add_self2 Suc_eq_plus1 zero_neq_numeral)
    qed
    with False 1 show ?thesis by (subst segs.simps) simp
  qed simp
qed

lemma segs_nth: "i < length (segs f) \<Longrightarrow> segs f ! i = take 1524 (drop (1524 * i) f)"
proof (induction f arbitrary: i rule: segs.induct)
  case (1 f)
  show ?case
  proof (cases "f = []")
    case False
    have e: "segs f = take 1524 f # segs (drop 1524 f)"
      using False by (subst segs.simps) simp
    show ?thesis
    proof (cases i)
      case (Suc k)
      with "1.prems" e have "k < length (segs (drop 1524 f))" by simp
      from "1.IH" [OF False this] Suc e show ?thesis by (simp add: add.commute)
    qed (simp add: e)
  qed (use 1 in simp)
qed

lemma length_segs_nth: "i < length (segs f) \<Longrightarrow> length (segs f ! i) = (if i = length (segs f) - 1 then length f - 1524 * i else 1524)"
  by (simp add: segs_nth) (auto simp: length_segs)

text \<open>A segment with what its descriptor says: whether it is the first and the last of its frame.\<close>

definition marked :: "u8 list \<Rightarrow> (bool \<times> bool \<times> u8 list) list" where
  "marked f = map (\<lambda>i. (i = 0, i = length (segs f) - 1, segs f ! i)) [0..<length (segs f)]"

lemma length_marked [simp]: "length (marked f) = length (segs f)"
  by (simp add: marked_def)

section \<open>The buffers\<close>

definition tx_buf :: "eth \<Rightarrow> nat \<Rightarrow> u8 list" where
  "tx_buf e s = take 1524 (drop (1524 * s) (Tx_Buff e))"

lemma nth_splice:
  assumes "a + length bs \<le> length m" "i < length m"
  shows "(take a m @ bs @ drop (a + length bs) m) ! i = (if a \<le> i \<and> i < a + length bs then bs ! (i - a) else m ! i)"
  using assms by (auto simp: nth_append)

lemma length_copy_out:
  "a + length bs \<le> length (Tx_Buff e) \<Longrightarrow> length (Tx_Buff (copy_out a bs e)) = length (Tx_Buff e)"
  by (simp add: copy_out_def)

lemma length_tx_buf: "length (Tx_Buff e) = 6096 \<Longrightarrow> s < 4 \<Longrightarrow> length (tx_buf e s) = 1524"
  by (auto simp: tx_buf_def)

lemma tx_buf_nth: "length (Tx_Buff e) = 6096 \<Longrightarrow> s < 4 \<Longrightarrow> i < 1524 \<Longrightarrow> tx_buf e s ! i = Tx_Buff e ! (1524 * s + i)"
  by (simp add: tx_buf_def)

lemma tx_buf_copy:
  assumes "length (Tx_Buff e) = 6096" "s < 4" "off + length bs \<le> 1524" "s' < 4"
  shows "tx_buf (copy_out (1524 * s + off) bs e) s' =
    (if s' = s then take off (tx_buf e s) @ bs @ drop (off + length bs) (tx_buf e s) else tx_buf e s')" (is "?l = ?r")
proof (rule nth_equalityI)
  have b: "1524 * s + off + length bs \<le> length (Tx_Buff e)" using assms by auto
  have l: "length (Tx_Buff (copy_out (1524 * s + off) bs e)) = 6096" using length_copy_out [OF b] assms by simp
  have t: "length (tx_buf e s) = 1524" by (rule length_tx_buf [OF assms(1,2)])
  show n: "length ?l = length ?r"
    using assms(3) length_tx_buf [OF assms(1,4)] length_tx_buf [OF l assms(4)] t by auto
  fix i assume "i < length ?l"
  then have i: "i < 1524" using length_tx_buf [OF l assms(4)] by simp
  have j: "1524 * s' + i < length (Tx_Buff e)" using assms i by auto
  have "?l ! i = (if 1524 * s + off \<le> 1524 * s' + i \<and> 1524 * s' + i < 1524 * s + off + length bs
      then bs ! (1524 * s' + i - (1524 * s + off)) else Tx_Buff e ! (1524 * s' + i))"
    using nth_splice [OF b j] tx_buf_nth [OF l assms(4) i] by (simp add: copy_out_def)
  also have "\<dots> = ?r ! i"
  proof (cases "s' = s")
    case True
    then show ?thesis using nth_splice [of off bs "tx_buf e s" i] t i assms(3) tx_buf_nth [OF assms(1,2) i] by simp
  next
    case False
    then have "\<not> (1524 * s + off \<le> 1524 * s' + i \<and> 1524 * s' + i < 1524 * s + off + length bs)"
      using assms i by (cases "s' < s") auto
    with False show ?thesis using tx_buf_nth [OF assms(1,4) i] by auto
  qed
  finally show "?l ! i = ?r ! i" .
qed

section \<open>The ring\<close>

lemma own_bit: "tx_own e i \<longleftrightarrow> bit (d_Status (tx_desc e i)) 31" "rx_own e i \<longleftrightarrow> bit (d_Status (rx_desc e i)) 31"
  using and_exp_eq_0_iff_not_bit [where 'a = "32 word", of _ 31] by (simp_all add: tx_own_def rx_own_def)

text \<open>Chained as the set-up leaves them: buffer \<open>i\<close> belongs to descriptor \<open>i\<close>, and the last leads to the first.\<close>

definition tx_ring :: "eth \<Rightarrow> bool" where
  "tx_ring e \<longleftrightarrow> length (DMATxDscrTab e) = 4 \<and> length (Tx_Buff e) = 6096 \<and> eth_TxDesc e < 4
    \<and> (\<forall>i<4. d_Buffer1Addr (tx_desc e i) = 1524 * i \<and> d_Buffer2NextDescAddr (tx_desc e i) = (i + 1) mod 4)"

definition tx_holds :: "eth \<Rightarrow> nat \<Rightarrow> bool \<times> bool \<times> u8 list \<Rightarrow> bool" where
  "tx_holds e s = (\<lambda>(is_first, is_last, bs). tx_own e s
     \<and> (d_Status (tx_desc e s) AND ETH_DMATXDESC_FS \<noteq> 0) = is_first \<and> (d_Status (tx_desc e s) AND ETH_DMATXDESC_LS \<noteq> 0) = is_last
     \<and> unat (d_ControlBufferSize (tx_desc e s) AND ETH_DMATXDESC_TBS1) = length bs \<and> take (length bs) (tx_buf e s) = bs)"

text \<open>The DMA stands at \<open>h\<close>; \<open>frs\<close> are the frames it has still to send, the oldest first.\<close>

definition tx_queue :: "eth \<Rightarrow> nat \<Rightarrow> u8 list list \<Rightarrow> bool" where
  "tx_queue e h frs \<longleftrightarrow> tx_ring e \<and> h < 4 \<and> (\<forall>f \<in> set frs. f \<noteq> []) \<and>
     (let ss = concat (map marked frs) in length ss \<le> 4 \<and> eth_TxDesc e = (h + length ss) mod 4
      \<and> (\<forall>k<length ss. tx_holds e ((h + k) mod 4) (ss ! k))
      \<and> (\<forall>k<4. length ss \<le> k \<longrightarrow> \<not> tx_own e ((h + k) mod 4)))"

text \<open>How many descriptors are free, from the one of the processor on.\<close>

definition room :: "eth \<Rightarrow> nat \<Rightarrow> bool" where
  "room e fr \<longleftrightarrow> fr \<le> 4 \<and> (\<forall>k<fr. \<not> tx_own e ((eth_TxDesc e + k) mod 4)) \<and> (fr < 4 \<longrightarrow> tx_own e ((eth_TxDesc e + fr) mod 4))"

section \<open>Copying a packet into the ring\<close>

text \<open>Only bytes of free buffers have changed.\<close>

definition spoiled :: "eth \<Rightarrow> eth \<Rightarrow> bool" where
  "spoiled e0 e \<longleftrightarrow> (\<exists>B. e = e0\<lparr>Tx_Buff := B\<rparr>) \<and> length (Tx_Buff e) = 6096
    \<and> (\<forall>s<4. tx_own e0 s \<longrightarrow> tx_buf e s = tx_buf e0 s)"

text \<open>\<open>dn\<close> has been copied, to the \<open>j\<close> buffers before \<open>d\<close> and the first \<open>off\<close> bytes of this one.\<close>

definition filling :: "eth \<Rightarrow> eth \<Rightarrow> nat \<Rightarrow> u8 list \<Rightarrow> nat \<Rightarrow> nat \<Rightarrow> nat \<Rightarrow> nat \<Rightarrow> bool" where
  "filling e0 e fr dn j d buf off \<longleftrightarrow> spoiled e0 e \<and> j < fr \<and> d = (eth_TxDesc e0 + j) mod 4 \<and> buf = 1524 * d
    \<and> off \<le> 1524 \<and> length dn = 1524 * j + off
    \<and> (\<forall>i<j. tx_buf e ((eth_TxDesc e0 + i) mod 4) = take 1524 (drop (1524 * i) dn))
    \<and> take off (tx_buf e d) = drop (1524 * j) dn"

lemma spoiled_sel:
  "spoiled e0 e \<Longrightarrow> tx_desc e = tx_desc e0" "spoiled e0 e \<Longrightarrow> tx_own e = tx_own e0" "spoiled e0 e \<Longrightarrow> eth_TxDesc e = eth_TxDesc e0"
  "spoiled e0 e \<Longrightarrow> length (Tx_Buff e) = 6096"
  by (auto simp: spoiled_def tx_desc_def tx_own_def fun_eq_iff)

lemma mod4_inj: "(a + i) mod 4 = (a + j) mod 4 \<Longrightarrow> i < 4 \<Longrightarrow> j < 4 \<Longrightarrow> i = (j :: nat)"
proof -
  assume a: "(a + i) mod 4 = (a + j) mod 4" and ij: "i < 4" "j < 4"
  have m: "(a + k) mod 4 = (if a mod 4 + k < 4 then a mod 4 + k else a mod 4 + k - 4)" if "k < 4" for k
  proof -
    have e: "(a + k) mod 4 = (a mod 4 + k) mod 4" by (simp add: mod_add_left_eq)
    have "a mod 4 < 4" by simp
    then have "a mod 4 + k - 4 < 4" using that by linarith
    then show ?thesis using e by (simp add: le_mod_geq)
  qed
  have r: "a mod 4 < 4" by simp
  show "i = j" using a [unfolded m [OF ij(1)] m [OF ij(2)]] ij r by (simp only: split: if_split_asm)
qed

lemma copy_filling:
  assumes "filling e0 e fr dn j d buf off" "room e0 fr" "off + length bs \<le> 1524"
  shows "filling e0 (copy_out (buf + off) bs e) fr (dn @ bs) j d buf (off + length bs)"
proof -
  note f = assms(1) [unfolded filling_def]
  have dj: "(eth_TxDesc e0 + j) mod 4 = d" "j < fr" "buf = 1524 * d" using f by blast+
  have d: "d < 4" "(eth_TxDesc e0 + j) mod 4 = d" "j < fr" "fr \<le> 4" "buf = 1524 * d"
    using dj assms(2) mod_less_divisor [of 4 "eth_TxDesc e0 + j"] by (simp_all only: room_def)
  have t: "take off (tx_buf e d) = drop (1524 * j) dn" "length dn = 1524 * j + off" using f by blast+
  have l: "length (Tx_Buff e) = 6096" using f spoiled_sel by blast
  have c: "tx_buf (copy_out (buf + off) bs e) s =
      (if s = d then take off (tx_buf e d) @ bs @ drop (off + length bs) (tx_buf e d) else tx_buf e s)" if "s < 4" for s
    using tx_buf_copy [OF l d(1) assms(3) that] d(5) by simp
  have n: "\<not> tx_own e0 d" using assms(2) d by (auto simp: room_def)
  have L: "length (Tx_Buff (copy_out (buf + off) bs e)) = 6096"
    using length_copy_out [of "buf + off" bs e] l assms(3) d by auto
  have "spoiled e0 (copy_out (buf + off) bs e)"
    unfolding spoiled_def
  proof (intro conjI allI impI)
    obtain B where "e = e0\<lparr>Tx_Buff := B\<rparr>" using f by (auto simp: spoiled_def)
    then show "\<exists>B. copy_out (buf + off) bs e = e0\<lparr>Tx_Buff := B\<rparr>" by (auto simp: copy_out_def)
    fix s assume s: "s < (4 :: nat)" "tx_own e0 s"
    then have "s \<noteq> d" using n by auto
    then show "tx_buf (copy_out (buf + off) bs e) s = tx_buf e0 s" using c [OF s(1)] s f by (auto simp: spoiled_def)
  qed (rule L)
  moreover have "tx_buf (copy_out (buf + off) bs e) ((eth_TxDesc e0 + i) mod 4) = take 1524 (drop (1524 * i) (dn @ bs))" if i: "i < j" for i
  proof -
    have "(eth_TxDesc e0 + i) mod 4 \<noteq> d" using mod4_inj [of "eth_TxDesc e0" i j] i d by auto
    then have "tx_buf (copy_out (buf + off) bs e) ((eth_TxDesc e0 + i) mod 4) = take 1524 (drop (1524 * i) dn)"
      using c [of "(eth_TxDesc e0 + i) mod 4"] f i by simp
    moreover have "1524 * i + 1524 \<le> length dn" using f i by auto
    ultimately show ?thesis by simp
  qed
  moreover have "take (off + length bs) (tx_buf (copy_out (buf + off) bs e) d) = drop (1524 * j) (dn @ bs)"
    using c [OF d(1)] t length_tx_buf [OF l d(1)] by (auto simp: min_def)
  ultimately show ?thesis using d t assms(3) unfolding filling_def by auto
qed

lemma switch_filling:
  assumes "filling e0 e fr dn j d buf 1524" "Suc j < fr"
  shows "filling e0 e fr dn (Suc j) ((d + 1) mod 4) (1524 * ((d + 1) mod 4)) 0"
proof -
  note f = assms(1) [unfolded filling_def]
  have dj: "(eth_TxDesc e0 + j) mod 4 = d" using f by blast
  then have "d < 4" by auto
  then have "length (tx_buf e d) = 1524" using f length_tx_buf spoiled_sel(4) by blast
  moreover have "length (drop (1524 * j) dn) = 1524" "take 1524 (tx_buf e d) = drop (1524 * j) dn" using f by (simp, blast)
  ultimately have "tx_buf e ((eth_TxDesc e0 + j) mod 4) = take 1524 (drop (1524 * j) dn)" unfolding dj by simp
  then have "\<forall>i<Suc j. tx_buf e ((eth_TxDesc e0 + i) mod 4) = take 1524 (drop (1524 * i) dn)" using f by (auto simp: less_Suc_eq)
  moreover have "(d + 1) mod 4 = (eth_TxDesc e0 + Suc j) mod 4" using f by (simp add: mod_Suc_eq)
  ultimately show ?thesis using f assms(2) unfolding filling_def by simp
qed

declare out_while.simps [simp del]

lemma filling_spoiled: "filling e0 e fr dn j d buf off \<Longrightarrow> spoiled e0 e"
  by (simp add: filling_def)

lemma out_while_fills:
  assumes "filling e0 e fr dn j d buf off" "tx_ring e0" "room e0 fr" "poff + left = length payload" "length dn + left \<le> 6096"
  shows "case out_while payload d buf off left poff fl e of
      Inl e' \<Rightarrow> spoiled e0 e' \<and> 1524 * fr < length dn + left
    | Inr (d', buf', off', fl', e') \<Rightarrow> fl' = fl + left \<and> (\<exists>j'. filling e0 e' fr (dn @ drop poff payload) j' d' buf' off')"
  using assms
proof (induction payload d buf off left poff fl e arbitrary: dn j rule: out_while.induct)
  case (1 payload d buf off left poff fl e)
  note f = "1.prems"(1) [unfolded filling_def]
  show ?case
  proof (cases "left + off > 1524")
    case False
    have "filling e0 (copy_out (buf + off) (take left (drop poff payload)) e) fr (dn @ take left (drop poff payload)) j d buf (off + left)"
      (is "filling _ (copy_out _ ?r _) _ _ _ _ _ _")
    proof -
      have "length ?r = left" using "1.prems"(4) by simp
      then show ?thesis using copy_filling [OF "1.prems"(1,3), of ?r] False by (simp add: add.commute)
    qed
    moreover have "take left (drop poff payload) = drop poff payload" using "1.prems"(4) by simp
    ultimately show ?thesis using False by (subst out_while.simps) auto
  next
    case True
    let ?n = "1524 - off"
    let ?bs = "take ?n (drop poff payload)"
    let ?e = "copy_out (buf + off) ?bs e"
    let ?d = "(d + 1) mod 4"
    have off: "off \<le> 1524" using f by blast
    have bs: "length ?bs = ?n" using True "1.prems"(4) by simp
    have g: "filling e0 ?e fr (dn @ ?bs) j d buf 1524"
      using copy_filling [OF "1.prems"(1,3), of ?bs] bs off by simp
    have sp: "spoiled e0 ?e" by (rule filling_spoiled [OF g])
    have d: "d < 4" using f by auto
    have nd: "d_Buffer2NextDescAddr (tx_desc ?e d) = ?d" using "1.prems"(2) d by (simp add: tx_ring_def spoiled_sel [OF sp])
    have na: "d_Buffer1Addr (tx_desc ?e ?d) = 1524 * ?d" using "1.prems"(2) by (simp add: tx_ring_def spoiled_sel [OF sp])
    have dd: "?d = (eth_TxDesc e0 + Suc j) mod 4" using f by (simp add: mod_Suc_eq)
    have ln: "length dn + ?n = 1524 * Suc j" using f off by auto
    have "1524 - off < left" using True off by linarith
    then have "1524 * Suc j < 6096" using ln "1.prems"(5) by linarith
    then have j: "Suc j < 4" by simp
    show ?thesis
    proof (cases "tx_own ?e ?d")
      case own: True
      have "Suc j \<ge> fr" using own "1.prems"(3) unfolding spoiled_sel(2) [OF sp] dd room_def by (meson not_le)
      then have "1524 * fr \<le> length dn + ?n" using ln by simp
      then have "1524 * fr < length dn + left" using True off by linarith
      then show ?thesis using True own nd sp by (subst out_while.simps) (simp add: Let_def)
    next
      case False
      have "Suc j < fr"
      proof (rule ccontr)
        assume "\<not> Suc j < fr"
        moreover have "j < fr" using f by blast
        ultimately have "fr = Suc j" by simp
        then show False using False "1.prems"(3) j unfolding spoiled_sel(2) [OF sp] dd room_def by blast
      qed
      then have h: "filling e0 ?e fr (dn @ ?bs) (Suc j) ?d (1524 * ?d) 0" by (rule switch_filling [OF g])
      have r: "out_while payload d buf off left poff fl e = out_while payload ?d (1524 * ?d) 0 (left - ?n) (poff + ?n) (fl + ?n) ?e"
        using True False nd na by (subst out_while.simps) (simp add: Let_def)
      have eq: "(dn @ ?bs) @ drop (poff + ?n) payload = dn @ drop poff payload" "fl + ?n + (left - ?n) = fl + left"
        "length (dn @ ?bs) + (left - ?n) = length dn + left" "poff + ?n + (left - ?n) = length payload"
        using True "1.prems"(4) off bs append_take_drop_id [of ?n "drop poff payload"] by (auto simp: add.commute)
      have "\<not> tx_own ?e (d_Buffer2NextDescAddr (tx_desc ?e d))" using False nd by simp
      from "1.IH" [OF True refl refl refl this, unfolded nd na, OF h "1.prems"(2,3) eq(4)] "1.prems"(5)
      show ?thesis unfolding r eq by simp
    qed
  qed
qed

lemma out_chain_fills:
  assumes "filling e0 e fr dn j d buf off" "tx_ring e0" "room e0 fr" "length dn + length (concat p) \<le> 6096"
  shows "case out_chain p d buf off fl e of
      Inl e' \<Rightarrow> spoiled e0 e' \<and> 1524 * fr < length dn + length (concat p)
    | Inr (fl', e') \<Rightarrow> fl' = fl + length (concat p) \<and> (\<exists>j d buf off. filling e0 e' fr (dn @ concat p) j d buf off)"
  using assms
proof (induction p arbitrary: e dn j d buf off fl)
  case (Cons q p)
  note f = Cons.prems(1) [unfolded filling_def]
  have "\<not> tx_own e d" using f Cons.prems(3) spoiled_sel(2) [of e0 e] by (auto simp: room_def)
  moreover have w: "case out_while q d buf off (length q) 0 fl e of
      Inl e' \<Rightarrow> spoiled e0 e' \<and> 1524 * fr < length dn + length q
    | Inr (d', buf', off', fl', e') \<Rightarrow> fl' = fl + length q \<and> (\<exists>j'. filling e0 e' fr (dn @ drop 0 q) j' d' buf' off')"
    by (rule out_while_fills [OF Cons.prems(1-3)]) (use Cons.prems(4) in simp_all)
  ultimately show ?case
  proof (cases "out_while q d buf off (length q) 0 fl e")
    case (Inr r)
    obtain d' buf' off' fl' e' where r: "r = (d', buf', off', fl', e')" by (cases r)
    with w Inr obtain j' where "fl' = fl + length q" and g: "filling e0 e' fr (dn @ q) j' d' buf' off'" by auto
    with Cons.IH [OF g Cons.prems(2,3), of fl'] Cons.prems(4) \<open>\<not> tx_own e d\<close> Inr r show ?thesis
      by (auto split: sum.splits simp: add.assoc)
  qed auto
qed auto

section \<open>Handing the segments over\<close>

lemma set_tx_set_tx: "t < length (DMATxDscrTab e) \<Longrightarrow> set_tx t g (set_tx t f e) = set_tx t (\<lambda>d. g (f d)) e"
  by (simp add: set_tx_def tx_desc_def)

lemma set_tx_if: "t < length (DMATxDscrTab e) \<Longrightarrow> (if c then set_tx t f e else e) = set_tx t (\<lambda>d. if c then f d else d) e"
  by (simp add: set_tx_def tx_desc_def)

lemma set_tx_cong: "(\<And>d. f d = g d) \<Longrightarrow> set_tx t f e = set_tx t g e"
  by (simp add: set_tx_def)

lemma tx_desc_set_tx:
  "t < length (DMATxDscrTab e) \<Longrightarrow> tx_desc (set_tx t f e) s = (if s = t then f (tx_desc e t) else tx_desc e s)"
  by (auto simp: set_tx_def tx_desc_def)

lemma set_tx_sel [simp]:
  "eth_TxDesc (set_tx t f e) = eth_TxDesc e" "Tx_Buff (set_tx t f e) = Tx_Buff e"
  "length (DMATxDscrTab (set_tx t f e)) = length (DMATxDscrTab e)"
  by (simp_all add: set_tx_def)

lemma tx_desc_update [simp]:
  "tx_desc (e\<lparr>eth_TxDesc := x\<rparr>) = tx_desc e" "tx_desc (e\<lparr>eth_State := y\<rparr>) = tx_desc e" "tx_desc (e\<lparr>eth_Lock := l\<rparr>) = tx_desc e"
  "tx_desc (e\<lparr>DMASR := v\<rparr>) = tx_desc e" "tx_desc (e\<lparr>polls := ps\<rparr>) = tx_desc e"
  by (simp_all add: tx_desc_def fun_eq_iff)

definition seg_desc :: "nat \<Rightarrow> nat \<Rightarrow> u32 \<Rightarrow> dma_desc \<Rightarrow> dma_desc" where
  "seg_desc i m L d = d\<lparr>
     d_Status := (((d_Status d AND NOT (ETH_DMATXDESC_FS OR ETH_DMATXDESC_LS)) OR (if i = 0 then ETH_DMATXDESC_FS else 0))
       OR (if i = m - 1 then ETH_DMATXDESC_LS else 0)) OR ETH_DMATXDESC_OWN,
     d_ControlBufferSize := (if i = m - 1 then L - of_nat (m - 1) * of_nat ETH_TX_BUF_SIZE else of_nat ETH_TX_BUF_SIZE)
       AND ETH_DMATXDESC_TBS1\<rparr>"

declare tx_segments.simps [simp del]

lemma tx_segments_step:
  assumes "i < m" "eth_TxDesc e < length (DMATxDscrTab e)"
  shows "tx_segments i m L e = tx_segments (Suc i) m L
    ((set_tx (eth_TxDesc e) (seg_desc i m L) e)\<lparr>eth_TxDesc := d_Buffer2NextDescAddr (tx_desc e (eth_TxDesc e))\<rparr>)"
proof -
  let ?t = "eth_TxDesc e"
  have "set_tx ?t (seg_desc i m L) e =
      (let e = set_tx ?t (\<lambda>d. d\<lparr>d_Status := d_Status d AND NOT (ETH_DMATXDESC_FS OR ETH_DMATXDESC_LS)\<rparr>) e;
           e = (if i = 0 then set_tx ?t (\<lambda>d. d\<lparr>d_Status := d_Status d OR ETH_DMATXDESC_FS\<rparr>) e else e);
           e = set_tx ?t (\<lambda>d. d\<lparr>d_ControlBufferSize := of_nat ETH_TX_BUF_SIZE AND ETH_DMATXDESC_TBS1\<rparr>) e;
           e = (if i = m - 1 then
                  set_tx ?t (\<lambda>d. d\<lparr>d_Status := d_Status d OR ETH_DMATXDESC_LS,
                     d_ControlBufferSize := (L - of_nat (m - 1) * of_nat ETH_TX_BUF_SIZE) AND ETH_DMATXDESC_TBS1\<rparr>) e
                else e)
       in set_tx ?t (\<lambda>d. d\<lparr>d_Status := d_Status d OR ETH_DMATXDESC_OWN\<rparr>) e)"
    (is "_ = ?r")
  proof -
    have "?r = set_tx ?t F e" if "\<And>d. F d = seg_desc i m L d" for F
      unfolding Let_def using assms(2)
      by (simp only: set_tx_if set_tx_sel) (simp only: set_tx_set_tx set_tx_sel, rule set_tx_cong, unfold that,
        rule dma_desc.equality, simp_all add: seg_desc_def)
    then show ?thesis by simp
  qed
  then show ?thesis using assms by (subst tx_segments.simps) (simp add: Let_def tx_desc_set_tx seg_desc_def)
qed

text \<open>The descriptors from \<open>t\<close> on hold the frame of \<open>m\<close> segments.\<close>

lemma tx_segments_effect:
  assumes "tx_ring e" "i \<le> m" "m - i \<le> 4"
  shows "tx_ring (tx_segments i m L e) \<and> eth_TxDesc (tx_segments i m L e) = (eth_TxDesc e + (m - i)) mod 4
    \<and> Tx_Buff (tx_segments i m L e) = Tx_Buff e
    \<and> (\<forall>k<m - i. tx_desc (tx_segments i m L e) ((eth_TxDesc e + k) mod 4) = seg_desc (i + k) m L (tx_desc e ((eth_TxDesc e + k) mod 4)))
    \<and> (\<forall>k<4. m - i \<le> k \<longrightarrow> tx_desc (tx_segments i m L e) ((eth_TxDesc e + k) mod 4) = tx_desc e ((eth_TxDesc e + k) mod 4))"
  using assms
proof (induction "m - i" arbitrary: i e)
  case 0
  then show ?case by (subst (1 2 3 4 5) tx_segments.simps) (simp add: tx_ring_def)
next
  case (Suc n)
  let ?t = "eth_TxDesc e"
  let ?e = "(set_tx ?t (seg_desc i m L) e)\<lparr>eth_TxDesc := d_Buffer2NextDescAddr (tx_desc e ?t)\<rparr>"
  have t: "?t < 4" "length (DMATxDscrTab e) = 4" using Suc.prems(1) by (auto simp: tx_ring_def)
  have d: "tx_desc ?e s = (if s = ?t then seg_desc i m L (tx_desc e ?t) else tx_desc e s)" for s
    using t by (simp add: tx_desc_set_tx)
  have r: "tx_ring ?e" using Suc.prems(1) unfolding tx_ring_def d by (auto simp: seg_desc_def)
  have nt: "eth_TxDesc ?e = (?t + 1) mod 4" using Suc.prems(1) t by (simp add: tx_ring_def)
  have s: "tx_segments i m L e = tx_segments (Suc i) m L ?e" using tx_segments_step [of i m e L] Suc.hyps(2) t by simp
  have "n = m - Suc i" "Suc i \<le> m" "m - Suc i \<le> 4" using Suc.hyps(2) Suc.prems by simp_all
  note IH = Suc.hyps(1) [OF this(1) r this(2,3)]
  have x: "((?t + 1) mod 4 + k) mod 4 = (?t + Suc k) mod 4" for k by (simp add: mod_add_left_eq)
  have ne: "(?t + Suc k) mod 4 \<noteq> ?t" if "Suc k < 4" for k using mod4_inj [of ?t "Suc k" 0] that t by auto
  have a: "tx_desc (tx_segments i m L e) ((?t + Suc k) mod 4) = seg_desc (i + Suc k) m L (tx_desc e ((?t + Suc k) mod 4))" if "Suc k < m - i" for k
  proof -
    have "k < m - Suc i" "Suc k < 4" using that Suc.prems(3) by simp_all
    with IH ne [of k] show ?thesis unfolding s nt x d by simp
  qed
  have b: "tx_desc (tx_segments i m L e) ((?t + Suc k) mod 4) = tx_desc e ((?t + Suc k) mod 4)" if "Suc k < 4" "m - i \<le> Suc k" for k
  proof -
    have "k < 4" "m - Suc i \<le> k" using that by simp_all
    with IH ne [of k] that show ?thesis unfolding s nt x d by simp
  qed
  have c: "tx_desc (tx_segments i m L e) ?t = seg_desc i m L (tx_desc e ?t)"
  proof -
    have "3 < (4 :: nat)" "m - Suc i \<le> 3" "(?t + 1 + 3) mod 4 = ?t" using Suc.prems(3) t by simp_all
    with IH show ?thesis unfolding s nt d by (metis mod_add_left_eq)
  qed
  show ?case
  proof (intro conjI allI impI)
    show "eth_TxDesc (tx_segments i m L e) = (?t + (m - i)) mod 4"
      using IH Suc.hyps(2) unfolding s nt by (metis Suc_diff_Suc \<open>Suc i \<le> m\<close> Suc_le_lessD x)
    fix k assume "k < m - i"
    then show "tx_desc (tx_segments i m L e) ((?t + k) mod 4) = seg_desc (i + k) m L (tx_desc e ((?t + k) mod 4))"
      using a c t by (cases k) simp_all
  next
    fix k assume "k < 4" "m - i \<le> k"
    then show "tx_desc (tx_segments i m L e) ((?t + k) mod 4) = tx_desc e ((?t + k) mod 4)"
      using b Suc.hyps(2) by (cases k) simp_all
  qed (use IH s in simp_all)
qed

definition desc_says :: "dma_desc \<Rightarrow> bool \<times> bool \<times> u8 list \<Rightarrow> bool" where
  "desc_says d = (\<lambda>(is_first, is_last, bs). bit (d_Status d) 31
     \<and> (d_Status d AND ETH_DMATXDESC_FS \<noteq> 0) = is_first \<and> (d_Status d AND ETH_DMATXDESC_LS \<noteq> 0) = is_last
     \<and> unat (d_ControlBufferSize d AND ETH_DMATXDESC_TBS1) = length bs)"

lemma tx_holds_says: "tx_holds e s x \<longleftrightarrow> desc_says (tx_desc e s) x \<and> take (length (snd (snd x))) (tx_buf e s) = snd (snd x)"
  by (cases x) (auto simp: tx_holds_def desc_says_def own_bit)

lemma flag_bits:
  "(x AND ETH_DMATXDESC_FS \<noteq> 0) = bit x 28" "(x AND ETH_DMATXDESC_LS \<noteq> 0) = bit x 29"
  using and_exp_eq_0_iff_not_bit [where 'a = "32 word", of x 28] and_exp_eq_0_iff_not_bit [where 'a = "32 word", of x 29] by simp_all

lemma bits_of_flags:
  "bit ETH_DMATXDESC_OWN n \<longleftrightarrow> n = 31" "bit ETH_DMATXDESC_FS n \<longleftrightarrow> n = 28" "bit ETH_DMATXDESC_LS n \<longleftrightarrow> n = 29"
  using bit_exp_iff [where 'a = "32 word", of 31 n] bit_exp_iff [where 'a = "32 word", of 28 n] bit_exp_iff [where 'a = "32 word", of 29 n]
  by auto

lemma size_field: "x < 8192 \<Longrightarrow> unat ((of_nat x :: u32) AND ETH_DMATXDESC_TBS1) = x"
proof -
  assume x: "x < 8192"
  have m: "ETH_DMATXDESC_TBS1 = (mask 13 :: u32)" by (simp add: mask_eq_exp_minus_1)
  have "(of_nat x :: u32) AND mask 13 = take_bit 13 (of_nat x)" by (rule take_bit_eq_mask [symmetric])
  also have "\<dots> = of_nat (take_bit 13 x)" by (rule take_bit_of_nat)
  also have "take_bit 13 x = x" using x by (simp add: take_bit_nat_eq_self)
  finally have "(of_nat x :: u32) AND ETH_DMATXDESC_TBS1 = of_nat x" unfolding m .
  then show ?thesis using x by (simp add: unat_of_nat take_bit_nat_eq_self)
qed

lemma bufcount: "0 < length f \<Longrightarrow> length f \<le> 6096 \<Longrightarrow> tx_bufcount (of_nat (length f)) = length (segs f)"
proof -
  assume f: "0 < length f" "length f \<le> 6096"
  have u: "unat (of_nat (length f) :: u32) = length f" using f by (simp add: unat_of_nat take_bit_nat_eq_self)
  have "(length f + 1523) div 1524 = (if length f mod 1524 \<noteq> 0 then length f div 1524 + 1 else length f div 1524)"
  proof -
    define q r where "q = length f div 1524" and "r = length f mod 1524"
    have l: "length f = 1524 * q + r" "r < 1524" by (simp_all add: q_def r_def)
    have "(1524 * q + r + 1523) div 1524 = q + (r + 1523) div 1524" by simp
    moreover have "(r + 1523) div 1524 = (if r \<noteq> 0 then 1 else 0)" using l(2) by (auto intro: div_nat_eqI)
    ultimately show ?thesis using l by (simp add: q_def [symmetric] r_def [symmetric])
  qed
  moreover have "length f \<le> 1524 \<Longrightarrow> (length f + 1523) div 1524 = 1" using f(1) by (intro div_nat_eqI) (simp_all add: Suc_le_eq)
  ultimately show ?thesis unfolding tx_bufcount_def Let_def u length_segs by auto
qed

lemma seg_desc_says:
  assumes "0 < length f" "length f \<le> 6096" "k < length (segs f)"
  shows "desc_says (seg_desc k (length (segs f)) (of_nat (length f)) d) (marked f ! k)"
proof -
  let ?m = "length (segs f)"
  have len: "length (segs f ! k) = (if k = ?m - 1 then length f - 1524 * (?m - 1) else 1524)"
    using length_segs_nth [OF assms(3)] by simp
  have le: "1524 * (?m - 1) \<le> length f" using length_segs [of f] assms(1) by simp
  have "(of_nat (length f) :: u32) - of_nat (?m - 1) * of_nat 1524 = of_nat (length f - 1524 * (?m - 1))"
    using le by (simp add: of_nat_diff mult.commute)
  then have "unat (d_ControlBufferSize (seg_desc k ?m (of_nat (length f)) d) AND ETH_DMATXDESC_TBS1) = length (segs f ! k)"
    using size_field [of "length (segs f ! k)"] len assms(2) by (simp add: seg_desc_def and.assoc split: if_splits)
  then show ?thesis
    using assms(3) unfolding marked_def desc_says_def flag_bits
    by (simp add: seg_desc_def bit_or_iff bit_and_iff bit_not_iff bits_of_flags del: of_nat_numeral)
qed

text \<open>What a transmission makes of the ring: \<open>f\<close> lies in the descriptors from \<open>TxDesc\<close> on.\<close>

definition handed_over :: "eth \<Rightarrow> u8 list \<Rightarrow> eth \<Rightarrow> bool" where
  "handed_over e f e' \<longleftrightarrow> tx_ring e' \<and> eth_TxDesc e' = (eth_TxDesc e + length (segs f)) mod 4 \<and> Tx_Buff e' = Tx_Buff e
    \<and> (\<forall>k<length (segs f). desc_says (tx_desc e' ((eth_TxDesc e + k) mod 4)) (marked f ! k))
    \<and> (\<forall>k<4. length (segs f) \<le> k \<longrightarrow> tx_desc e' ((eth_TxDesc e + k) mod 4) = tx_desc e ((eth_TxDesc e + k) mod 4))"

lemma segments_handed_over:
  assumes "tx_ring e" "0 < length f" "length f \<le> 6096"
  shows "handed_over e f (tx_segments 0 (length (segs f)) (of_nat (length f)) e)"
proof -
  have "length (segs f) \<le> 4" using assms(3) by (simp add: length_segs)
  with tx_segments_effect [OF assms(1), of 0 "length (segs f)" "of_nat (length f)"] seg_desc_says [OF assms(2,3)]
  show ?thesis by (auto simp: handed_over_def)
qed

lemma one_handed_over:
  assumes "tx_ring e" "0 < length f" "length f \<le> 1524"
  shows "handed_over e f (tx_one (of_nat (length f)) e)"
proof -
  let ?t = "eth_TxDesc e" and ?L = "of_nat (length f) :: u32"
  have m: "length (segs f) = 1" using assms(2,3) unfolding length_segs by (intro div_nat_eqI) (simp_all add: Suc_le_eq)
  have t: "?t < 4" "?t < length (DMATxDscrTab e)" using assms(1) by (auto simp: tx_ring_def)
  have d: "tx_desc (tx_one ?L e) s = (if s = ?t then (tx_desc e ?t)\<lparr>d_Status := (d_Status (tx_desc e ?t) OR (ETH_DMATXDESC_FS OR ETH_DMATXDESC_LS))
       OR ETH_DMATXDESC_OWN, d_ControlBufferSize := ?L AND ETH_DMATXDESC_TBS1\<rparr> else tx_desc e s)" for s
    using t by (simp add: tx_one_def Let_def tx_desc_set_tx)
  have "marked f = [(True, True, f)]" using m concat_segs [of f] by (cases "segs f") (auto simp: marked_def)
  moreover have "desc_says (tx_desc (tx_one ?L e) ?t) (True, True, f)"
    using size_field [of "length f"] assms(3) unfolding d desc_says_def flag_bits
    by (simp add: bit_or_iff bits_of_flags and.assoc)
  moreover have "eth_TxDesc (tx_one ?L e) = (?t + 1) mod 4" "Tx_Buff (tx_one ?L e) = Tx_Buff e" "length (DMATxDscrTab (tx_one ?L e)) = 4"
    using assms(1) t by (simp_all add: tx_one_def Let_def tx_desc_set_tx tx_ring_def)
  ultimately show ?thesis
    unfolding handed_over_def m using assms(1) t mod4_inj [of ?t _ 0]
    by (auto simp: tx_ring_def d)
qed

section \<open>The queue\<close>

lemma tx_holds_own: "tx_holds e s x \<Longrightarrow> tx_own e s"
  by (auto simp: tx_holds_def split: prod.splits)

lemma tx_queue_cong:
  assumes "tx_queue e h frs" "DMATxDscrTab e' = DMATxDscrTab e" "Tx_Buff e' = Tx_Buff e" "eth_TxDesc e' = eth_TxDesc e"
  shows "tx_queue e' h frs"
proof -
  have "tx_desc e' = tx_desc e" "tx_buf e' = tx_buf e" using assms(2,3) by (auto simp: tx_desc_def tx_buf_def fun_eq_iff)
  then show ?thesis using assms by (simp add: tx_queue_def tx_ring_def tx_holds_def tx_own_def)
qed

lemma queue_room:
  assumes "tx_queue e h frs"
  shows "room e (4 - length (concat (map marked frs)))"
proof -
  let ?n = "length (concat (map marked frs))"
  note q = assms [unfolded tx_queue_def Let_def]
  have n: "?n \<le> 4" and t: "eth_TxDesc e = (h + ?n) mod 4" and h: "h < 4" using q by blast+
  have x: "(eth_TxDesc e + k) mod 4 = (h + (?n + k)) mod 4" for k unfolding t by (simp add: mod_add_left_eq add.assoc)
  have "tx_own e ((h + (?n + (4 - ?n))) mod 4)" if "4 - ?n < 4"
  proof -
    have "0 < ?n" using that by linarith
    moreover have "?n + (4 - ?n) = 4" using n by linarith
    then have "(h + (?n + (4 - ?n))) mod 4 = (h + 0) mod 4" by simp
    moreover have "tx_own e ((h + 0) mod 4)" if "0 < ?n" using q that tx_holds_own by blast
    ultimately show ?thesis by simp
  qed
  moreover have "\<not> tx_own e ((h + (?n + k)) mod 4)" if "k < 4 - ?n" for k using q that by (auto simp del: length_concat)
  ultimately show ?thesis unfolding room_def x by simp
qed

lemma queue_spoiled: "tx_queue e h frs \<Longrightarrow> spoiled e e' \<Longrightarrow> tx_queue e' h frs"
proof -
  assume q: "tx_queue e h frs" and s: "spoiled e e'"
  have h: "tx_holds e' i x = tx_holds e i x" if "tx_holds e i x" "i < 4" for i x
    using s that by (auto simp: tx_holds_def spoiled_sel(1,2) [OF s] spoiled_def split: prod.splits)
  have "tx_ring e'" using q s spoiled_sel(1,3,4) [OF s] by (auto simp: tx_queue_def tx_ring_def spoiled_def)
  then show ?thesis using q h unfolding tx_queue_def Let_def spoiled_sel(2,3) [OF s] by simp
qed

lemma filling_handed_over:
  assumes q: "tx_queue e h frs" and f: "filling e e1 fr f j d buf off" and fr: "fr = 4 - length (concat (map marked frs))"
    and ho: "handed_over e1 f e2" and ne: "f \<noteq> []"
  shows "tx_queue e2 h (frs @ [f])"
proof -
  let ?n = "length (concat (map marked frs))" and ?m = "length (segs f)"
  note Q = q [unfolded tx_queue_def Let_def]
  note F = f [unfolded filling_def]
  have n: "?n \<le> 4" and t: "eth_TxDesc e = (h + ?n) mod 4" and h: "h < 4" using Q by blast+
  have sp: "spoiled e e1" and j: "j < fr" using F by blast+
  have t1: "eth_TxDesc e1 = eth_TxDesc e" "tx_desc e1 = tx_desc e" using spoiled_sel [OF sp] by auto
  have jm: "?m \<le> Suc j" using F unfolding length_segs by auto
  then have m: "?n + ?m \<le> 4" using j fr by simp
  have x: "(eth_TxDesc e + k) mod 4 = (h + (?n + k)) mod 4" for k unfolding t by (simp add: mod_add_left_eq add.assoc)
  have b: "tx_buf e2 = tx_buf e1" using ho by (simp add: handed_over_def tx_buf_def fun_eq_iff)
  have old: "tx_holds e2 ((h + k) mod 4) (concat (map marked frs) ! k)" if k: "k < ?n" for k
  proof -
    have "k + 4 - ?n < 4" "?m \<le> k + 4 - ?n" "?n + (k + 4 - ?n) = k + 4" using k n m by simp_all
    then have "tx_desc e2 ((h + (k + 4)) mod 4) = tx_desc e1 ((h + (k + 4)) mod 4)"
      using ho x [of "k + 4 - ?n"] unfolding handed_over_def t1 by metis
    then have "tx_desc e2 ((h + k) mod 4) = tx_desc e ((h + k) mod 4)" unfolding t1 by (simp add: add.assoc [symmetric])
    moreover have o: "tx_holds e ((h + k) mod 4) (concat (map marked frs) ! k)" using Q k by blast
    moreover have "tx_buf e2 ((h + k) mod 4) = tx_buf e ((h + k) mod 4)"
      using sp o unfolding b spoiled_def by (auto simp: tx_holds_def split: prod.splits)
    ultimately show ?thesis unfolding tx_holds_says by simp
  qed
  have new: "tx_holds e2 ((h + (?n + k)) mod 4) (marked f ! k)" if k: "k < ?m" for k
  proof -
    have s: "snd (snd (marked f ! k)) = take 1524 (drop (1524 * k) f)" using k by (simp add: marked_def segs_nth)
    have "take (length (segs f ! k)) (tx_buf e1 ((eth_TxDesc e + k) mod 4)) = segs f ! k"
    proof (cases "k < j")
      case True
      then have "tx_buf e1 ((eth_TxDesc e + k) mod 4) = segs f ! k" using F k by (simp add: segs_nth)
      then show ?thesis by simp
    next
      case False
      then have kj: "k = j" "?m = Suc j" using k jm by simp_all
      have "off \<le> 1524" "length f = 1524 * j + off" "take off (tx_buf e1 d) = drop (1524 * j) f" "d = (eth_TxDesc e + j) mod 4"
        using F by blast+
      then show ?thesis using k kj by (simp add: segs_nth)
    qed
    then show ?thesis using ho k unfolding tx_holds_says b x [symmetric] s segs_nth [OF k, symmetric] handed_over_def t1 by simp
  qed
  have free: "\<not> tx_own e2 ((h + k) mod 4)" if k: "k < 4" "?n + ?m \<le> k" for k
  proof -
    have "k - ?n < 4" "?m \<le> k - ?n" "?n + (k - ?n) = k" using k by simp_all
    then have "tx_desc e2 ((h + k) mod 4) = tx_desc e ((h + k) mod 4)"
      using ho x [of "k - ?n"] unfolding handed_over_def t1 by metis
    moreover have "\<not> tx_own e ((h + k) mod 4)" using Q k by simp
    ultimately show ?thesis by (simp add: own_bit)
  qed
  have "eth_TxDesc e2 = (h + (?n + ?m)) mod 4" using ho x unfolding handed_over_def t1 by simp
  moreover have "tx_ring e2" using ho by (simp add: handed_over_def)
  moreover have "tx_holds e2 ((h + k) mod 4) ((concat (map marked frs) @ marked f) ! k)" if "k < ?n + ?m" for k
    using old new [of "k - ?n"] that by (cases "k < ?n") (simp_all add: nth_append)
  ultimately show ?thesis using Q m free ne unfolding tx_queue_def Let_def by (auto simp del: length_concat)
qed

section \<open>low_level_output\<close>

lemma resume_sel [simp]:
  "DMATxDscrTab (resume_tx b e) = DMATxDscrTab e" "Tx_Buff (resume_tx b e) = Tx_Buff e" "eth_TxDesc (resume_tx b e) = eth_TxDesc e"
  "eth_Lock (resume_tx b e) = eth_Lock e"
  by (simp_all add: resume_tx_def set_DMASR_def Let_def)

lemma handed_over_cong:
  assumes "handed_over a f b" "DMATxDscrTab a' = DMATxDscrTab a" "Tx_Buff a' = Tx_Buff a" "eth_TxDesc a' = eth_TxDesc a"
    "DMATxDscrTab b' = DMATxDscrTab b" "Tx_Buff b' = Tx_Buff b" "eth_TxDesc b' = eth_TxDesc b"
  shows "handed_over a' f b'"
proof -
  have "tx_desc a' = tx_desc a" "tx_desc b' = tx_desc b" using assms by (simp_all add: tx_desc_def fun_eq_iff)
  then show ?thesis using assms(1) unfolding handed_over_def tx_ring_def assms(2-) by (elim conjE) simp
qed

lemma transmitted:
  assumes "tx_ring e" "0 < length f" "length f \<le> 6096" "\<not> eth_Lock e" "\<not> tx_own e (eth_TxDesc e)"
  shows "handed_over e f (snd (HAL_ETH_TransmitFrame (of_nat (length f)) e))"
proof -
  let ?L = "of_nat (length f) :: u32" and ?e = "e\<lparr>eth_Lock := True, eth_State := HAL_ETH_STATE_BUSY\<rparr>"
  have u: "unat ?L = length f" using assms(3) by (simp add: unat_of_nat take_bit_nat_eq_self)
  then have nz: "?L \<noteq> 0" using assms(2) by auto
  have r: "tx_ring ?e" using assms(1) by (simp add: tx_ring_def)
  have "\<not> tx_own ?e (eth_TxDesc ?e)" using assms(5) by (simp add: tx_own_def)
  then have "HAL_ETH_TransmitFrame ?L e = unlocked HAL_OK (resume_tx ETH_DMASR_TBUS
      (if tx_bufcount ?L = 1 then tx_one ?L ?e else tx_segments 0 (tx_bufcount ?L) ?L ?e))"
    using nz assms(4) by (simp add: HAL_ETH_TransmitFrame_def locked_def)
  moreover have "handed_over ?e f (if tx_bufcount ?L = 1 then tx_one ?L ?e else tx_segments 0 (tx_bufcount ?L) ?L ?e)"
  proof (cases "length (segs f) = 1")
    case True
    then have "length f \<le> 1524" unfolding length_segs by auto
    then show ?thesis using bufcount [OF assms(2,3)] True one_handed_over [OF r assms(2)] by simp
  next
    case False
    then show ?thesis using bufcount [OF assms(2,3)] segments_handed_over [OF r assms(2,3)] by simp
  qed
  ultimately show ?thesis by (auto simp: unlocked_def simp del: One_nat_def elim: handed_over_cong)
qed

lemma output_queue:
  assumes "tx_queue e h frs" and "concat p \<noteq> []" and "length (concat p) \<le> 6096"
  shows "let n = length (concat (map segs frs)); (r, e') = low_level_output p e in
    if n + length (segs (concat p)) \<le> 4
    then r = ERR_OK \<and> tx_queue e' h (if eth_Lock e then frs else frs @ [concat p])
    else r = ERR_USE \<and> tx_queue e' h frs"
proof -
  let ?f = "concat p" and ?n = "length (concat (map segs frs))" and ?fr = "4 - length (concat (map marked frs))"
  note q = assms(1) [unfolded tx_queue_def Let_def]
  have nn: "length (concat (map marked frs)) = ?n" by (simp add: length_concat comp_def)
  have n4: "?n \<le> 4" using q nn by metis
  have ring: "tx_ring e" and t: "eth_TxDesc e < 4" using q by (blast, auto simp: tx_ring_def)
  have a: "d_Buffer1Addr (tx_desc e (eth_TxDesc e)) = 1524 * eth_TxDesc e" using ring t by (simp add: tx_ring_def)
  have room: "room e ?fr" by (rule queue_room [OF assms(1)])
  have L: "0 < length ?f" using assms(2) by auto
  have fin: "tx_queue (resume_tx b x) h g = tx_queue x h g" for b x g
    using tx_queue_cong [of "resume_tx b x" h g x] tx_queue_cong [of x h g "resume_tx b x"] by auto
  define res where "res = out_chain p (eth_TxDesc e) (1524 * eth_TxDesc e) 0 0 e"
  have out: "low_level_output p e = (case res of Inl x \<Rightarrow> (ERR_USE, resume_tx ETH_DMASR_TUS x)
      | Inr (fl, x) \<Rightarrow> (ERR_OK, resume_tx ETH_DMASR_TUS (snd (HAL_ETH_TransmitFrame (of_nat fl) x))))"
    unfolding low_level_output_def a res_def by (simp split: sum.splits prod.splits)
  show ?thesis
  proof (cases "?fr = 0")
    case True
    then have "tx_own e (eth_TxDesc e)" using room t by (simp add: room_def)
    moreover obtain x y where "p = x # y" using assms(2) by (cases p) auto
    ultimately have "res = Inl e" by (simp add: res_def)
    moreover have "?n = 4" using True n4 nn by linarith
    moreover have "0 < length (segs ?f)" using assms(2) by simp
    ultimately show ?thesis using assms(1) by (simp add: out fin Let_def del: length_concat)
  next
    case False
    have sp: "spoiled e e" using ring by (auto simp: spoiled_def tx_ring_def intro: exI [of _ "Tx_Buff e"])
    have "filling e e ?fr [] 0 (eth_TxDesc e) (1524 * eth_TxDesc e) 0" using sp False t by (simp add: filling_def)
    from out_chain_fills [OF this ring room, of p 0]
    have c: "case res of Inl x \<Rightarrow> spoiled e x \<and> 1524 * ?fr < length ?f
      | Inr (fl, x) \<Rightarrow> fl = length ?f \<and> (\<exists>j d buf off. filling e x ?fr ?f j d buf off)"
      using assms(3) unfolding res_def by (cases "out_chain p (eth_TxDesc e) (1524 * eth_TxDesc e) 0 0 e") auto
    show ?thesis
    proof (cases res)
      case (Inl x)
      then have "spoiled e x" "1524 * ?fr < length ?f" using c by simp_all
      then have "?fr < length (segs ?f)" unfolding length_segs by linarith
      then have "\<not> ?n + length (segs ?f) \<le> 4" using nn by linarith
      then show ?thesis using queue_spoiled [OF assms(1) \<open>spoiled e x\<close>] Inl by (simp add: out fin Let_def del: length_concat)
    next
      case (Inr r)
      then obtain x j d buf off where r: "r = (length ?f, x)" and g: "filling e x ?fr ?f j d buf off" using c by (cases r) auto
      have sx: "spoiled e x" by (rule filling_spoiled [OF g])
      have "length ?f \<le> 1524 * ?fr" using g unfolding filling_def by auto
      then have "length (segs ?f) \<le> ?fr" unfolding length_segs by linarith
      then have fits: "?n + length (segs ?f) \<le> 4" using nn n4 by linarith
      have qx: "tx_queue x h frs" by (rule queue_spoiled [OF assms(1) sx])
      have lx: "eth_Lock x = eth_Lock e" using sx by (auto simp: spoiled_def)
      show ?thesis
      proof (cases "eth_Lock e")
        case True
        then have "snd (HAL_ETH_TransmitFrame (of_nat (length ?f)) x) = x" using lx by (simp add: HAL_ETH_TransmitFrame_def locked_def)
        then show ?thesis using True qx fits Inr r by (simp add: out fin Let_def del: length_concat)
      next
        case False
        have "\<not> tx_own e ((eth_TxDesc e + 0) mod 4)" using room \<open>?fr \<noteq> 0\<close> unfolding room_def by blast
        then have "\<not> tx_own x (eth_TxDesc x)" using t spoiled_sel [OF sx] by simp
        moreover have "tx_ring x" using qx by (simp add: tx_queue_def)
        ultimately have "handed_over x ?f (snd (HAL_ETH_TransmitFrame (of_nat (length ?f)) x))"
          using transmitted [of x ?f] L assms(3) False lx by simp
        from filling_handed_over [OF assms(1) g refl this assms(2)] False fits Inr r
        show ?thesis by (simp add: out fin Let_def del: length_concat)
      qed
    qed
  qed
qed

section \<open>The wire\<close>

text \<open>
  What the DMA does: it sends what the descriptors from its position on say, up to the one with the last
  segment, and gives them back. \<open>None\<close>: there is no complete frame.
\<close>

primrec dma_send :: "nat \<Rightarrow> nat \<Rightarrow> eth \<Rightarrow> (u8 list \<times> nat \<times> eth) option" where
  "dma_send 0 h e = None"
| "dma_send (Suc n) h e =
    (if \<not> tx_own e h then None
     else let d = tx_desc e h;
              bs = take (unat (d_ControlBufferSize d AND ETH_DMATXDESC_TBS1)) (drop (d_Buffer1Addr d) (Tx_Buff e));
              e = set_tx h (\<lambda>d. d\<lparr>d_Status := d_Status d AND NOT ETH_DMATXDESC_OWN\<rparr>) e
          in if d_Status d AND ETH_DMATXDESC_LS \<noteq> 0 then Some (bs, d_Buffer2NextDescAddr d, e)
             else map_option (\<lambda>(rest, h, e). (bs @ rest, h, e)) (dma_send n (d_Buffer2NextDescAddr d) e))"

text \<open>The driver and the DMA in any order: the packets that were accepted and the frames on the wire.\<close>

inductive eth_traffic :: "eth \<Rightarrow> nat \<Rightarrow> u8 list list \<Rightarrow> u8 list list \<Rightarrow> bool" where
  set_up: "length (DMATxDscrTab e) = 4 \<Longrightarrow> length (Tx_Buff e) = 6096 \<Longrightarrow> HAL_ETH_DMATxDescListInit e = (HAL_OK, e') \<Longrightarrow> eth_traffic e' 0 [] []"
| packet: "eth_traffic e h accepted wire \<Longrightarrow> concat p \<noteq> [] \<Longrightarrow> length (concat p) \<le> 6096 \<Longrightarrow> low_level_output p e = (r, e') \<Longrightarrow>
    eth_traffic e' h (if r = ERR_OK then accepted @ [concat p] else accepted) wire"
| frame: "eth_traffic e h accepted wire \<Longrightarrow> dma_send 4 h e = Some (f, h', e') \<Longrightarrow> eth_traffic e' h' accepted (wire @ [f])"

lemma tx_chain_desc:
  "n \<le> length (DMATxDscrTab e) \<Longrightarrow> length (DMATxDscrTab (tx_chain n e)) = length (DMATxDscrTab e) \<and> Tx_Buff (tx_chain n e) = Tx_Buff e
    \<and> eth_TxDesc (tx_chain n e) = eth_TxDesc e
    \<and> (\<forall>i<n. d_Status (tx_desc (tx_chain n e) i) = ETH_DMATXDESC_TCH OR ETH_DMATXDESC_CHECKSUMTCPUDPICMPFULL
        \<and> d_Buffer1Addr (tx_desc (tx_chain n e) i) = 1524 * i \<and> d_Buffer2NextDescAddr (tx_desc (tx_chain n e) i) = (if i < 3 then i + 1 else 0))"
  by (induction n) (auto simp: tx_desc_set_tx less_Suc_eq)

lemma queue_set_up:
  assumes "length (DMATxDscrTab e) = 4" "length (Tx_Buff e) = 6096" "HAL_ETH_DMATxDescListInit e = (HAL_OK, e')"
  shows "tx_queue e' 0 [] \<and> \<not> eth_Lock e'"
proof -
  let ?c = "tx_chain 4 (e\<lparr>eth_Lock := True, eth_State := HAL_ETH_STATE_BUSY, eth_TxDesc := 0\<rparr>)"
  have e': "e' = ?c\<lparr>DMATDLAR := 0, eth_State := HAL_ETH_STATE_READY, eth_Lock := False\<rparr>"
    using assms(3) by (simp add: HAL_ETH_DMATxDescListInit_def locked_def unlocked_def split: if_splits)
  have d: "length (DMATxDscrTab ?c) = 4" "Tx_Buff ?c = Tx_Buff e" "eth_TxDesc ?c = 0"
    "\<forall>i<4. d_Status (tx_desc ?c i) = 0xD00000 \<and> d_Buffer1Addr (tx_desc ?c i) = 1524 * i
        \<and> d_Buffer2NextDescAddr (tx_desc ?c i) = (if i < 3 then i + 1 else 0)"
    using tx_chain_desc [of 4 "e\<lparr>eth_Lock := True, eth_State := HAL_ETH_STATE_BUSY, eth_TxDesc := 0\<rparr>"] assms(1) by simp_all
  have "tx_desc e' = tx_desc ?c" by (simp add: e' tx_desc_def fun_eq_iff)
  moreover have "(if i < 3 then i + 1 else 0) = (i + 1) mod 4" if "i < 4" for i :: nat using that by (simp add: mod_if)
  ultimately show ?thesis using d assms(2)
    by (simp add: tx_queue_def tx_ring_def tx_own_def e')
qed

text \<open>The DMA at segment \<open>i\<close> of a frame whose segments lie from \<open>h\<close> on.\<close>

lemma tx_ring_status: "tx_ring e \<Longrightarrow> s < 4 \<Longrightarrow> tx_ring (set_tx s (\<lambda>d. d\<lparr>d_Status := g d\<rparr>) e)"
  by (auto simp: tx_ring_def tx_desc_set_tx)

lemma dma_send_from:
  assumes "tx_ring e" "i < length (segs f)" "length (segs f) \<le> 4" "length (segs f) - i \<le> n"
    and "\<And>k. i \<le> k \<Longrightarrow> k < length (segs f) \<Longrightarrow> tx_holds e ((h + k) mod 4) (marked f ! k)"
  shows "\<exists>e'. dma_send n ((h + i) mod 4) e = Some (concat (drop i (segs f)), (h + length (segs f)) mod 4, e')
    \<and> tx_ring e' \<and> eth_TxDesc e' = eth_TxDesc e \<and> Tx_Buff e' = Tx_Buff e \<and> eth_Lock e' = eth_Lock e
    \<and> (\<forall>k<4. i \<le> k \<longrightarrow> k < length (segs f) \<longrightarrow> \<not> tx_own e' ((h + k) mod 4))
    \<and> (\<forall>k<4. k < i \<or> length (segs f) \<le> k \<longrightarrow> tx_desc e' ((h + k) mod 4) = tx_desc e ((h + k) mod 4))"
  using assms
proof (induction n arbitrary: i e)
  case (Suc n)
  let ?m = "length (segs f)" and ?s = "(h + i) mod 4"
  let ?d = "tx_desc e ?s"
  let ?e = "set_tx ?s (\<lambda>d. d\<lparr>d_Status := d_Status d AND NOT ETH_DMATXDESC_OWN\<rparr>) e"
  have s: "?s < 4" "?s < length (DMATxDscrTab e)" using Suc.prems(1) by (simp_all add: tx_ring_def)
  have h: "tx_holds e ?s (i = 0, i = ?m - 1, segs f ! i)"
    using Suc.prems(5) [of i] Suc.prems(2) by (simp add: marked_def)
  have len: "length (segs f ! i) \<le> 1524" using Suc.prems(2) by (simp add: segs_nth)
  have a: "d_Buffer1Addr ?d = 1524 * ?s" "d_Buffer2NextDescAddr ?d = (h + Suc i) mod 4"
    using Suc.prems(1) s by (simp_all add: tx_ring_def mod_Suc_eq)
  have bs: "take (unat (d_ControlBufferSize ?d AND ETH_DMATXDESC_TBS1)) (drop (d_Buffer1Addr ?d) (Tx_Buff e)) = segs f ! i"
    using h len unfolding a tx_holds_def by (auto simp: tx_buf_def min_def)
  have D: "tx_desc ?e x = (if x = ?s then ?d\<lparr>d_Status := d_Status ?d AND NOT ETH_DMATXDESC_OWN\<rparr> else tx_desc e x)" for x
    by (rule tx_desc_set_tx [OF s(2)])
  have ring: "tx_ring ?e" by (rule tx_ring_status [OF Suc.prems(1) s(1)])
  have n1: "\<not> tx_own ?e ?s" unfolding own_bit D by (simp add: bit_and_iff bit_not_iff bits_of_flags)
  have ne: "(h + k) mod 4 \<noteq> ?s" if "k \<noteq> i" "k < 4" for k using mod4_inj [of h k i] that Suc.prems(2,3) by auto
  have last: "(d_Status ?d AND ETH_DMATXDESC_LS \<noteq> 0) = (i = ?m - 1)" using h by (simp add: tx_holds_def)
  have step: "dma_send (Suc n) ?s e = (if i = ?m - 1 then Some (segs f ! i, (h + Suc i) mod 4, ?e)
      else map_option (\<lambda>(rest, h, e). (segs f ! i @ rest, h, e)) (dma_send n ((h + Suc i) mod 4) ?e))"
    using tx_holds_own [OF h] unfolding dma_send.simps Let_def bs last a(2) by simp
  have dr: "drop i (segs f) = segs f ! i # drop (Suc i) (segs f)" using Suc.prems(2) by (simp add: Cons_nth_drop_Suc)
  have L: "eth_Lock ?e = eth_Lock e" by (simp add: set_tx_def)
  show ?case
  proof (cases "i = ?m - 1")
    case True
    then have "?m = Suc i" using Suc.prems(2) by simp
    moreover have "tx_desc ?e ((h + k) mod 4) = tx_desc e ((h + k) mod 4)" if "k < 4" "k \<noteq> i" for k using ne [OF that(2,1)] D by simp
    ultimately show ?thesis using step ring n1 L dr by (auto simp: le_Suc_eq less_Suc_eq)
  next
    case False
    then have i: "Suc i < ?m" "?m - Suc i \<le> n" using Suc.prems(2,4) by simp_all
    have "tx_holds ?e ((h + k) mod 4) (marked f ! k)" if "Suc i \<le> k" "k < ?m" for k
    proof -
      have "tx_holds e ((h + k) mod 4) (marked f ! k)" using Suc.prems(5) that by simp
      moreover have "(h + k) mod 4 \<noteq> ?s" using ne [of k] that Suc.prems(3) by simp
      ultimately show ?thesis unfolding tx_holds_says D by (simp add: tx_buf_def)
    qed
    from Suc.IH [OF ring i(1) Suc.prems(3) i(2) this] obtain e' where
      1: "dma_send n ((h + Suc i) mod 4) ?e = Some (concat (drop (Suc i) (segs f)), (h + ?m) mod 4, e')"
      and 2: "tx_ring e'" "eth_TxDesc e' = eth_TxDesc e" "Tx_Buff e' = Tx_Buff e" "eth_Lock e' = eth_Lock e"
      and 3: "\<And>k. k < 4 \<Longrightarrow> Suc i \<le> k \<Longrightarrow> k < ?m \<Longrightarrow> \<not> tx_own e' ((h + k) mod 4)"
      and 4: "\<And>k. k < 4 \<Longrightarrow> k < Suc i \<or> ?m \<le> k \<Longrightarrow> tx_desc e' ((h + k) mod 4) = tx_desc ?e ((h + k) mod 4)"
      unfolding L by auto
    have "\<not> tx_own e' ((h + i) mod 4)" using 4 [of i] n1 Suc.prems(2,3) by (simp add: own_bit)
    then have "\<not> tx_own e' ((h + k) mod 4)" if "k < 4" "i \<le> k" "k < ?m" for k using 3 [OF that(1) _ that(3)] that(2) by (cases "k = i") simp_all
    moreover have "tx_desc e' ((h + k) mod 4) = tx_desc e ((h + k) mod 4)" if "k < 4" "k < i \<or> ?m \<le> k" for k
      using 4 [OF that(1)] that ne [of k] Suc.prems(2) D by auto
    ultimately show ?thesis using step 1 2 False dr by auto
  qed
qed simp

lemma dma_send_queue:
  assumes "tx_queue e h (f # frs)"
  shows "\<exists>e' h'. dma_send 4 h e = Some (f, h', e') \<and> tx_queue e' h' frs \<and> eth_Lock e' = eth_Lock e"
proof -
  let ?m = "length (segs f)" and ?n = "length (concat (map marked frs))" and ?ss = "concat (map marked frs)"
  note q = assms [unfolded tx_queue_def Let_def]
  have n: "?m + ?n \<le> 4" and t: "eth_TxDesc e = (h + (?m + ?n)) mod 4" and h: "h < 4" and r: "tx_ring e" and f: "f \<noteq> []"
    and hold: "\<And>k. k < ?m + ?n \<Longrightarrow> tx_holds e ((h + k) mod 4) ((marked f @ ?ss) ! k)"
    and free: "\<And>k. k < 4 \<Longrightarrow> ?m + ?n \<le> k \<Longrightarrow> \<not> tx_own e ((h + k) mod 4)" using q by (auto simp del: length_concat)
  have "tx_holds e ((h + k) mod 4) (marked f ! k)" if "k < ?m" for k using hold [of k] that by (simp add: nth_append)
  with dma_send_from [OF r, of 0 f 4 h] f n obtain e' where
    1: "dma_send 4 h e = Some (f, (h + ?m) mod 4, e')"
    and 2: "tx_ring e'" "eth_TxDesc e' = eth_TxDesc e" "Tx_Buff e' = Tx_Buff e" "eth_Lock e' = eth_Lock e"
    and 3: "\<And>k. k < ?m \<Longrightarrow> \<not> tx_own e' ((h + k) mod 4)"
    and 4: "\<And>k. k < 4 \<Longrightarrow> ?m \<le> k \<Longrightarrow> tx_desc e' ((h + k) mod 4) = tx_desc e ((h + k) mod 4)"
    using h by auto
  let ?h = "(h + ?m) mod 4"
  have x: "(?h + k) mod 4 = (h + (?m + k)) mod 4" for k by (simp add: mod_add_left_eq add.assoc)
  have "tx_holds e' ((?h + k) mod 4) (?ss ! k)" if "k < ?n" for k
    using hold [of "?m + k"] 4 [of "?m + k"] 2(3) that n unfolding x by (simp add: tx_holds_says tx_buf_def nth_append)
  moreover have "\<not> tx_own e' ((?h + k) mod 4)" if k: "k < 4" "?n \<le> k" for k
  proof (cases "?m + k < 4")
    case True
    then show ?thesis using 4 [of "?m + k"] free [of "?m + k"] k unfolding x by (simp add: own_bit)
  next
    case False
    then have "?m + k - 4 < ?m" "(h + (?m + k)) mod 4 = (h + (?m + k - 4)) mod 4" using k n
      by (simp_all add: mod_if [of "h + (?m + k)"] le_mod_geq)
    then show ?thesis using 3 unfolding x by metis
  qed
  ultimately have "tx_queue e' ?h frs" using q 2 t n by (auto simp: tx_queue_def x simp del: length_concat)
  with 1 2(4) show ?thesis by blast
qed

lemma dma_send_empty:
  assumes "tx_queue e h []"
  shows "dma_send 4 h e = None"
proof -
  have q: "\<And>k. k < 4 \<Longrightarrow> \<not> tx_own e ((h + k) mod 4)" "h mod 4 = h" using assms by (simp_all add: tx_queue_def)
  from q(1) [of 0] q(2) have "\<not> tx_own e h" by simp
  moreover have "dma_send 4 h e = dma_send (Suc 3) h e" by (simp only: Suc_numeral) simp
  ultimately show ?thesis by (simp only: dma_send.simps not_False_eq_True if_True)
qed

lemma output_unlocked: "\<not> eth_Lock e \<Longrightarrow> \<not> eth_Lock (snd (low_level_output p e))"
proof -
  assume n: "\<not> eth_Lock e"
  have w: "eth_Lock (case out_while q d buf off left poff fl e of Inl x \<Rightarrow> x | Inr (_, _, _, _, x) \<Rightarrow> x) = eth_Lock e"
    for q d buf off left poff fl e
    by (induction q d buf off left poff fl e rule: out_while.induct)
      (subst out_while.simps, simp add: Let_def copy_out_def)
  have c: "eth_Lock (case out_chain p d buf off fl e of Inl x \<Rightarrow> x | Inr (_, x) \<Rightarrow> x) = eth_Lock e" for d buf off fl e
  proof (induction p arbitrary: d buf off fl e)
    case (Cons q p)
    show ?case
    proof (cases "out_while q d buf off (length q) 0 fl e")
      case (Inr r)
      obtain d' buf' off' fl' e' where r: "r = (d', buf', off', fl', e')" by (cases r)
      show ?thesis using w [of q d buf off "length q" 0 fl e] Cons.IH [of d' buf' off' fl' e'] Inr r by simp
    qed (use w [of q d buf off "length q" 0 fl e] in simp)
  qed simp
  have "\<not> eth_Lock x \<Longrightarrow> \<not> eth_Lock (snd (HAL_ETH_TransmitFrame L x))" for L x
    by (simp add: HAL_ETH_TransmitFrame_def locked_def unlocked_def Let_def)
  moreover have "eth_Lock (resume_tx b x) = eth_Lock x" for b x by (simp add: resume_tx_def set_DMASR_def Let_def)
  ultimately show ?thesis using c [of "eth_TxDesc e" "d_Buffer1Addr (tx_desc e (eth_TxDesc e))" 0 0 e] n
    by (cases "out_chain p (eth_TxDesc e) (d_Buffer1Addr (tx_desc e (eth_TxDesc e))) 0 0 e") (auto simp: low_level_output_def)
qed

lemma traffic_queue:
  assumes "eth_traffic e h accepted wire"
  shows "\<exists>frs. tx_queue e h frs \<and> accepted = wire @ frs \<and> \<not> eth_Lock e"
  using assms
proof (induction rule: eth_traffic.induct)
  case (set_up e e')
  then show ?case using queue_set_up by auto
next
  case (packet e h accepted wire p r e')
  then obtain frs where q: "tx_queue e h frs" "accepted = wire @ frs" "\<not> eth_Lock e" by blast
  have "\<not> eth_Lock e'" using output_unlocked [OF q(3), of p] packet(4) by simp
  then show ?case using output_queue [OF q(1) packet(2,3)] packet(4) q(2,3) by (auto simp: Let_def split: if_splits)
next
  case (frame e h accepted wire f h' e')
  then obtain frs where q: "tx_queue e h frs" "accepted = wire @ frs" "\<not> eth_Lock e" by blast
  then obtain g gs where "frs = g # gs" using frame(2) dma_send_empty [of e h] by (cases frs) auto
  then show ?case using dma_send_queue [of e h g gs] q frame(2) by auto
qed

end
