(* ===== verification/Eth_Rx.thy ===== *)
theory Eth_Rx
  imports Eth_Tx
begin

text \<open>
  Reception. The DMA stores a frame with its four bytes of check sum in the descriptors from its position on;
  the interrupt wakes the input task, which takes the frames out of the ring, copies them into packet buffers
  from the pool and gives the descriptors back.
\<close>

section \<open>The ring\<close>

definition rx_buf :: "eth \<Rightarrow> nat \<Rightarrow> u8 list" where
  "rx_buf e s = take 1524 (drop (1524 * s) (Rx_Buff e))"

definition rx_ring :: "eth \<Rightarrow> bool" where
  "rx_ring e \<longleftrightarrow> length (DMARxDscrTab e) = 4 \<and> length (Rx_Buff e) = 6096 \<and> eth_RxDesc e < 4
    \<and> (\<forall>i<4. d_Buffer1Addr (rx_desc e i) = 1524 * i \<and> d_Buffer2NextDescAddr (rx_desc e i) = (i + 1) mod 4)"

text \<open>
  A segment of stored bytes with what its descriptor says: whether it is the first and the last, and in the last
  one the length of the whole.
\<close>

definition rx_marked :: "u8 list \<Rightarrow> (bool \<times> bool \<times> nat \<times> u8 list) list" where
  "rx_marked g = map (\<lambda>i. (i = 0, i = length (segs g) - 1, length g, segs g ! i)) [0..<length (segs g)]"

lemma length_rx_marked [simp]: "length (rx_marked g) = length (segs g)"
  by (simp add: rx_marked_def)

definition rx_holds :: "eth \<Rightarrow> nat \<Rightarrow> bool \<times> bool \<times> nat \<times> u8 list \<Rightarrow> bool" where
  "rx_holds e s = (\<lambda>(is_first, is_last, n, bs). \<not> rx_own e s
     \<and> (d_Status (rx_desc e s) AND ETH_DMARXDESC_FS \<noteq> 0) = is_first \<and> (d_Status (rx_desc e s) AND ETH_DMARXDESC_LS \<noteq> 0) = is_last
     \<and> (is_last \<longrightarrow> unat (drop_bit 16 (d_Status (rx_desc e s) AND ETH_DMARXDESC_FL)) = n) \<and> take (length bs) (rx_buf e s) = bs)"

text \<open>The frames the processor has still to take, the oldest first, with their check sums.\<close>

definition rx_queue :: "eth \<Rightarrow> u8 list list \<Rightarrow> bool" where
  "rx_queue e gs \<longleftrightarrow> rx_ring e \<and> SegCount (RxFrameInfos e) = 0 \<and> (\<forall>g \<in> set gs. 4 < length g) \<and>
     (let ss = concat (map rx_marked gs) in length ss \<le> 4
      \<and> (\<forall>k<length ss. rx_holds e ((eth_RxDesc e + k) mod 4) (ss ! k))
      \<and> (\<forall>k<4. length ss \<le> k \<longrightarrow> rx_own e ((eth_RxDesc e + k) mod 4)))"

text \<open>The frame without its check sum.\<close>

definition frame_of :: "u8 list \<Rightarrow> u8 list" where
  "frame_of g = take (length g - 4) g"

lemma rx_desc_update [simp]:
  "rx_desc (RxFrameInfos_update a e) = rx_desc e" "rx_desc (eth_RxDesc_update b e) = rx_desc e"
  "rx_desc (eth_State_update c e) = rx_desc e" "rx_desc (eth_Lock_update l e) = rx_desc e"
  "rx_desc (pool_update m e) = rx_desc e" "rx_desc (handed_update h e) = rx_desc e"
  "rx_desc (s_xSemaphore_update s e) = rx_desc e" "rx_desc (polls_update q e) = rx_desc e" "rx_desc (DMASR_update z e) = rx_desc e"
  by (simp_all add: rx_desc_def fun_eq_iff)

lemma rx_own_desc: "rx_desc e = rx_desc e' \<Longrightarrow> rx_own e = rx_own e'"
  by (simp add: rx_own_def fun_eq_iff)

section \<open>Finding a frame\<close>

lemma flags_both:
  "(x AND (ETH_DMARXDESC_FS OR ETH_DMARXDESC_LS) = ETH_DMARXDESC_FS) = (x AND ETH_DMARXDESC_FS \<noteq> 0 \<and> x AND ETH_DMARXDESC_LS = 0)"
  "(x AND (ETH_DMARXDESC_LS OR ETH_DMARXDESC_FS) = 0) = (x AND ETH_DMARXDESC_FS = 0 \<and> x AND ETH_DMARXDESC_LS = 0)"
proof -
  have b: "(x AND ETH_DMARXDESC_FS \<noteq> 0) = bit x 9" "(x AND ETH_DMARXDESC_LS \<noteq> 0) = bit x 8"
    using and_exp_eq_0_iff_not_bit [where 'a = "32 word", of x 9] and_exp_eq_0_iff_not_bit [where 'a = "32 word", of x 8] by simp_all
  have f: "bit ETH_DMARXDESC_FS n \<longleftrightarrow> n = 9" "bit ETH_DMARXDESC_LS n \<longleftrightarrow> n = 8" for n
    using bit_exp_iff [where 'a = "32 word", of 9 n] bit_exp_iff [where 'a = "32 word", of 8 n] by auto
  have o: "bit (x AND (ETH_DMARXDESC_FS OR ETH_DMARXDESC_LS)) n \<longleftrightarrow> bit x n \<and> (n = 9 \<or> n = 8)" for n
    by (simp only: bit_and_iff bit_or_iff f)
  have "(x AND (ETH_DMARXDESC_FS OR ETH_DMARXDESC_LS) = ETH_DMARXDESC_FS) = (bit x 9 \<and> \<not> bit x 8)" (is "(?X = ?F) = _")
  proof
    assume e: "?X = ?F"
    show "bit x 9 \<and> \<not> bit x 8" using o [of 9] o [of 8] f(1) [of 9] f(1) [of 8] unfolding e by simp
  next
    assume "bit x 9 \<and> \<not> bit x 8"
    then show "?X = ?F" by (intro bit_eqI) (simp only: o f, auto)
  qed
  then show "(x AND (ETH_DMARXDESC_FS OR ETH_DMARXDESC_LS) = ETH_DMARXDESC_FS) = (x AND ETH_DMARXDESC_FS \<noteq> 0 \<and> x AND ETH_DMARXDESC_LS = 0)"
    using b by auto
  have "(x AND (ETH_DMARXDESC_LS OR ETH_DMARXDESC_FS) = 0) = (\<not> bit x 9 \<and> \<not> bit x 8)" (is "(?Y = 0) = _")
  proof -
    have y: "bit ?Y n \<longleftrightarrow> bit x n \<and> (n = 9 \<or> n = 8)" for n by (simp only: bit_and_iff bit_or_iff f) auto
    show ?thesis
    proof
      assume e: "?Y = 0"
      show "\<not> bit x 9 \<and> \<not> bit x 8" using y [of 9] y [of 8] unfolding e by simp
    next
      assume "\<not> bit x 9 \<and> \<not> bit x 8"
      then show "?Y = 0" by (intro bit_eqI) (simp only: y, auto)
    qed
  qed
  then show "(x AND (ETH_DMARXDESC_LS OR ETH_DMARXDESC_FS) = 0) = (x AND ETH_DMARXDESC_FS = 0 \<and> x AND ETH_DMARXDESC_LS = 0)"
    using b by auto
qed

definition found :: "nat \<Rightarrow> u8 list \<Rightarrow> rx_infos" where
  "found r g = \<lparr>FSRxDesc = Some r, LSRxDesc = Some ((r + length (segs g) - 1) mod 4), SegCount = of_nat (length (segs g)),
     fr_length = of_nat (length g) - 4, fr_buffer = 1524 * r\<rparr>"

lemma scan_frame:
  assumes "rx_ring e" "r < 4" "i < length (segs g)" "length (segs g) - i \<le> n" "eth_RxDesc e = (r + i) mod 4"
    and "\<forall>k<length (segs g). rx_holds e ((r + k) mod 4) (rx_marked g ! k)"
    and "SegCount (RxFrameInfos e) = of_nat i" "0 < i \<longrightarrow> FSRxDesc (RxFrameInfos e) = Some r" "length (segs g) \<le> 4"
  shows "rx_scan n e = unlocked HAL_OK (e\<lparr>eth_RxDesc := (r + length (segs g)) mod 4, RxFrameInfos := found r g\<rparr>)"
  using assms
proof (induction n arbitrary: i e)
  case (Suc n)
  let ?m = "length (segs g)" and ?s = "(r + i) mod 4" and ?st = "d_Status (rx_desc e ((r + i) mod 4))"
  have h: "\<not> rx_own e ?s" "(?st AND ETH_DMARXDESC_FS \<noteq> 0) = (i = 0)" "(?st AND ETH_DMARXDESC_LS \<noteq> 0) = (i = ?m - 1)"
    "i = ?m - 1 \<Longrightarrow> unat (drop_bit 16 (?st AND ETH_DMARXDESC_FL)) = length g"
    using Suc.prems(3,6) by (auto simp: rx_marked_def rx_holds_def)
  have a: "d_Buffer2NextDescAddr (rx_desc e ?s) = (r + Suc i) mod 4" "d_Buffer1Addr (rx_desc e r) = 1524 * r"
    using Suc.prems(1,2) by (simp_all add: rx_ring_def mod_Suc_eq)
  show ?case
  proof (cases "i = ?m - 1")
    case True
    then have m: "?m = Suc i" using Suc.prems(3) by simp
    have l: "drop_bit 16 (?st AND ETH_DMARXDESC_FL) = of_nat (length g)" unfolding h(4) [OF True, symmetric] by simp
    have "last_segment e = e\<lparr>eth_RxDesc := (r + ?m) mod 4, RxFrameInfos := found r g\<rparr>"
    proof (cases "i = 0")
      case True
      then have f: "eth_RxDesc e = r" "SegCount (RxFrameInfos e) = 0" "d_Buffer2NextDescAddr (rx_desc e r) = (r + 1) mod 4"
        "drop_bit 16 (d_Status (rx_desc e r) AND ETH_DMARXDESC_FL) = of_nat (length g)" "?m = 1"
        using Suc.prems(2,5,7) a(1) l m by simp_all
      show ?thesis unfolding found_def f(5)
        using f(1-4) a(2) Suc.prems(2) by (simp add: last_segment_def Let_def set_info_def next_rx_def rx_at_def del: drop_bit_and)
    next
      case False
      have "(of_nat i :: u32) \<noteq> 0" using False Suc.prems(9) m by (auto simp: word_of_nat_eq_0_iff dest: dvd_imp_le)
      then have "SegCount (RxFrameInfos e) + 1 \<noteq> 1" using Suc.prems(7) by simp
      then show ?thesis unfolding found_def m
        using False Suc.prems(2,5,7,8) a l
        by (simp add: last_segment_def Let_def set_info_def next_rx_def rx_at_def del: drop_bit_and)
    qed
    then show ?thesis using h(1-3) True Suc.prems(5) unfolding rx_scan.simps Let_def flags_both by simp
  next
    case False
    let ?e = "next_rx (if i = 0 then set_info (\<lambda>f. f\<lparr>FSRxDesc := Some ((r + i) mod 4), SegCount := 1\<rparr>) e
      else set_info (\<lambda>f. f\<lparr>SegCount := SegCount f + 1\<rparr>) e)"
    have s: "rx_scan (Suc n) e = rx_scan n ?e"
      using h(1-3) False Suc.prems(5) unfolding rx_scan.simps Let_def flags_both by simp
    have e: "rx_ring ?e" "eth_RxDesc ?e = (r + Suc i) mod 4" "SegCount (RxFrameInfos ?e) = of_nat (Suc i)"
      "FSRxDesc (RxFrameInfos ?e) = Some r" "rx_desc ?e = rx_desc e" "rx_buf ?e = rx_buf e"
      using Suc.prems(1,2,5,7,8) a(1) by (simp_all add: rx_ring_def next_rx_def set_info_def rx_buf_def fun_eq_iff)
    have "\<forall>k<?m. rx_holds ?e ((r + k) mod 4) (rx_marked g ! k)"
      using Suc.prems(6) e(5,6) rx_own_desc [OF e(5)] by (simp add: rx_holds_def)
    from Suc.IH [OF e(1) Suc.prems(2) _ _ e(2) this e(3) _ Suc.prems(9)] e(4) False Suc.prems(3,4) have
      "rx_scan n ?e = unlocked HAL_OK (?e\<lparr>eth_RxDesc := (r + ?m) mod 4, RxFrameInfos := found r g\<rparr>)" by simp
    also have "?e\<lparr>eth_RxDesc := (r + ?m) mod 4, RxFrameInfos := found r g\<rparr> = e\<lparr>eth_RxDesc := (r + ?m) mod 4, RxFrameInfos := found r g\<rparr>"
      by (simp add: next_rx_def set_info_def)
    finally show ?thesis unfolding s .
  qed
qed simp

section \<open>The packet buffers\<close>

declare pool_tail.simps [simp del] in_while.simps [simp del]

lemma pool_tail_eq:
  "pool_tail (length f) lens free = (if length (segs f) \<le> free then (Some (lens @ map length (segs f)), free - length (segs f))
     else (None, length lens + free))"
proof (induction f arbitrary: lens free rule: segs.induct)
  case (1 f)
  show ?case
  proof (cases "f = [] \<or> free = 0")
    case True
    then show ?thesis by (auto simp: pool_tail.simps [of "length f"])
  next
    case False
    then have s: "segs f = take 1524 f # segs (drop 1524 f)" by (subst segs.simps) simp
    have "pool_tail (length f) lens free = pool_tail (length (drop 1524 f)) (lens @ [length (take 1524 f)]) (free - 1)"
      using False by (subst pool_tail.simps) (simp add: min_def)
    also have "\<dots> = (if length (segs f) \<le> free then (Some (lens @ map length (segs f)), free - length (segs f)) else (None, length lens + free))"
      using 1 False unfolding s by auto
    finally show ?thesis .
  qed
qed

lemma pbuf_alloc_eq:
  assumes "f \<noteq> []"
  shows "pbuf_alloc (length f) e = (if length (segs f) \<le> pool e then (Some (map length (segs f)), e\<lparr>pool := pool e - length (segs f)\<rparr>) else (None, e))"
proof (cases "pool e = 0")
  case False
  have s: "segs f = take 1524 f # segs (drop 1524 f)" using assms by (subst segs.simps) simp
  have l: "length f - length (take 1524 f) = length (drop 1524 f)" "min (length f) 1524 = length (take 1524 f)" by (simp_all add: min_def)
  have "pbuf_alloc (length f) e = (let (p, free) = pool_tail (length (drop 1524 f)) [length (take 1524 f)] (pool e - 1) in (p, e\<lparr>pool := free\<rparr>))"
    using False by (simp only: pbuf_alloc_def Let_def l if_False)
  also have "\<dots> = (if length (segs f) \<le> pool e then (Some (map length (segs f)), e\<lparr>pool := pool e - length (segs f)\<rparr>) else (None, e))"
    using False unfolding pool_tail_eq s by (auto simp: Let_def)
  finally show ?thesis .
qed (use assms in \<open>simp add: pbuf_alloc_def\<close>)

text \<open>The bytes of the frame in the buffers of its descriptors.\<close>

lemma copy_in_seg:
  assumes "rx_ring e" "r < 4" "\<forall>k<length (segs g). rx_holds e ((r + k) mod 4) (rx_marked g ! k)"
    and "i < length (segs f)" "f = take n g"
  shows "copy_in (1524 * ((r + i) mod 4)) (length (segs f ! i)) e = segs f ! i"
proof -
  let ?s = "(r + i) mod 4"
  have "1524 * i < length f" using assms(4) by (auto simp: length_segs)
  then have i: "i < length (segs g)" using assms(5) by (auto simp: length_segs)
  have l: "length (segs f ! i) \<le> 1524" using assms(4) by (simp add: segs_nth)
  have A: "take (length (segs g ! i)) (rx_buf e ?s) = segs g ! i" using assms(3) i by (auto simp: rx_marked_def rx_holds_def)
  have p: "segs f ! i = take (n - 1524 * i) (segs g ! i)"
    using assms(4) i unfolding assms(5) by (simp add: segs_nth drop_take min.commute)
  then have le: "length (segs f ! i) \<le> length (segs g ! i)" by simp
  have "segs f ! i = take (length (segs f ! i)) (segs g ! i)"
    unfolding p by (cases "n - 1524 * i \<le> length (segs g ! i)") simp_all
  then have "segs f ! i = take (length (segs f ! i)) (take (length (segs g ! i)) (rx_buf e ?s))" by (simp only: A)
  also have "\<dots> = take (length (segs f ! i)) (rx_buf e ?s)" using le by (simp only: take_take min.absorb1)
  also have "\<dots> = copy_in (1524 * ?s) (length (segs f ! i)) e" using l by (simp add: copy_in_def rx_buf_def min_absorb1)
  finally show ?thesis by simp
qed

lemma in_chain_segs:
  assumes "rx_ring e" "r < 4" "\<forall>k<length (segs g). rx_holds e ((r + k) mod 4) (rx_marked g ! k)" "f = take n g"
    and "i \<le> length (segs f)" "if i = 0 then d = r \<and> off = 0 else (d = (r + (i - 1)) mod 4 \<and> off = 1524)"
  shows "in_chain (map length (drop i (segs f))) d (1524 * d) off e = drop i (segs f)"
  using assms(5,6)
proof (induction "length (segs f) - i" arbitrary: i d off)
  case (Suc m)
  then have i: "i < length (segs f)" by simp
  let ?l = "length (segs f ! i)"
  have l: "0 < ?l" "?l \<le> 1524" "i < length (segs f) - 1 \<Longrightarrow> ?l = 1524"
    using length_segs_nth [OF i] i by (auto simp: length_segs segs_nth)
  have dr: "drop i (segs f) = segs f ! i # drop (Suc i) (segs f)" using i by (simp add: Cons_nth_drop_Suc)
  have c: "copy_in (1524 * ((r + i) mod 4)) ?l e = segs f ! i" by (rule copy_in_seg [OF assms(1-3) i assms(4)])
  have w: "in_while [] d (1524 * d) off ?l e = (segs f ! i, (r + i) mod 4, 1524 * ((r + i) mod 4), ?l)"
  proof (cases "i = 0")
    case True
    then show ?thesis using Suc.prems(2) l(2) c assms(2) by (subst in_while.simps) simp
  next
    case False
    then have d: "d = (r + (i - 1)) mod 4" "off = 1524" using Suc.prems(2) by simp_all
    have "d < 4" using d by simp
    then have n: "d_Buffer2NextDescAddr (rx_desc e d) = (r + i) mod 4" "d_Buffer1Addr (rx_desc e ((r + i) mod 4)) = 1524 * ((r + i) mod 4)"
      using assms(1) False unfolding rx_ring_def d by (simp_all add: mod_Suc_eq)
    have "in_while [] d (1524 * d) off ?l e = in_while [] ((r + i) mod 4) (1524 * ((r + i) mod 4)) 0 ?l e"
      using l(1) n d(2) by (subst in_while.simps) (simp add: copy_in_def Let_def)
    also have "\<dots> = (segs f ! i, (r + i) mod 4, 1524 * ((r + i) mod 4), ?l)" using l(2) c by (subst in_while.simps) simp
    finally show ?thesis .
  qed
  have "in_chain (map length (drop (Suc i) (segs f))) ((r + i) mod 4) (1524 * ((r + i) mod 4)) ?l e = drop (Suc i) (segs f)"
  proof (cases "Suc i < length (segs f)")
    case True
    then show ?thesis using Suc.hyps(1) [of "Suc i" "(r + i) mod 4" ?l] Suc.hyps(2) l(3) by simp
  qed simp
  then show ?case unfolding dr by (simp add: w)
qed simp

section \<open>Giving the descriptors back\<close>

lemma rx_desc_set_rx:
  "t < length (DMARxDscrTab e) \<Longrightarrow> rx_desc (set_rx t f e) s = (if s = t then f (rx_desc e t) else rx_desc e s)"
  by (auto simp: set_rx_def rx_desc_def)

lemma release_effect:
  assumes "rx_ring e" "d < 4" "n \<le> 4" 
  shows "\<exists>T. release_rx n d e = e\<lparr>DMARxDscrTab := T\<rparr> \<and> rx_ring (release_rx n d e)
    \<and> (\<forall>k<4. rx_desc (release_rx n d e) ((d + k) mod 4) = (if k < n then (rx_desc e ((d + k) mod 4))\<lparr>d_Status := d_Status (rx_desc e ((d + k) mod 4)) OR ETH_DMARXDESC_OWN\<rparr>
         else rx_desc e ((d + k) mod 4)))"
  using assms
proof (induction n arbitrary: d e)
  case (Suc n)
  let ?e = "set_rx d (\<lambda>x. x\<lparr>d_Status := d_Status x OR ETH_DMARXDESC_OWN\<rparr>) e"
  have t: "d < length (DMARxDscrTab e)" using Suc.prems by (simp add: rx_ring_def)
  note D = rx_desc_set_rx [OF t]
  have ring: "rx_ring ?e" using Suc.prems(1) by (auto simp: rx_ring_def D) (simp_all add: set_rx_def)
  have nx: "d_Buffer2NextDescAddr (rx_desc ?e d) = (d + 1) mod 4" using ring Suc.prems(2) by (simp add: rx_ring_def)
  have st: "release_rx (Suc n) d e = release_rx n ((d + 1) mod 4) ?e" by (simp only: release_rx.simps Let_def nx)
  have "(d + 1) mod 4 < 4" "n \<le> 4" using Suc.prems(3) by simp_all
  from Suc.IH [OF ring this] obtain T where
    T: "release_rx (Suc n) d e = ?e\<lparr>DMARxDscrTab := T\<rparr>" "rx_ring (release_rx (Suc n) d e)"
    and K: "\<And>k. k < 4 \<Longrightarrow> rx_desc (release_rx (Suc n) d e) (((d + 1) mod 4 + k) mod 4) =
      (if k < n then (rx_desc ?e (((d + 1) mod 4 + k) mod 4))\<lparr>d_Status := d_Status (rx_desc ?e (((d + 1) mod 4 + k) mod 4)) OR ETH_DMARXDESC_OWN\<rparr>
         else rx_desc ?e (((d + 1) mod 4 + k) mod 4))" unfolding st by blast
  have m: "((d + 1) mod 4 + k) mod 4 = (d + Suc k) mod 4" for k by (simp add: mod_Suc_eq mod_add_left_eq)
  have "rx_desc (release_rx (Suc n) d e) ((d + k) mod 4) = (if k < Suc n then (rx_desc e ((d + k) mod 4))\<lparr>d_Status := d_Status (rx_desc e ((d + k) mod 4)) OR ETH_DMARXDESC_OWN\<rparr>
         else rx_desc e ((d + k) mod 4))" if k: "k < 4" for k
  proof (cases k)
    case 0
    have "((d + 1) mod 4 + 3) mod 4 = (d + 1 + 3) mod 4" by (rule mod_add_left_eq)
    also have "d + 1 + 3 = d + 4" by simp
    finally have "((d + 1) mod 4 + 3) mod 4 = d" using Suc.prems(2) by (simp only: mod_add_self2 mod_less)
    moreover have "\<not> 3 < n" using Suc.prems(3) by simp
    ultimately have "rx_desc (release_rx (Suc n) d e) d = rx_desc ?e d" using K [of 3] by simp
    then show ?thesis using 0 Suc.prems(2) by (simp add: D)
  next
    case (Suc j)
    then have "(d + Suc j) mod 4 \<noteq> d" "j < 4" using mod4_inj [of d "Suc j" 0] k Suc.prems(2) by auto
    then have same: "rx_desc ?e ((d + Suc j) mod 4) = rx_desc e ((d + Suc j) mod 4)" by (simp only: D if_False)
    show ?thesis unfolding Suc Suc_less_eq by (rule K [OF \<open>j < 4\<close>, unfolded m same])
  qed
  moreover have "\<exists>T. release_rx (Suc n) d e = e\<lparr>DMARxDscrTab := T\<rparr>" unfolding T(1) by (auto simp: set_rx_def)
  ultimately show ?case using T(2) by blast
next
  case 0
  have "e = e\<lparr>DMARxDscrTab := DMARxDscrTab e\<rparr>" by simp
  with 0 show ?case by (auto intro: exI [of _ "DMARxDscrTab e"])
qed

section \<open>One frame\<close>

lemma holds_cong: "rx_desc e' s = rx_desc e s \<Longrightarrow> Rx_Buff e' = Rx_Buff e \<Longrightarrow> rx_holds e' s x = rx_holds e s x"
  by (simp add: rx_holds_def rx_own_def rx_buf_def)

lemma found_length:
  assumes "4 \<le> length g" "length g \<le> 6096"
  shows "unat (ucast (fr_length (found r g)) :: u16) = length (frame_of g)"
proof -
  from assms(1) obtain x where x: "length g = x + 4" by (metis add.commute le_Suc_ex)
  then have "fr_length (found r g) = of_nat x" by (simp add: found_def)
  then have "(ucast (fr_length (found r g)) :: u16) = of_nat x" using x assms(2) by (simp add: unsigned_of_nat take_bit_nat_eq_self)
  then show ?thesis using x assms(2) by (simp add: frame_of_def unat_of_nat take_bit_nat_eq_self)
qed

lemma input_frame:
  assumes "rx_queue e (g # gs)" "\<not> eth_Lock e" "n = length (segs (frame_of g))"
  shows "\<exists>e'. low_level_input e = (if n \<le> pool e then Some (segs (frame_of g)) else None, e') \<and> rx_queue e' gs \<and> \<not> eth_Lock e'
    \<and> pool e' = (if n \<le> pool e then pool e - n else pool e) \<and> handed e' = handed e \<and> s_xSemaphore e' = s_xSemaphore e"
proof -
  let ?r = "eth_RxDesc e" and ?m = "length (segs g)" and ?f = "frame_of g"
  let ?ss = "concat (map rx_marked gs)"
  note q = assms(1) [unfolded rx_queue_def Let_def]
  have ring: "rx_ring e" and seg: "SegCount (RxFrameInfos e) = 0" and g: "4 < length g" and t: "?m + length ?ss \<le> 4"
    and hold: "\<And>k. k < ?m + length ?ss \<Longrightarrow> rx_holds e ((?r + k) mod 4) ((rx_marked g @ ?ss) ! k)"
    and own: "\<And>k. k < 4 \<Longrightarrow> ?m + length ?ss \<le> k \<Longrightarrow> rx_own e ((?r + k) mod 4)"
    using q by (auto simp del: length_concat)
  have r: "?r < 4" using ring by (simp add: rx_ring_def)
  have m: "0 < ?m" "?m \<le> 4" using g t by auto
  have gl: "length g \<le> 6096" using m(2) by (simp add: length_segs)
  have f: "?f \<noteq> []" using g by (auto simp: frame_of_def)
  have h: "\<forall>k<?m. rx_holds e ((?r + k) mod 4) (rx_marked g ! k)"
  proof (intro allI impI)
    fix k assume "k < ?m"
    then show "rx_holds e ((?r + k) mod 4) (rx_marked g ! k)" using hold [of k] by (simp add: nth_append)
  qed
  let ?e1 = "e\<lparr>eth_Lock := True, eth_State := HAL_ETH_STATE_BUSY\<rparr>"
  let ?e2 = "e\<lparr>eth_RxDesc := (?r + ?m) mod 4, RxFrameInfos := found ?r g, eth_State := HAL_ETH_STATE_READY, eth_Lock := False\<rparr>"
  have "rx_ring ?e1" using ring by (simp add: rx_ring_def)
  moreover have "\<forall>k<?m. rx_holds ?e1 ((?r + k) mod 4) (rx_marked g ! k)" using h holds_cong [of ?e1 _ e] by simp
  ultimately have "rx_scan 4 ?e1 = unlocked HAL_OK (?e1\<lparr>eth_RxDesc := (?r + ?m) mod 4, RxFrameInfos := found ?r g\<rparr>)"
    using scan_frame [of ?e1 ?r 0 g 4] r m seg by simp
  then have got: "HAL_ETH_GetReceivedFrame_IT e = (HAL_OK, ?e2)"
    using assms(2) by (simp add: HAL_ETH_GetReceivedFrame_IT_def locked_def unlocked_def)
  define e3 where "e3 = (if n \<le> pool e then ?e2\<lparr>pool := pool e - n\<rparr> else ?e2)"
  have e3: "pbuf_alloc (length ?f) ?e2 = (if n \<le> pool e then Some (map length (segs ?f)) else None, e3)"
    using pbuf_alloc_eq [OF f, of ?e2] assms(3) by (simp add: e3_def)
  have s3: "rx_desc e3 = rx_desc e" "Rx_Buff e3 = Rx_Buff e" "rx_ring e3" "eth_RxDesc e3 = (?r + ?m) mod 4" "RxFrameInfos e3 = found ?r g"
    "pool e3 = (if n \<le> pool e then pool e - n else pool e)" "handed e3 = handed e" "s_xSemaphore e3 = s_xSemaphore e" "\<not> eth_Lock e3"
    using ring by (simp_all add: e3_def rx_ring_def)
  have "\<forall>k<?m. rx_holds e3 ((?r + k) mod 4) (rx_marked g ! k)" using h holds_cong [of e3 _ e] s3(1,2) by simp
  from in_chain_segs [OF s3(3) r this, of ?f "length g - 4" 0 ?r 0]
  have chain: "in_chain (map length (segs ?f)) ?r (1524 * ?r) 0 e3 = segs ?f" by (simp add: frame_of_def)
  obtain T where T: "release_rx ?m ?r e3 = e3\<lparr>DMARxDscrTab := T\<rparr>" "rx_ring (release_rx ?m ?r e3)"
    and K: "\<And>k. k < 4 \<Longrightarrow> rx_desc (release_rx ?m ?r e3) ((?r + k) mod 4) = (if k < ?m then (rx_desc e3 ((?r + k) mod 4))\<lparr>d_Status := d_Status (rx_desc e3 ((?r + k) mod 4)) OR ETH_DMARXDESC_OWN\<rparr>
         else rx_desc e3 ((?r + k) mod 4))"
    using release_effect [OF s3(3) r m(2)] by blast
  define e4 where "e4 = release_rx ?m ?r e3"
  define e5 where "e5 = set_info (\<lambda>f. f\<lparr>SegCount := 0\<rparr>) e4"
  define e6 where "e6 = (if DMASR e5 AND ETH_DMASR_RBUS \<noteq> 0 then let e = set_DMASR ETH_DMASR_RBUS e5 in e\<lparr>polls := polls e @ [DMARPDR]\<rparr> else e5)"
  have c: "unat (SegCount (found ?r g)) = ?m" using m(2) by (simp add: found_def unat_of_nat take_bit_nat_eq_self)
  have i: "fr_buffer (found ?r g) = 1524 * ?r" "FSRxDesc (found ?r g) = Some ?r" by (simp_all add: found_def)
  have ln: "unat (ucast (fr_length (found ?r g)) :: u16) = length ?f" using found_length [of g ?r] g gl by simp
  have "low_level_input e = (if n \<le> pool e then Some (segs ?f) else None, e6)"
    unfolding low_level_input_def got using f chain
    by (simp add: Let_def ln e3 c i e6_def e5_def e4_def)
  moreover have s6: "rx_desc e6 = rx_desc e4" "Rx_Buff e6 = Rx_Buff e" "DMARxDscrTab e6 = DMARxDscrTab e4" "eth_RxDesc e6 = (?r + ?m) mod 4"
    "SegCount (RxFrameInfos e6) = 0" "pool e6 = pool e3" "handed e6 = handed e" "s_xSemaphore e6 = s_xSemaphore e" "\<not> eth_Lock e6"
    using s3 by (simp_all add: e6_def e5_def e4_def T(1) set_info_def set_DMASR_def Let_def)
  moreover have "rx_queue e6 gs"
  proof -
    have x: "((?r + ?m) mod 4 + k) mod 4 = (?r + (?m + k)) mod 4" for k by (simp add: mod_add_left_eq add.assoc)
    have "rx_ring e6" using T(2) s6(1-4) unfolding e4_def [symmetric] by (simp add: rx_ring_def e4_def T(1) s3(2))
    moreover have "rx_holds e6 (((?r + ?m) mod 4 + k) mod 4) (?ss ! k)" if "k < length ?ss" for k
    proof -
      have "rx_desc e6 ((?r + (?m + k)) mod 4) = rx_desc e ((?r + (?m + k)) mod 4)" using K [of "?m + k"] that t by (simp add: s6(1) e4_def s3(1))
      from holds_cong [OF this s6(2)] hold [of "?m + k"] that show ?thesis unfolding x by (simp add: nth_append)
    qed
    moreover have "rx_own e6 (((?r + ?m) mod 4 + k) mod 4)" if k: "k < 4" "length ?ss \<le> k" for k
    proof (cases "?m + k < 4")
      case True
      have "rx_desc e6 ((?r + (?m + k)) mod 4) = rx_desc e ((?r + (?m + k)) mod 4)" using K [OF True] by (simp add: s6(1) e4_def s3(1))
      then show ?thesis using own [OF True] k(2) unfolding x rx_own_def by simp
    next
      case False
      then have j: "?m + k - 4 < ?m" "?m + k - 4 < 4" using k m by simp_all
      have "?r + (?m + k) = (?r + (?m + k - 4)) + 4" using False by simp
      then have "(?r + (?m + k)) mod 4 = (?r + (?m + k - 4)) mod 4" by (metis mod_add_self2)
      moreover have "bit (d_Status (rx_desc e6 ((?r + (?m + k - 4)) mod 4))) 31"
        using K [OF j(2)] j(1) by (simp add: s6(1) e4_def bit_or_iff bits_of_flags)
      ultimately show ?thesis unfolding x own_bit by simp
    qed
    ultimately show ?thesis using q s6(4,5) t by (auto simp: rx_queue_def Let_def simp del: length_concat)
  qed
  ultimately show ?thesis using s3(6) by auto
qed

lemma input_empty:
  assumes "rx_queue e []" "\<not> eth_Lock e"
  shows "\<exists>e'. low_level_input e = (None, e') \<and> rx_queue e' [] \<and> \<not> eth_Lock e'
    \<and> pool e' = pool e \<and> handed e' = handed e \<and> s_xSemaphore e' = s_xSemaphore e"
proof -
  let ?e = "e\<lparr>eth_State := HAL_ETH_STATE_READY, eth_Lock := False\<rparr>"
  have o: "\<And>k. k < 4 \<Longrightarrow> rx_own e ((eth_RxDesc e + k) mod 4)" and r: "eth_RxDesc e mod 4 = eth_RxDesc e"
    using assms(1) by (simp_all add: rx_queue_def rx_ring_def)
  have "rx_own e (eth_RxDesc e)" using o [of 0] r by simp
  then have "HAL_ETH_GetReceivedFrame_IT e = (HAL_ERROR, ?e)"
    using assms(2) by (simp add: HAL_ETH_GetReceivedFrame_IT_def locked_def unlocked_def numeral_eq_Suc rx_own_def)
  then have "low_level_input e = (None, ?e)" by (simp add: low_level_input_def)
  moreover have "rx_queue ?e []" using assms(1) by (simp add: rx_queue_def rx_ring_def rx_own_def)
  ultimately show ?thesis by simp
qed

section \<open>The input task\<close>

text \<open>
  What the task hands up of the frames in the ring when \<open>pool\<close> buffers are free and the stack takes the packets
  \<open>takes\<close>: the packets, the buffers that are free afterwards and the frames that are left in the ring.
\<close>

fun handed_up :: "(u8 list list \<Rightarrow> bool) \<Rightarrow> nat \<Rightarrow> u8 list list \<Rightarrow> u8 list list list \<times> nat \<times> u8 list list" where
  "handed_up takes free [] = ([], free, [])"
| "handed_up takes free (g # gs) =
    (let p = segs (frame_of g)
     in if length p \<le> free then
          (case handed_up takes (if takes p then free - length p else free) gs of (ps, free, rest) \<Rightarrow> (p # ps, free, rest))
        else ([], free, gs))"

lemma input_loop_hands_up:
  assumes "rx_queue e gs" "\<not> eth_Lock e" "handed_up takes (pool e) gs = (ps, free, rest)" "\<And>p e. N p e = (takes p, e)"
  shows "\<exists>e'. input_loop N e = Some e' \<and> handed e' = handed e @ ps \<and> pool e' = free \<and> rx_queue e' rest \<and> \<not> eth_Lock e'
    \<and> s_xSemaphore e' = s_xSemaphore e"
  using assms(1-3)
proof (induction gs arbitrary: e ps free rest)
  case Nil
  from input_empty [OF Nil(1,2)] obtain e' where
    "low_level_input e = (None, e')" "rx_queue e' []" "\<not> eth_Lock e'" "pool e' = pool e" "handed e' = handed e" "s_xSemaphore e' = s_xSemaphore e" by blast
  then show ?case using Nil(3) by (simp add: input_loop.simps [of N e])
next
  case (Cons g gs)
  let ?p = "segs (frame_of g)"
  from input_frame [OF Cons.prems(1,2) refl] obtain e1 where
    1: "low_level_input e = (if length ?p \<le> pool e then Some ?p else None, e1)" "rx_queue e1 gs" "\<not> eth_Lock e1"
      "pool e1 = (if length ?p \<le> pool e then pool e - length ?p else pool e)" "handed e1 = handed e" "s_xSemaphore e1 = s_xSemaphore e"
    by blast
  show ?case
  proof (cases "length ?p \<le> pool e")
    case True
    let ?e2 = "if takes ?p then e1\<lparr>handed := handed e1 @ [?p]\<rparr> else pbuf_free ?p (e1\<lparr>handed := handed e1 @ [?p]\<rparr>)"
    obtain ps' where u: "handed_up takes (if takes ?p then pool e - length ?p else pool e) gs = (ps', free, rest)" "ps = ?p # ps'"
      using Cons.prems(3) True by (auto simp: Let_def split: prod.splits)
    have e2: "rx_queue ?e2 gs" "\<not> eth_Lock ?e2" "pool ?e2 = (if takes ?p then pool e - length ?p else pool e)"
      "handed ?e2 = handed e @ [?p]" "s_xSemaphore ?e2 = s_xSemaphore e"
      using 1 True by (simp_all add: rx_queue_def rx_ring_def rx_holds_def rx_own_def rx_buf_def pbuf_free_def del: length_concat)
    have "input_loop N e = input_loop N ?e2" using 1(1) True assms(4) by (subst input_loop.simps) simp
    with Cons.IH [OF e2(1,2), of ps' free rest] u e2(3-5) show ?thesis by auto
  next
    case False
    then have "input_loop N e = Some e1" using 1(1) by (simp add: input_loop.simps [of N e])
    with 1 False Cons.prems(3) show ?thesis by (auto simp: Let_def)
  qed
qed

end
