(* ===== verification/Eth_Props.thy ===== *)
theory Eth_Props
  imports Eth_Rx
begin

text \<open>What the network interface promises, from the stack to the wire and from the wire to the stack.\<close>

section \<open>Transmission\<close>

text \<open>
  C39: Whatever packets the stack sends and however the DMA comes in between, the frames on the wire are the
  packets that were accepted, whole and in their order; when the DMA has nothing left to send, all of them. A
  packet of at most 6096 bytes, in any chain of buffers, is accepted exactly when the four descriptors have room
  for its segments next to the frames that are still to be sent.
\<close>

theorem frames_in_order:
  assumes "eth_traffic e h accepted wire"
  shows "\<exists>rest. accepted = wire @ rest \<and> (dma_send 4 h e = None \<longleftrightarrow> rest = [])
    \<and> (\<forall>p. concat p \<noteq> [] \<and> length (concat p) \<le> 6096 \<longrightarrow>
         (fst (low_level_output p e) = ERR_OK \<longleftrightarrow> length (concat (map segs rest)) + length (segs (concat p)) \<le> 4))"
proof -
  obtain frs where q: "tx_queue e h frs" "accepted = wire @ frs" using traffic_queue [OF assms] by blast
  have "dma_send 4 h e = None \<longleftrightarrow> frs = []"
  proof (cases frs)
    case (Cons g gs)
    have "tx_queue e h (g # gs)" using q(1) by (simp only: Cons)
    from dma_send_queue [OF this] have "dma_send 4 h e \<noteq> None" by (elim exE conjE) (simp only: option.distinct not_False_eq_True)
    moreover have "frs \<noteq> []" unfolding Cons by (rule list.distinct)
    ultimately show ?thesis by (simp only:)
  next
    case Nil
    with dma_send_empty [of e h] q(1) show ?thesis by metis
  qed
  moreover have "fst (low_level_output p e) = ERR_OK \<longleftrightarrow> length (concat (map segs frs)) + length (segs (concat p)) \<le> 4"
    if "concat p \<noteq> [] \<and> length (concat p) \<le> 6096" for p
    using output_queue [OF q(1) conjunct1 [OF that] conjunct2 [OF that]]
    by (cases "low_level_output p e") (simp add: Let_def split: if_splits)
  ultimately show ?thesis using q(2) by (intro exI [of _ frs] conjI allI impI)
qed

section \<open>Reception\<close>

text \<open>
  C40: After the interrupt for received frames the input task takes the frames out of the ring, oldest first, and
  hands up each of them whole, without its check sum, in as many buffers of the pool as it has segments; a packet
  the stack does not take is freed. A frame for which the pool has too few buffers is lost and ends the round:
  the frames behind it stay in the ring, and the task does nothing until the next interrupt. All descriptors of
  the frames that were taken out are given back to the DMA.
\<close>

theorem frames_handed_up:
  assumes "rx_queue e gs" and "DMASR e AND ETH_DMASR_RS \<noteq> 0" and "\<And>p e. N p e = (takes p, e)"
    and "handed_up takes (pool e) gs = (packets, free, rest)"
  shows "\<exists>e'. ethernetif_input N (HAL_ETH_IRQHandler e) = Some e' \<and> handed e' = handed e @ packets
    \<and> pool e' = free \<and> rx_queue e' rest \<and> ethernetif_input N e' = Some e'"
proof -
  let ?i = "HAL_ETH_IRQHandler e"
  have "DMASR e AND ETH_DMASR_RS = ETH_DMASR_RS"
  proof -
    have "bit (DMASR e) 6" using assms(2) and_exp_eq_0_iff_not_bit [where 'a = "32 word", of "DMASR e" 6] by simp
    moreover have "bit ETH_DMASR_RS n \<longleftrightarrow> n = 6" for n using bit_exp_iff [where 'a = "32 word", of 6 n] by auto
    ultimately show ?thesis by (intro bit_eqI) (auto simp only: bit_and_iff)
  qed
  then have i: "s_xSemaphore ?i" "\<not> eth_Lock ?i" "pool ?i = pool e" "handed ?i = handed e" "DMARxDscrTab ?i = DMARxDscrTab e"
    "Rx_Buff ?i = Rx_Buff e" "eth_RxDesc ?i = eth_RxDesc e" "RxFrameInfos ?i = RxFrameInfos e"
    by (simp_all add: HAL_ETH_IRQHandler_def HAL_ETH_RxCpltCallback_def eth_ready_def set_DMASR_def Let_def)
  let ?s = "?i\<lparr>s_xSemaphore := False\<rparr>"
  have "rx_desc ?s = rx_desc e" by (simp add: rx_desc_def i fun_eq_iff)
  then have "rx_queue ?s gs"
    using assms(1) by (simp add: rx_queue_def rx_ring_def rx_holds_def rx_own_def rx_buf_def i del: length_concat)
  from input_loop_hands_up [where takes = takes and N = N, OF this _ _ assms(3)] have
    "\<exists>e'. input_loop N ?s = Some e' \<and> handed e' = handed ?s @ packets \<and> pool e' = free \<and> rx_queue e' rest
      \<and> \<not> eth_Lock e' \<and> s_xSemaphore e' = s_xSemaphore ?s"
    using i(2,3) assms(4) by simp
  then obtain e' where
    "input_loop N ?s = Some e'" "handed e' = handed e @ packets" "pool e' = free" "rx_queue e' rest" "\<not> s_xSemaphore e'"
    using i(4) by (elim exE conjE) simp
  then show ?thesis using i(1) by (intro exI [of _ e']) (simp add: ethernetif_input_def)
qed

section \<open>Witnesses\<close>

definition idle_eth :: eth where
  "idle_eth = \<lparr>eth_RxDesc = 0, eth_TxDesc = 0,
     RxFrameInfos = \<lparr>FSRxDesc = None, LSRxDesc = None, SegCount = 0, fr_length = 0, fr_buffer = 0\<rparr>,
     eth_State = HAL_ETH_STATE_READY, eth_Lock = False, DMASR = 0, DMATDLAR = 0, DMARDLAR = 0,
     DMATxDscrTab = replicate 4 null_desc, DMARxDscrTab = replicate 4 null_desc, Tx_Buff = replicate 6096 0, Rx_Buff = replicate 6096 0,
     s_xSemaphore = False, pool = 1, handed = [], polls = []\<rparr>"

theorem frames_in_order_witness:
  "\<exists>e. eth_traffic e 0 [[1, 2, 3]] [] \<and> dma_send 4 0 e \<noteq> None \<and> fst (low_level_output [replicate 5000 0] e) = ERR_USE"
proof -
  obtain e0 where s: "HAL_ETH_DMATxDescListInit idle_eth = (HAL_OK, e0)"
    by (simp add: HAL_ETH_DMATxDescListInit_def locked_def unlocked_def idle_eth_def)
  have l: "length (DMATxDscrTab idle_eth) = 4" "length (Tx_Buff idle_eth) = 6096" by (simp_all add: idle_eth_def)
  obtain r e where o: "low_level_output [[1, 2], [3]] e0 = (r, e)" by force
  have "segs [1, 2, 3] = [[1, 2, 3]]" by (simp add: segs.simps [of "[1, 2, 3]"])
  then have "r = ERR_OK" using output_queue [OF conjunct1 [OF queue_set_up [OF l s]], of "[[1, 2], [3]]"] o by simp
  with eth_traffic.packet [OF eth_traffic.set_up [OF l s] _ _ o] have t: "eth_traffic e 0 [[1, 2, 3]] []" by simp
  from frames_in_order [OF t] have d: "dma_send 4 0 e \<noteq> None"
    and a: "fst (low_level_output [replicate 5000 0] e) \<noteq> ERR_OK"
    using length_segs [of "replicate 5000 0"] length_segs [of "[1, 2, 3]"] by auto
  have "fst (low_level_output p e) \<in> {ERR_OK, ERR_USE}" for p by (simp add: low_level_output_def case_prod_beta split: sum.split)
  with t d a show ?thesis by blast
qed

text \<open>Two frames of six bytes, and one buffer in the pool.\<close>

definition busy_eth :: eth where
  "busy_eth = idle_eth\<lparr>DMASR := 0x40,
     DMARxDscrTab := [\<lparr>d_Status = 0x000A0300, d_ControlBufferSize = 0, d_Buffer1Addr = 0, d_Buffer2NextDescAddr = 1\<rparr>,
       \<lparr>d_Status = 0x000A0300, d_ControlBufferSize = 0, d_Buffer1Addr = 1524, d_Buffer2NextDescAddr = 2\<rparr>,
       \<lparr>d_Status = 0x80000000, d_ControlBufferSize = 0, d_Buffer1Addr = 3048, d_Buffer2NextDescAddr = 3\<rparr>,
       \<lparr>d_Status = 0x80000000, d_ControlBufferSize = 0, d_Buffer1Addr = 4572, d_Buffer2NextDescAddr = 0\<rparr>],
     Rx_Buff := replicate 6096 7\<rparr>"

theorem frames_handed_up_witness:
  "\<exists>e'. ethernetif_input (\<lambda>p e. (True, e)) (HAL_ETH_IRQHandler busy_eth) = Some e'
    \<and> handed e' = [[replicate 6 7]] \<and> pool e' = 0 \<and> rx_queue e' []"
proof -
  let ?g = "replicate 10 7 :: u8 list"
  have s: "segs ?g = [?g]" "segs (replicate 6 7) = [replicate 6 7]" by (simp_all add: segs.simps)
  have c: "concat (map rx_marked [?g, ?g]) = [(True, True, 10, ?g), (True, True, 10, ?g)]" by (simp add: rx_marked_def s)
  have four: "(\<forall>i<4. P i) \<longleftrightarrow> P 0 \<and> P 1 \<and> P 2 \<and> P (3 :: nat)" for P by (auto simp: numeral_eq_Suc less_Suc_eq)
  have two: "(\<forall>k<2. P k) \<longleftrightarrow> P 0 \<and> P (Suc 0)" for P by (auto simp: less_Suc_eq numeral_2_eq_2)
  have "rx_ring busy_eth" unfolding rx_ring_def four by (simp add: busy_eth_def idle_eth_def rx_desc_def)
  moreover have "rx_holds busy_eth 0 (True, True, 10, ?g)" "rx_holds busy_eth 1 (True, True, 10, ?g)"
    by (simp_all add: rx_holds_def rx_own_def busy_eth_def rx_desc_def rx_buf_def)
  moreover have "rx_own busy_eth 2" "rx_own busy_eth 3" by (simp_all add: rx_own_def busy_eth_def rx_desc_def)
  moreover have "eth_RxDesc busy_eth = 0" "SegCount (RxFrameInfos busy_eth) = 0" by (simp_all add: busy_eth_def idle_eth_def)
  ultimately have q: "rx_queue busy_eth [?g, ?g]"
    unfolding rx_queue_def Let_def c four by (simp add: two flip: numeral_2_eq_2)
  have f: "frame_of ?g = replicate 6 7" by (simp add: frame_of_def)
  have "handed_up (\<lambda>_. True) (pool busy_eth) [?g, ?g] = ([[replicate 6 7]], 0, [])"
    by (simp add: f s Let_def) (simp add: busy_eth_def idle_eth_def)
  from frames_handed_up [OF q _ _ this, of "\<lambda>p e. (True, e)"] show ?thesis by (auto simp: busy_eth_def idle_eth_def)
qed

end
