(* ===== verification/Spec2Isabelle.thy ===== *)
theory Spec2Isabelle
  imports Usb_Hub_Children Usb_CH340_Props Usb_CH340_Iface App_CH340_Props Usb_MSC_Start_Props Usb_AOA_Props Usb_Drivers_Props Usb_Hcd_Port Board_Iic_Props Eth_Props
begin

text \<open>
  A model of the USB host side of the firmware and of its network interface, in the order the code has its layers, and what was proved of
  it. Paths are relative to \<open>src/\<close>; the host library is \<open>Middle/STM32_USB_Host_Library\<close>.

  \<^bold>\<open>The program.\<close> One task runs \<open>USBH_Process\<close> for the root handle \<open>hUSBHost\<close>. It waits for a device, resets
  the port, enumerates the device (descriptors, address, strings), chooses the driver of its class, sets the
  configuration and then calls the driver's functions for ever. A hub's driver creates a handle for every
  device that is connected to one of its ports and runs the same machine for it; the handles share the table
  of host channels and the table of device addresses. The CH340 driver starts the serial adapter up, moves
  data and calls the application, which keeps the bytes it receives in a ring in SDRAM that a log task
  empties. The mass storage driver sends SCSI commands over the bulk-only transport: it asks every unit what
  it is and then reads and writes sectors for its callers. The driver of the accessory mode gets every other
  device, asks it to switch and then echoes what it sends. Below the library are the \<open>USBH_LL\<close> functions and
  the HCD driver, whose interrupt handler serves the channels, the receive FIFO and the port, and the functions
  that work on the registers of the OTG core. The power of the port is switched on through a port expander on a
  two-wire bus that the program drives pin by pin. Beside all this the network interface copies the packets of
  the IP stack into the transmit ring of the Ethernet DMA, and its input task takes the received frames out of
  the other ring into buffers from a pool.

  \<^bold>\<open>The theories.\<close>
  \<^item> \<open>Prelude\<close>, \<open>Slot_Pool\<close>: bytes, bounded search, and the contract of an allocator of numbered slots, which
    the channels, the device addresses and the SDRAM buffers are instances of.
  \<^item> \<open>Usb_Types\<close>, \<open>Usb_World\<close>: the structures of usbh\_def.h and of the drivers as records, and the one state
    \<open>usb\<close> all operations take and return, with the conventions for pointers, faults and calls.
  \<^item> \<open>Usb_Hcd\<close>, \<open>Usb_LL\<close>, \<open>Usb_Hcd_Props\<close>: Driver/Src/stm32f7xx\_hal\_hcd.c (requests, channel interrupts)
    and Core/Src/usbh\_conf.c.
  \<^item> \<open>Usb_Otg\<close>, \<open>Usb_Hcd_Irq\<close>: the registers and the host functions of Driver/Src/stm32f7xx\_ll\_usb.c, and
    \<open>HAL_HCD_IRQHandler\<close> with its callbacks, on the registers and the state of the library together.
    \<open>Usb_Otg_Props\<close> (fields of the registers, what a request programs), \<open>Usb_Hcd_Irq_Props\<close> (a transfer that
    is received), \<open>Usb_Hcd_Idle\<close> (the channels nobody serves), \<open>Usb_Hcd_Port\<close> (plugging in, pulling out).
  \<^item> \<open>Usb_Pipes\<close>, \<open>Usb_IOReq\<close>, \<open>Usb_CtlReq\<close>, \<open>Usb_Desc\<close>, \<open>Usb_Core\<close>: Core/Src/usbh\_pipes.c, usbh\_ioreq.c,
    usbh\_ctlreq.c (requests; descriptor parsers) and usbh\_core.c, each function under its own name.
    \<open>Usb_Desc_Props\<close>, \<open>Usb_CtlReq_Props\<close>, \<open>Usb_Bus\<close>, \<open>Usb_Core_Props\<close>, \<open>Usb_Enum_Props\<close>: what they do.
  \<^item> \<open>Usb_Hub\<close>, \<open>Usb_Class_Run\<close>, \<open>Usb_Hub_Props\<close>, \<open>Usb_Hub_Children\<close>: Class/HUB/Src/usbh\_hub.c.
  \<^item> \<open>Usb_CH340\<close>, \<open>Usb_CH340_Data\<close>, \<open>Usb_CH340_Props\<close>, \<open>Usb_CH340_Iface\<close>: Class/CH340/Src/usbh\_ch340.c.
  \<^item> \<open>Usb_MSC\<close>, \<open>Usb_SCSI\<close>, \<open>Usb_MSC_Class\<close>: Class/MSC/Src/usbh\_msc\_bot.c, usbh\_msc\_scsi.c, usbh\_msc.c.
    What they do is in \<open>Usb_MSC_Shape\<close> (what every operation keeps), \<open>Usb_MSC_Machine\<close> (the transport as a
    step relation), \<open>Usb_MSC_Bus\<close> and \<open>Usb_MSC_Command\<close> (a command on a device, round by round),
    \<open>Usb_MSC_Rw\<close> (reads and writes), \<open>Usb_MSC_Props\<close>, \<open>Usb_MSC_Start\<close> and \<open>Usb_MSC_Start_Props\<close> (the
    start-up).
  \<^item> \<open>Usb_AOA\<close>, \<open>Usb_AOA_Requests\<close>, \<open>Usb_AOA_Props\<close>: Class/AOA/Src/usbh\_aoa.c.
  \<^item> \<open>Usb_Drivers_Props\<close>: what the four drivers leave to the core, and the transitions of its state machine
    with them.
  \<^item> \<open>Sdram_Alloc\<close>, \<open>App_CH340\<close>, \<open>App_CH340_Ring\<close>, \<open>App_CH340_Props\<close>: User/sdram\_alloc.c and
    User/app\_ch340.c.
  \<^item> \<open>Board_Iic\<close>, \<open>Board_Iic_Props\<close>: Hardware/IIC/myiic.c and Hardware/PCF8574/pcf8574.c, on the history of
    the two lines.
  \<^item> \<open>Eth_Dma\<close>: Driver/Src/stm32f7xx\_hal\_eth.c (rings, frames, interrupt), Middle/LwIP/src/netif/ethernetif.c
    (output, input) and the pool branch of \<open>pbuf_alloc\<close> in core/pbuf.c. \<open>Eth_Tx\<close>, \<open>Eth_Rx\<close>, \<open>Eth_Props\<close>: the
    two rings as queues of frames, and what the driver and the interface do to them.

  \<^bold>\<open>Hardware, interrupts, other tasks.\<close> An operation that polls or waits takes a function \<open>E\<close> on the state
  and applies it there. A theorem says what it needs of \<open>E\<close>, as a locale that the theories interpret on
  concrete environments: \<open>bus\<close> (leaves the request alone), \<open>reliable_bus\<close> and \<open>tame_bus\<close> (every transfer
  completes, nothing else of the handle changes), \<open>device_bus\<close> and \<open>exact_bus\<close> (and the device answers with
  the bytes \<open>reply\<close> gives), \<open>failing_bus\<close>, \<open>stalling_bus\<close>, \<open>silent_bus\<close>; \<open>log_environment\<close> and
  \<open>stopped_in_time\<close> for the application; \<open>msc_environment\<close> (the handle changes only where the hardware
  writes) and \<open>storage_bus\<close> (a storage device with its status and data) for mass storage, with
  \<open>command_rounds\<close> for whoever calls the transport round by round (the loop of a read or write, the
  background process of the start-up), and \<open>transport_invariant\<close>, the contract of a predicate the transport
  keeps; \<open>refusing_bus\<close>, \<open>reading_bus\<close> and \<open>accessory_bus\<close> for the accessory driver; \<open>pcf8574\<close>, the
  port expander by the frames it has seen. The OTG core
  is a record of functions \<open>otg_hw\<close> (what a write makes of the registers with bits that are cleared by writing
  them, and what happens between two reads of a polling loop); \<open>otg_core\<close> and \<open>otg_quiet\<close> say what a theorem
  needs of it, and an interrupt is one run of the handler on registers the core has set. The Ethernet DMA takes
  the frame at its position of the transmit ring at any time (\<open>dma_send\<close>); \<open>netif->input\<close> is an argument. The drivers the library
  calls are a record of functions \<open>class_ops\<close>, which \<open>drivers\<close> fills with the four of the firmware.

  \<^bold>\<open>Faults.\<close> An access outside an array or through a null or freed pointer is recorded in \<open>faults\<close>, reads as
  0 and writes nothing. Theorems about a run say that it adds no fault, or which one.

  \<^bold>\<open>Loops.\<close> A loop the code bounds is a recursive function. A loop it does not bound is a partial function
  that is \<open>None\<close> when it does not end; a theorem that such code returns says \<open>Some\<close>. A caller that repeats a
  request is \<open>run_req n\<close>, which stops after \<open>n\<close> calls: the theorems give the number that is enough (7 for a
  request with data, 5 without, 54 for an enumeration, 50 for the start-up of the adapter) and hold for
  every larger one. The loop of a sector read or write ends by the timer: the device is given at most one
  tick each time it is looked at, and the bound of ten thousand ticks for a sector is then never reached.

  \<^bold>\<open>Properties.\<close> Enumeration from the first descriptor to the last string with every transfer it makes, of a
  root device and of a device behind a hub; the control transfer machine with its completion, its retries
  and its stalls; the configuration parser against the list of descriptors it reads; the host state
  machine's transitions; channels and addresses that stay distinct over all handles; the hub's power-up and
  port scan; the adapter's start-up, line coding, transfer and channels; the ring as a queue that keeps its
  bounds; the life of the application; the start-up of a storage device; reads and writes of sectors with
  every transfer, the command block as the device reads it, the states of the transport; the switch to
  accessory mode with the strings the phone gets, and the echo; what a request and a channel's set-up put into
  the registers, a transfer from the packets in the FIFO to the buffer of the caller, a device that is plugged
  in and one that is pulled out, from the port's interrupt on; a pin of the port expander that is set, with the
  frames on the wires; the rings of the Ethernet driver as queues, with the frames on the wire and the packets
  handed up. Where the code hangs, leaks or loses data a
  property says so: descriptors of length zero, a port without power, a full ring, a
  read that fails and is reported as done, a unit that stays busy after a time-out, units the array has no
  room for, a device of an unknown class, which stops the host for good, a channel that no interrupt serves, a
  FIFO interrupt that no handler clears, a port expander that does not answer.

  \<^bold>\<open>Not modelled.\<close> Clock and pin set-up (\<open>HAL_HCD_MspInit\<close>) and the other HAL and board drivers, which are
  register tables; the device-mode functions, the high-speed PHY and the DMA mode of the OTG driver, which this
  configuration does not use; the lock of the HCD handle, since calls of the driver are atomic here; the set-up of
  the Ethernet MAC and its PHY; the text of log lines; third-party libraries (FatFs, LwIP, FreeRTOS) except for the
  interface between LwIP and the Ethernet driver and for the message queues, where the queue of the host task
  has no bound and a message for the full queue of an application waits one tick; class drivers that the
  firmware does not register.
\<close>

end
